(* ===== verification/Prelude.thy ===== *)
theory Prelude
  imports Complex_Main "HOL-Library.Word" "HOL-Library.Multiset"
begin

text \<open>
  The Python runtime as the components use it: byte strings, exceptions as values of a sum
  type, big-endian integers (\<open>int.to_bytes\<close>, \<open>int.from_bytes\<close>), the eight-byte frame layout
  that all five wire formats share, and the generic lemmas on them. Nothing here models a file
  of the repository on its own, except the reason codes of \<open>src/common/resumption.py\<close>, which
  are part of the exception type.
\<close>

section \<open>Values\<close>

type_synonym byte = "8 word"
type_synonym bytes = "8 word list"

text \<open>Clock readings: a finite Python float is a rational number.\<close>

type_synonym seconds = rat

text \<open>The \<open>Reason\<close> enumeration of \<open>src/common/resumption.py\<close>.\<close>

datatype reason =
    NO_TICKET | EXPIRED | MAX_USES | PROFILE_MISMATCH | BAD_AUTH
  | REPLAY | L4_REQUIRED | MALFORMED | INTERNAL_ERROR | REPLAY_CACHE_FULL

text \<open>
  Exceptions. The string is the fixed leading part of the message; interpolated values are
  left out. \<open>ResumeError\<close> is a subclass of \<open>ValueError\<close> in the source (\<open>is_ValueError\<close>). The
  exceptions a GATT request raises are Bleak's protocol error with an ATT code, another Bleak error
  with its message (ASCII), and an \<open>OSError\<close> with its \<open>winerror\<close> attribute, if any.
\<close>

datatype gatt_exception = GattProtocolError int | BleakError string | OtherError "int option"

datatype exn =
    ValueError string
  | TypeError string
  | RuntimeError string
  | OverflowError
  | ZeroDivisionError
  | StructError
  | IndexError
  | KeyError
  | AttributeError
  | InvalidTag
  | TimeoutError
  | OSError
  | ResumeError reason
  | Phase5StateError string
  | ProtocolError string
  | NegativeTestPassed string
  | ConnectionError
  | GattExn gatt_exception

definition is_ValueError :: "exn \<Rightarrow> bool" where
  "is_ValueError e = (case e of ValueError _ \<Rightarrow> True | ResumeError _ \<Rightarrow> True | _ \<Rightarrow> False)"

type_synonym 'a result = "exn + 'a"

section \<open>Sequencing of fallible computations\<close>

definition bindR :: "'a result \<Rightarrow> ('a \<Rightarrow> 'b result) \<Rightarrow> 'b result" where
  "bindR m f = (case m of Inl e \<Rightarrow> Inl e | Inr x \<Rightarrow> f x)"

text \<open>A statement of the form \<open>if not condition: raise error\<close>.\<close>

definition requireR :: "bool \<Rightarrow> exn \<Rightarrow> unit result" where
  "requireR b e = (if b then Inr () else Inl e)"

fun mapR :: "('a \<Rightarrow> 'b result) \<Rightarrow> 'a list \<Rightarrow> 'b list result" where
  "mapR f [] = Inr []"
| "mapR f (x # xs) = bindR (f x) (\<lambda>y. bindR (mapR f xs) (\<lambda>ys. Inr (y # ys)))"

section \<open>Bytes\<close>

text \<open>A \<open>b"..."\<close> literal.\<close>

definition ascii :: "string \<Rightarrow> bytes" where
  "ascii s = map of_char s"

text \<open>\<open>n.to_bytes(k, "big")\<close> for an \<open>n\<close> that fits, and with Python's range check.\<close>

fun be_bytes :: "nat \<Rightarrow> nat \<Rightarrow> bytes" where
  "be_bytes 0 n = []"
| "be_bytes (Suc k) n = be_bytes k (n div 256) @ [word_of_nat (n mod 256)]"

definition to_bytes :: "int \<Rightarrow> nat \<Rightarrow> bytes result" where
  "to_bytes n k = (if 0 \<le> n \<and> n < 256 ^ k then Inr (be_bytes k (nat n)) else Inl OverflowError)"

text \<open>\<open>int.from_bytes(bs, "big")\<close>.\<close>

definition be_nat :: "bytes \<Rightarrow> nat" where
  "be_nat bs = foldl (\<lambda>acc b. acc * 256 + unat b) 0 bs"

text \<open>\<open>bytes((n,))\<close>: a \<open>ValueError\<close> outside 0..255.\<close>

definition one_byte :: "int \<Rightarrow> bytes result" where
  "one_byte n = (if 0 \<le> n \<and> n \<le> 255 then Inr [word_of_int n]
                 else Inl (ValueError ''bytes must be in range(0, 256)''))"

text \<open>The slice \<open>bs[i:j]\<close> for non-negative bounds.\<close>

definition slice :: "nat \<Rightarrow> nat \<Rightarrow> 'a list \<Rightarrow> 'a list" where
  "slice i j bs = drop i (take j bs)"

text \<open>\<open>buffer[:] = b"\x00" * len(buffer)\<close>.\<close>

definition wipe :: "bytes \<Rightarrow> bytes" where
  "wipe buffer = replicate (length buffer) 0"

definition wiped :: "bytes \<Rightarrow> bool" where
  "wiped buffer \<longleftrightarrow> (\<forall>b \<in> set buffer. b = 0)"

text \<open>The last byte xor 1: \<open>raw[:-1] + bytes((raw[-1] ^ 1,))\<close> on a non-empty value.\<close>

definition flip_last :: "bytes \<Rightarrow> bytes" where
  "flip_last raw = butlast raw @ [xor (last raw) 1]"

text \<open>The layout \<open>magic || version || subtype || payload_len_be16 || payload\<close>.\<close>

definition frame_wire :: "bytes \<Rightarrow> int \<Rightarrow> int \<Rightarrow> bytes \<Rightarrow> bytes" where
  "frame_wire magic version subtype payload =
     magic @ [word_of_int version, word_of_int subtype] @ be_bytes 2 (length payload) @ payload"

text \<open>\<open>len(value).to_bytes(2, "big") + value\<close>, the transcript field prefix.\<close>

definition lp_field :: "bytes \<Rightarrow> bytes" where
  "lp_field value = be_bytes 2 (length value) @ value"

section \<open>Lemmas\<close>

named_theorems eval_simps "evaluation of closed byte-level terms by the simplifier"

subsection \<open>Results\<close>

lemma bindR_simps [simp]:
  "bindR (Inl e) f = Inl e"
  "bindR (Inr x) f = f x"
  by (simp_all add: bindR_def)

lemma bindR_eq_Inr [simp]:
  "bindR m f = Inr y \<longleftrightarrow> (\<exists>x. m = Inr x \<and> f x = Inr y)"
  by (cases m) simp_all

lemma bindR_eq_Inl:
  "bindR m f = Inl e \<longleftrightarrow> m = Inl e \<or> (\<exists>x. m = Inr x \<and> f x = Inl e)"
  by (cases m) simp_all

lemma requireR_simps [simp]:
  "requireR True e = Inr ()"
  "requireR False e = Inl e"
  "requireR b e = Inr u \<longleftrightarrow> b"
  "requireR b e = Inl e' \<longleftrightarrow> \<not> b \<and> e' = e"
  by (auto simp: requireR_def)

lemma Inr_or_Inl: "(\<exists>x. m = Inr x) \<or> (\<exists>e. m = Inl e)"
  by (cases m) auto

lemma mapR_Inr_iff:
  "mapR f xs = Inr ys \<longleftrightarrow> list_all2 (\<lambda>x y. f x = Inr y) xs ys"
  by (induction xs arbitrary: ys) (auto simp: list_all2_Cons1)

lemma mapR_pure:
  "(\<And>x. x \<in> set xs \<Longrightarrow> f x = Inr (g x)) \<Longrightarrow> mapR f xs = Inr (map g xs)"
  by (induction xs) auto

subsection \<open>Big-endian integers\<close>

lemma length_be_bytes [simp]: "length (be_bytes k n) = k"
  by (induction k arbitrary: n) simp_all

lemma be_bytes_numeral [eval_simps]:
  "be_bytes (numeral k) n = be_bytes (pred_numeral k) (n div 256) @ [word_of_nat (n mod 256)]"
  "be_bytes 1 n = [word_of_nat (n mod 256)]"
  using be_bytes.simps(2) [of "pred_numeral k" n] by (simp_all flip: numeral_eq_Suc)

lemma length_ascii [simp]: "length (ascii s) = length s"
  by (simp add: ascii_def)

lemma be_nat_Nil [simp]: "be_nat [] = 0"
  by (simp add: be_nat_def)

lemma be_nat_snoc [simp]: "be_nat (bs @ [b]) = be_nat bs * 256 + unat b"
  by (simp add: be_nat_def)

lemma unat_byte_less [simp]: "unat (b :: byte) < 256"
  using unsigned_less [of b, where ?'a = nat] by simp

lemma be_nat_less: "be_nat bs < 256 ^ length bs"
proof (induction bs rule: rev_induct)
  case Nil
  then show ?case by simp
next
  case (snoc b bs)
  have "be_nat bs * 256 + unat b < (be_nat bs + 1) * 256"
    by simp
  also have "\<dots> \<le> 256 ^ length bs * 256"
    using snoc.IH by (intro mult_right_mono) auto
  finally show ?case by (simp add: mult.commute)
qed

lemma be_nat_be_bytes [simp]: "be_nat (be_bytes k n) = n mod 256 ^ k"
proof (induction k arbitrary: n)
  case 0
  then show ?case by simp
next
  case (Suc k)
  have "n mod 256 ^ Suc k = (n div 256) mod 256 ^ k * 256 + n mod 256"
    by (simp add: mod_mult2_eq)
  then show ?case
    using Suc.IH by (simp add: unat_of_nat take_bit_eq_mod)
qed

lemma be_bytes_be_nat [simp]: "be_bytes (length bs) (be_nat bs) = bs"
  by (induction bs rule: rev_induct) (simp_all add: div_add1_eq)

lemma be_bytes_inject:
  assumes "be_bytes k m = be_bytes k n" and "m < 256 ^ k" and "n < 256 ^ k"
  shows "m = n"
proof -
  have "be_nat (be_bytes k m) = be_nat (be_bytes k n)"
    using assms(1) by simp
  then show ?thesis using assms(2,3) by simp
qed

lemma be_nat_inject: "length xs = length ys \<Longrightarrow> be_nat xs = be_nat ys \<Longrightarrow> xs = ys"
  by (metis be_bytes_be_nat)

lemma to_bytes_Inr [simp]:
  "to_bytes n k = Inr bs \<longleftrightarrow> 0 \<le> n \<and> n < 256 ^ k \<and> bs = be_bytes k (nat n)"
  by (auto simp: to_bytes_def)

lemma one_byte_Inr [simp]:
  "one_byte n = Inr bs \<longleftrightarrow> 0 \<le> n \<and> n \<le> 255 \<and> bs = [word_of_int n]"
  by (auto simp: one_byte_def)

lemma uint_byte_bounds [simp]: "0 \<le> uint (b :: byte)" "uint (b :: byte) \<le> 255"
  using uint_lt2p [of b] by simp_all

lemma uint_word_of_int_byte [simp]: "0 \<le> n \<Longrightarrow> n \<le> 255 \<Longrightarrow> uint (word_of_int n :: byte) = n"
  by (simp add: uint_word_of_int)

subsection \<open>Slices and wiping\<close>

lemma length_slice [simp]: "length (slice i j bs) = min j (length bs) - i"
  by (simp add: slice_def min.commute)

lemma take_append_drop_slice: "i \<le> j \<Longrightarrow> take i bs @ slice i j bs @ drop j bs = bs"
  unfolding slice_def by (metis append_take_drop_id append.assoc min.absorb1 take_take)

lemma drop_slice: "i \<le> j \<Longrightarrow> drop i b = slice i j b @ drop j b"
  using append_take_drop_id [of "j - i" "drop i b"] by (simp add: slice_def take_drop)

text \<open>A 128-byte key block is its four 32-byte slices.\<close>

lemma slice_quarters:
  assumes "length b = 128"
  shows "slice 0 32 b @ slice 32 64 b @ slice 64 96 b @ slice 96 128 b = b"
  using drop_slice [of 0 32 b] drop_slice [of 32 64 b] drop_slice [of 64 96 b] drop_slice [of 96 128 b] assms
  by simp

lemma length_wipe [simp]: "length (wipe b) = length b"
  by (simp add: wipe_def)

lemma wiped_wipe [simp]: "wiped (wipe b)"
  by (simp add: wiped_def wipe_def)

lemma wiped_Nil [simp]: "wiped []"
  by (simp add: wiped_def)

lemma wipe_Nil [simp]: "wipe [] = []"
  by (simp add: wipe_def)

lemma length_flip_last [simp]: "raw \<noteq> [] \<Longrightarrow> length (flip_last raw) = length raw"
  by (simp add: flip_last_def)

lemma xor_1_neq: "xor (b :: byte) 1 \<noteq> b"
proof
  assume "xor b 1 = b"
  then have "xor b (xor b 1) = xor b b" by simp
  then have "(1 :: byte) = 0" by (simp flip: xor.assoc)
  then show False by simp
qed

lemma flip_last_neq: "raw \<noteq> [] \<Longrightarrow> flip_last raw \<noteq> raw"
  by (metis append_butlast_last_id flip_last_def last_snoc xor_1_neq)

declare slice_def [eval_simps] be_nat_def [eval_simps] ascii_def [eval_simps] Let_def [eval_simps]
  upt_rec [eval_simps] frame_wire_def [eval_simps]

subsection \<open>Frames and transcript fields\<close>

lemma length_frame_wire [simp]:
  "length (frame_wire magic version subtype payload) = length magic + 4 + length payload"
  by (simp add: frame_wire_def)

lemma frame_wire_parts:
  assumes "length magic = 4"
  shows "take 4 (frame_wire magic version subtype payload) = magic"
    and "frame_wire magic version subtype payload ! 4 = word_of_int version"
    and "frame_wire magic version subtype payload ! 5 = word_of_int subtype"
    and "slice 6 8 (frame_wire magic version subtype payload) = be_bytes 2 (length payload)"
    and "drop 8 (frame_wire magic version subtype payload) = payload"
  using assms by (simp_all add: frame_wire_def nth_append slice_def)

lemma list_eq_take_nth_drop:
  assumes "8 \<le> length data"
  shows "data = take 4 data @ [data ! 4, data ! 5] @ slice 6 8 data @ drop 8 data"
proof -
  have a: "data = take 4 data @ drop 4 data" by simp
  have b: "drop 4 data = data ! 4 # data ! 5 # drop 6 data"
    using assms by (simp add: Cons_nth_drop_Suc [symmetric])
  have c: "drop 6 data = slice 6 8 data @ drop 8 data"
    unfolding slice_def using append_take_drop_id [of 2 "drop 6 data"] by (simp add: take_drop)
  show ?thesis using a b c by simp
qed

lemma frame_wire_of_parts:
  assumes "8 \<le> length data"
    and "length data = 8 + be_nat (slice 6 8 data)"
  shows "data = frame_wire (take 4 data) (uint (data ! 4)) (uint (data ! 5)) (drop 8 data)"
proof -
  have "length (slice 6 8 data) = 2" using assms(1) by simp
  moreover have "length (drop 8 data) = be_nat (slice 6 8 data)" using assms(2) by simp
  ultimately have "be_bytes 2 (length (drop 8 data)) = slice 6 8 data"
    by (metis be_bytes_be_nat)
  then show ?thesis
    using list_eq_take_nth_drop [OF assms(1)] by (simp add: frame_wire_def)
qed

lemma parse_wire_length:
  assumes "length magic = 4" and "length p \<le> 65535"
  shows "8 \<le> length (frame_wire magic v t p)"
    and "length (frame_wire magic v t p) = 8 + be_nat (slice 6 8 (frame_wire magic v t p))"
  using assms frame_wire_parts(4) [OF assms(1)] by simp_all

text \<open>The shared shape of the parser proofs: header checks that passed give back the layout.\<close>

lemma frame_wire_intro:
  assumes "\<not> length data < 8" and "take 4 data = magic" and "uint (data ! 4) = v"
    and "length data = 8 + be_nat (slice 6 8 data)"
  shows "data = frame_wire magic v (uint (data ! 5)) (drop 8 data)" and "length (drop 8 data) \<le> 65535"
proof -
  show "data = frame_wire magic v (uint (data ! 5)) (drop 8 data)"
    using frame_wire_of_parts [of data] assms by simp
  have "be_nat (slice 6 8 data) < 256 ^ 2"
    using be_nat_less [of "slice 6 8 data"] assms(1) by simp
  then show "length (drop 8 data) \<le> 65535" using assms(4) by simp
qed

lemma frame_wire_inject:
  assumes "length m = length m'"
    and "0 \<le> v" "v \<le> 255" "0 \<le> v'" "v' \<le> 255" "0 \<le> t" "t \<le> 255" "0 \<le> t'" "t' \<le> 255"
    and "frame_wire m v t p = frame_wire m' v' t' p'"
  shows "m = m' \<and> v = v' \<and> t = t' \<and> p = p'"
proof -
  have *: "m = m'" "word_of_int v = (word_of_int v' :: byte)"
    "word_of_int t = (word_of_int t' :: byte)" "p = p'"
    using assms(1,10) by (auto simp: frame_wire_def)
  have "v = v'" using *(2) assms(2-5) by (metis uint_word_of_int_byte)
  moreover have "t = t'" using *(3) assms(6-9) by (metis uint_word_of_int_byte)
  ultimately show ?thesis using * by simp
qed

lemma frame_wire_eq_iff [simp]: "frame_wire m v t p = frame_wire m v t p' \<longleftrightarrow> p = p'"
  by (auto simp: frame_wire_def)

lemma length_lp_field [simp]: "length (lp_field v) = 2 + length v"
  by (simp add: lp_field_def)

lemma lp_field_neq_Nil [simp]: "lp_field v \<noteq> []"
  using length_lp_field [of v] by (metis add_is_0 list.size(3) zero_neq_numeral)

text \<open>A length-prefixed field can be read back from the front of any byte string.\<close>

lemma lp_field_prefix_inject:
  assumes "lp_field v @ r = lp_field w @ s"
    and "length v \<le> 65535" and "length w \<le> 65535"
  shows "v = w \<and> r = s"
proof -
  have pre: "be_bytes 2 (length v) = be_bytes 2 (length w)" "v @ r = w @ s"
    using assms(1) by (auto simp: lp_field_def)
  then have "length v = length w"
    using be_bytes_inject [of 2 "length v" "length w"] assms(2,3) by simp
  then show ?thesis using pre(2) by simp
qed

lemma lp_fields_inject:
  assumes "concat (map lp_field vs) = concat (map lp_field ws)"
    and "\<forall>v \<in> set vs. length v \<le> 65535" and "\<forall>w \<in> set ws. length w \<le> 65535"
  shows "vs = ws"
  using assms
proof (induction vs arbitrary: ws)
  case Nil
  then show ?case by (cases ws) simp_all
next
  case (Cons v vs)
  then obtain w ws' where ws: "ws = w # ws'"
    by (cases ws) simp_all
  have "v = w \<and> concat (map lp_field vs) = concat (map lp_field ws')"
    using Cons.prems unfolding ws by (intro lp_field_prefix_inject) auto
  then show ?case using Cons.IH [of ws'] Cons.prems ws by auto
qed

end
