(* ===== verification/Hashing.thy ===== *)
theory Hashing
  imports Prelude
begin

text \<open>
  The parts of Python's standard library that compute checksums and digests: SHA-256
  (\<open>hashlib.sha256(data).digest()\<close>), HMAC-SHA-256 (\<open>hmac.digest(key, msg, "sha256")\<close>) and
  CRC-32 (\<open>zlib.crc32\<close>). They are executable; the protocol lemmas use only that a digest has 32
  bytes. HKDF (RFC 5869) is defined from HMAC here as well, to instantiate the parameters that
  stand for the \<open>cryptography\<close> package.
\<close>

unbundle bit_operations_syntax

type_synonym u32 = "32 word"

section \<open>SHA-256\<close>

text \<open>The round constants and the initial state, in decimal.\<close>

definition sha256_K :: "u32 list" where
  "sha256_K =
    [1116352408, 1899447441, 3049323471, 3921009573, 961987163, 1508970993, 2453635748, 2870763221,
     3624381080, 310598401, 607225278, 1426881987, 1925078388, 2162078206, 2614888103, 3248222580,
     3835390401, 4022224774, 264347078, 604807628, 770255983, 1249150122, 1555081692, 1996064986,
     2554220882, 2821834349, 2952996808, 3210313671, 3336571891, 3584528711, 113926993, 338241895,
     666307205, 773529912, 1294757372, 1396182291, 1695183700, 1986661051, 2177026350, 2456956037,
     2730485921, 2820302411, 3259730800, 3345764771, 3516065817, 3600352804, 4094571909, 275423344,
     430227734, 506948616, 659060556, 883997877, 958139571, 1322822218, 1537002063, 1747873779,
     1955562222, 2024104815, 2227730452, 2361852424, 2428436474, 2756734187, 3204031479, 3329325298]"

type_synonym sha_state = "u32 \<times> u32 \<times> u32 \<times> u32 \<times> u32 \<times> u32 \<times> u32 \<times> u32"

definition sha256_H0 :: sha_state where
  "sha256_H0 = (1779033703, 3144134277, 1013904242, 2773480762, 1359893119, 2600822924, 528734635, 1541459225)"

text \<open>The schedule is kept latest word first: index 0 is \<open>w[t - 1]\<close>.\<close>

fun sha256_schedule :: "nat \<Rightarrow> u32 list \<Rightarrow> u32 list" where
  "sha256_schedule 0 w = rev w"
| "sha256_schedule (Suc n) w =
     (let x = w ! 14; y = w ! 1;
          s0 = word_rotr 7 x XOR word_rotr 18 x XOR drop_bit 3 x;
          s1 = word_rotr 17 y XOR word_rotr 19 y XOR drop_bit 10 y
      in sha256_schedule n ((s1 + w ! 6 + s0 + w ! 15) # w))"

fun sha256_round :: "sha_state \<Rightarrow> u32 \<times> u32 \<Rightarrow> sha_state" where
  "sha256_round (a, b, c, d, e, f, g, h) (k, w) =
     (let S1 = word_rotr 6 e XOR word_rotr 11 e XOR word_rotr 25 e;
          ch = (e AND f) XOR (NOT e AND g);
          t1 = h + S1 + ch + k + w;
          S0 = word_rotr 2 a XOR word_rotr 13 a XOR word_rotr 22 a;
          maj = (a AND b) XOR (a AND c) XOR (b AND c)
      in (t1 + (S0 + maj), a, b, c, d + t1, e, f, g))"

fun words_be :: "bytes \<Rightarrow> u32 list" where
  "words_be (a # b # c # d # rest) = word_of_nat (be_nat [a, b, c, d]) # words_be rest"
| "words_be _ = []"

fun sha256_add :: "sha_state \<Rightarrow> sha_state \<Rightarrow> sha_state" where
  "sha256_add (a, b, c, d, e, f, g, h) (a', b', c', d', e', f', g', h') =
     (a + a', b + b', c + c', d + d', e + e', f + f', g + g', h + h')"

definition sha256_block :: "sha_state \<Rightarrow> bytes \<Rightarrow> sha_state" where
  "sha256_block st block =
     sha256_add st (foldl sha256_round st
       (zip sha256_K (sha256_schedule 48 (rev (words_be block)))))"

fun sha256_blocks :: "nat \<Rightarrow> sha_state \<Rightarrow> bytes \<Rightarrow> sha_state" where
  "sha256_blocks 0 st data = st"
| "sha256_blocks (Suc n) st data = sha256_blocks n (sha256_block st (take 64 data)) (drop 64 data)"

definition sha256_pad :: "bytes \<Rightarrow> bytes" where
  "sha256_pad m = m @ [0x80] @ replicate ((119 - length m mod 64) mod 64) 0
     @ be_bytes 8 ((8 * length m) mod 2 ^ 64)"

fun sha256_output :: "sha_state \<Rightarrow> bytes" where
  "sha256_output (a, b, c, d, e, f, g, h) =
     be_bytes 4 (unat a) @ be_bytes 4 (unat b) @ be_bytes 4 (unat c) @ be_bytes 4 (unat d)
     @ be_bytes 4 (unat e) @ be_bytes 4 (unat f) @ be_bytes 4 (unat g) @ be_bytes 4 (unat h)"

definition sha256 :: "bytes \<Rightarrow> bytes" where
  "sha256 m = (let p = sha256_pad m in sha256_output (sha256_blocks (length p div 64) sha256_H0 p))"

section \<open>HMAC and HKDF\<close>

definition hmac_key :: "bytes \<Rightarrow> bytes" where
  "hmac_key key = (let k = (if 64 < length key then sha256 key else key)
                   in k @ replicate (64 - length k) 0)"

definition hmac_sha256 :: "bytes \<Rightarrow> bytes \<Rightarrow> bytes" where
  "hmac_sha256 key msg =
     sha256 (map (\<lambda>b. b XOR 0x5c) (hmac_key key)
       @ sha256 (map (\<lambda>b. b XOR 0x36) (hmac_key key) @ msg))"

fun hkdf_blocks :: "nat \<Rightarrow> nat \<Rightarrow> bytes \<Rightarrow> bytes \<Rightarrow> bytes \<Rightarrow> bytes" where
  "hkdf_blocks 0 i prk info t = []"
| "hkdf_blocks (Suc n) i prk info t =
     (let t' = hmac_sha256 prk (t @ info @ [word_of_nat i])
      in t' @ hkdf_blocks n (Suc i) prk info t')"

definition rfc5869_expand :: "nat \<Rightarrow> bytes \<Rightarrow> bytes \<Rightarrow> bytes" where
  "rfc5869_expand len info prk = take len (hkdf_blocks (len div 32 + 1) 1 prk info [])"

definition rfc5869 :: "nat \<Rightarrow> bytes \<Rightarrow> bytes \<Rightarrow> bytes \<Rightarrow> bytes" where
  "rfc5869 len salt info ikm = rfc5869_expand len info (hmac_sha256 salt ikm)"

section \<open>CRC-32\<close>

fun crc32_bits :: "nat \<Rightarrow> u32 \<Rightarrow> u32" where
  "crc32_bits 0 c = c"
| "crc32_bits (Suc n) c =
     crc32_bits n (if bit c 0 then drop_bit 1 c XOR 0xEDB88320 else drop_bit 1 c)"

definition crc32 :: "bytes \<Rightarrow> nat" where
  "crc32 m = unat (NOT (foldl (\<lambda>c b. crc32_bits 8 (c XOR ucast b)) (NOT 0) m) :: u32)"

section \<open>Lemmas\<close>

lemma length_sha256_output [simp]: "length (sha256_output st) = 32"
  by (cases st rule: sha256_output.cases) simp

lemma length_sha256 [simp]: "length (sha256 m) = 32"
  by (simp add: sha256_def Let_def)

lemma length_hmac_sha256 [simp]: "length (hmac_sha256 key msg) = 32"
  by (simp add: hmac_sha256_def)

lemma length_hkdf_blocks [simp]: "length (hkdf_blocks n i prk info t) = 32 * n"
  by (induction n arbitrary: i t) (simp_all add: Let_def)

lemma length_rfc5869_expand [simp]: "length (rfc5869_expand len info prk) = len"
  by (simp add: rfc5869_expand_def del: hkdf_blocks.simps)

lemma length_rfc5869 [simp]: "length (rfc5869 len salt info ikm) = len"
  by (simp add: rfc5869_def)

lemma crc32_bound: "crc32 m < 2 ^ 32"
  unfolding crc32_def using unsigned_less [where ?'a = nat and ?'b = 32] by simp

text \<open>The padded message is a whole number of blocks, so no byte of the message is skipped.\<close>

lemma sha256_pad_blocks: "length (sha256_pad m) mod 64 = 0"
proof -
  define r where "r = length m mod 64"
  have r: "r < 64" by (simp add: r_def)
  have "(r + (119 - r) mod 64 + 9) mod 64 = 0"
  proof (cases "r \<le> 55")
    case True
    then have "(119 - r) mod 64 = 55 - r"
      using le_mod_geq [of 64 "119 - r"] by simp
    then show ?thesis using True by simp
  next
    case False
    then show ?thesis using r by simp
  qed
  then have "(length m + ((119 - r) mod 64 + 9)) mod 64 = 0"
    unfolding r_def by (metis add.assoc mod_add_left_eq)
  then show ?thesis by (simp add: sha256_pad_def r_def algebra_simps)
qed

end
