(* ===== verification/Constants.thy ===== *)
theory Constants
  imports Hashing
begin

text \<open>
  The protocol constants of \<open>src/common/constants.py\<close>: sizes and codes as abbreviations (so that
  arithmetic sees the number), byte-string constants as definitions with their lengths as
  simplification rules. Below them, the third-party functions the program calls, as a record that
  every definition using them takes as an argument, and what is relied on of them.
\<close>

section \<open>Sizes and codes\<close>

abbreviation (input) PK_SIZE :: nat where "PK_SIZE \<equiv> 1184"
abbreviation (input) CT_SIZE :: nat where "CT_SIZE \<equiv> 1088"
abbreviation (input) SS_SIZE :: nat where "SS_SIZE \<equiv> 32"
abbreviation (input) BLE_MTU :: int where "BLE_MTU \<equiv> 512"
abbreviation (input) FRAGMENT_HEADER_SIZE :: nat where "FRAGMENT_HEADER_SIZE \<equiv> 4"
abbreviation (input) SAS_DIGITS :: nat where "SAS_DIGITS \<equiv> 6"
abbreviation (input) SAS_MODULUS :: nat where "SAS_MODULUS \<equiv> 1000000"
abbreviation (input) SESSION_KEY_SIZE :: nat where "SESSION_KEY_SIZE \<equiv> 32"
abbreviation (input) GCM_IV_SIZE :: nat where "GCM_IV_SIZE \<equiv> 12"
abbreviation (input) GCM_TAG_SIZE :: nat where "GCM_TAG_SIZE \<equiv> 16"
abbreviation (input) SEQ_NUM_SIZE :: nat where "SEQ_NUM_SIZE \<equiv> 8"
abbreviation (input) MSG_TYPE_SIZE :: nat where "MSG_TYPE_SIZE \<equiv> 1"
abbreviation (input) SESSION_ID_SIZE :: nat where "SESSION_ID_SIZE \<equiv> 16"
abbreviation (input) REHANDSHAKE_HOURS :: seconds where "REHANDSHAKE_HOURS \<equiv> 24"
abbreviation (input) REHANDSHAKE_SESSIONS :: int where "REHANDSHAKE_SESSIONS \<equiv> 100"
abbreviation (input) TRANSCRIPT_HASH_SIZE :: nat where "TRANSCRIPT_HASH_SIZE \<equiv> 32"
abbreviation (input) PHASE5_KEY_SIZE :: nat where "PHASE5_KEY_SIZE \<equiv> 32"
abbreviation (input) PHASE5_KEY_BLOCK_SIZE :: nat where "PHASE5_KEY_BLOCK_SIZE \<equiv> 128"
abbreviation (input) FINISHED_SIZE :: nat where "FINISHED_SIZE \<equiv> 32"
abbreviation (input) PHASE5_FRAME_VERSION :: int where "PHASE5_FRAME_VERSION \<equiv> 0x05"
abbreviation (input) PHASE5_FRAME_HEADER_SIZE :: nat where "PHASE5_FRAME_HEADER_SIZE \<equiv> 8"
abbreviation (input) PHASE5_READY_FOR_SAS :: int where "PHASE5_READY_FOR_SAS \<equiv> 0x01"
abbreviation (input) PHASE5_FINISHED_P :: int where "PHASE5_FINISHED_P \<equiv> 0x02"
abbreviation (input) PHASE5_ERROR :: int where "PHASE5_ERROR \<equiv> 0x7F"
abbreviation (input) PHASE5_FINISHED_C :: int where "PHASE5_FINISHED_C \<equiv> 0x10"
abbreviation (input) PHASE5_DATA_REQUEST :: int where "PHASE5_DATA_REQUEST \<equiv> 0x11"
abbreviation (input) SECURE_CHANNEL_OVERHEAD :: nat where
  "SECURE_CHANNEL_OVERHEAD \<equiv> SEQ_NUM_SIZE + MSG_TYPE_SIZE + GCM_IV_SIZE + GCM_TAG_SIZE"

section \<open>Byte strings\<close>

definition CENTRAL_ROLE :: bytes where "CENTRAL_ROLE = [0x01]"
definition PERIPHERAL_ROLE :: bytes where "PERIPHERAL_ROLE = [0x02]"
definition MSG_TYPE_DATA :: bytes where "MSG_TYPE_DATA = [0x01]"
definition MSG_TYPE_CONTROL :: bytes where "MSG_TYPE_CONTROL = [0x02]"
definition MSG_TYPE_HANDSHAKE :: bytes where "MSG_TYPE_HANDSHAKE = [0x03]"
definition HKDF_SALT :: bytes where "HKDF_SALT = ascii ''PQ-BLE-HANDSHAKE-v1''"
definition HKDF_INFO :: bytes where "HKDF_INFO = ascii ''BLE-PQ-SESSION-KEY''"
definition PHASE5_DOMAIN :: bytes where "PHASE5_DOMAIN = ascii ''PQ-BLE-HANDSHAKE-v0.5''"
definition PHASE5_KDF_INFO :: bytes where "PHASE5_KDF_INFO = PHASE5_DOMAIN @ ascii ''/key-schedule''"
definition PHASE5_SAS_LABEL :: bytes where "PHASE5_SAS_LABEL = PHASE5_DOMAIN @ ascii ''/SAS''"
definition PHASE5_FINISHED_C_LABEL :: bytes where
  "PHASE5_FINISHED_C_LABEL = PHASE5_DOMAIN @ ascii ''/FINISHED/C''"
definition PHASE5_FINISHED_P_LABEL :: bytes where
  "PHASE5_FINISHED_P_LABEL = PHASE5_DOMAIN @ ascii ''/FINISHED/P''"
definition PHASE5_START_MAGIC :: bytes where "PHASE5_START_MAGIC = ascii ''START5''"
definition PHASE5_FRAME_MAGIC :: bytes where "PHASE5_FRAME_MAGIC = ascii ''PQS5''"
definition RESUME_MAGIC :: bytes where "RESUME_MAGIC = ascii ''PQBL''"
definition RESUME_REQ :: bytes where "RESUME_REQ = [0x01]"
definition RESUME_OK_NOTIFY :: bytes where "RESUME_OK_NOTIFY = ascii ''RESUME_OK''"
definition RESUME_FAIL_NOTIFY :: bytes where "RESUME_FAIL_NOTIFY = ascii ''RESUME_FAIL''"

section \<open>Third-party functions\<close>

text \<open>
  \<open>cryptography\<close>'s \<open>AESGCM(key).encrypt(nonce, data, aad)\<close> and \<open>decrypt\<close> (where \<open>None\<close> is the
  exception \<open>InvalidTag\<close>), its \<open>HKDF\<close> and \<open>HKDFExpand\<close> objects over SHA-256, its P-256
  operations (\<open>None\<close> is a \<open>ValueError\<close>), and \<open>liboqs\<close>' ML-KEM-768, whose randomness is an explicit
  argument.
\<close>

record third_party =
  aesgcm_encrypt :: "bytes \<Rightarrow> bytes \<Rightarrow> bytes \<Rightarrow> bytes \<Rightarrow> bytes"
  aesgcm_decrypt :: "bytes \<Rightarrow> bytes \<Rightarrow> bytes \<Rightarrow> bytes \<Rightarrow> bytes option"
  hkdf_derive :: "nat \<Rightarrow> bytes \<Rightarrow> bytes \<Rightarrow> bytes \<Rightarrow> bytes"
  hkdf_expand_derive :: "nat \<Rightarrow> bytes \<Rightarrow> bytes \<Rightarrow> bytes"
  p256_point_ok :: "bytes \<Rightarrow> bool"
  p256_public_bytes :: "nat \<Rightarrow> bytes"
  p256_exchange :: "nat \<Rightarrow> bytes \<Rightarrow> bytes"
  kem_keypair :: "nat \<Rightarrow> bytes \<times> bytes"
  kem_encap :: "bytes \<Rightarrow> nat \<Rightarrow> bytes \<times> bytes"
  kem_decap :: "bytes \<Rightarrow> bytes \<Rightarrow> bytes"

text \<open>
  AES-GCM (SP 800-38D): the output is the ciphertext, as long as the plaintext, followed by a
  16-byte tag; decryption inverts encryption; and decryption succeeds only on the output of
  encryption under the same key, nonce and associated data, since it recomputes the tag.
\<close>

definition aead_laws :: "third_party \<Rightarrow> bool" where
  "aead_laws C \<longleftrightarrow>
     (\<forall>k n p a. length (aesgcm_encrypt C k n p a) = length p + GCM_TAG_SIZE) \<and>
     (\<forall>k n p a. aesgcm_decrypt C k n (aesgcm_encrypt C k n p a) a = Some p) \<and>
     (\<forall>k n c a p. aesgcm_decrypt C k n c a = Some p \<longrightarrow> c = aesgcm_encrypt C k n p a)"

text \<open>HKDF returns as many bytes as were asked for.\<close>

definition hkdf_laws :: "third_party \<Rightarrow> bool" where
  "hkdf_laws C \<longleftrightarrow>
     (\<forall>len salt info ikm. length (hkdf_derive C len salt info ikm) = len) \<and>
     (\<forall>len info prk. length (hkdf_expand_derive C len info prk) = len)"

text \<open>
  P-256: a public key serialises to 65 bytes with leading 0x04, which the point decoder accepts;
  the exchange is symmetric and yields 32 bytes.
\<close>

definition p256_laws :: "third_party \<Rightarrow> bool" where
  "p256_laws C \<longleftrightarrow>
     (\<forall>k. length (p256_public_bytes C k) = 65 \<and> p256_public_bytes C k ! 0 = 0x04
        \<and> p256_point_ok C (p256_public_bytes C k)) \<and>
     (\<forall>k q. length (p256_exchange C k q) = 32) \<and>
     (\<forall>k l. p256_exchange C k (p256_public_bytes C l) = p256_exchange C l (p256_public_bytes C k))"

text \<open>ML-KEM-768 (FIPS 203): sizes, and decapsulation recovers the encapsulated secret.\<close>

definition kem_laws :: "third_party \<Rightarrow> bool" where
  "kem_laws C \<longleftrightarrow>
     (\<forall>r. length (fst (kem_keypair C r)) = PK_SIZE) \<and>
     (\<forall>pk r. length pk = PK_SIZE \<longrightarrow>
        length (fst (kem_encap C pk r)) = CT_SIZE \<and> length (snd (kem_encap C pk r)) = SS_SIZE) \<and>
     (\<forall>s r. kem_decap C (snd (kem_keypair C s)) (fst (kem_encap C (fst (kem_keypair C s)) r))
        = snd (kem_encap C (fst (kem_keypair C s)) r))"

section \<open>A concrete instance\<close>

text \<open>
  An instance on which the laws can be checked and terms evaluated: HKDF is the RFC 5869
  construction; the other primitives are arithmetic stand-ins with the sizes and the algebra the
  laws state and no secrecy at all.
\<close>

definition demo_tag :: "bytes \<Rightarrow> bytes \<Rightarrow> bytes \<Rightarrow> bytes \<Rightarrow> bytes" where
  "demo_tag k n p a = replicate 16 (sum_list k + sum_list n + sum_list p + sum_list a)"

definition demo_crypto :: third_party where
  "demo_crypto = \<lparr>
     aesgcm_encrypt = (\<lambda>k n p a. p @ demo_tag k n p a),
     aesgcm_decrypt = (\<lambda>k n c a.
       let p = take (length c - 16) c
       in if 16 \<le> length c \<and> drop (length c - 16) c = demo_tag k n p a then Some p else None),
     hkdf_derive = rfc5869,
     hkdf_expand_derive = rfc5869_expand,
     p256_point_ok = (\<lambda>q. True),
     p256_public_bytes = (\<lambda>k. 0x04 # replicate 64 (word_of_nat k)),
     p256_exchange = (\<lambda>k q. replicate 32 (word_of_nat k * last q)),
     kem_keypair = (\<lambda>r. (replicate 1184 (word_of_nat r), replicate 2400 (word_of_nat r))),
     kem_encap = (\<lambda>pk r. (replicate 1088 (word_of_nat r), replicate 32 (word_of_nat r + last pk))),
     kem_decap = (\<lambda>sk ct. replicate 32 (last ct + last sk)) \<rparr>"

section \<open>Lemmas\<close>

lemmas bytes_const_defs =
  CENTRAL_ROLE_def PERIPHERAL_ROLE_def MSG_TYPE_DATA_def MSG_TYPE_CONTROL_def
  MSG_TYPE_HANDSHAKE_def HKDF_SALT_def HKDF_INFO_def PHASE5_DOMAIN_def PHASE5_KDF_INFO_def
  PHASE5_SAS_LABEL_def PHASE5_FINISHED_C_LABEL_def PHASE5_FINISHED_P_LABEL_def
  PHASE5_START_MAGIC_def PHASE5_FRAME_MAGIC_def RESUME_MAGIC_def RESUME_REQ_def
  RESUME_OK_NOTIFY_def RESUME_FAIL_NOTIFY_def

lemma length_constants [simp]:
  "length CENTRAL_ROLE = 1" "length PERIPHERAL_ROLE = 1" "length MSG_TYPE_DATA = 1"
  "length MSG_TYPE_CONTROL = 1" "length PHASE5_DOMAIN = 21" "length PHASE5_START_MAGIC = 6"
  "length PHASE5_FRAME_MAGIC = 4" "length RESUME_MAGIC = 4" "length RESUME_REQ = 1"
  by (simp_all add: bytes_const_defs)

lemma roles_distinct [simp]: "CENTRAL_ROLE \<noteq> PERIPHERAL_ROLE" "PERIPHERAL_ROLE \<noteq> CENTRAL_ROLE"
  by (simp_all add: bytes_const_defs)

lemma aead_lawsD:
  assumes "aead_laws C"
  shows length_aesgcm_encrypt: "length (aesgcm_encrypt C k n p a) = length p + 16"
    and aesgcm_decrypt_encrypt: "aesgcm_decrypt C k n (aesgcm_encrypt C k n p a) a = Some p"
    and aesgcm_decrypt_Some: "aesgcm_decrypt C k n c a = Some p \<Longrightarrow> c = aesgcm_encrypt C k n p a"
  using assms by (simp_all add: aead_laws_def)

lemma hkdf_lawsD:
  assumes "hkdf_laws C"
  shows length_hkdf_derive: "length (hkdf_derive C len salt info ikm) = len"
    and length_hkdf_expand_derive: "length (hkdf_expand_derive C len info prk) = len"
  using assms by (simp_all add: hkdf_laws_def)

lemma p256_lawsD:
  assumes "p256_laws C"
  shows length_p256_public: "length (p256_public_bytes C k) = 65"
    and hd_p256_public: "p256_public_bytes C k ! 0 = 0x04"
    and p256_public_ok: "p256_point_ok C (p256_public_bytes C k)"
    and length_p256_exchange: "length (p256_exchange C k q) = 32"
    and p256_exchange_commute:
      "p256_exchange C k (p256_public_bytes C l) = p256_exchange C l (p256_public_bytes C k)"
  using assms unfolding p256_laws_def by blast+

lemma length_demo_tag [simp]: "length (demo_tag k n p a) = 16"
  by (simp add: demo_tag_def)

lemma demo_aead_laws: "aead_laws demo_crypto"
proof -
  have "c = take (length c - 16) c @ demo_tag k n (take (length c - 16) c) a"
    if "drop (length c - 16) c = demo_tag k n (take (length c - 16) c) a" for k n c a
    by (metis append_take_drop_id that)
  then show ?thesis
    by (simp add: aead_laws_def demo_crypto_def Let_def)
qed

lemma demo_hkdf_laws: "hkdf_laws demo_crypto"
  by (simp add: hkdf_laws_def demo_crypto_def)

lemma demo_p256_laws: "p256_laws demo_crypto"
  by (simp add: p256_laws_def demo_crypto_def mult.commute)

lemma demo_kem_laws: "kem_laws demo_crypto"
  by (simp add: kem_laws_def demo_crypto_def)

end
