(* ===== verification/Interfaces.thy ===== *)
theory Interfaces
  imports Constants
begin

text \<open>
  The contracts the components share, as locales: a strict frame codec, a canonical transcript
  encoding, a receiver that rejects replays, and an object whose methods fail closed. Each is
  interpreted on the model's own definitions in the theory of the component that provides them,
  and the clients use the lemmas proved here once.
\<close>

section \<open>Running an object\<close>

text \<open>
  A method of a stateful object returns its result or its exception, and the new state. Feeding a
  list of inputs to one method, keeping going after exceptions, as a caller that catches them does.
\<close>

type_synonym ('s, 'a) outcome = "'a result \<times> 's"

text \<open>
  Methods as state transformers with exceptions: an exception keeps the assignments made before it,
  and \<open>onerr clr\<close> is \<open>except BaseException: self.clear(); raise\<close>.
\<close>

type_synonym ('s, 'a) meth = "'s \<Rightarrow> ('s, 'a) outcome"

definition retM :: "'a \<Rightarrow> ('s, 'a) meth" where
  "retM x s = (Inr x, s)"

definition liftR :: "'a result \<Rightarrow> ('s, 'a) meth" where
  "liftR r s = (r, s)"

definition readM :: "('s \<Rightarrow> 'a result) \<Rightarrow> ('s, 'a) meth" where
  "readM f s = (f s, s)"

definition setM :: "('s \<Rightarrow> 's) \<Rightarrow> ('s, unit) meth" where
  "setM f s = (Inr (), f s)"

definition bindM :: "('s, 'a) meth \<Rightarrow> ('a \<Rightarrow> ('s, 'b) meth) \<Rightarrow> ('s, 'b) meth" where
  "bindM m f s = (case m s of (Inl e, t) \<Rightarrow> (Inl e, t) | (Inr x, t) \<Rightarrow> f x t)"

definition seqM :: "('s, unit) meth \<Rightarrow> ('s, 'b) meth \<Rightarrow> ('s, 'b) meth" where
  "seqM m k = bindM m (\<lambda>_. k)"

definition onerr :: "('s \<Rightarrow> 's) \<Rightarrow> ('s, 'a) meth \<Rightarrow> ('s, 'a) meth" where
  "onerr clr m s = (case m s of (Inl e, t) \<Rightarrow> (Inl e, clr t) | (Inr x, t) \<Rightarrow> (Inr x, t))"

text \<open>\<open>try: m finally: f\<close>, where an exception of \<open>f\<close> replaces the outcome of \<open>m\<close>.\<close>

definition finallyM :: "('s, 'a) meth \<Rightarrow> ('s, unit) meth \<Rightarrow> ('s, 'a) meth" where
  "finallyM m f s =
     (let (r, s1) = m s; (q, s2) = f s1 in (case q of Inl e \<Rightarrow> Inl e | Inr _ \<Rightarrow> r, s2))"

lemma meth_simps [simp]:
  "retM x s = (Inr x, s)" "liftR r s = (r, s)" "readM f s = (f s, s)" "setM g s = (Inr (), g s)"
  by (simp_all add: retM_def liftR_def readM_def setM_def)

lemma bindM_Inr [simp]:
  "bindM m f s = (Inr y, t) \<longleftrightarrow> (\<exists>x u. m s = (Inr x, u) \<and> f x u = (Inr y, t))"
  by (auto simp: bindM_def split: prod.splits sum.splits)

lemma seqM_Inr [simp]:
  "seqM m k s = (Inr y, t) \<longleftrightarrow> (\<exists>u. m s = (Inr (), u) \<and> k u = (Inr y, t))"
  by (simp add: seqM_def)

lemma bindM_step:
  "m s = (Inr x, u) \<Longrightarrow> bindM m f s = f x u"
  "m s = (Inl e, u) \<Longrightarrow> bindM m f s = (Inl e, u)"
  by (simp_all add: bindM_def)

lemma onerr_Inr [simp]: "onerr clr m s = (Inr x, t) \<longleftrightarrow> m s = (Inr x, t)"
  by (auto simp: onerr_def split: prod.splits sum.splits)

lemma onerr_Inl: "onerr clr m s = (Inl e, t) \<longleftrightarrow> (\<exists>u. m s = (Inl e, u) \<and> t = clr u)"
  by (auto simp: onerr_def split: prod.splits sum.splits)

lemma finallyM_Inr:
  "finallyM m f s = (Inr r, t) \<longleftrightarrow> (\<exists>u. m s = (Inr r, u) \<and> f u = (Inr (), t))"
  by (auto simp: finallyM_def Let_def case_prod_unfold prod_eq_iff split: sum.splits)

text \<open>A reflexive and transitive relation between the states before and after a call.\<close>

lemma bindM_keeps:
  assumes "R s (snd (m s))" and "\<And>x u. m s = (Inr x, u) \<Longrightarrow> R u (snd (f x u))"
    and "\<And>a b c. R a b \<Longrightarrow> R b c \<Longrightarrow> R a c"
  shows "R s (snd (bindM m f s))"
  using assms by (auto simp: bindM_def split: prod.splits sum.splits)

lemma onerr_keeps:
  assumes "R s (snd (m s))" and "\<And>u. R u (clr u)" and "\<And>a b c. R a b \<Longrightarrow> R b c \<Longrightarrow> R a c"
  shows "R s (snd (onerr clr m s))"
  using assms by (auto simp: onerr_def split: prod.splits sum.splits)

lemma case_prod_keeps:
  "(\<And>a b. x = (a, b) \<Longrightarrow> R s (snd (f a b s))) \<Longrightarrow> R s (snd ((case x of (a, b) \<Rightarrow> f a b) s))"
  by (simp split: prod.splits)

lemma onerr_fails: "(\<And>x u. m s \<noteq> (Inr x, u)) \<Longrightarrow> \<exists>e t. onerr clr m s = (Inl e, t)"
  by (metis Inr_or_Inl onerr_Inr prod.exhaust)

definition run_state :: "('s \<Rightarrow> 'i \<Rightarrow> ('s, 'a) outcome) \<Rightarrow> 's \<Rightarrow> 'i list \<Rightarrow> 's" where
  "run_state m s xs = foldl (\<lambda>t x. snd (m t x)) s xs"

fun run_accepted :: "('s \<Rightarrow> 'i \<Rightarrow> ('s, 'a) outcome) \<Rightarrow> 's \<Rightarrow> 'i list \<Rightarrow> 'i list" where
  "run_accepted m s [] = []"
| "run_accepted m s (x # xs) =
     (case m s x of (Inl e, t) \<Rightarrow> run_accepted m t xs | (Inr r, t) \<Rightarrow> x # run_accepted m t xs)"

fun run_results :: "('s \<Rightarrow> 'i \<Rightarrow> ('s, 'a) outcome) \<Rightarrow> 's \<Rightarrow> 'i list \<Rightarrow> 'a result list" where
  "run_results m s [] = []"
| "run_results m s (x # xs) = fst (m s x) # run_results m (snd (m s x)) xs"

lemma run_state_simps [simp]:
  "run_state m s [] = s"
  "run_state m s (x # xs) = run_state m (snd (m s x)) xs"
  "run_state m s (xs @ ys) = run_state m (run_state m s xs) ys"
  by (simp_all add: run_state_def)

lemma run_accepted_append:
  "run_accepted m s (xs @ ys) = run_accepted m s xs @ run_accepted m (run_state m s xs) ys"
  by (induction xs arbitrary: s) (auto split: prod.splits sum.splits)

lemma run_accepted_snoc:
  "run_accepted m s (xs @ [x]) =
     run_accepted m s xs @ (case fst (m (run_state m s xs) x) of Inl e \<Rightarrow> [] | Inr r \<Rightarrow> [x])"
  by (simp add: run_accepted_append split: prod.splits sum.splits)

lemma run_state_invariant:
  assumes "P s" and "\<And>s x. P s \<Longrightarrow> P (snd (m s x))"
  shows "P (run_state m s xs)"
  using assms(1) by (induction xs arbitrary: s) (simp_all add: assms(2))

section \<open>Strict frame codecs\<close>

text \<open>
  \<open>encode\<close> and \<open>parse\<close> agree on a set of valid (subtype, payload) pairs: an invalid pair is never
  encoded, and a byte string parses only if it is the encoding of a valid pair.
\<close>

locale frame_codec =
  fixes magic :: bytes
    and version :: int
    and valid :: "int \<Rightarrow> bytes \<Rightarrow> bool"
    and encode :: "int \<Rightarrow> bytes \<Rightarrow> bytes result"
    and parse :: "bytes \<Rightarrow> 'f result"
    and subtype :: "'f \<Rightarrow> int"
    and payload :: "'f \<Rightarrow> bytes"
  assumes magic_length: "length magic = 4"
    and version_byte: "0 \<le> version \<and> version \<le> 255"
    and encode_Inr: "encode t p = Inr w \<longleftrightarrow> valid t p \<and> w = frame_wire magic version t p"
    and valid_byte: "valid t p \<Longrightarrow> 0 \<le> t \<and> t \<le> 255 \<and> length p \<le> 65535"
    and parse_wire: "valid t p \<Longrightarrow>
          \<exists>f. parse (frame_wire magic version t p) = Inr f \<and> subtype f = t \<and> payload f = p"
    and parse_Inr: "parse w = Inr f \<Longrightarrow>
          valid (subtype f) (payload f) \<and> w = frame_wire magic version (subtype f) (payload f)"
begin

lemma decode_encode:
  "encode t p = Inr w \<Longrightarrow> \<exists>f. parse w = Inr f \<and> subtype f = t \<and> payload f = p"
  by (simp add: encode_Inr parse_wire)

lemma encode_decode:
  "parse w = Inr f \<Longrightarrow> encode (subtype f) (payload f) = Inr w"
  by (auto simp: encode_Inr dest: parse_Inr)

lemma parse_iff:
  "(\<exists>f. parse w = Inr f) \<longleftrightarrow> (\<exists>t p. encode t p = Inr w)"
  using encode_decode decode_encode by blast

lemma encode_inject:
  assumes "encode t p = Inr w" and "encode t' p' = Inr w"
  shows "t = t' \<and> p = p'"
  using decode_encode [OF assms(1)] decode_encode [OF assms(2)] by auto

lemma parse_header:
  assumes "parse w = Inr f"
  shows "take 4 w = magic" and "length w = 8 + length (payload f)"
  using parse_Inr [OF assms] magic_length by (auto simp: frame_wire_parts)

text \<open>A frame is never a proper prefix of another: the length field delimits it.\<close>

lemma frames_prefix_free:
  assumes "parse w = Inr f" and "parse (w @ x) = Inr g"
  shows "x = []"
proof -
  have "slice 6 8 w = be_bytes 2 (length (payload f))"
    using parse_Inr [OF assms(1)] magic_length frame_wire_parts(4) by metis
  moreover have "slice 6 8 (w @ x) = be_bytes 2 (length (payload g))"
    using parse_Inr [OF assms(2)] magic_length frame_wire_parts(4) by metis
  moreover have "slice 6 8 (w @ x) = slice 6 8 w"
    using parse_header(2) [OF assms(1)] by (simp add: slice_def)
  ultimately have "length (payload f) = length (payload g)"
    using be_bytes_inject [of 2] parse_Inr [OF assms(1)] parse_Inr [OF assms(2)]
      valid_byte by fastforce
  then show ?thesis
    using parse_header(2) [OF assms(1)] parse_header(2) [OF assms(2)] by simp
qed

end

section \<open>Canonical transcripts\<close>

text \<open>
  A transcript builder that length-prefixes a list of fields, each short enough for its prefix,
  and whose fields determine the inputs.
\<close>

locale canonical_transcript =
  fixes build :: "'i \<Rightarrow> bytes result"
    and fields :: "'i \<Rightarrow> bytes list"
  assumes build_fields: "build i = Inr t \<Longrightarrow> t = concat (map lp_field (fields i))"
    and fields_short: "build i = Inr t \<Longrightarrow> v \<in> set (fields i) \<Longrightarrow> length v \<le> 65535"
    and fields_inject: "build i = Inr t \<Longrightarrow> build j = Inr t \<Longrightarrow> fields i = fields j \<Longrightarrow> i = j"
begin

lemma transcript_inject:
  assumes "build i = Inr t" and "build j = Inr t"
  shows "i = j"
proof -
  have "concat (map lp_field (fields i)) = concat (map lp_field (fields j))"
    using build_fields assms by metis
  then have "fields i = fields j"
    using fields_short assms by (intro lp_fields_inject) blast+
  then show ?thesis by (rule fields_inject [OF assms])
qed

end

section \<open>Replay-rejecting receivers\<close>

text \<open>
  \<open>mark\<close> is the highest sequence number accepted so far. Accepting moves it up to the number the
  wire carries; refusing leaves it.
\<close>

locale replay_guard =
  fixes receive :: "'s \<Rightarrow> bytes \<Rightarrow> ('s, 'a) outcome"
    and mark :: "'s \<Rightarrow> int"
    and seqno :: "bytes \<Rightarrow> int"
  assumes accept_above: "receive s w = (Inr p, t) \<Longrightarrow> mark s < seqno w \<and> mark t = seqno w"
    and refuse_keeps: "receive s w = (Inl e, t) \<Longrightarrow> mark t = mark s"
begin

lemma mark_step: "mark s \<le> mark (snd (receive s w))"
  using accept_above refuse_keeps by (cases "receive s w"; cases "fst (receive s w)") fastforce+

lemma mark_run: "mark s \<le> mark (run_state receive s ws)"
proof (induction ws arbitrary: s)
  case Nil
  then show ?case by simp
next
  case (Cons w ws)
  then show ?case using mark_step [of s w] order_trans by fastforce
qed

lemma run_accepted_Cons:
  obtains (refused) e t where "receive s w = (Inl e, t)" "mark t = mark s"
      "run_accepted receive s (w # ws) = run_accepted receive t ws"
    | (accepted) p t where "receive s w = (Inr p, t)" "mark s < seqno w" "mark t = seqno w"
      "run_accepted receive s (w # ws) = w # run_accepted receive t ws"
proof (cases "receive s w")
  case (Pair r t)
  show thesis
  proof (cases r)
    case (Inl e)
    then show thesis using Pair refuse_keeps refused by simp
  next
    case (Inr p)
    then show thesis using Pair accept_above accepted by simp
  qed
qed

lemma accepted_above:
  "w \<in> set (run_accepted receive s ws) \<Longrightarrow> mark s < seqno w"
proof (induction ws arbitrary: s)
  case Nil
  then show ?case by simp
next
  case (Cons v ws)
  show ?case
    using run_accepted_Cons [of s v ws]
  proof cases
    case refused
    then show ?thesis using Cons.IH [of "snd (receive s v)"] Cons.prems by simp
  next
    case accepted
    then show ?thesis using Cons.IH [of "snd (receive s v)"] Cons.prems by fastforce
  qed
qed

lemma accepted_increasing:
  "sorted_wrt (<) (map seqno (run_accepted receive s ws))"
proof (induction ws arbitrary: s)
  case Nil
  then show ?case by simp
next
  case (Cons v ws)
  show ?case
    using run_accepted_Cons [of s v ws]
  proof cases
    case refused
    then show ?thesis using Cons.IH by simp
  next
    case (accepted p t)
    then have "seqno v < seqno w" if "w \<in> set (run_accepted receive t ws)" for w
      using accepted_above [OF that] by simp
    then show ?thesis using accepted Cons.IH by simp
  qed
qed

text \<open>Once accepted, a wire is refused in every later state of the same receiver.\<close>

lemma no_replay:
  assumes "receive s w = (Inr p, t)"
  shows "\<exists>e. fst (receive (run_state receive t ws) w) = Inl e"
proof (rule ccontr)
  assume "\<not> ?thesis"
  then obtain q u where "receive (run_state receive t ws) w = (Inr q, u)"
    by (metis Inr_or_Inl prod.collapse)
  then have "mark (run_state receive t ws) < seqno w"
    using accept_above by blast
  moreover have "seqno w \<le> mark (run_state receive t ws)"
    using accept_above [OF assms] mark_run [of t ws] by simp
  ultimately show False by simp
qed

end

section \<open>Objects that fail closed\<close>

text \<open>
  Every exception leaves the object in a closed state, and a closed object answers every call with
  an exception.
\<close>

locale fail_closed =
  fixes step :: "'s \<Rightarrow> 'o \<Rightarrow> ('s, 'r) outcome"
    and closed :: "'s \<Rightarrow> bool"
  assumes failure_closes: "step s c = (Inl e, t) \<Longrightarrow> closed t"
    and closed_refuses: "closed s \<Longrightarrow> \<exists>e t. step s c = (Inl e, t)"
begin

lemma closed_step: "closed s \<Longrightarrow> closed (snd (step s c))"
  using closed_refuses failure_closes by (metis snd_conv)

lemma closed_run: "closed s \<Longrightarrow> closed (run_state step s cs)"
  by (rule run_state_invariant) (simp_all add: closed_step)

lemma closed_accepts_nothing: "closed s \<Longrightarrow> run_accepted step s cs = []"
proof (induction cs arbitrary: s)
  case Nil
  then show ?case by simp
next
  case (Cons c cs)
  then obtain e t where "step s c = (Inl e, t)" using closed_refuses by blast
  then show ?case using Cons.IH failure_closes by simp
qed

lemma nothing_after_failure:
  "step s c = (Inl e, t) \<Longrightarrow> run_accepted step t cs = []"
  using failure_closes closed_accepts_nothing by blast

end

end
