(* ===== verification/Session.thy ===== *)
theory Session
  imports Interfaces "HOL-Library.Sublist"
begin

text \<open>
  The historical (v0.1 to v0.7) session layer: the SAS of \<open>src/common/sas.py\<close>, the Phase 2
  diagnostic of \<open>src/common/phase2_diagnostic.py\<close>, and \<open>src/common/session.py\<close>: key derivation,
  control messages and the AES-GCM \<open>SecureChannel\<close> with its replay protection.
\<close>

section \<open>Short authentication string (sas.py)\<close>

definition derive_sas :: "bytes \<Rightarrow> bytes \<Rightarrow> bytes \<Rightarrow> nat" where
  "derive_sas public_key ciphertext shared_secret =
     (let transcript = public_key @ ciphertext @ shared_secret;
          commitment = sha256 transcript;
          sas_raw = be_nat (take 4 commitment)
      in sas_raw mod SAS_MODULUS)"

text \<open>\<open>str(n)\<close> for a natural number, and \<open>s.zfill(width)\<close> for an unsigned digit string.\<close>

fun str_nat :: "nat \<Rightarrow> string" where
  "str_nat n = (if n < 10 then [char_of (48 + n)] else str_nat (n div 10) @ [char_of (48 + n mod 10)])"

definition zfill :: "nat \<Rightarrow> string \<Rightarrow> string" where
  "zfill width s = replicate (width - length s) (CHR ''0'') @ s"

definition format_sas :: "nat \<Rightarrow> string" where
  "format_sas sas = zfill SAS_DIGITS (str_nat sas)"

definition verify_sas :: "nat \<Rightarrow> nat \<Rightarrow> bool" where
  "verify_sas local remote \<longleftrightarrow> local = remote"

definition derive_both_sas :: "bytes \<Rightarrow> bytes \<Rightarrow> bytes \<Rightarrow> nat \<times> string" where
  "derive_both_sas public_key ciphertext shared_secret =
     (let sas = derive_sas public_key ciphertext shared_secret in (sas, format_sas sas))"

section \<open>Phase 2 diagnostic (phase2\_diagnostic.py)\<close>

abbreviation (input) PHASE2_DIAGNOSTIC_SIZE :: nat where "PHASE2_DIAGNOSTIC_SIZE \<equiv> 9"
abbreviation (input) PHASE2_STATUS_SUCCESS :: int where "PHASE2_STATUS_SUCCESS \<equiv> 0x00"
definition PHASE2_DIAGNOSTIC_MAGIC :: bytes where "PHASE2_DIAGNOSTIC_MAGIC = ascii ''PQM2''"

record phase2_diagnostic =
  p2_status :: int
  p2_checksum :: int

definition shared_secret_diagnostic_checksum :: "bytes \<Rightarrow> int result" where
  "shared_secret_diagnostic_checksum shared_secret =
     (if length shared_secret \<noteq> SS_SIZE then Inl (ValueError ''Shared secret size mismatch'')
      else Inr (int (crc32 shared_secret) mod 2 ^ 32))"

definition encode_phase2_diagnostic :: "int \<Rightarrow> int \<Rightarrow> bytes result" where
  "encode_phase2_diagnostic status checksum =
     (if \<not> (0 \<le> status \<and> status \<le> 0xFF) then Inl (ValueError ''Status is not a byte'')
      else if \<not> (0 \<le> checksum \<and> checksum \<le> 0xFFFFFFFF)
      then Inl (ValueError ''Checksum is not a uint32'')
      else Inr (PHASE2_DIAGNOSTIC_MAGIC @ [word_of_int status] @ be_bytes 4 (nat checksum)))"

definition parse_phase2_diagnostic :: "bytes \<Rightarrow> phase2_diagnostic result" where
  "parse_phase2_diagnostic data =
     (if length data \<noteq> PHASE2_DIAGNOSTIC_SIZE
      then Inl (ValueError ''Malformed PQM2 diagnostic length'')
      else if take 4 data \<noteq> PHASE2_DIAGNOSTIC_MAGIC
      then Inl (ValueError ''Malformed PQM2 diagnostic magic'')
      else Inr \<lparr> p2_status = uint (data ! 4), p2_checksum = int (be_nat (slice 5 9 data)) \<rparr>)"

section \<open>Session keys and control messages (session.py)\<close>

definition derive_session_key :: "third_party \<Rightarrow> bytes \<Rightarrow> bytes" where
  "derive_session_key C shared_secret = hkdf_derive C SESSION_KEY_SIZE HKDF_SALT HKDF_INFO shared_secret"

text \<open>\<open>os.urandom\<close> is the argument: the bytes it returned.\<close>

definition generate_session_id :: "bytes \<Rightarrow> bytes" where
  "generate_session_id urandom = take SESSION_ID_SIZE urandom"

definition build_resume_request :: "bytes \<Rightarrow> bytes result" where
  "build_resume_request session_id =
     (if length session_id \<noteq> SESSION_ID_SIZE then Inl (ValueError ''session_id must be 16 bytes'')
      else Inr (RESUME_MAGIC @ RESUME_REQ @ session_id))"

datatype control_message = ResumeRequest bytes | SasConfirm | UnknownControl bytes

definition parse_control_message :: "bytes \<Rightarrow> control_message" where
  "parse_control_message data =
     (if data = ascii ''OK'' then SasConfirm
      else if length data = 5 + SESSION_ID_SIZE \<and> take 4 data = RESUME_MAGIC
              \<and> slice 4 5 data = RESUME_REQ
      then ResumeRequest (drop 5 data)
      else UnknownControl data)"

section \<open>The secure channel (session.py, class SecureChannel)\<close>

record secure_channel =
  ch_key :: bytes
  ch_session_id :: bytes
  ch_role :: bytes
  ch_peer_role :: bytes
  ch_send_seq :: int
  ch_last_recv_seq :: int
  ch_sent_count :: int
  ch_recv_count :: int

text \<open>\<open>session_id or default\<close>: \<open>None\<close> and the empty byte string both give the default.\<close>

definition py_or :: "bytes option \<Rightarrow> bytes \<Rightarrow> bytes" where
  "py_or x d = (case x of None \<Rightarrow> d | Some b \<Rightarrow> if b = [] then d else b)"

definition SecureChannel_init ::
  "bytes \<Rightarrow> bytes option \<Rightarrow> bytes option \<Rightarrow> secure_channel result" where
  "SecureChannel_init session_key session_id role =
     (if length session_key \<noteq> SESSION_KEY_SIZE then Inl (ValueError ''Session key must be 32 bytes'')
      else Inr \<lparr> ch_key = session_key,
                 ch_session_id = py_or session_id (replicate SESSION_ID_SIZE 0),
                 ch_role = py_or role [0],
                 ch_peer_role = (if role = Some CENTRAL_ROLE then PERIPHERAL_ROLE
                                 else if role = Some PERIPHERAL_ROLE then CENTRAL_ROLE else [0]),
                 ch_send_seq = 0, ch_last_recv_seq = -1, ch_sent_count = 0, ch_recv_count = 0 \<rparr>)"

definition channel_build_aad :: "secure_channel \<Rightarrow> int \<Rightarrow> bytes \<Rightarrow> bytes \<Rightarrow> bytes result" where
  "channel_build_aad ch seq role msg_type =
     bindR (to_bytes seq SEQ_NUM_SIZE) (\<lambda>s. Inr (ch_session_id ch @ role @ s @ msg_type))"

text \<open>The argument \<open>iv\<close> is what \<open>os.urandom(GCM_IV_SIZE)\<close> returned.\<close>

definition channel_encrypt ::
  "third_party \<Rightarrow> bytes \<Rightarrow> secure_channel \<Rightarrow> bytes \<Rightarrow> bytes \<Rightarrow> (secure_channel, bytes) outcome" where
  "channel_encrypt C iv ch plaintext msg_type =
     (let seq = ch_send_seq ch
      in case channel_build_aad ch seq (ch_role ch) msg_type of
           Inl e \<Rightarrow> (Inl e, ch)
         | Inr aad \<Rightarrow>
             (let ciphertext_with_tag = aesgcm_encrypt C (ch_key ch) iv plaintext aad;
                  ch' = ch\<lparr> ch_send_seq := ch_send_seq ch + 1, ch_sent_count := ch_sent_count ch + 1 \<rparr>
              in (bindR (to_bytes seq SEQ_NUM_SIZE)
                    (\<lambda>s. Inr (s @ msg_type @ iv @ ciphertext_with_tag)), ch')))"

definition wire_seq :: "bytes \<Rightarrow> int" where
  "wire_seq wire = int (be_nat (take SEQ_NUM_SIZE wire))"

definition channel_decrypt ::
  "third_party \<Rightarrow> bytes \<Rightarrow> secure_channel \<Rightarrow> bytes \<Rightarrow> (secure_channel, bytes) outcome" where
  "channel_decrypt C msg_type ch wire_data =
     (let min_len = SEQ_NUM_SIZE + MSG_TYPE_SIZE + GCM_IV_SIZE + GCM_TAG_SIZE
      in if length wire_data < min_len then (Inl (ValueError ''Wire data too short''), ch)
         else
           let seq = wire_seq wire_data;
               wire_msg_type = slice SEQ_NUM_SIZE (SEQ_NUM_SIZE + MSG_TYPE_SIZE) wire_data;
               iv_start = SEQ_NUM_SIZE + MSG_TYPE_SIZE;
               iv = slice iv_start (iv_start + GCM_IV_SIZE) wire_data;
               ciphertext_with_tag = drop (iv_start + GCM_IV_SIZE) wire_data
           in if wire_msg_type \<noteq> msg_type then (Inl (ValueError ''Message type mismatch''), ch)
              else if seq \<le> ch_last_recv_seq ch
              then (Inl (ValueError ''Replay or out-of-order message detected''), ch)
              else case channel_build_aad ch seq (ch_peer_role ch) wire_msg_type of
                     Inl e \<Rightarrow> (Inl e, ch)
                   | Inr aad \<Rightarrow>
                       (case aesgcm_decrypt C (ch_key ch) iv ciphertext_with_tag aad of
                          None \<Rightarrow> (Inl InvalidTag, ch)
                        | Some plaintext \<Rightarrow>
                            (Inr plaintext, ch\<lparr> ch_last_recv_seq := seq,
                                                ch_recv_count := ch_recv_count ch + 1 \<rparr>)))"

section \<open>Lemmas\<close>

declare str_nat.simps [simp del]

lemma set_zfill: "set s \<subseteq> D \<Longrightarrow> CHR ''0'' \<in> D \<Longrightarrow> set (zfill k s) \<subseteq> D"
  by (auto simp: zfill_def)

lemma length_zfill: "length s \<le> k \<Longrightarrow> length (zfill k s) = k"
  by (simp add: zfill_def)

lemma str_nat_digits: "set (str_nat n) \<subseteq> set ''0123456789''"
proof (induction n rule: str_nat.induct)
  case (1 n)
  have digit: "char_of (48 + d) \<in> set ''0123456789''" if "d < 10" for d :: nat
  proof -
    from that have "d = 0 \<or> d = 1 \<or> d = 2 \<or> d = 3 \<or> d = 4 \<or> d = 5 \<or> d = 6 \<or> d = 7 \<or> d = 8 \<or> d = 9"
      by presburger
    then show ?thesis by (elim disjE) (simp_all add: char_of_def bit_0)
  qed
  show ?case
    using digit [of n] digit [of "n mod 10"] "1.IH"
    by (subst str_nat.simps) auto
qed

lemma length_str_nat: "n < 10 ^ k \<Longrightarrow> 0 < k \<Longrightarrow> length (str_nat n) \<le> k"
proof (induction n arbitrary: k rule: str_nat.induct)
  case (1 n)
  show ?case
  proof (cases "n < 10")
    case True
    then show ?thesis using "1.prems" by (subst str_nat.simps) simp
  next
    case False
    then obtain j where k: "k = Suc j" "0 < j"
      using "1.prems" by (cases k; cases "k - 1") auto
    then have "n div 10 < 10 ^ j" using "1.prems"(1) by (simp add: less_mult_imp_div_less mult.commute)
    then have "length (str_nat (n div 10)) \<le> j" using "1.IH" False k(2) by blast
    then show ?thesis using k False by (subst str_nat.simps) simp
  qed
qed

lemma six_digits:
  assumes "n < SAS_MODULUS"
  shows "length (zfill 6 (str_nat n)) = 6" and "set (zfill 6 (str_nat n)) \<subseteq> set ''0123456789''"
proof -
  show "length (zfill 6 (str_nat n)) = 6"
    using length_str_nat [of n 6] assms by (intro length_zfill) simp
  show "set (zfill 6 (str_nat n)) \<subseteq> set ''0123456789''"
    by (rule set_zfill [OF str_nat_digits]) simp
qed

lemma derive_sas_bound: "derive_sas pk ct ss < SAS_MODULUS"
  by (simp add: derive_sas_def Let_def)

lemma channel_build_aad_Inr:
  "channel_build_aad ch seq role mt = Inr a \<longleftrightarrow>
     0 \<le> seq \<and> seq < 2 ^ 64 \<and> a = ch_session_id ch @ role @ be_bytes 8 (nat seq) @ mt"
  by (auto simp: channel_build_aad_def)

lemma wire_seq_bounds: "0 \<le> wire_seq w" "wire_seq w < 2 ^ 64"
proof -
  have "be_nat (take 8 w) < 256 ^ length (take 8 w)" by (rule be_nat_less)
  also have "\<dots> \<le> 256 ^ 8" by (rule power_increasing) simp_all
  finally show "wire_seq w < 2 ^ 64" by (simp add: wire_seq_def)
qed (simp add: wire_seq_def)

text \<open>A well-formed wire is the concatenation of its four parts.\<close>

lemma wire_split:
  assumes "37 \<le> length w"
  shows "w = be_bytes 8 (nat (wire_seq w)) @ slice 8 9 w @ slice 9 21 w @ drop 21 w"
proof -
  have "be_bytes 8 (nat (wire_seq w)) = take 8 w"
    using be_bytes_be_nat [of "take 8 w"] assms by (simp add: wire_seq_def)
  moreover have "w = take 8 w @ slice 8 9 w @ drop 9 w"
    using take_append_drop_slice [of 8 9 w] by simp
  moreover have "drop 9 w = slice 9 21 w @ drop 21 w"
    unfolding slice_def using append_take_drop_id [of 12 "drop 9 w"] by (simp add: take_drop)
  ultimately show ?thesis by metis
qed

lemma channel_encrypt_Inr:
  "channel_encrypt C iv ch p mt = (Inr w, ch') \<longleftrightarrow>
     0 \<le> ch_send_seq ch \<and> ch_send_seq ch < 2 ^ 64
     \<and> w = be_bytes 8 (nat (ch_send_seq ch)) @ mt @ iv @ aesgcm_encrypt C (ch_key ch) iv p
             (ch_session_id ch @ ch_role ch @ be_bytes 8 (nat (ch_send_seq ch)) @ mt)
     \<and> ch' = ch\<lparr> ch_send_seq := ch_send_seq ch + 1, ch_sent_count := ch_sent_count ch + 1 \<rparr>"
  by (auto simp: channel_encrypt_def channel_build_aad_def Let_def to_bytes_def)

text \<open>What acceptance by \<open>decrypt\<close> means, as an equivalence.\<close>

lemma channel_decrypt_Inr:
  "channel_decrypt C mt ch w = (Inr p, ch') \<longleftrightarrow>
     37 \<le> length w \<and> slice 8 9 w = mt \<and> ch_last_recv_seq ch < wire_seq w
     \<and> aesgcm_decrypt C (ch_key ch) (slice 9 21 w) (drop 21 w)
          (ch_session_id ch @ ch_peer_role ch @ be_bytes 8 (nat (wire_seq w)) @ mt) = Some p
     \<and> ch' = ch\<lparr> ch_last_recv_seq := wire_seq w, ch_recv_count := ch_recv_count ch + 1 \<rparr>"
  using wire_seq_bounds [of w]
  by (auto simp: channel_decrypt_def Let_def channel_build_aad_def to_bytes_def
      split: option.splits if_splits)

lemma channel_decrypt_Inl: "channel_decrypt C mt ch w = (Inl e, ch') \<Longrightarrow> ch' = ch"
  by (auto simp: channel_decrypt_def Let_def split: option.splits if_splits sum.splits)

interpretation channel_guard: replay_guard "channel_decrypt C mt" ch_last_recv_seq wire_seq
proof
  show "ch_last_recv_seq s < wire_seq w \<and> ch_last_recv_seq t = wire_seq w"
    if "channel_decrypt C mt s w = (Inr p, t)" for s t w p
    using that by (simp add: channel_decrypt_Inr)
  show "ch_last_recv_seq t = ch_last_recv_seq s"
    if "channel_decrypt C mt s w = (Inl e, t)" for s t w e
    using channel_decrypt_Inl [OF that] by simp
qed

text \<open>
  Two ends of one direction: the same key and session, and the receiver expects the sender's role.
\<close>

definition channels_match :: "secure_channel \<Rightarrow> secure_channel \<Rightarrow> bool" where
  "channels_match sender receiver \<longleftrightarrow>
     ch_key sender = ch_key receiver \<and> ch_session_id sender = ch_session_id receiver
     \<and> ch_role sender = ch_peer_role receiver"

text \<open>A sender that encrypts a list of (iv, plaintext) pairs, stopping at the first exception.\<close>

fun channel_send_all ::
  "third_party \<Rightarrow> bytes \<Rightarrow> secure_channel \<Rightarrow> (bytes \<times> bytes) list \<Rightarrow> (bytes \<times> bytes) list" where
  "channel_send_all C mt ch [] = []"
| "channel_send_all C mt ch ((iv, p) # xs) =
     (case channel_encrypt C iv ch p mt of
        (Inl e, ch') \<Rightarrow> []
      | (Inr w, ch') \<Rightarrow> (w, p) # channel_send_all C mt ch' xs)"

lemma channel_wire_parts:
  assumes "length mt = 1" and "length iv = 12" and "w = be_bytes 8 n @ mt @ iv @ ct"
  shows "slice 8 9 w = mt" and "slice 9 21 w = iv" and "drop 21 w = ct"
    and "wire_seq w = int (n mod 256 ^ 8)" and "length w = 21 + length ct"
  using assms by (simp_all add: slice_def wire_seq_def)

lemma channel_decrypt_encrypt:
  assumes "aead_laws C" and "channels_match a b" and "length mt = 1" and "length iv = 12"
    and "channel_encrypt C iv a p mt = (Inr w, a')" and "ch_last_recv_seq b < ch_send_seq a"
  shows "channel_decrypt C mt b w =
    (Inr p, b\<lparr> ch_last_recv_seq := ch_send_seq a, ch_recv_count := ch_recv_count b + 1 \<rparr>)"
proof -
  let ?n = "nat (ch_send_seq a)"
  let ?aad = "ch_session_id a @ ch_role a @ be_bytes 8 ?n @ mt"
  have seq: "0 \<le> ch_send_seq a" "ch_send_seq a < 2 ^ 64"
    and w: "w = be_bytes 8 ?n @ mt @ iv @ aesgcm_encrypt C (ch_key a) iv p ?aad"
    using assms(5) by (auto simp: channel_encrypt_Inr)
  note parts = channel_wire_parts [OF assms(3,4) w]
  have "wire_seq w = ch_send_seq a"
    using parts(4) seq by (simp add: nat_less_iff)
  then show ?thesis
    using assms(1,2,6) parts
    by (auto simp: channel_decrypt_Inr channels_match_def aead_lawsD)
qed

lemma channel_send_all_seq:
  "(w, p) \<in> set (channel_send_all C mt ch xs) \<Longrightarrow> ch_send_seq ch \<le> wire_seq w"
proof (induction C mt ch xs rule: channel_send_all.induct)
  case (1 C mt ch)
  then show ?case by simp
next
  case (2 C mt ch iv q xs)
  show ?case
  proof (cases "channel_encrypt C iv ch q mt")
    case (Pair r ch')
    show ?thesis
    proof (cases r)
      case (Inl e)
      then show ?thesis using Pair "2.prems" by simp
    next
      case (Inr v)
      then have enc: "channel_encrypt C iv ch q mt = (Inr v, ch')" using Pair by simp
      then have "ch_send_seq ch \<le> wire_seq v"
        by (auto simp: channel_encrypt_Inr wire_seq_def nat_less_iff)
      moreover have "ch_send_seq ch' = ch_send_seq ch + 1"
        using enc by (auto simp: channel_encrypt_Inr)
      moreover have "(w, p) \<in> set (channel_send_all C mt ch' xs) \<Longrightarrow> ch_send_seq ch' \<le> wire_seq w"
        using "2.IH" Pair Inr by simp
      ultimately show ?thesis
        using "2.prems" enc by (auto split: prod.splits)
    qed
  qed
qed

lemma channel_stream:
  assumes "aead_laws C" and "length mt = 1"
  shows "channels_match a b \<Longrightarrow> ch_last_recv_seq b < ch_send_seq a \<Longrightarrow>
    \<forall>(iv, p) \<in> set xs. length iv = 12 \<Longrightarrow> subseq zs (channel_send_all C mt a xs) \<Longrightarrow>
    run_results (channel_decrypt C mt) b (map fst zs) = map (\<lambda>z. Inr (snd z)) zs"
proof (induction xs arbitrary: a b zs)
  case Nil
  then have "zs = []" by simp
  then show ?case by simp
next
  case (Cons x xs)
  obtain iv p where x: "x = (iv, p)" by (cases x)
  obtain r a' where enc: "channel_encrypt C iv a p mt = (r, a')" by fastforce
  show ?case
  proof (cases r)
    case (Inl e)
    then have "zs = []" using Cons.prems(4) x enc by simp
    then show ?thesis by simp
  next
    case (Inr w)
    have a': "ch_send_seq a' = ch_send_seq a + 1" "channels_match a' b"
      using enc Inr Cons.prems(1) by (auto simp: channel_encrypt_Inr channels_match_def)
    have out: "channel_send_all C mt a (x # xs) = (w, p) # channel_send_all C mt a' xs"
      using x enc Inr by simp
    have iv: "length iv = 12" using Cons.prems(3) x by simp
    let ?b = "b\<lparr> ch_last_recv_seq := ch_send_seq a, ch_recv_count := ch_recv_count b + 1 \<rparr>"
    have dec: "channel_decrypt C mt b w = (Inr p, ?b)"
      using channel_decrypt_encrypt [OF assms(1) Cons.prems(1) assms(2) iv _ Cons.prems(2)] enc Inr
      by simp
    show ?thesis
    proof (cases "zs \<noteq> [] \<and> hd zs = (w, p)")
      case True
      then obtain zs' where zs: "zs = (w, p) # zs'" by (cases zs) auto
      then have "subseq zs' (channel_send_all C mt a' xs)" using Cons.prems(4) out by simp
      moreover have "channels_match a' ?b" using a'(2) by (simp add: channels_match_def)
      ultimately have "run_results (channel_decrypt C mt) ?b (map fst zs') = map (\<lambda>z. Inr (snd z)) zs'"
        using Cons.IH [of a' ?b zs'] a'(1) Cons.prems(3) by simp
      then show ?thesis using zs dec by simp
    next
      case False
      then have "subseq zs (channel_send_all C mt a' xs)"
        using Cons.prems(4) out by (cases zs) auto
      then show ?thesis using Cons.IH [of a' b zs] a' Cons.prems(2,3) by simp
    qed
  qed
qed

text \<open>A concrete pair of channels, on which the properties below are exercised.\<close>

definition demo_channel :: "bytes \<Rightarrow> secure_channel" where
  "demo_channel role = projr (SecureChannel_init (replicate 32 7) (Some (replicate 16 1)) (Some role))"

lemma demo_channel_match: "channels_match (demo_channel CENTRAL_ROLE) (demo_channel PERIPHERAL_ROLE)"
  by (simp add: demo_channel_def SecureChannel_init_def channels_match_def py_or_def bytes_const_defs)

lemma demo_channel_seq [simp]:
  "ch_send_seq (demo_channel role) = 0" "ch_last_recv_seq (demo_channel role) = -1"
  by (simp_all add: demo_channel_def SecureChannel_init_def)

lemma demo_channel_exchange:
  "\<exists>w ch'. channel_decrypt demo_crypto MSG_TYPE_DATA (demo_channel PERIPHERAL_ROLE) w = (Inr [5], ch')"
proof -
  obtain w a' where "channel_encrypt demo_crypto (replicate 12 1) (demo_channel CENTRAL_ROLE) [5]
      MSG_TYPE_DATA = (Inr w, a')"
    by (simp add: channel_encrypt_Inr)
  then show ?thesis
    using channel_decrypt_encrypt [OF demo_aead_laws demo_channel_match, of MSG_TYPE_DATA "replicate 12 1"]
    by fastforce
qed

section \<open>Properties\<close>

text \<open>
  C30. Delivery over the secure channel: whatever list of messages one end encrypts, and whichever of
  the resulting wires the link delivers (in order, any of them possibly lost), the matching end
  decrypts every delivered wire to the plaintext it was made from.
\<close>

theorem secure_channel_delivers:
  assumes "aead_laws C" and "channels_match a b" and "ch_last_recv_seq b < ch_send_seq a"
    and "length mt = 1" and "\<forall>(iv, p) \<in> set xs. length iv = GCM_IV_SIZE"
    and "subseq zs (channel_send_all C mt a xs)"
  shows "run_results (channel_decrypt C mt) b (map fst zs) = map (\<lambda>z. Inr (snd z)) zs"
  using assms by (intro channel_stream) auto

theorem secure_channel_delivers_witness:
  "run_results (channel_decrypt demo_crypto MSG_TYPE_DATA) (demo_channel PERIPHERAL_ROLE)
     (map fst (channel_send_all demo_crypto MSG_TYPE_DATA (demo_channel CENTRAL_ROLE)
        [(replicate 12 1, [5, 6]), (replicate 12 2, [])])) = [Inr [5, 6], Inr []]"
proof -
  let ?xs = "[(replicate 12 1, [5, 6]), (replicate 12 2, [])]"
  have "map snd (channel_send_all demo_crypto MSG_TYPE_DATA (demo_channel CENTRAL_ROLE) ?xs) = [[5, 6], []]"
    by (simp add: channel_encrypt_def channel_build_aad_def to_bytes_def demo_channel_def
        SecureChannel_init_def Let_def)
  then have "map Inr (map snd (channel_send_all demo_crypto MSG_TYPE_DATA (demo_channel CENTRAL_ROLE) ?xs))
      = map Inr [[5, 6], []]" by (rule arg_cong)
  then show ?thesis
    using secure_channel_delivers [OF demo_aead_laws demo_channel_match, of MSG_TYPE_DATA ?xs, OF _ _ _ subseq_order.order_refl]
    by (simp add: comp_def del: channel_send_all.simps)
qed

text \<open>
  C4. Replay protection: a wire that \<open>decrypt\<close> accepted once is refused by the same channel ever
  after, whatever else was received in between, and the sequence numbers of the accepted wires of
  any run strictly increase.
\<close>

theorem secure_channel_no_replay:
  assumes "channel_decrypt C mt ch w = (Inr p, ch')"
  shows "(\<exists>e. fst (channel_decrypt C mt (run_state (channel_decrypt C mt) ch' ws) w) = Inl e)
       \<and> sorted_wrt (<) (map wire_seq (run_accepted (channel_decrypt C mt) ch (w # ws)))"
  using channel_guard.no_replay [OF assms] channel_guard.accepted_increasing by blast

theorem secure_channel_no_replay_witness:
  "\<exists>w p ch'. channel_decrypt demo_crypto MSG_TYPE_DATA (demo_channel PERIPHERAL_ROLE) w = (Inr p, ch')
     \<and> (\<exists>e. fst (channel_decrypt demo_crypto MSG_TYPE_DATA ch' w) = Inl e)"
  using demo_channel_exchange secure_channel_no_replay [where ws = "[]"] by fastforce

text \<open>
  What acceptance proves: \<open>decrypt\<close> accepts a wire only if it is byte for byte the output of
  \<open>encrypt\<close> on a channel with the same key and session in the peer's role, at the sequence number
  and message type the wire carries; a refused wire leaves the channel state unchanged.
\<close>

theorem secure_channel_accepts_only_peer:
  assumes "aead_laws C" and "channel_decrypt C mt ch w = (r, ch')"
  shows "case r of
      Inl e \<Rightarrow> ch' = ch
    | Inr p \<Rightarrow> \<exists>iv peer'. channel_encrypt C iv
        (ch\<lparr> ch_role := ch_peer_role ch, ch_send_seq := wire_seq w \<rparr>) p mt = (Inr w, peer')"
proof (cases r)
  case (Inl e)
  then show ?thesis using channel_decrypt_Inl assms(2) by auto
next
  case (Inr p)
  then have acc: "37 \<le> length w" "slice 8 9 w = mt"
    "aesgcm_decrypt C (ch_key ch) (slice 9 21 w) (drop 21 w)
          (ch_session_id ch @ ch_peer_role ch @ be_bytes 8 (nat (wire_seq w)) @ mt) = Some p"
    using assms(2) by (auto simp: channel_decrypt_Inr)
  have "drop 21 w = aesgcm_encrypt C (ch_key ch) (slice 9 21 w) p
          (ch_session_id ch @ ch_peer_role ch @ be_bytes 8 (nat (wire_seq w)) @ mt)"
    using aead_lawsD(3) [OF assms(1) acc(3)] .
  then have "w = be_bytes 8 (nat (wire_seq w)) @ mt @ slice 9 21 w @ aesgcm_encrypt C (ch_key ch)
      (slice 9 21 w) p (ch_session_id ch @ ch_peer_role ch @ be_bytes 8 (nat (wire_seq w)) @ mt)"
    using wire_split [OF acc(1)] acc(2) by simp
  then show ?thesis using Inr wire_seq_bounds [of w] by (auto simp: channel_encrypt_Inr)
qed

theorem secure_channel_accepts_only_peer_witness:
  "\<exists>w iv peer'. channel_encrypt demo_crypto iv ((demo_channel PERIPHERAL_ROLE)\<lparr>
     ch_role := ch_peer_role (demo_channel PERIPHERAL_ROLE), ch_send_seq := wire_seq w \<rparr>) [5] MSG_TYPE_DATA
     = (Inr w, peer')"
  using demo_channel_exchange secure_channel_accepts_only_peer [OF demo_aead_laws] by fastforce

text \<open>
  The sender never reuses a sequence number and never wraps around: each successful \<open>encrypt\<close>
  puts the current counter in the wire and advances it by one, and at \<open>2 ^ 64\<close> it raises
  \<open>OverflowError\<close> with the channel unchanged instead.
\<close>

theorem secure_channel_send_counter:
  assumes "0 \<le> ch_send_seq ch" and "length mt = 1"
  shows "if ch_send_seq ch < 2 ^ 64
    then \<exists>w. channel_encrypt C iv ch p mt =
        (Inr w, ch\<lparr> ch_send_seq := ch_send_seq ch + 1, ch_sent_count := ch_sent_count ch + 1 \<rparr>)
        \<and> wire_seq w = ch_send_seq ch \<and> slice 8 9 w = mt
    else channel_encrypt C iv ch p mt = (Inl OverflowError, ch)"
proof (cases "ch_send_seq ch < 2 ^ 64")
  case True
  then show ?thesis
    using assms by (simp add: channel_encrypt_Inr wire_seq_def slice_def nat_less_iff)
next
  case False
  then show ?thesis
    by (simp add: channel_encrypt_def Let_def channel_build_aad_def to_bytes_def)
qed

theorem secure_channel_send_counter_witness:
  "channel_encrypt demo_crypto [] ((demo_channel CENTRAL_ROLE)\<lparr> ch_send_seq := 2 ^ 64 \<rparr>) [] MSG_TYPE_DATA
     = (Inl OverflowError, (demo_channel CENTRAL_ROLE)\<lparr> ch_send_seq := 2 ^ 64 \<rparr>)"
  using secure_channel_send_counter
    [of "(demo_channel CENTRAL_ROLE)\<lparr> ch_send_seq := 2 ^ 64 \<rparr>" MSG_TYPE_DATA demo_crypto "[]" "[]"]
  by simp

text \<open>
  The short authentication string shown to the user is always exactly six decimal digits.
\<close>

theorem derive_both_sas_six_digits:
  "derive_both_sas pk ct ss = (sas, s) \<Longrightarrow>
     sas < SAS_MODULUS \<and> length s = SAS_DIGITS \<and> set s \<subseteq> set ''0123456789''"
proof -
  assume "derive_both_sas pk ct ss = (sas, s)"
  then have sas: "sas = derive_sas pk ct ss" and s: "s = zfill 6 (str_nat sas)"
    by (auto simp: derive_both_sas_def Let_def format_sas_def)
  have "sas < SAS_MODULUS" using derive_sas_bound sas by simp
  then show ?thesis using six_digits [of sas] s by simp
qed

theorem derive_both_sas_six_digits_witness:
  "length (snd (derive_both_sas [] [] [])) = 6"
  using derive_both_sas_six_digits [of "[]" "[]" "[]" "fst (derive_both_sas [] [] [])"
      "snd (derive_both_sas [] [] [])"] by simp

text \<open>
  The control characteristic's parser recognises exactly the two messages the Central builds: a
  parsed resume request is the encoding of its 16-byte session id, every such encoding parses back
  to it, and no resume request is confused with the SAS confirmation.
\<close>

theorem parse_control_message_resume:
  "parse_control_message data = ResumeRequest sid \<longleftrightarrow> build_resume_request sid = Inr data"
proof -
  have "data = take 4 data @ slice 4 5 data @ drop 5 data"
    using take_append_drop_slice [of 4 5 data] by simp
  then have "length data = 21 \<and> take 4 data = RESUME_MAGIC \<and> slice 4 5 data = RESUME_REQ \<and> drop 5 data = sid
    \<longleftrightarrow> length sid = 16 \<and> data = RESUME_MAGIC @ RESUME_REQ @ sid"
    by (auto simp: slice_def)
  moreover have "length data = 21 \<Longrightarrow> data \<noteq> ascii ''OK''"
    by auto
  ultimately show ?thesis
    by (auto simp: parse_control_message_def build_resume_request_def)
qed

lemma parse_phase2_encode:
  assumes "encode_phase2_diagnostic st ck = Inr w"
  shows "parse_phase2_diagnostic w = Inr \<lparr> p2_status = st, p2_checksum = ck \<rparr>"
proof -
  have *: "0 \<le> st" "st \<le> 255" "0 \<le> ck" "ck \<le> 0xFFFFFFFF"
    and w: "w = PHASE2_DIAGNOSTIC_MAGIC @ [word_of_int st] @ be_bytes 4 (nat ck)"
    using assms by (auto simp: encode_phase2_diagnostic_def split: if_splits)
  have m: "length PHASE2_DIAGNOSTIC_MAGIC = 4" by (simp add: PHASE2_DIAGNOSTIC_MAGIC_def)
  have "w ! 4 = word_of_int st" "slice 5 9 w = be_bytes 4 (nat ck)" "length w = 9"
      "take 4 w = PHASE2_DIAGNOSTIC_MAGIC"
    using m by (simp_all add: w nth_append slice_def)
  then show ?thesis
    using * by (simp add: parse_phase2_diagnostic_def nat_less_iff)
qed

text \<open>
  The Phase 2 diagnostic message is strict: a byte string parses if and only if it is the encoding
  of a status byte and a 32-bit checksum, and it parses to those.
\<close>

theorem phase2_diagnostic_strict:
  "parse_phase2_diagnostic w = Inr d \<longleftrightarrow> encode_phase2_diagnostic (p2_status d) (p2_checksum d) = Inr w"
proof
  assume "encode_phase2_diagnostic (p2_status d) (p2_checksum d) = Inr w"
  then show "parse_phase2_diagnostic w = Inr d" by (simp add: parse_phase2_encode)
next
  assume "parse_phase2_diagnostic w = Inr d"
  then have len: "length w = 9" and mg: "take 4 w = PHASE2_DIAGNOSTIC_MAGIC"
    and d: "p2_status d = uint (w ! 4)" "p2_checksum d = int (be_nat (slice 5 9 w))"
    by (auto simp: parse_phase2_diagnostic_def split: if_splits)
  have "drop 4 w = w ! 4 # drop 5 w" using len Cons_nth_drop_Suc [of 4 w] by simp
  then have "w = PHASE2_DIAGNOSTIC_MAGIC @ [w ! 4] @ slice 5 9 w"
    using mg len append_take_drop_id [of 4 w] by (simp add: slice_def)
  moreover have "be_bytes 4 (be_nat (slice 5 9 w)) = slice 5 9 w"
    using be_bytes_be_nat [of "slice 5 9 w"] len by simp
  moreover have "be_nat (slice 5 9 w) < 2 ^ 32"
    using be_nat_less [of "slice 5 9 w"] len by simp
  ultimately show "encode_phase2_diagnostic (p2_status d) (p2_checksum d) = Inr w"
    using d by (simp add: encode_phase2_diagnostic_def)
qed

end
