(* ===== verification/V1_Frames.thy ===== *)
theory V1_Frames
  imports Session
begin

text \<open>
  \<open>src/common/v1_smp_mlkem.py\<close>: the PQV1 control frames of v1.0, the SEC\_QUERY/SEC\_INFO link
  attestation, the strict Level-4 predicate and the classification of GATT failures as security
  denials.
\<close>

section \<open>Constants\<close>

definition V1_FRAME_MAGIC :: bytes where "V1_FRAME_MAGIC = ascii ''PQV1''"
definition V1_CP2_DIAGNOSTIC_LABEL :: bytes where
  "V1_CP2_DIAGNOSTIC_LABEL = ascii ''PQ-BLE-HANDSHAKE-v1.0/CP2-DIAGNOSTIC''"

abbreviation (input) V1_FRAME_VERSION :: int where "V1_FRAME_VERSION \<equiv> 0x10"
abbreviation (input) V1_FRAME_HEADER_SIZE :: nat where "V1_FRAME_HEADER_SIZE \<equiv> 8"
abbreviation (input) V1_SEC_QUERY :: int where "V1_SEC_QUERY \<equiv> 0x01"
abbreviation (input) V1_SEC_INFO :: int where "V1_SEC_INFO \<equiv> 0x02"
abbreviation (input) V1_START :: int where "V1_START \<equiv> 0x10"
abbreviation (input) V1_READY :: int where "V1_READY \<equiv> 0x11"
abbreviation (input) V1_FINISHED_C :: int where "V1_FINISHED_C \<equiv> 0x12"
abbreviation (input) V1_FINISHED_P :: int where "V1_FINISHED_P \<equiv> 0x13"
abbreviation (input) V1_START_CP3 :: int where "V1_START_CP3 \<equiv> 0x14"
abbreviation (input) V1_READY_CP3 :: int where "V1_READY_CP3 \<equiv> 0x15"
abbreviation (input) V1_APP_C2P :: int where "V1_APP_C2P \<equiv> 0x20"
abbreviation (input) V1_APP_P2C :: int where "V1_APP_P2C \<equiv> 0x21"
abbreviation (input) V1_ERROR :: int where "V1_ERROR \<equiv> 0x7F"
abbreviation (input) V1_SEC_INFO_PAYLOAD_SIZE :: nat where "V1_SEC_INFO_PAYLOAD_SIZE \<equiv> 4"
abbreviation (input) V1_CP2_SESSION_ID_SIZE :: nat where "V1_CP2_SESSION_ID_SIZE \<equiv> 16"
abbreviation (input) V1_CP2_DIAGNOSTIC_SIZE :: nat where "V1_CP2_DIAGNOSTIC_SIZE \<equiv> 32"
abbreviation (input) V1_CP3_SESSION_ID_SIZE :: nat where "V1_CP3_SESSION_ID_SIZE \<equiv> 16"
abbreviation (input) V1_CP3_HASH_SIZE :: nat where "V1_CP3_HASH_SIZE \<equiv> 32"
abbreviation (input) V1_SEC_FLAG_SC :: int where "V1_SEC_FLAG_SC \<equiv> 0x01"
abbreviation (input) V1_SEC_FLAG_AUTHENTICATED :: int where "V1_SEC_FLAG_AUTHENTICATED \<equiv> 0x02"
abbreviation (input) V1_SEC_FLAG_GATE_OPEN :: int where "V1_SEC_FLAG_GATE_OPEN \<equiv> 0x04"
abbreviation (input) V1_PROFILE_ID :: int where "V1_PROFILE_ID \<equiv> 0x10"
abbreviation (input) BT_SECURITY_L4 :: int where "BT_SECURITY_L4 \<equiv> 4"
abbreviation (input) L4_ENC_KEY_SIZE :: int where "L4_ENC_KEY_SIZE \<equiv> 16"

definition v1_payload_sizes :: "int \<rightharpoonup> nat" where
  "v1_payload_sizes = map_of
     [(V1_START_CP3, V1_CP3_SESSION_ID_SIZE), (V1_READY_CP3, V1_CP3_HASH_SIZE),
      (V1_FINISHED_C, V1_CP3_HASH_SIZE), (V1_FINISHED_P, V1_CP3_HASH_SIZE),
      (V1_START, V1_CP2_SESSION_ID_SIZE), (V1_READY, V1_CP2_DIAGNOSTIC_SIZE),
      (V1_SEC_QUERY, 0), (V1_SEC_INFO, V1_SEC_INFO_PAYLOAD_SIZE), (V1_ERROR, 1)]"

section \<open>Frames\<close>

record v1_frame =
  v1_subtype :: int
  v1_payload :: bytes

definition v1_validate_payload :: "int \<Rightarrow> bytes \<Rightarrow> unit result" where
  "v1_validate_payload subtype payload =
     (if subtype = V1_APP_C2P \<or> subtype = V1_APP_P2C
      then if \<not> (27 \<le> length payload \<and> length payload \<le> 27 + 128)
              \<or> length payload \<noteq> 27 + be_nat (slice 9 11 payload)
           then Inl (ValueError ''invalid CP4 application payload length'') else Inr ()
      else case v1_payload_sizes subtype of
             None \<Rightarrow> Inl (ValueError ''unsupported PQV1 subtype'')
           | Some expected \<Rightarrow>
               if length payload \<noteq> expected then Inl (ValueError ''PQV1 payload size'') else Inr ())"

definition encode_v1_frame :: "int \<Rightarrow> bytes \<Rightarrow> bytes result" where
  "encode_v1_frame subtype payload =
     bindR (v1_validate_payload subtype payload) (\<lambda>_.
     Inr (V1_FRAME_MAGIC @ [word_of_int V1_FRAME_VERSION, word_of_int subtype]
          @ be_bytes 2 (length payload) @ payload))"

definition parse_v1_frame :: "bytes \<Rightarrow> v1_frame result" where
  "parse_v1_frame data =
     (if length data < V1_FRAME_HEADER_SIZE then Inl (ValueError ''truncated PQV1 frame'')
      else if take 4 data \<noteq> V1_FRAME_MAGIC then Inl (ValueError ''incorrect PQV1 magic'')
      else if uint (data ! 4) \<noteq> V1_FRAME_VERSION then Inl (ValueError ''incorrect PQV1 version'')
      else let declared = be_nat (slice 6 8 data)
           in if length data \<noteq> V1_FRAME_HEADER_SIZE + declared
              then Inl (ValueError ''incorrect PQV1 payload length'')
              else let frame = \<lparr> v1_subtype = uint (data ! 5), v1_payload = drop 8 data \<rparr>
                   in bindR (v1_validate_payload (v1_subtype frame) (v1_payload frame)) (\<lambda>_. Inr frame))"

definition encode_sec_query :: "bytes result" where
  "encode_sec_query = encode_v1_frame V1_SEC_QUERY []"

definition encode_v1_error :: "int \<Rightarrow> bytes result" where
  "encode_v1_error status = bindR (one_byte status) (encode_v1_frame V1_ERROR)"

section \<open>Link security\<close>

record v1_security_info =
  si_level :: int
  si_secure_connections :: bool
  si_authenticated :: bool
  si_gate_open :: bool
  si_enc_key_size :: int
  si_profile :: int

definition encode_sec_info :: "v1_security_info \<Rightarrow> bytes result" where
  "encode_sec_info info =
     (if \<not> (0 \<le> si_level info \<and> si_level info \<le> 0xFF)
         \<or> \<not> (0 \<le> si_enc_key_size info \<and> si_enc_key_size info \<le> 0xFF)
      then Inl (ValueError ''SEC_INFO fields must be single bytes'')
      else
        let flags = (0 :: int);
            flags = (if si_secure_connections info then or flags V1_SEC_FLAG_SC else flags);
            flags = (if si_authenticated info then or flags V1_SEC_FLAG_AUTHENTICATED else flags);
            flags = (if si_gate_open info then or flags V1_SEC_FLAG_GATE_OPEN else flags)
        in encode_v1_frame V1_SEC_INFO
             [word_of_int (si_level info), word_of_int flags, word_of_int (si_enc_key_size info),
              word_of_int (and (si_profile info) 0xFF)])"

text \<open>
  Unpacking the payload raises a \<open>ValueError\<close> unless it has four bytes, which the frame parser has
  already made sure of.
\<close>

definition parse_sec_info :: "bytes \<Rightarrow> v1_security_info result" where
  "parse_sec_info data =
     bindR (parse_v1_frame data) (\<lambda>frame.
     if v1_subtype frame \<noteq> V1_SEC_INFO then Inl (ValueError ''expected SEC_INFO'')
     else (case v1_payload frame of
             [level, flags, key_size, profile] \<Rightarrow>
               Inr \<lparr> si_level = uint level,
                     si_secure_connections = (and (uint flags) V1_SEC_FLAG_SC \<noteq> 0),
                     si_authenticated = (and (uint flags) V1_SEC_FLAG_AUTHENTICATED \<noteq> 0),
                     si_gate_open = (and (uint flags) V1_SEC_FLAG_GATE_OPEN \<noteq> 0),
                     si_enc_key_size = uint key_size,
                     si_profile = uint profile \<rparr>
           | _ \<Rightarrow> Inl (ValueError ''not enough values to unpack'')))"

definition is_authenticated_level4 :: "v1_security_info \<Rightarrow> bool" where
  "is_authenticated_level4 info \<longleftrightarrow>
     si_level info = BT_SECURITY_L4 \<and> si_secure_connections info \<and> si_authenticated info
     \<and> si_gate_open info \<and> si_enc_key_size info = L4_ENC_KEY_SIZE \<and> si_profile info = V1_PROFILE_ID"

section \<open>Security denials\<close>

definition SECURITY_DENIAL_ATT_CODES :: "int \<rightharpoonup> string" where
  "SECURITY_DENIAL_ATT_CODES = map_of
     [(0x05, ''ATT Insufficient Authentication''), (0x08, ''ATT Insufficient Authorization''),
      (0x0F, ''ATT Insufficient Encryption'')]"

text \<open>The two regular expressions, matched case-insensitively on ASCII text.\<close>

definition lower :: "char \<Rightarrow> char" where
  "lower c = (if 65 \<le> (of_char c :: nat) \<and> (of_char c :: nat) \<le> 90
              then char_of ((of_char c :: nat) + 32) else c)"

definition is_word_char :: "char \<Rightarrow> bool" where
  "is_word_char c \<longleftrightarrow> c = CHR ''_'' \<or> lower c \<in> set ''abcdefghijklmnopqrstuvwxyz0123456789''"

text \<open>\<open>\b\<close> between the character before (if any) and the rest of the text.\<close>

definition word_boundary :: "char option \<Rightarrow> string \<Rightarrow> bool" where
  "word_boundary before rest \<longleftrightarrow>
     (case before of None \<Rightarrow> False | Some c \<Rightarrow> is_word_char c)
       \<noteq> (case rest of [] \<Rightarrow> False | c # _ \<Rightarrow> is_word_char c)"

definition strip_prefix :: "string \<Rightarrow> string \<Rightarrow> string option" where
  "strip_prefix pat s =
     (if map lower (take (length pat) s) = map lower pat then Some (drop (length pat) s) else None)"

definition hex_value :: "char \<Rightarrow> int option" where
  "hex_value c = map_of (zip ''0123456789abcdef'' [0..15]) (lower c)"

definition match_att_pats :: "string list \<Rightarrow> char option \<Rightarrow> string \<Rightarrow> int option" where
  "match_att_pats pats before s =
     (if \<not> word_boundary before s then None
      else case List.find (\<lambda>pat. strip_prefix (pat @ '' 0x'') s \<noteq> None) pats of
             None \<Rightarrow> None
           | Some pat \<Rightarrow>
               (case the (strip_prefix (pat @ '' 0x'') s) of
                  a # b # rest \<Rightarrow>
                    (case (hex_value a, hex_value b) of
                       (Some x, Some y) \<Rightarrow> if word_boundary (Some b) rest then Some (16 * x + y) else None
                     | _ \<Rightarrow> None)
                | _ \<Rightarrow> None))"

definition match_att_here :: "char option \<Rightarrow> string \<Rightarrow> int option" where
  "match_att_here = match_att_pats [''Protocol Error'', ''ATT error:'', ''error code'']"

text \<open>\<open>re.search\<close>: the leftmost position at which the pattern matches.\<close>

fun search_re :: "(char option \<Rightarrow> string \<Rightarrow> 'a option) \<Rightarrow> char option \<Rightarrow> string \<Rightarrow> 'a option" where
  "search_re match_here before [] = match_here before []"
| "search_re match_here before (c # cs) =
     (case match_here before (c # cs) of Some n \<Rightarrow> Some n | None \<Rightarrow> search_re match_here (Some c) cs)"

definition search_att :: "char option \<Rightarrow> string \<Rightarrow> int option" where
  "search_att = search_re match_att_here"

definition match_denied_here :: "char option \<Rightarrow> string \<Rightarrow> bool" where
  "match_denied_here before s \<longleftrightarrow>
     word_boundary before s \<and>
     (case strip_prefix ''Access Denied'' s of None \<Rightarrow> False | Some rest \<Rightarrow> word_boundary (Some (CHR ''d'')) rest)"

fun search_denied :: "char option \<Rightarrow> string \<Rightarrow> bool" where
  "search_denied before [] = match_denied_here before []"
| "search_denied before (c # cs) = (match_denied_here before (c # cs) \<or> search_denied (Some c) cs)"

abbreviation (input) WINRT_ATT_HRESULT_BASE :: int where "WINRT_ATT_HRESULT_BASE \<equiv> 0x80650000"
abbreviation (input) WINRT_E_ACCESSDENIED :: int where "WINRT_E_ACCESSDENIED \<equiv> 0x80070005"

definition classify_security_denial :: "gatt_exception \<Rightarrow> string option" where
  "classify_security_denial exc =
     (case exc of
        GattProtocolError code \<Rightarrow> SECURITY_DENIAL_ATT_CODES code
      | BleakError message \<Rightarrow>
          (case search_att None message of
             Some code \<Rightarrow> SECURITY_DENIAL_ATT_CODES code
           | None \<Rightarrow> if search_denied None message
                      then Some ''WinRT Access Denied (pairing/encryption required)'' else None)
      | OtherError None \<Rightarrow> None
      | OtherError (Some winerror) \<Rightarrow>
          (let hresult = and winerror 0xFFFFFFFF
           in if hresult = WINRT_E_ACCESSDENIED then Some ''WinRT E_ACCESSDENIED''
              else if and hresult 0xFFFF0000 = WINRT_ATT_HRESULT_BASE
              then SECURITY_DENIAL_ATT_CODES (and hresult 0xFF) else None))"

section \<open>Lemmas\<close>

lemma length_V1_FRAME_MAGIC [simp]: "length V1_FRAME_MAGIC = 4"
  by (simp add: V1_FRAME_MAGIC_def)

definition v1_valid :: "int \<Rightarrow> bytes \<Rightarrow> bool" where
  "v1_valid t p \<longleftrightarrow> v1_validate_payload t p = Inr ()"

lemma v1_valid_iff:
  "v1_valid t p \<longleftrightarrow>
     (t \<in> {32, 33} \<and> 27 \<le> length p \<and> length p \<le> 155 \<and> length p = 27 + be_nat (slice 9 11 p))
   \<or> (t \<in> {16, 20} \<and> length p = 16) \<or> (t \<in> {17, 18, 19, 21} \<and> length p = 32)
   \<or> (t = 1 \<and> p = []) \<or> (t = 2 \<and> length p = 4) \<or> (t = 127 \<and> length p = 1)"
  by (auto simp: v1_valid_def v1_validate_payload_def v1_payload_sizes_def split: option.splits)

lemma v1_valid_byte: "v1_valid t p \<Longrightarrow> 0 \<le> t \<and> t \<le> 255 \<and> length p \<le> 65535"
  by (auto simp: v1_valid_iff)

interpretation pqv1: frame_codec V1_FRAME_MAGIC V1_FRAME_VERSION v1_valid
  encode_v1_frame parse_v1_frame v1_subtype v1_payload
proof
  fix t p w
  show "encode_v1_frame t p = Inr w \<longleftrightarrow> v1_valid t p \<and> w = frame_wire V1_FRAME_MAGIC 16 t p"
    by (auto simp: encode_v1_frame_def frame_wire_def v1_valid_def)
  let ?w = "frame_wire V1_FRAME_MAGIC 16 t p"
  assume v: "v1_valid t p"
  show "0 \<le> t \<and> t \<le> 255 \<and> length p \<le> 65535" using v1_valid_byte [OF v] .
  then show "\<exists>f. parse_v1_frame ?w = Inr f \<and> v1_subtype f = t \<and> v1_payload f = p"
    using parse_wire_length [of V1_FRAME_MAGIC p 16 t] v
    by (simp add: parse_v1_frame_def Let_def frame_wire_parts v1_valid_def)
next
  fix w f
  assume "parse_v1_frame w = Inr f"
  then show "v1_valid (v1_subtype f) (v1_payload f)
      \<and> w = frame_wire V1_FRAME_MAGIC 16 (v1_subtype f) (v1_payload f)"
    using frame_wire_intro [of w V1_FRAME_MAGIC 16]
    by (auto simp: parse_v1_frame_def Let_def v1_valid_def split: if_splits)
qed simp_all

lemma parse_v1_as:
  "parse_v1_frame w = Inr f \<longleftrightarrow>
     v1_valid (v1_subtype f) (v1_payload f) \<and> w = frame_wire V1_FRAME_MAGIC 16 (v1_subtype f) (v1_payload f)"
  using pqv1.parse_Inr [of w f] pqv1.parse_wire [of "v1_subtype f" "v1_payload f"]
  by (metis (full_types) old.unit.exhaust v1_frame.equality)

lemma parse_v1_wire:
  "v1_valid t p \<Longrightarrow> parse_v1_frame (frame_wire V1_FRAME_MAGIC 16 t p) = Inr \<lparr> v1_subtype = t, v1_payload = p \<rparr>"
  by (simp add: parse_v1_as)

lemma parse_v1_ex:
  "(\<exists>f. parse_v1_frame w = Inr f \<and> P (v1_subtype f) (v1_payload f)) \<longleftrightarrow>
     (\<exists>t p. v1_valid t p \<and> w = frame_wire V1_FRAME_MAGIC 16 t p \<and> P t p)"
proof
  assume "\<exists>t p. v1_valid t p \<and> w = frame_wire V1_FRAME_MAGIC 16 t p \<and> P t p"
  then obtain t p where "v1_valid t p" "w = frame_wire V1_FRAME_MAGIC 16 t p" "P t p" by blast
  then show "\<exists>f. parse_v1_frame w = Inr f \<and> P (v1_subtype f) (v1_payload f)"
    using parse_v1_wire by (intro exI [of _ "\<lparr> v1_subtype = t, v1_payload = p \<rparr>"]) simp
qed (auto simp: parse_v1_as)

text \<open>Masks as remainders.\<close>

lemma and_mask32: "and (n :: int) 0xFFFFFFFF = n mod 2 ^ 32"
  using take_bit_eq_mask [of 32 n] by (simp add: take_bit_eq_mod mask_eq_exp_minus_1)

lemma and_mask8: "and (n :: int) 0xFF = n mod 256"
  using take_bit_eq_mask [of 8 n] by (simp add: take_bit_eq_mod mask_eq_exp_minus_1)

lemma and_high_half: "and (n :: int) 0xFFFF0000 = (n div 65536) mod 65536 * 65536"
proof -
  have "and n (push_bit 16 (mask 16)) = push_bit 16 (take_bit 16 (drop_bit 16 n))"
    by (rule bit_eqI) (auto simp: bit_simps)
  moreover have "push_bit 16 (mask 16) = (0xFFFF0000 :: int)"
    by (simp add: push_bit_eq_mult mask_eq_exp_minus_1)
  ultimately show ?thesis
    by (simp add: push_bit_eq_mult drop_bit_eq_div take_bit_eq_mod)
qed

lemma hresult_parts:
  "(n :: int) mod 2 ^ 32 mod 256 = n mod 256" "(n :: int) mod 2 ^ 32 div 65536 mod 65536 = n div 65536 mod 65536"
proof -
  show "n mod 2 ^ 32 mod 256 = n mod 256" by (simp add: mod_mod_cancel)
  have "n mod 2 ^ 32 = 65536 * (n div 65536 mod 65536) + n mod 65536"
    using zmod_zmult2_eq [of 65536 n 65536] by simp
  then show "n mod 2 ^ 32 div 65536 mod 65536 = n div 65536 mod 65536" by simp
qed

lemma denial_codes: "SECURITY_DENIAL_ATT_CODES c \<noteq> None \<longleftrightarrow> c \<in> {5, 8, 15}"
  by (simp add: SECURITY_DENIAL_ATT_CODES_def)

subsection \<open>SEC\_INFO\<close>

definition sec_flags :: "v1_security_info \<Rightarrow> int" where
  "sec_flags i = (if si_secure_connections i then 1 else 0) + (if si_authenticated i then 2 else 0)
     + (if si_gate_open i then 4 else 0)"

lemma encode_sec_info_Inr:
  "encode_sec_info i = Inr w \<longleftrightarrow>
     0 \<le> si_level i \<and> si_level i \<le> 255 \<and> 0 \<le> si_enc_key_size i \<and> si_enc_key_size i \<le> 255
     \<and> w = frame_wire V1_FRAME_MAGIC 16 2
         [word_of_int (si_level i), word_of_int (sec_flags i), word_of_int (si_enc_key_size i),
          word_of_int (si_profile i mod 256)]"
  by (auto simp: encode_sec_info_def sec_flags_def Let_def pqv1.encode_Inr v1_valid_iff and_mask8)

lemma parse_sec_info_wire:
  "parse_sec_info (frame_wire V1_FRAME_MAGIC 16 2 [a, b, c, d]) =
     Inr \<lparr> si_level = uint a, si_secure_connections = odd (uint b),
           si_authenticated = odd (uint b div 2), si_gate_open = odd (uint b div 4),
           si_enc_key_size = uint c, si_profile = uint d \<rparr>"
proof -
  have "and n 2 \<noteq> 0 \<longleftrightarrow> odd (n div 2)" "and n 4 \<noteq> 0 \<longleftrightarrow> odd (n div 4)" for n :: int
    using bit_iff_odd [of n 1] bit_iff_odd [of n 2] and_exp_eq_0_iff_not_bit [of n 1] and_exp_eq_0_iff_not_bit [of n 2] by simp_all
  moreover obtain f where "parse_v1_frame (frame_wire V1_FRAME_MAGIC 16 2 [a, b, c, d]) = Inr f"
      "v1_subtype f = 2" "v1_payload f = [a, b, c, d]"
    using pqv1.parse_wire [of 2 "[a, b, c, d]"] by (auto simp: v1_valid_iff)
  ultimately show ?thesis
    by (simp add: parse_sec_info_def and_one_eq odd_iff_mod_2_eq_one)
qed

lemma parse_sec_info_Inr:
  assumes "parse_sec_info w = Inr i"
  obtains a b c d where "w = frame_wire V1_FRAME_MAGIC 16 2 [a, b, c, d]"
proof -
  obtain f where "parse_v1_frame w = Inr f" "v1_subtype f = 2"
    using assms by (auto simp: parse_sec_info_def split: if_splits)
  then have "w = frame_wire V1_FRAME_MAGIC 16 2 (v1_payload f)" "length (v1_payload f) = 4"
    using pqv1.parse_Inr [of w f] by (auto simp: v1_valid_iff)
  then show thesis using that by (auto simp: length_Suc_conv numeral_eq_Suc)
qed

text \<open>The one SEC\_INFO wire that describes an authenticated Level-4 link canonically.\<close>

definition level4_wire :: bytes where
  "level4_wire = frame_wire V1_FRAME_MAGIC V1_FRAME_VERSION V1_SEC_INFO [4, 7, 16, 16]"

lemma level4_wire_iff:
  "(\<exists>i. parse_sec_info w = Inr i \<and> encode_sec_info i = Inr w \<and> is_authenticated_level4 i)
     \<longleftrightarrow> w = level4_wire"
proof
  assume "\<exists>i. parse_sec_info w = Inr i \<and> encode_sec_info i = Inr w \<and> is_authenticated_level4 i"
  then show "w = level4_wire"
    by (auto simp: encode_sec_info_Inr is_authenticated_level4_def sec_flags_def level4_wire_def)
next
  assume "w = level4_wire"
  then show "\<exists>i. parse_sec_info w = Inr i \<and> encode_sec_info i = Inr w \<and> is_authenticated_level4 i"
    by (simp add: level4_wire_def parse_sec_info_wire encode_sec_info_Inr is_authenticated_level4_def sec_flags_def)
qed

section \<open>Properties\<close>

text \<open>
  The DK's link attestation survives the wire: encoding succeeds exactly when the level and the
  key size are single bytes, and parsing the frame gives back every field, the profile reduced to
  its low byte.
\<close>

theorem sec_info_roundtrip:
  "(\<exists>w. encode_sec_info i = Inr w \<and> parse_sec_info w = Inr (i\<lparr> si_profile := si_profile i mod 256 \<rparr>))
     \<longleftrightarrow> 0 \<le> si_level i \<and> si_level i \<le> 255 \<and> 0 \<le> si_enc_key_size i \<and> si_enc_key_size i \<le> 255"
proof -
  have p: "0 \<le> si_profile i mod 256" "si_profile i mod 256 \<le> 255" by simp_all
  have "odd (sec_flags i) = si_secure_connections i" "odd (sec_flags i div 2) = si_authenticated i"
      "odd (sec_flags i div 4) = si_gate_open i" "0 \<le> sec_flags i" "sec_flags i \<le> 255"
    by (simp_all add: sec_flags_def)
  then show ?thesis
    using p by (auto simp: encode_sec_info_Inr parse_sec_info_wire)
qed

text \<open>
  The classifier calls a GATT failure a security denial only for the ATT codes 0x05, 0x08 and
  0x0F, for E\_ACCESSDENIED, or for an HRESULT in the ATT range whose low byte is one of these codes;
  a signed and an unsigned reading of the same HRESULT are classified alike, and an exception
  without an error code is never a denial.
\<close>

theorem security_denial_codes:
  "(classify_security_denial (GattProtocolError c) \<noteq> None \<longleftrightarrow> c \<in> {0x05, 0x08, 0x0F})
   \<and> (classify_security_denial (OtherError (Some n)) \<noteq> None \<longleftrightarrow>
        n mod 2 ^ 32 = 0x80070005
        \<or> (n div 2 ^ 16 mod 2 ^ 16 = 0x8065 \<and> n mod 256 \<in> {0x05, 0x08, 0x0F}))
   \<and> classify_security_denial (OtherError (Some (n - 2 ^ 32))) = classify_security_denial (OtherError (Some n))
   \<and> classify_security_denial (OtherError None) = None"
proof -
  have w: "classify_security_denial (OtherError (Some m)) \<noteq> None \<longleftrightarrow>
      m mod 2 ^ 32 = 0x80070005 \<or> (m div 65536 mod 65536 = 0x8065 \<and> m mod 256 \<in> {5, 8, 15})" for m
    using denial_codes [of "m mod 256"] hresult_parts [of m]
    by (simp add: classify_security_denial_def Let_def and_mask32 and_mask8 and_high_half)
  have "classify_security_denial (OtherError (Some (n - 2 ^ 32))) = classify_security_denial (OtherError (Some n))"
    by (simp add: classify_security_denial_def Let_def and_mask32)
  then show ?thesis
    using w denial_codes [of c] by (simp add: classify_security_denial_def)
qed

end
