(* ===== verification/V1_Handshake.thy ===== *)
theory V1_Handshake
  imports V1_Frames
begin

text \<open>
  \<open>src/common/v1_cp2.py\<close> (the interoperability diagnostic) and \<open>src/common/v1_cp3.py\<close>: the v1.0
  transcript, the ML-KEM key schedule, the FINISHED values and the Central's handshake object, a
  state machine whose methods wipe every secret and close on any exception.
\<close>

section \<open>CP2 diagnostic\<close>

definition cp2_compute_diagnostic :: "bytes \<Rightarrow> bytes \<Rightarrow> bytes \<Rightarrow> bytes \<Rightarrow> bytes result" where
  "cp2_compute_diagnostic shared_secret session_id public_key ciphertext =
     (if length shared_secret \<noteq> SS_SIZE \<or> length session_id \<noteq> V1_CP2_SESSION_ID_SIZE
         \<or> length public_key \<noteq> PK_SIZE \<or> length ciphertext \<noteq> CT_SIZE
      then Inl (ValueError ''invalid CP2 diagnostic input length'')
      else let digest = sha256 (public_key @ ciphertext)
           in Inr (hmac_sha256 shared_secret (V1_CP2_DIAGNOSTIC_LABEL @ session_id @ digest)))"

section \<open>CP3 transcript and keys\<close>

definition CP3_TRANSCRIPT_LABEL :: bytes where
  "CP3_TRANSCRIPT_LABEL = ascii ''PQ-BLE-HANDSHAKE-v1.0/CP3-TRANSCRIPT''"
definition FINISHED_C_LABEL :: bytes where "FINISHED_C_LABEL = ascii ''PQ-BLE-HANDSHAKE-v1.0/FINISHED-C''"
definition FINISHED_P_LABEL :: bytes where "FINISHED_P_LABEL = ascii ''PQ-BLE-HANDSHAKE-v1.0/FINISHED-P''"
definition VERIFY_C_LABEL :: bytes where "VERIFY_C_LABEL = ascii ''PQ-BLE-HANDSHAKE-v1.0/VERIFY-C''"
definition VERIFY_P_LABEL :: bytes where "VERIFY_P_LABEL = ascii ''PQ-BLE-HANDSHAKE-v1.0/VERIFY-P''"
definition APP_C2P_LABEL :: bytes where "APP_C2P_LABEL = ascii ''PQ-BLE-HANDSHAKE-v1.0/APP-C2P''"
definition APP_P2C_LABEL :: bytes where "APP_P2C_LABEL = ascii ''PQ-BLE-HANDSHAKE-v1.0/APP-P2C''"

definition build_transcript :: "bytes \<Rightarrow> bytes \<Rightarrow> bytes \<Rightarrow> bytes \<Rightarrow> bytes result" where
  "build_transcript sec_info pk ct start =
     bindR (parse_sec_info sec_info) (\<lambda>info.
     bindR (encode_sec_info info) (\<lambda>canonical.
     if canonical \<noteq> sec_info then Inl (ValueError ''noncanonical SEC_INFO'')
     else if length pk \<noteq> PK_SIZE \<or> length ct \<noteq> CT_SIZE
     then Inl (ValueError ''invalid ML-KEM transcript input size'')
     else bindR (parse_v1_frame start) (\<lambda>frame.
          if v1_subtype frame \<noteq> V1_START_CP3 then Inl (ValueError ''expected START_CP3'')
          else Inr (CP3_TRANSCRIPT_LABEL @ sec_info @ pk @ ct @ start))))"

definition cp3_transcript_hash :: "bytes \<Rightarrow> bytes \<Rightarrow> bytes \<Rightarrow> bytes \<Rightarrow> bytes result" where
  "cp3_transcript_hash sec_info pk ct start =
     bindR (build_transcript sec_info pk ct start) (\<lambda>t. Inr (sha256 t))"

definition cp3_extract :: "bytes \<Rightarrow> bytes \<Rightarrow> bytes result" where
  "cp3_extract th0 ss_mlkem =
     (if length th0 \<noteq> 32 \<or> length ss_mlkem \<noteq> 32
      then Inl (ValueError ''HKDF-Extract requires 32-byte TH0 and SS_MLKEM'')
      else Inr (hmac_sha256 th0 ss_mlkem))"

definition cp3_expand :: "bytes \<Rightarrow> bytes \<Rightarrow> bytes \<Rightarrow> bytes result" where
  "cp3_expand prk label th =
     (if length prk \<noteq> 32 \<or> length th \<noteq> 32
      then Inl (ValueError ''HKDF-Expand requires 32-byte PRK and transcript hash'')
      else Inr (hmac_sha256 prk (label @ th @ [0x01])))"

definition cp3_verify_data :: "bytes \<Rightarrow> bytes \<Rightarrow> bytes \<Rightarrow> bytes result" where
  "cp3_verify_data key label th =
     (if length key \<noteq> 32 \<or> length th \<noteq> 32 then Inl (ValueError ''invalid FINISHED input size'')
      else Inr (hmac_sha256 key (label @ th)))"

definition cp3_chain :: "bytes \<Rightarrow> bytes \<Rightarrow> bytes result" where
  "cp3_chain th frame =
     (if length th \<noteq> 32 then Inl (ValueError ''invalid transcript chaining input'')
      else bindR (parse_v1_frame frame) (\<lambda>f.
           if v1_subtype f \<noteq> V1_FINISHED_C \<and> v1_subtype f \<noteq> V1_FINISHED_P
           then Inl (ValueError ''invalid transcript chaining input'')
           else Inr (sha256 (th @ frame))))"

section \<open>The Central's handshake object\<close>

text \<open>The states of the three session objects (CentralHandshake, CentralResume, FullHandshake).\<close>

datatype hs_state =
    HS_NEW | HS_WAIT_READY_CP3 | HS_WAIT_FINISHED_P | HS_WAIT_ACCEPT | HS_WAIT_FINISH_P
  | HS_WAIT_AUTH | HS_APP_SECURE | HS_CLOSED

record cp3 =
  h3_state :: hs_state
  h3_th :: bytes
  h3_prk :: bytes
  h3_finished_c :: bytes
  h3_finished_p :: bytes
  h3_app_c2p :: bytes
  h3_app_p2c :: bytes
  h3_session_id :: bytes

definition cp3_init :: cp3 where
  "cp3_init = \<lparr> h3_state = HS_NEW, h3_th = [], h3_prk = [], h3_finished_c = [], h3_finished_p = [],
     h3_app_c2p = [], h3_app_p2c = [], h3_session_id = [] \<rparr>"

definition cp3_clear_handshake :: "cp3 \<Rightarrow> cp3" where
  "cp3_clear_handshake h = h\<lparr> h3_prk := wipe (h3_prk h), h3_finished_c := wipe (h3_finished_c h),
     h3_finished_p := wipe (h3_finished_p h), h3_th := wipe (h3_th h) \<rparr>"

definition cp3_clear :: "cp3 \<Rightarrow> cp3" where
  "cp3_clear h = (cp3_clear_handshake h)\<lparr> h3_app_c2p := wipe (h3_app_c2p h),
     h3_app_p2c := wipe (h3_app_p2c h), h3_session_id := [], h3_state := HS_CLOSED \<rparr>"

definition cp3_begin :: "bytes \<Rightarrow> bytes \<Rightarrow> bytes \<Rightarrow> bytes \<Rightarrow> bytes \<Rightarrow> (cp3, unit) meth" where
  "cp3_begin ss_mlkem sec_info pk ct start = onerr cp3_clear (
     bindM (readM (\<lambda>h. if h3_state h \<noteq> HS_NEW
              then Inl (ValueError ''CP3 requires a new transaction on strict L4'')
              else bindR (parse_sec_info sec_info) (\<lambda>info.
                   requireR (is_authenticated_level4 info)
                     (ValueError ''CP3 requires a new transaction on strict L4'')))) (\<lambda>_.
     bindM (liftR (cp3_transcript_hash sec_info pk ct start)) (\<lambda>th.
     seqM (setM (\<lambda>h. h\<lparr> h3_th := th \<rparr>)) (
     bindM (liftR (parse_v1_frame start)) (\<lambda>frame.
     seqM (setM (\<lambda>h. h\<lparr> h3_session_id := v1_payload frame \<rparr>)) (
     bindM (liftR (cp3_extract th ss_mlkem)) (\<lambda>prk.
     seqM (setM (\<lambda>h. h\<lparr> h3_prk := prk \<rparr>)) (
     bindM (liftR (cp3_expand prk FINISHED_C_LABEL th)) (\<lambda>fc.
     seqM (setM (\<lambda>h. h\<lparr> h3_finished_c := fc \<rparr>)) (
     bindM (liftR (cp3_expand prk FINISHED_P_LABEL th)) (\<lambda>fp.
     setM (\<lambda>h. h\<lparr> h3_finished_p := fp, h3_state := HS_WAIT_READY_CP3 \<rparr>))))))))))))"

definition cp3_accept_ready :: "bytes \<Rightarrow> (cp3, bytes) meth" where
  "cp3_accept_ready raw = onerr cp3_clear (
     bindM (liftR (parse_v1_frame raw)) (\<lambda>frame.
     bindM (readM (\<lambda>h. if h3_state h \<noteq> HS_WAIT_READY_CP3 \<or> v1_subtype frame \<noteq> V1_READY_CP3
                          \<or> h3_th h \<noteq> v1_payload frame
              then Inl (ValueError ''READY_CP3 transcript mismatch or invalid state'') else Inr h)) (\<lambda>h.
     bindM (liftR (cp3_verify_data (h3_finished_c h) VERIFY_C_LABEL (h3_th h))) (\<lambda>tag.
     bindM (liftR (encode_v1_frame V1_FINISHED_C tag)) (\<lambda>finished.
     bindM (liftR (cp3_chain (h3_th h) finished)) (\<lambda>next_hash.
     seqM (setM (\<lambda>h. h\<lparr> h3_th := next_hash, h3_state := HS_WAIT_FINISHED_P \<rparr>)) (
     retM finished)))))))"

definition cp3_accept_finished_p :: "bytes \<Rightarrow> (cp3, unit) meth" where
  "cp3_accept_finished_p raw = onerr cp3_clear (
     bindM (liftR (parse_v1_frame raw)) (\<lambda>frame.
     bindM (readM (\<lambda>h. if h3_state h \<noteq> HS_WAIT_FINISHED_P \<or> v1_subtype frame \<noteq> V1_FINISHED_P
              then Inl (ValueError ''unexpected FINISHED direction/state'') else Inr h)) (\<lambda>h.
     bindM (liftR (cp3_verify_data (h3_finished_p h) VERIFY_P_LABEL (h3_th h))) (\<lambda>expected.
     bindM (liftR (requireR (expected = v1_payload frame)
              (ValueError ''FINISHED_P verification failed''))) (\<lambda>_.
     bindM (liftR (cp3_chain (h3_th h) raw)) (\<lambda>th2.
     seqM (setM (\<lambda>h. h\<lparr> h3_th := th2 \<rparr>)) (
     bindM (liftR (cp3_expand (h3_prk h) APP_C2P_LABEL th2)) (\<lambda>c2p.
     seqM (setM (\<lambda>h. h\<lparr> h3_app_c2p := c2p \<rparr>)) (
     bindM (liftR (cp3_expand (h3_prk h) APP_P2C_LABEL th2)) (\<lambda>p2c.
     seqM (setM (\<lambda>h. h\<lparr> h3_app_p2c := p2c \<rparr>)) (
     seqM (setM cp3_clear_handshake) (
     setM (\<lambda>h. h\<lparr> h3_state := HS_APP_SECURE \<rparr>)))))))))))))"

text \<open>The methods a connection owner may call, in any order.\<close>

datatype cp3_call =
    Cp3Begin bytes bytes bytes bytes bytes | Cp3Ready bytes | Cp3FinishedP bytes

fun cp3_step :: "cp3 \<Rightarrow> cp3_call \<Rightarrow> (cp3, bytes) outcome" where
  "cp3_step h (Cp3Begin ss sec pk ct start) = bindM (cp3_begin ss sec pk ct start) (\<lambda>_. retM []) h"
| "cp3_step h (Cp3Ready raw) = cp3_accept_ready raw h"
| "cp3_step h (Cp3FinishedP raw) = bindM (cp3_accept_finished_p raw) (\<lambda>_. retM []) h"

section \<open>Lemmas\<close>

lemma cp3_expand_Inr [simp]:
  "cp3_expand prk l th = Inr k \<longleftrightarrow> length prk = 32 \<and> length th = 32 \<and> k = hmac_sha256 prk (l @ th @ [1])"
  by (auto simp: cp3_expand_def)

lemma cp3_extract_Inr [simp]:
  "cp3_extract th ss = Inr k \<longleftrightarrow> length th = 32 \<and> length ss = 32 \<and> k = hmac_sha256 th ss"
  by (auto simp: cp3_extract_def)

lemma cp3_verify_data_Inr [simp]:
  "cp3_verify_data k l th = Inr v \<longleftrightarrow> length k = 32 \<and> length th = 32 \<and> v = hmac_sha256 k (l @ th)"
  by (auto simp: cp3_verify_data_def)

lemma cp3_chain_Inr [simp]:
  "cp3_chain th w = Inr v \<longleftrightarrow> length th = 32 \<and> v = sha256 (th @ w)
     \<and> ((\<exists>p. length p = 32 \<and> w = frame_wire V1_FRAME_MAGIC 16 18 p)
        \<or> (\<exists>p. length p = 32 \<and> w = frame_wire V1_FRAME_MAGIC 16 19 p))"
proof -
  have "cp3_chain th w = Inr v \<longleftrightarrow> length th = 32 \<and> v = sha256 (th @ w)
      \<and> (\<exists>f. parse_v1_frame w = Inr f \<and> v1_subtype f \<in> {18, 19})"
    by (auto simp: cp3_chain_def split: if_splits)
  also have "(\<exists>f. parse_v1_frame w = Inr f \<and> v1_subtype f \<in> {18, 19}) \<longleftrightarrow>
      (\<exists>t p. v1_valid t p \<and> w = frame_wire V1_FRAME_MAGIC 16 t p \<and> t \<in> {18, 19})"
    by (rule parse_v1_ex)
  also have "\<dots> \<longleftrightarrow> (\<exists>p. length p = 32 \<and> w = frame_wire V1_FRAME_MAGIC 16 18 p)
        \<or> (\<exists>p. length p = 32 \<and> w = frame_wire V1_FRAME_MAGIC 16 19 p)"
    by (auto simp: v1_valid_iff)
  finally show ?thesis .
qed

lemma cp3_chain_frame:
  "length th = 32 \<Longrightarrow> length p = 32 \<Longrightarrow> t \<in> {18, 19} \<Longrightarrow>
     cp3_chain th (frame_wire V1_FRAME_MAGIC 16 t p) = Inr (sha256 (th @ frame_wire V1_FRAME_MAGIC 16 t p))"
  by auto

lemma build_transcript_level4:
  "(\<exists>i. parse_sec_info sec = Inr i \<and> is_authenticated_level4 i) \<and> build_transcript sec pk ct start = Inr t \<longleftrightarrow>
     sec = level4_wire \<and> length pk = 1184 \<and> length ct = 1088
     \<and> (\<exists>sid. length sid = 16 \<and> start = frame_wire V1_FRAME_MAGIC 16 20 sid)
     \<and> t = CP3_TRANSCRIPT_LABEL @ sec @ pk @ ct @ start"
proof -
  have s: "(\<exists>f. parse_v1_frame start = Inr f \<and> v1_subtype f = 20) \<longleftrightarrow>
      (\<exists>sid. length sid = 16 \<and> start = frame_wire V1_FRAME_MAGIC 16 20 sid)"
    using parse_v1_ex [of start "\<lambda>t p. t = 20"] by (auto simp: v1_valid_iff)
  have "build_transcript sec pk ct start = Inr t \<longleftrightarrow>
      (\<exists>i. parse_sec_info sec = Inr i \<and> encode_sec_info i = Inr sec) \<and> length pk = 1184 \<and> length ct = 1088
      \<and> (\<exists>f. parse_v1_frame start = Inr f \<and> v1_subtype f = 20)
      \<and> t = CP3_TRANSCRIPT_LABEL @ sec @ pk @ ct @ start"
    by (auto simp: build_transcript_def split: if_splits)
  then show ?thesis
    using level4_wire_iff [of sec] unfolding s by fastforce
qed

text \<open>The state after a successful \<open>begin\<close>.\<close>

definition cp3_th0 :: "bytes \<Rightarrow> bytes \<Rightarrow> bytes \<Rightarrow> bytes" where
  "cp3_th0 pk ct start = sha256 (CP3_TRANSCRIPT_LABEL @ level4_wire @ pk @ ct @ start)"

lemma cp3_begin_Inr:
  "cp3_begin ss sec pk ct start h = (Inr u, t) \<longleftrightarrow>
     h3_state h = HS_NEW \<and> sec = level4_wire \<and> length pk = 1184 \<and> length ct = 1088 \<and> length ss = 32 \<and>
     (\<exists>sid. length sid = 16 \<and> start = frame_wire V1_FRAME_MAGIC 16 20 sid \<and>
       (let th = cp3_th0 pk ct start; prk = hmac_sha256 th ss
        in t = h\<lparr> h3_th := th, h3_session_id := sid, h3_prk := prk,
                  h3_finished_c := hmac_sha256 prk (FINISHED_C_LABEL @ th @ [1]),
                  h3_finished_p := hmac_sha256 prk (FINISHED_P_LABEL @ th @ [1]),
                  h3_state := HS_WAIT_READY_CP3 \<rparr>))"
  (is "?L \<longleftrightarrow> ?R")
proof
  assume ?L
  then obtain i tr f where *: "h3_state h = HS_NEW" "parse_sec_info sec = Inr i" "is_authenticated_level4 i"
      "build_transcript sec pk ct start = Inr tr" "parse_v1_frame start = Inr f" "length ss = 32"
      and t: "t = h\<lparr> h3_th := sha256 tr, h3_session_id := v1_payload f, h3_prk := hmac_sha256 (sha256 tr) ss,
                  h3_finished_c := hmac_sha256 (hmac_sha256 (sha256 tr) ss) (FINISHED_C_LABEL @ sha256 tr @ [1]),
                  h3_finished_p := hmac_sha256 (hmac_sha256 (sha256 tr) ss) (FINISHED_P_LABEL @ sha256 tr @ [1]),
                  h3_state := HS_WAIT_READY_CP3 \<rparr>"
    by (auto simp: cp3_begin_def cp3_transcript_hash_def split: if_splits)
  obtain sid where sid: "length sid = 16" "start = frame_wire V1_FRAME_MAGIC 16 20 sid"
      and tr: "sec = level4_wire" "length pk = 1184" "length ct = 1088"
        "tr = CP3_TRANSCRIPT_LABEL @ sec @ pk @ ct @ start"
    using build_transcript_level4 [of sec pk ct start tr] * by blast
  have "v1_payload f = sid"
    using *(5) sid parse_v1_wire [of 20 sid] by (auto simp: v1_valid_iff)
  then show ?R using * t sid tr by (auto simp: cp3_th0_def Let_def)
next
  assume ?R
  then obtain sid where *: "h3_state h = HS_NEW" "length ss = 32" "length sid = 16"
      "start = frame_wire V1_FRAME_MAGIC 16 20 sid" "sec = level4_wire" "length pk = 1184" "length ct = 1088" by auto
  then obtain i where "parse_sec_info sec = Inr i" "is_authenticated_level4 i"
      "build_transcript sec pk ct start = Inr (CP3_TRANSCRIPT_LABEL @ level4_wire @ pk @ ct @ start)"
    using build_transcript_level4 [of sec pk ct start] by auto
  then show ?L using \<open>?R\<close> * parse_v1_wire [of 20 sid]
    by (auto simp: cp3_begin_def cp3_transcript_hash_def cp3_th0_def Let_def v1_valid_iff)
qed

lemma cp3_ready_Inr:
  "cp3_accept_ready raw h = (Inr w, t) \<longleftrightarrow>
     h3_state h = HS_WAIT_READY_CP3 \<and> length (h3_th h) = 32 \<and> length (h3_finished_c h) = 32
     \<and> raw = frame_wire V1_FRAME_MAGIC 16 21 (h3_th h)
     \<and> w = frame_wire V1_FRAME_MAGIC 16 18 (hmac_sha256 (h3_finished_c h) (VERIFY_C_LABEL @ h3_th h))
     \<and> t = h\<lparr> h3_th := sha256 (h3_th h @ w), h3_state := HS_WAIT_FINISHED_P \<rparr>"
  (is "?L \<longleftrightarrow> ?R")
proof
  assume ?L
  then show ?R
    by (auto simp: cp3_accept_ready_def parse_v1_as pqv1.encode_Inr split: if_splits)
next
  assume r: ?R
  then have "parse_v1_frame raw = Inr \<lparr> v1_subtype = 21, v1_payload = h3_th h \<rparr>"
    by (simp add: parse_v1_as v1_valid_iff)
  with r show ?L
    by (simp add: cp3_accept_ready_def pqv1.encode_Inr v1_valid_iff cp3_chain_frame del: cp3_chain_Inr)
qed

lemma cp3_finished_Inr:
  "cp3_accept_finished_p raw h = (Inr u, t) \<longleftrightarrow>
     h3_state h = HS_WAIT_FINISHED_P \<and> length (h3_th h) = 32 \<and> length (h3_finished_p h) = 32
     \<and> length (h3_prk h) = 32
     \<and> raw = frame_wire V1_FRAME_MAGIC 16 19 (hmac_sha256 (h3_finished_p h) (VERIFY_P_LABEL @ h3_th h))
     \<and> (let th2 = sha256 (h3_th h @ raw)
        in t = (cp3_clear_handshake (h\<lparr> h3_th := th2, h3_app_c2p := hmac_sha256 (h3_prk h) (APP_C2P_LABEL @ th2 @ [1]),
                  h3_app_p2c := hmac_sha256 (h3_prk h) (APP_P2C_LABEL @ th2 @ [1]) \<rparr>))\<lparr> h3_state := HS_APP_SECURE \<rparr>)"
  (is "?L \<longleftrightarrow> ?R")
proof
  assume ?L
  then show ?R
    by (auto simp: cp3_accept_finished_p_def parse_v1_as Let_def split: if_splits)
next
  assume r: ?R
  then have "parse_v1_frame raw
      = Inr \<lparr> v1_subtype = 19, v1_payload = hmac_sha256 (h3_finished_p h) (VERIFY_P_LABEL @ h3_th h) \<rparr>"
    by (simp add: parse_v1_as v1_valid_iff)
  with r show ?L
    by (simp add: cp3_accept_finished_p_def Let_def cp3_chain_frame del: cp3_chain_Inr)
qed

subsection \<open>Failing closed\<close>

definition cp3_closed :: "cp3 \<Rightarrow> bool" where
  "cp3_closed h \<longleftrightarrow> h3_state h = HS_CLOSED \<and> h3_session_id h = []
     \<and> wiped (h3_th h) \<and> wiped (h3_prk h) \<and> wiped (h3_finished_c h) \<and> wiped (h3_finished_p h)
     \<and> wiped (h3_app_c2p h) \<and> wiped (h3_app_p2c h)"

lemma cp3_closed_clear [simp]: "cp3_closed (cp3_clear h)"
  by (simp add: cp3_closed_def cp3_clear_def cp3_clear_handshake_def)

lemma onerr_cp3_closes: "onerr cp3_clear m h = (Inl e, t) \<Longrightarrow> cp3_closed t"
  by (auto simp: onerr_Inl)

lemma bindM_ret_Inl: "bindM m (\<lambda>_. retM x) s = (Inl e, t) \<longleftrightarrow> m s = (Inl e, t)"
  by (auto simp: bindM_def split: prod.splits sum.splits)

lemma cp3_step_Inr:
  "cp3_step h (Cp3Begin ss sec pk ct start) = (Inr w, t) \<longleftrightarrow> w = [] \<and> cp3_begin ss sec pk ct start h = (Inr (), t)"
  "cp3_step h (Cp3FinishedP raw) = (Inr w, t) \<longleftrightarrow> w = [] \<and> cp3_accept_finished_p raw h = (Inr (), t)"
  by auto

interpretation cp3_owner: fail_closed cp3_step cp3_closed
proof
  fix h c e t
  assume "cp3_step h c = (Inl e, t)"
  then show "cp3_closed t"
    by (cases c) (auto simp: bindM_ret_Inl cp3_begin_def cp3_accept_ready_def cp3_accept_finished_p_def
        intro: onerr_cp3_closes)
next
  fix h c
  assume "cp3_closed h"
  then have "cp3_step h c \<noteq> (Inr r, t)" for r t
    by (cases c) (simp_all add: cp3_step_Inr cp3_begin_Inr cp3_ready_Inr cp3_finished_Inr cp3_closed_def
        del: cp3_step.simps(1,3))
  then show "\<exists>e t. cp3_step h c = (Inl e, t)"
    by (metis Inr_or_Inl prod.exhaust)
qed

text \<open>Which secrets each state may hold.\<close>

definition cp3_ok :: "cp3 \<Rightarrow> bool" where
  "cp3_ok h \<longleftrightarrow>
     (case h3_state h of
        HS_NEW \<Rightarrow> h3_app_c2p h = [] \<and> h3_app_p2c h = []
      | HS_WAIT_READY_CP3 \<Rightarrow> h3_app_c2p h = [] \<and> h3_app_p2c h = [] \<and> length (h3_session_id h) = 16
      | HS_WAIT_FINISHED_P \<Rightarrow> h3_app_c2p h = [] \<and> h3_app_p2c h = [] \<and> length (h3_session_id h) = 16
      | HS_APP_SECURE \<Rightarrow> length (h3_app_c2p h) = 32 \<and> length (h3_app_p2c h) = 32
          \<and> length (h3_session_id h) = 16
          \<and> wiped (h3_th h) \<and> wiped (h3_prk h) \<and> wiped (h3_finished_c h) \<and> wiped (h3_finished_p h)
      | HS_CLOSED \<Rightarrow> cp3_closed h
      | _ \<Rightarrow> False)"

lemma cp3_ok_closed: "cp3_closed h \<Longrightarrow> cp3_ok h"
  by (simp add: cp3_ok_def cp3_closed_def)

lemma cp3_ok_success:
  assumes "cp3_ok h" and "cp3_step h c = (Inr w, t)"
  shows "cp3_ok t"
proof (cases c)
  case (Cp3Begin ss sec pk ct start)
  then show ?thesis using assms
    by (auto simp: cp3_step_Inr cp3_begin_Inr cp3_ok_def Let_def simp del: cp3_step.simps(1))
next
  case (Cp3Ready raw)
  then show ?thesis using assms by (auto simp: cp3_ready_Inr cp3_ok_def)
next
  case (Cp3FinishedP raw)
  then show ?thesis using assms
    by (auto simp: cp3_step_Inr cp3_finished_Inr cp3_ok_def Let_def cp3_clear_handshake_def
        simp del: cp3_step.simps(3))
qed

lemma cp3_ok_step: "cp3_ok h \<Longrightarrow> cp3_ok (snd (cp3_step h c))"
  using cp3_ok_success cp3_owner.failure_closes cp3_ok_closed
  by (metis Inr_or_Inl prod.collapse)

section \<open>Properties\<close>

text \<open>
  C1. The v1.0 Central completes the CP3 handshake for exactly one behaviour of the peer: starting
  from a new object, \<open>begin\<close>, \<open>accept_ready\<close> and \<open>accept_finished_p\<close> all succeed if and only if the
  attestation is the canonical authenticated Level-4 SEC\_INFO, the inputs have their sizes, START
  is a START\_CP3 frame, READY carries the transcript hash and FINISHED\_P the MAC over the chained
  transcript under the Peripheral's FINISHED key. In particular no other FINISHED\_P is accepted.
\<close>

theorem cp3_completes_iff:
  "(\<exists>h1 h2 h3 fin. cp3_begin ss sec pk ct start cp3_init = (Inr (), h1)
      \<and> cp3_accept_ready ready h1 = (Inr fin, h2) \<and> cp3_accept_finished_p finp h2 = (Inr (), h3)
      \<and> h3_state h3 = HS_APP_SECURE)
   \<longleftrightarrow> sec = level4_wire \<and> length ss = SS_SIZE \<and> length pk = PK_SIZE \<and> length ct = CT_SIZE
     \<and> (\<exists>sid. length sid = V1_CP3_SESSION_ID_SIZE \<and> encode_v1_frame V1_START_CP3 sid = Inr start)
     \<and> (let th0 = cp3_th0 pk ct start; prk = hmac_sha256 th0 ss;
            fc = hmac_sha256 prk (FINISHED_C_LABEL @ th0 @ [1]);
            fp = hmac_sha256 prk (FINISHED_P_LABEL @ th0 @ [1]);
            finc = frame_wire V1_FRAME_MAGIC V1_FRAME_VERSION V1_FINISHED_C (hmac_sha256 fc (VERIFY_C_LABEL @ th0));
            th1 = sha256 (th0 @ finc)
        in encode_v1_frame V1_READY_CP3 th0 = Inr ready
         \<and> encode_v1_frame V1_FINISHED_P (hmac_sha256 fp (VERIFY_P_LABEL @ th1)) = Inr finp)"
  by (auto simp: cp3_begin_Inr cp3_ready_Inr cp3_finished_Inr Let_def pqv1.encode_Inr v1_valid_iff
      cp3_init_def cp3_th0_def)

text \<open>
  C29. The CP3 handshake object fails closed: whatever it was doing, after an exception from any of
  its methods every key buffer is zeroed, the session id is gone, and no later call of any method,
  in any order and with any arguments, succeeds.
\<close>

theorem cp3_fails_closed:
  assumes "cp3_step h c = (Inl e, t)"
  shows "cp3_closed t \<and> cp3_closed (run_state cp3_step t cs) \<and> run_accepted cp3_step t cs = []"
  using cp3_owner.failure_closes [OF assms] cp3_owner.closed_run cp3_owner.nothing_after_failure [OF assms]
  by blast

theorem cp3_fails_closed_witness:
  "\<exists>e t. cp3_step cp3_init (Cp3Ready []) = (Inl e, t) \<and> cp3_closed t"
proof -
  obtain e t where "cp3_step cp3_init (Cp3Ready []) = (Inl e, t)"
    by (simp add: cp3_accept_ready_def parse_v1_frame_def onerr_def bindM_def)
  then show ?thesis using cp3_fails_closed by blast
qed

text \<open>
  Application keys exist only after FINISHED\_P was accepted, and handshake secrets only before:
  in every state reachable by any sequence of calls, the application keys are empty or zeroed
  unless the object is in APP\_SECURE, and in APP\_SECURE they have 32 bytes each while the
  handshake secrets are zeroed.
\<close>

theorem cp3_keys_only_when_secure:
  "(let h = run_state cp3_step cp3_init cs
    in if h3_state h = HS_APP_SECURE
       then length (h3_app_c2p h) = 32 \<and> length (h3_app_p2c h) = 32 \<and> length (h3_session_id h) = 16
         \<and> wiped (h3_th h) \<and> wiped (h3_prk h) \<and> wiped (h3_finished_c h) \<and> wiped (h3_finished_p h)
       else wiped (h3_app_c2p h) \<and> wiped (h3_app_p2c h))"
proof -
  have "cp3_ok (run_state cp3_step cp3_init cs)"
    by (rule run_state_invariant) (simp_all add: cp3_ok_step, simp add: cp3_ok_def cp3_init_def)
  then show ?thesis
    by (auto simp: cp3_ok_def cp3_closed_def Let_def split: hs_state.splits)
qed

end
