(* ===== verification/Resumption.thy ===== *)
theory Resumption
  imports V1_Handshake
begin

text \<open>
  \<open>src/common/resumption.py\<close>: the authenticated resumption protocol of v0.8 and v1.1. PQRS frames,
  the resumption root and identifier, authentication tags, the six session keys, the ticket with
  its lifetime, use counter and replay list, and the two session objects. Random values
  (\<open>secrets.token_bytes\<close>) and clock readings are arguments, in the order the code draws them. A
  session object holds the ticket it was given; the ticket in the object after a call is the
  owner's ticket after that call.
\<close>

section \<open>Frames and derivations\<close>

abbreviation (input) V08 :: int where "V08 \<equiv> 0x08"
abbreviation (input) V11 :: int where "V11 \<equiv> 0x11"
abbreviation (input) TTL :: seconds where "TTL \<equiv> 24 * 60 * 60"
abbreviation (input) MAX_RESUMES :: int where "MAX_RESUMES \<equiv> 100"
abbreviation (input) REPLAY_CAPACITY :: nat where "REPLAY_CAPACITY \<equiv> 128"
abbreviation (input) INIT :: int where "INIT \<equiv> 0x30"
abbreviation (input) ACCEPT :: int where "ACCEPT \<equiv> 0x31"
abbreviation (input) FINISH_C :: int where "FINISH_C \<equiv> 0x32"
abbreviation (input) FINISH_P :: int where "FINISH_P \<equiv> 0x33"
abbreviation (input) REJECT :: int where "REJECT \<equiv> 0x34"

definition MAGIC :: bytes where "MAGIC = ascii ''PQRS''"

definition PAYLOAD_SIZES :: "int \<rightharpoonup> nat" where
  "PAYLOAD_SIZES = map_of [(INIT, 96), (ACCEPT, 64), (FINISH_C, 32), (FINISH_P, 32), (REJECT, 0)]"

definition domain :: "int \<Rightarrow> bytes result" where
  "domain profile =
     (if profile \<noteq> V08 \<and> profile \<noteq> V11 then Inl (ResumeError PROFILE_MISMATCH)
      else Inr (ascii ''PQ-BLE-HANDSHAKE-'' @ (if profile = V08 then ascii ''v0.8'' else ascii ''v1.1'')))"

definition sized :: "bytes \<Rightarrow> nat \<Rightarrow> bytes result" where
  "sized value len = (if length value \<noteq> len then Inl (ResumeError MALFORMED) else Inr value)"

definition lp :: "bytes \<Rightarrow> bytes result" where
  "lp value = bindR (to_bytes (int (length value)) 2) (\<lambda>n. Inr (n @ value))"

definition encode_resume :: "int \<Rightarrow> int \<Rightarrow> bytes \<Rightarrow> bytes result" where
  "encode_resume profile subtype payload =
     bindR (domain profile) (\<lambda>_.
     case PAYLOAD_SIZES subtype of
       None \<Rightarrow> Inl (ResumeError MALFORMED)
     | Some n \<Rightarrow>
         bindR (sized payload n) (\<lambda>payload.
         Inr (MAGIC @ [word_of_int profile, word_of_int subtype] @ be_bytes 2 (length payload) @ payload)))"

definition parse_resume :: "bytes \<Rightarrow> int \<Rightarrow> int option \<Rightarrow> (int \<times> bytes) result" where
  "parse_resume raw profile expected =
     bindR (domain profile) (\<lambda>_.
     if length raw < 8 \<or> take 4 raw \<noteq> MAGIC then Inl (ResumeError MALFORMED)
     else if uint (raw ! 4) \<noteq> profile then Inl (ResumeError PROFILE_MISMATCH)
     else let subtype = uint (raw ! 5)
          in case PAYLOAD_SIZES subtype of
               None \<Rightarrow> Inl (ResumeError MALFORMED)
             | Some n \<Rightarrow>
                 if length raw \<noteq> 8 + n \<or> be_nat (slice 6 8 raw) \<noteq> n
                    \<or> (case expected of None \<Rightarrow> False | Some x \<Rightarrow> subtype \<noteq> x)
                 then Inl (ResumeError MALFORMED)
                 else Inr (subtype, drop 8 raw))"

definition derive_root :: "int \<Rightarrow> bytes \<Rightarrow> bytes \<Rightarrow> bytes result" where
  "derive_root profile full_prk full_th =
     bindR (sized full_prk 32) (\<lambda>prk. bindR (domain profile) (\<lambda>d. bindR (sized full_th 32) (\<lambda>th.
     cp3_expand prk (d @ ascii ''/RESUME-ROOT'') th)))"

definition resume_id :: "int \<Rightarrow> bytes \<Rightarrow> bytes \<Rightarrow> bytes result" where
  "resume_id profile kroot full_th =
     bindR (sized kroot 32) (\<lambda>kroot. bindR (domain profile) (\<lambda>d. bindR (sized full_th 32) (\<lambda>th.
     Inr (take 16 (hmac_sha256 kroot (d @ ascii ''/RESUME-ID'' @ th))))))"

definition resume_context :: "int \<Rightarrow> bytes \<Rightarrow> bytes \<Rightarrow> bytes \<Rightarrow> bytes option \<Rightarrow> bytes result" where
  "resume_context profile rid sid nc np =
     bindR (one_byte profile) (\<lambda>p. bindR (sized rid 16) (\<lambda>rid. bindR (sized sid 16) (\<lambda>sid.
     bindR (sized nc 32) (\<lambda>nc.
     let v = p @ rid @ sid @ nc
     in case np of None \<Rightarrow> Inr v | Some np \<Rightarrow> bindR (sized np 32) (\<lambda>np. Inr (v @ np))))))"

definition resume_auth ::
  "int \<Rightarrow> bytes \<Rightarrow> string \<Rightarrow> bytes \<Rightarrow> bytes \<Rightarrow> bytes \<Rightarrow> bytes option \<Rightarrow> bytes result" where
  "resume_auth profile kroot label rid sid nc np =
     bindR (sized kroot 32) (\<lambda>kroot. bindR (domain profile) (\<lambda>d.
     bindR (resume_context profile rid sid nc np) (\<lambda>c.
     Inr (hmac_sha256 kroot (d @ ascii ''/RESUME-'' @ ascii label @ c)))))"

definition resume_transcript :: "int \<Rightarrow> bytes \<Rightarrow> bytes \<Rightarrow> bytes \<Rightarrow> bytes \<Rightarrow> bytes result" where
  "resume_transcript profile rid sid nc np =
     bindR (domain profile) (\<lambda>d. bindR (one_byte profile) (\<lambda>p. bindR (sized rid 16) (\<lambda>rid.
     bindR (sized sid 16) (\<lambda>sid. bindR (sized nc 32) (\<lambda>nc. bindR (sized np 32) (\<lambda>np.
     bindR (mapR lp [d @ ascii ''/RESUME-TRANSCRIPT'', p, rid, sid, nc, np]) (\<lambda>fields.
     Inr (concat fields))))))))"

section \<open>Session keys\<close>

record session_keys =
  sk_profile :: int
  sk_th :: bytes
  sk_confirm_c :: bytes
  sk_confirm_p :: bytes
  sk_app_c2p :: bytes
  sk_app_p2c :: bytes
  sk_iv_c2p :: bytes
  sk_iv_p2c :: bytes

text \<open>One pass of the constructor's loop: a 32-byte block cut to the attribute's length.\<close>

definition session_key_block :: "int \<Rightarrow> bytes \<Rightarrow> bytes \<Rightarrow> string \<times> nat \<Rightarrow> bytes result" where
  "session_key_block profile prk th = (\<lambda>(label, n).
     bindR (domain profile) (\<lambda>d.
     bindR (cp3_expand prk (d @ ascii ''/RESUME-'' @ ascii label) th) (\<lambda>block. Inr (take n block))))"

definition SessionKeys_init ::
  "int \<Rightarrow> bytes \<Rightarrow> bytes \<Rightarrow> bytes \<Rightarrow> bytes \<Rightarrow> bytes \<Rightarrow> session_keys result" where
  "SessionKeys_init profile kroot rid sid nc np =
     bindR (resume_transcript profile rid sid nc np) (\<lambda>t.
     let th = sha256 t
     in bindR (sized kroot 32) (\<lambda>kroot.
     let prk = hmac_sha256 th kroot
     in bindR (session_key_block profile prk th (''CONFIRM-C'', 32)) (\<lambda>cc.
     bindR (session_key_block profile prk th (''CONFIRM-P'', 32)) (\<lambda>cp.
     bindR (session_key_block profile prk th (''APP-C2P'', 32)) (\<lambda>ac.
     bindR (session_key_block profile prk th (''APP-P2C'', 32)) (\<lambda>ap.
     bindR (session_key_block profile prk th (''IV-C2P'', 12)) (\<lambda>ic.
     bindR (session_key_block profile prk th (''IV-P2C'', 12)) (\<lambda>ip.
     Inr \<lparr> sk_profile = profile, sk_th = th, sk_confirm_c = cc, sk_confirm_p = cp,
           sk_app_c2p = ac, sk_app_p2c = ap, sk_iv_c2p = ic, sk_iv_p2c = ip \<rparr>))))))))"

definition SessionKeys_finish :: "bool \<Rightarrow> session_keys \<Rightarrow> bytes result" where
  "SessionKeys_finish central k =
     bindR (domain (sk_profile k)) (\<lambda>d.
     Inr (hmac_sha256 (if central then sk_confirm_c k else sk_confirm_p k)
            (d @ ascii ''/RESUME-FINISH-'' @ ascii (if central then ''C'' else ''P'') @ sk_th k)))"

definition SessionKeys_clear_confirmation :: "session_keys \<Rightarrow> session_keys" where
  "SessionKeys_clear_confirmation k = k\<lparr> sk_confirm_c := wipe (sk_confirm_c k),
     sk_confirm_p := wipe (sk_confirm_p k), sk_th := wipe (sk_th k) \<rparr>"

definition SessionKeys_clear :: "session_keys \<Rightarrow> session_keys" where
  "SessionKeys_clear k = (SessionKeys_clear_confirmation k)\<lparr> sk_app_c2p := wipe (sk_app_c2p k),
     sk_app_p2c := wipe (sk_app_p2c k), sk_iv_c2p := wipe (sk_iv_c2p k), sk_iv_p2c := wipe (sk_iv_p2c k) \<rparr>"

section \<open>Tickets\<close>

record ticket =
  tk_profile :: int
  tk_peer :: string
  tk_rid :: bytes
  tk_root :: bytes
  tk_created_at :: seconds
  tk_successful_resumes :: int
  tk_replay :: "(bytes \<times> bytes) list"
  tk_valid :: bool

definition Ticket_issue :: "int \<Rightarrow> string \<Rightarrow> bytes \<Rightarrow> bytes \<Rightarrow> bool \<Rightarrow> seconds \<Rightarrow> ticket result" where
  "Ticket_issue profile peer prk th authenticated now =
     (if \<not> authenticated then Inl (ResumeError BAD_AUTH)
      else bindR (derive_root profile prk th) (\<lambda>kroot.
           bindR (resume_id profile kroot th) (\<lambda>rid.
           Inr \<lparr> tk_profile = profile, tk_peer = peer, tk_rid = rid, tk_root = kroot,
                 tk_created_at = now, tk_successful_resumes = 0, tk_replay = [], tk_valid = True \<rparr>)))"

definition Ticket_clear :: "ticket \<Rightarrow> ticket" where
  "Ticket_clear t = t\<lparr> tk_root := wipe (tk_root t), tk_rid := [], tk_replay := [], tk_valid := False \<rparr>"

definition Ticket_check :: "int \<Rightarrow> string \<Rightarrow> seconds \<Rightarrow> (ticket, unit) meth" where
  "Ticket_check profile peer now t =
     (if \<not> tk_valid t then (Inl (ResumeError NO_TICKET), t)
      else if now < tk_created_at t \<or> now - tk_created_at t \<ge> TTL
      then (Inl (ResumeError EXPIRED), Ticket_clear t)
      else if tk_successful_resumes t \<ge> MAX_RESUMES
      then (Inl (ResumeError MAX_USES), Ticket_clear t)
      else if tk_profile t \<noteq> profile \<or> tk_peer t \<noteq> peer then (Inl (ResumeError PROFILE_MISMATCH), t)
      else (Inr (), t))"

definition Ticket_used :: "ticket \<Rightarrow> ticket" where
  "Ticket_used t =
     (let t = t\<lparr> tk_successful_resumes := tk_successful_resumes t + 1 \<rparr>
      in if tk_successful_resumes t \<ge> MAX_RESUMES then Ticket_clear t else t)"

section \<open>The Central's session object\<close>

record central_resume =
  cr_ticket :: ticket
  cr_profile :: int
  cr_state :: hs_state
  cr_session_id :: bytes
  cr_nc :: bytes
  cr_keys :: "session_keys option"

text \<open>A method call on an attribute that may be \<open>None\<close>.\<close>

definition the_attr :: "'a option \<Rightarrow> 'a result" where
  "the_attr x = (case x of None \<Rightarrow> Inl AttributeError | Some v \<Rightarrow> Inr v)"

definition CentralResume_init :: "seconds \<Rightarrow> bytes \<Rightarrow> bytes \<Rightarrow> (ticket, central_resume) meth" where
  "CentralResume_init now rand_sid rand_nc ticket =
     (case Ticket_check (tk_profile ticket) (tk_peer ticket) now ticket of
        (Inl e, t) \<Rightarrow> (Inl e, t)
      | (Inr _, t) \<Rightarrow>
          (Inr \<lparr> cr_ticket = t, cr_profile = tk_profile t, cr_state = HS_NEW,
                 cr_session_id = rand_sid, cr_nc = rand_nc, cr_keys = None \<rparr>, t))"

definition CentralResume_clear :: "central_resume \<Rightarrow> central_resume" where
  "CentralResume_clear c = c\<lparr> cr_keys := map_option SessionKeys_clear (cr_keys c),
     cr_session_id := [], cr_nc := [], cr_state := HS_CLOSED \<rparr>"

definition CentralResume_begin :: "(central_resume, bytes) meth" where
  "CentralResume_begin c =
     (if cr_state c \<noteq> HS_NEW then (Inl (ResumeError MALFORMED), CentralResume_clear c)
      else let c = c\<lparr> cr_state := HS_WAIT_ACCEPT \<rparr>; t = cr_ticket c
           in (bindR (resume_auth (cr_profile c) (tk_root t) ''INIT'' (tk_rid t) (cr_session_id c) (cr_nc c) None)
                 (\<lambda>mac. encode_resume (cr_profile c) INIT (tk_rid t @ cr_session_id c @ cr_nc c @ mac)), c))"

definition CentralResume_app_c2p :: "central_resume \<Rightarrow> bytes" where
  "CentralResume_app_c2p c = (case cr_keys c of None \<Rightarrow> [] | Some k \<Rightarrow> sk_app_c2p k)"

definition CentralResume_app_p2c :: "central_resume \<Rightarrow> bytes" where
  "CentralResume_app_p2c c = (case cr_keys c of None \<Rightarrow> [] | Some k \<Rightarrow> sk_app_p2c k)"

definition CentralResume_accept :: "bytes \<Rightarrow> (central_resume, bytes) meth" where
  "CentralResume_accept raw = onerr CentralResume_clear (
     bindM (readM (\<lambda>c. if cr_state c \<noteq> HS_WAIT_ACCEPT then Inl (ResumeError MALFORMED) else Inr c)) (\<lambda>c.
     bindM (liftR (parse_resume raw (cr_profile c) (Some ACCEPT))) (\<lambda>(_, payload).
     let t = cr_ticket c; np = take 32 payload
     in bindM (liftR (resume_auth (cr_profile c) (tk_root t) ''ACCEPT'' (tk_rid t) (cr_session_id c) (cr_nc c) (Some np))) (\<lambda>expected.
     bindM (liftR (requireR (expected = drop 32 payload) (ResumeError BAD_AUTH))) (\<lambda>_.
     bindM (liftR (SessionKeys_init (cr_profile c) (tk_root t) (tk_rid t) (cr_session_id c) (cr_nc c) np)) (\<lambda>keys.
     seqM (setM (\<lambda>c. c\<lparr> cr_keys := Some keys, cr_state := HS_WAIT_FINISH_P \<rparr>)) (
     liftR (bindR (SessionKeys_finish True keys) (encode_resume (cr_profile c) FINISH_C)))))))))"

definition CentralResume_finish :: "bytes \<Rightarrow> (central_resume, unit) meth" where
  "CentralResume_finish raw = onerr CentralResume_clear (
     bindM (readM (\<lambda>c. if cr_state c \<noteq> HS_WAIT_FINISH_P then Inl (ResumeError MALFORMED) else Inr c)) (\<lambda>c.
     bindM (liftR (parse_resume raw (cr_profile c) (Some FINISH_P))) (\<lambda>(_, payload).
     bindM (liftR (bindR (the_attr (cr_keys c)) (SessionKeys_finish False))) (\<lambda>expected.
     bindM (liftR (requireR (expected = payload) (ResumeError BAD_AUTH))) (\<lambda>_.
     seqM (setM (\<lambda>c. c\<lparr> cr_keys := map_option SessionKeys_clear_confirmation (cr_keys c) \<rparr>)) (
     seqM (setM (\<lambda>c. c\<lparr> cr_ticket := Ticket_used (cr_ticket c) \<rparr>)) (
     setM (\<lambda>c. c\<lparr> cr_state := HS_APP_SECURE \<rparr>))))))))"

section \<open>The Peripheral's session object\<close>

datatype pr_phase = PR_IDLE | PR_WAIT_FINISH_C | PR_PENDING_SEND | PR_APP_SECURE

record peripheral_resume =
  pr_profile :: int
  pr_ticket :: "ticket option"
  pr_keys :: "session_keys option"
  pr_state :: pr_phase
  pr_session_id :: bytes
  pr_deadline :: seconds

definition PeripheralResume_init_obj :: "int \<Rightarrow> ticket option \<Rightarrow> peripheral_resume" where
  "PeripheralResume_init_obj profile ticket =
     \<lparr> pr_profile = profile, pr_ticket = ticket, pr_keys = None, pr_state = PR_IDLE,
       pr_session_id = [], pr_deadline = 0 \<rparr>"

definition PeripheralResume_disconnect :: "peripheral_resume \<Rightarrow> peripheral_resume" where
  "PeripheralResume_disconnect p = p\<lparr> pr_keys := None, pr_session_id := [], pr_state := PR_IDLE, pr_deadline := 0 \<rparr>"

text \<open>\<open>self.ticket.check(...)\<close>: the check may clear the ticket before it raises.\<close>

definition pr_ticket_check :: "string option \<Rightarrow> seconds \<Rightarrow> (peripheral_resume, ticket) meth" where
  "pr_ticket_check peer now p =
     (case pr_ticket p of
        None \<Rightarrow> (Inl AttributeError, p)
      | Some t \<Rightarrow>
          (case Ticket_check (pr_profile p) (case peer of None \<Rightarrow> tk_peer t | Some x \<Rightarrow> x) now t of
             (Inl e, t') \<Rightarrow> (Inl e, p\<lparr> pr_ticket := Some t' \<rparr>)
           | (Inr _, t') \<Rightarrow> (Inr t', p\<lparr> pr_ticket := Some t' \<rparr>)))"

definition PeripheralResume_init ::
  "bytes \<Rightarrow> string \<Rightarrow> bool \<Rightarrow> bool \<Rightarrow> seconds \<Rightarrow> seconds \<Rightarrow> bytes \<Rightarrow> (peripheral_resume, bytes) meth" where
  "PeripheralResume_init raw peer l4 bonded clock1 clock2 rand_np = onerr PeripheralResume_disconnect (
     bindM (readM (\<lambda>p. if pr_state p \<noteq> PR_IDLE then Inl (ResumeError REPLAY) else Inr p)) (\<lambda>p.
     bindM (liftR (parse_resume raw (pr_profile p) (Some INIT))) (\<lambda>(_, payload).
     bindM (liftR (requireR (\<not> (pr_profile p = V11 \<and> \<not> (l4 \<and> bonded))) (ResumeError L4_REQUIRED))) (\<lambda>_.
     bindM (liftR (requireR (pr_ticket p \<noteq> None) (ResumeError NO_TICKET))) (\<lambda>_.
     bindM (pr_ticket_check (Some peer) clock1) (\<lambda>t.
     let rid = take 16 payload; sid = slice 16 32 payload; nc = slice 32 64 payload; tag = drop 64 payload
     in bindM (liftR (requireR (rid = tk_rid t) (ResumeError BAD_AUTH))) (\<lambda>_.
     bindM (liftR (resume_auth (pr_profile p) (tk_root t) ''INIT'' rid sid nc None)) (\<lambda>expected.
     bindM (liftR (requireR (tag = expected) (ResumeError BAD_AUTH))) (\<lambda>_.
     bindM (liftR (requireR (\<not> (\<exists>(old_nc, old_sid) \<in> set (tk_replay t). nc = old_nc \<or> sid = old_sid))
              (ResumeError REPLAY))) (\<lambda>_.
     bindM (liftR (requireR (length (tk_replay t) < REPLAY_CAPACITY) (ResumeError REPLAY_CACHE_FULL))) (\<lambda>_.
     let t = t\<lparr> tk_replay := tk_replay t @ [(nc, sid)] \<rparr>; np = rand_np
     in seqM (setM (\<lambda>p. p\<lparr> pr_ticket := Some t \<rparr>)) (
     bindM (liftR (SessionKeys_init (pr_profile p) (tk_root t) rid sid nc np)) (\<lambda>keys.
     seqM (setM (\<lambda>p. p\<lparr> pr_keys := Some keys, pr_session_id := sid, pr_deadline := clock2 + 30,
                         pr_state := PR_WAIT_FINISH_C \<rparr>)) (
     bindM (liftR (resume_auth (pr_profile p) (tk_root t) ''ACCEPT'' rid sid nc (Some np))) (\<lambda>mac.
     liftR (encode_resume (pr_profile p) ACCEPT (np @ mac)))))))))))))))))"

definition PeripheralResume_finish ::
  "bytes \<Rightarrow> bool \<Rightarrow> bool \<Rightarrow> seconds \<Rightarrow> seconds \<Rightarrow> (peripheral_resume, bytes) meth" where
  "PeripheralResume_finish raw l4 bonded clock1 clock2 = onerr PeripheralResume_disconnect (
     bindM (readM (\<lambda>p. if pr_profile p = V11 \<and> \<not> (l4 \<and> bonded) then Inl (ResumeError L4_REQUIRED)
              else if pr_state p \<noteq> PR_WAIT_FINISH_C \<or> clock1 \<ge> pr_deadline p then Inl (ResumeError MALFORMED)
              else Inr p)) (\<lambda>p.
     bindM (pr_ticket_check None clock2) (\<lambda>t.
     bindM (liftR (parse_resume raw (pr_profile p) (Some FINISH_C))) (\<lambda>(_, payload).
     bindM (liftR (bindR (the_attr (pr_keys p)) (SessionKeys_finish True))) (\<lambda>expected.
     bindM (liftR (requireR (payload = expected) (ResumeError BAD_AUTH))) (\<lambda>_.
     bindM (liftR (bindR (the_attr (pr_keys p)) (SessionKeys_finish False))) (\<lambda>tag.
     bindM (liftR (encode_resume (pr_profile p) FINISH_P tag)) (\<lambda>result.
     seqM (setM (\<lambda>p. p\<lparr> pr_state := PR_PENDING_SEND \<rparr>)) (
     retM result)))))))))"

definition PeripheralResume_commit :: "seconds \<Rightarrow> (peripheral_resume, unit) meth" where
  "PeripheralResume_commit clock p =
     (if pr_state p \<noteq> PR_PENDING_SEND \<or> clock \<ge> pr_deadline p
      then (Inl (ResumeError MALFORMED), PeripheralResume_disconnect p)
      else (case (pr_keys p, pr_ticket p) of
              (Some k, Some t) \<Rightarrow>
                (Inr (), p\<lparr> pr_keys := Some (SessionKeys_clear_confirmation k),
                            pr_ticket := Some (Ticket_used t), pr_state := PR_APP_SECURE \<rparr>)
            | (Some k, None) \<Rightarrow> (Inl AttributeError, p\<lparr> pr_keys := Some (SessionKeys_clear_confirmation k) \<rparr>)
            | (None, _) \<Rightarrow> (Inl AttributeError, p)))"

section \<open>Lemmas\<close>

subsection \<open>Frames and derivations\<close>

definition profile_ok :: "int \<Rightarrow> bool" where
  "profile_ok p \<longleftrightarrow> p = V08 \<or> p = V11"

definition domain_bytes :: "int \<Rightarrow> bytes" where
  "domain_bytes p = ascii ''PQ-BLE-HANDSHAKE-'' @ (if p = V08 then ascii ''v0.8'' else ascii ''v1.1'')"

lemma domain_Inr [simp]: "domain p = Inr d \<longleftrightarrow> profile_ok p \<and> d = domain_bytes p"
  by (auto simp: domain_def profile_ok_def domain_bytes_def)

lemma length_domain_bytes [simp]: "length (domain_bytes p) = 21"
  by (simp add: domain_bytes_def)

lemma profile_ok_byte: "profile_ok p \<Longrightarrow> 0 \<le> p \<and> p \<le> 255"
  by (auto simp: profile_ok_def)

lemma sized_Inr [simp]: "sized v n = Inr w \<longleftrightarrow> length v = n \<and> w = v"
  by (auto simp: sized_def)

lemma lp_Inr [simp]: "lp v = Inr w \<longleftrightarrow> length v \<le> 65535 \<and> w = lp_field v"
  by (auto simp: lp_def lp_field_def)

lemma length_MAGIC [simp]: "length MAGIC = 4"
  by (simp add: MAGIC_def)

definition rs_valid :: "int \<Rightarrow> bytes \<Rightarrow> bool" where
  "rs_valid t p \<longleftrightarrow> PAYLOAD_SIZES t = Some (length p)"

lemma rs_valid_iff:
  "rs_valid t p \<longleftrightarrow> (t = 48 \<and> length p = 96) \<or> (t = 49 \<and> length p = 64)
     \<or> (t = 50 \<and> length p = 32) \<or> (t = 51 \<and> length p = 32) \<or> (t = 52 \<and> p = [])"
  by (auto simp: rs_valid_def PAYLOAD_SIZES_def split: if_splits)

lemma encode_resume_Inr [simp]:
  "encode_resume p t v = Inr w \<longleftrightarrow> profile_ok p \<and> rs_valid t v \<and> w = frame_wire MAGIC p t v"
  by (auto simp: encode_resume_def rs_valid_def frame_wire_def split: option.splits)

lemma parse_resume_Inr [simp]:
  "parse_resume w p x = Inr (t, v) \<longleftrightarrow>
     profile_ok p \<and> rs_valid t v \<and> (x = None \<or> x = Some t) \<and> w = frame_wire MAGIC p t v"
  (is "?L \<longleftrightarrow> ?R")
proof
  assume ?L
  then have h: "\<not> length w < 8" "take 4 w = MAGIC" "uint (w ! 4) = p" "length w = 8 + be_nat (slice 6 8 w)"
      "t = uint (w ! 5)" "v = drop 8 w" "profile_ok p" "x = None \<or> x = Some t" "PAYLOAD_SIZES t = Some (length v)"
    by (auto simp: parse_resume_def Let_def split: if_splits option.splits)
  then show ?R using frame_wire_intro(1) [OF h(1-4)] by (simp add: rs_valid_def)
next
  assume r: ?R
  then have "length v \<le> 65535" "0 \<le> t" "t \<le> 255" by (auto simp: rs_valid_iff)
  with r show ?L
    using parse_wire_length [of MAGIC v p t] profile_ok_byte [of p]
    by (auto simp: parse_resume_def Let_def frame_wire_parts rs_valid_def split: option.splits)
qed

interpretation pqrs08: frame_codec MAGIC V08 rs_valid "encode_resume V08"
  "\<lambda>w. parse_resume w V08 None" fst snd
  by unfold_locales (auto simp: profile_ok_def rs_valid_iff)

interpretation pqrs11: frame_codec MAGIC V11 rs_valid "encode_resume V11"
  "\<lambda>w. parse_resume w V11 None" fst snd
  by unfold_locales (auto simp: profile_ok_def rs_valid_iff)

text \<open>The values the derivations compute, once the sizes are right.\<close>

definition np_ok :: "bytes option \<Rightarrow> bool" where
  "np_ok np \<longleftrightarrow> (case np of None \<Rightarrow> True | Some v \<Rightarrow> length v = 32)"

definition resume_mac :: "int \<Rightarrow> bytes \<Rightarrow> string \<Rightarrow> bytes \<Rightarrow> bytes \<Rightarrow> bytes \<Rightarrow> bytes option \<Rightarrow> bytes" where
  "resume_mac p kroot label rid sid nc np = hmac_sha256 kroot (domain_bytes p @ ascii ''/RESUME-'' @ ascii label
     @ [word_of_int p] @ rid @ sid @ nc @ (case np of None \<Rightarrow> [] | Some v \<Rightarrow> v))"

lemma resume_auth_Inr [simp]:
  "resume_auth p kroot label rid sid nc np = Inr m \<longleftrightarrow>
     length kroot = 32 \<and> profile_ok p \<and> length rid = 16 \<and> length sid = 16 \<and> length nc = 32 \<and> np_ok np
     \<and> m = resume_mac p kroot label rid sid nc np"
  using profile_ok_byte [of p]
  by (cases np) (auto simp: resume_auth_def resume_context_def resume_mac_def np_ok_def Let_def)

lemma length_resume_mac [simp]: "length (resume_mac p kroot label rid sid nc np) = 32"
  by (simp add: resume_mac_def)

type_synonym resume_inputs = "int \<times> bytes \<times> bytes \<times> bytes \<times> bytes"

definition resume_fields :: "resume_inputs \<Rightarrow> bytes list" where
  "resume_fields = (\<lambda>(p, rid, sid, nc, np).
     [domain_bytes p @ ascii ''/RESUME-TRANSCRIPT'', [word_of_int p], rid, sid, nc, np])"

lemma resume_transcript_Inr:
  "resume_transcript p rid sid nc np = Inr t \<longleftrightarrow>
     profile_ok p \<and> length rid = 16 \<and> length sid = 16 \<and> length nc = 32 \<and> length np = 32
     \<and> t = concat (map lp_field (resume_fields (p, rid, sid, nc, np)))"
  using profile_ok_byte [of p] by (auto simp: resume_transcript_def resume_fields_def)

definition keys_of :: "int \<Rightarrow> bytes \<Rightarrow> bytes \<Rightarrow> bytes \<Rightarrow> bytes \<Rightarrow> bytes \<Rightarrow> session_keys" where
  "keys_of p kroot rid sid nc np =
     (let th = sha256 (concat (map lp_field (resume_fields (p, rid, sid, nc, np))));
          prk = hmac_sha256 th kroot;
          block = (\<lambda>label. hmac_sha256 prk (domain_bytes p @ ascii ''/RESUME-'' @ ascii label @ th @ [1]))
      in \<lparr> sk_profile = p, sk_th = th, sk_confirm_c = block ''CONFIRM-C'', sk_confirm_p = block ''CONFIRM-P'',
           sk_app_c2p = block ''APP-C2P'', sk_app_p2c = block ''APP-P2C'',
           sk_iv_c2p = take 12 (block ''IV-C2P''), sk_iv_p2c = take 12 (block ''IV-P2C'') \<rparr>)"

lemma SessionKeys_init_Inr [simp]:
  "SessionKeys_init p kroot rid sid nc np = Inr k \<longleftrightarrow>
     profile_ok p \<and> length rid = 16 \<and> length sid = 16 \<and> length nc = 32 \<and> length np = 32
     \<and> length kroot = 32 \<and> k = keys_of p kroot rid sid nc np"
  by (auto simp: SessionKeys_init_def resume_transcript_Inr session_key_block_def keys_of_def Let_def)

lemma keys_of_simps [simp]:
  "sk_profile (keys_of p kroot rid sid nc np) = p"
  "length (sk_app_c2p (keys_of p kroot rid sid nc np)) = 32"
  "length (sk_app_p2c (keys_of p kroot rid sid nc np)) = 32"
  "length (sk_iv_c2p (keys_of p kroot rid sid nc np)) = 12"
  "length (sk_iv_p2c (keys_of p kroot rid sid nc np)) = 12"
  by (simp_all add: keys_of_def Let_def)

definition finish_tag :: "bool \<Rightarrow> session_keys \<Rightarrow> bytes" where
  "finish_tag central k = hmac_sha256 (if central then sk_confirm_c k else sk_confirm_p k)
     (domain_bytes (sk_profile k) @ ascii ''/RESUME-FINISH-'' @ ascii (if central then ''C'' else ''P'') @ sk_th k)"

lemma SessionKeys_finish_Inr [simp]:
  "SessionKeys_finish c k = Inr m \<longleftrightarrow> profile_ok (sk_profile k) \<and> m = finish_tag c k"
  by (auto simp: SessionKeys_finish_def finish_tag_def)

lemma length_finish_tag [simp]: "length (finish_tag c k) = 32"
  by (simp add: finish_tag_def)

lemma the_attr_Inr [simp]: "the_attr x = Inr v \<longleftrightarrow> x = Some v"
  by (cases x) (auto simp: the_attr_def)

subsection \<open>Tickets\<close>

text \<open>What the ticket check lets through.\<close>

definition ticket_usable :: "int \<Rightarrow> string \<Rightarrow> seconds \<Rightarrow> ticket \<Rightarrow> bool" where
  "ticket_usable p peer now t \<longleftrightarrow> tk_valid t \<and> tk_created_at t \<le> now \<and> now - tk_created_at t < TTL
     \<and> tk_successful_resumes t < MAX_RESUMES \<and> tk_profile t = p \<and> tk_peer t = peer"

lemma Ticket_check_Inr [simp]:
  "Ticket_check p peer now t = (Inr u, t') \<longleftrightarrow> ticket_usable p peer now t \<and> t' = t"
  by (auto simp: Ticket_check_def ticket_usable_def)

lemma Ticket_check_Inl:
  "Ticket_check p peer now t = (Inl e, t') \<Longrightarrow> \<not> ticket_usable p peer now t \<and> (t' = t \<or> t' = Ticket_clear t)"
  by (auto simp: Ticket_check_def ticket_usable_def split: if_splits)

lemma pr_ticket_check_Inr [simp]:
  "pr_ticket_check peer now p = (Inr t, p') \<longleftrightarrow>
     pr_ticket p = Some t \<and> p' = p \<and>
     ticket_usable (pr_profile p) (case peer of None \<Rightarrow> tk_peer t | Some x \<Rightarrow> x) now t"
  by (cases p) (auto simp: pr_ticket_check_def dest: Ticket_check_Inl split: option.splits prod.splits sum.splits)

subsection \<open>Successful calls\<close>

definition ticket_sized :: "ticket \<Rightarrow> bool" where
  "ticket_sized t \<longleftrightarrow> length (tk_rid t) = 16 \<and> length (tk_root t) = 32"

lemma CentralResume_begin_Inr:
  "CentralResume_begin c = (Inr w, c') \<longleftrightarrow>
     cr_state c = HS_NEW \<and> profile_ok (cr_profile c) \<and> ticket_sized (cr_ticket c)
     \<and> length (cr_session_id c) = 16 \<and> length (cr_nc c) = 32 \<and> c' = c\<lparr> cr_state := HS_WAIT_ACCEPT \<rparr>
     \<and> w = frame_wire MAGIC (cr_profile c) 48 (tk_rid (cr_ticket c) @ cr_session_id c @ cr_nc c
         @ resume_mac (cr_profile c) (tk_root (cr_ticket c)) ''INIT'' (tk_rid (cr_ticket c)) (cr_session_id c) (cr_nc c) None)"
  by (auto simp: CentralResume_begin_def Let_def ticket_sized_def np_ok_def rs_valid_iff)

lemma CentralResume_accept_Inr:
  "CentralResume_accept raw c = (Inr w, c') \<longleftrightarrow>
     cr_state c = HS_WAIT_ACCEPT \<and> profile_ok (cr_profile c) \<and> ticket_sized (cr_ticket c)
     \<and> length (cr_session_id c) = 16 \<and> length (cr_nc c) = 32 \<and>
     (\<exists>np. length np = 32
       \<and> raw = frame_wire MAGIC (cr_profile c) 49 (np @ resume_mac (cr_profile c) (tk_root (cr_ticket c)) ''ACCEPT''
             (tk_rid (cr_ticket c)) (cr_session_id c) (cr_nc c) (Some np))
       \<and> (let k = keys_of (cr_profile c) (tk_root (cr_ticket c)) (tk_rid (cr_ticket c)) (cr_session_id c) (cr_nc c) np
          in w = frame_wire MAGIC (cr_profile c) 50 (finish_tag True k)
           \<and> c' = c\<lparr> cr_keys := Some k, cr_state := HS_WAIT_FINISH_P \<rparr>))"
  (is "?L \<longleftrightarrow> ?R")
proof
  assume ?L
  then obtain v where v: "rs_valid 49 v" "raw = frame_wire MAGIC (cr_profile c) 49 v"
      "resume_mac (cr_profile c) (tk_root (cr_ticket c)) ''ACCEPT'' (tk_rid (cr_ticket c)) (cr_session_id c)
         (cr_nc c) (Some (take 32 v)) = drop 32 v"
    by (auto simp: CentralResume_accept_def Let_def split: if_splits)
  then have "v = take 32 v @ resume_mac (cr_profile c) (tk_root (cr_ticket c)) ''ACCEPT'' (tk_rid (cr_ticket c))
      (cr_session_id c) (cr_nc c) (Some (take 32 v))"
    by simp
  then show ?R using v \<open>?L\<close>
    by (intro conjI exI [of _ "take 32 v"])
      (auto simp: CentralResume_accept_def Let_def rs_valid_iff ticket_sized_def split: if_splits)
next
  assume ?R
  then show ?L
    by (auto simp: CentralResume_accept_def Let_def rs_valid_iff ticket_sized_def np_ok_def)
qed

lemma CentralResume_finish_Inr:
  "CentralResume_finish raw c = (Inr u, c') \<longleftrightarrow>
     cr_state c = HS_WAIT_FINISH_P \<and> profile_ok (cr_profile c) \<and>
     (\<exists>k. cr_keys c = Some k \<and> profile_ok (sk_profile k)
       \<and> raw = frame_wire MAGIC (cr_profile c) 51 (finish_tag False k)
       \<and> c' = c\<lparr> cr_keys := Some (SessionKeys_clear_confirmation k),
                 cr_ticket := Ticket_used (cr_ticket c), cr_state := HS_APP_SECURE \<rparr>)"
  by (auto simp: CentralResume_finish_def rs_valid_iff split: if_splits)

text \<open>An INIT payload as its four parts.\<close>

lemma init_payload_parts:
  assumes "length v = 96"
  shows "v = take 16 v @ slice 16 32 v @ slice 32 64 v @ drop 64 v"
    and "length (slice 16 32 v) = 16" and "length (slice 32 64 v) = 32" and "length (drop 64 v) = 32"
proof -
  have "drop 16 v = slice 16 32 v @ slice 32 64 v @ drop 64 v"
    using drop_slice [of 16 32 v] drop_slice [of 32 64 v] by simp
  then show "v = take 16 v @ slice 16 32 v @ slice 32 64 v @ drop 64 v"
    by (metis append_take_drop_id)
qed (use assms in simp_all)

lemma init_payload_split:
  assumes "length rid = 16" and "length sid = 16" and "length nc = 32"
  shows "take 16 (rid @ sid @ nc @ tag) = rid" and "slice 16 32 (rid @ sid @ nc @ tag) = sid"
    and "slice 32 64 (rid @ sid @ nc @ tag) = nc" and "drop 64 (rid @ sid @ nc @ tag) = tag"
  using assms by (simp_all add: slice_def)

definition replayed :: "bytes \<Rightarrow> bytes \<Rightarrow> ticket \<Rightarrow> bool" where
  "replayed nc sid t \<longleftrightarrow> (\<exists>(old_nc, old_sid) \<in> set (tk_replay t). nc = old_nc \<or> sid = old_sid)"

lemma PeripheralResume_init_Inr:
  "PeripheralResume_init raw peer l4 bonded clock1 clock2 np p = (Inr w, p') \<longleftrightarrow>
     pr_state p = PR_IDLE \<and> profile_ok (pr_profile p) \<and> (pr_profile p = V11 \<longrightarrow> l4 \<and> bonded) \<and> length np = 32 \<and>
     (\<exists>t sid nc. pr_ticket p = Some t \<and> ticket_usable (pr_profile p) peer clock1 t \<and> ticket_sized t
       \<and> length sid = 16 \<and> length nc = 32 \<and> \<not> replayed nc sid t \<and> length (tk_replay t) < REPLAY_CAPACITY
       \<and> raw = frame_wire MAGIC (pr_profile p) 48 (tk_rid t @ sid @ nc
             @ resume_mac (pr_profile p) (tk_root t) ''INIT'' (tk_rid t) sid nc None)
       \<and> w = frame_wire MAGIC (pr_profile p) 49 (np
             @ resume_mac (pr_profile p) (tk_root t) ''ACCEPT'' (tk_rid t) sid nc (Some np))
       \<and> p' = p\<lparr> pr_ticket := Some (t\<lparr> tk_replay := tk_replay t @ [(nc, sid)] \<rparr>),
                 pr_keys := Some (keys_of (pr_profile p) (tk_root t) (tk_rid t) sid nc np),
                 pr_session_id := sid, pr_deadline := clock2 + 30, pr_state := PR_WAIT_FINISH_C \<rparr>)"
  (is "?L \<longleftrightarrow> ?R")
proof
  assume l: ?L
  then obtain v t where v: "rs_valid 48 v" "raw = frame_wire MAGIC (pr_profile p) 48 v"
      and t: "pr_ticket p = Some t" "take 16 v = tk_rid t"
      "drop 64 v = resume_mac (pr_profile p) (tk_root t) ''INIT'' (take 16 v) (slice 16 32 v) (slice 32 64 v) None"
    by (auto simp: PeripheralResume_init_def Let_def split: if_splits)
  then have "length v = 96" by (simp add: rs_valid_iff)
  define sid nc where "sid = slice 16 32 v" and "nc = slice 32 64 v"
  have parts: "take 16 v @ sid @ nc @ drop 64 v = v"
    unfolding sid_def nc_def using init_payload_parts(1) [OF \<open>length v = 96\<close>] by (rule sym)
  have raw: "raw = frame_wire MAGIC (pr_profile p) 48 (tk_rid t @ sid @ nc
      @ resume_mac (pr_profile p) (tk_root t) ''INIT'' (tk_rid t) sid nc None)"
    using v(2) parts t(2,3) unfolding sid_def nc_def by simp
  have "\<not> replayed nc sid t" "length (tk_replay t) < REPLAY_CAPACITY" "length np = 32" "ticket_sized t"
      "ticket_usable (pr_profile p) peer clock1 t" "length sid = 16" "length nc = 32" "pr_state p = PR_IDLE"
      "profile_ok (pr_profile p)" "pr_profile p = V11 \<longrightarrow> l4 \<and> bonded"
      "w = frame_wire MAGIC (pr_profile p) 49 (np
             @ resume_mac (pr_profile p) (tk_root t) ''ACCEPT'' (tk_rid t) sid nc (Some np))"
      "p' = p\<lparr> pr_ticket := Some (t\<lparr> tk_replay := tk_replay t @ [(nc, sid)] \<rparr>),
                 pr_keys := Some (keys_of (pr_profile p) (tk_root t) (tk_rid t) sid nc np),
                 pr_session_id := sid, pr_deadline := clock2 + 30, pr_state := PR_WAIT_FINISH_C \<rparr>"
    using l v t \<open>length v = 96\<close> length_take [of 16 v] unfolding sid_def nc_def
    by (auto simp: PeripheralResume_init_def Let_def replayed_def ticket_sized_def split: if_splits)
  then show ?R using raw t(1) by blast
next
  assume ?R
  then show ?L
    by (auto simp: PeripheralResume_init_def Let_def replayed_def ticket_sized_def rs_valid_iff
        init_payload_split np_ok_def)
qed

lemma PeripheralResume_finish_Inr:
  "PeripheralResume_finish raw l4 bonded clock1 clock2 p = (Inr w, p') \<longleftrightarrow>
     (pr_profile p = V11 \<longrightarrow> l4 \<and> bonded) \<and> pr_state p = PR_WAIT_FINISH_C \<and> clock1 < pr_deadline p
     \<and> profile_ok (pr_profile p) \<and>
     (\<exists>t k. pr_ticket p = Some t \<and> ticket_usable (pr_profile p) (tk_peer t) clock2 t
       \<and> pr_keys p = Some k \<and> profile_ok (sk_profile k)
       \<and> raw = frame_wire MAGIC (pr_profile p) 50 (finish_tag True k)
       \<and> w = frame_wire MAGIC (pr_profile p) 51 (finish_tag False k)
       \<and> p' = p\<lparr> pr_state := PR_PENDING_SEND \<rparr>)"
  by (auto simp: PeripheralResume_finish_def rs_valid_iff split: if_splits)

lemma PeripheralResume_commit_Inr:
  "PeripheralResume_commit clock p = (Inr u, p') \<longleftrightarrow>
     pr_state p = PR_PENDING_SEND \<and> clock < pr_deadline p \<and>
     (\<exists>k t. pr_keys p = Some k \<and> pr_ticket p = Some t
       \<and> p' = p\<lparr> pr_keys := Some (SessionKeys_clear_confirmation k), pr_ticket := Some (Ticket_used t),
                 pr_state := PR_APP_SECURE \<rparr>)"
  by (auto simp: PeripheralResume_commit_def split: option.splits)

subsection \<open>Runs of the Peripheral\<close>

datatype pr_call =
    PrInit bytes string bool bool seconds seconds bytes
  | PrFinish bytes bool bool seconds seconds
  | PrCommit seconds
  | PrDisconnect

fun pr_step :: "peripheral_resume \<Rightarrow> pr_call \<Rightarrow> (peripheral_resume, bytes) outcome" where
  "pr_step p (PrInit raw peer l4 bonded k1 k2 np) = PeripheralResume_init raw peer l4 bonded k1 k2 np p"
| "pr_step p (PrFinish raw l4 bonded k1 k2) = PeripheralResume_finish raw l4 bonded k1 k2 p"
| "pr_step p (PrCommit k) = bindM (PeripheralResume_commit k) (\<lambda>_. retM []) p"
| "pr_step p PrDisconnect = (Inr [], PeripheralResume_disconnect p)"

text \<open>
  How a ticket may change while the object runs: it becomes invalid for good, or it stays valid and
  keeps its secret and age, while its replay list and its counter only grow.
\<close>

definition ticket_le :: "ticket \<Rightarrow> ticket \<Rightarrow> bool" where
  "ticket_le t t' \<longleftrightarrow> \<not> tk_valid t' \<or>
     (tk_valid t \<and> tk_rid t' = tk_rid t \<and> tk_root t' = tk_root t \<and> tk_created_at t' = tk_created_at t
      \<and> set (tk_replay t) \<subseteq> set (tk_replay t') \<and> tk_successful_resumes t \<le> tk_successful_resumes t')"

definition pr_le :: "peripheral_resume \<Rightarrow> peripheral_resume \<Rightarrow> bool" where
  "pr_le p p' \<longleftrightarrow> pr_profile p' = pr_profile p \<and>
     (case pr_ticket p of None \<Rightarrow> pr_ticket p' = None
      | Some t \<Rightarrow> (\<exists>t'. pr_ticket p' = Some t' \<and> ticket_le t t'))"

lemma ticket_le_refl [simp]: "ticket_le t t"
  by (simp add: ticket_le_def)

lemma ticket_le_trans: "ticket_le a b \<Longrightarrow> ticket_le b c \<Longrightarrow> ticket_le a c"
  by (auto simp: ticket_le_def)

lemma ticket_le_clear [simp]: "ticket_le t (Ticket_clear t)"
  by (simp add: ticket_le_def Ticket_clear_def)

lemma ticket_le_used [simp]: "ticket_le t (Ticket_used t)"
  by (auto simp: ticket_le_def Ticket_used_def Ticket_clear_def Let_def)

lemma pr_le_refl [simp]: "pr_le p p"
  by (simp add: pr_le_def split: option.splits)

lemma pr_le_trans: "pr_le a b \<Longrightarrow> pr_le b c \<Longrightarrow> pr_le a c"
  by (auto simp: pr_le_def split: option.splits dest: ticket_le_trans)

lemma pr_le_disconnect [simp]: "pr_le p (PeripheralResume_disconnect p)"
  by (simp add: pr_le_def PeripheralResume_disconnect_def split: option.splits)

lemma pr_le_check: "pr_le p (snd (pr_ticket_check peer now p))"
  by (auto simp: pr_le_def pr_ticket_check_def split: option.splits prod.splits sum.splits
      dest: Ticket_check_Inl)

lemmas pr_keeps = onerr_keeps [where R = pr_le, OF _ pr_le_disconnect pr_le_trans]
  bindM_keeps [where R = pr_le, OF _ _ pr_le_trans] case_prod_keeps [where R = pr_le]

lemma pr_le_extend:
  assumes "pr_ticket p = Some t"
  shows "pr_le p (p\<lparr> pr_ticket := Some (t\<lparr> tk_replay := tk_replay t @ xs \<rparr>) \<rparr>)"
  using assms by (auto simp: pr_le_def ticket_le_def)

lemma pr_le_fields:
  "pr_le p (p\<lparr> pr_keys := k, pr_session_id := s, pr_deadline := d, pr_state := st \<rparr>)"
  "pr_le p (p\<lparr> pr_state := st \<rparr>)"
  by (simp_all add: pr_le_def split: option.splits)

lemma pr_le_init: "pr_le p (snd (PeripheralResume_init raw peer l4 bonded k1 k2 np p))"
  unfolding PeripheralResume_init_def Let_def seqM_def
  by (intro pr_keeps) (auto simp: pr_le_check pr_le_extend pr_le_fields)

lemma pr_le_finish: "pr_le p (snd (PeripheralResume_finish raw l4 bonded k1 k2 p))"
  unfolding PeripheralResume_finish_def seqM_def
  by (intro pr_keeps) (auto simp: pr_le_check pr_le_fields)

lemma pr_le_commit: "pr_le p (snd (PeripheralResume_commit k p))"
  by (auto simp: PeripheralResume_commit_def pr_le_def PeripheralResume_disconnect_def split: option.splits)

lemma pr_le_step: "pr_le p (snd (pr_step p c))"
  by (cases c) (simp_all add: pr_le_init pr_le_finish pr_le_commit bindM_keeps [where R = pr_le, OF _ _ pr_le_trans])

lemma pr_le_run: "pr_le p (run_state pr_step p cs)"
  by (rule run_state_invariant) (auto intro: pr_le_trans pr_le_step)

text \<open>How many more resumptions a ticket is good for.\<close>

definition resume_budget :: "peripheral_resume \<Rightarrow> nat" where
  "resume_budget p = (case pr_ticket p of None \<Rightarrow> 0
     | Some t \<Rightarrow> if tk_valid t then nat (MAX_RESUMES - tk_successful_resumes t) else 0)"

lemma budget_mono: "pr_le p p' \<Longrightarrow> resume_budget p' \<le> resume_budget p"
  by (auto simp: pr_le_def resume_budget_def ticket_le_def split: option.splits)

definition pending_ok :: "peripheral_resume \<Rightarrow> bool" where
  "pending_ok p \<longleftrightarrow> (pr_state p = PR_PENDING_SEND \<longrightarrow> 0 < resume_budget p)"

fun is_commit :: "pr_call \<Rightarrow> bool" where
  "is_commit (PrCommit k) = True"
| "is_commit _ = False"

lemma commit_spends:
  assumes "PeripheralResume_commit k p = (Inr u, p')" and "pending_ok p"
  shows "Suc (resume_budget p') \<le> resume_budget p"
  using assms by (auto simp: PeripheralResume_commit_Inr pending_ok_def resume_budget_def Ticket_used_def
      Ticket_clear_def Let_def split: if_splits)

lemma onerr_disconnect_state:
  "onerr PeripheralResume_disconnect m p = (Inl e, p') \<Longrightarrow> pr_state p' = PR_IDLE"
  by (auto simp: onerr_Inl PeripheralResume_disconnect_def)

lemma failed_call_disconnects:
  "PeripheralResume_init raw peer l4 bonded k1 k2 np p = (Inl e, p') \<Longrightarrow> pr_state p' = PR_IDLE"
  "PeripheralResume_finish raw l4 bonded k1 k2 p = (Inl e, p') \<Longrightarrow> pr_state p' = PR_IDLE"
  unfolding PeripheralResume_init_def PeripheralResume_finish_def by (erule onerr_disconnect_state)+

lemma pending_ok_step:
  assumes "pending_ok p"
  shows "pending_ok (snd (pr_step p c))"
proof (cases c)
  case (PrInit raw peer l4 bonded k1 k2 np)
  obtain r p' where s: "PeripheralResume_init raw peer l4 bonded k1 k2 np p = (r, p')" by fastforce
  then have "pr_state p' \<noteq> PR_PENDING_SEND"
    by (cases r) (auto simp: PeripheralResume_init_Inr dest: failed_call_disconnects)
  then show ?thesis by (simp add: PrInit s pending_ok_def)
next
  case (PrFinish raw l4 bonded k1 k2)
  obtain r p' where s: "PeripheralResume_finish raw l4 bonded k1 k2 p = (r, p')" by fastforce
  then have "pending_ok p'"
    by (cases r) (auto simp: PeripheralResume_finish_Inr pending_ok_def resume_budget_def
        ticket_usable_def dest: failed_call_disconnects)
  then show ?thesis by (simp add: PrFinish s)
next
  case (PrCommit k)
  then show ?thesis using assms
    by (auto simp: PeripheralResume_commit_def PeripheralResume_disconnect_def pending_ok_def resume_budget_def
        bindM_def split: option.splits)
next
  case PrDisconnect
  then show ?thesis by (simp add: pending_ok_def PeripheralResume_disconnect_def)
qed

lemma commits_bounded:
  "pending_ok p \<Longrightarrow> length (filter is_commit (run_accepted pr_step p cs)) \<le> resume_budget p"
proof (induction cs arbitrary: p)
  case Nil
  then show ?case by simp
next
  case (Cons c cs)
  obtain r p' where s: "pr_step p c = (r, p')" by fastforce
  have ok: "pending_ok p'" using pending_ok_step [OF Cons.prems, of c] s by simp
  have le: "resume_budget p' \<le> resume_budget p" using budget_mono pr_le_step [of p c] s by simp
  show ?case
  proof (cases "is_commit c \<and> (\<exists>x. r = Inr x)")
    case True
    then obtain k where "PeripheralResume_commit k p = (Inr (), p')"
      using s by (cases c) auto
    then show ?thesis
      using commit_spends Cons.prems Cons.IH [OF ok] s True by fastforce
  next
    case False
    then show ?thesis using s le Cons.IH [OF ok] by (cases r) auto
  qed
qed

subsection \<open>The Central fails closed\<close>

datatype cr_call = CrAccept bytes | CrFinish bytes

fun cr_step :: "central_resume \<Rightarrow> cr_call \<Rightarrow> (central_resume, bytes) outcome" where
  "cr_step c (CrAccept raw) = CentralResume_accept raw c"
| "cr_step c (CrFinish raw) = bindM (CentralResume_finish raw) (\<lambda>_. retM []) c"

definition keys_wiped :: "session_keys \<Rightarrow> bool" where
  "keys_wiped k \<longleftrightarrow> wiped (sk_th k) \<and> wiped (sk_confirm_c k) \<and> wiped (sk_confirm_p k)
     \<and> wiped (sk_app_c2p k) \<and> wiped (sk_app_p2c k) \<and> wiped (sk_iv_c2p k) \<and> wiped (sk_iv_p2c k)"

definition cr_closed :: "central_resume \<Rightarrow> bool" where
  "cr_closed c \<longleftrightarrow> cr_state c = HS_CLOSED \<and> cr_session_id c = [] \<and> cr_nc c = []
     \<and> (\<forall>k. cr_keys c = Some k \<longrightarrow> keys_wiped k)"

lemma cr_closed_clear [simp]: "cr_closed (CentralResume_clear c)"
  by (auto simp: cr_closed_def CentralResume_clear_def keys_wiped_def SessionKeys_clear_def
      SessionKeys_clear_confirmation_def)

interpretation cr_owner: fail_closed cr_step cr_closed
proof
  fix c call e t
  assume "cr_step c call = (Inl e, t)"
  then show "cr_closed t"
    by (cases call) (auto simp: bindM_ret_Inl CentralResume_accept_def CentralResume_finish_def onerr_Inl)
next
  fix c call
  assume "cr_closed c"
  then have "cr_step c call \<noteq> (Inr r, t)" for r t
    by (cases call) (auto simp: CentralResume_accept_Inr CentralResume_finish_Inr cr_closed_def)
  then show "\<exists>e t. cr_step c call = (Inl e, t)"
    by (metis Inr_or_Inl prod.exhaust)
qed

interpretation resume_transcripts: canonical_transcript
  "\<lambda>(p, rid, sid, nc, np). resume_transcript p rid sid nc np" resume_fields
proof
  let ?b = "\<lambda>(p, rid, sid, nc, np). resume_transcript p rid sid nc np"
  show "t = concat (map lp_field (resume_fields i))" if "?b i = Inr t" for i t
    using that by (auto simp: resume_transcript_Inr split: prod.splits)
  show "length v \<le> 65535" if "?b i = Inr t" and "v \<in> set (resume_fields i)" for i t v
    using that by (auto simp: resume_transcript_Inr resume_fields_def split: prod.splits)
  show "i = j" if "?b i = Inr t" and "?b j = Inr t" and "resume_fields i = resume_fields j" for i j t
    using that by (auto simp: resume_transcript_Inr resume_fields_def profile_ok_def split: prod.splits)
qed

section \<open>Properties\<close>

text \<open>
  C2. Resumption succeeds between honest peers and gives both the same keys: with tickets that share
  the root and identifier and are usable at the times the code reads the clock, fresh random values
  of the right sizes, room in the replay list and, for v1.1, a bonded Level-4 link, the exchange
  INIT, ACCEPT, FINISH\_C, FINISH\_P completes on both sides, both reach APP\_SECURE with the same
  session id and the same four traffic values, and each side has counted one use of its ticket.
\<close>

theorem resume_agreement:
  assumes "profile_ok p" and "ticket_sized tc" and "tk_rid tp = tk_rid tc" and "tk_root tp = tk_root tc"
    and "ticket_usable p (tk_peer tc) now tc"
    and "ticket_usable p peer k1 tp" and "ticket_usable p peer k4 tp"
    and "length sid = 16" and "length nc = 32" and "length np = 32"
    and "\<not> replayed nc sid tp" and "length (tk_replay tp) < REPLAY_CAPACITY"
    and "p = V11 \<longrightarrow> l4 \<and> bonded" and "k3 < k2 + 30" and "k5 < k2 + 30"
  shows "\<exists>c0 init c1 accept p1 finc c2 finp p2 p3 c3 k.
    fst (CentralResume_init now sid nc tc) = Inr c0
    \<and> CentralResume_begin c0 = (Inr init, c1)
    \<and> PeripheralResume_init init peer l4 bonded k1 k2 np (PeripheralResume_init_obj p (Some tp)) = (Inr accept, p1)
    \<and> CentralResume_accept accept c1 = (Inr finc, c2)
    \<and> PeripheralResume_finish finc l4 bonded k3 k4 p1 = (Inr finp, p2)
    \<and> PeripheralResume_commit k5 p2 = (Inr (), p3)
    \<and> CentralResume_finish finp c2 = (Inr (), c3)
    \<and> cr_state c3 = HS_APP_SECURE \<and> pr_state p3 = PR_APP_SECURE
    \<and> cr_keys c3 = Some k \<and> pr_keys p3 = Some k \<and> cr_session_id c3 = sid \<and> pr_session_id p3 = sid
    \<and> length (sk_app_c2p k) = 32 \<and> length (sk_app_p2c k) = 32
    \<and> length (sk_iv_c2p k) = 12 \<and> length (sk_iv_p2c k) = 12
    \<and> cr_ticket c3 = Ticket_used tc
    \<and> pr_ticket p3 = Some (Ticket_used (tp\<lparr> tk_replay := tk_replay tp @ [(nc, sid)] \<rparr>))"
proof -
  have p: "tk_profile tc = p" using assms(5) by (simp add: ticket_usable_def)
  have peer: "tk_peer tp = peer" using assms(6) by (simp add: ticket_usable_def)
  have tp': "ticket_usable p peer k4 (tp\<lparr> tk_replay := tk_replay tp @ [(nc, sid)] \<rparr>)"
    using assms(7) by (simp add: ticket_usable_def)
  have tps: "ticket_sized tp" using assms(2-4) by (simp add: ticket_sized_def)
  let ?k = "keys_of p (tk_root tc) (tk_rid tc) sid nc np"
  let ?mac = "\<lambda>label. resume_mac p (tk_root tc) label (tk_rid tc) sid nc"
  define c0 where "c0 = \<lparr> cr_ticket = tc, cr_profile = p, cr_state = HS_NEW,
    cr_session_id = sid, cr_nc = nc, cr_keys = None \<rparr>"
  define init where "init = frame_wire MAGIC p 48 (tk_rid tc @ sid @ nc @ ?mac ''INIT'' None)"
  define accept where "accept = frame_wire MAGIC p 49 (np @ ?mac ''ACCEPT'' (Some np))"
  define p1 where "p1 = \<lparr> pr_profile = p, pr_ticket = Some (tp\<lparr> tk_replay := tk_replay tp @ [(nc, sid)] \<rparr>),
    pr_keys = Some ?k, pr_state = PR_WAIT_FINISH_C, pr_session_id = sid, pr_deadline = k2 + 30 \<rparr>"
  define c2 where "c2 = c0\<lparr> cr_keys := Some ?k, cr_state := HS_WAIT_FINISH_P \<rparr>"
  define p3 where "p3 = p1\<lparr> pr_keys := Some (SessionKeys_clear_confirmation ?k),
    pr_ticket := Some (Ticket_used (tp\<lparr> tk_replay := tk_replay tp @ [(nc, sid)] \<rparr>)), pr_state := PR_APP_SECURE \<rparr>"
  define c3 where "c3 = c2\<lparr> cr_keys := Some (SessionKeys_clear_confirmation ?k), cr_ticket := Ticket_used tc,
    cr_state := HS_APP_SECURE \<rparr>"
  have 1: "fst (CentralResume_init now sid nc tc) = Inr c0"
    using assms(5) p by (auto simp: CentralResume_init_def c0_def split: prod.splits sum.splits dest: Ticket_check_Inl)
  have 2: "CentralResume_begin c0 = (Inr init, c0\<lparr> cr_state := HS_WAIT_ACCEPT \<rparr>)"
    using assms(1,2,8,9) by (simp add: CentralResume_begin_Inr c0_def init_def)
  have 3: "PeripheralResume_init init peer l4 bonded k1 k2 np (PeripheralResume_init_obj p (Some tp)) = (Inr accept, p1)"
    unfolding PeripheralResume_init_Inr
    using assms tps
    by (intro conjI exI [of _ tp] exI [of _ sid] exI [of _ nc])
      (simp_all add: PeripheralResume_init_obj_def init_def accept_def p1_def)
  have 4: "CentralResume_accept accept (c0\<lparr> cr_state := HS_WAIT_ACCEPT \<rparr>)
      = (Inr (frame_wire MAGIC p 50 (finish_tag True ?k)), c2)"
    unfolding CentralResume_accept_Inr
    using assms by (intro conjI exI [of _ np]) (simp_all add: c0_def accept_def c2_def Let_def)
  have 5: "PeripheralResume_finish (frame_wire MAGIC p 50 (finish_tag True ?k)) l4 bonded k3 k4 p1
      = (Inr (frame_wire MAGIC p 51 (finish_tag False ?k)), p1\<lparr> pr_state := PR_PENDING_SEND \<rparr>)"
    using assms(1,13,14) tp' peer by (simp add: PeripheralResume_finish_Inr p1_def)
  have 6: "PeripheralResume_commit k5 (p1\<lparr> pr_state := PR_PENDING_SEND \<rparr>) = (Inr (), p3)"
    using assms(15) by (simp add: PeripheralResume_commit_Inr p1_def p3_def)
  have 7: "CentralResume_finish (frame_wire MAGIC p 51 (finish_tag False ?k)) c2 = (Inr (), c3)"
    using assms(1) by (simp add: CentralResume_finish_Inr c2_def c0_def c3_def)
  have 8: "cr_state c3 = HS_APP_SECURE" "pr_state p3 = PR_APP_SECURE" "cr_ticket c3 = Ticket_used tc"
      "cr_keys c3 = Some (SessionKeys_clear_confirmation ?k)" "cr_session_id c3 = sid"
      "pr_keys p3 = Some (SessionKeys_clear_confirmation ?k)" "pr_session_id p3 = sid"
      "pr_ticket p3 = Some (Ticket_used (tp\<lparr> tk_replay := tk_replay tp @ [(nc, sid)] \<rparr>))"
    by (simp_all add: p1_def p3_def c2_def c0_def c3_def)
  have 9: "length (sk_app_c2p (SessionKeys_clear_confirmation ?k)) = 32" "length (sk_app_p2c (SessionKeys_clear_confirmation ?k)) = 32"
      "length (sk_iv_c2p (SessionKeys_clear_confirmation ?k)) = 12" "length (sk_iv_p2c (SessionKeys_clear_confirmation ?k)) = 12"
    by (simp_all add: SessionKeys_clear_confirmation_def)
  show ?thesis using 1 2 3 4 5 6 7 8 9 by blast
qed

definition demo_ticket :: "int \<Rightarrow> ticket" where
  "demo_ticket p = \<lparr> tk_profile = p, tk_peer = ''dk'', tk_rid = replicate 16 7, tk_root = replicate 32 9,
     tk_created_at = 0, tk_successful_resumes = 0, tk_replay = [], tk_valid = True \<rparr>"

lemma demo_ticket_usable:
  "0 \<le> now \<Longrightarrow> now < 86400 \<Longrightarrow> ticket_usable p ''dk'' now (demo_ticket p)"
  "ticket_sized (demo_ticket p)" "tk_replay (demo_ticket p) = []" "tk_peer (demo_ticket p) = ''dk''"
  by (simp_all add: ticket_usable_def demo_ticket_def ticket_sized_def)

theorem resume_agreement_witness:
  "\<exists>c0 init c1. fst (CentralResume_init 5 (replicate 16 1) (replicate 32 2) (demo_ticket 17)) = Inr c0
     \<and> CentralResume_begin c0 = (Inr init, c1)"
  using resume_agreement [of 17 "demo_ticket 17" "demo_ticket 17" 5 "''dk''" 6 9 "replicate 16 1" "replicate 32 2"
      "replicate 32 3" True True 8 7 10]
  by (simp add: demo_ticket_usable profile_ok_def replayed_def) blast

text \<open>
  C3. An INIT message is accepted at most once in the life of a ticket: once the Peripheral has
  accepted it, then after any sequence of further calls (other sessions, failures, disconnects),
  and whatever peer, link security, clock and nonce it comes with, the same message is refused.
\<close>

theorem resume_no_replay:
  assumes "PeripheralResume_init raw peer l4 bonded k1 k2 np p = (Inr w, p')"
  shows "\<exists>e. fst (PeripheralResume_init raw peer' l4' bonded' k1' k2' np' (run_state pr_step p' cs)) = Inl e"
proof (rule ccontr)
  assume "\<not> ?thesis"
  then obtain w' q where again: "PeripheralResume_init raw peer' l4' bonded' k1' k2' np' (run_state pr_step p' cs) = (Inr w', q)"
    by (metis Inr_or_Inl prod.collapse)
  let ?p = "run_state pr_step p' cs"
  obtain t sid nc where t: "pr_ticket p = Some t" "ticket_sized t" "length sid = 16" "length nc = 32"
      "raw = frame_wire MAGIC (pr_profile p) 48 (tk_rid t @ sid @ nc
         @ resume_mac (pr_profile p) (tk_root t) ''INIT'' (tk_rid t) sid nc None)"
      "pr_ticket p' = Some (t\<lparr> tk_replay := tk_replay t @ [(nc, sid)] \<rparr>)" "pr_profile p' = pr_profile p"
    using assms by (auto simp: PeripheralResume_init_Inr)
  obtain t' sid' nc' where t': "pr_ticket ?p = Some t'" "ticket_sized t'" "tk_valid t'" "length sid' = 16" "length nc' = 32"
      "raw = frame_wire MAGIC (pr_profile ?p) 48 (tk_rid t' @ sid' @ nc'
         @ resume_mac (pr_profile ?p) (tk_root t') ''INIT'' (tk_rid t') sid' nc' None)"
      "\<not> replayed nc' sid' t'"
    using again by (auto simp: PeripheralResume_init_Inr ticket_usable_def)
  have le: "pr_profile ?p = pr_profile p" "(nc, sid) \<in> set (tk_replay t')"
    using pr_le_run [of p' cs] t(6,7) t'(1,3) by (auto simp: pr_le_def ticket_le_def)
  have "tk_rid t @ sid @ nc @ resume_mac (pr_profile p) (tk_root t) ''INIT'' (tk_rid t) sid nc None
      = tk_rid t' @ sid' @ nc' @ resume_mac (pr_profile p) (tk_root t') ''INIT'' (tk_rid t') sid' nc' None"
    using t(5) t'(6) le(1) by simp
  then have "sid = sid'" using t(2,3) t'(2,4) by (simp add: ticket_sized_def)
  then show False using le(2) t'(7) by (auto simp: replayed_def)
qed

definition demo_init_wire :: bytes where
  "demo_init_wire = frame_wire MAGIC 17 48 (replicate 16 7 @ replicate 16 1 @ replicate 32 2
     @ resume_mac 17 (replicate 32 9) ''INIT'' (replicate 16 7) (replicate 16 1) (replicate 32 2) None)"

lemma demo_init_accepted:
  "\<exists>w p'. PeripheralResume_init demo_init_wire ''dk'' True True 5 5 (replicate 32 3)
     (PeripheralResume_init_obj 17 (Some (demo_ticket 17))) = (Inr w, p')"
  unfolding PeripheralResume_init_Inr
  by (intro exI conjI; (rule refl)?)
    (simp_all add: PeripheralResume_init_obj_def demo_init_wire_def demo_ticket_usable replayed_def
      profile_ok_def, simp_all add: demo_ticket_def ticket_usable_def ticket_sized_def)

theorem resume_no_replay_witness:
  "\<exists>w p' e. PeripheralResume_init demo_init_wire ''dk'' True True 5 5 (replicate 32 3)
       (PeripheralResume_init_obj 17 (Some (demo_ticket 17))) = (Inr w, p')
     \<and> fst (PeripheralResume_init demo_init_wire ''dk'' True True 7 7 (replicate 32 4)
         (PeripheralResume_disconnect p')) = Inl e"
proof -
  obtain w p' where a: "PeripheralResume_init demo_init_wire ''dk'' True True 5 5 (replicate 32 3)
       (PeripheralResume_init_obj 17 (Some (demo_ticket 17))) = (Inr w, p')"
    using demo_init_accepted by blast
  show ?thesis
    using a resume_no_replay [OF a, of "''dk''" True True 7 7 "replicate 32 4" "[PrDisconnect]"] by auto
qed

text \<open>
  C34. A ticket is good for at most 100 resumptions: over any sequence of calls, with any messages and
  clock values, the number of sessions the Peripheral commits on one ticket is at most 100 minus
  the uses already counted.
\<close>

theorem resume_use_limit:
  "int (length (filter is_commit (run_accepted pr_step (PeripheralResume_init_obj p (Some t)) cs)))
     \<le> max 0 (MAX_RESUMES - tk_successful_resumes t)"
proof -
  have "length (filter is_commit (run_accepted pr_step (PeripheralResume_init_obj p (Some t)) cs))
      \<le> resume_budget (PeripheralResume_init_obj p (Some t))"
    by (rule commits_bounded) (simp add: pending_ok_def PeripheralResume_init_obj_def)
  then show ?thesis
    by (auto simp: resume_budget_def PeripheralResume_init_obj_def split: if_splits)
qed

text \<open>
  What a Peripheral demands before it accepts an INIT, in any state reachable with the ticket:
  the ticket is at most 24 hours old, the message carries the ticket's identifier and a MAC over
  the session id and nonce under the root the ticket was issued with, and a v1.1 link is bonded
  and at Level 4.
\<close>

theorem resume_init_requires:
  assumes "PeripheralResume_init raw peer l4 bonded k1 k2 np
      (run_state pr_step (PeripheralResume_init_obj p (Some t)) cs) = (Inr w, q)"
  shows "tk_valid t \<and> tk_created_at t \<le> k1 \<and> k1 < tk_created_at t + TTL \<and> (p = V11 \<longrightarrow> l4 \<and> bonded)
    \<and> (\<exists>sid nc mac. encode_resume p INIT (tk_rid t @ sid @ nc @ mac) = Inr raw
         \<and> resume_auth p (tk_root t) ''INIT'' (tk_rid t) sid nc None = Inr mac)"
proof -
  let ?q = "run_state pr_step (PeripheralResume_init_obj p (Some t)) cs"
  obtain t' sid nc where t': "pr_ticket ?q = Some t'" "ticket_usable (pr_profile ?q) peer k1 t'" "ticket_sized t'"
      "length sid = 16" "length nc = 32" "profile_ok (pr_profile ?q)" "pr_profile ?q = V11 \<longrightarrow> l4 \<and> bonded"
      "raw = frame_wire MAGIC (pr_profile ?q) 48 (tk_rid t' @ sid @ nc
         @ resume_mac (pr_profile ?q) (tk_root t') ''INIT'' (tk_rid t') sid nc None)"
    using assms by (auto simp: PeripheralResume_init_Inr)
  have le: "pr_profile ?q = p" "ticket_le t t'"
    using pr_le_run [of "PeripheralResume_init_obj p (Some t)" cs] t'(1)
    by (auto simp: pr_le_def PeripheralResume_init_obj_def)
  then have "tk_valid t" "tk_created_at t' = tk_created_at t" "tk_rid t' = tk_rid t" "tk_root t' = tk_root t"
    using t'(2) by (auto simp: ticket_le_def ticket_usable_def)
  then show ?thesis
    using t' le(1)
    by (intro conjI exI [of _ sid] exI [of _ nc] exI [of _ "resume_mac p (tk_root t) ''INIT'' (tk_rid t) sid nc None"])
      (auto simp: ticket_usable_def ticket_sized_def rs_valid_iff np_ok_def)
qed

theorem resume_init_requires_witness:
  "\<exists>sid nc mac. encode_resume 17 INIT (replicate 16 7 @ sid @ nc @ mac) = Inr demo_init_wire"
proof -
  obtain w q where "PeripheralResume_init demo_init_wire ''dk'' True True 5 5 (replicate 32 3)
      (run_state pr_step (PeripheralResume_init_obj 17 (Some (demo_ticket 17))) []) = (Inr w, q)"
    using demo_init_accepted by auto
  from resume_init_requires [OF this] show ?thesis by (auto simp: demo_ticket_def)
qed

end
