(* ===== verification/Session_Store.thy ===== *)
theory Session_Store
  imports Session "HOL-Library.AList"
begin

text \<open>
  \<open>src/common/session_store.py\<close>: the persistent store of the historical resumption scheme. The
  dictionary is an association list in insertion order; the JSON file is modelled by the value it
  holds. Every reading of \<open>time.time()\<close> is an argument.
\<close>

section \<open>Hexadecimal strings\<close>

definition hex_digit :: "nat \<Rightarrow> char" where
  "hex_digit d = ''0123456789abcdef'' ! d"

definition hex_byte :: "byte \<Rightarrow> string" where
  "hex_byte b = [hex_digit (unat b div 16), hex_digit (unat b mod 16)]"

text \<open>\<open>bytes.hex\<close>.\<close>

definition bytes_hex :: "bytes \<Rightarrow> string" where
  "bytes_hex bs = concat (map hex_byte bs)"

definition unhex_digit :: "char \<Rightarrow> nat option" where
  "unhex_digit c =
     (let n = of_char c :: nat
      in if 48 \<le> n \<and> n \<le> 57 then Some (n - 48)
         else if 97 \<le> n \<and> n \<le> 102 then Some (n - 87)
         else if 65 \<le> n \<and> n \<le> 70 then Some (n - 55) else None)"

text \<open>\<open>bytes.fromhex\<close>: pairs of digits of either case, ASCII white space skipped between pairs.\<close>

definition is_space :: "char \<Rightarrow> bool" where
  "is_space c \<longleftrightarrow> (let n = of_char c :: nat in n = 32 \<or> (9 \<le> n \<and> n \<le> 13))"

fun bytes_fromhex :: "string \<Rightarrow> bytes result" where
  "bytes_fromhex [] = Inr []"
| "bytes_fromhex [c] = (if is_space c then Inr [] else Inl (ValueError ''non-hexadecimal number found''))"
| "bytes_fromhex (c # d # cs) =
     (if is_space c then bytes_fromhex (d # cs)
      else case (unhex_digit c, unhex_digit d) of
             (Some x, Some y) \<Rightarrow> bindR (bytes_fromhex cs) (\<lambda>bs. Inr (word_of_nat (16 * x + y) # bs))
           | _ \<Rightarrow> Inl (ValueError ''non-hexadecimal number found''))"

section \<open>Entries\<close>

record session_entry =
  se_session_key :: bytes
  se_created_at :: seconds
  se_usage_count :: int

text \<open>The JSON object of an entry; \<open>None\<close> where a key is absent.\<close>

record session_dict =
  sd_session_key :: "string option"
  sd_created_at :: "seconds option"
  sd_usage_count :: "int option"

definition SessionEntry_to_dict :: "session_entry \<Rightarrow> session_dict" where
  "SessionEntry_to_dict e =
     \<lparr> sd_session_key = Some (bytes_hex (se_session_key e)),
       sd_created_at = Some (se_created_at e), sd_usage_count = Some (se_usage_count e) \<rparr>"

definition SessionEntry_from_dict :: "seconds \<Rightarrow> session_dict \<Rightarrow> session_entry result" where
  "SessionEntry_from_dict now d =
     (case sd_session_key d of
        None \<Rightarrow> Inl KeyError
      | Some h \<Rightarrow> bindR (bytes_fromhex h) (\<lambda>k.
          Inr \<lparr> se_session_key = k,
                se_created_at = (case sd_created_at d of None \<Rightarrow> now | Some t \<Rightarrow> t),
                se_usage_count = (case sd_usage_count d of None \<Rightarrow> 0 | Some n \<Rightarrow> n) \<rparr>))"

section \<open>The store\<close>

text \<open>What is on disk: no file, a file that cannot be read as JSON, or a JSON object.\<close>

datatype store_file = NoFile | UnreadableFile | JsonFile "(string \<times> session_dict) list"

record session_store =
  ss_max_age_hours :: seconds
  ss_max_uses :: int
  ss_sessions :: "(string \<times> session_entry) list"
  ss_disk :: store_file

definition SessionStore_persist :: "session_store \<Rightarrow> session_store" where
  "SessionStore_persist st =
     st\<lparr> ss_disk := JsonFile (map (\<lambda>(sid, e). (sid, SessionEntry_to_dict e)) (ss_sessions st)) \<rparr>"

fun load_entries ::
  "seconds \<Rightarrow> seconds \<Rightarrow> int \<Rightarrow> (string \<times> session_dict) list \<Rightarrow> (string \<times> session_entry) list \<Rightarrow>
   (string \<times> session_entry) list result" where
  "load_entries now cutoff max_uses [] acc = Inr acc"
| "load_entries now cutoff max_uses ((sid, d) # raw) acc =
     bindR (SessionEntry_from_dict now d) (\<lambda>entry.
       load_entries now cutoff max_uses raw
         (if cutoff \<le> se_created_at entry \<and> se_usage_count entry < max_uses
          then AList.update sid entry acc else acc))"

definition SessionStore_load_from_disk :: "seconds \<Rightarrow> session_store \<Rightarrow> session_store result" where
  "SessionStore_load_from_disk now st =
     (case ss_disk st of
        NoFile \<Rightarrow> Inr st
      | UnreadableFile \<Rightarrow> Inr st
      | JsonFile raw \<Rightarrow>
          bindR (load_entries now (now - ss_max_age_hours st * 3600) (ss_max_uses st) raw (ss_sessions st))
            (\<lambda>es. Inr (st\<lparr> ss_sessions := es \<rparr>)))"

definition SessionStore_init :: "seconds \<Rightarrow> store_file \<Rightarrow> seconds \<Rightarrow> int \<Rightarrow> session_store result" where
  "SessionStore_init now disk max_age_hours max_uses =
     (if max_uses \<le> 0 then Inl (ValueError ''max_uses must be greater than zero'')
      else SessionStore_load_from_disk now
        \<lparr> ss_max_age_hours = max_age_hours, ss_max_uses = max_uses, ss_sessions = [], ss_disk = disk \<rparr>)"

text \<open>\<open>max_age_hours or self._max_age_hours\<close>: both \<open>None\<close> and 0 select the default.\<close>

definition SessionStore_expire_older_than ::
  "seconds \<Rightarrow> seconds option \<Rightarrow> session_store \<Rightarrow> nat \<times> session_store" where
  "SessionStore_expire_older_than now max_age_hours st =
     (let threshold = (case max_age_hours of None \<Rightarrow> ss_max_age_hours st
                       | Some h \<Rightarrow> if h = 0 then ss_max_age_hours st else h);
          cutoff = now - threshold * 3600;
          expired = filter (\<lambda>(sid, e). se_created_at e < cutoff) (ss_sessions st);
          st' = st\<lparr> ss_sessions := filter (\<lambda>(sid, e). \<not> se_created_at e < cutoff) (ss_sessions st) \<rparr>
      in (length expired, if expired \<noteq> [] then SessionStore_persist st' else st'))"

definition SessionStore_expire_exhausted :: "session_store \<Rightarrow> nat \<times> session_store" where
  "SessionStore_expire_exhausted st =
     (let exhausted = filter (\<lambda>(sid, e). ss_max_uses st \<le> se_usage_count e) (ss_sessions st);
          st' = st\<lparr> ss_sessions := filter (\<lambda>(sid, e). \<not> ss_max_uses st \<le> se_usage_count e) (ss_sessions st) \<rparr>
      in (length exhausted, if exhausted \<noteq> [] then SessionStore_persist st' else st'))"

definition SessionStore_expire_invalid :: "seconds \<Rightarrow> session_store \<Rightarrow> session_store" where
  "SessionStore_expire_invalid now st =
     snd (SessionStore_expire_exhausted
       (snd (SessionStore_expire_older_than now (Some (ss_max_age_hours st)) st)))"

definition SessionStore_save ::
  "seconds \<Rightarrow> bytes \<Rightarrow> bytes \<Rightarrow> session_store \<Rightarrow> (session_store, unit) outcome" where
  "SessionStore_save now session_id session_key st =
     (if length session_id \<noteq> SESSION_ID_SIZE
      then (Inl (ValueError ''session_id must be 16 bytes''), st)
      else (Inr (), SessionStore_persist (st\<lparr> ss_sessions :=
        AList.update (bytes_hex session_id)
          \<lparr> se_session_key = session_key, se_created_at = now, se_usage_count = 0 \<rparr> (ss_sessions st) \<rparr>)))"

definition SessionStore_mark_used :: "seconds \<Rightarrow> bytes \<Rightarrow> session_store \<Rightarrow> bool \<times> session_store" where
  "SessionStore_mark_used now session_id st =
     (let st = SessionStore_expire_invalid now st; sid_hex = bytes_hex session_id
      in case map_of (ss_sessions st) sid_hex of
           None \<Rightarrow> (False, st)
         | Some entry \<Rightarrow>
             let entry' = entry\<lparr> se_usage_count := se_usage_count entry + 1 \<rparr>;
                 sessions = AList.update sid_hex entry' (ss_sessions st);
                 sessions' = (if ss_max_uses st \<le> se_usage_count entry'
                              then AList.delete sid_hex sessions else sessions)
             in (True, SessionStore_persist (st\<lparr> ss_sessions := sessions' \<rparr>)))"

text \<open>\<open>now\<close> and \<open>now'\<close> are the clock at the two expiry sweeps of a counted load.\<close>

definition SessionStore_load ::
  "seconds \<Rightarrow> seconds \<Rightarrow> bool \<Rightarrow> bytes \<Rightarrow> session_store \<Rightarrow> bytes option \<times> session_store" where
  "SessionStore_load now now' increment_usage session_id st =
     (let st = SessionStore_expire_invalid now st
      in case map_of (ss_sessions st) (bytes_hex session_id) of
           None \<Rightarrow> (None, st)
         | Some entry \<Rightarrow>
             if increment_usage
             then (let (ok, st') = SessionStore_mark_used now' session_id st
                   in (if ok then Some (se_session_key entry) else None, st'))
             else (Some (se_session_key entry), st))"

definition SessionStore_delete :: "bytes \<Rightarrow> session_store \<Rightarrow> session_store" where
  "SessionStore_delete session_id st =
     SessionStore_persist (st\<lparr> ss_sessions := AList.delete (bytes_hex session_id) (ss_sessions st) \<rparr>)"

definition SessionStore_has :: "seconds \<Rightarrow> bytes \<Rightarrow> session_store \<Rightarrow> bool \<times> session_store" where
  "SessionStore_has now session_id st =
     (let st = SessionStore_expire_invalid now st
      in (map_of (ss_sessions st) (bytes_hex session_id) \<noteq> None, st))"

definition SessionStore_list_ids ::
  "seconds \<Rightarrow> session_store \<Rightarrow> (string \<times> seconds \<times> int) list \<times> session_store" where
  "SessionStore_list_ids now st =
     (let st = SessionStore_expire_invalid now st
      in (map (\<lambda>(sid, e). (sid, se_created_at e, se_usage_count e)) (ss_sessions st), st))"

definition SessionStore_count :: "seconds \<Rightarrow> session_store \<Rightarrow> nat \<times> session_store" where
  "SessionStore_count now st =
     (let st = SessionStore_expire_invalid now st in (length (ss_sessions st), st))"

section \<open>Lemmas\<close>

subsection \<open>Hexadecimal round trip\<close>

lemma unhex_hex_digit: "d < 16 \<Longrightarrow> unhex_digit (hex_digit d) = Some d \<and> \<not> is_space (hex_digit d)"
proof -
  assume "d < 16"
  then have "d \<in> set [0 ..< 16]" by simp
  moreover have "list_all (\<lambda>d. unhex_digit (hex_digit d) = Some d \<and> \<not> is_space (hex_digit d)) [0 ..< 16]"
    by (simp add: upt_rec hex_digit_def unhex_digit_def is_space_def Let_def)
  ultimately show ?thesis by (simp only: list_all_iff) blast
qed

lemma bytes_fromhex_hex [simp]: "bytes_fromhex (bytes_hex bs) = Inr bs"
proof (induction bs)
  case Nil
  then show ?case by (simp add: bytes_hex_def)
next
  case (Cons b bs)
  have d: "unat b div 16 < 16" "unat b mod 16 < 16"
    using unat_byte_less [of b] by (auto intro: less_mult_imp_div_less)
  have "bytes_hex (b # bs) = hex_digit (unat b div 16) # hex_digit (unat b mod 16) # bytes_hex bs"
    by (simp add: bytes_hex_def hex_byte_def)
  then show ?case
    using Cons.IH unhex_hex_digit [OF d(1)] unhex_hex_digit [OF d(2)] by simp
qed

lemma bytes_hex_inject [simp]: "bytes_hex a = bytes_hex b \<longleftrightarrow> a = b"
  by (metis bytes_fromhex_hex sum.inject(2))

lemma from_dict_to_dict [simp]: "SessionEntry_from_dict now (SessionEntry_to_dict e) = Inr e"
  by (simp add: SessionEntry_from_dict_def SessionEntry_to_dict_def)

subsection \<open>The live entries\<close>

text \<open>An entry that the sweep at time \<open>now\<close> keeps, and the store's content as a map.\<close>

definition entry_live :: "seconds \<Rightarrow> session_store \<Rightarrow> session_entry \<Rightarrow> bool" where
  "entry_live now st e \<longleftrightarrow>
     now - ss_max_age_hours st * 3600 \<le> se_created_at e \<and> se_usage_count e < ss_max_uses st"

definition live_entry :: "seconds \<Rightarrow> session_store \<Rightarrow> bytes \<Rightarrow> session_entry option" where
  "live_entry now st sid =
     (case map_of (ss_sessions st) (bytes_hex sid) of
        None \<Rightarrow> None | Some e \<Rightarrow> if entry_live now st e then Some e else None)"

definition store_ok :: "session_store \<Rightarrow> bool" where
  "store_ok st \<longleftrightarrow> distinct (map fst (ss_sessions st)) \<and> 0 < ss_max_uses st"

lemma persist_simps [simp]:
  "ss_sessions (SessionStore_persist st) = ss_sessions st"
  "ss_max_uses (SessionStore_persist st) = ss_max_uses st"
  "ss_max_age_hours (SessionStore_persist st) = ss_max_age_hours st"
  by (simp_all add: SessionStore_persist_def)

lemma expire_invalid_simps [simp]:
  "ss_sessions (SessionStore_expire_invalid now st) = filter (\<lambda>(sid, e). entry_live now st e) (ss_sessions st)"
  "ss_max_uses (SessionStore_expire_invalid now st) = ss_max_uses st"
  "ss_max_age_hours (SessionStore_expire_invalid now st) = ss_max_age_hours st"
  by (auto simp: SessionStore_expire_invalid_def SessionStore_expire_older_than_def
      SessionStore_expire_exhausted_def Let_def entry_live_def case_prod_unfold not_less not_le
      intro!: filter_cong)

lemma map_of_filter_val:
  "distinct (map fst xs) \<Longrightarrow>
   map_of (filter (\<lambda>(k, v). P v) xs) k = (case map_of xs k of None \<Rightarrow> None | Some v \<Rightarrow> if P v then Some v else None)"
  by (induction xs) (auto simp: map_of_eq_None_iff image_iff split: option.splits dest: map_of_SomeD)

lemma distinct_filter_keys: "distinct (map fst xs) \<Longrightarrow> distinct (map fst (filter P xs))"
  by (induction xs) auto

lemma store_ok_expire: "store_ok st \<Longrightarrow> store_ok (SessionStore_expire_invalid now st)"
  by (simp add: store_ok_def distinct_filter_keys)

lemma map_of_expire:
  "store_ok st \<Longrightarrow> map_of (ss_sessions (SessionStore_expire_invalid now st)) (bytes_hex sid) = live_entry now st sid"
  unfolding expire_invalid_simps live_entry_def store_ok_def by (simp add: map_of_filter_val)

text \<open>
  A counted use at time \<open>now\<close> succeeds exactly on a live entry; it adds one to its use count and
  removes it when the limit is reached, and it touches no other entry.
\<close>

lemma mark_used_result:
  "store_ok st \<Longrightarrow> fst (SessionStore_mark_used now sid st) \<longleftrightarrow> live_entry now st sid \<noteq> None"
  using map_of_expire [of st now sid]
  by (auto simp: SessionStore_mark_used_def Let_def split: option.splits)

lemma store_ok_mark_used: "store_ok st \<Longrightarrow> store_ok (snd (SessionStore_mark_used now sid st))"
  using store_ok_expire [of st now]
  by (auto simp: SessionStore_mark_used_def Let_def store_ok_def distinct_update distinct_delete
      split: option.splits)

lemma mark_used_params [simp]:
  "ss_max_uses (snd (SessionStore_mark_used now sid st)) = ss_max_uses st"
  "ss_max_age_hours (snd (SessionStore_mark_used now sid st)) = ss_max_age_hours st"
  by (simp_all add: SessionStore_mark_used_def Let_def split: option.splits)

lemma mark_used_entry:
  assumes "store_ok st"
  shows "map_of (ss_sessions (snd (SessionStore_mark_used now sid st))) (bytes_hex sid) =
     (case live_entry now st sid of None \<Rightarrow> None
      | Some e \<Rightarrow> if ss_max_uses st \<le> se_usage_count e + 1 then None
                  else Some (e\<lparr> se_usage_count := se_usage_count e + 1 \<rparr>))"
  using map_of_expire [OF assms, of now sid]
  by (auto simp: SessionStore_mark_used_def Let_def update_conv' delete_conv' split: option.splits)

lemma mark_used_other:
  assumes "store_ok st" and "sid' \<noteq> sid"
  shows "map_of (ss_sessions (snd (SessionStore_mark_used now sid st))) (bytes_hex sid') = live_entry now st sid'"
  using map_of_expire [OF assms(1), of now sid'] assms(2)
  by (auto simp: SessionStore_mark_used_def Let_def update_conv' delete_conv' split: option.splits)

lemma load_result:
  assumes "store_ok st"
  shows "fst (SessionStore_load now now' False sid st) = map_option se_session_key (live_entry now st sid)"
  using map_of_expire [OF assms, of now sid]
  by (simp add: SessionStore_load_def Let_def split: option.splits)

lemma load_counted:
  assumes "store_ok st"
  shows "SessionStore_load now now' True sid st =
    (case live_entry now st sid of
       None \<Rightarrow> (None, SessionStore_expire_invalid now st)
     | Some e \<Rightarrow> (if fst (SessionStore_mark_used now' sid (SessionStore_expire_invalid now st))
                  then Some (se_session_key e) else None,
                  snd (SessionStore_mark_used now' sid (SessionStore_expire_invalid now st))))"
  using map_of_expire [OF assms, of now sid]
  by (simp add: SessionStore_load_def Let_def case_prod_unfold split: option.splits)

subsection \<open>Use budget\<close>

text \<open>A caller that loads one session repeatedly; the result is the number of times it got the key.\<close>

fun counted_loads :: "(seconds \<times> seconds) list \<Rightarrow> bytes \<Rightarrow> session_store \<Rightarrow> nat" where
  "counted_loads [] sid st = 0"
| "counted_loads ((now, now') # ts) sid st =
     (case SessionStore_load now now' True sid st of
        (None, st') \<Rightarrow> counted_loads ts sid st'
      | (Some k, st') \<Rightarrow> Suc (counted_loads ts sid st'))"

definition use_budget :: "session_store \<Rightarrow> bytes \<Rightarrow> nat" where
  "use_budget st sid =
     (case map_of (ss_sessions st) (bytes_hex sid) of
        None \<Rightarrow> 0 | Some e \<Rightarrow> nat (ss_max_uses st - se_usage_count e))"

lemma store_ok_load: "store_ok st \<Longrightarrow> store_ok (snd (SessionStore_load now now' inc sid st))"
  using store_ok_expire [of st now] store_ok_mark_used [of "SessionStore_expire_invalid now st" now' sid]
  by (auto simp: SessionStore_load_def Let_def case_prod_unfold split: option.splits)

lemma load_params [simp]:
  "ss_max_uses (snd (SessionStore_load now now' inc sid st)) = ss_max_uses st"
  "ss_max_age_hours (snd (SessionStore_load now now' inc sid st)) = ss_max_age_hours st"
  by (simp_all add: SessionStore_load_def Let_def case_prod_unfold split: option.splits)

text \<open>What one counted load does to the entry it asks for.\<close>

lemma load_counted_entry:
  assumes "store_ok st"
  shows "(case live_entry now st sid of
     None \<Rightarrow> fst (SessionStore_load now now' True sid st) = None
         \<and> map_of (ss_sessions (snd (SessionStore_load now now' True sid st))) (bytes_hex sid) = None
   | Some e \<Rightarrow> map_of (ss_sessions st) (bytes_hex sid) = Some e \<and> se_usage_count e < ss_max_uses st \<and>
       (if entry_live now' st e
        then fst (SessionStore_load now now' True sid st) = Some (se_session_key e)
          \<and> map_of (ss_sessions (snd (SessionStore_load now now' True sid st))) (bytes_hex sid) =
             (if ss_max_uses st \<le> se_usage_count e + 1 then None
              else Some (e\<lparr> se_usage_count := se_usage_count e + 1 \<rparr>))
        else fst (SessionStore_load now now' True sid st) = None
          \<and> map_of (ss_sessions (snd (SessionStore_load now now' True sid st))) (bytes_hex sid) = None))"
proof (cases "live_entry now st sid")
  case None
  then show ?thesis
    using load_counted [OF assms, of now now' sid] map_of_expire [OF assms, of now sid] by simp
next
  case (Some e)
  let ?s = "SessionStore_expire_invalid now st"
  have ok: "store_ok ?s" using store_ok_expire [OF assms] .
  have "live_entry now' ?s sid = (if entry_live now' st e then Some e else None)"
    using map_of_expire [OF assms, of now sid] Some by (simp add: live_entry_def [of now'] entry_live_def)
  then show ?thesis
    using Some load_counted [OF assms, of now now' sid] mark_used_result [OF ok, of now' sid]
      mark_used_entry [OF ok, of now' sid]
    by (auto simp: live_entry_def [of now] entry_live_def [of now] split: option.splits if_splits)
qed

lemma load_spends_budget:
  assumes "store_ok st"
  shows "(if fst (SessionStore_load now now' True sid st) = None then 0 else 1)
     + use_budget (snd (SessionStore_load now now' True sid st)) sid \<le> use_budget st sid"
  using load_counted_entry [OF assms, where now = now and now' = now' and sid = sid]
  by (auto simp: use_budget_def split: option.splits if_splits)

lemma counted_loads_budget: "store_ok st \<Longrightarrow> counted_loads ts sid st \<le> use_budget st sid"
proof (induction ts sid st rule: counted_loads.induct)
  case (1 sid st)
  then show ?case by simp
next
  case (2 now now' ts sid st)
  obtain r st' where l: "SessionStore_load now now' True sid st = (r, st')" by fastforce
  have "store_ok st'" using store_ok_load [OF "2.prems", of now now' True sid] l by simp
  then have "counted_loads ts sid st' \<le> use_budget st' sid"
    using "2.IH" l by (cases r) (auto simp: l)
  then show ?case
    using load_spends_budget [OF "2.prems", of now now' sid] l by (cases r) auto
qed

lemma load_in_window:
  assumes "store_ok st" and "map_of (ss_sessions st) (bytes_hex sid) = Some e"
    and "now - ss_max_age_hours st * 3600 \<le> se_created_at e" "now' - ss_max_age_hours st * 3600 \<le> se_created_at e"
    and "se_usage_count e < ss_max_uses st"
  shows "fst (SessionStore_load now now' True sid st) = Some (se_session_key e)"
    and "map_of (ss_sessions (snd (SessionStore_load now now' True sid st))) (bytes_hex sid) =
             (if ss_max_uses st \<le> se_usage_count e + 1 then None
              else Some (e\<lparr> se_usage_count := se_usage_count e + 1 \<rparr>))"
proof -
  have "live_entry now st sid = Some e" "entry_live now' st e"
    using assms by (simp_all add: live_entry_def entry_live_def)
  then show "fst (SessionStore_load now now' True sid st) = Some (se_session_key e)"
    and "map_of (ss_sessions (snd (SessionStore_load now now' True sid st))) (bytes_hex sid) =
             (if ss_max_uses st \<le> se_usage_count e + 1 then None
              else Some (e\<lparr> se_usage_count := se_usage_count e + 1 \<rparr>))"
    using load_counted_entry [OF assms(1), where now = now and now' = now' and sid = sid] by simp_all
qed

lemma counted_loads_in_window:
  assumes "store_ok st" and "map_of (ss_sessions st) (bytes_hex sid) = Some e"
    and "se_usage_count e < ss_max_uses st"
    and "\<forall>(now, now') \<in> set ts. now - ss_max_age_hours st * 3600 \<le> se_created_at e
           \<and> now' - ss_max_age_hours st * 3600 \<le> se_created_at e"
  shows "counted_loads ts sid st = min (length ts) (nat (ss_max_uses st - se_usage_count e))"
  using assms
proof (induction ts arbitrary: st e)
  case Nil
  then show ?case by simp
next
  case (Cons t ts)
  obtain now now' where t: "t = (now, now')" by (cases t)
  obtain r st' where l: "SessionStore_load now now' True sid st = (r, st')" by fastforce
  note w = load_in_window [OF Cons.prems(1,2), of now now', unfolded l fst_conv snd_conv]
  have r: "r = Some (se_session_key e)" and ent: "map_of (ss_sessions st') (bytes_hex sid) =
      (if ss_max_uses st \<le> se_usage_count e + 1 then None
       else Some (e\<lparr> se_usage_count := se_usage_count e + 1 \<rparr>))"
    using w Cons.prems t by auto
  have ok: "store_ok st'" and par: "ss_max_uses st' = ss_max_uses st" "ss_max_age_hours st' = ss_max_age_hours st"
    using store_ok_load [OF Cons.prems(1), of now now' True sid] load_params [of now now' True sid st] l
    by simp_all
  show ?case
  proof (cases "ss_max_uses st \<le> se_usage_count e + 1")
    case True
    then have "use_budget st' sid = 0" using ent by (simp add: use_budget_def)
    then have "counted_loads ts sid st' = 0" using counted_loads_budget [OF ok, of ts sid] by simp
    moreover have "nat (ss_max_uses st - se_usage_count e) = 1" using True Cons.prems(3) by simp
    ultimately show ?thesis using t l r by simp
  next
    case False
    have "counted_loads ts sid st' =
        min (length ts) (nat (ss_max_uses st' - se_usage_count (e\<lparr> se_usage_count := se_usage_count e + 1 \<rparr>)))"
      using False ent ok par Cons.prems(4) by (intro Cons.IH) auto
    then show ?thesis using t l r par False by simp
  qed
qed

subsection \<open>Saving and restarting\<close>

lemma store_ok_save: "store_ok st \<Longrightarrow> store_ok (snd (SessionStore_save now sid k st))"
  by (simp add: SessionStore_save_def store_ok_def distinct_update)

lemma save_entry:
  "length sid = 16 \<Longrightarrow> map_of (ss_sessions (snd (SessionStore_save now sid k st))) (bytes_hex sid) =
     Some \<lparr> se_session_key = k, se_created_at = now, se_usage_count = 0 \<rparr>"
  by (simp add: SessionStore_save_def update_conv')

lemma save_params [simp]:
  "ss_max_uses (snd (SessionStore_save now sid k st)) = ss_max_uses st"
  "ss_max_age_hours (snd (SessionStore_save now sid k st)) = ss_max_age_hours st"
  by (simp_all add: SessionStore_save_def)

lemma AList_update_new: "k \<notin> fst ` set al \<Longrightarrow> AList.update k v al = al @ [(k, v)]"
  by (induction al) auto

lemma load_entries_dump:
  "distinct (map fst (acc @ xs)) \<Longrightarrow>
   load_entries now cutoff mu (map (\<lambda>(sid, e). (sid, SessionEntry_to_dict e)) xs) acc =
     Inr (acc @ filter (\<lambda>(sid, e). cutoff \<le> se_created_at e \<and> se_usage_count e < mu) xs)"
proof (induction xs arbitrary: acc)
  case Nil
  then show ?case by simp
next
  case (Cons x xs)
  obtain sid e where x: "x = (sid, e)" by (cases x)
  show ?case
    using Cons.IH [of "acc @ [(sid, e)]"] Cons.IH [of acc] Cons.prems x
    by (auto simp: AList_update_new)
qed

lemma init_from_persisted:
  assumes "store_ok st" and "0 < mu"
  shows "SessionStore_init now (ss_disk (SessionStore_persist st)) age mu =
    Inr \<lparr> ss_max_age_hours = age, ss_max_uses = mu,
          ss_sessions = filter (\<lambda>(sid, e). now - age * 3600 \<le> se_created_at e \<and> se_usage_count e < mu) (ss_sessions st),
          ss_disk = ss_disk (SessionStore_persist st) \<rparr>"
  using assms load_entries_dump [of "[]" "ss_sessions st" now "now - age * 3600" mu]
  by (simp add: SessionStore_init_def SessionStore_load_from_disk_def SessionStore_persist_def store_ok_def)

subsection \<open>Sequences of calls\<close>

text \<open>
  The public methods with the clock readings they make, and a restart: a new object with the same use
  limit on the same file.
\<close>

datatype store_op =
    OpLoad seconds seconds bool bytes
  | OpMarkUsed seconds bytes
  | OpSave seconds bytes bytes
  | OpDelete bytes
  | OpHas seconds bytes
  | OpListIds seconds
  | OpCount seconds
  | OpExpireOlder seconds "seconds option"
  | OpExpireExhausted
  | OpRestart seconds seconds

fun store_step :: "store_op \<Rightarrow> session_store \<Rightarrow> session_store" where
  "store_step (OpLoad now now' inc sid) st = snd (SessionStore_load now now' inc sid st)"
| "store_step (OpMarkUsed now sid) st = snd (SessionStore_mark_used now sid st)"
| "store_step (OpSave now sid k) st = snd (SessionStore_save now sid k st)"
| "store_step (OpDelete sid) st = SessionStore_delete sid st"
| "store_step (OpHas now sid) st = snd (SessionStore_has now sid st)"
| "store_step (OpListIds now) st = snd (SessionStore_list_ids now st)"
| "store_step (OpCount now) st = snd (SessionStore_count now st)"
| "store_step (OpExpireOlder now h) st = snd (SessionStore_expire_older_than now h st)"
| "store_step OpExpireExhausted st = snd (SessionStore_expire_exhausted st)"
| "store_step (OpRestart now age) st =
     (case SessionStore_init now (ss_disk st) age (ss_max_uses st) of Inl e \<Rightarrow> st | Inr st' \<Rightarrow> st')"

definition run_store :: "store_op list \<Rightarrow> session_store \<Rightarrow> session_store" where
  "run_store ops st = fold store_step ops st"

text \<open>A use of session \<open>sid\<close>: a counted load that returns the key, or a successful \<open>mark_used\<close>.\<close>

fun uses_session :: "bytes \<Rightarrow> store_op \<Rightarrow> session_store \<Rightarrow> bool" where
  "uses_session sid (OpLoad now now' True s) st \<longleftrightarrow> s = sid \<and> fst (SessionStore_load now now' True s st) \<noteq> None"
| "uses_session sid (OpMarkUsed now s) st \<longleftrightarrow> s = sid \<and> fst (SessionStore_mark_used now s st)"
| "uses_session sid _ st \<longleftrightarrow> False"

fun session_uses :: "bytes \<Rightarrow> store_op list \<Rightarrow> session_store \<Rightarrow> nat" where
  "session_uses sid [] st = 0"
| "session_uses sid (x # xs) st = (if uses_session sid x st then 1 else 0) + session_uses sid xs (store_step x st)"

fun saves_session :: "bytes \<Rightarrow> store_op \<Rightarrow> bool" where
  "saves_session sid (OpSave now s k) \<longleftrightarrow> s = sid"
| "saves_session sid _ \<longleftrightarrow> False"

definition budget_in :: "(string \<times> session_entry) list \<Rightarrow> int \<Rightarrow> bytes \<Rightarrow> nat" where
  "budget_in es m sid = (case map_of es (bytes_hex sid) of None \<Rightarrow> 0 | Some e \<Rightarrow> nat (m - se_usage_count e))"

text \<open>The file holds entries that allow at least the uses the object still allows.\<close>

definition disk_holds :: "session_store \<Rightarrow> (string \<times> session_entry) list \<Rightarrow> bool" where
  "disk_holds st es \<longleftrightarrow> ss_disk st = JsonFile (map (\<lambda>(sid, e). (sid, SessionEntry_to_dict e)) es) \<and> distinct (map fst es)"

definition store_budget :: "session_store \<Rightarrow> bytes \<Rightarrow> nat \<Rightarrow> bool" where
  "store_budget st sid n \<longleftrightarrow> store_ok st \<and> use_budget st sid \<le> n
     \<and> (\<exists>es. disk_holds st es \<and> budget_in es (ss_max_uses st) sid \<le> n)"

definition saved_or_same :: "session_store \<Rightarrow> session_store \<Rightarrow> bool" where
  "saved_or_same st st' \<longleftrightarrow> ss_max_uses st' = ss_max_uses st
     \<and> (ss_disk st' = ss_disk (SessionStore_persist st') \<or> ss_disk st' = ss_disk st \<and> ss_sessions st' = ss_sessions st)"

lemma use_budget_in: "use_budget st sid = budget_in (ss_sessions st) (ss_max_uses st) sid"
  by (simp add: use_budget_def budget_in_def)

lemma persist_disk: "disk_holds st (ss_sessions st)" if "ss_disk st = ss_disk (SessionStore_persist st)" "store_ok st"
  using that by (simp add: disk_holds_def SessionStore_persist_def store_ok_def)

lemma saved_or_same_persist [simp]:
  "ss_max_uses st' = ss_max_uses st \<Longrightarrow> saved_or_same st (SessionStore_persist st')"
  by (simp add: saved_or_same_def SessionStore_persist_def)

lemma saved_or_same_trans: "saved_or_same a b \<Longrightarrow> saved_or_same b c \<Longrightarrow> saved_or_same a c"
  by (auto simp: saved_or_same_def SessionStore_persist_def)

lemma budget_step:
  assumes "store_budget st sid n" and "saved_or_same st st'" and "store_ok st'" and "u + use_budget st' sid \<le> use_budget st sid"
  shows "u \<le> n \<and> store_budget st' sid (n - u)"
proof -
  have n: "u + use_budget st' sid \<le> n" using assms(1,4) by (simp add: store_budget_def)
  show ?thesis
  proof (cases "ss_disk st' = ss_disk (SessionStore_persist st')")
    case True
    then show ?thesis
      using n persist_disk [OF True assms(3)] assms(3) by (auto simp: store_budget_def use_budget_in)
  next
    case False
    then have "ss_disk st' = ss_disk st" "ss_sessions st' = ss_sessions st" "ss_max_uses st' = ss_max_uses st"
      using assms(2) by (auto simp: saved_or_same_def)
    then show ?thesis
      using n assms(1,3,4) by (auto simp: store_budget_def use_budget_in disk_holds_def)
  qed
qed

subsubsection \<open>Each call\<close>

lemma budget_filter: "distinct (map fst es) \<Longrightarrow> budget_in (filter (\<lambda>(k, v). P v) es) m sid \<le> budget_in es m sid"
  by (simp add: budget_in_def map_of_filter_val split: option.split)

lemma older_keeps:
  "saved_or_same st (snd (SessionStore_expire_older_than now h st))"
  "store_ok st \<Longrightarrow> store_ok (snd (SessionStore_expire_older_than now h st))"
  "store_ok st \<Longrightarrow> use_budget (snd (SessionStore_expire_older_than now h st)) sid \<le> use_budget st sid"
proof -
  show "saved_or_same st (snd (SessionStore_expire_older_than now h st))"
    by (auto simp: SessionStore_expire_older_than_def Let_def saved_or_same_def filter_empty_conv case_prod_unfold
        SessionStore_persist_def intro!: filter_True split: option.splits)
  have "\<exists>c. ss_sessions (snd (SessionStore_expire_older_than now h st)) = filter (\<lambda>(sid, e). \<not> se_created_at e < c) (ss_sessions st)"
    unfolding SessionStore_expire_older_than_def Let_def snd_conv
    by (intro exI [of _ "now - (case h of None \<Rightarrow> ss_max_age_hours st | Some h \<Rightarrow> if h = 0 then ss_max_age_hours st else h) * 3600"]) simp
  moreover have "ss_max_uses (snd (SessionStore_expire_older_than now h st)) = ss_max_uses st"
    by (simp add: SessionStore_expire_older_than_def Let_def)
  ultimately obtain c where "ss_sessions (snd (SessionStore_expire_older_than now h st)) = filter (\<lambda>(sid, e). \<not> se_created_at e < c) (ss_sessions st)"
      "ss_max_uses (snd (SessionStore_expire_older_than now h st)) = ss_max_uses st" by blast
  then show "store_ok st \<Longrightarrow> store_ok (snd (SessionStore_expire_older_than now h st))"
    "store_ok st \<Longrightarrow> use_budget (snd (SessionStore_expire_older_than now h st)) sid \<le> use_budget st sid"
    by (simp_all add: store_ok_def distinct_filter_keys use_budget_in budget_filter)
qed

lemma exhausted_keeps:
  "saved_or_same st (snd (SessionStore_expire_exhausted st))"
  "store_ok st \<Longrightarrow> store_ok (snd (SessionStore_expire_exhausted st))"
  "store_ok st \<Longrightarrow> use_budget (snd (SessionStore_expire_exhausted st)) sid \<le> use_budget st sid"
proof -
  show "saved_or_same st (snd (SessionStore_expire_exhausted st))"
    by (auto simp: SessionStore_expire_exhausted_def Let_def saved_or_same_def filter_empty_conv case_prod_unfold
        SessionStore_persist_def intro!: filter_True split: option.splits)
  have "ss_sessions (snd (SessionStore_expire_exhausted st)) = filter (\<lambda>(sid, e). \<not> ss_max_uses st \<le> se_usage_count e) (ss_sessions st)"
      "ss_max_uses (snd (SessionStore_expire_exhausted st)) = ss_max_uses st"
    by (simp_all add: SessionStore_expire_exhausted_def Let_def)
  then show "store_ok st \<Longrightarrow> store_ok (snd (SessionStore_expire_exhausted st))"
    "store_ok st \<Longrightarrow> use_budget (snd (SessionStore_expire_exhausted st)) sid \<le> use_budget st sid"
    by (simp_all add: store_ok_def distinct_filter_keys use_budget_in budget_filter)
qed

lemma invalid_keeps:
  "saved_or_same st (SessionStore_expire_invalid now st)"
  "store_ok st \<Longrightarrow> use_budget (SessionStore_expire_invalid now st) sid \<le> use_budget st sid"
  unfolding SessionStore_expire_invalid_def
  using saved_or_same_trans [OF older_keeps(1) exhausted_keeps(1)]
    exhausted_keeps(3) [OF older_keeps(2)] older_keeps(3) le_trans by blast+

lemma mark_used_keeps:
  assumes "store_ok st"
  shows "saved_or_same st (snd (SessionStore_mark_used now s st))"
    and "(if s = sid \<and> fst (SessionStore_mark_used now s st) then 1 else 0) + use_budget (snd (SessionStore_mark_used now s st)) sid
      \<le> use_budget st sid"
proof -
  let ?e = "SessionStore_expire_invalid now st"
  show "saved_or_same st (snd (SessionStore_mark_used now s st))"
  proof (cases "map_of (ss_sessions ?e) (bytes_hex s)")
    case None
    then show ?thesis using invalid_keeps(1) [of st now] by (simp add: SessionStore_mark_used_def Let_def)
  next
    case (Some e)
    then show ?thesis by (simp add: SessionStore_mark_used_def Let_def)
  qed
  show "(if s = sid \<and> fst (SessionStore_mark_used now s st) then 1 else 0) + use_budget (snd (SessionStore_mark_used now s st)) sid
      \<le> use_budget st sid"
  proof (cases "s = sid")
    case True
    then show ?thesis
      using mark_used_entry [OF assms, of now sid] mark_used_result [OF assms, of now sid]
      by (auto simp: use_budget_def live_entry_def entry_live_def split: option.splits if_splits)
  next
    case False
    then show ?thesis
      using mark_used_other [OF assms, of sid s now] by (auto simp: use_budget_def live_entry_def split: option.splits)
  qed
qed

lemma load_keeps:
  assumes "store_ok st"
  shows "saved_or_same st (snd (SessionStore_load now now' inc s st))"
    and "(if s = sid \<and> inc \<and> fst (SessionStore_load now now' inc s st) \<noteq> None then 1 else 0)
      + use_budget (snd (SessionStore_load now now' inc s st)) sid \<le> use_budget st sid"
proof -
  let ?e = "SessionStore_expire_invalid now st"
  have e: "saved_or_same st ?e" "use_budget ?e sid \<le> use_budget st sid" "store_ok ?e"
    using invalid_keeps assms store_ok_expire by simp_all
  note m = mark_used_keeps(1) [OF e(3), of now' s] mark_used_keeps(2) [OF e(3), of s sid now']
  show "saved_or_same st (snd (SessionStore_load now now' inc s st))"
    using e(1) saved_or_same_trans [OF e(1) m(1)]
    by (simp add: SessionStore_load_def Let_def case_prod_unfold split: option.split)
  show "(if s = sid \<and> inc \<and> fst (SessionStore_load now now' inc s st) \<noteq> None then 1 else 0)
      + use_budget (snd (SessionStore_load now now' inc s st)) sid \<le> use_budget st sid"
    using e(2) m(2) by (auto simp: SessionStore_load_def Let_def case_prod_unfold split: option.split if_splits)
qed

lemma restart_budget:
  assumes "store_budget st sid n"
  shows "store_budget (store_step (OpRestart now age) st) sid n"
proof -
  obtain es where es: "disk_holds st es" "budget_in es (ss_max_uses st) sid \<le> n" "store_ok st"
    using assms by (auto simp: store_budget_def)
  let ?s = "st\<lparr> ss_sessions := es \<rparr>"
  have ok: "store_ok ?s" and disk: "ss_disk st = ss_disk (SessionStore_persist ?s)"
    using es by (simp_all add: disk_holds_def store_ok_def SessionStore_persist_def)
  let ?l = "filter (\<lambda>(sid, e). now - age * 3600 \<le> se_created_at e \<and> se_usage_count e < ss_max_uses st) es"
  have "store_step (OpRestart now age) st = \<lparr> ss_max_age_hours = age, ss_max_uses = ss_max_uses st, ss_sessions = ?l, ss_disk = ss_disk st \<rparr>"
    using init_from_persisted [OF ok, of "ss_max_uses st" now age] es(3) disk by (simp add: store_ok_def)
  moreover have "budget_in ?l (ss_max_uses st) sid \<le> n"
    using budget_filter [of es] es by (fastforce simp: disk_holds_def intro: le_trans)
  ultimately show ?thesis
    using es by (auto simp: store_budget_def use_budget_in store_ok_def disk_holds_def distinct_filter_keys)
qed

lemma step_budget:
  assumes "store_budget st sid n" and "\<not> saves_session sid x"
  shows "(if uses_session sid x st then 1 else 0) \<le> n
    \<and> store_budget (store_step x st) sid (n - (if uses_session sid x st then 1 else 0))"
proof -
  have ok: "store_ok st" using assms(1) by (simp add: store_budget_def)
  have still: ?thesis if "\<not> uses_session sid x st" "saved_or_same st (store_step x st)" "store_ok (store_step x st)"
      "use_budget (store_step x st) sid \<le> use_budget st sid"
    using budget_step [OF assms(1) that(2,3), of 0] that(1,4) by simp
  show ?thesis
  proof (cases x)
    case (OpLoad now now' inc s)
    have u: "uses_session sid x st \<longleftrightarrow> s = sid \<and> inc \<and> fst (SessionStore_load now now' inc s st) \<noteq> None"
      using OpLoad by (cases inc) auto
    show ?thesis
      using budget_step [OF assms(1) load_keeps(1) [OF ok, of now now' inc s] store_ok_load [OF ok, of now now' inc s]
          load_keeps(2) [OF ok, of s sid inc now now']] u OpLoad
      by simp
  next
    case (OpMarkUsed now s)
    show ?thesis
      using budget_step [OF assms(1) mark_used_keeps(1) [OF ok, of now s] store_ok_mark_used [OF ok, of now s]
          mark_used_keeps(2) [OF ok, of s sid now]] OpMarkUsed
      by simp
  next
    case (OpSave now s k)
    have "saved_or_same st (store_step x st)"
      using OpSave by (simp add: SessionStore_save_def) (simp add: saved_or_same_def)
    moreover have "use_budget (store_step x st) sid = use_budget st sid"
      using OpSave assms(2) by (cases "length s = 16") (simp_all add: SessionStore_save_def use_budget_in budget_in_def update_conv')
    ultimately show ?thesis using OpSave assms(2) store_ok_save [OF ok, of now s k] by (intro still) simp_all
  next
    case (OpDelete s)
    then show ?thesis using ok
      by (intro still) (auto simp: SessionStore_delete_def saved_or_same_def SessionStore_persist_def store_ok_def distinct_delete
          use_budget_def delete_conv' split: option.split)
  next
    case (OpHas now s)
    then show ?thesis using invalid_keeps ok store_ok_expire by (intro still) (simp_all add: SessionStore_has_def Let_def)
  next
    case (OpListIds now)
    then show ?thesis using invalid_keeps ok store_ok_expire by (intro still) (simp_all add: SessionStore_list_ids_def Let_def)
  next
    case (OpCount now)
    then show ?thesis using invalid_keeps ok store_ok_expire by (intro still) (simp_all add: SessionStore_count_def Let_def)
  next
    case (OpExpireOlder now h)
    then show ?thesis using older_keeps ok by (intro still) simp_all
  next
    case OpExpireExhausted
    then show ?thesis using exhausted_keeps ok by (intro still) simp_all
  next
    case (OpRestart now age)
    then show ?thesis using restart_budget [OF assms(1)] by simp
  qed
qed

lemma run_budget:
  assumes "store_budget st sid n" and "list_all (\<lambda>x. \<not> saves_session sid x) xs"
  shows "session_uses sid xs st \<le> n \<and> store_budget (run_store xs st) sid (n - session_uses sid xs st)"
  using assms
proof (induction xs arbitrary: st n)
  case Nil
  then show ?case by (simp add: run_store_def)
next
  case (Cons x xs)
  let ?u = "if uses_session sid x st then 1 else 0 :: nat"
  have s: "?u \<le> n" "store_budget (store_step x st) sid (n - ?u)"
    using step_budget [OF Cons.prems(1), of x] Cons.prems(2) by simp_all
  have "session_uses sid xs (store_step x st) \<le> n - ?u
      \<and> store_budget (run_store xs (store_step x st)) sid (n - ?u - session_uses sid xs (store_step x st))"
    using Cons.IH [OF s(2)] Cons.prems(2) by simp
  then show ?case using s(1) by (cases "uses_session sid x st") (simp_all add: run_store_def, linarith)
qed

lemma no_budget_no_load:
  assumes "store_ok st" and "use_budget st sid = 0"
  shows "fst (SessionStore_load now now' inc sid st) = None"
proof -
  have "live_entry now st sid = None"
    using assms(2) by (auto simp: use_budget_def live_entry_def entry_live_def split: option.splits)
  then show ?thesis using map_of_expire [OF assms(1), of now sid] by (simp add: SessionStore_load_def Let_def)
qed

section \<open>Properties\<close>

text \<open>
  C35. A saved session can be used \<open>max_uses\<close> times and never more. Whatever calls follow the save, on
  this session and on others, at whatever clock readings and with restarts on the same file in between,
  as long as the session is not saved again: the number of its uses (counted loads that return the key,
  and \<open>mark_used\<close> calls that return \<open>True\<close>) is at most \<open>max_uses\<close>, and once it has been used that often
  every later load returns \<open>None\<close>, counted or not. A load with \<open>increment_usage=False\<close> is not a use: those
  are unlimited until then. And as long as the entry is not older than the age limit, every one of the
  first \<open>max_uses\<close> counted loads returns the key.
\<close>

theorem session_store_use_limit:
  assumes "store_ok st" and "length sid = SESSION_ID_SIZE"
    and "st' = snd (SessionStore_save t sid key st)"
    and "list_all (\<lambda>x. \<not> saves_session sid x) calls"
  shows "session_uses sid calls st' \<le> nat (ss_max_uses st)
    \<and> (session_uses sid calls st' = nat (ss_max_uses st) \<longrightarrow>
         fst (SessionStore_load clock clock' increment_usage sid (run_store calls st')) = None)
    \<and> ((\<forall>(now, now') \<in> set ts. now \<le> t + ss_max_age_hours st * 3600 \<and> now' \<le> t + ss_max_age_hours st * 3600) \<longrightarrow>
         counted_loads ts sid st' = min (length ts) (nat (ss_max_uses st)))"
proof (intro conjI impI)
  have ok: "store_ok st'" and par: "ss_max_uses st' = ss_max_uses st" "ss_max_age_hours st' = ss_max_age_hours st"
    and ent: "map_of (ss_sessions st') (bytes_hex sid) =
      Some \<lparr> se_session_key = key, se_created_at = t, se_usage_count = 0 \<rparr>"
    using assms(1-3) store_ok_save save_entry by simp_all
  have saved: "ss_disk st' = ss_disk (SessionStore_persist st')"
    using assms(2,3) by (simp add: SessionStore_save_def) (simp add: SessionStore_persist_def)
  have "use_budget st' sid = nat (ss_max_uses st)" using par ent by (simp add: use_budget_def)
  then have "store_budget st' sid (nat (ss_max_uses st))"
    using ok persist_disk [OF saved ok] by (auto simp: store_budget_def use_budget_in)
  from run_budget [OF this assms(4)]
  have b: "session_uses sid calls st' \<le> nat (ss_max_uses st)"
    "store_budget (run_store calls st') sid (nat (ss_max_uses st) - session_uses sid calls st')" by simp_all
  then show "session_uses sid calls st' \<le> nat (ss_max_uses st)" by simp
  assume "session_uses sid calls st' = nat (ss_max_uses st)"
  then show "fst (SessionStore_load clock clock' increment_usage sid (run_store calls st')) = None"
    using b(2) by (intro no_budget_no_load) (simp_all add: store_budget_def)
next
  have ok: "store_ok st'" and par: "ss_max_uses st' = ss_max_uses st" "ss_max_age_hours st' = ss_max_age_hours st"
    and ent: "map_of (ss_sessions st') (bytes_hex sid) =
      Some \<lparr> se_session_key = key, se_created_at = t, se_usage_count = 0 \<rparr>"
    using assms store_ok_save save_entry by simp_all
  assume "\<forall>(now, now') \<in> set ts. now \<le> t + ss_max_age_hours st * 3600 \<and> now' \<le> t + ss_max_age_hours st * 3600"
  then show "counted_loads ts sid st' = min (length ts) (nat (ss_max_uses st))"
    using counted_loads_in_window [OF ok ent, of ts] par assms(1)
    by (fastforce simp: store_ok_def algebra_simps)
qed

definition demo_store :: session_store where
  "demo_store = \<lparr> ss_max_age_hours = 24, ss_max_uses = 2, ss_sessions = [], ss_disk = NoFile \<rparr>"

theorem session_store_use_limit_witness:
  "counted_loads (replicate 5 (10, 10)) (replicate 16 1)
       (snd (SessionStore_save 0 (replicate 16 1) [7] demo_store)) = 2
   \<and> session_uses (replicate 16 1)
       [OpLoad 10 10 True (replicate 16 1), OpRestart 20 24, OpLoad 30 30 False (replicate 16 1), OpMarkUsed 40 (replicate 16 1)]
       (snd (SessionStore_save 0 (replicate 16 1) [7] demo_store)) \<le> 2"
proof -
  have "store_ok demo_store" by (simp add: store_ok_def demo_store_def)
  then show ?thesis
    using session_store_use_limit [of demo_store "replicate 16 1" _ 0 "[7]"
        "[OpLoad 10 10 True (replicate 16 1), OpRestart 20 24, OpLoad 30 30 False (replicate 16 1), OpMarkUsed 40 (replicate 16 1)]"
        0 0 False "replicate 5 (10, 10)"]
    by (simp add: demo_store_def del: session_uses.simps)
qed

text \<open>
  Sessions survive a restart of the process: after \<open>save\<close>, a new store opened on the same file
  returns the saved key for as long as the entry has not expired, and none after that.
\<close>

theorem session_store_survives_restart:
  assumes "store_ok st" and "length sid = SESSION_ID_SIZE" and "0 < max_uses"
    and "st' = snd (SessionStore_save t sid key st)"
  shows "\<exists>st2. SessionStore_init now (ss_disk st') max_age max_uses = Inr st2
    \<and> fst (SessionStore_load now now' False sid st2) = (if now \<le> t + max_age * 3600 then Some key else None)"
proof -
  let ?st = "st\<lparr> ss_sessions := AList.update (bytes_hex sid)
          \<lparr> se_session_key = key, se_created_at = t, se_usage_count = 0 \<rparr> (ss_sessions st) \<rparr>"
  let ?P = "\<lambda>e. now - max_age * 3600 \<le> se_created_at e \<and> se_usage_count e < max_uses"
  have st': "st' = SessionStore_persist ?st" and ok: "store_ok ?st"
    using assms by (simp_all add: SessionStore_save_def store_ok_def distinct_update)
  let ?st2 = "\<lparr> ss_max_age_hours = max_age, ss_max_uses = max_uses,
          ss_sessions = filter (\<lambda>(sid, e). ?P e) (ss_sessions ?st), ss_disk = ss_disk st' \<rparr>"
  have init: "SessionStore_init now (ss_disk st') max_age max_uses = Inr ?st2"
    using init_from_persisted [OF ok assms(3)] st' by simp
  have ok2: "store_ok ?st2" using ok assms(3) by (simp add: store_ok_def distinct_filter_keys)
  have "live_entry now ?st2 sid = (if now \<le> t + max_age * 3600
      then Some \<lparr> se_session_key = key, se_created_at = t, se_usage_count = 0 \<rparr> else None)"
    using ok assms(3)
    by (auto simp: live_entry_def entry_live_def map_of_filter_val store_ok_def update_conv' algebra_simps)
  then show ?thesis using init load_result [OF ok2, of now now' sid] by auto
qed

theorem session_store_survives_restart_witness:
  "\<exists>st2. SessionStore_init 100 (ss_disk (snd (SessionStore_save 0 (replicate 16 1) [7] demo_store))) 24 100
     = Inr st2 \<and> fst (SessionStore_load 100 100 False (replicate 16 1) st2) = Some [7]"
proof -
  have ok: "store_ok demo_store" by (simp add: store_ok_def demo_store_def)
  show ?thesis
    using session_store_survives_restart [OF ok _ _ refl, of "replicate 16 1" 100 100 0 "[7]" 24 100] by simp
qed

text \<open>
  Expiry and revocation: a load returns a key only for an entry within its age and use limits at
  that moment, a deleted session is gone, and an operation on one session leaves the live entries
  of all others as they were.
\<close>

theorem session_store_load_sound:
  assumes "store_ok st"
  shows "(fst (SessionStore_load now now' inc sid st) = Some key \<longrightarrow>
      (\<exists>e. map_of (ss_sessions st) (bytes_hex sid) = Some e \<and> se_session_key e = key
        \<and> now \<le> se_created_at e + ss_max_age_hours st * 3600 \<and> se_usage_count e < ss_max_uses st))
    \<and> fst (SessionStore_load now now' inc sid (SessionStore_delete sid st)) = None
    \<and> (sid' \<noteq> sid \<longrightarrow> live_entry now (snd (SessionStore_mark_used now sid st)) sid' = live_entry now st sid')"
proof (intro conjI impI)
  have l: "fst (SessionStore_load now now' inc sid s) = Some k \<Longrightarrow> \<exists>e. live_entry now s sid = Some e \<and> se_session_key e = k"
    if "store_ok s" for s k
    using map_of_expire [OF that, of now sid]
    by (auto simp: SessionStore_load_def Let_def case_prod_unfold split: option.splits if_splits)
  show "\<exists>e. map_of (ss_sessions st) (bytes_hex sid) = Some e \<and> se_session_key e = key
        \<and> now \<le> se_created_at e + ss_max_age_hours st * 3600 \<and> se_usage_count e < ss_max_uses st"
    if "fst (SessionStore_load now now' inc sid st) = Some key"
    using l [OF assms that] by (fastforce simp: live_entry_def entry_live_def algebra_simps split: option.splits if_splits)
  have "store_ok (SessionStore_delete sid st)" "live_entry now (SessionStore_delete sid st) sid = None"
    using assms by (simp_all add: SessionStore_delete_def store_ok_def distinct_delete live_entry_def delete_conv')
  then show "fst (SessionStore_load now now' inc sid (SessionStore_delete sid st)) = None"
    using l [of "SessionStore_delete sid st"] by fastforce
  show "live_entry now (snd (SessionStore_mark_used now sid st)) sid' = live_entry now st sid'" if "sid' \<noteq> sid"
    using mark_used_other [OF assms that, of now]
    by (auto simp: live_entry_def entry_live_def split: option.splits if_splits)
qed

theorem session_store_load_sound_witness:
  "fst (SessionStore_load 0 0 True (replicate 16 1)
     (SessionStore_delete (replicate 16 1) (snd (SessionStore_save 0 (replicate 16 1) [7] demo_store)))) = None"
proof -
  have "store_ok (snd (SessionStore_save 0 (replicate 16 1) [7] demo_store))"
    by (rule store_ok_save) (simp add: store_ok_def demo_store_def)
  then show ?thesis using session_store_load_sound by blast
qed

end
