(* ===== verification/Resume_Store.thy ===== *)
theory Resume_Store
  imports Resumption Session_Store
begin

text \<open>
  \<open>src/common/resume_store.py\<close>: the Central's ticket files. The directory is a map from file names to
  contents; a file is unreadable (an I/O error, no valid JSON, or more than 8192 bytes), JSON that is
  not an object, or an object as a map from names to values. \<open>json.dump\<close> followed by \<open>json.loads\<close> is
  the identity on the objects written here. Peer identities are ASCII strings; an integer
  \<open>created_at\<close> is read as that number of seconds.
\<close>

section \<open>Files\<close>

datatype jval = JInt int | JFloat seconds | JNonFinite | JStr string | JOther

datatype ticket_file = UnreadableJson | JsonNotObject | JsonObject "(string \<times> jval) list"

record ticket_store =
  ts_files :: "string \<rightharpoonup> ticket_file"
  ts_last_reason :: reason

abbreviation (input) SCHEMA :: int where "SCHEMA \<equiv> 1"

definition TicketStore_init :: "(string \<rightharpoonup> ticket_file) \<Rightarrow> ticket_store" where
  "TicketStore_init files = \<lparr> ts_files = files, ts_last_reason = NO_TICKET \<rparr>"

definition TicketStore_path :: "int \<Rightarrow> string \<Rightarrow> string result" where
  "TicketStore_path profile peer =
     bindR (domain profile) (\<lambda>_.
     if peer = [] \<or> length peer > 1024 then Inl (ValueError ''invalid peer identity'')
     else bindR (one_byte profile) (\<lambda>p.
          Inr (bytes_hex (sha256 (p @ ascii peer)) @ ''.json'')))"

definition TicketStore_delete :: "int \<Rightarrow> string \<Rightarrow> (ticket_store, unit) meth" where
  "TicketStore_delete profile peer =
     bindM (liftR (TicketStore_path profile peer)) (\<lambda>path.
     setM (\<lambda>st. st\<lparr> ts_files := (ts_files st)(path := None) \<rparr>))"

definition jkey :: "string \<Rightarrow> (string \<times> jval) list \<Rightarrow> jval result" where
  "jkey k d = (case map_of d k of None \<Rightarrow> Inl KeyError | Some v \<Rightarrow> Inr v)"

definition fromhex_value :: "jval \<Rightarrow> bytes result" where
  "fromhex_value v = (case v of JStr s \<Rightarrow> bytes_fromhex s | _ \<Rightarrow> Inl (TypeError ''fromhex() argument must be str''))"

text \<open>\<open>math.isfinite\<close> and \<open>float\<close> of an integer that rounds to more than the largest double raise \<open>OverflowError\<close>.\<close>

definition ticket_age :: "jval \<Rightarrow> seconds result" where
  "ticket_age created = (case created of
       JInt n \<Rightarrow> if \<bar>n\<bar> \<ge> 2 ^ 1024 - 2 ^ 970 then Inl OverflowError else Inr (of_int n)
     | JFloat x \<Rightarrow> Inr x
     | _ \<Rightarrow> Inl (ValueError ''invalid ticket age/count''))"

definition ticket_count :: "jval \<Rightarrow> int result" where
  "ticket_count c =
     (case c of JInt n \<Rightarrow> if 0 \<le> n \<and> n \<le> 100 then Inr n else Inl (ValueError ''invalid ticket age/count'')
      | _ \<Rightarrow> Inl (ValueError ''invalid ticket age/count''))"

text \<open>The body of \<open>load\<close> up to the construction of the ticket.\<close>

definition parse_ticket :: "int \<Rightarrow> string \<Rightarrow> ticket_file \<Rightarrow> ticket result" where
  "parse_ticket profile peer f =
     (case f of
        UnreadableJson \<Rightarrow> Inl (ValueError ''oversized ticket'')
      | JsonNotObject \<Rightarrow> Inl (ValueError ''invalid ticket schema/identity'')
      | JsonObject d \<Rightarrow>
          if map_of d ''schema'' \<noteq> Some (JInt SCHEMA) \<or> map_of d ''profile'' \<noteq> Some (JInt profile)
             \<or> map_of d ''peer'' \<noteq> Some (JStr peer)
          then Inl (ValueError ''invalid ticket schema/identity'')
          else bindR (jkey ''created_at'' d) (\<lambda>created. bindR (jkey ''successful_resume_count'' d) (\<lambda>n.
               bindR (ticket_age created) (\<lambda>created. bindR (ticket_count n) (\<lambda>n.
               bindR (jkey ''resume_id'' d) (\<lambda>v. bindR (fromhex_value v) (\<lambda>b. bindR (sized b 16) (\<lambda>rid.
               bindR (jkey ''k_resume'' d) (\<lambda>v. bindR (fromhex_value v) (\<lambda>b. bindR (sized b 32) (\<lambda>kroot.
               Inr \<lparr> tk_profile = profile, tk_peer = peer, tk_rid = rid, tk_root = kroot, tk_created_at = created,
                     tk_successful_resumes = n, tk_replay = [], tk_valid = True \<rparr>)))))))))))"

text \<open>
  \<open>load\<close>: a missing file, a refused ticket (whose file is deleted) and every other error each give
  \<open>None\<close> and a reason. Deleting computes the path again, outside the handlers.
\<close>

definition TicketStore_load :: "int \<Rightarrow> string \<Rightarrow> seconds \<Rightarrow> (ticket_store, ticket option) meth" where
  "TicketStore_load profile peer now st =
     (let refused = (\<lambda>r. bindM (TicketStore_delete profile peer) (\<lambda>_. retM None) (st\<lparr> ts_last_reason := r \<rparr>));
          malformed = (Inr None, st\<lparr> ts_last_reason := MALFORMED \<rparr>)
      in case TicketStore_path profile peer of
           Inl (ResumeError r) \<Rightarrow> refused r
         | Inl e \<Rightarrow> malformed
         | Inr path \<Rightarrow>
             (case ts_files st path of
                None \<Rightarrow> (Inr None, st\<lparr> ts_last_reason := NO_TICKET \<rparr>)
              | Some f \<Rightarrow>
                  (case parse_ticket profile peer f of
                     Inl (ResumeError r) \<Rightarrow> refused r
                   | Inl e \<Rightarrow> malformed
                   | Inr t \<Rightarrow>
                       (case Ticket_check profile peer now t of
                          (Inl (ResumeError r), _) \<Rightarrow> refused r
                        | (Inl e, _) \<Rightarrow> malformed
                        | (Inr _, t') \<Rightarrow> (Inr (Some t'), st)))))"

definition ticket_json :: "ticket \<Rightarrow> (string \<times> jval) list" where
  "ticket_json t =
     [(''schema'', JInt SCHEMA), (''profile'', JInt (tk_profile t)), (''peer'', JStr (tk_peer t)),
      (''resume_id'', JStr (bytes_hex (tk_rid t))), (''k_resume'', JStr (bytes_hex (tk_root t))),
      (''created_at'', JFloat (tk_created_at t)), (''successful_resume_count'', JInt (tk_successful_resumes t))]"

subsection \<open>Saving\<close>

text \<open>
  \<open>save\<close> is a sequence of calls on the directory: \<open>mkdir\<close>, \<open>mkstemp\<close>, the write, \<open>fsync\<close>,
  \<open>os.replace\<close>, and the \<open>unlink\<close> of the \<open>finally\<close>; \<open>io\<close> says which of them raise. A directory is
  its files and the names of those whose contents are not yet on the medium: a power failure may leave
  anything in them. A temporary file that is empty or partly written is \<open>UnreadableJson\<close>, which is also
  what a write that fails leaves. \<open>os.replace\<close> takes effect whole or not at all and moves the file with
  the state of its contents. \<open>suff\<close> is the random part of the name \<open>mkstemp\<close> chooses.
\<close>

datatype save_step = MakeDir | MakeTemp | WriteTemp | SyncTemp | ReplaceFile | UnlinkTemp

record ticket_dir =
  dr_files :: "string \<rightharpoonup> ticket_file"
  dr_unsynced :: "string set"

definition make_temp :: "string \<Rightarrow> ticket_dir \<Rightarrow> ticket_dir" where
  "make_temp tmp d = d\<lparr> dr_files := (dr_files d)(tmp \<mapsto> UnreadableJson), dr_unsynced := insert tmp (dr_unsynced d) \<rparr>"

definition write_temp :: "string \<Rightarrow> ticket_file \<Rightarrow> ticket_dir \<Rightarrow> ticket_dir" where
  "write_temp tmp f d = d\<lparr> dr_files := (dr_files d)(tmp \<mapsto> f), dr_unsynced := insert tmp (dr_unsynced d) \<rparr>"

definition sync_temp :: "string \<Rightarrow> ticket_dir \<Rightarrow> ticket_dir" where
  "sync_temp tmp d = d\<lparr> dr_unsynced := dr_unsynced d - {tmp} \<rparr>"

definition replace_file :: "string \<Rightarrow> string \<Rightarrow> ticket_dir \<Rightarrow> ticket_dir" where
  "replace_file tmp path d = d\<lparr> dr_files := (dr_files d)(tmp := None, path := dr_files d tmp),
     dr_unsynced := (if tmp \<in> dr_unsynced d then insert path (dr_unsynced d) else dr_unsynced d - {path}) - {tmp} \<rparr>"

definition unlink_file :: "string \<Rightarrow> ticket_dir \<Rightarrow> ticket_dir" where
  "unlink_file name d = d\<lparr> dr_files := (dr_files d)(name := None), dr_unsynced := dr_unsynced d - {name} \<rparr>"

text \<open>A call that succeeds adds a state of the directory to the list of those passed through, the latest first.\<close>

definition os_call :: "(save_step \<Rightarrow> bool) \<Rightarrow> save_step \<Rightarrow> (ticket_dir \<Rightarrow> ticket_dir) \<Rightarrow> (ticket_dir list, unit) meth" where
  "os_call io k f h = (if io k then (Inl OSError, h) else (Inr (), f (hd h) # h))"

definition temp_name :: "string \<Rightarrow> string" where
  "temp_name suff = ''.ticket-'' @ suff"

definition replace_whole :: "(save_step \<Rightarrow> bool) \<Rightarrow> string \<Rightarrow> string \<Rightarrow> ticket_file \<Rightarrow> (ticket_dir list, unit) meth" where
  "replace_whole io tmp path f =
     seqM (os_call io MakeTemp (make_temp tmp))
     (finallyM
        (seqM (os_call io WriteTemp (write_temp tmp f))
         (seqM (os_call io SyncTemp (sync_temp tmp))
          (os_call io ReplaceFile (replace_file tmp path))))
        (os_call io UnlinkTemp (unlink_file tmp)))"

definition save_body :: "(save_step \<Rightarrow> bool) \<Rightarrow> string \<Rightarrow> ticket \<Rightarrow> (ticket_dir list, unit) meth" where
  "save_body io suff t =
     bindM (liftR (TicketStore_path (tk_profile t) (tk_peer t))) (\<lambda>path.
     seqM (os_call io MakeDir id)
     (bindM (liftR (sized (tk_rid t) 16)) (\<lambda>_.
      bindM (liftR (sized (tk_root t) 32)) (\<lambda>_.
      replace_whole io (temp_name suff) path (JsonObject (ticket_json t))))))"

text \<open>\<open>save\<close> works on the store and on the caller's ticket, which its check may clear.\<close>

definition ticket_dir_of :: "ticket_store \<Rightarrow> ticket_dir" where
  "ticket_dir_of st = \<lparr> dr_files = ts_files st, dr_unsynced = {} \<rparr>"

definition TicketStore_save ::
    "(save_step \<Rightarrow> bool) \<Rightarrow> string \<Rightarrow> seconds \<Rightarrow> (ticket_store \<times> ticket, unit) meth" where
  "TicketStore_save io suff now = (\<lambda>(st, t).
     if \<not> tk_valid t then
       (case TicketStore_delete (tk_profile t) (tk_peer t) st of (r, st') \<Rightarrow> (r, (st', t)))
     else
       (case Ticket_check (tk_profile t) (tk_peer t) now t of
          (Inl e, t') \<Rightarrow> (Inl e, (st, t'))
        | (Inr _, t') \<Rightarrow>
            (case save_body io suff t' [ticket_dir_of st] of
               (r, h) \<Rightarrow> (r, (st\<lparr> ts_files := dr_files (hd h) \<rparr>, t')))))"

section \<open>Lemmas\<close>

lemma Ticket_check_ok [simp]: "ticket_usable p peer now t \<Longrightarrow> Ticket_check p peer now t = (Inr (), t)"
  by simp

lemma ticket_count_Inr [simp]: "ticket_count v = Inr n \<longleftrightarrow> v = JInt n \<and> 0 \<le> n \<and> n \<le> 100"
  by (cases v) (auto simp: ticket_count_def)

lemma parse_ticket_json:
  assumes "ticket_sized t" and "0 \<le> tk_successful_resumes t" and "tk_successful_resumes t \<le> 100"
    and "tk_valid t"
  shows "parse_ticket (tk_profile t) (tk_peer t) (JsonObject (ticket_json t)) = Inr (t\<lparr> tk_replay := [] \<rparr>)"
  using assms by (simp add: parse_ticket_def ticket_json_def jkey_def fromhex_value_def ticket_sized_def ticket_age_def)

lemma parse_ticket_sound:
  assumes "parse_ticket p peer f = Inr t"
  shows "tk_profile t = p \<and> tk_peer t = peer \<and> ticket_sized t \<and> 0 \<le> tk_successful_resumes t
    \<and> tk_successful_resumes t \<le> 100 \<and> tk_valid t \<and> tk_replay t = []"
  using assms by (auto simp: parse_ticket_def ticket_sized_def split: ticket_file.splits if_splits)

text \<open>
  What a save may show of the directory at any moment, to a reader or after a power failure: the target
  is on the medium and is the old file or the whole new one, and no other file but the temporary one
  differs.
\<close>

definition old_or_new :: "(string \<rightharpoonup> ticket_file) \<Rightarrow> string \<Rightarrow> string \<Rightarrow> ticket_file \<Rightarrow> ticket_dir \<Rightarrow> bool" where
  "old_or_new files tmp path f d \<longleftrightarrow> path \<notin> dr_unsynced d \<and> dr_files d path \<in> {files path, Some f}
     \<and> (\<forall>n. n \<notin> {path, tmp} \<longrightarrow> dr_files d n = files n)"

lemma os_call_cases:
  obtains "io k" "os_call io k f h = (Inl OSError, h)" | "\<not> io k" "os_call io k f h = (Inr (), f (hd h) # h)"
  by (cases "io k") (auto simp: os_call_def)

lemmas dir_ops = make_temp_def write_temp_def sync_temp_def replace_file_def unlink_file_def

lemma replace_whole_history:
  assumes "tmp \<noteq> path" and "h0 \<noteq> []" and "list_all (old_or_new files tmp path f) h0"
    and "replace_whole io tmp path f h0 = (r, h)"
  shows "list_all (old_or_new files tmp path f) h"
  using assms by (auto simp: replace_whole_def seqM_def bindM_def finallyM_def Let_def os_call_def old_or_new_def dir_ops
      neq_Nil_conv split: prod.splits sum.splits if_splits)

lemma replace_whole_end:
  assumes "tmp \<noteq> path" and "replace_whole io tmp path f h0 = (r, h)"
  shows "r = Inr () \<Longrightarrow> dr_files (hd h) = (dr_files (hd h0))(tmp := None, path \<mapsto> f)"
    and "r \<noteq> Inr () \<Longrightarrow> \<not> io UnlinkTemp \<Longrightarrow> dr_files (hd h0) tmp = None \<Longrightarrow> dr_files (hd h) = dr_files (hd h0)"
  using assms by (auto simp: replace_whole_def seqM_def bindM_def finallyM_def Let_def os_call_def dir_ops fun_eq_iff
      split: prod.splits sum.splits if_splits)

lemma replace_whole_all: "\<forall>k. \<not> io k \<Longrightarrow> fst (replace_whole io tmp path f h) = Inr ()"
  by (simp add: replace_whole_def seqM_def bindM_def finallyM_def Let_def os_call_def)

lemma replace_whole_Inr: "replace_whole io tmp path f h0 = (Inr (), h) \<Longrightarrow> \<not> io ReplaceFile \<and> \<not> io UnlinkTemp"
  by (auto simp: replace_whole_def seqM_def bindM_def finallyM_def Let_def os_call_def split: prod.splits sum.splits if_splits)

lemma hex_digit_not_dot: "d < 16 \<Longrightarrow> hex_digit d \<noteq> CHR ''.''"
  using unhex_hex_digit [of d] by (auto simp: unhex_digit_def)

lemma bytes_hex_head:
  assumes "bs \<noteq> []"
  obtains c rest where "bytes_hex bs = c # rest" and "c \<noteq> CHR ''.''"
proof -
  obtain b bs' where "bs = b # bs'" using assms by (cases bs) auto
  moreover have "unat b div 16 < 16" by (rule less_mult_imp_div_less) simp
  ultimately show thesis using that hex_digit_not_dot by (simp add: bytes_hex_def hex_byte_def)
qed

lemma temp_not_path: "TicketStore_path p peer = Inr path \<Longrightarrow> temp_name suff \<noteq> path"
proof -
  assume "TicketStore_path p peer = Inr path"
  then obtain m where m: "path = bytes_hex (sha256 m) @ ''.json''" by (auto simp: TicketStore_path_def split: if_splits)
  have "sha256 m \<noteq> []" by (metis length_0_conv length_sha256 zero_neq_numeral)
  then obtain c rest where "bytes_hex (sha256 m) = c # rest" "c \<noteq> CHR ''.''" by (rule bytes_hex_head)
  then show ?thesis by (simp add: m temp_name_def)
qed

lemma save_body_sized:
  assumes "TicketStore_path (tk_profile t) (tk_peer t) = Inr path" and "ticket_sized t"
  shows "save_body io suff t h0 = (if io MakeDir then (Inl OSError, h0)
     else replace_whole io (temp_name suff) path (JsonObject (ticket_json t)) (hd h0 # h0))"
  using assms by (simp add: save_body_def seqM_def bindM_def os_call_def ticket_sized_def sized_def)

lemma save_body_Inr: "save_body io suff t h0 = (Inr (), h) \<Longrightarrow> ticket_sized t \<and> \<not> io MakeDir"
  by (auto simp: save_body_def os_call_def ticket_sized_def split: if_splits)

lemma save_Inr:
  assumes "TicketStore_save io suff now (st, t) = (Inr (), (st', t'))" and "tk_valid t"
  shows "t' = t \<and> ticket_sized t \<and> ticket_usable (tk_profile t) (tk_peer t) now t
    \<and> (\<exists>path. TicketStore_path (tk_profile t) (tk_peer t) = Inr path
         \<and> st' = st\<lparr> ts_files := (ts_files st)(temp_name suff := None, path \<mapsto> JsonObject (ticket_json t)) \<rparr>)"
proof -
  obtain c t1 where c: "Ticket_check (tk_profile t) (tk_peer t) now t = (c, t1)" by fastforce
  obtain r h where b: "save_body io suff t1 [ticket_dir_of st] = (r, h)" by fastforce
  obtain x where x: "c = Inr x" using assms c by (cases c) (simp_all add: TicketStore_save_def)
  then have u: "ticket_usable (tk_profile t) (tk_peer t) now t" "t' = t" "t1 = t"
    and h: "save_body io suff t [ticket_dir_of st] = (Inr (), h)" "st' = st\<lparr> ts_files := dr_files (hd h) \<rparr>"
    using assms c b by (simp_all add: TicketStore_save_def)
  have sized: "ticket_sized t" "\<not> io MakeDir" using save_body_Inr [OF h(1)] by simp_all
  obtain path where p: "TicketStore_path (tk_profile t) (tk_peer t) = Inr path"
    using h(1) by (auto simp: save_body_def)
  have "replace_whole io (temp_name suff) path (JsonObject (ticket_json t)) [ticket_dir_of st, ticket_dir_of st] = (Inr (), h)"
    using h(1) save_body_sized [OF p sized(1), of io suff "[ticket_dir_of st]"] sized(2) by simp
  from replace_whole_end(1) [OF temp_not_path [OF p] this]
  have "dr_files (hd h) = (ts_files st)(temp_name suff := None, path \<mapsto> JsonObject (ticket_json t))"
    by (simp add: ticket_dir_of_def)
  then show ?thesis using sized u p h(2) by simp
qed

section \<open>Properties\<close>

text \<open>
  C36. A saved ticket is loaded back unchanged for as long as it is usable: after a successful save,
  loading for the same profile and peer at any later time within 24 hours of the ticket's creation
  returns the ticket, with an empty replay list, and leaves the files alone.
\<close>

theorem ticket_store_roundtrip:
  assumes "TicketStore_save io suff now (st, t) = (Inr (), (st', t'))" and "tk_valid t"
    and "0 \<le> tk_successful_resumes t" and "now \<le> later" and "later - tk_created_at t < TTL"
  shows "TicketStore_load (tk_profile t) (tk_peer t) later st' = (Inr (Some (t\<lparr> tk_replay := [] \<rparr>)), st')"
proof -
  obtain path where s: "ticket_sized t" "ticket_usable (tk_profile t) (tk_peer t) now t"
      "TicketStore_path (tk_profile t) (tk_peer t) = Inr path"
      "st' = st\<lparr> ts_files := (ts_files st)(temp_name suff := None, path \<mapsto> JsonObject (ticket_json t)) \<rparr>"
    using save_Inr [OF assms(1,2)] by blast
  have "parse_ticket (tk_profile t) (tk_peer t) (JsonObject (ticket_json t)) = Inr (t\<lparr> tk_replay := [] \<rparr>)"
    using s(1,2) assms(2,3) by (intro parse_ticket_json) (auto simp: ticket_usable_def)
  moreover have "Ticket_check (tk_profile t) (tk_peer t) later (t\<lparr> tk_replay := [] \<rparr>) = (Inr (), t\<lparr> tk_replay := [] \<rparr>)"
    using s(2) assms(4,5) by (simp add: ticket_usable_def)
  ultimately show ?thesis
    using s(3,4) by (simp add: TicketStore_load_def Let_def)
qed

definition demo_store_ticket :: ticket where
  "demo_store_ticket = demo_ticket 17"

lemma demo_save:
  obtains path where "TicketStore_path 17 ''dk'' = Inr path"
    and "save_body io suff demo_store_ticket [ticket_dir_of st]
      = (if io MakeDir then (Inl OSError, [ticket_dir_of st])
         else replace_whole io (temp_name suff) path (JsonObject (ticket_json demo_store_ticket)) [ticket_dir_of st, ticket_dir_of st])"
    and "TicketStore_save io suff 5 (st, demo_store_ticket) =
      (case save_body io suff demo_store_ticket [ticket_dir_of st] of (r, h) \<Rightarrow> (r, (st\<lparr> ts_files := dr_files (hd h) \<rparr>, demo_store_ticket)))"
proof -
  have t: "tk_valid demo_store_ticket" "tk_profile demo_store_ticket = 17" "tk_peer demo_store_ticket = ''dk''"
    by (simp_all add: demo_store_ticket_def demo_ticket_def)
  have c: "Ticket_check 17 ''dk'' 5 demo_store_ticket = (Inr (), demo_store_ticket)"
    by (simp add: demo_store_ticket_def demo_ticket_usable)
  have "ticket_sized demo_store_ticket" by (simp add: demo_store_ticket_def demo_ticket_usable)
  moreover obtain p where p: "TicketStore_path 17 ''dk'' = Inr p" by (simp add: TicketStore_path_def profile_ok_def)
  ultimately show thesis
    using save_body_sized [of demo_store_ticket p io suff "[ticket_dir_of st]"] t c
    by (intro that [OF p]) (simp_all add: TicketStore_save_def)
qed

theorem ticket_store_roundtrip_witness:
  "\<exists>st'. TicketStore_save (\<lambda>_. False) ''x7'' 5 (TicketStore_init Map.empty, demo_store_ticket) = (Inr (), (st', demo_store_ticket))
     \<and> TicketStore_load 17 ''dk'' 100 st' = (Inr (Some demo_store_ticket), st')"
proof -
  have t: "tk_valid demo_store_ticket" "tk_profile demo_store_ticket = 17" "tk_peer demo_store_ticket = ''dk''"
      "tk_successful_resumes demo_store_ticket = 0" "tk_created_at demo_store_ticket = 0"
      "demo_store_ticket\<lparr> tk_replay := [] \<rparr> = demo_store_ticket"
    by (simp_all add: demo_store_ticket_def demo_ticket_def)
  obtain st' where
    s: "TicketStore_save (\<lambda>_. False) ''x7'' 5 (TicketStore_init Map.empty, demo_store_ticket) = (Inr (), (st', demo_store_ticket))"
    using demo_save [of "\<lambda>_. False" "''x7''" "TicketStore_init Map.empty"] replace_whole_all [of "\<lambda>_. False"]
    by (auto simp: case_prod_unfold prod_eq_iff)
  then show ?thesis using ticket_store_roundtrip [OF s t(1), of 100] t by simp
qed

text \<open>
  Whatever is in the ticket directory, a loaded ticket is usable: it belongs to the requested
  profile and peer, has a 16-byte identifier and a 32-byte root, is less than 24 hours old, has been
  used less than 100 times, and loading it changed nothing in the store.
\<close>

theorem ticket_store_load_sound:
  assumes "TicketStore_load profile peer now st = (Inr (Some t), st')"
  shows "ticket_usable profile peer now t \<and> ticket_sized t \<and> 0 \<le> tk_successful_resumes t
    \<and> tk_replay t = [] \<and> st' = st"
proof -
  obtain f where f: "parse_ticket profile peer f = Inr t" "ticket_usable profile peer now t" "st' = st"
    using assms by (auto simp: TicketStore_load_def Let_def bindM_def split: sum.splits exn.splits option.splits prod.splits)
  then show ?thesis using parse_ticket_sound [OF f(1)] by simp
qed

theorem ticket_store_load_sound_witness:
  "\<exists>st'. TicketStore_load 17 ''dk'' 100 st' = (Inr (Some demo_store_ticket), st')
     \<and> ticket_usable 17 ''dk'' 100 demo_store_ticket"
proof -
  obtain path where p: "TicketStore_path 17 ''dk'' = Inr path"
    by (simp add: TicketStore_path_def profile_ok_def)
  let ?st = "TicketStore_init [path \<mapsto> JsonObject (ticket_json demo_store_ticket)]"
  have "parse_ticket 17 ''dk'' (JsonObject (ticket_json demo_store_ticket)) = Inr demo_store_ticket"
    using parse_ticket_json [of demo_store_ticket] by (simp add: demo_store_ticket_def demo_ticket_def ticket_sized_def)
  moreover have "Ticket_check 17 ''dk'' 100 demo_store_ticket = (Inr (), demo_store_ticket)"
    by (simp add: demo_store_ticket_def demo_ticket_usable)
  ultimately have l: "TicketStore_load 17 ''dk'' 100 ?st = (Inr (Some demo_store_ticket), ?st)"
    using p by (simp add: TicketStore_load_def Let_def TicketStore_init_def)
  then show ?thesis using ticket_store_load_sound [OF l] by blast
qed

text \<open>
  C37. Saving is atomic, whichever of its calls fail and wherever it is cut off: in every state the
  directory passes through, the ticket's file is on the medium and is the old one or the whole new one,
  and no other file but the temporary one differs, so neither a reader nor a power failure ever sees
  half a ticket. A save that returns has replaced the file and left no temporary one; a save that raises,
  its \<open>unlink\<close> not failing, has left every file as it was; and if no call fails, it returns. The caller's
  ticket is unchanged.
\<close>

theorem ticket_store_save_atomic:
  assumes "ticket_usable (tk_profile t) (tk_peer t) now t" and "ticket_sized t"
    and path: "TicketStore_path (tk_profile t) (tk_peer t) = Inr path"
    and fresh: "ts_files st (temp_name suff) = None"
    and run: "save_body io suff t [ticket_dir_of st] = (r, h)"
  shows "TicketStore_save io suff now (st, t) = (r, (st\<lparr> ts_files := dr_files (hd h) \<rparr>, t))
    \<and> list_all (old_or_new (ts_files st) (temp_name suff) path (JsonObject (ticket_json t))) h
    \<and> (r = Inr () \<longrightarrow> dr_files (hd h) = (ts_files st)(path \<mapsto> JsonObject (ticket_json t)))
    \<and> (r \<noteq> Inr () \<and> \<not> io UnlinkTemp \<longrightarrow> dr_files (hd h) = ts_files st)
    \<and> ((\<forall>k. \<not> io k) \<longrightarrow> r = Inr ())"
proof -
  let ?f = "JsonObject (ticket_json t)" let ?d = "ticket_dir_of st"
  have neq: "temp_name suff \<noteq> path" by (rule temp_not_path [OF path])
  have start: "old_or_new (ts_files st) (temp_name suff) path ?f ?d" by (simp add: old_or_new_def ticket_dir_of_def)
  have upd: "(ts_files st)(temp_name suff := None, path \<mapsto> ?f) = (ts_files st)(path \<mapsto> ?f)"
    using fresh by (auto simp: fun_eq_iff)
  have valid: "tk_valid t" using assms(1) by (simp add: ticket_usable_def)
  have save: "TicketStore_save io suff now (st, t) = (r, (st\<lparr> ts_files := dr_files (hd h) \<rparr>, t))"
    using assms(1) valid run by (simp add: TicketStore_save_def)
  note body = save_body_sized [OF path assms(2), of io suff "[?d]"]
  show ?thesis
  proof (cases "io MakeDir")
    case True
    then have "r = Inl OSError" "h = [?d]" using body run by simp_all
    then show ?thesis using save start True by (auto simp: ticket_dir_of_def)
  next
    case False
    then have run': "replace_whole io (temp_name suff) path ?f [?d, ?d] = (r, h)" using body run by simp
    have "list_all (old_or_new (ts_files st) (temp_name suff) path ?f) h"
      using start by (intro replace_whole_history [OF neq _ _ run']) simp_all
    moreover have "r = Inr () \<Longrightarrow> dr_files (hd h) = (ts_files st)(path \<mapsto> ?f)"
      using replace_whole_end(1) [OF neq run'] upd by (simp add: ticket_dir_of_def)
    moreover have "r \<noteq> Inr () \<Longrightarrow> \<not> io UnlinkTemp \<Longrightarrow> dr_files (hd h) = ts_files st"
      using replace_whole_end(2) [OF neq run'] fresh by (simp add: ticket_dir_of_def)
    moreover have "\<forall>k. \<not> io k \<Longrightarrow> r = Inr ()"
      using replace_whole_all [of io "temp_name suff" path ?f "[?d, ?d]"] run' by simp
    ultimately show ?thesis using save by blast
  qed
qed

theorem ticket_store_save_atomic_witness:
  "\<exists>st' h path. TicketStore_save (\<lambda>k. k = ReplaceFile) ''x7'' 5 (TicketStore_init Map.empty, demo_store_ticket)
      = (Inl OSError, (st', demo_store_ticket))
    \<and> save_body (\<lambda>k. k = ReplaceFile) ''x7'' demo_store_ticket [ticket_dir_of (TicketStore_init Map.empty)] = (Inl OSError, h)
    \<and> length h = 6 \<and> list_all (old_or_new Map.empty ''.ticket-x7'' path (JsonObject (ticket_json demo_store_ticket))) h"
proof -
  let ?io = "\<lambda>k. k = ReplaceFile" let ?st = "TicketStore_init Map.empty"
  have u: "ticket_usable (tk_profile demo_store_ticket) (tk_peer demo_store_ticket) 5 demo_store_ticket" "ticket_sized demo_store_ticket"
      "tk_profile demo_store_ticket = 17" "tk_peer demo_store_ticket = ''dk''"
    using demo_ticket_usable by (auto simp: demo_store_ticket_def demo_ticket_def)
  obtain path where p: "TicketStore_path 17 ''dk'' = Inr path"
      "save_body ?io ''x7'' demo_store_ticket [ticket_dir_of ?st]
       = replace_whole ?io (temp_name ''x7'') path (JsonObject (ticket_json demo_store_ticket)) [ticket_dir_of ?st, ticket_dir_of ?st]"
    by (rule demo_save [of ?io "''x7''" ?st]) simp
  obtain h where h: "save_body ?io ''x7'' demo_store_ticket [ticket_dir_of ?st] = (Inl OSError, h)" "length h = 6"
    unfolding p(2) by (simp add: replace_whole_def seqM_def bindM_def finallyM_def Let_def os_call_def)
  have "ts_files ?st (temp_name ''x7'') = None" by (simp add: TicketStore_init_def)
  from ticket_store_save_atomic [OF u(1,2) _ this h(1), of path]
  have "TicketStore_save ?io ''x7'' 5 (?st, demo_store_ticket) = (Inl OSError, (?st\<lparr> ts_files := dr_files (hd h) \<rparr>, demo_store_ticket))
      \<and> list_all (old_or_new Map.empty ''.ticket-x7'' path (JsonObject (ticket_json demo_store_ticket))) h"
    using p(1) u(3,4) by (simp add: TicketStore_init_def temp_name_def)
  then show ?thesis using h by blast
qed

end
