(* ===== verification/Fragmentation.thy ===== *)
theory Fragmentation
  imports Constants
begin

text \<open>
  \<open>src/common/fragmentation.py\<close>: splitting a byte string into GATT-sized fragments with a
  four-byte header \<open>index:u8, total:u8, length:u16\<close>, and putting fragments received in any order
  back together.
\<close>

section \<open>Fragments\<close>

record fragment =
  frag_index :: int
  frag_total :: int
  frag_payload :: bytes

text \<open>
  \<open>struct.pack("!BBH", index, total, len(payload)) + payload\<close>: the pack raises \<open>struct.error\<close>
  on a value outside its field.
\<close>

definition fragment_encode :: "fragment \<Rightarrow> bytes result" where
  "fragment_encode f =
     (if 0 \<le> frag_index f \<and> frag_index f \<le> 255 \<and> 0 \<le> frag_total f \<and> frag_total f \<le> 255
         \<and> length (frag_payload f) \<le> 65535
      then Inr ([word_of_int (frag_index f), word_of_int (frag_total f)]
                @ be_bytes 2 (length (frag_payload f)) @ frag_payload f)
      else Inl StructError)"

definition fragment_decode :: "bytes \<Rightarrow> fragment result" where
  "fragment_decode data =
     (if length data < FRAGMENT_HEADER_SIZE then Inl (ValueError ''Fragment too short'')
      else let payload_len = be_nat (slice 2 4 data)
           in Inr \<lparr> frag_index = uint (data ! 0), frag_total = uint (data ! 1),
                    frag_payload = slice 4 (4 + payload_len) data \<rparr>)"

section \<open>Splitting\<close>

text \<open>
  Python's slice \<open>data[start:end]\<close> with \<open>start = i * max_payload\<close> and
  \<open>end = min(start + max_payload, len(data))\<close>, for a positive \<open>max_payload\<close>.
\<close>

definition fragment_chunk :: "bytes \<Rightarrow> nat \<Rightarrow> nat \<Rightarrow> bytes" where
  "fragment_chunk data max_payload i =
     (let start = i * max_payload; end = min (start + max_payload) (length data)
      in slice start end data)"

text \<open>
  \<open>(len(data) + max_payload - 1) // max_payload\<close>, with Python's \<open>ZeroDivisionError\<close>. For a negative
  \<open>max_payload\<close> the quotient is at most zero, and \<open>range\<close> of it is empty.
\<close>

definition fragment_total :: "nat \<Rightarrow> int \<Rightarrow> int result" where
  "fragment_total n max_payload =
     (if n = 0 then Inr 1
      else if max_payload = 0 then Inl ZeroDivisionError
      else Inr ((int n + max_payload - 1) div max_payload))"

definition fragment_data :: "bytes \<Rightarrow> int \<Rightarrow> bytes list result" where
  "fragment_data data mtu =
     (let max_payload = mtu - int FRAGMENT_HEADER_SIZE
      in bindR (fragment_total (length data) max_payload) (\<lambda>total.
           mapR (\<lambda>i. fragment_encode \<lparr> frag_index = int i, frag_total = total,
                        frag_payload = fragment_chunk data (nat max_payload) i \<rparr>)
                [0 ..< nat total]))"

section \<open>Reassembly\<close>

definition reassemble_data :: "bytes list \<Rightarrow> bytes result" where
  "reassemble_data fragments =
     (if fragments = [] then Inl (ValueError ''No fragments provided'')
      else bindR (mapR fragment_decode fragments) (\<lambda>decoded.
        let total_frags = frag_total (decoded ! 0); indices = map frag_index decoded
        in if \<exists>f \<in> set decoded. frag_total f \<noteq> total_frags
           then Inl (ValueError ''Inconsistent total_frags'')
           else if \<not> distinct indices then Inl (ValueError ''Duplicate fragment indices'')
           else if int (length decoded) \<noteq> total_frags then Inl (ValueError ''Missing fragments'')
           else Inr (concat (map frag_payload (sort_key frag_index decoded)))))"

section \<open>Lemmas\<close>

lemmas fragment_defs =
  fragment_data_def fragment_total_def fragment_chunk_def fragment_encode_def
  reassemble_data_def fragment_decode_def

lemma fragment_decode_encode:
  assumes "fragment_encode f = Inr w"
  shows "fragment_decode w = Inr f"
proof -
  have *: "0 \<le> frag_index f" "frag_index f \<le> 255" "0 \<le> frag_total f" "frag_total f \<le> 255"
    "length (frag_payload f) \<le> 65535"
    and w: "w = [word_of_int (frag_index f), word_of_int (frag_total f)]
                @ be_bytes 2 (length (frag_payload f)) @ frag_payload f"
    using assms by (auto simp: fragment_encode_def split: if_splits)
  have "slice 2 4 w = be_bytes 2 (length (frag_payload f))"
    by (simp add: w slice_def)
  then have "be_nat (slice 2 4 w) = length (frag_payload f)"
    using *(5) by simp
  moreover have "slice 4 (4 + length (frag_payload f)) w = frag_payload f"
    by (simp add: w slice_def)
  ultimately show ?thesis
    using * by (simp add: fragment_decode_def w Let_def)
qed

lemma length_fragment_encode:
  "fragment_encode f = Inr w \<Longrightarrow> length w = FRAGMENT_HEADER_SIZE + length (frag_payload f)"
  by (auto simp: fragment_encode_def split: if_splits)

text \<open>The chunks tile the data.\<close>

lemma fragment_chunk_eq: "fragment_chunk data m i = take m (drop (i * m) data)"
proof -
  have "take (min (i * m + m) (length data)) data = take (i * m + m) data"
    by (simp add: min_def)
  then show ?thesis
    by (simp add: fragment_chunk_def Let_def slice_def take_drop add.commute)
qed

lemma concat_chunks: "concat (map (fragment_chunk data m) [0 ..< k]) = take (k * m) data"
proof (induction k)
  case 0
  then show ?case by simp
next
  case (Suc k)
  have "take (k * m) data @ take m (drop (k * m) data) = take (k * m + m) data"
    by (simp add: take_add)
  with Suc.IH show ?case
    by (simp add: fragment_chunk_eq add.commute)
qed

lemma length_fragment_chunk: "length (fragment_chunk data m i) \<le> m"
  by (simp add: fragment_chunk_eq)

lemma fragment_total_eq:
  assumes "fragment_total n m = Inr t" and "0 < m"
  shows "t \<ge> 1" and "n \<le> nat t * nat m"
proof -
  have "1 \<le> t \<and> int n \<le> t * m"
  proof (cases "n = 0")
    case True
    then show ?thesis using assms by (simp add: fragment_total_def)
  next
    case False
    then have t: "t = (int n + m - 1) div m"
      using assms by (simp add: fragment_total_def)
    have "int n + m - 1 = m * t + (int n + m - 1) mod m"
      by (simp add: t)
    moreover have "(int n + m - 1) mod m \<le> m - 1"
      using assms(2) pos_mod_bound [of m "int n + m - 1"] by linarith
    ultimately have "int n \<le> m * t" by linarith
    moreover have "1 \<le> t"
    proof -
      have "m div m \<le> (int n + m - 1) div m"
        using False assms(2) by (intro zdiv_mono1) auto
      then show ?thesis using assms(2) t by simp
    qed
    ultimately show ?thesis by (simp add: mult.commute)
  qed
  then have *: "1 \<le> t" "int n \<le> t * m" by simp_all
  show "t \<ge> 1" by (rule *(1))
  have "n \<le> nat (t * m)" using *(2) by linarith
  then show "n \<le> nat t * nat m" using *(1) by (simp add: nat_mult_distrib)
qed

text \<open>What a successful split looks like: \<open>total\<close> fragments in order, each a chunk.\<close>

lemma fragment_data_Inr:
  assumes "fragment_data data mtu = Inr ws"
  obtains t where "fragment_total (length data) (mtu - 4) = Inr t"
    and "mapR fragment_decode ws =
      Inr (map (\<lambda>i. \<lparr> frag_index = int i, frag_total = t,
                      frag_payload = fragment_chunk data (nat (mtu - 4)) i \<rparr>) [0 ..< nat t])"
proof -
  from assms obtain t where t: "fragment_total (length data) (mtu - 4) = Inr t"
    and ws: "mapR (\<lambda>i. fragment_encode \<lparr> frag_index = int i, frag_total = t,
                        frag_payload = fragment_chunk data (nat (mtu - 4)) i \<rparr>) [0 ..< nat t] = Inr ws"
    by (auto simp: fragment_data_def Let_def)
  from ws have "list_all2 (\<lambda>i w. fragment_encode \<lparr> frag_index = int i, frag_total = t,
                        frag_payload = fragment_chunk data (nat (mtu - 4)) i \<rparr> = Inr w) [0 ..< nat t] ws"
    by (simp add: mapR_Inr_iff)
  then have "list_all2 (\<lambda>w f. fragment_decode w = Inr f) ws
      (map (\<lambda>i. \<lparr> frag_index = int i, frag_total = t,
                  frag_payload = fragment_chunk data (nat (mtu - 4)) i \<rparr>) [0 ..< nat t])"
    by (auto simp: list_all2_conv_all_nth intro: fragment_decode_encode)
  then show thesis
    using that [OF t] by (simp add: mapR_Inr_iff)
qed

lemma fragment_total_le:
  assumes "n \<le> k * nat m" and "0 < m" and "1 \<le> k"
  shows "\<exists>t. fragment_total n m = Inr t \<and> 1 \<le> t \<and> t \<le> int k"
proof (cases "n = 0")
  case True
  then show ?thesis using assms(3) by (simp add: fragment_total_def)
next
  case False
  let ?t = "(int n + m - 1) div m"
  have tot: "fragment_total n m = Inr ?t"
    using False assms(2) by (simp add: fragment_total_def)
  have "int n \<le> int (k * nat m)" using assms(1) by (simp only: of_nat_le_iff)
  then have "int n \<le> int k * m" using assms(2) by simp
  then have "int n + m - 1 \<le> int k * m + (m - 1)" by simp
  then have "?t \<le> (int k * m + (m - 1)) div m"
    using assms(2) by (intro zdiv_mono1)
  also have "\<dots> = int k" using assms(2) by simp
  finally show ?thesis using tot fragment_total_eq(1) [OF tot assms(2)] by blast
qed

text \<open>Decoding is a function of the wire, so a permuted list decodes to the permuted fragments.\<close>

lemma mapR_mset:
  assumes "mapR f xs = Inr ys" and "mset xs' = mset xs"
  shows "\<exists>ys'. mapR f xs' = Inr ys' \<and> mset ys' = mset ys"
proof -
  let ?g = "\<lambda>x. projr (f x)"
  have all2: "list_all2 (\<lambda>x y. f x = Inr y) xs ys"
    using assms(1) by (simp add: mapR_Inr_iff)
  then have ys: "ys = map ?g xs"
    by (auto simp: list_all2_conv_all_nth intro!: nth_equalityI)
  have "f x = Inr (?g x)" if "x \<in> set xs" for x
    using that all2 by (auto simp: list_all2_conv_all_nth in_set_conv_nth)
  then have "f x = Inr (?g x)" if "x \<in> set xs'" for x
    using that mset_eq_setD [OF assms(2)] by blast
  then have "mapR f xs' = Inr (map ?g xs')" by (rule mapR_pure)
  moreover have "mset (map ?g xs') = mset ys"
    using assms(2) by (simp add: ys)
  ultimately show ?thesis by blast
qed

lemma reassemble_permuted:
  assumes "4 < mtu" and "fragment_data data mtu = Inr ws" and "mset ws' = mset ws"
  shows "reassemble_data ws' = Inr data"
proof -
  define mk where "mk t i = \<lparr> frag_index = int i, frag_total = t,
      frag_payload = fragment_chunk data (nat (mtu - 4)) i \<rparr>" for t :: int and i :: nat
  obtain t where t: "fragment_total (length data) (mtu - 4) = Inr t"
    and dec: "mapR fragment_decode ws = Inr (map (mk t) [0 ..< nat t])"
    using fragment_data_Inr [OF assms(2)] unfolding mk_def by metis
  define D where "D = map (mk t) [0 ..< nat t]"
  obtain D' where D': "mapR fragment_decode ws' = Inr D'" "mset D' = mset D"
    using mapR_mset [OF dec assms(3)] unfolding D_def by blast
  have t1: "1 \<le> t" and fit: "length data \<le> nat t * nat (mtu - 4)"
    using fragment_total_eq [OF t] assms(1) by simp_all
  have len: "length D' = nat t" using D'(2) by (metis D_def length_map length_upt minus_nat.diff_0 size_mset)
  have tot: "frag_total f = t" if "f \<in> set D'" for f
    using that mset_eq_setD [OF D'(2)] by (auto simp: D_def mk_def)
  have "mset (map frag_index D') = mset (map frag_index D)"
    using D'(2) by simp
  moreover have "distinct (map frag_index D)"
    by (auto simp: D_def mk_def comp_def distinct_map inj_on_def)
  ultimately have dist: "distinct (map frag_index D')"
    using mset_eq_imp_distinct_iff by blast
  then have "sort_key frag_index D' = D"
    using D'(2) by (intro sort_key_inj_key_eq) (auto simp: D_def mk_def comp_def distinct_map sorted_iff_nth_mono)
  moreover have "concat (map frag_payload D) = data"
    using fit by (simp add: D_def mk_def comp_def concat_chunks)
  moreover have "D' ! 0 \<in> set D'" "ws' \<noteq> []"
    using len t1 D'(1) by (auto intro: nth_mem)
  ultimately show ?thesis
    using D'(1) len tot dist t1 by (auto simp: reassemble_data_def Let_def)
qed

lemma fragment_data_succeeds:
  assumes "4 < mtu" and "mtu \<le> 65539" and "length data \<le> 255 * nat (mtu - 4)"
  shows "\<exists>ws. fragment_data data mtu = Inr ws \<and> ws \<noteq> [] \<and> length ws \<le> 255
           \<and> (\<forall>w \<in> set ws. int (length w) \<le> mtu)"
proof -
  let ?m = "nat (mtu - 4)"
  obtain t where t: "fragment_total (length data) (mtu - 4) = Inr t" "1 \<le> t" "t \<le> 255"
    using fragment_total_le [of "length data" 255 "mtu - 4"] assms by auto
  let ?f = "\<lambda>i. \<lparr> frag_index = int i, frag_total = t, frag_payload = fragment_chunk data ?m i \<rparr>"
  let ?w = "\<lambda>i. [word_of_int (int i), word_of_int t] @ be_bytes 2 (length (fragment_chunk data ?m i))
                @ fragment_chunk data ?m i"
  have small: "length (fragment_chunk data ?m i) \<le> 65535" for i
    using length_fragment_chunk [of data ?m i] assms(2) by linarith
  have "mapR (\<lambda>i. fragment_encode (?f i)) [0 ..< nat t] = Inr (map ?w [0 ..< nat t])"
    using t small by (intro mapR_pure) (auto simp: fragment_encode_def)
  then have "fragment_data data mtu = Inr (map ?w [0 ..< nat t])"
    using t(1) by (simp add: fragment_data_def Let_def)
  moreover have "int (length (?w i)) \<le> mtu" for i
    using length_fragment_chunk [of data ?m i] assms(1) by simp
  ultimately show ?thesis using t by auto
qed

section \<open>Properties\<close>

text \<open>
  C38. Fragmentation is inverted by reassembly, in whatever order the fragments arrive: for every
  MTU above the header size, if \<open>fragment_data\<close> produced fragments, any permutation of them
  reassembles to the original data.
\<close>

theorem reassemble_fragment_roundtrip:
  assumes "4 < mtu" and "fragment_data data mtu = Inr ws" and "mset ws' = mset ws"
  shows "reassemble_data ws' = Inr data"
  using assms by (rule reassemble_permuted)

theorem reassemble_fragment_roundtrip_witness:
  "\<exists>ws. fragment_data [1, 2, 3] 6 = Inr ws \<and> length ws = 2 \<and> reassemble_data (rev ws) = Inr [1, 2, 3]"
proof -
  have f: "fragment_data [1, 2, 3] 6 = Inr [[0, 2, 0, 2, 1, 2], [1, 2, 0, 1, 3]]"
    by (simp add: fragment_defs eval_simps)
  show ?thesis
    using reassemble_fragment_roundtrip [OF _ f, of "rev [[0, 2, 0, 2, 1, 2], [1, 2, 0, 1, 3]]"] f
    by simp
qed

text \<open>
  Fragmentation succeeds, and every fragment fits the MTU, exactly as long as the header fields
  can hold the numbers: an MTU of 5 to 65539 bytes and at most 255 fragments. In particular the
  1088-byte ciphertext and the 1184-byte public key fit in three fragments of the default MTU.
\<close>

theorem fragment_data_fits:
  assumes "4 < mtu" and "mtu \<le> 65539" and "length data \<le> 255 * nat (mtu - 4)"
  shows "\<exists>ws. fragment_data data mtu = Inr ws \<and> ws \<noteq> [] \<and> length ws \<le> 255
           \<and> (\<forall>w \<in> set ws. int (length w) \<le> mtu)"
  using assms by (rule fragment_data_succeeds)

theorem fragment_data_fits_witness:
  "\<exists>ws. fragment_data (replicate 1088 7) 512 = Inr ws \<and> (\<forall>w \<in> set ws. int (length w) \<le> 512)"
  using fragment_data_fits [of 512 "replicate 1088 7"] by auto

text \<open>
  A lost fragment is never silently skipped: any list of fragments that lacks at least one
  of those produced is refused with a \<open>ValueError\<close>.
\<close>

theorem reassemble_detects_loss:
  assumes "4 < mtu" and "fragment_data data mtu = Inr ws" and "mset ws' \<subset># mset ws"
  shows "\<exists>m. reassemble_data ws' = Inl (ValueError m)"
proof -
  obtain t where t: "fragment_total (length data) (mtu - 4) = Inr t"
    and dec: "mapR fragment_decode ws = Inr (map (\<lambda>i. \<lparr> frag_index = int i, frag_total = t,
      frag_payload = fragment_chunk data (nat (mtu - 4)) i \<rparr>) [0 ..< nat t])"
    using fragment_data_Inr [OF assms(2)] by metis
  have t1: "1 \<le> t" using fragment_total_eq [OF t] assms(1) by simp
  have ws: "\<exists>f. fragment_decode w = Inr f \<and> frag_total f = t" if "w \<in> set ws" for w
    using dec that by (fastforce simp: mapR_Inr_iff list_all2_conv_all_nth in_set_conv_nth)
  have sub: "set ws' \<subseteq> set ws" using assms(3) by (metis set_mset_mono set_mset_mset subset_mset.less_imp_le)
  have "length ws = nat t"
    using dec by (auto simp: mapR_Inr_iff dest: list_all2_lengthD)
  then have len: "int (length ws') < t"
    using mset_subset_size [OF assms(3)] t1 by simp
  let ?D = "map (\<lambda>w. projr (fragment_decode w)) ws'"
  have D: "mapR fragment_decode ws' = Inr ?D"
    using ws sub by (intro mapR_pure) fastforce
  have "frag_total (projr (fragment_decode w)) = t" if "w \<in> set ws'" for w
    using ws [of w] sub that by (metis subsetD sum.sel(2))
  then have "ws' \<noteq> [] \<Longrightarrow> frag_total (?D ! 0) = t" by simp
  then show ?thesis
    using D len by (auto simp: reassemble_data_def Let_def simp del: mapR.simps)
qed

theorem reassemble_detects_loss_witness:
  "\<exists>m. reassemble_data [[1, 2, 0, 1, 3]] = Inl (ValueError m)"
proof -
  have f: "fragment_data [1, 2, 3] 6 = Inr [[0, 2, 0, 2, 1, 2], [1, 2, 0, 1, 3]]"
    by (simp add: fragment_defs eval_simps)
  have "mset [[1, 2, 0, 1, 3]] \<subset># mset [[0, 2, 0, 2, 1, 2], [1, 2, 0, 1, 3 :: byte]]"
    by (simp add: subset_mset_def)
  then show ?thesis using reassemble_detects_loss [OF _ f] by auto
qed

text \<open>
  Reassembly does not check the declared payload length: a fragment cut short in transit
  decodes to a shorter payload, and the reassembled data is silently a different byte string.
\<close>

theorem reassemble_accepts_truncated:
  "fragment_data [1, 2, 3] 6 = Inr [[0, 2, 0, 2, 1, 2], [1, 2, 0, 1, 3]]
   \<and> reassemble_data [[0, 2, 0, 2, 1], [1, 2, 0, 1, 3]] = Inr [1, 3]"
proof
  show "fragment_data [1, 2, 3] 6 = Inr [[0, 2, 0, 2, 1, 2], [1, 2, 0, 1, 3]]" by (simp add: fragment_defs eval_simps)
  show "reassemble_data [[0, 2, 0, 2, 1], [1, 2, 0, 1, 3]] = Inr [1, 3]" by (simp add: fragment_defs eval_simps)
qed

end
