(* ===== verification/V1_Application.thy ===== *)
theory V1_Application
  imports Resumption
begin

text \<open>
  \<open>src/common/v1_cp4.py\<close>: the application frames of v1.0/v1.1 (AES-256-GCM with a nonce derived from
  the sequence number) and the Central's application object, which borrows the keys of a
  handshake object and fails closed together with it.
\<close>

section \<open>Frames\<close>

abbreviation (input) APP_C2P :: int where "APP_C2P \<equiv> V1_APP_C2P"
abbreviation (input) APP_P2C :: int where "APP_P2C \<equiv> V1_APP_P2C"
abbreviation (input) PING :: int where "PING \<equiv> 0x01"
abbreviation (input) PONG :: int where "PONG \<equiv> 0x02"
abbreviation (input) TAG_SIZE :: nat where "TAG_SIZE \<equiv> 16"
abbreviation (input) IV_SIZE :: nat where "IV_SIZE \<equiv> 12"
abbreviation (input) CP4_MAX_PLAINTEXT :: int where "CP4_MAX_PLAINTEXT \<equiv> 128"
abbreviation (input) FRAME_OVERHEAD :: nat where "FRAME_OVERHEAD \<equiv> 35"
abbreviation (input) CHALLENGE_SIZE :: nat where "CHALLENGE_SIZE \<equiv> 16"
abbreviation (input) UINT64_MAX :: int where "UINT64_MAX \<equiv> 2 ^ 64 - 1"

definition cp4_direction :: "int \<Rightarrow> unit result" where
  "cp4_direction subtype = requireR (subtype = APP_C2P \<or> subtype = APP_P2C) (ValueError ''invalid CP4 direction'')"

definition cp4_sequence :: "int \<Rightarrow> unit result" where
  "cp4_sequence seq = requireR (0 \<le> seq \<and> seq \<le> UINT64_MAX) (ValueError ''CP4 sequence outside uint64'')"

definition validate_sequence :: "int \<Rightarrow> int \<Rightarrow> unit result" where
  "validate_sequence received expected =
     bindR (cp4_sequence received) (\<lambda>_. bindR (cp4_sequence expected) (\<lambda>_.
     requireR (\<not> (expected = UINT64_MAX \<or> received \<noteq> expected))
       (ValueError ''CP4 replay, out-of-order sequence or sequence exhaustion'')))"

definition profile_label :: "int \<Rightarrow> string \<Rightarrow> bytes result" where
  "profile_label profile sfx =
     (if profile = 0x10 then Inr (ascii ''PQ-BLE-HANDSHAKE-v1.0/'' @ ascii sfx)
      else bindR (domain profile) (\<lambda>d. Inr (d @ ascii ''/'' @ ascii sfx)))"

definition cp4_encode :: "int \<Rightarrow> int \<Rightarrow> bytes \<Rightarrow> bytes result" where
  "cp4_encode profile subtype payload =
     bindR (encode_v1_frame subtype payload) (\<lambda>raw.
     bindR (profile_label profile '''') (\<lambda>_.
     bindR (one_byte profile) (\<lambda>p. Inr (take 4 raw @ p @ drop 5 raw))))"

definition cp4_parse :: "int \<Rightarrow> bytes \<Rightarrow> v1_frame result" where
  "cp4_parse profile raw =
     bindR (profile_label profile '''') (\<lambda>_.
     if length raw < 8 \<or> uint (raw ! 4) \<noteq> profile then Inl (ValueError ''wrong application profile/version'')
     else parse_v1_frame (take 4 raw @ [0x10] @ drop 5 raw))"

definition derive_iv_base :: "bytes \<Rightarrow> bytes \<Rightarrow> int \<Rightarrow> int \<Rightarrow> bytes result" where
  "derive_iv_base key session_id subtype profile =
     bindR (cp4_direction subtype) (\<lambda>_.
     if length key \<noteq> 32 \<or> length session_id \<noteq> 16 then Inl (ValueError ''invalid CP4 key/session size'')
     else bindR (profile_label profile (if subtype = APP_C2P then ''IV-C2P'' else ''IV-P2C'')) (\<lambda>label.
          Inr (take IV_SIZE (hmac_sha256 key (label @ session_id @ [0x01])))))"

definition nonce_for_sequence :: "bytes \<Rightarrow> int \<Rightarrow> bytes result" where
  "nonce_for_sequence iv_base seq =
     bindR (cp4_sequence seq) (\<lambda>_.
     if length iv_base \<noteq> IV_SIZE then Inl (ValueError ''CP4 IV must be 12 bytes'')
     else bindR (to_bytes seq 8) (\<lambda>s. Inr (map2 xor iv_base (replicate 4 0 @ s))))"

definition cp4_prefix :: "int \<Rightarrow> int \<Rightarrow> int \<Rightarrow> int \<Rightarrow> bytes result" where
  "cp4_prefix subtype seq msg_type plaintext_len =
     bindR (cp4_direction subtype) (\<lambda>_. bindR (cp4_sequence seq) (\<lambda>_.
     if \<not> (0 \<le> msg_type \<and> msg_type \<le> 255) \<or> \<not> (0 \<le> plaintext_len \<and> plaintext_len \<le> CP4_MAX_PLAINTEXT)
     then Inl (ValueError ''invalid CP4 message type/length'')
     else bindR (to_bytes seq 8) (\<lambda>s. bindR (one_byte msg_type) (\<lambda>m. bindR (to_bytes plaintext_len 2) (\<lambda>l.
          Inr (s @ m @ l))))))"

definition encode_application_frame ::
  "int \<Rightarrow> int \<Rightarrow> int \<Rightarrow> bytes \<Rightarrow> bytes \<Rightarrow> int \<Rightarrow> bytes result" where
  "encode_application_frame subtype seq msg_type ciphertext tag profile =
     (if length tag \<noteq> TAG_SIZE then Inl (ValueError ''CP4 tag must be 16 bytes'')
      else bindR (cp4_prefix subtype seq msg_type (int (length ciphertext))) (\<lambda>pre.
           cp4_encode profile subtype (pre @ ciphertext @ tag)))"

record application_frame =
  af_subtype :: int
  af_seq :: int
  af_msg_type :: int
  af_ciphertext :: bytes
  af_tag :: bytes

definition parse_application_frame :: "bytes \<Rightarrow> int \<Rightarrow> int \<Rightarrow> application_frame result" where
  "parse_application_frame raw expected_subtype profile =
     bindR (cp4_direction expected_subtype) (\<lambda>_.
     bindR (cp4_parse profile raw) (\<lambda>frame.
     if v1_subtype frame \<noteq> expected_subtype then Inl (ValueError ''wrong CP4 direction'')
     else let payload = v1_payload frame; sz = be_nat (slice 9 11 payload)
          in if int sz > CP4_MAX_PLAINTEXT \<or> length payload \<noteq> 27 + sz
             then Inl (ValueError ''inconsistent CP4 plaintext length/tag'')
             else Inr \<lparr> af_subtype = v1_subtype frame, af_seq = int (be_nat (take 8 payload)),
                        af_msg_type = uint (payload ! 8),
                        af_ciphertext = slice 11 (length payload - TAG_SIZE) payload,
                        af_tag = drop (length payload - TAG_SIZE) payload \<rparr>))"

definition build_aad :: "bytes \<Rightarrow> bytes \<Rightarrow> int \<Rightarrow> int \<Rightarrow> int \<Rightarrow> int \<Rightarrow> bytes result" where
  "build_aad session_id exact_header seq msg_type plaintext_len profile =
     (if length session_id \<noteq> 16 \<or> length exact_header \<noteq> 8
      then Inl (ValueError ''invalid CP4 AAD session/header size'')
      else bindR (cp4_prefix (uint (exact_header ! 5)) seq msg_type plaintext_len) (\<lambda>pre.
           bindR (one_byte profile) (\<lambda>p. bindR (to_bytes (27 + plaintext_len) 2) (\<lambda>l.
           let expected = ascii ''PQV1'' @ p @ [exact_header ! 5] @ l
           in if exact_header \<noteq> expected then Inl (ValueError ''inconsistent CP4 AAD header'')
              else bindR (profile_label profile ''CP4-AAD'') (\<lambda>label.
                   Inr (label @ session_id @ exact_header @ pre))))))"

definition encrypt_application ::
  "third_party \<Rightarrow> bytes \<Rightarrow> bytes \<Rightarrow> bytes \<Rightarrow> int \<Rightarrow> int \<Rightarrow> int \<Rightarrow> bytes \<Rightarrow> int \<Rightarrow> bytes result" where
  "encrypt_application C key iv_base session_id subtype seq msg_type plaintext profile =
     (if length key \<noteq> 32 then Inl (ValueError ''CP4 requires AES-256'')
      else bindR (encode_application_frame subtype seq msg_type (replicate (length plaintext) 0)
                    (replicate TAG_SIZE 0) profile) (\<lambda>skeleton.
           bindR (build_aad session_id (take 8 skeleton) seq msg_type (int (length plaintext)) profile) (\<lambda>aad.
           bindR (nonce_for_sequence iv_base seq) (\<lambda>nonce.
           Inr (take 19 skeleton @ aesgcm_encrypt C key nonce plaintext aad)))))"

definition decrypt_application ::
  "third_party \<Rightarrow> bytes \<Rightarrow> bytes \<Rightarrow> bytes \<Rightarrow> bytes \<Rightarrow> int \<Rightarrow> int \<Rightarrow> int \<Rightarrow> bytes result" where
  "decrypt_application C key iv_base session_id raw expected_subtype expected_seq profile =
     (if length key \<noteq> 32 then Inl (ValueError ''CP4 requires AES-256'')
      else bindR (parse_application_frame raw expected_subtype profile) (\<lambda>frame.
           bindR (validate_sequence (af_seq frame) expected_seq) (\<lambda>_.
           bindR (build_aad session_id (take 8 raw) (af_seq frame) (af_msg_type frame)
                    (int (length (af_ciphertext frame))) profile) (\<lambda>aad.
           bindR (nonce_for_sequence iv_base (af_seq frame)) (\<lambda>nonce.
           case aesgcm_decrypt C key nonce (af_ciphertext frame @ af_tag frame) aad of
             None \<Rightarrow> Inl InvalidTag
           | Some plaintext \<Rightarrow>
               let expected_type = (if expected_subtype = APP_C2P then PING else PONG)
               in if af_msg_type frame \<noteq> expected_type \<or> length plaintext \<noteq> CHALLENGE_SIZE
                  then Inl (ValueError ''invalid CP4 PING/PONG semantics'') else Inr plaintext)))))"

section \<open>The Central's application object\<close>

text \<open>
  The handshake object as the application sees it: its state, profile (0x10 when the object has no
  such attribute), session id and application keys, and what its \<open>clear\<close> does to them.
\<close>

record app_session =
  as_state :: hs_state
  as_profile :: int
  as_app_c2p :: bytes
  as_app_p2c :: bytes
  as_session_id :: bytes

definition app_session_clear :: "app_session \<Rightarrow> app_session" where
  "app_session_clear s = s\<lparr> as_app_c2p := wipe (as_app_c2p s), as_app_p2c := wipe (as_app_p2c s),
     as_session_id := [], as_state := HS_CLOSED \<rparr>"

record central_application =
  ca_handshake :: app_session
  ca_profile :: int
  ca_iv_c2p :: bytes
  ca_iv_p2c :: bytes
  ca_tx_c2p :: int
  ca_rx_p2c :: int

definition CentralApplication_clear :: "central_application \<Rightarrow> central_application" where
  "CentralApplication_clear a = a\<lparr> ca_handshake := app_session_clear (ca_handshake a),
     ca_iv_c2p := wipe (ca_iv_c2p a), ca_iv_p2c := wipe (ca_iv_p2c a) \<rparr>"

definition CentralApplication_require_secure :: "central_application \<Rightarrow> unit result" where
  "CentralApplication_require_secure a =
     requireR (as_state (ca_handshake a) = HS_APP_SECURE) (ValueError ''CP4 requires APP_SECURE'')"

definition CentralApplication_init ::
  "app_session \<Rightarrow> bytes option \<Rightarrow> bytes option \<Rightarrow> (central_application, unit) outcome" where
  "CentralApplication_init handshake iv_c2p iv_p2c =
     (let p = as_profile handshake;
          a = \<lparr> ca_handshake = handshake, ca_profile = p, ca_iv_c2p = [], ca_iv_p2c = [],
                ca_tx_c2p = 0, ca_rx_p2c = 0 \<rparr>
      in onerr CentralApplication_clear (
           bindM (readM CentralApplication_require_secure) (\<lambda>_.
           bindM (liftR (case iv_c2p of
                    None \<Rightarrow> derive_iv_base (as_app_c2p handshake) (as_session_id handshake) APP_C2P p
                  | Some iv \<Rightarrow> Inr iv)) (\<lambda>iv.
           seqM (setM (\<lambda>a. a\<lparr> ca_iv_c2p := iv \<rparr>)) (
           bindM (liftR (case iv_p2c of
                    None \<Rightarrow> derive_iv_base (as_app_p2c handshake) (as_session_id handshake) APP_P2C p
                  | Some iv \<Rightarrow> Inr iv)) (\<lambda>iv.
           seqM (setM (\<lambda>a. a\<lparr> ca_iv_p2c := iv \<rparr>)) (
           readM (\<lambda>a. requireR (\<not> (length (ca_iv_c2p a) \<noteq> IV_SIZE \<or> length (ca_iv_p2c a) \<noteq> IV_SIZE))
             (ValueError ''invalid supplied application IV bases'')))))))) a)"

definition CentralApplication_encrypt_ping ::
  "third_party \<Rightarrow> bytes \<Rightarrow> int \<Rightarrow> (central_application, bytes) meth" where
  "CentralApplication_encrypt_ping C challenge mtu = onerr CentralApplication_clear (
     bindM (readM CentralApplication_require_secure) (\<lambda>_.
     bindM (readM (\<lambda>a. validate_sequence (ca_tx_c2p a) (ca_tx_c2p a))) (\<lambda>_.
     bindM (liftR (requireR (\<not> (length challenge \<noteq> CHALLENGE_SIZE
                              \<or> int (FRAME_OVERHEAD + length challenge) + 3 > mtu))
              (ValueError ''CP4 challenge/ATT MTU invalid''))) (\<lambda>_.
     bindM (readM (\<lambda>a. encrypt_application C (as_app_c2p (ca_handshake a)) (ca_iv_c2p a)
              (as_session_id (ca_handshake a)) APP_C2P (ca_tx_c2p a) PING challenge (ca_profile a))) (\<lambda>frame.
     seqM (setM (\<lambda>a. a\<lparr> ca_tx_c2p := ca_tx_c2p a + 1 \<rparr>)) (
     retM frame))))))"

definition CentralApplication_accept_pong ::
  "third_party \<Rightarrow> bytes \<Rightarrow> int \<Rightarrow> bytes \<Rightarrow> (central_application, unit) meth" where
  "CentralApplication_accept_pong C challenge mtu raw = onerr CentralApplication_clear (
     bindM (readM CentralApplication_require_secure) (\<lambda>_.
     bindM (liftR (requireR (\<not> int (length raw) + 3 > mtu) (ValueError ''CP4 frame exceeds ATT MTU''))) (\<lambda>_.
     bindM (readM (\<lambda>a. decrypt_application C (as_app_p2c (ca_handshake a)) (ca_iv_p2c a)
              (as_session_id (ca_handshake a)) raw APP_P2C (ca_rx_p2c a) (ca_profile a))) (\<lambda>plaintext.
     bindM (liftR (requireR (plaintext = challenge) (ValueError ''CP4 PONG challenge mismatch''))) (\<lambda>_.
     setM (\<lambda>a. a\<lparr> ca_rx_p2c := ca_rx_p2c a + 1 \<rparr>))))))"

section \<open>Lemmas\<close>

subsection \<open>Frames under a profile\<close>

definition app_profile_ok :: "int \<Rightarrow> bool" where
  "app_profile_ok p \<longleftrightarrow> p = 0x10 \<or> profile_ok p"

definition label_bytes :: "int \<Rightarrow> string \<Rightarrow> bytes" where
  "label_bytes p s = (if p = 0x10 then ascii ''PQ-BLE-HANDSHAKE-v1.0/'' @ ascii s
                      else domain_bytes p @ ascii ''/'' @ ascii s)"

lemma profile_label_Inr [simp]: "profile_label p s = Inr l \<longleftrightarrow> app_profile_ok p \<and> l = label_bytes p s"
  by (auto simp: profile_label_def app_profile_ok_def label_bytes_def)

lemma app_profile_byte: "app_profile_ok p \<Longrightarrow> 0 \<le> p \<and> p \<le> 255"
  by (auto simp: app_profile_ok_def profile_ok_def)

lemma frame_wire_reversion:
  "length m = 4 \<Longrightarrow> take 4 (frame_wire m v t p) @ word_of_int q # drop 5 (frame_wire m v t p) = frame_wire m q t p"
  by (simp add: frame_wire_def)

lemma cp4_encode_Inr [simp]:
  "cp4_encode p t v = Inr w \<longleftrightarrow> v1_valid t v \<and> app_profile_ok p \<and> w = frame_wire V1_FRAME_MAGIC p t v"
  using app_profile_byte [of p]
  by (auto simp: cp4_encode_def pqv1.encode_Inr frame_wire_reversion)

lemma cp4_parse_Inr:
  "cp4_parse p raw = Inr f \<longleftrightarrow> app_profile_ok p \<and> v1_valid (v1_subtype f) (v1_payload f)
     \<and> raw = frame_wire V1_FRAME_MAGIC p (v1_subtype f) (v1_payload f)"
  (is "?L \<longleftrightarrow> ?R")
proof
  assume ?L
  then have h: "app_profile_ok p" "8 \<le> length raw" "uint (raw ! 4) = p"
      "parse_v1_frame (take 4 raw @ [16] @ drop 5 raw) = Inr f"
    by (auto simp: cp4_parse_def split: if_splits)
  then have w: "take 4 raw @ [16] @ drop 5 raw = frame_wire V1_FRAME_MAGIC 16 (v1_subtype f) (v1_payload f)"
      and v: "v1_valid (v1_subtype f) (v1_payload f)"
    by (auto simp: parse_v1_as)
  have "raw = take 4 raw @ [raw ! 4] @ drop 5 raw"
    using h(2) id_take_nth_drop [of 4 raw] by simp
  moreover have "raw ! 4 = word_of_int p" using h(3) by auto
  moreover have "take 4 raw @ [word_of_int p] @ drop 5 raw = frame_wire V1_FRAME_MAGIC p (v1_subtype f) (v1_payload f)"
    using w h(2) frame_wire_reversion [of V1_FRAME_MAGIC 16 "v1_subtype f" "v1_payload f" p] by (auto simp: w [symmetric])
  ultimately show ?R using h(1) v by simp
next
  assume r: ?R
  then have "take 4 raw @ [16] @ drop 5 raw = frame_wire V1_FRAME_MAGIC 16 (v1_subtype f) (v1_payload f)"
    using frame_wire_reversion [of V1_FRAME_MAGIC p "v1_subtype f" "v1_payload f" 16] by simp
  then show ?L
    using r app_profile_byte [of p] by (simp add: cp4_parse_def parse_v1_as frame_wire_parts)
qed

definition app_prefix :: "int \<Rightarrow> int \<Rightarrow> nat \<Rightarrow> bytes" where
  "app_prefix seq mt n = be_bytes 8 (nat seq) @ [word_of_int mt] @ be_bytes 2 n"

lemma length_app_prefix [simp]: "length (app_prefix seq mt n) = 11"
  by (simp add: app_prefix_def)

definition seq_ok :: "int \<Rightarrow> bool" where
  "seq_ok s \<longleftrightarrow> 0 \<le> s \<and> s < 2 ^ 64"

lemma cp4_sequence_Inr [simp]: "cp4_sequence s = Inr u \<longleftrightarrow> seq_ok s"
  by (auto simp: cp4_sequence_def seq_ok_def)

lemma cp4_direction_Inr [simp]: "cp4_direction t = Inr u \<longleftrightarrow> t \<in> {32, 33}"
  by (simp add: cp4_direction_def)

lemma cp4_prefix_Inr [simp]:
  "cp4_prefix t s m (int n) = Inr w \<longleftrightarrow>
     t \<in> {32, 33} \<and> seq_ok s \<and> 0 \<le> m \<and> m \<le> 255 \<and> n \<le> 128 \<and> w = app_prefix s m n"
  by (auto simp: cp4_prefix_def app_prefix_def seq_ok_def)

lemma app_prefix_parts:
  assumes "seq_ok s" and "0 \<le> m" and "m \<le> 255" and "n \<le> 128"
  shows "int (be_nat (take 8 (app_prefix s m n @ x))) = s"
    and "uint ((app_prefix s m n @ x) ! 8) = m"
    and "be_nat (slice 9 11 (app_prefix s m n @ x)) = n"
  using assms by (simp_all add: app_prefix_def seq_ok_def nth_append slice_def nat_less_iff)

lemma app_payload_valid:
  assumes "t \<in> {32, 33}" and "seq_ok s" and "0 \<le> m" and "m \<le> 255" and "n \<le> 128" and "length x = n + 16"
  shows "v1_valid t (app_prefix s m n @ x)"
  using assms app_prefix_parts(3) [OF assms(2-5)] by (auto simp: v1_valid_iff)

text \<open>The payload of an application frame as its five fields.\<close>

lemma app_payload_parts:
  assumes "length v = 27 + be_nat (slice 9 11 v)" and "be_nat (slice 9 11 v) \<le> 128"
  shows "v = app_prefix (int (be_nat (take 8 v))) (uint (v ! 8)) (length (slice 11 (length v - 16) v))
             @ slice 11 (length v - 16) v @ drop (length v - 16) v"
    and "seq_ok (int (be_nat (take 8 v)))"
proof -
  have len: "27 \<le> length v" using assms by simp
  have "be_bytes 8 (be_nat (take 8 v)) = take 8 v"
    using be_bytes_be_nat [of "take 8 v"] len by simp
  moreover have "be_bytes 2 (be_nat (slice 9 11 v)) = slice 9 11 v"
    using be_bytes_be_nat [of "slice 9 11 v"] len by simp
  moreover have "length (slice 11 (length v - 16) v) = be_nat (slice 9 11 v)"
    using assms by simp
  moreover have "drop 8 v = v ! 8 # drop 9 v"
    using len Cons_nth_drop_Suc [of 8 v] by simp
  moreover have "drop 9 v = slice 9 11 v @ slice 11 (length v - 16) v @ drop (length v - 16) v"
    using len drop_slice [of 9 11 v] drop_slice [of 11 "length v - 16" v] by simp
  ultimately show "v = app_prefix (int (be_nat (take 8 v))) (uint (v ! 8)) (length (slice 11 (length v - 16) v))
             @ slice 11 (length v - 16) v @ drop (length v - 16) v"
    by (simp add: app_prefix_def) (metis append_take_drop_id)
  have "be_nat (take 8 v) < 256 ^ 8" using be_nat_less [of "take 8 v"] len by simp
  then show "seq_ok (int (be_nat (take 8 v)))" by (simp add: seq_ok_def)
qed

lemma encode_application_frame_Inr:
  "encode_application_frame t s m ct tag p = Inr w \<longleftrightarrow>
     length tag = 16 \<and> t \<in> {32, 33} \<and> seq_ok s \<and> 0 \<le> m \<and> m \<le> 255 \<and> length ct \<le> 128 \<and> app_profile_ok p
     \<and> w = frame_wire V1_FRAME_MAGIC p t (app_prefix s m (length ct) @ ct @ tag)"
  using app_payload_valid [of t s m "length ct" "ct @ tag"]
  by (auto simp: encode_application_frame_def)

lemma parse_application_frame_Inr:
  "parse_application_frame raw t p = Inr f \<longleftrightarrow>
     af_subtype f = t \<and> encode_application_frame t (af_seq f) (af_msg_type f) (af_ciphertext f) (af_tag f) p = Inr raw"
  (is "?L \<longleftrightarrow> ?R")
proof
  assume ?L
  then obtain g where g: "cp4_parse p raw = Inr g" "v1_subtype g = t" "t \<in> {32, 33}"
      "be_nat (slice 9 11 (v1_payload g)) \<le> 128" "length (v1_payload g) = 27 + be_nat (slice 9 11 (v1_payload g))"
      and f: "f = \<lparr> af_subtype = t, af_seq = int (be_nat (take 8 (v1_payload g))),
                  af_msg_type = uint (v1_payload g ! 8),
                  af_ciphertext = slice 11 (length (v1_payload g) - 16) (v1_payload g),
                  af_tag = drop (length (v1_payload g) - 16) (v1_payload g) \<rparr>"
    by (auto simp: parse_application_frame_def Let_def split: if_splits)
  from app_payload_parts [OF g(5,4)] g(1,2,3) show ?R
    using g(4,5) by (auto simp: f encode_application_frame_Inr cp4_parse_Inr)
next
  assume r: ?R
  define v where "v = app_prefix (af_seq f) (af_msg_type f) (length (af_ciphertext f)) @ af_ciphertext f @ af_tag f"
  from r have h: "length (af_tag f) = 16" "t \<in> {32, 33}" "seq_ok (af_seq f)" "0 \<le> af_msg_type f" "af_msg_type f \<le> 255"
      "length (af_ciphertext f) \<le> 128" "app_profile_ok p" "raw = frame_wire V1_FRAME_MAGIC p t v"
    by (auto simp: encode_application_frame_Inr v_def)
  have parse: "cp4_parse p raw = Inr \<lparr> v1_subtype = t, v1_payload = v \<rparr>"
    using h app_payload_valid [of t "af_seq f" "af_msg_type f" "length (af_ciphertext f)" "af_ciphertext f @ af_tag f"]
    by (auto simp: cp4_parse_Inr v_def)
  have "slice 11 (length v - 16) v = af_ciphertext f" "drop (length v - 16) v = af_tag f"
    using h(1) by (simp_all add: v_def slice_def)
  then show ?L
    using parse h r app_prefix_parts [OF h(3-6)]
    by (auto simp: parse_application_frame_def Let_def v_def)
qed

subsection \<open>Encryption\<close>

definition app_header :: "int \<Rightarrow> int \<Rightarrow> nat \<Rightarrow> bytes" where
  "app_header p t n = V1_FRAME_MAGIC @ [word_of_int p, word_of_int t] @ be_bytes 2 (27 + n)"

definition app_aad :: "int \<Rightarrow> bytes \<Rightarrow> int \<Rightarrow> int \<Rightarrow> int \<Rightarrow> nat \<Rightarrow> bytes" where
  "app_aad p sid t s m n = label_bytes p ''CP4-AAD'' @ sid @ app_header p t n @ app_prefix s m n"

definition app_nonce :: "bytes \<Rightarrow> int \<Rightarrow> bytes" where
  "app_nonce iv s = map2 xor iv (replicate 4 0 @ be_bytes 8 (nat s))"

lemma frame_header:
  "length x = n + 16 \<Longrightarrow> take 8 (frame_wire V1_FRAME_MAGIC p t (app_prefix s m n @ x)) = app_header p t n"
  "length x = n + 16 \<Longrightarrow> frame_wire V1_FRAME_MAGIC p t (app_prefix s m n @ x) = app_header p t n @ app_prefix s m n @ x"
  by (simp_all add: frame_wire_def app_header_def add.commute)

lemma length_app_header [simp]: "length (app_header p t n) = 8"
  by (simp add: app_header_def)

lemma nonce_for_sequence_Inr [simp]:
  "nonce_for_sequence iv s = Inr n \<longleftrightarrow> seq_ok s \<and> length iv = 12 \<and> n = app_nonce iv s"
  by (auto simp: nonce_for_sequence_def app_nonce_def seq_ok_def)

lemma build_aad_Inr:
  assumes "t \<in> {32, 33}" and "app_profile_ok p" and "seq_ok s" and "0 \<le> m" and "m \<le> 255" and "n \<le> 128"
  shows "build_aad sid (app_header p t n) s m (int n) p = Inr a \<longleftrightarrow> length sid = 16 \<and> a = app_aad p sid t s m n"
proof -
  have t: "app_header p t n ! 5 = word_of_int t" "uint (word_of_int t :: byte) = t"
    using assms(1) by (auto simp: app_header_def nth_append)
  have "to_bytes (27 + int n) 2 = Inr (be_bytes 2 (27 + n))"
    using assms(6) by (simp add: nat_add_distrib)
  then show ?thesis
    using assms app_profile_byte [OF assms(2)] t
    by (auto simp: build_aad_def Let_def app_aad_def app_header_def V1_FRAME_MAGIC_def)
qed

definition app_args_ok :: "bytes \<Rightarrow> bytes \<Rightarrow> bytes \<Rightarrow> int \<Rightarrow> int \<Rightarrow> int \<Rightarrow> bool" where
  "app_args_ok key iv sid t s p \<longleftrightarrow> length key = 32 \<and> length iv = 12 \<and> length sid = 16 \<and> t \<in> {32, 33}
     \<and> seq_ok s \<and> app_profile_ok p"

definition app_sealed :: "third_party \<Rightarrow> bytes \<Rightarrow> bytes \<Rightarrow> bytes \<Rightarrow> int \<Rightarrow> int \<Rightarrow> int \<Rightarrow> bytes \<Rightarrow> int \<Rightarrow> bytes" where
  "app_sealed C key iv sid t s m pt p = aesgcm_encrypt C key (app_nonce iv s) pt (app_aad p sid t s m (length pt))"

lemma encrypt_application_Inr:
  "encrypt_application C key iv sid t s m pt p = Inr w \<longleftrightarrow>
     app_args_ok key iv sid t s p \<and> 0 \<le> m \<and> m \<le> 255 \<and> length pt \<le> 128
     \<and> w = app_header p t (length pt) @ app_prefix s m (length pt) @ app_sealed C key iv sid t s m pt p"
proof (cases "t \<in> {32, 33} \<and> seq_ok s \<and> 0 \<le> m \<and> m \<le> 255 \<and> length pt \<le> 128 \<and> app_profile_ok p")
  case True
  let ?z = "replicate (length pt) 0 @ replicate 16 0"
  have sk: "encode_application_frame t s m (replicate (length pt) 0) (replicate 16 0) p
      = Inr (app_header p t (length pt) @ app_prefix s m (length pt) @ ?z)"
    using True frame_header(2) [of ?z "length pt" p t s m] by (simp add: encode_application_frame_Inr)
  show ?thesis
    unfolding encrypt_application_def sk using build_aad_Inr [of t p s m "length pt" sid] True
    by (auto simp: app_args_ok_def app_sealed_def)
next
  case False
  then have "encode_application_frame t s m (replicate (length pt) 0) (replicate 16 0) p \<noteq> Inr sk" for sk
    by (auto simp: encode_application_frame_Inr)
  then show ?thesis using False by (auto simp: encrypt_application_def app_args_ok_def)
qed

lemma validate_sequence_Inr [simp]:
  "validate_sequence r x = Inr u \<longleftrightarrow> r = x \<and> 0 \<le> x \<and> x < UINT64_MAX"
  by (auto simp: validate_sequence_def seq_ok_def)

text \<open>
  Decryption accepts exactly what encryption makes of a 16-byte PING or PONG under the same key, IV
  base, session, direction, profile and the expected sequence number.
\<close>

lemma decrypt_application_iff:
  assumes "aead_laws C" and "t = APP_C2P \<or> t = APP_P2C"
  shows "decrypt_application C key iv sid raw t x p = Inr pt \<longleftrightarrow>
     encrypt_application C key iv sid t x (if t = APP_C2P then PING else PONG) pt p = Inr raw
     \<and> length pt = CHALLENGE_SIZE \<and> x < UINT64_MAX"
  (is "?L \<longleftrightarrow> ?R")
proof
  assume ?L
  then obtain f a where f: "length key = 32" "parse_application_frame raw t p = Inr f"
      "af_seq f = x" "0 \<le> x" "x < UINT64_MAX" "length iv = 12"
      "build_aad sid (take 8 raw) (af_seq f) (af_msg_type f) (int (length (af_ciphertext f))) p = Inr a"
      "aesgcm_decrypt C key (app_nonce iv x) (af_ciphertext f @ af_tag f) a = Some pt"
      "af_msg_type f = (if t = APP_C2P then PING else PONG)" "length pt = 16"
    by (auto simp: decrypt_application_def Let_def split: option.splits if_splits)
  from f(2) have e: "length (af_tag f) = 16" "length (af_ciphertext f) \<le> 128" "app_profile_ok p" "seq_ok x"
      "raw = frame_wire V1_FRAME_MAGIC p t (app_prefix x (af_msg_type f) (length (af_ciphertext f)) @ af_ciphertext f @ af_tag f)"
    using f(3) by (auto simp: parse_application_frame_Inr encode_application_frame_Inr)
  have sealed: "af_ciphertext f @ af_tag f = aesgcm_encrypt C key (app_nonce iv x) pt a"
    using aesgcm_decrypt_Some [OF assms(1) f(8)] .
  then have len: "length (af_ciphertext f) = 16" "length (af_ciphertext f @ af_tag f) = 16 + 16"
    using length_aesgcm_encrypt [OF assms(1), of key "app_nonce iv x" pt a] e(1) f(10) by (metis add_right_cancel length_append)+
  have m: "0 \<le> af_msg_type f" "af_msg_type f \<le> 255" using f(9) by auto
  have raw: "take 8 raw = app_header p t 16"
      "raw = app_header p t 16 @ app_prefix x (af_msg_type f) 16 @ af_ciphertext f @ af_tag f"
    using frame_header [OF len(2)] e(5) len(1) by simp_all
  then have "length sid = 16" "a = app_aad p sid t x (af_msg_type f) 16"
    using f(3,7) len(1) build_aad_Inr [of t p x "af_msg_type f" 16 sid a] assms(2) e(3,4) m by auto
  then show ?R
    using f(1,4,5,6,10) f(9) [symmetric] e(3,4) assms(2) raw(2) sealed m
    by (simp add: encrypt_application_Inr app_args_ok_def app_sealed_def)
next
  assume r: ?R
  define m where "m = (if t = APP_C2P then PING else PONG)"
  have m: "0 \<le> m" "m \<le> 255" by (simp_all add: m_def)
  have e: "app_args_ok key iv sid t x p" "length pt = 16" "x < UINT64_MAX"
      "raw = app_header p t (length pt) @ app_prefix x m (length pt) @ app_sealed C key iv sid t x m pt p"
    using r by (auto simp: encrypt_application_Inr m_def)
  define ct tag where "ct = take 16 (app_sealed C key iv sid t x m pt p)"
    and "tag = drop 16 (app_sealed C key iv sid t x m pt p)"
  have len: "length ct = 16" "length tag = 16" and cat: "ct @ tag = app_sealed C key iv sid t x m pt p"
    using e(2) length_aesgcm_encrypt [OF assms(1)] by (simp_all add: ct_def tag_def app_sealed_def)
  have raw: "raw = frame_wire V1_FRAME_MAGIC p t (app_prefix x m (length ct) @ ct @ tag)"
  proof -
    have "length (ct @ tag) = 16 + 16" using len by simp
    from frame_header(2) [OF this, of p t x m] show ?thesis using e(2,4) len(1) cat by simp
  qed
  have "parse_application_frame raw t p = Inr \<lparr> af_subtype = t, af_seq = x, af_msg_type = m, af_ciphertext = ct, af_tag = tag \<rparr>"
    using e(1) len m raw by (auto simp: parse_application_frame_Inr encode_application_frame_Inr app_args_ok_def)
  moreover have "build_aad sid (take 8 raw) x m (int 16) p = Inr (app_aad p sid t x m 16)"
    using e build_aad_Inr [of t p x m 16 sid] m by (auto simp: app_args_ok_def)
  ultimately show ?L
    using e len cat assms(2) aesgcm_decrypt_encrypt [OF assms(1)]
    by (auto simp: decrypt_application_def app_args_ok_def app_sealed_def m_def seq_ok_def)
qed

subsection \<open>Nonces\<close>

lemma map2_xor_inject:
  assumes "length x = length iv" and "length y = length iv" and "map2 xor iv x = map2 xor (iv :: bytes) y"
  shows "x = y"
  using assms
proof (induction iv arbitrary: x y)
  case Nil
  then show ?case by simp
next
  case (Cons b iv)
  then obtain a x' c y' where xy: "x = a # x'" "y = c # y'" by (metis length_Suc_conv)
  have "xor b a = xor b c" "x' = y'" using Cons xy by auto
  then have "xor b (xor b a) = xor b (xor b c)" by simp
  then show ?case using xy \<open>x' = y'\<close> by (simp flip: xor.assoc)
qed

lemma app_nonce_inject:
  assumes "length iv = 12" and "seq_ok s" and "seq_ok s'" and "app_nonce iv s = app_nonce iv s'"
  shows "s = s'"
proof -
  have "replicate 4 0 @ be_bytes 8 (nat s) = replicate 4 0 @ be_bytes 8 (nat s')"
    by (rule map2_xor_inject [OF _ _ assms(4) [unfolded app_nonce_def]]) (simp_all add: assms(1))
  then have eq: "be_bytes 8 (nat s) = be_bytes 8 (nat s')" by simp
  have "nat s < 256 ^ 8" "nat s' < 256 ^ 8"
    using assms(2,3) by (simp_all add: seq_ok_def nat_less_iff)
  then have "nat s = nat s'" by (rule be_bytes_inject [OF eq])
  then show ?thesis using assms(2,3) eq_nat_nat_iff [of s s'] by (simp add: seq_ok_def)
qed

text \<open>The sequence number an application frame carries.\<close>

definition app_wire_seq :: "bytes \<Rightarrow> int" where
  "app_wire_seq w = int (be_nat (slice 8 16 w))"

lemma encrypt_wire_seq:
  assumes "encrypt_application C key iv sid t s m pt p = Inr w"
  shows "app_wire_seq w = s"
proof -
  have "w = app_header p t (length pt) @ app_prefix s m (length pt) @ app_sealed C key iv sid t s m pt p" "seq_ok s"
    using assms by (auto simp: encrypt_application_Inr app_args_ok_def)
  then show ?thesis
    by (simp add: app_wire_seq_def slice_def app_prefix_def seq_ok_def nat_less_iff)
qed

subsection \<open>The application object\<close>

lemma ping_Inr:
  "CentralApplication_encrypt_ping C ch mtu a = (Inr w, a') \<longleftrightarrow>
     as_state (ca_handshake a) = HS_APP_SECURE \<and> 0 \<le> ca_tx_c2p a \<and> ca_tx_c2p a < UINT64_MAX
     \<and> length ch = CHALLENGE_SIZE \<and> 54 \<le> mtu
     \<and> encrypt_application C (as_app_c2p (ca_handshake a)) (ca_iv_c2p a) (as_session_id (ca_handshake a))
          APP_C2P (ca_tx_c2p a) PING ch (ca_profile a) = Inr w
     \<and> a' = a\<lparr> ca_tx_c2p := ca_tx_c2p a + 1 \<rparr>"
  by (auto simp: CentralApplication_encrypt_ping_def CentralApplication_require_secure_def)

lemma pong_Inr:
  "CentralApplication_accept_pong C ch mtu raw a = (Inr u, a') \<longleftrightarrow>
     as_state (ca_handshake a) = HS_APP_SECURE \<and> int (length raw) + 3 \<le> mtu
     \<and> decrypt_application C (as_app_p2c (ca_handshake a)) (ca_iv_p2c a) (as_session_id (ca_handshake a))
          raw APP_P2C (ca_rx_p2c a) (ca_profile a) = Inr ch
     \<and> a' = a\<lparr> ca_rx_p2c := ca_rx_p2c a + 1 \<rparr>"
  by (auto simp: CentralApplication_accept_pong_def CentralApplication_require_secure_def)

datatype ca_call = CaPing bytes int | CaPong bytes int bytes

fun ca_step :: "third_party \<Rightarrow> central_application \<Rightarrow> ca_call \<Rightarrow> (central_application, bytes) outcome" where
  "ca_step C a (CaPing ch mtu) = CentralApplication_encrypt_ping C ch mtu a"
| "ca_step C a (CaPong ch mtu raw) = bindM (CentralApplication_accept_pong C ch mtu raw) (\<lambda>_. retM []) a"

definition ca_closed :: "central_application \<Rightarrow> bool" where
  "ca_closed a \<longleftrightarrow> as_state (ca_handshake a) = HS_CLOSED \<and> as_session_id (ca_handshake a) = []
     \<and> wiped (as_app_c2p (ca_handshake a)) \<and> wiped (as_app_p2c (ca_handshake a))
     \<and> wiped (ca_iv_c2p a) \<and> wiped (ca_iv_p2c a)"

lemma ca_closed_clear [simp]: "ca_closed (CentralApplication_clear a)"
  by (simp add: ca_closed_def CentralApplication_clear_def app_session_clear_def)

interpretation ca_owner: fail_closed "ca_step C" ca_closed for C
proof
  fix a c e t
  assume "ca_step C a c = (Inl e, t)"
  then show "ca_closed t"
    by (cases c) (auto simp: bindM_ret_Inl CentralApplication_encrypt_ping_def CentralApplication_accept_pong_def onerr_Inl)
next
  fix a c
  assume "ca_closed a"
  then have "ca_step C a c \<noteq> (Inr r, t)" for r t
    by (cases c) (auto simp: ping_Inr pong_Inr ca_closed_def)
  then show "\<exists>e t. ca_step C a c = (Inl e, t)"
    by (metis Inr_or_Inl prod.exhaust)
qed

text \<open>The receiving half as a replay guard; decryption pins the wire's sequence number.\<close>

lemma decrypt_wire_seq:
  assumes "decrypt_application C key iv sid raw t x p = Inr pt"
  shows "app_wire_seq raw = x"
proof -
  obtain f where f: "parse_application_frame raw t p = Inr f" "af_seq f = x"
    using assms by (auto simp: decrypt_application_def split: if_splits)
  then have e: "length (af_tag f) = 16" "seq_ok x"
      "raw = frame_wire V1_FRAME_MAGIC p t (app_prefix x (af_msg_type f) (length (af_ciphertext f)) @ af_ciphertext f @ af_tag f)"
    by (auto simp: parse_application_frame_Inr encode_application_frame_Inr)
  have "slice 8 16 raw = be_bytes 8 (nat x)"
    by (simp add: e(3) slice_def frame_wire_def app_prefix_def)
  then show ?thesis using e(2) by (simp add: app_wire_seq_def seq_ok_def nat_less_iff)
qed

lemma accept_pong_Inl: "CentralApplication_accept_pong C ch mtu raw a = (Inl e, a') \<Longrightarrow> ca_rx_p2c a' = ca_rx_p2c a"
  by (auto simp: CentralApplication_accept_pong_def onerr_Inl CentralApplication_clear_def bindM_def requireR_def
      split: prod.splits sum.splits if_splits)

interpretation pong_guard: replay_guard "\<lambda>a raw. CentralApplication_accept_pong C ch mtu raw a"
  "\<lambda>a. ca_rx_p2c a - 1" app_wire_seq for C ch mtu
proof
  fix a raw p t
  assume "CentralApplication_accept_pong C ch mtu raw a = (Inr p, t)"
  then show "ca_rx_p2c a - 1 < app_wire_seq raw \<and> ca_rx_p2c t - 1 = app_wire_seq raw"
    using decrypt_wire_seq by (fastforce simp: pong_Inr)
next
  fix a raw e t
  assume "CentralApplication_accept_pong C ch mtu raw a = (Inl e, t)"
  then show "ca_rx_p2c t - 1 = ca_rx_p2c a - 1" using accept_pong_Inl by simp
qed

text \<open>The frames of the successful PINGs of a run.\<close>

fun ping_wires :: "third_party \<Rightarrow> central_application \<Rightarrow> ca_call list \<Rightarrow> bytes list" where
  "ping_wires C a [] = []"
| "ping_wires C a (c # cs) =
     (case (c, ca_step C a c) of
        (CaPing ch mtu, (Inr w, a')) \<Rightarrow> w # ping_wires C a' cs
      | (_, (_, a')) \<Rightarrow> ping_wires C a' cs)"

lemma ca_step_tx:
  assumes "ca_step C a c = (Inr w, a')"
  shows "ca_iv_c2p a' = ca_iv_c2p a" "ca_tx_c2p a \<le> ca_tx_c2p a'"
  using assms by (cases c; auto simp: ping_Inr pong_Inr)+

lemma ping_wires_closed: "ca_closed a \<Longrightarrow> ping_wires C a cs = []"
proof (induction cs arbitrary: a)
  case Nil
  then show ?case by simp
next
  case (Cons c cs)
  then obtain e t where "ca_step C a c = (Inl e, t)" using ca_owner.closed_refuses by blast
  then show ?case using Cons.IH ca_owner.failure_closes by (auto split: ca_call.splits)
qed

lemma ping_wires_ordered:
  "sorted_wrt (<) (map app_wire_seq (ping_wires C a cs))
   \<and> (\<forall>w \<in> set (ping_wires C a cs). ca_tx_c2p a \<le> app_wire_seq w \<and> seq_ok (app_wire_seq w) \<and> length (ca_iv_c2p a) = 12)"
proof (induction cs arbitrary: a)
  case Nil
  then show ?case by simp
next
  case (Cons c cs)
  obtain r a' where s: "ca_step C a c = (r, a')" by fastforce
  show ?case
  proof (cases r)
    case (Inl e)
    then show ?thesis
      using s ping_wires_closed ca_owner.failure_closes by (auto split: ca_call.splits)
  next
    case (Inr w)
    note tx = ca_step_tx [OF s [unfolded Inr]]
    show ?thesis
    proof (cases c)
      case (CaPing ch mtu)
      then have e: "encrypt_application C (as_app_c2p (ca_handshake a)) (ca_iv_c2p a) (as_session_id (ca_handshake a))
          APP_C2P (ca_tx_c2p a) PING ch (ca_profile a) = Inr w" and "ca_tx_c2p a' = ca_tx_c2p a + 1"
        using s Inr by (auto simp: ping_Inr)
      then have p: "ca_tx_c2p a' = ca_tx_c2p a + 1" "app_wire_seq w = ca_tx_c2p a" "seq_ok (ca_tx_c2p a)" "length (ca_iv_c2p a) = 12"
        using encrypt_wire_seq [OF e] by (auto simp: encrypt_application_Inr app_args_ok_def)
      have "ping_wires C a (c # cs) = w # ping_wires C a' cs" using s Inr CaPing by simp
      then show ?thesis using Cons.IH [of a'] p tx(1) by fastforce
    next
      case (CaPong ch mtu raw)
      then have "ping_wires C a (c # cs) = ping_wires C a' cs" using s Inr by (simp del: ca_step.simps)
      then show ?thesis using Cons.IH [of a'] tx by fastforce
    qed
  qed
qed

subsection \<open>The calls of AES-GCM behind the PINGs\<close>

text \<open>
  What a PING is made of: the bytes before the ciphertext, and the key, nonce, plaintext and
  associated data given to AES-GCM; \<open>sealed_by F\<close> is the frame if \<open>F\<close> is the encryption.
\<close>

record aead_call =
  ac_header :: bytes
  ac_key :: bytes
  ac_nonce :: bytes
  ac_plaintext :: bytes
  ac_aad :: bytes

definition sealed_by :: "(bytes \<Rightarrow> bytes \<Rightarrow> bytes \<Rightarrow> bytes \<Rightarrow> bytes) \<Rightarrow> aead_call \<Rightarrow> bytes" where
  "sealed_by F x = ac_header x @ F (ac_key x) (ac_nonce x) (ac_plaintext x) (ac_aad x)"

definition ping_call :: "central_application \<Rightarrow> bytes \<Rightarrow> aead_call" where
  "ping_call a ch =
     \<lparr> ac_header = app_header (ca_profile a) APP_C2P (length ch) @ app_prefix (ca_tx_c2p a) PING (length ch),
       ac_key = as_app_c2p (ca_handshake a), ac_nonce = app_nonce (ca_iv_c2p a) (ca_tx_c2p a), ac_plaintext = ch,
       ac_aad = app_aad (ca_profile a) (as_session_id (ca_handshake a)) APP_C2P (ca_tx_c2p a) PING (length ch) \<rparr>"

definition ping_ok :: "central_application \<Rightarrow> bytes \<Rightarrow> int \<Rightarrow> bool" where
  "ping_ok a ch mtu \<longleftrightarrow> as_state (ca_handshake a) = HS_APP_SECURE \<and> 0 \<le> ca_tx_c2p a \<and> ca_tx_c2p a < UINT64_MAX
     \<and> length ch = CHALLENGE_SIZE \<and> 54 \<le> mtu
     \<and> app_args_ok (as_app_c2p (ca_handshake a)) (ca_iv_c2p a) (as_session_id (ca_handshake a)) APP_C2P (ca_tx_c2p a) (ca_profile a)"

text \<open>Which function encrypts has no influence on the object.\<close>

lemma ca_step_ping:
  "ca_step (C\<lparr> aesgcm_encrypt := F \<rparr>) a (CaPing ch mtu) = (Inr w, a') \<longleftrightarrow>
     ping_ok a ch mtu \<and> w = sealed_by F (ping_call a ch) \<and> a' = a\<lparr> ca_tx_c2p := ca_tx_c2p a + 1 \<rparr>"
  by (auto simp: ping_Inr encrypt_application_Inr app_sealed_def ping_ok_def ping_call_def sealed_by_def)

lemma decrypt_application_any: "decrypt_application (C\<lparr> aesgcm_encrypt := F \<rparr>) = decrypt_application C"
  by (cases C) (intro ext, simp add: decrypt_application_def)

lemma ca_step_pong: "ca_step (C\<lparr> aesgcm_encrypt := F \<rparr>) a (CaPong ch mtu raw) = ca_step C a (CaPong ch mtu raw)"
  by (simp only: ca_step.simps CentralApplication_accept_pong_def decrypt_application_any)

lemma ping_wires_stop: "ca_step C a c = (Inl e, a') \<Longrightarrow> ping_wires C a (c # cs) = []"
  using ping_wires_closed ca_owner.failure_closes by (auto split: ca_call.splits)

lemma ping_wires_calls:
  "\<exists>calls. (\<forall>F. ping_wires (C\<lparr> aesgcm_encrypt := F \<rparr>) a cs = map (sealed_by F) calls)
     \<and> list_all (\<lambda>x. ac_key x = as_app_c2p (ca_handshake a)) calls \<and> distinct (map ac_nonce calls)
     \<and> (\<forall>x \<in> set calls. length (ca_iv_c2p a) = 12 \<and> (\<exists>s. ca_tx_c2p a \<le> s \<and> seq_ok s \<and> ac_nonce x = app_nonce (ca_iv_c2p a) s))"
proof (induction cs arbitrary: a)
  case Nil
  show ?case by (intro exI [of _ "[]"]) simp
next
  case (Cons c cs)
  show ?case
  proof (cases c)
    case (CaPing ch mtu)
    show ?thesis
    proof (cases "ping_ok a ch mtu")
      case True
      let ?a = "a\<lparr> ca_tx_c2p := ca_tx_c2p a + 1 \<rparr>"
      obtain calls where calls: "\<forall>F. ping_wires (C\<lparr> aesgcm_encrypt := F \<rparr>) ?a cs = map (sealed_by F) calls"
          "list_all (\<lambda>x. ac_key x = as_app_c2p (ca_handshake a)) calls" "distinct (map ac_nonce calls)"
          "\<forall>x \<in> set calls. \<exists>s. ca_tx_c2p a + 1 \<le> s \<and> seq_ok s \<and> ac_nonce x = app_nonce (ca_iv_c2p a) s"
        using Cons.IH [of ?a] by auto
      have iv: "length (ca_iv_c2p a) = 12" "seq_ok (ca_tx_c2p a)"
        using True by (auto simp: ping_ok_def app_args_ok_def)
      have "ping_wires (C\<lparr> aesgcm_encrypt := F \<rparr>) a (c # cs) = map (sealed_by F) (ping_call a ch # calls)" for F
      proof -
        have "ca_step (C\<lparr> aesgcm_encrypt := F \<rparr>) a c = (Inr (sealed_by F (ping_call a ch)), ?a)"
          using True ca_step_ping [of F C a ch mtu] CaPing by simp
        then show ?thesis using calls(1) CaPing by (simp del: ca_step.simps)
      qed
      moreover have "ac_nonce (ping_call a ch) \<notin> ac_nonce ` set calls"
        using calls(4) iv app_nonce_inject by (force simp: ping_call_def)
      moreover have "\<exists>s. ca_tx_c2p a \<le> s \<and> seq_ok s \<and> ac_nonce x = app_nonce (ca_iv_c2p a) s"
        if "x \<in> set (ping_call a ch # calls)" for x
      proof (cases "x = ping_call a ch")
        case True
        then show ?thesis using iv(2) by (intro exI [of _ "ca_tx_c2p a"]) (simp add: ping_call_def)
      next
        case False
        then have "x \<in> set calls" using that by simp
        then obtain s where "ca_tx_c2p a + 1 \<le> s" "seq_ok s" "ac_nonce x = app_nonce (ca_iv_c2p a) s" using calls(4) by blast
        then show ?thesis by (intro exI [of _ s]) simp
      qed
      ultimately show ?thesis
        using calls(2,3) iv(1) by (intro exI [of _ "ping_call a ch # calls"]) (simp add: ping_call_def)
    next
      case False
      have "ping_wires (C\<lparr> aesgcm_encrypt := F \<rparr>) a (c # cs) = []" for F
      proof -
        have "fst (ca_step (C\<lparr> aesgcm_encrypt := F \<rparr>) a c) \<noteq> Inr w" for w
          using False ca_step_ping [of F C a ch mtu] CaPing by (metis prod.collapse)
        then show ?thesis by (metis Inr_or_Inl ping_wires_stop prod.collapse)
      qed
      then show ?thesis by (intro exI [of _ "[]"]) simp
    qed
  next
    case (CaPong ch mtu raw)
    obtain r a' where s: "ca_step C a c = (r, a')" by fastforce
    then have s': "ca_step (C\<lparr> aesgcm_encrypt := F \<rparr>) a c = (r, a')" for F using CaPong ca_step_pong by simp
    show ?thesis
    proof (cases r)
      case (Inl e)
      then have "ping_wires (C\<lparr> aesgcm_encrypt := F \<rparr>) a (c # cs) = []" for F using s' ping_wires_stop by blast
      then show ?thesis by (intro exI [of _ "[]"]) simp
    next
      case (Inr w)
      then have a: "ca_handshake a' = ca_handshake a" "ca_iv_c2p a' = ca_iv_c2p a" "ca_tx_c2p a' = ca_tx_c2p a"
        using s CaPong by (auto simp: pong_Inr)
      have "ping_wires (C\<lparr> aesgcm_encrypt := F \<rparr>) a (c # cs) = ping_wires (C\<lparr> aesgcm_encrypt := F \<rparr>) a' cs" for F
        using s' Inr CaPong by (simp del: ca_step.simps)
      then show ?thesis using Cons.IH [of a'] a by simp
    qed
  qed
qed

subsection \<open>Owners of an application session\<close>

text \<open>A handshake object that lends its keys, and whose \<open>clear\<close> takes them back.\<close>

locale app_session_owner =
  fixes view :: "'h \<Rightarrow> app_session" and clear :: "'h \<Rightarrow> 'h"
  assumes view_clear: "view (clear h) = app_session_clear (view h)"
begin

lemma cleared_not_secure: "as_state (view (clear h)) = HS_CLOSED" "as_session_id (view (clear h)) = []"
  by (simp_all add: view_clear app_session_clear_def)

lemma cleared_keys_wiped: "wiped (as_app_c2p (view (clear h)))" "wiped (as_app_p2c (view (clear h)))"
  by (simp_all add: view_clear app_session_clear_def)

lemma no_application_after_clear: "\<exists>e. fst (CentralApplication_init (view (clear h)) iv iv') = Inl e"
  using cleared_not_secure(1)
  by (auto simp: CentralApplication_init_def Let_def onerr_def bindM_def CentralApplication_require_secure_def
      requireR_def)

end

definition cp3_session :: "cp3 \<Rightarrow> app_session" where
  "cp3_session h = \<lparr> as_state = h3_state h, as_profile = 0x10, as_app_c2p = h3_app_c2p h,
     as_app_p2c = h3_app_p2c h, as_session_id = h3_session_id h \<rparr>"

interpretation cp3_lender: app_session_owner cp3_session cp3_clear
  by unfold_locales (simp add: cp3_session_def cp3_clear_def cp3_clear_handshake_def app_session_clear_def)

definition resume_session :: "central_resume \<Rightarrow> app_session" where
  "resume_session c = \<lparr> as_state = cr_state c, as_profile = cr_profile c, as_app_c2p = CentralResume_app_c2p c,
     as_app_p2c = CentralResume_app_p2c c, as_session_id = cr_session_id c \<rparr>"

interpretation resume_lender: app_session_owner resume_session CentralResume_clear
  by unfold_locales (auto simp: resume_session_def CentralResume_clear_def CentralResume_app_c2p_def
      CentralResume_app_p2c_def SessionKeys_clear_def SessionKeys_clear_confirmation_def app_session_clear_def
      split: option.splits)

section \<open>Properties\<close>

text \<open>
  C31. Application decryption is exact: for either direction, a frame decrypts to a plaintext if and
  only if it is what \<open>encrypt_application\<close> produces for that plaintext under the same key, IV base,
  session id and profile, with the expected sequence number and the direction's message type, the
  plaintext is a 16-byte challenge and the sequence number is not the reserved last one. So honest
  frames decrypt, and nothing else does.
\<close>

theorem cp4_decrypt_exact:
  assumes "aead_laws C" and "t = APP_C2P \<or> t = APP_P2C"
  shows "decrypt_application C key iv sid raw t x p = Inr pt \<longleftrightarrow>
     encrypt_application C key iv sid t x (if t = APP_C2P then PING else PONG) pt p = Inr raw
     \<and> length pt = CHALLENGE_SIZE \<and> x < UINT64_MAX"
  using decrypt_application_iff [OF assms] .

theorem cp4_decrypt_exact_witness:
  "\<exists>raw. encrypt_application demo_crypto (replicate 32 1) (replicate 12 2) (replicate 16 3) APP_C2P 5 PING (replicate 16 4) 16 = Inr raw
     \<and> decrypt_application demo_crypto (replicate 32 1) (replicate 12 2) (replicate 16 3) raw APP_C2P 5 16 = Inr (replicate 16 4)"
proof -
  obtain raw where "encrypt_application demo_crypto (replicate 32 1) (replicate 12 2) (replicate 16 3) APP_C2P 5 PING (replicate 16 4) 16 = Inr raw"
    by (simp add: encrypt_application_Inr app_args_ok_def seq_ok_def app_profile_ok_def)
  then show ?thesis using cp4_decrypt_exact [OF demo_aead_laws, of APP_C2P] by simp
qed

text \<open>
  C32. No AES-GCM nonce is ever used twice under a key: for any sequence of PING and PONG calls on an
  application object, the frames it produced are a list of calls of AES-GCM, the same whatever function
  is in its place, so these are the arguments it was given; all have the object's sending key, and
  their nonces are pairwise different.
\<close>

theorem cp4_nonces_distinct:
  "\<exists>calls. (\<forall>F. ping_wires (C\<lparr> aesgcm_encrypt := F \<rparr>) a cs = map (sealed_by F) calls)
     \<and> list_all (\<lambda>x. ac_key x = as_app_c2p (ca_handshake a)) calls
     \<and> distinct (map ac_nonce calls)"
  using ping_wires_calls [of C a cs] by blast

text \<open>
  A PING reaches the peer and its PONG is accepted: on an application object in APP\_SECURE with
  keys of the right sizes and counters below the limit, a 16-byte challenge and an MTU of at least
  54 bytes, the PING frame decrypts under the same keys to the challenge, and the PONG frame that
  echoes it is accepted; both counters advance by one.
\<close>

theorem cp4_ping_pong:
  assumes "aead_laws C" and "as_state (ca_handshake a) = HS_APP_SECURE" and "app_profile_ok (ca_profile a)"
    and "length (as_app_c2p (ca_handshake a)) = 32" and "length (as_app_p2c (ca_handshake a)) = 32"
    and "length (as_session_id (ca_handshake a)) = 16"
    and "length (ca_iv_c2p a) = IV_SIZE" and "length (ca_iv_p2c a) = IV_SIZE"
    and "0 \<le> ca_tx_c2p a" and "ca_tx_c2p a < UINT64_MAX" and "0 \<le> ca_rx_p2c a" and "ca_rx_p2c a < UINT64_MAX"
    and "length ch = CHALLENGE_SIZE" and "54 \<le> mtu"
  shows "\<exists>ping a1 pong a2. CentralApplication_encrypt_ping C ch mtu a = (Inr ping, a1)
    \<and> decrypt_application C (as_app_c2p (ca_handshake a)) (ca_iv_c2p a) (as_session_id (ca_handshake a))
        ping APP_C2P (ca_tx_c2p a) (ca_profile a) = Inr ch
    \<and> encrypt_application C (as_app_p2c (ca_handshake a)) (ca_iv_p2c a) (as_session_id (ca_handshake a))
        APP_P2C (ca_rx_p2c a) PONG ch (ca_profile a) = Inr pong
    \<and> CentralApplication_accept_pong C ch mtu pong a1 = (Inr (), a2)
    \<and> ca_tx_c2p a2 = ca_tx_c2p a + 1 \<and> ca_rx_p2c a2 = ca_rx_p2c a + 1 \<and> length ping = 51"
proof -
  let ?h = "ca_handshake a"
  obtain ping where ping: "encrypt_application C (as_app_c2p ?h) (ca_iv_c2p a) (as_session_id ?h)
      APP_C2P (ca_tx_c2p a) PING ch (ca_profile a) = Inr ping"
    using assms by (simp add: encrypt_application_Inr app_args_ok_def seq_ok_def)
  obtain pong where pong: "encrypt_application C (as_app_p2c ?h) (ca_iv_p2c a) (as_session_id ?h)
      APP_P2C (ca_rx_p2c a) PONG ch (ca_profile a) = Inr pong"
    using assms by (simp add: encrypt_application_Inr app_args_ok_def seq_ok_def)
  have len: "length ping = 51" "length pong = 51"
    using ping pong assms(13) length_aesgcm_encrypt [OF assms(1)]
    by (auto simp: encrypt_application_Inr app_sealed_def)
  have 1: "CentralApplication_encrypt_ping C ch mtu a = (Inr ping, a\<lparr> ca_tx_c2p := ca_tx_c2p a + 1 \<rparr>)"
    using ping assms by (simp add: ping_Inr)
  have 2: "decrypt_application C (as_app_c2p ?h) (ca_iv_c2p a) (as_session_id ?h) ping APP_C2P (ca_tx_c2p a) (ca_profile a) = Inr ch"
    using ping assms(10,13) decrypt_application_iff [OF assms(1), of APP_C2P] by simp
  have 3: "decrypt_application C (as_app_p2c ?h) (ca_iv_p2c a) (as_session_id ?h) pong APP_P2C (ca_rx_p2c a) (ca_profile a) = Inr ch"
    using pong assms(12,13) decrypt_application_iff [OF assms(1), of APP_P2C] by simp
  have 4: "CentralApplication_accept_pong C ch mtu pong (a\<lparr> ca_tx_c2p := ca_tx_c2p a + 1 \<rparr>)
      = (Inr (), a\<lparr> ca_tx_c2p := ca_tx_c2p a + 1, ca_rx_p2c := ca_rx_p2c a + 1 \<rparr>)"
    using 3 assms(2,14) len by (simp add: pong_Inr)
  show ?thesis using 1 2 4 pong len by force
qed

definition demo_application :: central_application where
  "demo_application = \<lparr> ca_handshake = \<lparr> as_state = HS_APP_SECURE, as_profile = 16, as_app_c2p = replicate 32 1,
     as_app_p2c = replicate 32 2, as_session_id = replicate 16 3 \<rparr>, ca_profile = 16, ca_iv_c2p = replicate 12 4,
     ca_iv_p2c = replicate 12 5, ca_tx_c2p = 0, ca_rx_p2c = 0 \<rparr>"

theorem cp4_ping_pong_witness:
  "\<exists>ping a1. CentralApplication_encrypt_ping demo_crypto (replicate 16 9) 60 demo_application = (Inr ping, a1) \<and> length ping = 51"
  using cp4_ping_pong [OF demo_aead_laws, of demo_application "replicate 16 9" 60]
  by (simp add: demo_application_def app_profile_ok_def) blast

text \<open>
  A PONG is accepted at most once and only in order: over any list of received frames, the
  accepted ones carry strictly increasing sequence numbers, each above every number accepted
  before, and a frame accepted once is refused in every later state.
\<close>

theorem cp4_pong_no_replay:
  assumes "CentralApplication_accept_pong C ch mtu raw a = (Inr (), a')"
  shows "sorted_wrt (<) (map app_wire_seq (run_accepted (\<lambda>a w. CentralApplication_accept_pong C ch mtu w a) a ws))
    \<and> (\<exists>e. fst (CentralApplication_accept_pong C ch mtu raw
             (run_state (\<lambda>a w. CentralApplication_accept_pong C ch mtu w a) a' ws)) = Inl e)"
  using pong_guard.accepted_increasing pong_guard.no_replay [OF assms] by blast

theorem cp4_pong_no_replay_witness:
  "\<exists>pong a'. CentralApplication_accept_pong demo_crypto (replicate 16 9) 60 pong demo_application = (Inr (), a')
     \<and> (\<exists>e. fst (CentralApplication_accept_pong demo_crypto (replicate 16 9) 60 pong a') = Inl e)"
proof -
  obtain pong where "encrypt_application demo_crypto (replicate 32 2) (replicate 12 5) (replicate 16 3) APP_P2C 0 PONG (replicate 16 9) 16 = Inr pong"
    by (simp add: encrypt_application_Inr app_args_ok_def seq_ok_def app_profile_ok_def)
  moreover from this have "length pong = 51"
    using length_aesgcm_encrypt [OF demo_aead_laws] by (auto simp: encrypt_application_Inr app_sealed_def)
  ultimately obtain a' where a: "CentralApplication_accept_pong demo_crypto (replicate 16 9) 60 pong demo_application = (Inr (), a')"
    using decrypt_application_iff [OF demo_aead_laws, of APP_P2C] by (simp add: pong_Inr demo_application_def)
  then show ?thesis using cp4_pong_no_replay [OF a, of "[]"] by auto
qed

text \<open>
  The application object and the handshake that lends it keys close together: after any failed
  PING or PONG the application keys and IV bases are zeroed, the session id is gone, the handshake
  is closed, and no later PING or PONG succeeds.
\<close>

theorem cp4_fails_closed:
  assumes "ca_step C a c = (Inl e, t)"
  shows "ca_closed t \<and> ca_closed (run_state (ca_step C) t cs) \<and> run_accepted (ca_step C) t cs = []"
  using ca_owner.failure_closes [OF assms] ca_owner.closed_run ca_owner.nothing_after_failure [OF assms] by blast

theorem cp4_fails_closed_witness:
  "\<exists>e t. ca_step demo_crypto demo_application (CaPing [] 60) = (Inl e, t) \<and> ca_closed t"
proof -
  have "ca_step demo_crypto demo_application (CaPing [] 60) \<noteq> (Inr w, t)" for w t
    by (simp add: ping_Inr)
  then obtain e t where "ca_step demo_crypto demo_application (CaPing [] 60) = (Inl e, t)"
    by (metis Inr_or_Inl prod.exhaust)
  then show ?thesis using cp4_fails_closed by blast
qed

end
