(* ===== verification/Phase7.thy ===== *)
theory Phase7
  imports Session
begin

text \<open>
  \<open>src/common/phase7.py\<close>, the hybrid ML-KEM-768/P-256 primitives of v0.7: P-256 key handling, the
  eight-field transcript, the hybrid key schedule, SAS and FINISHED values, directional traffic
  keys and the strictly sized PQS7 frames. A P-256 private key is named by its scalar, a loaded
  public key by its SEC1 encoding; arguments of a wrong Python type (and keys on other curves) do
  not exist in the typed model.
\<close>

section \<open>Constants\<close>

definition PHASE7_DOMAIN :: bytes where "PHASE7_DOMAIN = ascii ''PQ-BLE-HANDSHAKE-v0.7''"
definition PHASE7_CENTRAL_ROLE :: bytes where "PHASE7_CENTRAL_ROLE = [0x01]"
definition PHASE7_PERIPHERAL_ROLE :: bytes where "PHASE7_PERIPHERAL_ROLE = [0x02]"
definition PHASE7_KDF_INFO :: bytes where
  "PHASE7_KDF_INFO = ascii ''PQ-BLE-HANDSHAKE-v0.7/hybrid-key-schedule''"
definition PHASE7_SAS_LABEL :: bytes where "PHASE7_SAS_LABEL = ascii ''PQ-BLE-HANDSHAKE-v0.7/SAS''"
definition PHASE7_FINISHED_C_LABEL :: bytes where
  "PHASE7_FINISHED_C_LABEL = ascii ''PQ-BLE-HANDSHAKE-v0.7/FINISHED/C''"
definition PHASE7_FINISHED_P_LABEL :: bytes where
  "PHASE7_FINISHED_P_LABEL = ascii ''PQ-BLE-HANDSHAKE-v0.7/FINISHED/P''"
definition PHASE7_C2P_LABEL :: bytes where
  "PHASE7_C2P_LABEL = ascii ''PQ-BLE-TRAFFIC-v0.7/CENTRAL-TO-PERIPHERAL''"
definition PHASE7_P2C_LABEL :: bytes where
  "PHASE7_P2C_LABEL = ascii ''PQ-BLE-TRAFFIC-v0.7/PERIPHERAL-TO-CENTRAL''"
definition PHASE7_FRAME_MAGIC :: bytes where "PHASE7_FRAME_MAGIC = ascii ''PQS7''"
definition PHASE7_CP2_DIAGNOSTIC_LABEL :: bytes where
  "PHASE7_CP2_DIAGNOSTIC_LABEL = ascii ''PQ-BLE-HANDSHAKE-v0.7/CP2-DIAGNOSTIC''"

abbreviation (input) PHASE7_SESSION_ID_SIZE :: nat where "PHASE7_SESSION_ID_SIZE \<equiv> 16"
abbreviation (input) PHASE7_MLKEM_PUBLIC_KEY_SIZE :: nat where "PHASE7_MLKEM_PUBLIC_KEY_SIZE \<equiv> 1184"
abbreviation (input) PHASE7_MLKEM_CIPHERTEXT_SIZE :: nat where "PHASE7_MLKEM_CIPHERTEXT_SIZE \<equiv> 1088"
abbreviation (input) PHASE7_P256_PUBLIC_KEY_SIZE :: nat where "PHASE7_P256_PUBLIC_KEY_SIZE \<equiv> 65"
abbreviation (input) PHASE7_SHARED_SECRET_SIZE :: nat where "PHASE7_SHARED_SECRET_SIZE \<equiv> 32"
abbreviation (input) PHASE7_HYBRID_IKM_SIZE :: nat where "PHASE7_HYBRID_IKM_SIZE \<equiv> 68"
abbreviation (input) PHASE7_TRANSCRIPT_SIZE :: nat where "PHASE7_TRANSCRIPT_SIZE \<equiv> 2457"
abbreviation (input) PHASE7_HASH_SIZE :: nat where "PHASE7_HASH_SIZE \<equiv> 32"
abbreviation (input) PHASE7_KEY_SIZE :: nat where "PHASE7_KEY_SIZE \<equiv> 32"
abbreviation (input) PHASE7_KEY_BLOCK_SIZE :: nat where "PHASE7_KEY_BLOCK_SIZE \<equiv> 128"
abbreviation (input) PHASE7_SAS_MODULUS :: nat where "PHASE7_SAS_MODULUS \<equiv> 1000000"
abbreviation (input) PHASE7_FRAME_VERSION :: int where "PHASE7_FRAME_VERSION \<equiv> 0x07"
abbreviation (input) PHASE7_FRAME_HEADER_SIZE :: nat where "PHASE7_FRAME_HEADER_SIZE \<equiv> 8"
abbreviation (input) PHASE7_START7 :: int where "PHASE7_START7 \<equiv> 0x01"
abbreviation (input) PHASE7_READY7_CP2 :: int where "PHASE7_READY7_CP2 \<equiv> 0x02"
abbreviation (input) PHASE7_START7_AUTH :: int where "PHASE7_START7_AUTH \<equiv> 0x03"
abbreviation (input) PHASE7_READY7_AUTH :: int where "PHASE7_READY7_AUTH \<equiv> 0x04"
abbreviation (input) PHASE7_FINISHED_C :: int where "PHASE7_FINISHED_C \<equiv> 0x05"
abbreviation (input) PHASE7_FINISHED_P :: int where "PHASE7_FINISHED_P \<equiv> 0x06"
abbreviation (input) PHASE7_ERROR :: int where "PHASE7_ERROR \<equiv> 0x7F"
abbreviation (input) PHASE7_CP2_DIAGNOSTIC_SIZE :: nat where "PHASE7_CP2_DIAGNOSTIC_SIZE \<equiv> 32"
abbreviation (input) PHASE7_START7_PAYLOAD_SIZE :: nat where "PHASE7_START7_PAYLOAD_SIZE \<equiv> 81"
abbreviation (input) PHASE7_START7_FRAME_SIZE :: nat where "PHASE7_START7_FRAME_SIZE \<equiv> 89"
abbreviation (input) PHASE7_READY7_CP2_PAYLOAD_SIZE :: nat where "PHASE7_READY7_CP2_PAYLOAD_SIZE \<equiv> 97"
abbreviation (input) PHASE7_READY7_CP2_FRAME_SIZE :: nat where "PHASE7_READY7_CP2_FRAME_SIZE \<equiv> 105"
abbreviation (input) PHASE7_START7_AUTH_PAYLOAD_SIZE :: nat where "PHASE7_START7_AUTH_PAYLOAD_SIZE \<equiv> 81"
abbreviation (input) PHASE7_START7_AUTH_FRAME_SIZE :: nat where "PHASE7_START7_AUTH_FRAME_SIZE \<equiv> 89"
abbreviation (input) PHASE7_READY7_AUTH_PAYLOAD_SIZE :: nat where "PHASE7_READY7_AUTH_PAYLOAD_SIZE \<equiv> 65"
abbreviation (input) PHASE7_READY7_AUTH_FRAME_SIZE :: nat where "PHASE7_READY7_AUTH_FRAME_SIZE \<equiv> 73"
abbreviation (input) PHASE7_FINISHED_PAYLOAD_SIZE :: nat where "PHASE7_FINISHED_PAYLOAD_SIZE \<equiv> 32"
abbreviation (input) PHASE7_FINISHED_FRAME_SIZE :: nat where "PHASE7_FINISHED_FRAME_SIZE \<equiv> 40"
abbreviation (input) PHASE7_ERROR_FRAME_SIZE :: nat where "PHASE7_ERROR_FRAME_SIZE \<equiv> 9"
abbreviation (input) P256_ORDER :: int where
  "P256_ORDER \<equiv> 115792089210356248762697446949407573529996955224135760342422259061068512044369"

record phase7_keys =
  k7_application :: bytes
  k7_sas :: bytes
  k7_finished_c :: bytes
  k7_finished_p :: bytes

record phase7_traffic_keys =
  k7_central_to_peripheral :: bytes
  k7_peripheral_to_central :: bytes

section \<open>Helpers and P-256 keys\<close>

definition p7_require_size :: "bytes \<Rightarrow> nat \<Rightarrow> bytes result" where
  "p7_require_size value expected =
     (if length value \<noteq> expected then Inl (ValueError ''wrong size'') else Inr value)"

definition p7_length_prefixed :: "bytes \<Rightarrow> bytes result" where
  "p7_length_prefixed value =
     (if length value > 0xFFFF then Inl (ValueError ''transcript field exceeds the u16 length limit'')
      else Inr (be_bytes 2 (length value) @ value))"

definition p256_private_key_from_scalar :: "int \<Rightarrow> nat result" where
  "p256_private_key_from_scalar scalar =
     (if \<not> (1 \<le> scalar \<and> scalar < P256_ORDER)
      then Inl (ValueError ''P-256 private scalar is outside the valid range'') else Inr (nat scalar))"

definition serialize_p256_public_key :: "third_party \<Rightarrow> nat \<Rightarrow> bytes result" where
  "serialize_p256_public_key C key =
     (let encoded = p256_public_bytes C key
      in if length encoded \<noteq> PHASE7_P256_PUBLIC_KEY_SIZE \<or> encoded ! 0 \<noteq> 0x04
         then Inl (RuntimeError ''unexpected P-256 SEC1 public-key encoding'') else Inr encoded)"

definition load_p256_public_key :: "third_party \<Rightarrow> bytes \<Rightarrow> bytes result" where
  "load_p256_public_key C encoded =
     bindR (p7_require_size encoded PHASE7_P256_PUBLIC_KEY_SIZE) (\<lambda>encoded.
     if encoded ! 0 \<noteq> 0x04
     then Inl (ValueError ''P-256 public key must use SEC1 uncompressed format'')
     else if p256_point_ok C encoded then Inr encoded
     else Inl (ValueError ''invalid P-256 public key''))"

text \<open>The peer's key arrives as SEC1 bytes or as an already loaded key.\<close>

datatype p256_peer = PeerBytes bytes | PeerKey bytes

definition derive_p256_ecdh_shared_secret :: "third_party \<Rightarrow> nat \<Rightarrow> p256_peer \<Rightarrow> bytes result" where
  "derive_p256_ecdh_shared_secret C private_key peer_public_key =
     bindR (case peer_public_key of PeerBytes b \<Rightarrow> load_p256_public_key C b | PeerKey k \<Rightarrow> Inr k) (\<lambda>peer.
     let shared_secret = p256_exchange C private_key peer
     in if length shared_secret \<noteq> PHASE7_SHARED_SECRET_SIZE
        then Inl (RuntimeError ''unexpected P-256 ECDH shared-secret size'') else Inr shared_secret)"

section \<open>Transcript and key schedule\<close>

definition validate_transcript_public_key :: "bytes \<Rightarrow> bytes result" where
  "validate_transcript_public_key encoded =
     bindR (p7_require_size encoded PHASE7_P256_PUBLIC_KEY_SIZE) (\<lambda>encoded.
     if encoded ! 0 \<noteq> 0x04 then Inl (ValueError ''must use SEC1 uncompressed format'') else Inr encoded)"

definition build_phase7_transcript ::
  "bytes \<Rightarrow> bytes \<Rightarrow> bytes \<Rightarrow> bytes \<Rightarrow> bytes \<Rightarrow> bytes result" where
  "build_phase7_transcript session_id mlkem_public_key mlkem_ciphertext
       central_p256_public_key peripheral_p256_public_key =
     bindR (p7_require_size session_id PHASE7_SESSION_ID_SIZE) (\<lambda>session_id.
     bindR (p7_require_size mlkem_public_key PHASE7_MLKEM_PUBLIC_KEY_SIZE) (\<lambda>mlkem_public_key.
     bindR (p7_require_size mlkem_ciphertext PHASE7_MLKEM_CIPHERTEXT_SIZE) (\<lambda>mlkem_ciphertext.
     bindR (validate_transcript_public_key central_p256_public_key) (\<lambda>central_p256_public_key.
     bindR (validate_transcript_public_key peripheral_p256_public_key) (\<lambda>peripheral_p256_public_key.
     bindR (mapR p7_length_prefixed
              [PHASE7_DOMAIN, PHASE7_CENTRAL_ROLE, PHASE7_PERIPHERAL_ROLE, session_id,
               mlkem_public_key, mlkem_ciphertext, central_p256_public_key,
               peripheral_p256_public_key]) (\<lambda>fields.
     let transcript = concat fields
     in if length transcript \<noteq> PHASE7_TRANSCRIPT_SIZE
        then Inl (RuntimeError ''unexpected canonical v0.7 transcript size'')
        else Inr transcript))))))"

definition compute_phase7_transcript_hash ::
  "bytes \<Rightarrow> bytes \<Rightarrow> bytes \<Rightarrow> bytes \<Rightarrow> bytes \<Rightarrow> bytes result" where
  "compute_phase7_transcript_hash session_id mlkem_public_key mlkem_ciphertext
       central_p256_public_key peripheral_p256_public_key =
     bindR (build_phase7_transcript session_id mlkem_public_key mlkem_ciphertext
              central_p256_public_key peripheral_p256_public_key) (\<lambda>t. Inr (sha256 t))"

definition build_hybrid_ikm :: "bytes \<Rightarrow> bytes \<Rightarrow> bytes result" where
  "build_hybrid_ikm ss_mlkem ss_ecdh =
     bindR (p7_require_size ss_mlkem PHASE7_SHARED_SECRET_SIZE) (\<lambda>ss_mlkem.
     bindR (p7_require_size ss_ecdh PHASE7_SHARED_SECRET_SIZE) (\<lambda>ss_ecdh.
     bindR (p7_length_prefixed ss_mlkem) (\<lambda>a.
     bindR (p7_length_prefixed ss_ecdh) (\<lambda>b.
     let hybrid_ikm = a @ b
     in if length hybrid_ikm \<noteq> PHASE7_HYBRID_IKM_SIZE
        then Inl (RuntimeError ''unexpected hybrid IKM size'') else Inr hybrid_ikm))))"

definition derive_phase7_keys :: "third_party \<Rightarrow> bytes \<Rightarrow> bytes \<Rightarrow> bytes \<Rightarrow> phase7_keys result" where
  "derive_phase7_keys C ss_mlkem ss_ecdh transcript_hash =
     bindR (p7_require_size transcript_hash PHASE7_HASH_SIZE) (\<lambda>transcript_hash.
     bindR (build_hybrid_ikm ss_mlkem ss_ecdh) (\<lambda>hybrid_ikm.
     let key_block = hkdf_derive C PHASE7_KEY_BLOCK_SIZE transcript_hash PHASE7_KDF_INFO hybrid_ikm
     in Inr \<lparr> k7_application = slice 0 32 key_block, k7_sas = slice 32 64 key_block,
              k7_finished_c = slice 64 96 key_block, k7_finished_p = slice 96 128 key_block \<rparr>))"

definition compute_phase7_sas :: "bytes \<Rightarrow> bytes \<Rightarrow> int result" where
  "compute_phase7_sas sas_key transcript_hash =
     bindR (p7_require_size sas_key PHASE7_KEY_SIZE) (\<lambda>sas_key.
     bindR (p7_require_size transcript_hash PHASE7_HASH_SIZE) (\<lambda>transcript_hash.
     let sas_mac = hmac_sha256 sas_key (PHASE7_SAS_LABEL @ transcript_hash)
     in Inr (int (be_nat sas_mac mod PHASE7_SAS_MODULUS))))"

definition format_phase7_sas :: "int \<Rightarrow> string result" where
  "format_phase7_sas sas =
     (if \<not> (0 \<le> sas \<and> sas < int PHASE7_SAS_MODULUS)
      then Inl (ValueError ''SAS must be in [0, 999999]'')
      else Inr (zfill 6 (str_nat (nat sas))))"

definition p7_compute_finished :: "bytes \<Rightarrow> bytes \<Rightarrow> bytes \<Rightarrow> bytes result" where
  "p7_compute_finished finished_key label transcript_hash =
     bindR (p7_require_size finished_key PHASE7_KEY_SIZE) (\<lambda>finished_key.
     bindR (p7_require_size transcript_hash PHASE7_HASH_SIZE) (\<lambda>transcript_hash.
     Inr (hmac_sha256 finished_key (label @ transcript_hash))))"

definition compute_phase7_finished_c :: "bytes \<Rightarrow> bytes \<Rightarrow> bytes result" where
  "compute_phase7_finished_c finished_key transcript_hash =
     p7_compute_finished finished_key PHASE7_FINISHED_C_LABEL transcript_hash"

definition compute_phase7_finished_p :: "bytes \<Rightarrow> bytes \<Rightarrow> bytes result" where
  "compute_phase7_finished_p finished_key transcript_hash =
     p7_compute_finished finished_key PHASE7_FINISHED_P_LABEL transcript_hash"

definition derive_phase7_traffic_keys :: "bytes \<Rightarrow> phase7_traffic_keys result" where
  "derive_phase7_traffic_keys application_root_key =
     bindR (p7_require_size application_root_key PHASE7_KEY_SIZE) (\<lambda>application_root_key.
     Inr \<lparr> k7_central_to_peripheral = hmac_sha256 application_root_key PHASE7_C2P_LABEL,
           k7_peripheral_to_central = hmac_sha256 application_root_key PHASE7_P2C_LABEL \<rparr>)"

definition compute_phase7_cp2_diagnostic :: "bytes \<Rightarrow> bytes \<Rightarrow> bytes result" where
  "compute_phase7_cp2_diagnostic application_key transcript_hash =
     bindR (p7_require_size application_key PHASE7_KEY_SIZE) (\<lambda>application_key.
     bindR (p7_require_size transcript_hash PHASE7_HASH_SIZE) (\<lambda>transcript_hash.
     Inr (hmac_sha256 application_key (PHASE7_CP2_DIAGNOSTIC_LABEL @ transcript_hash))))"

section \<open>Frames\<close>

record phase7_frame =
  f7_subtype :: int
  f7_payload :: bytes

definition phase7_payload_sizes :: "int \<rightharpoonup> nat" where
  "phase7_payload_sizes = map_of
     [(PHASE7_START7, PHASE7_START7_PAYLOAD_SIZE), (PHASE7_READY7_CP2, PHASE7_READY7_CP2_PAYLOAD_SIZE),
      (PHASE7_START7_AUTH, PHASE7_START7_AUTH_PAYLOAD_SIZE),
      (PHASE7_READY7_AUTH, PHASE7_READY7_AUTH_PAYLOAD_SIZE),
      (PHASE7_FINISHED_C, PHASE7_FINISHED_PAYLOAD_SIZE),
      (PHASE7_FINISHED_P, PHASE7_FINISHED_PAYLOAD_SIZE), (PHASE7_ERROR, 1)]"

definition validate_phase7_payload :: "third_party \<Rightarrow> int \<Rightarrow> bytes \<Rightarrow> unit result" where
  "validate_phase7_payload C subtype payload =
     (case phase7_payload_sizes subtype of
        None \<Rightarrow> Inl (ValueError ''unsupported PQS7 subtype'')
      | Some sz \<Rightarrow>
          bindR (p7_require_size payload sz) (\<lambda>_.
          if subtype = PHASE7_START7 \<or> subtype = PHASE7_START7_AUTH
          then bindR (load_p256_public_key C (drop PHASE7_SESSION_ID_SIZE payload)) (\<lambda>_. Inr ())
          else if subtype = PHASE7_READY7_CP2 \<or> subtype = PHASE7_READY7_AUTH
          then bindR (load_p256_public_key C (take PHASE7_P256_PUBLIC_KEY_SIZE payload)) (\<lambda>_. Inr ())
          else Inr ()))"

definition encode_phase7_frame :: "third_party \<Rightarrow> int \<Rightarrow> bytes \<Rightarrow> bytes result" where
  "encode_phase7_frame C subtype payload =
     bindR (validate_phase7_payload C subtype payload) (\<lambda>_.
     Inr (PHASE7_FRAME_MAGIC @ [word_of_int PHASE7_FRAME_VERSION, word_of_int subtype]
          @ be_bytes 2 (length payload) @ payload))"

definition parse_phase7_frame :: "third_party \<Rightarrow> bytes \<Rightarrow> phase7_frame result" where
  "parse_phase7_frame C data =
     (if length data < PHASE7_FRAME_HEADER_SIZE then Inl (ValueError ''truncated PQS7 frame'')
      else if take 4 data \<noteq> PHASE7_FRAME_MAGIC then Inl (ValueError ''incorrect PQS7 magic'')
      else if uint (data ! 4) \<noteq> PHASE7_FRAME_VERSION then Inl (ValueError ''incorrect PQS7 version'')
      else if length data \<noteq> PHASE7_FRAME_HEADER_SIZE + be_nat (slice 6 8 data)
      then Inl (ValueError ''incorrect PQS7 payload length'')
      else let frame = \<lparr> f7_subtype = uint (data ! 5), f7_payload = drop 8 data \<rparr>
           in bindR (validate_phase7_payload C (f7_subtype frame) (f7_payload frame)) (\<lambda>_. Inr frame))"

definition encode_start7 :: "third_party \<Rightarrow> bytes \<Rightarrow> bytes \<Rightarrow> bytes result" where
  "encode_start7 C session_id central_public_key =
     bindR (p7_require_size session_id PHASE7_SESSION_ID_SIZE) (\<lambda>session_id.
     encode_phase7_frame C PHASE7_START7 (session_id @ central_public_key))"

definition parse_start7 :: "third_party \<Rightarrow> bytes \<Rightarrow> (bytes \<times> bytes) result" where
  "parse_start7 C data =
     bindR (parse_phase7_frame C data) (\<lambda>frame.
     if f7_subtype frame \<noteq> PHASE7_START7 then Inl (ValueError ''expected START7'')
     else Inr (take PHASE7_SESSION_ID_SIZE (f7_payload frame), drop PHASE7_SESSION_ID_SIZE (f7_payload frame)))"

definition encode_ready7_cp2 :: "third_party \<Rightarrow> bytes \<Rightarrow> bytes \<Rightarrow> bytes result" where
  "encode_ready7_cp2 C peripheral_public_key diagnostic =
     bindR (p7_require_size peripheral_public_key PHASE7_P256_PUBLIC_KEY_SIZE) (\<lambda>peripheral_public_key.
     bindR (p7_require_size diagnostic PHASE7_CP2_DIAGNOSTIC_SIZE) (\<lambda>diagnostic.
     encode_phase7_frame C PHASE7_READY7_CP2 (peripheral_public_key @ diagnostic)))"

definition parse_ready7_cp2 :: "third_party \<Rightarrow> bytes \<Rightarrow> (bytes \<times> bytes) result" where
  "parse_ready7_cp2 C data =
     bindR (parse_phase7_frame C data) (\<lambda>frame.
     if f7_subtype frame \<noteq> PHASE7_READY7_CP2 then Inl (ValueError ''expected READY7_CP2'')
     else Inr (take PHASE7_P256_PUBLIC_KEY_SIZE (f7_payload frame),
               drop PHASE7_P256_PUBLIC_KEY_SIZE (f7_payload frame)))"

definition encode_start7_auth :: "third_party \<Rightarrow> bytes \<Rightarrow> bytes \<Rightarrow> bytes result" where
  "encode_start7_auth C session_id central_public_key =
     bindR (p7_require_size session_id PHASE7_SESSION_ID_SIZE) (\<lambda>session_id.
     bindR (p7_require_size central_public_key PHASE7_P256_PUBLIC_KEY_SIZE) (\<lambda>central_public_key.
     bindR (load_p256_public_key C central_public_key) (\<lambda>_.
     encode_phase7_frame C PHASE7_START7_AUTH (session_id @ central_public_key))))"

definition parse_start7_auth :: "third_party \<Rightarrow> bytes \<Rightarrow> (bytes \<times> bytes) result" where
  "parse_start7_auth C data =
     bindR (parse_phase7_frame C data) (\<lambda>frame.
     if f7_subtype frame \<noteq> PHASE7_START7_AUTH then Inl (ValueError ''expected START7_AUTH'')
     else Inr (take PHASE7_SESSION_ID_SIZE (f7_payload frame), drop PHASE7_SESSION_ID_SIZE (f7_payload frame)))"

definition encode_ready7_auth :: "third_party \<Rightarrow> bytes \<Rightarrow> bytes result" where
  "encode_ready7_auth C peripheral_public_key =
     bindR (p7_require_size peripheral_public_key PHASE7_P256_PUBLIC_KEY_SIZE) (\<lambda>peripheral_public_key.
     bindR (load_p256_public_key C peripheral_public_key) (\<lambda>_.
     encode_phase7_frame C PHASE7_READY7_AUTH peripheral_public_key))"

definition parse_ready7_auth :: "third_party \<Rightarrow> bytes \<Rightarrow> bytes result" where
  "parse_ready7_auth C data =
     bindR (parse_phase7_frame C data) (\<lambda>frame.
     if f7_subtype frame \<noteq> PHASE7_READY7_AUTH then Inl (ValueError ''expected READY7_AUTH'')
     else Inr (f7_payload frame))"

definition encode_phase7_finished_c :: "third_party \<Rightarrow> bytes \<Rightarrow> bytes result" where
  "encode_phase7_finished_c C finished =
     bindR (p7_require_size finished PHASE7_FINISHED_PAYLOAD_SIZE) (\<lambda>finished.
     encode_phase7_frame C PHASE7_FINISHED_C finished)"

definition parse_phase7_finished_c :: "third_party \<Rightarrow> bytes \<Rightarrow> bytes result" where
  "parse_phase7_finished_c C data =
     bindR (parse_phase7_frame C data) (\<lambda>frame.
     if f7_subtype frame \<noteq> PHASE7_FINISHED_C then Inl (ValueError ''expected FINISHED_C'')
     else Inr (f7_payload frame))"

definition encode_phase7_finished_p :: "third_party \<Rightarrow> bytes \<Rightarrow> bytes result" where
  "encode_phase7_finished_p C finished =
     bindR (p7_require_size finished PHASE7_FINISHED_PAYLOAD_SIZE) (\<lambda>finished.
     encode_phase7_frame C PHASE7_FINISHED_P finished)"

definition parse_phase7_finished_p :: "third_party \<Rightarrow> bytes \<Rightarrow> bytes result" where
  "parse_phase7_finished_p C data =
     bindR (parse_phase7_frame C data) (\<lambda>frame.
     if f7_subtype frame \<noteq> PHASE7_FINISHED_P then Inl (ValueError ''expected FINISHED_P'')
     else Inr (f7_payload frame))"

section \<open>Lemmas\<close>

lemma p7_require_size_Inr [simp]: "p7_require_size v n = Inr w \<longleftrightarrow> length v = n \<and> w = v"
  by (auto simp: p7_require_size_def)

lemma p7_length_prefixed_Inr [simp]:
  "p7_length_prefixed v = Inr w \<longleftrightarrow> length v \<le> 65535 \<and> w = lp_field v"
  by (auto simp: p7_length_prefixed_def lp_field_def)

lemma length_phase7_constants [simp]:
  "length PHASE7_DOMAIN = 21" "length PHASE7_CENTRAL_ROLE = 1" "length PHASE7_PERIPHERAL_ROLE = 1"
  "length PHASE7_FRAME_MAGIC = 4"
  by (simp_all add: PHASE7_DOMAIN_def PHASE7_CENTRAL_ROLE_def PHASE7_PERIPHERAL_ROLE_def
      PHASE7_FRAME_MAGIC_def)

lemma load_p256_public_key_Inr [simp]:
  "load_p256_public_key C q = Inr k \<longleftrightarrow> length q = 65 \<and> q ! 0 = 4 \<and> p256_point_ok C q \<and> k = q"
  by (auto simp: load_p256_public_key_def)

definition p7_valid :: "third_party \<Rightarrow> int \<Rightarrow> bytes \<Rightarrow> bool" where
  "p7_valid C t p \<longleftrightarrow> validate_phase7_payload C t p = Inr ()"

lemma p7_valid_iff:
  "p7_valid C t p \<longleftrightarrow>
     (t \<in> {1, 3} \<and> length p = 81 \<and> (\<exists>k. load_p256_public_key C (drop 16 p) = Inr k))
   \<or> (t = 2 \<and> length p = 97 \<and> (\<exists>k. load_p256_public_key C (take 65 p) = Inr k))
   \<or> (t = 4 \<and> length p = 65 \<and> (\<exists>k. load_p256_public_key C p = Inr k))
   \<or> (t \<in> {5, 6} \<and> length p = 32) \<or> (t = 127 \<and> length p = 1)"
  by (auto simp: p7_valid_def validate_phase7_payload_def phase7_payload_sizes_def split: option.splits)

lemma p7_valid_byte: "p7_valid C t p \<Longrightarrow> 0 \<le> t \<and> t \<le> 255 \<and> length p \<le> 65535"
  by (auto simp: p7_valid_iff)

interpretation pqs7: frame_codec PHASE7_FRAME_MAGIC PHASE7_FRAME_VERSION "p7_valid C"
  "encode_phase7_frame C" "parse_phase7_frame C" f7_subtype f7_payload for C
proof
  fix t p w
  show "encode_phase7_frame C t p = Inr w \<longleftrightarrow>
      p7_valid C t p \<and> w = frame_wire PHASE7_FRAME_MAGIC 7 t p"
    by (auto simp: encode_phase7_frame_def frame_wire_def p7_valid_def)
  let ?w = "frame_wire PHASE7_FRAME_MAGIC 7 t p"
  assume v: "p7_valid C t p"
  show "0 \<le> t \<and> t \<le> 255 \<and> length p \<le> 65535" using p7_valid_byte [OF v] .
  then show "\<exists>f. parse_phase7_frame C ?w = Inr f \<and> f7_subtype f = t \<and> f7_payload f = p"
    using parse_wire_length [of PHASE7_FRAME_MAGIC p 7 t] v
    by (simp add: parse_phase7_frame_def Let_def frame_wire_parts p7_valid_def)
next
  fix w f
  assume "parse_phase7_frame C w = Inr f"
  then show "p7_valid C (f7_subtype f) (f7_payload f)
      \<and> w = frame_wire PHASE7_FRAME_MAGIC 7 (f7_subtype f) (f7_payload f)"
    using frame_wire_intro [of w PHASE7_FRAME_MAGIC 7]
    by (auto simp: parse_phase7_frame_def Let_def p7_valid_def split: if_splits)
qed simp_all

text \<open>Every typed message is one subtype of the frame format: parsing is encoding backwards.\<close>

lemma parse_as_subtype:
  "(\<exists>f. parse_phase7_frame C w = Inr f \<and> f7_subtype f = t \<and> f7_payload f = p)
     \<longleftrightarrow> encode_phase7_frame C t p = Inr w"
  using pqs7.decode_encode pqs7.encode_decode by blast

lemma parse_subtype_result:
  "bindR (parse_phase7_frame C w) (\<lambda>f. if f7_subtype f \<noteq> t then Inl e else Inr (g (f7_payload f))) = Inr x
     \<longleftrightarrow> (\<exists>p. encode_phase7_frame C t p = Inr w \<and> x = g p)"
  by (auto simp flip: parse_as_subtype split: if_splits)

lemma length_encode_phase7:
  "encode_phase7_frame C t p = Inr w \<Longrightarrow> length w = 8 + length p"
  by (simp add: pqs7.encode_Inr)

text \<open>The wires of the typed messages, with what each payload has to satisfy.\<close>

lemma encode_phase7_cases:
  "encode_phase7_frame C 1 p = Inr w \<longleftrightarrow> length p = 81 \<and> (\<exists>k. load_p256_public_key C (drop 16 p) = Inr k)
     \<and> w = frame_wire PHASE7_FRAME_MAGIC 7 1 p"
  "encode_phase7_frame C 2 p = Inr w \<longleftrightarrow> length p = 97 \<and> (\<exists>k. load_p256_public_key C (take 65 p) = Inr k)
     \<and> w = frame_wire PHASE7_FRAME_MAGIC 7 2 p"
  "encode_phase7_frame C 3 p = Inr w \<longleftrightarrow> length p = 81 \<and> (\<exists>k. load_p256_public_key C (drop 16 p) = Inr k)
     \<and> w = frame_wire PHASE7_FRAME_MAGIC 7 3 p"
  "encode_phase7_frame C 4 p = Inr w \<longleftrightarrow> (\<exists>k. load_p256_public_key C p = Inr k)
     \<and> w = frame_wire PHASE7_FRAME_MAGIC 7 4 p"
  "encode_phase7_frame C 5 p = Inr w \<longleftrightarrow> length p = 32 \<and> w = frame_wire PHASE7_FRAME_MAGIC 7 5 p"
  "encode_phase7_frame C 6 p = Inr w \<longleftrightarrow> length p = 32 \<and> w = frame_wire PHASE7_FRAME_MAGIC 7 6 p"
  by (auto simp: pqs7.encode_Inr p7_valid_iff)

lemma parse_start7_exact:
  "parse_start7 C w = Inr (sid, q) \<longleftrightarrow> encode_start7 C sid q = Inr w \<and> length w = 89"
proof -
  have "parse_start7 C w = Inr (sid, q) \<longleftrightarrow>
      (\<exists>p. encode_phase7_frame C 1 p = Inr w \<and> (sid, q) = (take 16 p, drop 16 p))"
    unfolding parse_start7_def by (rule parse_subtype_result)
  also have "\<dots> \<longleftrightarrow> encode_start7 C sid q = Inr w \<and> length w = 89"
    by (auto simp: encode_start7_def encode_phase7_cases intro!: exI [of _ "sid @ q"])
  finally show ?thesis .
qed

lemma parse_ready7_cp2_exact:
  "parse_ready7_cp2 C w = Inr (q, d) \<longleftrightarrow> encode_ready7_cp2 C q d = Inr w \<and> length w = 105"
proof -
  have "parse_ready7_cp2 C w = Inr (q, d) \<longleftrightarrow>
      (\<exists>p. encode_phase7_frame C 2 p = Inr w \<and> (q, d) = (take 65 p, drop 65 p))"
    unfolding parse_ready7_cp2_def by (rule parse_subtype_result)
  also have "\<dots> \<longleftrightarrow> encode_ready7_cp2 C q d = Inr w \<and> length w = 105"
    by (auto simp: encode_ready7_cp2_def encode_phase7_cases nth_append intro!: exI [of _ "q @ d"])
  finally show ?thesis .
qed

lemma parse_start7_auth_exact:
  "parse_start7_auth C w = Inr (sid, q) \<longleftrightarrow> encode_start7_auth C sid q = Inr w \<and> length w = 89"
proof -
  have "parse_start7_auth C w = Inr (sid, q) \<longleftrightarrow>
      (\<exists>p. encode_phase7_frame C 3 p = Inr w \<and> (sid, q) = (take 16 p, drop 16 p))"
    unfolding parse_start7_auth_def by (rule parse_subtype_result)
  also have "\<dots> \<longleftrightarrow> encode_start7_auth C sid q = Inr w \<and> length w = 89"
    by (auto simp: encode_start7_auth_def encode_phase7_cases intro!: exI [of _ "sid @ q"])
  finally show ?thesis .
qed

lemma parse_ready7_auth_exact:
  "parse_ready7_auth C w = Inr q \<longleftrightarrow> encode_ready7_auth C q = Inr w \<and> length w = 73"
proof -
  have "parse_ready7_auth C w = Inr q \<longleftrightarrow> (\<exists>p. encode_phase7_frame C 4 p = Inr w \<and> q = p)"
    unfolding parse_ready7_auth_def by (rule parse_subtype_result)
  also have "\<dots> \<longleftrightarrow> encode_ready7_auth C q = Inr w \<and> length w = 73"
    by (auto simp: encode_ready7_auth_def encode_phase7_cases)
  finally show ?thesis .
qed

lemma parse_finished_exact:
  "parse_phase7_finished_c C w = Inr v \<longleftrightarrow> encode_phase7_finished_c C v = Inr w \<and> length w = 40"
  "parse_phase7_finished_p C w = Inr v \<longleftrightarrow> encode_phase7_finished_p C v = Inr w \<and> length w = 40"
proof -
  have "parse_phase7_finished_c C w = Inr v \<longleftrightarrow> (\<exists>p. encode_phase7_frame C 5 p = Inr w \<and> v = p)"
    unfolding parse_phase7_finished_c_def by (rule parse_subtype_result)
  then show "parse_phase7_finished_c C w = Inr v \<longleftrightarrow> encode_phase7_finished_c C v = Inr w \<and> length w = 40"
    by (auto simp: encode_phase7_finished_c_def encode_phase7_cases)
  have "parse_phase7_finished_p C w = Inr v \<longleftrightarrow> (\<exists>p. encode_phase7_frame C 6 p = Inr w \<and> v = p)"
    unfolding parse_phase7_finished_p_def by (rule parse_subtype_result)
  then show "parse_phase7_finished_p C w = Inr v \<longleftrightarrow> encode_phase7_finished_p C v = Inr w \<and> length w = 40"
    by (auto simp: encode_phase7_finished_p_def encode_phase7_cases)
qed

subsection \<open>Transcript\<close>

type_synonym inputs7 = "bytes \<times> bytes \<times> bytes \<times> bytes \<times> bytes"

definition phase7_fields :: "inputs7 \<Rightarrow> bytes list" where
  "phase7_fields = (\<lambda>(sid, pk, ct, cp, pp).
     [PHASE7_DOMAIN, PHASE7_CENTRAL_ROLE, PHASE7_PERIPHERAL_ROLE, sid, pk, ct, cp, pp])"

definition sec1_ok :: "bytes \<Rightarrow> bool" where
  "sec1_ok q \<longleftrightarrow> length q = PHASE7_P256_PUBLIC_KEY_SIZE \<and> q ! 0 = 0x04"

lemma validate_transcript_public_key_Inr [simp]:
  "validate_transcript_public_key q = Inr k \<longleftrightarrow> sec1_ok q \<and> k = q"
  by (auto simp: validate_transcript_public_key_def sec1_ok_def)

lemma build_phase7_transcript_Inr:
  "build_phase7_transcript sid pk ct cp pp = Inr t \<longleftrightarrow>
     length sid = 16 \<and> length pk = 1184 \<and> length ct = 1088 \<and> sec1_ok cp \<and> sec1_ok pp
     \<and> t = concat (map lp_field (phase7_fields (sid, pk, ct, cp, pp)))"
  by (auto simp: build_phase7_transcript_def phase7_fields_def Let_def sec1_ok_def)

interpretation transcript7: canonical_transcript
  "\<lambda>(sid, pk, ct, cp, pp). build_phase7_transcript sid pk ct cp pp" phase7_fields
proof
  let ?b = "\<lambda>(sid, pk, ct, cp, pp). build_phase7_transcript sid pk ct cp pp"
  show "t = concat (map lp_field (phase7_fields i))" if "?b i = Inr t" for i t
    using that by (auto simp: build_phase7_transcript_Inr split: prod.splits)
  show "length v \<le> 65535" if "?b i = Inr t" and "v \<in> set (phase7_fields i)" for i t v
    using that by (auto simp: build_phase7_transcript_Inr phase7_fields_def sec1_ok_def split: prod.splits)
  show "i = j" if "phase7_fields i = phase7_fields j" for i j :: inputs7
    using that by (auto simp: phase7_fields_def split: prod.splits)
qed

subsection \<open>Key schedule\<close>

lemma build_hybrid_ikm_Inr [simp]:
  "build_hybrid_ikm a b = Inr k \<longleftrightarrow> length a = 32 \<and> length b = 32 \<and> k = lp_field a @ lp_field b"
  by (auto simp: build_hybrid_ikm_def Let_def)

lemma derive_phase7_keys_Inr:
  "derive_phase7_keys C a b th = Inr k \<longleftrightarrow>
     length th = 32 \<and> length a = 32 \<and> length b = 32 \<and>
     (let kb = hkdf_derive C 128 th PHASE7_KDF_INFO (lp_field a @ lp_field b)
      in k = \<lparr> k7_application = slice 0 32 kb, k7_sas = slice 32 64 kb,
               k7_finished_c = slice 64 96 kb, k7_finished_p = slice 96 128 kb \<rparr>)"
  by (auto simp: derive_phase7_keys_def Let_def)

lemma serialize_p256_ok:
  "p256_laws C \<Longrightarrow> serialize_p256_public_key C k = Inr (p256_public_bytes C k)"
  by (simp add: serialize_p256_public_key_def length_p256_public hd_p256_public)

lemma ecdh_ok:
  assumes "p256_laws C"
  shows "derive_p256_ecdh_shared_secret C k (PeerBytes (p256_public_bytes C l))
    = Inr (p256_exchange C k (p256_public_bytes C l))"
proof -
  have "load_p256_public_key C (p256_public_bytes C l) = Inr (p256_public_bytes C l)"
    using p256_lawsD [OF assms] by simp
  then show ?thesis
    by (simp add: derive_p256_ecdh_shared_secret_def Let_def length_p256_exchange [OF assms])
qed

section \<open>Properties\<close>

text \<open>
  Both ends of the v0.7 hybrid handshake derive the same keys: for any two P-256 scalars, any
  ML-KEM key pair and any encapsulation, the transcript exists, and the side that decapsulates and
  uses one scalar computes the same key schedule as the side that encapsulated and uses the other;
  neither computation raises.
\<close>

theorem phase7_hybrid_agreement:
  assumes "p256_laws C" and "kem_laws C" and "length sid = PHASE7_SESSION_ID_SIZE"
    and "kem_keypair C s = (pk, sk)" and "kem_encap C pk r = (ct, ss)"
    and "serialize_p256_public_key C c = Inr cpub" and "serialize_p256_public_key C p = Inr ppub"
  shows "\<exists>th keys. compute_phase7_transcript_hash sid pk ct cpub ppub = Inr th
    \<and> bindR (derive_p256_ecdh_shared_secret C c (PeerBytes ppub)) (\<lambda>e. derive_phase7_keys C ss e th) = Inr keys
    \<and> bindR (derive_p256_ecdh_shared_secret C p (PeerBytes cpub))
         (\<lambda>e. derive_phase7_keys C (kem_decap C sk ct) e th) = Inr keys"
proof -
  have pub: "cpub = p256_public_bytes C c" "ppub = p256_public_bytes C p"
    using assms(6,7) serialize_p256_ok [OF assms(1)] by simp_all
  have kem: "length pk = 1184" "length ct = 1088" "length ss = 32" "kem_decap C sk ct = ss"
    using assms(2,4,5) unfolding kem_laws_def by (metis fst_conv snd_conv)+
  have sec1: "sec1_ok cpub" "sec1_ok ppub"
    using assms(1) by (simp_all add: pub sec1_ok_def length_p256_public hd_p256_public)
  obtain t where t: "build_phase7_transcript sid pk ct cpub ppub = Inr t"
    using assms(3) kem sec1 by (simp add: build_phase7_transcript_Inr)
  obtain keys where k: "derive_phase7_keys C ss (p256_exchange C c ppub) (sha256 t) = Inr keys"
    using kem(3) length_p256_exchange [OF assms(1)] by (simp add: derive_phase7_keys_Inr Let_def)
  moreover have "p256_exchange C p cpub = p256_exchange C c ppub"
    unfolding pub by (rule p256_exchange_commute [OF assms(1)])
  ultimately show ?thesis
    using t kem(4) ecdh_ok [OF assms(1)] pub by (simp add: compute_phase7_transcript_hash_def)
qed

theorem phase7_hybrid_agreement_witness:
  "\<exists>pk sk ct ss th. kem_keypair demo_crypto 7 = (pk, sk) \<and> kem_encap demo_crypto pk 9 = (ct, ss)
     \<and> compute_phase7_transcript_hash (replicate 16 1) pk ct
        (p256_public_bytes demo_crypto 3) (p256_public_bytes demo_crypto 5) = Inr th"
proof -
  obtain pk sk where k: "kem_keypair demo_crypto 7 = (pk, sk)" by fastforce
  obtain ct ss where e: "kem_encap demo_crypto pk 9 = (ct, ss)" by fastforce
  show ?thesis
    using phase7_hybrid_agreement [OF demo_p256_laws demo_kem_laws _ k e, of "replicate 16 1" 3 _ 5]
      serialize_p256_ok [OF demo_p256_laws] k e by fastforce
qed

text \<open>
  The v0.7 transcript is canonical and binds both P-256 keys: it exists exactly for inputs of the
  fixed sizes with uncompressed SEC1 points, has 2457 bytes (so the size check after its
  construction never fails), and equal transcripts have equal inputs.
\<close>

theorem phase7_transcript_canonical:
  "((\<exists>t. build_phase7_transcript sid pk ct cp pp = Inr t) \<longleftrightarrow>
      length sid = PHASE7_SESSION_ID_SIZE \<and> length pk = PHASE7_MLKEM_PUBLIC_KEY_SIZE
      \<and> length ct = PHASE7_MLKEM_CIPHERTEXT_SIZE \<and> sec1_ok cp \<and> sec1_ok pp)
   \<and> (build_phase7_transcript sid pk ct cp pp = Inr t \<longrightarrow> length t = PHASE7_TRANSCRIPT_SIZE
        \<and> (build_phase7_transcript sid' pk' ct' cp' pp' = Inr t \<longrightarrow>
            sid = sid' \<and> pk = pk' \<and> ct = ct' \<and> cp = cp' \<and> pp = pp'))"
  using transcript7.transcript_inject [of "(sid, pk, ct, cp, pp)" t "(sid', pk', ct', cp', pp')"]
  by (auto simp: build_phase7_transcript_Inr phase7_fields_def sec1_ok_def)

theorem phase7_transcript_canonical_witness:
  "\<exists>t. build_phase7_transcript (replicate 16 1) (replicate 1184 2) (replicate 1088 3)
         (4 # replicate 64 5) (4 # replicate 64 6) = Inr t \<and> length t = 2457"
proof -
  obtain t where "build_phase7_transcript (replicate 16 1) (replicate 1184 2) (replicate 1088 3)
      (4 # replicate 64 5) (4 # replicate 64 6) = Inr t"
    by (simp add: build_phase7_transcript_Inr sec1_ok_def)
  then show ?thesis using phase7_transcript_canonical by blast
qed

text \<open>
  The v0.7 key schedule uses both shared secrets injectively and splits its HKDF block without
  overlap or gap: the input keying material of two runs is equal only if both secrets are, and the
  four 32-byte keys concatenate to the block derived with the transcript hash as salt.
\<close>

theorem phase7_keys_partition:
  assumes "hkdf_laws C" and "derive_phase7_keys C ssm sse th = Inr k"
  shows "\<exists>ikm. build_hybrid_ikm ssm sse = Inr ikm \<and> length ikm = PHASE7_HYBRID_IKM_SIZE
    \<and> (\<forall>a b. build_hybrid_ikm a b = Inr ikm \<longrightarrow> a = ssm \<and> b = sse)
    \<and> k7_application k @ k7_sas k @ k7_finished_c k @ k7_finished_p k
        = hkdf_derive C PHASE7_KEY_BLOCK_SIZE th PHASE7_KDF_INFO ikm
    \<and> length (k7_application k) = 32 \<and> length (k7_sas k) = 32
    \<and> length (k7_finished_c k) = 32 \<and> length (k7_finished_p k) = 32"
proof -
  have len: "length ssm = 32" "length sse = 32"
    using assms(2) by (simp_all add: derive_phase7_keys_Inr)
  have inj: "a = ssm \<and> b = sse" if "build_hybrid_ikm a b = Inr (lp_field ssm @ lp_field sse)" for a b
    using that lp_fields_inject [of "[a, b]" "[ssm, sse]"] len by auto
  show ?thesis
    using assms(2) len inj slice_quarters [of "hkdf_derive C 128 th PHASE7_KDF_INFO (lp_field ssm @ lp_field sse)"]
    by (auto simp: derive_phase7_keys_Inr Let_def length_hkdf_derive [OF assms(1)])
qed

theorem phase7_keys_partition_witness:
  "\<exists>k. derive_phase7_keys demo_crypto (replicate 32 1) (replicate 32 2) (replicate 32 3) = Inr k
     \<and> length (k7_finished_p k) = 32"
proof -
  obtain k where "derive_phase7_keys demo_crypto (replicate 32 1) (replicate 32 2) (replicate 32 3) = Inr k"
    by (simp add: derive_phase7_keys_Inr Let_def)
  then show ?thesis using phase7_keys_partition [OF demo_hkdf_laws] by blast
qed

text \<open>
  The v0.7 message codecs are exact inverses: for each of START7, READY7\_CP2, START7\_AUTH,
  READY7\_AUTH, FINISHED\_C and FINISHED\_P, the parser returns given fields if and only if the wire
  is what the encoder makes of them, and then the wire has the message's fixed size.
\<close>

theorem phase7_messages_exact:
  "(parse_start7 C w = Inr (sid, q) \<longleftrightarrow>
      encode_start7 C sid q = Inr w \<and> length w = PHASE7_START7_FRAME_SIZE)
   \<and> (parse_ready7_cp2 C w = Inr (q, d) \<longleftrightarrow>
      encode_ready7_cp2 C q d = Inr w \<and> length w = PHASE7_READY7_CP2_FRAME_SIZE)
   \<and> (parse_start7_auth C w = Inr (sid, q) \<longleftrightarrow>
      encode_start7_auth C sid q = Inr w \<and> length w = PHASE7_START7_AUTH_FRAME_SIZE)
   \<and> (parse_ready7_auth C w = Inr q \<longleftrightarrow>
      encode_ready7_auth C q = Inr w \<and> length w = PHASE7_READY7_AUTH_FRAME_SIZE)
   \<and> (parse_phase7_finished_c C w = Inr v \<longleftrightarrow>
      encode_phase7_finished_c C v = Inr w \<and> length w = PHASE7_FINISHED_FRAME_SIZE)
   \<and> (parse_phase7_finished_p C w = Inr v \<longleftrightarrow>
      encode_phase7_finished_p C v = Inr w \<and> length w = PHASE7_FINISHED_FRAME_SIZE)"
  by (intro conjI parse_start7_exact parse_ready7_cp2_exact parse_start7_auth_exact
      parse_ready7_auth_exact parse_finished_exact)

end
