(* ===== verification/Resume_Full.thy ===== *)
theory Resume_Full
  imports V1_Application Phase7
begin

text \<open>
  \<open>src/common/resume_full.py\<close>, the full handshakes of the resumable profiles v0.8 (hybrid) and v1.1
  (ML-KEM over an authenticated Level-4 link), which end by issuing a ticket, and
  \<open>src/common/resume_hybrid.py\<close>, the v0.8 application adapter over the secure channel. Frames are
  modelled as pairs of subtype and payload for both frame classes.
\<close>

section \<open>Frames\<close>

definition encode_full :: "third_party \<Rightarrow> int \<Rightarrow> int \<Rightarrow> bytes \<Rightarrow> bytes result" where
  "encode_full C profile subtype payload =
     bindR (domain profile) (\<lambda>_.
     bindR (if profile = V08 then encode_phase7_frame C subtype payload else encode_v1_frame subtype payload) (\<lambda>raw.
     bindR (one_byte profile) (\<lambda>p. Inr (take 4 raw @ p @ drop 5 raw))))"

definition parse_full :: "third_party \<Rightarrow> int \<Rightarrow> bytes \<Rightarrow> (int \<times> bytes) result" where
  "parse_full C profile raw =
     bindR (domain profile) (\<lambda>_.
     if length raw < 8 \<or> uint (raw ! 4) \<noteq> profile then Inl (ValueError ''wrong full-handshake profile/version'')
     else let baseline = (if profile = V08 then 7 else 16); adapted = take 4 raw @ [baseline] @ drop 5 raw
          in if profile = V08 then bindR (parse_phase7_frame C adapted) (\<lambda>f. Inr (f7_subtype f, f7_payload f))
             else bindR (parse_v1_frame adapted) (\<lambda>f. Inr (v1_subtype f, v1_payload f)))"

definition security_info :: "third_party \<Rightarrow> bytes \<Rightarrow> v1_security_info result" where
  "security_info C raw =
     bindR (parse_full C V11 raw) (\<lambda>(subtype, payload).
     if subtype \<noteq> V1_SEC_INFO then Inl (ValueError ''expected v1.1 SEC_INFO'')
     else (case payload of
             [level, flags, key_size, profile] \<Rightarrow>
               if (uint level, uint flags, uint key_size, uint profile) \<noteq> (4, 7, 16, V11)
               then Inl (ValueError ''v1.1 requires authenticated SC L4, 16-byte key and open gate'')
               else Inr \<lparr> si_level = uint level, si_secure_connections = True, si_authenticated = True,
                          si_gate_open = True, si_enc_key_size = uint key_size, si_profile = uint profile \<rparr>
           | _ \<Rightarrow> Inl (ValueError ''not enough values to unpack'')))"

section \<open>The full handshake\<close>

record full_handshake =
  fh_profile :: int
  fh_state :: hs_state
  fh_session_id :: bytes
  fh_prk :: bytes
  fh_th :: bytes
  fh_confirm_c :: bytes
  fh_confirm_p :: bytes
  fh_application :: bytes
  fh_sas_key :: bytes
  fh_app_c2p :: bytes
  fh_app_p2c :: bytes
  fh_ticket :: "ticket option"

definition FullHandshake_init :: "int \<Rightarrow> full_handshake result" where
  "FullHandshake_init profile =
     bindR (domain profile) (\<lambda>_.
     Inr \<lparr> fh_profile = profile, fh_state = HS_NEW, fh_session_id = [], fh_prk = [], fh_th = [],
           fh_confirm_c = [], fh_confirm_p = [], fh_application = [], fh_sas_key = [],
           fh_app_c2p = [], fh_app_p2c = [], fh_ticket = None \<rparr>)"

definition FullHandshake_clear_handshake :: "full_handshake \<Rightarrow> full_handshake" where
  "FullHandshake_clear_handshake h = h\<lparr> fh_prk := wipe (fh_prk h), fh_th := wipe (fh_th h),
     fh_confirm_c := wipe (fh_confirm_c h), fh_confirm_p := wipe (fh_confirm_p h),
     fh_application := wipe (fh_application h), fh_sas_key := wipe (fh_sas_key h) \<rparr>"

definition FullHandshake_clear :: "full_handshake \<Rightarrow> full_handshake" where
  "FullHandshake_clear h = (FullHandshake_clear_handshake h)\<lparr> fh_app_c2p := wipe (fh_app_c2p h),
     fh_app_p2c := wipe (fh_app_p2c h), fh_session_id := [], fh_state := HS_CLOSED \<rparr>"

text \<open>A keyword argument that was left at \<open>None\<close> fails when it is used as bytes.\<close>

definition need_bytes :: "bytes option \<Rightarrow> bytes result" where
  "need_bytes x = (case x of None \<Rightarrow> Inl (TypeError ''NoneType'') | Some v \<Rightarrow> Inr v)"

text \<open>The canonical transcript and the input keying material of either profile.\<close>

definition full_transcript_ikm ::
  "third_party \<Rightarrow> int \<Rightarrow> bytes \<Rightarrow> bytes \<Rightarrow> bytes \<Rightarrow> bytes \<Rightarrow> bytes option \<Rightarrow> bytes option \<Rightarrow> bytes option
   \<Rightarrow> bytes option \<Rightarrow> (bytes \<times> bytes) result" where
  "full_transcript_ikm C profile ss pk ct sid ecdh central_public peripheral_public sec =
     bindR (domain profile) (\<lambda>d.
     if profile = V08 then
       bindR (need_bytes central_public) (\<lambda>cp. bindR (need_bytes peripheral_public) (\<lambda>pp.
       bindR (build_phase7_transcript sid pk ct cp pp) (\<lambda>baseline.
       bindR (lp d) (\<lambda>l.
       bindR (need_bytes ecdh) (\<lambda>e. bindR (build_hybrid_ikm ss e) (\<lambda>ikm.
       Inr (l @ drop (2 + length PHASE7_DOMAIN) baseline, ikm)))))))
     else
       bindR (need_bytes sec) (\<lambda>sec. bindR (security_info C sec) (\<lambda>_.
       bindR (encode_full C profile V1_START_CP3 sid) (\<lambda>start.
       Inr (d @ ascii ''/CP3-TRANSCRIPT'' @ sec @ pk @ ct @ start, ss)))))"

definition FullHandshake_begin ::
  "third_party \<Rightarrow> bytes \<Rightarrow> bytes \<Rightarrow> bytes \<Rightarrow> bytes \<Rightarrow> bytes option \<Rightarrow> bytes option \<Rightarrow> bytes option
   \<Rightarrow> bytes option \<Rightarrow> (full_handshake, unit) meth" where
  "FullHandshake_begin C ss pk ct sid ecdh central_public peripheral_public sec = onerr FullHandshake_clear (
     bindM (readM (\<lambda>h. if fh_state h \<noteq> HS_NEW then Inl (ValueError ''full handshake already started'') else Inr h)) (\<lambda>h.
     bindM (liftR (sized sid 16)) (\<lambda>sid.
     seqM (setM (\<lambda>h. h\<lparr> fh_session_id := sid \<rparr>)) (
     bindM (liftR (sized ss 32)) (\<lambda>_. bindM (liftR (sized pk 1184)) (\<lambda>_. bindM (liftR (sized ct 1088)) (\<lambda>_.
     bindM (liftR (domain (fh_profile h))) (\<lambda>d.
     bindM (liftR (full_transcript_ikm C (fh_profile h) ss pk ct sid ecdh central_public peripheral_public sec)) (\<lambda>(canonical, ikm).
     let th = sha256 canonical; prk = hmac_sha256 th ikm
     in seqM (setM (\<lambda>h. h\<lparr> fh_th := th, fh_prk := prk \<rparr>)) (
     seqM (if fh_profile h = V08 then
             (let block = hkdf_expand_derive C 128 (d @ ascii ''/hybrid-key-schedule'') prk
              in setM (\<lambda>h. h\<lparr> fh_application := take 32 block, fh_sas_key := slice 32 64 block,
                              fh_confirm_c := slice 64 96 block, fh_confirm_p := drop 96 block \<rparr>))
           else
             bindM (liftR (cp3_expand prk (d @ ascii ''/FINISHED-C'') th)) (\<lambda>cc.
             seqM (setM (\<lambda>h. h\<lparr> fh_confirm_c := cc \<rparr>)) (
             bindM (liftR (cp3_expand prk (d @ ascii ''/FINISHED-P'') th)) (\<lambda>cp.
             setM (\<lambda>h. h\<lparr> fh_confirm_p := cp \<rparr>))))) (
     setM (\<lambda>h. h\<lparr> fh_state := HS_WAIT_AUTH \<rparr>))))))))))))"

definition FullHandshake_sas :: "full_handshake \<Rightarrow> string result" where
  "FullHandshake_sas h =
     (if fh_profile h \<noteq> V08 \<or> fh_state h \<noteq> HS_WAIT_AUTH then Inl (ValueError ''SAS unavailable'')
      else bindR (domain (fh_profile h)) (\<lambda>d.
           let mac = hmac_sha256 (fh_sas_key h) (d @ ascii ''/SAS'' @ fh_th h)
           in Inr (zfill 6 (str_nat (be_nat mac mod 1000000)))))"

definition FullHandshake_finish_c :: "third_party \<Rightarrow> bool \<Rightarrow> (full_handshake, bytes) meth" where
  "FullHandshake_finish_c C authenticated = onerr FullHandshake_clear (
     bindM (readM (\<lambda>h. if fh_state h \<noteq> HS_WAIT_AUTH \<or> \<not> authenticated
              then Inl (ValueError ''full handshake authentication required'') else Inr h)) (\<lambda>h.
     let hybrid_profile = (fh_profile h = V08)
     in bindM (liftR (domain (fh_profile h))) (\<lambda>d.
     bindM (liftR (cp3_verify_data (fh_confirm_c h)
              (d @ ascii (if hybrid_profile then ''/FINISHED/C'' else ''/VERIFY-C'')) (fh_th h))) (\<lambda>tag.
     bindM (liftR (encode_full C (fh_profile h) (if hybrid_profile then PHASE7_FINISHED_C else V1_FINISHED_C) tag)) (\<lambda>wire.
     seqM (setM (\<lambda>h. if \<not> hybrid_profile then h\<lparr> fh_th := sha256 (fh_th h @ wire) \<rparr> else h)) (
     seqM (setM (\<lambda>h. h\<lparr> fh_state := HS_WAIT_FINISHED_P \<rparr>)) (
     retM wire)))))))"

definition FullHandshake_finish_p :: "third_party \<Rightarrow> bytes \<Rightarrow> string \<Rightarrow> seconds \<Rightarrow> (full_handshake, unit) meth" where
  "FullHandshake_finish_p C raw peer now = onerr FullHandshake_clear (
     bindM (readM (\<lambda>h. if fh_state h \<noteq> HS_WAIT_FINISHED_P then Inl (ValueError ''unexpected FINISHED_P'') else Inr h)) (\<lambda>h.
     bindM (liftR (parse_full C (fh_profile h) raw)) (\<lambda>(subtype, payload).
     let is_hybrid = (fh_profile h = V08)
     in bindM (liftR (requireR (subtype = (if is_hybrid then PHASE7_FINISHED_P else V1_FINISHED_P))
                 (ValueError ''wrong FINISHED direction''))) (\<lambda>_.
     bindM (liftR (domain (fh_profile h))) (\<lambda>d.
     bindM (liftR (cp3_verify_data (fh_confirm_p h)
              (d @ ascii (if is_hybrid then ''/FINISHED/P'' else ''/VERIFY-P'')) (fh_th h))) (\<lambda>expected.
     bindM (liftR (requireR (expected = payload) (ValueError ''FINISHED_P authentication failed''))) (\<lambda>_.
     seqM (if is_hybrid then
             (let traffic = ascii ''PQ-BLE-TRAFFIC-v0.8/''
              in setM (\<lambda>h. h\<lparr> fh_app_c2p := hmac_sha256 (fh_application h) (traffic @ ascii ''CENTRAL-TO-PERIPHERAL''),
                              fh_app_p2c := hmac_sha256 (fh_application h) (traffic @ ascii ''PERIPHERAL-TO-CENTRAL'') \<rparr>))
           else
             (let th2 = sha256 (fh_th h @ raw)
              in seqM (setM (\<lambda>h. h\<lparr> fh_th := th2 \<rparr>)) (
                 bindM (liftR (cp3_expand (fh_prk h) (d @ ascii ''/APP-C2P'') th2)) (\<lambda>c2p.
                 seqM (setM (\<lambda>h. h\<lparr> fh_app_c2p := c2p \<rparr>)) (
                 bindM (liftR (cp3_expand (fh_prk h) (d @ ascii ''/APP-P2C'') th2)) (\<lambda>p2c.
                 setM (\<lambda>h. h\<lparr> fh_app_p2c := p2c \<rparr>))))))) (
     bindM (readM (\<lambda>h. Ticket_issue (fh_profile h) peer (fh_prk h) (fh_th h) True now)) (\<lambda>ticket.
     seqM (setM (\<lambda>h. h\<lparr> fh_ticket := Some ticket \<rparr>)) (
     seqM (setM FullHandshake_clear_handshake) (
     setM (\<lambda>h. h\<lparr> fh_state := HS_APP_SECURE \<rparr>))))))))))))"

section \<open>The v0.8 application\<close>

record hybrid_application =
  ha_session :: app_session
  ha_c2p :: "secure_channel option"
  ha_p2c :: "secure_channel option"

definition HybridApplication_init :: "app_session \<Rightarrow> hybrid_application result" where
  "HybridApplication_init session =
     (if as_profile session \<noteq> V08 \<or> as_state session \<noteq> HS_APP_SECURE
      then Inl (ValueError ''v0.8 authenticated application session required'')
      else bindR (SecureChannel_init (as_app_c2p session) (Some (as_session_id session)) (Some CENTRAL_ROLE)) (\<lambda>c2p.
           bindR (SecureChannel_init (as_app_p2c session) (Some (as_session_id session)) (Some CENTRAL_ROLE)) (\<lambda>p2c.
           Inr \<lparr> ha_session = session, ha_c2p = Some c2p, ha_p2c = Some p2c \<rparr>)))"

definition HybridApplication_ready :: "hybrid_application \<Rightarrow> (secure_channel \<times> secure_channel) result" where
  "HybridApplication_ready a =
     (case (ha_c2p a, ha_p2c a) of
        (Some c, Some p) \<Rightarrow>
          if as_state (ha_session a) \<noteq> HS_APP_SECURE then Inl (ValueError ''v0.8 application session closed'')
          else Inr (c, p)
      | _ \<Rightarrow> Inl (ValueError ''v0.8 application session closed''))"

definition HybridApplication_encrypt_ping ::
  "third_party \<Rightarrow> bytes \<Rightarrow> int \<Rightarrow> int \<Rightarrow> (hybrid_application, bytes) meth" where
  "HybridApplication_encrypt_ping C iv round_index mtu =
     bindM (readM HybridApplication_ready) (\<lambda>(c, _).
     bindM (liftR (requireR (\<not> (\<not> (0 \<le> round_index \<and> round_index \<le> 9) \<or> mtu < 46))
              (ValueError ''invalid v0.7 test round/MTU''))) (\<lambda>_ a.
     case channel_encrypt C iv c (ascii (''PING '' @ str_nat (nat round_index))) MSG_TYPE_DATA of
       (r, c') \<Rightarrow> (r, a\<lparr> ha_c2p := Some c' \<rparr>)))"

definition HybridApplication_accept_pong ::
  "third_party \<Rightarrow> bytes \<Rightarrow> int \<Rightarrow> int \<Rightarrow> (hybrid_application, unit) meth" where
  "HybridApplication_accept_pong C raw round_index mtu =
     bindM (readM HybridApplication_ready) (\<lambda>(_, p).
     bindM (liftR (requireR (\<not> (length raw \<noteq> 43 \<or> int (length raw) > mtu - 3 \<or> int (be_nat (take 8 raw)) \<noteq> round_index))
              (ValueError ''invalid v0.7 PONG size/sequence''))) (\<lambda>_ a.
     case channel_decrypt C MSG_TYPE_DATA p raw of
       (Inl e, p') \<Rightarrow> (Inl e, a\<lparr> ha_p2c := Some p' \<rparr>)
     | (Inr plaintext, p') \<Rightarrow>
         (requireR (plaintext = ascii (''PONG '' @ str_nat (nat round_index))) (ValueError ''invalid v0.7 PONG plaintext''),
          a\<lparr> ha_p2c := Some p' \<rparr>)))"

definition HybridApplication_clear :: "hybrid_application \<Rightarrow> hybrid_application" where
  "HybridApplication_clear a = a\<lparr> ha_c2p := None, ha_p2c := None, ha_session := app_session_clear (ha_session a) \<rparr>"

section \<open>Lemmas\<close>

definition full_magic :: "int \<Rightarrow> bytes" where
  "full_magic p = (if p = V08 then PHASE7_FRAME_MAGIC else V1_FRAME_MAGIC)"

definition full_valid :: "third_party \<Rightarrow> int \<Rightarrow> int \<Rightarrow> bytes \<Rightarrow> bool" where
  "full_valid C p t v = (if p = V08 then p7_valid C t v else v1_valid t v)"

lemma length_full_magic [simp]: "length (full_magic p) = 4"
  by (simp add: full_magic_def)

lemma encode_full_Inr [simp]:
  "encode_full C p t v = Inr w \<longleftrightarrow> profile_ok p \<and> full_valid C p t v \<and> w = frame_wire (full_magic p) p t v"
  using profile_ok_byte [of p] frame_wire_reversion [of PHASE7_FRAME_MAGIC 7 t v 8]
  by (auto simp: encode_full_def full_valid_def full_magic_def pqs7.encode_Inr pqv1.encode_Inr frame_wire_reversion)

lemma reversion_back:
  assumes "8 \<le> length raw" and "uint (raw ! 4) = p" and "take 4 raw @ [b] @ drop 5 raw = frame_wire m (uint b) t v"
    and "length m = 4"
  shows "raw = frame_wire m p t v"
proof -
  have "raw = take 4 raw @ [raw ! 4] @ drop 5 raw"
    using assms(1) id_take_nth_drop [of 4 raw] by simp
  moreover have "raw ! 4 = word_of_int p" using assms(2) by auto
  moreover have "take 4 raw = take 4 (frame_wire m (uint b) t v)" "drop 5 raw = drop 5 (frame_wire m (uint b) t v)"
    using assms(1) by (simp_all flip: assms(3))
  ultimately show ?thesis using frame_wire_reversion [OF assms(4), of "uint b" t v p] by simp
qed

lemma parse_full_Inr [simp]:
  "parse_full C p raw = Inr (t, v) \<longleftrightarrow> profile_ok p \<and> full_valid C p t v \<and> raw = frame_wire (full_magic p) p t v"
  (is "?L \<longleftrightarrow> ?R")
proof
  assume ?L
  then have h: "profile_ok p" "8 \<le> length raw" "uint (raw ! 4) = p"
      and x: "if p = V08 then \<exists>f. parse_phase7_frame C (take 4 raw @ [7] @ drop 5 raw) = Inr f \<and> f7_subtype f = t \<and> f7_payload f = v
        else \<exists>f. parse_v1_frame (take 4 raw @ [16] @ drop 5 raw) = Inr f \<and> v1_subtype f = t \<and> v1_payload f = v"
    by (auto simp: parse_full_def Let_def split: if_splits)
  show ?R
  proof (cases "p = V08")
    case True
    then have "full_valid C p t v" "take 4 raw @ [7] @ drop 5 raw = frame_wire (full_magic p) (uint (7 :: byte)) t v"
      using x pqs7.parse_Inr by (auto simp: full_valid_def full_magic_def)
    then show ?thesis using h reversion_back [OF h(2,3), of 7 "full_magic p" t v] by simp
  next
    case False
    then have "full_valid C p t v" "take 4 raw @ [16] @ drop 5 raw = frame_wire (full_magic p) (uint (16 :: byte)) t v"
      using x pqv1.parse_Inr by (auto simp: full_valid_def full_magic_def)
    then show ?thesis using h reversion_back [OF h(2,3), of 16 "full_magic p" t v] by simp
  qed
next
  assume r: ?R
  then have w: "take 4 raw @ [7] @ drop 5 raw = frame_wire (full_magic p) 7 t v"
      "take 4 raw @ [16] @ drop 5 raw = frame_wire (full_magic p) 16 t v"
    using frame_wire_reversion [of "full_magic p" p t v 7] frame_wire_reversion [of "full_magic p" p t v 16] by simp_all
  have hd: "\<not> length raw < 8" "uint (raw ! 4) = p"
    using r profile_ok_byte [of p] by (auto simp: frame_wire_parts)
  show ?L
  proof (cases "p = V08")
    case True
    then obtain f where "parse_phase7_frame C (take 4 raw @ [7] @ drop 5 raw) = Inr f" "f7_subtype f = t" "f7_payload f = v"
      using r w pqs7.parse_wire [of C t v] by (auto simp: full_valid_def full_magic_def)
    then show ?thesis using True r hd by (simp add: parse_full_def Let_def)
  next
    case False
    then obtain f where "parse_v1_frame (take 4 raw @ [16] @ drop 5 raw) = Inr f" "v1_subtype f = t" "v1_payload f = v"
      using r w pqv1.parse_wire [of t v] by (auto simp: full_valid_def full_magic_def)
    then show ?thesis using False r hd by (simp add: parse_full_def Let_def)
  qed
qed

lemma Ticket_issue_Inr:
  "Ticket_issue p peer prk th True now = Inr t \<longleftrightarrow>
     length prk = 32 \<and> length th = 32 \<and> profile_ok p \<and>
     (let kroot = hmac_sha256 prk (domain_bytes p @ ascii ''/RESUME-ROOT'' @ th @ [1])
      in t = \<lparr> tk_profile = p, tk_peer = peer, tk_rid = take 16 (hmac_sha256 kroot (domain_bytes p @ ascii ''/RESUME-ID'' @ th)),
               tk_root = kroot, tk_created_at = now, tk_successful_resumes = 0, tk_replay = [], tk_valid = True \<rparr>)"
  by (auto simp: Ticket_issue_def derive_root_def resume_id_def Let_def)

subsection \<open>Failing closed\<close>

datatype fh_call =
    FhBegin bytes bytes bytes bytes "bytes option" "bytes option" "bytes option" "bytes option"
  | FhFinishC bool
  | FhFinishP bytes string seconds

fun fh_step :: "third_party \<Rightarrow> full_handshake \<Rightarrow> fh_call \<Rightarrow> (full_handshake, bytes) outcome" where
  "fh_step C h (FhBegin ss pk ct sid e cp pp sec) = bindM (FullHandshake_begin C ss pk ct sid e cp pp sec) (\<lambda>_. retM []) h"
| "fh_step C h (FhFinishC b) = FullHandshake_finish_c C b h"
| "fh_step C h (FhFinishP raw peer now) = bindM (FullHandshake_finish_p C raw peer now) (\<lambda>_. retM []) h"

definition fh_closed :: "full_handshake \<Rightarrow> bool" where
  "fh_closed h \<longleftrightarrow> fh_state h = HS_CLOSED \<and> fh_session_id h = [] \<and> wiped (fh_prk h) \<and> wiped (fh_th h)
     \<and> wiped (fh_confirm_c h) \<and> wiped (fh_confirm_p h) \<and> wiped (fh_application h) \<and> wiped (fh_sas_key h)
     \<and> wiped (fh_app_c2p h) \<and> wiped (fh_app_p2c h)"

lemma fh_closed_clear [simp]: "fh_closed (FullHandshake_clear h)"
  by (simp add: fh_closed_def FullHandshake_clear_def FullHandshake_clear_handshake_def)

text \<open>The state each method requires.\<close>

lemma fh_begin_state: "FullHandshake_begin C ss pk ct sid e cp pp sec h = (Inr u, t) \<Longrightarrow> fh_state h = HS_NEW"
  by (auto simp: FullHandshake_begin_def split: if_splits)

lemma fh_finish_c_state: "FullHandshake_finish_c C b h = (Inr w, t) \<Longrightarrow> fh_state h = HS_WAIT_AUTH \<and> b"
  by (auto simp: FullHandshake_finish_c_def Let_def split: if_splits)

lemma fh_finish_p_state: "FullHandshake_finish_p C raw peer now h = (Inr u, t) \<Longrightarrow> fh_state h = HS_WAIT_FINISHED_P"
  by (auto simp: FullHandshake_finish_p_def split: if_splits)

interpretation fh_owner: fail_closed "fh_step C" fh_closed for C
proof
  fix h c e t
  assume "fh_step C h c = (Inl e, t)"
  then show "fh_closed t"
    by (cases c) (auto simp: bindM_ret_Inl FullHandshake_begin_def FullHandshake_finish_c_def FullHandshake_finish_p_def onerr_Inl)
next
  fix h c
  assume "fh_closed h"
  then have "fh_step C h c \<noteq> (Inr r, t)" for r t
    by (cases c) (auto simp: fh_closed_def dest!: fh_begin_state fh_finish_c_state fh_finish_p_state)
  then show "\<exists>e t. fh_step C h c = (Inl e, t)"
    by (metis Inr_or_Inl prod.exhaust)
qed

definition full_session :: "full_handshake \<Rightarrow> app_session" where
  "full_session h = \<lparr> as_state = fh_state h, as_profile = fh_profile h, as_app_c2p = fh_app_c2p h,
     as_app_p2c = fh_app_p2c h, as_session_id = fh_session_id h \<rparr>"

interpretation full_lender: app_session_owner full_session FullHandshake_clear
  by unfold_locales (simp add: full_session_def FullHandshake_clear_def FullHandshake_clear_handshake_def app_session_clear_def)

subsection \<open>Reachable states\<close>

definition fh_ok :: "full_handshake \<Rightarrow> bool" where
  "fh_ok h \<longleftrightarrow>
     (case fh_state h of
        HS_NEW \<Rightarrow> fh_app_c2p h = [] \<and> fh_app_p2c h = [] \<and> fh_ticket h = None
      | HS_WAIT_AUTH \<Rightarrow> fh_app_c2p h = [] \<and> fh_app_p2c h = [] \<and> fh_ticket h = None \<and> length (fh_session_id h) = 16
      | HS_WAIT_FINISHED_P \<Rightarrow> fh_app_c2p h = [] \<and> fh_app_p2c h = [] \<and> fh_ticket h = None \<and> length (fh_session_id h) = 16
      | HS_APP_SECURE \<Rightarrow> length (fh_app_c2p h) = 32 \<and> length (fh_app_p2c h) = 32 \<and> length (fh_session_id h) = 16
          \<and> wiped (fh_prk h) \<and> wiped (fh_th h) \<and> wiped (fh_confirm_c h) \<and> wiped (fh_confirm_p h)
          \<and> wiped (fh_application h) \<and> wiped (fh_sas_key h)
          \<and> (\<exists>t. fh_ticket h = Some t \<and> ticket_sized t \<and> tk_valid t \<and> tk_profile t = fh_profile h
               \<and> tk_successful_resumes t = 0 \<and> tk_replay t = [])
      | HS_CLOSED \<Rightarrow> fh_closed h
      | _ \<Rightarrow> False)"

lemma fh_ok_closed: "fh_closed h \<Longrightarrow> fh_ok h"
  by (simp add: fh_ok_def fh_closed_def)

lemma fh_begin_effect:
  assumes "FullHandshake_begin C ss pk ct sid e cp pp sec h = (Inr u, t)"
  shows "fh_state t = HS_WAIT_AUTH \<and> length (fh_session_id t) = 16 \<and> fh_app_c2p t = fh_app_c2p h
    \<and> fh_app_p2c t = fh_app_p2c h \<and> fh_ticket t = fh_ticket h \<and> fh_profile t = fh_profile h"
  using assms by (auto simp: FullHandshake_begin_def Let_def split: if_splits prod.splits)

lemma fh_finish_c_effect:
  assumes "FullHandshake_finish_c C b h = (Inr w, t)"
  shows "fh_state t = HS_WAIT_FINISHED_P \<and> fh_session_id t = fh_session_id h \<and> fh_app_c2p t = fh_app_c2p h
    \<and> fh_app_p2c t = fh_app_p2c h \<and> fh_ticket t = fh_ticket h \<and> fh_profile t = fh_profile h"
  using assms by (auto simp: FullHandshake_finish_c_def Let_def split: if_splits)

text \<open>What the Peripheral has to present, and what the Central then holds.\<close>

definition fh_expected_p :: "full_handshake \<Rightarrow> bytes" where
  "fh_expected_p h = frame_wire (full_magic (fh_profile h)) (fh_profile h)
     (if fh_profile h = V08 then PHASE7_FINISHED_P else V1_FINISHED_P)
     (hmac_sha256 (fh_confirm_p h) (domain_bytes (fh_profile h)
        @ ascii (if fh_profile h = V08 then ''/FINISHED/P'' else ''/VERIFY-P'') @ fh_th h))"

lemma fh_finish_p_effect:
  assumes "FullHandshake_finish_p C raw peer now h = (Inr u, t)"
  shows "fh_state t = HS_APP_SECURE \<and> fh_session_id t = fh_session_id h \<and> fh_profile t = fh_profile h
    \<and> length (fh_app_c2p t) = 32 \<and> length (fh_app_p2c t) = 32
    \<and> wiped (fh_prk t) \<and> wiped (fh_th t) \<and> wiped (fh_confirm_c t) \<and> wiped (fh_confirm_p t)
    \<and> wiped (fh_application t) \<and> wiped (fh_sas_key t)
    \<and> raw = fh_expected_p h
    \<and> (let th = (if fh_profile h = V08 then fh_th h else sha256 (fh_th h @ raw))
       in \<exists>tk. Ticket_issue (fh_profile h) peer (fh_prk h) th True now = Inr tk \<and> fh_ticket t = Some tk)"
proof (cases "fh_profile h = V08")
  case True
  then show ?thesis using assms
    by (auto simp: FullHandshake_finish_p_def FullHandshake_clear_handshake_def fh_expected_p_def Let_def split: if_splits)
next
  case False
  then show ?thesis using assms
    by (auto simp: FullHandshake_finish_p_def FullHandshake_clear_handshake_def fh_expected_p_def Let_def split: if_splits)
qed

lemma Ticket_issue_fresh:
  "Ticket_issue p peer prk th True now = Inr t \<Longrightarrow> ticket_sized t \<and> tk_valid t \<and> tk_profile t = p
     \<and> tk_successful_resumes t = 0 \<and> tk_replay t = [] \<and> tk_created_at t = now \<and> tk_peer t = peer"
  by (auto simp: Ticket_issue_Inr Let_def ticket_sized_def)

lemma fh_ok_success:
  assumes "fh_ok h" and "fh_step C h c = (Inr w, t)"
  shows "fh_ok t"
proof (cases c)
  case (FhBegin ss pk ct sid e cp pp sec)
  then have "FullHandshake_begin C ss pk ct sid e cp pp sec h = (Inr (), t)" using assms(2) by auto
  then show ?thesis using assms(1) fh_begin_state fh_begin_effect by (fastforce simp: fh_ok_def)
next
  case (FhFinishC b)
  then have "FullHandshake_finish_c C b h = (Inr w, t)" using assms(2) by simp
  then show ?thesis using assms(1) fh_finish_c_state fh_finish_c_effect by (fastforce simp: fh_ok_def)
next
  case (FhFinishP raw peer now)
  then have f: "FullHandshake_finish_p C raw peer now h = (Inr (), t)" using assms(2) by auto
  have "length (fh_session_id h) = 16" using assms(1) fh_finish_p_state [OF f] by (simp add: fh_ok_def)
  then show ?thesis using fh_finish_p_effect [OF f] by (auto simp: fh_ok_def Let_def dest: Ticket_issue_fresh)
qed

lemma fh_ok_step: "fh_ok h \<Longrightarrow> fh_ok (snd (fh_step C h c))"
  using fh_ok_success fh_owner.failure_closes fh_ok_closed by (metis Inr_or_Inl prod.collapse)

subsection \<open>FINISHED\_P in a history of calls\<close>

text \<open>
  The calls \<open>cs\<close> on the object \<open>h0\<close> contain a \<open>finish_p\<close> that succeeded in the state that waits for
  it, on the wire with the MAC of that state.
\<close>

definition finished_p_verified :: "third_party \<Rightarrow> full_handshake \<Rightarrow> fh_call list \<Rightarrow> bool" where
  "finished_p_verified C h0 cs \<longleftrightarrow> (\<exists>cs1 raw peer now cs2 t. cs = cs1 @ FhFinishP raw peer now # cs2
     \<and> (let h1 = run_state (fh_step C) h0 cs1
        in fh_state h1 = HS_WAIT_FINISHED_P \<and> raw = fh_expected_p h1 \<and> FullHandshake_finish_p C raw peer now h1 = (Inr (), t)))"

lemma verified_append: "finished_p_verified C h0 cs \<Longrightarrow> finished_p_verified C h0 (cs @ ds)"
  unfolding finished_p_verified_def by (metis append.assoc append_Cons)

lemma fh_failure_ticket: "fh_step C h c = (Inl e, t) \<Longrightarrow> fh_ticket t = fh_ticket h"
  by (cases c) (auto simp: bindM_ret_Inl FullHandshake_begin_def FullHandshake_finish_c_def FullHandshake_finish_p_def onerr_Inl
      FullHandshake_clear_def FullHandshake_clear_handshake_def bindM_def seqM_def Let_def
      split: prod.splits sum.splits if_splits)

lemma secure_verified:
  assumes "fh_state h0 = HS_NEW" and "fh_ticket h0 = None"
    and "fh_state (run_state (fh_step C) h0 cs) = HS_APP_SECURE \<or> fh_ticket (run_state (fh_step C) h0 cs) \<noteq> None"
  shows "finished_p_verified C h0 cs"
  using assms(3)
proof (induction cs rule: rev_induct)
  case Nil
  then show ?case using assms by simp
next
  case (snoc c cs)
  let ?h = "run_state (fh_step C) h0 cs"
  obtain r t where step: "fh_step C ?h c = (r, t)" by fastforce
  then have last: "run_state (fh_step C) h0 (cs @ [c]) = t" by (simp)
  show ?case
  proof (cases r)
    case (Inl e)
    then have "fh_state t = HS_CLOSED" "fh_ticket t = fh_ticket ?h"
      using step fh_owner.failure_closes [of C ?h c e t] fh_failure_ticket by (auto simp: fh_closed_def)
    then show ?thesis using snoc last by (auto intro: verified_append)
  next
    case (Inr w)
    show ?thesis
    proof (cases c)
      case (FhBegin ss pk ct sid e cp pp sec)
      then have "FullHandshake_begin C ss pk ct sid e cp pp sec ?h = (Inr (), t)" using step Inr by auto
      from fh_begin_effect [OF this] show ?thesis using snoc last by (auto intro: verified_append)
    next
      case (FhFinishC b)
      then have "FullHandshake_finish_c C b ?h = (Inr w, t)" using step Inr by simp
      from fh_finish_c_effect [OF this] show ?thesis using snoc last by (auto intro: verified_append)
    next
      case (FhFinishP raw peer now)
      then have f: "FullHandshake_finish_p C raw peer now ?h = (Inr (), t)" using step Inr by auto
      then show ?thesis
        using FhFinishP fh_finish_p_state [OF f] fh_finish_p_effect [OF f]
        unfolding finished_p_verified_def Let_def by blast
    qed
  qed
qed

section \<open>Properties\<close>

text \<open>
  The full handshake of v0.8 and v1.1 accepts one FINISHED\_P only: if \<open>finish_p\<close> succeeds, the
  wire is the frame whose payload is the MAC of the (chained) transcript hash under the
  Peripheral's confirmation key, and the object then holds 32-byte traffic keys and a ticket
  derived from the handshake's PRK and final transcript hash; conversely that frame is accepted.
\<close>

theorem full_finished_p_exact:
  assumes "fh_state h = HS_WAIT_FINISHED_P" and "profile_ok (fh_profile h)" and "length (fh_confirm_p h) = 32"
    and "length (fh_th h) = 32" and "length (fh_prk h) = 32"
  shows "(\<exists>t. FullHandshake_finish_p C raw peer now h = (Inr (), t) \<and> fh_state t = HS_APP_SECURE
           \<and> length (fh_app_c2p t) = 32 \<and> length (fh_app_p2c t) = 32
           \<and> (\<exists>tk. fh_ticket t = Some tk \<and> Ticket_issue (fh_profile h) peer (fh_prk h)
                (if fh_profile h = V08 then fh_th h else sha256 (fh_th h @ raw)) True now = Inr tk))
         \<longleftrightarrow> raw = fh_expected_p h"
proof
  assume "raw = fh_expected_p h"
  then have raw: "raw = frame_wire (full_magic (fh_profile h)) (fh_profile h)
     (if fh_profile h = V08 then PHASE7_FINISHED_P else V1_FINISHED_P)
     (hmac_sha256 (fh_confirm_p h) (domain_bytes (fh_profile h)
        @ ascii (if fh_profile h = V08 then ''/FINISHED/P'' else ''/VERIFY-P'') @ fh_th h))"
    by (simp add: fh_expected_p_def)
  have "\<exists>t. FullHandshake_finish_p C raw peer now h = (Inr (), t)"
    using assms unfolding raw
    by (cases "fh_profile h = V08")
      (auto simp: FullHandshake_finish_p_def Let_def full_valid_def p7_valid_iff v1_valid_iff Ticket_issue_Inr)
  then obtain t where "FullHandshake_finish_p C raw peer now h = (Inr (), t)" by blast
  with fh_finish_p_effect [OF this] show "\<exists>t. FullHandshake_finish_p C raw peer now h = (Inr (), t) \<and> fh_state t = HS_APP_SECURE
           \<and> length (fh_app_c2p t) = 32 \<and> length (fh_app_p2c t) = 32
           \<and> (\<exists>tk. fh_ticket t = Some tk \<and> Ticket_issue (fh_profile h) peer (fh_prk h)
                (if fh_profile h = V08 then fh_th h else sha256 (fh_th h @ raw)) True now = Inr tk)"
    by (auto simp: Let_def)
qed (auto dest: fh_finish_p_effect)

definition demo_full :: full_handshake where
  "demo_full = \<lparr> fh_profile = 17, fh_state = HS_WAIT_FINISHED_P, fh_session_id = replicate 16 1, fh_prk = replicate 32 2,
     fh_th = replicate 32 3, fh_confirm_c = replicate 32 4, fh_confirm_p = replicate 32 5, fh_application = [],
     fh_sas_key = [], fh_app_c2p = [], fh_app_p2c = [], fh_ticket = None \<rparr>"

theorem full_finished_p_exact_witness:
  "\<exists>t. FullHandshake_finish_p demo_crypto (fh_expected_p demo_full) ''dk'' 5 demo_full = (Inr (), t)"
  using full_finished_p_exact [of demo_full demo_crypto "fh_expected_p demo_full" "''dk''" 5]
  by (simp add: demo_full_def profile_ok_def) blast

text \<open>
  C33. Traffic keys and a resumption ticket exist only after FINISHED\_P was verified: after any
  sequence of calls on a new object, if the state is APP\_SECURE or there is a ticket, then one of the
  calls was a \<open>finish_p\<close> that succeeded on exactly the frame with the MAC of the transcript hash under
  the Peripheral's confirmation key, in the state that waits for it. Unless the state is APP\_SECURE the
  traffic keys are empty or zeroed; in APP\_SECURE the handshake secrets are zeroed and the ticket is
  fresh, with a 16-byte identifier and a 32-byte root.
\<close>

theorem full_keys_only_when_secure:
  assumes "FullHandshake_init p = Inr h0"
  shows "(let h = run_state (fh_step C) h0 cs
    in (fh_state h = HS_APP_SECURE \<or> fh_ticket h \<noteq> None \<longrightarrow> finished_p_verified C h0 cs)
       \<and> (if fh_state h = HS_APP_SECURE
          then length (fh_app_c2p h) = 32 \<and> length (fh_app_p2c h) = 32 \<and> length (fh_session_id h) = 16
            \<and> wiped (fh_prk h) \<and> wiped (fh_th h) \<and> wiped (fh_confirm_c h) \<and> wiped (fh_confirm_p h)
            \<and> wiped (fh_application h) \<and> wiped (fh_sas_key h)
            \<and> (\<exists>t. fh_ticket h = Some t \<and> ticket_sized t \<and> tk_valid t \<and> tk_successful_resumes t = 0)
          else wiped (fh_app_c2p h) \<and> wiped (fh_app_p2c h) \<and> (fh_state h \<noteq> HS_CLOSED \<longrightarrow> fh_ticket h = None)))"
proof -
  have new: "fh_ok h0" "fh_state h0 = HS_NEW" "fh_ticket h0 = None"
    using assms by (auto simp: FullHandshake_init_def fh_ok_def)
  have "fh_ok (run_state (fh_step C) h0 cs)"
    using new(1) by (rule run_state_invariant) (rule fh_ok_step)
  then show ?thesis
    using secure_verified [OF new(2,3), of C cs]
    by (auto simp: fh_ok_def fh_closed_def Let_def split: hs_state.splits)
qed

theorem full_keys_only_when_secure_witness:
  "\<exists>h0. FullHandshake_init 17 = Inr h0
     \<and> wiped (fh_app_c2p (run_state (fh_step demo_crypto) h0 [FhFinishC True]))"
proof -
  obtain h0 where h0: "FullHandshake_init 17 = Inr h0" by (simp add: FullHandshake_init_def profile_ok_def)
  then have "fh_state h0 = HS_NEW" by (auto simp: FullHandshake_init_def)
  then have "fh_state (run_state (fh_step demo_crypto) h0 [FhFinishC True]) = HS_CLOSED"
    by (simp add: FullHandshake_finish_c_def onerr_def bindM_def FullHandshake_clear_def)
  then show ?thesis
    using h0 full_keys_only_when_secure [OF h0, of demo_crypto "[FhFinishC True]"] by (auto simp: Let_def)
qed

text \<open>
  The full-handshake object fails closed: after an exception from any of its methods every key
  buffer is zeroed, the session id is gone, and no later call succeeds.
\<close>

theorem full_fails_closed:
  assumes "fh_step C h c = (Inl e, t)"
  shows "fh_closed t \<and> fh_closed (run_state (fh_step C) t cs) \<and> run_accepted (fh_step C) t cs = []"
  using fh_owner.failure_closes [OF assms] fh_owner.closed_run fh_owner.nothing_after_failure [OF assms] by blast

theorem full_fails_closed_witness:
  "\<exists>e t. fh_step demo_crypto demo_full (FhFinishC True) = (Inl e, t) \<and> fh_closed t"
proof -
  have "fh_step demo_crypto demo_full (FhFinishC True) \<noteq> (Inr w, t)" for w t
    by (auto simp: demo_full_def dest: fh_finish_c_state)
  then obtain e t where "fh_step demo_crypto demo_full (FhFinishC True) = (Inl e, t)"
    by (metis Inr_or_Inl prod.exhaust)
  then show ?thesis using full_fails_closed by blast
qed

end
