(* ===== verification/Gatt_Transport.thy ===== *)
theory Gatt_Transport
  imports Fragmentation Resume_Full
begin

text \<open>
  The GATT transport of the historical Central and of the experimental Peripheral:
  \<open>src/central/ble_client.py\<close> (connection, reads, fragmented writes, the owner of the v1 session
  objects) and \<open>experimental/peripheral/ble_server.py\<close> (accumulation of ciphertext fragments,
  control writes, notifications). \<open>bleak\<close> is a parameter: its answers are functions of the
  operations performed so far. The measurement hooks are inactive in ordinary use and left out.
\<close>

section \<open>The bleak package\<close>

datatype gatt_char = CHAR_PUBKEY | CHAR_CIPHERTEXT | CHAR_DATA | CHAR_CONTROL

text \<open>
  A \<open>BleakClient\<close> object is named by a number; \<open>ScanName\<close> and \<open>ScanAddress\<close> are scanner calls. A call of the
  system's pairing interface and a sleep are in the history too, since the link may change during them.
\<close>

datatype gatt_op =
    ScanName string | ScanAddress string
  | Connect nat | Disconnect nat
  | ReadChar gatt_char | WriteChar gatt_char bytes
  | StartNotify | StopNotify | AwaitNotify
  | SystemPairing | Sleep

text \<open>
  The arguments are the operations so far, the one being answered last. \<open>bl_scan\<close> is the address of
  the device found, \<open>bl_io\<close> what awaiting the operation gives (no bytes, for an operation without a
  value), \<open>bl_polls\<close> the notifications that arrived before each turn of a waiting loop, for as many
  turns as the deadline leaves, and \<open>bl_queue\<close> all notifications put into a queue up to the end of a
  wait (\<open>AwaitNotify\<close>) with a timeout.
\<close>

record bleak =
  bl_scan :: "gatt_op list \<Rightarrow> string option"
  bl_io :: "gatt_op list \<Rightarrow> bytes result"
  bl_connected :: "gatt_op list \<Rightarrow> nat \<Rightarrow> bool"
  bl_mtu :: "gatt_op list \<Rightarrow> nat \<Rightarrow> int"
  bl_polls :: "gatt_op list \<Rightarrow> bytes list list"
  bl_queue :: "gatt_op list \<Rightarrow> bytes list"

section \<open>The Central's client (ble\_client.py)\<close>

text \<open>What \<open>_v1_cp3_session\<close> and \<open>_v1_cp4_session\<close> may hold, and the \<open>clear\<close> method of each.\<close>

datatype v1_session = V1Handshake cp3 | V1Resume central_resume | V1Full full_handshake
datatype v1_application = V1Cp4 central_application | V1Hybrid hybrid_application

fun v1_session_clear :: "v1_session \<Rightarrow> v1_session" where
  "v1_session_clear (V1Handshake h) = V1Handshake (cp3_clear h)"
| "v1_session_clear (V1Resume c) = V1Resume (CentralResume_clear c)"
| "v1_session_clear (V1Full h) = V1Full (FullHandshake_clear h)"

fun v1_application_clear :: "v1_application \<Rightarrow> v1_application" where
  "v1_application_clear (V1Cp4 a) = V1Cp4 (CentralApplication_clear a)"
| "v1_application_clear (V1Hybrid a) = V1Hybrid (HybridApplication_clear a)"

text \<open>
  \<open>bc_retired\<close> are the session and application objects the client has let go of; other code may
  still refer to them, so what is in them matters.
\<close>

record ble_client =
  bc_device_name :: string
  bc_client :: "nat option"
  bc_device :: "string option"
  bc_v1_security_test :: bool
  bc_v1_notify_link :: "nat option"
  bc_v1_cp4_session :: "v1_application option"
  bc_v1_cp3_session :: "v1_session option"
  bc_v1_cp3_link :: "nat option"
  bc_retired_sessions :: "v1_session list"
  bc_retired_applications :: "v1_application list"
  bc_ops :: "gatt_op list"

definition BLECentralClient_init :: "string \<Rightarrow> ble_client" where
  "BLECentralClient_init device_name =
     \<lparr> bc_device_name = device_name, bc_client = None, bc_device = None, bc_v1_security_test = False,
       bc_v1_notify_link = None, bc_v1_cp4_session = None, bc_v1_cp3_session = None,
       bc_v1_cp3_link = None, bc_retired_sessions = [], bc_retired_applications = [], bc_ops = [] \<rparr>"

definition bleak_call :: "bleak \<Rightarrow> gatt_op \<Rightarrow> (ble_client, bytes) meth" where
  "bleak_call B p c = (let ops = bc_ops c @ [p] in (bl_io B ops, c\<lparr> bc_ops := ops \<rparr>))"

definition bleak_scan :: "bleak \<Rightarrow> gatt_op \<Rightarrow> (ble_client, string option) meth" where
  "bleak_scan B p c = (let ops = bc_ops c @ [p] in (Inr (bl_scan B ops), c\<lparr> bc_ops := ops \<rparr>))"

definition client_is_connected :: "bleak \<Rightarrow> ble_client \<Rightarrow> bool" where
  "client_is_connected B c = (case bc_client c of None \<Rightarrow> False | Some l \<Rightarrow> bl_connected B (bc_ops c) l)"

definition client_mtu_size :: "bleak \<Rightarrow> ble_client \<Rightarrow> int" where
  "client_mtu_size B c = (case bc_client c of None \<Rightarrow> 23 | Some l \<Rightarrow> bl_mtu B (bc_ops c) l)"

definition client_address :: "ble_client \<Rightarrow> string option" where
  "client_address c = bc_device c"

definition clear_v1_cp3 :: "ble_client \<Rightarrow> ble_client" where
  "clear_v1_cp3 c =
     (let c = c\<lparr> bc_v1_notify_link := None \<rparr>;
          c = (case bc_v1_cp4_session c of None \<Rightarrow> c
               | Some app \<Rightarrow> c\<lparr> bc_retired_applications := v1_application_clear app # bc_retired_applications c,
                                bc_v1_cp4_session := None \<rparr>)
      in case bc_v1_cp3_session c of None \<Rightarrow> c
         | Some session \<Rightarrow> c\<lparr> bc_retired_sessions := v1_session_clear session # bc_retired_sessions c,
                              bc_v1_cp3_session := None, bc_v1_cp3_link := None \<rparr>)"

text \<open>A new \<open>BleakClient\<close>: the number of operations so far is a name no earlier object has.\<close>

definition new_bleak_client :: "ble_client \<Rightarrow> nat" where
  "new_bleak_client c = length (bc_ops c)"

definition client_scan_and_connect :: "bleak \<Rightarrow> (ble_client, bool) meth" where
  "client_scan_and_connect B =
     bindM (readM (\<lambda>c. Inr (bc_device_name c))) (\<lambda>name.
     bindM (bleak_scan B (ScanName name)) (\<lambda>device.
     seqM (setM (\<lambda>c. c\<lparr> bc_device := device \<rparr>)) (
     case device of
       None \<Rightarrow> retM False
     | Some _ \<Rightarrow>
         seqM (setM clear_v1_cp3) (
         bindM (readM (\<lambda>c. Inr (new_bleak_client c))) (\<lambda>l.
         seqM (setM (\<lambda>c. c\<lparr> bc_client := Some l \<rparr>)) (
         bindM (bleak_call B (Connect l)) (\<lambda>_.
         retM True)))))))"

definition client_disconnect :: "bleak \<Rightarrow> (ble_client, unit) meth" where
  "client_disconnect B =
     seqM (setM clear_v1_cp3) (\<lambda>c.
       case bc_client c of
         None \<Rightarrow> (Inr (), c)
       | Some l \<Rightarrow> if bl_connected B (bc_ops c) l
                   then bindM (bleak_call B (Disconnect l)) (\<lambda>_. retM ()) c else (Inr (), c))"

definition client_reconnect :: "bleak \<Rightarrow> (ble_client, bool) meth" where
  "client_reconnect B c = client_scan_and_connect B (snd (client_disconnect B c))"

definition client_reconnect_v1_peer :: "bleak \<Rightarrow> (ble_client, bool) meth" where
  "client_reconnect_v1_peer B =
     bindM (readM (\<lambda>c. case bc_device c of None \<Rightarrow> Inl (RuntimeError ''No known CP1 peer to reconnect'')
                       | Some addr \<Rightarrow> Inr addr)) (\<lambda>addr.
     bindM (readM (\<lambda>c. Inr (bc_client c))) (\<lambda>old_client.
     seqM (setM clear_v1_cp3) (
     seqM (case old_client of None \<Rightarrow> retM ()
           | Some l \<Rightarrow> bindM (bleak_call B (Disconnect l)) (\<lambda>_. retM ())) (
     bindM (bleak_scan B (ScanAddress addr)) (\<lambda>peer.
     case peer of
       None \<Rightarrow> retM False
     | Some _ \<Rightarrow>
         seqM (setM (\<lambda>c. c\<lparr> bc_device := peer \<rparr>)) (
         bindM (readM (\<lambda>c. Inr (new_bleak_client c))) (\<lambda>l.
         seqM (setM (\<lambda>c. c\<lparr> bc_client := Some l \<rparr>)) (
         bindM (bleak_call B (Connect l)) (\<lambda>_.
         readM (\<lambda>c. Inr (bl_connected B (bc_ops c) l)))))))))))"

text \<open>Disconnect callbacks; the argument is the \<open>BleakClient\<close> that lost its link.\<close>

definition client_on_v1_disconnect :: "nat \<Rightarrow> ble_client \<Rightarrow> ble_client" where
  "client_on_v1_disconnect l c = (if Some l = bc_v1_cp3_link c then clear_v1_cp3 c else c)"

definition client_on_disconnect :: "nat \<Rightarrow> ble_client \<Rightarrow> ble_client" where
  "client_on_disconnect l c = (if bc_v1_security_test c then client_on_v1_disconnect l c else c)"

definition require_connected :: "bleak \<Rightarrow> (ble_client, unit) meth" where
  "require_connected B = readM (\<lambda>c. requireR (client_is_connected B c) (RuntimeError ''Not connected''))"

definition read_fragmented_public_key :: "bleak \<Rightarrow> (ble_client, bytes) meth" where
  "read_fragmented_public_key B =
     seqM (require_connected B) (bleak_call B (ReadChar CHAR_PUBKEY))"

text \<open>The logical frame size: the negotiated MTU capped at 512, and 512 when it was not negotiated.\<close>

definition ciphertext_mtu :: "int \<Rightarrow> int" where
  "ciphertext_mtu negotiated_mtu = (if negotiated_mtu > 23 then min negotiated_mtu BLE_MTU else BLE_MTU)"

fun write_all :: "bleak \<Rightarrow> bytes list \<Rightarrow> (ble_client, unit) meth" where
  "write_all B [] = retM ()"
| "write_all B (frag # frags) = bindM (bleak_call B (WriteChar CHAR_CIPHERTEXT frag)) (\<lambda>_. write_all B frags)"

definition write_fragmented_ciphertext :: "bleak \<Rightarrow> bytes \<Rightarrow> (ble_client, nat) meth" where
  "write_fragmented_ciphertext B data =
     seqM (require_connected B) (
     bindM (readM (\<lambda>c. fragment_data data (ciphertext_mtu (client_mtu_size B c)))) (\<lambda>fragments.
     seqM (write_all B fragments) (
     retM (length fragments))))"

definition write_raw_ciphertext_fragment :: "bleak \<Rightarrow> bytes \<Rightarrow> (ble_client, unit) meth" where
  "write_raw_ciphertext_fragment B fragment =
     seqM (require_connected B) (bindM (bleak_call B (WriteChar CHAR_CIPHERTEXT fragment)) (\<lambda>_. retM ()))"

definition send_control :: "bleak \<Rightarrow> bytes \<Rightarrow> (ble_client, unit) meth" where
  "send_control B data =
     seqM (require_connected B) (bindM (bleak_call B (WriteChar CHAR_CONTROL data)) (\<lambda>_. retM ()))"

definition write_secure_data :: "bleak \<Rightarrow> bytes \<Rightarrow> (ble_client, unit) meth" where
  "write_secure_data B data =
     seqM (require_connected B) (
     seqM (liftR (requireR (data \<noteq> []) (ValueError ''Secure Data write cannot be empty''))) (
     bindM (bleak_call B (WriteChar CHAR_DATA data)) (\<lambda>_. retM ())))"

definition start_notify :: "bleak \<Rightarrow> (ble_client, unit) meth" where
  "start_notify B =
     seqM (require_connected B) (
     bindM (bleak_call B StartNotify) (\<lambda>_.
     setM (\<lambda>c. c\<lparr> bc_v1_notify_link := bc_client c \<rparr>)))"

definition stop_notify :: "bleak \<Rightarrow> (ble_client, unit) meth" where
  "stop_notify B =
     seqM (setM clear_v1_cp3) (\<lambda>c.
       if client_is_connected B c then bindM (bleak_call B StopNotify) (\<lambda>_. retM ()) c else (Inr (), c))"

section \<open>The experimental Peripheral's server (ble\_server.py)\<close>

text \<open>
  \<open>sv_started\<close>: \<open>_server\<close> is set. \<open>sv_has_notify\<close>: the \<open>BleakServer\<close> object has a \<open>notify\<close> method;
  \<open>sv_notified\<close> are the values passed to it.
\<close>

record ble_server =
  sv_public_key :: bytes
  sv_ciphertext :: bytes
  sv_control_message :: bytes
  sv_ct_fragments :: "bytes list"
  sv_started :: bool
  sv_has_notify :: bool
  sv_notified :: "bytes list"

definition BLEPeripheralServer_init :: "bool \<Rightarrow> ble_server" where
  "BLEPeripheralServer_init has_notify =
     \<lparr> sv_public_key = [], sv_ciphertext = [], sv_control_message = [], sv_ct_fragments = [],
       sv_started = False, sv_has_notify = has_notify, sv_notified = [] \<rparr>"

definition server_set_public_key :: "bytes \<Rightarrow> ble_server \<Rightarrow> ble_server" where
  "server_set_public_key pk s = s\<lparr> sv_public_key := pk \<rparr>"

definition on_read_pubkey :: "ble_server \<Rightarrow> bytes" where
  "on_read_pubkey s = sv_public_key s"

text \<open>
  The write handler of the ciphertext characteristic. The result is the argument of the callback
  that it schedules, if any; a \<open>ValueError\<close> of the decoder is caught and the buffer kept.
\<close>

definition on_write_ciphertext :: "bytes \<Rightarrow> ble_server \<Rightarrow> bytes option \<times> ble_server" where
  "on_write_ciphertext frag s =
     (let s = s\<lparr> sv_ct_fragments := sv_ct_fragments s @ [frag] \<rparr>
      in case fragment_decode (sv_ct_fragments s ! 0) of
           Inl _ \<Rightarrow> (None, s)
         | Inr first \<Rightarrow>
             if int (length (sv_ct_fragments s)) \<ge> frag_total first
             then (case reassemble_data (sv_ct_fragments s) of
                     Inl _ \<Rightarrow> (None, s)
                   | Inr ct \<Rightarrow> (Some ct, s\<lparr> sv_ciphertext := ct, sv_ct_fragments := [] \<rparr>))
             else (None, s))"

definition on_write_control :: "bytes \<Rightarrow> ble_server \<Rightarrow> bytes \<times> ble_server" where
  "on_write_control value s = (value, s\<lparr> sv_control_message := value \<rparr>)"

definition server_start :: "ble_server \<Rightarrow> ble_server" where
  "server_start s = s\<lparr> sv_started := True \<rparr>"

text \<open>An exception of \<open>BleakServer.notify\<close> is caught and logged.\<close>

definition notify_data :: "bytes \<Rightarrow> (ble_server, unit) meth" where
  "notify_data data s =
     (if \<not> sv_started s then (Inl (RuntimeError ''Server not started''), s)
      else (Inr (), if sv_has_notify s then s\<lparr> sv_notified := sv_notified s @ [data] \<rparr> else s))"

definition reset_ciphertext_buffer :: "ble_server \<Rightarrow> ble_server" where
  "reset_ciphertext_buffer s = s\<lparr> sv_ct_fragments := [], sv_ciphertext := [] \<rparr>"

section \<open>Lemmas\<close>

subsection \<open>Owned session objects\<close>

fun v1_session_closed :: "v1_session \<Rightarrow> bool" where
  "v1_session_closed (V1Handshake h) = cp3_closed h"
| "v1_session_closed (V1Resume c) = cr_closed c"
| "v1_session_closed (V1Full h) = fh_closed h"

fun v1_application_closed :: "v1_application \<Rightarrow> bool" where
  "v1_application_closed (V1Cp4 a) = ca_closed a"
| "v1_application_closed (V1Hybrid a) = (ha_c2p a = None \<and> ha_p2c a = None
     \<and> as_state (ha_session a) = HS_CLOSED \<and> wiped (as_app_c2p (ha_session a)) \<and> wiped (as_app_p2c (ha_session a)))"

lemma v1_session_closed_clear [simp]: "v1_session_closed (v1_session_clear s)"
  by (cases s) simp_all

lemma v1_application_closed_clear [simp]: "v1_application_closed (v1_application_clear a)"
  by (cases a) (simp_all add: HybridApplication_clear_def app_session_clear_def)

text \<open>The client owns no session, and everything it has let go of is closed.\<close>

definition client_released :: "ble_client \<Rightarrow> bool" where
  "client_released c \<longleftrightarrow> bc_v1_cp4_session c = None \<and> bc_v1_cp3_session c = None \<and> bc_v1_notify_link c = None"

definition client_retired_closed :: "ble_client \<Rightarrow> bool" where
  "client_retired_closed c \<longleftrightarrow> list_all v1_session_closed (bc_retired_sessions c)
     \<and> list_all v1_application_closed (bc_retired_applications c)"

definition client_safe :: "ble_client \<Rightarrow> ble_client \<Rightarrow> bool" where
  "client_safe c c' \<longleftrightarrow> client_released c' \<and> (client_retired_closed c \<longrightarrow> client_retired_closed c')
     \<and> (\<forall>s. bc_v1_cp3_session c = Some s \<longrightarrow> v1_session_clear s \<in> set (bc_retired_sessions c'))
     \<and> (\<forall>a. bc_v1_cp4_session c = Some a \<longrightarrow> v1_application_clear a \<in> set (bc_retired_applications c'))"

lemma clear_v1_cp3_safe: "client_safe c (clear_v1_cp3 c)"
  by (simp add: client_safe_def client_released_def client_retired_closed_def clear_v1_cp3_def Let_def
      split: option.splits)

text \<open>The part of the client's state that \<open>bleak\<close> calls do not touch.\<close>

definition same_owner :: "ble_client \<Rightarrow> ble_client \<Rightarrow> bool" where
  "same_owner c c' \<longleftrightarrow> bc_v1_cp4_session c' = bc_v1_cp4_session c \<and> bc_v1_cp3_session c' = bc_v1_cp3_session c
     \<and> bc_v1_notify_link c' = bc_v1_notify_link c \<and> bc_retired_sessions c' = bc_retired_sessions c
     \<and> bc_retired_applications c' = bc_retired_applications c"

lemma same_owner_trans: "same_owner a b \<Longrightarrow> same_owner b c \<Longrightarrow> same_owner a c"
  by (simp add: same_owner_def)

lemma same_owner_ops: "same_owner c (c\<lparr> bc_ops := ops \<rparr>)" "same_owner c c"
  "same_owner c (c\<lparr> bc_client := l \<rparr>)" "same_owner c (c\<lparr> bc_device := d \<rparr>)"
  by (simp_all add: same_owner_def)

lemma same_owner_call: "same_owner c (snd (bleak_call B p c))" "same_owner c (snd (bleak_scan B p c))"
  by (simp_all add: bleak_call_def bleak_scan_def Let_def same_owner_ops)

lemma same_owner_call_ret: "same_owner c (snd (bindM (bleak_call B p) (\<lambda>_. retM x) c))"
  by (rule bindM_keeps [where R = same_owner]) (auto simp: same_owner_call same_owner_ops same_owner_trans)

lemma client_safe_after: "client_safe a b \<Longrightarrow> same_owner b c \<Longrightarrow> client_safe a c"
  by (simp add: client_safe_def same_owner_def client_released_def client_retired_closed_def)

lemma client_disconnect_safe: "client_safe c (snd (client_disconnect B c))"
proof -
  have "same_owner (clear_v1_cp3 c) (snd (client_disconnect B c))"
    by (auto simp: client_disconnect_def seqM_def bindM_step same_owner_ops same_owner_call_ret split: option.splits)
  then show ?thesis using client_safe_after [OF clear_v1_cp3_safe] by blast
qed

lemma stop_notify_safe: "client_safe c (snd (stop_notify B c))"
proof -
  have "same_owner (clear_v1_cp3 c) (snd (stop_notify B c))"
    by (simp add: stop_notify_def seqM_def bindM_step same_owner_ops same_owner_call_ret)
  then show ?thesis using client_safe_after [OF clear_v1_cp3_safe] by blast
qed

subsection \<open>Fragment transfer\<close>

text \<open>The server handling a sequence of ciphertext writes; the result lists the scheduled callbacks.\<close>

fun feed_ciphertext :: "bytes list \<Rightarrow> ble_server \<Rightarrow> bytes list \<times> ble_server" where
  "feed_ciphertext [] s = ([], s)"
| "feed_ciphertext (w # ws) s =
     (case on_write_ciphertext w s of
        (None, s') \<Rightarrow> feed_ciphertext ws s'
      | (Some ct, s') \<Rightarrow> (let (cts, s'') = feed_ciphertext ws s' in (ct # cts, s'')))"

lemma feed_append:
  "feed_ciphertext (us @ ws) s =
     (let (a, s') = feed_ciphertext us s; (b, s'') = feed_ciphertext ws s' in (a @ b, s''))"
  by (induction us s rule: feed_ciphertext.induct) (auto split: prod.splits option.splits simp: Let_def)

lemma ciphertext_mtu_bounds: "23 < ciphertext_mtu m" "ciphertext_mtu m \<le> 512"
  by (simp_all add: ciphertext_mtu_def)

lemma write_all_Inr:
  "write_all B ws c = (Inr u, c') \<Longrightarrow> c' = c\<lparr> bc_ops := bc_ops c @ map (WriteChar CHAR_CIPHERTEXT) ws \<rparr>"
  by (induction ws arbitrary: c) (fastforce simp: bleak_call_def Let_def)+

lemma write_ciphertext_Inr:
  assumes "write_fragmented_ciphertext B data c = (Inr n, c')"
  obtains ws where "fragment_data data (ciphertext_mtu (client_mtu_size B c)) = Inr ws" and "n = length ws"
    and "c' = c\<lparr> bc_ops := bc_ops c @ map (WriteChar CHAR_CIPHERTEXT) ws \<rparr>"
  using assms write_all_Inr by (force simp: write_fragmented_ciphertext_def require_connected_def)

text \<open>Every proper prefix of the fragments is only accumulated; the last one completes the data.\<close>

lemma feed_prefix:
  assumes "mapR fragment_decode ws = Inr fs" and "\<forall>f \<in> set fs. frag_total f = int (length ws)"
    and "k < length ws" and "sv_ct_fragments s = []"
  shows "feed_ciphertext (take k ws) s = ([], s\<lparr> sv_ct_fragments := take k ws \<rparr>)"
  using assms(3)
proof (induction k)
  case 0
  then show ?case using assms(4) by simp
next
  case (Suc k)
  have k: "take (Suc k) ws = take k ws @ [ws ! k]" using Suc.prems by (simp add: take_Suc_conv_app_nth)
  obtain f where "fragment_decode (ws ! 0) = Inr f" "frag_total f = int (length ws)"
    using assms(1,2) Suc.prems
    by (auto simp: mapR_Inr_iff list_all2_conv_all_nth all_set_conv_all_nth dest!: spec [of _ 0])
  moreover have "(take k ws @ [ws ! k]) ! 0 = ws ! 0"
    using k [symmetric] by (simp only: nth_take)
  ultimately have "on_write_ciphertext (ws ! k) (s\<lparr> sv_ct_fragments := take k ws \<rparr>)
      = (None, s\<lparr> sv_ct_fragments := take (Suc k) ws \<rparr>)"
    using Suc.prems k by (simp add: on_write_ciphertext_def Let_def)
  then show ?case using Suc k by (simp add: feed_append Let_def)
qed

lemma fragments_total:
  assumes "4 < mtu" and "fragment_data data mtu = Inr ws"
  obtains fs where "mapR fragment_decode ws = Inr fs" and "\<forall>f \<in> set fs. frag_total f = int (length ws)"
    and "ws \<noteq> []"
proof -
  obtain t where t: "fragment_total (length data) (mtu - 4) = Inr t"
    and dec: "mapR fragment_decode ws =
      Inr (map (\<lambda>i. \<lparr> frag_index = int i, frag_total = t,
                      frag_payload = fragment_chunk data (nat (mtu - 4)) i \<rparr>) [0 ..< nat t])"
    using fragment_data_Inr [OF assms(2)] by metis
  have "1 \<le> t" using fragment_total_eq [OF t] assms(1) by simp
  moreover have "length ws = nat t" using dec by (auto simp: mapR_Inr_iff dest: list_all2_lengthD)
  moreover have "ws \<noteq> []" using calculation by (cases ws) auto
  ultimately show thesis using that [OF dec] by auto
qed

lemma feed_fragments_prefix:
  assumes "4 < mtu" and "fragment_data data mtu = Inr ws" and "sv_ct_fragments s = []" and "k < length ws"
  shows "feed_ciphertext (take k ws) s = ([], s\<lparr> sv_ct_fragments := take k ws \<rparr>)"
  using fragments_total [OF assms(1,2)] feed_prefix assms(3,4) by metis

lemma feed_fragments:
  assumes "4 < mtu" and "fragment_data data mtu = Inr ws" and "sv_ct_fragments s = []"
  shows "feed_ciphertext ws s = ([data], s\<lparr> sv_ciphertext := data \<rparr>)"
proof -
  obtain fs where dec: "mapR fragment_decode ws = Inr fs" and tot: "\<forall>f \<in> set fs. frag_total f = int (length ws)"
    and ne: "ws \<noteq> []" by (rule fragments_total [OF assms(1,2)])
  then obtain us w where ws: "ws = us @ [w]" by (cases ws rule: rev_cases) auto
  have pre: "feed_ciphertext us s = ([], s\<lparr> sv_ct_fragments := us \<rparr>)"
    using feed_fragments_prefix [OF assms, of "length us"] ws by simp
  obtain f where f: "fragment_decode (ws ! 0) = Inr f" "frag_total f = int (length ws)"
    using dec tot ne by (auto simp: mapR_Inr_iff list_all2_conv_all_nth all_set_conv_all_nth dest!: spec [of _ 0])
  have "reassemble_data ws = Inr data" using reassemble_permuted [OF assms(1,2)] by simp
  then have "on_write_ciphertext w (s\<lparr> sv_ct_fragments := us \<rparr>) = (Some data, s\<lparr> sv_ciphertext := data \<rparr>)"
    using f ws assms(3) by (simp add: on_write_ciphertext_def Let_def)
  then show ?thesis using pre ws by (simp add: feed_append Let_def)
qed

lemma write_all_succeeds: "(\<And>ops. \<exists>v. bl_io B ops = Inr v) \<Longrightarrow> \<exists>c'. write_all B ws c = (Inr (), c')"
proof (induction ws arbitrary: c)
  case (Cons w ws)
  obtain v where "bl_io B (bc_ops c @ [WriteChar CHAR_CIPHERTEXT w]) = Inr v" using Cons.prems by blast
  then show ?case
    using Cons.IH [OF Cons.prems] by (simp add: bindM_step bleak_call_def Let_def)
qed simp

section \<open>Properties\<close>

text \<open>
  C39. Transfer of a ciphertext over GATT: on a live link on which writes succeed, the client writes
  the ciphertext whatever MTU was negotiated; no write exceeds 512 bytes, nor the negotiated MTU when
  that is above the default of 23; and a server with an empty buffer that receives those writes
  schedules its callback exactly once, with the ciphertext, and is ready for the next.
\<close>

theorem ciphertext_transfer:
  assumes "client_is_connected B c" and "\<And>ops. \<exists>v. bl_io B ops = Inr v"
    and "length data = CT_SIZE" and "sv_ct_fragments s = []"
  shows "\<exists>ws. write_fragmented_ciphertext B data c =
        (Inr (length ws), c\<lparr> bc_ops := bc_ops c @ map (WriteChar CHAR_CIPHERTEXT) ws \<rparr>)
    \<and> (\<forall>w \<in> set ws. length w \<le> 512 \<and> (23 < client_mtu_size B c \<longrightarrow> int (length w) \<le> client_mtu_size B c))
    \<and> feed_ciphertext ws s = ([data], s\<lparr> sv_ciphertext := data \<rparr>)"
proof -
  let ?m = "ciphertext_mtu (client_mtu_size B c)"
  have m: "4 < ?m" "?m \<le> 65539" using ciphertext_mtu_bounds [of "client_mtu_size B c"] by linarith+
  have "length data \<le> 255 * nat (?m - 4)"
    using assms(3) ciphertext_mtu_bounds(1) [of "client_mtu_size B c"] by simp
  then obtain ws where ws: "fragment_data data ?m = Inr ws" "\<forall>w \<in> set ws. int (length w) \<le> ?m"
    using fragment_data_succeeds [OF m] by blast
  obtain c' where "write_all B ws c = (Inr (), c')" using write_all_succeeds assms(2) by blast
  then have "write_fragmented_ciphertext B data c =
      (Inr (length ws), c\<lparr> bc_ops := bc_ops c @ map (WriteChar CHAR_CIPHERTEXT) ws \<rparr>)"
    using assms(1) ws(1) write_all_Inr [of B ws c] by (simp add: write_fragmented_ciphertext_def require_connected_def)
  moreover have "length w \<le> 512 \<and> (23 < client_mtu_size B c \<longrightarrow> int (length w) \<le> client_mtu_size B c)"
    if "w \<in> set ws" for w
  proof -
    have "int (length w) \<le> ?m" using ws(2) that by blast
    moreover have "?m \<le> 512" "23 < client_mtu_size B c \<longrightarrow> ?m \<le> client_mtu_size B c"
      by (simp_all add: ciphertext_mtu_def)
    ultimately show ?thesis by linarith
  qed
  ultimately show ?thesis using feed_fragments [OF m(1) ws(1) assms(4)] by blast
qed

definition demo_bleak :: bleak where
  "demo_bleak = \<lparr> bl_scan = (\<lambda>_. None), bl_io = (\<lambda>_. Inr []), bl_connected = (\<lambda>_ _. True),
     bl_mtu = (\<lambda>_ _. 517), bl_polls = (\<lambda>_. []), bl_queue = (\<lambda>_. []) \<rparr>"

theorem ciphertext_transfer_witness:
  "\<exists>ws. feed_ciphertext ws (BLEPeripheralServer_init True) =
     ([replicate 1088 7], (BLEPeripheralServer_init True)\<lparr> sv_ciphertext := replicate 1088 7 \<rparr>)"
  using ciphertext_transfer [of demo_bleak "(BLECentralClient_init [])\<lparr> bc_client := Some 0 \<rparr>"
      "replicate 1088 7" "BLEPeripheralServer_init True"]
  by (auto simp: client_is_connected_def demo_bleak_def BLEPeripheralServer_init_def)

lemma feed_poisoned:
  "length frag < FRAGMENT_HEADER_SIZE \<Longrightarrow> sv_ct_fragments s = frag # us \<Longrightarrow>
     feed_ciphertext ws s = ([], s\<lparr> sv_ct_fragments := frag # us @ ws \<rparr>)"
proof (induction ws arbitrary: s us)
  case Nil
  then show ?case by simp
next
  case (Cons w ws)
  have "on_write_ciphertext w s = (None, s\<lparr> sv_ct_fragments := frag # us @ [w] \<rparr>)"
    using Cons.prems by (simp add: on_write_ciphertext_def Let_def fragment_decode_def)
  then show ?case
    using Cons.IH [OF Cons.prems(1), of "s\<lparr> sv_ct_fragments := frag # us @ [w] \<rparr>" "us @ [w]"] by simp
qed

text \<open>
  The Peripheral's fragment buffer cannot recover from a malformed first write: once a write
  shorter than a fragment header has been accumulated, no sequence of further writes, however well
  formed, delivers a ciphertext, until \<open>reset_ciphertext_buffer\<close> is called (which nothing does).
\<close>

theorem server_buffer_poisoned:
  assumes "length frag < FRAGMENT_HEADER_SIZE" and "sv_ct_fragments s = []"
  shows "fst (feed_ciphertext (frag # ws) s) = []
    \<and> sv_ciphertext (snd (feed_ciphertext (frag # ws) s)) = sv_ciphertext s
    \<and> sv_ct_fragments (reset_ciphertext_buffer (snd (feed_ciphertext (frag # ws) s))) = []"
proof -
  have "on_write_ciphertext frag s = (None, s\<lparr> sv_ct_fragments := [frag] \<rparr>)"
    using assms by (simp add: on_write_ciphertext_def Let_def fragment_decode_def)
  then show ?thesis
    using feed_poisoned [OF assms(1), of "s\<lparr> sv_ct_fragments := [frag] \<rparr>" "[]" ws]
    by (simp add: reset_ciphertext_buffer_def)
qed

theorem server_buffer_poisoned_witness:
  "fst (feed_ciphertext [[], [0, 1, 0, 1, 7]] (BLEPeripheralServer_init True)) = []
   \<and> fst (feed_ciphertext [[0, 1, 0, 1, 7]] (BLEPeripheralServer_init True)) = [[7]]"
proof
  show "fst (feed_ciphertext [[], [0, 1, 0, 1, 7]] (BLEPeripheralServer_init True)) = []"
    using server_buffer_poisoned [of "[]" "BLEPeripheralServer_init True" "[[0, 1, 0, 1, 7]]"]
    by (simp add: BLEPeripheralServer_init_def)
  show "fst (feed_ciphertext [[0, 1, 0, 1, 7]] (BLEPeripheralServer_init True)) = [[7]]"
    by (simp add: BLEPeripheralServer_init_def on_write_ciphertext_def fragment_defs eval_simps)
qed

text \<open>
  Losing or leaving a link destroys the v1 session: after \<open>disconnect\<close>, \<open>stop_notify\<close>, a
  reconnection to the known peer, or the disconnect callback of the link that owns the session (even
  when \<open>bleak\<close> raises), the client holds no session, application or subscription, the objects it
  held were cleared, and every object it ever let go of has its keys zeroed.
\<close>

theorem client_teardown_wipes:
  "client_safe c (snd (client_disconnect B c)) \<and> client_safe c (snd (stop_notify B c))
   \<and> (bc_device c \<noteq> None \<longrightarrow> client_safe c (snd (client_reconnect_v1_peer B c)))
   \<and> (bc_v1_cp3_link c = Some l \<longrightarrow> client_safe c (client_on_v1_disconnect l c))"
proof (intro conjI impI)
  show "client_safe c (snd (client_disconnect B c))" by (rule client_disconnect_safe)
  show "client_safe c (snd (stop_notify B c))" by (rule stop_notify_safe)
  show "client_safe c (client_on_v1_disconnect l c)" if "bc_v1_cp3_link c = Some l"
    using that clear_v1_cp3_safe by (simp add: client_on_v1_disconnect_def)
  assume "bc_device c \<noteq> None"
  then obtain addr where d: "bc_device c = Some addr" by blast
  let ?rest = "seqM (case bc_client c of None \<Rightarrow> retM () | Some l \<Rightarrow> bindM (bleak_call B (Disconnect l)) (\<lambda>_. retM ())) (
     bindM (bleak_scan B (ScanAddress addr)) (\<lambda>peer. case peer of
       None \<Rightarrow> retM False
     | Some _ \<Rightarrow>
         seqM (setM (\<lambda>c. c\<lparr> bc_device := peer \<rparr>)) (
         bindM (readM (\<lambda>c. Inr (new_bleak_client c))) (\<lambda>l.
         seqM (setM (\<lambda>c. c\<lparr> bc_client := Some l \<rparr>)) (
         bindM (bleak_call B (Connect l)) (\<lambda>_.
         readM (\<lambda>c. Inr (bl_connected B (bc_ops c) l))))))))"
  have "same_owner s (snd (?rest s))" for s
    unfolding seqM_def
    by (auto intro!: bindM_keeps [where R = same_owner] simp: same_owner_ops same_owner_call same_owner_call_ret
        split: option.splits intro: same_owner_trans)
  then have "same_owner (clear_v1_cp3 c) (snd (client_reconnect_v1_peer B c))"
    using d by (simp add: client_reconnect_v1_peer_def bindM_def seqM_def)
  then show "client_safe c (snd (client_reconnect_v1_peer B c))"
    using client_safe_after [OF clear_v1_cp3_safe] by blast
qed

theorem client_teardown_wipes_witness:
  "client_safe ((BLECentralClient_init [])\<lparr> bc_device := Some ''A'', bc_v1_cp3_session := Some (V1Handshake cp3_init),
      bc_v1_cp3_link := Some 0 \<rparr>)
    (client_on_v1_disconnect 0 ((BLECentralClient_init [])\<lparr> bc_device := Some ''A'',
      bc_v1_cp3_session := Some (V1Handshake cp3_init), bc_v1_cp3_link := Some 0 \<rparr>))"
  using client_teardown_wipes [where l = 0 and c = "(BLECentralClient_init [])\<lparr> bc_device := Some ''A'',
      bc_v1_cp3_session := Some (V1Handshake cp3_init), bc_v1_cp3_link := Some 0 \<rparr>"] by simp

end
