(* ===== verification/Legacy_Handshake.thy ===== *)
theory Legacy_Handshake
  imports Gatt_Transport Session_Store
begin

text \<open>
  The historical handshake with its session resumption: \<open>src/common/ml_kem.py\<close>,
  \<open>src/central/handshake.py\<close>, \<open>experimental/peripheral/handshake.py\<close>, and the two secure-channel
  classes that run over GATT. Clock readings are \<open>clk n\<close> for the n-th reading; randomness, the
  user's answers and \<open>bleak\<close>'s behaviour are arguments.
\<close>

section \<open>ML-KEM wrapper (ml\_kem.py)\<close>

definition generate_keypair :: "third_party \<Rightarrow> nat \<Rightarrow> bytes \<times> bytes" where
  "generate_keypair C seed = kem_keypair C seed"

definition encapsulate :: "third_party \<Rightarrow> nat \<Rightarrow> bytes \<Rightarrow> bytes \<times> bytes" where
  "encapsulate C r public_key = (let (ciphertext, shared_secret) = kem_encap C public_key r
                                 in (ciphertext, shared_secret))"

definition decapsulate :: "third_party \<Rightarrow> bytes \<Rightarrow> bytes \<Rightarrow> bytes" where
  "decapsulate C secret_key ciphertext = kem_decap C secret_key ciphertext"

text \<open>The class: \<open>mk_kem\<close> is the secret key inside the \<open>oqs.KeyEncapsulation\<close> object.\<close>

record mlkem =
  mk_kem :: "bytes option"
  mk_secret_key :: "bytes option"

definition MLKEM_init :: mlkem where
  "MLKEM_init = \<lparr> mk_kem = None, mk_secret_key = None \<rparr>"

definition MLKEM_generate_keypair :: "third_party \<Rightarrow> nat \<Rightarrow> mlkem \<Rightarrow> (bytes \<times> bytes) \<times> mlkem" where
  "MLKEM_generate_keypair C seed m =
     (let (pk, sk) = kem_keypair C seed in ((pk, sk), m\<lparr> mk_kem := Some sk, mk_secret_key := Some sk \<rparr>))"

definition MLKEM_encapsulate :: "third_party \<Rightarrow> nat \<Rightarrow> bytes \<Rightarrow> bytes \<times> bytes" where
  "MLKEM_encapsulate C r public_key = kem_encap C public_key r"

definition MLKEM_decapsulate :: "third_party \<Rightarrow> bytes \<Rightarrow> mlkem \<Rightarrow> bytes result" where
  "MLKEM_decapsulate C ciphertext m =
     (case (mk_kem m, mk_secret_key m) of
        (Some sk, Some _) \<Rightarrow> Inr (kem_decap C sk ciphertext)
      | _ \<Rightarrow> Inl (RuntimeError ''No keypair generated. Call generate_keypair() first.''))"

section \<open>The user\<close>

text \<open>
  A callback gets the number and its text; at the console the user reads the text and types a line
  (Latin-1 text here). \<open>\<open>s\<close>.strip().lower()\<close> on such text follows.
\<close>

datatype sas_prompt = SasCallback "nat \<Rightarrow> string \<Rightarrow> bool result" | SasConsole "string \<Rightarrow> string"

definition latin1_space :: "char \<Rightarrow> bool" where
  "latin1_space c = (let n = of_char c :: nat
     in (9 \<le> n \<and> n \<le> 13) \<or> (28 \<le> n \<and> n \<le> 32) \<or> n = 133 \<or> n = 160)"

definition py_strip :: "string \<Rightarrow> string" where
  "py_strip s = rev (dropWhile latin1_space (rev (dropWhile latin1_space s)))"

definition latin1_lower :: "char \<Rightarrow> char" where
  "latin1_lower c = (let n = of_char c :: nat
     in if (65 \<le> n \<and> n \<le> 90) \<or> (192 \<le> n \<and> n \<le> 222 \<and> n \<noteq> 215) then char_of (n + 32) else c)"

definition SAS_YES :: "string list" where
  "SAS_YES = [''y'', ''yes'', [CHR ''s'', char_of (236 :: nat)], ''si'']"

definition prompt_sas :: "sas_prompt \<Rightarrow> nat \<Rightarrow> string \<Rightarrow> bool result" where
  "prompt_sas ui sas sas_str =
     (case ui of
        SasCallback f \<Rightarrow> f sas sas_str
      | SasConsole user \<Rightarrow> Inr (map latin1_lower (py_strip (user sas_str)) \<in> set SAS_YES))"

section \<open>State shared by the two sides\<close>

record hs_base =
  hb_store :: "session_store option"
  hb_tick :: nat
  hb_shared_secret :: "bytes option"
  hb_session_key :: "bytes option"
  hb_session_id :: "bytes option"

text \<open>A store operation that reads the clock \<open>k\<close> times; \<open>self._store\<close> must not be \<open>None\<close>.\<close>

definition storeM ::
  "(nat \<Rightarrow> seconds) \<Rightarrow> nat \<Rightarrow> ((nat \<Rightarrow> seconds) \<Rightarrow> session_store \<Rightarrow> 'a result \<times> session_store) \<Rightarrow>
   ('z hs_base_scheme, 'a) meth" where
  "storeM clk k f s =
     (case hb_store s of
        None \<Rightarrow> (Inl AttributeError, s)
      | Some st \<Rightarrow> (let (r, st') = f (\<lambda>i. clk (hb_tick s + i)) st
                    in (r, s\<lparr> hb_store := Some st', hb_tick := hb_tick s + k \<rparr>)))"

definition okS :: "'a \<times> session_store \<Rightarrow> 'a result \<times> session_store" where
  "okS p = (Inr (fst p), snd p)"

definition store_load ::
  "(nat \<Rightarrow> seconds) \<Rightarrow> bool \<Rightarrow> bytes \<Rightarrow> ('z hs_base_scheme, bytes option) meth" where
  "store_load clk inc sid = storeM clk 2 (\<lambda>t st. okS (SessionStore_load (t 0) (t 1) inc sid st))"

definition store_mark_used :: "(nat \<Rightarrow> seconds) \<Rightarrow> bytes \<Rightarrow> ('z hs_base_scheme, bool) meth" where
  "store_mark_used clk sid = storeM clk 1 (\<lambda>t st. okS (SessionStore_mark_used (t 0) sid st))"

definition store_delete :: "(nat \<Rightarrow> seconds) \<Rightarrow> bytes \<Rightarrow> ('z hs_base_scheme, unit) meth" where
  "store_delete clk sid = storeM clk 0 (\<lambda>t st. (Inr (), SessionStore_delete sid st))"

definition store_save :: "(nat \<Rightarrow> seconds) \<Rightarrow> bytes \<Rightarrow> bytes \<Rightarrow> ('z hs_base_scheme, unit) meth" where
  "store_save clk sid key = storeM clk 1 (\<lambda>t st. SessionStore_save (t 0) sid key st)"

definition store_has :: "(nat \<Rightarrow> seconds) \<Rightarrow> bytes \<Rightarrow> ('z hs_base_scheme, bool) meth" where
  "store_has clk sid = storeM clk 1 (\<lambda>t st. okS (SessionStore_has (t 0) sid st))"

definition store_count :: "(nat \<Rightarrow> seconds) \<Rightarrow> ('z hs_base_scheme, nat) meth" where
  "store_count clk = storeM clk 1 (\<lambda>t st. okS (SessionStore_count (t 0) st))"

definition store_list_ids ::
  "(nat \<Rightarrow> seconds) \<Rightarrow> ('z hs_base_scheme, (string \<times> seconds \<times> int) list) meth" where
  "store_list_ids clk = storeM clk 1 (\<lambda>t st. okS (SessionStore_list_ids (t 0) st))"

text \<open>
  The common tail of both full handshakes: remember the secret and the key, and save the session
  under a fresh id when there is a store. \<open>urandom\<close> is what \<open>os.urandom\<close> returned.
\<close>

definition finish_full :: "(nat \<Rightarrow> seconds) \<Rightarrow> bytes \<Rightarrow> bytes \<Rightarrow> bytes \<Rightarrow> ('z hs_base_scheme, bytes) meth" where
  "finish_full clk urandom shared_secret session_key =
     seqM (setM (\<lambda>s. s\<lparr> hb_shared_secret := Some shared_secret, hb_session_key := Some session_key \<rparr>)) (
     seqM (\<lambda>s. if hb_store s \<noteq> None
               then (let sid = generate_session_id urandom
                     in store_save clk sid session_key (s\<lparr> hb_session_id := Some sid \<rparr>))
               else (Inr (), s)) (
     retM session_key))"

section \<open>The Central's handshake (handshake.py)\<close>

record central_handshake = hs_base +
  hc_client :: ble_client

definition CentralHandshake_init :: "ble_client \<Rightarrow> session_store option \<Rightarrow> central_handshake" where
  "CentralHandshake_init client store =
     \<lparr> hb_store = store, hb_tick = 0, hb_shared_secret = None, hb_session_key = None,
       hb_session_id = None, hc_client = client \<rparr>"

text \<open>A call on \<open>self._client\<close>.\<close>

definition clientM :: "(ble_client, 'a) meth \<Rightarrow> (central_handshake, 'a) meth" where
  "clientM m s = (let (r, c) = m (hc_client s) in (r, s\<lparr> hc_client := c \<rparr>))"

text \<open>
  One turn per element of the list: the notifications that arrived before that turn; the loop ends
  with the deadline.
\<close>

fun wait_for_notification :: "bytes list \<Rightarrow> bytes list list \<Rightarrow> bytes option" where
  "wait_for_notification queue [] = None"
| "wait_for_notification queue (arrived # turns) =
     (case queue @ arrived of [] \<Rightarrow> wait_for_notification [] turns | x # _ \<Rightarrow> Some x)"

definition resume_exchange :: "bleak \<Rightarrow> bytes \<Rightarrow> (central_handshake, bytes option) meth" where
  "resume_exchange B resume_msg =
     seqM (clientM (start_notify B)) (
     finallyM
       (seqM (clientM (send_control B resume_msg)) (
        readM (\<lambda>s. Inr (wait_for_notification [] (bl_polls B (bc_ops (hc_client s)))))))
       (clientM (stop_notify B)))"

fun resume_loop ::
  "bleak \<Rightarrow> (nat \<Rightarrow> seconds) \<Rightarrow> (string \<times> seconds \<times> int) list \<Rightarrow> (central_handshake, bytes option) meth" where
  "resume_loop B clk [] = retM None"
| "resume_loop B clk ((sid_hex, created_at, usage_count) # ids) =
     bindM (liftR (bytes_fromhex sid_hex)) (\<lambda>session_id.
     bindM (store_load clk False session_id) (\<lambda>loaded.
     case loaded of
       None \<Rightarrow> resume_loop B clk ids
     | Some session_key \<Rightarrow>
         bindM (liftR (build_resume_request session_id)) (\<lambda>resume_msg.
         bindM (resume_exchange B resume_msg) (\<lambda>response.
         if response = Some RESUME_OK_NOTIFY
         then bindM (store_mark_used clk session_id) (\<lambda>ok.
                if \<not> ok then resume_loop B clk ids
                else seqM (setM (\<lambda>s. s\<lparr> hb_session_id := Some session_id \<rparr>)) (retM (Some session_key)))
         else if response = Some RESUME_FAIL_NOTIFY
         then seqM (store_delete clk session_id) (resume_loop B clk ids)
         else resume_loop B clk ids))))"

definition attempt_resume :: "bleak \<Rightarrow> (nat \<Rightarrow> seconds) \<Rightarrow> (central_handshake, bytes option) meth" where
  "attempt_resume B clk s =
     (if hb_store s = None then (Inr None, s)
      else bindM (store_list_ids clk) (resume_loop B clk) s)"

definition run_full_handshake ::
  "bleak \<Rightarrow> third_party \<Rightarrow> (nat \<Rightarrow> seconds) \<Rightarrow> nat \<Rightarrow> bytes \<Rightarrow> sas_prompt \<Rightarrow> (central_handshake, bytes) meth" where
  "run_full_handshake B C clk r urandom ui =
     bindM (clientM (read_fragmented_public_key B)) (\<lambda>public_key.
     seqM (liftR (requireR (length public_key = PK_SIZE) (RuntimeError ''Public key size mismatch''))) (
     let (ciphertext, shared_secret) = encapsulate C r public_key
     in seqM (liftR (requireR (length shared_secret = SS_SIZE) (RuntimeError ''Shared secret size mismatch''))) (
     bindM (clientM (write_fragmented_ciphertext B ciphertext)) (\<lambda>_.
     let sas = derive_sas public_key ciphertext shared_secret; sas_str = format_sas sas
     in bindM (liftR (prompt_sas ui sas sas_str)) (\<lambda>confirmed.
     seqM (liftR (requireR confirmed (RuntimeError ''SAS verification failed''))) (
     finish_full clk urandom shared_secret (derive_session_key C shared_secret)))))))"

definition CentralHandshake_run ::
  "bleak \<Rightarrow> third_party \<Rightarrow> (nat \<Rightarrow> seconds) \<Rightarrow> nat \<Rightarrow> bytes \<Rightarrow> sas_prompt \<Rightarrow> (central_handshake, bytes) meth" where
  "CentralHandshake_run B C clk r urandom ui =
     seqM (readM (\<lambda>s. requireR (client_is_connected B (hc_client s)) (RuntimeError ''BLE client not connected''))) (
     bindM (\<lambda>s. if hb_store s \<noteq> None
                then bindM (store_count clk) (\<lambda>n. if 0 < n then attempt_resume B clk else retM None) s
                else (Inr None, s)) (\<lambda>resumed.
     case resumed of
       Some session_key \<Rightarrow> seqM (setM (\<lambda>s. s\<lparr> hb_session_key := Some session_key \<rparr>)) (retM session_key)
     | None \<Rightarrow> run_full_handshake B C clk r urandom ui))"

section \<open>The Peripheral's handshake (experimental handshake.py)\<close>

record peripheral_handshake = hs_base +
  hp_server :: ble_server
  hp_secret_key :: "bytes option"
  hp_public_key :: "bytes option"
  hp_ciphertext_received :: bool
  hp_resume_requested :: bool
  hp_resume_session_id :: "bytes option"

definition PeripheralHandshake_init :: "ble_server \<Rightarrow> session_store option \<Rightarrow> peripheral_handshake" where
  "PeripheralHandshake_init server store =
     \<lparr> hb_store = store, hb_tick = 0, hb_shared_secret = None, hb_session_key = None,
       hb_session_id = None, hp_server = server, hp_secret_key = None, hp_public_key = None,
       hp_ciphertext_received = False, hp_resume_requested = False, hp_resume_session_id = None \<rparr>"

definition serverM :: "(ble_server, 'a) meth \<Rightarrow> (peripheral_handshake, 'a) meth" where
  "serverM m s = (let (r, v) = m (hp_server s) in (r, s\<lparr> hp_server := v \<rparr>))"

definition on_ciphertext_received :: "bytes \<Rightarrow> (peripheral_handshake, unit) meth" where
  "on_ciphertext_received ct = setM (\<lambda>s. s\<lparr> hp_ciphertext_received := True \<rparr>)"

definition handle_resume_request :: "(nat \<Rightarrow> seconds) \<Rightarrow> bytes \<Rightarrow> (peripheral_handshake, unit) meth" where
  "handle_resume_request clk session_id s =
     (if hb_store s = None then (Inr (), s)
      else bindM (store_has clk session_id) (\<lambda>found.
             if found
             then bindM (store_load clk True session_id) (\<lambda>_.
                  seqM (setM (\<lambda>s. s\<lparr> hp_resume_session_id := Some session_id, hp_resume_requested := True \<rparr>)) (
                  serverM (notify_data RESUME_OK_NOTIFY)))
             else serverM (notify_data RESUME_FAIL_NOTIFY)) s)"

definition on_control_received :: "(nat \<Rightarrow> seconds) \<Rightarrow> bytes \<Rightarrow> (peripheral_handshake, unit) meth" where
  "on_control_received clk data =
     (case parse_control_message data of
        ResumeRequest session_id \<Rightarrow> handle_resume_request clk session_id
      | SasConfirm \<Rightarrow> retM ()
      | UnknownControl _ \<Rightarrow> retM ())"

text \<open>
  A GATT write at the Peripheral and the callback it schedules. The callback runs as its own task:
  an exception in it ends that task only.
\<close>

datatype gatt_event = WriteCiphertext bytes | WriteControl bytes

fun handle_event :: "(nat \<Rightarrow> seconds) \<Rightarrow> peripheral_handshake \<Rightarrow> gatt_event \<Rightarrow> peripheral_handshake" where
  "handle_event clk s (WriteCiphertext value) =
     (let (cb, v) = on_write_ciphertext value (hp_server s); s = s\<lparr> hp_server := v \<rparr>
      in case cb of None \<Rightarrow> s | Some ct \<Rightarrow> snd (on_ciphertext_received ct s))"
| "handle_event clk s (WriteControl value) =
     (let (msg, v) = on_write_control value (hp_server s)
      in snd (on_control_received clk msg (s\<lparr> hp_server := v \<rparr>)))"

text \<open>One turn per element: the writes that arrived before it.\<close>

fun wait_for_either_or :: "(nat \<Rightarrow> seconds) \<Rightarrow> gatt_event list list \<Rightarrow> (peripheral_handshake, unit) meth" where
  "wait_for_either_or clk [] s = (Inl TimeoutError, s)"
| "wait_for_either_or clk (arrived # turns) s =
     (let s = foldl (handle_event clk) s arrived
      in if hp_ciphertext_received s \<or> hp_resume_requested s then (Inr (), s)
         else wait_for_either_or clk turns s)"

text \<open>What surrounds one run: \<open>pe_late\<close> are writes that arrive while the user is asked.\<close>

record peripheral_env =
  pe_clk :: "nat \<Rightarrow> seconds"
  pe_seed :: nat
  pe_server_starts :: bool
  pe_turns :: "gatt_event list list"
  pe_late :: "gatt_event list"
  pe_ui :: sas_prompt
  pe_urandom :: bytes

definition resume_branch :: "(nat \<Rightarrow> seconds) \<Rightarrow> (peripheral_handshake, bytes option) meth" where
  "resume_branch clk s =
     (if hp_resume_requested s \<and> hb_store s \<noteq> None
      then (case hp_resume_session_id s of
              None \<Rightarrow> (Inr None, s)
            | Some sid \<Rightarrow>
                bindM (store_load clk True sid) (\<lambda>loaded.
                case loaded of
                  None \<Rightarrow> retM None
                | Some session_key \<Rightarrow>
                    seqM (setM (\<lambda>s. s\<lparr> hb_session_key := Some session_key, hb_session_id := Some sid \<rparr>)) (
                    retM (Some session_key))) s)
      else (Inr None, s))"

definition full_branch :: "third_party \<Rightarrow> peripheral_env \<Rightarrow> bytes \<Rightarrow> bytes \<Rightarrow> (peripheral_handshake, bytes) meth" where
  "full_branch C E pk sk =
     bindM (readM (\<lambda>s. Inr (sv_ciphertext (hp_server s)))) (\<lambda>ciphertext.
     seqM (liftR (requireR (length ciphertext = CT_SIZE) (RuntimeError ''Ciphertext size mismatch''))) (
     let shared_secret = decapsulate C sk ciphertext
     in seqM (liftR (requireR (length shared_secret = SS_SIZE) (RuntimeError ''Shared secret size''))) (
     let sas = derive_sas pk ciphertext shared_secret; sas_str = format_sas sas
     in seqM (setM (\<lambda>s. foldl (handle_event (pe_clk E)) s (pe_late E))) (
     bindM (liftR (prompt_sas (pe_ui E) sas sas_str)) (\<lambda>confirmed.
     seqM (liftR (requireR confirmed (RuntimeError ''SAS verification failed''))) (
     finish_full (pe_clk E) (pe_urandom E) shared_secret (derive_session_key C shared_secret)))))))"

definition PeripheralHandshake_run :: "third_party \<Rightarrow> peripheral_env \<Rightarrow> (peripheral_handshake, bytes) meth" where
  "PeripheralHandshake_run C E =
     (let (pk, sk) = generate_keypair C (pe_seed E)
      in seqM (liftR (requireR (length pk = PK_SIZE) (RuntimeError ''Public key size''))) (
         seqM (setM (\<lambda>s. s\<lparr> hp_secret_key := Some sk, hp_public_key := Some pk,
                 hp_server := (if pe_server_starts E then server_start else id)
                   (server_set_public_key pk (hp_server s)) \<rparr>)) (
         seqM (\<lambda>s. case wait_for_either_or (pe_clk E) (pe_turns E) s of
                     (Inl _, t) \<Rightarrow> (Inl (RuntimeError ''Timeout waiting for central''), t)
                   | (Inr _, t) \<Rightarrow> (Inr (), t)) (
         bindM (resume_branch (pe_clk E)) (\<lambda>resumed.
         case resumed of Some session_key \<Rightarrow> retM session_key | None \<Rightarrow> full_branch C E pk sk)))))"

section \<open>Secure channels over GATT (secure\_channel.py of either side)\<close>

record central_channel =
  cc_channel :: secure_channel
  cc_client :: ble_client
  cc_receive_queue :: "bytes list"

definition CentralSecureChannel_init :: "bytes \<Rightarrow> ble_client \<Rightarrow> bytes option \<Rightarrow> central_channel result" where
  "CentralSecureChannel_init session_key client session_id =
     bindR (SecureChannel_init session_key session_id (Some CENTRAL_ROLE)) (\<lambda>ch.
       Inr \<lparr> cc_channel = ch, cc_client = client, cc_receive_queue = [] \<rparr>)"

text \<open>
  The notification handler; an exception other than \<open>InvalidTag\<close> leaves it and ends up in the
  caller, \<open>bleak\<close>'s dispatcher.
\<close>

definition central_notification :: "third_party \<Rightarrow> bool \<Rightarrow> bytes \<Rightarrow> (central_channel, unit) meth" where
  "central_notification C decrypt_notifications raw s =
     (if \<not> decrypt_notifications then (Inr (), s\<lparr> cc_receive_queue := cc_receive_queue s @ [raw] \<rparr>)
      else case channel_decrypt C MSG_TYPE_DATA (cc_channel s) raw of
             (Inl InvalidTag, ch) \<Rightarrow> (Inr (), s\<lparr> cc_channel := ch \<rparr>)
           | (Inl e, ch) \<Rightarrow> (Inl e, s\<lparr> cc_channel := ch \<rparr>)
           | (Inr plaintext, ch) \<Rightarrow>
               (Inr (), s\<lparr> cc_channel := ch, cc_receive_queue := cc_receive_queue s @ [plaintext] \<rparr>))"

definition ccM :: "(ble_client, 'a) meth \<Rightarrow> (central_channel, 'a) meth" where
  "ccM m s = (let (r, c) = m (cc_client s) in (r, s\<lparr> cc_client := c \<rparr>))"

definition central_start_receiving :: "bleak \<Rightarrow> (central_channel, unit) meth" where
  "central_start_receiving B = ccM (start_notify B)"

definition central_send :: "bleak \<Rightarrow> third_party \<Rightarrow> bytes \<Rightarrow> bytes \<Rightarrow> (central_channel, unit) meth" where
  "central_send B C iv plaintext =
     bindM (\<lambda>s. let (r, ch) = channel_encrypt C iv (cc_channel s) plaintext MSG_TYPE_DATA
                in (r, s\<lparr> cc_channel := ch \<rparr>)) (\<lambda>wire_data.
     ccM (send_control B wire_data))"

text \<open>
  \<open>receive\<close>: one turn per element, the notifications that arrived before it; exceptions of the
  handler stay with \<open>bleak\<close>.
\<close>

fun central_receive ::
  "third_party \<Rightarrow> bool \<Rightarrow> bytes list list \<Rightarrow> central_channel \<Rightarrow> bytes option \<times> central_channel" where
  "central_receive C dec turns s =
     (case cc_receive_queue s of
        x # q \<Rightarrow> (Some x, s\<lparr> cc_receive_queue := q \<rparr>)
      | [] \<Rightarrow> (case turns of
                [] \<Rightarrow> (None, s)
              | arrived # rest \<Rightarrow>
                  central_receive C dec rest (foldl (\<lambda>t raw. snd (central_notification C dec raw t)) s arrived)))"

definition central_stop :: "bleak \<Rightarrow> (central_channel, unit) meth" where
  "central_stop B = ccM (stop_notify B)"

record peripheral_channel =
  pc_channel :: secure_channel
  pc_server :: ble_server
  pc_receive_queue :: "bytes list"

definition PeripheralSecureChannel_init :: "bytes \<Rightarrow> ble_server \<Rightarrow> bytes option \<Rightarrow> peripheral_channel result" where
  "PeripheralSecureChannel_init session_key server session_id =
     bindR (SecureChannel_init session_key session_id (Some PERIPHERAL_ROLE)) (\<lambda>ch.
       Inr \<lparr> pc_channel = ch, pc_server = server, pc_receive_queue = [] \<rparr>)"

definition on_encrypted_data :: "third_party \<Rightarrow> bytes \<Rightarrow> (peripheral_channel, unit) meth" where
  "on_encrypted_data C data s =
     (case channel_decrypt C MSG_TYPE_DATA (pc_channel s) data of
        (Inl e, ch) \<Rightarrow> (Inl e, s\<lparr> pc_channel := ch \<rparr>)
      | (Inr plaintext, ch) \<Rightarrow>
          (Inr (), s\<lparr> pc_channel := ch, pc_receive_queue := pc_receive_queue s @ [plaintext] \<rparr>))"

definition peripheral_send :: "third_party \<Rightarrow> bytes \<Rightarrow> bytes \<Rightarrow> (peripheral_channel, unit) meth" where
  "peripheral_send C iv plaintext =
     bindM (\<lambda>s. let (r, ch) = channel_encrypt C iv (pc_channel s) plaintext MSG_TYPE_DATA
                in (r, s\<lparr> pc_channel := ch \<rparr>)) (\<lambda>wire_data.
     (\<lambda>s. let (r, v) = notify_data wire_data (pc_server s) in (r, s\<lparr> pc_server := v \<rparr>)))"

fun peripheral_receive ::
  "third_party \<Rightarrow> bytes list list \<Rightarrow> peripheral_channel \<Rightarrow> bytes option \<times> peripheral_channel" where
  "peripheral_receive C turns s =
     (case pc_receive_queue s of
        x # q \<Rightarrow> (Some x, s\<lparr> pc_receive_queue := q \<rparr>)
      | [] \<Rightarrow> (case turns of
                [] \<Rightarrow> (None, s)
              | arrived # rest \<Rightarrow>
                  peripheral_receive C rest (foldl (\<lambda>t raw. snd (on_encrypted_data C raw t)) s arrived)))"

section \<open>Lemmas\<close>

subsection \<open>Store operations\<close>

lemma storeM_Inr:
  "storeM clk k f s = (Inr r, t) \<longleftrightarrow>
     (\<exists>st st'. hb_store s = Some st \<and> f (\<lambda>i. clk (hb_tick s + i)) st = (Inr r, st')
        \<and> t = s\<lparr> hb_store := Some st', hb_tick := hb_tick s + k \<rparr>)"
  by (auto simp: storeM_def split: option.splits prod.splits)

lemma okS_Inr [simp]: "okS p = (Inr x, st) \<longleftrightarrow> p = (x, st)"
  by (cases p) (auto simp: okS_def)

text \<open>
  A store that only shrank: every session left in it was there before with the same key and no more
  uses behind it.
\<close>

definition store_shrinks :: "session_store \<Rightarrow> session_store \<Rightarrow> bool" where
  "store_shrinks st st' \<longleftrightarrow> ss_max_uses st' = ss_max_uses st \<and> store_ok st'
     \<and> (\<forall>sid e'. map_of (ss_sessions st') (bytes_hex sid) = Some e' \<longrightarrow>
          (\<exists>e. map_of (ss_sessions st) (bytes_hex sid) = Some e \<and> se_session_key e = se_session_key e'
             \<and> se_usage_count e \<le> se_usage_count e'))"

lemma store_shrinks_refl: "store_ok st \<Longrightarrow> store_shrinks st st"
  by (auto simp: store_shrinks_def)

lemma store_shrinks_trans: "store_shrinks a b \<Longrightarrow> store_shrinks b c \<Longrightarrow> store_shrinks a c"
  unfolding store_shrinks_def by (metis order_trans)

lemma store_shrinks_budget: "store_shrinks st st' \<Longrightarrow> use_budget st' sid \<le> use_budget st sid"
  by (fastforce simp: store_shrinks_def use_budget_def split: option.splits)

lemma shrinks_expire: "store_ok st \<Longrightarrow> store_shrinks st (SessionStore_expire_invalid now st)"
  using map_of_expire [of st now] store_ok_expire [of st now]
  by (auto simp: store_shrinks_def live_entry_def split: option.splits if_splits)

lemma shrinks_mark_used: "store_ok st \<Longrightarrow> store_shrinks st (snd (SessionStore_mark_used now sid st))"
  unfolding store_shrinks_def
proof (intro conjI allI impI)
  assume ok: "store_ok st"
  then show "store_ok (snd (SessionStore_mark_used now sid st))" by (rule store_ok_mark_used)
  fix sid' e'
  assume "map_of (ss_sessions (snd (SessionStore_mark_used now sid st))) (bytes_hex sid') = Some e'"
  then show "\<exists>e. map_of (ss_sessions st) (bytes_hex sid') = Some e \<and> se_session_key e = se_session_key e'
      \<and> se_usage_count e \<le> se_usage_count e'"
    using mark_used_entry [OF ok, of now sid] mark_used_other [OF ok, of sid' sid now]
    by (cases "sid' = sid") (auto simp: live_entry_def split: option.splits if_splits)
qed simp

lemma shrinks_load: "store_ok st \<Longrightarrow> store_shrinks st (snd (SessionStore_load now now' inc sid st))"
  using shrinks_expire [of st now] shrinks_mark_used [where st = "SessionStore_expire_invalid now st" and now = now' and sid = sid] store_ok_expire [of st now]
  by (auto simp: SessionStore_load_def Let_def case_prod_unfold split: option.splits intro: store_shrinks_trans)

lemma shrinks_delete: "store_ok st \<Longrightarrow> store_shrinks st (SessionStore_delete sid st)"
  by (auto simp: store_shrinks_def SessionStore_delete_def store_ok_def distinct_delete delete_conv' split: if_splits)

lemma shrinks_queries:
  assumes "store_ok st"
  shows "store_shrinks st (snd (SessionStore_has now sid st))" "store_shrinks st (snd (SessionStore_list_ids now st))"
    "store_shrinks st (snd (SessionStore_count now st))"
  using shrinks_expire [OF assms] by (simp_all add: SessionStore_has_def SessionStore_list_ids_def SessionStore_count_def Let_def)

lemmas shrinks_ops = shrinks_expire shrinks_mark_used shrinks_load shrinks_delete shrinks_queries

text \<open>The same for the state of a handshake object: its store, if any, only shrank.\<close>

definition keeps_store :: "'z hs_base_scheme \<Rightarrow> 'z hs_base_scheme \<Rightarrow> bool" where
  "keeps_store s t \<longleftrightarrow>
     (case hb_store s of
        None \<Rightarrow> hb_store t = None
      | Some st \<Rightarrow> store_ok st \<longrightarrow> (\<exists>st'. hb_store t = Some st' \<and> store_shrinks st st'))"

lemma keeps_store_refl: "keeps_store s s"
  by (simp add: keeps_store_def store_shrinks_refl split: option.splits)

lemma keeps_store_trans: "keeps_store a b \<Longrightarrow> keeps_store b c \<Longrightarrow> keeps_store a c"
  by (fastforce simp: keeps_store_def store_shrinks_def [of _ "_ :: session_store"]
      intro: store_shrinks_trans split: option.splits)

lemma keeps_store_same: "hb_store t = hb_store s \<Longrightarrow> keeps_store s t"
  by (simp add: keeps_store_def store_shrinks_refl split: option.splits)

lemma keeps_storeM:
  "(\<And>st t. store_ok st \<Longrightarrow> store_shrinks st (snd (f t st))) \<Longrightarrow> keeps_store s (snd (storeM clk k f s))"
  by (auto simp: storeM_def keeps_store_def case_prod_unfold Let_def split: option.splits)

lemma snd_okS [simp]: "snd (okS p) = snd p"
  by (simp add: okS_def)

lemma keeps_store_ops:
  "keeps_store s (snd (store_load clk inc sid s))" "keeps_store s (snd (store_mark_used clk sid s))"
  "keeps_store s (snd (store_delete clk sid s))" "keeps_store s (snd (store_has clk sid s))"
  "keeps_store s (snd (store_count clk s))" "keeps_store s (snd (store_list_ids clk s))"
  unfolding store_load_def store_mark_used_def store_delete_def store_has_def store_count_def store_list_ids_def
  by (rule keeps_storeM, simp add: shrinks_ops)+

lemma finish_full_Inr:
  assumes "finish_full clk u ss key s = (Inr r, t)"
  shows "r = key" and "hb_session_key t = Some key" and "hb_shared_secret t = Some ss"
  using assms by (auto simp: finish_full_def store_save_def storeM_Inr Let_def split: if_splits)

lemma finish_full_succeeds:
  assumes "length u = SESSION_ID_SIZE"
  shows "\<exists>t. finish_full clk u ss key s = (Inr key, t) \<and> hb_session_key t = Some key"
proof (cases "hb_store s")
  case None
  then show ?thesis by (simp add: finish_full_def)
next
  case (Some st)
  let ?s = "s\<lparr> hb_shared_secret := Some ss, hb_session_key := Some key, hb_session_id := Some u \<rparr>"
  have "store_save clk u key ?s = (Inr (), ?s\<lparr> hb_store :=
      Some (snd (SessionStore_save (clk (hb_tick s)) u key st)), hb_tick := hb_tick s + 1 \<rparr>)"
    using Some assms by (simp add: store_save_def storeM_Inr SessionStore_save_def)
  then show ?thesis using Some assms by (simp add: finish_full_def generate_session_id_def Let_def)
qed

subsection \<open>The Central\<close>

lemma clientM_Inr:
  "clientM m s = (Inr r, t) \<longleftrightarrow> (\<exists>c. m (hc_client s) = (Inr r, c) \<and> t = s\<lparr> hc_client := c \<rparr>)"
  by (auto simp: clientM_def split: prod.splits)

lemma keeps_clientM: "keeps_store s (snd (clientM m s))"
  by (simp add: clientM_def case_prod_unfold Let_def keeps_store_same)

lemma keeps_finallyM:
  "(\<And>s. keeps_store s (snd (m s))) \<Longrightarrow> (\<And>s. keeps_store s (snd (f s))) \<Longrightarrow> keeps_store s (snd (finallyM m f s))"
  by (auto simp: finallyM_def Let_def case_prod_unfold intro: keeps_store_trans)

lemma keeps_bindM:
  "(\<And>s. keeps_store s (snd (m s))) \<Longrightarrow> (\<And>x s. keeps_store s (snd (f x s))) \<Longrightarrow> keeps_store s (snd (bindM m f s))"
  by (rule bindM_keeps [where R = keeps_store]) (auto intro: keeps_store_trans)

lemma keeps_seqM:
  "(\<And>s. keeps_store s (snd (m s))) \<Longrightarrow> (\<And>s. keeps_store s (snd (k s))) \<Longrightarrow> keeps_store s (snd (seqM m k s))"
  unfolding seqM_def by (rule keeps_bindM)

lemma keeps_simple:
  "keeps_store s (snd (retM x s))" "keeps_store s (snd (liftR r s))" "keeps_store s (snd (readM g s))"
  by (simp_all add: keeps_store_refl)

lemma keeps_exchange: "keeps_store s (snd (resume_exchange B msg s))"
  unfolding resume_exchange_def
  by (intro keeps_seqM keeps_finallyM keeps_clientM keeps_simple)

text \<open>The Peripheral answered RESUME_OK to a request for the session.\<close>

definition resume_accepted :: "bleak \<Rightarrow> bytes \<Rightarrow> bool" where
  "resume_accepted B sid \<longleftrightarrow> (\<exists>ops req. build_resume_request sid = Inr req
     \<and> wait_for_notification [] (bl_polls B (ops @ [WriteChar CHAR_CONTROL req])) = Some RESUME_OK_NOTIFY)"

lemma exchange_accepted:
  assumes "resume_exchange B req s = (Inr (Some RESUME_OK_NOTIFY), t)" and "build_resume_request sid = Inr req"
  shows "resume_accepted B sid"
  using assms
  by (auto simp: resume_exchange_def finallyM_Inr clientM_Inr send_control_def require_connected_def
      bleak_call_def Let_def resume_accepted_def)

text \<open>What a key returned by the resumption loop rests on.\<close>

definition resumed_ok :: "bleak \<Rightarrow> 'z hs_base_scheme \<Rightarrow> 'z hs_base_scheme \<Rightarrow> bytes \<Rightarrow> bool" where
  "resumed_ok B s t key \<longleftrightarrow> (\<exists>sid st st' e. hb_session_id t = Some sid \<and> hb_store s = Some st \<and> hb_store t = Some st'
     \<and> map_of (ss_sessions st) (bytes_hex sid) = Some e \<and> se_session_key e = key
     \<and> resume_accepted B sid \<and> use_budget st' sid < use_budget st sid)"

lemma resumed_ok_before:
  assumes "keeps_store s u" and "resumed_ok B u t key" and "\<And>st. hb_store s = Some st \<Longrightarrow> store_ok st"
  shows "resumed_ok B s t key"
proof -
  obtain sid st1 st' e where u: "hb_session_id t = Some sid" "hb_store u = Some st1" "hb_store t = Some st'"
    "map_of (ss_sessions st1) (bytes_hex sid) = Some e" "se_session_key e = key" "resume_accepted B sid"
    "use_budget st' sid < use_budget st1 sid"
    using assms(2) by (auto simp: resumed_ok_def)
  obtain st where st: "hb_store s = Some st" using assms(1) u(2) by (auto simp: keeps_store_def split: option.splits)
  then have sh: "store_shrinks st st1" using assms(1,3) u(2) by (auto simp: keeps_store_def)
  then obtain e0 where "map_of (ss_sessions st) (bytes_hex sid) = Some e0" "se_session_key e0 = key"
    using u(4,5) by (auto simp: store_shrinks_def)
  then show ?thesis
    using u st store_shrinks_budget [OF sh, of sid] unfolding resumed_ok_def by (metis order_less_le_trans)
qed

lemma resumed_by_mark:
  assumes "store_load clk False sid s = (Inr (Some key), u)" and "keeps_store u v"
    and "store_mark_used clk sid v = (Inr True, w)" and "resume_accepted B sid"
    and "\<And>st. hb_store s = Some st \<Longrightarrow> store_ok st"
  shows "resumed_ok B s (w\<lparr> hb_session_id := Some sid \<rparr>) key"
proof -
  obtain st st1 where st: "hb_store s = Some st" "hb_store u = Some st1"
    "SessionStore_load (clk (hb_tick s)) (clk (hb_tick s + 1)) False sid st = (Some key, st1)"
    using assms(1) by (auto simp: store_load_def storeM_Inr)
  have ok: "store_ok st" using assms(5) st(1) .
  have sh: "store_shrinks st st1" using shrinks_load [OF ok] st(3) by (metis snd_conv)
  obtain e where e: "map_of (ss_sessions st) (bytes_hex sid) = Some e" "se_session_key e = key"
    using load_result [OF ok, of "clk (hb_tick s)" "clk (hb_tick s + 1)" sid] st(3)
    by (auto simp: live_entry_def split: option.splits if_splits)
  obtain st2 where st2: "hb_store v = Some st2" "store_shrinks st1 st2"
    using assms(2) st(2) sh by (auto simp: keeps_store_def store_shrinks_def)
  obtain st3 where st3: "SessionStore_mark_used (clk (hb_tick v)) sid st2 = (True, st3)" "hb_store w = Some st3"
    using assms(3) st2(1) by (auto simp: store_mark_used_def storeM_Inr)
  have ok2: "store_ok st2" using st2(2) by (simp add: store_shrinks_def)
  have "use_budget st3 sid < use_budget st2 sid"
    using mark_used_result [OF ok2, of "clk (hb_tick v)" sid] mark_used_entry [OF ok2, of "clk (hb_tick v)" sid] st3(1)
      mark_used_params(1) [of "clk (hb_tick v)" sid st2]
    by (auto simp: use_budget_def live_entry_def entry_live_def split: option.splits if_splits)
  also have "\<dots> \<le> use_budget st sid"
    using store_shrinks_budget [OF store_shrinks_trans [OF sh st2(2)]] .
  finally show ?thesis using st(1) st3(2) e assms(4) by (auto simp: resumed_ok_def)
qed

lemma keeps_store_ok:
  "keeps_store s u \<Longrightarrow> (\<And>st. hb_store s = Some st \<Longrightarrow> store_ok st) \<Longrightarrow> hb_store u = Some st \<Longrightarrow> store_ok st"
  by (auto simp: keeps_store_def store_shrinks_def split: option.splits)

text \<open>One turn of the loop: it went on to the next session, or it resumed this one.\<close>

lemma resume_loop_Cons:
  assumes "resume_loop B clk ((h, c, n) # ids) s = (Inr r, t)"
  obtains (continued) w where "keeps_store s w" "resume_loop B clk ids w = (Inr r, t)"
    | (accepted) sid key u req v w where "store_load clk False sid s = (Inr (Some key), u)"
        "build_resume_request sid = Inr req" "resume_exchange B req u = (Inr (Some RESUME_OK_NOTIFY), v)"
        "store_mark_used clk sid v = (Inr True, w)" "r = Some key" "t = w\<lparr> hb_session_id := Some sid \<rparr>"
proof -
  obtain sid loaded u where ld: "store_load clk False sid s = (Inr loaded, u)"
    and rest: "(case loaded of None \<Rightarrow> resume_loop B clk ids
       | Some session_key \<Rightarrow>
         bindM (liftR (build_resume_request sid)) (\<lambda>resume_msg.
         bindM (resume_exchange B resume_msg) (\<lambda>response.
         if response = Some RESUME_OK_NOTIFY
         then bindM (store_mark_used clk sid) (\<lambda>ok.
                if \<not> ok then resume_loop B clk ids
                else seqM (setM (\<lambda>s. s\<lparr> hb_session_id := Some sid \<rparr>)) (retM (Some session_key)))
         else if response = Some RESUME_FAIL_NOTIFY
         then seqM (store_delete clk sid) (resume_loop B clk ids)
         else resume_loop B clk ids))) u = (Inr r, t)"
    using assms unfolding resume_loop.simps(2) bindM_Inr meth_simps by blast
  have su: "keeps_store s u" using keeps_store_ops(1) [of s clk False sid] ld by simp
  show thesis
  proof (cases loaded)
    case None
    then show thesis using continued [OF su] rest by simp
  next
    case (Some key)
    then obtain req response v where req: "build_resume_request sid = Inr req"
      and ex: "resume_exchange B req u = (Inr response, v)"
      and k: "(if response = Some RESUME_OK_NOTIFY
         then bindM (store_mark_used clk sid) (\<lambda>ok.
                if \<not> ok then resume_loop B clk ids
                else seqM (setM (\<lambda>s. s\<lparr> hb_session_id := Some sid \<rparr>)) (retM (Some key)))
         else if response = Some RESUME_FAIL_NOTIFY
         then seqM (store_delete clk sid) (resume_loop B clk ids)
         else resume_loop B clk ids) v = (Inr r, t)"
      using rest unfolding Some option.case bindM_Inr meth_simps by blast
    have sv: "keeps_store s v" using keeps_store_trans [OF su] keeps_exchange [of u B req] ex by simp
    show thesis
    proof (cases "response = Some RESUME_OK_NOTIFY")
      case True
      then obtain ok w where m: "store_mark_used clk sid v = (Inr ok, w)"
        and l: "(if \<not> ok then resume_loop B clk ids
                else seqM (setM (\<lambda>s. s\<lparr> hb_session_id := Some sid \<rparr>)) (retM (Some key))) w = (Inr r, t)"
        using k by auto
      have "keeps_store s w" using keeps_store_trans [OF sv] keeps_store_ops(2) [of v clk sid] m by simp
      then show thesis using continued accepted ld Some req ex True m l by (cases ok) auto
    next
      case False
      have "\<exists>w. keeps_store v w \<and> resume_loop B clk ids w = (Inr r, t)"
      proof (cases "response = Some RESUME_FAIL_NOTIFY")
        case True
        then obtain w where "store_delete clk sid v = (Inr (), w)" "resume_loop B clk ids w = (Inr r, t)"
          using k False by auto
        then show ?thesis using keeps_store_ops(3) [of v clk sid] by auto
      next
        case no_fail: False
        then show ?thesis using k False keeps_store_refl by auto
      qed
      then show thesis using continued keeps_store_trans [OF sv] by blast
    qed
  qed
qed

lemma resume_loop_sound:
  assumes "resume_loop B clk ids s = (Inr (Some key), t)" and "\<And>st. hb_store s = Some st \<Longrightarrow> store_ok st"
  shows "resumed_ok B s t key"
  using assms
proof (induction ids arbitrary: s)
  case Nil
  then show ?case by simp
next
  case (Cons x ids)
  obtain h c n where x: "x = (h, c, n)" by (cases x)
  show ?case
    using Cons.prems(1) [unfolded x]
  proof (cases rule: resume_loop_Cons)
    case (continued w)
    then have "resumed_ok B w t key" using Cons.IH keeps_store_ok [OF continued(1) Cons.prems(2)] by blast
    then show ?thesis using resumed_ok_before continued(1) Cons.prems(2) by blast
  next
    case (accepted sid k u req v w)
    have "keeps_store u v" using keeps_exchange [of u B req] accepted(3) by simp
    then have "resumed_ok B s (w\<lparr> hb_session_id := Some sid \<rparr>) k"
      using resumed_by_mark [OF accepted(1) _ accepted(4) exchange_accepted [OF accepted(3,2)]] Cons.prems(2) by blast
    then show ?thesis using accepted(5,6) by simp
  qed
qed

text \<open>What a key returned by a full handshake rests on.\<close>

definition sas_confirmed :: "third_party \<Rightarrow> sas_prompt \<Rightarrow> bytes \<Rightarrow> bytes \<Rightarrow> bytes \<Rightarrow> bytes \<Rightarrow> bool" where
  "sas_confirmed C ui pk ct ss key \<longleftrightarrow>
     prompt_sas ui (derive_sas pk ct ss) (format_sas (derive_sas pk ct ss)) = Inr True
     \<and> length pk = PK_SIZE \<and> length ss = SS_SIZE \<and> key = derive_session_key C ss"

lemma run_full_Inr:
  assumes "run_full_handshake B C clk r u ui s = (Inr key, t)"
  obtains pk ws where
    "bl_io B (bc_ops (hc_client s) @ [ReadChar CHAR_PUBKEY]) = Inr pk"
    "sas_confirmed C ui pk (fst (encapsulate C r pk)) (snd (encapsulate C r pk)) key"
    "fragment_data (fst (encapsulate C r pk)) (ciphertext_mtu (client_mtu_size B
        ((hc_client s)\<lparr> bc_ops := bc_ops (hc_client s) @ [ReadChar CHAR_PUBKEY] \<rparr>))) = Inr ws"
    "bc_ops (hc_client t) = bc_ops (hc_client s) @ ReadChar CHAR_PUBKEY # map (WriteChar CHAR_CIPHERTEXT) ws"
    "hb_session_key t = Some key"
proof -
  let ?ct = "\<lambda>pk. fst (encapsulate C r pk)" and ?ss = "\<lambda>pk. snd (encapsulate C r pk)"
  obtain pk c n c' where rd: "read_fragmented_public_key B (hc_client s) = (Inr pk, c)"
    and len: "length pk = PK_SIZE" "length (?ss pk) = SS_SIZE"
    and wr: "write_fragmented_ciphertext B (?ct pk) c = (Inr n, c')"
    and pr: "prompt_sas ui (derive_sas pk (?ct pk) (?ss pk)) (format_sas (derive_sas pk (?ct pk) (?ss pk))) = Inr True"
    and fin: "finish_full clk u (?ss pk) (derive_session_key C (?ss pk)) (s\<lparr> hc_client := c' \<rparr>) = (Inr key, t)"
    using assms by (auto simp: run_full_handshake_def clientM_Inr Let_def case_prod_unfold)
  have c: "c = (hc_client s)\<lparr> bc_ops := bc_ops (hc_client s) @ [ReadChar CHAR_PUBKEY] \<rparr>"
    "bl_io B (bc_ops (hc_client s) @ [ReadChar CHAR_PUBKEY]) = Inr pk"
    using rd by (auto simp: read_fragmented_public_key_def require_connected_def bleak_call_def Let_def)
  obtain ws where ws: "fragment_data (?ct pk) (ciphertext_mtu (client_mtu_size B c)) = Inr ws"
    "c' = c\<lparr> bc_ops := bc_ops c @ map (WriteChar CHAR_CIPHERTEXT) ws \<rparr>"
    using write_ciphertext_Inr [OF wr] by metis
  have "hc_client t = c'"
    using fin by (auto simp: finish_full_def store_save_def storeM_Inr Let_def split: if_splits)
  then show thesis
    using that [of pk ws] c ws len pr finish_full_Inr [OF fin] by (simp add: sas_confirmed_def)
qed

lemma attempt_resume_sound:
  assumes "attempt_resume B clk s = (Inr (Some key), t)" and "\<And>st. hb_store s = Some st \<Longrightarrow> store_ok st"
  shows "resumed_ok B s t key"
proof -
  obtain ids u where l: "store_list_ids clk s = (Inr ids, u)" "resume_loop B clk ids u = (Inr (Some key), t)"
    using assms(1) by (auto simp: attempt_resume_def split: if_splits)
  have "keeps_store s u" using keeps_store_ops(6) [of s clk] l(1) by simp
  then show ?thesis
    using resume_loop_sound [OF l(2)] keeps_store_ok [of s u] assms(2) resumed_ok_before by blast
qed

subsection \<open>The Peripheral\<close>

lemma serverM_Inr: "serverM m s = (Inr r, t) \<longleftrightarrow> (\<exists>v. m (hp_server s) = (Inr r, v) \<and> t = s\<lparr> hp_server := v \<rparr>)"
  by (auto simp: serverM_def split: prod.splits)

lemma keeps_serverM: "keeps_store s (snd (serverM m s))"
  by (simp add: serverM_def case_prod_unfold Let_def keeps_store_same)

lemma keeps_resume_request: "keeps_store s (snd (handle_resume_request clk sid s))"
proof -
  have set: "keeps_store s (snd (setM (\<lambda>s. s\<lparr> hp_resume_session_id := Some sid, hp_resume_requested := True \<rparr>) s))" for s
    by (simp add: keeps_store_same)
  show ?thesis
  proof (cases "hb_store s = None")
    case True
    then show ?thesis by (simp add: handle_resume_request_def keeps_store_refl)
  next
    case False
    have "keeps_store s (snd (bindM (store_has clk sid) (\<lambda>found.
             if found
             then bindM (store_load clk True sid) (\<lambda>_.
                  seqM (setM (\<lambda>s. s\<lparr> hp_resume_session_id := Some sid, hp_resume_requested := True \<rparr>)) (
                  serverM (notify_data RESUME_OK_NOTIFY)))
             else serverM (notify_data RESUME_FAIL_NOTIFY)) s))"
      by (intro keeps_bindM) (auto intro!: keeps_bindM keeps_seqM set keeps_serverM keeps_store_ops)
    then show ?thesis by (simp only: handle_resume_request_def False if_False)
  qed
qed

lemma keeps_handle_event: "keeps_store s (handle_event clk s ev)"
proof (cases ev)
  case (WriteCiphertext w)
  then show ?thesis
    by (simp add: case_prod_unfold Let_def on_ciphertext_received_def keeps_store_same split: option.splits)
next
  case (WriteControl w)
  let ?s = "s\<lparr> hp_server := snd (on_write_control w (hp_server s)) \<rparr>"
  have "keeps_store ?s (snd (on_control_received clk w ?s))"
    by (auto simp: on_control_received_def keeps_resume_request keeps_store_refl split: control_message.splits)
  then show ?thesis
    using WriteControl keeps_store_trans [OF keeps_store_same [of ?s s]] by (simp add: on_write_control_def)
qed

lemma keeps_events: "keeps_store s (foldl (handle_event clk) s evs)"
  by (induction evs arbitrary: s) (auto simp: keeps_store_refl intro: keeps_store_trans keeps_handle_event)

lemma wait_Inr:
  "wait_for_either_or clk turns s = (Inr u, t) \<Longrightarrow> \<exists>evs. t = foldl (handle_event clk) s evs"
proof (induction clk turns s rule: wait_for_either_or.induct)
  case (2 clk arrived turns s)
  show ?case
  proof (cases "hp_ciphertext_received (foldl (handle_event clk) s arrived) \<or> hp_resume_requested (foldl (handle_event clk) s arrived)")
    case True
    then show ?thesis using "2.prems" by (auto simp: Let_def)
  next
    case False
    then obtain evs where "t = foldl (handle_event clk) (foldl (handle_event clk) s arrived) evs"
      using "2.prems" "2.IH" by (auto simp: Let_def)
    then show ?thesis by (metis foldl_append)
  qed
qed simp

lemma events_ciphertext:
  "foldl (handle_event clk) s (map WriteCiphertext ws) = s\<lparr> hp_server := snd (feed_ciphertext ws (hp_server s)),
     hp_ciphertext_received := hp_ciphertext_received s \<or> fst (feed_ciphertext ws (hp_server s)) \<noteq> [] \<rparr>"
  by (induction ws arbitrary: s)
    (auto simp: Let_def case_prod_unfold on_ciphertext_received_def split: option.splits prod.splits)

text \<open>The waiting loop on the fragments of a ciphertext, however they are spread over its turns.\<close>

lemma wait_ciphertext:
  assumes "concat turns = map WriteCiphertext ws" and "feed_ciphertext ws (hp_server s) = ([d], v)"
    and "\<forall>k < length ws. fst (feed_ciphertext (take k ws) (hp_server s)) = []"
    and "\<not> hp_ciphertext_received s" and "\<not> hp_resume_requested s"
  shows "wait_for_either_or clk turns s = (Inr (), s\<lparr> hp_server := v, hp_ciphertext_received := True \<rparr>)"
  using assms
proof (induction turns arbitrary: s ws)
  case Nil
  then show ?case by auto
next
  case (Cons arrived turns)
  obtain as bs where ws: "ws = as @ bs" and as: "arrived = map WriteCiphertext as" and bs: "concat turns = map WriteCiphertext bs"
    using Cons.prems(1) by (force simp: append_eq_map_conv)
  show ?case
  proof (cases bs)
    case Nil
    then show ?thesis using Cons.prems ws as events_ciphertext [of clk s as] by (simp add: Let_def)
  next
    case (Cons b bs')
    let ?v = "snd (feed_ciphertext as (hp_server s))"
    have none: "fst (feed_ciphertext as (hp_server s)) = []"
      using Cons.prems(3) ws \<open>bs = b # bs'\<close> by (auto dest!: spec [of _ "length as"])
    then have fa: "feed_ciphertext as (hp_server s) = ([], ?v)" by (simp add: prod_eq_iff)
    have "fst (feed_ciphertext (take k bs) ?v) = []" if "k < length bs" for k
      using Cons.prems(3) [rule_format, of "length as + k"] that ws fa by (simp add: feed_append Let_def case_prod_unfold)
    moreover have "feed_ciphertext bs ?v = ([d], v)"
      using Cons.prems(2) ws fa by (simp add: feed_append Let_def case_prod_unfold prod_eq_iff)
    ultimately have "wait_for_either_or clk turns (s\<lparr> hp_server := ?v \<rparr>)
        = (Inr (), (s\<lparr> hp_server := ?v \<rparr>)\<lparr> hp_server := v, hp_ciphertext_received := True \<rparr>)"
      using Cons.prems(4,5) bs by (intro Cons.IH) auto
    moreover have "foldl (handle_event clk) s arrived = s\<lparr> hp_server := ?v \<rparr>"
      using events_ciphertext [of clk s as] as none Cons.prems(4) by (cases s) simp
    ultimately show ?thesis using Cons.prems(4,5) by (simp add: Let_def)
  qed
qed

lemma resume_branch_Inr:
  assumes "resume_branch clk s = (Inr (Some key), t)" and "\<And>st. hb_store s = Some st \<Longrightarrow> store_ok st"
  shows "\<exists>sid st e. hp_resume_session_id s = Some sid \<and> hb_session_id t = Some sid \<and> hb_store s = Some st
    \<and> map_of (ss_sessions st) (bytes_hex sid) = Some e \<and> se_session_key e = key"
proof -
  obtain sid u where sid: "hp_resume_session_id s = Some sid" "store_load clk True sid s = (Inr (Some key), u)"
      "hb_session_id t = Some sid"
    using assms(1) by (auto simp: resume_branch_def split: if_splits option.splits)
  then obtain st where st: "hb_store s = Some st"
      "fst (SessionStore_load (clk (hb_tick s)) (clk (hb_tick s + 1)) True sid st) = Some key"
    by (auto simp: store_load_def storeM_Inr)
  then show ?thesis
    using sid load_counted_entry [OF assms(2), of st "clk (hb_tick s)" "clk (hb_tick s + 1)" sid]
    by (auto split: option.splits if_splits)
qed

lemma full_branch_Inr:
  assumes "full_branch C E pk sk s = (Inr key, t)" and "length pk = PK_SIZE"
  defines "ct \<equiv> sv_ciphertext (hp_server s)"
  shows "length ct = CT_SIZE \<and> sas_confirmed C (pe_ui E) pk ct (decapsulate C sk ct) key \<and> hb_session_key t = Some key"
  using assms
  by (auto simp: full_branch_def Let_def sas_confirmed_def ct_def dest: finish_full_Inr)

lemma full_branch_succeeds:
  assumes "length pk = PK_SIZE" and "length (sv_ciphertext (hp_server s)) = CT_SIZE"
    and "decapsulate C sk (sv_ciphertext (hp_server s)) = ss"
    and "sas_confirmed C (pe_ui E) pk (sv_ciphertext (hp_server s)) ss key"
    and "length (pe_urandom E) = SESSION_ID_SIZE"
  shows "\<exists>t. full_branch C E pk sk s = (Inr key, t) \<and> hb_session_key t = Some key"
proof -
  have "\<exists>t. finish_full (pe_clk E) (pe_urandom E) ss (derive_session_key C ss)
      (foldl (handle_event (pe_clk E)) s (pe_late E)) = (Inr key, t) \<and> hb_session_key t = Some key"
    using finish_full_succeeds [OF assms(5)] assms(4) by (simp add: sas_confirmed_def)
  then show ?thesis using assms by (simp add: full_branch_def Let_def sas_confirmed_def ex_bool_eq)
qed

lemma run_full_succeeds:
  assumes "\<And>ops l. bl_connected B ops l" and "bc_client (hc_client c) \<noteq> None"
    and "\<And>ops. \<exists>v. bl_io B ops = Inr v" and "bl_io B (bc_ops (hc_client c) @ [ReadChar CHAR_PUBKEY]) = Inr pk"
    and "length pk = PK_SIZE" and "kem_laws C" and "\<And>sas txt. prompt_sas ui sas txt = Inr True"
    and "length urandom = SESSION_ID_SIZE"
  shows "\<exists>key c'. run_full_handshake B C clk r urandom ui c = (Inr key, c')"
proof -
  obtain ct ss where enc: "encapsulate C r pk = (ct, ss)" by fastforce
  have len: "length ct = CT_SIZE" "length ss = SS_SIZE"
    using assms(5,6) enc by (auto simp: kem_laws_def encapsulate_def) (metis fst_conv snd_conv)+
  let ?c = "(hc_client c)\<lparr> bc_ops := bc_ops (hc_client c) @ [ReadChar CHAR_PUBKEY] \<rparr>"
  have con: "client_is_connected B x" if "bc_client x \<noteq> None" for x
    using that assms(1) by (auto simp: client_is_connected_def split: option.splits)
  have "read_fragmented_public_key B (hc_client c) = (Inr pk, ?c)"
    using con assms(2,4) by (simp add: read_fragmented_public_key_def require_connected_def bleak_call_def Let_def)
  moreover obtain n c2 where "write_fragmented_ciphertext B ct ?c = (Inr n, c2)"
  proof -
    let ?m = "ciphertext_mtu (client_mtu_size B ?c)"
    have "4 < ?m" "?m \<le> 65539" "length ct \<le> 255 * nat (?m - 4)"
      using ciphertext_mtu_bounds [of "client_mtu_size B ?c"] len by linarith+
    then obtain ws where "fragment_data ct ?m = Inr ws" using fragment_data_succeeds by blast
    moreover obtain c2 where "write_all B ws ?c = (Inr (), c2)" using write_all_succeeds assms(3) by blast
    ultimately show thesis using that con [of ?c] assms(2)
      by (simp add: write_fragmented_ciphertext_def require_connected_def)
  qed
  moreover obtain t where "finish_full clk urandom ss (derive_session_key C ss) (c\<lparr> hc_client := c2 \<rparr>)
      = (Inr (derive_session_key C ss), t)"
    using finish_full_succeeds [OF assms(8)] by blast
  ultimately show ?thesis
    using enc len assms(5,7) by (auto simp: run_full_handshake_def clientM_Inr Let_def ex_bool_eq)
qed

lemma write_control_resume:
  assumes "build_resume_request sid = Inr req"
  shows "handle_event clk s (WriteControl req) =
    snd (handle_resume_request clk sid (s\<lparr> hp_server := (hp_server s)\<lparr> sv_control_message := req \<rparr> \<rparr>))"
proof -
  have "length req = 21" "take 4 req = RESUME_MAGIC" "slice 4 5 req = RESUME_REQ" "drop 5 req = sid"
    using assms by (auto simp: build_resume_request_def slice_def split: if_splits)
  then have "parse_control_message req = ResumeRequest sid" by (auto simp: parse_control_message_def)
  then show ?thesis by (simp add: on_write_control_def on_control_received_def)
qed

text \<open>The Peripheral's answer to a request for a session that is live at every reading of the clock.\<close>

lemma resume_request_live:
  assumes "store_ok st" and "hb_store s = Some st" and "sv_started (hp_server s)" and "sv_has_notify (hp_server s)"
    and "map_of (ss_sessions st) (bytes_hex sid) = Some e" and "\<And>n. entry_live (clk n) st e"
  shows "\<exists>st'. handle_resume_request clk sid s = (Inr (), s\<lparr> hb_store := Some st', hb_tick := hb_tick s + 3,
        hp_resume_session_id := Some sid, hp_resume_requested := True,
        hp_server := (hp_server s)\<lparr> sv_notified := sv_notified (hp_server s) @ [RESUME_OK_NOTIFY] \<rparr> \<rparr>)
    \<and> store_ok st' \<and> ss_max_uses st' = ss_max_uses st \<and> ss_max_age_hours st' = ss_max_age_hours st
    \<and> map_of (ss_sessions st') (bytes_hex sid) = (if ss_max_uses st \<le> se_usage_count e + 1 then None
        else Some (e\<lparr> se_usage_count := se_usage_count e + 1 \<rparr>))"
proof -
  let ?t = "\<lambda>n. clk (hb_tick s + n)"
  define s1 where "s1 = SessionStore_expire_invalid (?t 0) st"
  have ok1: "store_ok s1" and par1: "ss_max_uses s1 = ss_max_uses st" "ss_max_age_hours s1 = ss_max_age_hours st"
    and m1: "map_of (ss_sessions s1) (bytes_hex sid) = Some e"
    using store_ok_expire [OF assms(1)] map_of_expire [OF assms(1), of "?t 0" sid] assms(5,6)
    by (simp_all add: s1_def live_entry_def)
  have has: "SessionStore_has (?t 0) sid st = (True, s1)"
    using m1 by (simp add: SessionStore_has_def s1_def Let_def)
  obtain r st' where l: "SessionStore_load (?t 1) (?t 2) True sid s1 = (r, st')" by fastforce
  have win: "\<And>n. clk n - ss_max_age_hours s1 * 3600 \<le> se_created_at e" "se_usage_count e < ss_max_uses s1"
    using assms(6) par1 by (auto simp: entry_live_def)
  note w = load_in_window(2) [OF ok1 m1 win(1) win(1) win(2), of "hb_tick s + 1" "hb_tick s + 2", unfolded l snd_conv]
  have "store_ok st'" "ss_max_uses st' = ss_max_uses st" "ss_max_age_hours st' = ss_max_age_hours st"
    using store_ok_load [OF ok1, of "?t 1" "?t 2" True sid] load_params [of "?t 1" "?t 2" True sid s1] par1
    unfolding l snd_conv by simp_all
  then show ?thesis
    using w par1 assms(2-4) has l
    by (intro exI [of _ st'])
      (simp add: handle_resume_request_def bindM_def seqM_def store_has_def store_load_def storeM_def okS_def
        serverM_def notify_data_def Let_def numeral_3_eq_3 numeral_2_eq_2)
qed

section \<open>Properties\<close>

text \<open>
  C6. Agreement of the historical handshake: when the Central's full handshake over a link that
  returned the Peripheral's public key ends with a session key, and the Peripheral receives the
  writes the Central made, spread over its waiting loop in any way, then the Peripheral, whose user
  is shown the same SAS, ends with the same key.
\<close>

theorem legacy_handshake_agreement:
  assumes "kem_laws C" and "kem_keypair C (pe_seed E) = (pk, sk)"
    and "run_full_handshake B C clk r urandom ui c = (Inr key, c')"
    and "bl_io B (bc_ops (hc_client c) @ [ReadChar CHAR_PUBKEY]) = Inr pk"
    and "bc_ops (hc_client c') = bc_ops (hc_client c) @ ReadChar CHAR_PUBKEY # map (WriteChar CHAR_CIPHERTEXT) ws"
    and "concat (pe_turns E) = map WriteCiphertext ws" and "sv_ct_fragments server = []"
    and "pe_ui E = ui" and "length (pe_urandom E) = SESSION_ID_SIZE"
  shows "\<exists>p'. PeripheralHandshake_run C E (PeripheralHandshake_init server store) = (Inr key, p')
    \<and> hb_session_key p' = Some key \<and> hb_session_key c' = Some key"
proof -
  obtain ct ss where enc: "encapsulate C r pk = (ct, ss)" by fastforce
  obtain mtu where mtu: "4 < mtu" "fragment_data ct mtu = Inr ws" and conf: "sas_confirmed C ui pk ct ss key"
    and ck: "hb_session_key c' = Some key"
  proof (rule run_full_Inr [OF assms(3)])
    fix pk' ws'
    assume a: "bl_io B (bc_ops (hc_client c) @ [ReadChar CHAR_PUBKEY]) = Inr pk'"
      "sas_confirmed C ui pk' (fst (encapsulate C r pk')) (snd (encapsulate C r pk')) key"
      "fragment_data (fst (encapsulate C r pk')) (ciphertext_mtu (client_mtu_size B
        ((hc_client c)\<lparr> bc_ops := bc_ops (hc_client c) @ [ReadChar CHAR_PUBKEY] \<rparr>))) = Inr ws'"
      "bc_ops (hc_client c') = bc_ops (hc_client c) @ ReadChar CHAR_PUBKEY # map (WriteChar CHAR_CIPHERTEXT) ws'"
      "hb_session_key c' = Some key"
    have "inj (WriteChar CHAR_CIPHERTEXT)" by (simp add: inj_def)
    then have "ws' = ws" using a(4) assms(5) by (simp add: inj_map_eq_map)
    moreover have "4 < ciphertext_mtu m" for m using ciphertext_mtu_bounds(1) [of m] by simp
    ultimately show thesis using a assms(4) enc that by auto
  qed
  have kem: "length ct = CT_SIZE" "decapsulate C sk ct = ss"
    using assms(1,2) enc conf by (auto simp: kem_laws_def encapsulate_def decapsulate_def sas_confirmed_def)
      (metis fst_conv snd_conv)+
  let ?p = "(PeripheralHandshake_init server store)\<lparr> hp_secret_key := Some sk, hp_public_key := Some pk,
      hp_server := (if pe_server_starts E then server_start else id) (server_set_public_key pk server) \<rparr>"
  have empty: "sv_ct_fragments (hp_server ?p) = []"
    using assms(7) by (simp add: server_start_def server_set_public_key_def)
  let ?v = "(hp_server ?p)\<lparr> sv_ciphertext := ct \<rparr>"
  have "wait_for_either_or (pe_clk E) (pe_turns E) ?p = (Inr (), ?p\<lparr> hp_server := ?v, hp_ciphertext_received := True \<rparr>)"
    using feed_fragments [OF mtu empty] feed_fragments_prefix [OF mtu empty]
    by (intro wait_ciphertext [OF assms(6)]) (auto simp: PeripheralHandshake_init_def)
  moreover have "resume_branch (pe_clk E) (?p\<lparr> hp_server := ?v, hp_ciphertext_received := True \<rparr>)
      = (Inr None, ?p\<lparr> hp_server := ?v, hp_ciphertext_received := True \<rparr>)"
    by (simp add: resume_branch_def PeripheralHandshake_init_def)
  moreover have "\<exists>t. full_branch C E pk sk (?p\<lparr> hp_server := ?v, hp_ciphertext_received := True \<rparr>) = (Inr key, t)
      \<and> hb_session_key t = Some key"
    using kem conf assms(8,9) by (intro full_branch_succeeds [where ss = ss]) (auto simp: sas_confirmed_def)
  ultimately show ?thesis
    using ck assms(2) conf
    by (simp add: PeripheralHandshake_run_def generate_keypair_def sas_confirmed_def PeripheralHandshake_init_def)
qed

definition demo_peer :: bleak where
  "demo_peer = \<lparr> bl_scan = (\<lambda>_. None), bl_io = (\<lambda>_. Inr (fst (kem_keypair demo_crypto 3))),
     bl_connected = (\<lambda>_ _. True), bl_mtu = (\<lambda>_ _. 247), bl_polls = (\<lambda>_. []), bl_queue = (\<lambda>_. []) \<rparr>"

definition demo_central :: central_handshake where
  "demo_central = CentralHandshake_init ((BLECentralClient_init [])\<lparr> bc_client := Some 0 \<rparr>) None"

abbreviation demo_yes :: sas_prompt where
  "demo_yes \<equiv> SasCallback (\<lambda>_ _. Inr True)"

lemma demo_keypair: "kem_keypair demo_crypto 3 = (replicate 1184 3, replicate 2400 3)"
  by (simp add: demo_crypto_def)

lemma demo_central_runs:
  "\<exists>key c'. run_full_handshake demo_peer demo_crypto (\<lambda>_. 0) 5 (replicate 16 1) demo_yes demo_central = (Inr key, c')"
  by (rule run_full_succeeds [where pk = "fst (kem_keypair demo_crypto 3)"])
    (simp_all add: demo_peer_def demo_central_def CentralHandshake_init_def demo_kem_laws prompt_sas_def demo_keypair)

theorem legacy_handshake_agreement_witness:
  "\<exists>E key p'. PeripheralHandshake_run demo_crypto E (PeripheralHandshake_init (BLEPeripheralServer_init True) None)
     = (Inr key, p') \<and> hb_session_key p' = Some key"
proof -
  obtain key c' where run: "run_full_handshake demo_peer demo_crypto (\<lambda>_. 0) 5 (replicate 16 1) demo_yes demo_central = (Inr key, c')"
    using demo_central_runs by blast
  obtain ws where ws: "bc_ops (hc_client c') = bc_ops (hc_client demo_central) @ ReadChar CHAR_PUBKEY # map (WriteChar CHAR_CIPHERTEXT) ws"
    using run_full_Inr [OF run] by metis
  let ?E = "\<lparr> pe_clk = \<lambda>_. 0, pe_seed = 3, pe_server_starts = True, pe_turns = [map WriteCiphertext ws],
      pe_late = [], pe_ui = demo_yes, pe_urandom = replicate 16 2 \<rparr>"
  have "kem_keypair demo_crypto (pe_seed ?E) = (replicate 1184 3, replicate 2400 3)"
    "bl_io demo_peer (bc_ops (hc_client demo_central) @ [ReadChar CHAR_PUBKEY]) = Inr (replicate 1184 3)"
    by (simp_all add: demo_keypair demo_peer_def)
  then show ?thesis
    using legacy_handshake_agreement [OF demo_kem_laws _ run _ ws, of ?E _ _ "BLEPeripheralServer_init True" None]
    by (auto simp: BLEPeripheralServer_init_def)
qed

text \<open>
  C28. The historical Central never returns a key without authentication: the key \<open>run\<close> returns was
  either stored under a session that the Peripheral accepted with RESUME_OK and one of whose uses was
  spent, or derived from a shared secret whose SAS the user confirmed.
\<close>

theorem central_key_provenance:
  assumes "CentralHandshake_run B C clk r urandom ui s = (Inr key, t)"
    and "\<And>st. hb_store s = Some st \<Longrightarrow> store_ok st"
  shows "hb_session_key t = Some key \<and> (resumed_ok B s t key
    \<or> (\<exists>pk. sas_confirmed C ui pk (fst (encapsulate C r pk)) (snd (encapsulate C r pk)) key))"
proof -
  obtain resumed u where a: "(if hb_store s \<noteq> None
        then bindM (store_count clk) (\<lambda>n. if 0 < n then attempt_resume B clk else retM None) s
        else (Inr None, s)) = (Inr resumed, u)"
    and b: "(case resumed of Some k \<Rightarrow> seqM (setM (\<lambda>s. s\<lparr> hb_session_key := Some k \<rparr>)) (retM k)
       | None \<Rightarrow> run_full_handshake B C clk r urandom ui) u = (Inr key, t)"
    using assms(1) unfolding CentralHandshake_run_def seqM_Inr bindM_Inr meth_simps by blast
  show ?thesis
  proof (cases resumed)
    case None
    then have "run_full_handshake B C clk r urandom ui u = (Inr key, t)" using b by simp
    then show ?thesis by (rule run_full_Inr) blast
  next
    case (Some k)
    then have t: "k = key" "t = u\<lparr> hb_session_key := Some key \<rparr>" using b by auto
    obtain n v where v: "store_count clk s = (Inr n, v)" "attempt_resume B clk v = (Inr (Some key), u)"
      using a Some t(1) by (auto split: if_splits)
    have kv: "keeps_store s v" using keeps_store_ops(5) [of s clk] v(1) by simp
    then have "resumed_ok B v u key"
      using attempt_resume_sound [OF v(2)] keeps_store_ok [OF kv] assms(2) by blast
    then have "resumed_ok B s u key" using resumed_ok_before [OF kv] assms(2) by blast
    then show ?thesis using t by (simp add: resumed_ok_def)
  qed
qed

theorem central_key_provenance_witness:
  "\<exists>key t pk. CentralHandshake_run demo_peer demo_crypto (\<lambda>_. 0) 5 (replicate 16 1) demo_yes demo_central = (Inr key, t)
     \<and> sas_confirmed demo_crypto demo_yes pk (fst (encapsulate demo_crypto 5 pk)) (snd (encapsulate demo_crypto 5 pk)) key"
proof -
  have no_store: "hb_store demo_central = None" by (simp add: demo_central_def CentralHandshake_init_def)
  have "client_is_connected demo_peer (hc_client demo_central)"
    by (simp add: client_is_connected_def demo_peer_def demo_central_def CentralHandshake_init_def)
  then obtain key t where run: "CentralHandshake_run demo_peer demo_crypto (\<lambda>_. 0) 5 (replicate 16 1) demo_yes demo_central = (Inr key, t)"
    using demo_central_runs no_store by (auto simp: CentralHandshake_run_def bindM_def seqM_def)
  then show ?thesis
    using central_key_provenance [OF run] no_store by (auto simp: resumed_ok_def)
qed

text \<open>
  The same for the experimental Peripheral: the key \<open>run\<close> returns was in its store under the
  session the Central asked for, or it was derived from the decapsulation of a full-size ciphertext
  under the Peripheral's own key pair and its user confirmed that SAS.
\<close>

theorem peripheral_key_provenance:
  assumes "PeripheralHandshake_run C E p = (Inr key, p')" and "generate_keypair C (pe_seed E) = (pk, sk)"
    and "\<And>st. hb_store p = Some st \<Longrightarrow> store_ok st"
  shows "hb_session_key p' = Some key \<and>
    ((\<exists>sid st e. hb_session_id p' = Some sid \<and> hb_store p = Some st
        \<and> map_of (ss_sessions st) (bytes_hex sid) = Some e \<and> se_session_key e = key)
     \<or> (\<exists>ct. length ct = CT_SIZE \<and> sas_confirmed C (pe_ui E) pk ct (decapsulate C sk ct) key))"
proof -
  let ?p = "p\<lparr> hp_secret_key := Some sk, hp_public_key := Some pk,
      hp_server := (if pe_server_starts E then server_start else id) (server_set_public_key pk (hp_server p)) \<rparr>"
  obtain u resumed v where len: "length pk = PK_SIZE" and w: "wait_for_either_or (pe_clk E) (pe_turns E) ?p = (Inr (), u)"
    and br: "resume_branch (pe_clk E) u = (Inr resumed, v)"
    and rest: "(case resumed of Some k \<Rightarrow> retM k | None \<Rightarrow> full_branch C E pk sk) v = (Inr key, p')"
    using assms(1,2) by (auto simp: PeripheralHandshake_run_def split: prod.splits sum.splits)
  obtain evs where "u = foldl (handle_event (pe_clk E)) ?p evs" using wait_Inr [OF w] by blast
  then have ku: "keeps_store p u"
    using keeps_store_trans [OF keeps_store_same [of ?p p] keeps_events [of ?p "pe_clk E" evs]] by simp
  show ?thesis
  proof (cases resumed)
    case None
    then show ?thesis using full_branch_Inr [of C E pk sk v key p'] rest len by auto
  next
    case (Some k)
    then have k: "k = key" "p' = v" using rest by auto
    obtain sid st e where r: "hb_session_id v = Some sid" "hb_store u = Some st"
        "map_of (ss_sessions st) (bytes_hex sid) = Some e" "se_session_key e = key"
      using resume_branch_Inr [of "pe_clk E" u key v] br Some k keeps_store_ok [OF ku assms(3)] by blast
    obtain st0 where st0: "hb_store p = Some st0" using ku r(2) by (auto simp: keeps_store_def split: option.splits)
    then have "store_shrinks st0 st" using ku r(2) assms(3) by (auto simp: keeps_store_def)
    moreover have "hb_session_key v = Some key"
      using br Some k by (auto simp: resume_branch_def split: if_splits option.splits)
    ultimately show ?thesis using r st0 k by (fastforce simp: store_shrinks_def)
  qed
qed

definition demo_env :: "gatt_event list list \<Rightarrow> peripheral_env" where
  "demo_env turns = \<lparr> pe_clk = \<lambda>_. 0, pe_seed = 3, pe_server_starts = True, pe_turns = turns,
     pe_late = [], pe_ui = demo_yes, pe_urandom = replicate 16 2 \<rparr>"

definition demo_peripheral :: peripheral_handshake where
  "demo_peripheral = (PeripheralHandshake_init ((BLEPeripheralServer_init True)\<lparr> sv_ciphertext := replicate 1088 5 \<rparr>) None)
     \<lparr> hp_ciphertext_received := True \<rparr>"

theorem peripheral_key_provenance_witness:
  "\<exists>key p' ct. PeripheralHandshake_run demo_crypto (demo_env [[]]) demo_peripheral = (Inr key, p')
     \<and> sas_confirmed demo_crypto demo_yes (replicate 1184 3) ct (decapsulate demo_crypto (replicate 2400 3) ct) key"
proof -
  let ?p = "demo_peripheral\<lparr> hp_secret_key := Some (replicate 2400 3), hp_public_key := Some (replicate 1184 3),
      hp_server := server_start (server_set_public_key (replicate 1184 3) (hp_server demo_peripheral)) \<rparr>"
  have ss: "decapsulate demo_crypto (replicate 2400 3) (replicate 1088 5) = replicate 32 8"
    by (simp add: decapsulate_def demo_crypto_def)
  have ct: "sv_ciphertext (hp_server ?p) = replicate 1088 5" "hp_ciphertext_received ?p" "\<not> hp_resume_requested ?p"
      "hb_store ?p = None"
    by (simp_all add: demo_peripheral_def PeripheralHandshake_init_def server_start_def server_set_public_key_def)
  obtain t where "full_branch demo_crypto (demo_env [[]]) (replicate 1184 3) (replicate 2400 3) ?p
      = (Inr (derive_session_key demo_crypto (replicate 32 8)), t)"
    using full_branch_succeeds [of "replicate 1184 3" ?p demo_crypto "replicate 2400 3" "replicate 32 8" "demo_env [[]]"] ct ss
    by (auto simp: sas_confirmed_def prompt_sas_def demo_env_def)
  then obtain key t where run: "PeripheralHandshake_run demo_crypto (demo_env [[]]) demo_peripheral = (Inr key, t)"
    using ct by (simp add: PeripheralHandshake_run_def generate_keypair_def demo_keypair demo_env_def resume_branch_def
        bindM_def seqM_def)
  have "\<And>st. hb_store demo_peripheral \<noteq> Some st" using ct(4) by simp
  then show ?thesis
    using run peripheral_key_provenance [OF run, of "replicate 1184 3" "replicate 2400 3"]
    by (auto simp: generate_keypair_def demo_keypair demo_env_def)
qed

lemma load_dead:
  "store_ok st \<Longrightarrow> hb_store s = Some st \<Longrightarrow> map_of (ss_sessions st) (bytes_hex sid) = None \<Longrightarrow>
     \<exists>st'. store_load clk True sid s = (Inr None, s\<lparr> hb_store := Some st', hb_tick := hb_tick s + 2 \<rparr>)"
  using load_counted [of st "clk (hb_tick s)" "clk (hb_tick s + 1)" sid]
  by (auto simp: store_load_def storeM_def okS_def live_entry_def)

text \<open>
  C40. A defect of the experimental Peripheral: it counts an accepted resumption twice, once when the
  request arrives and once in \<open>run\<close>. When one use is left it answers RESUME_OK and then fails, in
  \<open>run\<close>, for want of a ciphertext, although the Central has taken the session as resumed.
\<close>

theorem peripheral_resume_counts_twice:
  assumes "store_ok st" and "map_of (ss_sessions st) (bytes_hex sid) = Some e" and "\<And>n. entry_live (pe_clk E n) st e"
    and "se_usage_count e + 1 = ss_max_uses st" and "build_resume_request sid = Inr req"
    and "kem_laws C" and "pe_server_starts E" and "pe_turns E = [[WriteControl req]]"
    and "PeripheralHandshake_run C E (PeripheralHandshake_init (BLEPeripheralServer_init True) (Some st)) = (r, p)"
  shows "r = Inl (RuntimeError ''Ciphertext size mismatch'') \<and> RESUME_OK_NOTIFY \<in> set (sv_notified (hp_server p))"
proof -
  obtain pk sk where key: "kem_keypair C (pe_seed E) = (pk, sk)" by fastforce
  then have len: "length pk = PK_SIZE" using assms(6) unfolding kem_laws_def by (metis fst_conv)
  let ?p = "(PeripheralHandshake_init (BLEPeripheralServer_init True) (Some st))\<lparr> hp_secret_key := Some sk,
      hp_public_key := Some pk, hp_server := server_start (server_set_public_key pk (BLEPeripheralServer_init True)) \<rparr>"
  let ?q = "?p\<lparr> hp_server := (hp_server ?p)\<lparr> sv_control_message := req \<rparr> \<rparr>"
  obtain st' where hr: "handle_resume_request (pe_clk E) sid ?q = (Inr (), ?q\<lparr> hb_store := Some st', hb_tick := 3,
        hp_resume_session_id := Some sid, hp_resume_requested := True,
        hp_server := (hp_server ?q)\<lparr> sv_notified := [RESUME_OK_NOTIFY] \<rparr> \<rparr>)"
    and st': "store_ok st'" "map_of (ss_sessions st') (bytes_hex sid) = None"
    using resume_request_live [OF assms(1) _ _ _ assms(2), of ?q "pe_clk E"] assms(3,4)
    by (auto simp: PeripheralHandshake_init_def BLEPeripheralServer_init_def server_start_def server_set_public_key_def)
  let ?u = "?q\<lparr> hb_store := Some st', hb_tick := 3, hp_resume_session_id := Some sid, hp_resume_requested := True,
        hp_server := (hp_server ?q)\<lparr> sv_notified := [RESUME_OK_NOTIFY] \<rparr> \<rparr>"
  have w: "wait_for_either_or (pe_clk E) (pe_turns E) ?p = (Inr (), ?u)"
    using assms(8) hr write_control_resume [OF assms(5), of "pe_clk E" ?p] by (simp del: handle_event.simps)
  obtain st2 where l: "store_load (pe_clk E) True sid ?u = (Inr None, ?u\<lparr> hb_store := Some st2, hb_tick := hb_tick ?u + 2 \<rparr>)"
    using load_dead [OF st'(1), of ?u sid "pe_clk E"] st'(2) by auto
  then have rb: "resume_branch (pe_clk E) ?u = (Inr None, ?u\<lparr> hb_store := Some st2, hb_tick := hb_tick ?u + 2 \<rparr>)"
    by (simp add: resume_branch_def bindM_step)
  have "full_branch C E pk sk v = (Inl (RuntimeError ''Ciphertext size mismatch''), v)"
    if "sv_ciphertext (hp_server v) = []" for v
    using that by (simp add: full_branch_def bindM_def seqM_def requireR_def)
  then show ?thesis
    using assms(7,9) key len w rb
    by (auto simp: PeripheralHandshake_run_def generate_keypair_def seqM_def bindM_def PeripheralHandshake_init_def
        BLEPeripheralServer_init_def server_start_def server_set_public_key_def)
qed

theorem peripheral_resume_counts_twice_witness:
  "fst (PeripheralHandshake_run demo_crypto (demo_env [[WriteControl (RESUME_MAGIC @ RESUME_REQ @ replicate 16 1)]])
      (PeripheralHandshake_init (BLEPeripheralServer_init True)
        (Some (demo_store\<lparr> ss_max_uses := 1, ss_sessions := [(bytes_hex (replicate 16 1),
          \<lparr> se_session_key = [7], se_created_at = 0, se_usage_count = 0 \<rparr>)] \<rparr>))))
   = Inl (RuntimeError ''Ciphertext size mismatch'')"
  using peripheral_resume_counts_twice [of "demo_store\<lparr> ss_max_uses := 1, ss_sessions := [(bytes_hex (replicate 16 1),
          \<lparr> se_session_key = [7], se_created_at = 0, se_usage_count = 0 \<rparr>)] \<rparr>" "replicate 16 1"
      "\<lparr> se_session_key = [7], se_created_at = 0, se_usage_count = 0 \<rparr>"
      "demo_env [[WriteControl (RESUME_MAGIC @ RESUME_REQ @ replicate 16 1)]]"
      "RESUME_MAGIC @ RESUME_REQ @ replicate 16 1" demo_crypto,
      OF _ _ _ _ _ demo_kem_laws _ _ prod.collapse [symmetric]]
  by (simp add: store_ok_def demo_store_def demo_env_def entry_live_def build_resume_request_def)

end
