(* ===== verification/Phase5.thy ===== *)
theory Phase5
  imports Session
begin

text \<open>
  \<open>src/common/phase5.py\<close>, the authenticated ML-KEM handshake v0.5 (transcript, key schedule, SAS,
  FINISHED values, PQS5 frames and the Central's state machine), and \<open>src/common/phase6.py\<close>, the
  directional traffic keys and the PQS6 frames of v0.6.
\<close>

section \<open>Records\<close>

record phase5_keys =
  k5_application :: bytes
  k5_sas :: bytes
  k5_finished_c :: bytes
  k5_finished_p :: bytes

record phase5_frame =
  f5_subtype :: int
  f5_payload :: bytes

datatype phase5_state =
    EMPTY | WAIT_READY_FOR_SAS | WAIT_SAS_CONFIRM | WAIT_FINISHED_P
  | AUTHENTICATED | WAIT_APPLICATION_DATA | COMPLETE | ABORTED

section \<open>Transcript and key schedule\<close>

definition p5_require_size :: "bytes \<Rightarrow> nat \<Rightarrow> bytes result" where
  "p5_require_size value expected =
     (if length value \<noteq> expected then Inl (ValueError ''wrong size'') else Inr value)"

definition p5_length_prefixed :: "bytes \<Rightarrow> bytes result" where
  "p5_length_prefixed value =
     (if length value > 0xFFFF then Inl (ValueError ''transcript field exceeds the u16 length limit'')
      else Inr (be_bytes 2 (length value) @ value))"

definition build_phase5_transcript :: "bytes \<Rightarrow> bytes \<Rightarrow> bytes \<Rightarrow> bytes result" where
  "build_phase5_transcript session_id public_key ciphertext =
     bindR (p5_require_size session_id SESSION_ID_SIZE) (\<lambda>session_id.
     bindR (p5_require_size public_key PK_SIZE) (\<lambda>public_key.
     bindR (p5_require_size ciphertext CT_SIZE) (\<lambda>ciphertext.
     bindR (mapR p5_length_prefixed
              [PHASE5_DOMAIN, CENTRAL_ROLE, PERIPHERAL_ROLE, session_id, public_key, ciphertext])
       (\<lambda>fields. Inr (concat fields)))))"

definition compute_phase5_transcript_hash :: "bytes \<Rightarrow> bytes \<Rightarrow> bytes \<Rightarrow> bytes result" where
  "compute_phase5_transcript_hash session_id public_key ciphertext =
     bindR (build_phase5_transcript session_id public_key ciphertext) (\<lambda>t. Inr (sha256 t))"

definition derive_phase5_keys :: "third_party \<Rightarrow> bytes \<Rightarrow> bytes \<Rightarrow> phase5_keys result" where
  "derive_phase5_keys C shared_secret transcript_hash =
     bindR (p5_require_size shared_secret SS_SIZE) (\<lambda>shared_secret.
     bindR (p5_require_size transcript_hash TRANSCRIPT_HASH_SIZE) (\<lambda>transcript_hash.
     let key_block = hkdf_derive C PHASE5_KEY_BLOCK_SIZE transcript_hash PHASE5_KDF_INFO shared_secret
     in Inr \<lparr> k5_application = slice 0 PHASE5_KEY_SIZE key_block,
              k5_sas = slice PHASE5_KEY_SIZE (2 * PHASE5_KEY_SIZE) key_block,
              k5_finished_c = slice (2 * PHASE5_KEY_SIZE) (3 * PHASE5_KEY_SIZE) key_block,
              k5_finished_p = slice (3 * PHASE5_KEY_SIZE) (4 * PHASE5_KEY_SIZE) key_block \<rparr>))"

definition compute_phase5_sas :: "bytes \<Rightarrow> bytes \<Rightarrow> int result" where
  "compute_phase5_sas sas_key transcript_hash =
     bindR (p5_require_size sas_key PHASE5_KEY_SIZE) (\<lambda>sas_key.
     bindR (p5_require_size transcript_hash TRANSCRIPT_HASH_SIZE) (\<lambda>transcript_hash.
     let sas_mac = hmac_sha256 sas_key (PHASE5_SAS_LABEL @ transcript_hash)
     in Inr (int (be_nat sas_mac mod SAS_MODULUS))))"

text \<open>\<open>f"{sas:06d}"\<close> pads a non-negative number with zeros.\<close>

definition format_phase5_sas :: "int \<Rightarrow> string result" where
  "format_phase5_sas sas =
     (if \<not> (0 \<le> sas \<and> sas < int SAS_MODULUS) then Inl (ValueError ''SAS must be in [0, 999999]'')
      else Inr (zfill SAS_DIGITS (str_nat (nat sas))))"

definition p5_compute_finished :: "bytes \<Rightarrow> bytes \<Rightarrow> bytes \<Rightarrow> bytes result" where
  "p5_compute_finished finished_key label transcript_hash =
     bindR (p5_require_size finished_key PHASE5_KEY_SIZE) (\<lambda>finished_key.
     bindR (p5_require_size transcript_hash TRANSCRIPT_HASH_SIZE) (\<lambda>transcript_hash.
     let result = hmac_sha256 finished_key (label @ transcript_hash)
     in if length result \<noteq> FINISHED_SIZE
        then Inl (RuntimeError ''unexpected HMAC-SHA256 output size'') else Inr result))"

definition compute_finished_c :: "bytes \<Rightarrow> bytes \<Rightarrow> bytes result" where
  "compute_finished_c finished_key transcript_hash =
     p5_compute_finished finished_key PHASE5_FINISHED_C_LABEL transcript_hash"

definition compute_finished_p :: "bytes \<Rightarrow> bytes \<Rightarrow> bytes result" where
  "compute_finished_p finished_key transcript_hash =
     p5_compute_finished finished_key PHASE5_FINISHED_P_LABEL transcript_hash"

definition verify_finished :: "bytes \<Rightarrow> bytes \<Rightarrow> bool" where
  "verify_finished expected received =
     (if length expected \<noteq> FINISHED_SIZE \<or> length received \<noteq> FINISHED_SIZE then False
      else expected = received)"

section \<open>Frames\<close>

definition build_start5 :: "bytes \<Rightarrow> bytes result" where
  "build_start5 session_id =
     bindR (p5_require_size session_id SESSION_ID_SIZE) (\<lambda>session_id. Inr (PHASE5_START_MAGIC @ session_id))"

definition encode_phase5_frame :: "int \<Rightarrow> bytes \<Rightarrow> bytes result" where
  "encode_phase5_frame subtype payload =
     (if \<not> (0 \<le> subtype \<and> subtype \<le> 0xFF) then Inl (ValueError ''Phase 5 subtype must fit in one byte'')
      else if length payload > 0xFFFF then Inl (ValueError ''Phase 5 payload exceeds the u16 length limit'')
      else Inr (PHASE5_FRAME_MAGIC @ [word_of_int PHASE5_FRAME_VERSION, word_of_int subtype]
                @ be_bytes 2 (length payload) @ payload))"

definition parse_phase5_frame :: "bytes \<Rightarrow> phase5_frame result" where
  "parse_phase5_frame data =
     (if length data < PHASE5_FRAME_HEADER_SIZE
      then Inl (ValueError ''Phase 5 frame is shorter than its header'')
      else if take 4 data \<noteq> PHASE5_FRAME_MAGIC then Inl (ValueError ''invalid Phase 5 frame magic'')
      else if uint (data ! 4) \<noteq> PHASE5_FRAME_VERSION
      then Inl (ValueError ''unsupported Phase 5 frame version'')
      else let payload_len = be_nat (slice 6 8 data)
           in if length data \<noteq> PHASE5_FRAME_HEADER_SIZE + payload_len
              then Inl (ValueError ''Phase 5 frame payload length mismatch'')
              else Inr \<lparr> f5_subtype = uint (data ! 5), f5_payload = drop 8 data \<rparr>)"

section \<open>The Central's state machine\<close>

definition sm5_require :: "phase5_state \<Rightarrow> phase5_state \<Rightarrow> unit result" where
  "sm5_require expected state =
     (if state \<noteq> expected then Inl (Phase5StateError ''Phase 5 event invalid in state'') else Inr ())"

definition sm5_start :: "bytes \<Rightarrow> phase5_state \<Rightarrow> (phase5_state, bytes) outcome" where
  "sm5_start session_id state =
     (case sm5_require EMPTY state of
        Inl e \<Rightarrow> (Inl e, state)
      | Inr _ \<Rightarrow> (build_start5 session_id, WAIT_READY_FOR_SAS))"

definition sm5_receive_ready_for_sas :: "phase5_frame \<Rightarrow> phase5_state \<Rightarrow> (phase5_state, bytes) outcome" where
  "sm5_receive_ready_for_sas frame state =
     (case sm5_require WAIT_READY_FOR_SAS state of
        Inl e \<Rightarrow> (Inl e, state)
      | Inr _ \<Rightarrow>
          if f5_subtype frame \<noteq> PHASE5_READY_FOR_SAS \<or> f5_payload frame \<noteq> []
          then (Inl (Phase5StateError ''expected empty READY_FOR_SAS frame''), state)
          else (Inr [], WAIT_SAS_CONFIRM))"

definition sm5_reject_sas :: "phase5_state \<Rightarrow> (phase5_state, bytes) outcome" where
  "sm5_reject_sas state =
     (case sm5_require WAIT_SAS_CONFIRM state of
        Inl e \<Rightarrow> (Inl e, state) | Inr _ \<Rightarrow> (Inr [], ABORTED))"

definition sm5_confirm_sas :: "bytes \<Rightarrow> phase5_state \<Rightarrow> (phase5_state, bytes) outcome" where
  "sm5_confirm_sas finished_c state =
     (case sm5_require WAIT_SAS_CONFIRM state of
        Inl e \<Rightarrow> (Inl e, state)
      | Inr _ \<Rightarrow>
          (case p5_require_size finished_c FINISHED_SIZE of
             Inl e \<Rightarrow> (Inl e, state)
           | Inr finished_c \<Rightarrow> (encode_phase5_frame PHASE5_FINISHED_C finished_c, WAIT_FINISHED_P)))"

definition sm5_receive_finished_p ::
  "phase5_frame \<Rightarrow> bytes \<Rightarrow> phase5_state \<Rightarrow> (phase5_state, bytes) outcome" where
  "sm5_receive_finished_p frame expected_finished_p state =
     (case sm5_require WAIT_FINISHED_P state of
        Inl e \<Rightarrow> (Inl e, state)
      | Inr _ \<Rightarrow>
          if f5_subtype frame = PHASE5_ERROR
          then (Inl (Phase5StateError ''Peripheral Phase 5 error''), state)
          else if f5_subtype frame \<noteq> PHASE5_FINISHED_P
          then (Inl (Phase5StateError ''expected FINISHED_P frame''), state)
          else if \<not> verify_finished expected_finished_p (f5_payload frame)
          then (Inl (Phase5StateError ''Peripheral FINISHED verification failed''), ABORTED)
          else (Inr [], AUTHENTICATED))"

definition sm5_request_application_data :: "phase5_state \<Rightarrow> (phase5_state, bytes) outcome" where
  "sm5_request_application_data state =
     (case sm5_require AUTHENTICATED state of
        Inl e \<Rightarrow> (Inl e, state)
      | Inr _ \<Rightarrow> (encode_phase5_frame PHASE5_DATA_REQUEST [], WAIT_APPLICATION_DATA))"

definition sm5_complete_application_data :: "phase5_state \<Rightarrow> (phase5_state, bytes) outcome" where
  "sm5_complete_application_data state =
     (case sm5_require WAIT_APPLICATION_DATA state of
        Inl e \<Rightarrow> (Inl e, state) | Inr _ \<Rightarrow> (Inr [], COMPLETE))"

section \<open>Phase 6 (phase6.py)\<close>

abbreviation (input) PHASE6_TRAFFIC_KEY_SIZE :: nat where "PHASE6_TRAFFIC_KEY_SIZE \<equiv> 32"
abbreviation (input) PHASE6_FRAME_VERSION :: int where "PHASE6_FRAME_VERSION \<equiv> 0x06"
abbreviation (input) PHASE6_FRAME_HEADER_SIZE :: nat where "PHASE6_FRAME_HEADER_SIZE \<equiv> 8"
abbreviation (input) PHASE6_ERROR :: int where "PHASE6_ERROR \<equiv> 0x7F"
abbreviation (input) PHASE6_STATUS_INVALID_PROTOCOL_STATE :: int where
  "PHASE6_STATUS_INVALID_PROTOCOL_STATE \<equiv> 0x04"
abbreviation (input) PHASE6_STATUS_AUTHENTICATION_FAILURE :: int where
  "PHASE6_STATUS_AUTHENTICATION_FAILURE \<equiv> 0x06"
definition PHASE6_C2P_LABEL :: bytes where
  "PHASE6_C2P_LABEL = ascii ''PQ-BLE-TRAFFIC-v0.6/CENTRAL-TO-PERIPHERAL''"
definition PHASE6_P2C_LABEL :: bytes where
  "PHASE6_P2C_LABEL = ascii ''PQ-BLE-TRAFFIC-v0.6/PERIPHERAL-TO-CENTRAL''"
definition PHASE6_FRAME_MAGIC :: bytes where "PHASE6_FRAME_MAGIC = ascii ''PQS6''"

record phase6_traffic_keys =
  k6_central_to_peripheral :: bytes
  k6_peripheral_to_central :: bytes

record phase6_frame =
  f6_subtype :: int
  f6_payload :: bytes

definition derive_phase6_traffic_keys :: "bytes \<Rightarrow> phase6_traffic_keys result" where
  "derive_phase6_traffic_keys application_root_key =
     (if length application_root_key \<noteq> PHASE6_TRAFFIC_KEY_SIZE
      then Inl (ValueError ''application root key must be exactly 32 bytes'')
      else Inr \<lparr> k6_central_to_peripheral = hmac_sha256 application_root_key PHASE6_C2P_LABEL,
                 k6_peripheral_to_central = hmac_sha256 application_root_key PHASE6_P2C_LABEL \<rparr>)"

definition encode_phase6_frame :: "int \<Rightarrow> bytes \<Rightarrow> bytes result" where
  "encode_phase6_frame subtype payload =
     (if \<not> (0 \<le> subtype \<and> subtype \<le> 0xFF) then Inl (ValueError ''Phase 6 subtype must fit in one byte'')
      else if length payload > 0xFFFF then Inl (ValueError ''Phase 6 payload is too large'')
      else Inr (PHASE6_FRAME_MAGIC @ [word_of_int PHASE6_FRAME_VERSION, word_of_int subtype]
                @ be_bytes 2 (length payload) @ payload))"

definition parse_phase6_frame :: "bytes \<Rightarrow> phase6_frame result" where
  "parse_phase6_frame frame =
     (if length frame < PHASE6_FRAME_HEADER_SIZE then Inl (ValueError ''Phase 6 frame is too short'')
      else if take 4 frame \<noteq> PHASE6_FRAME_MAGIC then Inl (ValueError ''Invalid Phase 6 frame magic'')
      else if uint (frame ! 4) \<noteq> PHASE6_FRAME_VERSION
      then Inl (ValueError ''Unsupported Phase 6 frame version'')
      else let declared_len = be_nat (slice 6 8 frame)
           in if length frame \<noteq> PHASE6_FRAME_HEADER_SIZE + declared_len
              then Inl (ValueError ''Phase 6 frame length mismatch'')
              else Inr \<lparr> f6_subtype = uint (frame ! 5), f6_payload = drop PHASE6_FRAME_HEADER_SIZE frame \<rparr>)"

section \<open>Lemmas\<close>

lemma p5_require_size_Inr [simp]: "p5_require_size v n = Inr w \<longleftrightarrow> length v = n \<and> w = v"
  by (auto simp: p5_require_size_def)

lemma p5_length_prefixed_Inr [simp]:
  "p5_length_prefixed v = Inr w \<longleftrightarrow> length v \<le> 65535 \<and> w = lp_field v"
  by (auto simp: p5_length_prefixed_def lp_field_def)

interpretation pqs5: frame_codec PHASE5_FRAME_MAGIC PHASE5_FRAME_VERSION
  "\<lambda>t p. 0 \<le> t \<and> t \<le> 255 \<and> length p \<le> 65535"
  encode_phase5_frame parse_phase5_frame f5_subtype f5_payload
proof
  fix t p w f
  let ?w = "frame_wire PHASE5_FRAME_MAGIC 5 t p"
  show "encode_phase5_frame t p = Inr w \<longleftrightarrow>
      (0 \<le> t \<and> t \<le> 255 \<and> length p \<le> 65535) \<and> w = frame_wire PHASE5_FRAME_MAGIC 5 t p"
    by (auto simp: encode_phase5_frame_def frame_wire_def)
  assume "0 \<le> t \<and> t \<le> 255 \<and> length p \<le> 65535"
  then show "\<exists>f. parse_phase5_frame ?w = Inr f \<and> f5_subtype f = t \<and> f5_payload f = p"
    using parse_wire_length [of PHASE5_FRAME_MAGIC p 5 t]
    by (simp add: parse_phase5_frame_def Let_def frame_wire_parts)
next
  fix w f
  assume "parse_phase5_frame w = Inr f"
  then show "(0 \<le> f5_subtype f \<and> f5_subtype f \<le> 255 \<and> length (f5_payload f) \<le> 65535)
      \<and> w = frame_wire PHASE5_FRAME_MAGIC 5 (f5_subtype f) (f5_payload f)"
    using frame_wire_intro [of w PHASE5_FRAME_MAGIC 5]
    by (auto simp: parse_phase5_frame_def Let_def split: if_splits)
qed simp_all

lemma length_PHASE6_FRAME_MAGIC [simp]: "length PHASE6_FRAME_MAGIC = 4"
  by (simp add: PHASE6_FRAME_MAGIC_def)

interpretation pqs6: frame_codec PHASE6_FRAME_MAGIC PHASE6_FRAME_VERSION
  "\<lambda>t p. 0 \<le> t \<and> t \<le> 255 \<and> length p \<le> 65535"
  encode_phase6_frame parse_phase6_frame f6_subtype f6_payload
proof
  fix t p w f
  let ?w = "frame_wire PHASE6_FRAME_MAGIC 6 t p"
  show "encode_phase6_frame t p = Inr w \<longleftrightarrow>
      (0 \<le> t \<and> t \<le> 255 \<and> length p \<le> 65535) \<and> w = frame_wire PHASE6_FRAME_MAGIC 6 t p"
    by (auto simp: encode_phase6_frame_def frame_wire_def)
  assume "0 \<le> t \<and> t \<le> 255 \<and> length p \<le> 65535"
  then show "\<exists>f. parse_phase6_frame ?w = Inr f \<and> f6_subtype f = t \<and> f6_payload f = p"
    using parse_wire_length [of PHASE6_FRAME_MAGIC p 6 t]
    by (simp add: parse_phase6_frame_def Let_def frame_wire_parts)
next
  fix w f
  assume "parse_phase6_frame w = Inr f"
  then show "(0 \<le> f6_subtype f \<and> f6_subtype f \<le> 255 \<and> length (f6_payload f) \<le> 65535)
      \<and> w = frame_wire PHASE6_FRAME_MAGIC 6 (f6_subtype f) (f6_payload f)"
    using frame_wire_intro [of w PHASE6_FRAME_MAGIC 6]
    by (auto simp: parse_phase6_frame_def Let_def split: if_splits)
qed simp_all

subsection \<open>Transcript\<close>

definition phase5_fields :: "bytes \<times> bytes \<times> bytes \<Rightarrow> bytes list" where
  "phase5_fields = (\<lambda>(sid, pk, ct). [PHASE5_DOMAIN, CENTRAL_ROLE, PERIPHERAL_ROLE, sid, pk, ct])"

lemma build_phase5_transcript_Inr:
  "build_phase5_transcript sid pk ct = Inr t \<longleftrightarrow>
     length sid = 16 \<and> length pk = 1184 \<and> length ct = 1088
     \<and> t = concat (map lp_field (phase5_fields (sid, pk, ct)))"
  by (auto simp: build_phase5_transcript_def phase5_fields_def)

interpretation transcript5: canonical_transcript
  "\<lambda>(sid, pk, ct). build_phase5_transcript sid pk ct" phase5_fields
proof
  show "t = concat (map lp_field (phase5_fields i))"
    if "(case i of (sid, pk, ct) \<Rightarrow> build_phase5_transcript sid pk ct) = Inr t" for i t
    using that by (auto simp: build_phase5_transcript_Inr split: prod.splits)
  show "length v \<le> 65535"
    if "(case i of (sid, pk, ct) \<Rightarrow> build_phase5_transcript sid pk ct) = Inr t"
      and "v \<in> set (phase5_fields i)" for i t v
    using that by (auto simp: build_phase5_transcript_Inr phase5_fields_def split: prod.splits)
  show "i = j" if "phase5_fields i = phase5_fields j" for i j :: "bytes \<times> bytes \<times> bytes"
    using that by (auto simp: phase5_fields_def split: prod.splits)
qed

subsection \<open>State machine runs\<close>

datatype phase5_event =
    Ev5_start bytes | Ev5_ready phase5_frame | Ev5_reject | Ev5_confirm bytes
  | Ev5_finished_p phase5_frame bytes | Ev5_request | Ev5_complete

fun sm5_step :: "phase5_state \<Rightarrow> phase5_event \<Rightarrow> (phase5_state, bytes) outcome" where
  "sm5_step s (Ev5_start sid) = sm5_start sid s"
| "sm5_step s (Ev5_ready f) = sm5_receive_ready_for_sas f s"
| "sm5_step s Ev5_reject = sm5_reject_sas s"
| "sm5_step s (Ev5_confirm fc) = sm5_confirm_sas fc s"
| "sm5_step s (Ev5_finished_p f e) = sm5_receive_finished_p f e s"
| "sm5_step s Ev5_request = sm5_request_application_data s"
| "sm5_step s Ev5_complete = sm5_complete_application_data s"

lemmas sm5_defs = sm5_require_def sm5_start_def sm5_receive_ready_for_sas_def sm5_reject_sas_def
  sm5_confirm_sas_def sm5_receive_finished_p_def sm5_request_application_data_def
  sm5_complete_application_data_def

fun is_start5 :: "phase5_event \<Rightarrow> bool" where
  "is_start5 (Ev5_start sid) = True"
| "is_start5 _ = False"

text \<open>
  What the log of successful events (START5 apart) looks like in each state: the events of the
  handshake in their order, each with the values the code requires.
\<close>

definition auth_log :: "phase5_event list \<Rightarrow> bool" where
  "auth_log evs \<longleftrightarrow> (\<exists>fc e. evs = [Ev5_ready \<lparr> f5_subtype = PHASE5_READY_FOR_SAS, f5_payload = [] \<rparr>,
     Ev5_confirm fc, Ev5_finished_p \<lparr> f5_subtype = PHASE5_FINISHED_P, f5_payload = e \<rparr> e]
     \<and> length fc = FINISHED_SIZE \<and> length e = FINISHED_SIZE)"

definition log5_ok :: "phase5_state \<Rightarrow> phase5_event list \<Rightarrow> bool" where
  "log5_ok s evs \<longleftrightarrow>
     (case s of
        EMPTY \<Rightarrow> evs = []
      | WAIT_READY_FOR_SAS \<Rightarrow> evs = []
      | WAIT_SAS_CONFIRM \<Rightarrow> evs = [Ev5_ready \<lparr> f5_subtype = PHASE5_READY_FOR_SAS, f5_payload = [] \<rparr>]
      | WAIT_FINISHED_P \<Rightarrow> \<exists>fc. length fc = FINISHED_SIZE \<and>
          evs = [Ev5_ready \<lparr> f5_subtype = PHASE5_READY_FOR_SAS, f5_payload = [] \<rparr>, Ev5_confirm fc]
      | AUTHENTICATED \<Rightarrow> auth_log evs
      | WAIT_APPLICATION_DATA \<Rightarrow> \<exists>l. auth_log l \<and> evs = l @ [Ev5_request]
      | COMPLETE \<Rightarrow> \<exists>l. auth_log l \<and> evs = l @ [Ev5_request, Ev5_complete]
      | ABORTED \<Rightarrow> \<forall>f e. Ev5_finished_p f e \<notin> set evs)"

lemma encode_phase5_ok:
  "length p = 32 \<Longrightarrow> \<exists>w. encode_phase5_frame PHASE5_FINISHED_C p = Inr w"
  "\<exists>w. encode_phase5_frame PHASE5_DATA_REQUEST [] = Inr w"
  by (simp_all add: encode_phase5_frame_def)

lemma sm5_step_log:
  assumes "log5_ok s evs"
  shows "log5_ok (snd (sm5_step s x))
    (evs @ filter (\<lambda>ev. \<not> is_start5 ev) (case fst (sm5_step s x) of Inl e \<Rightarrow> [] | Inr r \<Rightarrow> [x]))"
proof (cases x)
  case (Ev5_start sid)
  show ?thesis unfolding Ev5_start using assms
    by (cases s; cases "build_start5 sid") (simp_all add: sm5_defs log5_ok_def)
next
  case (Ev5_ready f)
  show ?thesis unfolding Ev5_ready using assms
    by (cases s; cases f) (simp_all add: sm5_defs log5_ok_def auth_log_def)
next
  case Ev5_reject
  show ?thesis unfolding Ev5_reject using assms
    by (cases s) (simp_all add: sm5_defs log5_ok_def auth_log_def)
next
  case (Ev5_confirm fc)
  show ?thesis unfolding Ev5_confirm using assms encode_phase5_ok(1) [of fc]
    by (cases s) (auto simp: sm5_defs log5_ok_def auth_log_def p5_require_size_def)
next
  case (Ev5_finished_p f e)
  show ?thesis unfolding Ev5_finished_p using assms
    by (cases s; cases f) (auto simp: sm5_defs log5_ok_def auth_log_def verify_finished_def)
next
  case Ev5_request
  show ?thesis unfolding Ev5_request using assms encode_phase5_ok(2)
    by (cases s) (auto simp: sm5_defs log5_ok_def auth_log_def)
next
  case Ev5_complete
  show ?thesis unfolding Ev5_complete using assms
    by (cases s) (auto simp: sm5_defs log5_ok_def auth_log_def)
qed

lemma sm5_run_log:
  "log5_ok (run_state sm5_step EMPTY xs) (filter (\<lambda>ev. \<not> is_start5 ev) (run_accepted sm5_step EMPTY xs))"
proof (induction xs rule: rev_induct)
  case Nil
  then show ?case by (simp add: log5_ok_def)
next
  case (snoc x xs)
  show ?case
    using sm5_step_log [OF snoc.IH, of x] by (simp add: run_accepted_snoc)
qed

section \<open>Properties\<close>

text \<open>
  The v0.5 Central reaches an authenticated state only through the whole handshake in order:
  for every sequence of method calls, if the state machine ends in AUTHENTICATED, or beyond it, the
  calls that succeeded are an empty READY\_FOR\_SAS, a SAS confirmation with a 32-byte FINISHED\_C,
  and a FINISHED\_P whose 32-byte payload equals the expected value, each exactly once and in this
  order; and an aborted machine has accepted no FINISHED\_P at all.
\<close>

theorem phase5_authentication_order:
  "(run_state sm5_step EMPTY xs \<in> {AUTHENTICATED, WAIT_APPLICATION_DATA, COMPLETE} \<longrightarrow>
     (\<exists>evs rest. auth_log evs
        \<and> filter (\<lambda>ev. \<not> is_start5 ev) (run_accepted sm5_step EMPTY xs) = evs @ rest
        \<and> rest \<in> {[], [Ev5_request], [Ev5_request, Ev5_complete]}))
   \<and> (run_state sm5_step EMPTY xs = ABORTED \<longrightarrow>
     (\<forall>f e. Ev5_finished_p f e \<notin> set (run_accepted sm5_step EMPTY xs)))"
  using sm5_run_log [of xs] unfolding log5_ok_def
  by (auto split: phase5_state.splits)

theorem phase5_authentication_order_witness:
  "\<exists>evs rest. auth_log evs \<and> rest \<in> {[], [Ev5_request], [Ev5_request, Ev5_complete]}
     \<and> filter (\<lambda>ev. \<not> is_start5 ev) (run_accepted sm5_step EMPTY
         [Ev5_start (replicate 16 0), Ev5_ready \<lparr> f5_subtype = 1, f5_payload = [] \<rparr>,
          Ev5_confirm (replicate 32 9), Ev5_finished_p \<lparr> f5_subtype = 2, f5_payload = replicate 32 8 \<rparr> (replicate 32 8)])
        = evs @ rest"
proof -
  let ?xs = "[Ev5_start (replicate 16 0), Ev5_ready \<lparr> f5_subtype = 1, f5_payload = [] \<rparr>,
      Ev5_confirm (replicate 32 9), Ev5_finished_p \<lparr> f5_subtype = 2, f5_payload = replicate 32 8 \<rparr> (replicate 32 8)]"
  have "run_state sm5_step EMPTY ?xs = AUTHENTICATED"
    by (simp add: sm5_defs p5_require_size_def verify_finished_def)
  then show ?thesis using phase5_authentication_order [of ?xs] by blast
qed

text \<open>
  The v0.5 transcript is canonical: it exists exactly for a 16-byte session id, a 1184-byte
  public key and a 1088-byte ciphertext, has 2323 bytes, and two handshakes with the same
  transcript have the same session id, key and ciphertext.
\<close>

theorem phase5_transcript_canonical:
  "((\<exists>t. build_phase5_transcript sid pk ct = Inr t) \<longleftrightarrow>
      length sid = SESSION_ID_SIZE \<and> length pk = PK_SIZE \<and> length ct = CT_SIZE)
   \<and> (build_phase5_transcript sid pk ct = Inr t \<longrightarrow> length t = 2323)
   \<and> (build_phase5_transcript sid pk ct = Inr t \<longrightarrow> build_phase5_transcript sid' pk' ct' = Inr t \<longrightarrow>
        sid = sid' \<and> pk = pk' \<and> ct = ct')"
  using transcript5.transcript_inject [of "(sid, pk, ct)" t "(sid', pk', ct')"]
  by (auto simp: build_phase5_transcript_Inr phase5_fields_def)

theorem phase5_transcript_canonical_witness:
  "\<exists>t. build_phase5_transcript (replicate 16 1) (replicate 1184 2) (replicate 1088 3) = Inr t
       \<and> length t = 2323"
proof -
  let ?t = "concat (map lp_field (phase5_fields (replicate 16 1, replicate 1184 2, replicate 1088 3)))"
  have "build_phase5_transcript (replicate 16 1) (replicate 1184 2) (replicate 1088 3) = Inr ?t"
    by (simp add: build_phase5_transcript_Inr)
  then show ?thesis
    using phase5_transcript_canonical [of "replicate 16 1" "replicate 1184 2" "replicate 1088 3" ?t] by blast
qed

text \<open>
  The v0.5 key schedule splits the 128-byte HKDF block without overlap or gap: the four keys
  have 32 bytes each and their concatenation is the block derived with the transcript hash as salt.
\<close>

theorem phase5_keys_partition:
  assumes "hkdf_laws C" and "derive_phase5_keys C ss th = Inr k"
  shows "length ss = SS_SIZE \<and> length th = TRANSCRIPT_HASH_SIZE
    \<and> length (k5_application k) = 32 \<and> length (k5_sas k) = 32
    \<and> length (k5_finished_c k) = 32 \<and> length (k5_finished_p k) = 32
    \<and> k5_application k @ k5_sas k @ k5_finished_c k @ k5_finished_p k
       = hkdf_derive C PHASE5_KEY_BLOCK_SIZE th PHASE5_KDF_INFO ss"
proof -
  let ?b = "hkdf_derive C 128 th PHASE5_KDF_INFO ss"
  have len: "length ?b = 128" using hkdf_lawsD(1) [OF assms(1)] .
  have k: "length ss = 32" "length th = 32" "k = \<lparr> k5_application = slice 0 32 ?b, k5_sas = slice 32 64 ?b,
      k5_finished_c = slice 64 96 ?b, k5_finished_p = slice 96 128 ?b \<rparr>"
    using assms(2) by (auto simp: derive_phase5_keys_def Let_def)
  then show ?thesis using k len slice_quarters [OF len] by simp
qed

theorem phase5_keys_partition_witness:
  "\<exists>k. derive_phase5_keys demo_crypto (replicate 32 1) (replicate 32 2) = Inr k \<and> length (k5_sas k) = 32"
proof -
  have "\<exists>k. derive_phase5_keys demo_crypto (replicate 32 1) (replicate 32 2) = Inr k"
    by (simp add: derive_phase5_keys_def Let_def)
  then show ?thesis using phase5_keys_partition [OF demo_hkdf_laws] by blast
qed

text \<open>
  The v0.5 SAS is always displayable: for a 32-byte key and transcript hash the computed value
  is in range, so formatting it never raises, and the string has six decimal digits.
\<close>

theorem phase5_sas_displayable:
  assumes "length sas_key = PHASE5_KEY_SIZE" and "length th = TRANSCRIPT_HASH_SIZE"
  shows "\<exists>s. bindR (compute_phase5_sas sas_key th) format_phase5_sas = Inr s
           \<and> length s = SAS_DIGITS \<and> set s \<subseteq> set ''0123456789''"
proof -
  define n where "n = be_nat (hmac_sha256 sas_key (PHASE5_SAS_LABEL @ th)) mod 1000000"
  have n: "n < SAS_MODULUS" by (simp add: n_def)
  have "bindR (compute_phase5_sas sas_key th) format_phase5_sas = Inr (zfill 6 (str_nat n))"
    using assms n by (simp add: compute_phase5_sas_def format_phase5_sas_def p5_require_size_def Let_def n_def)
  then show ?thesis using six_digits [OF n] by blast
qed

theorem phase5_sas_displayable_witness:
  "\<exists>s. bindR (compute_phase5_sas (replicate 32 1) (replicate 32 2)) format_phase5_sas = Inr s \<and> length s = 6"
  using phase5_sas_displayable [of "replicate 32 1" "replicate 32 2"] by auto

end
