(* ===== verification/Runner.thy ===== *)
theory Runner
  imports Legacy_Handshake Phase5
begin

text \<open>
  What the experiment runners of \<open>src/central\<close> share: the GATT client, a queue of notifications, the
  sensitive buffers of the running coroutine, and the \<open>try ... finally\<close> that wipes the buffers and
  ends the subscription. The first two runners follow: \<open>mlkem_e2e.py\<close> and \<open>phase3_secure.py\<close>.
\<close>

section \<open>Runner state\<close>

text \<open>
  \<open>rn_taken\<close> counts the notifications taken from the queue; \<open>rn_buf\<close> are the \<open>bytearray\<close> locals by
  name; \<open>rn_machine\<close> is the ordering state machine of the runners that have one.
\<close>

record runner =
  rn_client :: ble_client
  rn_taken :: nat
  rn_machine :: phase5_state
  rn_buf :: "string \<Rightarrow> bytes"

definition new_runner :: "ble_client \<Rightarrow> runner" where
  "new_runner c = \<lparr> rn_client = c, rn_taken = 0, rn_machine = EMPTY, rn_buf = (\<lambda>_. []) \<rparr>"

definition runC :: "(ble_client, 'a) meth \<Rightarrow> (runner, 'a) meth" where
  "runC m s = (let (r, c) = m (rn_client s) in (r, s\<lparr> rn_client := c \<rparr>))"

definition machineM :: "(phase5_state \<Rightarrow> (phase5_state, 'a) outcome) \<Rightarrow> (runner, 'a) meth" where
  "machineM f s = (let (r, m) = f (rn_machine s) in (r, s\<lparr> rn_machine := m \<rparr>))"

definition set_buf :: "string \<Rightarrow> bytes \<Rightarrow> runner \<Rightarrow> runner" where
  "set_buf n v s = s\<lparr> rn_buf := (rn_buf s)(n := v) \<rparr>"

definition wipe_buf :: "string \<Rightarrow> runner \<Rightarrow> runner" where
  "wipe_buf n s = set_buf n (wipe (rn_buf s n)) s"

definition wipe_bufs :: "string list \<Rightarrow> runner \<Rightarrow> runner" where
  "wipe_bufs ns s = foldl (\<lambda>t n. wipe_buf n t) s ns"

text \<open>\<open>if not condition: raise error\<close>.\<close>

definition needM :: "bool \<Rightarrow> exn \<Rightarrow> ('s, unit) meth" where
  "needM b e = liftR (requireR b e)"

text \<open>\<open>try: m except E as exc: handler(exc)\<close>, the exceptions caught being those with \<open>P\<close>.\<close>

definition catchM :: "(exn \<Rightarrow> bool) \<Rightarrow> (exn \<Rightarrow> ('s, 'a) meth) \<Rightarrow> ('s, 'a) meth \<Rightarrow> ('s, 'a) meth" where
  "catchM P h m s = (case m s of (Inl e, t) \<Rightarrow> if P e then h e t else (Inl e, t) | (Inr x, t) \<Rightarrow> (Inr x, t))"

definition exn_text :: "exn \<Rightarrow> string" where
  "exn_text e = (case e of ValueError m \<Rightarrow> m | TypeError m \<Rightarrow> m | RuntimeError m \<Rightarrow> m
     | Phase5StateError m \<Rightarrow> m | ProtocolError m \<Rightarrow> m | NegativeTestPassed m \<Rightarrow> m | _ \<Rightarrow> [])"

text \<open>\<open>except ValueError as exc: raise SomeError(str(exc)) from exc\<close>.\<close>

definition value_error_to_protocol :: "'a result \<Rightarrow> 'a result" where
  "value_error_to_protocol r = (case r of Inl e \<Rightarrow> Inl (if is_ValueError e then ProtocolError (exn_text e) else e)
                                | Inr x \<Rightarrow> Inr x)"

text \<open>
  \<open>await asyncio.wait_for(notifications.get(), timeout)\<close>: the next queued notification, or the
  timeout turned into the runner's error.
\<close>

definition take_notification :: "bleak \<Rightarrow> exn \<Rightarrow> (runner, bytes) meth" where
  "take_notification B timeout_error s =
     (let ops = bc_ops (rn_client s) @ [AwaitNotify]; q = bl_queue B ops;
          s = s\<lparr> rn_client := (rn_client s)\<lparr> bc_ops := ops \<rparr> \<rparr>
      in if rn_taken s < length q then (Inr (q ! rn_taken s), s\<lparr> rn_taken := rn_taken s + 1 \<rparr>)
         else (Inl timeout_error, s))"

text \<open>
  \<open>try: await client.start_notify(...); body finally: cleanup; if notify_started: try: await
  client.stop_notify() except Exception: log\<close>.
\<close>

definition with_notify :: "bleak \<Rightarrow> (runner \<Rightarrow> runner) \<Rightarrow> (runner, 'a) meth \<Rightarrow> (runner, 'a) meth" where
  "with_notify B cleanup body s =
     (case runC (start_notify B) s of
        (Inl e, t) \<Rightarrow> (Inl e, cleanup t)
      | (Inr _, t) \<Rightarrow> (let (r, u) = body t in (r, snd (runC (stop_notify B) (cleanup u)))))"

definition require_client :: "bleak \<Rightarrow> (runner, unit) meth" where
  "require_client B = readM (\<lambda>s. requireR (client_is_connected B (rn_client s)) (ProtocolError ''BLE client not connected''))"

text \<open>\<open>for round_index in range(rounds)\<close>.\<close>

fun loopM :: "(nat \<Rightarrow> 'a \<Rightarrow> ('s, 'a) meth) \<Rightarrow> nat list \<Rightarrow> 'a \<Rightarrow> ('s, 'a) meth" where
  "loopM body [] a = retM a"
| "loopM body (i # is) a = bindM (body i a) (loopM body is)"

section \<open>Phase 2: ML-KEM interoperability (mlkem\_e2e.py)\<close>

record phase2_result =
  r2_central_checksum :: int
  r2_peripheral_checksum :: int

definition phase2_matches :: "phase2_result \<Rightarrow> bool" where
  "phase2_matches r \<longleftrightarrow> r2_central_checksum r = r2_peripheral_checksum r"

definition run_phase2_e2e :: "bleak \<Rightarrow> third_party \<Rightarrow> nat \<Rightarrow> (runner, phase2_result) meth" where
  "run_phase2_e2e B C r =
     seqM (require_client B) (with_notify B id (
     bindM (runC (read_fragmented_public_key B)) (\<lambda>public_key.
     seqM (needM (length public_key = PK_SIZE) (ProtocolError ''Public key size mismatch'')) (
     let (ciphertext, shared_secret) = encapsulate C r public_key
     in seqM (needM (length ciphertext = CT_SIZE) (ProtocolError ''Ciphertext size mismatch'')) (
     seqM (needM (length shared_secret = SS_SIZE) (ProtocolError ''Shared secret size mismatch'')) (
     bindM (liftR (shared_secret_diagnostic_checksum shared_secret)) (\<lambda>central_checksum.
     bindM (runC (write_fragmented_ciphertext B ciphertext)) (\<lambda>_.
     seqM (runC (send_control B (ascii ''START''))) (
     bindM (take_notification B (ProtocolError ''Timed out waiting for the PQM2 diagnostic result'')) (\<lambda>raw_result.
     bindM (liftR (value_error_to_protocol (parse_phase2_diagnostic raw_result))) (\<lambda>diagnostic.
     seqM (needM (p2_status diagnostic = PHASE2_STATUS_SUCCESS)
             (ProtocolError ''Peripheral returned non-success PQM2 status'')) (
     let result = \<lparr> r2_central_checksum = central_checksum, r2_peripheral_checksum = p2_checksum diagnostic \<rparr>
     in seqM (needM (phase2_matches result) (ProtocolError ''ML-KEM E2E shared-secret mismatch'')) (
     retM result)))))))))))))"

section \<open>Phase 3: secure channel experiment (phase3\_secure.py)\<close>

definition PHASE3_START_MAGIC :: bytes where "PHASE3_START_MAGIC = ascii ''START3''"
definition PHASE3_EXPECTED_PLAINTEXT :: bytes where "PHASE3_EXPECTED_PLAINTEXT = ascii ''PQ-BLE SECURE CHANNEL''"

definition PHASE3_EXPECTED_WIRE_SIZE :: nat where
  "PHASE3_EXPECTED_WIRE_SIZE = length PHASE3_EXPECTED_PLAINTEXT + SECURE_CHANNEL_OVERHEAD"

record phase3_result =
  r3_plaintext :: bytes
  r3_wire_size :: nat

text \<open>\<open>value[0] ^= 0x01\<close> on a copy.\<close>

definition flip_first :: "bytes \<Rightarrow> bytes" where
  "flip_first v = (case v of [] \<Rightarrow> [] | b # bs \<Rightarrow> xor b 1 # bs)"

text \<open>A negative test: \<open>decrypt\<close> must raise \<open>InvalidTag\<close>; another exception leaves the runner as it is.\<close>

definition phase3_must_reject :: "third_party \<Rightarrow> secure_channel \<Rightarrow> bytes \<Rightarrow> string \<Rightarrow> unit result" where
  "phase3_must_reject C ch wire failure =
     (case fst (channel_decrypt C MSG_TYPE_DATA ch wire) of
        Inl InvalidTag \<Rightarrow> Inr () | Inl e \<Rightarrow> Inl e | Inr _ \<Rightarrow> Inl (ProtocolError failure))"

definition phase3_negative :: "third_party \<Rightarrow> string option \<Rightarrow> bytes \<Rightarrow> bytes \<Rightarrow> bytes \<Rightarrow> unit result" where
  "phase3_negative C negative_test session_key session_id raw =
     (if negative_test = Some ''tamper''
      then bindR (SecureChannel_init session_key (Some session_id) (Some CENTRAL_ROLE)) (\<lambda>negative_channel.
           phase3_must_reject C negative_channel (flip_last raw)
             ''NEGATIVE TEST FAIL: tampered AES-GCM message was accepted'')
      else if negative_test = Some ''aad''
      then bindR (SecureChannel_init session_key (Some (flip_first session_id)) (Some CENTRAL_ROLE)) (\<lambda>negative_channel.
           phase3_must_reject C negative_channel raw
             ''NEGATIVE TEST FAIL: message authenticated with the wrong session_id'')
      else Inr ())"

definition phase3_replay :: "third_party \<Rightarrow> string option \<Rightarrow> secure_channel \<Rightarrow> bytes \<Rightarrow> unit result" where
  "phase3_replay C negative_test ch raw =
     (if negative_test = Some ''replay''
      then (case fst (channel_decrypt C MSG_TYPE_DATA ch raw) of
              Inl (ValueError m) \<Rightarrow>
                if m = ''Replay or out-of-order message detected'' then Inr ()
                else Inl (ProtocolError ''NEGATIVE TEST FAIL: replay was rejected for an unexpected reason'')
            | Inl e \<Rightarrow> Inl e
            | Inr _ \<Rightarrow> Inl (ProtocolError ''NEGATIVE TEST FAIL: replayed secure frame was accepted''))
      else Inr ())"

definition phase3_open :: "third_party \<Rightarrow> string option \<Rightarrow> bytes \<Rightarrow> bytes \<Rightarrow> secure_channel \<Rightarrow> bytes \<Rightarrow> phase3_result result" where
  "phase3_open C negative_test session_key session_id secure_channel raw =
     bindR (requireR (\<not> (length raw = 9 \<and> take 4 raw = ascii ''PQM2''))
              (ProtocolError ''Peripheral returned PQM2 failure diagnostic'')) (\<lambda>_.
     bindR (requireR (length raw = PHASE3_EXPECTED_WIRE_SIZE)
              (ProtocolError ''Unexpected Phase 3 secure-wire size'')) (\<lambda>_.
     bindR (phase3_negative C negative_test session_key session_id raw) (\<lambda>_.
     let (r, ch) = channel_decrypt C MSG_TYPE_DATA secure_channel raw
     in bindR (case r of
                 Inl InvalidTag \<Rightarrow> Inl (ProtocolError ''AES-256-GCM authentication failed: invalid tag'')
               | Inl (ValueError m) \<Rightarrow> Inl (ProtocolError ''Secure-channel wire validation failed'')
               | Inl e \<Rightarrow> Inl e
               | Inr p \<Rightarrow> Inr p) (\<lambda>plaintext.
     bindR (requireR (plaintext = PHASE3_EXPECTED_PLAINTEXT)
              (ProtocolError ''Authenticated plaintext mismatch'')) (\<lambda>_.
     bindR (phase3_replay C negative_test ch raw) (\<lambda>_.
     Inr \<lparr> r3_plaintext = plaintext, r3_wire_size = length raw \<rparr>))))))"

definition PHASE3_NEGATIVE_MODES :: "string list" where
  "PHASE3_NEGATIVE_MODES = [''tamper'', ''aad'', ''replay'']"

definition run_phase3_secure ::
  "bleak \<Rightarrow> third_party \<Rightarrow> nat \<Rightarrow> bytes \<Rightarrow> string option \<Rightarrow> (runner, phase3_result) meth" where
  "run_phase3_secure B C r urandom negative_test =
     seqM (require_client B) (with_notify B id (
     bindM (runC (read_fragmented_public_key B)) (\<lambda>public_key.
     seqM (needM (length public_key = PK_SIZE) (ProtocolError ''Public key size mismatch'')) (
     let (ciphertext, shared_secret) = encapsulate C r public_key
     in seqM (needM (length ciphertext = CT_SIZE) (ProtocolError ''Ciphertext size mismatch'')) (
     seqM (needM (length shared_secret = SS_SIZE) (ProtocolError ''Shared-secret size mismatch'')) (
     let session_id = generate_session_id urandom
     in seqM (needM (length session_id = SESSION_ID_SIZE) (ProtocolError ''Session ID size mismatch'')) (
     let session_key = derive_session_key C shared_secret
     in bindM (liftR (SecureChannel_init session_key (Some session_id) (Some CENTRAL_ROLE))) (\<lambda>secure_channel.
     seqM (needM (case negative_test of None \<Rightarrow> True | Some t \<Rightarrow> t \<in> set PHASE3_NEGATIVE_MODES)
             (ProtocolError ''Unknown Phase 3 negative test'')) (
     bindM (runC (write_fragmented_ciphertext B ciphertext)) (\<lambda>_.
     seqM (runC (send_control B (PHASE3_START_MAGIC @ session_id))) (
     bindM (take_notification B (ProtocolError ''Timed out waiting for Phase 3 encrypted notification'')) (\<lambda>raw.
     liftR (phase3_open C negative_test session_key session_id secure_channel raw)))))))))))))"

section \<open>Lemmas\<close>

lemma needM_apply: "needM b e s = (if b then (Inr (), s) else (Inl e, s))"
  by (simp add: needM_def)

lemma runC_Inr: "runC m s = (Inr r, t) \<longleftrightarrow> (\<exists>c. m (rn_client s) = (Inr r, c) \<and> t = s\<lparr> rn_client := c \<rparr>)"
  by (auto simp: runC_def split: prod.splits)

lemma take_notification_Inr:
  "take_notification B e s = (Inr w, t) \<longleftrightarrow>
     (let ops = bc_ops (rn_client s) @ [AwaitNotify] in rn_taken s < length (bl_queue B ops) \<and> w = bl_queue B ops ! rn_taken s
        \<and> t = s\<lparr> rn_client := (rn_client s)\<lparr> bc_ops := ops \<rparr>, rn_taken := rn_taken s + 1 \<rparr>)"
  by (auto simp: take_notification_def Let_def)

lemma with_notify_Inr:
  "with_notify B cl body s = (Inr r, t) \<longleftrightarrow>
     (\<exists>u v. runC (start_notify B) s = (Inr (), u) \<and> body u = (Inr r, v) \<and> t = snd (runC (stop_notify B) (cl v)))"
  by (auto simp: with_notify_def Let_def split: prod.splits sum.splits)

lemma require_client_Inr: "require_client B s = (Inr u, t) \<longleftrightarrow> client_is_connected B (rn_client s) \<and> t = s"
  by (auto simp: require_client_def)

lemma value_error_to_protocol_Inr [simp]: "value_error_to_protocol r = Inr x \<longleftrightarrow> r = Inr x"
  by (auto simp: value_error_to_protocol_def split: sum.splits)

subsection \<open>Runs over a working link\<close>

text \<open>A link that stays up, on which every request succeeds and the public key read is \<open>pk\<close>.\<close>

definition live_link :: "bleak \<Rightarrow> bytes \<Rightarrow> bool" where
  "live_link B pk \<longleftrightarrow> (\<forall>ops l. bl_connected B ops l)
     \<and> (\<forall>ops p. bl_io B (ops @ [p]) = Inr (if p = ReadChar CHAR_PUBKEY then pk else []))"

text \<open>The operations that hand the device something; a fresh client has performed none of them.\<close>

fun is_write :: "gatt_op \<Rightarrow> bool" where
  "is_write (WriteChar ch d) = True"
| "is_write x = False"

text \<open>The runner after further GATT operations.\<close>

definition did :: "gatt_op list \<Rightarrow> runner \<Rightarrow> runner" where
  "did ops s = s\<lparr> rn_client := (rn_client s)\<lparr> bc_ops := bc_ops (rn_client s) @ ops \<rparr> \<rparr>"

lemma did_simps [simp]:
  "bc_ops (rn_client (did ops s)) = bc_ops (rn_client s) @ ops" "rn_taken (did ops s) = rn_taken s"
  "rn_machine (did ops s) = rn_machine s" "rn_buf (did ops s) = rn_buf s"
  "bc_client (rn_client (did ops s)) = bc_client (rn_client s)"
  "did ops' (did ops s) = did (ops @ ops') s"
  by (simp_all add: did_def)

lemma live_connected: "live_link B pk \<Longrightarrow> bc_client c \<noteq> None \<Longrightarrow> client_is_connected B c"
  by (auto simp: client_is_connected_def live_link_def split: option.splits)

lemma live_start:
  "live_link B pk \<Longrightarrow> bc_client (rn_client s) \<noteq> None \<Longrightarrow> \<exists>u. runC (start_notify B) s = (Inr (), u)
     \<and> bc_client (rn_client u) \<noteq> None \<and> rn_taken u = rn_taken s \<and> rn_machine u = rn_machine s \<and> rn_buf u = rn_buf s
     \<and> bc_ops (rn_client u) = bc_ops (rn_client s) @ [StartNotify]"
  using live_connected [of B pk "rn_client s"]
  by (simp add: runC_def start_notify_def require_connected_def seqM_def bindM_def bleak_call_def live_link_def Let_def)

lemma live_read:
  "live_link B pk \<Longrightarrow> bc_client (rn_client s) \<noteq> None \<Longrightarrow>
     runC (read_fragmented_public_key B) s = (Inr pk, did [ReadChar CHAR_PUBKEY] s)"
  using live_connected [of B pk "rn_client s"]
  by (simp add: runC_def read_fragmented_public_key_def require_connected_def seqM_def bindM_def bleak_call_def
      live_link_def Let_def did_def)

lemma live_control:
  "live_link B pk \<Longrightarrow> bc_client (rn_client s) \<noteq> None \<Longrightarrow>
     runC (send_control B d) s = (Inr (), did [WriteChar CHAR_CONTROL d] s)"
  using live_connected [of B pk "rn_client s"]
  by (simp add: runC_def send_control_def require_connected_def seqM_def bindM_def bleak_call_def live_link_def
      Let_def did_def)

lemma live_secure_data:
  "live_link B pk \<Longrightarrow> bc_client (rn_client s) \<noteq> None \<Longrightarrow> d \<noteq> [] \<Longrightarrow>
     runC (write_secure_data B d) s = (Inr (), did [WriteChar CHAR_DATA d] s)"
  using live_connected [of B pk "rn_client s"]
  by (simp add: runC_def write_secure_data_def require_connected_def seqM_def bindM_def bleak_call_def live_link_def
      Let_def did_def)

lemma live_ciphertext:
  assumes "live_link B pk" and "bc_client (rn_client s) \<noteq> None" and "length ct = CT_SIZE"
  shows "\<exists>ws. runC (write_fragmented_ciphertext B ct) s = (Inr (length ws), did (map (WriteChar CHAR_CIPHERTEXT) ws) s)
    \<and> reassemble_data ws = Inr ct"
proof -
  let ?m = "ciphertext_mtu (client_mtu_size B (rn_client s))"
  have m: "4 < ?m" "?m \<le> 65539" "length ct \<le> 255 * nat (?m - 4)"
    using ciphertext_mtu_bounds [of "client_mtu_size B (rn_client s)"] assms(3) by linarith+
  then obtain ws where ws: "fragment_data ct ?m = Inr ws" using fragment_data_succeeds by blast
  have "write_all B us c = (Inr (), c\<lparr> bc_ops := bc_ops c @ map (WriteChar CHAR_CIPHERTEXT) us \<rparr>)" for us c
    using assms(1)
    by (induction us arbitrary: c) (simp_all add: bindM_def bleak_call_def live_link_def Let_def)
  then show ?thesis
    using live_connected [OF assms(1,2)] ws reassemble_permuted [OF m(1) ws refl]
    by (intro exI [of _ ws]) (simp add: runC_def write_fragmented_ciphertext_def require_connected_def seqM_def
        bindM_def did_def)
qed

text \<open>The notification number \<open>k\<close> has arrived by the end of the operations \<open>ops\<close> and is \<open>w\<close>.\<close>

definition notified :: "bleak \<Rightarrow> gatt_op list \<Rightarrow> nat \<Rightarrow> bytes \<Rightarrow> bool" where
  "notified B ops k w \<longleftrightarrow> k < length (bl_queue B ops) \<and> bl_queue B ops ! k = w"

lemma live_notified:
  "notified B (bc_ops (rn_client s) @ [AwaitNotify]) (rn_taken s) w \<Longrightarrow>
     take_notification B e s = (Inr w, (did [AwaitNotify] s)\<lparr> rn_taken := rn_taken s + 1 \<rparr>)"
  by (simp add: take_notification_def Let_def did_def notified_def)

lemma live_take:
  "rn_taken s < length (bl_queue B (bc_ops (rn_client s) @ [AwaitNotify])) \<Longrightarrow>
     take_notification B e s = (Inr (bl_queue B (bc_ops (rn_client s) @ [AwaitNotify]) ! rn_taken s),
       (did [AwaitNotify] s)\<lparr> rn_taken := rn_taken s + 1 \<rparr>)"
  by (simp add: take_notification_def Let_def did_def)

lemma kem_lawsD:
  assumes "kem_laws C" and "kem_keypair C seed = (pk, sk)" and "encapsulate C r pk = (ct, ss)"
  shows "length pk = PK_SIZE" "length ct = CT_SIZE" "length ss = SS_SIZE" "kem_decap C sk ct = ss"
  using assms unfolding kem_laws_def encapsulate_def by (simp_all add: case_prod_unfold) (metis fst_conv snd_conv)+

text \<open>Channels of the two roles under one key and session match.\<close>

lemma SecureChannel_init_Inr:
  "SecureChannel_init k (Some sid) (Some role) = Inr ch \<longleftrightarrow> length k = SESSION_KEY_SIZE \<and>
     ch = \<lparr> ch_key = k, ch_session_id = py_or (Some sid) (replicate SESSION_ID_SIZE 0), ch_role = py_or (Some role) [0],
       ch_peer_role = (if role = CENTRAL_ROLE then PERIPHERAL_ROLE else if role = PERIPHERAL_ROLE then CENTRAL_ROLE else [0]),
       ch_send_seq = 0, ch_last_recv_seq = -1, ch_sent_count = 0, ch_recv_count = 0 \<rparr>"
  by (auto simp: SecureChannel_init_def)

lemma role_channels_match:
  assumes "SecureChannel_init k (Some sid) (Some CENTRAL_ROLE) = Inr a"
    and "SecureChannel_init k (Some sid) (Some PERIPHERAL_ROLE) = Inr b"
  shows "channels_match b a" "channels_match a b"
  using assms by (auto simp: SecureChannel_init_Inr channels_match_def py_or_def bytes_const_defs)

lemma channel_wire_length:
  "aead_laws C \<Longrightarrow> length mt = 1 \<Longrightarrow> length iv = 12 \<Longrightarrow> channel_encrypt C iv ch p mt = (Inr w, ch') \<Longrightarrow>
     length w = length p + SECURE_CHANNEL_OVERHEAD"
  by (auto simp: channel_encrypt_Inr aead_lawsD)

text \<open>The second reception of one wire fails in the replay check.\<close>

lemma channel_decrypt_again:
  assumes "channel_decrypt C mt ch w = (Inr p, ch')"
  shows "fst (channel_decrypt C mt ch' w) = Inl (ValueError ''Replay or out-of-order message detected'')"
  using assms by (auto simp: channel_decrypt_Inr channel_decrypt_def [of C mt "_ \<lparr>ch_last_recv_seq := _, ch_recv_count := _\<rparr>"] Let_def)

lemma phase3_open_honest:
  assumes "aead_laws C" and "SecureChannel_init k (Some sid) (Some CENTRAL_ROLE) = Inr a"
    and "SecureChannel_init k (Some sid) (Some PERIPHERAL_ROLE) = Inr b" and "length iv = GCM_IV_SIZE"
    and "channel_encrypt C iv b PHASE3_EXPECTED_PLAINTEXT MSG_TYPE_DATA = (Inr w, b')"
    and "neg \<in> {None, Some ''replay''}"
  shows "phase3_open C neg k sid a w = Inr \<lparr> r3_plaintext = PHASE3_EXPECTED_PLAINTEXT, r3_wire_size = length w \<rparr>"
proof -
  have seq: "ch_last_recv_seq a < ch_send_seq b" using assms(2,3) by (auto simp: SecureChannel_init_Inr)
  obtain a' where d: "channel_decrypt C MSG_TYPE_DATA a w = (Inr PHASE3_EXPECTED_PLAINTEXT, a')"
    using channel_decrypt_encrypt [OF assms(1) role_channels_match(1) [OF assms(2,3)] _ assms(4) assms(5) seq] by simp
  have len: "length w = PHASE3_EXPECTED_WIRE_SIZE"
    using channel_wire_length [OF assms(1) _ assms(4,5)] by (simp add: PHASE3_EXPECTED_WIRE_SIZE_def)
  moreover have "PHASE3_EXPECTED_WIRE_SIZE \<noteq> 9" by (simp add: PHASE3_EXPECTED_WIRE_SIZE_def PHASE3_EXPECTED_PLAINTEXT_def)
  moreover have "phase3_negative C neg k sid w = Inr ()" using assms(6) by (auto simp: phase3_negative_def)
  moreover have "phase3_replay C neg a' w = Inr ()"
    using channel_decrypt_again [OF d] by (simp add: phase3_replay_def)
  ultimately show ?thesis using d by (simp add: phase3_open_def Let_def)
qed

subsection \<open>Cleaning up\<close>

lemma runC_keeps [simp]:
  "rn_buf (snd (runC m s)) = rn_buf s" "rn_machine (snd (runC m s)) = rn_machine s" "rn_taken (snd (runC m s)) = rn_taken s"
  by (simp_all add: runC_def case_prod_unfold Let_def)

lemma wipe_buf_apply: "rn_buf (wipe_buf n s) m = (if m = n then wipe (rn_buf s n) else rn_buf s m)"
  by (simp add: wipe_buf_def set_buf_def)

lemma set_buf_apply: "rn_buf (set_buf n v s) m = (if m = n then v else rn_buf s m)"
  by (simp add: set_buf_def)

lemma buf_keeps [simp]:
  "rn_taken (set_buf n v s) = rn_taken s" "rn_taken (wipe_buf n s) = rn_taken s"
  "rn_machine (set_buf n v s) = rn_machine s" "rn_machine (wipe_buf n s) = rn_machine s"
  by (simp_all add: set_buf_def wipe_buf_def)

lemmas buf_simps = wipe_buf_apply set_buf_apply

lemma machineM_Inr: "machineM f s = (Inr x, t) \<longleftrightarrow> (\<exists>m. f (rn_machine s) = (Inr x, m) \<and> t = s\<lparr> rn_machine := m \<rparr>)"
  by (auto simp: machineM_def split: prod.splits)

lemma needM_Inr: "needM b e s = (Inr u, t) \<longleftrightarrow> b \<and> t = s"
  by (auto simp: needM_apply)

lemma catchM_liftR_Inr: "catchM P (\<lambda>e. liftR (Inl (g e))) m s = (Inr x, t) \<longleftrightarrow> m s = (Inr x, t)"
  by (auto simp: catchM_def split: prod.splits sum.splits)

lemma catchM_raise_Inr:
  "(\<And>e s. isl (fst (h e s))) \<Longrightarrow> catchM P h m s = (Inr x, t) \<longleftrightarrow> m s = (Inr x, t)"
  by (auto simp: catchM_def split: prod.splits sum.splits) (metis fst_conv sum.disc(2))+

lemmas stage_Inr = runC_Inr take_notification_Inr machineM_Inr needM_Inr catchM_liftR_Inr

lemma wipe_bufs_other: "m \<notin> set ns \<Longrightarrow> rn_buf (wipe_bufs ns s) m = rn_buf s m"
  by (induction ns arbitrary: s) (auto simp: wipe_bufs_def wipe_buf_apply)

lemma wipe_bufs_wiped: "n \<in> set ns \<Longrightarrow> wiped (rn_buf (wipe_bufs ns s) n)"
proof (induction ns arbitrary: s)
  case (Cons m ns)
  show ?case
  proof (cases "n \<in> set ns")
    case True
    then show ?thesis using Cons.IH by (simp add: wipe_bufs_def)
  next
    case False
    then have "n = m" using Cons.prems by simp
    then show ?thesis using wipe_bufs_other [OF False, of "wipe_buf m s"] by (simp add: wipe_bufs_def wipe_buf_apply)
  qed
qed simp

lemma with_notify_wipes: "n \<in> set ns \<Longrightarrow> wiped (rn_buf (snd (with_notify B (wipe_bufs ns) body s)) n)"
  by (auto simp: with_notify_def Let_def wipe_bufs_wiped split: prod.splits sum.splits)

text \<open>A check in front of the guarded part changes nothing.\<close>

lemma wipes_after_check:
  assumes "\<And>s. snd (chk s) = s" and "\<And>s. wiped (rn_buf s n) \<Longrightarrow> wiped (rn_buf (snd (k s)) n)" and "wiped (rn_buf s n)"
  shows "wiped (rn_buf (snd (seqM chk k s)) n)"
  using assms(1) [of s] assms(2) [of s] assms(3) by (auto simp: seqM_def bindM_def split: prod.splits sum.splits)

lemma check_keeps: "snd (require_client B s) = s" "snd (needM b e s) = s"
  by (simp_all add: require_client_def needM_apply)

subsection \<open>Which operations a stage performs\<close>

definition ops_within :: "(gatt_op \<Rightarrow> bool) \<Rightarrow> runner \<Rightarrow> runner \<Rightarrow> bool" where
  "ops_within P s t \<longleftrightarrow> (\<exists>new. bc_ops (rn_client t) = bc_ops (rn_client s) @ new \<and> (\<forall>p \<in> set new. P p))"

lemma ops_within_refl: "ops_within P s s"
  by (simp add: ops_within_def)

lemma ops_within_trans: "ops_within P a b \<Longrightarrow> ops_within P b c \<Longrightarrow> ops_within P a c"
  unfolding ops_within_def by (metis Un_iff append.assoc set_append)

lemma within_bindM:
  "(\<And>s. ops_within P s (snd (m s))) \<Longrightarrow> (\<And>x s. ops_within P s (snd (f x s))) \<Longrightarrow> ops_within P s (snd (bindM m f s))"
  by (rule bindM_keeps [where R = "ops_within P"]) (auto intro: ops_within_trans)

lemma within_seqM:
  "(\<And>s. ops_within P s (snd (m s))) \<Longrightarrow> (\<And>s. ops_within P s (snd (k s))) \<Longrightarrow> ops_within P s (snd (seqM m k s))"
  unfolding seqM_def by (rule within_bindM)

lemma within_catchM:
  "(\<And>s. ops_within P s (snd (m s))) \<Longrightarrow> (\<And>e s. ops_within P s (snd (h e s))) \<Longrightarrow> ops_within P s (snd (catchM Q h m s))"
  by (auto simp: catchM_def split: prod.splits sum.splits) (metis ops_within_trans snd_conv)+

lemma within_pure:
  "ops_within P s (snd (retM x s))" "ops_within P s (snd (liftR r s))" "ops_within P s (snd (readM g s))"
  "ops_within P s (snd (needM b e s))" "ops_within P s (snd (machineM f s))"
  "ops_within P s (snd (require_client B s))"
  "bc_ops (rn_client (g' s)) = bc_ops (rn_client s) \<Longrightarrow> ops_within P s (snd (setM g' s))"
  by (simp_all add: ops_within_refl check_keeps machineM_def case_prod_unfold Let_def) (simp_all add: ops_within_def)

lemma ops_set_buf [simp]:
  "bc_ops (rn_client (set_buf n v s)) = bc_ops (rn_client s)" "bc_ops (rn_client (wipe_buf n s)) = bc_ops (rn_client s)"
  by (simp_all add: set_buf_def wipe_buf_def)

lemma ops_wipe_bufs [simp]: "bc_ops (rn_client (wipe_bufs ns s)) = bc_ops (rn_client s)"
  by (induction ns arbitrary: s) (simp_all add: wipe_bufs_def)

lemma within_call: "P p \<Longrightarrow> \<exists>new. bc_ops (snd (bleak_call B p c)) = bc_ops c @ new \<and> (\<forall>q \<in> set new. P q)"
  by (simp add: bleak_call_def Let_def)

lemma within_take: "P AwaitNotify \<Longrightarrow> ops_within P s (snd (take_notification B e s))"
  by (simp add: take_notification_def Let_def ops_within_def)

lemma within_guarded_call:
  assumes "P p"
  shows "ops_within P s (snd (runC (seqM (require_connected B) (bindM (bleak_call B p) (\<lambda>_. retM ()))) s))"
    and "ops_within P s (snd (runC (seqM (require_connected B) (bleak_call B p)) s))"
  using assms
  by (auto simp: runC_def seqM_def bindM_def require_connected_def bleak_call_def Let_def ops_within_def requireR_def
      split: prod.splits sum.splits)

lemma within_control: "P (WriteChar CHAR_CONTROL d) \<Longrightarrow> ops_within P s (snd (runC (send_control B d) s))"
  unfolding send_control_def by (rule within_guarded_call)

lemma within_read: "P (ReadChar CHAR_PUBKEY) \<Longrightarrow> ops_within P s (snd (runC (read_fragmented_public_key B) s))"
  unfolding read_fragmented_public_key_def by (rule within_guarded_call(2))

lemma write_all_ops: "(\<And>w. P (WriteChar CHAR_CIPHERTEXT w)) \<Longrightarrow>
  \<exists>new. bc_ops (snd (write_all B ws c)) = bc_ops c @ new \<and> (\<forall>p \<in> set new. P p)"
proof (induction ws arbitrary: c)
  case (Cons w ws)
  let ?c = "c\<lparr> bc_ops := bc_ops c @ [WriteChar CHAR_CIPHERTEXT w] \<rparr>"
  obtain new where "bc_ops (snd (write_all B ws ?c)) = bc_ops ?c @ new" "\<forall>p \<in> set new. P p"
    using Cons.IH [OF Cons.prems, of ?c] by blast
  then show ?case
    using Cons.prems by (auto simp: bindM_def bleak_call_def Let_def split: sum.splits)
qed simp

lemma within_ciphertext:
  "(\<And>w. P (WriteChar CHAR_CIPHERTEXT w)) \<Longrightarrow> ops_within P s (snd (runC (write_fragmented_ciphertext B ct) s))"
  using write_all_ops [of P B _ "rn_client s"]
  by (auto simp: runC_def write_fragmented_ciphertext_def require_connected_def seqM_def bindM_def ops_within_def
      requireR_def Let_def case_prod_unfold split: prod.splits sum.splits)

lemma clear_v1_ops [simp]: "bc_ops (clear_v1_cp3 c) = bc_ops c"
  by (simp add: clear_v1_cp3_def Let_def split: option.splits)

lemma within_subscribe:
  "P StartNotify \<Longrightarrow> ops_within P s (snd (runC (start_notify B) s))"
  "P StopNotify \<Longrightarrow> ops_within P s (snd (runC (stop_notify B) s))"
  by (auto simp: runC_def start_notify_def stop_notify_def seqM_def bindM_def require_connected_def bleak_call_def
      Let_def ops_within_def requireR_def split: prod.splits sum.splits)

lemma within_with_notify:
  assumes "P StartNotify" and "P StopNotify" and "\<And>s. ops_within P s (snd (body s))"
    and "\<And>s. bc_ops (rn_client (cl s)) = bc_ops (rn_client s)"
  shows "ops_within P s (snd (with_notify B cl body s))"
proof -
  have cl: "ops_within P u (cl u)" for u using assms(4) by (simp add: ops_within_def)
  obtain r t where t: "runC (start_notify B) s = (r, t)" by fastforce
  have st: "ops_within P s t" using within_subscribe(1) [where P = P and s = s and B = B] assms(1) t by simp
  have "ops_within P t (snd (runC (stop_notify B) (cl (snd (body t)))))"
    using assms(3) [of t] cl within_subscribe(2) [where P = P and B = B] assms(2) ops_within_trans by blast
  then show ?thesis
    using t st cl ops_within_trans by (cases r) (auto simp: with_notify_def Let_def case_prod_unfold)
qed

lemmas within_intros = within_bindM within_seqM within_catchM within_pure within_control within_read
  within_ciphertext within_take ops_set_buf


lemma within_bind_value:
  assumes "\<And>s. ops_within P s (snd (m s))" and "\<And>x s t. m s = (Inr x, t) \<Longrightarrow> ops_within P t (snd (f x t))"
  shows "ops_within P s (snd (bindM m f s))"
  using assms(1) [of s] assms(2) [of s]
  by (auto simp: bindM_def split: prod.splits sum.splits) (metis ops_within_trans snd_conv)

lemma wipe_bufs_keeps [simp]:
  "rn_taken (wipe_bufs ns s) = rn_taken s" "rn_machine (wipe_bufs ns s) = rn_machine s"
  by (induction ns arbitrary: s) (simp_all add: wipe_bufs_def)

subsection \<open>How far a run came\<close>

text \<open>Either the operations satisfy \<open>P\<close>, or the run came far enough for \<open>Q\<close>.\<close>

lemma within_or_bind:
  assumes "ops_within P s (snd (m s))" and "\<And>x t. m s = (Inr x, t) \<Longrightarrow> ops_within P t (snd (f x t)) \<or> Q"
  shows "ops_within P s (snd (bindM m f s)) \<or> Q"
  using assms by (auto simp: bindM_def split: prod.splits sum.splits) (metis ops_within_trans snd_conv)

lemma within_or_seq:
  "ops_within P s (snd (m s)) \<Longrightarrow> (\<And>t. m s = (Inr (), t) \<Longrightarrow> ops_within P t (snd (k t)) \<or> Q) \<Longrightarrow>
     ops_within P s (snd (seqM m k s)) \<or> Q"
  unfolding seqM_def by (rule within_or_bind) simp_all

lemma within_or_notify:
  assumes "P StartNotify" and "P StopNotify" and "\<And>u. runC (start_notify B) s = (Inr (), u) \<Longrightarrow> ops_within P u (snd (body u)) \<or> Q"
    and "\<And>s. bc_ops (rn_client (cl s)) = bc_ops (rn_client s)"
  shows "ops_within P s (snd (with_notify B cl body s)) \<or> Q"
proof -
  have cl: "ops_within P u (cl u)" for u using assms(4) by (simp add: ops_within_def)
  obtain r t where t: "runC (start_notify B) s = (r, t)" by fastforce
  have st: "ops_within P s t" using within_subscribe(1) [where P = P and s = s and B = B] assms(1) t by simp
  have stop: "ops_within P v (snd (runC (stop_notify B) v))" for v
    using within_subscribe(2) [where P = P and B = B] assms(2) by simp
  show ?thesis
  proof (cases r)
    case (Inl e)
    then show ?thesis using t st cl ops_within_trans by (auto simp: with_notify_def)
  next
    case (Inr u)
    then have "ops_within P t (snd (body t)) \<or> Q" using assms(3) t by simp
    moreover have "snd (with_notify B cl body s) = snd (runC (stop_notify B) (cl (snd (body t))))"
      using Inr t by (simp add: with_notify_def Let_def case_prod_unfold)
    ultimately show ?thesis using st cl stop ops_within_trans by metis
  qed
qed

lemma within_data: "P (WriteChar CHAR_DATA d) \<Longrightarrow> ops_within P s (snd (runC (write_secure_data B d) s))"
  by (auto simp: runC_def write_secure_data_def seqM_def bindM_def require_connected_def bleak_call_def Let_def
      ops_within_def requireR_def split: prod.splits sum.splits)

lemma be_bytes_append: "be_bytes (k + m) n = be_bytes k (n div 256 ^ m) @ be_bytes m n"
  by (induction m arbitrary: n) (simp_all flip: div_mult2_eq)

lemma be_bytes_0: "be_bytes k 0 = replicate k 0"
  by (induction k) (simp_all add: replicate_append_same)

text \<open>The wire of a sequence number below \<open>2 ^ 32\<close> starts with four zero bytes, unlike any frame magic.\<close>

lemma be_bytes_8_small:
  assumes "n < 256 ^ 4"
  shows "take 4 (be_bytes 8 n) = [0, 0, 0, 0]"
proof -
  have "be_bytes 8 n = be_bytes 4 0 @ be_bytes 4 n" using be_bytes_append [of 4 4 n] assms by simp
  moreover have "replicate 4 (0 :: byte) = [0, 0, 0, 0]" by (simp add: replicate_eqI eval_nat_numeral)
  ultimately show ?thesis by (simp add: be_bytes_0)
qed

lemma channel_wire_seq:
  "channel_encrypt C iv ch p mt = (Inr w, ch') \<Longrightarrow> wire_seq w = ch_send_seq ch"
  by (auto simp: channel_encrypt_Inr wire_seq_def nat_less_iff)

section \<open>Properties\<close>

text \<open>
  The Phase 3 experiment works end to end: over a working link, with a Peripheral that decapsulates
  the ciphertext, derives the session key and answers START3 with the expected plaintext encrypted
  in its own role, the Central returns that plaintext; so does the run that replays the accepted
  frame, which the channel refuses.
\<close>

theorem phase3_runner_end_to_end:
  assumes "live_link B pk" and "bc_client c \<noteq> None" and "kem_laws C" and "hkdf_laws C" and "aead_laws C"
    and "kem_keypair C seed = (pk, sk)" and "length sid = SESSION_ID_SIZE" and "neg \<in> {None, Some ''replay''}"
    and "SecureChannel_init (derive_session_key C (kem_decap C sk (fst (encapsulate C r pk)))) (Some sid)
           (Some PERIPHERAL_ROLE) = Inr peer"
    and "length iv = GCM_IV_SIZE" and "channel_encrypt C iv peer PHASE3_EXPECTED_PLAINTEXT MSG_TYPE_DATA = (Inr w, peer')"
    and "\<And>ops. bl_queue B ops = [w]"
  shows "\<exists>s'. run_phase3_secure B C r sid neg (new_runner c) =
    (Inr \<lparr> r3_plaintext = PHASE3_EXPECTED_PLAINTEXT, r3_wire_size = length w \<rparr>, s')"
proof -
  obtain ct ss where enc: "encapsulate C r pk = (ct, ss)" by fastforce
  note kem = kem_lawsD [OF assms(3,6) enc]
  let ?k = "derive_session_key C ss"
  have "length ?k = SESSION_KEY_SIZE" using length_hkdf_derive [OF assms(4)] by (simp add: derive_session_key_def)
  then obtain ch where ch: "SecureChannel_init ?k (Some sid) (Some CENTRAL_ROLE) = Inr ch"
    by (simp add: SecureChannel_init_Inr)
  have opened: "phase3_open C neg ?k sid ch w = Inr \<lparr> r3_plaintext = PHASE3_EXPECTED_PLAINTEXT, r3_wire_size = length w \<rparr>"
    using phase3_open_honest [OF assms(5) ch _ assms(10,11,8)] assms(9) enc kem(4) by simp
  let ?s = "new_runner c"
  have con: "bc_client (rn_client ?s) \<noteq> None" using assms(2) by (simp add: new_runner_def)
  obtain u where u: "runC (start_notify B) ?s = (Inr (), u)" "bc_client (rn_client u) \<noteq> None" "rn_taken u = 0"
    using live_start [OF assms(1) con] by (auto simp: new_runner_def)
  let ?u1 = "did [ReadChar CHAR_PUBKEY] u"
  have c1: "bc_client (rn_client ?u1) \<noteq> None" using u(2) by simp
  obtain ws where ws: "runC (write_fragmented_ciphertext B ct) ?u1
      = (Inr (length ws), did (map (WriteChar CHAR_CIPHERTEXT) ws) ?u1)"
    using live_ciphertext [OF assms(1) c1 kem(2)] by blast
  have neg: "case neg of None \<Rightarrow> True | Some t \<Rightarrow> t \<in> set PHASE3_NEGATIVE_MODES"
    using assms(8) by (auto simp: PHASE3_NEGATIVE_MODES_def)
  have req: "require_client B ?s = (Inr (), ?s)"
    using live_connected [OF assms(1) con] by (simp add: require_client_def)
  show ?thesis
    using u enc kem ch neg opened assms(7,12) live_read [OF assms(1) u(2)] ws
      live_control [OF assms(1), of "did (map (WriteChar CHAR_CIPHERTEXT) ws) ?u1" "PHASE3_START_MAGIC @ sid"]
    by (simp add: run_phase3_secure_def req with_notify_def seqM_def bindM_def needM_apply
        Let_def generate_session_id_def live_take del: bindM_Inr)
qed

text \<open>A concrete peer: the runs below are exercised on it.\<close>

definition demo_link :: "bytes list \<Rightarrow> bleak" where
  "demo_link q = \<lparr> bl_scan = (\<lambda>_. None),
     bl_io = (\<lambda>ops. Inr (if ops \<noteq> [] \<and> last ops = ReadChar CHAR_PUBKEY then replicate 1184 3 else [])),
     bl_connected = (\<lambda>_ _. True), bl_mtu = (\<lambda>_ _. 247), bl_polls = (\<lambda>_. []), bl_queue = (\<lambda>_. q) \<rparr>"

lemma demo_link_live: "live_link (demo_link q) (replicate 1184 3)" and demo_link_queue [simp]: "bl_queue (demo_link q) ops = q"
  by (simp_all add: live_link_def demo_link_def)

text \<open>A link to a Peripheral that answers what it is sent.\<close>

definition reactive_link :: "(gatt_op list \<Rightarrow> bytes list) \<Rightarrow> bleak" where
  "reactive_link q = (demo_link [])\<lparr> bl_queue := q \<rparr>"

lemma reactive_link_live: "live_link (reactive_link q) (replicate 1184 3)"
  by (simp add: live_link_def demo_link_def reactive_link_def)

lemma reactive_link_queue [simp]: "bl_queue (reactive_link q) = q"
  by (simp add: reactive_link_def)

definition demo_client :: ble_client where
  "demo_client = (BLECentralClient_init [])\<lparr> bc_client := Some 0 \<rparr>"

lemma demo_client_on [simp]: "bc_client demo_client = Some 0"
  by (simp add: demo_client_def)

lemma demo_client_fresh: "list_all (\<lambda>x. \<not> is_write x) (bc_ops demo_client)"
  by (simp add: demo_client_def BLECentralClient_init_def)

theorem phase3_runner_end_to_end_witness:
  "\<exists>w s'. run_phase3_secure (demo_link [w]) demo_crypto 5 (replicate 16 1) (Some ''replay'') (new_runner demo_client) =
     (Inr \<lparr> r3_plaintext = PHASE3_EXPECTED_PLAINTEXT, r3_wire_size = length w \<rparr>, s')"
proof -
  let ?k = "derive_session_key demo_crypto (kem_decap demo_crypto (replicate 2400 3) (fst (encapsulate demo_crypto 5 (replicate 1184 3))))"
  have "length ?k = SESSION_KEY_SIZE"
    using length_hkdf_derive [OF demo_hkdf_laws] by (simp add: derive_session_key_def)
  then obtain peer where peer: "SecureChannel_init ?k (Some (replicate 16 1)) (Some PERIPHERAL_ROLE) = Inr peer"
    by (simp add: SecureChannel_init_Inr)
  then have "ch_send_seq peer = 0" by (auto simp: SecureChannel_init_Inr)
  then obtain w p' where w: "channel_encrypt demo_crypto (replicate 12 1) peer PHASE3_EXPECTED_PLAINTEXT MSG_TYPE_DATA = (Inr w, p')"
    by (simp add: channel_encrypt_Inr)
  show ?thesis
    using phase3_runner_end_to_end [OF demo_link_live _ demo_kem_laws demo_hkdf_laws demo_aead_laws demo_keypair _ _ peer _ w,
        of demo_client "Some ''replay''" "[w]"] by auto
qed

end
