(* ===== verification/Phase5_Runner.thy ===== *)
theory Phase5_Runner
  imports Runner
begin

text \<open>
  \<open>src/central/phase5_auth.py\<close>: the Central's run of the v0.5 authenticated handshake over GATT, with
  its negative tests, cut into the stages of the coroutine.
\<close>

section \<open>Helpers (phase5\_auth.py)\<close>

definition PHASE5_EXPECTED_PLAINTEXT :: bytes where "PHASE5_EXPECTED_PLAINTEXT = ascii ''PQ-BLE SECURE CHANNEL''"

definition PHASE5_EXPECTED_WIRE_SIZE :: nat where
  "PHASE5_EXPECTED_WIRE_SIZE = length PHASE5_EXPECTED_PLAINTEXT + SECURE_CHANNEL_OVERHEAD"

definition PHASE5_NEGATIVE_MODES :: "string list" where
  "PHASE5_NEGATIVE_MODES = [''finished-c'', ''finished-p'', ''transcript'']"

record phase5_result =
  r5_plaintext :: bytes
  r5_wire_size :: nat
  r5_sas :: string

text \<open>The user: a callback that gets the SAS text, or a line typed at the console.\<close>

datatype sas5_prompt = Sas5Callback "string \<Rightarrow> bool result" | Sas5Console "string \<Rightarrow> string"

definition confirm_sas :: "sas5_prompt \<Rightarrow> string \<Rightarrow> bool result" where
  "confirm_sas ui sas =
     (case ui of
        Sas5Callback f \<Rightarrow> f sas
      | Sas5Console user \<Rightarrow> Inr (map latin1_lower (py_strip (user sas)) \<in> {''y'', ''yes''}))"

definition tamper_finished_copy :: "bytes \<Rightarrow> bytes result" where
  "tamper_finished_copy value =
     (if length value \<noteq> FINISHED_SIZE then Inl (ValueError ''FINISHED value must be exactly 32 bytes'')
      else Inr (flip_last value))"

definition mismatched_local_session_id :: "bytes \<Rightarrow> bytes result" where
  "mismatched_local_session_id session_id =
     (if length session_id \<noteq> SESSION_ID_SIZE then Inl (ValueError ''session_id must be exactly 16 bytes'')
      else Inr (flip_first session_id))"

definition negative_rejection_message :: "string option \<Rightarrow> string result" where
  "negative_rejection_message negative_test =
     (if negative_test = Some ''finished-c''
      then Inr ''NEGATIVE TEST PASS: tampered FINISHED_C rejected by Peripheral''
      else if negative_test = Some ''transcript''
      then Inr ''NEGATIVE TEST PASS: transcript-bound FINISHED_C rejected by Peripheral''
      else Inl (ValueError ''no Peripheral rejection message''))"

abbreviation corrupts_finished_c :: "string option \<Rightarrow> bool" where
  "corrupts_finished_c negative_test \<equiv> negative_test \<in> {Some ''finished-c'', Some ''transcript''}"

section \<open>The stages of run\_phase5\_auth\_pq\<close>

definition phase5_sensitive :: "string list" where
  "phase5_sensitive = [''shared_secret_buffer'', ''application_key_buffer'', ''finished_c_buffer'',
     ''expected_finished_p_buffer'']"

text \<open>Public key, encapsulation, transcript and key schedule; the result is the ciphertext, session id and SAS.\<close>

definition phase5_prepare ::
  "bleak \<Rightarrow> third_party \<Rightarrow> nat \<Rightarrow> bytes \<Rightarrow> string option \<Rightarrow> (runner, bytes \<times> bytes \<times> string) meth" where
  "phase5_prepare B C r urandom negative_test =
     bindM (runC (read_fragmented_public_key B)) (\<lambda>public_key.
     seqM (needM (length public_key = PK_SIZE) (ProtocolError ''Public key size mismatch'')) (
     let (ciphertext, shared_secret) = encapsulate C r public_key
     in seqM (setM (set_buf ''shared_secret_buffer'' shared_secret)) (
     seqM (needM (length ciphertext = CT_SIZE) (ProtocolError ''Ciphertext size mismatch'')) (
     seqM (needM (length shared_secret = SS_SIZE) (ProtocolError ''Shared secret size mismatch'')) (
     let session_id = generate_session_id urandom
     in seqM (needM (length session_id = SESSION_ID_SIZE) (ProtocolError ''Invalid generated session_id length'')) (
     bindM (liftR (if negative_test = Some ''transcript'' then mismatched_local_session_id session_id
                   else Inr session_id)) (\<lambda>local_sid.
     bindM (liftR (compute_phase5_transcript_hash local_sid public_key ciphertext)) (\<lambda>transcript_hash.
     bindM (liftR (derive_phase5_keys C shared_secret transcript_hash)) (\<lambda>keys.
     seqM (setM (wipe_buf ''shared_secret_buffer'')) (
     bindM (liftR (bindR (compute_phase5_sas (k5_sas keys) transcript_hash) format_phase5_sas)) (\<lambda>sas.
     seqM (setM (set_buf ''application_key_buffer'' (k5_application keys))) (
     bindM (liftR (compute_finished_c (k5_finished_c keys) transcript_hash)) (\<lambda>fc.
     seqM (setM (set_buf ''finished_c_buffer'' fc)) (
     bindM (liftR (compute_finished_p (k5_finished_p keys) transcript_hash)) (\<lambda>fp.
     seqM (setM (set_buf ''expected_finished_p_buffer'' fp)) (
     retM (ciphertext, session_id, sas)))))))))))))))))"

definition is_state_or_value :: "exn \<Rightarrow> bool" where
  "is_state_or_value e \<longleftrightarrow> is_ValueError e \<or> (\<exists>m. e = Phase5StateError m)"

definition phase5_start :: "bleak \<Rightarrow> bytes \<Rightarrow> bytes \<Rightarrow> (runner, unit) meth" where
  "phase5_start B ciphertext session_id =
     bindM (runC (write_fragmented_ciphertext B ciphertext)) (\<lambda>_.
     bindM (machineM (sm5_start session_id)) (\<lambda>start.
     seqM (runC (send_control B start)) (
     bindM (take_notification B (ProtocolError ''Timed out waiting for READY_FOR_SAS'')) (\<lambda>raw_ready.
     catchM is_state_or_value (\<lambda>e. liftR (Inl (ProtocolError ''Invalid READY_FOR_SAS''))) (
       bindM (liftR (parse_phase5_frame raw_ready)) (\<lambda>ready.
       seqM (needM (f5_subtype ready \<noteq> PHASE5_ERROR) (Phase5StateError ''Peripheral rejected Phase 5 start'')) (
       bindM (machineM (sm5_receive_ready_for_sas ready)) (\<lambda>_. retM ()))))))))"

definition phase5_confirm :: "bleak \<Rightarrow> string option \<Rightarrow> sas5_prompt \<Rightarrow> string \<Rightarrow> (runner, unit) meth" where
  "phase5_confirm B negative_test ui sas =
     bindM (liftR (confirm_sas ui sas)) (\<lambda>confirmed.
     if \<not> confirmed
     then bindM (machineM sm5_reject_sas) (\<lambda>_.
          liftR (Inl (if negative_test = Some ''transcript''
                      then NegativeTestPassed ''NEGATIVE TEST PASS: transcript mismatch detected by SAS''
                      else ProtocolError ''SAS rejected; FINISHED and application data were not sent'')))
     else bindM (readM (\<lambda>s. let fc = rn_buf s ''finished_c_buffer''
                           in if negative_test = Some ''finished-c'' then tamper_finished_copy fc else Inr fc)) (\<lambda>fc.
          bindM (machineM (sm5_confirm_sas fc)) (\<lambda>finished_c_frame.
          seqM (runC (send_control B finished_c_frame)) (
          setM (wipe_buf ''finished_c_buffer'')))))"

text \<open>What a negative test makes of the answer to a corrupted FINISHED\_C: always an exception.\<close>

definition phase5_rejection :: "string option \<Rightarrow> bytes \<Rightarrow> exn" where
  "phase5_rejection negative_test raw =
     (case parse_phase5_frame raw of
        Inl _ \<Rightarrow> ProtocolError ''NEGATIVE TEST FAIL: Peripheral returned malformed data after invalid FINISHED_C''
      | Inr rejection \<Rightarrow>
          if f5_subtype rejection = PHASE5_ERROR \<and> f5_payload rejection = [0x06]
          then (case negative_rejection_message negative_test of Inl e \<Rightarrow> e | Inr m \<Rightarrow> NegativeTestPassed m)
          else if f5_subtype rejection = PHASE5_ERROR
          then ProtocolError ''NEGATIVE TEST FAIL: Peripheral returned unexpected Phase 5 error status''
          else if f5_subtype rejection = PHASE5_FINISHED_P
          then ProtocolError (if negative_test = Some ''finished-c''
                              then ''NEGATIVE TEST FAIL: tampered FINISHED_C was accepted''
                              else ''NEGATIVE TEST FAIL: transcript mismatch was accepted'')
          else ProtocolError ''NEGATIVE TEST FAIL: unexpected Peripheral response to invalid FINISHED_C'')"

definition phase5_verify_p :: "string option \<Rightarrow> bytes \<Rightarrow> (runner, unit) meth" where
  "phase5_verify_p negative_test raw =
     catchM is_state_or_value
       (\<lambda>e s. if negative_test = Some ''finished-p'' \<and> rn_machine s = ABORTED
              then (Inl (NegativeTestPassed ''NEGATIVE TEST PASS: tampered FINISHED_P rejected by Central''), s)
              else (Inl (ProtocolError (exn_text e)), s))
       (bindM (liftR (parse_phase5_frame raw)) (\<lambda>frame.
        bindM (liftR (if negative_test = Some ''finished-p''
                      then if f5_subtype frame \<noteq> PHASE5_FINISHED_P
                           then Inl (Phase5StateError ''expected legitimate FINISHED_P before local tamper'')
                           else bindR (tamper_finished_copy (f5_payload frame)) (\<lambda>p.
                                Inr \<lparr> f5_subtype = f5_subtype frame, f5_payload = p \<rparr>)
                      else Inr frame)) (\<lambda>frame.
        bindM (readM (\<lambda>s. Inr (rn_buf s ''expected_finished_p_buffer''))) (\<lambda>expected.
        bindM (machineM (sm5_receive_finished_p frame expected)) (\<lambda>_. retM ())))))"

definition phase5_finished :: "bleak \<Rightarrow> string option \<Rightarrow> (runner, unit) meth" where
  "phase5_finished B negative_test =
     bindM (take_notification B
              (if corrupts_finished_c negative_test
               then (case negative_rejection_message negative_test of Inl e \<Rightarrow> e | Inr m \<Rightarrow> NegativeTestPassed m)
               else ProtocolError ''Timed out waiting for FINISHED_P'')) (\<lambda>raw.
     if corrupts_finished_c negative_test then liftR (Inl (phase5_rejection negative_test raw))
     else seqM (phase5_verify_p negative_test raw) (
          seqM (needM (negative_test \<noteq> Some ''finished-p'')
                  (ProtocolError ''NEGATIVE TEST FAIL: tampered FINISHED_P was accepted'')) (
          setM (wipe_buf ''expected_finished_p_buffer''))))"

text \<open>The notification after DATA\_REQUEST: an error frame, or the one authenticated message.\<close>

definition phase5_open :: "third_party \<Rightarrow> secure_channel \<Rightarrow> bytes \<Rightarrow> bytes result" where
  "phase5_open C secure_channel raw =
     bindR (if take 4 raw = ascii ''PQS5''
            then bindR (parse_phase5_frame raw) (\<lambda>_. Inl (ProtocolError ''Peripheral error while activating data''))
            else Inr ()) (\<lambda>_.
     bindR (requireR (length raw = PHASE5_EXPECTED_WIRE_SIZE)
              (ProtocolError ''Unexpected authenticated secure-wire size'')) (\<lambda>_.
     bindR (case fst (channel_decrypt C MSG_TYPE_DATA secure_channel raw) of
              Inl e \<Rightarrow> Inl (if e = InvalidTag \<or> is_ValueError e
                            then ProtocolError ''AES-256-GCM authentication failed'' else e)
            | Inr p \<Rightarrow> Inr p) (\<lambda>plaintext.
     bindR (requireR (plaintext = PHASE5_EXPECTED_PLAINTEXT) (ProtocolError ''Authenticated plaintext mismatch'')) (\<lambda>_.
     Inr plaintext))))"

definition phase5_data :: "bleak \<Rightarrow> third_party \<Rightarrow> bytes \<Rightarrow> string \<Rightarrow> (runner, phase5_result) meth" where
  "phase5_data B C session_id sas =
     bindM (readM (\<lambda>s. SecureChannel_init (rn_buf s ''application_key_buffer'') (Some session_id) (Some CENTRAL_ROLE)))
       (\<lambda>secure_channel.
     seqM (setM (wipe_buf ''application_key_buffer'')) (
     bindM (machineM sm5_request_application_data) (\<lambda>request.
     seqM (runC (send_control B request)) (
     bindM (take_notification B (ProtocolError ''Timed out waiting for authenticated AES data'')) (\<lambda>raw.
     bindM (liftR (phase5_open C secure_channel raw)) (\<lambda>plaintext.
     bindM (machineM sm5_complete_application_data) (\<lambda>_.
     retM \<lparr> r5_plaintext = plaintext, r5_wire_size = length raw, r5_sas = sas \<rparr>)))))))"

definition run_phase5_auth_pq ::
  "bleak \<Rightarrow> third_party \<Rightarrow> nat \<Rightarrow> bytes \<Rightarrow> sas5_prompt \<Rightarrow> string option \<Rightarrow> (runner, phase5_result) meth" where
  "run_phase5_auth_pq B C r urandom ui negative_test =
     seqM (require_client B) (
     seqM (needM (case negative_test of None \<Rightarrow> True | Some t \<Rightarrow> t \<in> set PHASE5_NEGATIVE_MODES)
             (ProtocolError ''Unknown Phase 5 negative test'')) (
     with_notify B (wipe_bufs phase5_sensitive) (
     bindM (phase5_prepare B C r urandom negative_test) (\<lambda>(ciphertext, session_id, sas).
     seqM (phase5_start B ciphertext session_id) (
     seqM (phase5_confirm B negative_test ui sas) (
     seqM (phase5_finished B negative_test) (
     phase5_data B C session_id sas)))))))"

section \<open>Lemmas\<close>

subsection \<open>The stages of a Phase 5 run\<close>

text \<open>The operations allowed before the user confirms: no control write but START5, no application data.\<close>

definition start5_only :: "bytes \<Rightarrow> gatt_op \<Rightarrow> bool" where
  "start5_only session_id p \<longleftrightarrow> (\<forall>d. p = WriteChar CHAR_CONTROL d \<longrightarrow> d = PHASE5_START_MAGIC @ session_id)
     \<and> (\<forall>d. p \<noteq> WriteChar CHAR_DATA d)"

lemma start5_only_simps [simp]:
  "start5_only sid (WriteChar CHAR_CIPHERTEXT w)" "start5_only sid StartNotify" "start5_only sid StopNotify"
  "start5_only sid AwaitNotify" "start5_only sid (ReadChar ch)"
  "start5_only sid (WriteChar CHAR_CONTROL (PHASE5_START_MAGIC @ sid))"
  by (simp_all add: start5_only_def)

lemma phase5_prepare_within: "ops_within (start5_only sid) s (snd (phase5_prepare B C r u neg s))"
  unfolding phase5_prepare_def Let_def case_prod_unfold by (intro within_intros) simp_all

lemma phase5_prepare_Inr:
  assumes "phase5_prepare B C r u neg s = (Inr (ct, sid, sas), t)"
  shows "sid = generate_session_id u \<and> length sid = SESSION_ID_SIZE \<and> rn_taken t = rn_taken s
    \<and> (\<exists>pk ss lsid th keys fp. encapsulate C r pk = (ct, ss) \<and> (neg \<noteq> Some ''transcript'' \<longrightarrow> lsid = sid)
       \<and> compute_phase5_transcript_hash lsid pk ct = Inr th \<and> derive_phase5_keys C ss th = Inr keys
       \<and> bindR (compute_phase5_sas (k5_sas keys) th) format_phase5_sas = Inr sas
       \<and> compute_finished_p (k5_finished_p keys) th = Inr fp
       \<and> rn_buf t ''application_key_buffer'' = k5_application keys \<and> rn_buf t ''expected_finished_p_buffer'' = fp)"
  using assms
  by (clarsimp simp: phase5_prepare_def Let_def case_prod_unfold needM_apply runC_Inr buf_simps split: if_splits)
    (metis fst_conv prod.collapse)+

lemma phase5_start_within: "ops_within (start5_only sid) s (snd (phase5_start B ct sid s))"
  unfolding phase5_start_def
proof (intro within_bind_value within_intros)
  fix start s t
  assume "machineM (sm5_start sid) s = (Inr start, t)"
  then have "start = PHASE5_START_MAGIC @ sid"
    by (auto simp: machineM_def sm5_start_def build_start5_def split: prod.splits sum.splits)
  then show "start5_only sid (WriteChar CHAR_CONTROL start)" by simp
qed simp_all

lemma phase5_start_Inr:
  "phase5_start B ct sid s = (Inr (), t) \<Longrightarrow> rn_taken t = rn_taken s + 1 \<and> rn_buf t = rn_buf s"
  by (auto simp: phase5_start_def stage_Inr Let_def)

lemma phase5_confirm_Inr:
  "phase5_confirm B neg ui sas s = (Inr (), t) \<Longrightarrow> confirm_sas ui sas = Inr True \<and> rn_taken t = rn_taken s
     \<and> rn_buf t ''application_key_buffer'' = rn_buf s ''application_key_buffer''
     \<and> rn_buf t ''expected_finished_p_buffer'' = rn_buf s ''expected_finished_p_buffer''"
  by (auto simp: phase5_confirm_def stage_Inr Let_def buf_simps split: if_splits)

lemma phase5_confirm_refused:
  "confirm_sas ui sas \<noteq> Inr True \<Longrightarrow> ops_within P s (snd (phase5_confirm B neg ui sas s)) \<and>
     (\<exists>e. fst (phase5_confirm B neg ui sas s) = Inl e)"
  by (cases "confirm_sas ui sas")
    (auto simp: phase5_confirm_def bindM_def machineM_def ops_within_def split: prod.splits sum.splits)

lemma phase5_verify_p_Inr:
  assumes "phase5_verify_p neg raw s = (Inr (), t)" and "neg \<noteq> Some ''finished-p''"
  shows "rn_taken t = rn_taken s \<and> rn_buf t = rn_buf s
    \<and> raw = frame_wire PHASE5_FRAME_MAGIC PHASE5_FRAME_VERSION PHASE5_FINISHED_P (rn_buf s ''expected_finished_p_buffer'')"
proof -
  have "\<exists>f m u. parse_phase5_frame raw = Inr f
      \<and> sm5_receive_finished_p f (rn_buf s ''expected_finished_p_buffer'') (rn_machine s) = (Inr u, m)
      \<and> t = s\<lparr> rn_machine := m \<rparr>"
    using assms by (auto simp: phase5_verify_p_def catchM_raise_Inr stage_Inr)
  then obtain f where f: "parse_phase5_frame raw = Inr f" "f5_subtype f = PHASE5_FINISHED_P"
    "f5_payload f = rn_buf s ''expected_finished_p_buffer''" "rn_taken t = rn_taken s" "rn_buf t = rn_buf s"
    by (auto simp: sm5_receive_finished_p_def sm5_require_def verify_finished_def split: if_splits)
  then show ?thesis using pqs5.parse_Inr [OF f(1)] by simp
qed

lemma phase5_finished_Inr:
  assumes "phase5_finished B neg s = (Inr (), t)"
  shows "neg \<notin> set (map Some PHASE5_NEGATIVE_MODES) \<and> rn_taken t = rn_taken s + 1
    \<and> rn_buf t ''application_key_buffer'' = rn_buf s ''application_key_buffer''
    \<and> (\<exists>ops. rn_taken s < length (bl_queue B ops) \<and> bl_queue B ops ! rn_taken s
        = frame_wire PHASE5_FRAME_MAGIC PHASE5_FRAME_VERSION PHASE5_FINISHED_P (rn_buf s ''expected_finished_p_buffer''))"
proof -
  have neg: "neg \<notin> set (map Some PHASE5_NEGATIVE_MODES)"
    using assms by (auto simp: phase5_finished_def needM_Inr PHASE5_NEGATIVE_MODES_def split: if_splits)
  then have nfp: "neg \<noteq> Some ''finished-p''" and nc: "\<not> corrupts_finished_c neg" by (auto simp: PHASE5_NEGATIVE_MODES_def)
  obtain raw u v where u: "take_notification B (ProtocolError ''Timed out waiting for FINISHED_P'') s = (Inr raw, u)"
    and v: "phase5_verify_p neg raw u = (Inr (), v)" and t: "t = wipe_buf ''expected_finished_p_buffer'' v"
    using assms nc by (auto simp: phase5_finished_def needM_Inr split: if_splits)
  show ?thesis
    using neg phase5_verify_p_Inr [OF v nfp] u t by (auto simp: take_notification_Inr Let_def buf_simps)
qed

lemma phase5_open_Inr:
  "phase5_open C ch raw = Inr p \<Longrightarrow> p = PHASE5_EXPECTED_PLAINTEXT \<and> length raw = PHASE5_EXPECTED_WIRE_SIZE
     \<and> (\<exists>ch'. channel_decrypt C MSG_TYPE_DATA ch raw = (Inr PHASE5_EXPECTED_PLAINTEXT, ch'))"
  by (cases "channel_decrypt C MSG_TYPE_DATA ch raw") (auto simp: phase5_open_def split: sum.splits)

lemma phase5_data_Inr:
  assumes "phase5_data B C sid sas s = (Inr res, t)"
  shows "r5_plaintext res = PHASE5_EXPECTED_PLAINTEXT \<and> r5_sas res = sas
    \<and> (\<exists>ops ch ch'. rn_taken s < length (bl_queue B ops)
        \<and> SecureChannel_init (rn_buf s ''application_key_buffer'') (Some sid) (Some CENTRAL_ROLE) = Inr ch
        \<and> channel_decrypt C MSG_TYPE_DATA ch (bl_queue B ops ! rn_taken s) = (Inr PHASE5_EXPECTED_PLAINTEXT, ch'))"
  using assms
  by (clarsimp simp: phase5_data_def stage_Inr Let_def) (metis phase5_open_Inr)

text \<open>A run that returns has passed every stage.\<close>

lemma run_phase5_Inr:
  assumes "run_phase5_auth_pq B C r u ui neg s = (Inr res, t)"
  shows "\<exists>s0 s1 s2 s3 s4 s5 ct sid sas. runC (start_notify B) s = (Inr (), s0)
    \<and> phase5_prepare B C r u neg s0 = (Inr (ct, sid, sas), s1) \<and> phase5_start B ct sid s1 = (Inr (), s2)
    \<and> phase5_confirm B neg ui sas s2 = (Inr (), s3) \<and> phase5_finished B neg s3 = (Inr (), s4)
    \<and> phase5_data B C sid sas s4 = (Inr res, s5) \<and> (\<forall>t. neg = Some t \<longrightarrow> t \<in> set PHASE5_NEGATIVE_MODES)"
  using assms
  by (clarsimp simp: run_phase5_auth_pq_def require_client_Inr needM_Inr with_notify_Inr split: option.splits)

lemma phase5_body_within:
  assumes "\<And>sas. confirm_sas ui sas \<noteq> Inr True"
  shows "ops_within (start5_only (generate_session_id u)) s (snd (bindM (phase5_prepare B C r u neg) (\<lambda>(ct, sid, sas).
     seqM (phase5_start B ct sid) (seqM (phase5_confirm B neg ui sas) (k sid sas))) s))"
proof (rule within_bind_value [OF phase5_prepare_within])
  fix x s t
  assume x: "phase5_prepare B C r u neg s = (Inr x, t)"
  obtain ct sid sas where xe: "x = (ct, sid, sas)" by (cases x)
  have sid: "sid = generate_session_id u" using phase5_prepare_Inr x xe by blast
  have "seqM (phase5_confirm B neg ui sas) (k sid sas) s' = (Inl e, snd (phase5_confirm B neg ui sas s'))"
    if "fst (phase5_confirm B neg ui sas s') = Inl e" for s' e
    using that by (cases "phase5_confirm B neg ui sas s'") (simp add: seqM_def bindM_def)
  then have "ops_within P s' (snd (seqM (phase5_confirm B neg ui sas) (k sid sas) s'))" for P s'
    using phase5_confirm_refused [OF assms] by (metis snd_conv)
  then have "ops_within (start5_only sid) t (snd (seqM (phase5_start B ct sid)
      (seqM (phase5_confirm B neg ui sas) (k sid sas)) t))"
    using phase5_start_within by (rule within_seqM [rotated])
  then show "ops_within (start5_only (generate_session_id u)) t (snd ((case x of (ct, sid, sas) \<Rightarrow>
      seqM (phase5_start B ct sid) (seqM (phase5_confirm B neg ui sas) (k sid sas))) t))"
    by (simp add: xe sid)
qed

subsection \<open>The honest Phase 5 peer\<close>

text \<open>What both ends compute from one key exchange: transcript hash, key schedule, SAS and the two MACs.\<close>

record session5 =
  s5_hash :: bytes
  s5_keys :: phase5_keys
  s5_sas :: string
  s5_fc :: bytes
  s5_fp :: bytes

definition session5_of :: "third_party \<Rightarrow> bytes \<Rightarrow> bytes \<Rightarrow> bytes \<Rightarrow> bytes \<Rightarrow> session5 \<Rightarrow> bool" where
  "session5_of C sid pk ct ss x \<longleftrightarrow> compute_phase5_transcript_hash sid pk ct = Inr (s5_hash x)
     \<and> derive_phase5_keys C ss (s5_hash x) = Inr (s5_keys x)
     \<and> bindR (compute_phase5_sas (k5_sas (s5_keys x)) (s5_hash x)) format_phase5_sas = Inr (s5_sas x)
     \<and> compute_finished_c (k5_finished_c (s5_keys x)) (s5_hash x) = Inr (s5_fc x)
     \<and> compute_finished_p (k5_finished_p (s5_keys x)) (s5_hash x) = Inr (s5_fp x)"

lemma session5_exists:
  assumes "hkdf_laws C" and "length sid = SESSION_ID_SIZE" and "length pk = PK_SIZE" and "length ct = CT_SIZE"
    and "length ss = SS_SIZE"
  obtains x where "session5_of C sid pk ct ss x"
proof -
  obtain th where th: "compute_phase5_transcript_hash sid pk ct = Inr th" "length th = 32"
    using assms by (auto simp: compute_phase5_transcript_hash_def build_phase5_transcript_Inr)
  obtain k where k: "derive_phase5_keys C ss th = Inr k" using assms th by (simp add: derive_phase5_keys_def Let_def)
  have len: "length (k5_sas k) = 32" "length (k5_finished_c k) = 32" "length (k5_finished_p k) = 32"
    using k hkdf_lawsD(1) [OF assms(1)] by (auto simp: derive_phase5_keys_def Let_def)
  obtain sas where "bindR (compute_phase5_sas (k5_sas k) th) format_phase5_sas = Inr sas"
    using len(1) th(2) by (simp add: compute_phase5_sas_def format_phase5_sas_def p5_require_size_def Let_def)
  moreover obtain fc where "compute_finished_c (k5_finished_c k) th = Inr fc"
    using len(2) th(2) by (simp add: compute_finished_c_def p5_compute_finished_def p5_require_size_def)
  moreover obtain fp where "compute_finished_p (k5_finished_p k) th = Inr fp"
    using len(3) th(2) by (simp add: compute_finished_p_def p5_compute_finished_def p5_require_size_def)
  ultimately show ?thesis
    using that [of "\<lparr> s5_hash = th, s5_keys = k, s5_sas = sas, s5_fc = fc, s5_fp = fp \<rparr>"] th(1) k by (simp add: session5_of_def)
qed

lemma p5_output_sizes:
  "compute_finished_c k th = Inr fc \<Longrightarrow> length fc = 32" "compute_finished_p k th = Inr fp \<Longrightarrow> length fp = 32"
  "hkdf_laws C \<Longrightarrow> derive_phase5_keys C ss th = Inr ks \<Longrightarrow> length (k5_application ks) = 32"
  using hkdf_lawsD(1) [of C]
  by (auto simp: compute_finished_c_def compute_finished_p_def p5_compute_finished_def derive_phase5_keys_def Let_def)

lemma session5_sizes:
  assumes "hkdf_laws C" and "session5_of C sid pk ct ss x"
  shows "length (s5_fc x) = 32" "length (s5_fp x) = 32" "length (k5_application (s5_keys x)) = 32"
  using assms p5_output_sizes unfolding session5_of_def by blast+

text \<open>
  An honest Peripheral, as a specification of the other end of the link: a state machine over the
  Central's GATT operations, whose output is all the notifications it has sent so far. It collects the
  ciphertext fragments; on START5 it reassembles and decapsulates what it received and computes the
  session with the session id it was sent; on FINISHED\_C with this session's MAC, and only then, it
  opens its channels and sends FINISHED\_P; from then on \<open>answer\<close> says what it notifies for each write.
  Everything else is answered with an error frame.
\<close>

type_synonym channels = "secure_channel \<times> secure_channel"

record peer5 =
  pe_fragments :: "bytes list"
  pe_session :: "(bytes \<times> session5) option"
  pe_channels :: "channels option"
  pe_out :: "bytes list"

definition peer5_init :: peer5 where
  "peer5_init = \<lparr> pe_fragments = [], pe_session = None, pe_channels = None, pe_out = [] \<rparr>"

definition wire5 :: "int \<Rightarrow> bytes \<Rightarrow> bytes" where
  "wire5 t p = frame_wire PHASE5_FRAME_MAGIC PHASE5_FRAME_VERSION t p"

definition session5_for :: "third_party \<Rightarrow> bytes \<Rightarrow> bytes \<Rightarrow> bytes \<Rightarrow> bytes \<Rightarrow> session5 result" where
  "session5_for C sid pk ct ss =
     bindR (compute_phase5_transcript_hash sid pk ct) (\<lambda>th.
     bindR (derive_phase5_keys C ss th) (\<lambda>k.
     bindR (bindR (compute_phase5_sas (k5_sas k) th) format_phase5_sas) (\<lambda>sas.
     bindR (compute_finished_c (k5_finished_c k) th) (\<lambda>fc.
     bindR (compute_finished_p (k5_finished_p k) th) (\<lambda>fp.
     Inr \<lparr> s5_hash = th, s5_keys = k, s5_sas = sas, s5_fc = fc, s5_fp = fp \<rparr>)))))"

definition peer5_say :: "bytes \<Rightarrow> peer5 \<Rightarrow> peer5" where
  "peer5_say w p = p\<lparr> pe_out := pe_out p @ [w] \<rparr>"

definition peer5_start :: "third_party \<Rightarrow> bytes \<Rightarrow> bytes \<Rightarrow> bytes \<Rightarrow> peer5 \<Rightarrow> peer5" where
  "peer5_start C pk sk d p =
     (let sid = drop (length PHASE5_START_MAGIC) d
      in case (if take (length PHASE5_START_MAGIC) d = PHASE5_START_MAGIC
               then bindR (reassemble_data (pe_fragments p)) (\<lambda>ct. session5_for C sid pk ct (kem_decap C sk ct))
               else Inl (ValueError ''START5 expected'')) of
           Inl e \<Rightarrow> peer5_say (wire5 PHASE5_ERROR [4]) p
         | Inr x \<Rightarrow> peer5_say (wire5 PHASE5_READY_FOR_SAS []) (p\<lparr> pe_session := Some (sid, x) \<rparr>))"

definition peer5_finish :: "(bytes \<Rightarrow> session5 \<Rightarrow> channels result) \<Rightarrow> bytes \<Rightarrow> bytes \<times> session5 \<Rightarrow> peer5 \<Rightarrow> peer5" where
  "peer5_finish opens d z p =
     (if d \<noteq> wire5 PHASE5_FINISHED_C (s5_fc (snd z)) then peer5_say (wire5 PHASE5_ERROR [6]) p
      else case opens (fst z) (snd z) of
             Inl e \<Rightarrow> peer5_say (wire5 PHASE5_ERROR [5]) p
           | Inr chs \<Rightarrow> peer5_say (wire5 PHASE5_FINISHED_P (s5_fp (snd z))) (p\<lparr> pe_channels := Some chs \<rparr>))"

fun peer5_step ::
  "third_party \<Rightarrow> bytes \<Rightarrow> bytes \<Rightarrow> (bytes \<Rightarrow> session5 \<Rightarrow> channels result) \<Rightarrow> (gatt_char \<Rightarrow> bytes \<Rightarrow> channels \<Rightarrow> bytes \<times> channels)
   \<Rightarrow> peer5 \<Rightarrow> gatt_op \<Rightarrow> peer5" where
  "peer5_step C pk sk opens answer p (WriteChar ch d) =
     (case pe_channels p of
        Some chs \<Rightarrow> (let (w, chs) = answer ch d chs in peer5_say w (p\<lparr> pe_channels := Some chs \<rparr>))
      | None \<Rightarrow>
          if ch = CHAR_CIPHERTEXT then p\<lparr> pe_fragments := pe_fragments p @ [d] \<rparr>
          else if ch \<noteq> CHAR_CONTROL then peer5_say (wire5 PHASE5_ERROR [4]) p
          else case pe_session p of None \<Rightarrow> peer5_start C pk sk d p | Some z \<Rightarrow> peer5_finish opens d z p)"
| "peer5_step C pk sk opens answer p x = p"

definition peer5_run ::
  "third_party \<Rightarrow> bytes \<Rightarrow> bytes \<Rightarrow> (bytes \<Rightarrow> session5 \<Rightarrow> channels result) \<Rightarrow> (gatt_char \<Rightarrow> bytes \<Rightarrow> channels \<Rightarrow> bytes \<times> channels)
   \<Rightarrow> gatt_op list \<Rightarrow> peer5" where
  "peer5_run C pk sk opens answer ops = foldl (peer5_step C pk sk opens answer) peer5_init ops"

text \<open>The v0.5 Peripheral: one channel under the application key, and the message on DATA\_REQUEST.\<close>

definition opens5 :: "bytes \<Rightarrow> session5 \<Rightarrow> channels result" where
  "opens5 sid x = bindR (SecureChannel_init (k5_application (s5_keys x)) (Some sid) (Some PERIPHERAL_ROLE)) (\<lambda>ch. Inr (ch, ch))"

definition answer5 :: "third_party \<Rightarrow> bytes \<Rightarrow> gatt_char \<Rightarrow> bytes \<Rightarrow> channels \<Rightarrow> bytes \<times> channels" where
  "answer5 C iv ch d chs =
     (if ch = CHAR_CONTROL \<and> d = wire5 PHASE5_DATA_REQUEST []
      then case channel_encrypt C iv (snd chs) PHASE5_EXPECTED_PLAINTEXT MSG_TYPE_DATA of
             (Inl e, ch) \<Rightarrow> (wire5 PHASE5_ERROR [5], chs)
           | (Inr w, ch) \<Rightarrow> (w, (fst chs, ch))
      else (wire5 PHASE5_ERROR [4], chs))"

definition honest_peer5 :: "bleak \<Rightarrow> third_party \<Rightarrow> bytes \<Rightarrow> bytes \<Rightarrow> bytes \<Rightarrow> bool" where
  "honest_peer5 B C pk sk iv \<longleftrightarrow> (\<forall>ops. bl_queue B ops = pe_out (peer5_run C pk sk opens5 (answer5 C iv) ops))"

lemma session5_for_Inr: "session5_for C sid pk ct ss = Inr x \<longleftrightarrow> session5_of C sid pk ct ss x"
  by (cases x) (auto simp: session5_for_def session5_of_def)

lemma peer5_run_append: "peer5_run C pk sk opens answer (ops @ new) = foldl (peer5_step C pk sk opens answer) (peer5_run C pk sk opens answer ops) new"
  by (simp add: peer5_run_def)

lemma peer5_idle: "list_all (\<lambda>x. \<not> is_write x) ops \<Longrightarrow> foldl (peer5_step C pk sk opens answer) p ops = p"
proof (induction ops)
  case (Cons x ops)
  then show ?case by (cases x) simp_all
qed simp

lemma peer5_fragments:
  "pe_channels p = None \<Longrightarrow> foldl (peer5_step C pk sk opens answer) p (map (WriteChar CHAR_CIPHERTEXT) ws)
     = p\<lparr> pe_fragments := pe_fragments p @ ws \<rparr>"
  by (induction ws arbitrary: p) simp_all

text \<open>The handshake with the honest Peripheral, as its states after each write of the Central.\<close>

definition peer5_started :: "bytes list \<Rightarrow> bytes \<Rightarrow> session5 \<Rightarrow> peer5" where
  "peer5_started ws sid x = \<lparr> pe_fragments = ws, pe_session = Some (sid, x), pe_channels = None,
     pe_out = [wire5 PHASE5_READY_FOR_SAS []] \<rparr>"

definition peer5_opened :: "bytes list \<Rightarrow> bytes \<Rightarrow> session5 \<Rightarrow> channels \<Rightarrow> bytes list \<Rightarrow> peer5" where
  "peer5_opened ws sid x chs out = \<lparr> pe_fragments = ws, pe_session = Some (sid, x), pe_channels = Some chs,
     pe_out = wire5 PHASE5_READY_FOR_SAS [] # wire5 PHASE5_FINISHED_P (s5_fp x) # out \<rparr>"

lemma peer5_run_start:
  assumes "list_all (\<lambda>x. \<not> is_write x) ops" and "reassemble_data ws = Inr ct" and "session5_of C sid pk ct (kem_decap C sk ct) x"
  shows "peer5_run C pk sk opens answer (ops @ map (WriteChar CHAR_CIPHERTEXT) ws @ [WriteChar CHAR_CONTROL (PHASE5_START_MAGIC @ sid), AwaitNotify])
    = peer5_started ws sid x"
proof -
  have "foldl (peer5_step C pk sk opens answer) peer5_init (map (WriteChar CHAR_CIPHERTEXT) ws) = peer5_init\<lparr> pe_fragments := ws \<rparr>"
    using peer5_fragments [of peer5_init] by (simp add: peer5_init_def)
  then show ?thesis
    using assms(2) peer5_idle [OF assms(1), of C pk sk opens answer peer5_init] assms(3) [folded session5_for_Inr]
    by (simp add: peer5_run_def peer5_start_def peer5_init_def peer5_say_def peer5_started_def Let_def)
qed

lemma peer5_step_finish:
  assumes "opens sid x = Inr chs"
  shows "peer5_step C pk sk opens answer (peer5_started ws sid x) (WriteChar CHAR_CONTROL (wire5 PHASE5_FINISHED_C (s5_fc x)))
    = peer5_opened ws sid x chs []"
  using assms by (simp add: peer5_started_def peer5_opened_def peer5_finish_def peer5_say_def)

lemma peer5_step_answer:
  "answer ch d chs = (w, chs') \<Longrightarrow> peer5_step C pk sk opens answer (peer5_opened ws sid x chs out) (WriteChar ch d)
     = peer5_opened ws sid x chs' (out @ [w])"
  by (simp add: peer5_opened_def peer5_say_def)

lemma live_phase5_prepare:
  assumes "live_link B pk" and "bc_client (rn_client s) \<noteq> None" and "encapsulate C r pk = (ct, ss)"
    and "length pk = PK_SIZE" "length ct = CT_SIZE" "length ss = SS_SIZE" "length sid = SESSION_ID_SIZE"
    and "session5_of C sid pk ct ss x"
  shows "\<exists>t. phase5_prepare B C r sid None s = (Inr (ct, sid, s5_sas x), t) \<and> bc_client (rn_client t) \<noteq> None
    \<and> rn_taken t = rn_taken s \<and> rn_machine t = rn_machine s
    \<and> bc_ops (rn_client t) = bc_ops (rn_client s) @ [ReadChar CHAR_PUBKEY]
    \<and> rn_buf t ''application_key_buffer'' = k5_application (s5_keys x)
    \<and> rn_buf t ''finished_c_buffer'' = s5_fc x \<and> rn_buf t ''expected_finished_p_buffer'' = s5_fp x"
  using assms live_read [OF assms(1,2)]
  by (simp add: phase5_prepare_def session5_of_def Let_def needM_apply seqM_def bindM_def generate_session_id_def
      buf_simps del: bindM_Inr bindR_eq_Inr) (simp add: set_buf_def wipe_buf_def)

lemma live_phase5_start:
  assumes "live_link B pk" and "bc_client (rn_client s) \<noteq> None" and "length ct = CT_SIZE" "length sid = SESSION_ID_SIZE"
    and "rn_machine s = EMPTY"
    and "\<And>ws. reassemble_data ws = Inr ct \<Longrightarrow> notified B (bc_ops (rn_client s) @ map (WriteChar CHAR_CIPHERTEXT) ws
           @ [WriteChar CHAR_CONTROL (PHASE5_START_MAGIC @ sid), AwaitNotify]) (rn_taken s) w"
    and "parse_phase5_frame w = Inr \<lparr> f5_subtype = PHASE5_READY_FOR_SAS, f5_payload = [] \<rparr>"
  shows "\<exists>t ws. phase5_start B ct sid s = (Inr (), t) \<and> bc_client (rn_client t) \<noteq> None
    \<and> rn_taken t = rn_taken s + 1 \<and> rn_machine t = WAIT_SAS_CONFIRM \<and> rn_buf t = rn_buf s \<and> reassemble_data ws = Inr ct
    \<and> bc_ops (rn_client t) = bc_ops (rn_client s) @ map (WriteChar CHAR_CIPHERTEXT) ws
        @ [WriteChar CHAR_CONTROL (PHASE5_START_MAGIC @ sid), AwaitNotify]"
proof -
  obtain ws where ws: "runC (write_fragmented_ciphertext B ct) s = (Inr (length ws), did (map (WriteChar CHAR_CIPHERTEXT) ws) s)"
    "reassemble_data ws = Inr ct" using live_ciphertext [OF assms(1-3)] by blast
  let ?s = "(did (map (WriteChar CHAR_CIPHERTEXT) ws) s)\<lparr> rn_machine := WAIT_READY_FOR_SAS \<rparr>"
  let ?u = "did [WriteChar CHAR_CONTROL (PHASE5_START_MAGIC @ sid)] ?s"
  have take: "take_notification B e ?u = (Inr w, (did [AwaitNotify] ?u)\<lparr> rn_taken := rn_taken s + 1 \<rparr>)" for e
    using live_notified [of B ?u w e] assms(6) [OF ws(2)] by simp
  show ?thesis
    using ws assms(2,4,5,7) take live_control [OF assms(1), of ?s "PHASE5_START_MAGIC @ sid"]
    by (intro exI [of _ "(did [AwaitNotify] ?u)\<lparr> rn_taken := rn_taken s + 1, rn_machine := WAIT_SAS_CONFIRM \<rparr>"] exI [of _ ws])
      (simp add: phase5_start_def bindM_def seqM_def catchM_def needM_apply machineM_def sm5_defs
        build_start5_def p5_require_size_def)
qed

lemma live_phase5_confirm:
  assumes "live_link B pk" and "bc_client (rn_client s) \<noteq> None" and "rn_machine s = WAIT_SAS_CONFIRM"
    and "confirm_sas ui sas = Inr True" and "length (rn_buf s ''finished_c_buffer'') = 32"
  shows "\<exists>t. phase5_confirm B None ui sas s = (Inr (), t) \<and> bc_client (rn_client t) \<noteq> None
    \<and> rn_taken t = rn_taken s \<and> rn_machine t = WAIT_FINISHED_P
    \<and> bc_ops (rn_client t) = bc_ops (rn_client s) @ [WriteChar CHAR_CONTROL
        (frame_wire PHASE5_FRAME_MAGIC PHASE5_FRAME_VERSION PHASE5_FINISHED_C (rn_buf s ''finished_c_buffer''))]
    \<and> rn_buf t = (rn_buf s)(''finished_c_buffer'' := replicate 32 0)"
proof -
  have w: "encode_phase5_frame PHASE5_FINISHED_C (rn_buf s ''finished_c_buffer'')
      = Inr (frame_wire PHASE5_FRAME_MAGIC PHASE5_FRAME_VERSION PHASE5_FINISHED_C (rn_buf s ''finished_c_buffer''))"
    using assms(5) by (simp add: pqs5.encode_Inr)
  let ?s = "s\<lparr> rn_machine := WAIT_FINISHED_P \<rparr>"
  show ?thesis
    using assms(2-5) w live_control [OF assms(1), of ?s]
    by (simp add: phase5_confirm_def bindM_def seqM_def machineM_def sm5_defs p5_require_size_def Let_def
        wipe_buf_def set_buf_def wipe_def)
qed

lemma live_phase5_finished:
  assumes "notified B (bc_ops (rn_client s) @ [AwaitNotify]) (rn_taken s) w" and "rn_machine s = WAIT_FINISHED_P"
    and "length (rn_buf s ''expected_finished_p_buffer'') = 32"
    and "parse_phase5_frame w = Inr \<lparr> f5_subtype = PHASE5_FINISHED_P, f5_payload = rn_buf s ''expected_finished_p_buffer'' \<rparr>"
  shows "\<exists>t. phase5_finished B None s = (Inr (), t) \<and> bc_client (rn_client t) = bc_client (rn_client s)
    \<and> rn_taken t = rn_taken s + 1 \<and> rn_machine t = AUTHENTICATED
    \<and> bc_ops (rn_client t) = bc_ops (rn_client s) @ [AwaitNotify]
    \<and> rn_buf t = (rn_buf s)(''expected_finished_p_buffer'' := replicate 32 0)"
  using assms(2-) live_notified [OF assms(1)]
  by (simp add: phase5_finished_def phase5_verify_p_def bindM_def seqM_def catchM_def needM_apply machineM_def
      sm5_defs verify_finished_def wipe_buf_def set_buf_def wipe_def)

lemma live_phase5_data:
  assumes "live_link B pk" and "bc_client (rn_client s) \<noteq> None" and "rn_machine s = AUTHENTICATED"
    and "notified B (bc_ops (rn_client s) @ [WriteChar CHAR_CONTROL
          (frame_wire PHASE5_FRAME_MAGIC PHASE5_FRAME_VERSION PHASE5_DATA_REQUEST []), AwaitNotify]) (rn_taken s) w"
    and "SecureChannel_init (rn_buf s ''application_key_buffer'') (Some sid) (Some CENTRAL_ROLE) = Inr ch"
    and "phase5_open C ch w = Inr p"
  shows "\<exists>t. phase5_data B C sid sas s
      = (Inr \<lparr> r5_plaintext = p, r5_wire_size = length w, r5_sas = sas \<rparr>, t) \<and> rn_machine t = COMPLETE"
proof -
  let ?req = "frame_wire PHASE5_FRAME_MAGIC PHASE5_FRAME_VERSION PHASE5_DATA_REQUEST []"
  have req: "encode_phase5_frame PHASE5_DATA_REQUEST [] = Inr ?req" by (simp add: pqs5.encode_Inr)
  let ?s = "(wipe_buf ''application_key_buffer'' s)\<lparr> rn_machine := WAIT_APPLICATION_DATA \<rparr>"
  let ?u = "did [WriteChar CHAR_CONTROL ?req] ?s"
  have "bc_client (rn_client ?s) \<noteq> None" using assms(2) by (simp add: wipe_buf_def set_buf_def)
  moreover have "take_notification B e ?u = (Inr w, (did [AwaitNotify] ?u)\<lparr> rn_taken := rn_taken s + 1 \<rparr>)" for e
    using live_notified [of B ?u w e] assms(4) by (simp add: wipe_buf_def set_buf_def)
  ultimately show ?thesis
    using assms(2,3,5,6) req live_control [OF assms(1), of ?s ?req]
    by (simp add: phase5_data_def bindM_def seqM_def machineM_def sm5_defs)
qed

lemma phase5_open_honest:
  assumes "aead_laws C" and "SecureChannel_init k (Some sid) (Some CENTRAL_ROLE) = Inr a"
    and "SecureChannel_init k (Some sid) (Some PERIPHERAL_ROLE) = Inr b" and "length iv = GCM_IV_SIZE"
    and "channel_encrypt C iv b PHASE5_EXPECTED_PLAINTEXT MSG_TYPE_DATA = (Inr w, b')"
  shows "phase5_open C a w = Inr PHASE5_EXPECTED_PLAINTEXT"
proof -
  have seq: "ch_last_recv_seq a < ch_send_seq b" and b0: "ch_send_seq b = 0"
    using assms(2,3) by (auto simp: SecureChannel_init_Inr)
  have "channel_decrypt C MSG_TYPE_DATA a w = (Inr PHASE5_EXPECTED_PLAINTEXT,
      a\<lparr> ch_last_recv_seq := ch_send_seq b, ch_recv_count := ch_recv_count a + 1 \<rparr>)"
    using channel_decrypt_encrypt [OF assms(1) role_channels_match(1) [OF assms(2,3)] _ assms(4) assms(5) seq] by simp
  moreover have "length w = PHASE5_EXPECTED_WIRE_SIZE"
    using channel_wire_length [OF assms(1) _ assms(4,5)] by (simp add: PHASE5_EXPECTED_WIRE_SIZE_def)
  moreover have "take 4 w = take 4 (be_bytes 8 0)" using assms(5) b0 by (auto simp: channel_encrypt_Inr)
  then have "take 4 w \<noteq> ascii ''PQS5''" by (simp add: be_bytes_numeral ascii_def)
  ultimately show ?thesis by (simp add: phase5_open_def)
qed

lemma parse_phase5_frame_wire:
  assumes "0 \<le> t" "t \<le> 255" "length p \<le> 65535"
  shows "parse_phase5_frame (frame_wire PHASE5_FRAME_MAGIC PHASE5_FRAME_VERSION t p) = Inr \<lparr> f5_subtype = t, f5_payload = p \<rparr>"
  using pqs5.parse_wire [of t p] assms by fastforce

text \<open>The handshake against the honest Peripheral: where the operations and both ends' states are after FINISHED\_P.\<close>

lemma honest_handshake5:
  assumes link: "live_link B pk" "bc_client (rn_client s1) \<noteq> None" and sizes: "length ct = CT_SIZE" "length sid = SESSION_ID_SIZE"
    and x: "session5_of C sid pk ct (kem_decap C sk ct) x" and B: "\<And>ops. bl_queue B ops = pe_out (peer5_run C pk sk opens answer ops)"
    and idle: "list_all (\<lambda>x. \<not> is_write x) (bc_ops (rn_client s1))" and s1: "rn_taken s1 = 0" "rn_machine s1 = EMPTY"
    and opens: "opens sid x = Inr chs"
    and fc: "rn_buf s1 ''finished_c_buffer'' = s5_fc x" "length (s5_fc x) = 32"
    and ui: "confirm_sas ui (s5_sas x) = Inr True"
  obtains s2 s3 ws where "phase5_start B ct sid s1 = (Inr (), s2)" and "phase5_confirm B None ui (s5_sas x) s2 = (Inr (), s3)"
    and "bc_client (rn_client s2) \<noteq> None" and "bc_client (rn_client s3) \<noteq> None" and "rn_taken s3 = 1" and "rn_machine s2 = WAIT_SAS_CONFIRM" and "rn_machine s3 = WAIT_FINISHED_P"
    and "rn_buf s2 = rn_buf s1" and "rn_buf s3 = (rn_buf s1)(''finished_c_buffer'' := replicate 32 0)"
    and "peer5_run C pk sk opens answer (bc_ops (rn_client s3)) = peer5_opened ws sid x chs []"
    and "notified B (bc_ops (rn_client s3) @ [AwaitNotify]) 1 (wire5 PHASE5_FINISHED_P (s5_fp x))"
proof -
  have "notified B (bc_ops (rn_client s1) @ map (WriteChar CHAR_CIPHERTEXT) ws @ [WriteChar CHAR_CONTROL (PHASE5_START_MAGIC @ sid), AwaitNotify])
      (rn_taken s1) (wire5 PHASE5_READY_FOR_SAS [])" if "reassemble_data ws = Inr ct" for ws
    using peer5_run_start [OF idle that x, of opens answer] B s1(1) by (simp add: notified_def peer5_started_def)
  then obtain s2 ws where s2: "phase5_start B ct sid s1 = (Inr (), s2)" "bc_client (rn_client s2) \<noteq> None" "rn_taken s2 = 1"
    "rn_machine s2 = WAIT_SAS_CONFIRM" "rn_buf s2 = rn_buf s1" "reassemble_data ws = Inr ct"
    "bc_ops (rn_client s2) = bc_ops (rn_client s1) @ map (WriteChar CHAR_CIPHERTEXT) ws @ [WriteChar CHAR_CONTROL (PHASE5_START_MAGIC @ sid), AwaitNotify]"
    using live_phase5_start [OF link sizes s1(2), of "wire5 PHASE5_READY_FOR_SAS []"] s1(1) by (auto simp: wire5_def parse_phase5_frame_wire)
  have p2: "peer5_run C pk sk opens answer (bc_ops (rn_client s2)) = peer5_started ws sid x"
    using peer5_run_start [OF idle s2(6) x] s2(7) by simp
  obtain s3 where s3: "phase5_confirm B None ui (s5_sas x) s2 = (Inr (), s3)" "bc_client (rn_client s3) \<noteq> None"
    "rn_taken s3 = 1" "rn_machine s3 = WAIT_FINISHED_P" "rn_buf s3 = (rn_buf s2)(''finished_c_buffer'' := replicate 32 0)"
    "bc_ops (rn_client s3) = bc_ops (rn_client s2) @ [WriteChar CHAR_CONTROL (wire5 PHASE5_FINISHED_C (s5_fc x))]"
    using live_phase5_confirm [OF link(1) s2(2,4) ui] s2 fc by (auto simp: wire5_def)
  have p3: "peer5_run C pk sk opens answer (bc_ops (rn_client s3)) = peer5_opened ws sid x chs []"
    using p2 s3(6) peer5_step_finish [of opens sid x chs C pk sk answer ws] opens by (simp add: peer5_run_append)
  moreover have "notified B (bc_ops (rn_client s3) @ [AwaitNotify]) 1 (wire5 PHASE5_FINISHED_P (s5_fp x))"
    using p3 B by (simp add: notified_def peer5_run_append) (simp add: peer5_opened_def)
  ultimately show thesis using that s2 s3 by simp
qed

lemma phase5_honest_run:
  assumes link: "live_link B pk" "bc_client c \<noteq> None" "list_all (\<lambda>x. \<not> is_write x) (bc_ops c)"
    and laws: "kem_laws C" "hkdf_laws C" "aead_laws C"
    and kem: "kem_keypair C seed = (pk, sk)" "encapsulate C r pk = (ct, ss)" and sid: "length sid = SESSION_ID_SIZE"
    and x: "session5_of C sid pk ct ss x" and ui: "confirm_sas ui (s5_sas x) = Inr True"
    and peer: "honest_peer5 B C pk sk iv" "length iv = GCM_IV_SIZE"
  shows "\<exists>n t. run_phase5_auth_pq B C r sid ui None (new_runner c)
    = (Inr \<lparr> r5_plaintext = PHASE5_EXPECTED_PLAINTEXT, r5_wire_size = n, r5_sas = s5_sas x \<rparr>, t) \<and> rn_machine t = COMPLETE"
proof -
  note k = kem_lawsD [OF laws(1) kem]
  have x': "session5_of C sid pk ct (kem_decap C sk ct) x" using x k(4) by simp
  note sizes = session5_sizes [OF laws(2) x]
  have B: "bl_queue B ops = pe_out (peer5_run C pk sk opens5 (answer5 C iv) ops)" for ops using peer(1) by (simp add: honest_peer5_def)
  have con: "bc_client (rn_client (new_runner c)) \<noteq> None" using link(2) by (simp add: new_runner_def)
  obtain s0 where s0: "runC (start_notify B) (new_runner c) = (Inr (), s0)" "bc_client (rn_client s0) \<noteq> None"
    "rn_taken s0 = 0" "rn_machine s0 = EMPTY" "bc_ops (rn_client s0) = bc_ops c @ [StartNotify]"
    using live_start [OF link(1) con] by (auto simp: new_runner_def)
  obtain s1 where s1: "phase5_prepare B C r sid None s0 = (Inr (ct, sid, s5_sas x), s1)" "bc_client (rn_client s1) \<noteq> None"
    "rn_taken s1 = 0" "rn_machine s1 = EMPTY" "bc_ops (rn_client s1) = bc_ops (rn_client s0) @ [ReadChar CHAR_PUBKEY]"
    "rn_buf s1 ''application_key_buffer'' = k5_application (s5_keys x)"
    "rn_buf s1 ''finished_c_buffer'' = s5_fc x" "rn_buf s1 ''expected_finished_p_buffer'' = s5_fp x"
    using live_phase5_prepare [OF link(1) s0(2) kem(2) k(1-3) sid x] s0 by auto
  have idle: "list_all (\<lambda>x. \<not> is_write x) (bc_ops (rn_client s1))" using link(3) s0(5) s1(5) by simp
  obtain pch where pch: "SecureChannel_init (k5_application (s5_keys x)) (Some sid) (Some PERIPHERAL_ROLE) = Inr pch"
    using sizes(3) by (simp add: SecureChannel_init_Inr)
  then have "opens5 sid x = Inr (pch, pch)" by (simp add: opens5_def)
  from honest_handshake5 [OF link(1) s1(2) k(2) sid x' B idle s1(3,4) this s1(7) sizes(1) ui]
  obtain s2 s3 ws where s3: "phase5_start B ct sid s1 = (Inr (), s2)" "phase5_confirm B None ui (s5_sas x) s2 = (Inr (), s3)"
    "bc_client (rn_client s3) \<noteq> None" "rn_taken s3 = 1" "rn_machine s3 = WAIT_FINISHED_P"
    "rn_buf s3 = (rn_buf s1)(''finished_c_buffer'' := replicate 32 0)"
    "peer5_run C pk sk opens5 (answer5 C iv) (bc_ops (rn_client s3)) = peer5_opened ws sid x (pch, pch) []"
    "notified B (bc_ops (rn_client s3) @ [AwaitNotify]) 1 (wire5 PHASE5_FINISHED_P (s5_fp x))" .
  obtain s4 where s4: "phase5_finished B None s3 = (Inr (), s4)" "bc_client (rn_client s4) \<noteq> None" "rn_taken s4 = 2"
    "rn_machine s4 = AUTHENTICATED" "bc_ops (rn_client s4) = bc_ops (rn_client s3) @ [AwaitNotify]"
    "rn_buf s4 = (rn_buf s3)(''expected_finished_p_buffer'' := replicate 32 0)"
    using live_phase5_finished [of B s3 "wire5 PHASE5_FINISHED_P (s5_fp x)"] s3 s1 sizes(2) by (auto simp: wire5_def parse_phase5_frame_wire)
  obtain ch where ch: "SecureChannel_init (k5_application (s5_keys x)) (Some sid) (Some CENTRAL_ROLE) = Inr ch"
    using sizes(3) by (simp add: SecureChannel_init_Inr)
  have "ch_send_seq pch = 0" using pch by (auto simp: SecureChannel_init_Inr)
  then obtain w pch' where w: "channel_encrypt C iv pch PHASE5_EXPECTED_PLAINTEXT MSG_TYPE_DATA = (Inr w, pch')"
    by (simp add: channel_encrypt_Inr)
  have opened: "phase5_open C ch w = Inr PHASE5_EXPECTED_PLAINTEXT" by (rule phase5_open_honest [OF laws(3) ch pch peer(2) w])
  have "answer5 C iv CHAR_CONTROL (wire5 PHASE5_DATA_REQUEST []) (pch, pch) = (w, (pch, pch'))" using w by (simp add: answer5_def)
  then have "notified B (bc_ops (rn_client s4) @ [WriteChar CHAR_CONTROL (wire5 PHASE5_DATA_REQUEST []), AwaitNotify]) (rn_taken s4) w"
    using B s3(7) s4(3,5) peer5_step_answer [of "answer5 C iv"]
    by (simp add: notified_def peer5_run_append del: peer5_step.simps(1)) (simp add: peer5_opened_def)
  then obtain s5 where s5: "phase5_data B C sid (s5_sas x) s4
      = (Inr \<lparr> r5_plaintext = PHASE5_EXPECTED_PLAINTEXT, r5_wire_size = length w, r5_sas = s5_sas x \<rparr>, s5)" "rn_machine s5 = COMPLETE"
    using live_phase5_data [OF link(1) s4(2,4), of w sid ch C PHASE5_EXPECTED_PLAINTEXT "s5_sas x"] s4 s3 s1 ch opened
    by (auto simp: wire5_def)
  have req: "require_client B (new_runner c) = (Inr (), new_runner c)"
    using live_connected [OF link(1) con] by (simp add: require_client_def)
  have m: "rn_machine (wipe_bufs ns s) = rn_machine s" for ns s by (induction ns arbitrary: s) (simp_all add: wipe_bufs_def)
  show ?thesis
    using s0(1) s1(1) s3(1,2) s4(1) s5
    by (simp add: run_phase5_auth_pq_def req with_notify_def seqM_def bindM_def needM_apply m del: bindM_Inr)
qed

text \<open>The honest Peripheral exists: a link to it, for a demonstration key pair.\<close>

lemma demo_session5:
  obtains x ct ss where "encapsulate demo_crypto 5 (replicate 1184 3) = (ct, ss)"
    and "session5_of demo_crypto (replicate 16 1) (replicate 1184 3) ct ss x"
proof -
  obtain ct ss where enc: "encapsulate demo_crypto 5 (replicate 1184 3) = (ct, ss)" by fastforce
  note k = kem_lawsD [OF demo_kem_laws demo_keypair enc]
  obtain x where "session5_of demo_crypto (replicate 16 1) (replicate 1184 3) ct ss x"
    using session5_exists [OF demo_hkdf_laws _ k(1-3), of "replicate 16 1"] by auto
  then show ?thesis using that enc by blast
qed

definition demo_peer5 :: bleak where
  "demo_peer5 = reactive_link (\<lambda>ops. pe_out (peer5_run demo_crypto (replicate 1184 3) (replicate 2400 3) opens5 (answer5 demo_crypto (replicate 12 1)) ops))"

lemma demo_peer5: "live_link demo_peer5 (replicate 1184 3)"
  "honest_peer5 demo_peer5 demo_crypto (replicate 1184 3) (replicate 2400 3) (replicate 12 1)"
  by (simp_all add: demo_peer5_def reactive_link_live honest_peer5_def)

section \<open>Properties\<close>

text \<open>
  The v0.5 Central sends nothing that depends on the user's consent before it has it: when the user
  never confirms the SAS, whatever the Peripheral answers and in every test mode, the run fails, the
  only control write it can have made is START5 with its session id, and it has written no
  application data.
\<close>

theorem phase5_runner_sas_gate:
  assumes "\<And>sas. confirm_sas ui sas \<noteq> Inr True"
  shows "\<exists>e new. fst (run_phase5_auth_pq B C r urandom ui neg s) = Inl e
    \<and> bc_ops (rn_client (snd (run_phase5_auth_pq B C r urandom ui neg s))) = bc_ops (rn_client s) @ new
    \<and> (\<forall>p \<in> set new. start5_only (generate_session_id urandom) p)"
proof -
  let ?P = "start5_only (generate_session_id urandom)"
  obtain e where "fst (run_phase5_auth_pq B C r urandom ui neg s) = Inl e"
    using run_phase5_Inr phase5_confirm_Inr assms by (metis prod.collapse Inr_or_Inl)
  moreover have "ops_within ?P s (snd (run_phase5_auth_pq B C r urandom ui neg s))"
    unfolding run_phase5_auth_pq_def
    by (intro within_seqM within_pure within_with_notify phase5_body_within assms) simp_all
  ultimately show ?thesis unfolding ops_within_def by blast
qed

theorem phase5_runner_sas_gate_witness:
  "\<exists>e new. fst (run_phase5_auth_pq (demo_link []) demo_crypto 5 (replicate 16 1) (Sas5Console (\<lambda>_. ''no'')) None
        (new_runner demo_client)) = Inl e \<and> (\<forall>p \<in> set new. start5_only (replicate 16 1) p)"
proof -
  have "confirm_sas (Sas5Console (\<lambda>_. ''no'')) sas \<noteq> Inr True" for sas
    by (simp add: confirm_sas_def) code_simp
  then show ?thesis
    using phase5_runner_sas_gate [of "Sas5Console (\<lambda>_. ''no'')" "demo_link []" demo_crypto 5 "replicate 16 1" None
        "new_runner demo_client"] by (auto simp: generate_session_id_def)
qed

text \<open>
  A v0.5 run that returns is authenticated: the user confirmed exactly the SAS of the key schedule
  of this session, the second notification was the FINISHED\_P frame with the MAC that schedule
  determines, the third decrypts under the derived application key to the expected plaintext, and no
  negative test was selected (a negative test never returns normally).
\<close>

theorem phase5_runner_sound:
  assumes "run_phase5_auth_pq B C r urandom ui neg (new_runner c) = (Inr res, t)"
  shows "neg = None \<and> r5_plaintext res = PHASE5_EXPECTED_PLAINTEXT \<and> confirm_sas ui (r5_sas res) = Inr True
    \<and> (\<exists>pk ct ss th keys fp ops ops' ch ch'. encapsulate C r pk = (ct, ss)
        \<and> compute_phase5_transcript_hash (generate_session_id urandom) pk ct = Inr th
        \<and> derive_phase5_keys C ss th = Inr keys
        \<and> bindR (compute_phase5_sas (k5_sas keys) th) format_phase5_sas = Inr (r5_sas res)
        \<and> compute_finished_p (k5_finished_p keys) th = Inr fp
        \<and> bl_queue B ops ! 1 = frame_wire PHASE5_FRAME_MAGIC PHASE5_FRAME_VERSION PHASE5_FINISHED_P fp
        \<and> SecureChannel_init (k5_application keys) (Some (generate_session_id urandom)) (Some CENTRAL_ROLE) = Inr ch
        \<and> channel_decrypt C MSG_TYPE_DATA ch (bl_queue B ops' ! 2) = (Inr PHASE5_EXPECTED_PLAINTEXT, ch'))"
proof -
  obtain s0 s1 s2 s3 s4 s5 ct sid sas where st: "runC (start_notify B) (new_runner c) = (Inr (), s0)"
    "phase5_prepare B C r urandom neg s0 = (Inr (ct, sid, sas), s1)" "phase5_start B ct sid s1 = (Inr (), s2)"
    "phase5_confirm B neg ui sas s2 = (Inr (), s3)" "phase5_finished B neg s3 = (Inr (), s4)"
    "phase5_data B C sid sas s4 = (Inr res, s5)" "\<forall>t. neg = Some t \<longrightarrow> t \<in> set PHASE5_NEGATIVE_MODES"
    using run_phase5_Inr [OF assms] by blast
  note p = phase5_prepare_Inr [OF st(2)] and s = phase5_start_Inr [OF st(3)] and k = phase5_confirm_Inr [OF st(4)]
    and f = phase5_finished_Inr [OF st(5)] and d = phase5_data_Inr [OF st(6)]
  have "rn_taken s0 = 0" using st(1) by (auto simp: runC_Inr new_runner_def)
  then have taken: "rn_taken s3 = 1" "rn_taken s4 = 2" using p s k f by simp_all
  have neg: "neg = None" using f st(7) by (cases neg) auto
  then show ?thesis using p s k f d unfolding taken by (simp; metis)
qed

theorem phase5_runner_sound_witness:
  "\<exists>res t. run_phase5_auth_pq demo_peer5 demo_crypto 5 (replicate 16 1) (Sas5Callback (\<lambda>_. Inr True)) None (new_runner demo_client)
     = (Inr res, t) \<and> r5_plaintext res = PHASE5_EXPECTED_PLAINTEXT"
proof -
  obtain x ct ss where d: "encapsulate demo_crypto 5 (replicate 1184 3) = (ct, ss)"
    "session5_of demo_crypto (replicate 16 1) (replicate 1184 3) ct ss x" by (rule demo_session5)
  have ui: "confirm_sas (Sas5Callback (\<lambda>_. Inr True)) (s5_sas x) = Inr True" by (simp add: confirm_sas_def)
  obtain res t where "run_phase5_auth_pq demo_peer5 demo_crypto 5 (replicate 16 1) (Sas5Callback (\<lambda>_. Inr True)) None (new_runner demo_client) = (Inr res, t)"
    using phase5_honest_run [OF demo_peer5(1) _ demo_client_fresh demo_kem_laws demo_hkdf_laws demo_aead_laws demo_keypair d(1) _ d(2) ui demo_peer5(2)]
    by auto
  then show ?thesis using phase5_runner_sound by blast
qed

text \<open>
  The v0.5 handshake works end to end: over a working link to a Peripheral that answers what it is
  sent as the protocol says (it computes its session from the fragments and the session id it received,
  and opens it only on the right FINISHED\_C), and with a user who confirms the SAS, the run returns the
  message, and its state machine is COMPLETE.
\<close>

theorem phase5_runner_end_to_end:
  assumes "live_link B pk" "bc_client c \<noteq> None" "list_all (\<lambda>x. \<not> is_write x) (bc_ops c)"
    and "kem_laws C" "hkdf_laws C" "aead_laws C"
    and "kem_keypair C seed = (pk, sk)" "encapsulate C r pk = (ct, ss)" and "length sid = SESSION_ID_SIZE"
    and "session5_of C sid pk ct ss x" and "confirm_sas ui (s5_sas x) = Inr True"
    and "honest_peer5 B C pk sk iv" "length iv = GCM_IV_SIZE"
  shows "\<exists>n t. run_phase5_auth_pq B C r sid ui None (new_runner c)
    = (Inr \<lparr> r5_plaintext = PHASE5_EXPECTED_PLAINTEXT, r5_wire_size = n, r5_sas = s5_sas x \<rparr>, t) \<and> rn_machine t = COMPLETE"
  by (rule phase5_honest_run [OF assms])

theorem phase5_runner_end_to_end_witness:
  "\<exists>res t. run_phase5_auth_pq demo_peer5 demo_crypto 5 (replicate 16 1) (Sas5Callback (\<lambda>_. Inr True)) None (new_runner demo_client)
     = (Inr res, t) \<and> rn_machine t = COMPLETE"
proof -
  obtain x ct ss where d: "encapsulate demo_crypto 5 (replicate 1184 3) = (ct, ss)"
    "session5_of demo_crypto (replicate 16 1) (replicate 1184 3) ct ss x" by (rule demo_session5)
  have ui: "confirm_sas (Sas5Callback (\<lambda>_. Inr True)) (s5_sas x) = Inr True" by (simp add: confirm_sas_def)
  show ?thesis
    using phase5_runner_end_to_end [OF demo_peer5(1) _ demo_client_fresh demo_kem_laws demo_hkdf_laws demo_aead_laws demo_keypair d(1) _ d(2) ui demo_peer5(2)]
    by (metis demo_client_on length_replicate option.distinct(1))
qed

text \<open>
  Whatever happens in a v0.5 run, including every exception the Peripheral, the user or the link
  causes, the shared secret, the application key and both FINISHED values are zero when it ends.
\<close>

theorem phase5_runner_wipes:
  "list_all (\<lambda>n. wiped (rn_buf (snd (run_phase5_auth_pq B C r urandom ui neg (new_runner c))) n)) phase5_sensitive"
  unfolding run_phase5_auth_pq_def list_all_iff
  by (intro ballI wipes_after_check check_keeps with_notify_wipes) (simp_all add: new_runner_def)

end
