(* ===== verification/Phase6_Runner.thy ===== *)
theory Phase6_Runner
  imports Phase5_Runner
begin

text \<open>
  \<open>src/central/phase6_c2p.py\<close>: the v0.5 handshake followed by authenticated application traffic in both
  directions under separate traffic keys, for any number of rounds, with its five negative tests.
\<close>

section \<open>Constants, results and helpers\<close>

abbreviation (input) PHASE6_DEFAULT_ROUNDS :: int where "PHASE6_DEFAULT_ROUNDS \<equiv> 3"

definition PHASE6_NEGATIVE_MODES :: "string list" where
  "PHASE6_NEGATIVE_MODES = [''c2p-tamper'', ''c2p-replay'', ''p2c-tamper'', ''p2c-replay'', ''pre-auth'']"

record phase6_round_trip =
  rt_c2p_plaintext :: bytes
  rt_p2c_plaintext :: bytes
  rt_c2p_sequence :: int
  rt_p2c_sequence :: int
  rt_c2p_wire_size :: nat
  rt_p2c_wire_size :: nat

record phase6_result =
  r6_round_trips :: "phase6_round_trip list"
  r6_sas :: string

definition tamper_secure_wire_copy :: "bytes \<Rightarrow> bytes result" where
  "tamper_secure_wire_copy wire =
     (if length wire < 1 then Inl (ValueError ''secure wire cannot be empty'') else Inr (flip_last wire))"

definition p6_confirm_sas :: "sas5_prompt \<Rightarrow> string \<Rightarrow> bool result" where
  "p6_confirm_sas ui sas =
     (case ui of
        Sas5Callback f \<Rightarrow> f sas
      | Sas5Console user \<Rightarrow> Inr (map latin1_lower (py_strip (user sas)) \<in> {''y'', ''yes''}))"

definition p6_receive :: "bleak \<Rightarrow> string \<Rightarrow> (runner, bytes) meth" where
  "p6_receive B description = take_notification B (ProtocolError (''Timed out waiting for '' @ description))"

definition starts_pqs6 :: "bytes \<Rightarrow> bool" where
  "starts_pqs6 raw \<longleftrightarrow> take (length PHASE6_FRAME_MAGIC) raw = PHASE6_FRAME_MAGIC"

definition parse_phase6_error_status :: "bytes \<Rightarrow> byte option result" where
  "parse_phase6_error_status raw =
     (if \<not> starts_pqs6 raw then Inr None
      else case parse_phase6_frame raw of
             Inl e \<Rightarrow> Inl (if is_ValueError e then ProtocolError ''NEGATIVE TEST FAIL: malformed PQS6 response'' else e)
           | Inr frame \<Rightarrow>
               if f6_subtype frame \<noteq> PHASE6_ERROR
               then Inl (ProtocolError ''NEGATIVE TEST FAIL: unexpected PQS6 control subtype'')
               else if length (f6_payload frame) \<noteq> 1
               then Inl (ProtocolError ''NEGATIVE TEST FAIL: malformed PQS6 error payload'')
               else Inr (Some (f6_payload frame ! 0)))"

section \<open>Handshake stages\<close>

definition phase6_sensitive :: "string list" where
  "phase6_sensitive = [''shared_secret_buffer'', ''application_root_buffer'', ''finished_c_buffer'',
     ''expected_finished_p_buffer'', ''c2p_key_buffer'', ''p2c_key_buffer'']"

text \<open>The \<open>pre-auth\<close> test never goes on to the handshake.\<close>

definition phase6_preauth :: "bleak \<Rightarrow> third_party \<Rightarrow> bytes \<Rightarrow> (runner, unit) meth" where
  "phase6_preauth B C iv =
     bindM (liftR (bindR (SecureChannel_init (replicate 32 0) (Some (replicate 16 0)) (Some CENTRAL_ROLE)) (\<lambda>dummy_channel.
              fst (channel_encrypt C iv dummy_channel (ascii ''PREAUTH'') MSG_TYPE_DATA)))) (\<lambda>preauth_wire.
     \<lambda>s. case runC (write_secure_data B preauth_wire) s of
           (Inl _, t) \<Rightarrow>
             (Inl (if \<not> client_is_connected B (rn_client t)
                   then ProtocolError ''NEGATIVE TEST FAIL: connection was lost while testing pre-auth rejection''
                   else NegativeTestPassed ''NEGATIVE TEST PASS: pre-auth Secure Data WRITE rejected by Peripheral''), t)
         | (Inr _, t) \<Rightarrow>
             (Inl (ProtocolError ''NEGATIVE TEST FAIL: Peripheral accepted Secure Data before authentication''), t))"

definition phase6_prepare ::
  "bleak \<Rightarrow> third_party \<Rightarrow> nat \<Rightarrow> bytes \<Rightarrow> (runner, bytes \<times> bytes \<times> string) meth" where
  "phase6_prepare B C r urandom =
     bindM (runC (read_fragmented_public_key B)) (\<lambda>public_key.
     seqM (needM (length public_key = PK_SIZE) (ProtocolError ''Public key size mismatch'')) (
     let (ciphertext, shared_secret) = encapsulate C r public_key
     in seqM (setM (set_buf ''shared_secret_buffer'' shared_secret)) (
     seqM (needM (length ciphertext = CT_SIZE) (ProtocolError ''Ciphertext size mismatch'')) (
     seqM (needM (length shared_secret = SS_SIZE) (ProtocolError ''Shared-secret size mismatch'')) (
     let session_id = generate_session_id urandom
     in seqM (needM (length session_id = SESSION_ID_SIZE) (ProtocolError ''Invalid generated session_id length'')) (
     bindM (liftR (compute_phase5_transcript_hash session_id public_key ciphertext)) (\<lambda>transcript_hash.
     bindM (liftR (derive_phase5_keys C shared_secret transcript_hash)) (\<lambda>phase5_keys.
     seqM (setM (wipe_buf ''shared_secret_buffer'')) (
     bindM (liftR (bindR (compute_phase5_sas (k5_sas phase5_keys) transcript_hash) format_phase5_sas)) (\<lambda>sas.
     seqM (setM (set_buf ''application_root_buffer'' (k5_application phase5_keys))) (
     bindM (liftR (compute_finished_c (k5_finished_c phase5_keys) transcript_hash)) (\<lambda>fc.
     seqM (setM (set_buf ''finished_c_buffer'' fc)) (
     bindM (liftR (compute_finished_p (k5_finished_p phase5_keys) transcript_hash)) (\<lambda>fp.
     seqM (setM (set_buf ''expected_finished_p_buffer'' fp)) (
     retM (ciphertext, session_id, sas))))))))))))))))"

definition phase6_start :: "bleak \<Rightarrow> bytes \<Rightarrow> bytes \<Rightarrow> (runner, unit) meth" where
  "phase6_start B ciphertext session_id =
     bindM (runC (write_fragmented_ciphertext B ciphertext)) (\<lambda>_.
     bindM (machineM (sm5_start session_id)) (\<lambda>start.
     seqM (runC (send_control B start)) (
     bindM (p6_receive B ''READY_FOR_SAS'') (\<lambda>raw_ready.
     catchM is_state_or_value (\<lambda>e. liftR (Inl (ProtocolError ''Invalid READY_FOR_SAS''))) (
       bindM (liftR (parse_phase5_frame raw_ready)) (\<lambda>ready.
       seqM (needM (f5_subtype ready \<noteq> PHASE5_ERROR) (Phase5StateError ''Peripheral rejected Phase 5 start'')) (
       bindM (machineM (sm5_receive_ready_for_sas ready)) (\<lambda>_. retM ()))))))))"

definition phase6_confirm :: "bleak \<Rightarrow> sas5_prompt \<Rightarrow> string \<Rightarrow> (runner, unit) meth" where
  "phase6_confirm B ui sas =
     bindM (liftR (p6_confirm_sas ui sas)) (\<lambda>confirmed.
     if \<not> confirmed
     then bindM (machineM sm5_reject_sas) (\<lambda>_.
          liftR (Inl (ProtocolError ''SAS rejected; Phase 6 traffic was not activated'')))
     else bindM (readM (\<lambda>s. Inr (rn_buf s ''finished_c_buffer''))) (\<lambda>fc.
          bindM (machineM (sm5_confirm_sas fc)) (\<lambda>finished_c_frame.
          seqM (runC (send_control B finished_c_frame)) (
          setM (wipe_buf ''finished_c_buffer'')))))"

definition phase6_finished :: "bleak \<Rightarrow> (runner, unit) meth" where
  "phase6_finished B =
     bindM (p6_receive B ''FINISHED_P'') (\<lambda>raw_finished_p.
     seqM (catchM is_state_or_value (\<lambda>e. liftR (Inl (ProtocolError ''Peripheral FINISHED verification failed''))) (
       bindM (liftR (parse_phase5_frame raw_finished_p)) (\<lambda>frame.
       seqM (needM (f5_subtype frame \<noteq> PHASE5_ERROR) (Phase5StateError ''Peripheral rejected FINISHED_C'')) (
       seqM (needM (f5_subtype frame = PHASE5_FINISHED_P) (Phase5StateError ''Expected FINISHED_P'')) (
       seqM (needM (length (f5_payload frame) = FINISHED_SIZE) (Phase5StateError ''FINISHED_P has invalid size'')) (
       bindM (readM (\<lambda>s. Inr (rn_buf s ''expected_finished_p_buffer''))) (\<lambda>expected.
       bindM (machineM (sm5_receive_finished_p frame expected)) (\<lambda>_. retM ())))))))) (
     setM (wipe_buf ''expected_finished_p_buffer'')))"

definition phase6_traffic :: "bytes \<Rightarrow> (runner, secure_channel \<times> secure_channel) meth" where
  "phase6_traffic session_id =
     bindM (readM (\<lambda>s. derive_phase6_traffic_keys (rn_buf s ''application_root_buffer''))) (\<lambda>traffic_keys.
     seqM (setM (set_buf ''c2p_key_buffer'' (k6_central_to_peripheral traffic_keys))) (
     seqM (setM (set_buf ''p2c_key_buffer'' (k6_peripheral_to_central traffic_keys))) (
     seqM (setM (wipe_buf ''application_root_buffer'')) (
     bindM (readM (\<lambda>s. SecureChannel_init (rn_buf s ''c2p_key_buffer'') (Some session_id) (Some CENTRAL_ROLE))) (\<lambda>c2p_channel.
     bindM (readM (\<lambda>s. SecureChannel_init (rn_buf s ''p2c_key_buffer'') (Some session_id) (Some CENTRAL_ROLE))) (\<lambda>p2c_channel.
     retM (c2p_channel, p2c_channel)))))))"

section \<open>Negative tests on the traffic\<close>

text \<open>Each of the four tests starts with PING 0 and ends with an exception, whatever happens.\<close>

definition phase6_c2p_tamper :: "bleak \<Rightarrow> bytes \<Rightarrow> (runner, unit) meth" where
  "phase6_c2p_tamper B legitimate_wire =
     bindM (liftR (tamper_secure_wire_copy legitimate_wire)) (\<lambda>tampered_wire.
     seqM (needM (butlast tampered_wire = butlast legitimate_wire \<and> last tampered_wire = xor (last legitimate_wire) 1)
             (ProtocolError ''NEGATIVE TEST FAIL: tamper hook changed more than the requested bit'')) (
     seqM (runC (write_secure_data B tampered_wire)) (
     bindM (p6_receive B ''C->P tamper rejection'') (\<lambda>raw_error.
     bindM (liftR (parse_phase6_error_status raw_error)) (\<lambda>status.
     liftR (Inl (if status \<noteq> Some (word_of_int PHASE6_STATUS_AUTHENTICATION_FAILURE)
                 then ProtocolError ''NEGATIVE TEST FAIL: expected authentication status 0x06''
                 else NegativeTestPassed ''NEGATIVE TEST PASS: tampered C->P AES-GCM frame rejected by Peripheral'')))))))"

text \<open>The first PONG, opened with the error the test gives to a failure of \<open>decrypt\<close>.\<close>

definition phase6_first_pong ::
  "third_party \<Rightarrow> secure_channel \<Rightarrow> bytes \<Rightarrow> (exn \<Rightarrow> exn) \<Rightarrow> exn \<Rightarrow> secure_channel result" where
  "phase6_first_pong C p2c_channel response failed unexpected =
     (case channel_decrypt C MSG_TYPE_DATA p2c_channel response of
        (Inl e, _) \<Rightarrow> Inl (failed e)
      | (Inr plaintext, ch) \<Rightarrow> if plaintext \<noteq> ascii ''PONG 0'' then Inl unexpected else Inr ch)"

definition phase6_c2p_replay :: "bleak \<Rightarrow> third_party \<Rightarrow> secure_channel \<Rightarrow> bytes \<Rightarrow> (runner, unit) meth" where
  "phase6_c2p_replay B C p2c_channel legitimate_wire =
     seqM (runC (write_secure_data B legitimate_wire)) (
     bindM (p6_receive B ''legitimate PONG 0'') (\<lambda>first_response.
     seqM (needM (\<not> starts_pqs6 first_response)
             (ProtocolError ''NEGATIVE TEST FAIL: legitimate first C->P frame was rejected'')) (
     bindM (liftR (phase6_first_pong C p2c_channel first_response
              (\<lambda>e. if e = InvalidTag \<or> is_ValueError e
                   then ProtocolError ''NEGATIVE TEST FAIL: legitimate PONG 0 could not be authenticated'' else e)
              (ProtocolError ''NEGATIVE TEST FAIL: unexpected first response''))) (\<lambda>_.
     seqM (runC (write_secure_data B legitimate_wire)) (
     bindM (p6_receive B ''C->P replay rejection'') (\<lambda>replay_response.
     bindM (liftR (parse_phase6_error_status replay_response)) (\<lambda>status.
     liftR (Inl (if status \<noteq> Some (word_of_int PHASE6_STATUS_INVALID_PROTOCOL_STATE)
                 then ProtocolError ''NEGATIVE TEST FAIL: expected replay/state status 0x04''
                 else NegativeTestPassed ''NEGATIVE TEST PASS: replayed C->P secure frame rejected by Peripheral'')))))))))"

definition phase6_check_tampered :: "third_party \<Rightarrow> secure_channel \<Rightarrow> bytes \<Rightarrow> exn" where
  "phase6_check_tampered C p2c_channel legitimate_response =
     (case tamper_secure_wire_copy legitimate_response of
        Inl e \<Rightarrow> e
      | Inr tampered_response \<Rightarrow>
          (case channel_decrypt C MSG_TYPE_DATA p2c_channel tampered_response of
             (Inr _, _) \<Rightarrow> ProtocolError ''NEGATIVE TEST FAIL: tampered P->C frame was accepted by Central''
           | (Inl e, ch) \<Rightarrow>
               if e \<noteq> InvalidTag then e
               else case phase6_first_pong C ch legitimate_response
                      (\<lambda>_. ProtocolError ''NEGATIVE TEST FAIL: failed P->C authentication incorrectly advanced or corrupted receive state'')
                      (ProtocolError ''NEGATIVE TEST FAIL: legitimate P->C frame did not decrypt to PONG 0'') of
                    Inl e \<Rightarrow> e
                  | Inr _ \<Rightarrow> NegativeTestPassed
                      ''NEGATIVE TEST PASS: tampered P->C frame rejected by Central without advancing receive state''))"

definition phase6_check_replayed :: "third_party \<Rightarrow> secure_channel \<Rightarrow> bytes \<Rightarrow> exn" where
  "phase6_check_replayed C p2c_channel legitimate_response =
     (case phase6_first_pong C p2c_channel legitimate_response
             (\<lambda>_. ProtocolError ''NEGATIVE TEST FAIL: first legitimate P->C frame was rejected'')
             (ProtocolError ''NEGATIVE TEST FAIL: unexpected first P->C plaintext'') of
        Inl e \<Rightarrow> e
      | Inr ch \<Rightarrow>
          (case fst (channel_decrypt C MSG_TYPE_DATA ch legitimate_response) of
             Inr _ \<Rightarrow> ProtocolError ''NEGATIVE TEST FAIL: replayed P->C secure frame was accepted by Central''
           | Inl e \<Rightarrow>
               if is_ValueError e
               then NegativeTestPassed ''NEGATIVE TEST PASS: replayed P->C secure frame rejected by Central''
               else if e = InvalidTag
               then ProtocolError ''NEGATIVE TEST FAIL: P->C replay reached tag verification instead of replay rejection''
               else e))"

definition phase6_p2c_test ::
  "bleak \<Rightarrow> (secure_channel \<Rightarrow> bytes \<Rightarrow> exn) \<Rightarrow> secure_channel \<Rightarrow> bytes \<Rightarrow> (runner, unit) meth" where
  "phase6_p2c_test B check p2c_channel c2p_wire =
     seqM (runC (write_secure_data B c2p_wire)) (
     bindM (p6_receive B ''legitimate PONG 0'') (\<lambda>legitimate_response.
     seqM (needM (\<not> starts_pqs6 legitimate_response)
             (ProtocolError ''NEGATIVE TEST FAIL: Peripheral did not produce a legitimate secure response'')) (
     liftR (Inl (check p2c_channel legitimate_response)))))"

definition phase6_negative ::
  "bleak \<Rightarrow> third_party \<Rightarrow> bytes \<Rightarrow> string option \<Rightarrow> secure_channel \<Rightarrow> secure_channel \<Rightarrow> (runner, unit) meth" where
  "phase6_negative B C iv negative_test c2p_channel p2c_channel =
     (if negative_test = None then retM ()
      else if negative_test \<in> {Some ''c2p-tamper'', Some ''c2p-replay'', Some ''p2c-tamper'', Some ''p2c-replay''}
      then bindM (liftR (fst (channel_encrypt C iv c2p_channel (ascii ''PING 0'') MSG_TYPE_DATA))) (\<lambda>wire.
           if negative_test = Some ''c2p-tamper'' then phase6_c2p_tamper B wire
           else if negative_test = Some ''c2p-replay'' then phase6_c2p_replay B C p2c_channel wire
           else if negative_test = Some ''p2c-tamper'' then phase6_p2c_test B (phase6_check_tampered C) p2c_channel wire
           else phase6_p2c_test B (phase6_check_replayed C) p2c_channel wire)
      else liftR (Inl (ProtocolError ''NEGATIVE TEST FAIL: negative mode reached positive traffic path'')))"

section \<open>Round trips\<close>

definition p6_ping :: "nat \<Rightarrow> bytes" where "p6_ping round_index = ascii (''PING '' @ str_nat round_index)"
definition p6_pong :: "nat \<Rightarrow> bytes" where "p6_pong round_index = ascii (''PONG '' @ str_nat round_index)"

definition phase6_open_pong :: "third_party \<Rightarrow> nat \<Rightarrow> secure_channel \<Rightarrow> bytes \<Rightarrow> (bytes \<times> secure_channel) result" where
  "phase6_open_pong C round_index p2c_channel raw_response =
     bindR (if starts_pqs6 raw_response
            then (case parse_phase6_frame raw_response of
                    Inl e \<Rightarrow> Inl (if is_ValueError e then ProtocolError ''Malformed Phase 6 control/status response'' else e)
                  | Inr control \<Rightarrow>
                      Inl (ProtocolError (if f6_subtype control = PHASE6_ERROR
                        then if length (f6_payload control) \<noteq> 1 then ''Malformed Phase 6 error payload''
                             else ''Peripheral rejected secure application frame''
                        else ''Unexpected non-error PQS6 control frame during bidirectional traffic'')))
            else Inr ()) (\<lambda>_.
     bindR (requireR (length raw_response \<ge> 8) (ProtocolError ''P->C secure response is too short'')) (\<lambda>_.
     let (r, p2c_channel) = channel_decrypt C MSG_TYPE_DATA p2c_channel raw_response
     in bindR (case r of
                 Inl e \<Rightarrow> Inl (if e = InvalidTag then ProtocolError ''P->C AES-256-GCM authentication failed''
                               else if is_ValueError e then ProtocolError ''P->C secure-channel validation failed'' else e)
               | Inr p \<Rightarrow> Inr p) (\<lambda>pong.
     bindR (requireR (wire_seq raw_response = int round_index) (ProtocolError ''Unexpected P->C sequence'')) (\<lambda>_.
     bindR (requireR (pong = p6_pong round_index) (ProtocolError ''Unexpected P->C plaintext'')) (\<lambda>_.
     Inr (pong, p2c_channel))))))"

definition phase6_round ::
  "bleak \<Rightarrow> third_party \<Rightarrow> (nat \<Rightarrow> bytes) \<Rightarrow> nat \<Rightarrow> secure_channel \<times> secure_channel \<times> phase6_round_trip list
     \<Rightarrow> (runner, secure_channel \<times> secure_channel \<times> phase6_round_trip list) meth" where
  "phase6_round B C ivs round_index loop_state =
     (case loop_state of (c2p_channel, p2c_channel, round_results) \<Rightarrow>
     let (r, c2p_channel) = channel_encrypt C (ivs round_index) c2p_channel (p6_ping round_index) MSG_TYPE_DATA
     in bindM (liftR r) (\<lambda>c2p_wire.
     seqM (needM (wire_seq c2p_wire = int round_index) (ProtocolError ''Unexpected C->P sequence'')) (
     seqM (runC (write_secure_data B c2p_wire)) (
     bindM (p6_receive B ''Phase 6 P->C secure response'') (\<lambda>raw_response.
     bindM (liftR (phase6_open_pong C round_index p2c_channel raw_response)) (\<lambda>(pong, p2c_channel).
     retM (c2p_channel, p2c_channel, round_results @
       [\<lparr> rt_c2p_plaintext = p6_ping round_index, rt_p2c_plaintext = pong,
          rt_c2p_sequence = wire_seq c2p_wire, rt_p2c_sequence = wire_seq raw_response,
          rt_c2p_wire_size = length c2p_wire, rt_p2c_wire_size = length raw_response \<rparr>])))))))"

section \<open>The whole run\<close>

definition run_phase6_bidirectional ::
  "bleak \<Rightarrow> third_party \<Rightarrow> nat \<Rightarrow> bytes \<Rightarrow> bytes \<Rightarrow> (nat \<Rightarrow> bytes) \<Rightarrow> int \<Rightarrow> sas5_prompt \<Rightarrow> string option
     \<Rightarrow> (runner, phase6_result) meth" where
  "run_phase6_bidirectional B C r urandom test_iv ivs rounds ui negative_test =
     seqM (needM (rounds \<ge> 1) (ProtocolError ''rounds must be at least 1'')) (
     seqM (needM (case negative_test of None \<Rightarrow> True | Some t \<Rightarrow> t \<in> set PHASE6_NEGATIVE_MODES)
             (ProtocolError ''Unknown Phase 6 negative test'')) (
     seqM (require_client B) (
     with_notify B (wipe_bufs phase6_sensitive) (
     seqM (if negative_test = Some ''pre-auth'' then phase6_preauth B C test_iv else retM ()) (
     bindM (phase6_prepare B C r urandom) (\<lambda>(ciphertext, session_id, sas).
     seqM (phase6_start B ciphertext session_id) (
     seqM (phase6_confirm B ui sas) (
     seqM (phase6_finished B) (
     bindM (phase6_traffic session_id) (\<lambda>(c2p_channel, p2c_channel).
     seqM (phase6_negative B C test_iv negative_test c2p_channel p2c_channel) (
     bindM (loopM (phase6_round B C ivs) [0..<nat rounds] (c2p_channel, p2c_channel, [])) (\<lambda>(c2p_channel, p2c_channel, round_results).
     seqM (needM (ch_sent_count c2p_channel = rounds) (ProtocolError ''Unexpected Central send count'')) (
     seqM (needM (ch_recv_count p2c_channel = rounds) (ProtocolError ''Unexpected Central receive count'')) (
     retM \<lparr> r6_round_trips = round_results, r6_sas = sas \<rparr>))))))))))))))"

definition run_phase6_c2p ::
  "bleak \<Rightarrow> third_party \<Rightarrow> nat \<Rightarrow> bytes \<Rightarrow> bytes \<Rightarrow> (nat \<Rightarrow> bytes) \<Rightarrow> sas5_prompt \<Rightarrow> (runner, phase6_result) meth" where
  "run_phase6_c2p B C r urandom test_iv ivs ui = run_phase6_bidirectional B C r urandom test_iv ivs 1 ui None"

section \<open>Lemmas\<close>

lemma p6_receive_Inr:
  "p6_receive B d s = (Inr w, t) \<longleftrightarrow>
     (let ops = bc_ops (rn_client s) @ [AwaitNotify] in rn_taken s < length (bl_queue B ops) \<and> w = bl_queue B ops ! rn_taken s
        \<and> t = s\<lparr> rn_client := (rn_client s)\<lparr> bc_ops := ops \<rparr>, rn_taken := rn_taken s + 1 \<rparr>)"
  unfolding p6_receive_def by (rule take_notification_Inr)

lemma within_p6_receive: "P AwaitNotify \<Longrightarrow> ops_within P s (snd (p6_receive B d s))"
  unfolding p6_receive_def by (rule within_take)

lemma loopM_append: "loopM b (xs @ ys) a s = bindM (loopM b xs a) (loopM b ys) s"
  by (induction xs arbitrary: a s) (simp_all add: bindM_def split: prod.splits sum.splits)

subsection \<open>Negative tests never return\<close>

lemma never_Inr:
  "phase6_preauth B C iv s \<noteq> (Inr (), t)" "phase6_c2p_tamper B w s \<noteq> (Inr (), t)" "phase6_c2p_replay B C ch w s \<noteq> (Inr (), t)"
  "phase6_p2c_test B chk ch w s \<noteq> (Inr (), t)"
  by (auto simp: phase6_preauth_def phase6_c2p_tamper_def phase6_c2p_replay_def phase6_p2c_test_def split: prod.splits sum.splits)

lemma phase6_negative_Inr:
  "phase6_negative B C iv neg c2p p2c s = (Inr (), t) \<longleftrightarrow> neg = None \<and> t = s"
  using never_Inr by (auto simp: phase6_negative_def split: if_splits)

subsection \<open>The stages of a Phase 6 run\<close>

definition authenticated6 :: "bleak \<Rightarrow> third_party \<Rightarrow> nat \<Rightarrow> bytes \<Rightarrow> sas5_prompt \<Rightarrow> session5 \<Rightarrow> bool" where
  "authenticated6 B C r urandom ui x \<longleftrightarrow>
     (\<exists>pk ct ss ops. encapsulate C r pk = (ct, ss) \<and> session5_of C (generate_session_id urandom) pk ct ss x
        \<and> p6_confirm_sas ui (s5_sas x) = Inr True
        \<and> bl_queue B ops ! 1 = frame_wire PHASE5_FRAME_MAGIC PHASE5_FRAME_VERSION PHASE5_FINISHED_P (s5_fp x))"

lemma phase6_prepare_Inr:
  assumes "phase6_prepare B C r u s = (Inr (ct, sid, sas), t)"
  shows "sid = generate_session_id u \<and> rn_taken t = rn_taken s
    \<and> (\<exists>pk ss x. encapsulate C r pk = (ct, ss) \<and> session5_of C sid pk ct ss x \<and> sas = s5_sas x
       \<and> rn_buf t ''application_root_buffer'' = k5_application (s5_keys x)
       \<and> rn_buf t ''finished_c_buffer'' = s5_fc x \<and> rn_buf t ''expected_finished_p_buffer'' = s5_fp x)"
proof -
  obtain pk ss th keys fc fp where st: "encapsulate C r pk = (ct, ss)" "sid = generate_session_id u" "rn_taken t = rn_taken s"
    "compute_phase5_transcript_hash sid pk ct = Inr th" "derive_phase5_keys C ss th = Inr keys"
    "bindR (compute_phase5_sas (k5_sas keys) th) format_phase5_sas = Inr sas"
    "compute_finished_c (k5_finished_c keys) th = Inr fc" "compute_finished_p (k5_finished_p keys) th = Inr fp"
    "rn_buf t ''application_root_buffer'' = k5_application keys" "rn_buf t ''finished_c_buffer'' = fc"
    "rn_buf t ''expected_finished_p_buffer'' = fp"
    using assms
    by (clarsimp simp: phase6_prepare_def Let_def case_prod_unfold stage_Inr buf_simps) (metis prod.collapse)
  let ?x = "\<lparr> s5_hash = th, s5_keys = keys, s5_sas = sas, s5_fc = fc, s5_fp = fp \<rparr>"
  have "session5_of C sid pk ct ss ?x" using st by (simp add: session5_of_def)
  moreover have "sas = s5_sas ?x \<and> rn_buf t ''application_root_buffer'' = k5_application (s5_keys ?x)
      \<and> rn_buf t ''finished_c_buffer'' = s5_fc ?x \<and> rn_buf t ''expected_finished_p_buffer'' = s5_fp ?x"
    using st by simp
  ultimately show ?thesis using st(1-3) by metis
qed

lemma phase6_start_Inr:
  "phase6_start B ct sid s = (Inr (), t) \<Longrightarrow> rn_taken t = rn_taken s + 1 \<and> rn_buf t = rn_buf s"
  by (auto simp: phase6_start_def stage_Inr p6_receive_Inr Let_def)

lemma phase6_confirm_Inr:
  "phase6_confirm B ui sas s = (Inr (), t) \<Longrightarrow> p6_confirm_sas ui sas = Inr True \<and> rn_taken t = rn_taken s
     \<and> rn_buf t ''application_root_buffer'' = rn_buf s ''application_root_buffer''
     \<and> rn_buf t ''expected_finished_p_buffer'' = rn_buf s ''expected_finished_p_buffer''"
  by (auto simp: phase6_confirm_def stage_Inr Let_def buf_simps split: if_splits)

lemma phase6_finished_Inr:
  assumes "phase6_finished B s = (Inr (), t)"
  shows "rn_taken t = rn_taken s + 1 \<and> rn_buf t ''application_root_buffer'' = rn_buf s ''application_root_buffer''
    \<and> (\<exists>ops. bl_queue B ops ! rn_taken s
        = frame_wire PHASE5_FRAME_MAGIC PHASE5_FRAME_VERSION PHASE5_FINISHED_P (rn_buf s ''expected_finished_p_buffer''))"
proof -
  obtain raw u f m v where st: "p6_receive B ''FINISHED_P'' s = (Inr raw, u)" "parse_phase5_frame raw = Inr f"
    "sm5_receive_finished_p f (rn_buf u ''expected_finished_p_buffer'') (rn_machine u) = (Inr v, m)"
    "t = wipe_buf ''expected_finished_p_buffer'' (u\<lparr> rn_machine := m \<rparr>)"
    using assms by (auto simp: phase6_finished_def stage_Inr)
  then have "f5_subtype f = PHASE5_FINISHED_P" "f5_payload f = rn_buf u ''expected_finished_p_buffer''"
    by (auto simp: sm5_receive_finished_p_def sm5_require_def verify_finished_def split: if_splits)
  then have "raw = frame_wire PHASE5_FRAME_MAGIC PHASE5_FRAME_VERSION PHASE5_FINISHED_P (rn_buf u ''expected_finished_p_buffer'')"
    using pqs5.parse_Inr [OF st(2)] by simp
  then show ?thesis using st(1,4) by (auto simp: p6_receive_Inr Let_def buf_simps)
qed

lemma phase6_traffic_Inr:
  "phase6_traffic sid s = (Inr (c2p, p2c), t) \<Longrightarrow> rn_taken t = rn_taken s
     \<and> (\<exists>k. derive_phase6_traffic_keys (rn_buf s ''application_root_buffer'') = Inr k
       \<and> SecureChannel_init (k6_central_to_peripheral k) (Some sid) (Some CENTRAL_ROLE) = Inr c2p
       \<and> SecureChannel_init (k6_peripheral_to_central k) (Some sid) (Some CENTRAL_ROLE) = Inr p2c)"
  by (auto simp: phase6_traffic_def buf_simps)

lemma phase6_stages_authenticated:
  assumes "rn_taken s0 = 0" and "phase6_prepare B C r u s0 = (Inr (ct, sid, sas), s1)" and "phase6_start B ct sid s1 = (Inr (), s2)"
    and "phase6_confirm B ui sas s2 = (Inr (), s3)" and "phase6_finished B s3 = (Inr (), s4)"
  shows "\<exists>x. authenticated6 B C r u ui x \<and> sas = s5_sas x \<and> rn_taken s4 = 2
    \<and> rn_buf s4 ''application_root_buffer'' = k5_application (s5_keys x) \<and> sid = generate_session_id u"
proof -
  obtain pk ss x where x: "encapsulate C r pk = (ct, ss)" "session5_of C sid pk ct ss x" "sas = s5_sas x" "rn_taken s1 = 0"
    "rn_buf s1 ''application_root_buffer'' = k5_application (s5_keys x)" "rn_buf s1 ''expected_finished_p_buffer'' = s5_fp x"
    "sid = generate_session_id u"
    using phase6_prepare_Inr [OF assms(2)] assms(1) by auto
  have c: "p6_confirm_sas ui sas = Inr True" "rn_taken s3 = 1" "rn_buf s3 ''application_root_buffer'' = k5_application (s5_keys x)"
    "rn_buf s3 ''expected_finished_p_buffer'' = s5_fp x"
    using phase6_start_Inr [OF assms(3)] phase6_confirm_Inr [OF assms(4)] x(4-6) by simp_all
  then obtain ops where "bl_queue B ops ! 1 = frame_wire PHASE5_FRAME_MAGIC PHASE5_FRAME_VERSION PHASE5_FINISHED_P (s5_fp x)"
    "rn_taken s4 = 2" "rn_buf s4 ''application_root_buffer'' = k5_application (s5_keys x)"
    using phase6_finished_Inr [OF assms(5)] by auto
  then show ?thesis using x c(1) unfolding authenticated6_def by metis
qed

subsection \<open>Rounds\<close>

text \<open>What a completed round trip records.\<close>

definition round_trip_ok :: "nat \<Rightarrow> phase6_round_trip \<Rightarrow> bool" where
  "round_trip_ok i rt \<longleftrightarrow> rt_c2p_plaintext rt = p6_ping i \<and> rt_p2c_plaintext rt = p6_pong i
     \<and> rt_c2p_sequence rt = int i \<and> rt_p2c_sequence rt = int i"

lemma channel_decrypt_key6: "ch_key (snd (channel_decrypt C mt ch w)) = ch_key ch"
  by (auto simp: channel_decrypt_def Let_def split: sum.splits option.splits)

lemma phase6_open_pong_Inr:
  "phase6_open_pong C i p2c raw = Inr (p, p2c') \<Longrightarrow>
     p = p6_pong i \<and> wire_seq raw = int i \<and> channel_decrypt C MSG_TYPE_DATA p2c raw = (Inr (p6_pong i), p2c')"
  by (cases "channel_decrypt C MSG_TYPE_DATA p2c raw")
    (auto simp: phase6_open_pong_def Let_def split: sum.splits if_splits)

lemma phase6_round_Inr:
  assumes "phase6_round B C ivs i (c2p, p2c, rts) s = (Inr (c2p', p2c', rts'), t)"
  shows "rn_taken t = rn_taken s + 1 \<and> ch_key p2c' = ch_key p2c \<and> (\<exists>rt. rts' = rts @ [rt] \<and> round_trip_ok i rt)
    \<and> (\<exists>ops. channel_decrypt C MSG_TYPE_DATA p2c (bl_queue B ops ! rn_taken s) = (Inr (p6_pong i), p2c'))"
proof -
  obtain a b where ab: "channel_encrypt C (ivs i) c2p (p6_ping i) MSG_TYPE_DATA = (a, b)" by fastforce
  then obtain w u raw pong where st: "a = Inr w" "wire_seq w = int i" "runC (write_secure_data B w) s = (Inr (), u)"
    "p6_receive B ''Phase 6 P->C secure response'' u = (Inr raw, t)" "phase6_open_pong C i p2c raw = Inr (pong, p2c')"
    "rts' = rts @ [\<lparr> rt_c2p_plaintext = p6_ping i, rt_p2c_plaintext = pong, rt_c2p_sequence = wire_seq w,
       rt_p2c_sequence = wire_seq raw, rt_c2p_wire_size = length w, rt_p2c_wire_size = length raw \<rparr>]"
    using assms by (auto simp: phase6_round_def needM_Inr)
  have "rn_taken u = rn_taken s" using st(3) by (auto simp: runC_Inr)
  then show ?thesis
    using st phase6_open_pong_Inr [OF st(5)] channel_decrypt_key6 [of C MSG_TYPE_DATA p2c raw]
    by (auto simp: p6_receive_Inr Let_def round_trip_ok_def)
qed

lemma phase6_rounds_Inr:
  assumes "loopM (phase6_round B C ivs) [0..<n] (c2p, p2c, []) s = (Inr (c2p', p2c', rts), t)"
  shows "rn_taken t = rn_taken s + n \<and> ch_key p2c' = ch_key p2c \<and> length rts = n \<and> (\<forall>i < n. round_trip_ok i (rts ! i))
    \<and> (\<forall>i < n. \<exists>ops ch ch'. ch_key ch = ch_key p2c
        \<and> channel_decrypt C MSG_TYPE_DATA ch (bl_queue B ops ! (rn_taken s + i)) = (Inr (p6_pong i), ch'))"
  using assms
proof (induction n arbitrary: c2p' p2c' rts t)
  case (Suc n)
  obtain a b l u where u: "loopM (phase6_round B C ivs) [0..<n] (c2p, p2c, []) s = (Inr (a, b, l), u)"
    "phase6_round B C ivs n (a, b, l) u = (Inr (c2p', p2c', rts), t)"
    using Suc.prems by (auto simp: loopM_append)
  note IH = Suc.IH [OF u(1)] and step = phase6_round_Inr [OF u(2)]
  then show ?case by (auto simp: less_Suc_eq nth_append)
qed simp

text \<open>A run that returns has passed every stage.\<close>

lemma run_phase6_Inr:
  assumes "run_phase6_bidirectional B C r u tiv ivs rounds ui neg s = (Inr res, t)"
  shows "neg = None \<and> rounds \<ge> 1 \<and> (\<exists>s0 s1 s2 s3 s4 s5 s6 ct sid c2p p2c c2p' p2c'. runC (start_notify B) s = (Inr (), s0)
    \<and> phase6_prepare B C r u s0 = (Inr (ct, sid, r6_sas res), s1) \<and> phase6_start B ct sid s1 = (Inr (), s2)
    \<and> phase6_confirm B ui (r6_sas res) s2 = (Inr (), s3) \<and> phase6_finished B s3 = (Inr (), s4)
    \<and> phase6_traffic sid s4 = (Inr (c2p, p2c), s5)
    \<and> loopM (phase6_round B C ivs) [0..<nat rounds] (c2p, p2c, []) s5 = (Inr (c2p', p2c', r6_round_trips res), s6))"
proof -
  obtain s0 s0' v ct sid sas s1 s2 s3 s4 c2p p2c s5 s5' c2p' p2c' rts s6 where run: "rounds \<ge> 1"
    "runC (start_notify B) s = (Inr (), s0)"
    "(if neg = Some ''pre-auth'' then phase6_preauth B C tiv else retM ()) s0 = (Inr (), s0')"
    "phase6_prepare B C r u s0' = (Inr (ct, sid, sas), s1)" "phase6_start B ct sid s1 = (Inr (), s2)"
    "phase6_confirm B ui sas s2 = (Inr (), s3)" "phase6_finished B s3 = (Inr (), s4)"
    "phase6_traffic sid s4 = (Inr (c2p, p2c), s5)" "phase6_negative B C tiv neg c2p p2c s5 = (Inr (), s5')"
    "loopM (phase6_round B C ivs) [0..<nat rounds] (c2p, p2c, []) s5' = (Inr (c2p', p2c', rts), s6)"
    "res = \<lparr> r6_round_trips = rts, r6_sas = sas \<rparr>"
    using assms unfolding run_phase6_bidirectional_def seqM_Inr
    by (auto simp: needM_Inr require_client_Inr with_notify_Inr simp del: loopM.simps)
  have "s0' = s0" using run(3) never_Inr(1) by (auto split: if_splits)
  then show ?thesis using run phase6_negative_Inr by auto
qed

subsection \<open>The honest Phase 6 peer\<close>

text \<open>
  The v0.6 Peripheral after FINISHED\_C: one channel per direction under the two traffic keys. A write
  to the data characteristic is decrypted under the central-to-peripheral key; the PING of the current
  round, and nothing else, is answered with the PONG of that round under the other key.
\<close>

definition opens6 :: "bytes \<Rightarrow> session5 \<Rightarrow> channels result" where
  "opens6 sid x =
     bindR (derive_phase6_traffic_keys (k5_application (s5_keys x))) (\<lambda>k.
     bindR (SecureChannel_init (k6_central_to_peripheral k) (Some sid) (Some PERIPHERAL_ROLE)) (\<lambda>recv.
     bindR (SecureChannel_init (k6_peripheral_to_central k) (Some sid) (Some PERIPHERAL_ROLE)) (\<lambda>send.
     Inr (recv, send))))"

definition error6 :: "byte \<Rightarrow> bytes" where
  "error6 status = frame_wire PHASE6_FRAME_MAGIC PHASE6_FRAME_VERSION PHASE6_ERROR [status]"

definition answer6 :: "third_party \<Rightarrow> (nat \<Rightarrow> bytes) \<Rightarrow> gatt_char \<Rightarrow> bytes \<Rightarrow> channels \<Rightarrow> bytes \<times> channels" where
  "answer6 C pivs ch d chs =
     (case chs of (recv, send) \<Rightarrow>
      let i = nat (ch_send_seq send)
      in if ch \<noteq> CHAR_DATA then (error6 4, chs)
         else case channel_decrypt C MSG_TYPE_DATA recv d of
                (Inl e, recv) \<Rightarrow> (error6 6, (recv, send))
              | (Inr ping, recv) \<Rightarrow>
                  if ping \<noteq> p6_ping i then (error6 4, (recv, send))
                  else case channel_encrypt C (pivs i) send (p6_pong i) MSG_TYPE_DATA of
                         (Inl e, send) \<Rightarrow> (error6 5, (recv, send))
                       | (Inr w, send) \<Rightarrow> (w, (recv, send)))"

definition peer6_run :: "third_party \<Rightarrow> bytes \<Rightarrow> bytes \<Rightarrow> (nat \<Rightarrow> bytes) \<Rightarrow> gatt_op list \<Rightarrow> peer5" where
  "peer6_run C pk sk pivs = peer5_run C pk sk opens6 (answer6 C pivs)"

definition honest_peer6 :: "bleak \<Rightarrow> third_party \<Rightarrow> bytes \<Rightarrow> bytes \<Rightarrow> (nat \<Rightarrow> bytes) \<Rightarrow> bool" where
  "honest_peer6 B C pk sk pivs \<longleftrightarrow> (\<forall>ops. bl_queue B ops = pe_out (peer6_run C pk sk pivs ops))"

lemma live_phase6_prepare:
  assumes "live_link B pk" and "bc_client (rn_client s) \<noteq> None" and "encapsulate C r pk = (ct, ss)"
    and "length pk = PK_SIZE" "length ct = CT_SIZE" "length ss = SS_SIZE" "length sid = SESSION_ID_SIZE"
    and "session5_of C sid pk ct ss x"
  shows "\<exists>t. phase6_prepare B C r sid s = (Inr (ct, sid, s5_sas x), t) \<and> bc_client (rn_client t) \<noteq> None
    \<and> rn_taken t = rn_taken s \<and> rn_machine t = rn_machine s
    \<and> bc_ops (rn_client t) = bc_ops (rn_client s) @ [ReadChar CHAR_PUBKEY]
    \<and> rn_buf t ''application_root_buffer'' = k5_application (s5_keys x)
    \<and> rn_buf t ''finished_c_buffer'' = s5_fc x \<and> rn_buf t ''expected_finished_p_buffer'' = s5_fp x"
  using assms live_read [OF assms(1,2)]
  by (simp add: phase6_prepare_def session5_of_def Let_def needM_apply seqM_def bindM_def generate_session_id_def
      buf_simps del: bindM_Inr bindR_eq_Inr) (simp add: set_buf_def wipe_buf_def)

text \<open>The two stages between are those of v0.5.\<close>

lemma phase6_start_5: "phase6_start B ct sid = phase5_start B ct sid"
  by (simp add: phase6_start_def phase5_start_def p6_receive_def)

lemma phase6_confirm_5: "p6_confirm_sas ui sas = Inr True \<Longrightarrow> phase6_confirm B ui sas s = phase5_confirm B None ui sas s"
  by (simp add: phase6_confirm_def phase5_confirm_def bindM_def Let_def p6_confirm_sas_def confirm_sas_def split: sas5_prompt.splits)

lemma p6_confirm_5: "p6_confirm_sas ui sas = Inr True \<Longrightarrow> confirm_sas ui sas = Inr True"
  by (simp add: p6_confirm_sas_def confirm_sas_def split: sas5_prompt.splits)

lemma live_phase6_finished:
  assumes "notified B (bc_ops (rn_client s) @ [AwaitNotify]) (rn_taken s) w" and "rn_machine s = WAIT_FINISHED_P"
    and "length (rn_buf s ''expected_finished_p_buffer'') = 32"
    and "parse_phase5_frame w = Inr \<lparr> f5_subtype = PHASE5_FINISHED_P, f5_payload = rn_buf s ''expected_finished_p_buffer'' \<rparr>"
  shows "\<exists>t. phase6_finished B s = (Inr (), t) \<and> bc_client (rn_client t) = bc_client (rn_client s)
    \<and> rn_taken t = rn_taken s + 1 \<and> bc_ops (rn_client t) = bc_ops (rn_client s) @ [AwaitNotify]
    \<and> rn_buf t = (rn_buf s)(''expected_finished_p_buffer'' := replicate 32 0)"
  using assms(2-) live_notified [OF assms(1)]
  by (simp add: phase6_finished_def p6_receive_def bindM_def seqM_def catchM_def needM_apply machineM_def
      sm5_defs verify_finished_def wipe_buf_def set_buf_def wipe_def)

lemma live_phase6_traffic:
  assumes "derive_phase6_traffic_keys (rn_buf s ''application_root_buffer'') = Inr k"
    and "SecureChannel_init (k6_central_to_peripheral k) (Some sid) (Some CENTRAL_ROLE) = Inr c2p"
    and "SecureChannel_init (k6_peripheral_to_central k) (Some sid) (Some CENTRAL_ROLE) = Inr p2c"
  shows "\<exists>t. phase6_traffic sid s = (Inr (c2p, p2c), t) \<and> bc_client (rn_client t) = bc_client (rn_client s)
    \<and> rn_taken t = rn_taken s \<and> bc_ops (rn_client t) = bc_ops (rn_client s)"
  using assms
  by (simp add: phase6_traffic_def bindM_def seqM_def buf_simps; simp add: set_buf_def wipe_buf_def)

text \<open>Channel states after \<open>i\<close> messages, and the message between two matching channels.\<close>

definition sent_channel :: "secure_channel \<Rightarrow> nat \<Rightarrow> secure_channel" where
  "sent_channel ch i = ch\<lparr> ch_send_seq := int i, ch_sent_count := int i \<rparr>"

definition received_channel :: "secure_channel \<Rightarrow> nat \<Rightarrow> secure_channel" where
  "received_channel ch i = ch\<lparr> ch_last_recv_seq := int i - 1, ch_recv_count := int i \<rparr>"

lemma channel_init_states:
  "SecureChannel_init k (Some sid) (Some role) = Inr ch \<Longrightarrow> sent_channel ch 0 = ch \<and> received_channel ch 0 = ch"
  by (auto simp: SecureChannel_init_Inr sent_channel_def received_channel_def)

lemma channel_message:
  assumes "aead_laws C" and "channels_match a b" and "length iv = 12" and "i < 256 ^ 4"
  obtains w where "channel_encrypt C iv (sent_channel a i) p MSG_TYPE_DATA = (Inr w, sent_channel a (Suc i))"
    and "channel_decrypt C MSG_TYPE_DATA (received_channel b i) w = (Inr p, received_channel b (Suc i))"
    and "wire_seq w = int i" and "8 \<le> length w" and "\<not> starts_pqs6 w"
proof -
  have "int i < 2 ^ 64" using assms(4) by simp
  then obtain w where w: "channel_encrypt C iv (sent_channel a i) p MSG_TYPE_DATA = (Inr w, sent_channel a (Suc i))"
    by (simp add: channel_encrypt_Inr sent_channel_def)
  have m: "channels_match (sent_channel a i) (received_channel b i)"
    using assms(2) by (simp add: channels_match_def sent_channel_def received_channel_def)
  have "channel_decrypt C MSG_TYPE_DATA (received_channel b i) w = (Inr p, received_channel b (Suc i))"
    using channel_decrypt_encrypt [OF assms(1) m _ assms(3) w] by (simp add: sent_channel_def received_channel_def)
  moreover have "wire_seq w = int i" using channel_wire_seq [OF w] by (simp add: sent_channel_def)
  moreover have "8 \<le> length w" using channel_wire_length [OF assms(1) _ assms(3) w] by simp
  moreover have "take 4 w = [0, 0, 0, 0]" using w be_bytes_8_small [OF assms(4)] by (auto simp: channel_encrypt_Inr sent_channel_def)
  moreover have "PHASE6_FRAME_MAGIC \<noteq> [0, 0, 0, 0]" by (simp add: PHASE6_FRAME_MAGIC_def ascii_def)
  ultimately show thesis using that w by (simp add: starts_pqs6_def)
qed

text \<open>A round with the honest Peripheral, whose channels match the Central's.\<close>

lemma honest_round6:
  assumes link: "live_link B pk" "bc_client (rn_client s) \<noteq> None" and laws: "aead_laws C" and ivs: "length (ivs i) = 12" "length (pivs i) = 12"
    and i: "i < 256 ^ 4" and B: "honest_peer6 B C pk sk pivs" and match: "channels_match c2p recv" "channels_match send p2c"
    and peer: "peer6_run C pk sk pivs (bc_ops (rn_client s)) = peer5_opened ws sid x (received_channel recv i, sent_channel send i) out"
    and taken: "length out = i" "rn_taken s = 2 + i"
  shows "\<exists>t rt d w. phase6_round B C ivs i (sent_channel c2p i, received_channel p2c i, rts) s
      = (Inr (sent_channel c2p (Suc i), received_channel p2c (Suc i), rts @ [rt]), t)
    \<and> bc_client (rn_client t) \<noteq> None \<and> rn_taken t = 2 + Suc i
    \<and> bc_ops (rn_client t) = bc_ops (rn_client s) @ [WriteChar CHAR_DATA d, AwaitNotify]
    \<and> peer6_run C pk sk pivs (bc_ops (rn_client t))
        = peer5_opened ws sid x (received_channel recv (Suc i), sent_channel send (Suc i)) (out @ [w])"
proof -
  obtain d where d: "channel_encrypt C (ivs i) (sent_channel c2p i) (p6_ping i) MSG_TYPE_DATA = (Inr d, sent_channel c2p (Suc i))"
    "channel_decrypt C MSG_TYPE_DATA (received_channel recv i) d = (Inr (p6_ping i), received_channel recv (Suc i))"
    "wire_seq d = int i" "8 \<le> length d" by (rule channel_message [OF laws match(1) ivs(1) i])
  obtain w where w: "channel_encrypt C (pivs i) (sent_channel send i) (p6_pong i) MSG_TYPE_DATA = (Inr w, sent_channel send (Suc i))"
    "channel_decrypt C MSG_TYPE_DATA (received_channel p2c i) w = (Inr (p6_pong i), received_channel p2c (Suc i))"
    "wire_seq w = int i" "8 \<le> length w" "\<not> starts_pqs6 w" by (rule channel_message [OF laws match(2) ivs(2) i])
  have ans: "answer6 C pivs CHAR_DATA d (received_channel recv i, sent_channel send i) = (w, (received_channel recv (Suc i), sent_channel send (Suc i)))"
    using d(2) w(1) by (simp add: answer6_def sent_channel_def)
  have run: "peer6_run C pk sk pivs (bc_ops (rn_client s) @ [WriteChar CHAR_DATA d, AwaitNotify])
      = peer5_opened ws sid x (received_channel recv (Suc i), sent_channel send (Suc i)) (out @ [w])"
    using peer peer5_step_answer [of "answer6 C pivs", OF ans] by (simp add: peer6_run_def peer5_run_append del: peer5_step.simps(1))
  have q: "notified B (bc_ops (rn_client s) @ [WriteChar CHAR_DATA d, AwaitNotify]) (rn_taken s) w"
    using B run taken by (simp add: notified_def honest_peer6_def) (simp add: peer5_opened_def nth_append)
  let ?u = "did [WriteChar CHAR_DATA d] s"
  have take: "take_notification B e ?u = (Inr w, (did [AwaitNotify] ?u)\<lparr> rn_taken := rn_taken s + 1 \<rparr>)" for e
    using live_notified [of B ?u w e] q by simp
  have "phase6_open_pong C i (received_channel p2c i) w = Inr (p6_pong i, received_channel p2c (Suc i))"
    using w by (simp add: phase6_open_pong_def)
  moreover have "d \<noteq> []" using d(4) by auto
  ultimately have "\<exists>rt. phase6_round B C ivs i (sent_channel c2p i, received_channel p2c i, rts) s
      = (Inr (sent_channel c2p (Suc i), received_channel p2c (Suc i), rts @ [rt]), (did [AwaitNotify] ?u)\<lparr> rn_taken := rn_taken s + 1 \<rparr>)"
    using d(1,3) take live_secure_data [OF link, of d]
    by (simp add: phase6_round_def bindM_def seqM_def needM_apply p6_receive_def del: bindM_Inr)
  then show ?thesis using link(2) run taken by auto
qed

lemma honest_rounds6:
  assumes link: "live_link B pk" "bc_client (rn_client s) \<noteq> None" and laws: "aead_laws C"
    and ivs: "\<And>i. length (ivs i) = 12" "\<And>i. length (pivs i) = 12"
    and n: "n \<le> 256 ^ 4" and B: "honest_peer6 B C pk sk pivs" and match: "channels_match c2p recv" "channels_match send p2c"
    and peer: "peer6_run C pk sk pivs (bc_ops (rn_client s)) = peer5_opened ws sid x (received_channel recv 0, sent_channel send 0) []"
    and taken: "rn_taken s = 2"
  shows "\<exists>t rts out. loopM (phase6_round B C ivs) [0..<n] (sent_channel c2p 0, received_channel p2c 0, []) s
      = (Inr (sent_channel c2p n, received_channel p2c n, rts), t)
    \<and> bc_client (rn_client t) \<noteq> None \<and> rn_taken t = 2 + n \<and> length out = n
    \<and> peer6_run C pk sk pivs (bc_ops (rn_client t)) = peer5_opened ws sid x (received_channel recv n, sent_channel send n) out
    \<and> (0 < n \<longrightarrow> (\<exists>d. WriteChar CHAR_DATA d \<in> set (bc_ops (rn_client t))))"
  using n
proof (induction n)
  case 0
  then show ?case using link(2) peer taken by simp
next
  case (Suc n)
  then obtain t rts out where t: "loopM (phase6_round B C ivs) [0..<n] (sent_channel c2p 0, received_channel p2c 0, []) s
      = (Inr (sent_channel c2p n, received_channel p2c n, rts), t)" "bc_client (rn_client t) \<noteq> None" "rn_taken t = 2 + n" "length out = n"
    "peer6_run C pk sk pivs (bc_ops (rn_client t)) = peer5_opened ws sid x (received_channel recv n, sent_channel send n) out" by auto
  have "n < 256 ^ 4" using Suc.prems by simp
  from honest_round6 [where ivs = ivs and rts = rts, OF link(1) t(2) laws ivs this B match t(5,4,3)]
  obtain u rt d w where u: "phase6_round B C ivs n (sent_channel c2p n, received_channel p2c n, rts) t
      = (Inr (sent_channel c2p (Suc n), received_channel p2c (Suc n), rts @ [rt]), u)" "bc_client (rn_client u) \<noteq> None" "rn_taken u = 2 + Suc n"
    "bc_ops (rn_client u) = bc_ops (rn_client t) @ [WriteChar CHAR_DATA d, AwaitNotify]"
    "peer6_run C pk sk pivs (bc_ops (rn_client u)) = peer5_opened ws sid x (received_channel recv (Suc n), sent_channel send (Suc n)) (out @ [w])"
    by blast
  have "loopM (phase6_round B C ivs) [0..<Suc n] (sent_channel c2p 0, received_channel p2c 0, []) s
      = (Inr (sent_channel c2p (Suc n), received_channel p2c (Suc n), rts @ [rt]), u)"
    using t(1) u(1) by (simp add: loopM_append bindM_def)
  then show ?case using u t(4) by (intro exI [of _ u] exI [of _ "rts @ [rt]"] exI [of _ "out @ [w]"]) auto
qed

lemma phase6_honest_run:
  assumes link: "live_link B pk" "bc_client c \<noteq> None" "list_all (\<lambda>x. \<not> is_write x) (bc_ops c)"
    and laws: "kem_laws C" "hkdf_laws C" "aead_laws C"
    and kem: "kem_keypair C seed = (pk, sk)" "encapsulate C r pk = (ct, ss)" and sid: "length sid = SESSION_ID_SIZE"
    and x: "session5_of C sid pk ct ss x" and ui: "p6_confirm_sas ui (s5_sas x) = Inr True"
    and ivs: "\<And>i. length (ivs i) = 12" "\<And>i. length (pivs i) = 12" and n: "1 \<le> n" "n \<le> 256 ^ 4"
    and B: "honest_peer6 B C pk sk pivs"
  shows "\<exists>t rts d recv send. run_phase6_bidirectional B C r sid tiv ivs (int n) ui None (new_runner c)
      = (Inr \<lparr> r6_round_trips = rts, r6_sas = s5_sas x \<rparr>, t) \<and> WriteChar CHAR_DATA d \<in> set (bc_ops (rn_client t))
    \<and> pe_channels (peer6_run C pk sk pivs (bc_ops (rn_client t))) = Some (recv, send)
    \<and> ch_recv_count recv = int n \<and> ch_sent_count send = int n"
proof -
  note k = kem_lawsD [OF laws(1) kem]
  have x': "session5_of C sid pk ct (kem_decap C sk ct) x" using x k(4) by simp
  note sizes = session5_sizes [OF laws(2) x]
  have con: "bc_client (rn_client (new_runner c)) \<noteq> None" using link(2) by (simp add: new_runner_def)
  obtain s0 where s0: "runC (start_notify B) (new_runner c) = (Inr (), s0)" "bc_client (rn_client s0) \<noteq> None"
    "rn_taken s0 = 0" "rn_machine s0 = EMPTY" "bc_ops (rn_client s0) = bc_ops c @ [StartNotify]"
    using live_start [OF link(1) con] by (auto simp: new_runner_def)
  obtain s1 where s1: "phase6_prepare B C r sid s0 = (Inr (ct, sid, s5_sas x), s1)" "bc_client (rn_client s1) \<noteq> None"
    "rn_taken s1 = 0" "rn_machine s1 = EMPTY" "bc_ops (rn_client s1) = bc_ops (rn_client s0) @ [ReadChar CHAR_PUBKEY]"
    "rn_buf s1 ''application_root_buffer'' = k5_application (s5_keys x)"
    "rn_buf s1 ''finished_c_buffer'' = s5_fc x" "rn_buf s1 ''expected_finished_p_buffer'' = s5_fp x"
    using live_phase6_prepare [OF link(1) s0(2) kem(2) k(1-3) sid x] s0 by auto
  have idle: "list_all (\<lambda>x. \<not> is_write x) (bc_ops (rn_client s1))" using link(3) s0(5) s1(5) by simp
  obtain tk recv send c2p p2c where tk: "derive_phase6_traffic_keys (k5_application (s5_keys x)) = Inr tk"
    and peer: "SecureChannel_init (k6_central_to_peripheral tk) (Some sid) (Some PERIPHERAL_ROLE) = Inr recv"
      "SecureChannel_init (k6_peripheral_to_central tk) (Some sid) (Some PERIPHERAL_ROLE) = Inr send"
    and ch: "SecureChannel_init (k6_central_to_peripheral tk) (Some sid) (Some CENTRAL_ROLE) = Inr c2p"
      "SecureChannel_init (k6_peripheral_to_central tk) (Some sid) (Some CENTRAL_ROLE) = Inr p2c"
    using sizes(3) by (simp add: derive_phase6_traffic_keys_def SecureChannel_init_Inr)
  note chan0 = channel_init_states [OF peer(1)] channel_init_states [OF peer(2)] channel_init_states [OF ch(1)] channel_init_states [OF ch(2)]
  have match: "channels_match c2p recv" "channels_match send p2c"
    using role_channels_match(2) [OF ch(1) peer(1)] role_channels_match(1) [OF ch(2) peer(2)] .
  have "opens6 sid x = Inr (recv, send)" using tk peer by (simp add: opens6_def)
  from honest_handshake5 [OF link(1) s1(2) k(2) sid x' B [unfolded honest_peer6_def peer6_run_def, rule_format] idle s1(3,4) this s1(7) sizes(1) p6_confirm_5 [OF ui]]
  obtain s2 s3 ws where s3: "phase5_start B ct sid s1 = (Inr (), s2)" "phase5_confirm B None ui (s5_sas x) s2 = (Inr (), s3)"
    "bc_client (rn_client s3) \<noteq> None" "rn_taken s3 = 1" "rn_machine s3 = WAIT_FINISHED_P"
    "rn_buf s3 = (rn_buf s1)(''finished_c_buffer'' := replicate 32 0)"
    "peer6_run C pk sk pivs (bc_ops (rn_client s3)) = peer5_opened ws sid x (recv, send) []"
    "notified B (bc_ops (rn_client s3) @ [AwaitNotify]) 1 (wire5 PHASE5_FINISHED_P (s5_fp x))" unfolding peer6_run_def .
  obtain s4 where s4: "phase6_finished B s3 = (Inr (), s4)" "bc_client (rn_client s4) \<noteq> None" "rn_taken s4 = 2"
    "bc_ops (rn_client s4) = bc_ops (rn_client s3) @ [AwaitNotify]"
    "rn_buf s4 = (rn_buf s3)(''expected_finished_p_buffer'' := replicate 32 0)"
    using live_phase6_finished [of B s3 "wire5 PHASE5_FINISHED_P (s5_fp x)"] s3 s1 sizes(2) by (auto simp: wire5_def parse_phase5_frame_wire)
  obtain s5 where s5: "phase6_traffic sid s4 = (Inr (c2p, p2c), s5)" "bc_client (rn_client s5) \<noteq> None" "rn_taken s5 = 2"
    "bc_ops (rn_client s5) = bc_ops (rn_client s4)"
    using live_phase6_traffic [OF _ ch, of s4] tk s4 s3 s1 by auto
  have p5: "peer6_run C pk sk pivs (bc_ops (rn_client s5)) = peer5_opened ws sid x (received_channel recv 0, sent_channel send 0) []"
    using s3(7) s4(4) s5(4) chan0 by (simp add: peer6_run_def peer5_run_append)
  obtain s6 rts out where s6: "loopM (phase6_round B C ivs) [0..<n] (c2p, p2c, []) s5 = (Inr (sent_channel c2p n, received_channel p2c n, rts), s6)"
    "peer6_run C pk sk pivs (bc_ops (rn_client s6)) = peer5_opened ws sid x (received_channel recv n, sent_channel send n) out"
    "\<exists>d. WriteChar CHAR_DATA d \<in> set (bc_ops (rn_client s6))"
    using honest_rounds6 [where ivs = ivs, OF link(1) s5(2) laws(3) ivs n(2) B match p5 s5(3)] chan0 n(1) by auto
  have cnt: "ch_sent_count (sent_channel c2p n) = int n" "ch_recv_count (received_channel p2c n) = int n"
    by (simp_all add: sent_channel_def received_channel_def)
  have req: "require_client B (new_runner c) = (Inr (), new_runner c)"
    using live_connected [OF link(1) con] by (simp add: require_client_def)
  have neg: "phase6_negative B C tiv None c2p p2c s5 = (Inr (), s5)" by (simp add: phase6_negative_def)
  let ?t = "snd (runC (stop_notify B) (wipe_bufs phase6_sensitive s6))"
  have "run_phase6_bidirectional B C r sid tiv ivs (int n) ui None (new_runner c) = (Inr \<lparr> r6_round_trips = rts, r6_sas = s5_sas x \<rparr>, ?t)"
    using s0(1) s1(1) s3(1,2) s4(1) s5(1) neg s6(1) cnt n phase6_start_5 phase6_confirm_5 [OF ui]
    by (simp add: run_phase6_bidirectional_def req with_notify_def seqM_def bindM_def needM_apply del: bindM_Inr)
  moreover have "ops_within (\<lambda>x. \<not> is_write x) (wipe_bufs phase6_sensitive s6) ?t" by (rule within_subscribe(2)) simp
  then obtain new where new: "bc_ops (rn_client ?t) = bc_ops (rn_client s6) @ new" "list_all (\<lambda>x. \<not> is_write x) new"
    by (auto simp: ops_within_def list_all_iff)
  have "peer6_run C pk sk pivs (bc_ops (rn_client ?t)) = peer5_opened ws sid x (received_channel recv n, sent_channel send n) out"
    using s6(2) new peer5_idle [OF new(2)] by (simp add: peer6_run_def peer5_run_append)
  then have "pe_channels (peer6_run C pk sk pivs (bc_ops (rn_client ?t))) = Some (received_channel recv n, sent_channel send n)"
    by (simp add: peer5_opened_def)
  moreover have "ch_recv_count (received_channel recv n) = int n" "ch_sent_count (sent_channel send n) = int n"
    by (simp_all add: sent_channel_def received_channel_def)
  moreover have "\<exists>d. WriteChar CHAR_DATA d \<in> set (bc_ops (rn_client ?t))" using s6(3) new(1) by auto
  ultimately show ?thesis by blast
qed

text \<open>The honest Peripheral exists: a link to it, for a demonstration key pair.\<close>

definition demo_peer6 :: bleak where
  "demo_peer6 = reactive_link (\<lambda>ops. pe_out (peer6_run demo_crypto (replicate 1184 3) (replicate 2400 3) (\<lambda>_. replicate 12 1) ops))"

lemma demo_peer6: "live_link demo_peer6 (replicate 1184 3)"
  "honest_peer6 demo_peer6 demo_crypto (replicate 1184 3) (replicate 2400 3) (\<lambda>_. replicate 12 1)"
  by (simp_all add: demo_peer6_def reactive_link_live honest_peer6_def)

lemma yes_confirms6: "p6_confirm_sas (Sas5Callback (\<lambda>_. Inr True)) sas = Inr True"
  by (simp add: p6_confirm_sas_def)

subsection \<open>Writes before authentication\<close>

text \<open>Whatever follows FINISHED\_P, the data characteristic stays unwritten until the session is authenticated.\<close>

lemma phase6_body_gated:
  assumes "rn_taken s0 = 0" and P: "P = (\<lambda>p. \<forall>d. p \<noteq> WriteChar CHAR_DATA d)"
  shows "ops_within P s0 (snd (bindM (phase6_prepare B C r u) (\<lambda>(ct, sid, sas). seqM (phase6_start B ct sid)
      (seqM (phase6_confirm B ui sas) (seqM (phase6_finished B) (K ct sid sas)))) s0)) \<or> (\<exists>x. authenticated6 B C r u ui x)"
proof -
  have w: "ops_within P t (snd (phase6_prepare B C r u t))" "ops_within P t (snd (phase6_start B ct sid t))"
    "ops_within P t (snd (phase6_confirm B ui sas t))" "ops_within P t (snd (phase6_finished B t))" for t ct sid sas
    unfolding phase6_prepare_def phase6_start_def phase6_confirm_def phase6_finished_def Let_def case_prod_unfold P
    by (auto intro!: within_intros within_p6_receive split: if_split)
  show ?thesis
  proof (rule within_or_bind [OF w(1)])
    fix z s1
    assume z: "phase6_prepare B C r u s0 = (Inr z, s1)"
    obtain ct sid sas where ze: "z = (ct, sid, sas)" by (cases z)
    have "ops_within P s1 (snd (seqM (phase6_start B ct sid) (seqM (phase6_confirm B ui sas) (seqM (phase6_finished B) (K ct sid sas))) s1))
        \<or> (\<exists>x. authenticated6 B C r u ui x)"
      using phase6_stages_authenticated [OF assms(1) z [unfolded ze]] by (intro within_or_seq w) blast
    then show "ops_within P s1 (snd ((case z of (ct, sid, sas) \<Rightarrow> seqM (phase6_start B ct sid)
      (seqM (phase6_confirm B ui sas) (seqM (phase6_finished B) (K ct sid sas)))) s1)) \<or> (\<exists>x. authenticated6 B C r u ui x)"
      by (simp add: ze)
  qed
qed

section \<open>Properties\<close>

text \<open>
  C11. A v0.6 run that returns is authenticated and every round was answered: for any number of rounds, no
  negative test was selected (those never return), the user confirmed the SAS of this session and
  FINISHED\_P carried its MAC; there is one result per round, in order, with sequence number \<open>i\<close> in
  both directions; and the notification of round \<open>i\<close> decrypts under the peripheral-to-central key to
  PONG \<open>i\<close>.
\<close>

theorem phase6_runner_sound:
  assumes "run_phase6_bidirectional B C r urandom tiv ivs rounds ui neg (new_runner c) = (Inr res, t)"
  shows "neg = None \<and> length (r6_round_trips res) = nat rounds \<and> (\<forall>i < nat rounds. round_trip_ok i (r6_round_trips res ! i))
    \<and> (\<exists>x k. authenticated6 B C r urandom ui x \<and> r6_sas res = s5_sas x
        \<and> derive_phase6_traffic_keys (k5_application (s5_keys x)) = Inr k
        \<and> (\<forall>i < nat rounds. \<exists>ops ch ch'. ch_key ch = k6_peripheral_to_central k
            \<and> channel_decrypt C MSG_TYPE_DATA ch (bl_queue B ops ! (2 + i)) = (Inr (p6_pong i), ch')))"
proof -
  obtain s0 s1 s2 s3 s4 s5 s6 ct sid c2p p2c c2p' p2c' where n: "neg = None" and st: "runC (start_notify B) (new_runner c) = (Inr (), s0)"
    "phase6_prepare B C r urandom s0 = (Inr (ct, sid, r6_sas res), s1)" "phase6_start B ct sid s1 = (Inr (), s2)"
    "phase6_confirm B ui (r6_sas res) s2 = (Inr (), s3)" "phase6_finished B s3 = (Inr (), s4)"
    "phase6_traffic sid s4 = (Inr (c2p, p2c), s5)"
    "loopM (phase6_round B C ivs) [0..<nat rounds] (c2p, p2c, []) s5 = (Inr (c2p', p2c', r6_round_trips res), s6)"
    using run_phase6_Inr [OF assms] by blast
  have "rn_taken s0 = 0" using st(1) by (auto simp: runC_Inr new_runner_def)
  then obtain x where x: "authenticated6 B C r urandom ui x" "r6_sas res = s5_sas x" "rn_taken s4 = 2"
    "rn_buf s4 ''application_root_buffer'' = k5_application (s5_keys x)"
    using phase6_stages_authenticated [OF _ st(2-5)] by blast
  obtain k where k: "derive_phase6_traffic_keys (k5_application (s5_keys x)) = Inr k" "rn_taken s5 = 2"
    "ch_key p2c = k6_peripheral_to_central k"
    using phase6_traffic_Inr [OF st(6)] x(3,4) by (auto simp: SecureChannel_init_Inr)
  show ?thesis using phase6_rounds_Inr [OF st(7)] n x(1,2) k by auto
qed

lemma demo_run6:
  assumes "1 \<le> n" and "n \<le> 256 ^ 4"
  obtains res t d where "run_phase6_bidirectional demo_peer6 demo_crypto 5 (replicate 16 1) [] (\<lambda>_. replicate 12 1) (int n)
       (Sas5Callback (\<lambda>_. Inr True)) None (new_runner demo_client) = (Inr res, t)" and "WriteChar CHAR_DATA d \<in> set (bc_ops (rn_client t))"
proof -
  obtain x ct ss where d: "encapsulate demo_crypto 5 (replicate 1184 3) = (ct, ss)"
    "session5_of demo_crypto (replicate 16 1) (replicate 1184 3) ct ss x" by (rule demo_session5)
  show thesis
    using phase6_honest_run [OF demo_peer6(1) _ demo_client_fresh demo_kem_laws demo_hkdf_laws demo_aead_laws demo_keypair d(1) _ d(2) yes_confirms6
        _ _ assms demo_peer6(2), of "\<lambda>_. replicate 12 1" "[]"] that by auto
qed

theorem phase6_runner_sound_witness:
  "\<exists>res t. run_phase6_bidirectional demo_peer6 demo_crypto 5 (replicate 16 1) [] (\<lambda>_. replicate 12 1) 4
       (Sas5Callback (\<lambda>_. Inr True)) None (new_runner demo_client) = (Inr res, t)
     \<and> length (r6_round_trips res) = 4 \<and> round_trip_ok 3 (r6_round_trips res ! 3)"
proof -
  obtain res t d where r: "run_phase6_bidirectional demo_peer6 demo_crypto 5 (replicate 16 1) [] (\<lambda>_. replicate 12 1) (int 4)
       (Sas5Callback (\<lambda>_. Inr True)) None (new_runner demo_client) = (Inr res, t)" by (rule demo_run6 [of 4]) auto
  have "length (r6_round_trips res) = 4 \<and> round_trip_ok 3 (r6_round_trips res ! 3)" using phase6_runner_sound [OF r] by simp
  then show ?thesis using r by auto
qed

text \<open>
  C10. The v0.6 run always terminates successfully with an honest Peripheral, whatever the number of
  rounds. The Peripheral is a state machine that answers what it is sent: it reassembles and decapsulates
  the fragments it received, computes its session with the session id of START5, opens it only on the
  FINISHED\_C of that session, and answers only the PING of the current round, decrypted under the
  central-to-peripheral key, with its PONG. Over a working link, from a client that has written nothing
  yet, and with a user who confirms the SAS, the run returns, and the Peripheral has then accepted \<open>n\<close>
  PINGs and sent \<open>n\<close> PONGs; \<open>n\<close> may be anything from 1 to 2 to the 32.
\<close>

theorem phase6_runner_end_to_end:
  assumes "live_link B pk" "bc_client c \<noteq> None" "list_all (\<lambda>x. \<not> is_write x) (bc_ops c)"
    and "kem_laws C" "hkdf_laws C" "aead_laws C"
    and "kem_keypair C seed = (pk, sk)" "encapsulate C r pk = (ct, ss)" and "length sid = SESSION_ID_SIZE"
    and "session5_of C sid pk ct ss x" and "p6_confirm_sas ui (s5_sas x) = Inr True"
    and "\<And>i. length (ivs i) = 12" "\<And>i. length (pivs i) = 12" and "1 \<le> n" "n \<le> 256 ^ 4"
    and "honest_peer6 B C pk sk pivs"
  shows "\<exists>t rts recv send. run_phase6_bidirectional B C r sid tiv ivs (int n) ui None (new_runner c)
      = (Inr \<lparr> r6_round_trips = rts, r6_sas = s5_sas x \<rparr>, t)
    \<and> pe_channels (peer6_run C pk sk pivs (bc_ops (rn_client t))) = Some (recv, send)
    \<and> ch_recv_count recv = int n \<and> ch_sent_count send = int n"
  using phase6_honest_run [where ivs = ivs and tiv = tiv, OF assms] by blast

theorem phase6_runner_end_to_end_witness:
  "\<exists>res t. run_phase6_bidirectional demo_peer6 demo_crypto 5 (replicate 16 1) [] (\<lambda>_. replicate 12 1) 300
       (Sas5Callback (\<lambda>_. Inr True)) None (new_runner demo_client) = (Inr res, t)"
proof -
  obtain x ct ss where d: "encapsulate demo_crypto 5 (replicate 1184 3) = (ct, ss)"
    "session5_of demo_crypto (replicate 16 1) (replicate 1184 3) ct ss x" by (rule demo_session5)
  show ?thesis
    using phase6_runner_end_to_end [OF demo_peer6(1) _ demo_client_fresh demo_kem_laws demo_hkdf_laws demo_aead_laws demo_keypair d(1) _ d(2) yes_confirms6
        _ _ _ _ demo_peer6(2), of "\<lambda>_. replicate 12 1" 300 "[]"] by auto
qed

text \<open>
  Whatever happens in a v0.6 run, for any number of rounds and in every test mode, the shared secret,
  the application root key, both FINISHED values and both traffic keys are zero when it ends.
\<close>

theorem phase6_runner_wipes:
  "list_all (\<lambda>n. wiped (rn_buf (snd (run_phase6_bidirectional B C r urandom tiv ivs rounds ui neg (new_runner c))) n)) phase6_sensitive"
  unfolding run_phase6_bidirectional_def list_all_iff
  by (intro ballI wipes_after_check check_keeps with_notify_wipes) (simp_all add: new_runner_def)

text \<open>
  C12. The v0.6 Central writes application data only to an authenticated peer: if a run without a negative
  test has written to the data characteristic, then the user confirmed the SAS of this session and the second
  notification was the FINISHED\_P frame with its MAC.
\<close>

theorem phase6_data_needs_authentication:
  assumes "WriteChar CHAR_DATA d \<in> set (bc_ops (rn_client (snd
             (run_phase6_bidirectional B C r urandom tiv ivs rounds ui None (new_runner c)))))"
    and "WriteChar CHAR_DATA d \<notin> set (bc_ops c)"
  shows "\<exists>x. authenticated6 B C r urandom ui x"
proof -
  let ?P = "\<lambda>p. \<forall>d. p \<noteq> WriteChar CHAR_DATA d" and ?s = "new_runner c" and ?Q = "\<exists>x. authenticated6 B C r urandom ui x"
  have "ops_within ?P ?s (snd (run_phase6_bidirectional B C r urandom tiv ivs rounds ui None ?s)) \<or> ?Q"
    unfolding run_phase6_bidirectional_def option.distinct if_False
    by (intro within_or_seq within_or_notify within_pure phase6_body_gated refl)
      (auto simp: needM_Inr require_client_Inr runC_Inr new_runner_def ops_within_refl)
  then show ?thesis using assms by (auto simp: ops_within_def new_runner_def)
qed

theorem phase6_data_needs_authentication_witness:
  "\<exists>x. authenticated6 demo_peer6 demo_crypto 5 (replicate 16 1) (Sas5Callback (\<lambda>_. Inr True)) x"
proof -
  obtain res t w where r: "run_phase6_bidirectional demo_peer6 demo_crypto 5 (replicate 16 1) [] (\<lambda>_. replicate 12 1) (int 2)
       (Sas5Callback (\<lambda>_. Inr True)) None (new_runner demo_client) = (Inr res, t)" "WriteChar CHAR_DATA w \<in> set (bc_ops (rn_client t))"
    by (rule demo_run6 [of 2]) auto
  have "WriteChar CHAR_DATA w \<notin> set (bc_ops demo_client)" by (simp add: demo_client_def BLECentralClient_init_def)
  then show ?thesis
    using phase6_data_needs_authentication [of w demo_peer6 demo_crypto 5 "replicate 16 1" "[]" "\<lambda>_. replicate 12 1" 2
        "Sas5Callback (\<lambda>_. Inr True)" demo_client] r by auto
qed

end
