(* ===== verification/Phase7_Runner.thy ===== *)
theory Phase7_Runner
  imports Phase6_Runner Phase7
begin

text \<open>
  The two v0.7 runners of the Central: \<open>src/central/phase7_hybrid.py\<close>, the unauthenticated hybrid key
  agreement with its diagnostic, and \<open>src/central/phase7_auth.py\<close>, the authenticated hybrid handshake
  with three rounds of application traffic and seven negative tests. The P-256 private key (named by
  its scalar), the session id and the GCM initialisation vectors are the random values the run draws.
\<close>

section \<open>The hybrid diagnostic run (phase7\_hybrid.py)\<close>

text \<open>\<open>try: m except ValueError as exc: raise Phase7HybridError(str(exc)) from exc\<close>.\<close>

definition value_errorM :: "('s, 'a) meth \<Rightarrow> ('s, 'a) meth" where
  "value_errorM m = catchM is_ValueError (\<lambda>e. liftR (Inl (ProtocolError (exn_text e)))) m"

definition phase7_hybrid_sensitive :: "string list" where
  "phase7_hybrid_sensitive = [''ss_mlkem'', ''ss_ecdh'', ''application_key'', ''expected_diagnostic'']"

definition phase7_hybrid_start ::
  "bleak \<Rightarrow> third_party \<Rightarrow> nat \<Rightarrow> nat \<Rightarrow> bytes \<Rightarrow> (runner, bytes \<times> bytes \<times> bytes \<times> bytes) meth" where
  "phase7_hybrid_start B C r private_key urandom =
     bindM (readM (\<lambda>s. requireR (client_mtu_size B (rn_client s) \<ge> int PHASE7_READY7_CP2_FRAME_SIZE + 3)
              (ProtocolError ''CP2 requires negotiated ATT MTU >= 108''))) (\<lambda>_.
     bindM (runC (read_fragmented_public_key B)) (\<lambda>public_key.
     seqM (needM (length public_key = PHASE7_MLKEM_PUBLIC_KEY_SIZE)
             (ProtocolError ''ML-KEM public key must be 1184 bytes'')) (
     bindM (liftR (serialize_p256_public_key C private_key)) (\<lambda>central_public_key.
     let (ciphertext, shared_secret) = encapsulate C r public_key
     in seqM (setM (set_buf ''ss_mlkem'' shared_secret)) (
     seqM (needM (length ciphertext = PHASE7_MLKEM_CIPHERTEXT_SIZE)
             (ProtocolError ''ML-KEM ciphertext must be 1088 bytes'')) (
     seqM (needM (length shared_secret = PHASE7_SHARED_SECRET_SIZE)
             (ProtocolError ''ML-KEM shared secret must be 32 bytes'')) (
     let session_id = take PHASE7_SESSION_ID_SIZE urandom
     in bindM (liftR (encode_start7 C session_id central_public_key)) (\<lambda>start7.
     bindM (runC (write_fragmented_ciphertext B ciphertext)) (\<lambda>_.
     seqM (runC (send_control B start7)) (
     retM (session_id, public_key, ciphertext, central_public_key)))))))))))"

definition phase7_hybrid_check ::
  "third_party \<Rightarrow> nat \<Rightarrow> bytes \<times> bytes \<times> bytes \<times> bytes \<Rightarrow> bytes \<Rightarrow> (runner, nat) meth" where
  "phase7_hybrid_check C private_key started response =
     (case started of (session_id, public_key, ciphertext, central_public_key) \<Rightarrow>
     bindM (liftR (parse_phase7_frame C response)) (\<lambda>frame.
     seqM (needM (f7_subtype frame \<noteq> PHASE7_ERROR) (ProtocolError ''Peripheral PQS7 ERROR'')) (
     bindM (liftR (parse_ready7_cp2 C response)) (\<lambda>(peripheral_public_key, diagnostic).
     bindM (liftR (derive_p256_ecdh_shared_secret C private_key (PeerBytes peripheral_public_key))) (\<lambda>ss_ecdh.
     seqM (setM (set_buf ''ss_ecdh'' ss_ecdh)) (
     bindM (liftR (compute_phase7_transcript_hash session_id public_key ciphertext
              central_public_key peripheral_public_key)) (\<lambda>transcript_hash.
     bindM (readM (\<lambda>s. derive_phase7_keys C (rn_buf s ''ss_mlkem'') (rn_buf s ''ss_ecdh'') transcript_hash)) (\<lambda>keys.
     seqM (setM (set_buf ''application_key'' (k7_application keys))) (
     bindM (readM (\<lambda>s. compute_phase7_cp2_diagnostic (rn_buf s ''application_key'') transcript_hash)) (\<lambda>expected_diagnostic.
     seqM (setM (set_buf ''expected_diagnostic'' expected_diagnostic)) (
     seqM (needM (diagnostic = expected_diagnostic)
             (ProtocolError ''CP2 diagnostic proof: FAIL (hybrid key-agreement mismatch)'')) (
     retM (length response)))))))))))))"

definition run_phase7_hybrid_e2e ::
  "bleak \<Rightarrow> third_party \<Rightarrow> nat \<Rightarrow> nat \<Rightarrow> bytes \<Rightarrow> (runner, nat) meth" where
  "run_phase7_hybrid_e2e B C r private_key urandom =
     seqM (require_client B) (value_errorM (with_notify B (wipe_bufs phase7_hybrid_sensitive) (
     bindM (phase7_hybrid_start B C r private_key urandom) (\<lambda>started.
     bindM (take_notification B (ProtocolError ''Timed out waiting for READY7_CP2 or PQS7 ERROR'')) (\<lambda>response.
     phase7_hybrid_check C private_key started response)))))"

section \<open>Helpers of the authenticated run (phase7\_auth.py)\<close>

definition PHASE7_NEGATIVE_MODES :: "string list" where
  "PHASE7_NEGATIVE_MODES = [''sas-reject'', ''finished-c'', ''pre-auth'', ''c2p-tamper'', ''c2p-replay'',
     ''p2c-tamper'', ''p2c-replay'']"

definition tamper_last_bit :: "bytes \<Rightarrow> bytes result" where
  "tamper_last_bit wire =
     (if wire = [] then Inl (ValueError ''Cannot tamper an empty value'') else Inr (flip_last wire))"

definition require_error_status :: "third_party \<Rightarrow> bytes \<Rightarrow> byte \<Rightarrow> unit result" where
  "require_error_status C raw expected =
     (case parse_phase7_frame C raw of
        Inl e \<Rightarrow> Inl (if is_ValueError e then ProtocolError ''CP4 expected a well-formed PQS7 ERROR'' else e)
      | Inr frame \<Rightarrow>
          if f7_subtype frame \<noteq> PHASE7_ERROR \<or> f7_payload frame \<noteq> [expected]
          then Inl (ProtocolError ''CP4 expected PQS7 ERROR'') else Inr ())"

definition require_quiet :: "bleak \<Rightarrow> (runner, unit) meth" where
  "require_quiet B s =
     (case take_notification B TimeoutError s of
        (Inl _, t) \<Rightarrow>
          if \<not> client_is_connected B (rn_client t)
          then (Inl (ProtocolError ''CP4 connection lost during observation''), t) else (Inr (), t)
      | (Inr _, t) \<Rightarrow> (Inl (ProtocolError ''CP4 unexpected extra notification (FINISHED/data/duplicate)''), t))"

definition preauth_probe :: "third_party \<Rightarrow> bytes \<Rightarrow> bytes \<Rightarrow> bytes \<Rightarrow> bytes result" where
  "preauth_probe C iv application_key session_id =
     bindR (derive_phase7_traffic_keys application_key) (\<lambda>keys.
     bindR (SecureChannel_init (k7_central_to_peripheral keys) (Some session_id) (Some CENTRAL_ROLE)) (\<lambda>ch.
     fst (channel_encrypt C iv ch (ascii ''PING 0'') MSG_TYPE_DATA)))"

definition denied_att_codes :: "int list" where
  "denied_att_codes = [0x03, 0x05, 0x08, 0x0F, 0xFC]"

text \<open>\<open>re.fullmatch(r"Could not write value\b.*: Access Denied", message, re.DOTALL | re.IGNORECASE)\<close>.\<close>

definition write_access_denied :: "string \<Rightarrow> bool" where
  "write_access_denied message =
     (case strip_prefix ''Could not write value'' message of
        None \<Rightarrow> False
      | Some rest \<Rightarrow> word_boundary (Some (CHR ''e'')) rest \<and> length '': Access Denied'' \<le> length rest
          \<and> strip_prefix '': Access Denied'' (drop (length rest - length '': Access Denied'') rest) = Some [])"

definition recognized_rejection :: "exn \<Rightarrow> bool" where
  "recognized_rejection exc =
     (case exc of
        GattExn (GattProtocolError code) \<Rightarrow> code \<in> set denied_att_codes
      | GattExn (BleakError message) \<Rightarrow>
          (case search_re (match_att_pats [''Protocol Error'', ''ATT error:'']) None message of
             Some code \<Rightarrow> code \<in> set denied_att_codes
           | None \<Rightarrow> write_access_denied message)
      | GattExn (OtherError (Some winerror)) \<Rightarrow>
          and winerror 0xFFFFFFFF \<in> set (0x80070005 # map (or 0x80650000) denied_att_codes)
      | _ \<Rightarrow> False)"

definition is_bleak_or_os :: "exn \<Rightarrow> bool" where
  "is_bleak_or_os e = (case e of GattExn _ \<Rightarrow> True | OSError \<Rightarrow> True | TimeoutError \<Rightarrow> True | ConnectionError \<Rightarrow> True | _ \<Rightarrow> False)"

definition require_preauth_rejection :: "bleak \<Rightarrow> bytes \<Rightarrow> (runner, unit) meth" where
  "require_preauth_rejection B wire s =
     (case runC (write_secure_data B wire) s of
        (Inr _, t) \<Rightarrow> (Inl (ProtocolError ''CP4 Peripheral accepted pre-auth Secure Data''), t)
      | (Inl exc, t) \<Rightarrow>
          if \<not> is_bleak_or_os exc then (Inl exc, t)
          else if \<not> client_is_connected B (rn_client t) \<or> exc = TimeoutError \<or> exc = ConnectionError
          then (Inl (ProtocolError ''CP4 write failed due to timeout/disconnection''), t)
          else if \<not> recognized_rejection exc
          then (Inl (ProtocolError ''CP4 write failure is not a recognized BLE write rejection''), t)
          else require_quiet B t)"

definition check_error_frame :: "third_party \<Rightarrow> bytes \<Rightarrow> unit result" where
  "check_error_frame C raw =
     (if take (length PHASE7_FRAME_MAGIC) raw \<noteq> PHASE7_FRAME_MAGIC then Inr ()
      else case parse_phase7_frame C raw of
             Inl e \<Rightarrow> Inl (if is_ValueError e then ProtocolError ''Invalid PQS7 response'' else e)
           | Inr frame \<Rightarrow> if f7_subtype frame = PHASE7_ERROR then Inl (ProtocolError ''Peripheral PQS7 ERROR'') else Inr ())"

definition p7_receive :: "bleak \<Rightarrow> string \<Rightarrow> (runner, bytes) meth" where
  "p7_receive B description = take_notification B (ProtocolError (''Timed out waiting for '' @ description))"

definition p7_confirm_sas :: "sas5_prompt \<Rightarrow> string \<Rightarrow> bool result" where
  "p7_confirm_sas ui sas =
     (case ui of
        Sas5Callback f \<Rightarrow> f sas
      | Sas5Console user \<Rightarrow> Inr (map latin1_lower (py_strip (user sas)) \<in> {''y'', ''yes''}))"

text \<open>\<open>except ValueError as exc: raise Phase7AuthError(...) from exc\<close>.\<close>

definition value_error_as :: "string \<Rightarrow> 'a result \<Rightarrow> 'a result" where
  "value_error_as msg r = (case r of Inl e \<Rightarrow> Inl (if is_ValueError e then ProtocolError msg else e) | Inr x \<Rightarrow> Inr x)"

section \<open>The stages of run\_phase7\_authenticated\_hybrid\<close>

record phase7_result =
  r7_sas :: string
  r7_rounds :: nat

definition phase7_sensitive :: "string list" where
  "phase7_sensitive = [''ss_mlkem'', ''ss_ecdh'', ''application_key'', ''finished_c'', ''expected_finished_p'',
     ''c2p_key_buffer'', ''p2c_key_buffer'']"

definition phase7_start ::
  "bleak \<Rightarrow> third_party \<Rightarrow> nat \<Rightarrow> nat \<Rightarrow> bytes \<Rightarrow> (runner, bytes \<times> bytes \<times> bytes \<times> bytes) meth" where
  "phase7_start B C r private_key urandom =
     bindM (runC (read_fragmented_public_key B)) (\<lambda>public_key.
     seqM (needM (length public_key = PHASE7_MLKEM_PUBLIC_KEY_SIZE) (ProtocolError ''ML-KEM public key has invalid size'')) (
     bindM (liftR (serialize_p256_public_key C private_key)) (\<lambda>central_public_key.
     let (ciphertext, shared_secret) = encapsulate C r public_key
     in seqM (setM (set_buf ''ss_mlkem'' shared_secret)) (
     seqM (needM (length ciphertext = PHASE7_MLKEM_CIPHERTEXT_SIZE) (ProtocolError ''ML-KEM ciphertext has invalid size'')) (
     seqM (needM (length shared_secret = PHASE7_SHARED_SECRET_SIZE)
             (ProtocolError ''ML-KEM shared secret has invalid size'')) (
     let session_id = take PHASE7_SESSION_ID_SIZE urandom
     in bindM (liftR (encode_start7_auth C session_id central_public_key)) (\<lambda>start7.
     bindM (runC (write_fragmented_ciphertext B ciphertext)) (\<lambda>_.
     seqM (runC (send_control B start7)) (
     retM (session_id, public_key, ciphertext, central_public_key))))))))))"

text \<open>READY7\_AUTH, the ECDH and the key schedule; the result is the SAS.\<close>

definition phase7_schedule ::
  "bleak \<Rightarrow> third_party \<Rightarrow> nat \<Rightarrow> bytes \<times> bytes \<times> bytes \<times> bytes \<Rightarrow> (runner, string) meth" where
  "phase7_schedule B C private_key started =
     (case started of (session_id, public_key, ciphertext, central_public_key) \<Rightarrow>
     bindM (p7_receive B ''READY7_AUTH'') (\<lambda>raw_ready.
     seqM (liftR (check_error_frame C raw_ready)) (
     bindM (liftR (value_error_as ''Invalid READY7_AUTH'' (parse_ready7_auth C raw_ready))) (\<lambda>peripheral_public_key.
     bindM (liftR (derive_p256_ecdh_shared_secret C private_key (PeerBytes peripheral_public_key))) (\<lambda>ss_ecdh.
     seqM (setM (set_buf ''ss_ecdh'' ss_ecdh)) (
     bindM (liftR (compute_phase7_transcript_hash session_id public_key ciphertext
              central_public_key peripheral_public_key)) (\<lambda>transcript_hash.
     bindM (readM (\<lambda>s. derive_phase7_keys C (rn_buf s ''ss_mlkem'') (rn_buf s ''ss_ecdh'') transcript_hash)) (\<lambda>keys.
     seqM (setM (wipe_bufs [''ss_mlkem'', ''ss_ecdh''])) (
     seqM (setM (set_buf ''application_key'' (k7_application keys))) (
     bindM (liftR (compute_phase7_finished_c (k7_finished_c keys) transcript_hash)) (\<lambda>fc.
     seqM (setM (set_buf ''finished_c'' fc)) (
     bindM (liftR (compute_phase7_finished_p (k7_finished_p keys) transcript_hash)) (\<lambda>fp.
     seqM (setM (set_buf ''expected_finished_p'' fp)) (
     liftR (bindR (compute_phase7_sas (k7_sas keys) transcript_hash) format_phase7_sas)))))))))))))))"

definition probe_bytes :: "bytes option \<Rightarrow> bytes" where
  "probe_bytes preauth_wire = (case preauth_wire of None \<Rightarrow> [] | Some w \<Rightarrow> w)"

definition phase7_probe ::
  "bleak \<Rightarrow> third_party \<Rightarrow> bytes \<Rightarrow> string option \<Rightarrow> bytes \<Rightarrow> (runner, bytes option) meth" where
  "phase7_probe B C probe_iv negative_test session_id =
     bindM (if negative_test \<in> {Some ''sas-reject'', Some ''finished-c'', Some ''pre-auth''}
            then bindM (readM (\<lambda>s. preauth_probe C probe_iv (rn_buf s ''application_key'') session_id)) (\<lambda>w. retM (Some w))
            else retM None) (\<lambda>preauth_wire.
     seqM (if negative_test = Some ''pre-auth'' then require_preauth_rejection B (probe_bytes preauth_wire) else retM ())
       (retM preauth_wire))"

definition phase7_confirm ::
  "bleak \<Rightarrow> third_party \<Rightarrow> string option \<Rightarrow> sas5_prompt \<Rightarrow> string \<Rightarrow> bytes option \<Rightarrow> (runner, unit) meth" where
  "phase7_confirm B C negative_test ui sas preauth_wire =
     bindM (liftR (p7_confirm_sas ui sas)) (\<lambda>confirmed.
     if \<not> confirmed
     then if negative_test = Some ''sas-reject''
          then seqM (require_preauth_rejection B (probe_bytes preauth_wire))
                 (liftR (Inl (NegativeTestPassed ''SAS rejected; FINISHED_C not sent; Secure Data blocked'')))
          else liftR (Inl (ProtocolError ''SAS rejected; FINISHED_C was not sent''))
     else seqM (needM (negative_test \<noteq> Some ''sas-reject'') (ProtocolError ''CP4 sas-reject requires SAS rejection'')) (
          bindM (readM (\<lambda>s. let fc = rn_buf s ''finished_c''
                           in if negative_test = Some ''finished-c'' then tamper_last_bit fc else Inr fc)) (\<lambda>fc.
          seqM (setM (set_buf ''finished_c'' fc)) (
          bindM (liftR (encode_phase7_finished_c C fc)) (\<lambda>frame.
          seqM (runC (send_control B frame)) (
          setM (wipe_buf ''finished_c'')))))))"

definition phase7_finished ::
  "bleak \<Rightarrow> third_party \<Rightarrow> string option \<Rightarrow> bytes option \<Rightarrow> (runner, unit) meth" where
  "phase7_finished B C negative_test preauth_wire =
     bindM (p7_receive B ''FINISHED_P'') (\<lambda>raw_finished.
     if negative_test = Some ''finished-c''
     then seqM (liftR (require_error_status C raw_finished 0x06)) (
          seqM (require_preauth_rejection B (probe_bytes preauth_wire))
            (liftR (Inl (NegativeTestPassed
               ''tampered FINISHED_C rejected; FINISHED_P not accepted; Secure Data blocked''))))
     else seqM (liftR (check_error_frame C raw_finished)) (
          bindM (liftR (value_error_as ''Invalid FINISHED_P'' (parse_phase7_finished_p C raw_finished))) (\<lambda>received_finished_p.
          seqM (readM (\<lambda>s. requireR (received_finished_p = rn_buf s ''expected_finished_p'')
                  (ProtocolError ''Peripheral FINISHED verification failed''))) (
          setM (wipe_buf ''expected_finished_p'')))))"

text \<open>The directional traffic keys and the two channels.\<close>

definition phase7_traffic :: "bytes \<Rightarrow> (runner, secure_channel \<times> secure_channel) meth" where
  "phase7_traffic session_id =
     bindM (readM (\<lambda>s. derive_phase7_traffic_keys (rn_buf s ''application_key''))) (\<lambda>traffic_keys.
     seqM (setM (set_buf ''c2p_key_buffer'' (k7_central_to_peripheral traffic_keys))) (
     seqM (setM (set_buf ''p2c_key_buffer'' (k7_peripheral_to_central traffic_keys))) (
     seqM (setM (wipe_buf ''application_key'')) (
     bindM (readM (\<lambda>s. SecureChannel_init (rn_buf s ''c2p_key_buffer'') (Some session_id) (Some CENTRAL_ROLE))) (\<lambda>c2p_channel.
     bindM (readM (\<lambda>s. SecureChannel_init (rn_buf s ''p2c_key_buffer'') (Some session_id) (Some CENTRAL_ROLE))) (\<lambda>p2c_channel.
     retM (c2p_channel, p2c_channel)))))))"

section \<open>Application rounds\<close>

definition ping_text :: "nat \<Rightarrow> bytes" where "ping_text round_index = ascii (''PING '' @ str_nat round_index)"
definition pong_text :: "nat \<Rightarrow> bytes" where "pong_text round_index = ascii (''PONG '' @ str_nat round_index)"

text \<open>The wire of a round, before it is sent; \<open>pre-auth\<close> repeats the refused probe in round 0.\<close>

definition phase7_ping_wire ::
  "third_party \<Rightarrow> bytes \<Rightarrow> string option \<Rightarrow> bytes option \<Rightarrow> nat \<Rightarrow> secure_channel \<Rightarrow> (bytes \<times> secure_channel) result" where
  "phase7_ping_wire C iv negative_test preauth_wire round_index c2p_channel =
     (let (r, c2p_channel) = channel_encrypt C iv c2p_channel (ping_text round_index) MSG_TYPE_DATA
      in bindR r (\<lambda>c2p_wire.
         let c2p_wire = (if round_index = 0 \<and> negative_test = Some ''pre-auth'' then probe_bytes preauth_wire else c2p_wire)
         in bindR (requireR (wire_seq c2p_wire = int round_index) (ProtocolError ''Unexpected Phase 7 C->P sequence'')) (\<lambda>_.
            bindR (requireR (length c2p_wire = 43) (ProtocolError ''Unexpected Phase 7 C->P wire size'')) (\<lambda>_.
            Inr (c2p_wire, c2p_channel)))))"

definition phase7_send_ping ::
  "bleak \<Rightarrow> third_party \<Rightarrow> string option \<Rightarrow> nat \<Rightarrow> bytes \<Rightarrow> bool \<Rightarrow> (runner, bool) meth" where
  "phase7_send_ping B C negative_test round_index c2p_wire negative_checked =
     (let tampers = (round_index = 0 \<and> negative_test = Some ''c2p-tamper'')
      in seqM (if tampers
               then bindM (liftR (tamper_last_bit c2p_wire)) (\<lambda>bad.
                    seqM (runC (write_secure_data B bad)) (
                    bindM (p7_receive B ''C->P tag rejection'') (\<lambda>raw.
                    seqM (liftR (require_error_status C raw 0x06)) (require_quiet B))))
               else retM ()) (
         seqM (runC (write_secure_data B c2p_wire)) (
         retM (negative_checked \<or> tampers))))"

text \<open>The local tampering test of a received wire.\<close>

definition phase7_tamper_pong :: "third_party \<Rightarrow> secure_channel \<Rightarrow> bytes \<Rightarrow> secure_channel result" where
  "phase7_tamper_pong C p2c_channel raw_response =
     bindR (tamper_last_bit raw_response) (\<lambda>bad.
     let (r, ch) = channel_decrypt C MSG_TYPE_DATA p2c_channel bad
     in case r of
          Inl InvalidTag \<Rightarrow>
            if ch_recv_count ch \<noteq> ch_recv_count p2c_channel
            then Inl (ProtocolError ''CP4 P->C tag failure advanced receive count'') else Inr ch
        | Inl e \<Rightarrow> Inl e
        | Inr _ \<Rightarrow> Inl (ProtocolError ''CP4 Central accepted tampered P->C tag''))"

definition phase7_open_pong ::
  "third_party \<Rightarrow> string option \<Rightarrow> nat \<Rightarrow> secure_channel \<Rightarrow> bytes \<Rightarrow> bool \<Rightarrow> (secure_channel \<times> bool) result" where
  "phase7_open_pong C negative_test round_index p2c_channel raw_response negative_checked =
     bindR (check_error_frame C raw_response) (\<lambda>_.
     bindR (requireR (length raw_response = 43) (ProtocolError ''Unexpected Phase 7 P->C wire size'')) (\<lambda>_.
     bindR (requireR (wire_seq raw_response = int round_index) (ProtocolError ''Unexpected Phase 7 P->C sequence'')) (\<lambda>_.
     let tampers = (round_index = 0 \<and> negative_test = Some ''p2c-tamper'')
     in bindR (if tampers then phase7_tamper_pong C p2c_channel raw_response else Inr p2c_channel) (\<lambda>p2c_channel.
     let (r, p2c_channel) = channel_decrypt C MSG_TYPE_DATA p2c_channel raw_response
     in bindR (case r of
                 Inl e \<Rightarrow> Inl (if e = InvalidTag \<or> is_ValueError e
                               then ProtocolError ''Phase 7 P->C AES-256-GCM verification failed'' else e)
               | Inr p \<Rightarrow> Inr p) (\<lambda>plaintext.
     bindR (requireR (plaintext = pong_text round_index) (ProtocolError ''Unexpected Phase 7 P->C plaintext'')) (\<lambda>_.
     Inr (p2c_channel, negative_checked \<or> tampers)))))))"

text \<open>The local replay test of an accepted wire.\<close>

definition phase7_replay_pong :: "third_party \<Rightarrow> secure_channel \<Rightarrow> bytes \<Rightarrow> secure_channel result" where
  "phase7_replay_pong C p2c_channel raw_response =
     (let (r, ch) = channel_decrypt C MSG_TYPE_DATA p2c_channel raw_response
      in case r of
           Inr _ \<Rightarrow> Inl (ProtocolError ''CP4 Central accepted P->C replay'')
         | Inl e \<Rightarrow>
             if is_ValueError e
             then if take 22 (exn_text e) \<noteq> ''Replay or out-of-order''
                  then Inl (ProtocolError ''CP4 expected P->C replay rejection'')
                  else if ch_recv_count ch \<noteq> ch_recv_count p2c_channel
                  then Inl (ProtocolError ''CP4 P->C replay advanced receive count'') else Inr ch
             else Inl (if e = InvalidTag then ProtocolError ''CP4 P->C replay reached tag verification'' else e))"

definition phase7_after_pong ::
  "bleak \<Rightarrow> third_party \<Rightarrow> string option \<Rightarrow> nat \<Rightarrow> bytes \<Rightarrow> bytes \<Rightarrow> secure_channel \<Rightarrow> bool \<Rightarrow> (runner, secure_channel \<times> bool) meth" where
  "phase7_after_pong B C negative_test round_index c2p_wire raw_response p2c_channel negative_checked =
     (if round_index = 0 \<and> negative_test = Some ''c2p-replay''
      then seqM (runC (write_secure_data B c2p_wire)) (
           bindM (p7_receive B ''C->P replay rejection'') (\<lambda>raw.
           seqM (liftR (require_error_status C raw 0x04)) (
           seqM (require_quiet B) (retM (p2c_channel, True)))))
      else if round_index = 0 \<and> negative_test = Some ''p2c-replay''
      then bindM (liftR (phase7_replay_pong C p2c_channel raw_response)) (\<lambda>ch. retM (ch, True))
      else retM (p2c_channel, negative_checked))"

definition phase7_round ::
  "bleak \<Rightarrow> third_party \<Rightarrow> (nat \<Rightarrow> bytes) \<Rightarrow> string option \<Rightarrow> bytes option \<Rightarrow> nat
     \<Rightarrow> secure_channel \<times> secure_channel \<times> bool \<Rightarrow> (runner, secure_channel \<times> secure_channel \<times> bool) meth" where
  "phase7_round B C ivs negative_test preauth_wire round_index loop_state =
     (case loop_state of (c2p_channel, p2c_channel, negative_checked) \<Rightarrow>
     bindM (liftR (phase7_ping_wire C (ivs round_index) negative_test preauth_wire round_index c2p_channel)) (\<lambda>(c2p_wire, c2p_channel).
     bindM (phase7_send_ping B C negative_test round_index c2p_wire negative_checked) (\<lambda>negative_checked.
     bindM (p7_receive B ''Phase 7 P->C secure response'') (\<lambda>raw_response.
     bindM (liftR (phase7_open_pong C negative_test round_index p2c_channel raw_response negative_checked))
       (\<lambda>(p2c_channel, negative_checked).
     bindM (phase7_after_pong B C negative_test round_index c2p_wire raw_response p2c_channel negative_checked)
       (\<lambda>(p2c_channel, negative_checked).
     retM (c2p_channel, p2c_channel, negative_checked)))))))"

definition phase7_conclude :: "bleak \<Rightarrow> string option \<Rightarrow> bool \<Rightarrow> string \<Rightarrow> (runner, phase7_result) meth" where
  "phase7_conclude B negative_test negative_checked sas =
     (if negative_test \<noteq> None
      then seqM (needM negative_checked (ProtocolError ''CP4 negative mode reached positive result'')) (
           seqM (require_quiet B)
             (liftR (Inl (NegativeTestPassed ''expected rejection and PING/PONG 0/1/2 verified''))))
      else retM \<lparr> r7_sas = sas, r7_rounds = 3 \<rparr>)"

section \<open>The whole run\<close>

text \<open>
  \<open>with_notify\<close> with the clean-up of this runner: in a negative test a failing \<open>stop_notify\<close> is itself
  an error, which replaces the outcome.
\<close>

definition with_notify_strict :: "bleak \<Rightarrow> bool \<Rightarrow> (runner \<Rightarrow> runner) \<Rightarrow> (runner, 'a) meth \<Rightarrow> (runner, 'a) meth" where
  "with_notify_strict B strict cleanup body s =
     (case runC (start_notify B) s of
        (Inl e, t) \<Rightarrow> (Inl e, cleanup t)
      | (Inr _, t) \<Rightarrow>
          (let (r, u) = body t; (r', v) = runC (stop_notify B) (cleanup u)
           in case r' of
                Inl _ \<Rightarrow> (if strict then Inl (ProtocolError ''CP4 notification cleanup failed'') else r, v)
              | Inr _ \<Rightarrow> (r, v)))"

text \<open>\<open>sas-reject\<close> without a callback answers for the user.\<close>

definition effective_ui :: "string option \<Rightarrow> sas5_prompt \<Rightarrow> sas5_prompt" where
  "effective_ui neg ui =
     (case ui of Sas5Console _ \<Rightarrow> if neg = Some ''sas-reject'' then Sas5Callback (\<lambda>_. Inr False) else ui | _ \<Rightarrow> ui)"

definition run_phase7_authenticated_hybrid ::
  "bleak \<Rightarrow> third_party \<Rightarrow> nat \<Rightarrow> nat \<Rightarrow> bytes \<Rightarrow> bytes \<Rightarrow> (nat \<Rightarrow> bytes) \<Rightarrow> sas5_prompt \<Rightarrow> seconds \<Rightarrow> string option
     \<Rightarrow> (runner, phase7_result) meth" where
  "run_phase7_authenticated_hybrid B C r private_key urandom probe_iv ivs ui notification_timeout negative_test =
     seqM (needM (case negative_test of None \<Rightarrow> True | Some t \<Rightarrow> t \<in> set PHASE7_NEGATIVE_MODES)
             (ProtocolError ''Unknown Phase 7 negative test'')) (
     seqM (needM (notification_timeout > 0) (ProtocolError ''notification_timeout must be positive'')) (
     seqM (require_client B) (
     let ui = effective_ui negative_test ui
     in with_notify_strict B (negative_test \<noteq> None) (wipe_bufs phase7_sensitive) (
        bindM (phase7_start B C r private_key urandom) (\<lambda>started.
        bindM (phase7_schedule B C private_key started) (\<lambda>sas.
        bindM (phase7_probe B C probe_iv negative_test (fst started)) (\<lambda>preauth_wire.
        seqM (phase7_confirm B C negative_test ui sas preauth_wire) (
        seqM (phase7_finished B C negative_test preauth_wire) (
        bindM (phase7_traffic (fst started)) (\<lambda>(c2p_channel, p2c_channel).
        bindM (loopM (phase7_round B C ivs negative_test preauth_wire) [0, 1, 2]
                 (c2p_channel, p2c_channel, negative_test = Some ''pre-auth'')) (\<lambda>(_, _, negative_checked).
        phase7_conclude B negative_test negative_checked sas)))))))))))"

section \<open>Lemmas\<close>

lemma p7_receive_Inr:
  "p7_receive B d s = (Inr w, t) \<longleftrightarrow>
     (let ops = bc_ops (rn_client s) @ [AwaitNotify] in rn_taken s < length (bl_queue B ops) \<and> w = bl_queue B ops ! rn_taken s
        \<and> t = s\<lparr> rn_client := (rn_client s)\<lparr> bc_ops := ops \<rparr>, rn_taken := rn_taken s + 1 \<rparr>)"
  unfolding p7_receive_def by (rule take_notification_Inr)

lemma value_error_as_Inr [simp]: "value_error_as m r = Inr x \<longleftrightarrow> r = Inr x"
  by (auto simp: value_error_as_def split: sum.splits)

subsection \<open>Key schedule\<close>

text \<open>What both ends compute from one hybrid key exchange.\<close>

record session7 =
  s7_hash :: bytes
  s7_keys :: phase7_keys
  s7_sas :: string
  s7_fc :: bytes
  s7_fp :: bytes

definition session7_of :: "third_party \<Rightarrow> bytes \<times> bytes \<times> bytes \<times> bytes \<Rightarrow> bytes \<Rightarrow> bytes \<Rightarrow> bytes \<Rightarrow> session7 \<Rightarrow> bool" where
  "session7_of C started ppk ss se x \<longleftrightarrow>
     (case started of (sid, pk, ct, cpk) \<Rightarrow> compute_phase7_transcript_hash sid pk ct cpk ppk = Inr (s7_hash x))
     \<and> derive_phase7_keys C ss se (s7_hash x) = Inr (s7_keys x)
     \<and> bindR (compute_phase7_sas (k7_sas (s7_keys x)) (s7_hash x)) format_phase7_sas = Inr (s7_sas x)
     \<and> compute_phase7_finished_c (k7_finished_c (s7_keys x)) (s7_hash x) = Inr (s7_fc x)
     \<and> compute_phase7_finished_p (k7_finished_p (s7_keys x)) (s7_hash x) = Inr (s7_fp x)"

lemma phase7_start_Inr:
  assumes "phase7_start B C r priv u s = (Inr st, t)"
  shows "rn_taken t = rn_taken s \<and> (\<exists>pk ct ss cpk start7. st = (take 16 u, pk, ct, cpk) \<and> encapsulate C r pk = (ct, ss)
    \<and> serialize_p256_public_key C priv = Inr cpk \<and> encode_start7_auth C (take 16 u) cpk = Inr start7
    \<and> rn_buf t ''ss_mlkem'' = ss)"
  using assms
  by (clarsimp simp: phase7_start_def Let_def case_prod_unfold stage_Inr buf_simps)

lemma phase7_schedule_Inr:
  assumes "phase7_schedule B C priv st s = (Inr sas, t)"
  shows "rn_taken t = rn_taken s + 1 \<and> (\<exists>ops ppk se x. encode_ready7_auth C ppk = Inr (bl_queue B ops ! rn_taken s)
    \<and> derive_p256_ecdh_shared_secret C priv (PeerBytes ppk) = Inr se
    \<and> session7_of C st ppk (rn_buf s ''ss_mlkem'') se x \<and> sas = s7_sas x
    \<and> rn_buf t ''application_key'' = k7_application (s7_keys x) \<and> rn_buf t ''finished_c'' = s7_fc x
    \<and> rn_buf t ''expected_finished_p'' = s7_fp x)"
proof -
  obtain raw u1 ppk se th keys fc fp where st: "p7_receive B ''READY7_AUTH'' s = (Inr raw, u1)"
    "parse_ready7_auth C raw = Inr ppk" "derive_p256_ecdh_shared_secret C priv (PeerBytes ppk) = Inr se"
    "(case st of (sid, pk, ct, cpk) \<Rightarrow> compute_phase7_transcript_hash sid pk ct cpk ppk) = Inr th"
    "derive_phase7_keys C (rn_buf u1 ''ss_mlkem'') se th = Inr keys"
    "compute_phase7_finished_c (k7_finished_c keys) th = Inr fc" "compute_phase7_finished_p (k7_finished_p keys) th = Inr fp"
    "bindR (compute_phase7_sas (k7_sas keys) th) format_phase7_sas = Inr sas"
    "t = set_buf ''expected_finished_p'' fp (set_buf ''finished_c'' fc (set_buf ''application_key'' (k7_application keys)
       (wipe_bufs [''ss_mlkem'', ''ss_ecdh''] (set_buf ''ss_ecdh'' se u1))))"
    using assms unfolding phase7_schedule_def
    by (clarsimp simp: buf_simps split: prod.splits simp del: bindR_eq_Inr)
  let ?x = "\<lparr> s7_hash = th, s7_keys = keys, s7_sas = sas, s7_fc = fc, s7_fp = fp \<rparr>"
  have "session7_of C st ppk (rn_buf s ''ss_mlkem'') se ?x"
    using st by (auto simp: p7_receive_Inr Let_def session7_of_def split: prod.splits)
  moreover obtain ops where "encode_ready7_auth C ppk = Inr (bl_queue B ops ! rn_taken s)"
    using st(1,2) by (auto simp: p7_receive_Inr Let_def parse_ready7_auth_exact)
  moreover have "rn_taken u1 = rn_taken s + 1" using st(1) by (auto simp: p7_receive_Inr Let_def)
  moreover have "rn_buf t ''application_key'' = k7_application (s7_keys ?x) \<and> rn_buf t ''finished_c'' = s7_fc ?x
      \<and> rn_buf t ''expected_finished_p'' = s7_fp ?x \<and> sas = s7_sas ?x \<and> rn_taken t = rn_taken u1"
    using st(9) by (simp add: buf_simps)
  ultimately show ?thesis using st(3) by metis
qed

lemma phase7_confirm_Inr:
  "phase7_confirm B C neg ui sas pre s = (Inr (), t) \<Longrightarrow> p7_confirm_sas ui sas = Inr True \<and> rn_taken t = rn_taken s
     \<and> rn_buf t ''application_key'' = rn_buf s ''application_key''
     \<and> rn_buf t ''expected_finished_p'' = rn_buf s ''expected_finished_p''"
  by (auto simp: phase7_confirm_def stage_Inr Let_def buf_simps split: if_splits)

lemma phase7_finished_Inr:
  "phase7_finished B C neg pre s = (Inr (), t) \<Longrightarrow> rn_taken t = rn_taken s + 1
     \<and> rn_buf t ''application_key'' = rn_buf s ''application_key''
     \<and> (\<exists>ops. encode_phase7_finished_p C (rn_buf s ''expected_finished_p'') = Inr (bl_queue B ops ! rn_taken s))"
  by (auto simp: phase7_finished_def p7_receive_Inr Let_def buf_simps parse_finished_exact split: if_splits)

lemma phase7_traffic_Inr:
  "phase7_traffic sid s = (Inr (c2p, p2c), t) \<Longrightarrow> rn_taken t = rn_taken s
     \<and> (\<exists>k. derive_phase7_traffic_keys (rn_buf s ''application_key'') = Inr k
       \<and> SecureChannel_init (k7_central_to_peripheral k) (Some sid) (Some CENTRAL_ROLE) = Inr c2p
       \<and> SecureChannel_init (k7_peripheral_to_central k) (Some sid) (Some CENTRAL_ROLE) = Inr p2c)"
  by (auto simp: phase7_traffic_def buf_simps)

lemma channel_decrypt_key: "ch_key (snd (channel_decrypt C mt ch w)) = ch_key ch"
  by (auto simp: channel_decrypt_def Let_def split: sum.splits option.splits)

lemma phase7_open_pong_None:
  "phase7_open_pong C None i p2c raw chk = Inr (p2c', chk') \<Longrightarrow>
     channel_decrypt C MSG_TYPE_DATA p2c raw = (Inr (pong_text i), p2c') \<and> wire_seq raw = int i \<and> chk' = chk"
  by (cases "channel_decrypt C MSG_TYPE_DATA p2c raw")
    (auto simp: phase7_open_pong_def Let_def split: sum.splits)

lemma phase7_round_None:
  assumes "phase7_round B C ivs None pre i (c2p, p2c, chk) s = (Inr (c2p', p2c', chk'), t)"
  shows "rn_taken t = rn_taken s + 1 \<and> ch_key p2c' = ch_key p2c
    \<and> (\<exists>ops. channel_decrypt C MSG_TYPE_DATA p2c (bl_queue B ops ! rn_taken s) = (Inr (pong_text i), p2c'))"
proof -
  obtain w u1 raw u2 where st: "phase7_send_ping B C None i w chk s = (Inr chk, u1)"
    "p7_receive B ''Phase 7 P->C secure response'' u1 = (Inr raw, u2)"
    "phase7_open_pong C None i p2c raw chk = Inr (p2c', chk')" "t = u2"
    using assms by (auto simp: phase7_round_def phase7_after_pong_def phase7_send_ping_def)
  have "rn_taken u1 = rn_taken s" using st(1) by (auto simp: phase7_send_ping_def stage_Inr)
  then show ?thesis
    using st phase7_open_pong_None [OF st(3)] channel_decrypt_key [of C MSG_TYPE_DATA p2c raw]
    by (auto simp: p7_receive_Inr Let_def)
qed

text \<open>A run that returns was not a negative test and has passed every stage.\<close>

lemma with_notify_strict_Inr:
  "with_notify_strict B strict cl body s = (Inr r, t) \<Longrightarrow>
     \<exists>u v. runC (start_notify B) s = (Inr (), u) \<and> body u = (Inr r, v)"
  by (auto simp: with_notify_strict_def Let_def split: prod.splits sum.splits if_splits)

lemma phase7_conclude_Inr:
  "phase7_conclude B neg chk sas s = (Inr res, t) \<Longrightarrow> neg = None \<and> res = \<lparr> r7_sas = sas, r7_rounds = 3 \<rparr> \<and> t = s"
  by (auto simp: phase7_conclude_def split: if_splits)

lemma run_phase7_Inr:
  assumes "run_phase7_authenticated_hybrid B C r priv u piv ivs ui tmo neg s = (Inr res, t)"
  shows "neg = None \<and> (\<exists>s0 s1 s2 s3 s4 s5 st c2p p2c l s6. runC (start_notify B) s = (Inr (), s0)
    \<and> phase7_start B C r priv u s0 = (Inr st, s1) \<and> phase7_schedule B C priv st s1 = (Inr (r7_sas res), s2)
    \<and> phase7_confirm B C None ui (r7_sas res) None s2 = (Inr (), s3) \<and> phase7_finished B C None None s3 = (Inr (), s4)
    \<and> phase7_traffic (fst st) s4 = (Inr (c2p, p2c), s5)
    \<and> loopM (phase7_round B C ivs None None) [0, 1, 2] (c2p, p2c, False) s5 = (Inr l, s6) \<and> r7_rounds res = 3)"
proof -
  obtain s0 v st s1 sas s2 pre s2' s3 s4 c2p p2c s5 l chk s6 where
    run: "runC (start_notify B) s = (Inr (), s0)" "phase7_start B C r priv u s0 = (Inr st, s1)"
    "phase7_schedule B C priv st s1 = (Inr sas, s2)" "phase7_probe B C piv neg (fst st) s2 = (Inr pre, s2')"
    "phase7_confirm B C neg (effective_ui neg ui) sas pre s2' = (Inr (), s3)" "phase7_finished B C neg pre s3 = (Inr (), s4)"
    "phase7_traffic (fst st) s4 = (Inr (c2p, p2c), s5)"
    "loopM (phase7_round B C ivs neg pre) [0, 1, 2] (c2p, p2c, neg = Some ''pre-auth'') s5 = (Inr l, s6)"
    "phase7_conclude B neg chk sas s6 = (Inr res, v)"
    using assms unfolding run_phase7_authenticated_hybrid_def Let_def seqM_Inr
    by (auto dest!: with_notify_strict_Inr simp: needM_Inr require_client_Inr simp del: loopM.simps)
  have n: "neg = None" and res: "r7_sas res = sas" "r7_rounds res = 3" using phase7_conclude_Inr [OF run(9)] by simp_all
  have "pre = None" "s2' = s2" using run(4) n by (auto simp: phase7_probe_def)
  moreover have "effective_ui None ui = ui" by (cases ui) (simp_all add: effective_ui_def)
  ultimately have "phase7_confirm B C None ui sas None s2 = (Inr (), s3)" "phase7_finished B C None None s3 = (Inr (), s4)"
    "loopM (phase7_round B C ivs None None) [0, 1, 2] (c2p, p2c, False) s5 = (Inr l, s6)"
    using run(5,6,8) n by (simp_all del: loopM.simps)
  then show ?thesis using run(1-3,7) n unfolding res by blast
qed

subsection \<open>Which operations a stage performs\<close>

lemma with_notify_strict_state: "snd (with_notify_strict B strict cl body s) = snd (with_notify B cl body s)"
  by (simp add: with_notify_strict_def with_notify_def Let_def case_prod_unfold split: sum.splits)

lemma within_or_strict:
  assumes "P StartNotify" and "P StopNotify" and "\<And>u. runC (start_notify B) s = (Inr (), u) \<Longrightarrow> ops_within P u (snd (body u)) \<or> Q"
    and "\<And>s. bc_ops (rn_client (cl s)) = bc_ops (rn_client s)"
  shows "ops_within P s (snd (with_notify_strict B strict cl body s)) \<or> Q"
  unfolding with_notify_strict_state using assms by (rule within_or_notify)

lemma within_p7_receive: "P AwaitNotify \<Longrightarrow> ops_within P s (snd (p7_receive B d s))"
  unfolding p7_receive_def by (rule within_take)

lemma within_quiet: "P AwaitNotify \<Longrightarrow> ops_within P s (snd (require_quiet B s))"
  using within_take [where P = P and B = B and s = s and e = TimeoutError]
  by (auto simp: require_quiet_def split: prod.splits sum.splits)

lemma within_preauth:
  assumes "P AwaitNotify" and "P (WriteChar CHAR_DATA w)"
  shows "ops_within P s (snd (require_preauth_rejection B w s))"
  using within_data [where P = P and s = s and B = B] within_quiet [where P = P and B = B] assms
  by (auto simp: require_preauth_rejection_def split: prod.splits sum.splits) (metis ops_within_trans snd_conv)+

lemmas within7 = within_intros within_data within_p7_receive within_quiet within_preauth

text \<open>The only control write allowed is START7\_AUTH of this session.\<close>

definition start7_only :: "third_party \<Rightarrow> nat \<Rightarrow> bytes \<Rightarrow> bool \<Rightarrow> gatt_op \<Rightarrow> bool" where
  "start7_only C priv urandom probing p \<longleftrightarrow>
     (\<forall>d. p = WriteChar CHAR_CONTROL d \<longrightarrow> (\<exists>cpk. serialize_p256_public_key C priv = Inr cpk
        \<and> encode_start7_auth C (take PHASE7_SESSION_ID_SIZE urandom) cpk = Inr d))
     \<and> (\<forall>d. p = WriteChar CHAR_DATA d \<longrightarrow> probing)"

lemma start7_only_simps [simp]:
  "start7_only C k u b (WriteChar CHAR_CIPHERTEXT w)" "start7_only C k u b StartNotify" "start7_only C k u b StopNotify"
  "start7_only C k u b AwaitNotify" "start7_only C k u b (ReadChar ch)" "start7_only C k u True (WriteChar CHAR_DATA w)"
  by (simp_all add: start7_only_def)

lemma phase7_start_within: "ops_within (start7_only C priv u b) s (snd (phase7_start B C r priv u s))"
  unfolding phase7_start_def Let_def case_prod_unfold
  apply (intro within_bind_value within7)
  apply (simp_all add: start7_only_def)
  done

lemma phase7_schedule_within: "P AwaitNotify \<Longrightarrow> ops_within P s (snd (phase7_schedule B C priv st s))"
  unfolding phase7_schedule_def case_prod_unfold by (intro within7) simp_all

lemma phase7_probe_within:
  assumes "P AwaitNotify" and "neg = Some ''pre-auth'' \<Longrightarrow> (\<And>w. P (WriteChar CHAR_DATA w))"
  shows "ops_within P s (snd (phase7_probe B C piv neg sid s))"
  unfolding phase7_probe_def using assms by (auto intro!: within7)

lemma phase7_confirm_refused:
  assumes "p7_confirm_sas ui sas \<noteq> Inr True" and "P AwaitNotify" and "neg = Some ''sas-reject'' \<Longrightarrow> (\<And>w. P (WriteChar CHAR_DATA w))"
  shows "ops_within P s (snd (phase7_confirm B C neg ui sas pre s)) \<and> (\<nexists>t. phase7_confirm B C neg ui sas pre s = (Inr (), t))"
proof -
  have "ops_within P s (snd (seqM (require_preauth_rejection B w) (liftR (Inl e)) s))" if "neg = Some ''sas-reject''" for w e s
    using assms(2,3) that by (intro within7) simp_all
  moreover have "\<nexists>t. seqM (require_preauth_rejection B w) (liftR (Inl e)) s = (Inr (), t)" for w e s by simp
  ultimately show ?thesis
    using assms(1) by (cases "p7_confirm_sas ui sas") (auto simp: phase7_confirm_def bindM_def ops_within_refl)
qed

lemma phase7_confirm_within:
  assumes "P AwaitNotify" and "\<And>w. P (WriteChar CHAR_CONTROL w)"
  shows "ops_within P s (snd (phase7_confirm B C None ui sas pre s))"
  unfolding phase7_confirm_def using assms by (auto intro!: within7 ops_within_refl split: if_split)

lemma phase7_finished_within:
  "P AwaitNotify \<Longrightarrow> ops_within P s (snd (phase7_finished B C None pre s))"
  unfolding phase7_finished_def by (auto intro!: within7)

lemma with_notify_strict_wipes: "n \<in> set ns \<Longrightarrow> wiped (rn_buf (snd (with_notify_strict B strict (wipe_bufs ns) body s)) n)"
  unfolding with_notify_strict_state by (rule with_notify_wipes)

subsection \<open>Authenticated runs\<close>

text \<open>
  The specification of an authenticated session \<open>x\<close>: its transcript and keys are those of the ML-KEM
  ciphertext sent and of the point in the first notification, the user confirmed its SAS, and the second
  notification is its FINISHED\_P.
\<close>

definition authenticated7 ::
  "bleak \<Rightarrow> third_party \<Rightarrow> nat \<Rightarrow> nat \<Rightarrow> bytes \<Rightarrow> sas5_prompt \<Rightarrow> session7 \<Rightarrow> bool" where
  "authenticated7 B C r priv urandom ui x \<longleftrightarrow>
     (\<exists>pk ct ss cpk ppk se ops ops'. encapsulate C r pk = (ct, ss) \<and> serialize_p256_public_key C priv = Inr cpk
        \<and> encode_ready7_auth C ppk = Inr (bl_queue B ops ! 0)
        \<and> derive_p256_ecdh_shared_secret C priv (PeerBytes ppk) = Inr se
        \<and> session7_of C (take PHASE7_SESSION_ID_SIZE urandom, pk, ct, cpk) ppk ss se x
        \<and> p7_confirm_sas ui (s7_sas x) = Inr True
        \<and> encode_phase7_finished_p C (s7_fp x) = Inr (bl_queue B ops' ! 1))"

lemma phase7_stages_authenticated:
  assumes "rn_taken s0 = 0" and "phase7_start B C r priv u s0 = (Inr st, s1)" and "phase7_schedule B C priv st s1 = (Inr sas, s2)"
    and "phase7_confirm B C neg ui sas pre s2 = (Inr (), s3)" and "phase7_finished B C neg' pre' s3 = (Inr (), s4)"
  shows "\<exists>x. authenticated7 B C r priv u ui x \<and> sas = s7_sas x \<and> rn_taken s4 = 2
    \<and> rn_buf s4 ''application_key'' = k7_application (s7_keys x) \<and> fst st = take 16 u"
proof -
  obtain pk ct ss cpk where st: "st = (take 16 u, pk, ct, cpk)" "encapsulate C r pk = (ct, ss)"
    "serialize_p256_public_key C priv = Inr cpk" "rn_buf s1 ''ss_mlkem'' = ss" "rn_taken s1 = 0"
    using phase7_start_Inr [OF assms(2)] assms(1) by auto
  obtain ops ppk se x where x: "encode_ready7_auth C ppk = Inr (bl_queue B ops ! 0)"
    "derive_p256_ecdh_shared_secret C priv (PeerBytes ppk) = Inr se" "session7_of C st ppk ss se x" "sas = s7_sas x"
    "rn_buf s2 ''application_key'' = k7_application (s7_keys x)" "rn_buf s2 ''expected_finished_p'' = s7_fp x" "rn_taken s2 = 1"
    using phase7_schedule_Inr [OF assms(3)] st(4,5) by auto
  have c: "p7_confirm_sas ui sas = Inr True" "rn_taken s3 = 1" "rn_buf s3 ''application_key'' = k7_application (s7_keys x)"
    "rn_buf s3 ''expected_finished_p'' = s7_fp x"
    using phase7_confirm_Inr [OF assms(4)] x(5-7) by simp_all
  obtain ops' where "encode_phase7_finished_p C (s7_fp x) = Inr (bl_queue B ops' ! 1)" "rn_taken s4 = 2"
    "rn_buf s4 ''application_key'' = k7_application (s7_keys x)"
    using phase7_finished_Inr [OF assms(5)] c by auto
  then show ?thesis using st x c unfolding authenticated7_def by (metis fst_conv)
qed

text \<open>Whatever follows FINISHED\_P, the data characteristic stays unwritten until the session is authenticated.\<close>

lemma phase7_body_gated:
  assumes "rn_taken s0 = 0" and P: "P = (\<lambda>p. \<forall>d. p \<noteq> WriteChar CHAR_DATA d)"
  shows "ops_within P s0 (snd (bindM (phase7_start B C r priv u) (\<lambda>st. bindM (phase7_schedule B C priv st) (\<lambda>sas.
      bindM (phase7_probe B C piv None (fst st)) (\<lambda>pre. seqM (phase7_confirm B C None ui sas pre)
      (seqM (phase7_finished B C None pre) (K st sas pre))))) s0)) \<or> (\<exists>x. authenticated7 B C r priv u ui x)"
proof -
  have start: "ops_within P t (snd (phase7_start B C r priv u t))" for t
    unfolding phase7_start_def Let_def case_prod_unfold P by (intro within7) simp_all
  show ?thesis
  proof (intro within_or_seq within_or_bind start phase7_schedule_within
      phase7_probe_within phase7_confirm_within phase7_finished_within)
    fix st s1 sas s2 pre s2' s3 s4
    assume st: "phase7_start B C r priv u s0 = (Inr st, s1)" "phase7_schedule B C priv st s1 = (Inr sas, s2)"
      and pre: "phase7_probe B C piv None (fst st) s2 = (Inr pre, s2')"
      and fin: "phase7_confirm B C None ui sas pre s2' = (Inr (), s3)" "phase7_finished B C None pre s3 = (Inr (), s4)"
    have "s2' = s2" using pre by (auto simp: phase7_probe_def)
    then show "ops_within P s4 (snd (K st sas pre s4)) \<or> (\<exists>x. authenticated7 B C r priv u ui x)"
      using phase7_stages_authenticated [OF assms(1) st] fin by blast
  qed (simp_all add: P)
qed

subsection \<open>The honest Phase 7 peer\<close>

lemma session7_exists:
  assumes "hkdf_laws C" and "p256_laws C" and "length sid = 16" "length pk = 1184" "length ct = 1088" "length ss = 32" "length se = 32"
  obtains x where "session7_of C (sid, pk, ct, p256_public_bytes C c) (p256_public_bytes C p) ss se x"
proof -
  have sec1: "sec1_ok (p256_public_bytes C k)" for k using assms(2) by (simp add: sec1_ok_def length_p256_public hd_p256_public)
  obtain th where th: "compute_phase7_transcript_hash sid pk ct (p256_public_bytes C c) (p256_public_bytes C p) = Inr th" "length th = 32"
    using assms sec1 by (auto simp: compute_phase7_transcript_hash_def build_phase7_transcript_Inr)
  obtain k where k: "derive_phase7_keys C ss se th = Inr k" using assms th by (simp add: derive_phase7_keys_Inr Let_def)
  have len: "length (k7_sas k) = 32" "length (k7_finished_c k) = 32" "length (k7_finished_p k) = 32"
    using k hkdf_lawsD(1) [OF assms(1)] by (auto simp: derive_phase7_keys_Inr Let_def)
  obtain sas where "bindR (compute_phase7_sas (k7_sas k) th) format_phase7_sas = Inr sas"
    using len(1) th(2) by (simp add: compute_phase7_sas_def format_phase7_sas_def p7_require_size_def Let_def)
  moreover obtain fc where "compute_phase7_finished_c (k7_finished_c k) th = Inr fc"
    using len(2) th(2) by (simp add: compute_phase7_finished_c_def p7_compute_finished_def p7_require_size_def)
  moreover obtain fp where "compute_phase7_finished_p (k7_finished_p k) th = Inr fp"
    using len(3) th(2) by (simp add: compute_phase7_finished_p_def p7_compute_finished_def p7_require_size_def)
  ultimately show ?thesis
    using that [of "\<lparr> s7_hash = th, s7_keys = k, s7_sas = sas, s7_fc = fc, s7_fp = fp \<rparr>"] th(1) k by (simp add: session7_of_def)
qed

lemma p7_output_sizes:
  "compute_phase7_finished_c k th = Inr fc \<Longrightarrow> length fc = 32" "compute_phase7_finished_p k th = Inr fp \<Longrightarrow> length fp = 32"
  "hkdf_laws C \<Longrightarrow> derive_phase7_keys C ss se th = Inr ks \<Longrightarrow> length (k7_application ks) = 32"
  using hkdf_lawsD(1) [of C]
  by (auto simp: compute_phase7_finished_c_def compute_phase7_finished_p_def p7_compute_finished_def derive_phase7_keys_Inr Let_def)

lemma session7_sizes:
  assumes "hkdf_laws C" and "session7_of C st ppk ss se x"
  shows "length (s7_fc x) = 32" "length (s7_fp x) = 32" "length (k7_application (s7_keys x)) = 32"
  using assms p7_output_sizes unfolding session7_of_def by blast+

text \<open>A PQS7 frame that is not an error passes the error check, and so does a channel wire.\<close>

lemma check_error_frame_ok:
  "parse_phase7_frame C w = Inr f \<Longrightarrow> f7_subtype f \<noteq> PHASE7_ERROR \<Longrightarrow> check_error_frame C w = Inr ()"
  by (simp add: check_error_frame_def)

lemma check_error_frame_typed:
  "parse_ready7_auth C w = Inr q \<Longrightarrow> check_error_frame C w = Inr ()"
  "parse_phase7_finished_p C w = Inr q \<Longrightarrow> check_error_frame C w = Inr ()"
  by (auto simp: parse_ready7_auth_def parse_phase7_finished_p_def intro: check_error_frame_ok split: if_splits)

lemma check_error_frame_wire:
  assumes "channel_encrypt C iv ch p mt = (Inr w, ch')" and "ch_send_seq ch \<in> {0, 1, 2}"
  shows "check_error_frame C w = Inr ()"
proof -
  have "take 4 w = take 4 (be_bytes 8 (nat (ch_send_seq ch)))" using assms(1) by (auto simp: channel_encrypt_Inr)
  then have "take 4 w = [0, 0, 0, 0]" using be_bytes_8_small [of "nat (ch_send_seq ch)"] assms(2) by auto
  then have "take 4 w \<noteq> PHASE7_FRAME_MAGIC" by (simp add: PHASE7_FRAME_MAGIC_def ascii_def)
  then show ?thesis by (simp add: check_error_frame_def)
qed

lemma live_phase7_start:
  assumes "live_link B pk" and "bc_client (rn_client s) \<noteq> None" and "encapsulate C r pk = (ct, ss)" and "p256_laws C"
    and "length pk = 1184" "length ct = 1088" "length ss = 32" "length sid = 16"
  shows "\<exists>t ws w. phase7_start B C r priv sid s = (Inr (sid, pk, ct, p256_public_bytes C priv), t) \<and> bc_client (rn_client t) \<noteq> None
    \<and> rn_taken t = rn_taken s \<and> rn_buf t ''ss_mlkem'' = ss
    \<and> reassemble_data ws = Inr ct \<and> parse_start7_auth C w = Inr (sid, p256_public_bytes C priv)
    \<and> bc_ops (rn_client t) = bc_ops (rn_client s) @ [ReadChar CHAR_PUBKEY] @ map (WriteChar CHAR_CIPHERTEXT) ws @ [WriteChar CHAR_CONTROL w]"
proof -
  let ?q = "p256_public_bytes C priv" and ?s = "set_buf ''ss_mlkem'' ss (did [ReadChar CHAR_PUBKEY] s)"
  have con: "bc_client (rn_client ?s) \<noteq> None" using assms(2) by (simp add: set_buf_def)
  have len: "length ct = CT_SIZE" using assms(6) by simp
  obtain ws where ws: "runC (write_fragmented_ciphertext B ct) ?s = (Inr (length ws), did (map (WriteChar CHAR_CIPHERTEXT) ws) ?s)"
    "reassemble_data ws = Inr ct" using live_ciphertext [OF assms(1) con len] by blast
  obtain w where w: "encode_start7_auth C sid ?q = Inr w" "length w = 89"
    using p256_lawsD [OF assms(4)] assms(8) by (simp add: encode_start7_auth_def encode_phase7_cases)
  have p: "parse_start7_auth C w = Inr (sid, ?q)" using w by (simp add: parse_start7_auth_exact)
  show ?thesis
    using assms(2,3,5-8) w(1) p ws con live_read [OF assms(1,2)] serialize_p256_ok [OF assms(4)]
      live_control [OF assms(1), of "did (map (WriteChar CHAR_CIPHERTEXT) ws) ?s" w]
    by (intro exI [of _ "did [WriteChar CHAR_CONTROL w] (did (map (WriteChar CHAR_CIPHERTEXT) ws) ?s)"] exI [of _ ws] exI [of _ w])
      (simp add: phase7_start_def Let_def needM_apply seqM_def bindM_def buf_simps)
qed

lemma live_phase7_schedule:
  assumes "notified B (bc_ops (rn_client s) @ [AwaitNotify]) (rn_taken s) w" and "encode_ready7_auth C ppk = Inr w"
    and "derive_p256_ecdh_shared_secret C priv (PeerBytes ppk) = Inr se" and "session7_of C st ppk (rn_buf s ''ss_mlkem'') se x"
  shows "\<exists>t. phase7_schedule B C priv st s = (Inr (s7_sas x), t) \<and> bc_client (rn_client t) = bc_client (rn_client s)
    \<and> rn_taken t = rn_taken s + 1 \<and> bc_ops (rn_client t) = bc_ops (rn_client s) @ [AwaitNotify]
    \<and> rn_buf t ''application_key'' = k7_application (s7_keys x)
    \<and> rn_buf t ''finished_c'' = s7_fc x \<and> rn_buf t ''expected_finished_p'' = s7_fp x"
proof -
  have "length w = 73" using assms(2) by (auto simp: encode_ready7_auth_def encode_phase7_cases)
  then have p: "parse_ready7_auth C w = Inr ppk" using assms(2) by (simp add: parse_ready7_auth_exact)
  show ?thesis
    using assms(3,4) p check_error_frame_typed(1) [OF p] live_notified [OF assms(1)]
    by (cases st) (simp add: phase7_schedule_def p7_receive_def session7_of_def seqM_def bindM_def value_error_as_def
        buf_simps wipe_bufs_def del: bindR_eq_Inr; simp add: set_buf_def wipe_buf_def)
qed

lemma live_phase7_confirm:
  assumes "live_link B pk" and "bc_client (rn_client s) \<noteq> None" and "p7_confirm_sas ui sas = Inr True"
    and "length (rn_buf s ''finished_c'') = 32"
  shows "\<exists>t w. phase7_confirm B C None ui sas pre s = (Inr (), t) \<and> bc_client (rn_client t) \<noteq> None \<and> rn_taken t = rn_taken s
    \<and> parse_phase7_finished_c C w = Inr (rn_buf s ''finished_c'')
    \<and> bc_ops (rn_client t) = bc_ops (rn_client s) @ [WriteChar CHAR_CONTROL w]
    \<and> rn_buf t ''application_key'' = rn_buf s ''application_key''
    \<and> rn_buf t ''expected_finished_p'' = rn_buf s ''expected_finished_p''"
proof -
  let ?s = "set_buf ''finished_c'' (rn_buf s ''finished_c'') s"
  obtain w where w: "encode_phase7_finished_c C (rn_buf s ''finished_c'') = Inr w" "length w = 40"
    using assms(4) by (simp add: encode_phase7_finished_c_def encode_phase7_cases)
  have p: "parse_phase7_finished_c C w = Inr (rn_buf s ''finished_c'')" using w by (simp add: parse_finished_exact)
  have con: "bc_client (rn_client ?s) \<noteq> None" using assms(2) by (simp add: set_buf_def)
  show ?thesis
    using assms(2-4) w(1) con live_control [OF assms(1) con, of w]
    by (intro exI [of _ "wipe_buf ''finished_c'' (did [WriteChar CHAR_CONTROL w] ?s)"] exI [of _ w])
      (simp add: phase7_confirm_def bindM_def seqM_def needM_apply Let_def buf_simps p; simp add: set_buf_def wipe_buf_def)
qed

lemma live_phase7_finished:
  assumes "notified B (bc_ops (rn_client s) @ [AwaitNotify]) (rn_taken s) w"
    and "encode_phase7_finished_p C (rn_buf s ''expected_finished_p'') = Inr w"
  shows "\<exists>t. phase7_finished B C None pre s = (Inr (), t) \<and> bc_client (rn_client t) = bc_client (rn_client s)
    \<and> rn_taken t = rn_taken s + 1 \<and> bc_ops (rn_client t) = bc_ops (rn_client s) @ [AwaitNotify]
    \<and> rn_buf t ''application_key'' = rn_buf s ''application_key''"
proof -
  have "length w = 40" using assms(2) by (auto simp: encode_phase7_finished_p_def encode_phase7_cases)
  then have p: "parse_phase7_finished_p C w = Inr (rn_buf s ''expected_finished_p'')"
    using assms(2) by (simp add: parse_finished_exact)
  show ?thesis
    using p check_error_frame_typed(2) [OF p] live_notified [OF assms(1)]
    by (simp add: phase7_finished_def p7_receive_def seqM_def bindM_def value_error_as_def buf_simps;
        simp add: set_buf_def wipe_buf_def)
qed

lemma live_phase7_traffic:
  assumes "derive_phase7_traffic_keys (rn_buf s ''application_key'') = Inr k"
    and "SecureChannel_init (k7_central_to_peripheral k) (Some sid) (Some CENTRAL_ROLE) = Inr c2p"
    and "SecureChannel_init (k7_peripheral_to_central k) (Some sid) (Some CENTRAL_ROLE) = Inr p2c"
  shows "\<exists>t. phase7_traffic sid s = (Inr (c2p, p2c), t) \<and> bc_client (rn_client t) = bc_client (rn_client s) \<and> rn_taken t = rn_taken s
    \<and> bc_ops (rn_client t) = bc_ops (rn_client s)"
  using assms
  by (simp add: phase7_traffic_def bindM_def seqM_def buf_simps; simp add: set_buf_def wipe_buf_def)

lemma str_nat_digit: "n < 10 \<Longrightarrow> str_nat n = [char_of (48 + n)]"
  by (subst str_nat.simps) simp

lemma text_sizes:
  assumes "i \<in> {0, 1, 2}"
  shows "length (ping_text i) = 6" "length (pong_text i) = 6"
  using assms str_nat_digit [of i] by (auto simp: ping_text_def pong_text_def)

text \<open>
  An honest v0.7 Peripheral with the P-256 scalar \<open>p\<close>: a state machine over the Central's GATT
  operations, whose output is all the notifications it has sent so far. It collects the ciphertext
  fragments; on START7\_AUTH it reassembles and decapsulates what it received, agrees on the ECDH secret
  with the point it was sent and computes the session; on FINISHED\_C with this session's MAC, and only
  then, it opens its two channels and sends FINISHED\_P; from then on a write to the data characteristic
  that decrypts to the PING of the current round is answered with its PONG. Everything else is answered
  with an error frame.
\<close>

record peer7 =
  pf_fragments :: "bytes list"
  pf_session :: "(bytes \<times> session7) option"
  pf_channels :: "channels option"
  pf_out :: "bytes list"

definition peer7_init :: peer7 where
  "peer7_init = \<lparr> pf_fragments = [], pf_session = None, pf_channels = None, pf_out = [] \<rparr>"

definition session7_for :: "third_party \<Rightarrow> bytes \<times> bytes \<times> bytes \<times> bytes \<Rightarrow> bytes \<Rightarrow> bytes \<Rightarrow> bytes \<Rightarrow> session7 result" where
  "session7_for C started ppk ss se =
     (case started of (sid, pk, ct, cpk) \<Rightarrow>
     bindR (compute_phase7_transcript_hash sid pk ct cpk ppk) (\<lambda>th.
     bindR (derive_phase7_keys C ss se th) (\<lambda>k.
     bindR (bindR (compute_phase7_sas (k7_sas k) th) format_phase7_sas) (\<lambda>sas.
     bindR (compute_phase7_finished_c (k7_finished_c k) th) (\<lambda>fc.
     bindR (compute_phase7_finished_p (k7_finished_p k) th) (\<lambda>fp.
     Inr \<lparr> s7_hash = th, s7_keys = k, s7_sas = sas, s7_fc = fc, s7_fp = fp \<rparr>))))))"

definition opens7 :: "bytes \<Rightarrow> session7 \<Rightarrow> channels result" where
  "opens7 sid x =
     bindR (derive_phase7_traffic_keys (k7_application (s7_keys x))) (\<lambda>k.
     bindR (SecureChannel_init (k7_central_to_peripheral k) (Some sid) (Some PERIPHERAL_ROLE)) (\<lambda>recv.
     bindR (SecureChannel_init (k7_peripheral_to_central k) (Some sid) (Some PERIPHERAL_ROLE)) (\<lambda>send.
     Inr (recv, send))))"

definition error7 :: "byte \<Rightarrow> bytes" where
  "error7 status = frame_wire PHASE7_FRAME_MAGIC PHASE7_FRAME_VERSION PHASE7_ERROR [status]"

definition answer7 :: "third_party \<Rightarrow> (nat \<Rightarrow> bytes) \<Rightarrow> gatt_char \<Rightarrow> bytes \<Rightarrow> channels \<Rightarrow> bytes \<times> channels" where
  "answer7 C pivs ch d chs =
     (case chs of (recv, send) \<Rightarrow>
      let i = nat (ch_send_seq send)
      in if ch \<noteq> CHAR_DATA then (error7 4, chs)
         else case channel_decrypt C MSG_TYPE_DATA recv d of
                (Inl e, recv) \<Rightarrow> (error7 6, (recv, send))
              | (Inr ping, recv) \<Rightarrow>
                  if ping \<noteq> ping_text i then (error7 4, (recv, send))
                  else case channel_encrypt C (pivs i) send (pong_text i) MSG_TYPE_DATA of
                         (Inl e, send) \<Rightarrow> (error7 5, (recv, send))
                       | (Inr w, send) \<Rightarrow> (w, (recv, send)))"

definition peer7_say :: "bytes \<Rightarrow> peer7 \<Rightarrow> peer7" where
  "peer7_say w pe = pe\<lparr> pf_out := pf_out pe @ [w] \<rparr>"

definition peer7_start :: "third_party \<Rightarrow> bytes \<Rightarrow> bytes \<Rightarrow> nat \<Rightarrow> bytes \<Rightarrow> peer7 \<Rightarrow> peer7" where
  "peer7_start C pk sk p d pe =
     (let q = p256_public_bytes C p
      in case bindR (parse_start7_auth C d) (\<lambda>(sid, cpk).
              bindR (reassemble_data (pf_fragments pe)) (\<lambda>ct.
              bindR (derive_p256_ecdh_shared_secret C p (PeerBytes cpk)) (\<lambda>se.
              bindR (session7_for C (sid, pk, ct, cpk) q (kem_decap C sk ct) se) (\<lambda>x.
              bindR (encode_ready7_auth C q) (\<lambda>ready. Inr (sid, x, ready)))))) of
           Inl e \<Rightarrow> peer7_say (error7 4) pe
         | Inr (sid, x, ready) \<Rightarrow> peer7_say ready (pe\<lparr> pf_session := Some (sid, x) \<rparr>))"

definition peer7_finish :: "third_party \<Rightarrow> bytes \<Rightarrow> bytes \<times> session7 \<Rightarrow> peer7 \<Rightarrow> peer7" where
  "peer7_finish C d z pe =
     (if parse_phase7_finished_c C d \<noteq> Inr (s7_fc (snd z)) then peer7_say (error7 6) pe
      else case bindR (opens7 (fst z) (snd z)) (\<lambda>chs.
                bindR (encode_phase7_finished_p C (s7_fp (snd z))) (\<lambda>w. Inr (chs, w))) of
             Inl e \<Rightarrow> peer7_say (error7 5) pe
           | Inr (chs, w) \<Rightarrow> peer7_say w (pe\<lparr> pf_channels := Some chs \<rparr>))"

fun peer7_step :: "third_party \<Rightarrow> bytes \<Rightarrow> bytes \<Rightarrow> nat \<Rightarrow> (nat \<Rightarrow> bytes) \<Rightarrow> peer7 \<Rightarrow> gatt_op \<Rightarrow> peer7" where
  "peer7_step C pk sk p pivs pe (WriteChar ch d) =
     (case pf_channels pe of
        Some chs \<Rightarrow> (let (w, chs) = answer7 C pivs ch d chs in peer7_say w (pe\<lparr> pf_channels := Some chs \<rparr>))
      | None \<Rightarrow>
          if ch = CHAR_CIPHERTEXT then pe\<lparr> pf_fragments := pf_fragments pe @ [d] \<rparr>
          else if ch \<noteq> CHAR_CONTROL then peer7_say (error7 4) pe
          else case pf_session pe of None \<Rightarrow> peer7_start C pk sk p d pe | Some z \<Rightarrow> peer7_finish C d z pe)"
| "peer7_step C pk sk p pivs pe x = pe"

definition peer7_run :: "third_party \<Rightarrow> bytes \<Rightarrow> bytes \<Rightarrow> nat \<Rightarrow> (nat \<Rightarrow> bytes) \<Rightarrow> gatt_op list \<Rightarrow> peer7" where
  "peer7_run C pk sk p pivs ops = foldl (peer7_step C pk sk p pivs) peer7_init ops"

definition honest_peer7 :: "bleak \<Rightarrow> third_party \<Rightarrow> bytes \<Rightarrow> bytes \<Rightarrow> nat \<Rightarrow> (nat \<Rightarrow> bytes) \<Rightarrow> bool" where
  "honest_peer7 B C pk sk p pivs \<longleftrightarrow> (\<forall>ops. bl_queue B ops = pf_out (peer7_run C pk sk p pivs ops))"

lemma session7_for_Inr: "session7_for C st ppk ss se = Inr x \<longleftrightarrow> session7_of C st ppk ss se x"
  by (cases x; cases st) (auto simp: session7_for_def session7_of_def)

lemma peer7_run_append:
  "peer7_run C pk sk p pivs (ops @ new) = foldl (peer7_step C pk sk p pivs) (peer7_run C pk sk p pivs ops) new"
  by (simp add: peer7_run_def)

lemma peer7_idle: "list_all (\<lambda>x. \<not> is_write x) ops \<Longrightarrow> foldl (peer7_step C pk sk p pivs) pe ops = pe"
proof (induction ops)
  case (Cons x ops)
  then show ?case by (cases x) simp_all
qed simp

lemma peer7_fragments:
  "pf_channels pe = None \<Longrightarrow> foldl (peer7_step C pk sk p pivs) pe (map (WriteChar CHAR_CIPHERTEXT) ws)
     = pe\<lparr> pf_fragments := pf_fragments pe @ ws \<rparr>"
  by (induction ws arbitrary: pe) simp_all

text \<open>Its states after START7\_AUTH and after FINISHED\_C.\<close>

definition peer7_started :: "bytes list \<Rightarrow> bytes \<Rightarrow> session7 \<Rightarrow> bytes \<Rightarrow> peer7" where
  "peer7_started ws sid x ready = \<lparr> pf_fragments = ws, pf_session = Some (sid, x), pf_channels = None, pf_out = [ready] \<rparr>"

definition peer7_opened :: "bytes list \<Rightarrow> bytes \<Rightarrow> session7 \<Rightarrow> channels \<Rightarrow> bytes list \<Rightarrow> peer7" where
  "peer7_opened ws sid x chs out = \<lparr> pf_fragments = ws, pf_session = Some (sid, x), pf_channels = Some chs, pf_out = out \<rparr>"

lemma peer7_run_start:
  assumes "list_all (\<lambda>x. \<not> is_write x) ops" and "reassemble_data ws = Inr ct" and "parse_start7_auth C d = Inr (sid, cpk)"
    and "derive_p256_ecdh_shared_secret C p (PeerBytes cpk) = Inr se"
    and "session7_of C (sid, pk, ct, cpk) (p256_public_bytes C p) (kem_decap C sk ct) se x"
    and "encode_ready7_auth C (p256_public_bytes C p) = Inr ready"
  shows "peer7_run C pk sk p pivs (ops @ map (WriteChar CHAR_CIPHERTEXT) ws @ [WriteChar CHAR_CONTROL d]) = peer7_started ws sid x ready"
proof -
  have "foldl (peer7_step C pk sk p pivs) peer7_init (map (WriteChar CHAR_CIPHERTEXT) ws) = peer7_init\<lparr> pf_fragments := ws \<rparr>"
    using peer7_fragments [of peer7_init] by (simp add: peer7_init_def)
  then show ?thesis
    using assms(2-4,6) peer7_idle [OF assms(1), of C pk sk p pivs peer7_init] assms(5) [folded session7_for_Inr]
    by (simp add: peer7_run_def peer7_start_def peer7_init_def peer7_say_def peer7_started_def Let_def)
qed

lemma peer7_step_finish:
  assumes "parse_phase7_finished_c C d = Inr (s7_fc x)" and "opens7 sid x = Inr chs" and "encode_phase7_finished_p C (s7_fp x) = Inr w"
  shows "peer7_step C pk sk p pivs (peer7_started ws sid x ready) (WriteChar CHAR_CONTROL d) = peer7_opened ws sid x chs [ready, w]"
  using assms by (simp add: peer7_started_def peer7_opened_def peer7_finish_def peer7_say_def)

lemma peer7_step_answer:
  "answer7 C pivs ch d chs = (w, chs') \<Longrightarrow> peer7_step C pk sk p pivs (peer7_opened ws sid x chs out) (WriteChar ch d)
     = peer7_opened ws sid x chs' (out @ [w])"
  by (simp add: peer7_opened_def peer7_say_def)

text \<open>One of the first three messages between two matching channels, of six bytes.\<close>

lemma channel_message7:
  assumes "aead_laws C" and "channels_match a b" and "length iv = 12" and "i \<in> {0, 1, 2}" and "length p = 6"
  obtains w where "channel_encrypt C iv (sent_channel a i) p MSG_TYPE_DATA = (Inr w, sent_channel a (Suc i))"
    and "channel_decrypt C MSG_TYPE_DATA (received_channel b i) w = (Inr p, received_channel b (Suc i))"
    and "wire_seq w = int i" and "length w = 43" and "check_error_frame C w = Inr ()"
proof -
  have "i < 256 ^ 4" using assms(4) by auto
  from channel_message [OF assms(1-3) this] obtain w where w:
    "channel_encrypt C iv (sent_channel a i) p MSG_TYPE_DATA = (Inr w, sent_channel a (Suc i))"
    "channel_decrypt C MSG_TYPE_DATA (received_channel b i) w = (Inr p, received_channel b (Suc i))" "wire_seq w = int i" by metis
  moreover have "length w = 43" using channel_wire_length [OF assms(1) _ assms(3) w(1)] assms(5) by simp
  moreover have "check_error_frame C w = Inr ()"
    using check_error_frame_wire [OF w(1)] assms(4) by (auto simp: sent_channel_def)
  ultimately show thesis using that by blast
qed

text \<open>A round with the honest Peripheral, whose channels match the Central's.\<close>

lemma honest_round7:
  assumes link: "live_link B pk" "bc_client (rn_client s) \<noteq> None" and laws: "aead_laws C" and ivs: "length (ivs i) = 12" "length (pivs i) = 12"
    and i: "i \<in> {0, 1, 2}" and B: "honest_peer7 B C pk sk p pivs" and match: "channels_match c2p recv" "channels_match send p2c"
    and peer: "peer7_run C pk sk p pivs (bc_ops (rn_client s)) = peer7_opened ws sid x (received_channel recv i, sent_channel send i) out"
    and taken: "length out = rn_taken s"
  shows "\<exists>t d w. phase7_round B C ivs None pre i (sent_channel c2p i, received_channel p2c i, False) s
      = (Inr (sent_channel c2p (Suc i), received_channel p2c (Suc i), False), t)
    \<and> bc_client (rn_client t) \<noteq> None \<and> rn_taken t = rn_taken s + 1
    \<and> bc_ops (rn_client t) = bc_ops (rn_client s) @ [WriteChar CHAR_DATA d, AwaitNotify]
    \<and> peer7_run C pk sk p pivs (bc_ops (rn_client t))
        = peer7_opened ws sid x (received_channel recv (Suc i), sent_channel send (Suc i)) (out @ [w])"
proof -
  obtain d where d: "channel_encrypt C (ivs i) (sent_channel c2p i) (ping_text i) MSG_TYPE_DATA = (Inr d, sent_channel c2p (Suc i))"
    "channel_decrypt C MSG_TYPE_DATA (received_channel recv i) d = (Inr (ping_text i), received_channel recv (Suc i))"
    "wire_seq d = int i" "length d = 43" by (rule channel_message7 [OF laws match(1) ivs(1) i text_sizes(1) [OF i]])
  obtain w where w: "channel_encrypt C (pivs i) (sent_channel send i) (pong_text i) MSG_TYPE_DATA = (Inr w, sent_channel send (Suc i))"
    "channel_decrypt C MSG_TYPE_DATA (received_channel p2c i) w = (Inr (pong_text i), received_channel p2c (Suc i))"
    "wire_seq w = int i" "length w = 43" "check_error_frame C w = Inr ()"
    by (rule channel_message7 [OF laws match(2) ivs(2) i text_sizes(2) [OF i]])
  have ans: "answer7 C pivs CHAR_DATA d (received_channel recv i, sent_channel send i) = (w, (received_channel recv (Suc i), sent_channel send (Suc i)))"
    using d(2) w(1) by (simp add: answer7_def sent_channel_def)
  have run: "peer7_run C pk sk p pivs (bc_ops (rn_client s) @ [WriteChar CHAR_DATA d, AwaitNotify])
      = peer7_opened ws sid x (received_channel recv (Suc i), sent_channel send (Suc i)) (out @ [w])"
    using peer peer7_step_answer [OF ans] by (simp add: peer7_run_append del: peer7_step.simps(1))
  have q: "notified B (bc_ops (rn_client s) @ [WriteChar CHAR_DATA d, AwaitNotify]) (rn_taken s) w"
    using B run taken by (simp add: notified_def honest_peer7_def) (simp add: peer7_opened_def nth_append)
  let ?u = "did [WriteChar CHAR_DATA d] s"
  have take: "take_notification B e ?u = (Inr w, (did [AwaitNotify] ?u)\<lparr> rn_taken := rn_taken s + 1 \<rparr>)" for e
    using live_notified [of B ?u w e] q by simp
  have ping: "phase7_ping_wire C (ivs i) None pre i (sent_channel c2p i) = Inr (d, sent_channel c2p (Suc i))"
    using d by (simp add: phase7_ping_wire_def)
  have send: "phase7_send_ping B C None i d False s = (Inr False, ?u)"
    using live_secure_data [OF link, of d] d(4) by (cases "d = []") (simp_all add: phase7_send_ping_def seqM_def bindM_def)
  have opened: "phase7_open_pong C None i (received_channel p2c i) w False = Inr (received_channel p2c (Suc i), False)"
    using w by (simp add: phase7_open_pong_def)
  have "phase7_round B C ivs None pre i (sent_channel c2p i, received_channel p2c i, False) s
      = (Inr (sent_channel c2p (Suc i), received_channel p2c (Suc i), False), (did [AwaitNotify] ?u)\<lparr> rn_taken := rn_taken s + 1 \<rparr>)"
    using ping send opened take by (simp add: phase7_round_def bindM_def p7_receive_def phase7_after_pong_def)
  then show ?thesis using link(2) run by auto
qed

text \<open>The handshake against the honest Peripheral: where both ends are after FINISHED\_P.\<close>

lemma honest_handshake7:
  assumes link: "live_link B pk" "bc_client (rn_client s0) \<noteq> None" and laws: "p256_laws C"
    and enc: "encapsulate C r pk = (ct, ss)" and sizes: "length pk = 1184" "length ct = 1088" "length ss = 32" "length sid = 16"
    and x: "session7_of C (sid, pk, ct, p256_public_bytes C priv) (p256_public_bytes C p) (kem_decap C sk ct)
              (p256_exchange C p (p256_public_bytes C priv)) x" and dec: "kem_decap C sk ct = ss"
    and out: "length (s7_fc x) = 32" "length (s7_fp x) = 32"
    and B: "honest_peer7 B C pk sk p pivs" and idle: "list_all (\<lambda>x. \<not> is_write x) (bc_ops (rn_client s0))" and taken: "rn_taken s0 = 0"
    and opens: "opens7 sid x = Inr chs" and ui: "p7_confirm_sas ui (s7_sas x) = Inr True"
  obtains s1 s2 s3 s4 ws ready fp where "phase7_start B C r priv sid s0 = (Inr (sid, pk, ct, p256_public_bytes C priv), s1)"
    and "phase7_schedule B C priv (sid, pk, ct, p256_public_bytes C priv) s1 = (Inr (s7_sas x), s2)"
    and "phase7_confirm B C None ui (s7_sas x) None s2 = (Inr (), s3)" and "phase7_finished B C None None s3 = (Inr (), s4)"
    and "bc_client (rn_client s4) \<noteq> None" and "rn_taken s4 = 2" and "rn_buf s4 ''application_key'' = k7_application (s7_keys x)"
    and "peer7_run C pk sk p pivs (bc_ops (rn_client s4)) = peer7_opened ws sid x chs [ready, fp]"
proof -
  let ?cp = "p256_public_bytes C priv" and ?pp = "p256_public_bytes C p"
  have Bq: "bl_queue B ops = pf_out (peer7_run C pk sk p pivs ops)" for ops using B by (simp add: honest_peer7_def)
  have x': "session7_of C (sid, pk, ct, ?cp) ?pp ss (p256_exchange C priv ?pp) x"
    using x dec p256_exchange_commute [OF laws, of p priv] by simp
  obtain ready where ready: "encode_ready7_auth C ?pp = Inr ready"
    using p256_lawsD [OF laws] by (simp add: encode_ready7_auth_def encode_phase7_cases)
  obtain fp where fp: "encode_phase7_finished_p C (s7_fp x) = Inr fp"
    using out(2) by (simp add: encode_phase7_finished_p_def encode_phase7_cases)
  obtain s1 ws w where s1: "phase7_start B C r priv sid s0 = (Inr (sid, pk, ct, ?cp), s1)" "bc_client (rn_client s1) \<noteq> None"
    "rn_taken s1 = 0" "rn_buf s1 ''ss_mlkem'' = ss" "reassemble_data ws = Inr ct" "parse_start7_auth C w = Inr (sid, ?cp)"
    "bc_ops (rn_client s1) = bc_ops (rn_client s0) @ [ReadChar CHAR_PUBKEY] @ map (WriteChar CHAR_CIPHERTEXT) ws @ [WriteChar CHAR_CONTROL w]"
    using live_phase7_start [OF link enc laws sizes, of priv] taken by auto
  have "list_all (\<lambda>x. \<not> is_write x) (bc_ops (rn_client s0) @ [ReadChar CHAR_PUBKEY])" using idle by simp
  from peer7_run_start [OF this s1(5,6) ecdh_ok [OF laws] x ready]
  have p1: "peer7_run C pk sk p pivs (bc_ops (rn_client s1)) = peer7_started ws sid x ready" using s1(7) by simp
  then have n1: "notified B (bc_ops (rn_client s1) @ [AwaitNotify]) (rn_taken s1) ready"
    using Bq s1(3) by (simp add: notified_def peer7_run_append peer7_started_def)
  obtain s2 where s2: "phase7_schedule B C priv (sid, pk, ct, ?cp) s1 = (Inr (s7_sas x), s2)" "bc_client (rn_client s2) \<noteq> None"
    "rn_taken s2 = 1" "bc_ops (rn_client s2) = bc_ops (rn_client s1) @ [AwaitNotify]"
    "rn_buf s2 ''application_key'' = k7_application (s7_keys x)" "rn_buf s2 ''finished_c'' = s7_fc x" "rn_buf s2 ''expected_finished_p'' = s7_fp x"
    using live_phase7_schedule [OF n1 ready ecdh_ok [OF laws, of priv p], where st = "(sid, pk, ct, ?cp)" and x = x] s1(2-4) x' by auto
  obtain s3 w' where s3: "phase7_confirm B C None ui (s7_sas x) None s2 = (Inr (), s3)" "bc_client (rn_client s3) \<noteq> None"
    "rn_taken s3 = 1" "parse_phase7_finished_c C w' = Inr (s7_fc x)" "bc_ops (rn_client s3) = bc_ops (rn_client s2) @ [WriteChar CHAR_CONTROL w']"
    "rn_buf s3 ''application_key'' = k7_application (s7_keys x)" "rn_buf s3 ''expected_finished_p'' = s7_fp x"
    using live_phase7_confirm [OF link(1) s2(2) ui, of C None] s2 out(1) by auto
  have p3: "peer7_run C pk sk p pivs (bc_ops (rn_client s3)) = peer7_opened ws sid x chs [ready, fp]"
    using p1 s2(4) s3(5) peer7_step_finish [OF s3(4) opens fp] by (simp add: peer7_run_append del: peer7_step.simps(1))
  then have "notified B (bc_ops (rn_client s3) @ [AwaitNotify]) (rn_taken s3) fp"
    using Bq s3(3) by (simp add: notified_def peer7_run_append peer7_opened_def)
  then obtain s4 where s4: "phase7_finished B C None None s3 = (Inr (), s4)" "bc_client (rn_client s4) \<noteq> None" "rn_taken s4 = 2"
    "bc_ops (rn_client s4) = bc_ops (rn_client s3) @ [AwaitNotify]" "rn_buf s4 ''application_key'' = k7_application (s7_keys x)"
    using live_phase7_finished [of B s3 fp C None] s3 fp by auto
  have "peer7_run C pk sk p pivs (bc_ops (rn_client s4)) = peer7_opened ws sid x chs [ready, fp]"
    using p3 s4(4) by (simp add: peer7_run_append)
  then show thesis using that s1(1) s2(1) s3(1) s4 by blast
qed

lemma phase7_honest_run:
  assumes link: "live_link B pk" "bc_client c \<noteq> None" "list_all (\<lambda>x. \<not> is_write x) (bc_ops c)"
    and laws: "kem_laws C" "hkdf_laws C" "aead_laws C" "p256_laws C"
    and kem: "kem_keypair C seed = (pk, sk)" "encapsulate C r pk = (ct, ss)" and sid: "length sid = 16"
    and x: "session7_of C (sid, pk, ct, p256_public_bytes C priv) (p256_public_bytes C p) (kem_decap C sk ct)
              (p256_exchange C p (p256_public_bytes C priv)) x"
    and ui: "p7_confirm_sas ui (s7_sas x) = Inr True" and ivs: "\<And>i. length (ivs i) = 12" "\<And>i. length (pivs i) = 12" and tmo: "tmo > 0"
    and B: "honest_peer7 B C pk sk p pivs"
  shows "\<exists>t d recv send. run_phase7_authenticated_hybrid B C r priv sid piv ivs ui tmo None (new_runner c)
      = (Inr \<lparr> r7_sas = s7_sas x, r7_rounds = 3 \<rparr>, t) \<and> WriteChar CHAR_DATA d \<in> set (bc_ops (rn_client t))
    \<and> pf_channels (peer7_run C pk sk p pivs (bc_ops (rn_client t))) = Some (recv, send)
    \<and> ch_recv_count recv = 3 \<and> ch_sent_count send = 3"
proof -
  note k = kem_lawsD [OF laws(1) kem]
  note sizes = session7_sizes [OF laws(2) x]
  have con: "bc_client (rn_client (new_runner c)) \<noteq> None" using link(2) by (simp add: new_runner_def)
  obtain s0 where s0: "runC (start_notify B) (new_runner c) = (Inr (), s0)" "bc_client (rn_client s0) \<noteq> None" "rn_taken s0 = 0"
    "list_all (\<lambda>x. \<not> is_write x) (bc_ops (rn_client s0))"
    using live_start [OF link(1) con] link(3) by (auto simp: new_runner_def)
  obtain tk recv send c2p p2c where tk: "derive_phase7_traffic_keys (k7_application (s7_keys x)) = Inr tk"
    and peer: "SecureChannel_init (k7_central_to_peripheral tk) (Some sid) (Some PERIPHERAL_ROLE) = Inr recv"
      "SecureChannel_init (k7_peripheral_to_central tk) (Some sid) (Some PERIPHERAL_ROLE) = Inr send"
    and ch: "SecureChannel_init (k7_central_to_peripheral tk) (Some sid) (Some CENTRAL_ROLE) = Inr c2p"
      "SecureChannel_init (k7_peripheral_to_central tk) (Some sid) (Some CENTRAL_ROLE) = Inr p2c"
    using sizes(3) by (simp add: derive_phase7_traffic_keys_def SecureChannel_init_Inr)
  note chan0 = channel_init_states [OF peer(1)] channel_init_states [OF peer(2)] channel_init_states [OF ch(1)] channel_init_states [OF ch(2)]
  have match: "channels_match c2p recv" "channels_match send p2c"
    using role_channels_match(2) [OF ch(1) peer(1)] role_channels_match(1) [OF ch(2) peer(2)] .
  have "opens7 sid x = Inr (recv, send)" using tk peer by (simp add: opens7_def)
  from honest_handshake7 [OF link(1) s0(2) laws(4) kem(2) k(1-3) sid x k(4) sizes(1,2) B s0(4,3) this ui]
  obtain s1 s2 s3 s4 ws ready fp where s4: "phase7_start B C r priv sid s0 = (Inr (sid, pk, ct, p256_public_bytes C priv), s1)"
    "phase7_schedule B C priv (sid, pk, ct, p256_public_bytes C priv) s1 = (Inr (s7_sas x), s2)"
    "phase7_confirm B C None ui (s7_sas x) None s2 = (Inr (), s3)" "phase7_finished B C None None s3 = (Inr (), s4)"
    "bc_client (rn_client s4) \<noteq> None" "rn_taken s4 = 2" "rn_buf s4 ''application_key'' = k7_application (s7_keys x)"
    "peer7_run C pk sk p pivs (bc_ops (rn_client s4)) = peer7_opened ws sid x (recv, send) [ready, fp]" .
  obtain s5 where s5: "phase7_traffic sid s4 = (Inr (c2p, p2c), s5)" "bc_client (rn_client s5) \<noteq> None" "rn_taken s5 = 2"
    "bc_ops (rn_client s5) = bc_ops (rn_client s4)"
    using live_phase7_traffic [OF _ ch, of s4] tk s4 by auto
  have p5: "peer7_run C pk sk p pivs (bc_ops (rn_client s5)) = peer7_opened ws sid x (received_channel recv 0, sent_channel send 0) [ready, fp]"
    using s4(8) s5(4) chan0 by simp
  note round = honest_round7 [where ivs = ivs and pre = None, OF link(1) _ laws(3) ivs _ B match]
  obtain t0 d0 w0 where t0: "phase7_round B C ivs None None 0 (sent_channel c2p 0, received_channel p2c 0, False) s5
      = (Inr (sent_channel c2p 1, received_channel p2c 1, False), t0)" "bc_client (rn_client t0) \<noteq> None" "rn_taken t0 = 3"
    "bc_ops (rn_client t0) = bc_ops (rn_client s5) @ [WriteChar CHAR_DATA d0, AwaitNotify]"
    "peer7_run C pk sk p pivs (bc_ops (rn_client t0)) = peer7_opened ws sid x (received_channel recv 1, sent_channel send 1) [ready, fp, w0]"
    using round [OF s5(2) _ p5] s5(3) by auto
  obtain t1 d1 w1 where t1: "phase7_round B C ivs None None 1 (sent_channel c2p 1, received_channel p2c 1, False) t0
      = (Inr (sent_channel c2p 2, received_channel p2c 2, False), t1)" "bc_client (rn_client t1) \<noteq> None" "rn_taken t1 = 4"
    "bc_ops (rn_client t1) = bc_ops (rn_client t0) @ [WriteChar CHAR_DATA d1, AwaitNotify]"
    "peer7_run C pk sk p pivs (bc_ops (rn_client t1)) = peer7_opened ws sid x (received_channel recv 2, sent_channel send 2) [ready, fp, w0, w1]"
    using round [OF t0(2) _ t0(5)] t0(3) by (auto simp: numeral_2_eq_2)
  obtain t2 d2 w2 where t2: "phase7_round B C ivs None None 2 (sent_channel c2p 2, received_channel p2c 2, False) t1
      = (Inr (sent_channel c2p 3, received_channel p2c 3, False), t2)"
    "bc_ops (rn_client t2) = bc_ops (rn_client t1) @ [WriteChar CHAR_DATA d2, AwaitNotify]"
    "peer7_run C pk sk p pivs (bc_ops (rn_client t2)) = peer7_opened ws sid x (received_channel recv 3, sent_channel send 3) [ready, fp, w0, w1, w2]"
    using round [OF t1(2) _ t1(5)] t1(3) by (auto simp: numeral_3_eq_3)
  have req: "require_client B (new_runner c) = (Inr (), new_runner c)"
    using live_connected [OF link(1) con] by (simp add: require_client_def)
  have eff: "effective_ui None ui = ui" by (cases ui) (simp_all add: effective_ui_def)
  have probe: "phase7_probe B C piv None sid s2 = (Inr None, s2)" by (simp add: phase7_probe_def bindM_def seqM_def)
  let ?t = "snd (runC (stop_notify B) (wipe_bufs phase7_sensitive t2))"
  have "run_phase7_authenticated_hybrid B C r priv sid piv ivs ui tmo None (new_runner c) = (Inr \<lparr> r7_sas = s7_sas x, r7_rounds = 3 \<rparr>, ?t)"
    using s0(1) s4(1-4) probe s5(1) t0(1) t1(1) t2(1) tmo chan0
    by (simp add: run_phase7_authenticated_hybrid_def req eff with_notify_strict_def seqM_def bindM_def needM_apply phase7_conclude_def
        case_prod_unfold Let_def split: sum.split)
  moreover have "ops_within (\<lambda>x. \<not> is_write x) (wipe_bufs phase7_sensitive t2) ?t" by (rule within_subscribe(2)) simp
  then obtain new where new: "bc_ops (rn_client ?t) = bc_ops (rn_client t2) @ new" "list_all (\<lambda>x. \<not> is_write x) new"
    by (auto simp: ops_within_def list_all_iff)
  have "pf_channels (peer7_run C pk sk p pivs (bc_ops (rn_client ?t))) = Some (received_channel recv 3, sent_channel send 3)"
    using t2(3) new peer7_idle [OF new(2)] by (simp add: peer7_run_append peer7_opened_def)
  moreover have "ch_recv_count (received_channel recv 3) = 3" "ch_sent_count (sent_channel send 3) = 3"
    by (simp_all add: sent_channel_def received_channel_def)
  moreover have "WriteChar CHAR_DATA d2 \<in> set (bc_ops (rn_client ?t))" using t2(2) new(1) by simp
  ultimately show ?thesis by blast
qed

text \<open>The honest Peripheral exists: a link to it, for a demonstration key pair and scalar.\<close>

definition demo_peer7 :: bleak where
  "demo_peer7 = reactive_link (\<lambda>ops. pf_out (peer7_run demo_crypto (replicate 1184 3) (replicate 2400 3) 9 (\<lambda>_. replicate 12 1) ops))"

lemma demo_peer7: "live_link demo_peer7 (replicate 1184 3)"
  "honest_peer7 demo_peer7 demo_crypto (replicate 1184 3) (replicate 2400 3) 9 (\<lambda>_. replicate 12 1)"
  by (simp_all add: demo_peer7_def reactive_link_live honest_peer7_def)

lemma demo_session7:
  obtains ct ss x where "encapsulate demo_crypto 5 (replicate 1184 3) = (ct, ss)"
    and "session7_of demo_crypto (replicate 16 1, replicate 1184 3, ct, p256_public_bytes demo_crypto 7) (p256_public_bytes demo_crypto 9)
      (kem_decap demo_crypto (replicate 2400 3) ct) (p256_exchange demo_crypto 9 (p256_public_bytes demo_crypto 7)) x"
proof -
  obtain ct ss where enc: "encapsulate demo_crypto 5 (replicate 1184 3) = (ct, ss)" by fastforce
  note k = kem_lawsD [OF demo_kem_laws demo_keypair enc]
  show thesis
    using session7_exists [OF demo_hkdf_laws demo_p256_laws, of "replicate 16 1" "replicate 1184 3" ct
        "kem_decap demo_crypto (replicate 2400 3) ct" "p256_exchange demo_crypto 9 (p256_public_bytes demo_crypto 7)" 7 9]
      k length_p256_exchange [OF demo_p256_laws] that [OF enc] by auto
qed

abbreviation (input) yes_prompt :: sas5_prompt where "yes_prompt \<equiv> Sas5Callback (\<lambda>_. Inr True)"

lemma yes_prompt_confirms: "p7_confirm_sas yes_prompt sas = Inr True"
  by (simp add: p7_confirm_sas_def)

lemma demo_phase7:
  obtains t d res where
    "run_phase7_authenticated_hybrid demo_peer7 demo_crypto 5 7 (replicate 16 1) [] (\<lambda>_. replicate 12 1)
       yes_prompt 10 None (new_runner demo_client) = (Inr res, t)"
    and "WriteChar CHAR_DATA d \<in> set (bc_ops (rn_client t))"
proof -
  obtain ct ss x where d: "encapsulate demo_crypto 5 (replicate 1184 3) = (ct, ss)"
    "session7_of demo_crypto (replicate 16 1, replicate 1184 3, ct, p256_public_bytes demo_crypto 7) (p256_public_bytes demo_crypto 9)
      (kem_decap demo_crypto (replicate 2400 3) ct) (p256_exchange demo_crypto 9 (p256_public_bytes demo_crypto 7)) x" by (rule demo_session7)
  show ?thesis
    using phase7_honest_run [OF demo_peer7(1) _ demo_client_fresh demo_kem_laws demo_hkdf_laws demo_aead_laws demo_p256_laws demo_keypair d(1) _ d(2)
        yes_prompt_confirms _ _ _ demo_peer7(2), of "\<lambda>_. replicate 12 1" 10 "[]"] that by auto
qed

subsection \<open>The diagnostic run\<close>

lemma phase7_hybrid_check_iff:
  "(\<exists>n t. phase7_hybrid_check C priv (sid, pk, ct, cpk) w s = (Inr n, t)) \<longleftrightarrow>
     (\<exists>ppk se th keys d. encode_ready7_cp2 C ppk d = Inr w \<and> length w = PHASE7_READY7_CP2_FRAME_SIZE
        \<and> derive_p256_ecdh_shared_secret C priv (PeerBytes ppk) = Inr se
        \<and> compute_phase7_transcript_hash sid pk ct cpk ppk = Inr th
        \<and> derive_phase7_keys C (rn_buf s ''ss_mlkem'') se th = Inr keys
        \<and> compute_phase7_cp2_diagnostic (k7_application keys) th = Inr d)" (is "?l \<longleftrightarrow> ?r")
proof -
  have frame: "\<exists>f. parse_phase7_frame C w = Inr f \<and> f7_subtype f \<noteq> PHASE7_ERROR" if "parse_ready7_cp2 C w = Inr x" for x
    using that by (auto simp: parse_ready7_cp2_def split: if_splits)
  have "?l \<longleftrightarrow> (\<exists>f. parse_phase7_frame C w = Inr f \<and> f7_subtype f \<noteq> PHASE7_ERROR) \<and>
     (\<exists>ppk d se th keys. parse_ready7_cp2 C w = Inr (ppk, d)
        \<and> derive_p256_ecdh_shared_secret C priv (PeerBytes ppk) = Inr se
        \<and> compute_phase7_transcript_hash sid pk ct cpk ppk = Inr th
        \<and> derive_phase7_keys C (rn_buf s ''ss_mlkem'') se th = Inr keys
        \<and> compute_phase7_cp2_diagnostic (k7_application keys) th = Inr d)"
    by (simp add: phase7_hybrid_check_def needM_Inr buf_simps case_prod_unfold) (auto simp: case_prod_unfold)
  also have "\<dots> \<longleftrightarrow> ?r" using frame by (auto simp: parse_ready7_cp2_exact) (metis parse_ready7_cp2_exact)+
  finally show ?thesis .
qed

lemma live_phase7_hybrid_start:
  assumes "live_link B pk" and "bc_client (rn_client s) \<noteq> None" and "\<And>ops l. 108 \<le> bl_mtu B ops l"
    and "encapsulate C r pk = (ct, ss)" and "p256_laws C"
    and "length pk = 1184" "length ct = 1088" "length ss = 32" "length sid = 16"
  shows "\<exists>t. phase7_hybrid_start B C r priv sid s = (Inr (sid, pk, ct, p256_public_bytes C priv), t)
    \<and> bc_client (rn_client t) \<noteq> None \<and> rn_taken t = rn_taken s \<and> rn_buf t ''ss_mlkem'' = ss"
proof -
  let ?q = "p256_public_bytes C priv" and ?s = "set_buf ''ss_mlkem'' ss (did [ReadChar CHAR_PUBKEY] s)"
  have con: "bc_client (rn_client ?s) \<noteq> None" using assms(2) by (simp add: set_buf_def)
  have len: "length ct = CT_SIZE" using assms(7) by simp
  have mtu: "108 \<le> client_mtu_size B (rn_client s)" using assms(2,3) by (auto simp: client_mtu_size_def)
  obtain ws where ws: "runC (write_fragmented_ciphertext B ct) ?s = (Inr (length ws), did (map (WriteChar CHAR_CIPHERTEXT) ws) ?s)"
    using live_ciphertext [OF assms(1) con len] by blast
  obtain w where w: "encode_start7 C sid ?q = Inr w"
    using p256_lawsD [OF assms(5)] assms(9) by (simp add: encode_start7_def encode_phase7_cases)
  show ?thesis
    using assms(2,4,6-9) w ws con mtu live_read [OF assms(1,2)] serialize_p256_ok [OF assms(5)]
      live_control [OF assms(1), of "did (map (WriteChar CHAR_CIPHERTEXT) ws) ?s" w]
    by (simp add: phase7_hybrid_start_def Let_def needM_apply seqM_def bindM_def buf_simps)
qed

section \<open>Properties\<close>

text \<open>
  The v0.7 Central sends nothing that depends on the user's consent before it has it: when the user
  never confirms the SAS, then in every mode and whatever the Peripheral answers, the run does not
  return; the only control write it can have made is the START7\_AUTH of this session, and it has
  written to the data characteristic only in the two tests that probe the Peripheral with it.
\<close>

theorem phase7_runner_sas_gate:
  assumes "\<And>sas. p7_confirm_sas (effective_ui neg ui) sas \<noteq> Inr True"
  shows "(\<nexists>res t. run_phase7_authenticated_hybrid B C r priv urandom piv ivs ui tmo neg s = (Inr res, t))
    \<and> (\<exists>new. bc_ops (rn_client (snd (run_phase7_authenticated_hybrid B C r priv urandom piv ivs ui tmo neg s)))
            = bc_ops (rn_client s) @ new
        \<and> (\<forall>p \<in> set new. start7_only C priv urandom (neg \<in> {Some ''sas-reject'', Some ''pre-auth''}) p))"
proof -
  let ?P = "start7_only C priv urandom (neg \<in> {Some ''sas-reject'', Some ''pre-auth''})"
  have "effective_ui None ui = ui" by (cases ui) (simp_all add: effective_ui_def)
  then have "\<nexists>res t. run_phase7_authenticated_hybrid B C r priv urandom piv ivs ui tmo neg s = (Inr res, t)"
    using run_phase7_Inr phase7_confirm_Inr assms by metis
  moreover have "ops_within ?P s (snd (run_phase7_authenticated_hybrid B C r priv urandom piv ivs ui tmo neg s)) \<or> False"
    unfolding run_phase7_authenticated_hybrid_def Let_def
    by (intro within_or_seq within_or_bind within_or_strict within_pure phase7_start_within phase7_schedule_within
        phase7_probe_within phase7_confirm_refused [THEN conjunct1] assms)
      (use phase7_confirm_refused [OF assms] in \<open>auto simp: start7_only_def\<close>)
  ultimately show ?thesis unfolding ops_within_def by blast
qed

theorem phase7_runner_sas_gate_witness:
  "\<nexists>res t. run_phase7_authenticated_hybrid (demo_link []) demo_crypto 5 7 (replicate 16 1) [] (\<lambda>_. replicate 12 1)
     (Sas5Callback (\<lambda>_. Inr False)) 10 (Some ''pre-auth'') (new_runner demo_client) = (Inr res, t)"
proof -
  have "p7_confirm_sas (effective_ui (Some ''pre-auth'') (Sas5Callback (\<lambda>_. Inr False))) sas \<noteq> Inr True" for sas
    by (simp add: p7_confirm_sas_def effective_ui_def)
  then show ?thesis using phase7_runner_sas_gate by blast
qed

text \<open>
  Whatever happens in a v0.7 run, in every test mode and whichever exception ends it, both shared
  secrets, the application key, both FINISHED values and both traffic keys are zero when it ends.
\<close>

theorem phase7_runner_wipes:
  "list_all (\<lambda>n. wiped (rn_buf (snd (run_phase7_authenticated_hybrid B C r priv urandom piv ivs ui tmo neg (new_runner c))) n))
     phase7_sensitive"
  unfolding run_phase7_authenticated_hybrid_def list_all_iff Let_def
  by (intro ballI wipes_after_check check_keeps with_notify_strict_wipes) (simp_all add: new_runner_def)

text \<open>
  The v0.7 Central writes application data only to an authenticated peer: if an ordinary run has
  written to the data characteristic, then the user confirmed the SAS of this session's key
  schedule and the second notification was the FINISHED\_P frame with the MAC of that schedule.
\<close>

theorem phase7_data_needs_authentication:
  assumes "WriteChar CHAR_DATA d \<in> set (bc_ops (rn_client (snd
             (run_phase7_authenticated_hybrid B C r priv urandom piv ivs ui tmo None (new_runner c)))))"
    and "WriteChar CHAR_DATA d \<notin> set (bc_ops c)"
  shows "\<exists>x. authenticated7 B C r priv urandom ui x"
proof -
  let ?P = "\<lambda>p. \<forall>d. p \<noteq> WriteChar CHAR_DATA d" and ?s = "new_runner c" and ?Q = "\<exists>x. authenticated7 B C r priv urandom ui x"
  have eff: "effective_ui None ui = ui" by (cases ui) (simp_all add: effective_ui_def)
  have "ops_within ?P ?s (snd (run_phase7_authenticated_hybrid B C r priv urandom piv ivs ui tmo None ?s)) \<or> ?Q"
    unfolding run_phase7_authenticated_hybrid_def Let_def eff
    by (intro within_or_seq within_or_strict within_pure phase7_body_gated refl)
      (auto simp: needM_Inr require_client_Inr runC_Inr new_runner_def)
  then show ?thesis using assms by (auto simp: ops_within_def new_runner_def)
qed

theorem phase7_data_needs_authentication_witness:
  "\<exists>x. authenticated7 demo_peer7 demo_crypto 5 7 (replicate 16 1) (Sas5Callback (\<lambda>_. Inr True)) x"
proof -
  obtain t d res where r: "run_phase7_authenticated_hybrid demo_peer7 demo_crypto 5 7 (replicate 16 1) [] (\<lambda>_. replicate 12 1)
       yes_prompt 10 None (new_runner demo_client) = (Inr res, t)"
    "WriteChar CHAR_DATA d \<in> set (bc_ops (rn_client t))" by (rule demo_phase7)
  have "WriteChar CHAR_DATA d \<notin> set (bc_ops demo_client)" by (simp add: demo_client_def BLECentralClient_init_def)
  then show ?thesis
    using phase7_data_needs_authentication [of d demo_peer7 demo_crypto 5 7 "replicate 16 1" "[]" "\<lambda>_. replicate 12 1"
        "Sas5Callback (\<lambda>_. Inr True)" 10 demo_client] r by auto
qed

text \<open>
  A v0.7 run that returns is authenticated and its three rounds were answered: no negative test was
  selected, the session is authenticated, its SAS is the one returned, and notifications three to
  five decrypt under the peripheral-to-central traffic key of that session to PONG 0, PONG 1 and
  PONG 2.
\<close>

theorem phase7_runner_sound:
  assumes "run_phase7_authenticated_hybrid B C r priv urandom piv ivs ui tmo neg (new_runner c) = (Inr res, t)"
  shows "neg = None \<and> r7_rounds res = 3 \<and> (\<exists>x k. authenticated7 B C r priv urandom ui x \<and> r7_sas res = s7_sas x
    \<and> derive_phase7_traffic_keys (k7_application (s7_keys x)) = Inr k
    \<and> (\<forall>i \<in> {0, 1, 2}. \<exists>ops ch ch'. ch_key ch = k7_peripheral_to_central k
        \<and> channel_decrypt C MSG_TYPE_DATA ch (bl_queue B ops ! (2 + i)) = (Inr (pong_text i), ch')))"
proof -
  obtain s0 s1 s2 s3 s4 s5 st c2p p2c l s6 where n: "neg = None" and st: "runC (start_notify B) (new_runner c) = (Inr (), s0)"
    "phase7_start B C r priv urandom s0 = (Inr st, s1)" "phase7_schedule B C priv st s1 = (Inr (r7_sas res), s2)"
    "phase7_confirm B C None ui (r7_sas res) None s2 = (Inr (), s3)" "phase7_finished B C None None s3 = (Inr (), s4)"
    "phase7_traffic (fst st) s4 = (Inr (c2p, p2c), s5)"
    "loopM (phase7_round B C ivs None None) [0, 1, 2] (c2p, p2c, False) s5 = (Inr l, s6)" and rounds: "r7_rounds res = 3"
    using run_phase7_Inr [OF assms] by blast
  have "rn_taken s0 = 0" using st(1) by (auto simp: runC_Inr new_runner_def)
  then obtain x where x: "authenticated7 B C r priv urandom ui x" "r7_sas res = s7_sas x" "rn_taken s4 = 2"
    "rn_buf s4 ''application_key'' = k7_application (s7_keys x)"
    using phase7_stages_authenticated [OF _ st(2-5)] by blast
  obtain k where k: "derive_phase7_traffic_keys (k7_application (s7_keys x)) = Inr k" "rn_taken s5 = 2"
    "ch_key p2c = k7_peripheral_to_central k"
    using phase7_traffic_Inr [OF st(6)] x(3,4) by (auto simp: SecureChannel_init_Inr)
  obtain a1 p1 b1 t1 a2 p2 b2 t2 a3 p3 b3 where r: "phase7_round B C ivs None None 0 (c2p, p2c, False) s5 = (Inr (a1, p1, b1), t1)"
    "phase7_round B C ivs None None 1 (a1, p1, b1) t1 = (Inr (a2, p2, b2), t2)"
    "phase7_round B C ivs None None 2 (a2, p2, b2) t2 = (Inr (a3, p3, b3), s6)"
    using st(7) by auto
  note r0 = phase7_round_None [OF r(1)] and r1 = phase7_round_None [OF r(2)] and r2 = phase7_round_None [OF r(3)]
  have "rn_taken t1 = 3" "rn_taken t2 = 4" using r0 r1 k(2) by simp_all
  then have "\<forall>i \<in> {0, 1, 2}. \<exists>ops ch ch'. ch_key ch = k7_peripheral_to_central k
        \<and> channel_decrypt C MSG_TYPE_DATA ch (bl_queue B ops ! (2 + i)) = (Inr (pong_text i), ch')"
    using r0 r1 r2 k(2,3) by (auto simp: numeral_eq_Suc)
  then show ?thesis using n rounds x k(1) by blast
qed

theorem phase7_runner_sound_witness:
  "\<exists>res t x. run_phase7_authenticated_hybrid demo_peer7 demo_crypto 5 7 (replicate 16 1) [] (\<lambda>_. replicate 12 1)
     yes_prompt 10 None (new_runner demo_client) = (Inr res, t)
     \<and> authenticated7 demo_peer7 demo_crypto 5 7 (replicate 16 1) (Sas5Callback (\<lambda>_. Inr True)) x \<and> r7_sas res = s7_sas x"
proof -
  obtain t d res where "run_phase7_authenticated_hybrid demo_peer7 demo_crypto 5 7 (replicate 16 1) [] (\<lambda>_. replicate 12 1)
       yes_prompt 10 None (new_runner demo_client) = (Inr res, t)" by (rule demo_phase7)
  then show ?thesis using phase7_runner_sound [of demo_peer7 demo_crypto 5 7 "replicate 16 1"] by blast
qed

text \<open>
  C27. The v0.7 handshake works end to end with an honest Peripheral. The Peripheral is a state machine
  that answers what it is sent: it reassembles and decapsulates the fragments it received, computes its
  session from the session id and the point of START7\_AUTH and its own P-256 scalar, opens it only on the
  FINISHED\_C of that session, and answers only the PING of the current round, decrypted under the
  central-to-peripheral key, with its PONG. Over a working link, from a client that has written nothing
  yet, and with a user who confirms the SAS, the run returns that SAS after three rounds, and the
  Peripheral has then accepted three PINGs and sent three PONGs.
\<close>

theorem phase7_runner_end_to_end:
  assumes "live_link B pk" "bc_client c \<noteq> None" "list_all (\<lambda>x. \<not> is_write x) (bc_ops c)"
    and "kem_laws C" "hkdf_laws C" "aead_laws C" "p256_laws C"
    and "kem_keypair C seed = (pk, sk)" "encapsulate C r pk = (ct, ss)" and "length sid = 16"
    and "session7_of C (sid, pk, ct, p256_public_bytes C priv) (p256_public_bytes C p) (kem_decap C sk ct)
              (p256_exchange C p (p256_public_bytes C priv)) x"
    and "p7_confirm_sas ui (s7_sas x) = Inr True" and "\<And>i. length (ivs i) = 12" "\<And>i. length (pivs i) = 12" and "tmo > 0"
    and "honest_peer7 B C pk sk p pivs"
  shows "\<exists>t recv send. run_phase7_authenticated_hybrid B C r priv sid piv ivs ui tmo None (new_runner c)
      = (Inr \<lparr> r7_sas = s7_sas x, r7_rounds = 3 \<rparr>, t)
    \<and> pf_channels (peer7_run C pk sk p pivs (bc_ops (rn_client t))) = Some (recv, send)
    \<and> ch_recv_count recv = 3 \<and> ch_sent_count send = 3"
  using phase7_honest_run [where ivs = ivs and piv = piv, OF assms] by blast

theorem phase7_runner_end_to_end_witness:
  "\<exists>sas t. run_phase7_authenticated_hybrid demo_peer7 demo_crypto 5 7 (replicate 16 1) [] (\<lambda>_. replicate 12 1)
     yes_prompt 10 None (new_runner demo_client) = (Inr \<lparr> r7_sas = sas, r7_rounds = 3 \<rparr>, t)"
proof -
  obtain ct ss x where d: "encapsulate demo_crypto 5 (replicate 1184 3) = (ct, ss)"
    "session7_of demo_crypto (replicate 16 1, replicate 1184 3, ct, p256_public_bytes demo_crypto 7) (p256_public_bytes demo_crypto 9)
      (kem_decap demo_crypto (replicate 2400 3) ct) (p256_exchange demo_crypto 9 (p256_public_bytes demo_crypto 7)) x" by (rule demo_session7)
  show ?thesis
    using phase7_runner_end_to_end [OF demo_peer7(1) _ demo_client_fresh demo_kem_laws demo_hkdf_laws demo_aead_laws demo_p256_laws demo_keypair d(1) _ d(2)
        yes_prompt_confirms _ _ _ demo_peer7(2), of "\<lambda>_. replicate 12 1" 10 "[]"] by auto
qed

text \<open>
  The diagnostic run of v0.7 accepts exactly the right answer: over a working link with an MTU of at
  least 108, the run returns if and only if the notification is the READY7\_CP2 encoding of a P-256
  point together with the diagnostic MAC of the key schedule that point, the ML-KEM secret and the
  transcript determine.
\<close>

theorem phase7_hybrid_runner_iff:
  assumes "live_link B pk" and "bc_client c \<noteq> None" and "\<And>ops l. 108 \<le> bl_mtu B ops l"
    and "encapsulate C r pk = (ct, ss)" and "p256_laws C"
    and "length pk = 1184" "length ct = 1088" "length ss = 32" "length sid = 16" and "\<And>ops. bl_queue B ops = [w]"
  shows "(\<exists>n t. run_phase7_hybrid_e2e B C r priv sid (new_runner c) = (Inr n, t)) \<longleftrightarrow>
     (\<exists>ppk se th keys d. encode_ready7_cp2 C ppk d = Inr w \<and> length w = PHASE7_READY7_CP2_FRAME_SIZE
        \<and> derive_p256_ecdh_shared_secret C priv (PeerBytes ppk) = Inr se
        \<and> compute_phase7_transcript_hash sid pk ct (p256_public_bytes C priv) ppk = Inr th
        \<and> derive_phase7_keys C ss se th = Inr keys
        \<and> compute_phase7_cp2_diagnostic (k7_application keys) th = Inr d)"
proof -
  have con: "bc_client (rn_client (new_runner c)) \<noteq> None" using assms(2) by (simp add: new_runner_def)
  obtain s0 where s0: "runC (start_notify B) (new_runner c) = (Inr (), s0)" "bc_client (rn_client s0) \<noteq> None" "rn_taken s0 = 0"
    using live_start [OF assms(1) con] by (auto simp: new_runner_def)
  obtain s1 where s1: "phase7_hybrid_start B C r priv sid s0 = (Inr (sid, pk, ct, p256_public_bytes C priv), s1)"
    "rn_taken s1 = 0" "rn_buf s1 ''ss_mlkem'' = ss"
    using live_phase7_hybrid_start [OF assms(1) s0(2) assms(3-9), of priv] s0(3) by auto
  let ?u = "(did [AwaitNotify] s1)\<lparr> rn_taken := 1 \<rparr>"
  let ?chk = "phase7_hybrid_check C priv (sid, pk, ct, p256_public_bytes C priv) w ?u"
  have take: "take_notification B e s1 = (Inr w, ?u)" for e using assms(10) s1(2) by (simp add: live_take)
  have req: "require_client B (new_runner c) = (Inr (), new_runner c)"
    using live_connected [OF assms(1) con] by (simp add: require_client_def)
  have "(\<exists>n t. run_phase7_hybrid_e2e B C r priv sid (new_runner c) = (Inr n, t)) \<longleftrightarrow> (\<exists>n t. ?chk = (Inr n, t))"
    using s0(1) s1(1) take
    by (cases ?chk) (auto simp: run_phase7_hybrid_e2e_def req seqM_def bindM_def value_errorM_def catchM_liftR_Inr with_notify_def Let_def)
  then show ?thesis using s1(3) unfolding phase7_hybrid_check_iff by simp
qed

theorem phase7_hybrid_runner_iff_witness:
  "\<exists>B w n t. run_phase7_hybrid_e2e B demo_crypto 5 7 (replicate 16 1) (new_runner demo_client) = (Inr n, t)
     \<and> length w = PHASE7_READY7_CP2_FRAME_SIZE \<and> (\<forall>ops. bl_queue B ops = [w])"
proof -
  let ?C = demo_crypto and ?pp = "p256_public_bytes demo_crypto 9"
  obtain ct ss where enc: "encapsulate ?C 5 (replicate 1184 3) = (ct, ss)" by fastforce
  note k = kem_lawsD [OF demo_kem_laws demo_keypair enc]
  obtain x where x: "session7_of ?C (replicate 16 1, replicate 1184 3, ct, p256_public_bytes ?C 7) ?pp ss (p256_exchange ?C 7 ?pp) x"
    using session7_exists [OF demo_hkdf_laws demo_p256_laws, of "replicate 16 1" "replicate 1184 3" ct ss "p256_exchange ?C 7 ?pp" 7 9]
      k length_p256_exchange [OF demo_p256_laws] by auto
  then obtain d where d: "compute_phase7_cp2_diagnostic (k7_application (s7_keys x)) (s7_hash x) = Inr d" "length d = 32"
    using session7_sizes(3) [OF demo_hkdf_laws x]
    by (auto simp: session7_of_def compute_phase7_cp2_diagnostic_def derive_phase7_keys_Inr)
  obtain w where w: "encode_ready7_cp2 ?C ?pp d = Inr w" "length w = 105"
    using p256_lawsD [OF demo_p256_laws] d(2) by (simp add: encode_ready7_cp2_def encode_phase7_cases)
  let ?B = "(demo_link [w])\<lparr> bl_mtu := \<lambda>_ _. 247 \<rparr>"
  have B: "live_link ?B (replicate 1184 3)" "bl_queue ?B ops = [w]" "108 \<le> bl_mtu ?B ops l" for ops l
    using demo_link_live [of "[w]"] by (simp_all add: live_link_def)
  have "\<exists>n t. run_phase7_hybrid_e2e ?B ?C 5 7 (replicate 16 1) (new_runner demo_client) = (Inr n, t)"
    using phase7_hybrid_runner_iff [OF B(1) _ B(3) enc demo_p256_laws _ _ _ _ B(2), of demo_client "replicate 16 1" 7]
      k(1-3) w d x ecdh_ok [OF demo_p256_laws, of 7 9] unfolding session7_of_def by auto
  then show ?thesis using B(2) w(2) by blast
qed

end
