(* ===== verification/Pairing.thy ===== *)
theory Pairing
  imports Legacy_Handshake
begin

text \<open>
  \<open>src/central/winrt_pairing.py\<close>: the Numeric Comparison ceremony, whose handler runs on any WinRT
  thread while the human decides in a task of the event loop, the custom pairing operation around it,
  the console input, and the console confirmation of \<open>src/central/main.py\<close>. WinRT is a parameter.
\<close>

section \<open>Pairing states and outcomes\<close>

definition PROTECTION_ENCRYPTION_AND_AUTHENTICATION :: string where
  "PROTECTION_ENCRYPTION_AND_AUTHENTICATION = ''ENCRYPTION_AND_AUTHENTICATION''"

record pairing_state =
  ps_is_paired :: bool
  ps_can_pair :: bool
  ps_protection_level :: string

record pairing_outcome =
  po_status :: string
  po_paired :: bool
  po_protection_level :: string
  po_pin_shown :: "string option"
  po_ceremony :: "string option"
  po_decision :: "bool option"
  po_accept_invoked :: bool

definition po_authenticated :: "pairing_outcome \<Rightarrow> bool" where
  "po_authenticated out = (po_paired out \<and> po_protection_level out = PROTECTION_ENCRYPTION_AND_AUTHENTICATION)"

section \<open>The ceremony\<close>

text \<open>
  The arguments of a \<open>PairingRequested\<close> event: its kind (an enumeration value, by name), its PIN, and
  what the calls on it give: \<open>get_deferral\<close>, scheduling on the event loop, \<open>accept\<close>, and \<open>complete\<close> on
  its deferral.
\<close>

record pairing_args =
  pa_kind :: string
  pa_pin :: string
  pa_get_deferral :: "unit result"
  pa_schedule :: "unit result"
  pa_accept :: "unit result"
  pa_complete :: "unit result"

text \<open>The calls to WinRT that matter: \<open>accept\<close>, a deferral obtained, \<open>complete\<close>.\<close>

datatype ceremony_call = AcceptCall pairing_args | DeferralCall pairing_args | CompleteCall pairing_args

text \<open>The decision task: waiting for the human, between the human's answer and its \<open>finally\<close>, or over.\<close>

datatype decision_task = NoTask | Deciding pairing_args | Finalizing | TaskDone

text \<open>\<open>cm_confirms\<close>: a confirmation callback was given. \<open>cm_scheduled\<close>: calls of \<open>_start_decision\<close> the loop still has to run.\<close>

record ceremony =
  cm_kind :: string
  cm_confirms :: bool
  cm_active :: bool
  cm_received :: bool
  cm_pin :: "string option"
  cm_ceremony :: "string option"
  cm_decision :: "bool option"
  cm_accept_invoked :: bool
  cm_deferral :: "pairing_args option"
  cm_scheduled :: "pairing_args list"
  cm_task :: decision_task
  cm_error :: "exn option"
  cm_calls :: "ceremony_call list"

definition Ceremony_init :: "string \<Rightarrow> bool \<Rightarrow> ceremony" where
  "Ceremony_init kind confirms =
     \<lparr> cm_kind = kind, cm_confirms = confirms, cm_active = True, cm_received = False, cm_pin = None,
       cm_ceremony = None, cm_decision = None, cm_accept_invoked = False, cm_deferral = None,
       cm_scheduled = [], cm_task = NoTask, cm_error = None, cm_calls = [] \<rparr>"

definition called :: "ceremony_call \<Rightarrow> ceremony \<Rightarrow> ceremony" where
  "called x c = c\<lparr> cm_calls := cm_calls c @ [x] \<rparr>"

definition ceremony_complete :: "ceremony \<Rightarrow> ceremony" where
  "ceremony_complete c =
     (case cm_deferral c of
        None \<Rightarrow> c
      | Some a \<Rightarrow>
          let c = called (CompleteCall a) (c\<lparr> cm_deferral := None \<rparr>)
          in case pa_complete a of Inl e \<Rightarrow> c\<lparr> cm_error := Some e \<rparr> | Inr _ \<Rightarrow> c)"

definition ceremony_accept :: "pairing_args \<Rightarrow> (ceremony, unit) meth" where
  "ceremony_accept args =
     seqM (setM (called (AcceptCall args))) (
     seqM (liftR (pa_accept args)) (
     setM (\<lambda>c. c\<lparr> cm_accept_invoked := True \<rparr>)))"

text \<open>\<open>re.fullmatch(r"[0-9]{6}", pin)\<close>.\<close>

definition six_digits :: "string \<Rightarrow> bool" where
  "six_digits pin \<longleftrightarrow> length pin = 6 \<and> (\<forall>d \<in> set pin. d \<in> set ''0123456789'')"

text \<open>The body of \<open>handler\<close>'s \<open>try\<close>.\<close>

definition ceremony_request :: "pairing_args \<Rightarrow> (ceremony, unit) meth" where
  "ceremony_request args =
     seqM (readM (\<lambda>c. requireR (\<not> cm_received c) (ProtocolError ''duplicate PairingRequested event''))) (
     seqM (setM (\<lambda>c. c\<lparr> cm_received := True, cm_ceremony := Some (pa_kind args) \<rparr>)) (
     seqM (readM (\<lambda>c. requireR (pa_kind args = cm_kind c) (ProtocolError ''unsupported pairing kind''))) (
     bindM (readM (\<lambda>c. Inr (cm_confirms c))) (\<lambda>confirms.
     if \<not> confirms then ceremony_accept args
     else
       seqM (setM (\<lambda>c. c\<lparr> cm_pin := Some (pa_pin args) \<rparr>)) (
       seqM (liftR (requireR (six_digits (pa_pin args)) (ProtocolError ''Numeric Comparison PIN is not six digits''))) (
       seqM (liftR (pa_get_deferral args)) (
       seqM (setM (\<lambda>c. called (DeferralCall args) (c\<lparr> cm_deferral := Some args \<rparr>))) (
       seqM (liftR (pa_schedule args)) (
       setM (\<lambda>c. c\<lparr> cm_scheduled := cm_scheduled c @ [args] \<rparr>))))))))))"

definition ceremony_handler :: "pairing_args \<Rightarrow> ceremony \<Rightarrow> ceremony" where
  "ceremony_handler args c =
     (if \<not> cm_active c then c
      else case ceremony_request args c of
             (Inl e, c) \<Rightarrow> ceremony_complete (c\<lparr> cm_error := Some e \<rparr>)
           | (Inr _, c) \<Rightarrow> c)"

definition ceremony_start_decision :: "pairing_args \<Rightarrow> ceremony \<Rightarrow> ceremony" where
  "ceremony_start_decision args c =
     (if cm_active c \<and> cm_error c = None then c\<lparr> cm_task := Deciding args \<rparr> else c)"

text \<open>How \<open>await self.confirm(self.pin)\<close> ends; \<open>Answered\<close> says whether the value is the boolean \<open>True\<close>.\<close>

datatype human_outcome = Answered bool | HumanRaised exn | HumanCancelled

text \<open>\<open>_decide\<close> up to its \<open>finally\<close>.\<close>

definition ceremony_decide :: "pairing_args \<Rightarrow> human_outcome \<Rightarrow> ceremony \<Rightarrow> ceremony" where
  "ceremony_decide args human c =
     (case human of
        Answered yes \<Rightarrow>
          if \<not> cm_active c \<or> cm_error c \<noteq> None then c
          else let c = c\<lparr> cm_decision := Some yes \<rparr>
               in if \<not> yes then c
                  else case ceremony_accept args c of
                         (Inl e, c) \<Rightarrow> c\<lparr> cm_error := Some e \<rparr>
                       | (Inr _, c) \<Rightarrow> c
      | HumanRaised e \<Rightarrow> c\<lparr> cm_error := Some e \<rparr>
      | HumanCancelled \<Rightarrow> c)"

definition ceremony_stop :: "ceremony \<Rightarrow> ceremony" where
  "ceremony_stop c = ceremony_complete (c\<lparr> cm_active := False \<rparr>)"

text \<open>
  The atomic sections, each under the lock or without an \<open>await\<close>: the handler on any thread, the
  scheduled \<open>_start_decision\<close>, the two parts of \<open>_decide\<close>, \<open>stop\<close>, and a decision task that \<open>stop\<close>
  cancels before it first runs, whose body never starts.
\<close>

datatype pairing_event =
    Requested pairing_args | Dispatched | Human human_outcome | Finalized | Stopped | NeverStarted

inductive ceremony_step :: "ceremony \<Rightarrow> pairing_event \<Rightarrow> ceremony \<Rightarrow> bool" where
  requested: "ceremony_step c (Requested args) (ceremony_handler args c)"
| dispatched: "cm_scheduled c = args # rest \<Longrightarrow>
    ceremony_step c Dispatched (ceremony_start_decision args (c\<lparr> cm_scheduled := rest \<rparr>))"
| human: "cm_task c = Deciding args \<Longrightarrow>
    ceremony_step c (Human h) ((ceremony_decide args h c)\<lparr> cm_task := Finalizing \<rparr>)"
| finalized: "cm_task c = Finalizing \<Longrightarrow>
    ceremony_step c Finalized ((ceremony_complete c)\<lparr> cm_task := TaskDone \<rparr>)"
| stopped: "ceremony_step c Stopped (ceremony_stop c)"
| never_started: "\<not> cm_active c \<Longrightarrow> cm_task c = Deciding args \<Longrightarrow>
    ceremony_step c NeverStarted (c\<lparr> cm_task := TaskDone \<rparr>)"

inductive_cases ceremony_stepE: "ceremony_step c e c'"

inductive ceremony_run :: "string \<Rightarrow> bool \<Rightarrow> pairing_event list \<Rightarrow> ceremony \<Rightarrow> bool" for kind confirms where
  start: "ceremony_run kind confirms [] (Ceremony_init kind confirms)"
| step: "ceremony_run kind confirms es c \<Longrightarrow> ceremony_step c e c' \<Longrightarrow> ceremony_run kind confirms (es @ [e]) c'"

text \<open>The same as a function; an event that cannot happen in a state is ignored.\<close>

definition ceremony_event :: "ceremony \<Rightarrow> pairing_event \<Rightarrow> ceremony" where
  "ceremony_event c e =
     (case e of
        Requested args \<Rightarrow> ceremony_handler args c
      | Dispatched \<Rightarrow> (case cm_scheduled c of [] \<Rightarrow> c
                      | args # rest \<Rightarrow> ceremony_start_decision args (c\<lparr> cm_scheduled := rest \<rparr>))
      | Human h \<Rightarrow> (case cm_task c of Deciding args \<Rightarrow> (ceremony_decide args h c)\<lparr> cm_task := Finalizing \<rparr> | _ \<Rightarrow> c)
      | Finalized \<Rightarrow> if cm_task c = Finalizing then (ceremony_complete c)\<lparr> cm_task := TaskDone \<rparr> else c
      | Stopped \<Rightarrow> ceremony_stop c
      | NeverStarted \<Rightarrow> (case cm_task c of Deciding args \<Rightarrow> if cm_active c then c else c\<lparr> cm_task := TaskDone \<rparr> | _ \<Rightarrow> c))"

section \<open>Custom pairing\<close>

record pairing_info =
  pi_id :: string
  pi_is_paired :: bool
  pi_can_pair :: bool
  pi_protection_level :: string

text \<open>
  \<open>wr_requester n\<close>: the device id of the connected Bleak backend's requester at the \<open>n\<close>-th lookup, if it
  has one; \<open>wr_info n id\<close>: what \<open>create_from_id_async\<close> gives. \<open>wr_load\<close>: the WinRT packages are there.
\<close>

record winrt =
  wr_load :: "unit result"
  wr_requester :: "nat \<Rightarrow> string option"
  wr_info :: "nat \<Rightarrow> string \<Rightarrow> pairing_info option result"
  wr_unpair :: "unit result"

datatype winrt_call = AddHandler | PairAsync string string | CancelNative | RemoveHandler | Unpair

record pairing_client =
  pc_device_id :: "string option"
  pc_lookups :: nat
  pc_calls :: "winrt_call list"

definition device_information :: "winrt \<Rightarrow> (pairing_client, pairing_info) meth" where
  "device_information W s =
     (let n = pc_lookups s;
          s = s\<lparr> pc_lookups := n + 1, pc_device_id := (case wr_requester W n of Some i \<Rightarrow> Some i | None \<Rightarrow> pc_device_id s) \<rparr>
      in (case pc_device_id s of
            None \<Rightarrow> Inl (ProtocolError ''cannot resolve the connected Bleak WinRT device identity'')
          | Some device_id \<Rightarrow>
              if device_id = [] then Inl (ProtocolError ''cannot resolve the connected Bleak WinRT device identity'')
              else bindR (wr_info W n device_id) (\<lambda>info. case info of
                     None \<Rightarrow> Inl (ProtocolError ''Windows returned no matching DeviceInformation'')
                   | Some i \<Rightarrow> if pi_id i \<noteq> device_id
                               then Inl (ProtocolError ''Windows returned no matching DeviceInformation'') else Inr i), s))"

definition inspect_pairing :: "winrt \<Rightarrow> (pairing_client, pairing_state) meth" where
  "inspect_pairing W =
     seqM (liftR (wr_load W)) (
     bindM (device_information W) (\<lambda>i.
     retM \<lparr> ps_is_paired = pi_is_paired i, ps_can_pair = pi_can_pair i, ps_protection_level = pi_protection_level i \<rparr>))"

text \<open>
  What happens during one pairing: the result of registering the handler, of starting the operation,
  the events until the wait for it ends, how it ends (the status, by name, or an exception, \<open>TimeoutError\<close>
  among them), the events while \<open>stop\<close> waits for the decision task, and the results of the clean-up calls.
\<close>

record pairing_attempt =
  pt_add :: "unit result"
  pt_start :: "unit result"
  pt_before :: "pairing_event list"
  pt_wait :: "string result"
  pt_stop :: "unit result"
  pt_after :: "pairing_event list"
  pt_cancel :: "unit result"
  pt_remove :: "unit result"

definition winrt_do :: "winrt_call \<Rightarrow> 'a result \<Rightarrow> (pairing_client, 'a) meth" where
  "winrt_do x r s = (r, s\<lparr> pc_calls := pc_calls s @ [x] \<rparr>)"

text \<open>The ceremony when \<open>stop\<close> has returned.\<close>

definition ceremony_result :: "pairing_attempt \<Rightarrow> string \<Rightarrow> bool \<Rightarrow> ceremony" where
  "ceremony_result T kind confirms =
     foldl ceremony_event (Ceremony_init kind confirms) (pt_before T @ Stopped # pt_after T)"

definition pairing_operation :: "pairing_attempt \<Rightarrow> string \<Rightarrow> string \<Rightarrow> (pairing_client, string) meth" where
  "pairing_operation T kind protection =
     finallyM (\<lambda>s.
       case seqM (winrt_do (PairAsync kind protection) (pt_start T)) (liftR (pt_wait T)) s of
         (Inl TimeoutError, s) \<Rightarrow> (Inl (ProtocolError ''pairing did not complete in time''), s)
       | (r, s) \<Rightarrow> (r, s))
     (finallyM (liftR (pt_stop T))
     (finallyM (if isl (pt_start T) \<or> \<not> isl (pt_wait T) then retM () else winrt_do CancelNative (pt_cancel T))
     (winrt_do RemoveHandler (pt_remove T))))"

text \<open>The checks on what the operation reported, against the bond that Windows then has.\<close>

definition pairing_verdict :: "string \<Rightarrow> ceremony \<Rightarrow> bool \<Rightarrow> pairing_info \<Rightarrow> pairing_outcome result" where
  "pairing_verdict status ceremony confirms refreshed =
     (let reported_success = status \<in> {''PAIRED'', ''ALREADY_PAIRED''}; paired = pi_is_paired refreshed
      in if reported_success \<and> \<not> paired
         then Inl (ProtocolError ''pairing result and refreshed Windows bond state disagree'')
         else if confirms \<and> reported_success
                 \<and> \<not> (status = ''PAIRED'' \<and> cm_decision ceremony = Some True \<and> cm_accept_invoked ceremony)
         then Inl (ProtocolError ''cold pairing succeeded without this handler's explicit NC acceptance'')
         else Inr \<lparr> po_status = status, po_paired = (paired \<or> reported_success),
                   po_protection_level = pi_protection_level refreshed, po_pin_shown = cm_pin ceremony,
                   po_ceremony = cm_ceremony ceremony, po_decision = cm_decision ceremony,
                   po_accept_invoked = cm_accept_invoked ceremony \<rparr>)"

definition run_custom_pairing ::
  "winrt \<Rightarrow> pairing_attempt \<Rightarrow> string \<Rightarrow> string \<Rightarrow> bool \<Rightarrow> rat \<Rightarrow> (pairing_client, pairing_outcome) meth" where
  "run_custom_pairing W T kind protection confirms timeout =
     seqM (liftR (requireR (timeout > 0) (ValueError ''pairing timeout must be positive''))) (
     bindM (device_information W) (\<lambda>info.
     seqM (liftR (requireR (\<not> pi_is_paired info)
             (ProtocolError ''device became paired before custom pairing; clear both bonds''))) (
     seqM (liftR (requireR (pi_can_pair info) (ProtocolError ''Windows reports the device cannot be paired''))) (
     seqM (winrt_do AddHandler (pt_add T)) (
     bindM (pairing_operation T kind protection) (\<lambda>status.
     seqM (liftR (requireR (cm_error (ceremony_result T kind confirms) = None)
             (ProtocolError ''custom pairing handler failed''))) (
     bindM (device_information W) (\<lambda>refreshed.
     liftR (pairing_verdict status (ceremony_result T kind confirms) confirms refreshed)))))))))"

definition pair_numeric_comparison ::
  "winrt \<Rightarrow> pairing_attempt \<Rightarrow> rat \<Rightarrow> (pairing_client, pairing_outcome) meth" where
  "pair_numeric_comparison W T timeout =
     seqM (liftR (wr_load W)) (run_custom_pairing W T ''CONFIRM_PIN_MATCH'' PROTECTION_ENCRYPTION_AND_AUTHENTICATION True timeout)"

definition pair_just_works_test_only ::
  "winrt \<Rightarrow> pairing_attempt \<Rightarrow> rat \<Rightarrow> (pairing_client, pairing_outcome) meth" where
  "pair_just_works_test_only W T timeout =
     seqM (liftR (wr_load W)) (run_custom_pairing W T ''CONFIRM_ONLY'' ''ENCRYPTION'' False timeout)"

definition unpair :: "winrt \<Rightarrow> (pairing_client, unit) meth" where
  "unpair W = winrt_do Unpair (wr_unpair W)"

section \<open>Console confirmation\<close>

text \<open>
  The loop of \<open>read_console_line\<close> over what each turn finds: no key, or a key. \<open>None\<close> is the cancellation:
  by Ctrl-C, or of the waiting task. \<open>extended\<close>: the next key belongs to an extended key code.
\<close>

fun console_loop :: "(char \<Rightarrow> bool) \<Rightarrow> bool \<Rightarrow> string \<Rightarrow> char option list \<Rightarrow> string option" where
  "console_loop printable extended chars [] = None"
| "console_loop printable extended chars (None # turns) = console_loop printable extended chars turns"
| "console_loop printable extended chars (Some c # turns) =
     (if extended then console_loop printable False chars turns
      else if c = CHR 0x03 then None
      else if c \<in> {CHR 0x00, CHR 0xE0} then console_loop printable True chars turns
      else if c \<in> {CHR 0x0D, CHR 0x0A} then Some chars
      else if c = CHR 0x08 then console_loop printable False (butlast chars) turns
      else if printable c then console_loop printable False (chars @ [c]) turns
      else console_loop printable False chars turns)"

text \<open>Keys typed before the prompt are discarded. An inner \<open>None\<close> is a \<open>CancelledError\<close>.\<close>

definition read_console_line :: "bool \<Rightarrow> (char \<Rightarrow> bool) \<Rightarrow> char list \<Rightarrow> char option list \<Rightarrow> string option result" where
  "read_console_line interactive printable typed_before turns =
     (if \<not> interactive then Inl (ProtocolError ''Numeric Comparison requires an interactive Windows terminal'')
      else Inr (console_loop printable False [] turns))"

text \<open>\<open>_confirm_numeric_comparison\<close> of \<open>main.py\<close>, as an outcome of the ceremony's callback.\<close>

definition confirm_numeric_comparison :: "string option result \<Rightarrow> human_outcome" where
  "confirm_numeric_comparison line =
     (case line of
        Inl e \<Rightarrow> HumanRaised e
      | Inr None \<Rightarrow> HumanCancelled
      | Inr (Some answer) \<Rightarrow> Answered (map latin1_lower (py_strip answer) \<in> {''y'', ''yes''}))"

section \<open>Lemmas\<close>

text \<open>The event \<open>a\<close> asked for a comparison of its six-digit PIN, which the ceremony shows.\<close>

definition asked :: "ceremony \<Rightarrow> pairing_args \<Rightarrow> bool" where
  "asked c a \<longleftrightarrow> cm_received c \<and> pa_kind a = cm_kind c \<and> six_digits (pa_pin a) \<and> cm_pin c = Some (pa_pin a)"

text \<open>The human said yes after \<open>a\<close> had been requested and before the ceremony was stopped.\<close>

definition consent :: "pairing_event list \<Rightarrow> pairing_args \<Rightarrow> bool" where
  "consent es a \<longleftrightarrow> (\<exists>before after. es = before @ Human (Answered True) # after
     \<and> Requested a \<in> set before \<and> Stopped \<notin> set before)"

lemma consent_later: "consent es a \<Longrightarrow> consent (es @ [e]) a"
  unfolding consent_def by (metis append.assoc append_Cons)

lemma consent_now: "Requested a \<in> set es \<Longrightarrow> Stopped \<notin> set es \<Longrightarrow> consent (es @ [Human (Answered True)]) a"
  unfolding consent_def by blast

text \<open>Where a Numeric Comparison ceremony is: nothing has been asked of WinRT, or one event has been deferred.\<close>

definition ceremony_idle :: "ceremony \<Rightarrow> bool" where
  "ceremony_idle c \<longleftrightarrow> cm_calls c = [] \<and> cm_deferral c = None \<and> cm_scheduled c = [] \<and> cm_task c = NoTask
     \<and> cm_decision c = None \<and> \<not> cm_accept_invoked c"

definition ceremony_deferred :: "pairing_event list \<Rightarrow> ceremony \<Rightarrow> pairing_args \<Rightarrow> bool" where
  "ceremony_deferred es c a \<longleftrightarrow> asked c a \<and> Requested a \<in> set es
     \<and> cm_scheduled c \<in> {[], [a]} \<and> (cm_task c \<noteq> NoTask \<longrightarrow> cm_scheduled c = [])
     \<and> (cm_task c = NoTask \<longrightarrow> cm_decision c = None)
     \<and> (\<forall>b. cm_task c = Deciding b \<longrightarrow> b = a \<and> cm_decision c = None)
     \<and> (cm_accept_invoked c \<longrightarrow> cm_decision c = Some True)
     \<and> (cm_decision c = Some True \<longrightarrow> consent es a)
     \<and> (let accepts = (if cm_decision c = Some True then [AcceptCall a] else [])
        in cm_deferral c = Some a \<and> cm_active c \<and> cm_calls c = DeferralCall a # accepts
         \<or> cm_deferral c = None \<and> (\<not> cm_active c \<or> cm_error c \<noteq> None \<or> cm_task c = TaskDone)
           \<and> cm_calls c = DeferralCall a # accepts @ [CompleteCall a])"

definition ceremony_inv :: "pairing_event list \<Rightarrow> ceremony \<Rightarrow> bool" where
  "ceremony_inv es c \<longleftrightarrow> cm_confirms c \<and> (cm_active c \<longleftrightarrow> Stopped \<notin> set es)
     \<and> (ceremony_idle c \<or> (\<exists>a. ceremony_deferred es c a))"

lemmas ceremony_inv_defs = ceremony_inv_def ceremony_idle_def ceremony_deferred_def asked_def Let_def

lemma ceremony_inv_init: "ceremony_inv [] (Ceremony_init kind True)"
  by (simp add: ceremony_inv_defs Ceremony_init_def)

lemma ceremony_complete_simps:
  "cm_deferral c = None \<Longrightarrow> ceremony_complete c = c"
  "cm_deferral c = Some a \<Longrightarrow> ceremony_complete c = c\<lparr> cm_deferral := None, cm_calls := cm_calls c @ [CompleteCall a],
     cm_error := (case pa_complete a of Inl e \<Rightarrow> Some e | Inr _ \<Rightarrow> cm_error c) \<rparr>"
  by (simp_all add: ceremony_complete_def called_def Let_def split: sum.split)

lemma ceremony_idle_complete: "ceremony_idle c \<Longrightarrow> ceremony_complete c = c"
  by (simp add: ceremony_idle_def ceremony_complete_simps)

lemma ceremony_deferred_complete:
  assumes "ceremony_deferred es c a" and "cm_error c \<noteq> None \<or> cm_task c = TaskDone"
  shows "ceremony_deferred es (ceremony_complete c) a"
proof (cases "cm_deferral c")
  case None
  then show ?thesis using assms(1) by (simp add: ceremony_complete_simps)
next
  case (Some b)
  then have "b = a" using assms(1) by (simp add: ceremony_deferred_def Let_def)
  then show ?thesis
    using assms Some by (simp add: ceremony_deferred_def asked_def ceremony_complete_simps Let_def split: sum.split)
qed

lemma ceremony_complete_keeps [simp]:
  "cm_kind (ceremony_complete c) = cm_kind c" "cm_confirms (ceremony_complete c) = cm_confirms c"
  "cm_active (ceremony_complete c) = cm_active c" "cm_accept_invoked (ceremony_complete c) = cm_accept_invoked c"
  "cm_pin (ceremony_complete c) = cm_pin c" "cm_task (ceremony_complete c) = cm_task c"
  "cm_received (ceremony_complete c) = cm_received c" "cm_decision (ceremony_complete c) = cm_decision c"
  "cm_deferral (ceremony_complete c) = None"
  by (cases "cm_deferral c"; simp add: ceremony_complete_simps)+

lemma ceremony_inv_complete:
  "ceremony_inv es c \<Longrightarrow> cm_error c \<noteq> None \<or> cm_task c = TaskDone \<Longrightarrow> ceremony_inv es (ceremony_complete c)"
  unfolding ceremony_inv_def by (auto simp: ceremony_idle_complete intro: ceremony_deferred_complete)

lemma ceremony_deferred_error: "ceremony_deferred es c a \<Longrightarrow> ceremony_deferred es (c\<lparr> cm_error := Some e \<rparr>) a"
  by (cases "cm_deferral c"; cases "cm_decision c = Some True"; simp add: ceremony_deferred_def asked_def Let_def)

lemma ceremony_inv_error: "ceremony_inv es c \<Longrightarrow> ceremony_inv es (c\<lparr> cm_error := Some e \<rparr>)"
  unfolding ceremony_inv_def by (auto simp: ceremony_idle_def intro: ceremony_deferred_error)

lemma ceremony_deferred_later: "ceremony_deferred es c a \<Longrightarrow> ceremony_deferred (es @ [e]) c a"
  by (simp add: ceremony_deferred_def Let_def consent_later)

lemma ceremony_inv_later: "ceremony_inv es c \<Longrightarrow> e \<noteq> Stopped \<Longrightarrow> ceremony_inv (es @ [e]) c"
  unfolding ceremony_inv_def by (auto intro: ceremony_deferred_later)

lemma ceremony_deferred_stop:
  assumes "ceremony_deferred es c a"
  shows "ceremony_deferred (es @ [Stopped]) (ceremony_stop c) a"
proof (cases "cm_deferral c")
  case None
  then show ?thesis
    using assms by (simp add: ceremony_deferred_def asked_def ceremony_stop_def ceremony_complete_simps Let_def consent_later)
next
  case (Some b)
  then have "b = a" using assms by (auto simp: ceremony_deferred_def Let_def)
  then show ?thesis
    using assms Some by (simp add: ceremony_deferred_def asked_def ceremony_stop_def ceremony_complete_simps Let_def consent_later)
qed

lemma ceremony_inv_stop: "ceremony_inv es c \<Longrightarrow> ceremony_inv (es @ [Stopped]) (ceremony_stop c)"
  using ceremony_deferred_stop [of es c]
  by (cases "cm_deferral c")
    (auto simp: ceremony_inv_def ceremony_stop_def ceremony_complete_simps ceremony_idle_def)

text \<open>A request that fails before the deferral leaves nothing behind but the error.\<close>

lemma ceremony_request_first:
  assumes "ceremony_inv es c" and "\<not> cm_received c" and "cm_active c"
  shows "ceremony_inv (es @ [Requested args]) (case ceremony_request args c of
     (Inl e, c) \<Rightarrow> ceremony_complete (c\<lparr> cm_error := Some e \<rparr>) | (Inr _, c) \<Rightarrow> c)"
proof -
  have idle: "ceremony_idle c" "cm_confirms c" using assms by (auto simp: ceremony_inv_defs)
  show ?thesis
    using idle assms(1,3)
    by (auto simp: ceremony_request_def seqM_def bindM_def requireR_def ceremony_complete_simps called_def
        ceremony_inv_defs split: sum.splits)
qed

lemma ceremony_inv_handler:
  assumes "ceremony_inv es c"
  shows "ceremony_inv (es @ [Requested args]) (ceremony_handler args c)"
proof (cases "cm_active c \<and> cm_received c")
  case True
  then show ?thesis
    using ceremony_inv_complete [of "es @ [Requested args]", OF ceremony_inv_error [OF ceremony_inv_later [OF assms]]]
    by (simp add: ceremony_handler_def ceremony_request_def seqM_def bindM_def requireR_def)
next
  case False
  then show ?thesis
    using ceremony_request_first [OF assms] ceremony_inv_later [OF assms] by (auto simp: ceremony_handler_def)
qed

lemma ceremony_inv_decide:
  assumes "ceremony_inv es c" and "cm_task c = Deciding a"
  shows "ceremony_inv (es @ [Human h]) ((ceremony_decide a h c)\<lparr> cm_task := Finalizing \<rparr>)"
proof -
  have "ceremony_deferred es c a" using assms by (auto simp: ceremony_inv_defs)
  then show ?thesis
    using assms consent_now [of a es]
    by (cases h) (auto simp: ceremony_decide_def ceremony_accept_def seqM_def bindM_def called_def Let_def
        ceremony_inv_defs consent_later split: sum.splits if_splits)
qed

lemma ceremony_inv_step:
  assumes "ceremony_step c e c'" and "ceremony_inv es c"
  shows "ceremony_inv (es @ [e]) c'"
  using assms(1)
proof cases
  case (dispatched args rest)
  then show ?thesis
    using assms(2) by (auto simp: ceremony_start_decision_def ceremony_inv_defs consent_later)
next
  case finalized
  then have "ceremony_inv (es @ [e]) (c\<lparr> cm_task := TaskDone \<rparr>)"
    using assms(2) by (auto simp: ceremony_inv_defs consent_later)
  then have "ceremony_inv (es @ [e]) (ceremony_complete (c\<lparr> cm_task := TaskDone \<rparr>))"
    by (rule ceremony_inv_complete) simp
  moreover have "ceremony_complete (c\<lparr> cm_task := TaskDone \<rparr>) = (ceremony_complete c)\<lparr> cm_task := TaskDone \<rparr>"
    by (cases "cm_deferral c") (simp_all add: ceremony_complete_simps split: sum.split)
  ultimately show ?thesis using finalized by simp
next
  case (never_started args)
  then show ?thesis using assms(2) by (auto simp: ceremony_inv_defs consent_later)
qed (use assms(2) ceremony_inv_handler ceremony_inv_decide ceremony_inv_stop in auto)

lemma ceremony_invE:
  "ceremony_inv es c \<Longrightarrow> (ceremony_idle c \<Longrightarrow> P) \<Longrightarrow> (\<And>a. ceremony_deferred es c a \<Longrightarrow> P) \<Longrightarrow> P"
  by (auto simp: ceremony_inv_def)

text \<open>What the invariant says about the calls to WinRT.\<close>

lemma ceremony_deferred_calls:
  "ceremony_deferred es c a \<Longrightarrow> pa_kind a = cm_kind c \<and> six_digits (pa_pin a) \<and> cm_pin c = Some (pa_pin a)
    \<and> (cm_calls c \<in> {[DeferralCall a], [DeferralCall a, CompleteCall a]}
       \<or> cm_calls c \<in> {[DeferralCall a, AcceptCall a], [DeferralCall a, AcceptCall a, CompleteCall a]} \<and> consent es a)"
  by (cases "cm_decision c = Some True"; cases "cm_deferral c"; simp add: ceremony_deferred_def asked_def Let_def)

lemma ceremony_inv_calls:
  "ceremony_inv es c \<Longrightarrow> cm_calls c = [] \<or> (\<exists>a. pa_kind a = cm_kind c \<and> six_digits (pa_pin a) \<and> cm_pin c = Some (pa_pin a)
    \<and> (cm_calls c \<in> {[DeferralCall a], [DeferralCall a, CompleteCall a]}
       \<or> cm_calls c \<in> {[DeferralCall a, AcceptCall a], [DeferralCall a, AcceptCall a, CompleteCall a]} \<and> consent es a))"
  by (elim ceremony_invE) (blast dest: ceremony_deferred_calls | simp add: ceremony_idle_def)+

lemma ceremony_run_inv: "ceremony_run kind True es c \<Longrightarrow> ceremony_inv es c"
  by (induction rule: ceremony_run.induct) (simp_all add: ceremony_inv_init ceremony_inv_step)

lemma ceremony_step_kind: "ceremony_step c e c' \<Longrightarrow> cm_kind c' = cm_kind c"
  by (erule ceremony_stepE)
    (auto simp: ceremony_handler_def ceremony_request_def ceremony_accept_def ceremony_start_decision_def
      ceremony_decide_def ceremony_stop_def seqM_def bindM_def called_def requireR_def Let_def
      split: sum.splits human_outcome.splits if_splits)

lemma ceremony_run_kind: "ceremony_run kind confirms es c \<Longrightarrow> cm_kind c = kind"
  by (induction rule: ceremony_run.induct) (simp_all add: Ceremony_init_def ceremony_step_kind)

text \<open>The function performs a step, or ignores an event that cannot happen.\<close>

lemma ceremony_event_step: "ceremony_step c e (ceremony_event c e) \<or> ceremony_event c e = c \<and> e \<noteq> Stopped"
  by (cases e) (auto simp: ceremony_event_def intro: ceremony_step.intros split: list.splits decision_task.splits)

lemma ceremony_inv_event: "ceremony_inv es c \<Longrightarrow> ceremony_inv (es @ [e]) (ceremony_event c e)"
  using ceremony_event_step [of c e] ceremony_inv_step ceremony_inv_later by metis

lemma ceremony_inv_events: "ceremony_inv es c \<Longrightarrow> ceremony_inv (es @ fs) (foldl ceremony_event c fs)"
proof (induction fs arbitrary: es c)
  case (Cons f fs)
  then show ?case using Cons.IH [of "es @ [f]" "ceremony_event c f"] ceremony_inv_event by simp
qed simp

lemma ceremony_events_kind: "cm_kind (foldl ceremony_event c fs) = cm_kind c"
proof (induction fs arbitrary: c)
  case (Cons f fs)
  then show ?case using ceremony_event_step [of c f] ceremony_step_kind by (metis foldl_Cons)
qed simp

text \<open>Consent that precedes the stop lies before it.\<close>

lemma consent_before_stop:
  assumes "consent (fs @ Stopped # gs) a"
  shows "consent fs a"
proof -
  obtain u v where uv: "fs @ Stopped # gs = u @ Human (Answered True) # v" "Requested a \<in> set u" "Stopped \<notin> set u"
    using assms by (auto simp: consent_def)
  then obtain w where "fs = u @ w \<and> w @ Stopped # gs = Human (Answered True) # v
      \<or> fs @ w = u \<and> Stopped # gs = w @ Human (Answered True) # v"
    by (auto simp: append_eq_append_conv2)
  then show ?thesis using uv(2,3) unfolding consent_def by (cases w) auto
qed

lemma ceremony_result_inv: "ceremony_inv (pt_before T @ Stopped # pt_after T) (ceremony_result T kind True)"
  using ceremony_inv_events [OF ceremony_inv_init, of "pt_before T @ Stopped # pt_after T" kind]
  by (simp add: ceremony_result_def)

lemma ceremony_result_kind: "cm_kind (ceremony_result T kind confirms) = kind"
  unfolding ceremony_result_def ceremony_events_kind by (simp add: Ceremony_init_def)

text \<open>
  What a ceremony promises, without events, deferrals, tasks and locks: a six-digit PIN is shown once, and only
  the human's yes turns it into an acceptance; anything may end it without one.
\<close>

datatype consent_state = NotAsked | Asking string | Accepted string | Refused

inductive consent_step :: "consent_state \<Rightarrow> pairing_event \<Rightarrow> consent_state \<Rightarrow> bool" where
  ask: "six_digits (pa_pin a) \<Longrightarrow> consent_step NotAsked (Requested a) (Asking (pa_pin a))"
| accept: "consent_step (Asking pin) (Human (Answered True)) (Accepted pin)"
| refuse: "s = NotAsked \<or> s = Asking pin \<Longrightarrow> consent_step s e Refused"
| keep: "consent_step s e s"

definition ceremony_abs :: "ceremony \<Rightarrow> consent_state" where
  "ceremony_abs c =
     (if cm_accept_invoked c then Accepted (the (cm_pin c))
      else if \<not> cm_active c \<or> cm_error c \<noteq> None \<or> cm_task c = Finalizing \<or> cm_task c = TaskDone then Refused
      else if cm_deferral c = None then NotAsked else Asking (the (cm_pin c)))"

lemma consent_step_to:
  "s = t \<or> (t = Refused \<and> (\<forall>pin. s \<noteq> Accepted pin)) \<Longrightarrow> consent_step s e t"
  by (cases s) (auto intro: consent_step.intros)

lemma ceremony_complete_error: "cm_error (ceremony_complete (c\<lparr> cm_error := Some e \<rparr>)) = None \<longleftrightarrow> False"
  by (cases "cm_deferral c") (simp_all add: ceremony_complete_simps split: sum.split)

lemma abs_handler:
  assumes "ceremony_inv es c"
  shows "consent_step (ceremony_abs c) (Requested a) (ceremony_abs (ceremony_handler a c))"
  using assms
proof (elim ceremony_invE)
  assume idle: "ceremony_idle c"
  have "cm_confirms c" using assms by (simp add: ceremony_inv_def)
  then show ?thesis
    using idle
    by (auto simp: ceremony_abs_def ceremony_idle_def ceremony_handler_def ceremony_request_def seqM_def bindM_def
        requireR_def called_def ceremony_complete_simps intro!: consent_step_to consent_step.ask split: sum.splits)
next
  fix b
  assume d: "ceremony_deferred es c b"
  then have "cm_received c" by (simp add: ceremony_deferred_def asked_def)
  then show ?thesis
    by (auto simp: ceremony_abs_def ceremony_handler_def ceremony_request_def seqM_def bindM_def requireR_def
        ceremony_complete_error intro!: consent_step_to)
qed

lemma abs_decide:
  assumes "ceremony_inv es c" and "cm_task c = Deciding a"
  shows "consent_step (ceremony_abs c) (Human h) (ceremony_abs ((ceremony_decide a h c)\<lparr> cm_task := Finalizing \<rparr>))"
proof -
  have d: "ceremony_deferred es c a" using assms by (auto simp: ceremony_inv_def ceremony_idle_def ceremony_deferred_def)
  then have "\<not> cm_accept_invoked c" "cm_decision c = None" using assms(2) by (auto simp: ceremony_deferred_def)
  moreover have "cm_active c \<Longrightarrow> cm_error c = None \<Longrightarrow> cm_deferral c \<noteq> None"
    using d assms(2) by (auto simp: ceremony_deferred_def Let_def)
  ultimately show ?thesis
    using assms(2)
    by (auto simp: ceremony_abs_def ceremony_decide_def ceremony_accept_def seqM_def bindM_def called_def Let_def
        intro!: consent_step_to consent_step.accept split: sum.splits human_outcome.split)
qed

text \<open>After \<open>stop\<close>.\<close>

lemma ceremony_stopped:
  assumes "ceremony_inv es c" and "Stopped \<in> set es"
  shows "\<not> cm_active c" and "cm_deferral c = None"
    and "\<forall>a. (DeferralCall a \<in> set (cm_calls c)) = (CompleteCall a \<in> set (cm_calls c))"
proof -
  show act: "\<not> cm_active c" using assms by (simp add: ceremony_inv_def)
  have "ceremony_deferred es c a \<Longrightarrow> cm_deferral c = None
      \<and> (\<forall>b. (DeferralCall b \<in> set (cm_calls c)) = (CompleteCall b \<in> set (cm_calls c)))" for a
    using act by (cases "cm_decision c = Some True"; simp add: ceremony_deferred_def Let_def)
  then show "cm_deferral c = None" and "\<forall>a. (DeferralCall a \<in> set (cm_calls c)) = (CompleteCall a \<in> set (cm_calls c))"
    using assms(1) by (auto simp: ceremony_inv_def ceremony_idle_def)
qed

lemma ceremony_stopped_step:
  assumes "ceremony_step c e c'" and "\<not> cm_active c" and "cm_deferral c = None"
  shows "cm_calls c' = cm_calls c \<and> cm_decision c' = cm_decision c \<and> cm_accept_invoked c' = cm_accept_invoked c
    \<and> cm_deferral c' = None"
  using assms(1)
  by cases (use assms(2,3) in \<open>auto simp: ceremony_handler_def ceremony_start_decision_def ceremony_decide_def
      ceremony_stop_def ceremony_complete_simps split: human_outcome.split\<close>)

text \<open>A pairing that returns.\<close>

lemma pairing_verdict_Inr:
  assumes "pairing_verdict status c True refreshed = Inr out" and "po_status out \<in> {''PAIRED'', ''ALREADY_PAIRED''}"
  shows "po_status out = ''PAIRED''" "po_paired out" "po_decision out = Some True" "po_accept_invoked out"
    "cm_decision c = Some True" "po_pin_shown out = cm_pin c"
proof -
  have "po_status out = status" using assms(1) by (auto simp: pairing_verdict_def Let_def split: if_splits)
  then have st: "status \<in> {''PAIRED'', ''ALREADY_PAIRED''}" using assms(2) by simp
  then show "po_status out = ''PAIRED''" "po_paired out" "po_decision out = Some True" "po_accept_invoked out"
    "cm_decision c = Some True" "po_pin_shown out = cm_pin c"
    using assms(1) by (auto simp only: pairing_verdict_def Let_def pairing_outcome.simps sum.simps simp_thms split: if_splits)
qed

lemma run_custom_pairing_Inr:
  "run_custom_pairing W T kind protection confirms timeout s = (Inr out, t) \<Longrightarrow>
     \<exists>status refreshed. pairing_verdict status (ceremony_result T kind confirms) confirms refreshed = Inr out"
  by (auto simp: run_custom_pairing_def)

lemma pairing_operation_calls:
  "pc_calls (snd (pairing_operation T kind protection u)) = pc_calls u @ PairAsync kind protection
     # (if \<not> isl (pt_start T) \<and> isl (pt_wait T) then [CancelNative] else []) @ [RemoveHandler]"
proof -
  have f: "snd (finallyM m f s) = snd (f (snd (m s)))" for m :: "('s, 'a) meth" and f s
    by (simp add: finallyM_def Let_def case_prod_unfold)
  have m: "snd (case seqM (winrt_do x (pt_start T)) (liftR (pt_wait T)) s of
         (Inl TimeoutError, s) \<Rightarrow> (Inl e, s) | (r, s) \<Rightarrow> (r, s)) = s\<lparr> pc_calls := pc_calls s @ [x] \<rparr>" for x s and e :: exn
    by (cases "pt_start T"; cases "pt_wait T") (auto simp: seqM_def bindM_def winrt_do_def split: exn.split)
  show ?thesis by (simp add: pairing_operation_def f m winrt_do_def)
qed

lemma pairing_consented:
  assumes "pair_numeric_comparison W T timeout s = (Inr out, t)" and "po_status out \<in> {''PAIRED'', ''ALREADY_PAIRED''}"
  shows "po_status out = ''PAIRED'' \<and> po_paired out \<and> po_accept_invoked out \<and> po_decision out = Some True
    \<and> (\<exists>a. consent (pt_before T) a \<and> pa_kind a = ''CONFIRM_PIN_MATCH'' \<and> six_digits (pa_pin a)
          \<and> po_pin_shown out = Some (pa_pin a))"
proof -
  let ?c = "ceremony_result T ''CONFIRM_PIN_MATCH'' True"
  obtain status refreshed where v: "pairing_verdict status ?c True refreshed = Inr out"
    using assms(1) run_custom_pairing_Inr unfolding pair_numeric_comparison_def seqM_Inr by blast
  note out = pairing_verdict_Inr [OF v assms(2)]
  obtain a where a: "ceremony_deferred (pt_before T @ Stopped # pt_after T) ?c a"
    using ceremony_result_inv [of T "''CONFIRM_PIN_MATCH''"] out(5) by (auto simp: ceremony_inv_def ceremony_idle_def)
  then have "consent (pt_before T @ Stopped # pt_after T) a" using out(5) by (simp add: ceremony_deferred_def)
  then have "consent (pt_before T) a" by (rule consent_before_stop)
  moreover have "pa_kind a = ''CONFIRM_PIN_MATCH''" "six_digits (pa_pin a)" "cm_pin ?c = Some (pa_pin a)"
    using ceremony_deferred_calls [OF a] ceremony_result_kind [of T "''CONFIRM_PIN_MATCH''" True] by simp_all
  ultimately show ?thesis using out(1-4,6) by auto
qed

section \<open>Properties\<close>

text \<open>
  C7. No pairing without the human's consent. In every interleaving of WinRT threads, the event loop, the
  human and \<open>stop\<close>, a Numeric Comparison ceremony makes no call to WinRT, or it serves exactly one event,
  of the requested kind and with a six-digit PIN that is the one shown: it obtains its deferral, accepts
  it at most once and completes it at most once, in this order; and it accepts only if the human
  answered yes after the event and before the ceremony was stopped.
\<close>

theorem numeric_comparison_consent:
  assumes "ceremony_run kind True es c"
  shows "cm_calls c = [] \<or> (\<exists>a. pa_kind a = kind \<and> six_digits (pa_pin a) \<and> cm_pin c = Some (pa_pin a)
    \<and> (cm_calls c \<in> {[DeferralCall a], [DeferralCall a, CompleteCall a]}
       \<or> cm_calls c \<in> {[DeferralCall a, AcceptCall a], [DeferralCall a, AcceptCall a, CompleteCall a]} \<and> consent es a))"
  using ceremony_inv_calls [OF ceremony_run_inv [OF assms]] ceremony_run_kind [OF assms] by simp

text \<open>A run in which the human says yes.\<close>

definition demo_request :: pairing_args where
  "demo_request = \<lparr> pa_kind = ''CONFIRM_PIN_MATCH'', pa_pin = ''097689'', pa_get_deferral = Inr (), pa_schedule = Inr (),
     pa_accept = Inr (), pa_complete = Inr () \<rparr>"

definition demo_events :: "pairing_event list" where
  "demo_events = [Requested demo_request, Dispatched, Human (Answered True), Finalized]"

fun ceremony_progress :: "ceremony \<Rightarrow> pairing_event list \<Rightarrow> bool" where
  "ceremony_progress c [] = True"
| "ceremony_progress c (e # es) \<longleftrightarrow> ceremony_event c e \<noteq> c \<and> ceremony_progress (ceremony_event c e) es"

lemma ceremony_run_events:
  "ceremony_run kind confirms es c \<Longrightarrow> ceremony_progress c fs \<Longrightarrow> ceremony_run kind confirms (es @ fs) (foldl ceremony_event c fs)"
proof (induction fs arbitrary: es c)
  case (Cons f fs)
  then have "ceremony_run kind confirms (es @ [f]) (ceremony_event c f)"
    using ceremony_event_step [of c f] ceremony_run.step [of kind confirms es c f "ceremony_event c f"] by simp
  then show ?case using Cons by fastforce
qed simp

lemmas ceremony_eval = demo_events_def demo_request_def Ceremony_init_def ceremony_event_def ceremony_handler_def
  ceremony_request_def ceremony_start_decision_def ceremony_decide_def ceremony_accept_def ceremony_complete_def
  called_def seqM_def bindM_def requireR_def six_digits_def Let_def

lemma demo_ceremony:
  "foldl ceremony_event (Ceremony_init ''CONFIRM_PIN_MATCH'' True) demo_events =
     \<lparr> cm_kind = ''CONFIRM_PIN_MATCH'', cm_confirms = True, cm_active = True, cm_received = True,
       cm_pin = Some ''097689'', cm_ceremony = Some ''CONFIRM_PIN_MATCH'', cm_decision = Some True,
       cm_accept_invoked = True, cm_deferral = None, cm_scheduled = [], cm_task = TaskDone, cm_error = None,
       cm_calls = [DeferralCall demo_request, AcceptCall demo_request, CompleteCall demo_request] \<rparr>"
  by (simp add: ceremony_eval)

lemma demo_run:
  "ceremony_run ''CONFIRM_PIN_MATCH'' True demo_events (foldl ceremony_event (Ceremony_init ''CONFIRM_PIN_MATCH'' True) demo_events)"
  using ceremony_run_events [OF ceremony_run.start, of "''CONFIRM_PIN_MATCH''" True demo_events] by (simp add: ceremony_eval)

theorem numeric_comparison_consent_witness:
  "consent demo_events demo_request \<and> six_digits (pa_pin demo_request)"
  using numeric_comparison_consent [OF demo_run] unfolding demo_ceremony by auto

text \<open>
  Stopping ends a ceremony for good: once \<open>stop\<close> has run, every deferral obtained has been completed,
  and no later event, on whatever thread, makes another call to WinRT or changes what was decided.
\<close>

theorem ceremony_stop_final:
  assumes "ceremony_run kind True es c" and "Stopped \<in> set es" and "ceremony_step c e c'"
  shows "(\<forall>a. (DeferralCall a \<in> set (cm_calls c)) = (CompleteCall a \<in> set (cm_calls c)))
    \<and> cm_calls c' = cm_calls c \<and> cm_decision c' = cm_decision c \<and> cm_accept_invoked c' = cm_accept_invoked c
    \<and> cm_deferral c' = None"
  using ceremony_stopped [OF ceremony_run_inv [OF assms(1)] assms(2)] ceremony_stopped_step [OF assms(3)] by simp

theorem ceremony_stop_final_witness:
  "cm_calls (ceremony_stop (ceremony_stop (foldl ceremony_event (Ceremony_init ''CONFIRM_PIN_MATCH'' True) demo_events))) =
     [DeferralCall demo_request, AcceptCall demo_request, CompleteCall demo_request]"
proof -
  let ?c = "foldl ceremony_event (Ceremony_init ''CONFIRM_PIN_MATCH'' True) demo_events"
  have "ceremony_run ''CONFIRM_PIN_MATCH'' True (demo_events @ [Stopped]) (ceremony_stop ?c)"
    using ceremony_run.step [OF demo_run ceremony_step.stopped] .
  from ceremony_stop_final [OF this _ ceremony_step.stopped] show ?thesis
    by (simp add: demo_ceremony ceremony_stop_def ceremony_complete_simps)
qed

text \<open>
  C8. The ceremony implements its contract: under the abstraction that forgets events, deferrals, tasks
  and locks, each of its atomic sections, on whichever thread and in whatever order, is a step of
  the specification in which a six-digit PIN is shown once and only the human's yes accepts it.
\<close>

theorem ceremony_refines_consent:
  assumes "ceremony_run kind True es c" and "ceremony_step c e c'"
  shows "consent_step (ceremony_abs c) e (ceremony_abs c')"
proof -
  note inv = ceremony_run_inv [OF assms(1)]
  show ?thesis
    using assms(2)
  proof cases
    case (requested args)
    then show ?thesis using abs_handler [OF inv] by simp
  next
    case (human args h)
    then show ?thesis using abs_decide [OF inv] by simp
  next
    case (dispatched args rest)
    then show ?thesis
      using inv by (auto simp: ceremony_start_decision_def ceremony_abs_def ceremony_inv_def ceremony_idle_def
          ceremony_deferred_def intro!: consent_step_to)
  qed (auto simp: ceremony_abs_def ceremony_stop_def intro!: consent_step_to)
qed

theorem ceremony_refines_consent_witness:
  "consent_step (ceremony_abs (Ceremony_init ''CONFIRM_PIN_MATCH'' True)) (Requested demo_request) (Asking ''097689'')"
  using ceremony_refines_consent [OF ceremony_run.start ceremony_step.requested, of "''CONFIRM_PIN_MATCH''" demo_request]
  by (simp add: ceremony_eval ceremony_abs_def)

text \<open>
  C9. Windows pairing cannot succeed behind the user's back: if a Numeric Comparison pairing returns with
  the status PAIRED or ALREADY\_PAIRED, then the status is PAIRED, Windows confirms the bond, the handler
  accepted, and while the operation was pending the human said yes to the six-digit PIN of a
  requested event, which is the PIN the outcome reports.
\<close>

theorem pairing_needs_consent:
  assumes "pair_numeric_comparison W T timeout s = (Inr out, t)" and "po_status out \<in> {''PAIRED'', ''ALREADY_PAIRED''}"
  shows "po_status out = ''PAIRED'' \<and> po_paired out \<and> po_accept_invoked out \<and> po_decision out = Some True
    \<and> (\<exists>a. consent (pt_before T) a \<and> pa_kind a = ''CONFIRM_PIN_MATCH'' \<and> six_digits (pa_pin a)
          \<and> po_pin_shown out = Some (pa_pin a))"
  using assms by (rule pairing_consented)

definition demo_winrt :: winrt where
  "demo_winrt = \<lparr> wr_load = Inr (), wr_requester = (\<lambda>n. if n = 0 then Some ''ble-device'' else None),
     wr_info = (\<lambda>n device_id. Inr (Some \<lparr> pi_id = device_id, pi_is_paired = (n > 0), pi_can_pair = True,
       pi_protection_level = PROTECTION_ENCRYPTION_AND_AUTHENTICATION \<rparr>)), wr_unpair = Inr () \<rparr>"

definition demo_attempt :: pairing_attempt where
  "demo_attempt = \<lparr> pt_add = Inr (), pt_start = Inr (), pt_before = demo_events, pt_wait = Inr ''PAIRED'', pt_stop = Inr (),
     pt_after = [Requested demo_request], pt_cancel = Inr (), pt_remove = Inr () \<rparr>"

lemma demo_attempt_simps [simp]:
  "pt_add demo_attempt = Inr ()" "pt_start demo_attempt = Inr ()" "pt_before demo_attempt = demo_events"
  "pt_wait demo_attempt = Inr ''PAIRED''" "pt_stop demo_attempt = Inr ()" "pt_after demo_attempt = [Requested demo_request]"
  "pt_cancel demo_attempt = Inr ()" "pt_remove demo_attempt = Inr ()"
  by (simp_all add: demo_attempt_def)

definition new_pairing_client :: pairing_client where
  "new_pairing_client = \<lparr> pc_device_id = None, pc_lookups = 0, pc_calls = [] \<rparr>"

lemma demo_result:
  "ceremony_result demo_attempt ''CONFIRM_PIN_MATCH'' True =
     (foldl ceremony_event (Ceremony_init ''CONFIRM_PIN_MATCH'' True) demo_events)\<lparr> cm_active := False \<rparr>"
  by (simp add: ceremony_result_def demo_ceremony)
    (simp add: ceremony_event_def ceremony_stop_def ceremony_complete_simps ceremony_handler_def)

lemma demo_pairing:
  "fst (pair_numeric_comparison demo_winrt demo_attempt 90 new_pairing_client) =
     Inr \<lparr> po_status = ''PAIRED'', po_paired = True, po_protection_level = PROTECTION_ENCRYPTION_AND_AUTHENTICATION,
       po_pin_shown = Some ''097689'', po_ceremony = Some ''CONFIRM_PIN_MATCH'', po_decision = Some True,
       po_accept_invoked = True \<rparr>"
  by (simp add: pair_numeric_comparison_def run_custom_pairing_def demo_result demo_ceremony seqM_def bindM_def
      device_information_def pairing_operation_def finallyM_def winrt_do_def pairing_verdict_def
      demo_winrt_def new_pairing_client_def Let_def bindR_def)

theorem pairing_needs_consent_witness:
  "\<exists>a. consent demo_events a \<and> pa_pin a = ''097689''"
proof -
  let ?t = "snd (pair_numeric_comparison demo_winrt demo_attempt 90 new_pairing_client)"
  obtain out where out: "pair_numeric_comparison demo_winrt demo_attempt 90 new_pairing_client = (Inr out, ?t)"
    "po_status out = ''PAIRED''" "po_pin_shown out = Some ''097689''"
    using demo_pairing by (simp add: prod_eq_iff)
  then show ?thesis using pairing_needs_consent [OF out(1)] by auto
qed

text \<open>
  C26. The pairing operation cleans up however it ends: the handler is registered before the operation
  starts and unregistered last, exactly once each, and the native operation is cancelled exactly
  when it was started and did not return.
\<close>

theorem pairing_cleanup:
  "\<exists>calls. pc_calls (snd (run_custom_pairing W T kind protection confirms timeout s)) = pc_calls s @ calls
    \<and> calls \<in> {[], [AddHandler], AddHandler # PairAsync kind protection
         # (if \<not> isl (pt_start T) \<and> isl (pt_wait T) then [CancelNative] else []) @ [RemoveHandler]}
    \<and> (calls = [AddHandler]) = (calls \<noteq> [] \<and> isl (pt_add T))"
proof -
  have info: "pc_calls (snd (device_information W s)) = pc_calls s" for s
    by (simp add: device_information_def Let_def)
  note op = pairing_operation_calls [of T kind protection]
  define K where "K = (\<lambda>status. seqM (liftR (requireR (cm_error (ceremony_result T kind confirms) = None)
      (ProtocolError ''custom pairing handler failed''))) (bindM (device_information W) (\<lambda>refreshed.
      liftR (pairing_verdict status (ceremony_result T kind confirms) confirms refreshed))))"
  have tail: "pc_calls (snd (K x v)) = pc_calls v" for x v
    using info [of v] by (auto simp: K_def seqM_def bindM_def split: prod.splits sum.splits)
  note run = run_custom_pairing_def [of W T kind protection confirms timeout, folded K_def]
  obtain r u where u: "device_information W s = (r, u)" "pc_calls u = pc_calls s" using info [of s] by (cases "device_information W s") simp
  show ?thesis
  proof (cases "timeout > 0 \<and> (\<exists>i. r = Inr i \<and> \<not> pi_is_paired i \<and> pi_can_pair i)")
    case False
    then show ?thesis using u by (cases r) (auto simp: run seqM_def bindM_def requireR_def)
  next
    case True
    then obtain i where i: "r = Inr i" "\<not> pi_is_paired i" "pi_can_pair i" "timeout > 0" by blast
    let ?v = "u\<lparr> pc_calls := pc_calls s @ [AddHandler] \<rparr>"
    obtain r' w where w: "pairing_operation T kind protection ?v = (r', w)" by fastforce
    show ?thesis
    proof (cases "pt_add T")
      case (Inl e)
      then show ?thesis using u i by (simp add: run seqM_def bindM_def winrt_do_def)
    next
      case (Inr x)
      then have "pc_calls (snd (run_custom_pairing W T kind protection confirms timeout s)) = pc_calls w"
        using u i w tail by (cases r') (simp_all add: run winrt_do_def bindM_def seqM_def)
      then show ?thesis using Inr op [of ?v] w by simp
    qed
  qed
qed

end
