(* ===== verification/V1_Runner.thy ===== *)
theory V1_Runner
  imports Runner Pairing
begin

text \<open>
  \<open>src/central/v1_smp_mlkem.py\<close> and \<open>src/central/v1_cp2.py\<close>: the v1.0 run that proves the PQ operations
  closed, pairs, and then hands the link to the exchange of a checkpoint; its negative tests; the
  access-only exchange of CP1 and the diagnostic exchange of CP2. Timings are left out.
\<close>

section \<open>State of a run\<close>

text \<open>The result objects; CP2 extends the one of CP1, as its class does.\<close>

record v1_cp1_result =
  c1_scenario :: string
  c1_security_info :: v1_security_info
  c1_pre_l4_denials :: "(string \<times> string) list"
  c1_pairing_status :: string
  c1_pairing_protection :: string
  c1_public_key_len :: nat
  c1_ciphertext_fragments :: nat

record v1_cp2_result = v1_cp1_result +
  c2_diagnostic_match :: bool
  c2_start_sent :: bool
  c2_ready_received :: bool

definition V1CP1Result :: "string \<Rightarrow> v1_security_info \<Rightarrow> v1_cp1_result" where
  "V1CP1Result scenario info = \<lparr> c1_scenario = scenario, c1_security_info = info, c1_pre_l4_denials = [],
     c1_pairing_status = [], c1_pairing_protection = [], c1_public_key_len = 0, c1_ciphertext_fragments = 0 \<rparr>"

definition V1CP2Result :: "string \<Rightarrow> v1_security_info \<Rightarrow> v1_cp2_result" where
  "V1CP2Result scenario info = v1_cp1_result.extend (V1CP1Result scenario info)
     \<lparr> c2_diagnostic_match = False, c2_start_sent = False, c2_ready_received = False \<rparr>"

text \<open>
  The client with its queue and buffers, what the pairing backend remembers, the result object, and the
  \<open>__cause__\<close> of the \<open>V1Error\<close> raised, where a caller looks at it.
\<close>

record 'r v1_run =
  vr_runner :: runner
  vr_pairing :: pairing_client
  vr_result :: 'r
  vr_cause :: "exn option"

definition new_v1_run :: "ble_client \<Rightarrow> pairing_client \<Rightarrow> 'r \<Rightarrow> 'r v1_run" where
  "new_v1_run c p res = \<lparr> vr_runner = new_runner c, vr_pairing = p, vr_result = res, vr_cause = None \<rparr>"

definition onR :: "(runner, 'a) meth \<Rightarrow> ('r v1_run, 'a) meth" where
  "onR m s = (let (r, u) = m (vr_runner s) in (r, s\<lparr> vr_runner := u \<rparr>))"

definition set_result :: "('r \<Rightarrow> 'r) \<Rightarrow> ('r v1_run, unit) meth" where
  "set_result f = setM (\<lambda>s. s\<lparr> vr_result := f (vr_result s) \<rparr>)"

definition raise_from :: "exn \<Rightarrow> exn \<Rightarrow> ('r v1_run, 'a) meth" where
  "raise_from e cause s = (Inl e, s\<lparr> vr_cause := Some cause \<rparr>)"

text \<open>
  A pairing backend: \<open>winrt_pairing\<close>, or another module with its functions. What they give may depend on
  the operations so far; a call is itself part of the history.
\<close>

record pairing_backend =
  pb_inspect_pairing :: "gatt_op list \<Rightarrow> (pairing_client, pairing_state) meth"
  pb_unpair :: "gatt_op list \<Rightarrow> (pairing_client, unit) meth"
  pb_pair_numeric_comparison :: "gatt_op list \<Rightarrow> (pairing_client, pairing_outcome) meth"
  pb_pair_just_works_test_only :: "gatt_op list \<Rightarrow> (pairing_client, pairing_outcome) meth"

definition winrt_backend :: "winrt \<Rightarrow> pairing_attempt \<Rightarrow> rat \<Rightarrow> pairing_backend" where
  "winrt_backend W T timeout =
     \<lparr> pb_inspect_pairing = (\<lambda>_. inspect_pairing W), pb_unpair = (\<lambda>_. unpair W),
       pb_pair_numeric_comparison = (\<lambda>_. pair_numeric_comparison W T timeout),
       pb_pair_just_works_test_only = (\<lambda>_. pair_just_works_test_only W T timeout) \<rparr>"

definition log_op :: "gatt_op \<Rightarrow> runner \<Rightarrow> runner" where
  "log_op p s = s\<lparr> rn_client := (rn_client s)\<lparr> bc_ops := bc_ops (rn_client s) @ [p] \<rparr> \<rparr>"

definition onP :: "(gatt_op list \<Rightarrow> (pairing_client, 'a) meth) \<Rightarrow> ('r v1_run, 'a) meth" where
  "onP f s = (let u = log_op SystemPairing (vr_runner s); (r, p) = f (bc_ops (rn_client u)) (vr_pairing s)
              in (r, s\<lparr> vr_runner := u, vr_pairing := p \<rparr>))"

text \<open>\<open>await asyncio.sleep(...)\<close>, and \<open>notifications.empty()\<close>.\<close>

definition sleepM :: "('r v1_run, unit) meth" where
  "sleepM = onR (setM (log_op Sleep))"

definition queue_empty :: "bleak \<Rightarrow> runner \<Rightarrow> bool" where
  "queue_empty B s \<longleftrightarrow> length (bl_queue B (bc_ops (rn_client s))) \<le> rn_taken s"

definition require_empty :: "bleak \<Rightarrow> string \<Rightarrow> ('r v1_run, unit) meth" where
  "require_empty B msg = onR (readM (\<lambda>s. requireR (queue_empty B s) (ProtocolError msg)))"

text \<open>A bounded wait in which no notification may arrive.\<close>

definition quiet_window :: "bleak \<Rightarrow> string \<Rightarrow> ('r v1_run, unit) meth" where
  "quiet_window B msg = onR (\<lambda>s. case take_notification B TimeoutError s of
     (Inl _, t) \<Rightarrow> (Inr (), t) | (Inr _, t) \<Rightarrow> (Inl (ProtocolError msg), t))"

section \<open>Closed before Level 4\<close>

definition PRE_L4_PROBES :: "string list" where
  "PRE_L4_PROBES = [''public-key-read'', ''ciphertext-write'', ''control-write'', ''secure-data-cccd'']"

definition denial_reason :: "exn \<Rightarrow> string option" where
  "denial_reason e = (case e of GattExn g \<Rightarrow> classify_security_denial g | _ \<Rightarrow> None)"

text \<open>One probe adds the reason of its denial.\<close>

definition probe_denied :: "bleak \<Rightarrow> string \<Rightarrow> ('r v1_run, 'a) meth \<Rightarrow> (string \<times> string) list
     \<Rightarrow> ('r v1_run, (string \<times> string) list) meth" where
  "probe_denied B name operation denials s =
     (case operation s of
        (Inr _, t) \<Rightarrow> (Inl (ProtocolError ''GATING FAILURE: operation succeeded before Security Level 4''), t)
      | (Inl e, t) \<Rightarrow>
          (case denial_reason e of
             Some reason \<Rightarrow> (Inr (denials @ [(name, reason)]), t)
           | None \<Rightarrow>
               if \<not> client_is_connected B (rn_client (vr_runner t))
               then raise_from (ProtocolError ''connection lost during the pre-L4 probe'') e t
               else raise_from (ProtocolError ''failed for a non-security reason before L4'') e t))"

definition run_pre_l4_probes :: "bleak \<Rightarrow> ('r v1_run, (string \<times> string) list) meth" where
  "run_pre_l4_probes B =
     bindM (onR (readM (\<lambda>s. fragment_data (replicate CT_SIZE 0) (ciphertext_mtu (client_mtu_size B (rn_client s)))))) (\<lambda>fragments.
     bindM (liftR (case fragments of [] \<Rightarrow> Inl IndexError | f # _ \<Rightarrow> Inr f)) (\<lambda>probe_fragment.
     bindM (probe_denied B ''public-key-read'' (onR (runC (read_fragmented_public_key B))) []) (\<lambda>denials.
     bindM (probe_denied B ''ciphertext-write'' (onR (runC (write_raw_ciphertext_fragment B probe_fragment))) denials) (\<lambda>denials.
     bindM (probe_denied B ''control-write'' (bindM (liftR encode_sec_query) (\<lambda>q. onR (runC (send_control B q)))) denials) (\<lambda>denials.
     bindM (probe_denied B ''secure-data-cccd'' (onR (runC (start_notify B))) denials) (\<lambda>denials.
     seqM (needM (set (map fst denials) = set PRE_L4_PROBES) (ProtocolError ''pre-L4 probe bookkeeping mismatch'')) (
     retM denials)))))))"

definition ensure_connected :: "bleak \<Rightarrow> ('r v1_run, unit) meth" where
  "ensure_connected B s =
     (if client_is_connected B (rn_client (vr_runner s)) then (Inr (), s)
      else bindM (onR (runC (client_reconnect_v1_peer B))) (\<lambda>ok.
           needM ok (ProtocolError ''could not reconnect after pairing'')) s)"

section \<open>Negative pairing tests\<close>

definition security_statuses :: "string list" where
  "security_statuses = [''REJECTED_BY_HANDLER'', ''AUTHENTICATION_FAILURE'', ''AUTHENTICATION_NOT_ALLOWED'',
     ''PROTECTION_LEVEL_COULD_NOT_BE_MET'']"

text \<open>\<open>V1NegativeTestInconclusive\<close> is a \<open>V1Error\<close>.\<close>

definition rejection_evidence :: "string \<Rightarrow> pairing_outcome \<Rightarrow> string result" where
  "rejection_evidence mode outcome =
     (if po_paired outcome \<or> po_authenticated outcome then Inl (ProtocolError ''SECURITY FAILURE: pairing was accepted'')
      else if mode = ''nc-reject''
      then if po_ceremony outcome = Some ''CONFIRM_PIN_MATCH'' \<and> po_pin_shown outcome \<noteq> None
              \<and> po_decision outcome = Some False \<and> \<not> po_accept_invoked outcome
              \<and> po_status outcome \<in> set security_statuses \<union> {''FAILED'', ''PAIRING_CANCELED''}
           then Inr ''explicit PC Numeric Comparison rejection''
           else Inl (ProtocolError ''INCONCLUSIVE'')
      else if po_status outcome \<in> set security_statuses then Inr ''Windows refused the CONFIRM_ONLY-only attempt''
      else if po_status outcome = ''FAILED'' \<and> po_ceremony outcome = Some ''CONFIRM_ONLY'' \<and> po_accept_invoked outcome
      then Inr ''CONFIRM_ONLY ceremony observed and accepted; pairing failed''
      else Inl (ProtocolError ''INCONCLUSIVE''))"

definition verify_negative_closed ::
  "bleak \<Rightarrow> pairing_backend \<Rightarrow> string \<Rightarrow> pairing_outcome \<Rightarrow> ('r v1_run, unit) meth" where
  "verify_negative_closed B P mode outcome =
     bindM (liftR (rejection_evidence mode outcome)) (\<lambda>evidence.
     seqM (require_empty B ''SECURITY FAILURE: PQ notification received during rejected pairing'') (
     bindM (onP (pb_inspect_pairing P)) (\<lambda>state.
     seqM (needM (\<not> ps_is_paired state) (ProtocolError ''SECURITY FAILURE: Windows retained a bond after rejected pairing'')) (
     bindM (onR (runC (client_reconnect_v1_peer B))) (\<lambda>ok.
     seqM (needM ok (ProtocolError ''INCONCLUSIVE: cannot establish fresh link to verify rejected pairing'')) (
     bindM (onP (pb_inspect_pairing P)) (\<lambda>state.
     seqM (needM (\<not> ps_is_paired state) (ProtocolError ''SECURITY FAILURE: fresh verification link has a Windows bond'')) (
     bindM (run_pre_l4_probes B) (\<lambda>denials.
     seqM (require_empty B ''SECURITY FAILURE: PQ notification received in negative test'') (
     liftR (Inl (NegativeTestPassed (mode @ '': '' @ evidence)))))))))))))"

section \<open>The run\<close>

definition V1_NEGATIVE_MODES :: "string list" where
  "V1_NEGATIVE_MODES = [''pre-l4-only'', ''nc-reject'', ''just-works'']"

definition v1_bond_state :: "bleak \<Rightarrow> pairing_backend \<Rightarrow> bool \<Rightarrow> ('r v1_run, pairing_state) meth" where
  "v1_bond_state B P unpair_first =
     bindM (onP (pb_inspect_pairing P)) (\<lambda>state.
     if unpair_first \<and> ps_is_paired state
     then seqM (onP (pb_unpair P)) (
          seqM (ensure_connected B) (
          bindM (onP (pb_inspect_pairing P)) (\<lambda>state.
          seqM (needM (\<not> ps_is_paired state) (ProtocolError ''Windows still reports the device as paired after unpair'')) (
          retM state))))
     else retM state)"

definition v1_cold_pairing ::
  "bleak \<Rightarrow> pairing_backend \<Rightarrow> string option \<Rightarrow> ('z v1_cp1_result_scheme v1_run, unit) meth" where
  "v1_cold_pairing B P negative_test =
     bindM (onP (if negative_test = Some ''just-works'' then pb_pair_just_works_test_only P
                 else pb_pair_numeric_comparison P)) (\<lambda>outcome.
     seqM (set_result (\<lambda>r. r\<lparr> c1_pairing_status := po_status outcome, c1_pairing_protection := po_protection_level outcome \<rparr>)) (
     seqM (case negative_test of
             Some mode \<Rightarrow> if mode \<in> {''just-works'', ''nc-reject''} then verify_negative_closed B P mode outcome else retM ()
           | None \<Rightarrow> retM ()) (
     seqM (needM (po_paired outcome \<and> po_status outcome = ''PAIRED'') (ProtocolError ''SMP pairing failed; PQ GATT stays closed'')) (
     seqM (needM (po_authenticated outcome) (ProtocolError ''pairing completed WITHOUT authentication; refusing to continue'')) (
     ensure_connected B)))))"

definition v1_secure_link ::
  "bleak \<Rightarrow> pairing_backend \<Rightarrow> string option \<Rightarrow> pairing_state \<Rightarrow> ('z v1_cp1_result_scheme v1_run, unit) meth" where
  "v1_secure_link B P negative_test state =
     seqM (needM (\<not> (negative_test \<noteq> None \<and> ps_is_paired state)) (ProtocolError ''negative test requires the cold-pairing state'')) (
     seqM (if ps_is_paired state then retM ()
           else bindM (run_pre_l4_probes B) (\<lambda>denials. set_result (\<lambda>r. r\<lparr> c1_pre_l4_denials := denials \<rparr>))) (
     seqM (if negative_test = Some ''pre-l4-only''
           then liftR (Inl (NegativeTestPassed ''all four PQ GATT operations denied before Level 4'')) else retM ()) (
     if ps_is_paired state
     then set_result (\<lambda>r. r\<lparr> c1_pairing_status := ''ALREADY_PAIRED'', c1_pairing_protection := ps_protection_level state \<rparr>)
     else v1_cold_pairing B P negative_test)))"

text \<open>The exchange, with the errors it is reported with; the subscription ends unless a completed run retains it.\<close>

definition is_V1Error :: "exn \<Rightarrow> bool" where
  "is_V1Error e = (case e of ProtocolError _ \<Rightarrow> True | _ \<Rightarrow> False)"

definition v1_exchange_error :: "bool \<Rightarrow> exn \<Rightarrow> ('r v1_run, 'a) meth" where
  "v1_exchange_error bonded e =
     (if is_V1Error e then liftR (Inl e)
      else case denial_reason e of
        Some _ \<Rightarrow> if bonded then raise_from (ProtocolError ''stale/corrupted bond: protected GATT access denied'') e
                 else raise_from (ProtocolError ''PQ GATT still denied after pairing; Level 4 was not established on the DK'') e
      | None \<Rightarrow> raise_from (ProtocolError ''post-L4 exchange failed'') e)"

definition v1_post_l4 ::
  "bleak \<Rightarrow> bool \<Rightarrow> ('z v1_cp1_result_scheme v1_run, v1_security_info) meth \<Rightarrow> bool \<Rightarrow> ('z v1_cp1_result_scheme v1_run, unit) meth" where
  "v1_post_l4 B bonded exchange retain_notify s =
     (case bindM (catchM (\<lambda>_. True) (v1_exchange_error bonded) exchange) (\<lambda>info.
             set_result (\<lambda>r. r\<lparr> c1_security_info := info \<rparr>)) s of
        (r, t) \<Rightarrow> (r, if \<not> isl r \<and> retain_notify then t else snd (onR (runC (stop_notify B)) t)))"

definition run_v1 ::
  "bleak \<Rightarrow> pairing_backend \<Rightarrow> (string \<Rightarrow> v1_security_info \<Rightarrow> 'z v1_cp1_result_scheme) \<Rightarrow> string option \<Rightarrow> bool
     \<Rightarrow> ('z v1_cp1_result_scheme v1_run, v1_security_info) meth \<Rightarrow> bool
     \<Rightarrow> ('z v1_cp1_result_scheme v1_run, 'z v1_cp1_result_scheme) meth" where
  "run_v1 B P result_type negative_test unpair_first exchange retain_notify =
     seqM (needM (case negative_test of None \<Rightarrow> True | Some t \<Rightarrow> t \<in> set V1_NEGATIVE_MODES) (ValueError ''unknown v1 negative test'')) (
     seqM (onR (require_client B)) (
     seqM (onR (runC (setM (\<lambda>c. c\<lparr> bc_v1_security_test := True \<rparr>)))) (
     bindM (v1_bond_state B P unpair_first) (\<lambda>state.
     seqM (set_result (\<lambda>_. result_type (if ps_is_paired state then ''bonded'' else ''cold'')
             \<lparr> si_level = 0, si_secure_connections = False, si_authenticated = False, si_gate_open = False,
               si_enc_key_size = 0, si_profile = 0 \<rparr>)) (
     seqM (v1_secure_link B P negative_test state) (
     seqM (v1_post_l4 B (ps_is_paired state) exchange retain_notify) (
     readM (\<lambda>s. Inr (vr_result s)))))))))"

section \<open>CP1: access only\<close>

text \<open>The reply to the security query.\<close>

definition cp1_attestation :: "bytes \<Rightarrow> v1_security_info result" where
  "cp1_attestation raw =
     bindR (value_error_to_protocol (parse_v1_frame raw)) (\<lambda>frame.
     bindR (requireR (v1_subtype frame \<noteq> V1_ERROR) (ProtocolError ''DK PQV1 ERROR'')) (\<lambda>_.
     bindR (requireR (v1_subtype frame = V1_SEC_INFO) (ProtocolError ''unexpected PQV1 subtype'')) (\<lambda>_.
     parse_sec_info raw)))"

definition post_l4_exchange ::
  "bleak \<Rightarrow> third_party \<Rightarrow> nat \<Rightarrow> ('z v1_cp1_result_scheme v1_run, v1_security_info) meth" where
  "post_l4_exchange B C r =
     seqM (onR (runC (start_notify B))) (
     bindM (onR (runC (read_fragmented_public_key B))) (\<lambda>public_key.
     seqM (needM (length public_key = PK_SIZE) (ProtocolError ''ML-KEM public key must be 1184 bytes'')) (
     seqM (set_result (\<lambda>u. u\<lparr> c1_public_key_len := length public_key \<rparr>)) (
     let (ciphertext, shared_secret) = encapsulate C r public_key
     in seqM (onR (setM (\<lambda>s. wipe_buf ''shared_secret'' (set_buf ''shared_secret'' shared_secret s)))) (
     bindM (onR (runC (write_fragmented_ciphertext B ciphertext))) (\<lambda>fragments.
     seqM (set_result (\<lambda>u. u\<lparr> c1_ciphertext_fragments := fragments \<rparr>)) (
     bindM (liftR encode_sec_query) (\<lambda>query.
     seqM (onR (runC (send_control B query))) (
     bindM (onR (take_notification B (ProtocolError ''timed out waiting for SEC_INFO''))) (\<lambda>raw.
     bindM (liftR (cp1_attestation raw)) (\<lambda>info.
     seqM (quiet_window B ''unexpected extra notification after SEC_INFO'') (
     seqM (needM (is_authenticated_level4 info)
             (ProtocolError ''DK reports a link that is NOT authenticated Security Mode 1 Level 4'')) (
     retM info)))))))))))))"

definition run_v1_cp1 ::
  "bleak \<Rightarrow> pairing_backend \<Rightarrow> third_party \<Rightarrow> nat \<Rightarrow> string option \<Rightarrow> bool \<Rightarrow> (v1_cp1_result v1_run, v1_cp1_result) meth" where
  "run_v1_cp1 B P C r negative_test unpair_first =
     run_v1 B P V1CP1Result negative_test unpair_first (post_l4_exchange B C r) False"

section \<open>CP2: the ML-KEM diagnostic (v1\_cp2.py)\<close>

definition require_same_link :: "bleak \<Rightarrow> string \<Rightarrow> nat option \<Rightarrow> ('r v1_run, unit) meth" where
  "require_same_link B msg link = onR (readM (\<lambda>s. requireR
     (link \<noteq> None \<and> client_is_connected B (rn_client s) \<and> bc_client (rn_client s) = link) (ProtocolError msg)))"

abbreviation (input) cp2_link :: "bleak \<Rightarrow> nat option \<Rightarrow> ('r v1_run, unit) meth" where
  "cp2_link B link \<equiv> require_same_link B ''CP2 connection lost or replaced; refusing to continue'' link"

definition cp2_receive :: "bleak \<Rightarrow> nat option \<Rightarrow> int \<Rightarrow> string \<Rightarrow> ('r v1_run, bytes \<times> bytes) meth" where
  "cp2_receive B link subtype name =
     bindM (onR (take_notification B (ProtocolError (''CP2 timed out waiting for '' @ name)))) (\<lambda>raw.
     seqM (cp2_link B link) (
     bindM (liftR (parse_v1_frame raw)) (\<lambda>frame.
     seqM (needM (v1_subtype frame \<noteq> V1_ERROR) (ProtocolError ''DK CP2 ERROR'')) (
     seqM (needM (v1_subtype frame = subtype) (ProtocolError (''CP2 expected '' @ name))) (
     retM (raw, v1_payload frame))))))"

definition cp2_attest :: "bleak \<Rightarrow> nat option \<Rightarrow> ('r v1_run, v1_security_info) meth" where
  "cp2_attest B link =
     seqM (cp2_link B link) (
     seqM (require_empty B ''unsolicited CP2 notification before SEC_QUERY'') (
     bindM (liftR encode_sec_query) (\<lambda>query.
     seqM (onR (runC (send_control B query))) (
     bindM (cp2_receive B link V1_SEC_INFO ''SEC_INFO'') (\<lambda>(raw, _).
     bindM (liftR (parse_sec_info raw)) (\<lambda>info.
     seqM (needM (is_authenticated_level4 info) (ProtocolError ''CP2 requires strict authenticated Level 4'')) (
     retM info)))))))"

definition cp2_sensitive :: "string list" where
  "cp2_sensitive = [''secret'', ''expected'']"

text \<open>The ciphertext is sent, and the diagnostic expected in return is computed.\<close>

definition cp2_submit ::
  "bleak \<Rightarrow> third_party \<Rightarrow> nat \<Rightarrow> bytes \<Rightarrow> nat option \<Rightarrow> (v1_cp2_result v1_run, unit) meth" where
  "cp2_submit B C r session_id link =
     bindM (onR (runC (read_fragmented_public_key B))) (\<lambda>public_key.
     seqM (cp2_link B link) (
     seqM (needM (length public_key = PK_SIZE) (ProtocolError ''ML-KEM public key must be 1184 bytes'')) (
     seqM (set_result (\<lambda>u. u\<lparr> c1_public_key_len := length public_key \<rparr>)) (
     let (ciphertext, raw_secret) = encapsulate C r public_key
     in seqM (onR (setM (set_buf ''secret'' raw_secret))) (
     seqM (needM (length ciphertext = CT_SIZE \<and> length raw_secret = SS_SIZE)
             (ProtocolError ''invalid ML-KEM-768 ciphertext/shared-secret size'')) (
     seqM (cp2_link B link) (
     bindM (onR (runC (write_fragmented_ciphertext B ciphertext))) (\<lambda>fragments.
     seqM (set_result (\<lambda>u. u\<lparr> c1_ciphertext_fragments := fragments \<rparr>)) (
     bindM (liftR (cp2_compute_diagnostic raw_secret session_id public_key ciphertext)) (\<lambda>expected.
     onR (setM (set_buf ''expected'' expected))))))))))))"

text \<open>START\_V1 and the comparison of READY\_V1.\<close>

definition cp2_diagnose :: "bleak \<Rightarrow> bytes \<Rightarrow> nat option \<Rightarrow> (v1_cp2_result v1_run, unit) meth" where
  "cp2_diagnose B session_id link =
     seqM sleepM (
     seqM (cp2_link B link) (
     seqM (require_empty B ''unsolicited CP2 notification before START_V1'') (
     bindM (liftR (encode_v1_frame V1_START session_id)) (\<lambda>start.
     seqM (onR (runC (send_control B start))) (
     seqM (set_result (\<lambda>u. u\<lparr> c2_start_sent := True \<rparr>)) (
     bindM (cp2_receive B link V1_READY ''READY_V1'') (\<lambda>(_, received).
     seqM (set_result (\<lambda>u. u\<lparr> c2_ready_received := True \<rparr>)) (
     seqM (onR (readM (\<lambda>s. requireR (rn_buf s ''expected'' = received)
             (ProtocolError ''CP2 diagnostic mismatch; fail closed'')))) (
     seqM (quiet_window B ''unexpected extra notification after READY_V1'') (
     seqM (cp2_link B link) (
     set_result (\<lambda>u. u\<lparr> c2_diagnostic_match := True \<rparr>))))))))))))"

definition cp2_exchange ::
  "bleak \<Rightarrow> third_party \<Rightarrow> nat \<Rightarrow> bytes \<Rightarrow> (v1_cp2_result v1_run, v1_security_info) meth" where
  "cp2_exchange B C r session_id =
     bindM (onR (readM (\<lambda>s. Inr (bc_client (rn_client s))))) (\<lambda>link.
     finallyM (
       seqM (cp2_link B link) (
       seqM (onR (runC (start_notify B))) (
       bindM (cp2_attest B link) (\<lambda>_.
       seqM (cp2_submit B C r session_id link) (
       bindM (cp2_attest B link) (\<lambda>info.
       seqM (cp2_diagnose B session_id link) (
       retM info)))))))
     (onR (setM (wipe_bufs cp2_sensitive))))"

definition run_v1_cp2 ::
  "bleak \<Rightarrow> pairing_backend \<Rightarrow> third_party \<Rightarrow> nat \<Rightarrow> bytes \<Rightarrow> string option \<Rightarrow> bool \<Rightarrow> (v1_cp2_result v1_run, v1_cp2_result) meth" where
  "run_v1_cp2 B P C r session_id negative_test unpair_first =
     (if negative_test \<noteq> None then liftR (Inl (ValueError ''CP1 negative modes cannot be combined with CP2''))
      else run_v1 B P V1CP2Result None unpair_first (cp2_exchange B C r session_id) False)"

section \<open>Lemmas\<close>

lemma onR_Inr: "onR m s = (Inr x, t) \<longleftrightarrow> (\<exists>u. m (vr_runner s) = (Inr x, u) \<and> t = s\<lparr> vr_runner := u \<rparr>)"
  by (auto simp: onR_def Let_def split: prod.splits)

lemma onP_Inr: "onP f s = (Inr x, t) \<longleftrightarrow> (\<exists>p. f (bc_ops (rn_client (log_op SystemPairing (vr_runner s)))) (vr_pairing s) = (Inr x, p)
    \<and> t = s\<lparr> vr_runner := log_op SystemPairing (vr_runner s), vr_pairing := p \<rparr>)"
  by (auto simp: onP_def Let_def split: prod.splits)

lemma set_result_apply: "set_result f s = (Inr (), s\<lparr> vr_result := f (vr_result s) \<rparr>)"
  by (simp add: set_result_def)

lemma quiet_window_Inr: "quiet_window B msg s = (Inr u, t) \<longleftrightarrow>
    (\<exists>e v. take_notification B TimeoutError (vr_runner s) = (Inl e, v) \<and> t = s\<lparr> vr_runner := v \<rparr>)"
  by (auto simp: quiet_window_def onR_Inr split: prod.splits sum.splits)

lemma require_Inr:
  "require_empty B msg s = (Inr u, t) \<longleftrightarrow> queue_empty B (vr_runner s) \<and> t = s"
  "require_same_link B msg link s = (Inr u, t) \<longleftrightarrow> link \<noteq> None \<and> client_is_connected B (rn_client (vr_runner s))
     \<and> bc_client (rn_client (vr_runner s)) = link \<and> t = s"
  by (auto simp: require_empty_def require_same_link_def onR_Inr)

lemma sleepM_apply: "sleepM s = (Inr (), s\<lparr> vr_runner := log_op Sleep (vr_runner s) \<rparr>)"
  by (simp add: sleepM_def onR_def)

lemmas v1_Inr = onR_Inr set_result_apply quiet_window_Inr require_Inr sleepM_apply needM_Inr

lemma log_op_simps [simp]:
  "bc_ops (rn_client (log_op p s)) = bc_ops (rn_client s) @ [p]" "rn_taken (log_op p s) = rn_taken s"
  "rn_buf (log_op p s) = rn_buf s" "bc_client (rn_client (log_op p s)) = bc_client (rn_client s)"
  by (simp_all add: log_op_def)

subsection \<open>What stages leave alone\<close>

text \<open>
  A reflexive and transitive relation between the state before and after is established call by call.
\<close>

locale kept =
  fixes R :: "'s \<Rightarrow> 's \<Rightarrow> bool"
  assumes kept_refl: "R s s"
    and kept_trans: "R a b \<Longrightarrow> R b c \<Longrightarrow> R a c"
begin

lemma kept_bind: "(\<And>s. R s (snd (m s))) \<Longrightarrow> (\<And>x s. R s (snd (f x s))) \<Longrightarrow> R s (snd (bindM m f s))"
  by (rule bindM_keeps [where R = R]) (auto intro: kept_trans)

lemma kept_seq: "(\<And>s. R s (snd (m s))) \<Longrightarrow> (\<And>s. R s (snd (k s))) \<Longrightarrow> R s (snd (seqM m k s))"
  unfolding seqM_def by (rule kept_bind)

lemma kept_bind_lift: "(\<And>x. r = Inr x \<Longrightarrow> R s (snd (f x s))) \<Longrightarrow> R s (snd (bindM (liftR r) f s))"
  by (cases r) (simp_all add: bindM_def liftR_def kept_refl)

lemma kept_catch: "(\<And>s. R s (snd (m s))) \<Longrightarrow> (\<And>e s. R s (snd (h e s))) \<Longrightarrow> R s (snd (catchM P h m s))"
  by (auto simp: catchM_def split: prod.splits sum.splits) (metis kept_trans snd_conv)+

lemma kept_finally: "(\<And>s. R s (snd (m s))) \<Longrightarrow> (\<And>s. R s (snd (f s))) \<Longrightarrow> R s (snd (finallyM m f s))"
  by (simp add: finallyM_def Let_def case_prod_unfold) (metis kept_trans)

lemma kept_pure:
  "R s (snd (retM x s))" "R s (snd (liftR r s))" "R s (snd (readM g s))" "R s (snd (needM b e s))"
  by (simp_all add: kept_refl check_keeps needM_def)

lemma kept_if: "(b \<Longrightarrow> R s (snd (m s))) \<Longrightarrow> (\<not> b \<Longrightarrow> R s (snd (k s))) \<Longrightarrow> R s (snd ((if b then m else k) s))"
  by simp

lemma kept_option: "R s (snd (m s)) \<Longrightarrow> (\<And>x. R s (snd (f x s))) \<Longrightarrow> R s (snd ((case z of None \<Rightarrow> m | Some x \<Rightarrow> f x) s))"
  by (simp split: option.split)

lemma kept_pair: "(\<And>x y. R s (snd (f x y s))) \<Longrightarrow> R s (snd ((case z of (x, y) \<Rightarrow> f x y) s))"
  by (simp split: prod.split)

text \<open>A step may use the value and the state it was reached with.\<close>

lemma kept_or_bind:
  assumes "R s (snd (m s))" and "\<And>x t. m s = (Inr x, t) \<Longrightarrow> R t (snd (f x t)) \<or> Q"
  shows "R s (snd (bindM m f s)) \<or> Q"
  using assms by (auto simp: bindM_def split: prod.splits sum.splits) (metis kept_trans snd_conv)

lemma kept_or_seq:
  "R s (snd (m s)) \<Longrightarrow> (\<And>t. m s = (Inr (), t) \<Longrightarrow> R t (snd (k t)) \<or> Q) \<Longrightarrow> R s (snd (seqM m k s)) \<or> Q"
  unfolding seqM_def by (rule kept_or_bind) simp_all

lemma kept_or_finally: "R s (snd (m s)) \<or> Q \<Longrightarrow> (\<And>s. R s (snd (f s))) \<Longrightarrow> R s (snd (finallyM m f s)) \<or> Q"
  by (simp add: finallyM_def Let_def case_prod_unfold) (metis kept_trans)

lemmas kept_intros = kept_bind kept_seq kept_catch kept_finally kept_pure kept_if kept_option kept_pair

end

text \<open>The result object, the buffers, the operations.\<close>

definition keeps_result :: "'r v1_run \<Rightarrow> 'r v1_run \<Rightarrow> bool" where
  "keeps_result s t \<longleftrightarrow> vr_result t = vr_result s"

definition keeps_bufs :: "'r v1_run \<Rightarrow> 'r v1_run \<Rightarrow> bool" where
  "keeps_bufs s t \<longleftrightarrow> rn_buf (vr_runner t) = rn_buf (vr_runner s)"

definition v1_within :: "(gatt_op \<Rightarrow> bool) \<Rightarrow> 'r v1_run \<Rightarrow> 'r v1_run \<Rightarrow> bool" where
  "v1_within P s t \<longleftrightarrow> ops_within P (vr_runner s) (vr_runner t)"

interpretation results: kept keeps_result
  by unfold_locales (auto simp: keeps_result_def)

interpretation bufs: kept keeps_bufs
  by unfold_locales (auto simp: keeps_bufs_def)

interpretation ops: kept "v1_within P" for P
  by unfold_locales (auto simp: v1_within_def ops_within_refl intro: ops_within_trans)

lemma keeps_result_base:
  "keeps_result s (snd (onR m s))" "keeps_result s (snd (onP g s))" "keeps_result s (snd (raise_from e e' s))"
  "keeps_result s (snd (require_empty B msg s))" "keeps_result s (snd (quiet_window B msg s))"
  "keeps_result s (snd (require_same_link B msg l s))" "keeps_result s (snd (sleepM s))"
  by (simp_all add: keeps_result_def onR_def onP_def raise_from_def require_empty_def quiet_window_def
      require_same_link_def sleepM_def Let_def case_prod_unfold)

lemma keeps_bufs_base:
  "keeps_bufs s (snd (onR (runC m) s))" "keeps_bufs s (snd (onR (readM g) s))" "keeps_bufs s (snd (onP h s))"
  "keeps_bufs s (snd (raise_from e e' s))" "keeps_bufs s (snd (set_result k s))"
  "keeps_bufs s (snd (require_empty B msg s))" "keeps_bufs s (snd (onR (require_client B) s))"
  by (simp_all add: keeps_bufs_def onR_def onP_def raise_from_def set_result_def require_empty_def check_keeps
      Let_def case_prod_unfold)

lemma v1_within_onR: "ops_within P (vr_runner s) (snd (m (vr_runner s))) \<Longrightarrow> v1_within P s (snd (onR m s))"
  by (simp add: v1_within_def onR_def Let_def case_prod_unfold)

lemma v1_within_base:
  "v1_within P s (snd (set_result k s))" "v1_within P s (snd (require_empty B msg s))"
  "v1_within P s (snd (require_same_link B msg l s))" "P Sleep \<Longrightarrow> v1_within P s (snd (sleepM s))"
  "P AwaitNotify \<Longrightarrow> v1_within P s (snd (quiet_window B msg s))"
  "P AwaitNotify \<Longrightarrow> v1_within P s (snd (onR (take_notification B e) s))"
  by (auto simp: v1_within_def set_result_def require_empty_def require_same_link_def sleepM_def quiet_window_def onR_def
      ops_within_def take_notification_def Let_def case_prod_unfold)

lemma keeps_probe_denied:
  "keeps_result s (snd (operation s)) \<Longrightarrow> keeps_result s (snd (probe_denied B name operation ds s))"
  "keeps_bufs s (snd (operation s)) \<Longrightarrow> keeps_bufs s (snd (probe_denied B name operation ds s))"
  by (auto simp: probe_denied_def keeps_result_def keeps_bufs_def raise_from_def split: prod.splits sum.splits option.splits)

lemma keeps_probes: "keeps_result s (snd (run_pre_l4_probes B s))" "keeps_bufs s (snd (run_pre_l4_probes B s))"
  unfolding run_pre_l4_probes_def
  by (intro results.kept_intros keeps_result_base keeps_probe_denied, intro bufs.kept_intros keeps_bufs_base keeps_probe_denied)

lemma keeps_ensure: "keeps_result s (snd (ensure_connected B s))" "keeps_bufs s (snd (ensure_connected B s))"
proof -
  let ?m = "bindM (onR (runC (client_reconnect_v1_peer B))) (\<lambda>ok. needM ok (ProtocolError ''could not reconnect after pairing''))"
  have "keeps_result s (snd (?m s))" "keeps_bufs s (snd (?m s))"
    by (intro results.kept_intros keeps_result_base, intro bufs.kept_intros keeps_bufs_base)
  then show "keeps_result s (snd (ensure_connected B s))" "keeps_bufs s (snd (ensure_connected B s))"
    by (simp_all add: ensure_connected_def results.kept_refl bufs.kept_refl)
qed

lemma keeps_verify: "keeps_result s (snd (verify_negative_closed B P mode out s))" "keeps_bufs s (snd (verify_negative_closed B P mode out s))"
  unfolding verify_negative_closed_def
  by (intro results.kept_intros keeps_result_base keeps_probes, intro bufs.kept_intros keeps_bufs_base keeps_probes)

lemma keeps_bond_state: "keeps_result s (snd (v1_bond_state B P u s))" "keeps_bufs s (snd (v1_bond_state B P u s))"
  unfolding v1_bond_state_def
  by (intro results.kept_intros keeps_result_base keeps_ensure, intro bufs.kept_intros keeps_bufs_base keeps_ensure)

subsection \<open>Runs that return\<close>

lemma onR_result [simp]: "vr_result (snd (onR m s)) = vr_result s" "vr_pairing (snd (onR m s)) = vr_pairing s"
  by (simp_all add: onR_def Let_def case_prod_unfold)

lemma keeps_resultD: "keeps_result s (snd (m s)) \<Longrightarrow> m s = (r, t) \<Longrightarrow> vr_result t = vr_result s"
  by (simp add: keeps_result_def)

lemma probe_denied_Inr:
  "probe_denied B name operation ds s = (Inr ds', t) \<longleftrightarrow>
     (\<exists>e reason. operation s = (Inl e, t) \<and> denial_reason e = Some reason \<and> ds' = ds @ [(name, reason)])"
  by (auto simp: probe_denied_def raise_from_def split: prod.splits sum.splits option.splits)

text \<open>The probes succeed only if all four operations are denied, each for a security reason.\<close>

lemma run_pre_l4_probes_Inr: "run_pre_l4_probes B s = (Inr ds, t) \<Longrightarrow> map fst ds = PRE_L4_PROBES"
  by (auto simp: run_pre_l4_probes_def probe_denied_Inr PRE_L4_PROBES_def)

lemma verify_never_Inr: "verify_negative_closed B P mode out s \<noteq> (Inr (), t)"
  by (auto simp: verify_negative_closed_def)

lemma v1_cold_pairing_Inr:
  assumes "v1_cold_pairing B P neg s = (Inr (), t)" and "neg \<noteq> Some ''pre-l4-only''" and "\<And>m. neg = Some m \<Longrightarrow> m \<in> set V1_NEGATIVE_MODES"
  shows "neg = None \<and> (\<exists>ops p out p'. pb_pair_numeric_comparison P ops p = (Inr out, p') \<and> po_status out = ''PAIRED''
    \<and> po_authenticated out \<and> vr_result t = (vr_result s)\<lparr> c1_pairing_status := ''PAIRED'',
         c1_pairing_protection := PROTECTION_ENCRYPTION_AND_AUTHENTICATION \<rparr>)"
proof -
  have neg: "neg = None"
  proof (cases neg)
    case (Some m)
    then have "m = ''just-works'' \<or> m = ''nc-reject''" using assms(2) assms(3) [OF Some] by (auto simp: V1_NEGATIVE_MODES_def)
    then show ?thesis using assms(1) Some by (auto simp: v1_cold_pairing_def verify_never_Inr)
  qed
  then obtain out u where u: "onP (pb_pair_numeric_comparison P) s = (Inr out, u)" "po_status out = ''PAIRED''" "po_authenticated out"
    "ensure_connected B (u\<lparr> vr_result := (vr_result u)\<lparr> c1_pairing_status := ''PAIRED'',
       c1_pairing_protection := po_protection_level out \<rparr> \<rparr>) = (Inr (), t)"
    using assms(1) by (auto simp: v1_cold_pairing_def v1_Inr)
  have "vr_result u = vr_result s" using keeps_resultD [where m = "onP (pb_pair_numeric_comparison P)", OF keeps_result_base(2) u(1)] .
  moreover have "po_protection_level out = PROTECTION_ENCRYPTION_AND_AUTHENTICATION" using u(3) by (simp add: po_authenticated_def)
  ultimately show ?thesis
    using neg u(1-3) keeps_resultD [where m = "ensure_connected B", OF keeps_ensure(1) u(4)] by (auto simp: onP_Inr)
qed

text \<open>Either the bond was there, or the four operations were denied and a Numeric Comparison succeeded.\<close>

definition v1_cold_start :: "pairing_backend \<Rightarrow> 'z v1_cp1_result_scheme \<Rightarrow> bool" where
  "v1_cold_start P res \<longleftrightarrow> map fst (c1_pre_l4_denials res) = PRE_L4_PROBES \<and> c1_pairing_status res = ''PAIRED''
     \<and> c1_pairing_protection res = PROTECTION_ENCRYPTION_AND_AUTHENTICATION
     \<and> (\<exists>ops p out p'. pb_pair_numeric_comparison P ops p = (Inr out, p') \<and> po_status out = ''PAIRED'' \<and> po_authenticated out)"

lemma v1_secure_link_Inr:
  assumes "v1_secure_link B P neg state s = (Inr (), t)" and "\<And>m. neg = Some m \<Longrightarrow> m \<in> set V1_NEGATIVE_MODES"
  shows "neg = None \<and> c1_scenario (vr_result t) = c1_scenario (vr_result s)
    \<and> (ps_is_paired state \<or> v1_cold_start P (vr_result t))"
proof (cases "ps_is_paired state")
  case True
  then show ?thesis using assms(1) by (auto simp: v1_secure_link_def v1_Inr)
next
  case False
  then obtain ds u where u: "run_pre_l4_probes B s = (Inr ds, u)" "neg \<noteq> Some ''pre-l4-only''"
    "v1_cold_pairing B P neg (u\<lparr> vr_result := (vr_result u)\<lparr> c1_pre_l4_denials := ds \<rparr> \<rparr>) = (Inr (), t)"
    using assms(1) by (auto simp: v1_secure_link_def v1_Inr split: if_splits)
  note c = v1_cold_pairing_Inr [OF u(3,2) assms(2)]
  have "vr_result u = vr_result s" using keeps_resultD [where m = "run_pre_l4_probes B", OF keeps_probes(1) u(1)] .
  then show ?thesis using c run_pre_l4_probes_Inr [OF u(1)] by (auto simp: v1_cold_start_def)
qed

lemma v1_exchange_error_never: "v1_exchange_error bonded e u \<noteq> (Inr x, v)"
  by (auto simp: v1_exchange_error_def raise_from_def split: option.splits)

lemma v1_post_l4_Inr:
  assumes "v1_post_l4 B bonded exchange retain s = (Inr (), t)"
  shows "\<exists>info u. exchange s = (Inr info, u) \<and> vr_result t = (vr_result u)\<lparr> c1_security_info := info \<rparr>"
proof -
  obtain r u where ru: "bindM (catchM (\<lambda>_. True) (v1_exchange_error bonded) exchange) (\<lambda>info.
      set_result (\<lambda>r. r\<lparr> c1_security_info := info \<rparr>)) s = (r, u)" by fastforce
  then have "r = Inr ()" "vr_result t = vr_result u"
    using assms by (auto simp: v1_post_l4_def split: if_splits)
  then show ?thesis
    using ru by (auto simp: catchM_def set_result_apply v1_exchange_error_never split: prod.splits sum.splits)
qed

text \<open>What a run that returns has done, whatever the exchange.\<close>

lemma run_v1_Inr:
  assumes "run_v1 B P rt neg unpair_first exchange retain s = (Inr res, t)"
  shows "\<exists>bonded i u v info. res = (vr_result v)\<lparr> c1_security_info := info \<rparr> \<and> exchange u = (Inr info, v) \<and> neg = None
    \<and> c1_scenario (vr_result u) = c1_scenario (rt (if bonded then ''bonded'' else ''cold'') i)
    \<and> (bonded \<or> v1_cold_start P (vr_result u))"
proof -
  obtain state s1 s2 s3 i where n: "\<And>m. neg = Some m \<Longrightarrow> m \<in> set V1_NEGATIVE_MODES" and st:
    "v1_secure_link B P neg state (s1\<lparr> vr_result := rt (if ps_is_paired state then ''bonded'' else ''cold'') i \<rparr>) = (Inr (), s2)"
    "v1_post_l4 B (ps_is_paired state) exchange retain s2 = (Inr (), s3)" "res = vr_result s3"
    using assms by (auto simp: run_v1_def v1_Inr split: option.splits)
  obtain info v where v: "exchange s2 = (Inr info, v)" "vr_result s3 = (vr_result v)\<lparr> c1_security_info := info \<rparr>"
    using v1_post_l4_Inr [OF st(2)] by blast
  show ?thesis
    using v1_secure_link_Inr [OF st(1) n] v st(3)
    by (intro exI [of _ "ps_is_paired state"] exI [of _ i] exI [of _ s2] exI [of _ v] exI [of _ info]) simp
qed

subsection \<open>The exchanges\<close>

text \<open>What an exchange may not change of the result object.\<close>

definition keeps_start :: "'z v1_cp1_result_scheme v1_run \<Rightarrow> 'z v1_cp1_result_scheme v1_run \<Rightarrow> bool" where
  "keeps_start s t \<longleftrightarrow> c1_scenario (vr_result t) = c1_scenario (vr_result s)
     \<and> c1_pre_l4_denials (vr_result t) = c1_pre_l4_denials (vr_result s)
     \<and> c1_pairing_status (vr_result t) = c1_pairing_status (vr_result s)
     \<and> c1_pairing_protection (vr_result t) = c1_pairing_protection (vr_result s)"

interpretation starts: kept keeps_start
  by unfold_locales (auto simp: keeps_start_def)

lemma keeps_start_result: "keeps_result s t \<Longrightarrow> keeps_start s t"
  by (simp add: keeps_result_def keeps_start_def)

lemmas keeps_start_base = keeps_result_base [THEN keeps_start_result]

lemma keeps_start_set:
  "keeps_start s (snd (set_result (\<lambda>u. u\<lparr> c1_public_key_len := n \<rparr>) s))"
  "keeps_start s (snd (set_result (\<lambda>u. u\<lparr> c1_ciphertext_fragments := n \<rparr>) s))"
  by (simp_all add: keeps_start_def set_result_def)

lemma keeps_start_set2:
  "keeps_start s (snd (set_result (\<lambda>u. u\<lparr> c2_diagnostic_match := b \<rparr>) s))"
  "keeps_start s (snd (set_result (\<lambda>u. u\<lparr> c2_start_sent := b \<rparr>) s))"
  "keeps_start s (snd (set_result (\<lambda>u. u\<lparr> c2_ready_received := b \<rparr>) s))"
  by (simp_all add: keeps_start_def set_result_def)

lemma v1_cold_start_keeps:
  "keeps_start s t \<Longrightarrow> v1_cold_start P (vr_result s) \<Longrightarrow> v1_cold_start P ((vr_result t)\<lparr> c1_security_info := info \<rparr>)"
  by (simp add: keeps_start_def v1_cold_start_def)

lemma keeps_start_cp1: "keeps_start s (snd (post_l4_exchange B C r s))"
  unfolding post_l4_exchange_def Let_def
  by (intro starts.kept_intros keeps_start_base keeps_start_set)

lemma keeps_start_receive: "keeps_start s (snd (cp2_receive B link ty name s))"
  unfolding cp2_receive_def by (intro starts.kept_intros keeps_start_base)

lemma keeps_start_attest: "keeps_start s (snd (cp2_attest B link s))"
  unfolding cp2_attest_def by (intro starts.kept_intros keeps_start_base keeps_start_receive)

lemma keeps_start_cp2: "keeps_start s (snd (cp2_exchange B C r sid s))"
  unfolding cp2_exchange_def cp2_submit_def cp2_diagnose_def Let_def
  by (intro starts.kept_intros keeps_start_base keeps_start_set keeps_start_set2 keeps_start_attest keeps_start_receive)

text \<open>The run that returns, for an exchange that keeps the start.\<close>

lemma run_v1_started:
  assumes "run_v1 B P rt neg unpair_first exchange retain s = (Inr res, t)" and "\<And>s. keeps_start s (snd (exchange s))"
    and "\<And>sc i. c1_scenario (rt sc i) = sc"
  shows "neg = None \<and> (\<exists>u v info. exchange u = (Inr info, v) \<and> res = (vr_result v)\<lparr> c1_security_info := info \<rparr>)
    \<and> (c1_scenario res = ''bonded'' \<or> c1_scenario res = ''cold'' \<and> v1_cold_start P res)"
proof -
  obtain bonded i u v info where r: "res = (vr_result v)\<lparr> c1_security_info := info \<rparr>" "exchange u = (Inr info, v)" "neg = None"
    "c1_scenario (vr_result u) = (if bonded then ''bonded'' else ''cold'')" "bonded \<or> v1_cold_start P (vr_result u)"
    using run_v1_Inr [OF assms(1)] unfolding assms(3) by blast
  have "keeps_start u v" using assms(2) [of u] r(2) by simp
  then show ?thesis using r v1_cold_start_keeps [of u v P info] by (cases bonded) (auto simp: keeps_start_def)
qed

text \<open>The notification in place \<open>k\<close> of the queue.\<close>

definition received :: "bleak \<Rightarrow> nat \<Rightarrow> bytes \<Rightarrow> bool" where
  "received B k raw \<longleftrightarrow> (\<exists>ops. k < length (bl_queue B ops) \<and> raw = bl_queue B ops ! k)"

lemma take_received: "take_notification B e s = (Inr raw, t) \<Longrightarrow> received B (rn_taken s) raw"
  by (auto simp: take_notification_Inr received_def Let_def)

lemma post_l4_exchange_Inr:
  assumes "post_l4_exchange B C r s = (Inr info, t)"
  shows "is_authenticated_level4 info \<and> (\<exists>k raw. received B k raw \<and> cp1_attestation raw = Inr info)"
  using assms
  by (fastforce simp: received_def post_l4_exchange_def v1_Inr take_notification_Inr Let_def case_prod_unfold)

lemma cp2_receive_Inr:
  assumes "cp2_receive B link ty name s = (Inr (raw, p), t)"
  shows "received B (rn_taken (vr_runner s)) raw \<and> (\<exists>frame. parse_v1_frame raw = Inr frame \<and> v1_subtype frame = ty
    \<and> p = v1_payload frame) \<and> rn_taken (vr_runner t) = Suc (rn_taken (vr_runner s)) \<and> rn_buf (vr_runner t) = rn_buf (vr_runner s)"
  using assms by (auto simp: cp2_receive_def v1_Inr received_def take_notification_Inr Let_def)

lemma cp2_attest_Inr:
  assumes "cp2_attest B link s = (Inr info, t)"
  shows "is_authenticated_level4 info \<and> (\<exists>raw. received B (rn_taken (vr_runner s)) raw \<and> parse_sec_info raw = Inr info)
    \<and> rn_buf (vr_runner t) = rn_buf (vr_runner s)"
proof -
  obtain u raw p where u: "cp2_receive B link V1_SEC_INFO ''SEC_INFO'' u = (Inr (raw, p), t)" "parse_sec_info raw = Inr info"
    "is_authenticated_level4 info" "rn_taken (vr_runner u) = rn_taken (vr_runner s)" "rn_buf (vr_runner u) = rn_buf (vr_runner s)"
    using assms by (auto simp: cp2_attest_def v1_Inr runC_Inr)
  then show ?thesis using cp2_receive_Inr [OF u(1)] by auto
qed

lemma finallyM_set: "finallyM m (onR (setM f)) s = (Inr x, t) \<longleftrightarrow> (\<exists>u. m s = (Inr x, u) \<and> t = u\<lparr> vr_runner := f (vr_runner u) \<rparr>)"
  by (auto simp: finallyM_Inr onR_Inr)

text \<open>CP2 returns only with the diagnostic of its own secret.\<close>

definition cp2_ready_ok :: "bleak \<Rightarrow> third_party \<Rightarrow> nat \<Rightarrow> bytes \<Rightarrow> bool" where
  "cp2_ready_ok B C r session_id \<longleftrightarrow> (\<exists>pk ct ss k raw frame. length pk = PK_SIZE \<and> encapsulate C r pk = (ct, ss)
     \<and> received B k raw \<and> parse_v1_frame raw = Inr frame \<and> v1_subtype frame = V1_READY
     \<and> cp2_compute_diagnostic ss session_id pk ct = Inr (v1_payload frame))"

lemma cp2_diagnose_Inr:
  assumes "cp2_diagnose B sid link s = (Inr (), t)"
  shows "\<exists>(u :: v1_cp2_result v1_run) raw rd v. cp2_receive B link V1_READY ''READY_V1'' u = (Inr (raw, rd), v)
    \<and> rn_buf (vr_runner u) = rn_buf (vr_runner s) \<and> rn_buf (vr_runner v) ''expected'' = rd \<and> c2_diagnostic_match (vr_result t)"
proof -
  obtain u :: "v1_cp2_result v1_run" and raw v where u: "cp2_receive B link V1_READY ''READY_V1'' u = (Inr (raw, rn_buf (vr_runner v) ''expected''), v)"
    "rn_buf (vr_runner u) = rn_buf (vr_runner s)" "c2_diagnostic_match (vr_result t)"
    using assms by (auto simp: cp2_diagnose_def v1_Inr runC_Inr)
  then show ?thesis by blast
qed

lemma cp2_exchange_Inr:
  assumes "cp2_exchange B C r sid s = (Inr info, t)"
  shows "is_authenticated_level4 info \<and> cp2_ready_ok B C r sid \<and> c2_diagnostic_match (vr_result t)"
proof -
  obtain link u0 u1 u2 u3 where st: "cp2_submit B C r sid link u0 = (Inr (), u1)" "cp2_attest B link u1 = (Inr info, u2)"
    "cp2_diagnose B sid link u2 = (Inr (), u3)" "vr_result t = vr_result u3"
    using assms by (auto simp: cp2_exchange_def finallyM_set)
  obtain pk e where k0: "length pk = PK_SIZE" "cp2_compute_diagnostic (snd (encapsulate C r pk)) sid pk (fst (encapsulate C r pk)) = Inr e"
    "rn_buf (vr_runner u1) ''expected'' = e"
    using st(1) by (auto simp: cp2_submit_def v1_Inr runC_Inr set_buf_apply Let_def case_prod_unfold)
  obtain ct ss where k: "encapsulate C r pk = (ct, ss)" "cp2_compute_diagnostic ss sid pk ct = Inr e"
    using k0(2) by (cases "encapsulate C r pk") simp
  obtain u4 :: "v1_cp2_result v1_run" and u5 raw rd where d: "cp2_receive B link V1_READY ''READY_V1'' u4 = (Inr (raw, rd), u5)"
    "rn_buf (vr_runner u4) = rn_buf (vr_runner u2)" "rn_buf (vr_runner u5) ''expected'' = rd" "c2_diagnostic_match (vr_result u3)"
    using cp2_diagnose_Inr [OF st(3)] by blast
  have a: "is_authenticated_level4 info" "rn_buf (vr_runner u2) = rn_buf (vr_runner u1)" using cp2_attest_Inr [OF st(2)] by auto
  obtain frame where f: "received B (rn_taken (vr_runner u4)) raw" "parse_v1_frame raw = Inr frame"
    "v1_subtype frame = V1_READY" "rd = v1_payload frame" "rn_buf (vr_runner u5) = rn_buf (vr_runner u4)"
    using cp2_receive_Inr [OF d(1)] by blast
  have "cp2_compute_diagnostic ss sid pk ct = Inr (v1_payload frame)" using k(2) k0(3) d(2,3) a(2) f(4,5) by simp
  then have "cp2_ready_ok B C r sid" using k(1) k0(1) f(1-3) unfolding cp2_ready_ok_def
    by (intro exI [of _ pk] exI [of _ ct] exI [of _ ss] exI [of _ "rn_taken (vr_runner u4)"] exI [of _ raw] exI [of _ frame] conjI)
  then show ?thesis using a(1) d(4) st(4) by simp
qed

lemma pb_numeric [simp]: "pb_pair_numeric_comparison (winrt_backend W T timeout) ops = pair_numeric_comparison W T timeout"
  "pb_inspect_pairing (winrt_backend W T timeout) ops = inspect_pairing W"
  by (simp_all add: winrt_backend_def)

text \<open>A cold start over the Windows backend had the human's consent.\<close>

definition v1_consented :: "pairing_attempt \<Rightarrow> 'z v1_cp1_result_scheme \<Rightarrow> bool" where
  "v1_consented T res \<longleftrightarrow> map fst (c1_pre_l4_denials res) = PRE_L4_PROBES \<and> c1_pairing_status res = ''PAIRED''
     \<and> c1_pairing_protection res = PROTECTION_ENCRYPTION_AND_AUTHENTICATION
     \<and> (\<exists>a. consent (pt_before T) a \<and> pa_kind a = ''CONFIRM_PIN_MATCH'' \<and> six_digits (pa_pin a))"

lemma v1_cold_start_consented:
  assumes "v1_cold_start (winrt_backend W T timeout) res"
  shows "v1_consented T res"
proof -
  obtain p out p' where o: "pair_numeric_comparison W T timeout p = (Inr out, p')" "po_status out = ''PAIRED''"
    using assms by (auto simp: v1_cold_start_def)
  then show ?thesis using pairing_consented [OF o(1)] assms by (auto simp: v1_consented_def v1_cold_start_def)
qed

lemma run_v1_cp2_Inr:
  assumes "run_v1_cp2 B P C r sid neg unpair_first s = (Inr res, t)"
  shows "neg = None \<and> (c1_scenario res = ''bonded'' \<or> c1_scenario res = ''cold'' \<and> v1_cold_start P res)
    \<and> is_authenticated_level4 (c1_security_info res) \<and> cp2_ready_ok B C r sid \<and> c2_diagnostic_match res"
proof -
  have run: "run_v1 B P V1CP2Result None unpair_first (cp2_exchange B C r sid) False s = (Inr res, t)" and "neg = None"
    using assms by (auto simp: run_v1_cp2_def split: if_splits)
  note st = run_v1_started [OF run keeps_start_cp2]
  have "c1_scenario (V1CP2Result sc i) = sc" for sc i by (simp add: V1CP2Result_def V1CP1Result_def v1_cp1_result.defs)
  then show ?thesis using st cp2_exchange_Inr \<open>neg = None\<close> by fastforce
qed

lemma run_v1_cp1_Inr:
  assumes "run_v1_cp1 B P C r neg unpair_first s = (Inr res, t)"
  shows "neg = None \<and> (c1_scenario res = ''bonded'' \<or> c1_scenario res = ''cold'' \<and> v1_cold_start P res)
    \<and> is_authenticated_level4 (c1_security_info res)
    \<and> (\<exists>k raw. received B k raw \<and> cp1_attestation raw = Inr (c1_security_info res))"
proof -
  note st = run_v1_started [OF assms [unfolded run_v1_cp1_def] keeps_start_cp1]
  have "c1_scenario (V1CP1Result sc i) = sc" for sc i by (simp add: V1CP1Result_def)
  then show ?thesis using st post_l4_exchange_Inr by fastforce
qed

subsection \<open>What is wiped and what is gated\<close>

text \<open>
  What holds of the steps of a run holds of the run: the calls of the client and the pairing backend, the
  assignments to the result, and the exchange.
\<close>

locale v1_kept = kept R for R :: "'z v1_cp1_result_scheme v1_run \<Rightarrow> 'z v1_cp1_result_scheme v1_run \<Rightarrow> bool" +
  fixes B :: bleak
  assumes kept_pairing: "R s (s\<lparr> vr_runner := log_op SystemPairing (vr_runner s), vr_pairing := p \<rparr>)"
    and kept_cause: "R s (s\<lparr> vr_cause := x \<rparr>)"
    and kept_result: "R s (s\<lparr> vr_result := res \<rparr>)"
    and kept_test: "R s (snd (onR (runC (setM (\<lambda>c. c\<lparr> bc_v1_security_test := True \<rparr>))) s))"
    and kept_reconnect: "R s (snd (onR (runC (client_reconnect_v1_peer B)) s))"
    and kept_read: "R s (snd (onR (runC (read_fragmented_public_key B)) s))"
    and kept_raw: "R s (snd (onR (runC (write_raw_ciphertext_fragment B w)) s))"
    and kept_control: "R s (snd (onR (runC (send_control B w)) s))"
    and kept_start: "R s (snd (onR (runC (start_notify B)) s))"
    and kept_stop: "R s (snd (onR (runC (stop_notify B)) s))"
begin

lemma kept_calls:
  "R s (snd (onP f s))" "R s (snd (raise_from e e' s))" "R s (snd (set_result k s))" "R s (snd (require_empty B msg s))"
  "R s (snd (onR (readM g) s))" "R s (snd (onR (require_client B) s))"
  using kept_refl by (simp_all add: onP_def raise_from_def set_result_def require_empty_def onR_def check_keeps Let_def
      case_prod_unfold kept_pairing kept_cause kept_result)

lemma kept_probe: "R s (snd (operation s)) \<Longrightarrow> R s (snd (probe_denied B name operation ds s))"
  using kept_trans kept_cause
  by (auto simp: probe_denied_def raise_from_def split: prod.splits sum.splits option.splits)

lemmas kept_steps = kept_intros kept_calls kept_test kept_reconnect kept_read kept_raw kept_control kept_start kept_probe

lemma kept_probes: "R s (snd (run_pre_l4_probes B s))"
  unfolding run_pre_l4_probes_def by (intro kept_steps)

lemma kept_ensure: "R s (snd (ensure_connected B s))"
proof -
  have "R s (snd (bindM (onR (runC (client_reconnect_v1_peer B)))
      (\<lambda>ok. needM ok (ProtocolError ''could not reconnect after pairing'')) s))" by (intro kept_steps)
  then show ?thesis by (simp add: ensure_connected_def kept_refl)
qed

lemma kept_post_l4:
  assumes "\<And>s. R s (snd (exchange s))"
  shows "R s (snd (v1_post_l4 B bonded exchange retain s))"
proof -
  let ?m = "bindM (catchM (\<lambda>_. True) (v1_exchange_error bonded) exchange) (\<lambda>info. set_result (\<lambda>r. r\<lparr> c1_security_info := info \<rparr>))"
  have "R s (snd (?m s))" unfolding v1_exchange_error_def by (intro kept_steps assms)
  then have "R s (snd (onR (runC (stop_notify B)) (snd (?m s))))" by (rule kept_trans) (rule kept_stop)
  with \<open>R s (snd (?m s))\<close> show ?thesis by (simp add: v1_post_l4_def case_prod_unfold)
qed

lemma kept_run:
  assumes "\<And>s. R s (snd (exchange s))"
  shows "R s (snd (run_v1 B P rt neg unpair_first exchange retain s))"
  unfolding run_v1_def v1_bond_state_def v1_secure_link_def v1_cold_pairing_def verify_negative_closed_def
  by (intro kept_steps kept_probes kept_ensure kept_post_l4 assms)

end

text \<open>Buffers that are zero stay zero: every stage of the run, and an exchange that wipes them.\<close>

definition keeps_wiped :: "string list \<Rightarrow> 'r v1_run \<Rightarrow> 'r v1_run \<Rightarrow> bool" where
  "keeps_wiped ns s t \<longleftrightarrow> (list_all (\<lambda>n. wiped (rn_buf (vr_runner s) n)) ns \<longrightarrow> list_all (\<lambda>n. wiped (rn_buf (vr_runner t) n)) ns)"

interpretation wiping: kept "keeps_wiped ns" for ns
  by unfold_locales (auto simp: keeps_wiped_def)

lemma keeps_wiped_bufs: "keeps_bufs s t \<Longrightarrow> keeps_wiped ns s t"
  by (simp add: keeps_bufs_def keeps_wiped_def)

lemmas keeps_wiped_base = keeps_bufs_base [THEN keeps_wiped_bufs]

interpretation wiped_run: v1_kept "keeps_wiped ns" B for ns B
  by unfold_locales (simp_all add: keeps_wiped_def onR_def Let_def case_prod_unfold log_op_def)

lemma onR_setM_buf: "rn_buf (vr_runner (snd (onR (setM f) s))) = rn_buf (f (vr_runner s))"
  by (simp add: onR_def)

lemma cp2_exchange_wipes: "list_all (\<lambda>n. wiped (rn_buf (vr_runner (snd (cp2_exchange B C r sid s))) n)) cp2_sensitive"
proof -
  have "list_all (\<lambda>n. wiped (rn_buf (vr_runner (snd (finallyM m (onR (setM (wipe_bufs cp2_sensitive))) t))) n)) cp2_sensitive"
    for m and t :: "v1_cp2_result v1_run"
    by (simp add: finallyM_def case_prod_unfold Let_def onR_setM_buf list_all_iff wipe_bufs_wiped)
  then show ?thesis unfolding cp2_exchange_def by (simp add: bindM_def onR_def)
qed

text \<open>Operations of the exchange before the first and before the second attestation.\<close>

definition sec_query :: "gatt_op \<Rightarrow> bool" where
  "sec_query p \<longleftrightarrow> (\<exists>q. encode_sec_query = Inr q \<and> p = WriteChar CHAR_CONTROL q)"

definition before_attest :: "gatt_op \<Rightarrow> bool" where
  "before_attest p \<longleftrightarrow> p \<in> {StartNotify, AwaitNotify} \<or> sec_query p"

definition before_start :: "gatt_op \<Rightarrow> bool" where
  "before_start p \<longleftrightarrow> before_attest p \<or> p = ReadChar CHAR_PUBKEY \<or> (\<exists>d. p = WriteChar CHAR_CIPHERTEXT d)"

definition attested :: "bleak \<Rightarrow> nat \<Rightarrow> bool" where
  "attested B k \<longleftrightarrow> (\<exists>raw info. received B k raw \<and> parse_sec_info raw = Inr info \<and> is_authenticated_level4 info)"

lemma within_client_call:
  "P StartNotify \<Longrightarrow> v1_within P s (snd (onR (runC (start_notify B)) s))"
  "P (WriteChar CHAR_CONTROL d) \<Longrightarrow> v1_within P s (snd (onR (runC (send_control B d)) s))"
  "P (ReadChar CHAR_PUBKEY) \<Longrightarrow> v1_within P s (snd (onR (runC (read_fragmented_public_key B)) s))"
  "(\<And>w. P (WriteChar CHAR_CIPHERTEXT w)) \<Longrightarrow> v1_within P s (snd (onR (runC (write_fragmented_ciphertext B ct)) s))"
  by (auto intro!: v1_within_onR within_subscribe within_control within_read within_ciphertext)

lemma within_buf: "v1_within P s (snd (onR (setM (set_buf n v)) s))" "v1_within P s (snd (onR (setM (wipe_bufs ns)) s))"
    "v1_within P s (snd (onR (readM g) s))"
  by (intro v1_within_onR; simp add: ops_within_def set_buf_def)+

lemma within_query:
  "P AwaitNotify \<Longrightarrow> (\<And>p. sec_query p \<Longrightarrow> P p) \<Longrightarrow> v1_within P s (snd (cp2_attest B link s))"
  unfolding cp2_attest_def cp2_receive_def
  by (intro ops.kept_bind_lift ops.kept_intros v1_within_base within_client_call) (simp_all add: sec_query_def)

lemma within_submit:
  "P (ReadChar CHAR_PUBKEY) \<Longrightarrow> (\<And>w. P (WriteChar CHAR_CIPHERTEXT w)) \<Longrightarrow> v1_within P s (snd (cp2_submit B C r sid link s))"
  unfolding cp2_submit_def Let_def by (intro ops.kept_intros v1_within_base within_client_call within_buf)

lemma attested_of: "received B k raw \<Longrightarrow> parse_sec_info raw = Inr info \<Longrightarrow> is_authenticated_level4 info \<Longrightarrow> attested B k"
  by (auto simp: attested_def)

lemma cp2_attest_attested: "cp2_attest B link s = (Inr info, t) \<Longrightarrow> attested B (rn_taken (vr_runner s))"
  using cp2_attest_Inr attested_of by blast

lemma cp2_within_any: "v1_within (\<lambda>_. True) s (snd (cp2_exchange B C r sid s))"
  unfolding cp2_exchange_def cp2_submit_def cp2_diagnose_def cp2_receive_def Let_def
  by (intro ops.kept_intros v1_within_base within_client_call within_buf within_query) simp_all

lemma onR_taken: "onR (runC m) s = (x, t) \<Longrightarrow> rn_taken (vr_runner t) = rn_taken (vr_runner s)"
  by (auto simp: onR_def runC_def Let_def split: prod.splits)

lemma cp2_attest_taken: "cp2_attest B link s = (Inr info, t) \<Longrightarrow> rn_taken (vr_runner t) = Suc (rn_taken (vr_runner s))"
  using cp2_receive_Inr by (fastforce simp: cp2_attest_def v1_Inr runC_Inr)

lemma cp2_submit_taken: "cp2_submit B C r sid link s = (Inr (), t) \<Longrightarrow> rn_taken (vr_runner t) = rn_taken (vr_runner s)"
  by (auto simp: cp2_submit_def v1_Inr runC_Inr set_buf_def Let_def case_prod_unfold)

lemma bind_read: "bindM (onR (readM (\<lambda>s. Inr (g s)))) f s = f (g (vr_runner s)) s"
  by (simp add: bindM_def onR_def)

text \<open>Up to the first attestation, and then to the second.\<close>

lemma cp2_gate_first:
  assumes P: "P StartNotify" "P AwaitNotify" "\<And>p. sec_query p \<Longrightarrow> P p"
    and K: "\<And>u v info. rn_taken (vr_runner u) = rn_taken (vr_runner s) \<Longrightarrow> cp2_attest B link u = (Inr info, v) \<Longrightarrow>
        v1_within P v (snd (K info v)) \<or> Q"
  shows "v1_within P s (snd (seqM (cp2_link B link) (seqM (onR (runC (start_notify B))) (bindM (cp2_attest B link) K)) s)) \<or> Q"
proof (rule ops.kept_or_seq [OF v1_within_base(3)], rule ops.kept_or_seq [OF within_client_call(1)])
  fix t u
  assume t: "cp2_link B link s = (Inr (), t)" "onR (runC (start_notify B)) t = (Inr (), u)"
  then have "rn_taken (vr_runner u) = rn_taken (vr_runner s)" using onR_taken [OF t(2)] by (simp add: v1_Inr)
  then show "v1_within P u (snd (bindM (cp2_attest B link) K u)) \<or> Q"
    using K by (intro ops.kept_or_bind within_query P) blast+
qed (rule P)

lemma cp2_gated:
  "v1_within before_attest s (snd (cp2_exchange B C r sid s)) \<or> attested B (rn_taken (vr_runner s))"
  "v1_within before_start s (snd (cp2_exchange B C r sid s))
     \<or> attested B (rn_taken (vr_runner s)) \<and> attested B (Suc (rn_taken (vr_runner s)))"
proof -
  let ?n = "rn_taken (vr_runner s)"
  have "v1_within before_attest s (snd (seqM (cp2_link B link) (seqM (onR (runC (start_notify B))) (bindM (cp2_attest B link) K)) s))
      \<or> attested B ?n" for link K
    by (rule cp2_gate_first) (auto simp: before_attest_def dest: cp2_attest_attested)
  then show "v1_within before_attest s (snd (cp2_exchange B C r sid s)) \<or> attested B ?n"
    unfolding cp2_exchange_def bind_read by (intro ops.kept_or_finally within_buf)
  have P: "before_start StartNotify" "before_start AwaitNotify" "sec_query p \<Longrightarrow> before_start p"
    "before_start (ReadChar CHAR_PUBKEY)" "before_start (WriteChar CHAR_CIPHERTEXT w)" for p w
    by (simp_all add: before_start_def before_attest_def)
  have "v1_within before_start s (snd (seqM (cp2_link B link) (seqM (onR (runC (start_notify B))) (bindM (cp2_attest B link)
      (\<lambda>i. seqM (cp2_submit B C r sid link) (bindM (cp2_attest B link) K)))) s)) \<or> attested B ?n \<and> attested B (Suc ?n)" for link K
  proof (rule cp2_gate_first [OF P(1-3)])
    fix u v :: "v1_cp2_result v1_run" and info
    assume u: "rn_taken (vr_runner u) = ?n" "cp2_attest B link u = (Inr info, v)"
    then have v: "attested B ?n" "rn_taken (vr_runner v) = Suc ?n" using cp2_attest_attested cp2_attest_taken by metis+
    show "v1_within before_start v (snd (seqM (cp2_submit B C r sid link) (bindM (cp2_attest B link) K) v)) \<or> attested B ?n \<and> attested B (Suc ?n)"
    proof (intro ops.kept_or_seq ops.kept_or_bind within_submit [where P = before_start, OF P(4,5)] within_query [where P = before_start, OF P(2,3)])
      fix w x y z
      assume "cp2_submit B C r sid link v = (Inr (), w)" "cp2_attest B link w = (Inr x, y)"
      then have "attested B (Suc ?n)" using cp2_submit_taken cp2_attest_attested v(2) by metis
      then show "v1_within before_start y (snd (K x y)) \<or> attested B ?n \<and> attested B (Suc ?n)" using v(1) by simp
    qed
  qed
  then show "v1_within before_start s (snd (cp2_exchange B C r sid s)) \<or> attested B ?n \<and> attested B (Suc ?n)"
    unfolding cp2_exchange_def bind_read by (intro ops.kept_or_finally within_buf)
qed

subsection \<open>An honest peer\<close>

text \<open>A peer that answers while it is waited for: the replies \<open>q\<close>, one for each wait.\<close>

definition awaits :: "gatt_op list \<Rightarrow> nat" where
  "awaits ops = length (filter (\<lambda>p. p = AwaitNotify) ops)"

definition prompt_replies :: "bleak \<Rightarrow> bytes list \<Rightarrow> bool" where
  "prompt_replies B q \<longleftrightarrow> (\<forall>ops. awaits ops \<le> Suc (length q) \<longrightarrow> bl_queue B ops = take (awaits ops) q)"

text \<open>On link \<open>l\<close>, with \<open>n\<close> waits behind it.\<close>

definition v1_at :: "nat \<Rightarrow> nat \<Rightarrow> 'r v1_run \<Rightarrow> bool" where
  "v1_at l n s \<longleftrightarrow> bc_client (rn_client (vr_runner s)) = Some l \<and> rn_taken (vr_runner s) = n
     \<and> awaits (bc_ops (rn_client (vr_runner s))) = n"

text \<open>A stage that succeeds with \<open>x\<close> after \<open>k\<close> waits and keeps the buffers, the result and the session objects.\<close>

definition same_objects :: "ble_client \<Rightarrow> ble_client \<Rightarrow> bool" where
  "same_objects c d \<longleftrightarrow> bc_v1_cp3_session d = bc_v1_cp3_session c \<and> bc_retired_sessions d = bc_retired_sessions c
     \<and> bc_v1_cp3_link d = bc_v1_cp3_link c"

lemma did_objects [simp]: "same_objects c (rn_client (did ops s)) = same_objects c (rn_client s)"
  by (simp add: same_objects_def did_def)

definition v1_does :: "('r v1_run, 'a) meth \<Rightarrow> nat \<Rightarrow> nat \<Rightarrow> 'r v1_run \<Rightarrow> 'a \<Rightarrow> nat \<Rightarrow> 'r v1_run \<Rightarrow> bool" where
  "v1_does m l n s x k t \<longleftrightarrow> m s = (Inr x, t) \<and> v1_at l (n + k) t \<and> rn_buf (vr_runner t) = rn_buf (vr_runner s)
     \<and> vr_result t = vr_result s \<and> same_objects (rn_client (vr_runner s)) (rn_client (vr_runner t))"

lemma same_objects_simps [simp]:
  "same_objects c c" "same_objects c (d\<lparr> bc_ops := ops \<rparr>) = same_objects c d" "same_objects c (d\<lparr> bc_v1_notify_link := l \<rparr>) = same_objects c d"
  by (simp_all add: same_objects_def)

lemma same_objects_trans: "same_objects a b \<Longrightarrow> same_objects b c \<Longrightarrow> same_objects a c"
  by (simp add: same_objects_def)

lemma awaits_simps [simp]:
  "awaits [] = 0" "awaits (ops @ ops') = awaits ops + awaits ops'" "awaits (AwaitNotify # ops) = Suc (awaits ops)"
  "awaits (WriteChar c d # ops) = awaits ops" "awaits (ReadChar c # ops) = awaits ops" "awaits (StartNotify # ops) = awaits ops"
  "awaits (Sleep # ops) = awaits ops" "awaits (SystemPairing # ops) = awaits ops" "awaits (map (WriteChar c) ws) = 0"
  by (simp_all add: awaits_def filter_empty_conv)

lemma set_buf_keeps [simp]: "rn_client (set_buf b v s) = rn_client s" "rn_taken (set_buf b v s) = rn_taken s"
  by (simp_all add: set_buf_def)

lemma v1_at_simps [simp]:
  "v1_at l n (s\<lparr> vr_result := r \<rparr>) = v1_at l n s" "v1_at l n (s\<lparr> vr_pairing := p \<rparr>) = v1_at l n s"
  "v1_at l n (s\<lparr> vr_runner := set_buf b v (vr_runner s) \<rparr>) = v1_at l n s"
  by (simp_all add: v1_at_def set_buf_def)

lemma at_connected: "live_link B pk \<Longrightarrow> v1_at l n s \<Longrightarrow> client_is_connected B (rn_client (vr_runner s))"
  by (rule live_connected) (simp_all add: v1_at_def)

lemma at_link: "live_link B pk \<Longrightarrow> v1_at l n s \<Longrightarrow> require_same_link B msg (Some l) s = (Inr (), s)"
  using at_connected [of B pk l n s] by (simp add: require_same_link_def onR_def v1_at_def)

lemma at_empty: "prompt_replies B q \<Longrightarrow> v1_at l n s \<Longrightarrow> n \<le> length q \<Longrightarrow> require_empty B msg s = (Inr (), s)"
  by (simp add: require_empty_def onR_def v1_at_def queue_empty_def prompt_replies_def)

lemma at_sleep: "v1_at l n s \<Longrightarrow> \<exists>t. v1_does sleepM l n s () 0 t"
  by (auto simp: v1_does_def sleepM_apply v1_at_def log_op_def)

lemma at_control: "live_link B pk \<Longrightarrow> v1_at l n s \<Longrightarrow> \<exists>t. v1_does (onR (runC (send_control B d))) l n s () 0 t"
  by (auto simp: v1_does_def onR_def v1_at_def live_control)

lemma at_read: "live_link B pk \<Longrightarrow> v1_at l n s \<Longrightarrow> \<exists>t. v1_does (onR (runC (read_fragmented_public_key B))) l n s pk 0 t"
  by (auto simp: v1_does_def onR_def v1_at_def live_read)

lemma at_ciphertext:
  assumes "live_link B pk" "v1_at l n s" "length ct = CT_SIZE"
  shows "\<exists>ws t. v1_does (onR (runC (write_fragmented_ciphertext B ct))) l n s (length (ws :: bytes list)) 0 t"
  using live_ciphertext [OF assms(1) _ assms(3), of "vr_runner s"] assms(2)
  by (auto simp: v1_does_def onR_def v1_at_def)

lemma at_start: "live_link B pk \<Longrightarrow> v1_at l n s \<Longrightarrow> \<exists>t. v1_does (onR (runC (start_notify B))) l n s () 0 t"
  using live_connected [of B pk "rn_client (vr_runner s)"]
  by (auto simp: v1_does_def onR_def v1_at_def runC_def start_notify_def require_connected_def seqM_def bindM_def
      bleak_call_def live_link_def Let_def)

lemma at_take:
  "prompt_replies B q \<Longrightarrow> v1_at l n s \<Longrightarrow> n < length q \<Longrightarrow> \<exists>t. v1_does (onR (take_notification B e)) l n s (q ! n) 1 t"
  by (auto simp: v1_does_def onR_def v1_at_def take_notification_def prompt_replies_def Let_def)

lemma at_quiet:
  "prompt_replies B q \<Longrightarrow> v1_at l n s \<Longrightarrow> n = length q \<Longrightarrow> live_link B pk \<Longrightarrow>
     \<exists>t. quiet_window B msg s = (Inr (), t) \<and> require_same_link B msg' (Some l) t = (Inr (), t)
       \<and> rn_buf (vr_runner t) = rn_buf (vr_runner s) \<and> vr_result t = vr_result s"
  using live_connected [of B pk]
  by (auto simp: quiet_window_def require_same_link_def onR_def v1_at_def take_notification_def prompt_replies_def Let_def)

lemma v1_doesE: "v1_does m l n s x k t \<Longrightarrow> m s = (Inr x, t) \<and> v1_at l (n + k) t \<and> rn_buf (vr_runner t) = rn_buf (vr_runner s)
     \<and> vr_result t = vr_result s \<and> same_objects (rn_client (vr_runner s)) (rn_client (vr_runner t))"
  by (simp add: v1_does_def)

lemma cp2_receive_live:
  assumes "live_link B pk" "prompt_replies B q" "v1_at l n s" "n < length q"
    and "q ! n = frame_wire V1_FRAME_MAGIC 16 ty p" "v1_valid ty p" "ty \<noteq> V1_ERROR"
  shows "\<exists>t. v1_does (cp2_receive B (Some l) ty name) l n s (q ! n, p) 1 t"
proof -
  obtain t where "v1_does (onR (take_notification B (ProtocolError (''CP2 timed out waiting for '' @ name)))) l n s (q ! n) 1 t"
    using at_take [OF assms(2-4)] by blast
  note t = v1_doesE [OF this]
  have "parse_v1_frame (q ! n) = Inr \<lparr> v1_subtype = ty, v1_payload = p \<rparr>" using parse_v1_wire [OF assms(6)] assms(5) by simp
  then show ?thesis
    using t at_link [OF assms(1), of l "n + 1" t] assms(7)
    by (simp add: v1_does_def cp2_receive_def seqM_def bindM_def needM_apply del: bindM_Inr)
qed

definition level4_info :: v1_security_info where
  "level4_info = \<lparr> si_level = 4, si_secure_connections = True, si_authenticated = True, si_gate_open = True,
     si_enc_key_size = 16, si_profile = 16 \<rparr>"

lemma level4_wire_parses: "parse_sec_info level4_wire = Inr level4_info" "is_authenticated_level4 level4_info"
  by (simp_all add: level4_wire_def parse_sec_info_wire level4_info_def is_authenticated_level4_def)

lemma cp2_attest_live:
  assumes "live_link B pk" "prompt_replies B q" "v1_at l n s" "n < length q" and "q ! n = level4_wire"
  shows "\<exists>t. v1_does (cp2_attest B (Some l)) l n s level4_info 1 t"
proof -
  obtain sq where sq: "encode_sec_query = Inr sq"
    by (simp add: encode_sec_query_def encode_v1_frame_def v1_validate_payload_def v1_payload_sizes_def)
  obtain u where "v1_does (onR (runC (send_control B sq))) l n s () 0 u" using at_control [OF assms(1,3)] by blast
  note u = v1_doesE [OF this]
  obtain t where "v1_does (cp2_receive B (Some l) V1_SEC_INFO ''SEC_INFO'') l n u (q ! n, [4, 7, 16, 16]) 1 t"
    using cp2_receive_live [OF assms(1,2) _ assms(4), of l u V1_SEC_INFO "[4, 7, 16, 16]"] u assms(5)
    by (auto simp: v1_valid_iff level4_wire_def)
  note t = v1_doesE [OF this]
  have "same_objects (rn_client (vr_runner s)) (rn_client (vr_runner t))" using u t same_objects_trans by blast
  then show ?thesis
    using u t level4_wire_parses assms(5) at_link [OF assms(1,3)] at_empty [OF assms(2,3)] assms(4)
    by (simp add: sq v1_does_def cp2_attest_def seqM_def bindM_def needM_apply del: bindM_Inr)
qed

lemma cp2_submit_live:
  assumes "live_link B pk" "v1_at l n s" "encapsulate C r pk = (ct, ss)" "length pk = PK_SIZE" "length ct = CT_SIZE"
    "length ss = SS_SIZE" and d: "cp2_compute_diagnostic ss sid pk ct = Inr d"
  shows "\<exists>t. cp2_submit B C r sid (Some l) s = (Inr (), t) \<and> v1_at l n t \<and> rn_buf (vr_runner t) ''expected'' = d"
proof -
  obtain u where "v1_does (onR (runC (read_fragmented_public_key B))) l n s pk 0 u" using at_read [OF assms(1,2)] by blast
  note u = v1_doesE [OF this]
  let ?v = "u\<lparr> vr_result := (vr_result u)\<lparr> c1_public_key_len := length pk \<rparr>, vr_runner := set_buf ''secret'' ss (vr_runner u) \<rparr>"
  have v: "v1_at l n ?v" using u by (simp add: v1_at_def set_buf_def)
  obtain ws w where "v1_does (onR (runC (write_fragmented_ciphertext B ct))) l n ?v (length (ws :: bytes list)) 0 w"
    using at_ciphertext [OF assms(1) v assms(5)] by blast
  note w = v1_doesE [OF this]
  have set: "onR (setM (set_buf a x)) y = (Inr (), y\<lparr> vr_runner := set_buf a x (vr_runner y) \<rparr>)" for a x and y :: "v1_cp2_result v1_run"
    by (simp add: onR_def)
  have link: "require_same_link B msg (Some l) ?v = (Inr (), ?v)" "require_same_link B msg (Some l) u = (Inr (), u)" for msg
    using at_link [OF assms(1) v] at_link [OF assms(1), of l n u] u by simp_all
  show ?thesis
    using u w link assms(3-6)
    by (simp add: d cp2_submit_def seqM_def bindM_def needM_apply set set_result_apply set_buf_apply v1_at_def del: bindM_Inr)
qed

lemma cp2_diagnose_live:
  assumes "live_link B pk" "prompt_replies B q" "v1_at l n s" "q ! n = frame_wire V1_FRAME_MAGIC 16 V1_READY d" "length q = Suc n"
    and "rn_buf (vr_runner s) ''expected'' = d" "length d = 32" "length sid = V1_CP2_SESSION_ID_SIZE"
  shows "\<exists>t. cp2_diagnose B sid (Some l) s = (Inr (), t) \<and> c2_diagnostic_match (vr_result t)"
proof -
  obtain st where st: "encode_v1_frame V1_START sid = Inr st"
    using assms(8) by (simp add: encode_v1_frame_def v1_validate_payload_def v1_payload_sizes_def)
  obtain u where "v1_does sleepM l n s () 0 u" using at_sleep [OF assms(3)] by blast
  note u = v1_doesE [OF this]
  obtain v where "v1_does (onR (runC (send_control B st))) l n u () 0 v" using at_control [OF assms(1)] u by fastforce
  note v = v1_doesE [OF this]
  let ?v = "v\<lparr> vr_result := (vr_result v)\<lparr> c2_start_sent := True \<rparr> \<rparr>"
  obtain w where "v1_does (cp2_receive B (Some l) V1_READY ''READY_V1'') l n ?v (q ! n, d) 1 w"
    using cp2_receive_live [OF assms(1,2), of l n ?v V1_READY d] v assms(4,5,7) by (auto simp: v1_valid_iff)
  note w = v1_doesE [OF this]
  let ?w = "w\<lparr> vr_result := (vr_result w)\<lparr> c2_ready_received := True \<rparr> \<rparr>"
  have "v1_at l (Suc n) ?w" "Suc n = length q" using w assms(5) by simp_all
  note q = at_quiet [OF assms(2) this assms(1)]
  obtain x where x: "quiet_window B ''unexpected extra notification after READY_V1'' ?w = (Inr (), x)"
    "cp2_link B (Some l) x = (Inr (), x)" using q by blast
  have buf: "onR (readM (\<lambda>s. requireR (rn_buf s ''expected'' = d) e)) ?w = (Inr (), ?w)" for e
    using u v w assms(6) by (simp add: onR_def)
  show ?thesis
    using u v w x buf at_link [OF assms(1), of l n u] at_empty [OF assms(2), of l n u] assms(5)
    by (simp add: st cp2_diagnose_def seqM_def bindM_def set_result_apply del: bindM_Inr)
qed

lemma cp2_exchange_live:
  assumes "live_link B pk" and q: "prompt_replies B [level4_wire, level4_wire, frame_wire V1_FRAME_MAGIC 16 V1_READY d]"
    and s: "v1_at l 0 s" and "kem_laws C" "kem_keypair C seed = (pk, sk)" "encapsulate C r pk = (ct, ss)"
    and "length sid = V1_CP2_SESSION_ID_SIZE" and "cp2_compute_diagnostic (kem_decap C sk ct) sid pk ct = Inr d"
  shows "\<exists>t. cp2_exchange B C r sid s = (Inr level4_info, t)"
proof -
  note k = kem_lawsD [OF assms(4-6)]
  have d: "length d = 32" "cp2_compute_diagnostic ss sid pk ct = Inr d"
    using assms(8) k(4) by (auto simp: cp2_compute_diagnostic_def length_hmac_sha256 split: if_splits)
  obtain u where "v1_does (onR (runC (start_notify B))) l 0 s () 0 u" using at_start [OF assms(1) s] by blast
  note u = v1_doesE [OF this]
  obtain v where "v1_does (cp2_attest B (Some l)) l 0 u level4_info 1 v"
    using cp2_attest_live [OF assms(1) q, of l 0 u] u by auto
  note v = v1_doesE [OF this]
  obtain w where w: "cp2_submit B C r sid (Some l) v = (Inr (), w)" "v1_at l 1 w" "rn_buf (vr_runner w) ''expected'' = d"
    using cp2_submit_live [OF assms(1) _ assms(6) k(1-3) d(2), of l 1 v] v by auto
  obtain x where "v1_does (cp2_attest B (Some l)) l 1 w level4_info 1 x"
    using cp2_attest_live [OF assms(1) q w(2)] by auto
  note x = v1_doesE [OF this]
  obtain y where y: "cp2_diagnose B sid (Some l) x = (Inr (), y)"
    using cp2_diagnose_live [OF assms(1) q, of l 2 x d sid] x w(3) d(1) assms(7) by (auto simp: numeral_2_eq_2)
  have "bc_client (rn_client (vr_runner s)) = Some l" using s by (simp add: v1_at_def)
  then show ?thesis
    using u v w(1) x y at_link [OF assms(1) s]
    by (simp add: cp2_exchange_def bind_read finallyM_def seqM_def bindM_def onR_def del: bindM_Inr)
qed

lemma post_l4_live:
  assumes "live_link B pk" and q: "prompt_replies B [level4_wire]" and s: "v1_at l 0 s"
    and "kem_laws C" "kem_keypair C seed = (pk, sk)" "encapsulate C r pk = (ct, ss)"
  shows "\<exists>t. post_l4_exchange B C r s = (Inr level4_info, t)"
proof -
  note k = kem_lawsD [OF assms(4-6)]
  obtain sq where sq: "encode_sec_query = Inr sq"
    by (simp add: encode_sec_query_def encode_v1_frame_def v1_validate_payload_def v1_payload_sizes_def)
  obtain u where "v1_does (onR (runC (start_notify B))) l 0 s () 0 u" using at_start [OF assms(1) s] by blast
  note u = v1_doesE [OF this]
  obtain v where "v1_does (onR (runC (read_fragmented_public_key B))) l 0 u pk 0 v" using at_read [OF assms(1)] u by fastforce
  note v = v1_doesE [OF this]
  let ?v = "v\<lparr> vr_result := (vr_result v)\<lparr> c1_public_key_len := length pk \<rparr>,
    vr_runner := wipe_buf ''shared_secret'' (set_buf ''shared_secret'' ss (vr_runner v)) \<rparr>"
  have "v1_at l 0 ?v" using v by (simp add: v1_at_def wipe_buf_def)
  then obtain ws w where "v1_does (onR (runC (write_fragmented_ciphertext B ct))) l 0 ?v (length (ws :: bytes list)) 0 w"
    using at_ciphertext [OF assms(1) _ k(2)] by blast
  note w = v1_doesE [OF this]
  let ?w = "w\<lparr> vr_result := (vr_result w)\<lparr> c1_ciphertext_fragments := length ws \<rparr> \<rparr>"
  obtain x where "v1_does (onR (runC (send_control B sq))) l 0 ?w () 0 x" using at_control [OF assms(1), of l 0 ?w] w by auto
  note x = v1_doesE [OF this]
  obtain y where "v1_does (onR (take_notification B (ProtocolError ''timed out waiting for SEC_INFO''))) l 0 x level4_wire 1 y"
    using at_take [OF q, of l 0 x] x by auto
  note y = v1_doesE [OF this]
  obtain z where z: "quiet_window B ''unexpected extra notification after SEC_INFO'' y = (Inr (), z)"
    using at_quiet [OF q, of l 1 y pk] y assms(1) by fastforce
  have "parse_v1_frame level4_wire = Inr \<lparr> v1_subtype = V1_SEC_INFO, v1_payload = [4, 7, 16, 16] \<rparr>"
    by (simp add: level4_wire_def parse_v1_wire v1_valid_iff)
  then have att: "cp1_attestation level4_wire = Inr level4_info"
    using level4_wire_parses by (simp add: cp1_attestation_def value_error_to_protocol_def)
  have set: "onR (setM f) y = (Inr (), y\<lparr> vr_runner := f (vr_runner y) \<rparr>)" for f and y :: "'a v1_cp1_result_scheme v1_run"
    by (simp add: onR_def)
  show ?thesis
    using u v w x y z k(1)
    by (simp add: att sq assms(6) level4_wire_parses post_l4_exchange_def seqM_def bindM_def needM_apply set set_result_apply del: bindM_Inr)
qed

text \<open>A run over an existing bond returns when its exchange does, and then leaves the client as the exchange did.\<close>

lemma run_v1_over_bond:
  assumes "live_link B pk" and s: "bc_client (rn_client (vr_runner s)) = Some l"
    and "\<And>ops. pb_inspect_pairing P ops (vr_pairing s) = (Inr st, p')" "ps_is_paired st"
    and ex: "\<And>u. bc_client (rn_client (vr_runner u)) = Some l \<Longrightarrow> rn_taken (vr_runner u) = rn_taken (vr_runner s)
      \<Longrightarrow> bc_ops (rn_client (vr_runner u)) = bc_ops (rn_client (vr_runner s)) @ [SystemPairing]
      \<Longrightarrow> same_objects (rn_client (vr_runner s)) (rn_client (vr_runner u)) \<Longrightarrow> \<exists>t. exchange u = (Inr info, t) \<and> Q (rn_client (vr_runner t))"
  shows "\<exists>res t. run_v1 B P rt None False exchange retain s = (Inr res, t) \<and> (retain \<longrightarrow> Q (rn_client (vr_runner t)))"
proof -
  have con: "require_client B (vr_runner s) = (Inr (), vr_runner s)"
    using live_connected [OF assms(1)] s(1) by (simp add: require_client_def)
  let ?u = "s\<lparr> vr_runner := (vr_runner s)\<lparr> rn_client := (rn_client (vr_runner s))\<lparr> bc_v1_security_test := True \<rparr> \<rparr> \<rparr>"
  let ?v = "?u\<lparr> vr_runner := log_op SystemPairing (vr_runner ?u), vr_pairing := p' \<rparr>"
  have u: "onR (runC (setM (\<lambda>c. c\<lparr> bc_v1_security_test := True \<rparr>))) s = (Inr (), ?u)" by (simp add: onR_def runC_def)
  have b: "v1_bond_state B P False ?u = (Inr st, ?v)"
    using assms(3) by (simp add: v1_bond_state_def bindM_def onP_def Let_def)
  obtain w where w: "v1_secure_link B P None st (?v\<lparr> vr_result := rt ''bonded'' \<lparr> si_level = 0, si_secure_connections = False,
      si_authenticated = False, si_gate_open = False, si_enc_key_size = 0, si_profile = 0 \<rparr> \<rparr>) = (Inr (), w)"
      "bc_client (rn_client (vr_runner w)) = Some l" "rn_taken (vr_runner w) = rn_taken (vr_runner s)"
      "bc_ops (rn_client (vr_runner w)) = bc_ops (rn_client (vr_runner s)) @ [SystemPairing]"
      "same_objects (rn_client (vr_runner s)) (rn_client (vr_runner w))"
    using assms(4) s by (simp add: same_objects_def v1_secure_link_def seqM_def bindM_def needM_apply set_result_apply log_op_def)
  obtain t where t: "exchange w = (Inr info, t)" "Q (rn_client (vr_runner t))" using ex [OF w(2-5)] by blast
  then have "\<exists>t. v1_post_l4 B True exchange retain w = (Inr (), t) \<and> (retain \<longrightarrow> Q (rn_client (vr_runner t)))"
    by (simp add: v1_post_l4_def bindM_def catchM_def set_result_apply)
  then show ?thesis
    using u b w(1) assms(4) con
    by (auto simp: run_v1_def seqM_def bindM_def needM_apply onR_def [of "require_client B"] set_result_apply simp del: bindM_Inr)
qed

lemma run_v1_bonded:
  assumes "live_link B pk" and s: "bc_client (rn_client (vr_runner s)) = Some l" "rn_taken (vr_runner s) = 0"
    "awaits (bc_ops (rn_client (vr_runner s))) = 0"
    and "\<And>ops. pb_inspect_pairing P ops (vr_pairing s) = (Inr st, p')" "ps_is_paired st"
    and ex: "\<And>u. v1_at l 0 u \<Longrightarrow> \<exists>t. exchange u = (Inr info, t)"
  shows "\<exists>res t. run_v1 B P rt None False exchange retain s = (Inr res, t)"
proof -
  have "\<exists>t. exchange u = (Inr info, t) \<and> True"
    if "bc_client (rn_client (vr_runner u)) = Some l" "rn_taken (vr_runner u) = rn_taken (vr_runner s)"
      "bc_ops (rn_client (vr_runner u)) = bc_ops (rn_client (vr_runner s)) @ [SystemPairing]" for u
    using ex [of u] s that by (simp add: v1_at_def)
  then show ?thesis using run_v1_over_bond [where Q = "\<lambda>_. True", OF assms(1) s(1) assms(5,6)] by blast
qed

lemma v1_cp2_bonded_run:
  assumes "live_link B pk" "prompt_replies B [level4_wire, level4_wire, frame_wire V1_FRAME_MAGIC 16 V1_READY d]"
    and "bc_client c = Some l" "awaits (bc_ops c) = 0" "inspect_pairing W p = (Inr st, p')" "ps_is_paired st"
    and "kem_laws C" "kem_keypair C seed = (pk, sk)" "encapsulate C r pk = (ct, ss)"
    and "length sid = V1_CP2_SESSION_ID_SIZE" and "cp2_compute_diagnostic (kem_decap C sk ct) sid pk ct = Inr d"
  shows "\<exists>res t. run_v1_cp2 B (winrt_backend W T timeout) C r sid None False (new_v1_run c p res0) = (Inr res, t)"
  unfolding run_v1_cp2_def using assms
  by simp (rule run_v1_bonded [where st = st and p' = p' and info = level4_info and l = l]; fastforce intro: cp2_exchange_live simp: new_v1_run_def new_runner_def)

lemma v1_cp1_bonded_run:
  assumes "live_link B pk" "prompt_replies B [level4_wire]"
    and "bc_client c = Some l" "awaits (bc_ops c) = 0" "inspect_pairing W p = (Inr st, p')" "ps_is_paired st"
    and "kem_laws C" "kem_keypair C seed = (pk, sk)" "encapsulate C r pk = (ct, ss)"
  shows "\<exists>res t. run_v1_cp1 B (winrt_backend W T timeout) C r None False (new_v1_run c p res0) = (Inr res, t)"
  unfolding run_v1_cp1_def using assms
  by - (rule run_v1_bonded [where st = st and p' = p' and info = level4_info and l = l]; fastforce intro: post_l4_live simp: new_v1_run_def new_runner_def)

section \<open>Properties\<close>

text \<open>
  A CP1 run that returns had a link the DK attests as authenticated Level 4, and either Windows
  already held a bond or all four PQ operations were denied for a security reason first, and the Numeric
  Comparison that followed was confirmed by the human for the six digits shown. A negative test never
  returns.
\<close>

theorem v1_cp1_run_sound:
  assumes "run_v1_cp1 B (winrt_backend W T timeout) C r neg unpair_first s = (Inr res, t)"
  shows "neg = None \<and> is_authenticated_level4 (c1_security_info res)
    \<and> (\<exists>k raw. received B k raw \<and> cp1_attestation raw = Inr (c1_security_info res))
    \<and> (c1_scenario res = ''bonded'' \<or> c1_scenario res = ''cold'' \<and> v1_consented T res)"
  using run_v1_cp1_Inr [OF assms] v1_cold_start_consented by blast

text \<open>Concrete runs: a peer that answers when asked, and Windows holding the bond.\<close>

definition demo_prompt :: "bytes list \<Rightarrow> bleak" where
  "demo_prompt q = (demo_link [])\<lparr> bl_queue := (\<lambda>ops. take (awaits ops) q) \<rparr>"

lemma demo_prompt_link: "live_link (demo_prompt q) (replicate 1184 3)" "prompt_replies (demo_prompt q) q"
  using demo_link_live [of "[]"] by (simp_all add: demo_prompt_def live_link_def prompt_replies_def)

definition demo_bonded :: pairing_client where
  "demo_bonded = \<lparr> pc_device_id = Some ''ble-device'', pc_lookups = 1, pc_calls = [] \<rparr>"

lemma demo_bonded_inspect: "\<exists>st p'. inspect_pairing demo_winrt demo_bonded = (Inr st, p') \<and> ps_is_paired st"
  by (simp add: inspect_pairing_def device_information_def demo_winrt_def demo_bonded_def seqM_def bindM_def Let_def)

lemma demo_client_quiet: "awaits (bc_ops demo_client) = 0"
  by (simp add: demo_client_def BLECentralClient_init_def)

theorem v1_cp1_run_sound_witness:
  "\<exists>res t. run_v1_cp1 (demo_prompt [level4_wire]) (winrt_backend demo_winrt demo_attempt 90) demo_crypto 5 None False
       (new_v1_run demo_client demo_bonded (V1CP1Result [] level4_info)) = (Inr res, t)
     \<and> is_authenticated_level4 (c1_security_info res)"
proof -
  obtain st p' where p: "inspect_pairing demo_winrt demo_bonded = (Inr st, p')" "ps_is_paired st" using demo_bonded_inspect by blast
  obtain ct ss where enc: "encapsulate demo_crypto 5 (replicate 1184 3) = (ct, ss)" by fastforce
  obtain res t where r: "run_v1_cp1 (demo_prompt [level4_wire]) (winrt_backend demo_winrt demo_attempt 90) demo_crypto 5 None False
      (new_v1_run demo_client demo_bonded (V1CP1Result [] level4_info)) = (Inr res, t)"
    using v1_cp1_bonded_run [OF demo_prompt_link demo_client_on demo_client_quiet p demo_kem_laws demo_keypair enc] by blast
  then show ?thesis using v1_cp1_run_sound [OF r] by blast
qed

text \<open>
  A CP2 run that returns had the strict attestation and the same pairing evidence, and the DK answered
  START\_V1 with the diagnostic of the secret encapsulated in this run, bound to the session id, the
  public key and the ciphertext.
\<close>

theorem v1_cp2_run_sound:
  assumes "run_v1_cp2 B (winrt_backend W T timeout) C r sid neg unpair_first s = (Inr res, t)"
  shows "neg = None \<and> is_authenticated_level4 (c1_security_info res) \<and> c2_diagnostic_match res \<and> cp2_ready_ok B C r sid
    \<and> (c1_scenario res = ''bonded'' \<or> c1_scenario res = ''cold'' \<and> v1_consented T res)"
  using run_v1_cp2_Inr [OF assms] v1_cold_start_consented by blast

lemma demo_cp2:
  obtains ct ss d sid where "encapsulate demo_crypto 5 (replicate 1184 3) = (ct, ss)" "length sid = V1_CP2_SESSION_ID_SIZE"
    and "cp2_compute_diagnostic (kem_decap demo_crypto (replicate 2400 3) ct) sid (replicate 1184 3) ct = Inr d"
proof -
  obtain ct ss where enc: "encapsulate demo_crypto 5 (replicate 1184 3) = (ct, ss)" by fastforce
  note k = kem_lawsD [OF demo_kem_laws demo_keypair enc]
  then have "\<exists>d. cp2_compute_diagnostic (kem_decap demo_crypto (replicate 2400 3) ct) (replicate 16 1) (replicate 1184 3) ct = Inr d"
    by (simp add: cp2_compute_diagnostic_def)
  then show ?thesis using that [OF enc, of "replicate 16 1"] by auto
qed

theorem v1_cp2_run_sound_witness:
  "\<exists>B sid res t. run_v1_cp2 B (winrt_backend demo_winrt demo_attempt 90) demo_crypto 5 sid None False
       (new_v1_run demo_client demo_bonded (V1CP2Result [] level4_info)) = (Inr res, t) \<and> c2_diagnostic_match res"
proof -
  obtain st p' where p: "inspect_pairing demo_winrt demo_bonded = (Inr st, p')" "ps_is_paired st" using demo_bonded_inspect by blast
  obtain ct ss d sid where d: "encapsulate demo_crypto 5 (replicate 1184 3) = (ct, ss)" "length sid = V1_CP2_SESSION_ID_SIZE"
    "cp2_compute_diagnostic (kem_decap demo_crypto (replicate 2400 3) ct) sid (replicate 1184 3) ct = Inr d" by (rule demo_cp2)
  obtain B res t where r: "run_v1_cp2 B (winrt_backend demo_winrt demo_attempt 90) demo_crypto 5 sid None False
      (new_v1_run demo_client demo_bonded (V1CP2Result [] level4_info)) = (Inr res, t)"
    using v1_cp2_bonded_run [OF demo_prompt_link demo_client_on demo_client_quiet p demo_kem_laws demo_keypair d] by blast
  then show ?thesis using v1_cp2_run_sound [OF r] by blast
qed

text \<open>
  Nothing secret moves before the link is attested, whatever the peer does: until a SEC\_INFO
  with strict Level 4 has come in, the CP2 exchange neither reads the public key nor writes a ciphertext
  fragment, and its only control write is the query; and START\_V1 waits for a second such SEC\_INFO.
\<close>

theorem v1_cp2_attests_first:
  "(\<exists>new. bc_ops (rn_client (vr_runner (snd (cp2_exchange B C r sid s)))) = bc_ops (rn_client (vr_runner s)) @ new
      \<and> (list_all before_attest new \<or> attested B (rn_taken (vr_runner s)))
      \<and> (list_all before_start new \<or> attested B (rn_taken (vr_runner s)) \<and> attested B (Suc (rn_taken (vr_runner s)))))"
proof -
  obtain new where new: "bc_ops (rn_client (vr_runner (snd (cp2_exchange B C r sid s)))) = bc_ops (rn_client (vr_runner s)) @ new"
    using cp2_within_any [of s B C r sid] by (auto simp: v1_within_def ops_within_def)
  then have "v1_within P s (snd (cp2_exchange B C r sid s)) \<longleftrightarrow> list_all P new" for P
    by (simp add: v1_within_def ops_within_def list_all_iff)
  then show ?thesis using cp2_gated [of s B C r sid] new by metis
qed

text \<open>
  However a CP2 run ends (an error of pairing, of the probes, of the link or of the exchange, or a
  result), the shared secret and the expected diagnostic are zero.
\<close>

theorem v1_cp2_run_wipes:
  "list_all (\<lambda>n. wiped (rn_buf (vr_runner (snd (run_v1_cp2 B P C r sid neg unpair_first (new_v1_run c p res)))) n)) cp2_sensitive"
proof -
  have "keeps_wiped cp2_sensitive s (snd (run_v1 B P V1CP2Result None unpair_first (cp2_exchange B C r sid) False s))" for s
    by (rule wiped_run.kept_run) (simp add: keeps_wiped_def cp2_exchange_wipes)
  then have "keeps_wiped cp2_sensitive s (snd (run_v1_cp2 B P C r sid neg unpair_first s))" for s
    by (simp add: run_v1_cp2_def wiping.kept_refl)
  moreover have "list_all (\<lambda>n. wiped (rn_buf (vr_runner (new_v1_run c p res)) n)) cp2_sensitive"
    by (simp add: new_v1_run_def new_runner_def cp2_sensitive_def)
  ultimately show ?thesis by (simp add: keeps_wiped_def)
qed

text \<open>
  With a bond, a live link and an honest DK, a CP2 run returns: the DK attests Level 4 twice,
  decapsulates, and answers START\_V1 with its diagnostic.
\<close>

theorem v1_cp2_end_to_end:
  assumes "live_link B pk" "prompt_replies B [level4_wire, level4_wire, frame_wire V1_FRAME_MAGIC 16 V1_READY d]"
    and "bc_client c = Some l" "awaits (bc_ops c) = 0" "inspect_pairing W p = (Inr st, p')" "ps_is_paired st"
    and "kem_laws C" "kem_keypair C seed = (pk, sk)" "encapsulate C r pk = (ct, ss)"
    and "length sid = V1_CP2_SESSION_ID_SIZE" and "cp2_compute_diagnostic (kem_decap C sk ct) sid pk ct = Inr d"
  shows "\<exists>res t. run_v1_cp2 B (winrt_backend W T timeout) C r sid None False (new_v1_run c p res0) = (Inr res, t)"
  using assms by (rule v1_cp2_bonded_run)

theorem v1_cp2_end_to_end_witness:
  "\<exists>B sid res t. run_v1_cp2 B (winrt_backend demo_winrt demo_attempt 90) demo_crypto 5 sid None False
       (new_v1_run demo_client demo_bonded (V1CP2Result [] level4_info)) = (Inr res, t)"
proof -
  obtain st p' where p: "inspect_pairing demo_winrt demo_bonded = (Inr st, p')" "ps_is_paired st" using demo_bonded_inspect by blast
  obtain ct ss d sid where d: "encapsulate demo_crypto 5 (replicate 1184 3) = (ct, ss)" "length sid = V1_CP2_SESSION_ID_SIZE"
    "cp2_compute_diagnostic (kem_decap demo_crypto (replicate 2400 3) ct) sid (replicate 1184 3) ct = Inr d" by (rule demo_cp2)
  show ?thesis
    using v1_cp2_end_to_end [OF demo_prompt_link demo_client_on demo_client_quiet p demo_kem_laws demo_keypair d] by blast
qed

end
