(* ===== verification/V1_Cp3_Runner.thy ===== *)
theory V1_Cp3_Runner
  imports V1_Runner
begin

text \<open>
  \<open>src/central/v1_cp3.py\<close>: the exchange that runs the CP3 handshake over an attested link, with the
  callbacks that may run while it waits (disconnection, notifications, the guard task, the absolute
  timeout), and the rules by which the session object is closed.
\<close>

section \<open>The session object and the callbacks\<close>

record v1_cp3_result = v1_cp1_result +
  c3_start_sent :: bool
  c3_transcript_match :: bool
  c3_finished_c_sent :: bool
  c3_finished_p_verified :: bool
  c3_app_secure :: bool

definition V1CP3Result :: "string \<Rightarrow> v1_security_info \<Rightarrow> v1_cp3_result" where
  "V1CP3Result scenario info = v1_cp1_result.extend (V1CP1Result scenario info)
     \<lparr> c3_start_sent = False, c3_transcript_match = False, c3_finished_c_sent = False,
       c3_finished_p_verified = False, c3_app_secure = False \<rparr>"

text \<open>
  The exchange keeps a reference to its session object; the client owns it in \<open>_v1_cp3_session\<close> until it
  clears it, and then it is the one retired last.
\<close>

definition cp3_get :: "ble_client \<Rightarrow> cp3" where
  "cp3_get c = (case bc_v1_cp3_session c of
     Some (V1Handshake h) \<Rightarrow> h
   | _ \<Rightarrow> (case bc_retired_sessions c of V1Handshake h # _ \<Rightarrow> h | _ \<Rightarrow> cp3_clear cp3_init))"

definition cp3_put :: "cp3 \<Rightarrow> ble_client \<Rightarrow> ble_client" where
  "cp3_put h c = (case bc_v1_cp3_session c of
     Some _ \<Rightarrow> c\<lparr> bc_v1_cp3_session := Some (V1Handshake h) \<rparr>
   | None \<Rightarrow> (case bc_retired_sessions c of _ # hs \<Rightarrow> c\<lparr> bc_retired_sessions := V1Handshake h # hs \<rparr> | [] \<Rightarrow> c))"

text \<open>
  What the event loop does while the exchange awaits an operation, as functions of the operations so far:
  whether the disconnect callback has run, and what ended the wait from outside.
\<close>

datatype cp3_stop = GuardFired | DeadlinePassed

record cp3_env =
  ev_lost :: "gatt_op list \<Rightarrow> bool"
  ev_stop :: "gatt_op list \<Rightarrow> cp3_stop option"

definition v1_linked :: "bleak \<Rightarrow> nat option \<Rightarrow> ble_client \<Rightarrow> bool" where
  "v1_linked B link c \<longleftrightarrow> link \<noteq> None \<and> client_is_connected B c \<and> bc_client c = link
     \<and> h3_state (cp3_get c) \<noteq> HS_CLOSED"

definition deliver_notification :: "bleak \<Rightarrow> nat option \<Rightarrow> ble_client \<Rightarrow> ble_client" where
  "deliver_notification B link c =
     (if h3_state (cp3_get c) = HS_APP_SECURE \<or> bc_client c \<noteq> link \<or> \<not> client_is_connected B c
      then cp3_put (cp3_clear (cp3_get c)) c else c)"

definition arrivals :: "bleak \<Rightarrow> gatt_op list \<Rightarrow> gatt_op list \<Rightarrow> bytes list" where
  "arrivals B ops ops' = drop (length (bl_queue B ops)) (bl_queue B ops')"

definition lost_callback :: "cp3_env \<Rightarrow> nat option \<Rightarrow> ble_client \<Rightarrow> ble_client" where
  "lost_callback E link c =
     (if ev_lost E (bc_ops c) then (case link of Some l \<Rightarrow> client_on_disconnect l c | None \<Rightarrow> c) else c)"

definition cp3_callbacks :: "bleak \<Rightarrow> cp3_env \<Rightarrow> nat option \<Rightarrow> gatt_op list \<Rightarrow> ble_client \<Rightarrow> ble_client" where
  "cp3_callbacks B E link ops c =
     lost_callback E link (foldl (\<lambda>c _. deliver_notification B link c) c (arrivals B ops (bc_ops c)))"

text \<open>The guard task cancels the exchange only if it finds the link unusable; the timeout cancels it anyway.\<close>

definition stopped :: "bleak \<Rightarrow> cp3_env \<Rightarrow> nat option \<Rightarrow> ble_client \<Rightarrow> exn option" where
  "stopped B E link c =
     (case ev_stop E (bc_ops c) of
        None \<Rightarrow> None
      | Some DeadlinePassed \<Rightarrow> Some TimeoutError
      | Some GuardFired \<Rightarrow> if v1_linked B link c then None else Some (ProtocolError ''CP3 connection lost or replaced''))"

definition upd_client :: "(ble_client \<Rightarrow> ble_client) \<Rightarrow> 'r v1_run \<Rightarrow> 'r v1_run" where
  "upd_client f s = s\<lparr> vr_runner := (vr_runner s)\<lparr> rn_client := f (rn_client (vr_runner s)) \<rparr> \<rparr>"

text \<open>
  \<open>await m\<close>: if \<open>m\<close> really waited, the callbacks run, and the wait may have been cancelled.
\<close>

definition await3 :: "bleak \<Rightarrow> cp3_env \<Rightarrow> nat option \<Rightarrow> ('r v1_run, 'a) meth \<Rightarrow> ('r v1_run, 'a) meth" where
  "await3 B E link m s =
     (let (r, t) = m s; ops = bc_ops (rn_client (vr_runner s))
      in if bc_ops (rn_client (vr_runner t)) = ops then (r, t)
         else let t = upd_client (cp3_callbacks B E link ops) t
              in case stopped B E link (rn_client (vr_runner t)) of None \<Rightarrow> (r, t) | Some e \<Rightarrow> (Inl e, t))"

text \<open>A method of the session object, and \<open>require_same_link\<close>.\<close>

definition onS :: "(cp3, 'a) meth \<Rightarrow> ('r v1_run, 'a) meth" where
  "onS m s = (let (r, h) = m (cp3_get (rn_client (vr_runner s))) in (r, upd_client (cp3_put h) s))"

definition cp3_link :: "bleak \<Rightarrow> nat option \<Rightarrow> ('r v1_run, unit) meth" where
  "cp3_link B link = onR (readM (\<lambda>s. requireR (v1_linked B link (rn_client s))
     (ProtocolError ''CP3 connection lost or replaced; refusing to continue'')))"

section \<open>The exchange\<close>

definition cp3_receive :: "bleak \<Rightarrow> cp3_env \<Rightarrow> nat option \<Rightarrow> int \<Rightarrow> string \<Rightarrow> ('r v1_run, bytes) meth" where
  "cp3_receive B E link subtype name =
     seqM (cp3_link B link) (
     bindM (await3 B E link (onR (take_notification B (ProtocolError (''CP3 timed out waiting for '' @ name))))) (\<lambda>raw.
     seqM (cp3_link B link) (
     bindM (liftR (parse_v1_frame raw)) (\<lambda>frame.
     seqM (needM (v1_subtype frame \<noteq> V1_ERROR) (ProtocolError ''DK CP3 ERROR'')) (
     seqM (needM (v1_subtype frame = subtype) (ProtocolError (''CP3 expected '' @ name))) (
     retM raw))))))"

definition cp3_attest :: "bleak \<Rightarrow> cp3_env \<Rightarrow> nat option \<Rightarrow> ('r v1_run, bytes \<times> v1_security_info) meth" where
  "cp3_attest B E link =
     seqM (cp3_link B link) (
     seqM (require_empty B ''unsolicited CP3 notification before SEC_QUERY'') (
     bindM (liftR encode_sec_query) (\<lambda>query.
     seqM (await3 B E link (onR (runC (send_control B query)))) (
     bindM (cp3_receive B E link V1_SEC_INFO ''SEC_INFO'') (\<lambda>raw.
     bindM (liftR (parse_sec_info raw)) (\<lambda>info.
     seqM (needM (is_authenticated_level4 info) (ProtocolError ''CP3 requires strict Level 4'')) (
     retM (raw, info))))))))"

text \<open>Public key, encapsulation and ciphertext; the result is the key and the ciphertext.\<close>

definition cp3_submit ::
  "bleak \<Rightarrow> cp3_env \<Rightarrow> third_party \<Rightarrow> nat \<Rightarrow> nat option \<Rightarrow> ('z v1_cp3_result_scheme v1_run, bytes \<times> bytes) meth" where
  "cp3_submit B E C r link =
     bindM (await3 B E link (onR (runC (read_fragmented_public_key B)))) (\<lambda>pk.
     seqM (cp3_link B link) (
     seqM (needM (length pk = PK_SIZE) (ProtocolError ''ML-KEM public key must be 1184 bytes'')) (
     seqM (set_result (\<lambda>u. u\<lparr> c1_public_key_len := length pk \<rparr>)) (
     let (ct, raw_secret) = encapsulate C r pk
     in seqM (onR (setM (set_buf ''secret'' raw_secret))) (
     seqM (needM (length ct = CT_SIZE \<and> length raw_secret = SS_SIZE)
             (ProtocolError ''invalid ML-KEM-768 ciphertext/shared-secret size'')) (
     seqM (cp3_link B link) (
     bindM (await3 B E link (onR (runC (write_fragmented_ciphertext B ct)))) (\<lambda>fragments.
     seqM (set_result (\<lambda>u. u\<lparr> c1_ciphertext_fragments := fragments \<rparr>)) (
     seqM (cp3_link B link) (
     retM (pk, ct)))))))))))"

text \<open>A frame is sent: nothing may have come in before it, and the link must still be there after.\<close>

definition cp3_send :: "bleak \<Rightarrow> cp3_env \<Rightarrow> nat option \<Rightarrow> string \<Rightarrow> bytes \<Rightarrow> ('r v1_run, unit) meth" where
  "cp3_send B E link name frame =
     seqM (await3 B E link sleepM) (
     seqM (cp3_link B link) (
     seqM (require_empty B (''unsolicited CP3 notification before '' @ name)) (
     seqM (await3 B E link (onR (runC (send_control B frame)))) (
     cp3_link B link))))"

definition cp3_handshake ::
  "bleak \<Rightarrow> cp3_env \<Rightarrow> bytes \<Rightarrow> nat option \<Rightarrow> bytes \<Rightarrow> bytes \<times> bytes \<Rightarrow> ('z v1_cp3_result_scheme v1_run, unit) meth" where
  "cp3_handshake B E session_id link sec = (\<lambda>(pk, ct).
     bindM (liftR (encode_v1_frame V1_START_CP3 session_id)) (\<lambda>start.
     bindM (readM (\<lambda>s. Inr (rn_buf (vr_runner s) ''secret''))) (\<lambda>secret.
     seqM (onS (cp3_begin secret sec pk ct start)) (
     seqM (cp3_send B E link ''START_CP3'' start) (
     seqM (set_result (\<lambda>u. u\<lparr> c3_start_sent := True \<rparr>)) (
     bindM (cp3_receive B E link V1_READY_CP3 ''READY_CP3'') (\<lambda>ready.
     bindM (onS (cp3_accept_ready ready)) (\<lambda>finished_c.
     seqM (set_result (\<lambda>u. u\<lparr> c3_transcript_match := True \<rparr>)) (
     seqM (cp3_send B E link ''FINISHED_C'' finished_c) (
     seqM (set_result (\<lambda>u. u\<lparr> c3_finished_c_sent := True \<rparr>)) (
     bindM (cp3_receive B E link V1_FINISHED_P ''FINISHED_P'') (\<lambda>finished_p.
     onS (cp3_accept_finished_p finished_p)))))))))))))"

definition cp3_quiet :: "bleak \<Rightarrow> cp3_env \<Rightarrow> nat option \<Rightarrow> ('z v1_cp3_result_scheme v1_run, unit) meth" where
  "cp3_quiet B E link =
     seqM (onR (setM (wipe_buf ''secret''))) (
     seqM (await3 B E link (quiet_window B ''unexpected extra notification after FINISHED_P'')) (
     seqM (cp3_link B link) (
     set_result (\<lambda>u. u\<lparr> c3_finished_p_verified := True, c3_app_secure := True \<rparr>))))"

text \<open>\<open>application_exchange\<close> is \<open>None\<close> for CP3; it gets the link that \<open>require_same_link\<close> compares with.\<close>

definition cp3_body ::
  "bleak \<Rightarrow> cp3_env \<Rightarrow> third_party \<Rightarrow> nat \<Rightarrow> bytes \<Rightarrow> nat option
     \<Rightarrow> (nat option \<Rightarrow> ('z v1_cp3_result_scheme v1_run, unit) meth) option
     \<Rightarrow> ('z v1_cp3_result_scheme v1_run, v1_security_info) meth" where
  "cp3_body B E C r session_id link application_exchange =
     seqM (cp3_link B link) (
     seqM (await3 B E link (onR (runC (start_notify B)))) (
     bindM (cp3_attest B E link) (\<lambda>_.
     bindM (cp3_submit B E C r link) (\<lambda>keys.
     bindM (cp3_attest B E link) (\<lambda>(sec, info).
     seqM (cp3_handshake B E session_id link sec keys) (
     seqM (cp3_quiet B E link) (
     seqM (case application_exchange of None \<Rightarrow> retM () | Some app \<Rightarrow> seqM (app link) (cp3_link B link)) (
     retM info))))))))"

text \<open>Clearing the session object, where it is.\<close>

definition close_session :: "'r v1_run \<Rightarrow> 'r v1_run" where
  "close_session = upd_client (\<lambda>c. cp3_put (cp3_clear (cp3_get c)) c)"

definition cp3_exchange_in ::
  "bleak \<Rightarrow> cp3_env \<Rightarrow> third_party \<Rightarrow> nat \<Rightarrow> bytes
     \<Rightarrow> (nat option \<Rightarrow> ('z v1_cp3_result_scheme v1_run, unit) meth) option
     \<Rightarrow> ('z v1_cp3_result_scheme v1_run, v1_security_info) meth" where
  "cp3_exchange_in B E C r session_id application_exchange =
     bindM (onR (readM (\<lambda>s. Inr (bc_client (rn_client s))))) (\<lambda>link.
     seqM (onR (readM (\<lambda>s. requireR (bc_v1_cp3_session (rn_client s) = None)
             (ProtocolError ''CP3 transaction already exists; reconnect first'')))) (
     seqM (setM (upd_client (\<lambda>c. c\<lparr> bc_v1_cp3_session := Some (V1Handshake cp3_init), bc_v1_cp3_link := link \<rparr>))) (
     finallyM (onerr close_session (cp3_body B E C r session_id link application_exchange))
       (onR (setM (wipe_buf ''secret''))))))"

text \<open>The absolute timeout; \<open>TimeoutError\<close> becomes a \<open>V1Error\<close>.\<close>

definition cp3_exchange ::
  "bleak \<Rightarrow> cp3_env \<Rightarrow> third_party \<Rightarrow> nat \<Rightarrow> bytes
     \<Rightarrow> (nat option \<Rightarrow> ('z v1_cp3_result_scheme v1_run, unit) meth) option
     \<Rightarrow> ('z v1_cp3_result_scheme v1_run, v1_security_info) meth" where
  "cp3_exchange B E C r session_id application_exchange =
     catchM (\<lambda>e. e = TimeoutError) (\<lambda>_. liftR (Inl (ProtocolError ''CP3 absolute handshake timeout'')))
       (cp3_exchange_in B E C r session_id application_exchange)"

text \<open>\<open>session = getattr(client, "_v1_cp3_session", None)\<close>, cleared if there is one.\<close>

definition clear_owned_session :: "ble_client \<Rightarrow> ble_client" where
  "clear_owned_session c = (case bc_v1_cp3_session c of
     None \<Rightarrow> c | Some session \<Rightarrow> c\<lparr> bc_v1_cp3_session := Some (v1_session_clear session) \<rparr>)"

definition run_v1_cp3 ::
  "bleak \<Rightarrow> cp3_env \<Rightarrow> pairing_backend \<Rightarrow> third_party \<Rightarrow> nat \<Rightarrow> bytes \<Rightarrow> string option \<Rightarrow> bool
     \<Rightarrow> (v1_cp3_result v1_run, v1_cp3_result) meth" where
  "run_v1_cp3 B E P C r session_id negative_test unpair_first =
     (if negative_test \<noteq> None then liftR (Inl (ValueError ''CP1 negative modes cannot be combined with CP3''))
      else onerr (upd_client clear_owned_session)
             (run_v1 B P V1CP3Result None unpair_first (cp3_exchange B E C r session_id None) True))"

section \<open>Lemmas\<close>

text \<open>Closed handshake objects, and a client that has let go of closed ones only.\<close>

fun handshake_closed :: "v1_session \<Rightarrow> bool" where
  "handshake_closed (V1Handshake h) \<longleftrightarrow> cp3_closed h"
| "handshake_closed _ \<longleftrightarrow> True"

definition retired_closed :: "ble_client \<Rightarrow> bool" where
  "retired_closed c \<longleftrightarrow> list_all handshake_closed (bc_retired_sessions c)"

text \<open>The session object after a wait is the one before it, or closed.\<close>

definition session_only_closes :: "ble_client \<Rightarrow> ble_client \<Rightarrow> bool" where
  "session_only_closes c d \<longleftrightarrow> (retired_closed c \<longrightarrow> retired_closed d
     \<and> (cp3_get d = cp3_get c \<or> h3_state (cp3_get d) = HS_CLOSED))"

lemma session_only_closes_refl: "session_only_closes c c"
  by (simp add: session_only_closes_def)

lemma session_only_closes_trans: "session_only_closes a b \<Longrightarrow> session_only_closes b c \<Longrightarrow> session_only_closes a c"
  by (auto simp: session_only_closes_def)

lemma handshake_closed_clear [simp]: "handshake_closed (v1_session_clear h)"
  by (cases h) simp_all

lemma cp3_clear_state [simp]: "h3_state (cp3_clear h) = HS_CLOSED"
  by (simp add: cp3_clear_def)

lemma same_sessions:
  assumes "bc_v1_cp3_session d = bc_v1_cp3_session c" "bc_retired_sessions d = bc_retired_sessions c"
  shows "session_only_closes c d"
  unfolding session_only_closes_def retired_closed_def cp3_get_def assms by simp

lemma cp3_get_closed: "retired_closed c \<Longrightarrow> bc_v1_cp3_session c = None \<Longrightarrow> h3_state (cp3_get c) = HS_CLOSED"
  by (auto simp: cp3_get_def retired_closed_def cp3_closed_def split: list.split v1_session.split)

lemma cp3_get_owned:
  assumes "retired_closed c" "h3_state (cp3_get c) \<noteq> HS_CLOSED"
  shows "bc_v1_cp3_session c = Some (V1Handshake (cp3_get c))"
  using assms by (auto simp: cp3_get_def retired_closed_def cp3_closed_def split: option.splits v1_session.splits list.splits)

lemma clear_v1_cp3_closes: "session_only_closes c (clear_v1_cp3 c)"
proof (cases "bc_v1_cp3_session c")
  case None
  then show ?thesis by (auto intro!: same_sessions simp: clear_v1_cp3_def Let_def split: option.split)
next
  case (Some h)
  have "bc_v1_cp3_session (clear_v1_cp3 c) = None"
    "bc_retired_sessions (clear_v1_cp3 c) = v1_session_clear h # bc_retired_sessions c"
    using Some by (auto simp: clear_v1_cp3_def Let_def split: option.split)
  then show ?thesis using cp3_get_closed [of "clear_v1_cp3 c"] by (simp add: session_only_closes_def retired_closed_def)
qed

lemma cp3_put_get:
  assumes "retired_closed c" "cp3_closed (cp3_get c) \<Longrightarrow> cp3_closed h" "bc_v1_cp3_session c = None \<longrightarrow> h3_state (cp3_get c) = HS_CLOSED \<longrightarrow> cp3_closed h"
  shows "retired_closed (cp3_put h c)"
  using assms cp3_get_closed [OF assms(1)]
  by (auto simp: cp3_put_def retired_closed_def split: option.splits list.splits)

lemma cp3_get_put: "bc_v1_cp3_session c \<noteq> None \<Longrightarrow> cp3_get (cp3_put h c) = h"
  by (auto simp: cp3_get_def cp3_put_def split: option.split)

lemma put_closed:
  assumes "cp3_closed h"
  shows "session_only_closes c (cp3_put h c)"
proof (cases "bc_v1_cp3_session c")
  case None
  then have "retired_closed c \<Longrightarrow> retired_closed (cp3_put h c)" "bc_v1_cp3_session (cp3_put h c) = None"
    using assms by (auto simp: cp3_put_def retired_closed_def split: list.split)
  then show ?thesis using cp3_get_closed by (auto simp: session_only_closes_def)
next
  case (Some x)
  then show ?thesis using assms cp3_get_put [of c h] by (auto simp: session_only_closes_def cp3_put_def retired_closed_def cp3_closed_def)
qed

lemma callbacks_close: "session_only_closes c (cp3_callbacks B E link ops c)"
proof -
  have "session_only_closes d (foldl (\<lambda>c _. deliver_notification B link c) d ns)" for d and ns :: "bytes list"
  proof (induction ns arbitrary: d)
    case (Cons n ns)
    have "session_only_closes d (deliver_notification B link d)"
      by (auto simp: deliver_notification_def intro: put_closed session_only_closes_refl)
    then show ?case using Cons.IH by (auto intro: session_only_closes_trans)
  qed (simp add: session_only_closes_refl)
  moreover have "session_only_closes d (lost_callback E link d)" for d
    by (auto simp: lost_callback_def client_on_disconnect_def client_on_v1_disconnect_def
        intro: clear_v1_cp3_closes session_only_closes_refl split: option.split)
  ultimately show ?thesis unfolding cp3_callbacks_def by (rule session_only_closes_trans)
qed

definition only_closes :: "'r v1_run \<Rightarrow> 'r v1_run \<Rightarrow> bool" where
  "only_closes s t \<longleftrightarrow> session_only_closes (rn_client (vr_runner s)) (rn_client (vr_runner t))"

interpretation closing: kept only_closes
  by unfold_locales (auto simp: only_closes_def intro: session_only_closes_refl session_only_closes_trans)

lemma only_closes_await: "only_closes s (snd (m s)) \<Longrightarrow> only_closes s (snd (await3 B E link m s))"
  using closing.kept_trans [of s "snd (m s)"] callbacks_close
  by (auto simp: await3_def Let_def case_prod_unfold only_closes_def upd_client_def split: option.split)

lemma only_closes_client:
  "(\<And>c. session_only_closes c (snd (m c))) \<Longrightarrow> only_closes s (snd (onR (runC m) s))"
  by (simp add: only_closes_def onR_def runC_def Let_def case_prod_unfold)

interpretation client_closing: kept session_only_closes
  by unfold_locales (auto intro: session_only_closes_refl session_only_closes_trans)

lemma call_closes: "session_only_closes c (snd (bleak_call B p c))"
  by (auto simp: bleak_call_def Let_def intro: same_sessions)

lemma client_calls_close:
  "session_only_closes c (snd (start_notify B c))" "session_only_closes c (snd (send_control B w c))"
  "session_only_closes c (snd (read_fragmented_public_key B c))" "session_only_closes c (snd (write_raw_ciphertext_fragment B w c))"
  "session_only_closes c (snd (write_fragmented_ciphertext B ct c))"
proof -
  have "session_only_closes c (snd (write_all B fs c))" for fs c
    by (induction fs arbitrary: c) (auto intro: client_closing.kept_intros call_closes session_only_closes_refl)
  moreover have "session_only_closes c (snd (setM (\<lambda>c. c\<lparr> bc_v1_notify_link := l c \<rparr>) c))" for c l by (auto intro: same_sessions)
  ultimately show "session_only_closes c (snd (start_notify B c))" "session_only_closes c (snd (send_control B w c))"
    "session_only_closes c (snd (read_fragmented_public_key B c))" "session_only_closes c (snd (write_raw_ciphertext_fragment B w c))"
    "session_only_closes c (snd (write_fragmented_ciphertext B ct c))"
    unfolding start_notify_def send_control_def read_fragmented_public_key_def write_raw_ciphertext_fragment_def
      write_fragmented_ciphertext_def require_connected_def
    by (intro client_closing.kept_intros call_closes; simp)+
qed

lemma only_closes_same:
  "rn_client (vr_runner (snd (m s))) = rn_client (vr_runner s) \<Longrightarrow> only_closes s (snd (m s))"
  by (simp add: only_closes_def session_only_closes_refl)

lemma only_closes_base:
  "only_closes s (snd (set_result k s))" "only_closes s (snd (require_empty B msg s))" "only_closes s (snd (cp3_link B link s))"
  "only_closes s (snd (onR (setM (set_buf b v)) s))" "only_closes s (snd (onR (setM (wipe_buf b)) s))"
  by (rule only_closes_same;
      simp add: set_result_def require_empty_def cp3_link_def onR_def set_buf_def wipe_buf_def)+

lemma only_closes_wait:
  "only_closes s (snd (onR (take_notification B e) s))" "only_closes s (snd (quiet_window B msg s))" "only_closes s (snd (sleepM s))"
  by (auto simp: only_closes_def onR_def take_notification_def quiet_window_def sleepM_def log_op_def Let_def
      intro: same_sessions)

lemmas only_closes_steps = closing.kept_intros only_closes_await only_closes_base only_closes_wait
  only_closes_client [OF client_calls_close(1)] only_closes_client [OF client_calls_close(2)]
  only_closes_client [OF client_calls_close(3)] only_closes_client [OF client_calls_close(5)]

lemma only_closes_stages:
  "only_closes s (snd (cp3_receive B E link ty name s))" "only_closes s (snd (cp3_attest B E link s))"
  "only_closes s (snd (cp3_send B E link name frame s))" "only_closes t (snd (cp3_quiet B E link t))"
  "only_closes t (snd (cp3_submit B E C r link t))"
  unfolding cp3_attest_def cp3_receive_def cp3_send_def cp3_quiet_def cp3_submit_def Let_def case_prod_unfold
  by (intro only_closes_steps)+

text \<open>A step that only closes, seen from a successful use of the session after it.\<close>

definition own_session :: "cp3 \<Rightarrow> 'r v1_run \<Rightarrow> bool" where
  "own_session h s \<longleftrightarrow> retired_closed (rn_client (vr_runner s)) \<and> cp3_get (rn_client (vr_runner s)) = h \<and> h3_state h \<noteq> HS_CLOSED"

lemma own_step:
  assumes "own_session h s" "only_closes s t" "h3_state (cp3_get (rn_client (vr_runner t))) \<noteq> HS_CLOSED"
  shows "own_session h t"
  using assms by (auto simp: own_session_def only_closes_def session_only_closes_def)

lemma own_session_owned: "own_session h s \<Longrightarrow> bc_v1_cp3_session (rn_client (vr_runner s)) = Some (V1Handshake h)"
  using cp3_get_owned [of "rn_client (vr_runner s)"] by (simp add: own_session_def)

lemma onS_Inr: "onS m s = (Inr x, t) \<longleftrightarrow> (\<exists>h. m (cp3_get (rn_client (vr_runner s))) = (Inr x, h) \<and> t = upd_client (cp3_put h) s)"
  by (auto simp: onS_def Let_def split: prod.splits)

lemma own_put: "own_session h s \<Longrightarrow> h3_state h' \<noteq> HS_CLOSED \<Longrightarrow> own_session h' (upd_client (cp3_put h') s)"
  using own_session_owned [of h s] cp3_get_put [of "rn_client (vr_runner s)" h']
  by (simp add: own_session_def upd_client_def retired_closed_def cp3_put_def)

lemma set_result_own [simp]: "own_session h (s\<lparr> vr_result := x \<rparr>) = own_session h s"
  by (simp add: own_session_def)

text \<open>A method that succeeds on an open object only.\<close>

lemma own_onS:
  assumes "own_session h s" "only_closes s u" "onS m u = (Inr x, t)"
    and "\<And>h h' y. m h = (Inr y, h') \<Longrightarrow> h3_state h \<noteq> HS_CLOSED \<and> h3_state h' \<noteq> HS_CLOSED"
  shows "\<exists>h'. m h = (Inr x, h') \<and> own_session h' t"
proof -
  obtain h' where h': "m (cp3_get (rn_client (vr_runner u))) = (Inr x, h')" "t = upd_client (cp3_put h') u"
    using assms(3) by (auto simp: onS_Inr)
  then have u: "own_session h u" using own_step [OF assms(1,2)] assms(4) by blast
  then have "m h = (Inr x, h')" using h'(1) by (simp add: own_session_def)
  then show ?thesis using own_put [OF u] assms(4) h'(2) by blast
qed

lemma cp3_methods_open:
  "cp3_begin ss sec pk ct start h = (Inr u, h') \<Longrightarrow> h3_state h \<noteq> HS_CLOSED \<and> h3_state h' \<noteq> HS_CLOSED"
  "cp3_accept_ready raw h = (Inr w, h') \<Longrightarrow> h3_state h \<noteq> HS_CLOSED \<and> h3_state h' \<noteq> HS_CLOSED"
  "cp3_accept_finished_p raw h = (Inr u, h') \<Longrightarrow> h3_state h \<noteq> HS_CLOSED \<and> h3_state h' = HS_APP_SECURE"
  by (auto simp: cp3_begin_Inr cp3_ready_Inr cp3_finished_Inr Let_def)

text \<open>The handshake part: the three methods succeed one after the other on one object.\<close>

definition cp3_completed :: "bytes \<Rightarrow> bytes \<Rightarrow> bytes \<Rightarrow> bytes \<Rightarrow> bytes \<Rightarrow> cp3 \<Rightarrow> bool" where
  "cp3_completed secret sec pk ct session_id h \<longleftrightarrow> (\<exists>start ready fin finp h1 h2. encode_v1_frame V1_START_CP3 session_id = Inr start
     \<and> cp3_begin secret sec pk ct start cp3_init = (Inr (), h1) \<and> cp3_accept_ready ready h1 = (Inr fin, h2)
     \<and> cp3_accept_finished_p finp h2 = (Inr (), h))"

lemma cp3_handshake_Inr:
  assumes "cp3_handshake B E sid link sec (pk, ct) s = (Inr (), t)" and "own_session cp3_init s0" "only_closes s0 s"
  shows "\<exists>h. cp3_completed (rn_buf (vr_runner s) ''secret'') sec pk ct sid h \<and> own_session h t \<and> h3_state h = HS_APP_SECURE"
proof -
  obtain start s1 s2 s3 ready fin s4 s5 s6 finp where st: "encode_v1_frame V1_START_CP3 sid = Inr start"
    "onS (cp3_begin (rn_buf (vr_runner s) ''secret'') sec pk ct start) s = (Inr (), s1)"
    "cp3_send B E link ''START_CP3'' start s1 = (Inr (), s2)"
    "cp3_receive B E link V1_READY_CP3 ''READY_CP3'' (s2\<lparr> vr_result := (vr_result s2)\<lparr> c3_start_sent := True \<rparr> \<rparr>) = (Inr ready, s3)"
    "onS (cp3_accept_ready ready) s3 = (Inr fin, s4)"
    "cp3_send B E link ''FINISHED_C'' fin (s4\<lparr> vr_result := (vr_result s4)\<lparr> c3_transcript_match := True \<rparr> \<rparr>) = (Inr (), s5)"
    "cp3_receive B E link V1_FINISHED_P ''FINISHED_P'' (s5\<lparr> vr_result := (vr_result s5)\<lparr> c3_finished_c_sent := True \<rparr> \<rparr>) = (Inr finp, s6)"
    "onS (cp3_accept_finished_p finp) s6 = (Inr (), t)"
    using assms(1) by (auto simp: cp3_handshake_def set_result_apply)
  obtain h1 where h1: "cp3_begin (rn_buf (vr_runner s) ''secret'') sec pk ct start cp3_init = (Inr (), h1)" "own_session h1 s1"
    using own_onS [OF assms(2,3) st(2)] cp3_methods_open(1) by blast
  have "only_closes s1 s2" "only_closes s2 s3"
    using only_closes_stages(3) [of s1 B E link "''START_CP3''" start]
      only_closes_stages(1) [of "s2\<lparr> vr_result := (vr_result s2)\<lparr> c3_start_sent := True \<rparr> \<rparr>" B E link V1_READY_CP3 "''READY_CP3''"] st(3,4)
    by (simp_all add: only_closes_def)
  then have "only_closes s1 s3" by (rule closing.kept_trans)
  then obtain h2 where h2: "cp3_accept_ready ready h1 = (Inr fin, h2)" "own_session h2 s4"
    using own_onS [OF h1(2) _ st(5)] cp3_methods_open(2) by blast
  have "only_closes s4 s5" "only_closes s5 s6"
    using only_closes_stages(3) [of "s4\<lparr> vr_result := (vr_result s4)\<lparr> c3_transcript_match := True \<rparr> \<rparr>" B E link "''FINISHED_C''" fin]
      only_closes_stages(1) [of "s5\<lparr> vr_result := (vr_result s5)\<lparr> c3_finished_c_sent := True \<rparr> \<rparr>" B E link V1_FINISHED_P "''FINISHED_P''"] st(6,7)
    by (simp_all add: only_closes_def)
  then have "only_closes s4 s6" by (rule closing.kept_trans)
  then obtain h3 where h3: "cp3_accept_finished_p finp h2 = (Inr (), h3)" "own_session h3 t"
    using own_onS [OF h2(2) _ st(8)] cp3_methods_open(3) by (metis hs_state.distinct)
  have "cp3_completed (rn_buf (vr_runner s) ''secret'') sec pk ct sid h3"
    unfolding cp3_completed_def using st(1) h1(1) h2(1) h3(1) by blast
  then show ?thesis using h3 cp3_methods_open(3) by blast
qed

lemma cp3_link_Inr: "cp3_link B link s = (Inr u, t) \<longleftrightarrow> v1_linked B link (rn_client (vr_runner s)) \<and> t = s"
  by (auto simp: cp3_link_def onR_Inr)

lemma cp3_quiet_Inr:
  assumes "cp3_quiet B E link s = (Inr (), t)" and "own_session h s"
  shows "own_session h t \<and> c3_finished_p_verified (vr_result t) \<and> c3_app_secure (vr_result t)"
proof -
  obtain u where u: "v1_linked B link (rn_client (vr_runner u))"
    "t = u\<lparr> vr_result := (vr_result u)\<lparr> c3_finished_p_verified := True, c3_app_secure := True \<rparr> \<rparr>"
    using assms(1) by (auto simp: cp3_quiet_def set_result_apply cp3_link_Inr)
  have "only_closes s t" using only_closes_stages(4) [of s B E link] assms(1) by simp
  moreover have "h3_state (cp3_get (rn_client (vr_runner t))) \<noteq> HS_CLOSED" using u by (simp add: v1_linked_def)
  ultimately have "own_session h t" by (rule own_step [OF assms(2)])
  then show ?thesis using u(2) by simp
qed

text \<open>Waiting changes neither buffers nor result nor what was taken from the queue.\<close>

lemma await3_keeps:
  "rn_buf (vr_runner (snd (await3 B E link m s))) = rn_buf (vr_runner (snd (m s)))"
  "rn_taken (vr_runner (snd (await3 B E link m s))) = rn_taken (vr_runner (snd (m s)))"
  "vr_result (snd (await3 B E link m s)) = vr_result (snd (m s))"
  by (auto simp: await3_def Let_def case_prod_unfold upd_client_def split: option.split)

lemma await3_Inr: "await3 B E link m s = (Inr x, t) \<Longrightarrow> \<exists>u. m s = (Inr x, u) \<and> rn_taken (vr_runner t) = rn_taken (vr_runner u)
    \<and> rn_buf (vr_runner t) = rn_buf (vr_runner u) \<and> vr_result t = vr_result u"
  by (auto simp: await3_def Let_def upd_client_def split: prod.splits if_splits option.splits)

lemma cp3_receive_Inr:
  assumes "cp3_receive B E link ty name s = (Inr raw, t)"
  shows "received B (rn_taken (vr_runner s)) raw \<and> rn_taken (vr_runner t) = Suc (rn_taken (vr_runner s))
    \<and> rn_buf (vr_runner t) = rn_buf (vr_runner s)"
proof -
  obtain e where "await3 B E link (onR (take_notification B e)) s = (Inr raw, t)"
    using assms by (auto simp: cp3_receive_def cp3_link_Inr needM_Inr)
  from await3_Inr [OF this] show ?thesis by (auto simp: onR_Inr received_def take_notification_Inr Let_def)
qed

lemma cp3_attest_Inr:
  assumes "cp3_attest B E link s = (Inr (sec, info), t)"
  shows "is_authenticated_level4 info \<and> parse_sec_info sec = Inr info \<and> attested B (rn_taken (vr_runner s))
    \<and> rn_taken (vr_runner t) = Suc (rn_taken (vr_runner s)) \<and> rn_buf (vr_runner t) = rn_buf (vr_runner s)"
proof -
  obtain q u where u: "await3 B E link (onR (runC (send_control B q))) s = (Inr (), u)"
    "cp3_receive B E link V1_SEC_INFO ''SEC_INFO'' u = (Inr sec, t)" "parse_sec_info sec = Inr info" "is_authenticated_level4 info"
    using assms by (auto simp: cp3_attest_def cp3_link_Inr v1_Inr)
  have "rn_taken (vr_runner u) = rn_taken (vr_runner s)" "rn_buf (vr_runner u) = rn_buf (vr_runner s)"
    using await3_Inr [OF u(1)] by (auto simp: onR_Inr runC_Inr)
  then show ?thesis using cp3_receive_Inr [OF u(2)] u(3,4) by (auto simp: attested_def)
qed

lemma cp3_submit_Inr:
  assumes "cp3_submit B E C r link s = (Inr (pk, ct), t)"
  shows "length pk = PK_SIZE \<and> (\<exists>ss. encapsulate C r pk = (ct, ss) \<and> rn_buf (vr_runner t) ''secret'' = ss)
    \<and> rn_taken (vr_runner t) = rn_taken (vr_runner s)"
proof -
  obtain u v n where u: "await3 B E link (onR (runC (read_fragmented_public_key B))) s = (Inr pk, u)" "length pk = PK_SIZE"
    "ct = fst (encapsulate C r pk)"
    "await3 B E link (onR (runC (write_fragmented_ciphertext B ct))) (u\<lparr> vr_result := (vr_result u)\<lparr> c1_public_key_len := 1184 \<rparr>,
      vr_runner := set_buf ''secret'' (snd (encapsulate C r pk)) (vr_runner u) \<rparr>) = (Inr n, v)"
    "t = v\<lparr> vr_result := (vr_result v)\<lparr> c1_ciphertext_fragments := n \<rparr> \<rparr>"
    using assms by (auto simp: cp3_submit_def cp3_link_Inr v1_Inr Let_def case_prod_unfold)
  have "rn_taken (vr_runner u) = rn_taken (vr_runner s)" using await3_Inr [OF u(1)] by (auto simp: onR_Inr runC_Inr)
  moreover have "rn_taken (vr_runner v) = rn_taken (vr_runner u)" "rn_buf (vr_runner v) ''secret'' = snd (encapsulate C r pk)"
    using await3_Inr [OF u(4)] by (auto simp: onR_Inr runC_Inr set_buf_apply)
  ultimately show ?thesis using u by (cases "encapsulate C r pk") simp
qed

lemma cp3_body_Inr:
  assumes "cp3_body B E C r sid link app s = (Inr info, t)" and s: "own_session cp3_init s"
  shows "\<exists>u pk ct ss h. is_authenticated_level4 info \<and> attested B (rn_taken (vr_runner s)) \<and> attested B (Suc (rn_taken (vr_runner s)))
    \<and> encapsulate C r pk = (ct, ss) \<and> cp3_completed ss level4_wire pk ct sid h \<and> own_session h u \<and> h3_state h = HS_APP_SECURE
    \<and> c3_app_secure (vr_result u) \<and> cp3_body B E C r sid link None s = (Inr info, u)
    \<and> (case app of None \<Rightarrow> t = u | Some f \<Rightarrow> f link u = (Inr (), t) \<and> v1_linked B link (rn_client (vr_runner t)))"
proof -
  obtain s1 s2 s3 s4 s5 u pk ct sec i1 w where st: "await3 B E link (onR (runC (start_notify B))) s = (Inr (), s1)"
    "cp3_attest B E link s1 = (Inr (w, i1), s2)" "cp3_submit B E C r link s2 = (Inr (pk, ct), s3)"
    "cp3_attest B E link s3 = (Inr (sec, info), s4)" "cp3_handshake B E sid link sec (pk, ct) s4 = (Inr (), s5)"
    "cp3_quiet B E link s5 = (Inr (), u)"
    "case app of None \<Rightarrow> t = u | Some f \<Rightarrow> f link u = (Inr (), t) \<and> v1_linked B link (rn_client (vr_runner t))"
    using assms(1) by (cases app) (auto simp: cp3_body_def cp3_link_Inr)
  have "only_closes s (snd (await3 B E link (onR (runC (start_notify B))) s))" by (intro only_closes_steps)
  then have "only_closes s s1" using st(1) by simp
  moreover have "only_closes s1 s2" "only_closes s2 s3" "only_closes s3 s4"
    using only_closes_stages(2) [of s1 B E link] only_closes_stages(5) [of s2 B E C r link] only_closes_stages(2) [of s3 B E link] st(2-4)
    by simp_all
  ultimately have c: "only_closes s s4" by (blast intro: closing.kept_trans)
  have t: "rn_taken (vr_runner s1) = rn_taken (vr_runner s)" using await3_Inr [OF st(1)] by (auto simp: onR_Inr runC_Inr)
  obtain ss where ss: "encapsulate C r pk = (ct, ss)" "rn_buf (vr_runner s4) ''secret'' = ss"
    "attested B (rn_taken (vr_runner s1))" "attested B (Suc (rn_taken (vr_runner s1)))" "is_authenticated_level4 info"
    using cp3_attest_Inr [OF st(2)] cp3_submit_Inr [OF st(3)] cp3_attest_Inr [OF st(4)] by auto
  obtain h where h: "cp3_completed ss sec pk ct sid h" "own_session h s5" "h3_state h = HS_APP_SECURE"
    using cp3_handshake_Inr [OF st(5) s c] ss(2) by auto
  have none: "cp3_body B E C r sid link None s = (Inr info, u)" using assms(1) st(1-6) by (auto simp: cp3_body_def cp3_link_Inr)
  have "sec = level4_wire" using h(1) by (auto simp: cp3_completed_def cp3_begin_Inr)
  then show ?thesis using h ss t st(7) cp3_quiet_Inr [OF st(6) h(2)] none
    by (intro exI [of _ u] exI [of _ pk] exI [of _ ct] exI [of _ ss] exI [of _ h]) simp
qed

lemma cp3_exchange_Inr:
  assumes "cp3_exchange B E C r sid app s = (Inr info, t)" and "retired_closed (rn_client (vr_runner s))"
  shows "\<exists>u v pk ct ss h. is_authenticated_level4 info \<and> attested B (rn_taken (vr_runner s)) \<and> attested B (Suc (rn_taken (vr_runner s)))
    \<and> encapsulate C r pk = (ct, ss) \<and> cp3_completed ss level4_wire pk ct sid h \<and> own_session h u \<and> h3_state h = HS_APP_SECURE
    \<and> c3_app_secure (vr_result u) \<and> rn_client (vr_runner t) = rn_client (vr_runner v) \<and> vr_result t = vr_result v
    \<and> (\<exists>l f. cp3_body B E C r sid l None (upd_client f s) = (Inr info, u))
    \<and> (case app of None \<Rightarrow> v = u | Some f \<Rightarrow> f (bc_client (rn_client (vr_runner s))) u = (Inr (), v)
         \<and> v1_linked B (bc_client (rn_client (vr_runner s))) (rn_client (vr_runner v)))"
proof -
  let ?l = "bc_client (rn_client (vr_runner s))"
  let ?s = "upd_client (\<lambda>c. c\<lparr> bc_v1_cp3_session := Some (V1Handshake cp3_init), bc_v1_cp3_link := ?l \<rparr>) s"
  obtain v where v: "cp3_body B E C r sid ?l app ?s = (Inr info, v)" "t = v\<lparr> vr_runner := wipe_buf ''secret'' (vr_runner v) \<rparr>"
    using assms(1) by (auto simp: cp3_exchange_def cp3_exchange_in_def bind_read catchM_def finallyM_Inr onR_Inr split: prod.splits sum.splits if_splits)
  have "own_session cp3_init ?s" using assms(2) by (simp add: own_session_def upd_client_def retired_closed_def cp3_get_def cp3_init_def)
  from cp3_body_Inr [OF v(1) this] obtain u pk ct ss h where u: "is_authenticated_level4 info" "attested B (rn_taken (vr_runner s))"
    "attested B (Suc (rn_taken (vr_runner s)))" "encapsulate C r pk = (ct, ss)" "cp3_completed ss level4_wire pk ct sid h"
    "own_session h u" "h3_state h = HS_APP_SECURE" "c3_app_secure (vr_result u)" "cp3_body B E C r sid ?l None ?s = (Inr info, u)"
    "case app of None \<Rightarrow> v = u | Some f \<Rightarrow> f ?l u = (Inr (), v) \<and> v1_linked B ?l (rn_client (vr_runner v))"
    by (auto simp: upd_client_def)
  have t: "rn_client (vr_runner t) = rn_client (vr_runner v)" "vr_result t = vr_result v" using v(2) by (simp_all add: wipe_buf_def)
  have "\<exists>l f. cp3_body B E C r sid l None (upd_client f s) = (Inr info, u)" using u(9) by blast
  with u t show ?thesis by (intro exI [of _ u] exI [of _ v] exI [of _ pk] exI [of _ ct] exI [of _ ss] exI [of _ h]) simp
qed

text \<open>The whole run up to its exchange.\<close>

context v1_kept
begin

lemma kept_secure_link: "R s (snd (v1_secure_link B P neg state s))"
  unfolding v1_secure_link_def v1_cold_pairing_def verify_negative_closed_def by (intro kept_steps kept_probes kept_ensure)

lemma kept_bond_state: "R s (snd (v1_bond_state B P unpair_first s))"
  unfolding v1_bond_state_def by (intro kept_steps kept_ensure)

lemma kept_run_Inr:
  assumes "run_v1 B P rt neg unpair_first exchange True s = (Inr res, t)"
  shows "\<exists>u v info. R s u \<and> exchange u = (Inr info, v) \<and> vr_runner t = vr_runner v \<and> res = (vr_result v)\<lparr> c1_security_info := info \<rparr>
    \<and> (\<exists>s2 state sc i. v1_secure_link B P neg state (s2\<lparr> vr_result := rt sc i \<rparr>) = (Inr (), u))"
proof -
  let ?test = "onR (runC (setM (\<lambda>c. c\<lparr> bc_v1_security_test := True \<rparr>)))"
  obtain s1 state s2 s3 sc i where st: "?test s = (Inr (), s1)" "v1_bond_state B P unpair_first s1 = (Inr state, s2)"
    "v1_secure_link B P neg state (s2\<lparr> vr_result := rt sc i \<rparr>) = (Inr (), s3)"
    "v1_post_l4 B (ps_is_paired state) exchange True s3 = (Inr (), t)" "res = vr_result t"
    using assms by (auto simp: run_v1_def v1_Inr require_client_Inr split: option.splits)
  have "R s s1" "R s1 s2" "R s2 (s2\<lparr> vr_result := rt sc i \<rparr>)" "R (s2\<lparr> vr_result := rt sc i \<rparr>) s3"
    using kept_test [of s] kept_bond_state [of s1 P unpair_first] kept_result kept_secure_link [of "s2\<lparr> vr_result := rt sc i \<rparr>" P neg state] st(1-3)
    by simp_all
  then have "R s s3" by (blast intro: kept_trans)
  moreover have "\<exists>info v. exchange s3 = (Inr info, v) \<and> t = v\<lparr> vr_result := (vr_result v)\<lparr> c1_security_info := info \<rparr> \<rparr>"
    using st(4) by (auto simp: v1_post_l4_def bindM_def catchM_def set_result_apply v1_exchange_error_never split: prod.splits sum.splits)
  moreover have "\<exists>s2 state sc i. v1_secure_link B P neg state (s2\<lparr> vr_result := rt sc i \<rparr>) = (Inr (), s3)" using st(3) by blast
  ultimately show ?thesis using st(5) by fastforce
qed

end

text \<open>Retired handshake objects stay closed, through reconnections too.\<close>

definition keeps_retired :: "'r v1_run \<Rightarrow> 'r v1_run \<Rightarrow> bool" where
  "keeps_retired s t \<longleftrightarrow> (retired_closed (rn_client (vr_runner s)) \<longrightarrow> retired_closed (rn_client (vr_runner t)))"

lemma only_closes_retired: "only_closes s t \<Longrightarrow> keeps_retired s t"
  by (simp add: only_closes_def session_only_closes_def keeps_retired_def)

lemma teardown_closes:
  "session_only_closes c (snd (stop_notify B c))" "session_only_closes c (snd (client_reconnect_v1_peer B c))"
proof -
  have clear: "session_only_closes c (snd (setM clear_v1_cp3 c))" for c by (simp add: clear_v1_cp3_closes)
  have "session_only_closes c (snd (bindM (bleak_call B StopNotify) (\<lambda>_. retM ()) c))" for c
    by (intro client_closing.kept_intros call_closes)
  then have "session_only_closes c (snd ((if client_is_connected B c then bindM (bleak_call B StopNotify) (\<lambda>_. retM ()) c else (Inr (), c))))" for c
    by (simp add: session_only_closes_refl)
  then show "session_only_closes c (snd (stop_notify B c))" unfolding stop_notify_def
    by (intro client_closing.kept_seq clear)
  have "session_only_closes c (snd (setM (\<lambda>c. c\<lparr> bc_device := p \<rparr>) c))" "session_only_closes c (snd (setM (\<lambda>c. c\<lparr> bc_client := l \<rparr>) c))"
    "session_only_closes c (snd (bleak_scan B q c))" for c p l q
    by (auto simp: bleak_scan_def Let_def intro: same_sessions)
  then show "session_only_closes c (snd (client_reconnect_v1_peer B c))"
    unfolding client_reconnect_v1_peer_def by (intro client_closing.kept_intros clear call_closes)
qed

lemma client_retiring: "(\<And>c. session_only_closes c (snd (m c))) \<Longrightarrow> keeps_retired s (snd (onR (runC m) s))"
  by (intro only_closes_retired only_closes_client)

lemma test_closes: "session_only_closes c (snd (setM (\<lambda>c. c\<lparr> bc_v1_security_test := True \<rparr>) c))"
  by (auto intro: same_sessions)

lemma retired_base:
  "keeps_retired s (s\<lparr> vr_runner := log_op p (vr_runner s), vr_pairing := q \<rparr>)" "keeps_retired s (s\<lparr> vr_cause := x \<rparr>)"
  "keeps_retired s (s\<lparr> vr_result := res \<rparr>)"
  by (simp_all add: keeps_retired_def log_op_def retired_closed_def)

interpretation retiring: kept keeps_retired
  by unfold_locales (auto simp: keeps_retired_def)

interpretation retiring_run: v1_kept keeps_retired B for B
  by (unfold_locales; intro retired_base client_retiring client_calls_close teardown_closes test_closes)

lemma cp3_methods_closed:
  assumes "cp3_closed h"
  shows "cp3_closed (snd (cp3_begin ss sec pk ct start h))" "cp3_closed (snd (cp3_accept_ready raw h))"
    "cp3_closed (snd (cp3_accept_finished_p raw h))"
proof -
  have "snd (bindM m (\<lambda>_. retM y) h) = snd (m h)" for m :: "(cp3, unit) meth" and y :: bytes and h
    by (auto simp: bindM_def split: prod.splits sum.splits)
  then show "cp3_closed (snd (cp3_begin ss sec pk ct start h))" "cp3_closed (snd (cp3_accept_ready raw h))"
    "cp3_closed (snd (cp3_accept_finished_p raw h))"
    using cp3_owner.closed_run [OF assms, of "[Cp3Begin ss sec pk ct start]"] cp3_owner.closed_run [OF assms, of "[Cp3Ready raw]"]
      cp3_owner.closed_run [OF assms, of "[Cp3FinishedP raw]"] by simp_all
qed

lemma keeps_retired_onS:
  assumes "\<And>h. cp3_closed h \<Longrightarrow> cp3_closed (snd (m h))"
  shows "keeps_retired s (snd (onS m s))"
proof -
  let ?c = "rn_client (vr_runner s)"
  have "bc_v1_cp3_session ?c = None \<Longrightarrow> retired_closed ?c \<Longrightarrow> cp3_closed (snd (m (cp3_get ?c)))"
    by (rule assms) (auto simp: cp3_get_def retired_closed_def split: list.split v1_session.split)
  then have "retired_closed ?c \<Longrightarrow> retired_closed (cp3_put (snd (m (cp3_get ?c))) ?c)"
    by (auto simp: cp3_put_def retired_closed_def split: option.split list.split)
  then show ?thesis by (simp add: keeps_retired_def onS_def upd_client_def Let_def case_prod_unfold)
qed

lemmas keeps_retired_methods = keeps_retired_onS [OF cp3_methods_closed(1)] keeps_retired_onS [OF cp3_methods_closed(2)]
  keeps_retired_onS [OF cp3_methods_closed(3)]

lemmas keeps_retired_steps = retiring.kept_intros keeps_retired_methods only_closes_stages [THEN only_closes_retired]
  only_closes_steps [THEN only_closes_retired]

lemma keeps_retired_close: "keeps_retired s (close_session s)"
  using put_closed [of "cp3_clear (cp3_get (rn_client (vr_runner s)))" "rn_client (vr_runner s)"]
  by (simp add: keeps_retired_def close_session_def upd_client_def session_only_closes_def)

lemma keeps_retired_body:
  assumes "\<And>f l s. app = Some f \<Longrightarrow> keeps_retired s (snd (f l s))"
  shows "keeps_retired s (snd (cp3_body B E C r sid link app s))"
proof -
  have hs: "keeps_retired s (snd (cp3_handshake B E sid link sec keys s))" for sec keys s
    unfolding cp3_handshake_def by (intro keeps_retired_steps)
  have app: "keeps_retired s (snd ((case app of None \<Rightarrow> retM () | Some app \<Rightarrow> seqM (app link) (cp3_link B link)) s))" for s
  proof (cases app)
    case (Some f)
    have "keeps_retired s (snd (seqM (f link) (cp3_link B link) s))"
      by (intro retiring.kept_seq assms [OF Some] only_closes_base(3) [THEN only_closes_retired])
    then show ?thesis using Some by simp
  qed (simp add: retiring.kept_refl)
  show ?thesis unfolding cp3_body_def by (intro app hs keeps_retired_steps only_closes_steps)
qed

lemma keeps_retired_exchange:
  assumes "\<And>f l s. app = Some f \<Longrightarrow> keeps_retired s (snd (f l s))"
  shows "keeps_retired s (snd (cp3_exchange B E C r sid app s))"
proof -
  have "keeps_retired s (snd (onerr close_session (cp3_body B E C r sid link app) s))" for link s
    by (rule onerr_keeps [where R = keeps_retired], rule keeps_retired_body, erule assms, rule keeps_retired_close,
      erule (1) retiring.kept_trans)
  moreover have "keeps_retired s (snd (setM (upd_client (\<lambda>c. c\<lparr> bc_v1_cp3_session := x, bc_v1_cp3_link := l \<rparr>)) s))" for x l s
    by (simp add: keeps_retired_def upd_client_def retired_closed_def)
  ultimately show ?thesis unfolding cp3_exchange_def cp3_exchange_in_def
    by (intro keeps_retired_steps retiring_run.kept_calls)
qed

text \<open>No open handshake object is left anywhere in the client.\<close>

definition all_closed :: "ble_client \<Rightarrow> bool" where
  "all_closed c \<longleftrightarrow> retired_closed c \<and> (case bc_v1_cp3_session c of None \<Rightarrow> True | Some x \<Rightarrow> handshake_closed x)"

lemma clear_owned_closes: "retired_closed c \<Longrightarrow> all_closed (clear_owned_session c)"
  by (simp add: all_closed_def clear_owned_session_def retired_closed_def split: option.split)

lemma cp3_run_error:
  assumes "onerr (upd_client clear_owned_session) m s = (Inl e, t)" and "retired_closed (rn_client (vr_runner s))"
    and "keeps_retired s (snd (m s))"
  shows "all_closed (rn_client (vr_runner t))"
  using assms clear_owned_closes by (auto simp: onerr_Inl upd_client_def keeps_retired_def)

subsection \<open>Writes and waits\<close>

lemma callbacks_ops [simp]: "bc_ops (cp3_callbacks B E link ops c) = bc_ops c"
proof -
  have clear: "bc_ops (clear_v1_cp3 c) = bc_ops c" for c by (simp add: clear_v1_cp3_def Let_def split: option.split)
  have put: "bc_ops (cp3_put h c) = bc_ops c" for h c by (simp add: cp3_put_def split: option.split list.split)
  have "bc_ops (foldl (\<lambda>c _. deliver_notification B l c) c ns) = bc_ops c" for c l and ns :: "bytes list"
    by (induction ns arbitrary: c) (simp_all add: deliver_notification_def put)
  then show ?thesis
    by (simp add: cp3_callbacks_def lost_callback_def client_on_disconnect_def client_on_v1_disconnect_def clear split: option.split)
qed

lemma within_await: "v1_within P s (snd (m s)) \<Longrightarrow> v1_within P s (snd (await3 B E link m s))"
  by (auto simp: v1_within_def ops_within_def await3_def Let_def case_prod_unfold upd_client_def split: option.split)

lemma put_ops [simp]: "bc_ops (cp3_put h c) = bc_ops c"
  by (simp add: cp3_put_def split: option.split list.split)

lemma within_session: "v1_within P s (snd (onS m s))" "v1_within P s (close_session s)" "v1_within P s (snd (cp3_link B link s))"
  by (simp_all add: v1_within_def ops_within_def onS_def close_session_def upd_client_def cp3_link_def onR_def Let_def case_prod_unfold)

lemma within_query3:
  assumes "P AwaitNotify" "\<And>p. sec_query p \<Longrightarrow> P p"
  shows "v1_within P s (snd (cp3_attest B E link s))"
  unfolding cp3_attest_def cp3_receive_def
  by (intro ops.kept_bind_lift ops.kept_intros within_await v1_within_base within_client_call within_session) (auto simp: sec_query_def assms)

lemma within_submit3:
  "P (ReadChar CHAR_PUBKEY) \<Longrightarrow> (\<And>w. P (WriteChar CHAR_CIPHERTEXT w)) \<Longrightarrow> v1_within P s (snd (cp3_submit B E C r link s))"
  unfolding cp3_submit_def Let_def
  by (intro ops.kept_intros within_await v1_within_base within_client_call within_session within_buf)

text \<open>Up to the first attestation, and then to the second.\<close>

lemma gate_guard:
  assumes "v1_within P s (snd (m s)) \<or> Q"
  shows "v1_within P s (snd (onerr close_session m s)) \<or> Q"
    and "v1_within P s (snd (catchM p (\<lambda>_. liftR r) m s)) \<or> Q"
  using assms ops.kept_trans within_session(2)
  by (auto simp: onerr_def catchM_def split: prod.splits sum.splits) blast

lemma cp3_gate_first:
  assumes P: "P StartNotify" "P AwaitNotify" "\<And>p. sec_query p \<Longrightarrow> P p"
    and K: "\<And>u v x. rn_taken (vr_runner u) = rn_taken (vr_runner s) \<Longrightarrow> cp3_attest B E link u = (Inr x, v) \<Longrightarrow>
        v1_within P v (snd (K x v)) \<or> Q"
  shows "v1_within P s (snd (seqM (cp3_link B link) (seqM (await3 B E link (onR (runC (start_notify B))))
      (bindM (cp3_attest B E link) K)) s)) \<or> Q"
proof (rule ops.kept_or_seq [OF within_session(3)], rule ops.kept_or_seq [OF within_await [OF within_client_call(1)]])
  fix t u
  assume t: "cp3_link B link s = (Inr (), t)" "await3 B E link (onR (runC (start_notify B))) t = (Inr (), u)"
  then have "rn_taken (vr_runner u) = rn_taken (vr_runner s)" using await3_Inr [OF t(2)] by (auto simp: cp3_link_Inr onR_Inr runC_Inr)
  then show "v1_within P u (snd (bindM (cp3_attest B E link) K u)) \<or> Q"
    using K by (intro ops.kept_or_bind within_query3 P) blast+
qed (rule P)

lemma cp3_body_gated:
  "v1_within before_attest s (snd (cp3_body B E C r sid link app s)) \<or> attested B (rn_taken (vr_runner s))"
  "v1_within before_start s (snd (cp3_body B E C r sid link app s))
     \<or> attested B (rn_taken (vr_runner s)) \<and> attested B (Suc (rn_taken (vr_runner s)))"
proof -
  let ?n = "rn_taken (vr_runner s)"
  show "v1_within before_attest s (snd (cp3_body B E C r sid link app s)) \<or> attested B ?n"
    unfolding cp3_body_def
  proof (rule cp3_gate_first)
    fix u v :: "'a v1_cp3_result_scheme v1_run" and x K
    assume "rn_taken (vr_runner u) = ?n" "cp3_attest B E link u = (Inr x, v)"
    then show "v1_within before_attest v (snd (K x v)) \<or> attested B ?n" using cp3_attest_Inr by (metis prod.exhaust)
  qed (auto simp: before_attest_def)
  have P: "before_start StartNotify" "before_start AwaitNotify" "sec_query p \<Longrightarrow> before_start p"
    "before_start (ReadChar CHAR_PUBKEY)" "before_start (WriteChar CHAR_CIPHERTEXT w)" for p w
    by (simp_all add: before_start_def before_attest_def)
  show "v1_within before_start s (snd (cp3_body B E C r sid link app s)) \<or> attested B ?n \<and> attested B (Suc ?n)"
    unfolding cp3_body_def
  proof (rule cp3_gate_first [OF P(1-3)])
    fix u v :: "'a v1_cp3_result_scheme v1_run" and x K
    assume u: "rn_taken (vr_runner u) = ?n" "cp3_attest B E link u = (Inr x, v)"
    then have v: "attested B ?n" "rn_taken (vr_runner v) = Suc ?n" using cp3_attest_Inr by (metis prod.exhaust)+
    show "v1_within before_start v (snd (bindM (cp3_submit B E C r link) (\<lambda>keys. bindM (cp3_attest B E link) (K keys)) v))
        \<or> attested B ?n \<and> attested B (Suc ?n)"
    proof (intro ops.kept_or_bind within_submit3 [where P = before_start, OF P(4,5)] within_query3 [where P = before_start, OF P(2,3)])
      fix keys w y z
      assume "cp3_submit B E C r link v = (Inr keys, w)" "cp3_attest B E link w = (Inr y, z)"
      then have "attested B (Suc ?n)" using cp3_submit_Inr cp3_attest_Inr v(2) by (metis prod.exhaust)
      then show "v1_within before_start z (snd (K keys y z)) \<or> attested B ?n \<and> attested B (Suc ?n)" using v(1) by simp
    qed
  qed
qed

lemma cp3_exchange_gated:
  assumes "\<And>link s. rn_taken (vr_runner s) = n \<Longrightarrow> v1_within P s (snd (cp3_body B E C r sid link app s)) \<or> Q"
    and "rn_taken (vr_runner s) = n"
  shows "v1_within P s (snd (cp3_exchange B E C r sid app s)) \<or> Q"
proof -
  have u: "v1_within P s (snd (setM (upd_client (\<lambda>c. c\<lparr> bc_v1_cp3_session := x, bc_v1_cp3_link := l \<rparr>)) s))" for x l and s :: "'a v1_cp3_result_scheme v1_run"
    by (simp add: v1_within_def ops_within_def upd_client_def)
  have w: "v1_within P s (snd (onR (setM (wipe_buf b)) s))" for b and s :: "'a v1_cp3_result_scheme v1_run"
    by (rule v1_within_onR) (simp add: ops_within_def wipe_buf_def)
  show ?thesis
    unfolding cp3_exchange_def cp3_exchange_in_def bind_read
    by (intro gate_guard ops.kept_or_seq ops.kept_or_finally within_buf u w assms(1)) (auto simp: onR_Inr upd_client_def assms(2))
qed

lemma cp3_exchange_wipes: "keeps_wiped [''secret''] s (snd (cp3_exchange B E C r sid app s))"
proof -
  have f: "keeps_wiped [''secret''] s (snd (finallyM m (onR (setM (wipe_buf ''secret''))) s))"
    for m and s :: "'a v1_cp3_result_scheme v1_run"
    by (simp add: keeps_wiped_def finallyM_def onR_setM_buf case_prod_unfold Let_def wipe_buf_apply)
  have u: "keeps_wiped [''secret''] s (snd (setM (upd_client g) s))" for g and s :: "'a v1_cp3_result_scheme v1_run"
    by (simp add: keeps_wiped_def upd_client_def)
  show ?thesis unfolding cp3_exchange_def cp3_exchange_in_def
    by (intro wiping.kept_intros f u wiped_run.kept_calls)
qed

lemma cp3_any_ops: "v1_within (\<lambda>_. True) s (snd (cp3_exchange B E C r sid None s))"
proof -
  have "v1_within (\<lambda>_. True) s (snd (cp3_body B E C r sid link None s))" for link and s :: "'a v1_cp3_result_scheme v1_run"
    unfolding cp3_body_def cp3_handshake_def cp3_send_def cp3_receive_def cp3_quiet_def option.case
    by (intro ops.kept_intros within_await v1_within_base within_client_call within_session within_submit3 within_query3
        v1_within_onR; simp add: ops_within_def wipe_buf_def)
  then show ?thesis using cp3_exchange_gated [where Q = False] by blast
qed

subsection \<open>An honest DK on a link that stays up\<close>

definition calm :: "cp3_env \<Rightarrow> bool" where
  "calm E \<longleftrightarrow> (\<forall>ops. \<not> ev_lost E ops \<and> ev_stop E ops = None)"

lemma same_objects_get: "same_objects c d \<Longrightarrow> cp3_get d = cp3_get c"
  unfolding same_objects_def cp3_get_def by (elim conjE) (rule arg_cong2 [where f = "\<lambda>a b. case a of
     Some (V1Handshake h) \<Rightarrow> h | _ \<Rightarrow> (case b of V1Handshake h # _ \<Rightarrow> h | _ \<Rightarrow> cp3_clear cp3_init)"])

lemma own_same: "own_session h s \<Longrightarrow> same_objects (rn_client (vr_runner s)) (rn_client (vr_runner t)) \<Longrightarrow> own_session h t"
  using same_objects_get [of "rn_client (vr_runner s)" "rn_client (vr_runner t)"]
  by (simp add: own_session_def retired_closed_def same_objects_def)

lemma upd_client_id: "f (rn_client (vr_runner t)) = rn_client (vr_runner t) \<Longrightarrow> upd_client f t = t"
  by (simp add: upd_client_def)

text \<open>What an honest DK sends: READY with the transcript hash, FINISHED with its MAC.\<close>

definition dk_finished_c :: "bytes \<Rightarrow> bytes \<Rightarrow> bytes \<Rightarrow> bytes \<Rightarrow> bytes" where
  "dk_finished_c ss pk ct start = (let th = cp3_th0 pk ct start; prk = hmac_sha256 th ss
     in frame_wire V1_FRAME_MAGIC 16 18 (hmac_sha256 (hmac_sha256 prk (FINISHED_C_LABEL @ th @ [1])) (VERIFY_C_LABEL @ th)))"

definition dk_finished_p :: "bytes \<Rightarrow> bytes \<Rightarrow> bytes \<Rightarrow> bytes \<Rightarrow> bytes" where
  "dk_finished_p ss pk ct start = (let th = cp3_th0 pk ct start; prk = hmac_sha256 th ss; th1 = sha256 (th @ dk_finished_c ss pk ct start)
     in frame_wire V1_FRAME_MAGIC 16 19 (hmac_sha256 (hmac_sha256 prk (FINISHED_P_LABEL @ th @ [1])) (VERIFY_P_LABEL @ th1)))"

lemma dk_completes:
  assumes "length pk = PK_SIZE" "length ct = CT_SIZE" "length ss = SS_SIZE" "length sid = V1_CP3_SESSION_ID_SIZE"
    and start: "start = frame_wire V1_FRAME_MAGIC 16 20 sid"
  shows "\<exists>h1 h2 h3. cp3_begin ss level4_wire pk ct start cp3_init = (Inr (), h1) \<and> h3_state h1 = HS_WAIT_READY_CP3
    \<and> cp3_accept_ready (frame_wire V1_FRAME_MAGIC 16 21 (cp3_th0 pk ct start)) h1 = (Inr (dk_finished_c ss pk ct start), h2)
    \<and> h3_state h2 = HS_WAIT_FINISHED_P
    \<and> cp3_accept_finished_p (dk_finished_p ss pk ct start) h2 = (Inr (), h3) \<and> h3_state h3 = HS_APP_SECURE"
proof -
  obtain h1 where h1: "cp3_begin ss level4_wire pk ct start cp3_init = (Inr (), h1)"
    using assms(1-4) start by (auto simp: cp3_begin_Inr cp3_init_def Let_def)
  then have v1: "h3_state h1 = HS_WAIT_READY_CP3" "h3_th h1 = cp3_th0 pk ct start" "h3_prk h1 = hmac_sha256 (cp3_th0 pk ct start) ss"
    "h3_finished_c h1 = hmac_sha256 (h3_prk h1) (FINISHED_C_LABEL @ h3_th h1 @ [1])"
    "h3_finished_p h1 = hmac_sha256 (h3_prk h1) (FINISHED_P_LABEL @ h3_th h1 @ [1])"
    by (auto simp: cp3_begin_Inr Let_def)
  have th: "length (cp3_th0 pk ct start) = 32" by (simp add: cp3_th0_def)
  obtain h2 where h2: "cp3_accept_ready (frame_wire V1_FRAME_MAGIC 16 21 (cp3_th0 pk ct start)) h1 = (Inr (dk_finished_c ss pk ct start), h2)"
    using v1 th by (auto simp: cp3_ready_Inr dk_finished_c_def Let_def)
  then have v2: "h3_state h2 = HS_WAIT_FINISHED_P" "h3_th h2 = sha256 (cp3_th0 pk ct start @ dk_finished_c ss pk ct start)"
    "h3_prk h2 = h3_prk h1" "h3_finished_p h2 = h3_finished_p h1"
    using v1 by (auto simp: cp3_ready_Inr)
  then have "\<exists>h3. cp3_accept_finished_p (dk_finished_p ss pk ct start) h2 = (Inr (), h3)"
    using v1 by (simp add: cp3_finished_Inr dk_finished_p_def Let_def)
  then show ?thesis using h1 h2 v1(1) v2(1) cp3_methods_open(3) by blast
qed

text \<open>
  The honest DK, as a specification of the other end of the link: a state machine over the Central's
  GATT operations. It answers SEC\_QUERY with Level 4; it collects the ciphertext fragments; on START\_CP3 it
  reassembles and decapsulates what it received and answers with the hash of the transcript; on the
  FINISHED\_C of that secret and transcript, and only then, it derives its application keys and sends
  FINISHED\_P; from then on a PING that decrypts under the Central's key, with the sequence number that is
  due, is answered with the PONG of the challenge it carried, encrypted under its own key. Everything
  else is answered with an error frame. What it sends arrives when the Central next waits.
\<close>

record dk_app =
  da_c2p :: bytes
  da_p2c :: bytes
  da_sid :: bytes
  da_seq :: nat

record dk =
  dk_fragments :: "bytes list"
  dk_session :: "(bytes \<times> bytes \<times> bytes) option"
  dk_keys :: "dk_app option"
  dk_pending :: "bytes list"
  dk_out :: "bytes list"

type_synonym dk_params = "third_party \<times> bytes \<times> bytes"

definition dk_init :: dk where
  "dk_init = \<lparr> dk_fragments = [], dk_session = None, dk_keys = None, dk_pending = [], dk_out = [] \<rparr>"

definition dk_say :: "bytes \<Rightarrow> dk \<Rightarrow> dk" where
  "dk_say w v = v\<lparr> dk_pending := dk_pending v @ [w] \<rparr>"

definition dk_error :: bytes where
  "dk_error = frame_wire V1_FRAME_MAGIC 16 V1_ERROR [4]"

definition dk_begin :: "dk_params \<Rightarrow> bytes \<Rightarrow> dk \<Rightarrow> dk" where
  "dk_begin K d v =
     (case K of (C, pk, sk) \<Rightarrow>
      case bindR (parse_v1_frame d) (\<lambda>f. bindR (requireR (v1_subtype f = V1_START_CP3) (ValueError ''START_CP3 expected'')) (\<lambda>_.
             reassemble_data (dk_fragments v))) of
        Inl e \<Rightarrow> dk_say dk_error v
      | Inr ct \<Rightarrow> dk_say (frame_wire V1_FRAME_MAGIC 16 V1_READY_CP3 (cp3_th0 pk ct d)) (v\<lparr> dk_session := Some (kem_decap C sk ct, ct, d) \<rparr>))"

text \<open>The keys after both FINISHED messages.\<close>

definition dk_app_keys :: "bytes \<Rightarrow> bytes \<Rightarrow> bytes \<Rightarrow> bytes \<Rightarrow> dk_app" where
  "dk_app_keys ss pk ct start =
     (let th = cp3_th0 pk ct start; prk = hmac_sha256 th ss;
          th2 = sha256 (sha256 (th @ dk_finished_c ss pk ct start) @ dk_finished_p ss pk ct start)
      in \<lparr> da_c2p = hmac_sha256 prk (APP_C2P_LABEL @ th2 @ [1]), da_p2c = hmac_sha256 prk (APP_P2C_LABEL @ th2 @ [1]),
           da_sid = drop 8 start, da_seq = 0 \<rparr>)"

definition dk_finish :: "dk_params \<Rightarrow> bytes \<times> bytes \<times> bytes \<Rightarrow> bytes \<Rightarrow> dk \<Rightarrow> dk" where
  "dk_finish K z d v =
     (case K of (C, pk, sk) \<Rightarrow> case z of (ss, ct, start) \<Rightarrow>
      if d \<noteq> dk_finished_c ss pk ct start then dk_say dk_error v
      else dk_say (dk_finished_p ss pk ct start) (v\<lparr> dk_keys := Some (dk_app_keys ss pk ct start) \<rparr>))"

definition dk_pong :: "dk_params \<Rightarrow> bytes \<Rightarrow> dk_app \<Rightarrow> bytes result" where
  "dk_pong K d a =
     (case K of (C, pk, sk) \<Rightarrow>
      bindR (derive_iv_base (da_c2p a) (da_sid a) APP_C2P 0x10) (\<lambda>iv.
      bindR (decrypt_application C (da_c2p a) iv (da_sid a) d APP_C2P (int (da_seq a)) 0x10) (\<lambda>challenge.
      bindR (derive_iv_base (da_p2c a) (da_sid a) APP_P2C 0x10) (\<lambda>iv.
      encrypt_application C (da_p2c a) iv (da_sid a) APP_P2C (int (da_seq a)) PONG challenge 0x10))))"

definition dk_control :: "dk_params \<Rightarrow> bytes \<Rightarrow> dk \<Rightarrow> dk" where
  "dk_control K d v =
     (case dk_keys v of
        Some a \<Rightarrow> (case dk_pong K d a of
                    Inl e \<Rightarrow> dk_say dk_error v
                  | Inr w \<Rightarrow> dk_say w (v\<lparr> dk_keys := Some (a\<lparr> da_seq := da_seq a + 1 \<rparr>) \<rparr>))
      | None \<Rightarrow> if encode_sec_query = Inr d then dk_say level4_wire v
                else case dk_session v of None \<Rightarrow> dk_begin K d v | Some z \<Rightarrow> dk_finish K z d v)"

fun dk_step :: "dk_params \<Rightarrow> dk \<Rightarrow> gatt_op \<Rightarrow> dk" where
  "dk_step K v (WriteChar ch d) =
     (if ch = CHAR_CONTROL then dk_control K d v
      else if ch = CHAR_CIPHERTEXT \<and> dk_session v = None then v\<lparr> dk_fragments := dk_fragments v @ [d] \<rparr>
      else dk_say dk_error v)"
| "dk_step K v AwaitNotify = v\<lparr> dk_out := dk_out v @ dk_pending v, dk_pending := [] \<rparr>"
| "dk_step K v p = v"

definition dk_run :: "dk_params \<Rightarrow> gatt_op list \<Rightarrow> dk" where
  "dk_run K ops = foldl (dk_step K) dk_init ops"

definition honest_dk :: "bleak \<Rightarrow> dk_params \<Rightarrow> bool" where
  "honest_dk B K \<longleftrightarrow> (\<forall>ops. bl_queue B ops = dk_out (dk_run K ops))"

lemma dk_run_append: "dk_run K (ops @ new) = foldl (dk_step K) (dk_run K ops) new"
  by (simp add: dk_run_def)

lemma dk_control_out [simp]: "dk_out (dk_control K d v) = dk_out v"
  by (simp add: dk_control_def dk_begin_def dk_finish_def dk_say_def case_prod_unfold split: option.split sum.split)

lemma dk_step_out: "p \<noteq> AwaitNotify \<Longrightarrow> dk_out (dk_step K v p) = dk_out v"
  by (cases p) (simp_all add: dk_say_def)

lemma dk_fragments_sent:
  "dk_session v = None \<Longrightarrow> foldl (dk_step K) v (map (WriteChar CHAR_CIPHERTEXT) ws) = v\<lparr> dk_fragments := dk_fragments v @ ws \<rparr>"
  by (induction ws arbitrary: v) simp_all

lemma dk_init_idle: "list_all (\<lambda>p. \<not> is_write p) ops \<Longrightarrow> dk_run K ops = dk_init"
proof (induction ops rule: rev_induct)
  case (snoc p ops)
  then show ?case by (cases p) (simp_all add: dk_run_append dk_init_def)
qed (simp add: dk_run_def)

text \<open>On link \<open>l\<close>, with the DK in state \<open>v\<close> and everything it has sent taken.\<close>

definition dk_at :: "dk_params \<Rightarrow> nat \<Rightarrow> dk \<Rightarrow> 'r v1_run \<Rightarrow> bool" where
  "dk_at K l v s \<longleftrightarrow> bc_client (rn_client (vr_runner s)) = Some l \<and> rn_taken (vr_runner s) = length (dk_out v)
     \<and> dk_run K (bc_ops (rn_client (vr_runner s))) = v"

text \<open>A stage that succeeds with \<open>x\<close>, moves the DK to \<open>w\<close> and keeps the buffers, the result and the session objects.\<close>

definition dk_does :: "dk_params \<Rightarrow> ('r v1_run, 'a) meth \<Rightarrow> nat \<Rightarrow> 'r v1_run \<Rightarrow> 'a \<Rightarrow> dk \<Rightarrow> 'r v1_run \<Rightarrow> bool" where
  "dk_does K m l s x w t \<longleftrightarrow> m s = (Inr x, t) \<and> dk_at K l w t \<and> rn_buf (vr_runner t) = rn_buf (vr_runner s)
     \<and> vr_result t = vr_result s \<and> same_objects (rn_client (vr_runner s)) (rn_client (vr_runner t))"

lemma dk_doesE: "dk_does K m l s x w t \<Longrightarrow> m s = (Inr x, t) \<and> dk_at K l w t \<and> rn_buf (vr_runner t) = rn_buf (vr_runner s)
     \<and> vr_result t = vr_result s \<and> same_objects (rn_client (vr_runner s)) (rn_client (vr_runner t))"
  by (simp add: dk_does_def)

lemma dk_at_simps [simp]:
  "dk_at K l v (s\<lparr> vr_result := r \<rparr>) = dk_at K l v s"
  "dk_at K l v (s\<lparr> vr_runner := set_buf b x (vr_runner s) \<rparr>) = dk_at K l v s"
  by (simp_all add: dk_at_def set_buf_def)

lemma dk_connected: "live_link B pk \<Longrightarrow> dk_at K l v s \<Longrightarrow> client_is_connected B (rn_client (vr_runner s))"
  by (rule live_connected) (simp_all add: dk_at_def)

lemma dk_empty: "honest_dk B K \<Longrightarrow> dk_at K l v s \<Longrightarrow> require_empty B msg s = (Inr (), s)"
  by (simp add: require_empty_def onR_def dk_at_def queue_empty_def honest_dk_def)

lemma dk_sleep: "dk_at K l v s \<Longrightarrow> \<exists>t. dk_does K sleepM l s () v t"
  by (auto simp: dk_does_def sleepM_apply dk_at_def log_op_def dk_run_append)

lemma dk_write: "live_link B pk \<Longrightarrow> dk_at K l v s \<Longrightarrow> \<exists>t. dk_does K (onR (runC (send_control B d))) l s () (dk_control K d v) t"
  by (auto simp: dk_does_def onR_def dk_at_def live_control dk_run_append)

lemma dk_read: "live_link B pk \<Longrightarrow> dk_at K l v s \<Longrightarrow> \<exists>t. dk_does K (onR (runC (read_fragmented_public_key B))) l s pk v t"
  by (auto simp: dk_does_def onR_def dk_at_def live_read dk_run_append)

lemma dk_ciphertext:
  assumes "live_link B pk" "dk_at K l v s" "length ct = CT_SIZE" "dk_session v = None"
  shows "\<exists>ws t. dk_does K (onR (runC (write_fragmented_ciphertext B ct))) l s (length (ws :: bytes list)) (v\<lparr> dk_fragments := dk_fragments v @ ws \<rparr>) t
    \<and> reassemble_data ws = Inr ct"
proof -
  have "bc_client (rn_client (vr_runner s)) \<noteq> None" using assms(2) by (simp add: dk_at_def)
  from live_ciphertext [OF assms(1) this assms(3)] obtain ws where
    "runC (write_fragmented_ciphertext B ct) (vr_runner s) = (Inr (length ws), did (map (WriteChar CHAR_CIPHERTEXT) ws) (vr_runner s))"
    "reassemble_data ws = Inr ct" by blast
  then show ?thesis using assms(2) dk_fragments_sent [OF assms(4), of K ws]
    by (intro exI [of _ ws]) (auto simp: dk_does_def onR_def dk_at_def dk_run_append)
qed

lemma dk_subscribe: "live_link B pk \<Longrightarrow> dk_at K l v s \<Longrightarrow> \<exists>t. dk_does K (onR (runC (start_notify B))) l s () v t"
  using live_connected [of B pk "rn_client (vr_runner s)"]
  by (auto simp: dk_does_def onR_def dk_at_def runC_def start_notify_def require_connected_def seqM_def bindM_def
      bleak_call_def live_link_def Let_def dk_run_append)

lemma dk_take:
  assumes "honest_dk B K" "dk_at K l v s" "dk_pending v = [w]"
  shows "\<exists>t. dk_does K (onR (take_notification B e)) l s w (v\<lparr> dk_out := dk_out v @ [w], dk_pending := [] \<rparr>) t"
proof -
  have "bl_queue B (bc_ops (rn_client (vr_runner s)) @ [AwaitNotify]) = dk_out v @ [w]"
    using assms by (simp add: honest_dk_def dk_at_def dk_run_append)
  then show ?thesis using assms
    by (auto simp: dk_does_def onR_def dk_at_def take_notification_def Let_def dk_run_append)
qed

lemma at_linked: "live_link B pk \<Longrightarrow> dk_at K l v s \<Longrightarrow> own_session h s \<Longrightarrow> v1_linked B (Some l) (rn_client (vr_runner s))"
  using dk_connected [of B pk K l v s] by (simp add: v1_linked_def own_session_def dk_at_def)

text \<open>Nothing happens while the exchange waits, except that the reply comes in before the keys are in use.\<close>

lemma calm_await:
  assumes "live_link B pk" "honest_dk B K" "calm E" and s: "dk_at K l v s" "own_session h s"
    and m: "dk_does K m l s x w t" and "dk_out w = dk_out v \<or> h3_state h \<noteq> HS_APP_SECURE"
  shows "dk_does K (await3 B E (Some l) m) l s x w t"
proof -
  note t = dk_doesE [OF m]
  let ?c = "rn_client (vr_runner t)" and ?ops = "bc_ops (rn_client (vr_runner s))"
  have own: "own_session h t" using own_same [OF s(2)] t by blast
  have lk: "v1_linked B (Some l) ?c" using at_linked [OF assms(1) _ own] t by blast
  have "foldl (\<lambda>c _. deliver_notification B (Some l) c) ?c (arrivals B ?ops (bc_ops ?c)) = ?c"
  proof (cases "dk_out w = dk_out v")
    case True
    then have "arrivals B ?ops (bc_ops ?c) = []" using assms(2) s(1) t by (simp add: arrivals_def honest_dk_def dk_at_def)
    then show ?thesis by simp
  next
    case False
    then have "deliver_notification B (Some l) ?c = ?c"
      using assms(7) lk own by (simp add: deliver_notification_def own_session_def v1_linked_def)
    then have "foldl (\<lambda>c _. deliver_notification B (Some l) c) ?c ns = ?c" for ns :: "bytes list" by (induction ns) simp_all
    then show ?thesis .
  qed
  then have "cp3_callbacks B E (Some l) ?ops ?c = ?c" using assms(3) by (simp add: cp3_callbacks_def lost_callback_def calm_def)
  then have "upd_client (cp3_callbacks B E (Some l) ?ops) t = t" by (rule upd_client_id)
  then have "await3 B E (Some l) m s = (Inr x, t)" using t assms(3) by (simp add: await3_def Let_def stopped_def calm_def)
  then show ?thesis using m by (simp add: dk_does_def)
qed

lemma live_cp3_link: "live_link B pk \<Longrightarrow> dk_at K l v s \<Longrightarrow> own_session h s \<Longrightarrow> cp3_link B (Some l) s = (Inr (), s)"
  using at_linked [of B pk K l v s h] by (simp add: cp3_link_Inr)

text \<open>The DK's reply \<open>q\<close> has been taken.\<close>

definition dk_took :: "bytes \<Rightarrow> dk \<Rightarrow> dk" where
  "dk_took q v = v\<lparr> dk_out := dk_out v @ [q], dk_pending := [] \<rparr>"

lemma cp3_receive_live:
  assumes B: "live_link B pk" "honest_dk B K" "calm E" and s: "dk_at K l v s" "own_session h s" "h3_state h \<noteq> HS_APP_SECURE"
    and "dk_pending v = [q]" "q = frame_wire V1_FRAME_MAGIC 16 ty p" "v1_valid ty p" "ty \<noteq> V1_ERROR"
  shows "\<exists>t. dk_does K (cp3_receive B E (Some l) ty name) l s q (dk_took q v) t"
proof -
  let ?m = "onR (take_notification B (ProtocolError (''CP3 timed out waiting for '' @ name)))"
  obtain t where "dk_does K ?m l s q (dk_took q v) t" using dk_take [OF B(2) s(1) assms(7)] unfolding dk_took_def by blast
  then have "dk_does K (await3 B E (Some l) ?m) l s q (dk_took q v) t" using s(3) by (intro calm_await [OF B s(1,2)]) simp_all
  note t = dk_doesE [OF this]
  have "own_session h t" using own_same [OF s(2)] t by blast
  moreover have "parse_v1_frame q = Inr \<lparr> v1_subtype = ty, v1_payload = p \<rparr>" using parse_v1_wire [OF assms(9)] assms(8) by simp
  ultimately show ?thesis
    using t live_cp3_link [OF B(1) s(1,2)] live_cp3_link [OF B(1), of K l "dk_took q v" t h] assms(10)
    by (simp add: dk_does_def cp3_receive_def seqM_def bindM_def needM_apply del: bindM_Inr)
qed

lemma cp3_attest_live:
  assumes B: "live_link B pk" "honest_dk B K" "calm E" and s: "dk_at K l v s" "own_session h s" "h3_state h \<noteq> HS_APP_SECURE"
    and "dk_pending v = []" "dk_keys v = None"
  shows "\<exists>t. dk_does K (cp3_attest B E (Some l)) l s (level4_wire, level4_info) (dk_took level4_wire v) t"
proof -
  obtain sq where sq: "encode_sec_query = Inr sq"
    by (simp add: encode_sec_query_def encode_v1_frame_def v1_validate_payload_def v1_payload_sizes_def)
  let ?v = "dk_say level4_wire v"
  have v: "dk_control K sq v = ?v" using assms(8) sq by (simp add: dk_control_def)
  obtain u where "dk_does K (onR (runC (send_control B sq))) l s () ?v u" using dk_write [OF B(1) s(1), of sq] v by auto
  then have "dk_does K (await3 B E (Some l) (onR (runC (send_control B sq)))) l s () ?v u"
    by (intro calm_await [OF B s(1,2)]) (simp_all add: dk_say_def)
  note u = dk_doesE [OF this]
  have own: "own_session h u" using own_same [OF s(2)] u by blast
  have pend: "dk_pending ?v = [level4_wire]" and took: "dk_took level4_wire ?v = dk_took level4_wire v"
    using assms(7) by (simp_all add: dk_say_def dk_took_def)
  have wire: "level4_wire = frame_wire V1_FRAME_MAGIC 16 2 [4, 7, 16, 16]" "v1_valid 2 [4, 7, 16, 16]" by (simp_all add: level4_wire_def v1_valid_iff)
  have au: "dk_at K l ?v u" using u by blast
  obtain t where "dk_does K (cp3_receive B E (Some l) V1_SEC_INFO ''SEC_INFO'') l u level4_wire (dk_took level4_wire v) t"
    using cp3_receive_live [OF B au own s(3) pend wire] unfolding took by auto
  note t = dk_doesE [OF this]
  have "same_objects (rn_client (vr_runner s)) (rn_client (vr_runner t))" using u t same_objects_trans by blast
  then show ?thesis
    using u t level4_wire_parses live_cp3_link [OF B(1) s(1,2)] dk_empty [OF B(2) s(1)]
    by (simp add: sq dk_does_def cp3_attest_def seqM_def bindM_def needM_apply del: bindM_Inr)
qed

lemma cp3_send_live:
  assumes B: "live_link B pk" "honest_dk B K" "calm E" and s: "dk_at K l v s" "own_session h s"
  shows "\<exists>t. dk_does K (cp3_send B E (Some l) name frame) l s () (dk_control K frame v) t"
proof -
  obtain u where "dk_does K sleepM l s () v u" using dk_sleep [OF s(1)] by blast
  then have "dk_does K (await3 B E (Some l) sleepM) l s () v u" by (intro calm_await [OF B s]) simp_all
  note u = dk_doesE [OF this]
  have own: "own_session h u" using own_same [OF s(2)] u by blast
  have au: "dk_at K l v u" using u by simp
  obtain t where "dk_does K (onR (runC (send_control B frame))) l u () (dk_control K frame v) t" using dk_write [OF B(1) au] by blast
  then have "dk_does K (await3 B E (Some l) (onR (runC (send_control B frame)))) l u () (dk_control K frame v) t"
    by (intro calm_await [OF B au own]) simp_all
  note t = dk_doesE [OF this]
  have "own_session h t" "same_objects (rn_client (vr_runner s)) (rn_client (vr_runner t))"
    using own_same [OF own] u t same_objects_trans by blast+
  then show ?thesis
    using u t live_cp3_link [OF B(1) au own] live_cp3_link [OF B(1), of K l "dk_control K frame v" t h] dk_empty [OF B(2) au]
    by (simp add: dk_does_def cp3_send_def seqM_def bindM_def del: bindM_Inr)
qed

lemma cp3_submit_live:
  assumes B: "live_link B pk" "honest_dk B K" "calm E" and s: "dk_at K l v s" "own_session h s" and v: "dk_session v = None" "dk_fragments v = []"
    and k: "encapsulate C r pk = (ct, ss)" "length pk = PK_SIZE" "length ct = CT_SIZE" "length ss = SS_SIZE"
  shows "\<exists>t ws. cp3_submit B E C r (Some l) s = (Inr (pk, ct), t) \<and> dk_at K l (v\<lparr> dk_fragments := ws \<rparr>) t \<and> own_session h t
    \<and> rn_buf (vr_runner t) ''secret'' = ss \<and> reassemble_data ws = Inr ct"
proof -
  obtain u where "dk_does K (onR (runC (read_fragmented_public_key B))) l s pk v u" using dk_read [OF B(1) s(1)] by blast
  then have "dk_does K (await3 B E (Some l) (onR (runC (read_fragmented_public_key B)))) l s pk v u"
    by (intro calm_await [OF B s]) simp_all
  note u = dk_doesE [OF this]
  let ?v = "u\<lparr> vr_result := (vr_result u)\<lparr> c1_public_key_len := length pk \<rparr>, vr_runner := set_buf ''secret'' ss (vr_runner u) \<rparr>"
  have own: "own_session h u" using own_same [OF s(2)] u by blast
  have vv: "dk_at K l v ?v" "own_session h ?v" using u own by (simp_all add: dk_at_def own_session_def)
  obtain ws w where ws: "dk_does K (onR (runC (write_fragmented_ciphertext B ct))) l ?v (length (ws :: bytes list)) (v\<lparr> dk_fragments := ws \<rparr>) w"
    "reassemble_data ws = Inr ct"
    using dk_ciphertext [OF B(1) vv(1) k(3) v(1)] v(2) by auto
  then have "dk_does K (await3 B E (Some l) (onR (runC (write_fragmented_ciphertext B ct)))) l ?v (length ws) (v\<lparr> dk_fragments := ws \<rparr>) w"
    by (intro calm_await [OF B vv]) simp_all
  note w = dk_doesE [OF this]
  let ?w = "w\<lparr> vr_result := (vr_result w)\<lparr> c1_ciphertext_fragments := length ws \<rparr> \<rparr>"
  have "own_session h w" using own_same [OF vv(2)] w by blast
  then have ow: "own_session h ?w" "dk_at K l (v\<lparr> dk_fragments := ws \<rparr>) ?w" using w by simp_all
  have set: "onR (setM (set_buf a x)) y = (Inr (), y\<lparr> vr_runner := set_buf a x (vr_runner y) \<rparr>)" for a x and y :: "'a v1_cp3_result_scheme v1_run"
    by (simp add: onR_def)
  have "cp3_submit B E C r (Some l) s = (Inr (pk, ct), ?w)"
    using u w live_cp3_link [OF B(1) vv] live_cp3_link [OF B(1) ow(2,1)] live_cp3_link [OF B(1), of K l v u h] own k
    by (simp add: cp3_submit_def seqM_def bindM_def needM_apply set set_result_apply del: bindM_Inr)
  then show ?thesis using ow w ws(2) by (intro exI [of _ ?w] exI [of _ ws]) (simp add: set_buf_apply)
qed

lemma onS_live:
  assumes "own_session h s" "m h = (Inr x, h')" "h3_state h' \<noteq> HS_CLOSED"
  shows "onS m s = (Inr x, upd_client (cp3_put h') s)" "own_session h' (upd_client (cp3_put h') s)"
    "dk_at K l v (upd_client (cp3_put h') s) = dk_at K l v s"
  using assms(1,2) own_put [OF assms(1,3)]
  by (simp_all add: onS_def own_session_def dk_at_def upd_client_def cp3_put_def split: option.split list.split)

text \<open>The DK's states once it has the session and once it has sent FINISHED\_P.\<close>

definition dk_shared :: "bytes \<Rightarrow> bytes \<Rightarrow> bytes \<Rightarrow> dk \<Rightarrow> dk" where
  "dk_shared ss ct start v = v\<lparr> dk_session := Some (ss, ct, start) \<rparr>"

definition dk_secure :: "dk_params \<Rightarrow> bytes \<Rightarrow> bytes \<Rightarrow> bytes \<Rightarrow> dk \<Rightarrow> dk" where
  "dk_secure K ss ct start v = v\<lparr> dk_keys := Some (dk_app_keys ss (fst (snd K)) ct start) \<rparr>"

lemma sec_query_wire: "encode_sec_query = Inr d \<longleftrightarrow> d = frame_wire V1_FRAME_MAGIC 16 1 []"
  by (auto simp: encode_sec_query_def pqv1.encode_Inr v1_valid_iff)

lemma wires_differ:
  assumes "t = 18 \<or> t = 20"
  shows "encode_sec_query \<noteq> Inr (frame_wire V1_FRAME_MAGIC 16 t p)"
  using assms by (auto simp: sec_query_wire frame_wire_def)

lemma dk_control_start:
  assumes "dk_keys v = None" "dk_session v = None" "reassemble_data (dk_fragments v) = Inr ct" "length sid = V1_CP3_SESSION_ID_SIZE"
    and "start = frame_wire V1_FRAME_MAGIC 16 20 sid"
  shows "dk_control (C, pk, sk) start v
    = dk_say (frame_wire V1_FRAME_MAGIC 16 21 (cp3_th0 pk ct start)) (dk_shared (kem_decap C sk ct) ct start v)"
proof -
  have "parse_v1_frame start = Inr \<lparr> v1_subtype = 20, v1_payload = sid \<rparr>" using assms(4,5) parse_v1_wire [of 20 sid] by (simp add: v1_valid_iff)
  moreover have "encode_sec_query \<noteq> Inr start" using assms(5) wires_differ by simp
  ultimately show ?thesis using assms(1-3) by (simp add: dk_control_def dk_begin_def dk_shared_def)
qed

lemma dk_control_finish:
  assumes "dk_keys v = None" "dk_session v = Some (ss, ct, start)"
  shows "dk_control (C, pk, sk) (dk_finished_c ss pk ct start) v = dk_say (dk_finished_p ss pk ct start) (dk_secure (C, pk, sk) ss ct start v)"
proof -
  have "encode_sec_query \<noteq> Inr (dk_finished_c ss pk ct start)" using wires_differ by (simp add: dk_finished_c_def Let_def)
  then show ?thesis using assms by (simp add: dk_control_def dk_finish_def dk_secure_def)
qed

lemma dk_view [simp]:
  "dk_keys (dk_say w v) = dk_keys v" "dk_session (dk_say w v) = dk_session v" "dk_fragments (dk_say w v) = dk_fragments v"
  "dk_out (dk_say w v) = dk_out v" "dk_pending (dk_say w v) = dk_pending v @ [w]"
  "dk_keys (dk_took w v) = dk_keys v" "dk_session (dk_took w v) = dk_session v" "dk_fragments (dk_took w v) = dk_fragments v"
  "dk_out (dk_took w v) = dk_out v @ [w]" "dk_pending (dk_took w v) = []" "dk_took w (dk_say w' v) = dk_took w v"
  "dk_keys (dk_shared ss ct st v) = dk_keys v" "dk_session (dk_shared ss ct st v) = Some (ss, ct, st)"
  "dk_pending (dk_shared ss ct st v) = dk_pending v" "dk_out (dk_shared ss ct st v) = dk_out v"
  "dk_keys (dk_secure K ss ct st v) = Some (dk_app_keys ss (fst (snd K)) ct st)"
  "dk_pending (dk_secure K ss ct st v) = dk_pending v" "dk_out (dk_secure K ss ct st v) = dk_out v"
  by (simp_all add: dk_say_def dk_took_def dk_shared_def dk_secure_def)

lemma cp3_handshake_live:
  assumes B: "live_link B pk" "honest_dk B (C, pk, sk)" "calm E" and s: "dk_at (C, pk, sk) l v s" "own_session cp3_init s"
    and secret: "rn_buf (vr_runner s) ''secret'' = ss" "kem_decap C sk ct = ss" and sz: "length pk = PK_SIZE" "length ct = CT_SIZE" "length ss = SS_SIZE"
    "length sid = V1_CP3_SESSION_ID_SIZE"
    and start: "start = frame_wire V1_FRAME_MAGIC 16 20 sid"
    and v: "dk_keys v = None" "dk_session v = None" "reassemble_data (dk_fragments v) = Inr ct" "dk_pending v = []"
  shows "\<exists>t h w. cp3_handshake B E sid (Some l) level4_wire (pk, ct) s = (Inr (), t) \<and> dk_at (C, pk, sk) l w t \<and> own_session h t
    \<and> dk_keys w = Some (dk_app_keys ss pk ct start) \<and> dk_pending w = []"
proof -
  let ?K = "(C, pk, sk)" and ?ready = "frame_wire V1_FRAME_MAGIC 16 21 (cp3_th0 pk ct start)"
  let ?fc = "dk_finished_c ss pk ct start" and ?fp = "dk_finished_p ss pk ct start"
  have st: "encode_v1_frame V1_START_CP3 sid = Inr start"
    using sz(4) start by (simp add: pqv1.encode_Inr v1_valid_iff)
  obtain h1 h2 h3 where h: "cp3_begin ss level4_wire pk ct start cp3_init = (Inr (), h1)" "h3_state h1 = HS_WAIT_READY_CP3"
    "cp3_accept_ready ?ready h1 = (Inr ?fc, h2)" "h3_state h2 = HS_WAIT_FINISHED_P"
    "cp3_accept_finished_p ?fp h2 = (Inr (), h3)" "h3_state h3 = HS_APP_SECURE"
    using dk_completes [OF sz start] by metis
  note s1 = onS_live [where m = "cp3_begin ss level4_wire pk ct start" and h' = h1, OF s(2) h(1), unfolded h(2), simplified]
  let ?s1 = "upd_client (cp3_put h1) s" and ?v2 = "dk_say ?ready (dk_shared ss ct start v)"
  have c2: "dk_control ?K start v = ?v2" using dk_control_start [OF v(1-3) sz(4) start] secret(2) by simp
  obtain s2 where "dk_does ?K (cp3_send B E (Some l) ''START_CP3'' start) l ?s1 () ?v2 s2"
    using cp3_send_live [OF B _ s1(2)] s1(3) s(1) c2 by metis
  note s2 = dk_doesE [OF this]
  let ?s2 = "s2\<lparr> vr_result := (vr_result s2)\<lparr> c3_start_sent := True \<rparr> \<rparr>" and ?v3 = "dk_took ?ready (dk_shared ss ct start v)"
  have "own_session h1 s2" using own_same [OF s1(2)] s2 by blast
  then have o2: "own_session h1 ?s2" "dk_at ?K l ?v2 ?s2" using s2 by simp_all
  have "dk_pending ?v2 = [?ready]" "v1_valid 21 (cp3_th0 pk ct start)" using v(4) by (simp_all add: v1_valid_iff cp3_th0_def)
  then obtain s3 where "dk_does ?K (cp3_receive B E (Some l) V1_READY_CP3 ''READY_CP3'') l ?s2 ?ready ?v3 s3"
    using cp3_receive_live [OF B o2(2,1), of ?ready 21 "cp3_th0 pk ct start" "''READY_CP3''"] h(2) by auto
  note s3 = dk_doesE [OF this]
  have o3: "own_session h1 s3" using own_same [OF o2(1)] s3 by blast
  note s4 = onS_live [where m = "cp3_accept_ready ?ready" and h' = h2, OF o3 h(3), unfolded h(4), simplified]
  let ?s4 = "(upd_client (cp3_put h2) s3)\<lparr> vr_result := (vr_result (upd_client (cp3_put h2) s3))\<lparr> c3_transcript_match := True \<rparr> \<rparr>"
  have o4: "own_session h2 ?s4" "dk_at ?K l ?v3 ?s4" using s4 s3 by simp_all
  let ?v5 = "dk_say ?fp (dk_secure ?K ss ct start ?v3)"
  have c5: "dk_control ?K ?fc ?v3 = ?v5" using v(1) by (intro dk_control_finish) simp_all
  obtain s5 where "dk_does ?K (cp3_send B E (Some l) ''FINISHED_C'' ?fc) l ?s4 () ?v5 s5"
    using cp3_send_live [OF B o4(2,1)] c5 by metis
  note s5 = dk_doesE [OF this]
  let ?s5 = "s5\<lparr> vr_result := (vr_result s5)\<lparr> c3_finished_c_sent := True \<rparr> \<rparr>" and ?v6 = "dk_took ?fp (dk_secure ?K ss ct start ?v3)"
  have "own_session h2 s5" using own_same [OF o4(1)] s5 by blast
  then have o5: "own_session h2 ?s5" "dk_at ?K l ?v5 ?s5" using s5 by simp_all
  obtain p where p: "?fp = frame_wire V1_FRAME_MAGIC 16 V1_FINISHED_P p" "v1_valid V1_FINISHED_P p"
    by (simp add: dk_finished_p_def Let_def v1_valid_iff)
  have "dk_pending ?v5 = [?fp]" by simp
  then obtain s6 where "dk_does ?K (cp3_receive B E (Some l) V1_FINISHED_P ''FINISHED_P'') l ?s5 ?fp ?v6 s6"
    using cp3_receive_live [OF B o5(2,1) _ _ p, of "''FINISHED_P''"] h(4) by auto
  note s6 = dk_doesE [OF this]
  have o6: "own_session h2 s6" using own_same [OF o5(1)] s6 by blast
  note s7 = onS_live [where m = "cp3_accept_finished_p ?fp" and h' = h3, OF o6 h(5), unfolded h(6), simplified]
  have read: "bindM (readM (\<lambda>s. Inr (rn_buf (vr_runner s) ''secret''))) f s = f ss s" for f :: "bytes \<Rightarrow> ('a v1_cp3_result_scheme v1_run, unit) meth"
    using secret by (simp add: bindM_def)
  have "cp3_handshake B E sid (Some l) level4_wire (pk, ct) s = (Inr (), upd_client (cp3_put h3) s6)"
    using s1(1) s2 s3 s4(1) s5 s6 s7(1)
    by (simp add: cp3_handshake_def st read seqM_def bindM_step(1) set_result_apply del: bindM_Inr)
  moreover have "dk_at ?K l ?v6 (upd_client (cp3_put h3) s6)" using s7(3) s6 by blast
  moreover have "dk_keys ?v6 = Some (dk_app_keys ss pk ct start)" "dk_pending ?v6 = []" by simp_all
  ultimately show ?thesis using s7(2) by blast
qed

lemma cp3_quiet_live:
  assumes B: "live_link B pk" "honest_dk B K" "calm E" and s: "dk_at K l v s" "own_session h s" "dk_pending v = []"
  shows "\<exists>t. cp3_quiet B E (Some l) s = (Inr (), t) \<and> dk_at K l v t"
proof -
  let ?s = "s\<lparr> vr_runner := wipe_buf ''secret'' (vr_runner s) \<rparr>" and ?msg = "''unexpected extra notification after FINISHED_P''"
  have s': "dk_at K l v ?s" "own_session h ?s" using s by (simp_all add: dk_at_def own_session_def wipe_buf_def)
  let ?ops = "bc_ops (rn_client (vr_runner ?s))"
  have run: "dk_run K (?ops @ [AwaitNotify]) = v" using s'(1) s(3) by (simp add: dk_at_def dk_run_append)
  then have q: "bl_queue B (?ops @ [AwaitNotify]) = dk_out v" using B(2) by (simp add: honest_dk_def)
  obtain t where t: "quiet_window B ?msg ?s = (Inr (), t)"
    "rn_client (vr_runner t) = rn_client (vr_runner ?s)\<lparr> bc_ops := ?ops @ [AwaitNotify] \<rparr>" "rn_taken (vr_runner t) = rn_taken (vr_runner ?s)"
    using s'(1) q by (simp add: quiet_window_def onR_def take_notification_def dk_at_def Let_def)
  let ?c = "rn_client (vr_runner t)"
  have at: "dk_at K l v t" using t(2,3) run s'(1) by (simp add: dk_at_def)
  have "cp3_callbacks B E (Some l) ?ops ?c = ?c"
    using B(2,3) s'(1) at by (simp add: cp3_callbacks_def lost_callback_def calm_def arrivals_def honest_dk_def dk_at_def)
  then have "upd_client (cp3_callbacks B E (Some l) ?ops) t = t" by (rule upd_client_id)
  then have "await3 B E (Some l) (quiet_window B ?msg) ?s = (Inr (), t)"
    using t B(3) by (simp add: await3_def Let_def stopped_def calm_def)
  moreover have "same_objects (rn_client (vr_runner ?s)) ?c" using t(2) by (simp add: same_objects_def)
  then have "cp3_link B (Some l) t = (Inr (), t)" using own_same [OF s'(2)] live_cp3_link [OF B(1) at] by blast
  ultimately show ?thesis using at by (simp add: cp3_quiet_def seqM_def bindM_def onR_def set_result_apply del: bindM_Inr)
qed

lemma cp3_exchange_live:
  assumes B: "live_link B pk" "honest_dk B (C, pk, sk)" "calm E"
    and s: "dk_at (C, pk, sk) l dk_init s" "retired_closed (rn_client (vr_runner s))" "bc_v1_cp3_session (rn_client (vr_runner s)) = None"
    and kem: "kem_laws C" "kem_keypair C seed = (pk, sk)" "encapsulate C r pk = (ct, ss)" and sid: "length sid = V1_CP3_SESSION_ID_SIZE"
  shows "\<exists>t w h. cp3_exchange B E C r sid None s = (Inr level4_info, t) \<and> dk_run (C, pk, sk) (bc_ops (rn_client (vr_runner t))) = w
    \<and> dk_keys w = Some (dk_app_keys ss pk ct (frame_wire V1_FRAME_MAGIC 16 20 sid)) \<and> dk_pending w = []
    \<and> cp3_completed ss level4_wire pk ct sid h \<and> own_session h t"
proof -
  note k = kem_lawsD [OF kem]
  let ?start = "frame_wire V1_FRAME_MAGIC 16 20 sid" and ?K = "(C, pk, sk)"
  let ?s = "upd_client (\<lambda>c. c\<lparr> bc_v1_cp3_session := Some (V1Handshake cp3_init), bc_v1_cp3_link := Some l \<rparr>) s"
  have s0: "dk_at ?K l dk_init ?s" "own_session cp3_init ?s" "h3_state cp3_init \<noteq> HS_APP_SECURE"
    using s(1,2) by (simp_all add: dk_at_def upd_client_def own_session_def retired_closed_def cp3_get_def cp3_init_def)
  obtain s1 where "dk_does ?K (onR (runC (start_notify B))) l ?s () dk_init s1" using dk_subscribe [OF B(1) s0(1)] by blast
  then have "dk_does ?K (await3 B E (Some l) (onR (runC (start_notify B)))) l ?s () dk_init s1" by (intro calm_await [OF B s0(1,2)]) simp_all
  note s1 = dk_doesE [OF this]
  have o1: "own_session cp3_init s1" using own_same [OF s0(2)] s1 by blast
  have init: "dk_pending dk_init = []" "dk_keys dk_init = None" "dk_session dk_init = None" "dk_fragments dk_init = []" by (simp_all add: dk_init_def)
  obtain s2 where "dk_does ?K (cp3_attest B E (Some l)) l s1 (level4_wire, level4_info) (dk_took level4_wire dk_init) s2"
    using cp3_attest_live [OF B _ o1 s0(3) init(1,2), of l] s1 by auto
  note s2 = dk_doesE [OF this]
  have o2: "own_session cp3_init s2" using own_same [OF o1] s2 by blast
  obtain s3 ws where s3: "cp3_submit B E C r (Some l) s2 = (Inr (pk, ct), s3)" "own_session cp3_init s3"
    "dk_at ?K l ((dk_took level4_wire dk_init)\<lparr> dk_fragments := ws \<rparr>) s3" "rn_buf (vr_runner s3) ''secret'' = ss" "reassemble_data ws = Inr ct"
    using cp3_submit_live [OF B _ o2 _ _ kem(3) k(1-3), of l "dk_took level4_wire dk_init"] s2 init by auto
  let ?v3 = "(dk_took level4_wire dk_init)\<lparr> dk_fragments := ws \<rparr>"
  have v3: "dk_pending ?v3 = []" "dk_keys ?v3 = None" "dk_session ?v3 = None" "dk_fragments ?v3 = ws" using init by (simp_all add: dk_took_def)
  obtain s4 where "dk_does ?K (cp3_attest B E (Some l)) l s3 (level4_wire, level4_info) (dk_took level4_wire ?v3) s4"
    using cp3_attest_live [OF B s3(3,2) s0(3) v3(1,2)] by auto
  note s4 = dk_doesE [OF this]
  have o4: "own_session cp3_init s4" "dk_at ?K l (dk_took level4_wire ?v3) s4" "rn_buf (vr_runner s4) ''secret'' = ss"
    using own_same [OF s3(2)] s4 s3(4) by auto
  obtain s5 h w where s5: "cp3_handshake B E sid (Some l) level4_wire (pk, ct) s4 = (Inr (), s5)" "dk_at ?K l w s5" "own_session h s5"
    "dk_keys w = Some (dk_app_keys ss pk ct ?start)" "dk_pending w = []"
    using cp3_handshake_live [OF B o4(2,1,3) k(4) k(1-3) sid refl] v3(2-4) s3(5) by auto
  obtain t where t: "cp3_quiet B E (Some l) s5 = (Inr (), t)" "dk_at ?K l w t" using cp3_quiet_live [OF B s5(2,3,5)] by blast
  obtain h' where h': "cp3_completed ss level4_wire pk ct sid h'" "own_session h' s5"
    using cp3_handshake_Inr [OF s5(1) o4(1) closing.kept_refl] o4(3) by auto
  have own: "own_session h' t" using cp3_quiet_Inr [OF t(1) h'(2)] by blast
  have "cp3_body B E C r sid (Some l) None ?s = (Inr level4_info, t)"
    using live_cp3_link [OF B(1) s0(1,2)] s1 s2 s3(1) s4 s5(1) t(1)
    by (simp add: cp3_body_def seqM_def bindM_step(1) del: bindM_Inr)
  then show ?thesis using s(1,3) t(2) h'(1) own s5(4,5)
    by (auto simp: wipe_buf_def own_session_def cp3_exchange_def cp3_exchange_in_def bind_read catchM_def finallyM_def onerr_def seqM_def onR_def
        bindM_def dk_at_def del: bindM_Inr)
qed

text \<open>The sessions of a client that starts a run.\<close>

definition no_session :: "ble_client \<Rightarrow> bool" where
  "no_session c \<longleftrightarrow> bc_v1_cp3_session c = None \<and> retired_closed c"

lemma cp3_bonded_run:
  assumes "live_link B pk" "honest_dk B (C, pk, sk)" "calm E"
    and "bc_client c = Some l" "list_all (\<lambda>p. \<not> is_write p) (bc_ops c)" "no_session c" "inspect_pairing W p = (Inr st, p')" "ps_is_paired st"
    and "kem_laws C" "kem_keypair C seed = (pk, sk)" "encapsulate C r pk = (ct, ss)" and "length sid = V1_CP3_SESSION_ID_SIZE"
  shows "\<exists>res t. run_v1_cp3 B E (winrt_backend W T timeout) C r sid None False (new_v1_run c p res0) = (Inr res, t)
    \<and> dk_keys (dk_run (C, pk, sk) (bc_ops (rn_client (vr_runner t)))) = Some (dk_app_keys ss pk ct (frame_wire V1_FRAME_MAGIC 16 20 sid))"
proof -
  let ?s = "new_v1_run c p res0 :: v1_cp3_result v1_run"
  let ?Q = "\<lambda>c. dk_keys (dk_run (C, pk, sk) (bc_ops c)) = Some (dk_app_keys ss pk ct (frame_wire V1_FRAME_MAGIC 16 20 sid))"
  have s: "bc_client (rn_client (vr_runner ?s)) = Some l" "rn_client (vr_runner ?s) = c" "rn_taken (vr_runner ?s) = 0" "vr_pairing ?s = p"
    using assms(4) by (simp_all add: new_v1_run_def new_runner_def)
  have "\<exists>t. cp3_exchange B E C r sid None u = (Inr level4_info, t) \<and> ?Q (rn_client (vr_runner t))"
    if u: "bc_client (rn_client (vr_runner u)) = Some l" "rn_taken (vr_runner u) = rn_taken (vr_runner ?s)"
      "bc_ops (rn_client (vr_runner u)) = bc_ops (rn_client (vr_runner ?s)) @ [SystemPairing]"
      "same_objects (rn_client (vr_runner ?s)) (rn_client (vr_runner u))" for u :: "v1_cp3_result v1_run"
  proof -
    have "dk_run (C, pk, sk) (bc_ops (rn_client (vr_runner u))) = dk_init" using u(3) s(2) assms(5) by (intro dk_init_idle) simp
    then have "dk_at (C, pk, sk) l dk_init u" using u(1,2) s(3) by (simp add: dk_at_def dk_init_def)
    then show ?thesis
      using cp3_exchange_live [OF assms(1-3) \<open>dk_at (C, pk, sk) l dk_init u\<close> _ _ assms(9-12)] assms(6) u(4) s(2)
      by (fastforce simp: no_session_def same_objects_def retired_closed_def)
  qed
  from run_v1_over_bond [where Q = ?Q and P = "winrt_backend W T timeout" and rt = V1CP3Result and retain = True, OF assms(1) s(1) _ assms(8) this]
  show ?thesis using assms(7) s(4) by (simp add: run_v1_cp3_def onerr_def; fastforce)
qed

text \<open>The exchange leaves the part of the result that describes the pairing.\<close>

lemma keeps_start_base3:
  "keeps_start s (snd (onS f s))" "keeps_start s (snd (cp3_link B link s))" "keeps_start s (snd (setM (upd_client g) s))"
  "keeps_start s (snd (m s)) \<Longrightarrow> keeps_start s (snd (await3 B E link m s))"
  "keeps_start s (snd (m s)) \<Longrightarrow> keeps_start s (snd (onerr close_session m s))"
  by (auto simp: keeps_start_def onS_def cp3_link_def onR_def upd_client_def close_session_def onerr_def await3_keeps
      Let_def case_prod_unfold split: prod.split sum.split)

lemma keeps_start_set3:
  "keeps_start s (snd (set_result (\<lambda>u. u\<lparr> c3_start_sent := b \<rparr>) s))"
  "keeps_start s (snd (set_result (\<lambda>u. u\<lparr> c3_transcript_match := b \<rparr>) s))"
  "keeps_start s (snd (set_result (\<lambda>u. u\<lparr> c3_finished_c_sent := b \<rparr>) s))"
  "keeps_start s (snd (set_result (\<lambda>u. u\<lparr> c3_finished_p_verified := b, c3_app_secure := b' \<rparr>) s))"
  by (simp_all add: keeps_start_def set_result_def)

lemmas keeps_start_steps = keeps_start_base keeps_start_set keeps_start_base3 keeps_start_set3

lemma cp3_keeps_start:
  assumes "\<And>f l s. app = Some f \<Longrightarrow> keeps_start s (snd (f l s))"
  shows "keeps_start s (snd (cp3_exchange B E C r sid app s))"
proof -
  have app: "keeps_start s (snd ((case app of None \<Rightarrow> retM () | Some app \<Rightarrow> seqM (app link) (cp3_link B link)) s))" for link s
  proof (cases app)
    case (Some f)
    have "keeps_start s (snd (seqM (f link) (cp3_link B link) s))" by (intro starts.kept_seq assms [OF Some] keeps_start_base3)
    then show ?thesis using Some by simp
  qed (simp add: starts.kept_refl)
  show ?thesis
    unfolding cp3_exchange_def cp3_exchange_in_def cp3_body_def cp3_attest_def cp3_receive_def cp3_submit_def cp3_handshake_def
      cp3_send_def cp3_quiet_def Let_def case_prod_unfold
    by (intro app starts.kept_intros keeps_start_steps)
qed

lemma run_v1_cp3_Inr:
  assumes "run_v1_cp3 B E P C r sid neg unpair_first s = (Inr res, t)" and "retired_closed (rn_client (vr_runner s))"
  shows "neg = None \<and> (c1_scenario res = ''bonded'' \<or> c1_scenario res = ''cold'' \<and> v1_cold_start P res)
    \<and> is_authenticated_level4 (c1_security_info res) \<and> c3_app_secure res
    \<and> (\<exists>k pk ct ss h. attested B k \<and> attested B (Suc k) \<and> encapsulate C r pk = (ct, ss) \<and> cp3_completed ss level4_wire pk ct sid h
        \<and> h3_state h = HS_APP_SECURE \<and> own_session h t)"
proof -
  have run: "run_v1 B P V1CP3Result None unpair_first (cp3_exchange B E C r sid None) True s = (Inr res, t)" and neg: "neg = None"
    using assms(1) by (auto simp: run_v1_cp3_def split: if_splits)
  have sc: "c1_scenario (V1CP3Result sc i) = sc" for sc i by (simp add: V1CP3Result_def V1CP1Result_def v1_cp1_result.defs)
  have ks: "keeps_start s (snd (cp3_exchange B E C r sid None s))" for s by (rule cp3_keeps_start) simp
  note st = run_v1_started [OF run ks sc]
  obtain u v info where u: "keeps_retired s u" "cp3_exchange B E C r sid None u = (Inr info, v)" "vr_runner t = vr_runner v"
    "res = (vr_result v)\<lparr> c1_security_info := info \<rparr>"
    using retiring_run.kept_run_Inr [OF run] by blast
  have ru: "retired_closed (rn_client (vr_runner u))" using u(1) assms(2) by (simp add: keeps_retired_def)
  obtain w pk ct ss h where w: "is_authenticated_level4 info" "attested B (rn_taken (vr_runner u))" "attested B (Suc (rn_taken (vr_runner u)))"
    "encapsulate C r pk = (ct, ss)" "cp3_completed ss level4_wire pk ct sid h" "own_session h w" "h3_state h = HS_APP_SECURE"
    "c3_app_secure (vr_result w)" "rn_client (vr_runner v) = rn_client (vr_runner w)" "vr_result v = vr_result w"
    using cp3_exchange_Inr [OF u(2) ru] by auto
  have "own_session h t" using w(6,9) u(3) by (simp add: own_session_def)
  then have "\<exists>k pk ct ss h. attested B k \<and> attested B (Suc k) \<and> encapsulate C r pk = (ct, ss) \<and> cp3_completed ss level4_wire pk ct sid h
      \<and> h3_state h = HS_APP_SECURE \<and> own_session h t" using w(2-5,7) by blast
  moreover have "is_authenticated_level4 (c1_security_info res)" "c3_app_secure res" using w(1,8,10) u(4) by simp_all
  ultimately show ?thesis using st neg by blast
qed

section \<open>Properties\<close>

text \<open>
  C24. A CP3 run that returns leaves the client with application keys it may use, and only then: the link was
  attested at Level 4 twice in a row, with the same pairing evidence as in CP1; the session object the
  client owns is in APP\_SECURE and is what the handshake methods make of the encapsulated secret and the
  exact transcript, READY\_CP3 and FINISHED\_P included; and it does not outlive the next notification,
  which clears it.
\<close>

theorem v1_cp3_run_sound:
  assumes "run_v1_cp3 B E (winrt_backend W T timeout) C r sid neg unpair_first (new_v1_run c p res0) = (Inr res, t)"
    and "no_session c"
  shows "neg = None \<and> is_authenticated_level4 (c1_security_info res) \<and> c3_app_secure res
    \<and> (c1_scenario res = ''bonded'' \<or> c1_scenario res = ''cold'' \<and> v1_consented T res)
    \<and> (\<exists>k pk ct ss h. attested B k \<and> attested B (Suc k) \<and> encapsulate C r pk = (ct, ss)
        \<and> cp3_completed ss level4_wire pk ct sid h \<and> h3_state h = HS_APP_SECURE
        \<and> bc_v1_cp3_session (rn_client (vr_runner t)) = Some (V1Handshake h)
        \<and> all_closed (deliver_notification B link (rn_client (vr_runner t))))"
proof -
  have rc: "retired_closed (rn_client (vr_runner (new_v1_run c p res0)))"
    using assms(2) by (simp add: no_session_def new_v1_run_def new_runner_def)
  note r = run_v1_cp3_Inr [OF assms(1) rc]
  obtain k pk ct ss h where h: "attested B k" "attested B (Suc k)" "encapsulate C r pk = (ct, ss)" "cp3_completed ss level4_wire pk ct sid h"
    "h3_state h = HS_APP_SECURE" "own_session h t" using r by blast
  note own = own_session_owned [OF h(6)]
  have "all_closed (deliver_notification B link (rn_client (vr_runner t)))"
    using h(5,6) own by (simp add: deliver_notification_def own_session_def all_closed_def cp3_put_def retired_closed_def)
  then show ?thesis using r v1_cold_start_consented h own by blast
qed

lemma demo_no_session: "no_session demo_client"
  by (simp add: no_session_def demo_client_def BLECentralClient_init_def retired_closed_def)

definition calm_env :: cp3_env where
  "calm_env = \<lparr> ev_lost = (\<lambda>_. False), ev_stop = (\<lambda>_. None) \<rparr>"

lemma calm_env: "calm calm_env"
  by (simp add: calm_def calm_env_def)

text \<open>A link to the honest DK, for a demonstration key pair.\<close>

definition demo_dk :: bleak where
  "demo_dk = reactive_link (\<lambda>ops. dk_out (dk_run (demo_crypto, replicate 1184 3, replicate 2400 3) ops))"

lemma demo_dk: "live_link demo_dk (replicate 1184 3)" "honest_dk demo_dk (demo_crypto, replicate 1184 3, replicate 2400 3)"
  by (simp_all add: demo_dk_def reactive_link_live honest_dk_def)

theorem v1_cp3_run_sound_witness:
  "\<exists>res t h. run_v1_cp3 demo_dk calm_env (winrt_backend demo_winrt demo_attempt 90) demo_crypto 5 (replicate 16 1) None False
       (new_v1_run demo_client demo_bonded (V1CP3Result [] level4_info)) = (Inr res, t)
     \<and> bc_v1_cp3_session (rn_client (vr_runner t)) = Some (V1Handshake h) \<and> h3_state h = HS_APP_SECURE"
proof -
  obtain st p' where p: "inspect_pairing demo_winrt demo_bonded = (Inr st, p')" "ps_is_paired st" using demo_bonded_inspect by blast
  obtain ct ss where enc: "encapsulate demo_crypto 5 (replicate 1184 3) = (ct, ss)" by fastforce
  obtain res t where r: "run_v1_cp3 demo_dk calm_env (winrt_backend demo_winrt demo_attempt 90) demo_crypto 5 (replicate 16 1) None False
      (new_v1_run demo_client demo_bonded (V1CP3Result [] level4_info)) = (Inr res, t)"
    using cp3_bonded_run [OF demo_dk calm_env demo_client_on demo_client_fresh demo_no_session p demo_kem_laws demo_keypair enc,
        of "replicate 16 1"] by (metis length_replicate)
  then show ?thesis using v1_cp3_run_sound [OF r demo_no_session] by blast
qed

text \<open>
  A CP3 run that raises leaves no open session: whatever the peer, the link, the guard task, the timeout
  and the disconnect callback do, every handshake object the client holds or has let go of is closed
  and zero.
\<close>

theorem v1_cp3_run_fails_closed:
  assumes "run_v1_cp3 B E P C r sid None unpair_first (new_v1_run c p res0) = (Inl e, t)" and "no_session c"
  shows "all_closed (rn_client (vr_runner t))"
proof -
  let ?m = "run_v1 B P V1CP3Result None unpair_first (cp3_exchange B E C r sid None) True"
  have run: "onerr (upd_client clear_owned_session) ?m (new_v1_run c p res0) = (Inl e, t)" using assms(1) by (simp add: run_v1_cp3_def)
  have kept: "keeps_retired (new_v1_run c p res0) (snd (?m (new_v1_run c p res0)))"
    by (intro retiring_run.kept_run keeps_retired_exchange) simp
  have "retired_closed (rn_client (vr_runner (new_v1_run c p res0)))"
    using assms(2) by (simp add: no_session_def new_v1_run_def new_runner_def)
  then show ?thesis by (rule cp3_run_error [OF run _ kept])
qed

theorem v1_cp3_run_fails_closed_witness:
  "\<exists>e t. run_v1_cp3 (demo_prompt [[]]) calm_env (winrt_backend demo_winrt demo_attempt 90) demo_crypto 5 [] None False
       (new_v1_run demo_client demo_bonded (V1CP3Result [] level4_info)) = (Inl e, t) \<and> all_closed (rn_client (vr_runner t))"
proof -
  let ?m = "run_v1_cp3 (demo_prompt [[]]) calm_env (winrt_backend demo_winrt demo_attempt 90) demo_crypto 5 [] None False
       (new_v1_run demo_client demo_bonded (V1CP3Result [] level4_info))"
  have rc: "retired_closed (rn_client (vr_runner (new_v1_run demo_client demo_bonded (V1CP3Result [] level4_info))))"
    using demo_no_session by (simp add: no_session_def new_v1_run_def new_runner_def)
  have "\<not> attested (demo_prompt [[]]) (Suc k)" for k
    by (simp add: attested_def received_def demo_prompt_def)
  then have "fst ?m \<noteq> Inr res" for res
    using run_v1_cp3_Inr [OF _ rc] by (metis prod.collapse)
  then obtain e where e: "?m = (Inl e, snd ?m)" by (metis Inr_or_Inl prod.collapse)
  show ?thesis using e v1_cp3_run_fails_closed [OF e demo_no_session] by blast
qed

text \<open>
  C25. The CP3 exchange, too, moves no key material before one strict attestation, and sends START\_CP3 (and
  so FINISHED\_C) only after the second.
\<close>

theorem v1_cp3_attests_first:
  "(\<exists>new. bc_ops (rn_client (vr_runner (snd (cp3_exchange B E C r sid None s)))) = bc_ops (rn_client (vr_runner s)) @ new
      \<and> (list_all before_attest new \<or> attested B (rn_taken (vr_runner s)))
      \<and> (list_all before_start new \<or> attested B (rn_taken (vr_runner s)) \<and> attested B (Suc (rn_taken (vr_runner s)))))"
proof -
  let ?n = "rn_taken (vr_runner s)" and ?t = "snd (cp3_exchange B E C r sid None s)"
  obtain new where new: "bc_ops (rn_client (vr_runner ?t)) = bc_ops (rn_client (vr_runner s)) @ new"
    using cp3_any_ops [of s B E C r sid] by (auto simp: v1_within_def ops_within_def)
  then have w: "v1_within P s ?t \<longleftrightarrow> list_all P new" for P
    by (simp add: v1_within_def ops_within_def list_all_iff)
  have "v1_within before_attest s ?t \<or> attested B ?n" "v1_within before_start s ?t \<or> attested B ?n \<and> attested B (Suc ?n)"
    by (rule cp3_exchange_gated [OF _ refl]; metis cp3_body_gated)+
  then show ?thesis using w new by metis
qed

text \<open>
  With a bond, a link that stays up and an honest DK, which answers what it is sent, a CP3 run returns, and the
  DK then holds the application keys of the encapsulated secret and the exact transcript.
\<close>

theorem v1_cp3_end_to_end:
  assumes "live_link B pk" "honest_dk B (C, pk, sk)" "calm E"
    and "bc_client c = Some l" "list_all (\<lambda>p. \<not> is_write p) (bc_ops c)" "no_session c" "inspect_pairing W p = (Inr st, p')" "ps_is_paired st"
    and "kem_laws C" "kem_keypair C seed = (pk, sk)" "encapsulate C r pk = (ct, ss)" and "length sid = V1_CP3_SESSION_ID_SIZE"
  shows "\<exists>res t. run_v1_cp3 B E (winrt_backend W T timeout) C r sid None False (new_v1_run c p res0) = (Inr res, t)
    \<and> dk_keys (dk_run (C, pk, sk) (bc_ops (rn_client (vr_runner t)))) = Some (dk_app_keys ss pk ct (frame_wire V1_FRAME_MAGIC 16 20 sid))"
  using assms by (rule cp3_bonded_run)

theorem v1_cp3_end_to_end_witness:
  "\<exists>res t. run_v1_cp3 demo_dk calm_env (winrt_backend demo_winrt demo_attempt 90) demo_crypto 5 (replicate 16 1) None False
       (new_v1_run demo_client demo_bonded (V1CP3Result [] level4_info)) = (Inr res, t)"
proof -
  obtain st p' where p: "inspect_pairing demo_winrt demo_bonded = (Inr st, p')" "ps_is_paired st" using demo_bonded_inspect by blast
  obtain ct ss where enc: "encapsulate demo_crypto 5 (replicate 1184 3) = (ct, ss)" by fastforce
  show ?thesis
    using v1_cp3_end_to_end [OF demo_dk calm_env demo_client_on demo_client_fresh demo_no_session p demo_kem_laws demo_keypair enc,
        of "replicate 16 1"] by (metis length_replicate)
qed

text \<open>However a CP3 run ends, the shared secret is zero.\<close>

theorem v1_cp3_run_wipes:
  "list_all (\<lambda>n. wiped (rn_buf (vr_runner (snd (run_v1_cp3 B E P C r sid neg unpair_first (new_v1_run c p res)))) n)) [''secret'']"
proof -
  have "keeps_wiped [''secret''] s (snd (run_v1_cp3 B E P C r sid neg unpair_first s))" for s
  proof -
    let ?m = "run_v1 B P V1CP3Result None unpair_first (cp3_exchange B E C r sid None) True"
    have "keeps_wiped [''secret''] s (snd (?m s))" by (intro wiped_run.kept_run cp3_exchange_wipes)
    moreover have "keeps_wiped [''secret''] u (upd_client clear_owned_session u)" for u :: "v1_cp3_result v1_run"
      by (simp add: keeps_wiped_def upd_client_def)
    ultimately have "keeps_wiped [''secret''] s (snd (onerr (upd_client clear_owned_session) ?m s))"
      by (rule onerr_keeps) (rule wiping.kept_trans)
    then show ?thesis by (simp add: run_v1_cp3_def wiping.kept_refl)
  qed
  moreover have "list_all (\<lambda>n. wiped (rn_buf (vr_runner (new_v1_run c p res)) n)) [''secret'']"
    by (simp add: new_v1_run_def new_runner_def)
  ultimately show ?thesis by (simp add: keeps_wiped_def)
qed

end
