(* ===== verification/V1_Cp4_Runner.thy ===== *)
theory V1_Cp4_Runner
  imports V1_Cp3_Runner V1_Application
begin

text \<open>
  \<open>src/central/v1_cp4.py\<close>: two authenticated PING/PONG rounds on the connection that completed CP3. The
  application object borrows the keys of the handshake object: clearing either closes both.
\<close>

section \<open>The application object\<close>

record v1_cp4_result = v1_cp3_result +
  c4_authenticated_rounds :: nat

definition V1CP4Result :: "string \<Rightarrow> v1_security_info \<Rightarrow> v1_cp4_result" where
  "V1CP4Result scenario info = v1_cp3_result.extend (V1CP3Result scenario info) \<lparr> c4_authenticated_rounds = 0 \<rparr>"

text \<open>The application sees the handshake object it shares with the client.\<close>

definition cp4_get :: "ble_client \<Rightarrow> central_application" where
  "cp4_get c = (case bc_v1_cp4_session c of
       Some (V1Cp4 a) \<Rightarrow> a
     | _ \<Rightarrow> \<lparr> ca_handshake = cp3_session cp3_init, ca_profile = 0x10, ca_iv_c2p = [], ca_iv_p2c = [], ca_tx_c2p = 0, ca_rx_p2c = 0 \<rparr>)
     \<lparr> ca_handshake := cp3_session (cp3_get c) \<rparr>"

text \<open>After a call: the object is stored, and a handshake it has cleared is cleared for the client too.\<close>

definition share_handshake :: "app_session \<Rightarrow> ble_client \<Rightarrow> ble_client" where
  "share_handshake v c = (if as_state v = HS_CLOSED then cp3_put (cp3_clear (cp3_get c)) c else c)"

definition cp4_put :: "central_application \<Rightarrow> ble_client \<Rightarrow> ble_client" where
  "cp4_put a c = share_handshake (ca_handshake a)
     (case bc_v1_cp4_session c of Some _ \<Rightarrow> c\<lparr> bc_v1_cp4_session := Some (V1Cp4 a) \<rparr> | None \<Rightarrow> c)"

definition onA :: "(central_application, 'a) meth \<Rightarrow> ('r v1_run, 'a) meth" where
  "onA m s = (let (r, a) = m (cp4_get (rn_client (vr_runner s))) in (r, upd_client (cp4_put a) s))"

text \<open>\<open>app = CentralApplication(handshake); client._v1_cp4_session = app\<close>.\<close>

definition cp4_create :: "('r v1_run, unit) meth" where
  "cp4_create s = (case CentralApplication_init (cp3_session (cp3_get (rn_client (vr_runner s)))) None None of
       (Inl e, a) \<Rightarrow> (Inl e, upd_client (share_handshake (ca_handshake a)) s)
     | (Inr _, a) \<Rightarrow> (Inr (), upd_client (\<lambda>c. c\<lparr> bc_v1_cp4_session := Some (V1Cp4 a) \<rparr>) s))"

text \<open>\<open>app.clear()\<close>; an application the client has let go of was cleared then.\<close>

definition cp4_clear :: "ble_client \<Rightarrow> ble_client" where
  "cp4_clear c = (case bc_v1_cp4_session c of None \<Rightarrow> c | Some _ \<Rightarrow> cp4_put (CentralApplication_clear (cp4_get c)) c)"

section \<open>Notifications as replies\<close>

datatype cp4_reply = NoReply | Pending | Replied bytes | Failed exn

definition cp4_live :: "bleak \<Rightarrow> nat option \<Rightarrow> ble_client \<Rightarrow> bool" where
  "cp4_live B link c \<longleftrightarrow> bc_v1_cp4_session c \<noteq> None \<and> h3_state (cp3_get c) = HS_APP_SECURE \<and> bc_v1_cp3_session c \<noteq> None
     \<and> client_is_connected B c \<and> bc_client c = link \<and> bc_v1_cp3_link c = link \<and> bc_v1_notify_link c = link"

definition cp4_require_live :: "bleak \<Rightarrow> nat option \<Rightarrow> ('r v1_run, unit) meth" where
  "cp4_require_live B link = onR (readM (\<lambda>s. requireR (cp4_live B link (rn_client s))
     (ProtocolError ''CP4 connection/session/subscription invalidated'')))"

definition on_application :: "bleak \<Rightarrow> nat option \<Rightarrow> bytes \<Rightarrow> cp4_reply \<times> ble_client \<Rightarrow> cp4_reply \<times> ble_client" where
  "on_application B link data = (\<lambda>(reply, c).
     case bindR (requireR (cp4_live B link c) (ProtocolError ''CP4 connection/session/subscription invalidated'')) (\<lambda>_.
          requireR (reply = Pending) (ProtocolError ''unsolicited or duplicate CP4 notification'')) of
       Inr _ \<Rightarrow> (Replied data, c)
     | Inl e \<Rightarrow> (if reply = Pending then Failed e else reply, cp4_clear c))"

text \<open>A wait during the rounds: the notifications that come in go to \<open>on_application\<close>.\<close>

definition await4 :: "bleak \<Rightarrow> cp3_env \<Rightarrow> nat option \<Rightarrow> cp4_reply \<Rightarrow> ('r v1_run, 'a) meth \<Rightarrow> ('r v1_run, cp4_reply) meth" where
  "await4 B E link reply m s =
     (let (r, t) = m s; c = rn_client (vr_runner t); ops = bc_ops (rn_client (vr_runner s))
      in if bc_ops c = ops then (bindR r (\<lambda>_. Inr reply), t)
         else let (reply, c) = foldl (\<lambda>z d. on_application B link d z) (reply, c) (arrivals B ops (bc_ops c));
                  c = lost_callback E link c; t = upd_client (\<lambda>_. c) t
              in case stopped B E link c of Some e \<Rightarrow> (Inl e, t) | None \<Rightarrow> (bindR r (\<lambda>_. Inr reply), t))"

text \<open>\<open>await asyncio.wait_for(reply, notification_timeout)\<close>.\<close>

definition reply_value :: "cp4_reply \<Rightarrow> bytes result" where
  "reply_value reply = (case reply of Replied d \<Rightarrow> Inr d | Failed e \<Rightarrow> Inl e | _ \<Rightarrow> Inl TimeoutError)"

definition wait_reply :: "bleak \<Rightarrow> cp3_env \<Rightarrow> nat option \<Rightarrow> cp4_reply \<Rightarrow> ('r v1_run, bytes) meth" where
  "wait_reply B E link reply =
     (if reply = Pending
      then bindM (await4 B E link reply (onR (setM (log_op AwaitNotify)))) (\<lambda>reply. liftR (reply_value reply))
      else liftR (reply_value reply))"

section \<open>The rounds\<close>

definition client_mtu :: "bleak \<Rightarrow> ('r v1_run, int) meth" where
  "client_mtu B = onR (readM (\<lambda>s. Inr (client_mtu_size B (rn_client s))))"

text \<open>The challenge is a sensitive buffer of the round.\<close>

definition cp4_round ::
  "bleak \<Rightarrow> cp3_env \<Rightarrow> third_party \<Rightarrow> nat option \<Rightarrow> bytes \<Rightarrow> ('z v1_cp4_result_scheme v1_run, unit) meth" where
  "cp4_round B E C link challenge =
     finallyM (
       seqM (cp4_require_live B link) (
       seqM (onR (setM (set_buf ''challenge'' challenge))) (
       bindM (client_mtu B) (\<lambda>mtu.
       bindM (onA (CentralApplication_encrypt_ping C challenge mtu)) (\<lambda>frame.
       bindM (await4 B E link Pending (onR (runC (send_control B frame)))) (\<lambda>reply.
       seqM (cp4_require_live B link) (
       bindM (wait_reply B E link reply) (\<lambda>raw.
       seqM (cp4_require_live B link) (
       bindM (client_mtu B) (\<lambda>mtu.
       seqM (onA (CentralApplication_accept_pong C challenge mtu raw)) (
       set_result (\<lambda>u. u\<lparr> c4_authenticated_rounds := c4_authenticated_rounds u + 1 \<rparr>)))))))))))
     ) (onR (setM (wipe_buf ''challenge'')))"

fun forM :: "('a \<Rightarrow> ('s, unit) meth) \<Rightarrow> 'a list \<Rightarrow> ('s, unit) meth" where
  "forM f [] = retM ()"
| "forM f (x # xs) = seqM (f x) (forM f xs)"

definition cp4_rounds ::
  "bleak \<Rightarrow> cp3_env \<Rightarrow> third_party \<Rightarrow> bytes list \<Rightarrow> ('z v1_cp4_result_scheme v1_run, unit) meth" where
  "cp4_rounds B E C challenges =
     bindM (onR (readM (\<lambda>s. Inr (bc_client (rn_client s))))) (\<lambda>link.
     seqM cp4_create (
     onerr (upd_client cp4_clear) (
       seqM (forM (cp4_round B E C link) challenges) (
       bindM (await4 B E link NoReply sleepM) (\<lambda>_.
       cp4_require_live B link)))))"

text \<open>\<open>challenges\<close> are the two random values of the rounds.\<close>

definition cp4_exchange ::
  "bleak \<Rightarrow> cp3_env \<Rightarrow> third_party \<Rightarrow> nat \<Rightarrow> bytes \<Rightarrow> bytes \<times> bytes \<Rightarrow> ('z v1_cp4_result_scheme v1_run, v1_security_info) meth" where
  "cp4_exchange B E C r session_id = (\<lambda>(challenge0, challenge1).
     onerr (upd_client cp4_clear)
       (cp3_exchange B E C r session_id (Some (\<lambda>_. cp4_rounds B E C [challenge0, challenge1]))))"

definition clear_owned_application :: "ble_client \<Rightarrow> ble_client" where
  "clear_owned_application c = (case bc_v1_cp4_session c of
     None \<Rightarrow> c
   | Some (V1Cp4 _) \<Rightarrow> cp4_clear c
   | Some app \<Rightarrow> c\<lparr> bc_v1_cp4_session := Some (v1_application_clear app) \<rparr>)"

definition run_v1_cp4 ::
  "bleak \<Rightarrow> cp3_env \<Rightarrow> pairing_backend \<Rightarrow> third_party \<Rightarrow> nat \<Rightarrow> bytes \<Rightarrow> bytes \<times> bytes \<Rightarrow> string option \<Rightarrow> bool
     \<Rightarrow> (v1_cp4_result v1_run, v1_cp4_result) meth" where
  "run_v1_cp4 B E P C r session_id challenges negative_test unpair_first =
     (if negative_test \<noteq> None then liftR (Inl (ValueError ''CP1 negative modes cannot be combined with CP4''))
      else onerr (upd_client (\<lambda>c. clear_owned_session (clear_owned_application c)))
             (run_v1 B P V1CP4Result None unpair_first (cp4_exchange B E C r session_id challenges) True))"

section \<open>Lemmas\<close>

text \<open>The application, like the session, only changes by being closed while the exchange waits.\<close>

definition app_only_closes :: "ble_client \<Rightarrow> ble_client \<Rightarrow> bool" where
  "app_only_closes c d \<longleftrightarrow> (retired_closed c \<longrightarrow> retired_closed d
     \<and> (cp3_get d = cp3_get c \<and> bc_v1_cp4_session d = bc_v1_cp4_session c \<or> h3_state (cp3_get d) = HS_CLOSED))"

interpretation app_client: kept app_only_closes
  by unfold_locales (auto simp: app_only_closes_def)

lemma app_session_closes: "app_only_closes c d \<Longrightarrow> session_only_closes c d"
  by (auto simp: app_only_closes_def session_only_closes_def)

lemma same_app: "session_only_closes c d \<Longrightarrow> bc_v1_cp4_session d = bc_v1_cp4_session c \<Longrightarrow> app_only_closes c d"
  by (auto simp: app_only_closes_def session_only_closes_def)

lemma cp3_put_closed:
  assumes "cp3_closed h"
  shows "retired_closed c \<Longrightarrow> retired_closed (cp3_put h c) \<and> h3_state (cp3_get (cp3_put h c)) = HS_CLOSED"
proof (cases "bc_v1_cp3_session c")
  case None
  assume "retired_closed c"
  moreover from this have "retired_closed (cp3_put h c)" using assms None by (auto simp: cp3_put_def retired_closed_def split: list.split)
  moreover have "bc_v1_cp3_session (cp3_put h c) = None" using None by (simp add: cp3_put_def split: list.split)
  ultimately show ?thesis using cp3_get_closed by blast
next
  case (Some x)
  assume "retired_closed c"
  then have "retired_closed (cp3_put h c)" using Some by (simp add: cp3_put_def retired_closed_def)
  then show ?thesis using cp3_get_put [of c h] Some assms by (simp add: cp3_closed_def)
qed

lemma clear_app_state [simp]: "as_state (ca_handshake (CentralApplication_clear a)) = HS_CLOSED"
  by (simp add: CentralApplication_clear_def app_session_clear_def)

lemma same_cp3:
  assumes "bc_v1_cp3_session d = bc_v1_cp3_session c" "bc_retired_sessions d = bc_retired_sessions c"
  shows "cp3_get d = cp3_get c" "retired_closed d = retired_closed c"
  unfolding cp3_get_def retired_closed_def assms by (rule refl)+

lemma cp3_parts_app [simp]:
  "cp3_get (c\<lparr> bc_v1_cp4_session := x \<rparr>) = cp3_get c" "retired_closed (c\<lparr> bc_v1_cp4_session := x \<rparr>) = retired_closed c"
  "cp3_get (c\<lparr> bc_ops := ops \<rparr>) = cp3_get c" "retired_closed (c\<lparr> bc_ops := ops \<rparr>) = retired_closed c"
  "cp3_get (c\<lparr> bc_v1_notify_link := l \<rparr>) = cp3_get c" "retired_closed (c\<lparr> bc_v1_notify_link := l \<rparr>) = retired_closed c"
  by (intro same_cp3; simp)+

lemma cp4_clear_closes: "app_only_closes c (cp4_clear c)"
proof (cases "bc_v1_cp4_session c")
  case (Some x)
  let ?d = "c\<lparr> bc_v1_cp4_session := Some (V1Cp4 (CentralApplication_clear (cp4_get c))) \<rparr>"
  have "cp4_clear c = cp3_put (cp3_clear (cp3_get c)) ?d" using Some by (simp add: cp4_clear_def cp4_put_def share_handshake_def)
  then show ?thesis using cp3_put_closed [of "cp3_clear (cp3_get c)" ?d] by (simp add: app_only_closes_def)
qed (simp add: cp4_clear_def app_client.kept_refl)

lemma clear_v1_cp3_app: "app_only_closes c (clear_v1_cp3 c)"
proof -
  have "retired_closed c \<Longrightarrow> bc_v1_cp3_session (clear_v1_cp3 c) = None \<or> clear_v1_cp3 c = c"
    by (auto simp: clear_v1_cp3_def Let_def split: option.split)
  then show ?thesis using clear_v1_cp3_closes [of c] cp3_get_closed [of "clear_v1_cp3 c"]
    by (auto simp: app_only_closes_def session_only_closes_def)
qed

lemma on_application_closes: "app_only_closes c (snd (on_application B link d (reply, c)))"
  by (auto simp: on_application_def cp4_clear_closes app_client.kept_refl split: sum.split)

lemma lost_callback_app: "app_only_closes c (lost_callback E link c)"
  by (auto simp: lost_callback_def client_on_disconnect_def client_on_v1_disconnect_def
      intro: clear_v1_cp3_app app_client.kept_refl split: option.split)

lemma app_calls_close:
  "app_only_closes c (snd (send_control B w c))" "app_only_closes c (snd (setM (\<lambda>c. c\<lparr> bc_ops := ops c \<rparr>) c))"
proof -
  have "bc_v1_cp4_session (snd (send_control B w c)) = bc_v1_cp4_session c"
    by (auto simp: send_control_def seqM_def bindM_def require_connected_def bleak_call_def requireR_def Let_def split: prod.splits sum.splits)
  then show "app_only_closes c (snd (send_control B w c))" using client_calls_close(2) same_app by blast
  show "app_only_closes c (snd (setM (\<lambda>c. c\<lparr> bc_ops := ops c \<rparr>) c))" by (simp add: app_only_closes_def)
qed

definition app_closes :: "'r v1_run \<Rightarrow> 'r v1_run \<Rightarrow> bool" where
  "app_closes s t \<longleftrightarrow> app_only_closes (rn_client (vr_runner s)) (rn_client (vr_runner t))"

interpretation app_steps: kept app_closes
  by unfold_locales (auto simp: app_closes_def intro: app_client.kept_refl app_client.kept_trans)

lemma app_closes_only: "app_closes s t \<Longrightarrow> only_closes s t"
  by (simp add: app_closes_def only_closes_def app_session_closes)

lemma foldl_application:
  "app_only_closes c (snd (foldl (\<lambda>z d. on_application B link d z) (reply, c) ds))"
proof (induction ds arbitrary: reply c)
  case (Cons d ds)
  obtain r c' where d: "on_application B link d (reply, c) = (r, c')" by fastforce
  then have "app_only_closes c c'" using on_application_closes [of c B link d reply] by simp
  then show ?case using Cons.IH [of c' r] d by (auto intro: app_client.kept_trans)
qed (simp add: app_client.kept_refl)

lemma await4_state:
  "\<exists>f. snd (await4 B E link reply m s) = upd_client f (snd (m s)) \<and> (\<forall>c. app_only_closes c (f c))"
proof (cases "bc_ops (rn_client (vr_runner (snd (m s)))) = bc_ops (rn_client (vr_runner s))")
  case True
  then show ?thesis by (intro exI [of _ id]) (simp add: await4_def Let_def case_prod_unfold upd_client_def app_client.kept_refl)
next
  case False
  let ?f = "\<lambda>c. lost_callback E link (snd (foldl (\<lambda>z d. on_application B link d z) (reply, c)
      (arrivals B (bc_ops (rn_client (vr_runner s))) (bc_ops (rn_client (vr_runner (snd (m s))))))))"
  have "app_only_closes c (?f c)" for c using foldl_application lost_callback_app app_client.kept_trans by blast
  moreover have "snd (await4 B E link reply m s) = upd_client ?f (snd (m s))"
    using False by (simp add: await4_def Let_def case_prod_unfold upd_client_def split: option.split)
  ultimately show ?thesis by blast
qed

lemma app_closes_await4: "app_closes s (snd (m s)) \<Longrightarrow> app_closes s (snd (await4 B E link reply m s))"
proof -
  assume a: "app_closes s (snd (m s))"
  obtain f where "snd (await4 B E link reply m s) = upd_client f (snd (m s))" "\<forall>c. app_only_closes c (f c)"
    using await4_state [of B E link reply m s] by blast
  then have "app_closes (snd (m s)) (snd (await4 B E link reply m s))" by (simp add: app_closes_def upd_client_def)
  with a show ?thesis by (rule app_steps.kept_trans)
qed
subsection \<open>Two rounds on one session\<close>

text \<open>The client owns the open handshake \<open>h\<close> and the application \<open>a\<close> over it.\<close>

definition own_app :: "cp3 \<Rightarrow> central_application \<Rightarrow> 'r v1_run \<Rightarrow> bool" where
  "own_app h a s \<longleftrightarrow> own_session h s \<and> ca_handshake a = cp3_session h
     \<and> (\<exists>b. bc_v1_cp4_session (rn_client (vr_runner s)) = Some (V1Cp4 b) \<and> a = b\<lparr> ca_handshake := cp3_session h \<rparr>)"

lemma own_app_session: "own_app h a s \<Longrightarrow> own_session h s"
  by (simp add: own_app_def)

lemma own_app_get: "own_app h a s \<Longrightarrow> cp4_get (rn_client (vr_runner s)) = a"
  by (auto simp: own_app_def own_session_def cp4_get_def)

lemma own_app_step:
  assumes "own_app h a s" "app_closes s t" "h3_state (cp3_get (rn_client (vr_runner t))) \<noteq> HS_CLOSED"
  shows "own_app h a t"
  using assms by (auto simp: own_app_def own_session_def app_closes_def app_only_closes_def)

lemma cp3_session_state [simp]: "as_state (cp3_session h) = h3_state h"
  by (simp add: cp3_session_def)

lemma own_app_put:
  assumes "own_app h a s" "ca_handshake a' = ca_handshake a"
  shows "own_app h a' (upd_client (cp4_put a') s)"
proof -
  have h: "ca_handshake a' = cp3_session h" "h3_state h \<noteq> HS_CLOSED" using assms by (auto simp: own_app_def own_session_def)
  then have "a' = a'\<lparr> ca_handshake := cp3_session h \<rparr>" by simp
  with h assms(1) show ?thesis by (auto simp: own_app_def own_session_def cp4_put_def share_handshake_def upd_client_def)
qed

lemma onA_Inr: "onA m s = (Inr x, t) \<longleftrightarrow> (\<exists>a. m (cp4_get (rn_client (vr_runner s))) = (Inr x, a) \<and> t = upd_client (cp4_put a) s)"
  by (auto simp: onA_def Let_def split: prod.splits)

text \<open>A failing method has closed the application, and with it the handshake.\<close>

lemma app_methods:
  "CentralApplication_encrypt_ping C challenge mtu a = (r, b) \<Longrightarrow> ca_handshake b = ca_handshake a \<or> as_state (ca_handshake b) = HS_CLOSED"
  "CentralApplication_accept_pong C challenge mtu raw a = (r', b) \<Longrightarrow> ca_handshake b = ca_handshake a \<or> as_state (ca_handshake b) = HS_CLOSED"
  by (cases r, auto simp: CentralApplication_encrypt_ping_def onerr_Inl ping_Inr)
    (cases r', auto simp: CentralApplication_accept_pong_def onerr_Inl pong_Inr)

lemma own_onA:
  assumes "own_app h a s" "app_closes s u" "h3_state (cp3_get (rn_client (vr_runner u))) \<noteq> HS_CLOSED" "onA m u = (Inr x, t)"
    and "\<And>a a' y. m a = (Inr y, a') \<Longrightarrow> ca_handshake a' = ca_handshake a"
  shows "\<exists>a'. m a = (Inr x, a') \<and> own_app h a' t"
proof -
  have u: "own_app h a u" by (rule own_app_step [OF assms(1-3)])
  obtain a' where a': "m a = (Inr x, a')" "t = upd_client (cp4_put a') u" using assms(4) own_app_get [OF u] by (auto simp: onA_Inr)
  then show ?thesis using own_app_put [OF u assms(5)] by blast
qed

lemma cp4_live_state: "cp4_live B link c \<Longrightarrow> h3_state (cp3_get c) \<noteq> HS_CLOSED"
  by (simp add: cp4_live_def)

lemma require_live_Inr: "cp4_require_live B link s = (Inr u, t) \<longleftrightarrow> cp4_live B link (rn_client (vr_runner s)) \<and> t = s"
  by (auto simp: cp4_require_live_def onR_Inr)

lemma client_mtu_Inr: "client_mtu B s = (Inr n, t) \<longleftrightarrow> n = client_mtu_size B (rn_client (vr_runner s)) \<and> t = s"
  by (auto simp: client_mtu_def onR_Inr)

lemma app_closes_same: "rn_client (vr_runner t) = rn_client (vr_runner s) \<Longrightarrow> app_closes s t"
  by (simp add: app_closes_def app_client.kept_refl)

lemma app_closes_base:
  "app_closes s (snd (onR (setM (set_buf b v)) s))" "app_closes s (snd (onR (setM (wipe_buf b)) s))"
  "app_closes s (snd (cp4_require_live B link s))" "app_closes s (snd (client_mtu B s))" "app_closes s (snd (set_result k s))"
  by (rule app_closes_same; simp add: onR_def set_buf_def wipe_buf_def cp4_require_live_def client_mtu_def set_result_def)+

lemma app_closes_wait:
  "app_closes s (snd (onR (runC (send_control B frame)) s))" "app_closes s (snd (onR (setM (log_op AwaitNotify)) s))"
  "app_closes s (snd (sleepM s))"
  using app_calls_close(1)
  by (auto simp: app_closes_def onR_def runC_def sleepM_def log_op_def Let_def case_prod_unfold app_only_closes_def)

lemma await4_result: "vr_result (snd (await4 B E link reply m s)) = vr_result (snd (m s))"
  by (auto simp: await4_def Let_def case_prod_unfold upd_client_def split: option.split)

text \<open>A reply that comes in: one notification, on the live connection.\<close>

lemma app_closes_reply: "app_closes s (snd (wait_reply B E link reply s))"
proof -
  have a: "app_closes s (snd (await4 B E link reply (onR (setM (log_op AwaitNotify))) s))" for s :: "'a v1_run"
    by (rule app_closes_await4) (rule app_closes_wait)
  have "app_closes s (snd (bindM (await4 B E link reply (onR (setM (log_op AwaitNotify)))) (\<lambda>reply. liftR (reply_value reply)) s))"
    by (intro app_steps.kept_intros a)
  then show ?thesis by (auto simp: wait_reply_def app_steps.kept_refl)
qed

lemma wait_reply_result: "wait_reply B E link reply s = (Inr raw, t) \<Longrightarrow> vr_result t = vr_result s"
proof (cases "reply = Pending")
  case True
  assume "wait_reply B E link reply s = (Inr raw, t)"
  then have "t = snd (await4 B E link reply (onR (setM (log_op AwaitNotify))) s)" using True
    by (auto simp: wait_reply_def)
  then show ?thesis by (simp add: await4_result onR_def)
qed (auto simp: wait_reply_def)

text \<open>A reply is one of the notifications that came in.\<close>

definition heard :: "bleak \<Rightarrow> bytes \<Rightarrow> bool" where
  "heard B raw \<longleftrightarrow> (\<exists>ops. raw \<in> set (bl_queue B ops))"

lemma foldl_reply:
  "fst (foldl (\<lambda>z d. on_application B link d z) z ds) = Replied d \<Longrightarrow> fst z = Replied d \<or> d \<in> set ds"
proof (induction ds arbitrary: z)
  case (Cons x ds)
  have "fst (on_application B link x z) = Replied d \<Longrightarrow> fst z = Replied d \<or> d = x"
    by (cases z) (auto simp: on_application_def split: sum.splits if_splits)
  then show ?case using Cons by fastforce
qed simp

lemma await4_reply: "await4 B E link reply m s = (Inr (Replied d), t) \<Longrightarrow> reply = Replied d \<or> heard B d"
  using foldl_reply [of B link "(reply, rn_client (vr_runner (snd (m s))))"
      "arrivals B (bc_ops (rn_client (vr_runner s))) (bc_ops (rn_client (vr_runner (snd (m s)))))" d]
  by (auto simp: await4_def Let_def case_prod_unfold heard_def arrivals_def split: if_splits option.splits dest: in_set_dropD)

lemma wait_reply_heard: "wait_reply B E link reply s = (Inr raw, t) \<Longrightarrow> reply = Replied raw \<or> heard B raw"
proof (cases "reply = Pending")
  case True
  assume "wait_reply B E link reply s = (Inr raw, t)"
  then obtain r u where r: "await4 B E link Pending (onR (setM (log_op AwaitNotify))) s = (Inr r, u)" "reply_value r = Inr raw"
    using True by (auto simp: wait_reply_def)
  then have "r = Replied raw" by (simp add: reply_value_def split: cp4_reply.splits)
  then show ?thesis using await4_reply r(1) by blast
qed (auto simp: wait_reply_def reply_value_def split: cp4_reply.splits)

lemma onR_wipe_Inr: "finallyM m (onR (setM (wipe_buf b))) s = (Inr x, t) \<longleftrightarrow>
    (\<exists>u. m s = (Inr x, u) \<and> t = u\<lparr> vr_runner := wipe_buf b (vr_runner u) \<rparr>)"
  by (rule finallyM_set)

lemma cp4_round_Inr:
  assumes "cp4_round B E C link challenge s = (Inr (), t)" and "own_app h a s"
  shows "\<exists>mtu mtu' frame raw a1 a2. CentralApplication_encrypt_ping C challenge mtu a = (Inr frame, a1)
    \<and> CentralApplication_accept_pong C challenge mtu' raw a1 = (Inr (), a2) \<and> own_app h a2 t \<and> heard B raw
    \<and> c4_authenticated_rounds (vr_result t) = c4_authenticated_rounds (vr_result s) + 1"
proof -
  let ?s = "s\<lparr> vr_runner := set_buf ''challenge'' challenge (vr_runner s) \<rparr>"
  obtain mtu frame s1 reply s2 raw s3 mtu' s4 where st: "cp4_live B link (rn_client (vr_runner s))"
    "onA (CentralApplication_encrypt_ping C challenge mtu) ?s = (Inr frame, s1)"
    "await4 B E link Pending (onR (runC (send_control B frame))) s1 = (Inr reply, s2)"
    "cp4_live B link (rn_client (vr_runner s2))" "wait_reply B E link reply s2 = (Inr raw, s3)"
    "cp4_live B link (rn_client (vr_runner s3))" "onA (CentralApplication_accept_pong C challenge mtu' raw) s3 = (Inr (), s4)"
    "rn_client (vr_runner t) = rn_client (vr_runner s4)" "c4_authenticated_rounds (vr_result t) = c4_authenticated_rounds (vr_result s4) + 1"
    using assms(1) by (auto simp: cp4_round_def onR_wipe_Inr require_live_Inr client_mtu_Inr onR_Inr set_result_apply wipe_buf_def)
  have "app_closes s ?s" by (rule app_closes_same) (simp add: set_buf_def)
  then have "\<exists>a1. CentralApplication_encrypt_ping C challenge mtu a = (Inr frame, a1) \<and> own_app h a1 s1"
    using st(1) by (intro own_onA [OF assms(2) _ _ st(2)]) (auto simp: set_buf_def cp4_live_state ping_Inr)
  then obtain a1 where a1: "CentralApplication_encrypt_ping C challenge mtu a = (Inr frame, a1)" "own_app h a1 s1" by blast
  have "app_closes s1 (snd (await4 B E link Pending (onR (runC (send_control B frame))) s1))"
    by (rule app_closes_await4) (rule app_closes_wait)
  then have "app_closes s1 s2" using st(3) by simp
  moreover have "app_closes s2 s3" using app_closes_reply [of s2 B E link reply] st(5) by simp
  ultimately have "app_closes s1 s3" by (rule app_steps.kept_trans)
  then have "\<exists>a2. CentralApplication_accept_pong C challenge mtu' raw a1 = (Inr (), a2) \<and> own_app h a2 s4"
    by (rule own_onA [OF a1(2) _ cp4_live_state [OF st(6)] st(7)]) (auto simp: pong_Inr)
  then obtain a2 where a2: "CentralApplication_accept_pong C challenge mtu' raw a1 = (Inr (), a2)" "own_app h a2 s4" by blast
  have "vr_result s1 = vr_result s" "vr_result s4 = vr_result s3"
    using st(2,7) by (auto simp: onA_Inr upd_client_def)
  moreover have "vr_result s2 = vr_result s1"
    using await4_result [of B E link Pending "onR (runC (send_control B frame))" s1] st(3) by (simp add: onR_def Let_def case_prod_unfold)
  moreover have "vr_result s3 = vr_result s2" using wait_reply_result [OF st(5)] .
  moreover have "own_app h a2 t" using a2(2) st(8) by (simp add: own_app_def own_session_def)
  moreover have "heard B raw" using wait_reply_heard [OF st(5)] await4_reply st(3) by blast
  ultimately show ?thesis using a1(1) a2(1) st(9) by (intro exI conjI) auto
qed

text \<open>The application object over a completed handshake after \<open>n\<close> rounds, and a PONG of round \<open>n\<close>.\<close>

definition app_after :: "cp3 \<Rightarrow> bytes \<Rightarrow> bytes \<Rightarrow> nat \<Rightarrow> central_application" where
  "app_after h iv_c2p iv_p2c n = \<lparr> ca_handshake = cp3_session h, ca_profile = 0x10, ca_iv_c2p = iv_c2p, ca_iv_p2c = iv_p2c,
     ca_tx_c2p = int n, ca_rx_p2c = int n \<rparr>"

definition authentic_pong :: "bleak \<Rightarrow> third_party \<Rightarrow> cp3 \<Rightarrow> nat \<Rightarrow> bytes \<Rightarrow> bool" where
  "authentic_pong B C h n challenge \<longleftrightarrow> (\<exists>iv raw. heard B raw
     \<and> derive_iv_base (h3_app_p2c h) (h3_session_id h) APP_P2C 0x10 = Inr iv
     \<and> decrypt_application C (h3_app_p2c h) iv (h3_session_id h) raw APP_P2C (int n) 0x10 = Inr challenge)"

lemma cp4_create_Inr:
  assumes "cp4_create s = (Inr u, t)" "own_session h s"
  shows "\<exists>iv_c2p iv_p2c. derive_iv_base (h3_app_c2p h) (h3_session_id h) APP_C2P 0x10 = Inr iv_c2p
    \<and> derive_iv_base (h3_app_p2c h) (h3_session_id h) APP_P2C 0x10 = Inr iv_p2c
    \<and> own_app h (app_after h iv_c2p iv_p2c 0) t \<and> vr_result t = vr_result s"
proof -
  have g: "cp3_get (rn_client (vr_runner s)) = h" using assms(2) by (simp add: own_session_def)
  obtain a where a: "CentralApplication_init (cp3_session h) None None = (Inr (), a)"
    "t = upd_client (\<lambda>c. c\<lparr> bc_v1_cp4_session := Some (V1Cp4 a) \<rparr>) s"
    using assms(1) by (auto simp: cp4_create_def g split: prod.splits sum.splits)
  obtain iv_c2p iv_p2c where iv: "derive_iv_base (h3_app_c2p h) (h3_session_id h) APP_C2P 0x10 = Inr iv_c2p"
    "derive_iv_base (h3_app_p2c h) (h3_session_id h) APP_P2C 0x10 = Inr iv_p2c" "a = app_after h iv_c2p iv_p2c 0"
    using a(1) by (auto simp: CentralApplication_init_def Let_def cp3_session_def app_after_def)
  have "own_app h a t" using assms(2) a(2) iv(3) by (simp add: own_app_def own_session_def upd_client_def app_after_def)
  then show ?thesis using iv a(2) by (simp add: upd_client_def)
qed

lemma app_after_step:
  assumes "CentralApplication_encrypt_ping C challenge mtu (app_after h iv_c2p iv_p2c n) = (Inr frame, a1)"
    and "CentralApplication_accept_pong C challenge mtu' raw a1 = (Inr (), a2)"
  shows "a2 = app_after h iv_c2p iv_p2c (Suc n)"
    and "decrypt_application C (h3_app_p2c h) iv_p2c (h3_session_id h) raw APP_P2C (int n) 0x10 = Inr challenge"
  using assms by (auto simp: ping_Inr pong_Inr app_after_def cp3_session_def)

lemma cp4_rounds_chain:
  assumes "forM (cp4_round B E C link) challenges s = (Inr (), t)" and "own_app h (app_after h iv_c2p iv_p2c n) s"
    and "derive_iv_base (h3_app_p2c h) (h3_session_id h) APP_P2C 0x10 = Inr iv_p2c"
  shows "own_app h (app_after h iv_c2p iv_p2c (n + length challenges)) t
    \<and> c4_authenticated_rounds (vr_result t) = c4_authenticated_rounds (vr_result s) + length challenges
    \<and> (\<forall>i < length challenges. authentic_pong B C h (n + i) (challenges ! i))"
  using assms(1,2)
proof (induction challenges arbitrary: s n)
  case (Cons x xs)
  obtain u where u: "cp4_round B E C link x s = (Inr (), u)" "forM (cp4_round B E C link) xs u = (Inr (), t)"
    using Cons.prems(1) by auto
  obtain mtu mtu' frame raw a1 a2 where a: "CentralApplication_encrypt_ping C x mtu (app_after h iv_c2p iv_p2c n) = (Inr frame, a1)"
    "CentralApplication_accept_pong C x mtu' raw a1 = (Inr (), a2)" "own_app h a2 u" "heard B raw"
    "c4_authenticated_rounds (vr_result u) = c4_authenticated_rounds (vr_result s) + 1"
    using cp4_round_Inr [OF u(1) Cons.prems(2)] by blast
  note step = app_after_step [OF a(1,2)]
  have IH: "own_app h (app_after h iv_c2p iv_p2c (Suc n + length xs)) t
    \<and> c4_authenticated_rounds (vr_result t) = c4_authenticated_rounds (vr_result u) + length xs
    \<and> (\<forall>i < length xs. authentic_pong B C h (Suc n + i) (xs ! i))"
    using a(3) unfolding step(1) by (rule Cons.IH [OF u(2)])
  have "authentic_pong B C h n x" unfolding authentic_pong_def using a(4) assms(3) step(2) by blast
  then have "authentic_pong B C h (n + i) ((x # xs) ! i)" if "i < length (x # xs)" for i
    using IH that by (cases i) auto
  then show ?case using IH a(5) by auto
qed simp

lemma cp4_rounds_Inr:
  assumes "cp4_rounds B E C challenges s = (Inr (), t)" and "own_session h s"
  shows "\<exists>iv_c2p iv_p2c. own_app h (app_after h iv_c2p iv_p2c (length challenges)) t
    \<and> c4_authenticated_rounds (vr_result t) = c4_authenticated_rounds (vr_result s) + length challenges
    \<and> (\<forall>i < length challenges. authentic_pong B C h i (challenges ! i))"
proof -
  obtain link s1 u r where st: "cp4_create s = (Inr (), s1)" "forM (cp4_round B E C link) challenges s1 = (Inr (), u)"
    "await4 B E link NoReply sleepM u = (Inr r, t)" "cp4_live B link (rn_client (vr_runner t))"
    using assms(1) by (auto simp: cp4_rounds_def onR_Inr require_live_Inr)
  obtain iv_c2p iv_p2c where a: "derive_iv_base (h3_app_p2c h) (h3_session_id h) APP_P2C 0x10 = Inr iv_p2c"
    "own_app h (app_after h iv_c2p iv_p2c 0) s1" "vr_result s1 = vr_result s"
    using cp4_create_Inr [OF st(1) assms(2)] by blast
  note rounds = cp4_rounds_chain [OF st(2) a(2,1)]
  have "app_closes u (snd (await4 B E link NoReply sleepM u))" by (rule app_closes_await4) (rule app_closes_wait)
  then have "app_closes u t" using st(3) by simp
  then have "own_app h (app_after h iv_c2p iv_p2c (length challenges)) t"
    using own_app_step [of h _ u t] rounds cp4_live_state [OF st(4)] by simp
  moreover have "vr_result t = vr_result u" using await4_result [of B E link NoReply sleepM u] st(3) by (simp add: sleepM_apply)
  ultimately show ?thesis using rounds a(3) by auto
qed

text \<open>The counter of the rounds is set to zero when the result is made, and only the rounds change it.\<close>

definition keeps_rounds :: "'z v1_cp4_result_scheme v1_run \<Rightarrow> 'z v1_cp4_result_scheme v1_run \<Rightarrow> bool" where
  "keeps_rounds s t \<longleftrightarrow> c4_authenticated_rounds (vr_result t) = c4_authenticated_rounds (vr_result s)"

interpretation rounds: kept keeps_rounds
  by unfold_locales (auto simp: keeps_rounds_def)

lemma keeps_rounds_result: "keeps_result s t \<Longrightarrow> keeps_rounds s t"
  by (simp add: keeps_result_def keeps_rounds_def)

lemma keeps_rounds_set:
  "keeps_rounds s (snd (set_result (\<lambda>u. u\<lparr> c1_public_key_len := n \<rparr>) s))"
  "keeps_rounds s (snd (set_result (\<lambda>u. u\<lparr> c1_ciphertext_fragments := n \<rparr>) s))"
  "keeps_rounds s (snd (set_result (\<lambda>u. u\<lparr> c1_pre_l4_denials := ds \<rparr>) s))"
  "keeps_rounds s (snd (set_result (\<lambda>u. u\<lparr> c1_pairing_status := x, c1_pairing_protection := p \<rparr>) s))"
  "keeps_rounds s (snd (set_result (\<lambda>u. u\<lparr> c3_start_sent := b \<rparr>) s))"
  "keeps_rounds s (snd (set_result (\<lambda>u. u\<lparr> c3_transcript_match := b \<rparr>) s))"
  "keeps_rounds s (snd (set_result (\<lambda>u. u\<lparr> c3_finished_c_sent := b \<rparr>) s))"
  "keeps_rounds s (snd (set_result (\<lambda>u. u\<lparr> c3_finished_p_verified := b, c3_app_secure := b' \<rparr>) s))"
  by (simp_all add: keeps_rounds_def set_result_def)

lemma keeps_rounds_base:
  "keeps_rounds s (snd (onS f s))" "keeps_rounds s (snd (cp3_link B link s))"
  "keeps_rounds s (snd (m s)) \<Longrightarrow> keeps_rounds s (snd (await3 B E link m s))"
  by (auto simp: keeps_rounds_def onS_def cp3_link_def upd_client_def await3_keeps Let_def case_prod_unfold)

lemmas keeps_rounds_steps = rounds.kept_intros keeps_rounds_set keeps_rounds_base keeps_result_base [THEN keeps_rounds_result]
  keeps_probes(1) [THEN keeps_rounds_result] keeps_ensure(1) [THEN keeps_rounds_result] keeps_verify(1) [THEN keeps_rounds_result]

lemma secure_link_rounds: "keeps_rounds s (snd (v1_secure_link B P neg state s))"
  unfolding v1_secure_link_def v1_cold_pairing_def by (intro keeps_rounds_steps)

lemma cp3_body_rounds: "keeps_rounds s (snd (cp3_body B E C r sid link None s))"
  unfolding cp3_body_def cp3_attest_def cp3_receive_def cp3_submit_def cp3_handshake_def cp3_send_def cp3_quiet_def
    Let_def case_prod_unfold option.case
  by (intro keeps_rounds_steps)

text \<open>An exchange that returns, on a client without open sessions.\<close>

lemma cp4_exchange_Inr:
  assumes "cp4_exchange B E C r sid (challenge0, challenge1) s = (Inr info, t)" and "retired_closed (rn_client (vr_runner s))"
  shows "\<exists>pk ct ss h iv_c2p iv_p2c. is_authenticated_level4 info \<and> attested B (rn_taken (vr_runner s)) \<and> attested B (Suc (rn_taken (vr_runner s)))
    \<and> encapsulate C r pk = (ct, ss) \<and> cp3_completed ss level4_wire pk ct sid h \<and> h3_state h = HS_APP_SECURE
    \<and> own_app h (app_after h iv_c2p iv_p2c 2) t \<and> authentic_pong B C h 0 challenge0 \<and> authentic_pong B C h 1 challenge1
    \<and> c4_authenticated_rounds (vr_result t) = c4_authenticated_rounds (vr_result s) + 2
    \<and> v1_linked B (bc_client (rn_client (vr_runner s))) (rn_client (vr_runner t))"
proof -
  let ?app = "Some (\<lambda>_. cp4_rounds B E C [challenge0, challenge1])"
  have ex: "cp3_exchange B E C r sid ?app s = (Inr info, t)" using assms(1) by (simp add: cp4_exchange_def)
  obtain u v pk ct ss h l f where u: "is_authenticated_level4 info" "attested B (rn_taken (vr_runner s))" "attested B (Suc (rn_taken (vr_runner s)))"
    "encapsulate C r pk = (ct, ss)" "cp3_completed ss level4_wire pk ct sid h" "own_session h u" "h3_state h = HS_APP_SECURE"
    "rn_client (vr_runner t) = rn_client (vr_runner v)" "vr_result t = vr_result v"
    "cp3_body B E C r sid l None (upd_client f s) = (Inr info, u)"
    "cp4_rounds B E C [challenge0, challenge1] u = (Inr (), v)" "v1_linked B (bc_client (rn_client (vr_runner s))) (rn_client (vr_runner v))"
    using cp3_exchange_Inr [OF ex assms(2)] by auto
  obtain iv_c2p iv_p2c where v: "own_app h (app_after h iv_c2p iv_p2c 2) v"
    "c4_authenticated_rounds (vr_result v) = c4_authenticated_rounds (vr_result u) + 2"
    "\<forall>i < 2. authentic_pong B C h i ([challenge0, challenge1] ! i)"
    using cp4_rounds_Inr [OF u(11,6)] by (auto simp: numeral_2_eq_2)
  have "authentic_pong B C h 0 challenge0" "authentic_pong B C h 1 challenge1"
    using v(3) [rule_format, of 0] v(3) [rule_format, of 1] by simp_all
  moreover have "own_app h (app_after h iv_c2p iv_p2c 2) t" using v(1) u(8) by (simp add: own_app_def own_session_def)
  moreover have "c4_authenticated_rounds (vr_result u) = c4_authenticated_rounds (vr_result s)"
    using cp3_body_rounds [of "upd_client f s" B E C r sid l] u(10) by (simp add: keeps_rounds_def upd_client_def)
  ultimately show ?thesis using u v(2) by (intro exI [of _ pk] exI [of _ ct] exI [of _ ss] exI [of _ h] exI [of _ iv_c2p] exI [of _ iv_p2c]) simp
qed

subsection \<open>What the rounds keep\<close>

locale cp4_kept = kept R for R :: "'z v1_cp4_result_scheme v1_run \<Rightarrow> 'z v1_cp4_result_scheme v1_run \<Rightarrow> bool" +
  fixes B :: bleak and E :: cp3_env and C :: third_party
  assumes kept_create: "R s (snd (cp4_create s))"
    and kept_round: "R s (snd (cp4_round B E C link challenge s))"
    and kept_last: "R s (snd (await4 B E link NoReply sleepM s))"
    and kept_clear: "R s (upd_client cp4_clear s)"
begin

lemma kept_forM: "R s (snd (forM (cp4_round B E C link) challenges s))"
  by (induction challenges arbitrary: s) (auto simp: kept_refl intro: kept_seq kept_round)

lemma kept_rounds: "R s (snd (cp4_rounds B E C challenges s))"
proof -
  have live: "R s (snd (cp4_require_live B link s))" for link s by (simp add: cp4_require_live_def onR_def kept_refl)
  have link: "R s (snd (onR (readM g) s))" for g s by (simp add: onR_def kept_refl)
  have closing: "R s (snd (onerr (upd_client cp4_clear) m s))" if "\<And>s. R s (snd (m s))" for m s
    by (rule onerr_keeps [where R = R]) ((rule that kept_clear | erule (1) kept_trans)+)
  show ?thesis unfolding cp4_rounds_def by (intro closing kept_intros link kept_create kept_forM kept_last live)
qed

end

lemma app_closes_retired: "app_closes s t \<Longrightarrow> keeps_retired s t"
  by (intro only_closes_retired app_closes_only)

lemma put_app_retired: "retired_closed c \<Longrightarrow> retired_closed (cp4_put a c)"
proof -
  assume r: "retired_closed c"
  let ?d = "case bc_v1_cp4_session c of Some _ \<Rightarrow> c\<lparr> bc_v1_cp4_session := Some (V1Cp4 a) \<rparr> | None \<Rightarrow> c"
  have "retired_closed ?d" using r by (simp split: option.split)
  then show ?thesis using cp3_put_closed [of "cp3_clear (cp3_get ?d)" ?d] by (simp add: cp4_put_def share_handshake_def)
qed

lemma keeps_retired_onA: "keeps_retired s (snd (onA m s))"
  by (simp add: keeps_retired_def onA_def upd_client_def Let_def case_prod_unfold put_app_retired)

lemma keeps_retired_create: "keeps_retired s (snd (cp4_create s))"
  using cp3_put_closed [of "cp3_clear (cp3_get (rn_client (vr_runner s)))"]
  by (auto simp: keeps_retired_def cp4_create_def share_handshake_def upd_client_def split: prod.split sum.split)

lemma await4_app: "(\<And>s. app_closes s (snd (m s))) \<Longrightarrow> app_closes s (snd (await4 B E link reply m s))"
  by (rule app_closes_await4) simp

interpretation retired_rounds: cp4_kept keeps_retired B E C for B E C
proof
  fix s :: "'a v1_cp4_result_scheme v1_run" and link challenge
  show "keeps_retired s (snd (cp4_create s))" by (rule keeps_retired_create)
  show "keeps_retired s (snd (cp4_round B E C link challenge s))"
    unfolding cp4_round_def
    by (intro retiring.kept_intros keeps_retired_onA app_closes_base [THEN app_closes_retired] app_closes_reply [THEN app_closes_retired]
        await4_app [OF app_closes_wait(1), THEN app_closes_retired])
  show "keeps_retired s (snd (await4 B E link NoReply sleepM s))"
    by (rule await4_app [OF app_closes_wait(3), THEN app_closes_retired])
  show "keeps_retired s (upd_client cp4_clear s)"
    using cp4_clear_closes [of "rn_client (vr_runner s)"] by (simp add: keeps_retired_def app_only_closes_def upd_client_def)
qed

lemma same_result_start: "vr_result t = vr_result s \<Longrightarrow> keeps_start s t"
  by (simp add: keeps_start_def)

lemma reply_result: "vr_result (snd (wait_reply B E link reply s)) = vr_result s"
  by (auto simp: wait_reply_def bindM_def onR_def await4_result split: prod.split sum.split dest: arg_cong [where f = "\<lambda>z. vr_result (snd z)"])

lemma cp4_same_result:
  "vr_result (snd (onA m s)) = vr_result s" "vr_result (snd (cp4_create s)) = vr_result s"
  "vr_result (snd (client_mtu B s)) = vr_result s" "vr_result (snd (cp4_require_live B link s)) = vr_result s"
  by (auto simp: onA_def cp4_create_def client_mtu_def cp4_require_live_def upd_client_def Let_def case_prod_unfold split: sum.split)

interpretation start_rounds: cp4_kept keeps_start B E C for B E C
proof
  fix s :: "'a v1_cp4_result_scheme v1_run" and link challenge
  show "keeps_start s (snd (cp4_create s))" by (intro same_result_start cp4_same_result)
  have count: "keeps_start s (snd (set_result (\<lambda>u. u\<lparr> c4_authenticated_rounds := c4_authenticated_rounds u + 1 \<rparr>) s))"
    for s :: "'a v1_cp4_result_scheme v1_run" by (simp add: keeps_start_def set_result_def)
  have send: "keeps_start s (snd (await4 B E link reply (onR m) s))" for reply m and s :: "'a v1_cp4_result_scheme v1_run"
    by (rule same_result_start) (simp add: await4_result)
  have reply: "keeps_start s (snd (wait_reply B E link reply s))" for reply and s :: "'a v1_cp4_result_scheme v1_run"
    by (rule same_result_start) (rule reply_result)
  have same: "keeps_start s (snd (onA m s))" "keeps_start s (snd (client_mtu B s))" "keeps_start s (snd (cp4_require_live B link s))"
    for s :: "'a v1_cp4_result_scheme v1_run" and m :: "(central_application, 'd) meth" by (intro same_result_start cp4_same_result)+
  show "keeps_start s (snd (cp4_round B E C link challenge s))"
    unfolding cp4_round_def by (intro starts.kept_intros keeps_start_base count send reply same)
  show "keeps_start s (snd (await4 B E link NoReply sleepM s))" by (rule same_result_start) (simp add: await4_result sleepM_apply)
  show "keeps_start s (upd_client cp4_clear s)" by (rule same_result_start) (simp add: upd_client_def)
qed

lemma cp4_keeps:
  "keeps_retired s (snd (cp4_exchange B E C r sid chs s))" "keeps_start s (snd (cp4_exchange B E C r sid chs s))"
proof -
  obtain c0 c1 where c: "chs = (c0, c1)" by fastforce
  have "keeps_retired s (snd (cp3_exchange B E C r sid (Some (\<lambda>_. cp4_rounds B E C [c0, c1])) s))"
    by (rule keeps_retired_exchange) (auto simp: retired_rounds.kept_rounds)
  then show "keeps_retired s (snd (cp4_exchange B E C r sid chs s))" unfolding cp4_exchange_def c prod.case
    by (rule onerr_keeps) (rule retired_rounds.kept_clear, erule (1) retiring.kept_trans)
  have "keeps_start s (snd (cp3_exchange B E C r sid (Some (\<lambda>_. cp4_rounds B E C [c0, c1])) s))"
    by (rule cp3_keeps_start) (auto simp: start_rounds.kept_rounds)
  then show "keeps_start s (snd (cp4_exchange B E C r sid chs s))" unfolding cp4_exchange_def c prod.case
    by (rule onerr_keeps) (rule start_rounds.kept_clear, erule (1) starts.kept_trans)
qed

text \<open>Nothing open is left in the client: neither a handshake nor an application.\<close>

definition all_closed4 :: "ble_client \<Rightarrow> bool" where
  "all_closed4 c \<longleftrightarrow> all_closed c \<and> (case bc_v1_cp4_session c of None \<Rightarrow> True | Some a \<Rightarrow> v1_application_closed a)"

lemma cp4_clear_all:
  assumes "retired_closed c" "bc_v1_cp4_session c \<noteq> None"
  shows "retired_closed (cp4_clear c)" "h3_state (cp3_get (cp4_clear c)) = HS_CLOSED"
    "case bc_v1_cp4_session (cp4_clear c) of None \<Rightarrow> True | Some a \<Rightarrow> v1_application_closed a"
proof -
  let ?d = "c\<lparr> bc_v1_cp4_session := Some (V1Cp4 (CentralApplication_clear (cp4_get c))) \<rparr>"
  have e: "cp4_clear c = cp3_put (cp3_clear (cp3_get c)) ?d" using assms(2) by (auto simp: cp4_clear_def cp4_put_def share_handshake_def)
  have "retired_closed ?d" using assms(1) by simp
  then show "retired_closed (cp4_clear c)" "h3_state (cp3_get (cp4_clear c)) = HS_CLOSED"
    using cp3_put_closed [of "cp3_clear (cp3_get c)" ?d] e by simp_all
  show "case bc_v1_cp4_session (cp4_clear c) of None \<Rightarrow> True | Some a \<Rightarrow> v1_application_closed a"
    unfolding e by (simp add: cp3_put_def split: option.split list.split)
qed

lemma clear_owned_all:
  assumes "retired_closed c"
  shows "all_closed4 (clear_owned_session (clear_owned_application c))"
proof -
  let ?c = "clear_owned_application c"
  have "retired_closed ?c \<and> (case bc_v1_cp4_session ?c of None \<Rightarrow> True | Some a \<Rightarrow> v1_application_closed a)"
    using assms cp4_clear_all [OF assms] by (auto simp: clear_owned_application_def HybridApplication_clear_def app_session_clear_def
        split: option.split v1_application.split)
  moreover have "bc_v1_cp4_session (clear_owned_session ?c) = bc_v1_cp4_session ?c" by (simp add: clear_owned_session_def split: option.split)
  ultimately show ?thesis using clear_owned_closes [of ?c] by (simp add: all_closed4_def)
qed

lemma own_clear:
  assumes "own_app h a s"
  shows "all_closed4 (cp4_clear (rn_client (vr_runner s)))"
proof -
  let ?c = "rn_client (vr_runner s)"
  have c: "retired_closed ?c" "bc_v1_cp4_session ?c \<noteq> None" "bc_v1_cp3_session ?c = Some (V1Handshake h)"
    using assms own_session_owned [of h s] by (auto simp: own_app_def own_session_def)
  note cl = cp4_clear_all [OF c(1,2)]
  have "bc_v1_cp3_session (cp4_clear ?c) = Some (V1Handshake (cp3_clear (cp3_get ?c)))"
    using c(2,3) by (auto simp: cp4_clear_def cp4_put_def share_handshake_def cp3_put_def)
  then show ?thesis using cl by (simp add: all_closed4_def all_closed_def)
qed

lemma run_v1_cp4_Inr:
  assumes "run_v1_cp4 B E P C r sid (challenge0, challenge1) neg unpair_first s = (Inr res, t)" and "retired_closed (rn_client (vr_runner s))"
  shows "neg = None \<and> (c1_scenario res = ''bonded'' \<or> c1_scenario res = ''cold'' \<and> v1_cold_start P res)
    \<and> is_authenticated_level4 (c1_security_info res) \<and> c4_authenticated_rounds res = 2
    \<and> (\<exists>k pk ct ss h iv_c2p iv_p2c. attested B k \<and> attested B (Suc k) \<and> encapsulate C r pk = (ct, ss)
        \<and> cp3_completed ss level4_wire pk ct sid h \<and> h3_state h = HS_APP_SECURE \<and> own_app h (app_after h iv_c2p iv_p2c 2) t
        \<and> authentic_pong B C h 0 challenge0 \<and> authentic_pong B C h 1 challenge1)"
proof -
  have run: "run_v1 B P V1CP4Result None unpair_first (cp4_exchange B E C r sid (challenge0, challenge1)) True s = (Inr res, t)" and neg: "neg = None"
    using assms(1) by (auto simp: run_v1_cp4_def split: if_splits)
  have sc: "c1_scenario (V1CP4Result sc i) = sc" "c4_authenticated_rounds (V1CP4Result sc i) = 0" for sc i
    by (simp_all add: V1CP4Result_def V1CP3Result_def V1CP1Result_def v1_cp1_result.defs v1_cp3_result.defs)
  note st = run_v1_started [OF run cp4_keeps(2) sc(1)]
  obtain u v info s2 state scn i where u: "keeps_retired s u" "cp4_exchange B E C r sid (challenge0, challenge1) u = (Inr info, v)" "vr_runner t = vr_runner v"
    "res = (vr_result v)\<lparr> c1_security_info := info \<rparr>" "v1_secure_link B P None state (s2\<lparr> vr_result := V1CP4Result scn i \<rparr>) = (Inr (), u)"
    using retiring_run.kept_run_Inr [OF run] by blast
  have ru: "retired_closed (rn_client (vr_runner u))" using u(1) assms(2) by (simp add: keeps_retired_def)
  have zero: "c4_authenticated_rounds (vr_result u) = 0"
    using secure_link_rounds [of "s2\<lparr> vr_result := V1CP4Result scn i \<rparr>" B P None state] u(5) sc(2) by (simp add: keeps_rounds_def)
  obtain pk ct ss h iv_c2p iv_p2c where w: "is_authenticated_level4 info" "attested B (rn_taken (vr_runner u))" "attested B (Suc (rn_taken (vr_runner u)))"
    "encapsulate C r pk = (ct, ss)" "cp3_completed ss level4_wire pk ct sid h" "h3_state h = HS_APP_SECURE"
    "own_app h (app_after h iv_c2p iv_p2c 2) v" "authentic_pong B C h 0 challenge0" "authentic_pong B C h 1 challenge1"
    "c4_authenticated_rounds (vr_result v) = c4_authenticated_rounds (vr_result u) + 2"
    using cp4_exchange_Inr [OF u(2) ru] by blast
  have own: "own_app h (app_after h iv_c2p iv_p2c 2) t" using w(7) u(3) by (simp add: own_app_def own_session_def)
  have "\<exists>k pk ct ss h iv_c2p iv_p2c. attested B k \<and> attested B (Suc k) \<and> encapsulate C r pk = (ct, ss)
        \<and> cp3_completed ss level4_wire pk ct sid h \<and> h3_state h = HS_APP_SECURE \<and> own_app h (app_after h iv_c2p iv_p2c 2) t
        \<and> authentic_pong B C h 0 challenge0 \<and> authentic_pong B C h 1 challenge1"
    using w(2-6,8,9) own by blast
  moreover have "is_authenticated_level4 (c1_security_info res)" "c4_authenticated_rounds res = 2" using w(1,10) u(4) zero by simp_all
  ultimately show ?thesis using st neg by blast
qed

lemma cp4_run_error:
  assumes "run_v1_cp4 B E P C r sid chs None unpair_first s = (Inl e, t)" and "retired_closed (rn_client (vr_runner s))"
  shows "all_closed4 (rn_client (vr_runner t))"
proof -
  let ?m = "run_v1 B P V1CP4Result None unpair_first (cp4_exchange B E C r sid chs) True"
  obtain u where u: "?m s = (Inl e, u)" "t = upd_client (\<lambda>c. clear_owned_session (clear_owned_application c)) u"
    using assms(1) by (auto simp: run_v1_cp4_def onerr_Inl)
  have "keeps_retired s (snd (?m s))" by (intro retiring_run.kept_run cp4_keeps)
  then have "retired_closed (rn_client (vr_runner u))" using u(1) assms(2) by (simp add: keeps_retired_def)
  then show ?thesis using clear_owned_all u(2) by (simp add: upd_client_def)
qed

lemma new_run_retired: "no_session c \<Longrightarrow> retired_closed (rn_client (vr_runner (new_v1_run c p res)))"
  by (simp add: no_session_def new_v1_run_def new_runner_def)

lemma late_notification:
  assumes "own_app h a s"
  shows "all_closed4 (snd (on_application B link d (NoReply, rn_client (vr_runner s))))"
  using own_clear [OF assms] by (auto simp: on_application_def bindR_def requireR_def split: sum.split)

subsection \<open>An honest DK through both rounds\<close>

text \<open>Links and subscription stay, as long as nothing interrupts the exchange.\<close>

definition links_of :: "ble_client \<Rightarrow> nat option \<times> nat option \<times> nat option" where
  "links_of c = (bc_client c, bc_v1_cp3_link c, bc_v1_notify_link c)"

definition keeps_links :: "'r v1_run \<Rightarrow> 'r v1_run \<Rightarrow> bool" where
  "keeps_links s t \<longleftrightarrow> links_of (rn_client (vr_runner t)) = links_of (rn_client (vr_runner s))"

definition client_links :: "ble_client \<Rightarrow> ble_client \<Rightarrow> bool" where
  "client_links c d \<longleftrightarrow> links_of d = links_of c"

interpretation links: kept keeps_links
  by unfold_locales (auto simp: keeps_links_def)

interpretation client_links: kept client_links
  by unfold_locales (auto simp: client_links_def)

lemma put_links [simp]: "links_of (cp3_put h c) = links_of c" "links_of (c\<lparr> bc_ops := ops \<rparr>) = links_of c"
  by (simp_all add: links_of_def cp3_put_def split: option.split list.split)

lemma calm_callbacks_links: "calm E \<Longrightarrow> links_of (cp3_callbacks B E link ops c) = links_of c"
proof -
  have "links_of (foldl (\<lambda>c _. deliver_notification B l c) c ns) = links_of c" for l c and ns :: "bytes list"
    by (induction ns arbitrary: c) (simp_all add: deliver_notification_def)
  then show "calm E \<Longrightarrow> links_of (cp3_callbacks B E link ops c) = links_of c" by (simp add: cp3_callbacks_def lost_callback_def calm_def)
qed

lemma keeps_links_await: "calm E \<Longrightarrow> keeps_links s (snd (m s)) \<Longrightarrow> keeps_links s (snd (await3 B E link m s))"
  by (auto simp: keeps_links_def await3_def upd_client_def Let_def case_prod_unfold calm_callbacks_links split: option.split)

lemma call_links: "client_links c (snd (bleak_call B p c))"
  by (simp add: client_links_def bleak_call_def Let_def)

lemma client_calls_links:
  "client_links c (snd (send_control B w c))" "client_links c (snd (read_fragmented_public_key B c))"
  "client_links c (snd (write_fragmented_ciphertext B ct c))"
proof -
  have "client_links c (snd (write_all B fs c))" for fs c
    by (induction fs arbitrary: c) (auto intro: client_links.kept_intros call_links client_links.kept_refl)
  then show "client_links c (snd (send_control B w c))" "client_links c (snd (read_fragmented_public_key B c))"
    "client_links c (snd (write_fragmented_ciphertext B ct c))"
    unfolding send_control_def read_fragmented_public_key_def write_fragmented_ciphertext_def require_connected_def
    by (intro client_links.kept_intros call_links; simp)+
qed

lemma keeps_links_client: "(\<And>c. client_links c (snd (m c))) \<Longrightarrow> keeps_links s (snd (onR (runC m) s))"
  by (simp add: keeps_links_def client_links_def onR_def runC_def Let_def case_prod_unfold)

lemma keeps_links_base:
  "keeps_links s (snd (set_result k s))" "keeps_links s (snd (require_empty B msg s))" "keeps_links s (snd (cp3_link B link s))"
  "keeps_links s (snd (onR (setM (set_buf b v)) s))" "keeps_links s (snd (onR (setM (wipe_buf b)) s))"
  "keeps_links s (snd (onR (take_notification B e) s))" "keeps_links s (snd (quiet_window B msg s))" "keeps_links s (snd (sleepM s))"
  "keeps_links s (snd (onS f s))"
  by (auto simp: keeps_links_def set_result_def require_empty_def cp3_link_def onR_def set_buf_def wipe_buf_def onS_def upd_client_def
      take_notification_def quiet_window_def sleepM_def log_op_def Let_def case_prod_unfold)

lemmas keeps_links_steps = links.kept_intros keeps_links_base keeps_links_client [OF client_calls_links(1)]
  keeps_links_client [OF client_calls_links(2)] keeps_links_client [OF client_calls_links(3)]

lemma cp3_stages_links:
  assumes "calm E"
  shows "keeps_links s (snd (cp3_attest B E link s))" "keeps_links t (snd (cp3_submit B E C r link t))"
    "keeps_links u (snd (cp3_handshake B E sid link sec keys u))" "keeps_links u (snd (cp3_quiet B E link u))"
  unfolding cp3_attest_def cp3_receive_def cp3_submit_def cp3_handshake_def cp3_send_def cp3_quiet_def Let_def case_prod_unfold
  by (intro keeps_links_steps keeps_links_await assms)+

lemma started_links:
  "start_notify B c = (Inr (), d) \<Longrightarrow> links_of d = (bc_client c, bc_v1_cp3_link c, bc_client c)"
  by (auto simp: start_notify_def require_connected_def bleak_call_def links_of_def Let_def)

lemma cp3_body_links:
  assumes "calm E" "cp3_body B E C r sid (Some l) None s = (Inr info, t)" "bc_v1_cp3_link (rn_client (vr_runner s)) = Some l"
  shows "links_of (rn_client (vr_runner t)) = (Some l, Some l, Some l)"
proof -
  obtain s1 w i s2 keys s3 sec i' s4 s5 where st: "bc_client (rn_client (vr_runner s)) = Some l"
    "await3 B E (Some l) (onR (runC (start_notify B))) s = (Inr (), s1)" "cp3_attest B E (Some l) s1 = (Inr (w, i), s2)"
    "cp3_submit B E C r (Some l) s2 = (Inr keys, s3)" "cp3_attest B E (Some l) s3 = (Inr (sec, i'), s4)"
    "cp3_handshake B E sid (Some l) sec keys s4 = (Inr (), s5)" "cp3_quiet B E (Some l) s5 = (Inr (), t)"
    using assms(2) by (auto simp: cp3_body_def cp3_link_Inr v1_linked_def)
  have "keeps_links s1 s2" "keeps_links s2 s3" "keeps_links s3 s4" "keeps_links s4 s5" "keeps_links s5 t"
    using cp3_stages_links [OF assms(1)] st(3-7) by (metis snd_conv)+
  then have "keeps_links s1 t" by (blast intro: links.kept_trans)
  moreover let ?c = "snd (start_notify B (rn_client (vr_runner s)))"
  have c: "start_notify B (rn_client (vr_runner s)) = (Inr (), ?c)" "links_of (rn_client (vr_runner s1)) = links_of ?c"
    using st(2) assms(1)
    by (auto simp: await3_def onR_def runC_def upd_client_def calm_callbacks_links Let_def case_prod_unfold prod_eq_iff
        split: if_splits option.splits)
  have "links_of ?c = (Some l, Some l, Some l)" using started_links [OF c(1)] st(1) assms(3) by simp
  ultimately show ?thesis using c(2) by (simp add: keeps_links_def)
qed

text \<open>With an application the exchange goes on where CP3 ends.\<close>

lemma cp3_body_goes_on:
  assumes "cp3_body B E C r sid link None s = (Inr info, u)" and "f link u = (Inr (), t)" "v1_linked B link (rn_client (vr_runner t))"
  shows "cp3_body B E C r sid link (Some f) s = (Inr info, t)"
proof -
  have "seqM (f link) (cp3_link B link) u = (Inr (), t)" using assms(2,3) by (simp add: cp3_link_Inr)
  then show ?thesis using assms(1) by (fastforce simp: cp3_body_def)
qed

text \<open>On link \<open>l\<close> with the DK in state \<open>v\<close> and the application object \<open>a\<close>.\<close>

definition app_at :: "dk_params \<Rightarrow> nat \<Rightarrow> dk \<Rightarrow> cp3 \<Rightarrow> central_application \<Rightarrow> 'r v1_run \<Rightarrow> bool" where
  "app_at K l v h a s \<longleftrightarrow> links_of (rn_client (vr_runner s)) = (Some l, Some l, Some l)
     \<and> dk_run K (bc_ops (rn_client (vr_runner s))) = v \<and> own_app h a s \<and> h3_state h = HS_APP_SECURE"

lemma app_at_live:
  assumes "live_link B pk" "app_at K l v h a s"
  shows "cp4_live B (Some l) (rn_client (vr_runner s))"
  using assms own_session_owned [OF own_app_session, of h a s] live_connected [of B pk "rn_client (vr_runner s)"]
  by (auto simp: app_at_def cp4_live_def own_app_def own_session_def links_of_def)

lemma app_at_require:
  assumes "live_link B pk" "app_at K l v h a s"
  shows "cp4_require_live B (Some l) s = (Inr (), s)"
  using app_at_live [OF assms] by (simp add: require_live_Inr)

lemma app_at_parts [simp]:
  "app_at K l v h a (s\<lparr> vr_result := res \<rparr>) = app_at K l v h a s"
  "app_at K l v h a (s\<lparr> vr_runner := set_buf b x (vr_runner s) \<rparr>) = app_at K l v h a s"
  "app_at K l v h a (s\<lparr> vr_runner := wipe_buf b (vr_runner s) \<rparr>) = app_at K l v h a s"
  "app_at K l v h a (s\<lparr> vr_result := res, vr_runner := wipe_buf b (vr_runner s) \<rparr>) = app_at K l v h a s"
  by (simp_all add: app_at_def own_app_def own_session_def set_buf_def wipe_buf_def)

lemma app_at_op:
  "app_at K l v h a s \<Longrightarrow> app_at K l (dk_step K v p) h a (upd_client (\<lambda>c. c\<lparr> bc_ops := bc_ops c @ [p] \<rparr>) s)"
  by (simp add: app_at_def own_app_def own_session_def upd_client_def dk_run_append)

text \<open>What the DK sends comes in only while it is waited for.\<close>

lemma await4_calm:
  assumes "honest_dk B K" "calm E" "app_at K l v h a s" "m s = (Inr x, upd_client (\<lambda>c. c\<lparr> bc_ops := bc_ops c @ [p] \<rparr>) s)" "p \<noteq> AwaitNotify"
  shows "await4 B E link reply m s = (Inr reply, upd_client (\<lambda>c. c\<lparr> bc_ops := bc_ops c @ [p] \<rparr>) s)"
  using assms dk_step_out [OF assms(5), of K v]
  by (simp add: await4_def Let_def arrivals_def honest_dk_def lost_callback_def calm_def stopped_def upd_client_def bindR_def app_at_def dk_run_append)

lemma control_op:
  "live_link B pk \<Longrightarrow> bc_client (rn_client (vr_runner s)) \<noteq> None \<Longrightarrow>
    onR (runC (send_control B w)) s = (Inr (), upd_client (\<lambda>c. c\<lparr> bc_ops := bc_ops c @ [WriteChar CHAR_CONTROL w] \<rparr>) s)"
  using live_control [of B pk "vr_runner s" w] by (simp add: onR_def upd_client_def did_def)

lemma app_at_send:
  assumes "live_link B pk" "honest_dk B K" "calm E" "app_at K l v h a s"
  shows "\<exists>t. await4 B E (Some l) reply (onR (runC (send_control B w))) s = (Inr reply, t) \<and> app_at K l (dk_control K w v) h a t"
proof -
  let ?t = "upd_client (\<lambda>c. c\<lparr> bc_ops := bc_ops c @ [WriteChar CHAR_CONTROL w] \<rparr>) s"
  have "onR (runC (send_control B w)) s = (Inr (), ?t)" using assms(4) by (intro control_op [OF assms(1)]) (simp add: app_at_def links_of_def)
  then have "await4 B E (Some l) reply (onR (runC (send_control B w))) s = (Inr reply, ?t)"
    by (rule await4_calm [OF assms(2-4)]) simp
  then show ?thesis using app_at_op [OF assms(4), of "WriteChar CHAR_CONTROL w"] by auto
qed

lemma app_at_pong:
  assumes "live_link B pk" "honest_dk B K" "calm E" "app_at K l v h a s" "dk_pending v = [w]"
  shows "\<exists>t. wait_reply B E (Some l) Pending s = (Inr w, t) \<and> app_at K l (dk_took w v) h a t"
proof -
  let ?t = "upd_client (\<lambda>c. c\<lparr> bc_ops := bc_ops c @ [AwaitNotify] \<rparr>) s" and ?c = "rn_client (vr_runner s)"
  have m: "onR (setM (log_op AwaitNotify)) s = (Inr (), ?t)" by (simp add: onR_def log_op_def upd_client_def)
  have t: "app_at K l (dk_took w v) h a ?t"
    using app_at_op [OF assms(4), of AwaitNotify] assms(5) by (simp add: dk_took_def)
  have arr: "arrivals B (bc_ops ?c) (bc_ops ?c @ [AwaitNotify]) = [w]"
    using assms(2,4,5) by (simp add: arrivals_def honest_dk_def app_at_def dk_run_append)
  have "on_application B (Some l) w (Pending, rn_client (vr_runner ?t)) = (Replied w, rn_client (vr_runner ?t))"
    using app_at_live [OF assms(1) t] by (simp add: on_application_def)
  then have "await4 B E (Some l) Pending (onR (setM (log_op AwaitNotify))) s = (Inr (Replied w), ?t)"
    using assms(3) arr by (simp add: await4_def m Let_def lost_callback_def calm_def stopped_def upd_client_def bindR_def)
  then have "wait_reply B E (Some l) Pending s = (Inr w, ?t)"
    by (simp add: wait_reply_def bindM_def reply_value_def)
  then show ?thesis using t by blast
qed

text \<open>What completed the handshake has keys and a session id of the right sizes.\<close>

lemma completed_sizes:
  assumes "cp3_completed ss sec pk ct sid h"
  shows "length (h3_app_c2p h) = 32 \<and> length (h3_app_p2c h) = 32 \<and> length (h3_session_id h) = 16 \<and> h3_state h = HS_APP_SECURE"
  using assms by (auto simp: cp3_completed_def cp3_begin_Inr cp3_ready_Inr cp3_finished_Inr Let_def cp3_clear_handshake_def)

lemma iv_base_total:
  assumes "length key = 32" "length sid = 16" "t = APP_C2P \<or> t = APP_P2C"
  shows "\<exists>iv. derive_iv_base key sid t 0x10 = Inr iv \<and> length iv = IV_SIZE"
  using assms by (auto simp: derive_iv_base_def cp4_direction_def app_profile_ok_def length_hmac_sha256)

text \<open>The PONG of round \<open>n\<close> that an honest DK sends.\<close>

definition honest_pong :: "third_party \<Rightarrow> cp3 \<Rightarrow> nat \<Rightarrow> bytes \<Rightarrow> bytes result" where
  "honest_pong C h n challenge =
     bindR (derive_iv_base (h3_app_p2c h) (h3_session_id h) APP_P2C 0x10) (\<lambda>iv.
     encrypt_application C (h3_app_p2c h) iv (h3_session_id h) APP_P2C (int n) PONG challenge 0x10)"

lemma honest_pong_accepted:
  assumes "aead_laws C" "honest_pong C h n challenge = Inr raw" "length challenge = CHALLENGE_SIZE" "int n < UINT64_MAX"
    and "derive_iv_base (h3_app_p2c h) (h3_session_id h) APP_P2C 0x10 = Inr iv"
  shows "decrypt_application C (h3_app_p2c h) iv (h3_session_id h) raw APP_P2C (int n) 0x10 = Inr challenge" "length raw = 51"
proof -
  have e: "encrypt_application C (h3_app_p2c h) iv (h3_session_id h) APP_P2C (int n) PONG challenge 0x10 = Inr raw"
    using assms(2,5) by (simp add: honest_pong_def)
  then show "decrypt_application C (h3_app_p2c h) iv (h3_session_id h) raw APP_P2C (int n) 0x10 = Inr challenge"
    using decrypt_application_iff [OF assms(1), of APP_P2C] assms(3,4) by simp
  show "length raw = 51" using e assms(3) length_aesgcm_encrypt [OF assms(1)] by (auto simp: encrypt_application_Inr app_sealed_def)
qed

lemma honest_pong_total:
  assumes "cp3_completed ss sec pk ct sid h" "length challenge = CHALLENGE_SIZE" "int n \<le> UINT64_MAX"
  shows "\<exists>raw. honest_pong C h n challenge = Inr raw"
proof -
  note sz = completed_sizes [OF assms(1)]
  obtain iv where "derive_iv_base (h3_app_p2c h) (h3_session_id h) APP_P2C 0x10 = Inr iv" "length iv = IV_SIZE"
    using iv_base_total sz by blast
  then show ?thesis using sz assms(2,3) by (simp add: honest_pong_def encrypt_application_Inr app_args_ok_def seq_ok_def app_profile_ok_def)
qed

text \<open>The DK's keys are those of the session, and it answers a PING of the session with the PONG of its challenge.\<close>

lemma dk_keys_completed:
  assumes "cp3_completed ss level4_wire pk ct sid h"
  shows "h3_app_c2p h = da_c2p (dk_app_keys ss pk ct (frame_wire V1_FRAME_MAGIC 16 20 sid))"
    "h3_app_p2c h = da_p2c (dk_app_keys ss pk ct (frame_wire V1_FRAME_MAGIC 16 20 sid))"
    "h3_session_id h = da_sid (dk_app_keys ss pk ct (frame_wire V1_FRAME_MAGIC 16 20 sid))"
proof -
  let ?s = "frame_wire V1_FRAME_MAGIC 16 20 sid"
  obtain start ready fin finp h1 h2 where a: "encode_v1_frame V1_START_CP3 sid = Inr start" "cp3_begin ss level4_wire pk ct start cp3_init = (Inr (), h1)"
    "cp3_accept_ready ready h1 = (Inr fin, h2)" "cp3_accept_finished_p finp h2 = (Inr (), h)"
    using assms by (auto simp: cp3_completed_def)
  have start: "start = ?s" using a(1) by (simp add: pqv1.encode_Inr)
  have sid: "drop 8 ?s = sid" by (simp add: frame_wire_def)
  have v1: "h3_th h1 = cp3_th0 pk ct ?s" "h3_prk h1 = hmac_sha256 (cp3_th0 pk ct ?s) ss" "h3_session_id h1 = sid"
    "h3_finished_c h1 = hmac_sha256 (h3_prk h1) (FINISHED_C_LABEL @ h3_th h1 @ [1])"
    "h3_finished_p h1 = hmac_sha256 (h3_prk h1) (FINISHED_P_LABEL @ h3_th h1 @ [1])"
    using a(2) start sid by (auto simp: cp3_begin_Inr Let_def frame_wire_def)
  then have fin: "fin = dk_finished_c ss pk ct ?s" using a(3) by (auto simp: cp3_ready_Inr dk_finished_c_def Let_def)
  then have v2: "h3_th h2 = sha256 (cp3_th0 pk ct ?s @ dk_finished_c ss pk ct ?s)" "h3_prk h2 = h3_prk h1" "h3_finished_p h2 = h3_finished_p h1"
    "h3_session_id h2 = sid"
    using v1 a(3) by (auto simp: cp3_ready_Inr)
  then have finp: "finp = dk_finished_p ss pk ct ?s" using a(4) v1 by (auto simp: cp3_finished_Inr dk_finished_p_def Let_def)
  show "h3_app_c2p h = da_c2p (dk_app_keys ss pk ct ?s)" "h3_app_p2c h = da_p2c (dk_app_keys ss pk ct ?s)"
    "h3_session_id h = da_sid (dk_app_keys ss pk ct ?s)"
    using a(4) v1 v2 finp sid by (auto simp: cp3_finished_Inr cp3_clear_handshake_def dk_app_keys_def Let_def)
qed

lemma dk_pong_answers:
  assumes "aead_laws C" "cp3_completed ss level4_wire pk ct sid h" "derive_iv_base (h3_app_c2p h) (h3_session_id h) APP_C2P 0x10 = Inr iv"
    and "encrypt_application C (h3_app_c2p h) iv (h3_session_id h) APP_C2P (int n) PING challenge 0x10 = Inr frame"
    and "length challenge = CHALLENGE_SIZE" "int n < UINT64_MAX" "a = dk_app_keys ss pk ct (frame_wire V1_FRAME_MAGIC 16 20 sid)"
  shows "dk_pong (C, pk, sk) frame (a\<lparr> da_seq := n \<rparr>) = honest_pong C h n challenge"
proof -
  have "decrypt_application C (h3_app_c2p h) iv (h3_session_id h) frame APP_C2P (int n) 0x10 = Inr challenge"
    using decrypt_application_iff [OF assms(1), of APP_C2P] assms(4-6) by simp
  then show ?thesis using assms(3) dk_keys_completed [OF assms(2)] assms(7) by (simp add: dk_pong_def honest_pong_def)
qed

lemma onA_live:
  assumes "app_at K l v h a s" "m a = (Inr x, a')" "ca_handshake a' = ca_handshake a"
  shows "\<exists>t. onA m s = (Inr x, t) \<and> app_at K l v h a' t"
proof -
  let ?t = "upd_client (cp4_put a') s"
  have s: "own_app h a s" using assms(1) by (simp add: app_at_def)
  have "onA m s = (Inr x, ?t)" using own_app_get [OF s] assms(2) by (simp add: onA_def)
  moreover have "own_app h a' ?t" by (rule own_app_put [OF s assms(3)])
  moreover have "h3_state h \<noteq> HS_CLOSED" "ca_handshake a' = cp3_session h" using s assms(3) by (auto simp: own_app_def own_session_def)
  then have "cp4_put a' c = (case bc_v1_cp4_session c of Some _ \<Rightarrow> c\<lparr> bc_v1_cp4_session := Some (V1Cp4 a') \<rparr> | None \<Rightarrow> c)" for c
    by (simp add: cp4_put_def share_handshake_def)
  then have "links_of (rn_client (vr_runner ?t)) = links_of (rn_client (vr_runner s))"
    "bc_ops (rn_client (vr_runner ?t)) = bc_ops (rn_client (vr_runner s))"
    by (simp_all add: upd_client_def links_of_def split: option.split)
  ultimately show ?thesis using assms(1) by (auto simp: app_at_def)
qed

lemma client_mtu_at: "app_at K l v h a s \<Longrightarrow> client_mtu B s = (Inr (bl_mtu B (bc_ops (rn_client (vr_runner s))) l), s)"
  by (simp add: app_at_def client_mtu_def onR_def links_of_def client_mtu_size_def)

text \<open>The DK after \<open>n\<close> PINGs.\<close>

definition dk_after :: "dk_app \<Rightarrow> nat \<Rightarrow> dk \<Rightarrow> bool" where
  "dk_after a n v \<longleftrightarrow> dk_keys v = Some (a\<lparr> da_seq := n \<rparr>) \<and> dk_pending v = []"

lemma cp4_round_live:
  assumes B: "live_link B pk" "honest_dk B (C, pk, sk)" "calm E" and s: "app_at (C, pk, sk) l v h (app_after h iv_c2p iv_p2c n) s"
    and v: "dk_after (dk_app_keys ss pk ct (frame_wire V1_FRAME_MAGIC 16 20 sid)) n v" and mtu: "\<forall>ops. 54 \<le> bl_mtu B ops l"
    and C: "aead_laws C" "cp3_completed ss level4_wire pk ct sid h" "derive_iv_base (h3_app_c2p h) (h3_session_id h) APP_C2P 0x10 = Inr iv_c2p"
      "derive_iv_base (h3_app_p2c h) (h3_session_id h) APP_P2C 0x10 = Inr iv_p2c"
    and p: "length challenge = CHALLENGE_SIZE" "int n < UINT64_MAX"
  shows "\<exists>t w. cp4_round B E C (Some l) challenge s = (Inr (), t) \<and> app_at (C, pk, sk) l w h (app_after h iv_c2p iv_p2c (Suc n)) t
    \<and> dk_after (dk_app_keys ss pk ct (frame_wire V1_FRAME_MAGIC 16 20 sid)) (Suc n) w"
proof -
  let ?a = "app_after h iv_c2p iv_p2c" and ?s = "s\<lparr> vr_runner := set_buf ''challenge'' challenge (vr_runner s) \<rparr>" and ?K = "(C, pk, sk)"
  let ?a1 = "(?a n)\<lparr> ca_tx_c2p := int n + 1 \<rparr>" and ?k = "dk_app_keys ss pk ct (frame_wire V1_FRAME_MAGIC 16 20 sid)"
  note sz = completed_sizes [OF C(2)]
  obtain pong where hp: "honest_pong C h n challenge = Inr pong" using honest_pong_total [OF C(2) p(1)] p(2) by (metis less_imp_le)
  note pong = honest_pong_accepted [OF C(1) hp p C(4)]
  have ivl: "length iv_c2p = 12" using C(3) sz by (auto simp: derive_iv_base_def split: if_splits)
  have "\<exists>frame. encrypt_application C (h3_app_c2p h) iv_c2p (h3_session_id h) APP_C2P (int n) PING challenge 0x10 = Inr frame"
    using sz ivl p by (simp add: encrypt_application_Inr app_args_ok_def seq_ok_def app_profile_ok_def)
  then obtain frame where fr: "encrypt_application C (h3_app_c2p h) iv_c2p (h3_session_id h) APP_C2P (int n) PING challenge 0x10 = Inr frame" by blast
  then have ping: "CentralApplication_encrypt_ping C challenge (bl_mtu B ops l) (?a n) = (Inr frame, ?a1)" for ops
    using sz p mtu by (simp add: ping_Inr app_after_def cp3_session_def)
  have accept: "CentralApplication_accept_pong C challenge (bl_mtu B ops l) pong ?a1 = (Inr (), ?a (Suc n))" for ops
    using sz pong mtu by (simp add: pong_Inr app_after_def cp3_session_def)
  let ?w = "dk_say pong (v\<lparr> dk_keys := Some (?k\<lparr> da_seq := Suc n \<rparr>) \<rparr>)"
  have "dk_pong ?K frame (?k\<lparr> da_seq := n \<rparr>) = Inr pong" using dk_pong_answers [OF C(1-3) fr p refl] hp by simp
  then have ctl: "dk_control ?K frame v = ?w" using v by (simp add: dk_control_def dk_after_def)
  have s0: "app_at ?K l v h (?a n) ?s" using s by simp
  obtain s1 where s1: "onA (CentralApplication_encrypt_ping C challenge (bl_mtu B (bc_ops (rn_client (vr_runner ?s))) l)) ?s = (Inr frame, s1)"
    "app_at ?K l v h ?a1 s1" 
    using onA_live [where m = "CentralApplication_encrypt_ping C challenge (bl_mtu B (bc_ops (rn_client (vr_runner ?s))) l)", OF s0 ping] by auto
  obtain s2 where s2: "await4 B E (Some l) Pending (onR (runC (send_control B frame))) s1 = (Inr Pending, s2)"
    "app_at ?K l ?w h ?a1 s2" using app_at_send [OF B s1(2), of Pending frame] unfolding ctl by blast
  have "dk_pending ?w = [pong]" using v by (simp add: dk_after_def dk_say_def)
  then obtain s3 where s3: "wait_reply B E (Some l) Pending s2 = (Inr pong, s3)" "app_at ?K l (dk_took pong ?w) h ?a1 s3"
    using app_at_pong [OF B s2(2)] by blast
  obtain s4 where s4: "onA (CentralApplication_accept_pong C challenge (bl_mtu B (bc_ops (rn_client (vr_runner s3))) l) pong) s3 = (Inr (), s4)"
    "app_at ?K l (dk_took pong ?w) h (?a (Suc n)) s4" 
    using onA_live [where m = "CentralApplication_accept_pong C challenge (bl_mtu B (bc_ops (rn_client (vr_runner s3))) l) pong", OF s3(2) accept]
    by (auto simp: app_after_def)
  have w: "dk_after ?k (Suc n) (dk_took pong ?w)" by (simp add: dk_after_def dk_took_def dk_say_def)
  have set: "onR (setM f) y = (Inr (), y\<lparr> vr_runner := f (vr_runner y) \<rparr>)" for f and y :: "'a v1_cp4_result_scheme v1_run"
    by (simp add: onR_def)
  let ?t = "s4\<lparr> vr_result := (vr_result s4)\<lparr> c4_authenticated_rounds := c4_authenticated_rounds (vr_result s4) + 1 \<rparr>,
      vr_runner := wipe_buf ''challenge'' (vr_runner s4) \<rparr>"
  have "cp4_round B E C (Some l) challenge s = (Inr (), ?t)"
    using s1(1) s2(1) s3(1) s4(1) app_at_require [OF B(1) s] app_at_require [OF B(1) s2(2)] app_at_require [OF B(1) s3(2)]
      client_mtu_at [OF s0, of B] client_mtu_at [OF s3(2), of B]
    by (simp add: cp4_round_def finallyM_def seqM_def bindM_step(1) set set_result_apply del: bindM_Inr)
  moreover have "app_at ?K l (dk_took pong ?w) h (?a (Suc n)) ?t" using s4(2) by simp
  ultimately show ?thesis using w by blast
qed

lemma cp4_create_live:
  assumes "own_session h s" "links_of (rn_client (vr_runner s)) = (Some l, Some l, Some l)" "dk_run K (bc_ops (rn_client (vr_runner s))) = v"
    and "cp3_completed ss sec pk ct sid h"
  shows "\<exists>iv_c2p iv_p2c t. derive_iv_base (h3_app_c2p h) (h3_session_id h) APP_C2P 0x10 = Inr iv_c2p
    \<and> derive_iv_base (h3_app_p2c h) (h3_session_id h) APP_P2C 0x10 = Inr iv_p2c
    \<and> cp4_create s = (Inr (), t) \<and> app_at K l v h (app_after h iv_c2p iv_p2c 0) t"
proof -
  note sz = completed_sizes [OF assms(4)]
  obtain iv_c2p where c: "derive_iv_base (h3_app_c2p h) (h3_session_id h) APP_C2P 0x10 = Inr iv_c2p" "length iv_c2p = IV_SIZE"
    using iv_base_total sz by blast
  obtain iv_p2c where p: "derive_iv_base (h3_app_p2c h) (h3_session_id h) APP_P2C 0x10 = Inr iv_p2c" "length iv_p2c = IV_SIZE"
    using iv_base_total sz by blast
  have i: "CentralApplication_init (cp3_session h) None None = (Inr (), app_after h iv_c2p iv_p2c 0)"
    using c p sz by (simp add: CentralApplication_init_def Let_def onerr_def seqM_def bindM_def CentralApplication_require_secure_def
        cp3_session_def app_after_def del: bindM_Inr)
  let ?t = "upd_client (\<lambda>c. c\<lparr> bc_v1_cp4_session := Some (V1Cp4 (app_after h iv_c2p iv_p2c 0)) \<rparr>) s"
  have "cp4_create s = (Inr (), ?t)" using assms(1) i by (simp add: cp4_create_def own_session_def)
  moreover have "app_at K l v h (app_after h iv_c2p iv_p2c 0) ?t"
    using assms(1-3) sz by (simp add: app_at_def own_app_def own_session_def upd_client_def links_of_def app_after_def)
  ultimately show ?thesis using c(1) p(1) by blast
qed

lemma cp4_rounds_live:
  assumes B: "live_link B pk" "honest_dk B (C, pk, sk)" "calm E" and mtu: "\<forall>ops. 54 \<le> bl_mtu B ops l"
    and s: "own_session h s" "links_of (rn_client (vr_runner s)) = (Some l, Some l, Some l)" "dk_run (C, pk, sk) (bc_ops (rn_client (vr_runner s))) = v"
    and v: "dk_after k 0 v" and k: "k = dk_app_keys ss pk ct (frame_wire V1_FRAME_MAGIC 16 20 sid)"
    and C: "aead_laws C" "cp3_completed ss level4_wire pk ct sid h" "length challenge0 = CHALLENGE_SIZE" "length challenge1 = CHALLENGE_SIZE"
  shows "\<exists>t a w. cp4_rounds B E C [challenge0, challenge1] s = (Inr (), t) \<and> app_at (C, pk, sk) l w h a t \<and> dk_after k 2 w"
proof -
  let ?K = "(C, pk, sk)"
  obtain iv_c2p iv_p2c s1 where s1: "derive_iv_base (h3_app_c2p h) (h3_session_id h) APP_C2P 0x10 = Inr iv_c2p"
    "derive_iv_base (h3_app_p2c h) (h3_session_id h) APP_P2C 0x10 = Inr iv_p2c" "cp4_create s = (Inr (), s1)"
    "app_at ?K l v h (app_after h iv_c2p iv_p2c 0) s1"
    using cp4_create_live [OF s C(2)] by blast
  obtain s2 v2 where s2: "cp4_round B E C (Some l) challenge0 s1 = (Inr (), s2)" "app_at ?K l v2 h (app_after h iv_c2p iv_p2c (Suc 0)) s2"
    "dk_after k (Suc 0) v2"
    using cp4_round_live [OF B s1(4) v [unfolded k] mtu C(1,2) s1(1,2) C(3)] unfolding k by auto
  obtain s3 v3 where s3: "cp4_round B E C (Some l) challenge1 s2 = (Inr (), s3)"
    "app_at ?K l v3 h (app_after h iv_c2p iv_p2c (Suc (Suc 0))) s3" "dk_after k (Suc (Suc 0)) v3"
    using cp4_round_live [OF B s2(2) s2(3) [unfolded k] mtu C(1,2) s1(1,2) C(4)] unfolding k by auto
  let ?t = "upd_client (\<lambda>c. c\<lparr> bc_ops := bc_ops c @ [Sleep] \<rparr>) s3"
  have "sleepM s3 = (Inr (), ?t)" by (simp add: sleepM_apply log_op_def upd_client_def)
  then have last: "await4 B E (Some l) NoReply sleepM s3 = (Inr NoReply, ?t)"
    by (rule await4_calm [OF B(2,3) s3(2)]) simp
  have t: "app_at ?K l v3 h (app_after h iv_c2p iv_p2c (Suc (Suc 0))) ?t" using app_at_op [OF s3(2), of Sleep] by simp
  have "bc_client (rn_client (vr_runner s)) = Some l" using s(2) by (simp add: links_of_def)
  then have "cp4_rounds B E C [challenge0, challenge1] s = (Inr (), ?t)"
    using s1(3) s2(1) s3(1) last app_at_require [OF B(1) t]
    by (simp add: cp4_rounds_def bind_read seqM_def bindM_step(1) onerr_def del: bindM_Inr)
  then show ?thesis using t s3(3) by (auto simp: numeral_2_eq_2)
qed

text \<open>What the DK and the Central share after CP3, and the run with both rounds.\<close>

lemma cp4_exchange_live:
  assumes B: "live_link B pk" "honest_dk B (C, pk, sk)" "calm E"
    and mtu: "\<forall>ops. 54 \<le> bl_mtu B ops l"
    and s: "dk_at (C, pk, sk) l dk_init s" "retired_closed (rn_client (vr_runner s))" "bc_v1_cp3_session (rn_client (vr_runner s)) = None"
    and kem: "kem_laws C" "kem_keypair C seed = (pk, sk)" "encapsulate C r pk = (ct, ss)" and sid: "length sid = V1_CP3_SESSION_ID_SIZE"
    and k: "k = dk_app_keys ss pk ct (frame_wire V1_FRAME_MAGIC 16 20 sid)"
    and C: "aead_laws C" "length challenge0 = CHALLENGE_SIZE" "length challenge1 = CHALLENGE_SIZE"
  shows "\<exists>t. cp4_exchange B E C r sid (challenge0, challenge1) s = (Inr level4_info, t)
    \<and> dk_after k 2 (dk_run (C, pk, sk) (bc_ops (rn_client (vr_runner t))))"
proof -
  let ?s = "upd_client (\<lambda>c. c\<lparr> bc_v1_cp3_session := Some (V1Handshake cp3_init), bc_v1_cp3_link := Some l \<rparr>) s"
  have l: "bc_client (rn_client (vr_runner s)) = Some l" using s(1) by (simp add: dk_at_def)
  obtain t h where t: "cp3_exchange B E C r sid None s = (Inr level4_info, t)"
    "dk_keys (dk_run (C, pk, sk) (bc_ops (rn_client (vr_runner t)))) = Some k" "dk_pending (dk_run (C, pk, sk) (bc_ops (rn_client (vr_runner t)))) = []"
    "cp3_completed ss level4_wire pk ct sid h" "own_session h t"
    using cp3_exchange_live [OF B s kem sid] unfolding k by blast
  have "k\<lparr> da_seq := 0 \<rparr> = k" using k by (simp add: dk_app_keys_def Let_def)
  then have after: "dk_after k 0 (dk_run (C, pk, sk) (bc_ops (rn_client (vr_runner t))))" using t(2,3) by (simp add: dk_after_def)
  obtain v where v: "cp3_body B E C r sid (Some l) None ?s = (Inr level4_info, v)" "rn_client (vr_runner t) = rn_client (vr_runner v)"
    using t(1) s(3) l by (auto simp: cp3_exchange_def cp3_exchange_in_def bind_read catchM_def finallyM_Inr onR_Inr wipe_buf_def
        split: prod.splits sum.splits if_splits)
  have vs: "own_session h v" "dk_after k 0 (dk_run (C, pk, sk) (bc_ops (rn_client (vr_runner v))))"
    using t(5) after v(2) by (simp_all add: own_session_def)
  have links: "links_of (rn_client (vr_runner v)) = (Some l, Some l, Some l)"
    by (rule cp3_body_links [OF B(3) v(1)]) (simp add: upd_client_def)
  obtain w a v' where w: "cp4_rounds B E C [challenge0, challenge1] v = (Inr (), w)" "app_at (C, pk, sk) l v' h a w" "dk_after k 2 v'"
    using cp4_rounds_live [OF B mtu vs(1) links refl vs(2) k C(1) t(4) C(2,3)] by blast
  have dk: "dk_after k 2 (dk_run (C, pk, sk) (bc_ops (rn_client (vr_runner w))))" using w(2,3) by (simp add: app_at_def)
  have "v1_linked B (Some l) (rn_client (vr_runner w))"
    using app_at_live [OF B(1) w(2)] by (simp add: cp4_live_def v1_linked_def)
  then have "cp3_body B E C r sid (Some l) (Some (\<lambda>_. cp4_rounds B E C [challenge0, challenge1])) ?s = (Inr level4_info, w)"
    by (intro cp3_body_goes_on [OF v(1)] w(1))
  then show ?thesis using s(3) l dk
    by (simp add: cp4_exchange_def cp3_exchange_def cp3_exchange_in_def bind_read catchM_def finallyM_def onerr_def seqM_def onR_def
        bindM_def wipe_buf_def del: bindM_Inr)
qed

lemma cp4_bonded_run:
  assumes "live_link B pk" "honest_dk B (C, pk, sk)" "calm E"
    and "\<forall>ops. 54 \<le> bl_mtu B ops l"
    and "bc_client c = Some l" "list_all (\<lambda>p. \<not> is_write p) (bc_ops c)" "no_session c" "inspect_pairing W p = (Inr st, p')" "ps_is_paired st"
    and "kem_laws C" "aead_laws C" "kem_keypair C seed = (pk, sk)" "encapsulate C r pk = (ct, ss)" and "length sid = V1_CP3_SESSION_ID_SIZE"
    and "length challenge0 = CHALLENGE_SIZE" "length challenge1 = CHALLENGE_SIZE"
  shows "\<exists>res t. run_v1_cp4 B E (winrt_backend W T timeout) C r sid (challenge0, challenge1) None False (new_v1_run c p res0) = (Inr res, t)
    \<and> dk_keys (dk_run (C, pk, sk) (bc_ops (rn_client (vr_runner t))))
      = Some ((dk_app_keys ss pk ct (frame_wire V1_FRAME_MAGIC 16 20 sid))\<lparr> da_seq := 2 \<rparr>)"
proof -
  let ?s = "new_v1_run c p res0 :: v1_cp4_result v1_run" and ?k = "dk_app_keys ss pk ct (frame_wire V1_FRAME_MAGIC 16 20 sid)"
  let ?Q = "\<lambda>c. dk_after ?k 2 (dk_run (C, pk, sk) (bc_ops c))"
  have s: "bc_client (rn_client (vr_runner ?s)) = Some l" "rn_client (vr_runner ?s) = c" "rn_taken (vr_runner ?s) = 0" "vr_pairing ?s = p"
    using assms(5) by (simp_all add: new_v1_run_def new_runner_def)
  have ex: "\<exists>t. cp4_exchange B E C r sid (challenge0, challenge1) u = (Inr level4_info, t) \<and> ?Q (rn_client (vr_runner t))"
    if u: "bc_client (rn_client (vr_runner u)) = Some l" "rn_taken (vr_runner u) = rn_taken (vr_runner ?s)"
      "bc_ops (rn_client (vr_runner u)) = bc_ops (rn_client (vr_runner ?s)) @ [SystemPairing]"
      "same_objects (rn_client (vr_runner ?s)) (rn_client (vr_runner u))" for u :: "v1_cp4_result v1_run"
  proof -
    have "dk_run (C, pk, sk) (bc_ops (rn_client (vr_runner u))) = dk_init" using u(3) s(2) assms(6) by (intro dk_init_idle) simp
    then have "dk_at (C, pk, sk) l dk_init u" using u(1,2) s(3) by (simp add: dk_at_def dk_init_def)
    moreover have "retired_closed (rn_client (vr_runner u))" "bc_v1_cp3_session (rn_client (vr_runner u)) = None"
      using assms(7) u(4) s(2) by (simp_all add: no_session_def same_objects_def retired_closed_def)
    ultimately show ?thesis by (rule cp4_exchange_live [OF assms(1-4) _ _ _ assms(10,12-14) refl assms(11,15,16)])
  qed
  have "\<And>ops. pb_inspect_pairing (winrt_backend W T timeout) ops (vr_pairing ?s) = (Inr st, p')" using assms(8) s(4) by simp
  then have "\<exists>res t. run_v1 B (winrt_backend W T timeout) V1CP4Result None False (cp4_exchange B E C r sid (challenge0, challenge1)) True ?s
      = (Inr res, t) \<and> (True \<longrightarrow> ?Q (rn_client (vr_runner t)))"
    by (rule run_v1_over_bond [where Q = ?Q, OF assms(1) s(1) _ assms(9)]) (rule ex; assumption)
  then obtain res t where "run_v1 B (winrt_backend W T timeout) V1CP4Result None False (cp4_exchange B E C r sid (challenge0, challenge1)) True ?s
      = (Inr res, t)" "?Q (rn_client (vr_runner t))" by blast
  then show ?thesis by (simp add: run_v1_cp4_def onerr_def dk_after_def)
qed

lemma demo_dk_mtu: "\<forall>ops. 54 \<le> bl_mtu demo_dk ops l"
  by (simp add: demo_dk_def reactive_link_def demo_link_def)

lemma demo_cp4_run:
  obtains res t where "run_v1_cp4 demo_dk calm_env (winrt_backend demo_winrt demo_attempt 90) demo_crypto 5 (replicate 16 1) (replicate 16 2, replicate 16 7) None False
       (new_v1_run demo_client demo_bonded (V1CP4Result [] level4_info)) = (Inr res, t)"
proof -
  obtain st p' where p: "inspect_pairing demo_winrt demo_bonded = (Inr st, p')" "ps_is_paired st" using demo_bonded_inspect by blast
  obtain ct ss where enc: "encapsulate demo_crypto 5 (replicate 1184 3) = (ct, ss)" by fastforce
  show thesis
    using cp4_bonded_run [OF demo_dk calm_env demo_dk_mtu demo_client_on demo_client_fresh demo_no_session p demo_kem_laws demo_aead_laws demo_keypair enc] that
    by (metis length_replicate)
qed

section \<open>Properties\<close>

text \<open>
  C16. A CP4 run that returns exchanged exactly two authenticated rounds: the link was attested at Level 4 twice
  and paired as in CP1, the client owns the session in APP\_SECURE that CP3 completes from the encapsulated
  secret and the transcript, and in each round a notification that came in decrypts, under the PONG key of that session, with
  the sequence number of the round, to the challenge of the round. The next notification closes the
  session and the application.
\<close>

theorem v1_cp4_run_sound:
  assumes "run_v1_cp4 B E (winrt_backend W T timeout) C r sid (challenge0, challenge1) neg unpair_first (new_v1_run c p res0) = (Inr res, t)"
    and "no_session c"
  shows "neg = None \<and> is_authenticated_level4 (c1_security_info res) \<and> c4_authenticated_rounds res = 2
    \<and> (c1_scenario res = ''bonded'' \<or> c1_scenario res = ''cold'' \<and> v1_consented T res)
    \<and> (\<exists>k pk ct ss h. attested B k \<and> attested B (Suc k) \<and> encapsulate C r pk = (ct, ss)
        \<and> cp3_completed ss level4_wire pk ct sid h \<and> h3_state h = HS_APP_SECURE
        \<and> bc_v1_cp3_session (rn_client (vr_runner t)) = Some (V1Handshake h)
        \<and> authentic_pong B C h 0 challenge0 \<and> authentic_pong B C h 1 challenge1
        \<and> all_closed4 (snd (on_application B link d (NoReply, rn_client (vr_runner t)))))"
proof -
  note r = run_v1_cp4_Inr [OF assms(1) new_run_retired [OF assms(2)]]
  obtain k pk ct ss h iv_c2p iv_p2c where h: "attested B k" "attested B (Suc k)" "encapsulate C r pk = (ct, ss)"
    "cp3_completed ss level4_wire pk ct sid h" "h3_state h = HS_APP_SECURE" "own_app h (app_after h iv_c2p iv_p2c 2) t"
    "authentic_pong B C h 0 challenge0" "authentic_pong B C h 1 challenge1" using r by blast
  note own = own_session_owned [OF own_app_session [OF h(6)]] and late = late_notification [OF h(6), of B link d]
  show ?thesis using r v1_cold_start_consented h own late by blast
qed

text \<open>
  C17. A CP4 run that raises leaves nothing open: whatever the peer, the link, a late notification, the guard
  or a timeout do, the application and every handshake object of the client are closed and zero.
\<close>

theorem v1_cp4_run_fails_closed:
  assumes "run_v1_cp4 B E P C r sid chs None unpair_first (new_v1_run c p res0) = (Inl e, t)" and "no_session c"
  shows "all_closed4 (rn_client (vr_runner t))"
  using assms(1) new_run_retired [OF assms(2)] by (rule cp4_run_error)

theorem v1_cp4_run_fails_closed_witness:
  "\<exists>e t. run_v1_cp4 (demo_prompt [[]]) calm_env (winrt_backend demo_winrt demo_attempt 90) demo_crypto 5 [] ([], []) None False
       (new_v1_run demo_client demo_bonded (V1CP4Result [] level4_info)) = (Inl e, t) \<and> all_closed4 (rn_client (vr_runner t))"
proof -
  let ?m = "run_v1_cp4 (demo_prompt [[]]) calm_env (winrt_backend demo_winrt demo_attempt 90) demo_crypto 5 [] ([], []) None False
       (new_v1_run demo_client demo_bonded (V1CP4Result [] level4_info))"
  have "\<not> attested (demo_prompt [[]]) (Suc k)" for k
    by (simp add: attested_def received_def demo_prompt_def)
  then have "fst ?m \<noteq> Inr res" for res
    using run_v1_cp4_Inr [OF _ new_run_retired [OF demo_no_session]] by (metis prod.collapse)
  then obtain e where e: "?m = (Inl e, snd ?m)" by (metis Inr_or_Inl prod.collapse)
  show ?thesis using e v1_cp4_run_fails_closed [OF e demo_no_session] by blast
qed

theorem v1_cp4_run_sound_witness:
  "\<exists>res t h. run_v1_cp4 demo_dk calm_env (winrt_backend demo_winrt demo_attempt 90) demo_crypto 5 (replicate 16 1) (replicate 16 2, replicate 16 7) None False
       (new_v1_run demo_client demo_bonded (V1CP4Result [] level4_info)) = (Inr res, t)
     \<and> c4_authenticated_rounds res = 2 \<and> authentic_pong demo_dk demo_crypto h 1 (replicate 16 7)"
proof -
  obtain res t where r: "run_v1_cp4 demo_dk calm_env (winrt_backend demo_winrt demo_attempt 90) demo_crypto 5 (replicate 16 1) (replicate 16 2, replicate 16 7) None False
       (new_v1_run demo_client demo_bonded (V1CP4Result [] level4_info)) = (Inr res, t)" by (rule demo_cp4_run)
  then show ?thesis using v1_cp4_run_sound [OF r demo_no_session] by blast
qed

text \<open>
  C18. The v1 handshake and its application rounds work end to end with an honest DK. The DK is a state machine
  that answers what it is sent: SEC\_QUERY with Level 4, START\_CP3 with the hash of the transcript of the
  ciphertext it received, the FINISHED\_C of the decapsulated secret, and nothing else, with FINISHED\_P, and a
  PING that decrypts under the Central's application key with the sequence number that is due with the PONG
  of the challenge it carried. With a bond, a link that stays up, an MTU of at least 54 bytes and a client
  that has written nothing yet, a CP4 run returns, and the DK then holds the application keys of the
  encapsulated secret and has accepted and answered exactly two PINGs.
\<close>

theorem v1_cp4_end_to_end:
  assumes "live_link B pk" "honest_dk B (C, pk, sk)" "calm E"
    and "\<forall>ops. 54 \<le> bl_mtu B ops l"
    and "bc_client c = Some l" "list_all (\<lambda>p. \<not> is_write p) (bc_ops c)" "no_session c" "inspect_pairing W p = (Inr st, p')" "ps_is_paired st"
    and "kem_laws C" "aead_laws C" "kem_keypair C seed = (pk, sk)" "encapsulate C r pk = (ct, ss)" and "length sid = V1_CP3_SESSION_ID_SIZE"
    and "length challenge0 = CHALLENGE_SIZE" "length challenge1 = CHALLENGE_SIZE"
  shows "\<exists>res t. run_v1_cp4 B E (winrt_backend W T timeout) C r sid (challenge0, challenge1) None False (new_v1_run c p res0) = (Inr res, t)
    \<and> dk_keys (dk_run (C, pk, sk) (bc_ops (rn_client (vr_runner t))))
      = Some ((dk_app_keys ss pk ct (frame_wire V1_FRAME_MAGIC 16 20 sid))\<lparr> da_seq := 2 \<rparr>)"
  using assms by (rule cp4_bonded_run)

theorem v1_cp4_end_to_end_witness:
  "\<exists>res t. run_v1_cp4 demo_dk calm_env (winrt_backend demo_winrt demo_attempt 90) demo_crypto 5 (replicate 16 1) (replicate 16 2, replicate 16 7) None False
       (new_v1_run demo_client demo_bonded (V1CP4Result [] level4_info)) = (Inr res, t)"
proof -
  obtain st p' where p: "inspect_pairing demo_winrt demo_bonded = (Inr st, p')" "ps_is_paired st" using demo_bonded_inspect by blast
  obtain ct ss where enc: "encapsulate demo_crypto 5 (replicate 1184 3) = (ct, ss)" by fastforce
  show ?thesis
    using v1_cp4_end_to_end [OF demo_dk calm_env demo_dk_mtu demo_client_on demo_client_fresh demo_no_session p demo_kem_laws demo_aead_laws demo_keypair enc]
    by (metis length_replicate)
qed

end
