(* ===== verification/Resume_Runner.thy ===== *)
theory Resume_Runner
  imports V1_Cp3_Runner Phase7_Runner Resume_Store
begin

text \<open>
  \<open>src/central/resumption.py\<close>: the runner of the resumable profiles v0.8 and v1.1. An exchange resumes with a stored
  ticket or falls back to the full handshake, then runs the application rounds; a session tries the
  exchange, at most once more as a full handshake, and has seven negative modes. Every wait may end with the disconnect
  callback, which clears what the client owns.
\<close>

section \<open>State of a session\<close>

text \<open>The result object; \<open>finish_c_for_test\<close> is kept in the process for the replay test.\<close>

record resume_result =
  rs_profile :: int
  rs_path :: string
  rs_scenario :: string
  rs_fallback_reason :: "string option"
  rs_rounds :: nat
  rs_app_secure :: bool
  rs_ticket_saved :: bool
  rs_successful_resumes :: int
  rs_finish_c_for_test :: "bytes option"

definition Result_init :: "int \<Rightarrow> resume_result" where
  "Result_init profile = \<lparr> rs_profile = profile, rs_path = ''full'', rs_scenario = ''application'', rs_fallback_reason = None,
     rs_rounds = 0, rs_app_secure = False, rs_ticket_saved = False, rs_successful_resumes = 0, rs_finish_c_for_test = None \<rparr>"

text \<open>
  The result and the store outlive an exchange; \<open>session\<close>, \<open>app\<close> and \<open>ticket\<close> are its local variables. The session and the
  application are the objects the client owns, or has let go of last: \<open>rx_session\<close> and \<open>rx_app\<close> say whether the variables are set.
\<close>

record resume_locals = v1_cp1_result +
  rx_result :: resume_result
  rx_store :: ticket_store
  rx_ticket :: "ticket option"
  rx_session :: bool
  rx_app :: bool

type_synonym ('z, 'a) resume_meth = "('z resume_locals_scheme v1_run, 'a) meth"

text \<open>
  What the world gives, as functions of the operations so far: readings of the clock and random values
  by the name of the place that asks, the calls of a save that fail and the name of its temporary file, and whether the link is reported lost.
\<close>

record resume_env =
  re_clock :: "gatt_op list \<Rightarrow> string \<Rightarrow> seconds"
  re_random :: "gatt_op list \<Rightarrow> string \<Rightarrow> bytes"
  re_private :: "gatt_op list \<Rightarrow> nat"
  re_encapsulate :: "gatt_op list \<Rightarrow> nat"
  re_io_fails :: "gatt_op list \<Rightarrow> save_step \<Rightarrow> bool"
  re_temp :: "gatt_op list \<Rightarrow> string"
  re_lost :: "gatt_op list \<Rightarrow> bool"

definition ops_of :: "'r v1_run \<Rightarrow> gatt_op list" where
  "ops_of s = bc_ops (rn_client (vr_runner s))"

definition set_rs :: "(resume_result \<Rightarrow> resume_result) \<Rightarrow> ('z, unit) resume_meth" where
  "set_rs f = set_result (\<lambda>u. u\<lparr> rx_result := f (rx_result u) \<rparr>)"

definition set_ticket :: "ticket option \<Rightarrow> ('z, unit) resume_meth" where
  "set_ticket t = set_result (\<lambda>u. u\<lparr> rx_ticket := t \<rparr>)"

definition get_ticket :: "('z, ticket option) resume_meth" where
  "get_ticket = readM (\<lambda>s. Inr (rx_ticket (vr_result s)))"

definition on_store :: "('z resume_locals_scheme v1_run \<Rightarrow> (ticket_store, 'a) meth) \<Rightarrow> ('z, 'a) resume_meth" where
  "on_store m s = (let (r, st) = m s (rx_store (vr_result s)) in (r, s\<lparr> vr_result := (vr_result s)\<lparr> rx_store := st \<rparr> \<rparr>))"

subsection \<open>The session and the application\<close>

definition session_get :: "ble_client \<Rightarrow> v1_session option" where
  "session_get c = (case bc_v1_cp3_session c of Some x \<Rightarrow> Some x
     | None \<Rightarrow> (case bc_retired_sessions c of x # _ \<Rightarrow> Some x | [] \<Rightarrow> None))"

definition session_put :: "v1_session \<Rightarrow> ble_client \<Rightarrow> ble_client" where
  "session_put x c = (case bc_v1_cp3_session c of Some _ \<Rightarrow> c\<lparr> bc_v1_cp3_session := Some x \<rparr>
     | None \<Rightarrow> (case bc_retired_sessions c of _ # rest \<Rightarrow> c\<lparr> bc_retired_sessions := x # rest \<rparr> | [] \<Rightarrow> c))"

definition app_get :: "ble_client \<Rightarrow> v1_application option" where
  "app_get c = (case bc_v1_cp4_session c of Some x \<Rightarrow> Some x
     | None \<Rightarrow> (case bc_retired_applications c of x # _ \<Rightarrow> Some x | [] \<Rightarrow> None))"

definition app_put :: "v1_application \<Rightarrow> ble_client \<Rightarrow> ble_client" where
  "app_put x c = (case bc_v1_cp4_session c of Some _ \<Rightarrow> c\<lparr> bc_v1_cp4_session := Some x \<rparr>
     | None \<Rightarrow> (case bc_retired_applications c of _ # rest \<Rightarrow> c\<lparr> bc_retired_applications := x # rest \<rparr> | [] \<Rightarrow> c))"

fun session_state :: "v1_session \<Rightarrow> hs_state" where
  "session_state (V1Handshake h) = h3_state h"
| "session_state (V1Resume c) = cr_state c"
| "session_state (V1Full h) = fh_state h"

text \<open>The view an application has of the session it borrows its keys from.\<close>

fun session_view :: "v1_session \<Rightarrow> app_session" where
  "session_view (V1Handshake h) = cp3_session h"
| "session_view (V1Resume c) = resume_session c"
| "session_view (V1Full h) = full_session h"

definition borrowed :: "ble_client \<Rightarrow> app_session" where
  "borrowed c = (case session_get c of Some x \<Rightarrow> session_view x | None \<Rightarrow> cp3_session (cp3_clear cp3_init))"

text \<open>\<open>session.clear()\<close> where the object is; its ticket stays.\<close>

definition session_clear :: "ble_client \<Rightarrow> ble_client" where
  "session_clear c = (case session_get c of Some x \<Rightarrow> session_put (v1_session_clear x) c | None \<Rightarrow> c)"

text \<open>Methods of the two session classes; the ticket of a \<open>CentralResume\<close> is the local one.\<close>

definition on_resume :: "(central_resume, 'a) meth \<Rightarrow> ('z, 'a) resume_meth" where
  "on_resume m s = (case session_get (rn_client (vr_runner s)) of
       Some (V1Resume c) \<Rightarrow>
         (let (r, c') = m c; t = upd_client (session_put (V1Resume c')) s
          in (r, t\<lparr> vr_result := (vr_result t)\<lparr> rx_ticket := Some (cr_ticket c') \<rparr> \<rparr>))
     | _ \<Rightarrow> (Inl AttributeError, s))"

definition on_full :: "(full_handshake, 'a) meth \<Rightarrow> ('z, 'a) resume_meth" where
  "on_full m s = (case session_get (rn_client (vr_runner s)) of
       Some (V1Full h) \<Rightarrow> (let (r, h') = m h in (r, upd_client (session_put (V1Full h')) s))
     | _ \<Rightarrow> (Inl AttributeError, s))"

text \<open>The local \<open>ticket\<close> replaced; a session that holds the same object sees the change.\<close>

fun share_ticket :: "ticket \<Rightarrow> v1_session \<Rightarrow> v1_session" where
  "share_ticket t (V1Resume c) = V1Resume (c\<lparr> cr_ticket := t \<rparr>)"
| "share_ticket t (V1Full h) = V1Full (h\<lparr> fh_ticket := map_option (\<lambda>_. t) (fh_ticket h) \<rparr>)"
| "share_ticket t (V1Handshake h) = V1Handshake h"

definition put_ticket :: "ticket \<Rightarrow> ('z, unit) resume_meth" where
  "put_ticket t = seqM (set_ticket (Some t)) (setM (\<lambda>s. upd_client (\<lambda>c. case session_get c of
       Some x \<Rightarrow> if rx_session (vr_result s) then session_put (share_ticket t x) c else c | None \<Rightarrow> c) s))"

text \<open>\<open>store.save(ticket)\<close>.\<close>

definition save_ticket :: "resume_env \<Rightarrow> ('z, unit) resume_meth" where
  "save_ticket E = bindM get_ticket (\<lambda>ticket. case ticket of
       None \<Rightarrow> liftR (Inl AttributeError)
     | Some t \<Rightarrow> (\<lambda>s. let (r, (st, t')) = TicketStore_save (re_io_fails E (ops_of s)) (re_temp E (ops_of s)) (re_clock E (ops_of s) ''save'') (rx_store (vr_result s), t)
         in bindM (put_ticket t') (\<lambda>_. liftR r) (s\<lparr> vr_result := (vr_result s)\<lparr> rx_store := st \<rparr> \<rparr>)))"

text \<open>\<open>HybridApplication(session)\<close> and \<open>CentralApplication(session, ...)\<close>; the client owns the object from here on.\<close>

definition create_app :: "(app_session \<Rightarrow> v1_application result) \<Rightarrow> ('z, unit) resume_meth" where
  "create_app mk s = (case mk (borrowed (rn_client (vr_runner s))) of
       Inl e \<Rightarrow> (Inl e, s)
     | Inr a \<Rightarrow> (Inr (), (upd_client (\<lambda>c. c\<lparr> bc_v1_cp4_session := Some a \<rparr>) s)\<lparr> vr_result := (vr_result s)\<lparr> rx_app := True \<rparr> \<rparr>))"

definition hybrid_of :: "app_session \<Rightarrow> v1_application result" where
  "hybrid_of v = bindR (HybridApplication_init v) (\<lambda>a. Inr (V1Hybrid a))"

text \<open>A \<open>CentralApplication\<close> that raises has cleared the session. After a resumption its IVs are those of the session keys.\<close>

definition create_central :: "(ble_client \<Rightarrow> (bytes option \<times> bytes option) result) \<Rightarrow> ('z, unit) resume_meth" where
  "create_central ivs s = (let c = rn_client (vr_runner s) in
     case ivs c of
       Inl e \<Rightarrow> (Inl e, s)
     | Inr (iv_c2p, iv_p2c) \<Rightarrow>
         (case CentralApplication_init (borrowed c) iv_c2p iv_p2c of
            (Inl e, _) \<Rightarrow> (Inl e, upd_client session_clear s)
          | (Inr _, a) \<Rightarrow> create_app (\<lambda>_. Inr (V1Cp4 a)) s))"

definition resumed_ivs :: "ble_client \<Rightarrow> (bytes option \<times> bytes option) result" where
  "resumed_ivs c = (case session_get c of
     Some (V1Resume x) \<Rightarrow> (case cr_keys x of Some k \<Rightarrow> Inr (Some (sk_iv_c2p k), Some (sk_iv_p2c k)) | None \<Rightarrow> Inl AttributeError)
   | _ \<Rightarrow> Inl AttributeError)"

definition on_hybrid :: "(hybrid_application, 'a) meth \<Rightarrow> ('z, 'a) resume_meth" where
  "on_hybrid m s = (case app_get (rn_client (vr_runner s)) of
       Some (V1Hybrid a) \<Rightarrow> (let (r, a') = m (a\<lparr> ha_session := borrowed (rn_client (vr_runner s)) \<rparr>) in (r, upd_client (app_put (V1Hybrid a')) s))
     | _ \<Rightarrow> (Inl AttributeError, s))"

definition on_central :: "(central_application, 'a) meth \<Rightarrow> ('z, 'a) resume_meth" where
  "on_central m s = (case app_get (rn_client (vr_runner s)) of
       Some (V1Cp4 a) \<Rightarrow>
         (let (r, a') = m (a\<lparr> ca_handshake := borrowed (rn_client (vr_runner s)) \<rparr>)
          in (r, upd_client (\<lambda>c. (if as_state (ca_handshake a') = HS_CLOSED then session_clear else id) (app_put (V1Cp4 a') c)) s))
     | _ \<Rightarrow> (Inl AttributeError, s))"

definition app_clear :: "ble_client \<Rightarrow> ble_client" where
  "app_clear c = (case app_get c of Some a \<Rightarrow> session_clear (app_put (v1_application_clear a) c) | None \<Rightarrow> c)"

section \<open>Waits\<close>

definition awaitL :: "resume_env \<Rightarrow> nat option \<Rightarrow> ('r v1_run, 'a) meth \<Rightarrow> ('r v1_run, 'a) meth" where
  "awaitL E link m s = (let (r, t) = m s in (r,
     if ops_of t \<noteq> ops_of s \<and> re_lost E (ops_of t)
     then upd_client (\<lambda>c. case link of Some l \<Rightarrow> client_on_disconnect l c | None \<Rightarrow> c) t else t))"

definition require_link :: "bleak \<Rightarrow> nat option \<Rightarrow> ('z, unit) resume_meth" where
  "require_link B link = readM (\<lambda>s. let c = rn_client (vr_runner s) in
     requireR (client_is_connected B c \<and> bc_client c = link
         \<and> \<not> (rx_session (vr_result s) \<and> (case session_get c of Some x \<Rightarrow> session_state x = HS_CLOSED | None \<Rightarrow> True)))
       (ProtocolError ''connection lost/replaced during new-profile exchange''))"

definition resume_receive :: "bleak \<Rightarrow> resume_env \<Rightarrow> nat option \<Rightarrow> ('z, bytes) resume_meth" where
  "resume_receive B E link =
     bindM (awaitL E link (onR (take_notification B TimeoutError))) (\<lambda>raw.
     seqM (require_link B link) (retM raw))"

definition resume_send :: "bleak \<Rightarrow> resume_env \<Rightarrow> nat option \<Rightarrow> bytes \<Rightarrow> ('z, unit) resume_meth" where
  "resume_send B E link frame = awaitL E link (onR (runC (send_control B frame)))"

definition resume_attest :: "bleak \<Rightarrow> resume_env \<Rightarrow> third_party \<Rightarrow> nat option \<Rightarrow> ('z, bytes) resume_meth" where
  "resume_attest B E C link =
     bindM (liftR (encode_full C V11 V1_SEC_QUERY [])) (\<lambda>query.
     seqM (resume_send B E link query) (
     bindM (resume_receive B E link) (\<lambda>sec.
     bindM (liftR (security_info C sec)) (\<lambda>_.
     retM sec))))"

definition own :: "nat option \<Rightarrow> v1_session \<Rightarrow> ('z, unit) resume_meth" where
  "own link x = seqM (setM (upd_client (\<lambda>c. c\<lparr> bc_v1_cp3_session := Some x, bc_v1_cp3_link := link \<rparr>)))
     (set_result (\<lambda>u. u\<lparr> rx_session := True \<rparr>))"

section \<open>The exchange\<close>

definition resume_tamper :: "bytes \<Rightarrow> bytes result" where
  "resume_tamper raw = (if raw = [] then Inl IndexError else Inr (butlast raw @ [xor (last raw) 1]))"

fun reason_name :: "reason \<Rightarrow> string" where
  "reason_name NO_TICKET = ''NO_TICKET''" | "reason_name EXPIRED = ''EXPIRED''" | "reason_name MAX_USES = ''MAX_USES''"
| "reason_name PROFILE_MISMATCH = ''PROFILE_MISMATCH''" | "reason_name BAD_AUTH = ''BAD_AUTH''" | "reason_name REPLAY = ''REPLAY''"
| "reason_name L4_REQUIRED = ''L4_REQUIRED''" | "reason_name MALFORMED = ''MALFORMED''" | "reason_name INTERNAL_ERROR = ''INTERNAL_ERROR''"
| "reason_name REPLAY_CACHE_FULL = ''REPLAY_CACHE_FULL''"

definition now_at :: "resume_env \<Rightarrow> string \<Rightarrow> ('z, seconds) resume_meth" where
  "now_at E name = readM (\<lambda>s. Inr (re_clock E (ops_of s) name))"

definition random_at :: "resume_env \<Rightarrow> string \<Rightarrow> ('z, bytes) resume_meth" where
  "random_at E name = readM (\<lambda>s. Inr (re_random E (ops_of s) name))"

text \<open>The ticket, and the two lifecycle tests that spoil it.\<close>

definition load_ticket :: "resume_env \<Rightarrow> int \<Rightarrow> string \<Rightarrow> bool \<Rightarrow> ('z, unit) resume_meth" where
  "load_ticket E profile peer allow_resume =
     (if allow_resume
      then bindM (on_store (\<lambda>s. TicketStore_load profile peer (re_clock E (ops_of s) ''load''))) set_ticket
      else seqM (on_store (\<lambda>_. TicketStore_delete profile peer)) (set_ticket None))"

definition lifecycle_test :: "resume_env \<Rightarrow> int \<Rightarrow> string \<Rightarrow> string option \<Rightarrow> ('z, unit) resume_meth" where
  "lifecycle_test E profile peer negative =
     (if negative \<noteq> Some ''expired'' \<and> negative \<noteq> Some ''max-uses'' then retM ()
      else bindM get_ticket (\<lambda>ticket. case ticket of
        None \<Rightarrow> liftR (Inl (ProtocolError ''negative lifecycle mode requires an existing Central ticket''))
      | Some t \<Rightarrow>
          bindM (now_at E ''check'') (\<lambda>now.
          let t = (if negative = Some ''expired'' then t\<lparr> tk_created_at := tk_created_at t - TTL \<rparr> else t\<lparr> tk_successful_resumes := MAX_RESUMES \<rparr>)
          in case Ticket_check profile peer now t of
               (Inr _, t') \<Rightarrow> set_ticket (Some t')
             | (Inl (ResumeError reason), _) \<Rightarrow>
                 seqM (set_rs (\<lambda>r. r\<lparr> rs_fallback_reason := Some (reason_name reason) \<rparr>)) (
                 seqM (on_store (\<lambda>_. TicketStore_delete profile peer)) (
                 set_ticket None))
             | (Inl e, t') \<Rightarrow> seqM (set_ticket (Some t')) (liftR (Inl e)))))"

text \<open>The reply to INIT is not a rejection.\<close>

definition accept_received ::
  "bleak \<Rightarrow> resume_env \<Rightarrow> nat option \<Rightarrow> int \<Rightarrow> string option \<Rightarrow> bytes option \<Rightarrow> bytes \<Rightarrow> bytes \<Rightarrow> ('z, unit) resume_meth" where
  "accept_received B E link profile negative replay_finish init raw =
     seqM (needM (negative \<noteq> Some ''init-mac'') (ProtocolError ''Peripheral accepted forged INIT'')) (
     seqM (if negative = Some ''replay-init''
           then seqM (resume_send B E link init) (
                bindM (resume_receive B E link) (\<lambda>reply.
                bindM (liftR (parse_resume reply profile (Some REJECT))) (\<lambda>_.
                liftR (Inl (NegativeTestPassed ''duplicate INIT explicitly rejected'')))))
           else retM ()) (
     seqM (if negative = Some ''accept-mac''
           then bindM (catchM (\<lambda>e. case e of ResumeError r \<Rightarrow> r = BAD_AUTH | _ \<Rightarrow> False)
                    (\<lambda>_. liftR (Inl (NegativeTestPassed ''Central rejected tampered ACCEPT; FINISH_C not sent'')))
                    (bindM (liftR (resume_tamper raw)) (\<lambda>forged. on_resume (CentralResume_accept forged)))) (\<lambda>_.
                liftR (Inl (ProtocolError ''Central accepted forged ACCEPT'')))
           else retM ()) (
     bindM (on_resume (CentralResume_accept raw)) (\<lambda>finished.
     seqM (resume_send B E link (case replay_finish of Some old \<Rightarrow> old | None \<Rightarrow> finished)) (
     bindM (resume_receive B E link) (\<lambda>reply.
     seqM (if replay_finish \<noteq> None
           then bindM (liftR (parse_resume reply profile (Some REJECT))) (\<lambda>_.
                liftR (Inl (NegativeTestPassed ''old FINISH_C explicitly rejected in a fresh resume transcript'')))
           else retM ()) (
     seqM (on_resume (CentralResume_finish reply)) (
     seqM (save_ticket E) (
     bindM get_ticket (\<lambda>ticket.
     seqM (set_rs (\<lambda>r. r\<lparr> rs_path := ''resume'', rs_successful_resumes := (case ticket of Some t \<Rightarrow> tk_successful_resumes t | None \<Rightarrow> 0) \<rparr>)) (
     seqM (if profile = V08 then create_app hybrid_of else create_central resumed_ivs) (
     set_rs (\<lambda>r. r\<lparr> rs_finish_c_for_test := Some finished \<rparr>)))))))))))))"


text \<open>\<open>session = None; client._v1_cp3_session = None\<close> after a controlled rejection.\<close>

definition drop_session :: "('z, unit) resume_meth" where
  "drop_session = seqM (setM (upd_client session_clear)) (
     seqM (setM (upd_client (\<lambda>c. c\<lparr> bc_v1_cp3_session := None \<rparr>)))
       (set_result (\<lambda>u. u\<lparr> rx_session := False \<rparr>)))"

definition try_resume ::
  "bleak \<Rightarrow> resume_env \<Rightarrow> nat option \<Rightarrow> int \<Rightarrow> string option \<Rightarrow> bytes option \<Rightarrow> ticket \<Rightarrow> ('z, unit) resume_meth" where
  "try_resume B E link profile negative replay_finish ticket =
     bindM (now_at E ''resume'') (\<lambda>now.
     bindM (random_at E ''session_id'') (\<lambda>sid.
     bindM (random_at E ''nonce'') (\<lambda>nc.
     bindM (case CentralResume_init now sid nc ticket of (r, t) \<Rightarrow> seqM (put_ticket t) (liftR r)) (\<lambda>session.
     seqM (own link (V1Resume session)) (
     bindM (on_resume CentralResume_begin) (\<lambda>init.
     bindM (liftR (if negative = Some ''init-mac'' then resume_tamper init else Inr init)) (\<lambda>init.
     seqM (resume_send B E link init) (
     bindM (resume_receive B E link) (\<lambda>raw.
     bindM (liftR (parse_resume raw profile None)) (\<lambda>(subtype, _).
     if subtype = REJECT
     then seqM (needM (negative \<noteq> Some ''init-mac'') (NegativeTestPassed ''bad INIT MAC explicitly rejected'')) (
          seqM (set_rs (\<lambda>r. r\<lparr> rs_fallback_reason := Some ''RESUME_REJECT'' \<rparr>))
            drop_session)
     else accept_received B E link profile negative replay_finish init raw))))))))))"

subsection \<open>The full handshake\<close>

text \<open>The START frame with its session id, and for v0.8 the private key and its public point.\<close>

definition full_start ::
  "resume_env \<Rightarrow> third_party \<Rightarrow> int \<Rightarrow> bytes \<Rightarrow> ('z, bytes \<times> (nat \<times> bytes) option) resume_meth" where
  "full_start E C profile sid =
     (if profile = V08
      then bindM (readM (\<lambda>s. Inr (re_private E (ops_of s)))) (\<lambda>private.
           bindM (liftR (serialize_p256_public_key C private)) (\<lambda>public.
           bindM (liftR (encode_full C profile PHASE7_START7_AUTH (sid @ public))) (\<lambda>start.
           retM (start, Some (private, public)))))
      else bindM (liftR (encode_full C profile V1_START_CP3 sid)) (\<lambda>start. retM (start, None)))"

text \<open>READY: the SAS is confirmed by the human in v0.8; in v1.1 READY carries the transcript hash.\<close>

definition full_ready ::
  "bleak \<Rightarrow> resume_env \<Rightarrow> third_party \<Rightarrow> nat option \<Rightarrow> sas5_prompt \<Rightarrow> bytes \<Rightarrow> bytes \<Rightarrow> bytes \<Rightarrow> (nat \<times> bytes) option \<Rightarrow> int \<times> bytes
     \<Rightarrow> ('z, bool) resume_meth" where
  "full_ready B E C link ui pk ct sid key = (\<lambda>(subtype, payload). case key of
     Some (private, public) \<Rightarrow>
       seqM (needM (subtype = PHASE7_READY7_AUTH) (ProtocolError ''expected v0.8 READY_AUTH'')) (
       bindM (liftR (derive_p256_ecdh_shared_secret C private (PeerBytes payload))) (\<lambda>ecdh.
       seqM (onR (setM (set_buf ''ecdh'' ecdh))) (
       bindM (readM (\<lambda>s. Inr (rn_buf (vr_runner s) ''secret''))) (\<lambda>secret.
       seqM (on_full (FullHandshake_begin C secret pk ct sid (Some ecdh) (Some public) (Some payload) None)) (
       seqM (onR (setM (wipe_buf ''secret''))) (
       seqM (onR (setM (wipe_buf ''ecdh''))) (
       bindM (on_full (readM FullHandshake_sas)) (\<lambda>sas.
       awaitL E link (seqM sleepM (liftR (p7_confirm_sas ui sas)))))))))))
   | None \<Rightarrow>
       bindM (on_full (readM (\<lambda>h. Inr (fh_th h)))) (\<lambda>th.
       seqM (needM (subtype = V1_READY_CP3 \<and> payload = th) (ProtocolError ''v1.1 READY transcript mismatch'')) (
       retM True)))"

definition full_body ::
  "bleak \<Rightarrow> resume_env \<Rightarrow> third_party \<Rightarrow> nat option \<Rightarrow> int \<Rightarrow> string \<Rightarrow> sas5_prompt \<Rightarrow> ('z, unit) resume_meth" where
  "full_body B E C link profile peer ui =
     bindM (awaitL E link (onR (runC (read_fragmented_public_key B)))) (\<lambda>pk.
     seqM (require_link B link) (
     bindM (liftR (sized pk 1184)) (\<lambda>_.
     bindM (readM (\<lambda>s. Inr (encapsulate C (re_encapsulate E (ops_of s)) pk))) (\<lambda>(ct, ss).
     seqM (onR (setM (set_buf ''secret'' ss))) (
     bindM (random_at E ''full_session_id'') (\<lambda>sid.
     bindM (full_start E C profile sid) (\<lambda>(start, key).
     bindM (awaitL E link (onR (runC (write_fragmented_ciphertext B ct)))) (\<lambda>_.
     seqM (if profile = V11
           then bindM (resume_attest B E C link) (\<lambda>sec.
                bindM (readM (\<lambda>s. Inr (rn_buf (vr_runner s) ''secret''))) (\<lambda>secret.
                on_full (FullHandshake_begin C secret pk ct sid None None None (Some sec))))
           else retM ()) (
     seqM (resume_send B E link start) (
     bindM (resume_receive B E link) (\<lambda>raw.
     bindM (liftR (parse_full C profile raw)) (\<lambda>ready.
     bindM (full_ready B E C link ui pk ct sid key ready) (\<lambda>confirmed.
     bindM (on_full (FullHandshake_finish_c C confirmed)) (\<lambda>finished_c.
     seqM (resume_send B E link finished_c) (
     bindM (resume_receive B E link) (\<lambda>reply.
     bindM (now_at E ''finish_p'') (\<lambda>now.
     seqM (on_full (FullHandshake_finish_p C reply peer now)) (
     bindM get_ticket (\<lambda>old.
     seqM (set_ticket (map_option Ticket_clear old)) (
     bindM (on_full (readM (\<lambda>h. Inr (fh_ticket h)))) (\<lambda>ticket.
     seqM (set_ticket ticket) (
     seqM (save_ticket E) (
     if profile = V08 then create_app hybrid_of else create_central (\<lambda>_. Inr (None, None)))))))))))))))))))))))))"

definition full_handshake_path ::
  "bleak \<Rightarrow> resume_env \<Rightarrow> third_party \<Rightarrow> nat option \<Rightarrow> int \<Rightarrow> string \<Rightarrow> bool \<Rightarrow> string option \<Rightarrow> sas5_prompt \<Rightarrow> ('z, unit) resume_meth" where
  "full_handshake_path B E C link profile peer force_full negative ui =
     seqM (needM (\<not> (case negative of Some mode \<Rightarrow> mode \<in> {''init-mac'', ''accept-mac'', ''replay-init'', ''replay-finish''} | None \<Rightarrow> False))
             (ProtocolError ''negative resume mode requires a valid ticket on both peers'')) (
     bindM get_ticket (\<lambda>ticket.
     seqM (set_result (\<lambda>u. if rs_fallback_reason (rx_result u) = None \<and> \<not> force_full
             then u\<lparr> rx_result := (rx_result u)\<lparr> rs_fallback_reason := (if ticket = None then Some (reason_name (ts_last_reason (rx_store u))) else None) \<rparr> \<rparr>
             else u)) (
     bindM (liftR (FullHandshake_init profile)) (\<lambda>session.
     seqM (own link (V1Full session)) (
     finallyM (full_body B E C link profile peer ui)
       (seqM (onR (setM (wipe_buf ''secret''))) (onR (setM (wipe_buf ''ecdh'')))))))))"

subsection \<open>The application rounds\<close>

definition resume_mtu :: "bleak \<Rightarrow> ('z, int) resume_meth" where
  "resume_mtu B = readM (\<lambda>s. Inr (client_mtu_size B (rn_client (vr_runner s))))"

definition resume_round :: "bleak \<Rightarrow> resume_env \<Rightarrow> third_party \<Rightarrow> nat option \<Rightarrow> int \<Rightarrow> nat \<Rightarrow> ('z, unit) resume_meth" where
  "resume_round B E C link profile round_index =
     seqM (require_link B link) (
     seqM (if profile = V08
           then bindM (resume_mtu B) (\<lambda>mtu.
                bindM (random_at E ''iv'') (\<lambda>iv.
                bindM (on_hybrid (HybridApplication_encrypt_ping C iv (int round_index) mtu)) (\<lambda>wire.
                seqM (awaitL E link (onR (runC (write_secure_data B wire)))) (
                bindM (resume_receive B E link) (\<lambda>raw.
                bindM (resume_mtu B) (\<lambda>mtu.
                on_hybrid (HybridApplication_accept_pong C raw (int round_index) mtu)))))))
           else bindM (random_at E ''challenge'') (\<lambda>challenge.
                bindM (resume_mtu B) (\<lambda>mtu.
                bindM (on_central (CentralApplication_encrypt_ping C challenge mtu)) (\<lambda>wire.
                seqM (resume_send B E link wire) (
                bindM (resume_receive B E link) (\<lambda>raw.
                bindM (resume_mtu B) (\<lambda>mtu.
                on_central (CentralApplication_accept_pong C challenge mtu raw)))))))) (
     set_rs (\<lambda>r. r\<lparr> rs_rounds := rs_rounds r + 1 \<rparr>)))"

fun resume_rounds :: "bleak \<Rightarrow> resume_env \<Rightarrow> third_party \<Rightarrow> nat option \<Rightarrow> int \<Rightarrow> nat list \<Rightarrow> ('z, unit) resume_meth" where
  "resume_rounds B E C link profile [] = retM ()"
| "resume_rounds B E C link profile (i # is) = seqM (resume_round B E C link profile i) (resume_rounds B E C link profile is)"

definition round_indices :: "int \<Rightarrow> nat list" where
  "round_indices profile = [0..<(if profile = V08 then 3 else 2)]"

subsection \<open>One exchange\<close>

definition exchange_stages ::
  "bleak \<Rightarrow> resume_env \<Rightarrow> third_party \<Rightarrow> nat option \<Rightarrow> int \<Rightarrow> string \<Rightarrow> bool \<Rightarrow> bool \<Rightarrow> string option \<Rightarrow> bytes option \<Rightarrow> sas5_prompt
     \<Rightarrow> ('z, unit) resume_meth" where
  "exchange_stages B E C link profile peer allow_resume force_full negative replay_finish ui =
     seqM (awaitL E link (onR (runC (start_notify B)))) (
     seqM (require_link B link) (
     seqM (if profile = V11 then bindM (resume_attest B E C link) (\<lambda>_. retM ()) else retM ()) (
     seqM (load_ticket E profile peer allow_resume) (
     seqM (lifecycle_test E profile peer negative) (
     bindM get_ticket (\<lambda>ticket.
     seqM (case ticket of
             Some t \<Rightarrow> if force_full then retM () else try_resume B E link profile negative replay_finish t
           | None \<Rightarrow> retM ()) (
     bindM (readM (\<lambda>s. Inr (rx_app (vr_result s)))) (\<lambda>resumed.
     seqM (if resumed then retM () else full_handshake_path B E C link profile peer force_full negative ui) (
     bindM get_ticket (\<lambda>ticket.
     seqM (set_rs (\<lambda>r. r\<lparr> rs_app_secure := True, rs_ticket_saved := (case ticket of Some t \<Rightarrow> tk_valid t | None \<Rightarrow> False) \<rparr>)) (
     seqM (resume_rounds B E C link profile (round_indices profile)) (
     require_empty B ''unsolicited notification after authenticated application traffic''))))))))))))"

text \<open>A new queue and no local object yet.\<close>

definition exchange_start :: "bleak \<Rightarrow> 'z resume_locals_scheme v1_run \<Rightarrow> 'z resume_locals_scheme v1_run" where
  "exchange_start B s = (upd_client (\<lambda>c. c\<lparr> bc_v1_security_test := True \<rparr>) s)
     \<lparr> vr_runner := (vr_runner (upd_client (\<lambda>c. c\<lparr> bc_v1_security_test := True \<rparr>) s))\<lparr> rn_taken := length (bl_queue B (ops_of s)) \<rparr>,
       vr_result := (vr_result s)\<lparr> rx_ticket := None, rx_session := False, rx_app := False \<rparr> \<rparr>"

text \<open>\<open>app.clear()\<close>, \<open>session.clear()\<close>, \<open>ticket.clear()\<close>, for the variables that are set.\<close>

definition exchange_cleanup :: "'z resume_locals_scheme v1_run \<Rightarrow> 'z resume_locals_scheme v1_run" where
  "exchange_cleanup s =
     (let s = (if rx_app (vr_result s) then upd_client app_clear s else s);
          s = (if rx_session (vr_result s) then upd_client session_clear s else s)
      in case rx_ticket (vr_result s) of Some t \<Rightarrow> snd (put_ticket (Ticket_clear t) s) | None \<Rightarrow> s)"

definition resumption_exchange ::
  "bleak \<Rightarrow> resume_env \<Rightarrow> third_party \<Rightarrow> int \<Rightarrow> string \<Rightarrow> bool \<Rightarrow> bool \<Rightarrow> string option \<Rightarrow> bytes option \<Rightarrow> sas5_prompt
     \<Rightarrow> ('z, unit) resume_meth" where
  "resumption_exchange B E C profile peer allow_resume force_full negative replay_finish ui =
     bindM (readM (\<lambda>s. Inr (bc_client (rn_client (vr_runner s))))) (\<lambda>link.
     seqM (setM (exchange_start B)) (
     finallyM (exchange_stages B E C link profile peer allow_resume force_full negative replay_finish ui)
       (seqM (setM exchange_cleanup) (onR (runC (stop_notify B))))))"

section \<open>A session\<close>

text \<open>v1.1 runs the exchange after the pairing ceremony of v1.0, which makes its own result object.\<close>

definition session_result :: "resume_result \<Rightarrow> ticket_store \<Rightarrow> string \<Rightarrow> v1_security_info \<Rightarrow> resume_locals" where
  "session_result res st scenario info = v1_cp1_result.extend (V1CP1Result scenario info)
     \<lparr> rx_result = res, rx_store = st, rx_ticket = None, rx_session = False, rx_app = False \<rparr>"

definition after_l4 ::
  "bleak \<Rightarrow> resume_env \<Rightarrow> third_party \<Rightarrow> int \<Rightarrow> string \<Rightarrow> bool \<Rightarrow> string option \<Rightarrow> bytes option
     \<Rightarrow> ('z, v1_security_info) resume_meth" where
  "after_l4 B E C profile peer force_full mode replay_finish =
     bindM (readM (\<lambda>s. Inr (c1_scenario (vr_result s)))) (\<lambda>scenario.
     seqM (set_rs (\<lambda>r. r\<lparr> rs_scenario := scenario \<rparr>)) (
     seqM (resumption_exchange B E C profile peer (scenario = ''bonded'') force_full mode replay_finish (Sas5Callback (\<lambda>_. Inr False))) (
     retM \<lparr> si_level = 4, si_secure_connections = True, si_authenticated = True, si_gate_open = True, si_enc_key_size = 16, si_profile = V11 \<rparr>)))"

definition retried :: "exn \<Rightarrow> bool" where
  "retried e = (case e of ResumeError _ \<Rightarrow> True | TimeoutError \<Rightarrow> True | _ \<Rightarrow> False)"

text \<open>\<open>raise exc.__cause__\<close>, where it is one the caller handles.\<close>

definition reraise_cause :: "exn \<Rightarrow> ('r v1_run, 'a) meth" where
  "reraise_cause e s = (Inl (case vr_cause s of
     Some c \<Rightarrow> if retried c \<or> (case c of NegativeTestPassed _ \<Rightarrow> True | _ \<Rightarrow> False) then c else e | None \<Rightarrow> e), s)"

definition session_attempt ::
  "bleak \<Rightarrow> resume_env \<Rightarrow> pairing_backend \<Rightarrow> third_party \<Rightarrow> int \<Rightarrow> string \<Rightarrow> sas5_prompt \<Rightarrow> bytes option \<Rightarrow> bool \<Rightarrow> string option
     \<Rightarrow> (resume_locals v1_run, unit) meth" where
  "session_attempt B E P C profile peer ui replay_finish force mode =
     (if profile = V08 then resumption_exchange B E C profile peer True force mode replay_finish ui
      else seqM (setM (\<lambda>s. s\<lparr> vr_cause := None \<rparr>)) (\<lambda>s.
           bindM (catchM is_V1Error reraise_cause
             (run_v1 B P (session_result (rx_result (vr_result s)) (rx_store (vr_result s))) None False
                (after_l4 B E C profile peer force mode replay_finish) False)) (\<lambda>_. retM ()) s))"

definition NEGATIVE_MODES :: "string list" where
  "NEGATIVE_MODES = [''init-mac'', ''accept-mac'', ''replay-init'', ''replay-finish'', ''expired'', ''max-uses'', ''pre-l4'']"

definition ascii_upper :: "char \<Rightarrow> char" where
  "ascii_upper c = (let n = of_char c :: nat in if 97 \<le> n \<and> n \<le> 122 then char_of (n - 32) else c)"

definition pre_l4_test :: "bleak \<Rightarrow> pairing_backend \<Rightarrow> int \<Rightarrow> ('r v1_run, unit) meth" where
  "pre_l4_test B P profile =
     seqM (if profile = V11
           then bindM (onP (pb_inspect_pairing P)) (\<lambda>state.
                needM (\<not> ps_is_paired state) (ProtocolError ''pre-l4 requires v1.1 with both bonds deleted''))
           else liftR (Inl (ProtocolError ''pre-l4 requires v1.1 with both bonds deleted''))) (
     seqM (catchM (\<lambda>e. denial_reason e \<noteq> None)
             (\<lambda>_. liftR (Inl (NegativeTestPassed ''actual RESUME_INIT denied by pre-L4 GATT security gate'')))
             (bindM (liftR (encode_resume profile INIT (replicate 96 0))) (\<lambda>init. onR (runC (send_control B init))))) (
     liftR (Inl (ProtocolError ''pre-L4 RESUME_INIT was accepted''))))"

definition session_start :: "bleak \<Rightarrow> pairing_backend \<Rightarrow> int \<Rightarrow> string option \<Rightarrow> (resume_locals v1_run, string) meth" where
  "session_start B P profile negative =
     bindM (readM (\<lambda>s. case client_address (rn_client (vr_runner s)) of None \<Rightarrow> Inl AttributeError | Some a \<Rightarrow> Inr (map ascii_upper a))) (\<lambda>peer.
     seqM (set_rs (\<lambda>_. Result_init profile)) (
     seqM (needM (case negative of None \<Rightarrow> True | Some mode \<Rightarrow> mode \<in> set NEGATIVE_MODES) (ValueError ''unknown resume negative mode'')) (
     seqM (if negative = Some ''pre-l4'' then pre_l4_test B P profile else retM ()) (
     retM peer))))"

definition reconnect_or :: "bleak \<Rightarrow> string \<Rightarrow> ('r v1_run, unit) meth" where
  "reconnect_or B msg = bindM (onR (runC (client_reconnect_v1_peer B))) (\<lambda>ok. needM ok (ProtocolError msg))"

text \<open>The attempt, and the one retry as a full handshake.\<close>

definition session_attempts ::
  "bleak \<Rightarrow> resume_env \<Rightarrow> pairing_backend \<Rightarrow> third_party \<Rightarrow> int \<Rightarrow> string \<Rightarrow> sas5_prompt \<Rightarrow> bytes option \<Rightarrow> bool \<Rightarrow> string option
     \<Rightarrow> (resume_locals v1_run, unit) meth" where
  "session_attempts B E P C profile peer ui replay_finish force_full negative =
     catchM (\<lambda>e. retried e \<and> \<not> force_full \<and> negative = None)
       (\<lambda>e. seqM (set_rs (\<lambda>r. r\<lparr> rs_fallback_reason := Some (case e of ResumeError reason \<Rightarrow> reason_name reason | _ \<Rightarrow> ''TIMEOUT'') \<rparr>)) (
            seqM (reconnect_or B ''could not reconnect original peer for full fallback'') (
            session_attempt B E P C profile peer ui replay_finish True None)))
       (session_attempt B E P C profile peer ui replay_finish force_full negative)"

definition run_session ::
  "bleak \<Rightarrow> resume_env \<Rightarrow> pairing_backend \<Rightarrow> third_party \<Rightarrow> int \<Rightarrow> sas5_prompt \<Rightarrow> bool \<Rightarrow> string option \<Rightarrow> bytes option
     \<Rightarrow> (resume_locals v1_run, resume_result) meth" where
  "run_session B E P C profile ui force_full negative replay_finish =
     seqM (bindM (session_start B P profile negative) (\<lambda>peer.
       if negative = Some ''replay-finish'' \<and> replay_finish = None
       then seqM (session_attempt B E P C profile peer ui None False None) (
            bindM (readM (\<lambda>s. Inr (rx_result (vr_result s)))) (\<lambda>seeded.
            seqM (needM (rs_path seeded = ''resume'') (ProtocolError ''replay-finish requires an eligible existing ticket'')) (
            bindM (liftR (the_attr (rs_finish_c_for_test seeded))) (\<lambda>old.
            seqM (reconnect_or B ''could not reconnect original peer for replay test'') (
            bindM (session_start B P profile negative) (\<lambda>peer.
            session_attempts B E P C profile peer ui (Some old) False negative))))))
       else session_attempts B E P C profile peer ui replay_finish force_full negative)) (
     readM (\<lambda>s. Inr (rx_result (vr_result s))))"


section \<open>Lemmas\<close>

lemma awaitL_Inr: "awaitL E link m s = (Inr x, t) \<longleftrightarrow> (\<exists>u. m s = (Inr x, u) \<and> t = (if ops_of u \<noteq> ops_of s \<and> re_lost E (ops_of u)
    then upd_client (\<lambda>c. case link of Some l \<Rightarrow> client_on_disconnect l c | None \<Rightarrow> c) u else u))"
  by (auto simp: awaitL_def Let_def split: prod.splits)

lemma require_link_Inr: "require_link B link s = (Inr u, t) \<longleftrightarrow> t = s \<and> client_is_connected B (rn_client (vr_runner s))
    \<and> bc_client (rn_client (vr_runner s)) = link \<and> (rx_session (vr_result s) \<longrightarrow>
        (\<exists>x. session_get (rn_client (vr_runner s)) = Some x \<and> session_state x \<noteq> HS_CLOSED))"
  by (auto simp: require_link_def Let_def split: option.splits)

lemma on_resume_Inr: "on_resume m s = (Inr x, t) \<longleftrightarrow> (\<exists>c c'. session_get (rn_client (vr_runner s)) = Some (V1Resume c) \<and> m c = (Inr x, c')
    \<and> t = (upd_client (session_put (V1Resume c')) s)\<lparr> vr_result := (vr_result s)\<lparr> rx_ticket := Some (cr_ticket c') \<rparr> \<rparr>)"
  by (auto simp: on_resume_def upd_client_def Let_def split: prod.splits option.splits v1_session.splits)

lemma on_full_Inr: "on_full m s = (Inr x, t) \<longleftrightarrow> (\<exists>h h'. session_get (rn_client (vr_runner s)) = Some (V1Full h) \<and> m h = (Inr x, h')
    \<and> t = upd_client (session_put (V1Full h')) s)"
  by (auto simp: on_full_def Let_def split: prod.splits option.splits v1_session.splits)

lemma local_simps [simp]:
  "set_rs f s = (Inr (), s\<lparr> vr_result := (vr_result s)\<lparr> rx_result := f (rx_result (vr_result s)) \<rparr> \<rparr>)"
  "set_ticket k s = (Inr (), s\<lparr> vr_result := (vr_result s)\<lparr> rx_ticket := k \<rparr> \<rparr>)"
  "get_ticket s = (Inr (rx_ticket (vr_result s)), s)"
  "now_at E name s = (Inr (re_clock E (ops_of s) name), s)" "random_at E name s = (Inr (re_random E (ops_of s) name), s)"
  "resume_mtu B s = (Inr (client_mtu_size B (rn_client (vr_runner s))), s)"
  by (simp_all add: set_rs_def set_ticket_def get_ticket_def now_at_def random_at_def resume_mtu_def set_result_apply)

text \<open>What a stage leaves of the result object and the local variables.\<close>

definition keeps_at :: "('r \<Rightarrow> 'a) \<Rightarrow> 'r v1_run \<Rightarrow> 'r v1_run \<Rightarrow> bool" where
  "keeps_at g s t \<longleftrightarrow> g (vr_result t) = g (vr_result s)"

interpretation fields: kept "keeps_at g" for g
  by unfold_locales (simp_all add: keeps_at_def)

lemma upd_client_result [simp]: "vr_result (upd_client f s) = vr_result s"
  by (simp add: upd_client_def)

lemma keeps_at_result: "keeps_result s t \<Longrightarrow> keeps_at g s t"
  by (simp add: keeps_result_def keeps_at_def)

lemma keeps_at_await: "keeps_at g s (snd (m s)) \<Longrightarrow> keeps_at g s (snd (awaitL E link m s))"
  by (simp add: awaitL_def keeps_at_def Let_def case_prod_unfold)

lemma keeps_at_set:
  "(\<And>u. g (f u) = g u) \<Longrightarrow> keeps_at g s (snd (set_result f s))"
  "(\<And>u. g (u\<lparr> rx_result := h (rx_result u) \<rparr>) = g u) \<Longrightarrow> keeps_at g s (snd (set_rs h s))"
  "(\<And>u k. g (u\<lparr> rx_ticket := k \<rparr>) = g u) \<Longrightarrow> keeps_at g s (snd (set_ticket k s))"
  "keeps_at g s (snd (setM (upd_client k') s))"
  by (simp_all add: keeps_at_def set_result_apply)

lemma keeps_at_store: "(\<And>u x. g (u\<lparr> rx_store := x \<rparr>) = g u) \<Longrightarrow> keeps_at g s (snd (on_store m s))"
  by (simp add: on_store_def keeps_at_def case_prod_unfold Let_def)

lemma keeps_at_objects:
  "(\<And>u k. g (u\<lparr> rx_ticket := k \<rparr>) = g u) \<Longrightarrow> keeps_at g s (snd (on_resume m s))"
  "keeps_at g s (snd (on_full m' s))" "keeps_at g s (snd (on_hybrid m'' s))" "keeps_at g s (snd (on_central n s))"
  by (simp_all add: keeps_at_def on_resume_def on_full_def on_hybrid_def on_central_def Let_def case_prod_unfold
      split: option.split v1_session.split v1_application.split)

lemma keeps_at_pure:
  "keeps_at g s (snd (require_link B link s))" "keeps_at g s (snd (get_ticket s))" "keeps_at g s (snd (now_at E name s))"
  "keeps_at g s (snd (random_at E name s))" "keeps_at g s (snd (resume_mtu B s))"
  by (simp_all add: keeps_at_def require_link_def)

lemma keeps_at_app:
  "(\<And>u b. g (u\<lparr> rx_app := b \<rparr>) = g u) \<Longrightarrow> keeps_at g s (snd (create_app mk s))"
  "(\<And>u b. g (u\<lparr> rx_app := b \<rparr>) = g u) \<Longrightarrow> keeps_at g s (snd (create_central iv s))"
  by (auto simp: keeps_at_def create_app_def create_central_def Let_def split: sum.splits prod.splits)

lemmas keeps_at_steps = fields.kept_intros keeps_at_await keeps_at_set keeps_at_store keeps_at_objects keeps_at_pure keeps_at_app
  keeps_result_base [THEN keeps_at_result]

lemma keeps_at_put_ticket: "(\<And>u k. g (u\<lparr> rx_ticket := k \<rparr>) = g u) \<Longrightarrow> keeps_at g s (snd (put_ticket t s))"
  unfolding put_ticket_def by (intro keeps_at_steps) (simp_all add: keeps_at_def)

lemma keeps_at_save:
  assumes "\<And>u k. g (u\<lparr> rx_ticket := k \<rparr>) = g u" "\<And>u x. g (u\<lparr> rx_store := x \<rparr>) = g u"
  shows "keeps_at g s (snd (save_ticket E s))"
proof -
  have "keeps_at g s (snd (bindM (put_ticket t) (\<lambda>_. liftR r) (s\<lparr> vr_result := (vr_result s)\<lparr> rx_store := st \<rparr> \<rparr>)))" for t and r :: "unit result" and st
    by (rule fields.kept_trans [OF _ fields.kept_bind [OF keeps_at_put_ticket]]) (simp_all add: keeps_at_def assms)
  then show ?thesis
    by (auto simp: save_ticket_def bindM_step keeps_at_def Let_def split: option.split prod.split)
qed

lemma keeps_at_waits:
  "keeps_at g s (snd (resume_receive B E link s))" "keeps_at g s (snd (resume_send B E link frame s))"
  "keeps_at g s (snd (resume_attest B E C link s))"
  unfolding resume_receive_def resume_send_def resume_attest_def by (intro keeps_at_steps)+

subsection \<open>Negative modes\<close>

text \<open>These modes end in an error after the reply to INIT, whatever it is.\<close>

definition forging :: "string option \<Rightarrow> bytes option \<Rightarrow> bool" where
  "forging negative replay_finish \<longleftrightarrow> negative = Some ''init-mac'' \<or> negative = Some ''accept-mac'' \<or> negative = Some ''replay-init''
     \<or> negative = Some ''replay-finish'' \<and> replay_finish \<noteq> None"

lemma resume_accepted_never: "forging negative replay_finish \<Longrightarrow> accept_received B E link profile negative replay_finish init raw s \<noteq> (Inr u, t)"
  by (auto simp: accept_received_def forging_def needM_Inr)

lemma keeps_at_drop:
  "(\<And>u b. g (u\<lparr> rx_session := b \<rparr>) = g u) \<Longrightarrow> keeps_at g s (snd (drop_session s))"
  "(\<And>u b. g (u\<lparr> rx_session := b \<rparr>) = g u) \<Longrightarrow> keeps_at g s (snd (own link x s))"
  unfolding drop_session_def own_def by (intro keeps_at_steps; simp add: keeps_at_def)+

lemma keeps_atD: "m s = (r, t) \<Longrightarrow> keeps_at g s (snd (m s)) \<Longrightarrow> g (vr_result t) = g (vr_result s)"
  by (simp add: keeps_at_def)

text \<open>A resumption that neither fails nor reaches its last stage has no application.\<close>

lemma try_resume_Inr:
  assumes "try_resume B E link profile negative replay_finish ticket s = (Inr (), t)"
  shows "rx_app (vr_result t) = rx_app (vr_result s)
    \<or> (\<exists>init raw u. accept_received B E link profile negative replay_finish init raw u = (Inr (), t))"
proof -
  let ?R = "\<lambda>s t. keeps_at rx_app s t"
  have R: "?R s (snd (own link x s))" "?R s (snd (on_resume m s))" "?R s (snd (put_ticket k s))" "?R s (snd (resume_send B E link w s))"
    "?R s (snd (resume_receive B E link s))" "?R s (snd (drop_session s))" for s :: "'a resume_locals_scheme v1_run" and x k w
      and m :: "(central_resume, bytes) meth"
    by (intro keeps_at_objects keeps_at_put_ticket keeps_at_waits keeps_at_drop; simp)+
  note D = R [THEN keeps_atD [rotated]]
  show ?thesis
    using assms by (auto simp: try_resume_def needM_Inr split: prod.splits if_splits dest!: D)
qed

lemma full_path_never: "forging negative replay_finish \<Longrightarrow> full_handshake_path B E C link profile peer force_full negative ui s \<noteq> (Inr u, t)"
  by (auto simp: full_handshake_path_def forging_def needM_Inr)

lemma keeps_at_ticket:
  assumes "\<And>u k. g (u\<lparr> rx_ticket := k \<rparr>) = g u" "\<And>u x. g (u\<lparr> rx_store := x \<rparr>) = g u"
  shows "keeps_at g s (snd (load_ticket E profile peer allow s))"
    and "(\<And>u r. g (u\<lparr> rx_result := (rx_result u)\<lparr> rs_fallback_reason := r \<rparr> \<rparr>) = g u) \<Longrightarrow> keeps_at g s (snd (lifecycle_test E profile peer negative s))"
  unfolding load_ticket_def lifecycle_test_def Let_def
  by (auto intro!: keeps_at_steps simp: assms split: prod.split sum.split exn.split option.split; simp add: keeps_at_def assms)+

text \<open>The stages of an exchange that returns.\<close>

lemma exchange_Inr:
  assumes "resumption_exchange B E C profile peer allow force_full negative replay_finish ui s = (Inr u, t)"
  obtains link a b c s1 s2 s3 k4 s4 s5 where "link = bc_client (rn_client (vr_runner s))"
    "awaitL E link (onR (runC (start_notify B))) (exchange_start B s) = (Inr (), a)" "require_link B link a = (Inr (), a)"
    "(if profile = V11 then bindM (resume_attest B E C link) (\<lambda>_. retM ()) else retM ()) a = (Inr (), b)"
    "load_ticket E profile peer allow b = (Inr (), c)" "lifecycle_test E profile peer negative c = (Inr (), s1)"
    "(case rx_ticket (vr_result s1) of Some t \<Rightarrow> if force_full then retM () else try_resume B E link profile negative replay_finish t | None \<Rightarrow> retM ()) s1 = (Inr (), s2)"
    "(if rx_app (vr_result s2) then retM () else full_handshake_path B E C link profile peer force_full negative ui) s2 = (Inr (), s3)"
    "k4 = (case rx_ticket (vr_result s3) of Some t \<Rightarrow> tk_valid t | None \<Rightarrow> False)"
    "s4 = s3\<lparr> vr_result := (vr_result s3)\<lparr> rx_result := (rx_result (vr_result s3))\<lparr> rs_app_secure := True, rs_ticket_saved := k4 \<rparr> \<rparr> \<rparr>"
    "resume_rounds B E C link profile (round_indices profile) s4 = (Inr (), s5)" "queue_empty B (vr_runner s5)"
    "onR (runC (stop_notify B)) (exchange_cleanup s5) = (Inr (), t)"
proof -
  note step = finallyM_Inr bindM_Inr seqM_Inr local_simps readM_def require_link_Inr require_Inr prod.inject sum.inject
  obtain s5 where s5: "exchange_stages B E C (bc_client (rn_client (vr_runner s))) profile peer allow force_full negative replay_finish ui (exchange_start B s) = (Inr u, s5)"
    "onR (runC (stop_notify B)) (exchange_cleanup s5) = (Inr (), t)"
    using assms by (auto simp: resumption_exchange_def finallyM_Inr)
  from s5(1) show thesis
    unfolding exchange_stages_def step
    apply (elim exE conjE)
    apply hypsubst
    apply (rule that [OF refl])
    apply assumption
    apply (simp add: require_link_Inr)
    apply assumption+
    apply (rule refl, rule refl)
    apply simp
    apply assumption
    apply (rule s5(2))
    done
qed

lemma exchange_forging_never:
  assumes "forging negative replay_finish"
  shows "resumption_exchange B E C profile peer allow force_full negative replay_finish ui s \<noteq> (Inr u, t)"
proof
  let ?R = "\<lambda>s t. keeps_at rx_app s t"
  have R: "?R s (snd (awaitL E link (onR m) s))" "?R s (snd ((if profile = V11 then bindM (resume_attest B E C link) (\<lambda>_. retM ()) else retM ()) s))"
    "?R s (snd (load_ticket E profile peer allow s))" "?R s (snd (lifecycle_test E profile peer negative s))"
    for s :: "'a resume_locals_scheme v1_run" and link and m :: "(runner, unit) meth"
    by (intro keeps_at_steps keeps_at_waits keeps_at_ticket; simp)+
  assume "resumption_exchange B E C profile peer allow force_full negative replay_finish ui s = (Inr u, t)"
  then obtain link a b c s1 s2 s3 where st: "awaitL E link (onR (runC (start_notify B))) (exchange_start B s) = (Inr (), a)"
    "(if profile = V11 then bindM (resume_attest B E C link) (\<lambda>_. retM ()) else retM ()) a = (Inr (), b)"
    "load_ticket E profile peer allow b = (Inr (), c)" "lifecycle_test E profile peer negative c = (Inr (), s1)"
    and s: "(case rx_ticket (vr_result s1) of Some t \<Rightarrow> if force_full then retM () else try_resume B E link profile negative replay_finish t | None \<Rightarrow> retM ()) s1 = (Inr (), s2)"
    "(if rx_app (vr_result s2) then retM () else full_handshake_path B E C link profile peer force_full negative ui) s2 = (Inr (), s3)"
    by (rule exchange_Inr)
  then have "?R (exchange_start B s) a" "?R a b" "?R b c" "?R c s1"
    using R by (metis snd_conv)+
  then have "\<not> rx_app (vr_result s1)" by (simp add: exchange_start_def keeps_at_def)
  then have "\<not> rx_app (vr_result s2)"
    using s(1) by (auto simp: resume_accepted_never [OF assms] split: option.splits if_splits dest!: try_resume_Inr)
  then show False using s(2) by (auto simp: full_path_never [OF assms])
qed

lemma reraise_never: "catchM is_V1Error reraise_cause m s = (Inr x, t) \<longleftrightarrow> m s = (Inr x, t)"
  by (rule catchM_raise_Inr) (simp add: reraise_cause_def)

text \<open>An attempt that returns has run its exchange to the end, with the store it was given.\<close>

lemma keeps_secure_link:
  assumes "\<And>u x. g (u\<lparr> c1_pre_l4_denials := x \<rparr>) = g u" "\<And>u x y. g (u\<lparr> c1_pairing_status := x, c1_pairing_protection := y \<rparr>) = g u"
  shows "keeps_at g s (snd (v1_secure_link B P neg state s))"
  unfolding v1_secure_link_def v1_cold_pairing_def
  by (intro keeps_at_steps keeps_probes(1) [THEN keeps_at_result] keeps_verify(1) [THEN keeps_at_result] keeps_ensure(1) [THEN keeps_at_result];
      simp add: keeps_at_def set_result_apply assms)

lemma run_v1_before:
  assumes run: "run_v1 B P rt neg unpair_first exchange retain s = (Inr res, t)"
    and g: "\<And>u x. g (u\<lparr> c1_pre_l4_denials := x \<rparr>) = g u" "\<And>u x y. g (u\<lparr> c1_pairing_status := x, c1_pairing_protection := y \<rparr>) = g u"
  shows "\<exists>scenario i u v info. exchange u = (Inr info, v) \<and> res = (vr_result v)\<lparr> c1_security_info := info \<rparr> \<and> g (vr_result u) = g (rt scenario i)
    \<and> vr_result t = res"
proof -
  obtain state s1 s2 s3 i where st:
    "v1_secure_link B P neg state (s1\<lparr> vr_result := rt (if ps_is_paired state then ''bonded'' else ''cold'') i \<rparr>) = (Inr (), s2)"
    "v1_post_l4 B (ps_is_paired state) exchange retain s2 = (Inr (), s3)" "res = vr_result s3" "t = s3"
    using run by (auto simp: run_v1_def v1_Inr)
  obtain info v where v: "exchange s2 = (Inr info, v)" "vr_result s3 = (vr_result v)\<lparr> c1_security_info := info \<rparr>"
    using v1_post_l4_Inr [OF st(2)] by blast
  have "g (vr_result s2) = g (rt (if ps_is_paired state then ''bonded'' else ''cold'') i)"
    using keeps_secure_link [OF g, of "s1\<lparr> vr_result := rt (if ps_is_paired state then ''bonded'' else ''cold'') i \<rparr>" B P neg state] st(1)
    by (simp add: keeps_at_def)
  then show ?thesis using v st(3,4) by (intro exI) auto
qed

abbreviation attempt_ui :: "int \<Rightarrow> sas5_prompt \<Rightarrow> sas5_prompt" where
  "attempt_ui profile ui \<equiv> (if profile = V08 then ui else Sas5Callback (\<lambda>_. Inr False))"

lemma session_attempt_Inr:
  assumes "session_attempt B E P C profile peer ui replay_finish force mode s = (Inr (), t)"
  shows "\<exists>allow (u :: resume_locals v1_run) v. resumption_exchange B E C profile peer allow force mode replay_finish (attempt_ui profile ui) u = (Inr (), v)
    \<and> rx_result (vr_result t) = rx_result (vr_result v) \<and> rx_store (vr_result u) = rx_store (vr_result s)"
proof (cases "profile = V08")
  case True
  then show ?thesis
    using assms unfolding session_attempt_def by (intro exI [of _ True] exI [of _ s] exI [of _ t]) simp
next
  case False
  then obtain r v where r: "run_v1 B P (session_result (rx_result (vr_result s)) (rx_store (vr_result s))) None False
      (after_l4 B E C profile peer force mode replay_finish) False (s\<lparr> vr_cause := None \<rparr>) = (Inr r, t)"
    using assms by (auto simp: session_attempt_def reraise_never)
  from run_v1_before [OF this, of rx_store] obtain scenario i u v info where u: "after_l4 B E C profile peer force mode replay_finish u = (Inr info, v)"
      "r = (vr_result v)\<lparr> c1_security_info := info \<rparr>" "rx_store (vr_result u) = rx_store (vr_result s)" "vr_result t = r"
    by (auto simp: session_result_def v1_cp1_result.defs V1CP1Result_def)
  with False show ?thesis
    by (fastforce simp: after_l4_def)
qed

lemma pre_l4_never: "pre_l4_test B P profile s \<noteq> (Inr u, t)"
  by (simp add: pre_l4_test_def)

lemma session_attempts_negative:
  "negative \<noteq> None \<Longrightarrow> session_attempts B E P C profile peer ui replay_finish force negative s = (Inr (), t)
     \<longleftrightarrow> session_attempt B E P C profile peer ui replay_finish force negative s = (Inr (), t)"
  by (auto simp: session_attempts_def catchM_def split: prod.splits sum.splits)

lemma attempts_forging_never:
  "forging negative replay_finish \<Longrightarrow> session_attempts B E P C profile peer ui replay_finish force negative s \<noteq> (Inr (), t)"
  using session_attempts_negative [of negative] exchange_forging_never session_attempt_Inr by (metis forging_def option.distinct(1))

lemma run_session_Inr:
  assumes "run_session B E P C profile ui force_full negative replay_finish s = (Inr r, t)"
  obtains peer rf force u where "session_attempts B E P C profile peer ui rf force negative u = (Inr (), t)" "r = rx_result (vr_result t)"
    "negative \<noteq> Some ''pre-l4''" "negative = Some ''replay-finish'' \<longrightarrow> rf \<noteq> None"
proof -
  have start: "negative \<noteq> Some ''pre-l4''" if "session_start B P profile negative s = (Inr p, u)" for p u
    using that by (auto simp: session_start_def pre_l4_never)
  show thesis
  proof (cases "negative = Some ''replay-finish'' \<and> replay_finish = None")
    case True
    then obtain peer old u where "session_attempts B E P C profile peer ui (Some old) False negative u = (Inr (), t)" "r = rx_result (vr_result t)"
      using assms by (auto simp: run_session_def)
    with True show thesis using that by simp
  next
    case False
    then obtain p v where v: "session_start B P profile negative s = (Inr p, v)"
      "session_attempts B E P C profile p ui replay_finish force_full negative v = (Inr (), t)" "r = rx_result (vr_result t)"
      using assms unfolding run_session_def if_not_P [OF False] by auto
    show thesis using that [OF v(2,3) start [OF v(1)]] False by simp
  qed
qed

lemma run_session_forging_never:
  assumes "negative \<in> {Some ''init-mac'', Some ''accept-mac'', Some ''replay-init'', Some ''replay-finish'', Some ''pre-l4''}"
  shows "run_session B E P C profile ui force_full negative replay_finish s \<noteq> (Inr r, t)"
proof
  assume "run_session B E P C profile ui force_full negative replay_finish s = (Inr r, t)"
  then obtain peer rf force u where u: "session_attempts B E P C profile peer ui rf force negative u = (Inr (), t)"
    "r = rx_result (vr_result t)" "negative \<noteq> Some ''pre-l4''" "negative = Some ''replay-finish'' \<longrightarrow> rf \<noteq> None"
    by (rule run_session_Inr)
  have "forging negative rf"
    using assms by (elim insertE emptyE) (use u(3,4) in \<open>simp_all add: forging_def\<close>)
  then show False using u(1) by (simp add: attempts_forging_never)
qed

subsection \<open>The result object\<close>

text \<open>A function of the result object alone, not of the reason of a fallback.\<close>

definition of_result :: "(resume_result \<Rightarrow> 'a) \<Rightarrow> 'z resume_locals_scheme \<Rightarrow> 'a" where
  "of_result h u = h (rx_result u)"

lemma of_result_simps [simp]:
  "of_result h (u\<lparr> rx_ticket := k \<rparr>) = of_result h u" "of_result h (u\<lparr> rx_store := st \<rparr>) = of_result h u"
  "of_result h (u\<lparr> rx_session := b \<rparr>) = of_result h u" "of_result h (u\<lparr> rx_app := b \<rparr>) = of_result h u"
  "of_result h (u\<lparr> rx_result := r \<rparr>) = h r"
  by (simp_all add: of_result_def)

definition reason_blind :: "(resume_result \<Rightarrow> 'a) \<Rightarrow> bool" where
  "reason_blind h \<longleftrightarrow> (\<forall>r x. h (r\<lparr> rs_fallback_reason := x \<rparr>) = h r)"

lemma reason_blindD: "reason_blind h \<Longrightarrow> h (r\<lparr> rs_fallback_reason := x \<rparr>) = h r"
  by (simp add: reason_blind_def)

lemma reason_blind_fields: "reason_blind rs_rounds" "reason_blind rs_path" "reason_blind (\<lambda>r. (rs_rounds r, rs_path r))"
  by (simp_all add: reason_blind_def)

lemma keeps_of_stages:
  fixes s :: "'z resume_locals_scheme v1_run"
  assumes h: "reason_blind h"
  shows "keeps_at (of_result h) s (snd (full_handshake_path B E C link profile peer force_full negative ui s))"
    and "keeps_at (of_result h) s (snd (load_ticket E profile peer allow s))"
    and "keeps_at (of_result h) s (snd (lifecycle_test E profile peer negative s))"
proof -
  note [simp] = reason_blindD [OF h]
  have body: "keeps_at (of_result h) s (snd (full_body B E C link profile peer ui s))" for s :: "'z resume_locals_scheme v1_run"
    unfolding full_body_def full_start_def full_ready_def
    by (intro keeps_at_steps keeps_at_waits keeps_at_save; simp)
  show "keeps_at (of_result h) s (snd (full_handshake_path B E C link profile peer force_full negative ui s))"
    unfolding full_handshake_path_def by (intro keeps_at_steps keeps_at_drop body; simp add: of_result_def)
  show "keeps_at (of_result h) s (snd (load_ticket E profile peer allow s))"
    "keeps_at (of_result h) s (snd (lifecycle_test E profile peer negative s))"
    by (intro keeps_at_ticket; simp add: of_result_def)+
qed

lemma keeps_rounds_resume: "keeps_at (of_result rs_rounds) s (snd (try_resume B E link profile negative replay_finish ticket s))"
proof -
  have "keeps_at (of_result rs_rounds) s (snd (accept_received B E link profile negative replay_finish init raw s))" for init raw
      and s :: "'a resume_locals_scheme v1_run"
    unfolding accept_received_def by (intro keeps_at_steps keeps_at_waits keeps_at_save; simp add: of_result_def)
  then show ?thesis
    unfolding try_resume_def
    by (auto intro!: keeps_at_steps keeps_at_waits keeps_at_put_ticket keeps_at_drop simp: of_result_def split: prod.split)
qed

text \<open>Rounds are counted one by one.\<close>

definition rounds_of :: "'z resume_locals_scheme v1_run \<Rightarrow> nat" where
  "rounds_of s = rs_rounds (rx_result (vr_result s))"

definition counts :: "nat \<Rightarrow> ('z, 'a) resume_meth \<Rightarrow> bool" where
  "counts n m \<longleftrightarrow> (\<forall>s r t. m s = (r, t) \<longrightarrow> rounds_of s \<le> rounds_of t \<and> rounds_of t \<le> rounds_of s + n
     \<and> (\<not> isl r \<longrightarrow> rounds_of t = rounds_of s + n))"

lemma counts_keep: "(\<And>s. keeps_at (of_result rs_rounds) s (snd (m s))) \<Longrightarrow> counts 0 m"
  by (simp add: counts_def keeps_at_def of_result_def rounds_of_def) (metis order_refl snd_conv)

lemma counts_bind: "counts a m \<Longrightarrow> (\<And>x. counts b (f x)) \<Longrightarrow> counts (a + b) (bindM m f)"
  by (fastforce simp: counts_def bindM_def split: prod.splits sum.splits)

lemma counts_seq: "counts a m \<Longrightarrow> counts b k \<Longrightarrow> counts (a + b) (seqM m k)"
  unfolding seqM_def by (rule counts_bind)

lemma counts_finally: "counts a m \<Longrightarrow> (\<And>s. keeps_at (of_result rs_rounds) s (snd (f s))) \<Longrightarrow> counts a (finallyM m f)"
  by (auto simp: counts_def finallyM_def keeps_at_def of_result_def rounds_of_def Let_def split: prod.splits sum.splits)
    (metis add.commute snd_conv sum.disc(2))+

lemma counts_rounds: "counts (length is) (resume_rounds B E C link profile is)"
proof (induction "is")
  case Nil
  show ?case by (auto intro!: counts_keep simp: fields.kept_refl)
next
  case (Cons i "is")
  have "counts (0 + (0 + 1)) (resume_round B E C link profile i)"
    unfolding resume_round_def
  proof (intro counts_seq counts_keep)
    show "counts 1 (set_rs (\<lambda>r. r\<lparr> rs_rounds := rs_rounds r + 1 \<rparr>))" by (auto simp: counts_def rounds_of_def)
  qed (intro keeps_at_steps keeps_at_waits)+
  from counts_seq [OF this Cons.IH] show ?case by simp
qed

lemma exchange_cleanup_result:
  fixes s :: "'z resume_locals_scheme v1_run"
  shows "of_result h (vr_result (exchange_cleanup s)) = of_result h (vr_result s)"
proof -
  have "keeps_at (of_result h) u (snd (put_ticket k u))" for u :: "'z resume_locals_scheme v1_run" and k by (intro keeps_at_put_ticket) simp
  then show ?thesis by (simp add: exchange_cleanup_def Let_def keeps_at_def split: option.split)
qed

lemma exchange_cleanup_store:
  fixes s :: "'z resume_locals_scheme v1_run"
  shows "rx_store (vr_result (exchange_cleanup s)) = rx_store (vr_result s)"
proof -
  have "keeps_at rx_store u (snd (put_ticket k u))" for u :: "'z resume_locals_scheme v1_run" and k by (intro keeps_at_put_ticket) simp
  then show ?thesis by (simp add: exchange_cleanup_def Let_def keeps_at_def split: option.split)
qed

lemma exchange_counts:
  "counts (length (round_indices profile)) (resumption_exchange B E C profile peer allow force_full negative replay_finish ui)"
proof -
  have keep: "counts 0 (setM (exchange_start B) :: ('a, unit) resume_meth)"
    by (intro counts_keep) (simp add: keeps_at_def exchange_start_def)
  have "counts (0 + (0 + (0 + (0 + (0 + (0 + (0 + (0 + (0 + (0 + (0 + (length (round_indices profile) + 0))))))))))))
      (exchange_stages B E C link profile peer allow force_full negative replay_finish ui :: ('a, unit) resume_meth)" for link
    unfolding exchange_stages_def
    by (intro counts_seq counts_bind counts_rounds; rule counts_keep; intro keeps_at_steps keeps_at_waits keeps_rounds_resume
        keeps_of_stages reason_blind_fields; simp add: of_result_def)
  then show ?thesis
    unfolding resumption_exchange_def
    by (auto intro!: counts_bind [where a = 0, simplified] counts_seq [OF keep, simplified] counts_finally counts_keep fields.kept_pure
        keeps_at_steps simp: keeps_at_def exchange_cleanup_result exchange_start_def seqM_def bindM_def split: prod.split)
qed

lemma exchange_rounds:
  "resumption_exchange B E C profile peer allow force_full negative replay_finish ui s = (Inr u, t)
     \<Longrightarrow> rounds_of t = rounds_of s + length (round_indices profile)"
  using exchange_counts [of profile B E C peer allow force_full negative replay_finish ui] by (fastforce simp: counts_def)

definition rounds_blind :: "(resume_result \<Rightarrow> 'a) \<Rightarrow> bool" where
  "rounds_blind h \<longleftrightarrow> (\<forall>r n. h (r\<lparr> rs_rounds := n \<rparr>) = h r)"

lemma rounds_keep:
  "rounds_blind h \<Longrightarrow> keeps_at (of_result h) s (snd (resume_rounds B E C link profile is s))"
  by (induction "is" arbitrary: s)
    (auto intro!: keeps_at_steps keeps_at_waits simp: resume_round_def fields.kept_refl of_result_def rounds_blind_def)

lemma exchange_end:
  assumes "resume_rounds B E C link profile (round_indices profile) s4 = (Inr (), s5)" "onR (runC m) (exchange_cleanup s5) = (r, t)"
    and "rounds_blind h"
  shows "h (rx_result (vr_result t)) = h (rx_result (vr_result s4))"
proof -
  have "vr_result t = vr_result (exchange_cleanup s5)" using onR_result(1) [of "runC m" "exchange_cleanup s5"] assms(2) by simp
  then show ?thesis
    using rounds_keep [OF assms(3), of s4 B E C link profile "round_indices profile"] exchange_cleanup_result [of h s5] assms(1)
    by (simp add: keeps_at_def of_result_def)
qed

text \<open>An exchange that returns has secured its application data; one without a resumption leaves the path as it is.\<close>

lemma exchange_secure:
  fixes s :: "'z resume_locals_scheme v1_run"
  assumes "resumption_exchange B E C profile peer allow force_full negative replay_finish ui s = (Inr u, t)"
  shows "rs_app_secure (rx_result (vr_result t))" and "force_full \<Longrightarrow> rs_path (rx_result (vr_result t)) = rs_path (rx_result (vr_result s))"
proof -
  let ?R = "keeps_at (of_result rs_path)"
  obtain link a b c s1 s2 s3 k4 s4 s5 where st: "awaitL E link (onR (runC (start_notify B))) (exchange_start B s) = (Inr (), a)"
    "(if profile = V11 then bindM (resume_attest B E C link) (\<lambda>_. retM ()) else retM ()) a = (Inr (), b)"
    "load_ticket E profile peer allow b = (Inr (), c)" "lifecycle_test E profile peer negative c = (Inr (), s1)"
    "(if rx_app (vr_result s2) then retM () else full_handshake_path B E C link profile peer force_full negative ui) s2 = (Inr (), s3)"
    and s2: "(case rx_ticket (vr_result s1) of Some t \<Rightarrow> if force_full then retM () else try_resume B E link profile negative replay_finish t | None \<Rightarrow> retM ()) s1 = (Inr (), s2)"
    and s4: "s4 = s3\<lparr> vr_result := (vr_result s3)\<lparr> rx_result := (rx_result (vr_result s3))\<lparr> rs_app_secure := True, rs_ticket_saved := k4 \<rparr> \<rparr> \<rparr>"
    and t: "resume_rounds B E C link profile (round_indices profile) s4 = (Inr (), s5)" "onR (runC (stop_notify B)) (exchange_cleanup s5) = (Inr (), t)"
    using assms by (rule exchange_Inr)
  show "rs_app_secure (rx_result (vr_result t))"
    using exchange_end [OF t, of rs_app_secure] by (simp add: s4 rounds_blind_def)
  have R: "?R s (snd (awaitL E link (onR m) s))" "?R s (snd ((if profile = V11 then bindM (resume_attest B E C link) (\<lambda>_. retM ()) else retM ()) s))"
    "?R s (snd (load_ticket E profile peer allow s))" "?R s (snd (lifecycle_test E profile peer negative s))"
    "?R s (snd ((if b then retM () else full_handshake_path B E C link profile peer force_full negative ui) s))"
    for s :: "'z resume_locals_scheme v1_run" and link b and m :: "(runner, unit) meth"
    by (intro keeps_at_steps keeps_at_waits keeps_of_stages reason_blind_fields)+
  have "?R (exchange_start B s) a" "?R a b" "?R b c" "?R c s1" "?R s2 s3" using st R by (metis snd_conv)+
  moreover have "s2 = s1" if force_full using s2 that by (auto split: option.splits)
  moreover have "?R s (exchange_start B s)" by (simp add: keeps_at_def exchange_start_def)
  ultimately show "rs_path (rx_result (vr_result t)) = rs_path (rx_result (vr_result s))" if force_full
    using exchange_end [OF t, of rs_path] that by (simp add: s4 rounds_blind_def keeps_at_def of_result_def)
qed

subsection \<open>What an exchange leaves\<close>

text \<open>The objects the local variables refer to.\<close>

definition local_sessions :: "'z resume_locals_scheme v1_run \<Rightarrow> v1_session list" where
  "local_sessions s = (if rx_session (vr_result s) then (case session_get (rn_client (vr_runner s)) of Some x \<Rightarrow> [x] | None \<Rightarrow> []) else [])"

definition local_applications :: "'z resume_locals_scheme v1_run \<Rightarrow> v1_application list" where
  "local_applications s = (if rx_app (vr_result s) then (case app_get (rn_client (vr_runner s)) of Some x \<Rightarrow> [x] | None \<Rightarrow> []) else [])"

definition local_tickets :: "'z resume_locals_scheme v1_run \<Rightarrow> ticket list" where
  "local_tickets s = (case rx_ticket (vr_result s) of Some t \<Rightarrow> [t] | None \<Rightarrow> [])"

definition ticket_cleared :: "ticket \<Rightarrow> bool" where
  "ticket_cleared t \<longleftrightarrow> \<not> tk_valid t \<and> tk_rid t = [] \<and> wiped (tk_root t) \<and> tk_replay t = []"

lemma ticket_cleared_clear [simp]: "ticket_cleared (Ticket_clear t)"
  by (simp add: ticket_cleared_def Ticket_clear_def)

lemma get_put [simp]:
  "session_get (session_put x c) = (if session_get c = None then None else Some x)"
  "app_get (app_put a c) = (if app_get c = None then None else Some a)"
  "app_get (session_put x c) = app_get c" "session_get (app_put a c) = session_get c"
  by (auto simp: session_get_def session_put_def app_get_def app_put_def split: option.splits list.splits)

definition session_done :: "ble_client \<Rightarrow> bool" where
  "session_done c \<longleftrightarrow> (case session_get c of Some x \<Rightarrow> v1_session_closed x | None \<Rightarrow> True)"

definition app_done :: "ble_client \<Rightarrow> bool" where
  "app_done c \<longleftrightarrow> (case app_get c of Some x \<Rightarrow> v1_application_closed x | None \<Rightarrow> True)"

lemma done_clear [simp]: "session_done (session_clear c)" "app_done c \<Longrightarrow> app_done (session_clear c)" "app_done (app_clear c)"
  by (auto simp: session_done_def app_done_def session_clear_def app_clear_def split: option.splits)

lemma closed_share: "v1_session_closed x \<Longrightarrow> v1_session_closed (share_ticket t x)"
  by (cases x) (auto simp: cr_closed_def fh_closed_def)

lemma put_ticket_local:
  assumes "t = snd (put_ticket k s)"
  shows "rx_ticket (vr_result t) = Some k" "rx_session (vr_result t) = rx_session (vr_result s)" "rx_app (vr_result t) = rx_app (vr_result s)"
    "session_done (rn_client (vr_runner s)) \<Longrightarrow> session_done (rn_client (vr_runner t))"
    "app_get (rn_client (vr_runner t)) = app_get (rn_client (vr_runner s))"
  unfolding assms put_ticket_def seqM_def bindM_def
  by (auto simp: upd_client_def session_done_def closed_share split: option.split)

lemma cleanup_done:
  "rx_session (vr_result s) \<Longrightarrow> session_done (rn_client (vr_runner (exchange_cleanup s)))"
  "rx_app (vr_result s) \<Longrightarrow> app_done (rn_client (vr_runner (exchange_cleanup s)))"
  "list_all ticket_cleared (local_tickets (exchange_cleanup s))"
  "rx_session (vr_result (exchange_cleanup s)) = rx_session (vr_result s)" "rx_app (vr_result (exchange_cleanup s)) = rx_app (vr_result s)"
proof -
  let ?s1 = "if rx_app (vr_result s) then upd_client app_clear s else s"
  let ?s2 = "if rx_session (vr_result s) then upd_client session_clear ?s1 else ?s1"
  have "exchange_cleanup s = (case rx_ticket (vr_result ?s2) of Some t \<Rightarrow> snd (put_ticket (Ticket_clear t) ?s2) | None \<Rightarrow> ?s2)"
    by (simp add: exchange_cleanup_def Let_def)
  moreover have "rx_session (vr_result s) \<Longrightarrow> session_done (rn_client (vr_runner ?s2))" "rx_app (vr_result s) \<Longrightarrow> app_done (rn_client (vr_runner ?s2))"
    "rx_session (vr_result ?s2) = rx_session (vr_result s)" "rx_app (vr_result ?s2) = rx_app (vr_result s)"
    by (simp_all add: upd_client_def)
  ultimately obtain s2 where s2: "exchange_cleanup s = (case rx_ticket (vr_result s2) of Some t \<Rightarrow> snd (put_ticket (Ticket_clear t) s2) | None \<Rightarrow> s2)"
    "rx_session (vr_result s) \<Longrightarrow> session_done (rn_client (vr_runner s2))"
    "rx_app (vr_result s) \<Longrightarrow> app_done (rn_client (vr_runner s2))"
    "rx_session (vr_result s2) = rx_session (vr_result s)" "rx_app (vr_result s2) = rx_app (vr_result s)"
    by (rule that [of ?s2])
  then show "rx_session (vr_result s) \<Longrightarrow> session_done (rn_client (vr_runner (exchange_cleanup s)))"
    "rx_app (vr_result s) \<Longrightarrow> app_done (rn_client (vr_runner (exchange_cleanup s)))"
    "rx_session (vr_result (exchange_cleanup s)) = rx_session (vr_result s)" "rx_app (vr_result (exchange_cleanup s)) = rx_app (vr_result s)"
    "list_all ticket_cleared (local_tickets (exchange_cleanup s))"
    unfolding s2(1) using put_ticket_local [where s = s2, OF refl]
    by (cases "rx_ticket (vr_result s2)"; simp add: app_done_def local_tickets_def)+
qed

lemma get_clear_v1:
  "session_get (clear_v1_cp3 c) = (case bc_v1_cp3_session c of Some x \<Rightarrow> Some (v1_session_clear x) | None \<Rightarrow> session_get c)"
  "app_get (clear_v1_cp3 c) = (case bc_v1_cp4_session c of Some x \<Rightarrow> Some (v1_application_clear x) | None \<Rightarrow> app_get c)"
  by (auto simp: clear_v1_cp3_def Let_def session_get_def app_get_def split: option.splits)

lemma stop_notify_done:
  "session_done c \<Longrightarrow> session_done (snd (stop_notify B c))" "app_done c \<Longrightarrow> app_done (snd (stop_notify B c))"
proof -
  have "same_owner (clear_v1_cp3 c) (snd (stop_notify B c))"
    by (simp add: stop_notify_def seqM_def bindM_step same_owner_ops same_owner_call_ret)
  then have "session_get (snd (stop_notify B c)) = session_get (clear_v1_cp3 c)" "app_get (snd (stop_notify B c)) = app_get (clear_v1_cp3 c)"
    unfolding same_owner_def session_get_def app_get_def by (simp_all split: option.split list.split)
  then show "session_done c \<Longrightarrow> session_done (snd (stop_notify B c))" "app_done c \<Longrightarrow> app_done (snd (stop_notify B c))"
    by (auto simp: session_done_def app_done_def get_clear_v1 split: option.split)
qed

lemma local_done:
  "list_all v1_session_closed (local_sessions s) \<longleftrightarrow> (rx_session (vr_result s) \<longrightarrow> session_done (rn_client (vr_runner s)))"
  "list_all v1_application_closed (local_applications s) \<longleftrightarrow> (rx_app (vr_result s) \<longrightarrow> app_done (rn_client (vr_runner s)))"
  by (auto simp: local_sessions_def local_applications_def session_done_def app_done_def split: option.split)

lemma exchange_leaves:
  "case snd (resumption_exchange B E C profile peer allow force_full negative replay_finish ui s) of t \<Rightarrow>
     client_released (rn_client (vr_runner t)) \<and> list_all v1_session_closed (local_sessions t)
     \<and> list_all v1_application_closed (local_applications t) \<and> list_all ticket_cleared (local_tickets t)"
proof -
  let ?t = "snd (resumption_exchange B E C profile peer allow force_full negative replay_finish ui s)"
  obtain u where u: "?t = snd (onR (runC (stop_notify B)) (exchange_cleanup u))"
    by (simp add: resumption_exchange_def seqM_def bindM_def finallyM_def Let_def case_prod_unfold)
  then have c: "rn_client (vr_runner ?t) = snd (stop_notify B (rn_client (vr_runner (exchange_cleanup u))))"
    and r: "vr_result ?t = vr_result (exchange_cleanup u)"
    by (simp_all add: onR_def runC_def Let_def case_prod_unfold)
  have "client_released (rn_client (vr_runner ?t))" using stop_notify_safe c by (simp add: client_safe_def)
  moreover have "rx_session (vr_result ?t) \<Longrightarrow> session_done (rn_client (vr_runner ?t))" "rx_app (vr_result ?t) \<Longrightarrow> app_done (rn_client (vr_runner ?t))"
    by (simp_all add: c r cleanup_done stop_notify_done)
  moreover have "list_all ticket_cleared (local_tickets ?t)" using cleanup_done(3) [of u] by (simp add: local_tickets_def r)
  ultimately show ?thesis
    by (simp add: local_done)
qed

subsection \<open>Operations and buffers\<close>

text \<open>A step that calls nothing: the operations, the buffers and the queue stay.\<close>

definition silent :: "'r v1_run \<Rightarrow> 'r v1_run \<Rightarrow> bool" where
  "silent s t \<longleftrightarrow> ops_of t = ops_of s \<and> rn_buf (vr_runner t) = rn_buf (vr_runner s) \<and> rn_taken (vr_runner t) = rn_taken (vr_runner s)"

interpretation silence: kept silent
  by unfold_locales (simp_all add: silent_def)

lemma silent_upd: "bc_ops (f (rn_client (vr_runner s))) = bc_ops (rn_client (vr_runner s)) \<Longrightarrow> silent s (upd_client f s)"
  by (simp add: silent_def ops_of_def upd_client_def)

lemma objects_ops [simp]:
  "bc_ops (session_put x c) = bc_ops c" "bc_ops (app_put a c) = bc_ops c" "bc_ops (session_clear c) = bc_ops c" "bc_ops (app_clear c) = bc_ops c"
  "bc_ops (clear_v1_cp3 c) = bc_ops c" "bc_ops (client_on_disconnect l c) = bc_ops c"
proof -
  show put: "bc_ops (session_put x c) = bc_ops c" "bc_ops (app_put a c) = bc_ops c" for x a c
    by (simp_all add: session_put_def app_put_def split: option.split list.split)
  show clear: "bc_ops (session_clear c) = bc_ops c" for c by (simp add: session_clear_def put split: option.split)
  show "bc_ops (app_clear c) = bc_ops c" by (simp add: app_clear_def put clear split: option.split)
  show "bc_ops (clear_v1_cp3 c) = bc_ops c" for c by (simp add: clear_v1_cp3_def Let_def split: option.split)
  then show "bc_ops (client_on_disconnect l c) = bc_ops c" by (simp add: client_on_disconnect_def client_on_v1_disconnect_def)
qed

lemma silent_base:
  "silent s (snd (set_result g s))" "silent s (snd (set_rs h s))" "silent s (snd (set_ticket k s))" "silent s (snd (get_ticket s))"
  "silent s (snd (now_at E name s))" "silent s (snd (random_at E name s))" "silent s (snd (resume_mtu B s))" "silent s (snd (require_link B link s))"
  "silent s (snd (on_store m s))" "silent s (snd (require_empty B msg s))"
  by (simp_all add: silent_def ops_of_def set_result_def require_link_def on_store_def require_empty_def onR_def Let_def case_prod_unfold)

lemma silent_objects:
  "silent s (snd (on_resume m s))" "silent s (snd (on_full m' s))" "silent s (snd (on_hybrid n s))" "silent s (snd (on_central n' s))"
  "silent s (snd (create_app mk s))" "silent s (snd (create_central iv s))"
  by (auto simp: silent_def ops_of_def on_resume_def on_full_def on_hybrid_def on_central_def create_app_def create_central_def upd_client_def
      Let_def case_prod_unfold split: option.split v1_session.split v1_application.split sum.split)

lemma silent_ticket: "silent s (snd (put_ticket t s))" "silent s (snd (save_ticket E s))"
proof -
  have put: "silent s (snd (put_ticket t s))" for t and s :: "'a resume_locals_scheme v1_run"
    unfolding put_ticket_def by (intro silence.kept_intros silent_base) (auto intro!: silent_upd split: option.split)
  then show "silent s (snd (put_ticket t s))" .
  have "silent s (snd (bindM (put_ticket t) (\<lambda>_. liftR r) (s\<lparr> vr_result := (vr_result s)\<lparr> rx_store := st \<rparr> \<rparr>)))" for t and r :: "unit result" and st
    by (rule silence.kept_trans [OF _ silence.kept_bind [OF put]]) (simp_all add: silent_def ops_of_def)
  then show "silent s (snd (save_ticket E s))"
    by (auto simp: save_ticket_def bindM_step silence.kept_refl Let_def split: option.split prod.split)
qed

lemma silent_session: "silent s (snd (own link x s))" "silent s (snd (drop_session s))"
  unfolding own_def drop_session_def by (intro silence.kept_intros silent_base; auto intro!: silent_upd)+

lemma silent_result [simp]: "silent s (s\<lparr> vr_result := x \<rparr>)" "silent s s"
  by (simp_all add: silent_def ops_of_def)

lemma silent_tests: "silent s (snd (load_ticket E profile peer allow s))" "silent s (snd (lifecycle_test E profile peer negative s))"
proof -
  show "silent s (snd (load_ticket E profile peer allow s))"
    unfolding load_ticket_def by (intro silence.kept_intros silent_base)
  show "silent s (snd (lifecycle_test E profile peer negative s))"
    unfolding lifecycle_test_def Let_def
    by (auto intro!: silence.kept_intros silent_base split: prod.split sum.split exn.split)
qed

lemma silent_cleanup: "silent s (exchange_cleanup s)"
proof -
  have upd: "silent u (upd_client session_clear u)" "silent u (upd_client app_clear u)" for u :: "'a resume_locals_scheme v1_run"
    by (simp_all add: silent_upd)
  have ticket: "silent s (case rx_ticket (vr_result u) of Some t \<Rightarrow> snd (put_ticket (Ticket_clear t) u) | None \<Rightarrow> u)" if "silent s u" for u
    using silence.kept_trans [OF that silent_ticket(1)] that by (simp split: option.split)
  show ?thesis
    unfolding exchange_cleanup_def Let_def by (intro ticket) (auto intro: upd silence.kept_trans [OF upd(2) upd(1)])
qed

lemmas silent_steps = silent_base silent_objects silent_ticket silent_session silent_tests

abbreviation full_secrets :: "string list" where "full_secrets \<equiv> [''secret'', ''ecdh'']"

lemma wiping_silent: "silent s t \<Longrightarrow> keeps_wiped ns s t"
  by (simp add: silent_def keeps_wiped_def)

lemmas wiping_steps = wiping.kept_intros silent_steps [THEN wiping_silent] keeps_wiped_base

lemma wiping_await: "keeps_wiped ns s (snd (m s)) \<Longrightarrow> keeps_wiped ns s (snd (awaitL E link m s))"
  by (simp add: awaitL_def keeps_wiped_def upd_client_def Let_def case_prod_unfold)

lemma wiping_receive: "keeps_wiped ns s (snd (onR (take_notification B e) s))"
  by (simp add: keeps_wiped_def onR_def take_notification_def Let_def case_prod_unfold)

lemma wiping_waits:
  "keeps_wiped ns s (snd (resume_receive B E link s))" "keeps_wiped ns s (snd (resume_send B E link frame s))"
  "keeps_wiped ns s (snd (resume_attest B E C link s))"
  unfolding resume_receive_def resume_send_def resume_attest_def
  by (intro wiping_steps wiping_await wiping_receive)+

lemma wiping_full: "keeps_wiped full_secrets s (snd (full_handshake_path B E C link profile peer force_full negative ui s))"
proof -
  have wipes: "keeps_wiped full_secrets u (snd (finallyM m (seqM (onR (setM (wipe_buf ''secret''))) (onR (setM (wipe_buf ''ecdh'')))) u))"
    for m :: "('a, unit) resume_meth" and u
    by (simp add: keeps_wiped_def finallyM_def seqM_def bindM_def case_prod_unfold Let_def onR_def wipe_buf_def set_buf_def)
  show ?thesis
    unfolding full_handshake_path_def
    by (intro wipes wiping.kept_bind wiping.kept_seq wiping.kept_pure silent_steps [THEN wiping_silent])
qed

lemma wiping_exchange: "keeps_wiped full_secrets s (snd (resumption_exchange B E C profile peer allow force_full negative replay_finish ui s))"
proof -
  have accept: "keeps_wiped full_secrets s (snd (accept_received B E link profile negative replay_finish init raw s))"
    for s :: "'a resume_locals_scheme v1_run" and link init raw
    unfolding accept_received_def by (intro wiping_steps wiping_waits)
  have resume: "keeps_wiped full_secrets s (snd (try_resume B E link profile negative replay_finish ticket s))" for s :: "'a resume_locals_scheme v1_run" and link ticket
    unfolding try_resume_def by (auto intro!: wiping_steps wiping_waits accept split: prod.split)
  have rounds: "keeps_wiped full_secrets s (snd (resume_rounds B E C link profile is s))" for s :: "'a resume_locals_scheme v1_run" and link "is"
    by (induction "is" arbitrary: s) (auto intro!: wiping_steps wiping_await wiping_waits simp: resume_round_def wiping.kept_refl)
  have clean: "keeps_wiped full_secrets s (snd (setM exchange_cleanup s))" "keeps_wiped full_secrets s (snd (setM (exchange_start B) s))"
    for s :: "'a resume_locals_scheme v1_run"
    by (simp_all add: wiping_silent silent_cleanup) (simp add: keeps_wiped_def exchange_start_def upd_client_def)
  show ?thesis
    unfolding resumption_exchange_def exchange_stages_def
    by (intro wiping_steps wiping_await wiping_waits wiping_full resume rounds clean)
qed

lemma wiping_session: "keeps_wiped full_secrets s (snd (run_session B E P C profile ui force_full negative replay_finish s))"
proof -
  have attempt: "keeps_wiped full_secrets s (snd (session_attempt B E P C profile peer ui rf force mode s))" for s :: "resume_locals v1_run" and peer ui rf force mode
    unfolding session_attempt_def after_l4_def
    by (auto intro!: wiping_steps wiping_exchange wiped_run.kept_run; simp add: keeps_wiped_def reraise_cause_def)
  show ?thesis
    unfolding run_session_def session_attempts_def session_start_def pre_l4_test_def reconnect_or_def
    by (intro wiping_steps attempt)
qed

subsection \<open>Nothing before the attestation\<close>

definition resume_query :: "third_party \<Rightarrow> gatt_op \<Rightarrow> bool" where
  "resume_query C p \<longleftrightarrow> (\<exists>q. encode_full C V11 V1_SEC_QUERY [] = Inr q \<and> p = WriteChar CHAR_CONTROL q)"

text \<open>The subscription, the query, and no look at the ticket store.\<close>

definition only_attests :: "third_party \<Rightarrow> 'z resume_locals_scheme v1_run \<Rightarrow> 'z resume_locals_scheme v1_run \<Rightarrow> bool" where
  "only_attests C s t \<longleftrightarrow> v1_within (\<lambda>p. p \<in> {StartNotify, AwaitNotify, StopNotify} \<or> resume_query C p) s t
     \<and> rx_store (vr_result t) = rx_store (vr_result s)"

definition attested_v11 :: "bleak \<Rightarrow> third_party \<Rightarrow> nat \<Rightarrow> bool" where
  "attested_v11 B C k \<longleftrightarrow> (\<exists>raw info. received B k raw \<and> security_info C raw = Inr info)"

interpretation attesting: kept "only_attests C" for C
  by unfold_locales (auto simp: only_attests_def intro: ops.kept_refl ops.kept_trans)

lemma attests_onR:
  "ops_within (\<lambda>p. p \<in> {StartNotify, AwaitNotify, StopNotify} \<or> resume_query C p) (vr_runner s) (snd (m (vr_runner s)))
     \<Longrightarrow> only_attests C s (snd (onR m s))"
  by (simp add: only_attests_def v1_within_onR)

lemma attests_await: "only_attests C s (snd (m s)) \<Longrightarrow> only_attests C s (snd (awaitL E link m s))"
  by (auto simp: only_attests_def v1_within_def ops_within_def awaitL_def upd_client_def Let_def case_prod_unfold split: option.split)

lemma attests_silent: "silent s t \<Longrightarrow> rx_store (vr_result t) = rx_store (vr_result s) \<Longrightarrow> only_attests C s t"
  by (simp add: only_attests_def v1_within_def ops_within_def silent_def ops_of_def)

lemma attests_receive: "only_attests C s (snd (resume_receive B E link s))"
proof -
  have take: "only_attests C s (snd (onR (take_notification B e) s))" for e and s :: "'a resume_locals_scheme v1_run"
    by (rule attests_onR) (simp add: ops_within_def take_notification_def Let_def)
  have link: "only_attests C s (snd (require_link B link s))" for s :: "'a resume_locals_scheme v1_run"
    by (simp add: require_link_def attesting.kept_refl)
  show ?thesis unfolding resume_receive_def by (intro attesting.kept_intros attests_await take link)
qed

lemma attests_attest: "only_attests C s (snd (resume_attest B E C link s))"
  unfolding resume_attest_def resume_send_def
  by (intro attesting.kept_bind_lift attesting.kept_intros attests_receive attests_await attests_onR within_control)
    (auto simp: resume_query_def)

lemma awaitL_taken: "awaitL E link (onR m) s = (r, t) \<Longrightarrow> rn_taken (vr_runner t) = rn_taken (snd (m (vr_runner s)))"
  by (auto simp: awaitL_def upd_client_def onR_def Let_def split: prod.splits)

lemma receive_received:
  "resume_receive B E link s = (Inr raw, t) \<Longrightarrow> received B (rn_taken (vr_runner s)) raw \<and> rn_taken (vr_runner t) = Suc (rn_taken (vr_runner s))"
  by (auto simp: resume_receive_def awaitL_Inr onR_Inr require_link_Inr upd_client_def dest: take_received) (auto simp: take_notification_Inr Let_def)

lemma attest_attested:
  assumes "resume_attest B E C link s = (Inr sec, t)"
  shows "\<exists>info. received B (rn_taken (vr_runner s)) sec \<and> security_info C sec = Inr info \<and> rn_taken (vr_runner t) = Suc (rn_taken (vr_runner s))"
proof -
  obtain q u info where u: "resume_send B E link q s = (Inr (), u)" "resume_receive B E link u = (Inr sec, t)" "security_info C sec = Inr info"
    using assms by (auto simp: resume_attest_def)
  have "rn_taken (vr_runner u) = rn_taken (vr_runner s)" using awaitL_taken u(1) unfolding resume_send_def by fastforce
  then show ?thesis using receive_received [OF u(2)] u(3) by simp
qed

lemma gated_stages:
  assumes "rn_taken (vr_runner s) = k"
  shows "only_attests C s (snd (seqM (awaitL E l (onR (runC (start_notify B)))) (seqM (require_link B l)
    (seqM (bindM (resume_attest B E C l) (\<lambda>_. retM ())) K)) s)) \<or> attested_v11 B C k"
proof (rule attesting.kept_or_seq)
  show "only_attests C s (snd (awaitL E l (onR (runC (start_notify B))) s))" by (intro attests_await attests_onR within_subscribe) simp
  fix a
  assume a: "awaitL E l (onR (runC (start_notify B))) s = (Inr (), a)"
  show "only_attests C a (snd (seqM (require_link B l) (seqM (bindM (resume_attest B E C l) (\<lambda>_. retM ())) K) a)) \<or> attested_v11 B C k"
  proof (rule attesting.kept_or_seq)
    show "only_attests C a (snd (require_link B l a))" by (simp add: require_link_def attesting.kept_refl)
    fix b
    assume "require_link B l a = (Inr (), b)"
    then have k: "rn_taken (vr_runner b) = k" using awaitL_taken [OF a] assms by (simp add: require_link_Inr)
    show "only_attests C b (snd (seqM (bindM (resume_attest B E C l) (\<lambda>_. retM ())) K b)) \<or> attested_v11 B C k"
    proof (rule attesting.kept_or_seq)
      show "only_attests C b (snd (bindM (resume_attest B E C l) (\<lambda>_. retM ()) b))" by (intro attesting.kept_intros attests_attest)
      fix c
      assume "bindM (resume_attest B E C l) (\<lambda>_. retM ()) b = (Inr (), c)"
      then have "attested_v11 B C k" using attest_attested k by (fastforce simp: attested_v11_def)
      then show "only_attests C c (snd (K c)) \<or> attested_v11 B C k" ..
    qed
  qed
qed

lemma exchange_gated:
  "only_attests C s (snd (resumption_exchange B E C V11 peer allow force_full negative replay_finish ui s)) \<or> attested_v11 B C (length (bl_queue B (ops_of s)))"
proof -
  let ?l = "bc_client (rn_client (vr_runner s))"
  let ?stages = "exchange_stages B E C ?l V11 peer allow force_full negative replay_finish ui"
  have "only_attests C s (exchange_start B s)"
    by (simp add: only_attests_def v1_within_def ops_within_def exchange_start_def upd_client_def)
  moreover have "only_attests C (exchange_start B s) (snd (?stages (exchange_start B s))) \<or> attested_v11 B C (length (bl_queue B (ops_of s)))"
    unfolding exchange_stages_def if_P [OF refl] by (rule gated_stages) (simp add: exchange_start_def upd_client_def)
  moreover have "only_attests C u (snd (seqM (setM exchange_cleanup) (onR (runC (stop_notify B))) u))" for u :: "'a resume_locals_scheme v1_run"
    using attests_silent [OF silent_cleanup exchange_cleanup_store] by (intro attesting.kept_seq attests_onR within_subscribe) simp_all
  ultimately show ?thesis
    unfolding resumption_exchange_def
    by (auto simp: bindM_def seqM_def finallyM_def Let_def case_prod_unfold intro: attesting.kept_trans)
qed

subsection \<open>Authentication\<close>

text \<open>Between two method calls the session stays or is closed.\<close>

definition session_closes :: "'r v1_run \<Rightarrow> 'r v1_run \<Rightarrow> bool" where
  "session_closes s t \<longleftrightarrow> session_get (rn_client (vr_runner t)) = session_get (rn_client (vr_runner s))
     \<or> (\<exists>y. session_get (rn_client (vr_runner t)) = Some y \<and> v1_session_closed y)"

interpretation session_closing: kept session_closes
  by unfold_locales (auto simp: session_closes_def)

definition same_objects_held :: "ble_client \<Rightarrow> ble_client \<Rightarrow> bool" where
  "same_objects_held c d \<longleftrightarrow> session_get d = session_get c \<and> app_get d = app_get c"

interpretation holding: kept same_objects_held
  by unfold_locales (simp_all add: same_objects_held_def)

lemma held_ops [simp]:
  "same_objects_held c (c\<lparr> bc_ops := ops \<rparr>)" "same_objects_held c (c\<lparr> bc_v1_notify_link := l \<rparr>)" "same_objects_held c c"
  unfolding same_objects_held_def session_get_def app_get_def by (simp_all split: option.split list.split)

lemma held_call: "same_objects_held c (snd (bleak_call B p c))"
  by (simp add: bleak_call_def Let_def)

lemma held_calls:
  "same_objects_held c (snd (start_notify B c))" "same_objects_held c (snd (send_control B w c))" "same_objects_held c (snd (write_secure_data B w c))"
  "same_objects_held c (snd (read_fragmented_public_key B c))" "same_objects_held c (snd (write_fragmented_ciphertext B ct c))"
proof -
  have "same_objects_held c (snd (write_all B fs c))" for fs c
    by (induction fs arbitrary: c) (auto intro: holding.kept_intros held_call)
  then show "same_objects_held c (snd (start_notify B c))" "same_objects_held c (snd (send_control B w c))" "same_objects_held c (snd (write_secure_data B w c))"
    "same_objects_held c (snd (read_fragmented_public_key B c))" "same_objects_held c (snd (write_fragmented_ciphertext B ct c))"
    unfolding start_notify_def send_control_def read_fragmented_public_key_def write_secure_data_def
      write_fragmented_ciphertext_def require_connected_def
    by (intro holding.kept_intros held_call; simp)+
qed

lemma session_closes_client: "(\<And>c. same_objects_held c (snd (m c))) \<Longrightarrow> session_closes s (snd (onR (runC m) s))"
  by (simp add: session_closes_def same_objects_held_def onR_def runC_def Let_def case_prod_unfold)

lemma session_closes_await: "session_closes s (snd (m s)) \<Longrightarrow> session_closes s (snd (awaitL E link m s))"
  by (rule session_closing.kept_trans)
    (auto simp: session_closes_def awaitL_def upd_client_def client_on_disconnect_def client_on_v1_disconnect_def get_clear_v1 Let_def case_prod_unfold
      split: option.split)

lemma session_closes_base:
  "session_closes s (snd (onR (take_notification B e) s))" "session_closes s (snd (require_link B link s))" "session_closes s (snd (sleepM s))"
  "session_closes s (snd (set_result g s))" "session_closes s (snd (onR (setM (set_buf n v)) s))" "session_closes s (snd (onR (setM (wipe_buf n)) s))"
  using held_ops(1) by (simp_all add: session_closes_def onR_def take_notification_def require_link_def sleepM_def set_result_def log_op_def
      set_buf_def wipe_buf_def same_objects_held_def Let_def case_prod_unfold)

lemma session_closes_waits:
  "session_closes s (snd (resume_receive B E link s))" "session_closes s (snd (resume_send B E link frame s))"
  "session_closes s (snd (resume_attest B E C link s))"
  unfolding resume_receive_def resume_send_def resume_attest_def
  by (intro session_closing.kept_intros session_closes_await session_closes_base session_closes_client held_calls)+

text \<open>A call that succeeds had the object the last call left, for the methods that refuse a closed one.\<close>

lemma session_chain:
  assumes "session_get (rn_client (vr_runner s)) = Some x" "session_closes s t" "session_get (rn_client (vr_runner t)) = Some y"
    and "\<not> v1_session_closed y"
  shows "y = x"
  using assms by (auto simp: session_closes_def)

lemma session_closes_step: "m s = (r, t) \<Longrightarrow> session_closes s (snd (m s)) \<Longrightarrow> session_closes s t"
  by simp

lemma upd_client_client [simp]: "rn_client (vr_runner (upd_client f s)) = f (rn_client (vr_runner s))" "rn_taken (vr_runner (upd_client f s)) = rn_taken (vr_runner s)"
  by (simp_all add: upd_client_def)

lemma resume_accepted_Inr:
  fixes s :: "'z resume_locals_scheme v1_run"
  assumes run: "accept_received B E link profile None None init raw s = (Inr (), t)"
  shows "\<exists>c c2 c3 fin reply. session_get (rn_client (vr_runner s)) = Some (V1Resume c) \<and> CentralResume_accept raw c = (Inr fin, c2)
    \<and> received B (rn_taken (vr_runner s)) reply \<and> CentralResume_finish reply c2 = (Inr (), c3) \<and> rs_path (rx_result (vr_result t)) = ''resume''"
proof -
  obtain fin s1 s2 reply s3 s4 where st: "on_resume (CentralResume_accept raw) s = (Inr fin, s1)" "resume_send B E link fin s1 = (Inr (), s2)"
    "resume_receive B E link s2 = (Inr reply, s3)" "on_resume (CentralResume_finish reply) s3 = (Inr (), s4)"
    using run by (auto simp: accept_received_def needM_Inr)
  obtain n and s5 v :: "'z resume_locals_scheme v1_run" where last: "(if profile = V08 then create_app hybrid_of else create_central resumed_ivs)
      (s5\<lparr> vr_result := (vr_result s5)\<lparr> rx_result := (rx_result (vr_result s5))\<lparr> rs_path := ''resume'', rs_successful_resumes := n \<rparr> \<rparr> \<rparr>) = (Inr (), v)"
    and t: "rs_path (rx_result (vr_result t)) = rs_path (rx_result (vr_result v))"
    using run by (auto simp: accept_received_def needM_Inr)
  obtain c c2 where c: "session_get (rn_client (vr_runner s)) = Some (V1Resume c)" "CentralResume_accept raw c = (Inr fin, c2)"
    "session_get (rn_client (vr_runner s1)) = Some (V1Resume c2)" "rn_taken (vr_runner s1) = rn_taken (vr_runner s)"
    using st(1) by (auto simp: on_resume_Inr)
  obtain c' c3 where c': "session_get (rn_client (vr_runner s3)) = Some (V1Resume c')" "CentralResume_finish reply c' = (Inr (), c3)"
    using st(4) by (auto simp: on_resume_Inr)
  have "session_closes s1 s3"
    using session_closing.kept_trans [of s1 s2 s3] session_closes_waits(2) [of s1 B E link fin] session_closes_waits(1) [of s2 B E link] st(2,3) by simp
  moreover have "\<not> v1_session_closed (V1Resume c')" using c'(2) by (auto simp: CentralResume_finish_Inr cr_closed_def)
  ultimately have "c' = c2" using session_chain [OF c(3) _ c'(1)] by simp
  moreover have "received B (rn_taken (vr_runner s)) reply"
    using receive_received [OF st(3)] awaitL_taken [of E link _ s1] st(2) c(4) unfolding resume_send_def by fastforce
  moreover have "keeps_at (of_result rs_path) u (snd ((if profile = V08 then create_app hybrid_of else create_central resumed_ivs) u))" for u :: "'z resume_locals_scheme v1_run"
    by (intro fields.kept_if keeps_at_app) simp_all
  from this [of "s5\<lparr> vr_result := (vr_result s5)\<lparr> rx_result := (rx_result (vr_result s5))\<lparr> rs_path := ''resume'', rs_successful_resumes := n \<rparr> \<rparr> \<rparr>"] last
  have "rs_path (rx_result (vr_result t)) = ''resume''" by (simp add: keeps_at_def of_result_def t)
  ultimately show ?thesis using c c' by blast
qed

text \<open>An ACCEPT and then a FINISH\_P that prove knowledge of the ticket's root, for this session's id and nonce.\<close>

definition resume_verified :: "bleak \<Rightarrow> ticket \<Rightarrow> bool" where
  "resume_verified B tk \<longleftrightarrow> (\<exists>now sid nc np k. ticket_usable (tk_profile tk) (tk_peer tk) now tk \<and> length sid = 16 \<and> length nc = 32 \<and> length np = 32
     \<and> received B k (frame_wire MAGIC (tk_profile tk) ACCEPT (np @ resume_mac (tk_profile tk) (tk_root tk) ''ACCEPT'' (tk_rid tk) sid nc (Some np)))
     \<and> received B (Suc k) (frame_wire MAGIC (tk_profile tk) FINISH_P
         (finish_tag False (keys_of (tk_profile tk) (tk_root tk) (tk_rid tk) sid nc np))))"

lemma own_get: "own link x s = (Inr (), t) \<Longrightarrow> session_get (rn_client (vr_runner t)) = Some x"
  by (auto simp: own_def set_result_apply session_get_def)

lemma CentralResume_init_Inr:
  "CentralResume_init now sid nc tk = (Inr c, t') \<longleftrightarrow> ticket_usable (tk_profile tk) (tk_peer tk) now tk \<and> t' = tk
    \<and> c = \<lparr> cr_ticket = tk, cr_profile = tk_profile tk, cr_state = HS_NEW, cr_session_id = sid, cr_nc = nc, cr_keys = None \<rparr>"
  by (auto simp: CentralResume_init_def dest: Ticket_check_Inl split: prod.splits sum.splits)

lemma try_resume_verified:
  fixes s :: "'z resume_locals_scheme v1_run"
  assumes run: "try_resume B E link profile None None tk s = (Inr (), t)" and app: "rx_app (vr_result t)" "\<not> rx_app (vr_result s)"
  shows "resume_verified B tk \<and> rs_path (rx_result (vr_result t)) = ''resume''"
proof -
  obtain r tk' where init: "CentralResume_init (re_clock E (ops_of s) ''resume'') (re_random E (ops_of s) ''session_id'') (re_random E (ops_of s) ''nonce'') tk = (r, tk')"
    by fastforce
  obtain c0 a b s1 s2 s3 w raw ty where st: "r = Inr c0" "put_ticket tk' s = (Inr (), a)"
    "own link (V1Resume c0) a = (Inr (), b)" "on_resume CentralResume_begin b = (Inr w, s1)" "resume_send B E link w s1 = (Inr (), s2)"
    "resume_receive B E link s2 = (Inr raw, s3)"
    "(if ty = REJECT then seqM (needM (None \<noteq> Some ''init-mac'') (NegativeTestPassed ''bad INIT MAC explicitly rejected''))
        (seqM (set_rs (\<lambda>r. r\<lparr> rs_fallback_reason := Some ''RESUME_REJECT'' \<rparr>)) drop_session)
      else accept_received B E link profile None None w raw) s3 = (Inr (), t)"
    using run by (auto simp: try_resume_def init needM_apply)
  have R: "keeps_at rx_app s (snd (own link x s))" "keeps_at rx_app s (snd (on_resume m s))" "keeps_at rx_app s (snd (resume_send B E link w s))"
    "keeps_at rx_app s (snd (resume_receive B E link s))" "keeps_at rx_app s (snd ((seqM (needM p e) (seqM (set_rs (\<lambda>r. r\<lparr> rs_fallback_reason := z \<rparr>)) drop_session)) s))"
    "keeps_at rx_app s (snd (put_ticket k s))" for s :: "'z resume_locals_scheme v1_run" and x w z k p e and m :: "(central_resume, bytes) meth"
    by (intro keeps_at_objects keeps_at_waits keeps_at_put_ticket fields.kept_seq fields.kept_pure keeps_at_drop keeps_at_set; simp)+
  have "keeps_at rx_app s a" "keeps_at rx_app a b" "keeps_at rx_app b s1" "keeps_at rx_app s1 s2" "keeps_at rx_app s2 s3" using R st by (metis snd_conv)+
  then have "\<not> rx_app (vr_result s3)" using app by (simp add: keeps_at_def)
  moreover have "keeps_at rx_app s3 t" if "ty = REJECT"
    using st(7) R(5) unfolding if_P [OF that] by (metis snd_conv)
  ultimately have "ty \<noteq> REJECT" using app by (auto simp: keeps_at_def)
  then have "accept_received B E link profile None None w raw s3 = (Inr (), t)" using st(7) by simp
  then obtain c c2 c3 fin reply where c: "session_get (rn_client (vr_runner s3)) = Some (V1Resume c)" "CentralResume_accept raw c = (Inr fin, c2)"
    "received B (rn_taken (vr_runner s3)) reply" "CentralResume_finish reply c2 = (Inr (), c3)" and path: "rs_path (rx_result (vr_result t)) = ''resume''"
    using resume_accepted_Inr by blast
  obtain c1 where c1: "CentralResume_begin c0 = (Inr w, c1)" "session_get (rn_client (vr_runner s1)) = Some (V1Resume c1)"
    using st(4) own_get [OF st(3)] by (auto simp: on_resume_Inr)
  have "session_closes s1 s3"
    using session_closing.kept_trans [of s1 s2 s3] session_closes_waits(2) [of s1 B E link w] session_closes_waits(1) [of s2 B E link] st(5,6) by simp
  moreover have "\<not> v1_session_closed (V1Resume c)" using c(2) by (auto simp: CentralResume_accept_Inr cr_closed_def)
  ultimately have "c = c1" using session_chain [OF c1(2) _ c(1)] by simp
  moreover have "received B (rn_taken (vr_runner s2)) raw" "rn_taken (vr_runner s3) = Suc (rn_taken (vr_runner s2))"
    using receive_received [OF st(6)] by simp_all
  ultimately show ?thesis
    using c path c1(1) init st(1)
    by (auto simp: resume_verified_def CentralResume_init_Inr CentralResume_begin_Inr CentralResume_accept_Inr CentralResume_finish_Inr Let_def) blast
qed

text \<open>The handshake object from its creation to FINISHED\_P, with the human's SAS in v0.8 and the attestation in v1.1.\<close>

definition handshake_begun :: "bleak \<Rightarrow> third_party \<Rightarrow> int \<Rightarrow> sas5_prompt \<Rightarrow> bytes \<Rightarrow> bytes \<Rightarrow> bytes \<Rightarrow> bytes \<Rightarrow> full_handshake \<Rightarrow> full_handshake \<Rightarrow> bool" where
  "handshake_begun B C profile ui ss pk ct sid h0 h1 \<longleftrightarrow>
     (if profile = V08
      then \<exists>private public ecdh pp sas. serialize_p256_public_key C private = Inr public \<and> derive_p256_ecdh_shared_secret C private (PeerBytes pp) = Inr ecdh
        \<and> FullHandshake_begin C ss pk ct sid (Some ecdh) (Some public) (Some pp) None h0 = (Inr (), h1)
        \<and> FullHandshake_sas h1 = Inr sas \<and> p7_confirm_sas ui sas = Inr True
      else \<exists>sec info j k. received B j sec \<and> security_info C sec = Inr info \<and> FullHandshake_begin C ss pk ct sid None None None (Some sec) h0 = (Inr (), h1)
        \<and> received B k (frame_wire (full_magic profile) profile V1_READY_CP3 (fh_th h1)))"

definition handshake_verified :: "bleak \<Rightarrow> third_party \<Rightarrow> int \<Rightarrow> string \<Rightarrow> sas5_prompt \<Rightarrow> bool" where
  "handshake_verified B C profile peer ui \<longleftrightarrow> (\<exists>h0 h1 h2 h3 r pk ct ss sid w k now. FullHandshake_init profile = Inr h0 \<and> length pk = 1184
     \<and> encapsulate C r pk = (ct, ss) \<and> handshake_begun B C profile ui ss pk ct sid h0 h1 \<and> FullHandshake_finish_c C True h1 = (Inr w, h2)
     \<and> received B k (fh_expected_p h2) \<and> FullHandshake_finish_p C (fh_expected_p h2) peer now h2 = (Inr (), h3))"

lemma bufs_silent: "silent s t \<Longrightarrow> keeps_bufs s t"
  by (simp add: silent_def keeps_bufs_def)

lemma bufs_await: "keeps_bufs s (snd (m s)) \<Longrightarrow> keeps_bufs s (snd (awaitL E link m s))"
  by (simp add: awaitL_def keeps_bufs_def upd_client_def Let_def case_prod_unfold)

lemma bufs_waits:
  "keeps_bufs s (snd (resume_receive B E link s))" "keeps_bufs s (snd (resume_send B E link frame s))" "keeps_bufs s (snd (resume_attest B E C link s))"
  "keeps_bufs s (snd (full_start E C profile sid s))"
proof -
  have take: "keeps_bufs s (snd (onR (take_notification B e) s))" for e and s :: "'a resume_locals_scheme v1_run"
    by (simp add: keeps_bufs_def onR_def take_notification_def Let_def case_prod_unfold)
  show "keeps_bufs s (snd (resume_receive B E link s))" "keeps_bufs s (snd (resume_send B E link frame s))" "keeps_bufs s (snd (resume_attest B E C link s))"
    "keeps_bufs s (snd (full_start E C profile sid s))"
    unfolding resume_receive_def resume_send_def resume_attest_def full_start_def
    by (intro bufs.kept_intros bufs_await take keeps_bufs_base silent_base [THEN bufs_silent])+
qed

lemma readM_pair: "readM f s = (r, t) \<longleftrightarrow> f s = r \<and> t = s"
  by auto

lemma full_body_Inr:
  fixes s :: "'z resume_locals_scheme v1_run"
  assumes "full_body B E C link profile peer ui s = (Inr (), t)"
  obtains pk r ct ss sid sk n s1 u v s2 s3 s4 s5 raw s6 ready confirmed s7 w s8 s9 reply s10 now s11 where
    "awaitL E link (onR (runC (read_fragmented_public_key B))) s = (Inr pk, s1)" "require_link B link s1 = (Inr (), u)" "length pk = 1184"
    "ct = fst (encapsulate C r pk)" "ss = snd (encapsulate C r pk)"
    "onR (setM (set_buf ''secret'' ss)) u = (Inr (), v)" "full_start E C profile sid v = (Inr sk, s2)"
    "awaitL E link (onR (runC (write_fragmented_ciphertext B ct))) s2 = (Inr n, s3)"
    "(if profile = V11 then bindM (resume_attest B E C link) (\<lambda>sec. bindM (readM (\<lambda>s. Inr (rn_buf (vr_runner s) ''secret'')))
        (\<lambda>secret. on_full (FullHandshake_begin C secret pk ct sid None None None (Some sec)))) else retM ()) s3 = (Inr (), s4)"
    "resume_send B E link (fst sk) s4 = (Inr (), s5)" "resume_receive B E link s5 = (Inr raw, s6)" "parse_full C profile raw = Inr ready"
    "full_ready B E C link ui pk ct sid (snd sk) ready s6 = (Inr confirmed, s7)" "on_full (FullHandshake_finish_c C confirmed) s7 = (Inr w, s8)"
    "resume_send B E link w s8 = (Inr (), s9)" "resume_receive B E link s9 = (Inr reply, s10)"
    "on_full (FullHandshake_finish_p C reply peer now) s10 = (Inr (), s11)"
  using assms
  unfolding full_body_def bindM_Inr seqM_Inr local_simps liftR_def readM_pair case_prod_unfold sized_Inr prod.inject sum.inject
  apply (elim exE conjE)
  apply hypsubst
  apply (rule that)
  apply assumption+
  apply (rule refl)+
  apply assumption+
  done

lemma full_start_Inr:
  "full_start E C profile sid s = (Inr sk, t) \<Longrightarrow> t = s \<and> (if profile = V08
     then \<exists>private public. snd sk = Some (private, public) \<and> serialize_p256_public_key C private = Inr public else snd sk = None)"
  by (auto simp: full_start_def split: if_splits)

lemma full_ready_hybrid:
  assumes "full_ready B E C link ui pk ct sid (Some (private, public)) (ty, pp) s = (Inr confirmed, t)"
  shows "\<exists>ecdh h h1 sas u. derive_p256_ecdh_shared_secret C private (PeerBytes pp) = Inr ecdh \<and> session_get (rn_client (vr_runner s)) = Some (V1Full h)
    \<and> FullHandshake_begin C (rn_buf (vr_runner s) ''secret'') pk ct sid (Some ecdh) (Some public) (Some pp) None h = (Inr (), h1)
    \<and> FullHandshake_sas h1 = Inr sas \<and> p7_confirm_sas ui sas = Inr confirmed
    \<and> session_get (rn_client (vr_runner u)) = Some (V1Full h1) \<and> session_closes u t"
proof -
  obtain ecdh s1 s2 s3 s4 sas where st: "derive_p256_ecdh_shared_secret C private (PeerBytes pp) = Inr ecdh" "s1 = s\<lparr> vr_runner := set_buf ''ecdh'' ecdh (vr_runner s) \<rparr>"
    "on_full (FullHandshake_begin C (rn_buf (vr_runner s1) ''secret'') pk ct sid (Some ecdh) (Some public) (Some pp) None) s1 = (Inr (), s2)"
    "onR (setM (wipe_buf ''secret'')) s2 = (Inr (), s3)" "onR (setM (wipe_buf ''ecdh'')) s3 = (Inr (), s4)"
    "\<exists>s5. on_full (readM FullHandshake_sas) s4 = (Inr sas, s5) \<and> awaitL E link (seqM sleepM (liftR (p7_confirm_sas ui sas))) s5 = (Inr confirmed, t)"
    using assms by (auto simp: full_ready_def needM_Inr onR_Inr)
  then obtain s5 where s5: "on_full (readM FullHandshake_sas) s4 = (Inr sas, s5)" "awaitL E link (seqM sleepM (liftR (p7_confirm_sas ui sas))) s5 = (Inr confirmed, t)"
    by blast
  obtain h h1 where h: "session_get (rn_client (vr_runner s)) = Some (V1Full h)" "session_get (rn_client (vr_runner s2)) = Some (V1Full h1)"
    "FullHandshake_begin C (rn_buf (vr_runner s) ''secret'') pk ct sid (Some ecdh) (Some public) (Some pp) None h = (Inr (), h1)"
    using st(3) by (auto simp: st(2) on_full_Inr set_buf_def)
  have s4: "session_get (rn_client (vr_runner s4)) = Some (V1Full h1)"
    using st(4,5) h(2) by (auto simp: onR_Inr wipe_buf_def set_buf_def)
  have "FullHandshake_sas h1 = Inr sas" "session_get (rn_client (vr_runner s5)) = Some (V1Full h1)"
    using s5(1) s4 by (auto simp: on_full_Inr)
  moreover have "session_closes s5 (snd (awaitL E link (seqM sleepM (liftR (p7_confirm_sas ui sas))) s5))"
    by (intro session_closes_await session_closing.kept_seq session_closes_base session_closing.kept_pure)
  then have "session_closes s5 t" using s5(2) by simp
  moreover have "p7_confirm_sas ui sas = Inr confirmed" using s5(2) by (auto simp: awaitL_Inr)
  ultimately show ?thesis using st(1) h by blast
qed

lemma full_ready_v11:
  assumes "full_ready B E C link ui pk ct sid None (ty, th) s = (Inr confirmed, t)"
  shows "\<exists>h. session_get (rn_client (vr_runner s)) = Some (V1Full h) \<and> ty = V1_READY_CP3 \<and> th = fh_th h \<and> confirmed \<and> session_closes s t
    \<and> session_get (rn_client (vr_runner t)) = Some (V1Full h)"
  using assms by (auto simp: full_ready_def needM_Inr on_full_Inr session_closes_def upd_client_def)

lemma full_calls_open:
  "FullHandshake_begin C ss pk ct sid e cp pp sec h = (Inr u, t) \<Longrightarrow> \<not> v1_session_closed (V1Full h)"
  "FullHandshake_finish_c C b h = (Inr w, t) \<Longrightarrow> \<not> v1_session_closed (V1Full h)"
  "FullHandshake_finish_p C raw peer now h = (Inr u, t) \<Longrightarrow> \<not> v1_session_closed (V1Full h)"
  by (auto simp: fh_closed_def dest: fh_begin_state fh_finish_c_state fh_finish_p_state)

lemma full_finish:
  assumes st: "on_full (FullHandshake_finish_c C confirmed) s7 = (Inr w, s8)" "resume_send B E link w s8 = (Inr (), s9)"
    "resume_receive B E link s9 = (Inr reply, s10)" "on_full (FullHandshake_finish_p C reply peer now) s10 = (Inr (), s11)"
    and s: "session_get (rn_client (vr_runner u)) = Some (V1Full h1)" "session_closes u s7"
  shows "\<exists>h2 h3 k. FullHandshake_finish_c C True h1 = (Inr w, h2) \<and> received B k (fh_expected_p h2) \<and> session_get (rn_client (vr_runner s7)) = Some (V1Full h1)
    \<and> FullHandshake_finish_p C (fh_expected_p h2) peer now h2 = (Inr (), h3) \<and> confirmed"
proof -
  obtain h h2 where h: "session_get (rn_client (vr_runner s7)) = Some (V1Full h)" "FullHandshake_finish_c C confirmed h = (Inr w, h2)"
    "session_get (rn_client (vr_runner s8)) = Some (V1Full h2)"
    using st(1) by (auto simp: on_full_Inr)
  have h1: "h = h1" using session_chain [OF s h(1) full_calls_open(2) [OF h(2)]] by simp
  obtain h' h3 where h': "session_get (rn_client (vr_runner s10)) = Some (V1Full h')" "FullHandshake_finish_p C reply peer now h' = (Inr (), h3)"
    using st(4) by (auto simp: on_full_Inr)
  have "session_closes s8 s10"
    using session_closing.kept_trans [of s8 s9 s10] session_closes_waits(2) [of s8 B E link w] session_closes_waits(1) [of s9 B E link] st(2,3) by simp
  then have "h' = h2" using session_chain [OF h(3) _ h'(1) full_calls_open(3) [OF h'(2)]] by simp
  moreover have "reply = fh_expected_p h'" confirmed
    using fh_finish_p_effect [OF h'(2)] fh_finish_c_state [OF h(2)] by simp_all
  ultimately show ?thesis
    using h h1 h' receive_received [OF st(3)]
    by (intro exI [of _ h2] exI [of _ h3] exI [of _ "rn_taken (vr_runner s9)"]) auto
qed

lemma full_body_verified:
  fixes s :: "'z resume_locals_scheme v1_run"
  assumes run: "full_body B E C link profile peer ui s = (Inr (), t)" and h0: "FullHandshake_init profile = Inr h0"
    and s: "session_get (rn_client (vr_runner s)) = Some (V1Full h0)"
  shows "handshake_verified B C profile peer ui"
proof -
  obtain pk r ct ss sid sk n s1 u v s2 s3 s4 s5 raw s6 ready confirmed s7 w s8 s9 reply s10 now s11 where st:
    "awaitL E link (onR (runC (read_fragmented_public_key B))) s = (Inr pk, s1)" "require_link B link s1 = (Inr (), u)" "length pk = 1184"
    "ct = fst (encapsulate C r pk)" "ss = snd (encapsulate C r pk)"
    "onR (setM (set_buf ''secret'' ss)) u = (Inr (), v)" "full_start E C profile sid v = (Inr sk, s2)"
    "awaitL E link (onR (runC (write_fragmented_ciphertext B ct))) s2 = (Inr n, s3)"
    "(if profile = V11 then bindM (resume_attest B E C link) (\<lambda>sec. bindM (readM (\<lambda>s. Inr (rn_buf (vr_runner s) ''secret'')))
        (\<lambda>secret. on_full (FullHandshake_begin C secret pk ct sid None None None (Some sec)))) else retM ()) s3 = (Inr (), s4)"
    "resume_send B E link (fst sk) s4 = (Inr (), s5)" "resume_receive B E link s5 = (Inr raw, s6)" "parse_full C profile raw = Inr ready"
    "full_ready B E C link ui pk ct sid (snd sk) ready s6 = (Inr confirmed, s7)" and tail: "on_full (FullHandshake_finish_c C confirmed) s7 = (Inr w, s8)"
    "resume_send B E link w s8 = (Inr (), s9)" "resume_receive B E link s9 = (Inr reply, s10)"
    "on_full (FullHandshake_finish_p C reply peer now) s10 = (Inr (), s11)"
    using run by (rule full_body_Inr)
  have [simp]: "u = s1" using st(2) by (simp add: require_link_Inr)
  have [simp]: "s2 = v" using full_start_Inr [OF st(7)] by simp
  have waits: "session_closes x (snd (awaitL E link (onR (runC (read_fragmented_public_key B))) x))"
    "session_closes x (snd (awaitL E link (onR (runC (write_fragmented_ciphertext B ct))) x))" "session_closes x (snd (onR (setM (set_buf b d)) x))"
    "keeps_bufs x (snd (awaitL E link (onR (runC (write_fragmented_ciphertext B ct))) x))"
    for x :: "'z resume_locals_scheme v1_run" and b d
    by (intro session_closes_await session_closes_client held_calls session_closes_base bufs_await keeps_bufs_base)+
  have closes: "session_closes s s1" "session_closes s1 v" "session_closes v s3" "session_closes s4 s5" "session_closes s5 s6"
    using waits(1) [of s] st(1) waits(3) [of s1 "''secret''" ss] st(6) waits(2) [of v] st(8)
      session_closes_waits(2) [of s4 B E link "fst sk"] st(10) session_closes_waits(1) [of s5 B E link] st(11) by simp_all
  have s3: "session_closes s s3" using closes session_closing.kept_trans by blast
  have bufs: "rn_buf (vr_runner s3) ''secret'' = ss"
    using waits(4) [of v] st(6,8) by (auto simp: keeps_bufs_def onR_Inr set_buf_def)
  obtain ty th where ready: "ready = (ty, th)" "raw = frame_wire (full_magic profile) profile ty th" using st(12) by (cases ready) auto
  have heard: "\<exists>k. received B k raw" using receive_received [OF st(11)] by blast
  obtain h' h2' where h': "session_get (rn_client (vr_runner s7)) = Some (V1Full h')" "FullHandshake_finish_c C confirmed h' = (Inr w, h2')"
    using tail(1) by (auto simp: on_full_Inr)
  then have [simp]: "confirmed = True" using fh_finish_c_state by blast
  have "\<exists>h1 u. handshake_begun B C profile ui ss pk ct sid h0 h1 \<and> session_get (rn_client (vr_runner u)) = Some (V1Full h1) \<and> session_closes u s7"
  proof (cases "profile = V08")
    case True
    then obtain priv pub where key: "snd sk = Some (priv, pub)" "serialize_p256_public_key C priv = Inr pub"
      using full_start_Inr [OF st(7)] by auto
    have [simp]: "s4 = s3" using st(9) True by simp
    have bufs6: "rn_buf (vr_runner s6) ''secret'' = ss"
      using bufs bufs_waits(2) [of s4 B E link "fst sk"] bufs_waits(1) [of s5 B E link] st(10,11) by (simp add: keeps_bufs_def)
    from full_ready_hybrid [OF st(13) [unfolded key(1) ready(1)]] obtain ecdh h h1 sas u where f:
      "derive_p256_ecdh_shared_secret C priv (PeerBytes th) = Inr ecdh" "session_get (rn_client (vr_runner s6)) = Some (V1Full h)"
      "FullHandshake_begin C ss pk ct sid (Some ecdh) (Some pub) (Some th) None h = (Inr (), h1)" "FullHandshake_sas h1 = Inr sas"
      "p7_confirm_sas ui sas = Inr confirmed" "session_get (rn_client (vr_runner u)) = Some (V1Full h1)" "session_closes u s7"
      unfolding bufs6 by blast
    have "session_closes s s6" using s3 closes(4,5) session_closing.kept_trans by (metis \<open>s4 = s3\<close>)
    then have "h = h0" using session_chain [OF s _ f(2) full_calls_open(1) [OF f(3)]] by simp
    then have "handshake_begun B C profile ui ss pk ct sid h0 h1" using True key f unfolding handshake_begun_def by auto
    with f(6,7) show ?thesis by blast
  next
    case False
    then have V11: "profile = V11" using h0 by (auto simp: FullHandshake_init_def profile_ok_def)
    obtain sec s3' where sec: "resume_attest B E C link s3 = (Inr sec, s3')"
      "on_full (FullHandshake_begin C (rn_buf (vr_runner s3') ''secret'') pk ct sid None None None (Some sec)) s3' = (Inr (), s4)"
      using st(9) by (auto simp: V11)
    have bufs3: "rn_buf (vr_runner s3') ''secret'' = ss" using bufs bufs_waits(3) [of s3 B E C link] sec(1) by (simp add: keeps_bufs_def)
    obtain h h1 where h: "session_get (rn_client (vr_runner s3')) = Some (V1Full h)" "session_get (rn_client (vr_runner s4)) = Some (V1Full h1)"
      "FullHandshake_begin C ss pk ct sid None None None (Some sec) h = (Inr (), h1)"
      using sec(2) unfolding bufs3 by (auto simp: on_full_Inr)
    have "session_closes s s3'" using session_closing.kept_trans [OF s3, of s3'] session_closes_waits(3) [of s3 B E C link] sec(1) by simp
    then have "h = h0" using session_chain [OF s _ h(1) full_calls_open(1) [OF h(3)]] by simp
    obtain h6 where h6: "session_get (rn_client (vr_runner s6)) = Some (V1Full h6)" "ty = V1_READY_CP3" "th = fh_th h6"
      "session_get (rn_client (vr_runner s7)) = Some (V1Full h6)"
      using full_ready_v11 [of B E C link ui pk ct sid ty th s6 confirmed s7] st(13) full_start_Inr [OF st(7)] False ready(1) by auto
    have "session_closes s4 s6" using closes(4,5) session_closing.kept_trans by blast
    then have "h6 = h1" using session_chain [OF h(2) _ h6(1)] h6(4) h' full_calls_open(2) [OF h'(2)] by simp
    moreover obtain info where "\<exists>j. received B j sec" "security_info C sec = Inr info" using attest_attested [OF sec(1)] by blast
    ultimately have "handshake_begun B C profile ui ss pk ct sid h0 h1"
      using False h(3) \<open>h = h0\<close> heard ready(2) h6(2,3) unfolding handshake_begun_def by auto
    then show ?thesis using h6(4) \<open>h6 = h1\<close> session_closing.kept_refl by blast
  qed
  then obtain h1 u where u: "handshake_begun B C profile ui ss pk ct sid h0 h1" "session_get (rn_client (vr_runner u)) = Some (V1Full h1)" "session_closes u s7"
    by blast
  from full_finish [OF tail u(2,3)] show ?thesis
    using h0 st(3-5) u(1) unfolding handshake_verified_def by (metis prod.collapse)
qed

lemma full_path_verified:
  "full_handshake_path B E C link profile peer force_full negative ui s = (Inr (), t) \<Longrightarrow> handshake_verified B C profile peer ui"
  by (auto simp: full_handshake_path_def finallyM_Inr dest!: full_body_verified own_get)

text \<open>A ticket of this profile and peer that the store gave, proved by the peer.\<close>

definition resumed_with :: "bleak \<Rightarrow> int \<Rightarrow> string \<Rightarrow> ticket_store \<Rightarrow> bool" where
  "resumed_with B profile peer store \<longleftrightarrow> (\<exists>tk now. fst (TicketStore_load profile peer now store) = Inr (Some tk)
     \<and> tk_profile tk = profile \<and> tk_peer tk = peer \<and> resume_verified B tk)"

lemma load_ticket_Inr:
  assumes "load_ticket E profile peer allow s = (Inr (), t)" "rx_ticket (vr_result t) = Some tk"
  shows "\<exists>now. fst (TicketStore_load profile peer now (rx_store (vr_result s))) = Inr (Some tk)"
  using assms by (auto simp: load_ticket_def on_store_def Let_def split: if_splits prod.splits) (metis fst_conv)+

lemma load_identity: "fst (TicketStore_load profile peer now st) = Inr (Some tk) \<Longrightarrow> tk_profile tk = profile \<and> tk_peer tk = peer"
  using ticket_store_load_sound [of profile peer now st tk] by (metis prod.collapse ticket_usable_def)

lemma exchange_authentic:
  fixes s :: "'z resume_locals_scheme v1_run"
  assumes "resumption_exchange B E C profile peer allow force_full None None ui s = (Inr u, t)"
  shows "\<not> force_full \<and> allow \<and> rs_path (rx_result (vr_result t)) = ''resume'' \<and> resumed_with B profile peer (rx_store (vr_result s))
    \<or> handshake_verified B C profile peer ui"
proof -
  let ?R = "\<lambda>s t. keeps_at (\<lambda>u. (rx_app u, rx_store u)) s t"
  obtain link a b c s1 s2 s3 k4 s4 s5 where st: "awaitL E link (onR (runC (start_notify B))) (exchange_start B s) = (Inr (), a)"
    "(if profile = V11 then bindM (resume_attest B E C link) (\<lambda>_. retM ()) else retM ()) a = (Inr (), b)"
    "load_ticket E profile peer allow b = (Inr (), c)" "lifecycle_test E profile peer None c = (Inr (), s1)"
    and s2: "(case rx_ticket (vr_result s1) of Some t \<Rightarrow> if force_full then retM () else try_resume B E link profile None None t | None \<Rightarrow> retM ()) s1 = (Inr (), s2)"
    and s3: "(if rx_app (vr_result s2) then retM () else full_handshake_path B E C link profile peer force_full None ui) s2 = (Inr (), s3)"
    and s4: "s4 = s3\<lparr> vr_result := (vr_result s3)\<lparr> rx_result := (rx_result (vr_result s3))\<lparr> rs_app_secure := True, rs_ticket_saved := k4 \<rparr> \<rparr> \<rparr>"
    and t: "resume_rounds B E C link profile (round_indices profile) s4 = (Inr (), s5)" "onR (runC (stop_notify B)) (exchange_cleanup s5) = (Inr (), t)"
    using assms by (rule exchange_Inr)
  show ?thesis
  proof (cases "rx_app (vr_result s2)")
    case True
    have "?R (exchange_start B s) (snd (awaitL E link (onR (runC (start_notify B))) (exchange_start B s)))"
      "?R a (snd ((if profile = V11 then bindM (resume_attest B E C link) (\<lambda>_. retM ()) else retM ()) a))"
      by (intro keeps_at_steps keeps_at_waits)+
    then have "?R (exchange_start B s) a" "?R a b" using st(1,2) by simp_all
    then have b: "rx_store (vr_result b) = rx_store (vr_result s)" "\<not> rx_app (vr_result b)" by (simp_all add: keeps_at_def exchange_start_def)
    have "keeps_at rx_app b c" using keeps_at_ticket(1) [of rx_app b E profile peer allow] st(3) by simp
    moreover have s1: "s1 = c" using st(4) by (simp add: lifecycle_test_def)
    ultimately have app: "\<not> rx_app (vr_result s1)" using b by (simp add: keeps_at_def)
    then obtain tk where tk: "rx_ticket (vr_result s1) = Some tk" "\<not> force_full" "try_resume B E link profile None None tk s1 = (Inr (), s2)"
      using s2 True by (auto split: option.splits if_splits)
    have v: "resume_verified B tk" "rs_path (rx_result (vr_result s2)) = ''resume''" using try_resume_verified [OF tk(3) True app] by simp_all
    have allow using tk(1) st(3) s1 by (auto simp: load_ticket_def split: if_splits)
    obtain now where now: "fst (TicketStore_load profile peer now (rx_store (vr_result s))) = Inr (Some tk)"
      using load_ticket_Inr [OF st(3), of tk] tk(1) s1 b(1) by auto
    have "s3 = s2" using s3 True by simp
    then have "rs_path (rx_result (vr_result t)) = ''resume''"
      using exchange_end [OF t, of rs_path] v(2) by (simp add: s4 rounds_blind_def)
    then show ?thesis using now load_identity [OF now] v(1) tk(2) \<open>allow\<close> by (auto simp: resumed_with_def)
  next
    case False
    then have "full_handshake_path B E C link profile peer force_full None ui s2 = (Inr (), s3)" using s3 by simp
    from full_path_verified [OF this] show ?thesis ..
  qed
qed

subsection \<open>A session that returns\<close>

lemma session_start_Inr:
  "session_start B P profile None s = (Inr peer, t) \<longleftrightarrow> (\<exists>a. client_address (rn_client (vr_runner s)) = Some a \<and> peer = map ascii_upper a
     \<and> t = s\<lparr> vr_result := (vr_result s)\<lparr> rx_result := Result_init profile \<rparr> \<rparr>)"
  by (auto simp: session_start_def needM_Inr split: option.splits)

lemma session_Inr:
  assumes "run_session B E P C profile ui force_full None None s = (Inr r, t)"
  obtains a allow force and u v :: "resume_locals v1_run" where "client_address (rn_client (vr_runner s)) = Some a"
    "resumption_exchange B E C profile (map ascii_upper a) allow force None None (attempt_ui profile ui) u = (Inr (), v)" "r = rx_result (vr_result v)"
    "force = force_full \<and> rx_store (vr_result u) = rx_store (vr_result s) \<or> force"
proof -
  let ?s = "s\<lparr> vr_result := (vr_result s)\<lparr> rx_result := Result_init profile \<rparr> \<rparr>"
  obtain a where a: "client_address (rn_client (vr_runner s)) = Some a"
    "session_attempts B E P C profile (map ascii_upper a) ui None force_full None ?s = (Inr (), t)" "r = rx_result (vr_result t)"
    using assms by (auto simp: run_session_def session_start_Inr)
  let ?attempt = "session_attempt B E P C profile (map ascii_upper a) ui None"
  have "?attempt force_full None ?s = (Inr (), t) \<or> (\<exists>u. ?attempt True None u = (Inr (), t))"
    using a(2) by (auto simp: session_attempts_def catchM_def split: prod.splits sum.splits if_splits)
  then show thesis
  proof (elim disjE exE)
    assume "?attempt force_full None ?s = (Inr (), t)"
    from session_attempt_Inr [OF this] obtain allow and u v :: "resume_locals v1_run" where
      "resumption_exchange B E C profile (map ascii_upper a) allow force_full None None (attempt_ui profile ui) u = (Inr (), v)"
      "rx_result (vr_result t) = rx_result (vr_result v)" "rx_store (vr_result u) = rx_store (vr_result s)" by auto
    then show thesis using that a(1,3) by metis
  next
    fix w
    assume "?attempt True None w = (Inr (), t)"
    from session_attempt_Inr [OF this] obtain allow and u v :: "resume_locals v1_run" where
      "resumption_exchange B E C profile (map ascii_upper a) allow True None None (attempt_ui profile ui) u = (Inr (), v)"
      "rx_result (vr_result t) = rx_result (vr_result v)" by auto
    then show thesis using that a(1,3) by metis
  qed
qed

lemma session_sound:
  assumes "run_session B E P C profile ui force_full None None s = (Inr r, t)"
  shows "rs_app_secure r \<and> length (round_indices profile) \<le> rs_rounds r
    \<and> (\<exists>a. client_address (rn_client (vr_runner s)) = Some a
      \<and> (\<not> force_full \<and> rs_path r = ''resume'' \<and> resumed_with B profile (map ascii_upper a) (rx_store (vr_result s))
         \<or> handshake_verified B C profile (map ascii_upper a) ui))"
proof -
  obtain a allow force and u v :: "resume_locals v1_run" where a: "client_address (rn_client (vr_runner s)) = Some a"
    "resumption_exchange B E C profile (map ascii_upper a) allow force None None (attempt_ui profile ui) u = (Inr (), v)" "r = rx_result (vr_result v)"
    "force = force_full \<and> rx_store (vr_result u) = rx_store (vr_result s) \<or> force"
    using assms by (rule session_Inr)
  have "length (round_indices profile) \<le> rs_rounds r"
    using exchange_rounds [OF a(2)] by (simp add: rounds_of_def a(3))
  moreover have "handshake_verified B C profile peer ui" if "handshake_verified B C profile peer (attempt_ui profile ui)" for peer
    using that by (simp add: handshake_verified_def handshake_begun_def split: if_splits)
  ultimately show ?thesis
    using exchange_secure(1) [OF a(2)] exchange_authentic [OF a(2)] a(1,3,4) by auto
qed

section \<open>Properties\<close>

text \<open>
  C19. A v0.8 or v1.1 session that returns is authenticated and complete. The result says \<open>app_secure\<close> and counts at
  least the three (v0.8) or two (v1.1) application rounds of its last exchange. Either that exchange resumed, which is then
  what the result says: the ticket store gave a ticket of this profile and of the peer whose address the client has, and the
  peer answered with an ACCEPT and next a FINISH_P whose MACs follow from the ticket's root, the session id and the nonces of
  both sides. Or a full handshake ran to FINISHED_P: with a shared secret encapsulated to a key of 1184 bytes, in v0.8 with
  the P-256 secret and a SAS the human confirmed, in v1.1 with a SEC_INFO of Level 4 and a READY that carries the transcript
  hash, and with the FINISHED_P that this handshake expects. This holds after a retry as well, and with
  \<open>force_full\<close> only the second case is left.
\<close>

theorem resume_session_sound:
  "case run_session B E P C profile ui force_full None None s of
     (Inl e, _) \<Rightarrow> True
   | (Inr r, _) \<Rightarrow> rs_app_secure r \<and> (if profile = V08 then 3 else 2) \<le> rs_rounds r
       \<and> (\<exists>a. client_address (rn_client (vr_runner s)) = Some a
           \<and> (\<not> force_full \<and> rs_path r = ''resume'' \<and> resumed_with B profile (map ascii_upper a) (rx_store (vr_result s))
              \<or> handshake_verified B C profile (map ascii_upper a) ui))"
proof -
  have "length (round_indices profile) = (if profile = V08 then 3 else 2)" by (simp add: round_indices_def)
  then show ?thesis
    using session_sound [of B E P C profile ui force_full s] by (auto split: prod.split sum.split simp del: split_paired_All)
qed

text \<open>
  C22. The negative modes of a session that forge or replay a message, and the one that writes before Level 4, never end in a
  result: whatever the peer answers, whatever the store holds and whichever option the caller adds, the session raises.
\<close>

theorem resume_negative_never_succeeds:
  "list_all (\<lambda>mode. case run_session B E P C profile ui force_full (Some mode) replay_finish s of (Inl e, _) \<Rightarrow> True | (Inr r, _) \<Rightarrow> False)
     [''init-mac'', ''accept-mac'', ''replay-init'', ''replay-finish'', ''pre-l4'']"
proof -
  have "case run_session B E P C profile ui force_full (Some mode) replay_finish s of (Inl e, _) \<Rightarrow> True | (Inr r, _) \<Rightarrow> False"
    if "Some mode \<in> {Some ''init-mac'', Some ''accept-mac'', Some ''replay-init'', Some ''replay-finish'', Some ''pre-l4''}" for mode
    using run_session_forging_never [OF that, of B E P C profile ui force_full replay_finish s] by (auto split: prod.split sum.split)
  then show ?thesis by (simp only: list.pred_inject insertI1 insertI2 simp_thms)
qed

text \<open>
  C21. However an exchange ends, with a result, an error, a timeout or a lost link at any wait, it leaves nothing usable behind:
  the client owns neither session nor application, the session, the application and the ticket its local variables refer to
  are closed and zero, and a run that started with empty buffers has the shared secrets of ML-KEM and P-256 wiped.
\<close>

theorem resumption_closes:
  "case snd (resumption_exchange B E C profile peer allow force_full negative replay_finish ui s) of t \<Rightarrow>
     client_released (rn_client (vr_runner t)) \<and> list_all v1_session_closed (local_sessions t)
     \<and> list_all v1_application_closed (local_applications t) \<and> list_all ticket_cleared (local_tickets t)
     \<and> list_all (\<lambda>b. wiped (rn_buf (vr_runner (snd (run_session B E P C profile ui force_full negative replay_finish (new_v1_run c p locals)))) b))
         [''secret'', ''ecdh'']"
  using exchange_leaves [of B E C profile peer allow force_full negative replay_finish ui s]
    wiping_session [of "new_v1_run c p locals" B E P C profile ui force_full negative replay_finish]
  by (simp add: keeps_wiped_def new_v1_run_def new_runner_def)

text \<open>
  C20. In v1.1 no resumption secret is used before the link is attested: unless the first notification of the exchange is a
  SEC_INFO that reports Level 4 with an open gate and a 16-byte key, the whole exchange subscribes, writes the security query,
  waits and unsubscribes, and neither reads nor changes the ticket store.
\<close>

theorem resume_v11_attests_first:
  "only_attests C s (snd (resumption_exchange B E C V11 peer allow force_full negative replay_finish ui s))
     \<or> attested_v11 B C (length (bl_queue B (ops_of s)))"
  by (rule exchange_gated)

text \<open>
  C23. A full handshake does not touch what a resumption wrote into the result before it: an exchange with \<open>force_full\<close>, which
  is how a session falls back after a timeout, returns with the path it found and adds its rounds to those already counted.
  So a session that resumed, lost the reply of a round and fell back reports the path ''resume'' with a full handshake behind
  it, and more rounds than the exchange has.
\<close>

theorem resume_retry_keeps_path:
  "case resumption_exchange B E C profile peer allow True negative replay_finish ui s of
     (Inl e, _) \<Rightarrow> True
   | (Inr _, t) \<Rightarrow> rs_path (rx_result (vr_result t)) = rs_path (rx_result (vr_result s))
       \<and> rs_rounds (rx_result (vr_result t)) = rs_rounds (rx_result (vr_result s)) + (if profile = V08 then 3 else 2)"
  using exchange_secure(2) [of B E C profile peer allow True negative replay_finish ui s]
    exchange_rounds [of B E C profile peer allow True negative replay_finish ui s]
  by (cases "resumption_exchange B E C profile peer allow True negative replay_finish ui s")
    (simp add: round_indices_def rounds_of_def split: sum.split)

end
