(* ===== verification/Command_Line.thy ===== *)
theory Command_Line
  imports Phase6_Runner V1_Cp4_Runner Resume_Runner
begin

text \<open>
  The entry point of the Central, \<open>src/central/main.py\<close>: the checks on the parsed arguments, the choice of a mode,
  one function per mode that owns the connection, runs the runner of the mode and reports a verdict, and the
  interactive session of the historical flow. \<open>argparse\<close> is the standard library's: an argument record here is what its
  parser returns or would refuse (\<open>declared_ok\<close>). Standard output is a list of lines; lines that contain the text of an
  exception, a measured duration or the attestation in words are left out, and so is the log.
\<close>

section \<open>Arguments\<close>

record cli_args =
  a_device :: string
  a_no_sas_confirm :: bool
  a_v08_resume_hybrid :: bool
  a_v11_smp_l4_mlkem_resume :: bool
  a_resume_full :: bool
  a_resume_negative_test_only :: "string option"
  a_demo :: bool
  a_phase2_e2e :: bool
  a_phase3_secure :: bool
  a_phase5_auth_pq :: bool
  a_phase6_c2p :: bool
  a_phase6_bidirectional :: bool
  a_phase7_hybrid_e2e :: bool
  a_phase7_auth_hybrid :: bool
  a_v1_smp_l4_mlkem :: bool
  a_phase3_negative :: "string option"
  a_phase5_negative :: "string option"
  a_phase6_negative :: "string option"
  a_phase7_negative_test_only :: "string option"
  a_v1_negative :: "string option"
  a_v1_cp2 :: bool
  a_v1_cp3 :: bool
  a_v1_cp4 :: bool
  a_v1_unpair_first :: bool
  a_v1_pairing_timeout :: rat
  a_mtu :: "int option"
  a_log_level :: string

text \<open>The defaults.\<close>

definition DEVICE_NAME :: string where "DEVICE_NAME = ''PQ-BLE-Device''"

definition default_args :: cli_args where
  "default_args = \<lparr> a_device = DEVICE_NAME, a_no_sas_confirm = False, a_v08_resume_hybrid = False,
     a_v11_smp_l4_mlkem_resume = False, a_resume_full = False, a_resume_negative_test_only = None, a_demo = False,
     a_phase2_e2e = False, a_phase3_secure = False, a_phase5_auth_pq = False, a_phase6_c2p = False,
     a_phase6_bidirectional = False, a_phase7_hybrid_e2e = False, a_phase7_auth_hybrid = False, a_v1_smp_l4_mlkem = False,
     a_phase3_negative = None, a_phase5_negative = None, a_phase6_negative = None, a_phase7_negative_test_only = None,
     a_v1_negative = None, a_v1_cp2 = False, a_v1_cp3 = False, a_v1_cp4 = False, a_v1_unpair_first = False,
     a_v1_pairing_timeout = 90, a_mtu = None, a_log_level = ''INFO'' \<rparr>"

text \<open>What the declarations make \<open>argparse\<close> check: at most one execution mode, and the \<open>choices\<close>.\<close>

definition execution_modes :: "cli_args \<Rightarrow> bool list" where
  "execution_modes a = [a_v08_resume_hybrid a, a_v11_smp_l4_mlkem_resume a, a_demo a, a_phase2_e2e a, a_phase3_secure a,
     a_phase5_auth_pq a, a_phase6_c2p a, a_phase6_bidirectional a, a_phase7_hybrid_e2e a, a_phase7_auth_hybrid a,
     a_v1_smp_l4_mlkem a]"

definition chosen_from :: "string list \<Rightarrow> string option \<Rightarrow> bool" where
  "chosen_from choices v = (case v of None \<Rightarrow> True | Some x \<Rightarrow> x \<in> set choices)"

definition declared_ok :: "cli_args \<Rightarrow> bool" where
  "declared_ok a \<longleftrightarrow> length (filter id (execution_modes a)) \<le> 1
     \<and> chosen_from NEGATIVE_MODES (a_resume_negative_test_only a)
     \<and> chosen_from [''tamper'', ''aad'', ''replay''] (a_phase3_negative a)
     \<and> chosen_from PHASE5_NEGATIVE_MODES (a_phase5_negative a)
     \<and> chosen_from PHASE6_NEGATIVE_MODES (a_phase6_negative a)
     \<and> chosen_from PHASE7_NEGATIVE_MODES (a_phase7_negative_test_only a)
     \<and> chosen_from V1_NEGATIVE_MODES (a_v1_negative a)
     \<and> a_log_level a \<in> set [''DEBUG'', ''INFO'', ''WARNING'', ''ERROR'']"

text \<open>The truth value of an optional string.\<close>

definition truthy :: "string option \<Rightarrow> bool" where
  "truthy v = (case v of None \<Rightarrow> False | Some x \<Rightarrow> x \<noteq> [])"

text \<open>\<open>parse_args\<close>; \<open>None\<close> is \<open>parser.error\<close>, which ends the process with exit code 2.\<close>

definition new_profile :: "cli_args \<Rightarrow> bool" where
  "new_profile a \<longleftrightarrow> a_v08_resume_hybrid a \<or> a_v11_smp_l4_mlkem_resume a"

definition parse_args :: "cli_args \<Rightarrow> cli_args option" where
  "parse_args a =
     (if \<not> declared_ok a then None
      else if (a_resume_full a \<or> truthy (a_resume_negative_test_only a)) \<and> \<not> new_profile a then None
      else if new_profile a \<and> (a_no_sas_confirm a \<or> truthy (a_phase3_negative a) \<or> truthy (a_phase5_negative a)
                \<or> truthy (a_phase6_negative a) \<or> truthy (a_phase7_negative_test_only a) \<or> truthy (a_v1_negative a)
                \<or> a_v1_unpair_first a \<or> a_v1_cp2 a \<or> a_v1_cp3 a \<or> a_v1_cp4 a) then None
      else if a_resume_full a \<and> truthy (a_resume_negative_test_only a) then None
      else if a_resume_negative_test_only a = Some ''pre-l4'' \<and> \<not> a_v11_smp_l4_mlkem_resume a then None
      else if a_v1_cp4 a \<and> (\<not> a_v1_smp_l4_mlkem a \<or> a_v1_cp2 a \<or> a_v1_cp3 a \<or> a_v1_negative a \<noteq> None) then None
      else if a_v1_cp3 a \<and> (\<not> a_v1_smp_l4_mlkem a \<or> a_v1_cp2 a \<or> a_v1_negative a \<noteq> None) then None
      else if a_v1_cp2 a \<and> (\<not> a_v1_smp_l4_mlkem a \<or> a_v1_negative a \<noteq> None) then None
      else if (a_v1_negative a \<noteq> None \<or> a_v1_unpair_first a) \<and> \<not> a_v1_smp_l4_mlkem a then None
      else if a_v1_smp_l4_mlkem a \<and> a_no_sas_confirm a then None
      else if a_v1_smp_l4_mlkem a \<and> (truthy (a_phase3_negative a) \<or> truthy (a_phase5_negative a)
                \<or> truthy (a_phase6_negative a) \<or> truthy (a_phase7_negative_test_only a)) then None
      else if a_phase7_negative_test_only a \<noteq> None \<and> \<not> a_phase7_auth_hybrid a then None
      else if a_phase7_auth_hybrid a \<and> a_no_sas_confirm a then None
      else if a_phase7_auth_hybrid a \<and> (truthy (a_phase3_negative a) \<or> truthy (a_phase5_negative a)
                \<or> truthy (a_phase6_negative a)) then None
      else Some a)"

section \<open>The choice of a mode\<close>

datatype cli_mode = Refused | Legacy | Phase2 | Phase3 | Phase5_Auth | Phase6_C2P | Phase6_Bidirectional
  | Phase7_Hybrid | Phase7_Auth | V1_Smp | New_Profile

text \<open>The chain of conditions in \<open>main\<close>; \<open>Refused\<close> is \<open>return 2\<close>.\<close>

definition dispatch :: "cli_args \<Rightarrow> cli_mode" where
  "dispatch a =
     (if a_v08_resume_hybrid a \<or> a_v11_smp_l4_mlkem_resume a then New_Profile
      else if a_v1_smp_l4_mlkem a then V1_Smp
      else if a_phase3_negative a \<noteq> None \<and> \<not> a_phase3_secure a then Refused
      else if a_phase5_negative a \<noteq> None \<and> \<not> a_phase5_auth_pq a then Refused
      else if (a_phase5_auth_pq a \<or> a_phase6_c2p a \<or> a_phase6_bidirectional a \<or> a_phase7_auth_hybrid a)
              \<and> a_no_sas_confirm a then Refused
      else if a_phase6_negative a \<noteq> None \<and> \<not> a_phase6_bidirectional a then Refused
      else if a_phase6_bidirectional a then Phase6_Bidirectional
      else if a_phase7_auth_hybrid a then (if a_no_sas_confirm a then Refused else Phase7_Auth)
      else if a_phase7_hybrid_e2e a then (if a_no_sas_confirm a then Refused else Phase7_Hybrid)
      else if a_phase6_c2p a then Phase6_C2P
      else if a_phase5_auth_pq a then Phase5_Auth
      else if a_phase3_secure a then Phase3
      else if a_phase2_e2e a then Phase2
      else Legacy)"

section \<open>State and environment of a run\<close>

record cli =
  cl_client :: ble_client
  cl_out :: "string list"

text \<open>
  Everything a mode takes from outside: the packages, random values, the user at the console (the answer to a printed
  SAS, the lines typed in the interactive session), the pairing backend for a timeout, clocks and stores.
\<close>

record cli_world =
  w_bleak :: bleak
  w_third :: third_party
  w_encapsulate :: nat
  w_private :: nat
  w_urandom :: bytes
  w_iv :: bytes
  w_ivs :: "nat \<Rightarrow> bytes"
  w_challenges :: "bytes \<times> bytes"
  w_console :: "string \<Rightarrow> string"
  w_typed :: "string list"
  w_backend :: "rat \<Rightarrow> pairing_backend"
  w_pairing :: pairing_client
  w_cp3 :: cp3_env
  w_resume :: resume_env
  w_tickets :: ticket_store
  w_clock :: "nat \<Rightarrow> seconds"
  w_store :: session_store

definition printM :: "string \<Rightarrow> (cli, unit) meth" where
  "printM l = setM (\<lambda>s. s\<lparr> cl_out := cl_out s @ [l] \<rparr>)"

definition printsM :: "string list \<Rightarrow> (cli, unit) meth" where
  "printsM ls = setM (\<lambda>s. s\<lparr> cl_out := cl_out s @ ls \<rparr>)"

definition onC :: "(ble_client, 'a) meth \<Rightarrow> (cli, 'a) meth" where
  "onC m s = (let (r, c) = m (cl_client s) in (r, s\<lparr> cl_client := c \<rparr>))"

text \<open>A runner on the client, and a v1.0 runner with its first result object.\<close>

definition with_runner :: "(runner, 'a) meth \<Rightarrow> (cli, 'a) meth" where
  "with_runner m s = (let (r, u) = m (new_runner (cl_client s)) in (r, s\<lparr> cl_client := rn_client u \<rparr>))"

definition with_v1 :: "pairing_client \<Rightarrow> 'r \<Rightarrow> ('r v1_run, 'a) meth \<Rightarrow> (cli, 'a) meth" where
  "with_v1 p result m s =
     (let (r, u) = m (new_v1_run (cl_client s) p result) in (r, s\<lparr> cl_client := rn_client (vr_runner u) \<rparr>))"

definition new_client :: "cli_args \<Rightarrow> (cli, unit) meth" where
  "new_client a = setM (\<lambda>s. s\<lparr> cl_client := BLECentralClient_init (a_device a) \<rparr>)"

text \<open>\<open>try: await client.disconnect() except Exception: log\<close>.\<close>

definition quiet_disconnect :: "bleak \<Rightarrow> (cli, unit) meth" where
  "quiet_disconnect B s = (Inr (), snd (onC (client_disconnect B) s))"

text \<open>\<open>return n\<close> after printing.\<close>

definition reportM :: "string list \<Rightarrow> int \<Rightarrow> (cli, int) meth" where
  "reportM ls n = seqM (printsM ls) (retM n)"

text \<open>
  The frame of the modes 2 to 6: an exception of the scan and a device that is not found end with exit code 1; the body
  is under \<open>try ... except Exception ... finally: disconnect\<close>.
\<close>

definition connected_mode :: "bleak \<Rightarrow> cli_args \<Rightarrow> (exn \<Rightarrow> (cli, int) meth) \<Rightarrow> (cli, int) meth \<Rightarrow> (cli, int) meth" where
  "connected_mode B a handler body =
     seqM (new_client a) (\<lambda>s.
       case onC (client_scan_and_connect B) s of
         (Inl _, t) \<Rightarrow> seqM (quiet_disconnect B) (retM 1) t
       | (Inr False, t) \<Rightarrow> (Inr 1, t)
       | (Inr True, t) \<Rightarrow> finallyM (catchM (\<lambda>_. True) handler body) (quiet_disconnect B) t)"

section \<open>Formatting\<close>

definition digit :: "nat \<Rightarrow> char" where
  "digit d = ''0123456789ABCDEF'' ! d"

fun decimal :: "nat \<Rightarrow> string" where
  "decimal n = (if n < 10 then [digit n] else decimal (n div 10) @ [digit (n mod 10)])"

declare decimal.simps [simp del]

definition py_int :: "int \<Rightarrow> string" where
  "py_int n = (if n < 0 then ''-'' @ decimal (nat (- n)) else decimal (nat n))"

text \<open>\<open>f"{n:08X}"\<close> of a 32-bit value.\<close>

fun hex_digits :: "nat \<Rightarrow> nat \<Rightarrow> string" where
  "hex_digits 0 n = []"
| "hex_digits (Suc k) n = hex_digits k (n div 16) @ [digit (n mod 16)]"

text \<open>\<open>bytes.decode("ascii")\<close>; a \<open>UnicodeDecodeError\<close> is a \<open>ValueError\<close>.\<close>

definition decode_ascii :: "bytes \<Rightarrow> string result" where
  "decode_ascii bs = (if list_all (\<lambda>b. b < 128) bs then Inr (map (\<lambda>b. char_of (unat b)) bs) else Inl (ValueError ''ordinal not in range(128)''))"

section \<open>One function per mode\<close>

text \<open>\<open>_run_phase2_e2e_cli\<close>.\<close>

definition run_phase2_e2e_cli :: "cli_world \<Rightarrow> cli_args \<Rightarrow> (cli, int) meth" where
  "run_phase2_e2e_cli W a =
     connected_mode (w_bleak W) a (\<lambda>_. reportM [''ML-KEM E2E SHARED SECRET MATCH: NO''] 1) (
     bindM (with_runner (run_phase2_e2e (w_bleak W) (w_third W) (w_encapsulate W))) (\<lambda>result.
     seqM (needM (phase2_matches result) (ProtocolError ''Phase 2 runner returned mismatched diagnostic checksums'')) (
     reportM [[],
       ''Central TEST-ONLY shared-secret diagnostic checksum: 0x'' @ hex_digits 8 (nat (r2_central_checksum result)),
       ''Peripheral TEST-ONLY shared-secret diagnostic checksum: 0x'' @ hex_digits 8 (nat (r2_peripheral_checksum result)),
       ''ML-KEM E2E SHARED SECRET MATCH: YES'', [],
       ''The TEST-ONLY shared-secret diagnostic checksum is not '' @ ''authentication, not a KDF, not cryptographic key confirmation, ''
         @ ''and not part of the final protocol.''] 0)))"

text \<open>\<open>_run_phase3_secure_cli\<close>.\<close>

definition run_phase3_secure_cli :: "cli_world \<Rightarrow> cli_args \<Rightarrow> (cli, int) meth" where
  "run_phase3_secure_cli W a =
     connected_mode (w_bleak W) a (\<lambda>_. reportM [[], ''PQ-BLE SECURE CHANNEL E2E: FAIL'', []] 1) (
     bindM (with_runner (run_phase3_secure (w_bleak W) (w_third W) (w_encapsulate W) (w_urandom W) (a_phase3_negative a))) (\<lambda>result.
     seqM (printsM [[], ''ML-KEM key establishment: PASS'', ''HKDF-SHA256 session-key derivation: PASS'',
       ''AES-256-GCM authentication: PASS'']) (
     bindM (liftR (decode_ascii (r3_plaintext result))) (\<lambda>plaintext.
     reportM [''Decrypted payload: '' @ plaintext,
       ''Authenticated secure-wire length: '' @ decimal (r3_wire_size result) @ '' bytes'', [],
       ''PQ-BLE SECURE CHANNEL E2E: PASS'', []] 0))))"

text \<open>
  \<open>_run_phase5_auth_pq_cli\<close>. The three handlers print the text of the exception, then the verdict.
\<close>

definition phase5_handler :: "cli_args \<Rightarrow> exn \<Rightarrow> (cli, int) meth" where
  "phase5_handler a e =
     (case e of
        NegativeTestPassed _ \<Rightarrow> reportM [[], ''PQ-BLE PHASE5 NEGATIVE TEST: PASS'', []] 0
      | _ \<Rightarrow> reportM [[], if a_phase5_negative a \<noteq> None then ''PQ-BLE PHASE5 NEGATIVE TEST: FAIL''
                             else ''PQ-BLE AUTHENTICATED HANDSHAKE E2E: FAIL'', []] 1)"

definition run_phase5_auth_pq_cli :: "cli_world \<Rightarrow> cli_args \<Rightarrow> (cli, int) meth" where
  "run_phase5_auth_pq_cli W a =
     connected_mode (w_bleak W) a (phase5_handler a) (
     bindM (with_runner (run_phase5_auth_pq (w_bleak W) (w_third W) (w_encapsulate W) (w_urandom W)
              (Sas5Console (w_console W)) (a_phase5_negative a))) (\<lambda>result.
     seqM (needM (a_phase5_negative a = None)
             (ProtocolError ''NEGATIVE TEST FAIL: corrupted authentication unexpectedly completed'')) (
     seqM (printsM [[], ''Central FINISHED sent'', ''Peripheral FINISHED verified: PASS'',
       ''Authenticated PQ handshake: PASS'', ''AES-256-GCM authentication: PASS'']) (
     bindM (liftR (decode_ascii (r5_plaintext result))) (\<lambda>plaintext.
     reportM [''Decrypted payload: '' @ plaintext, [], ''PQ-BLE AUTHENTICATED HANDSHAKE E2E: PASS'', []] 0)))))"

text \<open>\<open>_run_phase6_c2p_cli\<close>.\<close>

definition run_phase6_c2p_cli :: "cli_world \<Rightarrow> cli_args \<Rightarrow> (cli, int) meth" where
  "run_phase6_c2p_cli W a =
     connected_mode (w_bleak W) a (\<lambda>_. reportM [[], ''PQ-BLE PHASE6 C->P SECURE TRAFFIC: FAIL'', []] 1) (
     bindM (with_runner (run_phase6_c2p (w_bleak W) (w_third W) (w_encapsulate W) (w_urandom W) (w_iv W) (w_ivs W)
              (Sas5Console (w_console W)))) (\<lambda>result.
     bindM (liftR (case r6_round_trips result of [] \<Rightarrow> Inl IndexError | t # _ \<Rightarrow> Inr t)) (\<lambda>round_trip.
     seqM (printsM [[], ''Authenticated PQ handshake: PASS'', ''Directional traffic keys derived: PASS'']) (
     bindM (liftR (decode_ascii (rt_c2p_plaintext round_trip))) (\<lambda>ping.
     seqM (printsM [''Central secure message sent: '' @ ping, ''C->P sequence: '' @ py_int (rt_c2p_sequence round_trip),
       ''C->P secure-wire length: '' @ decimal (rt_c2p_wire_size round_trip) @ '' bytes'']) (
     bindM (liftR (decode_ascii (rt_p2c_plaintext round_trip))) (\<lambda>pong.
     reportM [''Peripheral secure response: '' @ pong, ''P->C sequence: '' @ py_int (rt_p2c_sequence round_trip),
       ''Bidirectional AES-GCM verification: PASS'', [], ''PQ-BLE PHASE6 SINGLE ROUND-TRIP: PASS'', []] 0)))))))"

text \<open>\<open>_run_phase6_bidirectional_cli\<close>; the last handler does not look at the negative test.\<close>

fun print_round_trips :: "nat \<Rightarrow> phase6_round_trip list \<Rightarrow> (cli, unit) meth" where
  "print_round_trips index [] = retM ()"
| "print_round_trips index (t # ts) =
     seqM (printM (''Round '' @ decimal index @ '':'')) (
     bindM (liftR (decode_ascii (rt_c2p_plaintext t))) (\<lambda>ping.
     seqM (printM (''  C->P seq='' @ py_int (rt_c2p_sequence t) @ '': '' @ ping)) (
     bindM (liftR (decode_ascii (rt_p2c_plaintext t))) (\<lambda>pong.
     seqM (printsM [''  P->C seq='' @ py_int (rt_p2c_sequence t) @ '': '' @ pong, ''  AES-256-GCM: PASS'']) (
     print_round_trips (index + 1) ts)))))"

definition phase6_handler :: "cli_args \<Rightarrow> exn \<Rightarrow> (cli, int) meth" where
  "phase6_handler a e =
     (case e of
        NegativeTestPassed _ \<Rightarrow> reportM [[], ''PQ-BLE PHASE6 NEGATIVE TEST: PASS'', []] 0
      | ProtocolError _ \<Rightarrow> reportM [[], if a_phase6_negative a \<noteq> None then ''PQ-BLE PHASE6 NEGATIVE TEST: FAIL''
                             else ''PQ-BLE BIDIRECTIONAL SECURE CHANNEL E2E: FAIL'', []] 1
      | _ \<Rightarrow> reportM [[], ''PQ-BLE BIDIRECTIONAL SECURE CHANNEL E2E: FAIL'', []] 1)"

definition run_phase6_bidirectional_cli :: "cli_world \<Rightarrow> cli_args \<Rightarrow> (cli, int) meth" where
  "run_phase6_bidirectional_cli W a =
     connected_mode (w_bleak W) a (phase6_handler a) (
     bindM (with_runner (run_phase6_bidirectional (w_bleak W) (w_third W) (w_encapsulate W) (w_urandom W) (w_iv W) (w_ivs W) 3
              (Sas5Console (w_console W)) (a_phase6_negative a))) (\<lambda>result.
     seqM (needM (a_phase6_negative a = None)
             (ProtocolError ''NEGATIVE TEST FAIL: deliberately invalid Phase 6 traffic unexpectedly completed'')) (
     seqM (printsM [[], ''Authenticated PQ handshake: PASS'', ''Directional traffic keys derived: PASS'', []]) (
     seqM (print_round_trips 0 (r6_round_trips result)) (
     reportM [[], ''Central sent:     '' @ decimal (length (r6_round_trips result)),
       ''Central received: '' @ decimal (length (r6_round_trips result)), [],
       ''PQ-BLE BIDIRECTIONAL SECURE CHANNEL E2E: PASS'', []] 0)))))"

text \<open>The result object a run starts with is replaced by its own before it is read.\<close>

definition no_security_info :: v1_security_info where
  "no_security_info = \<lparr> si_level = 0, si_secure_connections = False, si_authenticated = False, si_gate_open = False,
     si_enc_key_size = 0, si_profile = 0 \<rparr>"

text \<open>\<open>_run_resumption_cli\<close>: the final disconnect is not guarded.\<close>

definition run_resumption_cli :: "cli_world \<Rightarrow> cli_args \<Rightarrow> (cli, int) meth" where
  "run_resumption_cli W a =
     (let profile = (if a_v08_resume_hybrid a then V08 else V11)
      in seqM (new_client a) (finallyM (catchM (\<lambda>_. True)
           (\<lambda>e. retM (case e of NegativeTestPassed _ \<Rightarrow> 0 | _ \<Rightarrow> 1)) (
         bindM (onC (client_scan_and_connect (w_bleak W))) (\<lambda>connected.
         if \<not> connected then retM 1
         else bindM (with_v1 (w_pairing W) (session_result (Result_init profile) (w_tickets W) [] no_security_info)
                  (run_session (w_bleak W) (w_resume W) (w_backend W (a_v1_pairing_timeout a)) (w_third W) profile
                     (Sas5Console (w_console W)) (a_resume_full a) (a_resume_negative_test_only a) None)) (\<lambda>result.
              reportM ((''v'' @ (if profile = V08 then ''0.8'' else ''1.1'') @ '' '' @ rs_scenario result @ '' '' @ rs_path result
                  @ '': APP_SECURE, '' @ decimal (rs_rounds result) @ '' authenticated round trips; ticket saved=''
                  @ (if rs_ticket_saved result then ''True'' else ''False''))
                # (case rs_fallback_reason result of
                     None \<Rightarrow> []
                   | Some reason \<Rightarrow> if reason = [] then [] else [''Full-handshake fallback: '' @ reason])) 0))))
         (onC (client_disconnect (w_bleak W)))))"

subsection \<open>v1.0\<close>

datatype v1_any_result = Cp1_Result v1_cp1_result | Cp2_Result v1_cp2_result | Cp3_Result v1_cp3_result
  | Cp4_Result v1_cp4_result

fun any_base :: "v1_any_result \<Rightarrow> v1_cp1_result" where
  "any_base (Cp1_Result r) = v1_cp1_result.truncate r"
| "any_base (Cp2_Result r) = v1_cp1_result.truncate r"
| "any_base (Cp3_Result r) = v1_cp1_result.truncate r"
| "any_base (Cp4_Result r) = v1_cp1_result.truncate r"

definition v1_cp3_complete :: "'z v1_cp3_result_scheme \<Rightarrow> bool" where
  "v1_cp3_complete r \<longleftrightarrow> c3_start_sent r \<and> c3_transcript_match r \<and> c3_finished_c_sent r \<and> c3_finished_p_verified r
     \<and> c3_app_secure r"

definition positive_marker :: "cli_args \<Rightarrow> string" where
  "positive_marker a =
     (if a_v1_cp4 a then ''PQ-BLE V1.0 CP4 AES-256-GCM BIDIRECTIONAL DATA''
      else if a_v1_cp3 a then ''PQ-BLE V1.0 CP3 TRANSCRIPT + FINISHED''
      else if a_v1_cp2 a then ''PQ-BLE V1.0 CP2 ML-KEM-L4 INTEROPERABILITY''
      else ''PQ-BLE V1.0 CP1 SMP-L4 FOUNDATION'')"

definition negative_name :: "string option \<Rightarrow> string" where
  "negative_name v = (case v of None \<Rightarrow> ''None'' | Some m \<Rightarrow> m)"

text \<open>\<open>run = run_v1_cp4 if cp4 else run_v1_cp3 if cp3 else ...\<close>.\<close>

definition run_v1_selected :: "cli_world \<Rightarrow> cli_args \<Rightarrow> (cli, v1_any_result) meth" where
  "run_v1_selected W a =
     (let B = w_bleak W; P = w_backend W (a_v1_pairing_timeout a); C = w_third W; r = w_encapsulate W; sid = w_urandom W;
          neg = a_v1_negative a; unpair_first = a_v1_unpair_first a
      in if a_v1_cp4 a
         then bindM (with_v1 (w_pairing W) (V1CP4Result [] no_security_info)
                (run_v1_cp4 B (w_cp3 W) P C r sid (w_challenges W) neg unpair_first)) (\<lambda>x. retM (Cp4_Result x))
         else if a_v1_cp3 a
         then bindM (with_v1 (w_pairing W) (V1CP3Result [] no_security_info)
                (run_v1_cp3 B (w_cp3 W) P C r sid neg unpair_first)) (\<lambda>x. retM (Cp3_Result x))
         else if a_v1_cp2 a
         then bindM (with_v1 (w_pairing W) (V1CP2Result [] no_security_info)
                (run_v1_cp2 B P C r sid neg unpair_first)) (\<lambda>x. retM (Cp2_Result x))
         else bindM (with_v1 (w_pairing W) (V1CP1Result [] no_security_info)
                (run_v1_cp1 B P C r neg unpair_first)) (\<lambda>x. retM (Cp1_Result x)))"

text \<open>What is checked on the client before a CP3 or CP4 success is reported.\<close>

definition session_reportable :: "bleak \<Rightarrow> ble_client \<Rightarrow> bool" where
  "session_reportable B c \<longleftrightarrow> (case bc_v1_cp3_session c of None \<Rightarrow> False
     | Some session \<Rightarrow> session_state session = HS_APP_SECURE \<and> client_is_connected B c \<and> bc_client c = bc_v1_cp3_link c)"

definition rounds_reportable :: "nat \<Rightarrow> ble_client \<Rightarrow> unit result" where
  "rounds_reportable rounds c =
     (let incomplete = ProtocolError ''CP4 returned without two authenticated rounds on a live subscription''
      in if rounds \<noteq> 2 then Inl incomplete
         else case bc_v1_cp4_session c of
           None \<Rightarrow> Inl incomplete
         | Some (V1Hybrid _) \<Rightarrow> Inl AttributeError
         | Some (V1Cp4 app) \<Rightarrow> requireR (ca_tx_c2p app = 2 \<and> ca_rx_p2c app = 2 \<and> bc_v1_notify_link c = bc_client c) incomplete)"

definition report_cp3 :: "bleak \<Rightarrow> bool \<Rightarrow> (cli, unit) meth" where
  "report_cp3 B done_all =
     seqM (needM done_all (ProtocolError ''CP3 returned without both FINISHED and APP_SECURE'')) (
     seqM (onC (readM (\<lambda>c. requireR (session_reportable B c) (ProtocolError ''CP3 connection/session invalidated before reporting'')))) (
     printsM [''SMP Security Mode 1 Level 4: VERIFIED'', ''ML-KEM public key: 1184 B'', ''ML-KEM ciphertext: 1088 B'',
       ''START_CP3: SENT'', ''READY_CP3: RECEIVED'', ''Transcript hash match: YES'', ''FINISHED_C: SENT'',
       ''FINISHED_C verification on DK: PASS (confirmed by valid FINISHED_P)'', ''FINISHED_P: RECEIVED'',
       ''FINISHED_P verification on Central: PASS'', ''K_APP_C2P derived'', ''K_APP_P2C derived'']))"

fun report_checkpoint :: "bleak \<Rightarrow> v1_any_result \<Rightarrow> (cli, unit) meth" where
  "report_checkpoint B (Cp1_Result r) = retM ()"
| "report_checkpoint B (Cp2_Result r) =
     seqM (needM (c2_diagnostic_match r \<and> c2_start_sent r \<and> c2_ready_received r)
             (ProtocolError ''CP2 returned without a verified diagnostic exchange'')) (
     printsM [''SMP Security Mode 1 Level 4: VERIFIED'', ''ML-KEM public key: 1184 B'', ''ML-KEM ciphertext: 1088 B'',
       ''ML-KEM shared secret: 32 B (value never logged)'', ''START_V1: SENT'', ''READY_V1: RECEIVED'',
       ''CP2 diagnostic match: YES (TEST ONLY)''])"
| "report_checkpoint B (Cp3_Result r) = seqM (report_cp3 B (v1_cp3_complete r)) (printM ''Application state: APP_SECURE'')"
| "report_checkpoint B (Cp4_Result r) =
     seqM (report_cp3 B (v1_cp3_complete r)) (
     seqM (onC (readM (rounds_reportable (c4_authenticated_rounds r)))) (
     printsM [''CP4 C2P PING seq=0: SENT'', ''CP4 P2C PONG seq=0: AUTHENTICATED'',
       ''CP4 C2P PING seq=1: SENT'', ''CP4 P2C PONG seq=1: AUTHENTICATED'', ''Application state: APP_SECURE'']))"

text \<open>The body of \<open>_run_v1_smp_l4_mlkem_cli\<close>. \<open>None\<close>: the function goes on after the \<open>finally\<close>.\<close>

definition v1_body :: "cli_world \<Rightarrow> cli_args \<Rightarrow> (cli, int option) meth" where
  "v1_body W a =
     bindM (onC (client_scan_and_connect (w_bleak W))) (\<lambda>connected.
     if \<not> connected
     then seqM (if a_v1_cp2 a \<or> a_v1_cp3 a \<or> a_v1_cp4 a then printM (positive_marker a @ '': FAIL'') else retM ()) (retM (Some 1))
     else bindM (run_v1_selected W a) (\<lambda>result.
          seqM (needM (a_v1_negative a = None) (ProtocolError ''CP1 negative test returned a positive result'')) (
          seqM (printsM ([[], ''Scenario: '' @ c1_scenario (any_base result)]
            @ map (\<lambda>(name, reason). ''Pre-L4 '' @ name @ '': DENIED ('' @ reason @ '')'') (c1_pre_l4_denials (any_base result)))) (
          seqM (report_checkpoint (w_bleak W) result) (
          seqM (printsM [[], positive_marker a @ '': PASS'', []]) (
          retM (Some 0)))))))"

text \<open>\<open>V1NegativeTestInconclusive\<close>.\<close>

definition is_inconclusive :: "exn \<Rightarrow> bool" where
  "is_inconclusive e = (case e of ProtocolError m \<Rightarrow> take 12 m = ''INCONCLUSIVE'' | _ \<Rightarrow> False)"

definition v1_handler :: "cli_args \<Rightarrow> exn \<Rightarrow> (cli, int option) meth" where
  "v1_handler a e =
     (let neg = a_v1_negative a; name = negative_name neg
      in if (case e of NegativeTestPassed _ \<Rightarrow> True | _ \<Rightarrow> False) then retM (if neg = None then Some 1 else None)
         else if is_inconclusive e
         then seqM (printsM ([[], ''PQ-BLE V1.0 CP1 NEGATIVE TEST: INCONCLUSIVE ('' @ name @ '')'']
                @ (if neg = Some ''just-works''
                   then [''CONFIRM_ONLY FAIL-CLOSED: INCONCLUSIVE (insufficient automated evidence)'',
                         ''RADIO-LEVEL JUST WORKS: NOT DEMONSTRATED''] else []) @ [[]])) (retM (Some 1))
         else seqM (printsM [[], if neg \<noteq> None then ''PQ-BLE V1.0 CP1 NEGATIVE TEST: FAIL ('' @ name @ '')''
                                 else positive_marker a @ '': FAIL'', []]) (retM (Some 1)))"

text \<open>The \<open>finally\<close> block; \<open>app\<close> and \<open>session\<close> are looked up on the client.\<close>

definition v1_finally :: "bleak \<Rightarrow> cli_args \<Rightarrow> (cli, unit) meth" where
  "v1_finally B a =
     seqM (if a_v1_cp3 a \<or> a_v1_cp4 a then onC (setM (\<lambda>c. clear_owned_session (clear_owned_application c))) else retM ())
       (quiet_disconnect B)"

definition run_v1_smp_l4_mlkem_cli :: "cli_world \<Rightarrow> cli_args \<Rightarrow> (cli, int) meth" where
  "run_v1_smp_l4_mlkem_cli W a =
     seqM (new_client a) (
     bindM (finallyM (catchM (\<lambda>_. True) (v1_handler a) (v1_body W a)) (v1_finally (w_bleak W) a)) (\<lambda>returned.
     case returned of
       Some n \<Rightarrow> retM n
     | None \<Rightarrow> reportM ((''PQ-BLE V1.0 CP1 NEGATIVE TEST: PASS ('' @ negative_name (a_v1_negative a) @ '')'')
           # (if a_v1_negative a = Some ''just-works''
              then [''CONFIRM_ONLY FAIL-CLOSED: PASS'', ''RADIO-LEVEL JUST WORKS: NOT DEMONSTRATED''] else [])) 0))"

subsection \<open>v0.7\<close>

definition run_phase7_hybrid_e2e_cli :: "cli_world \<Rightarrow> cli_args \<Rightarrow> (cli, int) meth" where
  "run_phase7_hybrid_e2e_cli W a =
     seqM (new_client a) (finallyM (catchM (\<lambda>_. True)
         (\<lambda>_. reportM [''PQ-BLE PHASE7 HYBRID KEY AGREEMENT E2E: FAIL''] 1) (
       bindM (onC (client_scan_and_connect (w_bleak W))) (\<lambda>connected.
       seqM (needM connected (RuntimeError ''Could not find device'')) (
       bindM (with_runner (run_phase7_hybrid_e2e (w_bleak W) (w_third W) (w_encapsulate W) (w_private W) (w_urandom W))) (\<lambda>_.
       reportM [''PQ-BLE PHASE7 HYBRID KEY AGREEMENT E2E: PASS''] 0)))))
     (quiet_disconnect (w_bleak W)))"

text \<open>\<open>_run_phase7_auth_hybrid_cli\<close>.\<close>

definition phase7_body :: "cli_world \<Rightarrow> cli_args \<Rightarrow> (cli, int option) meth" where
  "phase7_body W a =
     bindM (onC (client_scan_and_connect (w_bleak W))) (\<lambda>connected.
     if \<not> connected then retM (Some 1)
     else bindM (with_runner (run_phase7_authenticated_hybrid (w_bleak W) (w_third W) (w_encapsulate W) (w_private W)
                   (w_urandom W) (w_iv W) (w_ivs W) (Sas5Console (w_console W)) 10 (a_phase7_negative_test_only a))) (\<lambda>result.
          seqM (needM (a_phase7_negative_test_only a = None) (ProtocolError ''CP4 negative test returned a positive result'')) (
          seqM (printsM [[], ''ML-KEM + P-256 hybrid key agreement: PASS'', ''SAS: '' @ r7_sas result,
            ''FINISHED_C / FINISHED_P: PASS'',
            ''Authenticated bidirectional traffic: PASS ('' @ decimal (r7_rounds result) @ '' rounds)'', [],
            ''PQ-BLE PHASE7 AUTHENTICATED HYBRID SECURE CHANNEL E2E: PASS'', []]) (
          retM (Some 0)))))"

definition phase7_handler :: "cli_args \<Rightarrow> exn \<Rightarrow> (cli, int option) meth" where
  "phase7_handler a e =
     (let neg = a_phase7_negative_test_only a
      in if (case e of NegativeTestPassed _ \<Rightarrow> True | _ \<Rightarrow> False) then retM (if neg = None then Some 1 else None)
         else seqM (printsM (if neg \<noteq> None then [[], ''PQ-BLE PHASE7 CP4 NEGATIVE TEST: FAIL ('' @ negative_name neg @ '')'']
                else [[], ''PQ-BLE PHASE7 AUTHENTICATED HYBRID SECURE CHANNEL E2E: FAIL'', []])) (retM (Some 1)))"

text \<open>A failing disconnect turns a negative test into a failure: its \<open>return\<close> is inside the \<open>finally\<close>.\<close>

definition phase7_finally :: "bleak \<Rightarrow> cli_args \<Rightarrow> (cli, int option) meth \<Rightarrow> (cli, int option) meth" where
  "phase7_finally B a m s =
     (let (r, t) = m s; neg = a_phase7_negative_test_only a
      in case onC (client_disconnect B) t of
           (Inr _, u) \<Rightarrow> (r, u)
         | (Inl _, u) \<Rightarrow> if neg = None then (r, u)
             else seqM (printM (''PQ-BLE PHASE7 CP4 NEGATIVE TEST: FAIL ('' @ negative_name neg @ ''; disconnect)''))
                    (retM (Some 1)) u)"

definition run_phase7_auth_hybrid_cli :: "cli_world \<Rightarrow> cli_args \<Rightarrow> (cli, int) meth" where
  "run_phase7_auth_hybrid_cli W a =
     seqM (new_client a) (
     bindM (phase7_finally (w_bleak W) a (catchM (\<lambda>_. True) (phase7_handler a) (phase7_body W a))) (\<lambda>returned.
     case returned of
       Some n \<Rightarrow> retM n
     | None \<Rightarrow> reportM [''PQ-BLE PHASE7 CP4 NEGATIVE TEST: PASS ('' @ negative_name (a_phase7_negative_test_only a) @ '')''] 0))"

section \<open>The historical flow of \<open>main\<close>\<close>

text \<open>
  From the secure channel on, the state is the channel and standard output. \<open>print_received\<close> only takes messages from the
  queue to print them and is left out, with the banner of the interactive session (not Latin-1 text).
\<close>

record legacy_session =
  lg_channel :: central_channel
  lg_out :: "string list"

definition onG :: "(central_channel, 'a) meth \<Rightarrow> (legacy_session, 'a) meth" where
  "onG m s = (let (r, ch) = m (lg_channel s) in (r, s\<lparr> lg_channel := ch \<rparr>))"

definition lg_print :: "string list \<Rightarrow> (legacy_session, unit) meth" where
  "lg_print ls = setM (\<lambda>s. s\<lparr> lg_out := lg_out s @ ls \<rparr>)"

text \<open>\<open>channel.receive(timeout)\<close>, with raw notifications.\<close>

definition receive_raw :: "cli_world \<Rightarrow> (central_channel, bytes option) meth" where
  "receive_raw W ch = (let (m, ch) = central_receive (w_third W) False (bl_polls (w_bleak W) (bc_ops (cc_client ch))) ch
                       in (Inr m, ch))"

definition legacy_demo :: "cli_world \<Rightarrow> (legacy_session, int) meth" where
  "legacy_demo W =
     seqM (onG (central_start_receiving (w_bleak W))) (
     seqM (onG (ccM (send_control (w_bleak W) (ascii ''START'')))) (
     bindM (onG (receive_raw W)) (\<lambda>msg.
     seqM (case msg of
             None \<Rightarrow> retM ()
           | Some m \<Rightarrow> if m = [] then retM ()
               else lg_print [[], ''Raw demo notification received'', ''   Length: '' @ decimal (length m) @ '' bytes'',
                      ''   HEX: '' @ bytes_hex m, [], ''[OK] BLE/GATT transport validation completed.'']) (
     retM 0))))"

text \<open>\<open>str.encode()\<close> of Latin-1 text.\<close>

definition utf8 :: "string \<Rightarrow> bytes" where
  "utf8 s = concat (map (\<lambda>c. let n = of_char c :: nat
     in if n < 128 then [word_of_nat n] else [word_of_nat (192 + n div 64), word_of_nat (128 + n mod 64)]) s)"

text \<open>The interactive loop over the lines the user types, then end of input.\<close>

fun interactive_loop :: "cli_world \<Rightarrow> nat \<Rightarrow> string list \<Rightarrow> (legacy_session, unit) meth" where
  "interactive_loop W i [] = retM ()"
| "interactive_loop W i (message # typed) =
     (if map latin1_lower message = ''quit'' then retM ()
      else if py_strip message = [] then interactive_loop W i typed
      else seqM (onG (central_send (w_bleak W) (w_third W) (w_ivs W i) (utf8 message))) (
           seqM (lg_print [''   Inviato '' @ decimal (length message) @ '' byte cifrati'']) (
           interactive_loop W (i + 1) typed)))"

definition legacy_traffic :: "cli_world \<Rightarrow> cli_args \<Rightarrow> (legacy_session, int) meth" where
  "legacy_traffic W a =
     (if a_demo a then legacy_demo W
      else seqM (onG (central_start_receiving (w_bleak W))) (seqM (interactive_loop W 0 (w_typed W)) (retM 0)))"

text \<open>The callback that \<open>--no-sas-confirm\<close> installs.\<close>

definition legacy_sas :: "cli_world \<Rightarrow> cli_args \<Rightarrow> sas_prompt" where
  "legacy_sas W a = (if a_no_sas_confirm a then SasCallback (\<lambda>_ _. Inr True) else SasConsole (w_console W))"

definition is_RuntimeError :: "exn \<Rightarrow> bool" where
  "is_RuntimeError e = (case e of RuntimeError _ \<Rightarrow> True | Phase5StateError _ \<Rightarrow> True | ProtocolError _ \<Rightarrow> True
     | NegativeTestPassed _ \<Rightarrow> True | _ \<Rightarrow> False)"

text \<open>The \<open>try\<close> block: handshake, channel, traffic; with the \<open>finally\<close> of a channel that was set up.\<close>

definition legacy_body :: "cli_world \<Rightarrow> cli_args \<Rightarrow> session_store \<Rightarrow> (cli, int) meth" where
  "legacy_body W a store s =
     (case CentralHandshake_run (w_bleak W) (w_third W) (\<lambda>i. w_clock W (i + 3)) (w_encapsulate W) (w_urandom W)
             (legacy_sas W a) (CentralHandshake_init (cl_client s) (Some store)) of
        (Inl e, h) \<Rightarrow> finallyM (catchM is_RuntimeError (\<lambda>_. retM 1) (liftR (Inl e))) (onC (client_disconnect (w_bleak W)))
                        (s\<lparr> cl_client := hc_client h \<rparr>)
      | (Inr session_key, h) \<Rightarrow>
          (case CentralSecureChannel_init session_key (hc_client h) (hb_session_id h) of
             Inl e \<Rightarrow> finallyM (catchM is_RuntimeError (\<lambda>_. retM 1) (liftR (Inl e))) (onC (client_disconnect (w_bleak W)))
                        (s\<lparr> cl_client := hc_client h \<rparr>)
           | Inr channel \<Rightarrow>
               (let (r, g) = finallyM (catchM is_RuntimeError (\<lambda>_. retM 1) (legacy_traffic W a))
                               (seqM (onG (central_stop (w_bleak W))) (onG (ccM (client_disconnect (w_bleak W)))))
                               \<lparr> lg_channel = channel, lg_out = cl_out s \<rparr>
                in (r, s\<lparr> cl_client := cc_client (lg_channel g), cl_out := lg_out g \<rparr>))))"

definition run_legacy :: "cli_world \<Rightarrow> cli_args \<Rightarrow> (cli, int) meth" where
  "run_legacy W a =
     (let store = snd (SessionStore_count (w_clock W 0) (w_store W));
          (count, store) = SessionStore_count (w_clock W 1) store;
          store = (if 0 < count then snd (SessionStore_list_ids (w_clock W 2) store) else store)
      in seqM (new_client a) (
         bindM (onC (client_scan_and_connect (w_bleak W))) (\<lambda>connected.
         if \<not> connected then retM 1 else legacy_body W a store)))"

section \<open>The program\<close>

fun run_mode :: "cli_mode \<Rightarrow> cli_world \<Rightarrow> cli_args \<Rightarrow> (cli, int) meth" where
  "run_mode Refused W a = retM 2"
| "run_mode Legacy W a = run_legacy W a"
| "run_mode Phase2 W a = run_phase2_e2e_cli W a"
| "run_mode Phase3 W a = run_phase3_secure_cli W a"
| "run_mode Phase5_Auth W a = run_phase5_auth_pq_cli W a"
| "run_mode Phase6_C2P W a = run_phase6_c2p_cli W a"
| "run_mode Phase6_Bidirectional W a = run_phase6_bidirectional_cli W a"
| "run_mode Phase7_Hybrid W a = run_phase7_hybrid_e2e_cli W a"
| "run_mode Phase7_Auth W a = run_phase7_auth_hybrid_cli W a"
| "run_mode V1_Smp W a = run_v1_smp_l4_mlkem_cli W a"
| "run_mode New_Profile W a = run_resumption_cli W a"

text \<open>\<open>sys.exit(asyncio.run(main()))\<close> on the given arguments, in a new process; the result is the exit code.\<close>

definition new_process :: cli where
  "new_process = \<lparr> cl_client = BLECentralClient_init [], cl_out = [] \<rparr>"

definition main :: "cli_world \<Rightarrow> cli_args \<Rightarrow> int result \<times> cli" where
  "main W args = (case parse_args args of None \<Rightarrow> (Inr 2, new_process) | Some a \<Rightarrow> run_mode (dispatch a) W a new_process)"

section \<open>Lemmas\<close>

subsection \<open>Which mode runs\<close>

text \<open>The option of a mode; the historical flow is what is left.\<close>

fun mode_option :: "cli_mode \<Rightarrow> cli_args \<Rightarrow> bool" where
  "mode_option Refused a = True"
| "mode_option Legacy a = (filter id (execution_modes (a\<lparr> a_demo := False \<rparr>)) = [])"
| "mode_option Phase2 a = a_phase2_e2e a"
| "mode_option Phase3 a = a_phase3_secure a"
| "mode_option Phase5_Auth a = a_phase5_auth_pq a"
| "mode_option Phase6_C2P a = a_phase6_c2p a"
| "mode_option Phase6_Bidirectional a = a_phase6_bidirectional a"
| "mode_option Phase7_Hybrid a = a_phase7_hybrid_e2e a"
| "mode_option Phase7_Auth a = a_phase7_auth_hybrid a"
| "mode_option V1_Smp a = a_v1_smp_l4_mlkem a"
| "mode_option New_Profile a = new_profile a"

text \<open>An option that was given belongs to the mode.\<close>

definition only_for :: "cli_mode \<Rightarrow> bool \<Rightarrow> cli_mode \<Rightarrow> bool" where
  "only_for owner given m \<longleftrightarrow> (given \<longrightarrow> m = owner)"

definition mode_permitted :: "cli_args \<Rightarrow> cli_mode \<Rightarrow> bool" where
  "mode_permitted a m \<longleftrightarrow> mode_option m a
     \<and> (a_no_sas_confirm a \<longrightarrow> m \<in> {Legacy, Phase2, Phase3})
     \<and> only_for Phase3 (a_phase3_negative a \<noteq> None) m \<and> only_for Phase5_Auth (a_phase5_negative a \<noteq> None) m
     \<and> only_for Phase6_Bidirectional (a_phase6_negative a \<noteq> None) m
     \<and> only_for Phase7_Auth (a_phase7_negative_test_only a \<noteq> None) m \<and> only_for V1_Smp (a_v1_negative a \<noteq> None) m
     \<and> only_for New_Profile (a_resume_negative_test_only a \<noteq> None \<or> a_resume_full a) m
     \<and> only_for V1_Smp (a_v1_cp2 a \<or> a_v1_cp3 a \<or> a_v1_cp4 a \<or> a_v1_unpair_first a) m
     \<and> length (filter id [a_v1_cp2 a, a_v1_cp3 a, a_v1_cp4 a, a_v1_negative a \<noteq> None]) \<le> 1
     \<and> \<not> (a_resume_full a \<and> a_resume_negative_test_only a \<noteq> None)"

lemma truthy_chosen:
  "chosen_from choices v \<Longrightarrow> [] \<notin> set choices \<Longrightarrow> truthy v \<longleftrightarrow> v \<noteq> None"
  by (auto simp: chosen_from_def truthy_def split: option.splits)

lemma parsed_args: "parse_args args = Some a \<Longrightarrow> a = args"
  by (simp add: parse_args_def split: if_splits)

lemma declared_truthy:
  assumes "declared_ok a"
  shows "truthy (a_resume_negative_test_only a) \<longleftrightarrow> a_resume_negative_test_only a \<noteq> None"
    "truthy (a_phase3_negative a) \<longleftrightarrow> a_phase3_negative a \<noteq> None" "truthy (a_phase5_negative a) \<longleftrightarrow> a_phase5_negative a \<noteq> None"
    "truthy (a_phase6_negative a) \<longleftrightarrow> a_phase6_negative a \<noteq> None"
    "truthy (a_phase7_negative_test_only a) \<longleftrightarrow> a_phase7_negative_test_only a \<noteq> None"
    "truthy (a_v1_negative a) \<longleftrightarrow> a_v1_negative a \<noteq> None"
proof -
  have "[] \<notin> set NEGATIVE_MODES" "[] \<notin> set [''tamper'', ''aad'', ''replay'']" "[] \<notin> set PHASE5_NEGATIVE_MODES"
    "[] \<notin> set PHASE6_NEGATIVE_MODES" "[] \<notin> set PHASE7_NEGATIVE_MODES" "[] \<notin> set V1_NEGATIVE_MODES"
    by (simp_all add: NEGATIVE_MODES_def PHASE5_NEGATIVE_MODES_def PHASE6_NEGATIVE_MODES_def PHASE7_NEGATIVE_MODES_def
        V1_NEGATIVE_MODES_def)
  note c = this [THEN truthy_chosen [rotated]]
  show "truthy (a_resume_negative_test_only a) \<longleftrightarrow> a_resume_negative_test_only a \<noteq> None"
    "truthy (a_phase3_negative a) \<longleftrightarrow> a_phase3_negative a \<noteq> None" "truthy (a_phase5_negative a) \<longleftrightarrow> a_phase5_negative a \<noteq> None"
    "truthy (a_phase6_negative a) \<longleftrightarrow> a_phase6_negative a \<noteq> None"
    "truthy (a_phase7_negative_test_only a) \<longleftrightarrow> a_phase7_negative_test_only a \<noteq> None"
    "truthy (a_v1_negative a) \<longleftrightarrow> a_v1_negative a \<noteq> None"
    using assms [unfolded declared_ok_def, THEN conjunct2] by - (elim conjE, erule c)+
qed

text \<open>At most one of a list of switches is on.\<close>

lemma at_most_one:
  "length (filter id bs) \<le> 1 \<Longrightarrow> bs = replicate (length bs) False \<or> (\<exists>k < length bs. bs = (replicate (length bs) False)[k := True])"
proof (induction bs)
  case (Cons b bs)
  have none: "filter id bs = [] \<Longrightarrow> bs = replicate (length bs) False" for bs
    by (induction bs) (auto split: if_splits)
  show ?case
  proof (cases b)
    case True
    then have "b # bs = (replicate (length (b # bs)) False)[0 := True]" using Cons.prems none [of bs] by (simp add: id_def)
    then show ?thesis by blast
  next
    case False
    then consider "bs = replicate (length bs) False" | k where "k < length bs" "bs = (replicate (length bs) False)[k := True]"
      using Cons by auto
    then show ?thesis
    proof cases
      case 2
      then have "Suc k < length (b # bs) \<and> b # bs = (replicate (length (b # bs)) False)[Suc k := True]" using False by simp
      then show ?thesis by blast
    qed (use False in simp)
  qed
qed simp

lemma one_mode:
  assumes "declared_ok a"
  shows "execution_modes a \<in> set (replicate 11 False # map (\<lambda>k. (replicate 11 False)[k := True]) [0..<11])"
proof -
  have "length (execution_modes a) = 11" "length (filter id (execution_modes a)) \<le> 1"
    using assms by (simp_all add: execution_modes_def declared_ok_def)
  then show ?thesis using at_most_one [of "execution_modes a"] by auto
qed

subsection \<open>What is printed\<close>

text \<open>The lines of a kind \<open>p\<close> printed so far, and what prints none.\<close>

definition same_lines :: "(string \<Rightarrow> bool) \<Rightarrow> cli \<Rightarrow> cli \<Rightarrow> bool" where
  "same_lines p s t \<longleftrightarrow> filter p (cl_out t) = filter p (cl_out s)"

interpretation lines: kept "same_lines p" for p
  by unfold_locales (simp_all add: same_lines_def)

lemma prints_apply: "printM l s = (Inr (), s\<lparr> cl_out := cl_out s @ [l] \<rparr>)" "printsM ls s = (Inr (), s\<lparr> cl_out := cl_out s @ ls \<rparr>)"
  by (simp_all add: printM_def printsM_def)

lemma reportM_apply: "reportM ls n s = (Inr n, s\<lparr> cl_out := cl_out s @ ls \<rparr>)"
  by (simp add: reportM_def prints_apply)

lemma out_kept [simp]:
  "cl_out (snd (onC m s)) = cl_out s" "cl_out (snd (with_runner k s)) = cl_out s" "cl_out (snd (with_v1 p res j s)) = cl_out s"
  "cl_out (snd (new_client a s)) = cl_out s" "cl_out (snd (quiet_disconnect B s)) = cl_out s"
  by (simp_all add: onC_def with_runner_def with_v1_def new_client_def quiet_disconnect_def Let_def case_prod_unfold)

lemma same_lines_calls:
  "same_lines p s (snd (onC m s))" "same_lines p s (snd (with_runner k s))" "same_lines p s (snd (with_v1 pc res j s))"
  "same_lines p s (snd (new_client a s))" "same_lines p s (snd (quiet_disconnect B s))"
  by (simp_all add: same_lines_def)

lemma same_lines_prints:
  "\<not> p l \<Longrightarrow> same_lines p s (snd (printM l s))" "list_all (\<lambda>l. \<not> p l) ls \<Longrightarrow> same_lines p s (snd (printsM ls s))"
  "list_all (\<lambda>l. \<not> p l) ls \<Longrightarrow> same_lines p s (snd (reportM ls n s))"
  by (auto simp: same_lines_def prints_apply reportM_apply list_all_iff filter_empty_conv)

text \<open>The exit code 0 goes with one more line of the kind, every other end with none.\<close>

definition scored :: "(string \<Rightarrow> bool) \<Rightarrow> ('a \<Rightarrow> nat) \<Rightarrow> (cli, 'a) meth \<Rightarrow> bool" where
  "scored p g m \<longleftrightarrow> (\<forall>s. case m s of (r, t) \<Rightarrow>
     length (filter p (cl_out t)) = length (filter p (cl_out s)) + (case r of Inl _ \<Rightarrow> 0 | Inr x \<Rightarrow> g x))"

abbreviation code :: "int \<Rightarrow> nat" where
  "code n \<equiv> (if n = 0 then 1 else 0)"

abbreviation code_of :: "int option \<Rightarrow> nat" where
  "code_of x \<equiv> (case x of None \<Rightarrow> 0 | Some n \<Rightarrow> code n)"

lemma scored_report: "length (filter p ls) = code n \<Longrightarrow> scored p code (reportM ls n)"
  by (simp add: scored_def reportM_apply)

lemma scored_ret: "g x = 0 \<Longrightarrow> scored p g (retM x)"
  by (simp add: scored_def)

lemma scoredD: "scored p g m \<Longrightarrow> m s = (r, t) \<Longrightarrow>
    length (filter p (cl_out t)) = length (filter p (cl_out s)) + (case r of Inl _ \<Rightarrow> 0 | Inr x \<Rightarrow> g x)"
  by (drule scored_def [THEN iffD1, THEN spec, of _ _ _ s]) simp

lemma scored_bind:
  assumes "\<And>s. same_lines p s (snd (m s))" and "\<And>x. scored p g (f x)"
  shows "scored p g (bindM m f)"
  unfolding scored_def
proof
  fix s
  obtain r t where m: "m s = (r, t)" by fastforce
  then have "length (filter p (cl_out t)) = length (filter p (cl_out s))" using assms(1) [of s] by (simp add: same_lines_def)
  then show "case bindM m f s of (r, t) \<Rightarrow> length (filter p (cl_out t)) = length (filter p (cl_out s)) + (case r of Inl _ \<Rightarrow> 0 | Inr x \<Rightarrow> g x)"
    using m scoredD [OF assms(2)] by (cases r) (auto simp: bindM_def)
qed

lemma scored_seq: "(\<And>s. same_lines p s (snd (m s))) \<Longrightarrow> scored p g k \<Longrightarrow> scored p g (seqM m k)"
  unfolding seqM_def by (rule scored_bind)

lemma scored_catch:
  assumes "scored p g m" and "\<And>e. scored p g (h e)"
  shows "scored p g (catchM P h m)"
  unfolding scored_def
proof
  fix s
  obtain r t where m: "m s = (r, t)" by fastforce
  then show "case catchM P h m s of (r, t) \<Rightarrow> length (filter p (cl_out t)) = length (filter p (cl_out s)) + (case r of Inl _ \<Rightarrow> 0 | Inr x \<Rightarrow> g x)"
    using scoredD [OF assms(1) m] scoredD [OF assms(2)] by (cases r) (auto simp: catchM_def)
qed

lemma scored_finally: "scored p g m \<Longrightarrow> (\<And>s. same_lines p s (snd (f s))) \<Longrightarrow> (\<And>s. fst (f s) = Inr ()) \<Longrightarrow> scored p g (finallyM m f)"
  by (simp add: scored_def same_lines_def finallyM_def Let_def case_prod_unfold)

lemma scored_if: "(b \<Longrightarrow> scored p g m) \<Longrightarrow> (\<not> b \<Longrightarrow> scored p g k) \<Longrightarrow> scored p g (if b then m else k)"
  by simp

lemma quiet_disconnect_Inr: "fst (quiet_disconnect B s) = Inr ()"
  by (simp add: quiet_disconnect_def)

lemma scored_connected:
  assumes "\<And>e. scored p code (handler e)" and "scored p code body"
  shows "scored p code (connected_mode B a handler body)"
  unfolding connected_mode_def
proof (rule scored_seq [OF same_lines_calls(4)])
  let ?k = "finallyM (catchM (\<lambda>_. True) handler body) (quiet_disconnect B)"
  have f: "scored p code ?k"
    by (intro scored_finally scored_catch assms same_lines_calls quiet_disconnect_Inr)
  have k: "scored p code (seqM (quiet_disconnect B) (retM 1))"
    by (intro scored_seq scored_ret same_lines_calls) simp
  show "scored p code (\<lambda>s. case onC (client_scan_and_connect B) s of
       (Inl _, t) \<Rightarrow> seqM (quiet_disconnect B) (retM 1) t | (Inr False, t) \<Rightarrow> (Inr 1, t) | (Inr True, t) \<Rightarrow> ?k t)"
    unfolding scored_def
  proof
    fix s
    obtain r t where rt: "onC (client_scan_and_connect B) s = (r, t)" by fastforce
    then have "cl_out t = cl_out s" using out_kept(1) [of "client_scan_and_connect B" s] by simp
    then show "case case onC (client_scan_and_connect B) s of
         (Inl _, t) \<Rightarrow> seqM (quiet_disconnect B) (retM 1) t | (Inr False, t) \<Rightarrow> (Inr 1, t) | (Inr True, t) \<Rightarrow> ?k t of
       (r, t) \<Rightarrow> length (filter p (cl_out t)) = length (filter p (cl_out s)) + (case r of Inl _ \<Rightarrow> 0 | Inr x \<Rightarrow> code x)"
      using rt scoredD [OF f, of t] scoredD [OF k, of t] by (cases r) (auto split: bool.split)
  qed
qed

lemmas scored_steps = scored_bind scored_seq scored_catch scored_report scored_ret scored_if lines.kept_pure same_lines_calls
  same_lines_prints lines.kept_bind lines.kept_seq

text \<open>The verdicts that claim a success, of an ordinary run or of a negative test.\<close>

definition pass_verdicts :: "string list" where
  "pass_verdicts = [''ML-KEM E2E SHARED SECRET MATCH: YES'', ''PQ-BLE SECURE CHANNEL E2E: PASS'',
     ''PQ-BLE AUTHENTICATED HANDSHAKE E2E: PASS'', ''PQ-BLE PHASE5 NEGATIVE TEST: PASS'',
     ''PQ-BLE PHASE6 SINGLE ROUND-TRIP: PASS'', ''PQ-BLE BIDIRECTIONAL SECURE CHANNEL E2E: PASS'',
     ''PQ-BLE PHASE6 NEGATIVE TEST: PASS'', ''PQ-BLE PHASE7 HYBRID KEY AGREEMENT E2E: PASS'',
     ''PQ-BLE PHASE7 AUTHENTICATED HYBRID SECURE CHANNEL E2E: PASS'', ''PQ-BLE PHASE7 CP4 NEGATIVE TEST: PASS'',
     ''PQ-BLE V1.0 CP1 SMP-L4 FOUNDATION: PASS'', ''PQ-BLE V1.0 CP2 ML-KEM-L4 INTEROPERABILITY: PASS'',
     ''PQ-BLE V1.0 CP3 TRANSCRIPT + FINISHED: PASS'', ''PQ-BLE V1.0 CP4 AES-256-GCM BIDIRECTIONAL DATA: PASS'',
     ''PQ-BLE V1.0 CP1 NEGATIVE TEST: PASS'']"

definition passes :: "string \<Rightarrow> bool" where
  "passes l \<longleftrightarrow> list_ex (\<lambda>v. prefix v l) pass_verdicts"

lemmas passes_simps = passes_def pass_verdicts_def

lemma scored_phase2: "scored passes code (run_phase2_e2e_cli W a)"
  unfolding run_phase2_e2e_cli_def by (intro scored_connected scored_steps; simp add: passes_simps)

lemma scored_phase3: "scored passes code (run_phase3_secure_cli W a)"
  unfolding run_phase3_secure_cli_def by (intro scored_connected scored_steps; simp add: passes_simps)

lemma scored_phase5: "scored passes code (run_phase5_auth_pq_cli W a)"
proof -
  have "scored passes code (phase5_handler a e)" for e
    unfolding phase5_handler_def by (cases e) (auto intro!: scored_report simp: passes_simps)
  then show ?thesis
    unfolding run_phase5_auth_pq_cli_def by (intro scored_connected scored_steps; simp add: passes_simps)
qed

lemma scored_phase6: "scored passes code (run_phase6_c2p_cli W a)" "scored passes code (run_phase6_bidirectional_cli W a)"
proof -
  show "scored passes code (run_phase6_c2p_cli W a)"
    unfolding run_phase6_c2p_cli_def by (intro scored_connected scored_steps; simp add: passes_simps)
  have handler: "scored passes code (phase6_handler a e)" for e
    unfolding phase6_handler_def by (cases e) (auto intro!: scored_report simp: passes_simps)
  have rounds: "same_lines passes s (snd (print_round_trips i ts s))" for s i ts
  proof (induction ts arbitrary: i s)
    case (Cons t ts)
    then show ?case
      unfolding print_round_trips.simps by (intro lines.kept_seq lines.kept_bind scored_steps; simp add: passes_simps)
  qed (simp add: lines.kept_refl)
  show "scored passes code (run_phase6_bidirectional_cli W a)"
    unfolding run_phase6_bidirectional_cli_def by (intro scored_connected scored_steps handler rounds; simp add: passes_simps)
qed

lemma scored_phase7_hybrid: "scored passes code (run_phase7_hybrid_e2e_cli W a)"
  unfolding run_phase7_hybrid_e2e_cli_def
  by (intro scored_steps scored_finally; simp add: passes_simps quiet_disconnect_Inr)

text \<open>Modes that report a negative test after the \<open>finally\<close>.\<close>

lemma scored_resume:
  assumes "scored p code_of m" and "length (filter p ls) = 1"
  shows "scored p code (bindM m (\<lambda>returned. case returned of Some n \<Rightarrow> retM n | None \<Rightarrow> reportM ls 0))"
  unfolding scored_def
proof
  fix s
  obtain r t where m: "m s = (r, t)" by fastforce
  show "case bindM m (\<lambda>returned. case returned of Some n \<Rightarrow> retM n | None \<Rightarrow> reportM ls 0) s of
      (r, t) \<Rightarrow> length (filter p (cl_out t)) = length (filter p (cl_out s)) + (case r of Inl _ \<Rightarrow> 0 | Inr x \<Rightarrow> code x)"
    using scoredD [OF assms(1) m] m assms(2) by (auto simp: bindM_def reportM_apply split: sum.splits option.splits)
qed

lemma scored_v1: "scored passes code (run_v1_smp_l4_mlkem_cli W a)"
proof -
  have call: "same_lines passes s (snd (run_v1_selected W a s))" for s
    unfolding run_v1_selected_def Let_def by (intro lines.kept_if lines.kept_bind same_lines_calls lines.kept_pure)
  have cp3: "same_lines passes s (snd (report_cp3 (w_bleak W) c s))" for c s
    unfolding report_cp3_def by (intro scored_steps; simp add: passes_simps)
  have report: "same_lines passes s (snd (report_checkpoint (w_bleak W) r s))" for r s
    by (cases r) (auto intro!: scored_steps cp3 simp: passes_simps lines.kept_refl)
  have body: "scored passes code_of (v1_body W a)"
  proof -
    have verdict: "scored passes code_of (seqM (printsM [[], positive_marker a @ '': PASS'', []]) (retM (Some 0)))"
      by (simp add: scored_def prints_apply seqM_def bindM_def passes_simps positive_marker_def)
    have missing: "same_lines passes s (snd ((if a_v1_cp2 a \<or> a_v1_cp3 a \<or> a_v1_cp4 a then printM (positive_marker a @ '': FAIL'') else retM ()) s))" for s
      by (simp add: same_lines_def prints_apply passes_simps positive_marker_def)
    have scenario: "same_lines passes s (snd (printsM ([[], ''Scenario: '' @ c] @ map (\<lambda>(name, reason). ''Pre-L4 '' @ name @ '': DENIED ('' @ reason @ '')'') ds) s))" for c ds s
      by (rule same_lines_prints) (auto simp: passes_simps list_all_iff)
    show ?thesis
      unfolding v1_body_def
      by (intro scored_bind same_lines_calls scored_if scored_ret call scored_seq [OF missing] scored_seq [OF lines.kept_pure(4)]
          scored_seq [OF scenario] scored_seq [OF report] verdict) simp
  qed
  have handler: "scored passes code_of (v1_handler a e)" for e
    unfolding v1_handler_def Let_def
    by (intro scored_steps; simp add: passes_simps positive_marker_def)
  have finally_quiet: "same_lines passes s (snd (v1_finally (w_bleak W) a s))" "fst (v1_finally (w_bleak W) a s) = Inr ()" for s
    unfolding v1_finally_def
    by (intro lines.kept_seq lines.kept_if same_lines_calls lines.kept_pure)
      (simp add: seqM_def bindM_def onC_def quiet_disconnect_def Let_def)
  show ?thesis
    unfolding run_v1_smp_l4_mlkem_cli_def
    by (intro scored_seq scored_resume same_lines_calls scored_finally scored_catch body handler finally_quiet; simp add: passes_simps)
qed

lemma needM_stops: "\<not> b \<Longrightarrow> seqM (needM b e) k s = (Inl e, s)"
  by (simp add: needM_def seqM_def bindM_def)

lemma scored_phase7: "scored passes code (run_phase7_auth_hybrid_cli W a)"
proof -
  let ?m = "catchM (\<lambda>_. True) (phase7_handler a) (phase7_body W a)"
  have handler: "scored passes code_of (phase7_handler a e)" for e
    unfolding phase7_handler_def Let_def by (intro scored_steps; simp add: passes_simps)
  have body: "scored passes code_of (phase7_body W a)"
  proof -
    have verdict: "scored passes code_of (seqM (printsM [[], ''ML-KEM + P-256 hybrid key agreement: PASS'', ''SAS: '' @ r7_sas result,
            ''FINISHED_C / FINISHED_P: PASS'',
            ''Authenticated bidirectional traffic: PASS ('' @ decimal (r7_rounds result) @ '' rounds)'', [],
            ''PQ-BLE PHASE7 AUTHENTICATED HYBRID SECURE CHANNEL E2E: PASS'', []]) (retM (Some 0)))" for result
      by (simp add: scored_def prints_apply seqM_def bindM_def passes_simps)
    show ?thesis
      unfolding phase7_body_def
      by (intro scored_bind same_lines_calls scored_if scored_ret scored_seq [OF lines.kept_pure(4)] verdict) simp
  qed
  have m: "scored passes code_of ?m" by (intro scored_catch body handler)
  have quiet: "same_lines passes s (snd (?m s))" if "a_phase7_negative_test_only a \<noteq> None" for s
  proof (rule lines.kept_catch)
    show "same_lines passes s (snd (phase7_handler a e s))" for e s
      using that by (simp add: phase7_handler_def Let_def same_lines_def prints_apply seqM_def bindM_def passes_simps)
    have "same_lines passes s (snd (seqM (needM (a_phase7_negative_test_only a = None) e) k s))" for e k s
      using that by (simp add: needM_stops lines.kept_refl)
    then show "same_lines passes s (snd (phase7_body W a s))" for s
      unfolding phase7_body_def by (intro lines.kept_bind lines.kept_if same_lines_calls lines.kept_pure)
  qed
  have "scored passes code_of (phase7_finally (w_bleak W) a ?m)"
    unfolding scored_def
  proof
    fix s
    obtain r t where rt: "?m s = (r, t)" by fastforce
    obtain q u where qu: "onC (client_disconnect (w_bleak W)) t = (q, u)" by fastforce
    then have "cl_out u = cl_out t" using out_kept(1) [of "client_disconnect (w_bleak W)" t] by simp
    then show "case phase7_finally (w_bleak W) a ?m s of
      (r, t) \<Rightarrow> length (filter passes (cl_out t)) = length (filter passes (cl_out s)) + (case r of Inl _ \<Rightarrow> 0 | Inr x \<Rightarrow> code_of x)"
      using scoredD [OF m rt] quiet [of s, unfolded same_lines_def] rt qu
      by (cases q) (auto simp: phase7_finally_def Let_def seqM_def bindM_def prints_apply passes_simps)
  qed
  then show ?thesis
    unfolding run_phase7_auth_hybrid_cli_def
    by (intro scored_seq scored_resume same_lines_calls; simp add: passes_simps)
qed

text \<open>The modes that end with a verdict: all but the historical flow and the two profiles of resumption.\<close>

definition reports_verdict :: "cli_mode \<Rightarrow> bool" where
  "reports_verdict m \<longleftrightarrow> m \<noteq> Legacy \<and> m \<noteq> New_Profile"

lemma scored_mode: "reports_verdict m \<Longrightarrow> m \<noteq> Refused \<Longrightarrow> scored passes code (run_mode m W a)"
  by (cases m) (simp_all add: reports_verdict_def scored_phase2 scored_phase3 scored_phase5 scored_phase6 scored_phase7_hybrid
      scored_phase7 scored_v1)

text \<open>No exception leaves such a mode, and its exit code is 0 or 1.\<close>

definition exits :: "(cli, int) meth \<Rightarrow> bool" where
  "exits m \<longleftrightarrow> (\<forall>s. fst (m s) \<in> {Inr 0, Inr 1})"

definition returns :: "(cli, int option) meth \<Rightarrow> bool" where
  "returns m \<longleftrightarrow> (\<forall>s. fst (m s) \<in> {Inr None, Inr (Some 0), Inr (Some 1)})"

definition codes :: "(cli, int) meth \<Rightarrow> bool" where
  "codes m \<longleftrightarrow> (\<forall>s. isl (fst (m s)) \<or> fst (m s) \<in> {Inr 0, Inr 1})"

definition code_options :: "(cli, int option) meth \<Rightarrow> bool" where
  "code_options m \<longleftrightarrow> (\<forall>s. isl (fst (m s)) \<or> fst (m s) \<in> {Inr None, Inr (Some 0), Inr (Some 1)})"

lemma codes_bind: "(\<And>x. codes (f x)) \<Longrightarrow> codes (bindM m f)" "codes k \<Longrightarrow> codes (seqM m' k)"
  by (auto simp: codes_def seqM_def bindM_def split: prod.splits sum.splits)

lemma code_options_bind: "(\<And>x. code_options (f x)) \<Longrightarrow> code_options (bindM m f)" "code_options k \<Longrightarrow> code_options (seqM m' k)"
  by (auto simp: code_options_def seqM_def bindM_def split: prod.splits sum.splits)

lemma codes_ends:
  "n \<in> {0, 1} \<Longrightarrow> codes (reportM ls n)" "x \<in> {None, Some 0, Some 1} \<Longrightarrow> code_options (retM x)"
  "code_options m \<Longrightarrow> code_options k \<Longrightarrow> code_options (if b then m else k)"
  by (auto simp: codes_def code_options_def reportM_apply)

lemma exits_report: "n \<in> {0, 1} \<Longrightarrow> exits (reportM ls n)"
  by (simp add: exits_def reportM_apply)

lemma exits_seq:
  assumes "\<And>s. fst (m s) = Inr ()" and "exits k"
  shows "exits (seqM m k)"
  unfolding exits_def
proof
  fix s
  obtain t where "m s = (Inr (), t)" using assms(1) by (metis prod.collapse)
  then show "fst (seqM m k s) \<in> {Inr 0, Inr 1}" using assms(2) by (simp add: exits_def seqM_def bindM_def)
qed

lemma exits_try:
  assumes "codes m" "\<And>e. exits (h e)" "\<And>s. fst (f s) = Inr ()"
  shows "exits (finallyM (catchM (\<lambda>_. True) h m) f)"
proof -
  have "fst (catchM (\<lambda>_. True) h m s) \<in> {Inr 0, Inr 1}" for s
    using assms(1) [unfolded codes_def, rule_format, of s] assms(2) [unfolded exits_def]
    by (cases "m s"; cases "fst (m s)") (auto simp: catchM_def)
  then show ?thesis using assms(3) by (simp add: exits_def finallyM_def Let_def case_prod_unfold)
qed

lemma returns_try:
  assumes "code_options m" "\<And>e s. fst (h e s) \<in> {Inr None, Inr (Some 0), Inr (Some 1)}"
  shows "returns (catchM (\<lambda>_. True) h m)"
  unfolding returns_def
proof
  fix s
  show "fst (catchM (\<lambda>_. True) h m s) \<in> {Inr None, Inr (Some 0), Inr (Some 1)}"
    using assms(1) [unfolded code_options_def, rule_format, of s] assms(2)
    by (cases "m s"; cases "fst (m s)") (auto simp: catchM_def)
qed

lemma exits_resume: "returns m \<Longrightarrow> exits (bindM m (\<lambda>returned. case returned of Some n \<Rightarrow> retM n | None \<Rightarrow> reportM ls 0))"
  unfolding returns_def exits_def
proof
  fix s
  assume "\<forall>s. fst (m s) \<in> {Inr None, Inr (Some 0), Inr (Some 1)}"
  then have "fst (m s) \<in> {Inr None, Inr (Some 0), Inr (Some 1)}" by blast
  then show "fst (bindM m (\<lambda>returned. case returned of Some n \<Rightarrow> retM n | None \<Rightarrow> reportM ls 0) s) \<in> {Inr 0, Inr 1}"
    by (cases "m s") (auto simp: bindM_def reportM_apply)
qed

lemma new_client_Inr: "fst (new_client a s) = Inr ()"
  by (simp add: new_client_def)

lemma exits_connected:
  assumes "codes body" and "\<And>e. exits (handler e)"
  shows "exits (connected_mode B a handler body)"
  unfolding connected_mode_def
proof (rule exits_seq [OF new_client_Inr])
  let ?k = "finallyM (catchM (\<lambda>_. True) handler body) (quiet_disconnect B)"
  have k: "fst (?k t) \<in> {Inr 0, Inr 1}" for t
    using exits_try [where f = "quiet_disconnect B", OF assms quiet_disconnect_Inr] by (simp add: exits_def)
  show "exits (\<lambda>s. case onC (client_scan_and_connect B) s of
       (Inl _, t) \<Rightarrow> seqM (quiet_disconnect B) (retM 1) t | (Inr False, t) \<Rightarrow> (Inr 1, t) | (Inr True, t) \<Rightarrow> ?k t)"
    unfolding exits_def
  proof
    fix s
    obtain r t where "onC (client_scan_and_connect B) s = (r, t)" by fastforce
    then show "fst (case onC (client_scan_and_connect B) s of
       (Inl _, t) \<Rightarrow> seqM (quiet_disconnect B) (retM 1) t | (Inr False, t) \<Rightarrow> (Inr 1, t) | (Inr True, t) \<Rightarrow> ?k t) \<in> {Inr 0, Inr 1}"
      using k [of t] by (cases r) (simp_all add: seqM_def bindM_def quiet_disconnect_def split: bool.split)
  qed
qed

lemma handlers_exit: "exits (phase5_handler a e)" "exits (phase6_handler a e)"
  by (cases e; simp add: phase5_handler_def phase6_handler_def exits_report)+

lemma exits_mode: "reports_verdict m \<Longrightarrow> m \<noteq> Refused \<Longrightarrow> exits (run_mode m W a)"
proof (cases m)
  case V1_Smp
  have body: "code_options (v1_body W a)"
    unfolding v1_body_def by (intro code_options_bind codes_ends) simp_all
  have handler: "fst (v1_handler a e s) \<in> {Inr None, Inr (Some 0), Inr (Some 1)}" for e s
    by (simp add: v1_handler_def Let_def seqM_def bindM_def prints_apply)
  have "fst (v1_finally (w_bleak W) a s) = Inr ()" for s
    by (simp add: v1_finally_def seqM_def bindM_def onC_def quiet_disconnect_def Let_def)
  then have "returns (finallyM (catchM (\<lambda>_. True) (v1_handler a) (v1_body W a)) (v1_finally (w_bleak W) a))"
    using returns_try [OF body handler] by (simp add: returns_def finallyM_def Let_def case_prod_unfold)
  then show ?thesis using V1_Smp
    by (simp add: run_v1_smp_l4_mlkem_cli_def exits_seq [OF new_client_Inr exits_resume])
next
  case Phase7_Auth
  have body: "code_options (phase7_body W a)"
    unfolding phase7_body_def by (intro code_options_bind codes_ends) simp_all
  have handler: "fst (phase7_handler a e s) \<in> {Inr None, Inr (Some 0), Inr (Some 1)}" for e s
    by (simp add: phase7_handler_def Let_def seqM_def bindM_def prints_apply)
  have "returns (phase7_finally (w_bleak W) a (catchM (\<lambda>_. True) (phase7_handler a) (phase7_body W a)))"
    using returns_try [OF body handler]
    by (simp add: returns_def phase7_finally_def Let_def case_prod_unfold seqM_def bindM_def prints_apply split: sum.split)
  then show ?thesis using Phase7_Auth
    by (simp add: run_phase7_auth_hybrid_cli_def exits_seq [OF new_client_Inr exits_resume])
qed (auto simp: reports_verdict_def run_phase2_e2e_cli_def run_phase3_secure_cli_def run_phase5_auth_pq_cli_def
    run_phase6_c2p_cli_def run_phase6_bidirectional_cli_def run_phase7_hybrid_e2e_cli_def
    intro!: exits_connected exits_seq exits_try codes_bind codes_ends(1) exits_report handlers_exit new_client_Inr quiet_disconnect_Inr)

subsection \<open>The connection\<close>

text \<open>Nothing is left of a connection: no session object, and the link is down or its disconnect was the last request.\<close>

definition client_ended :: "bleak \<Rightarrow> ble_client \<Rightarrow> bool" where
  "client_ended B c \<longleftrightarrow> client_released c \<and> (case bc_client c of None \<Rightarrow> True
     | Some l \<Rightarrow> \<not> bl_connected B (bc_ops c) l \<or> bc_ops c \<noteq> [] \<and> last (bc_ops c) = Disconnect l)"

lemma disconnect_ends: "client_ended B (snd (client_disconnect B c))"
proof -
  have "client_released (snd (client_disconnect B c))" using client_disconnect_safe by (simp add: client_safe_def)
  moreover have "case bc_client (snd (client_disconnect B c)) of None \<Rightarrow> True
      | Some l \<Rightarrow> \<not> bl_connected B (bc_ops (snd (client_disconnect B c))) l
          \<or> bc_ops (snd (client_disconnect B c)) \<noteq> [] \<and> last (bc_ops (snd (client_disconnect B c))) = Disconnect l"
    by (auto simp: client_disconnect_def seqM_def bindM_def bleak_call_def Let_def split: option.splits sum.splits)
  ultimately show ?thesis by (simp add: client_ended_def)
qed

definition leaves_ended :: "bleak \<Rightarrow> (cli, 'a) meth \<Rightarrow> bool" where
  "leaves_ended B m \<longleftrightarrow> (\<forall>s. client_ended B (cl_client (snd (m s))))"

lemma ends_disconnect: "leaves_ended B (onC (client_disconnect B))" "leaves_ended B (quiet_disconnect B)"
  using disconnect_ends by (simp_all add: leaves_ended_def quiet_disconnect_def onC_def Let_def case_prod_unfold)

lemma ends_finally: "leaves_ended B f \<Longrightarrow> leaves_ended B (finallyM m f)"
  by (simp add: leaves_ended_def finallyM_def Let_def case_prod_unfold)

lemma ends_seq: "(\<And>s. fst (m s) = Inr ()) \<Longrightarrow> leaves_ended B k \<Longrightarrow> leaves_ended B (seqM m k)"
  unfolding leaves_ended_def seqM_def bindM_def by (auto split: prod.split sum.split) (metis fst_conv sum.distinct(1))

lemma ends_resume:
  "leaves_ended B m \<Longrightarrow> leaves_ended B (bindM m (\<lambda>returned. case returned of Some n \<Rightarrow> retM n | None \<Rightarrow> reportM ls 0))"
  unfolding leaves_ended_def bindM_def reportM_apply by (auto simp: reportM_apply split: prod.split sum.split option.split) (metis snd_conv)+

lemma new_client_apply: "new_client a s = (Inr (), s\<lparr> cl_client := BLECentralClient_init (a_device a) \<rparr>)"
  by (simp add: new_client_def)

text \<open>A client that has just been made, before and after the scan.\<close>

definition fresh_client :: "ble_client \<Rightarrow> bool" where
  "fresh_client c \<longleftrightarrow> client_released c \<and> bc_retired_sessions c = []"

lemma init_fresh: "fresh_client (BLECentralClient_init d)" "bc_client (BLECentralClient_init d) = None"
    "bc_device_name (BLECentralClient_init d) = d" "bc_ops (BLECentralClient_init d) = []"
  by (simp_all add: fresh_client_def client_released_def BLECentralClient_init_def)

lemma scan_fresh:
  assumes "fresh_client c" and "client_scan_and_connect B c = (r, d)"
  shows "fresh_client d" "bc_device d = bl_scan B (bc_ops c @ [ScanName (bc_device_name c)])" "r = Inr False \<Longrightarrow> bc_client d = bc_client c"
  using assms by (auto simp: client_scan_and_connect_def seqM_def bindM_def bleak_scan_def bleak_call_def Let_def fresh_client_def
      client_released_def clear_v1_cp3_def split: option.splits sum.splits prod.splits if_splits)

lemma ends_connected: "leaves_ended B (connected_mode B a handler body)"
  unfolding leaves_ended_def
proof
  fix s :: cli
  let ?s = "s\<lparr> cl_client := BLECentralClient_init (a_device a) \<rparr>"
  obtain r c where rc: "client_scan_and_connect B (BLECentralClient_init (a_device a)) = (r, c)" by fastforce
  have k: "client_ended B (cl_client (snd (finallyM (catchM (\<lambda>_. True) handler body) (quiet_disconnect B) t)))"
    "client_ended B (cl_client (snd (quiet_disconnect B t)))" for t
    using ends_finally [OF ends_disconnect(2)] ends_disconnect(2) unfolding leaves_ended_def by blast+
  have none: "r = Inr False \<Longrightarrow> client_ended B c"
    using scan_fresh [OF init_fresh(1) rc] init_fresh(2) by (simp add: client_ended_def fresh_client_def)
  have "onC (client_scan_and_connect B) ?s = (r, s\<lparr> cl_client := c \<rparr>)" using rc by (simp add: onC_def)
  then show "client_ended B (cl_client (snd (connected_mode B a handler body s)))"
    using k none by (auto simp: connected_mode_def seqM_def bindM_def new_client_apply quiet_disconnect_def split: sum.split bool.split)
qed

lemma ends_mode: "m \<noteq> Legacy \<Longrightarrow> m \<noteq> Refused \<Longrightarrow> leaves_ended (w_bleak W) (run_mode m W a)"
proof (cases m)
  case Phase7_Auth
  have "leaves_ended (w_bleak W) (phase7_finally (w_bleak W) a k)" for k
    using ends_disconnect(1) [of "w_bleak W"] unfolding leaves_ended_def phase7_finally_def
    by (auto simp: Let_def seqM_def bindM_def prints_apply split: prod.split sum.split) (metis snd_conv)+
  then show ?thesis using Phase7_Auth
    by (simp add: run_phase7_auth_hybrid_cli_def ends_seq [OF _ ends_resume] new_client_apply)
next
  case V1_Smp
  have "leaves_ended (w_bleak W) (v1_finally (w_bleak W) a)"
    unfolding v1_finally_def by (rule ends_seq) (simp_all add: ends_disconnect onC_def)
  then show ?thesis using V1_Smp
    by (simp add: run_v1_smp_l4_mlkem_cli_def ends_seq [OF _ ends_resume] ends_finally new_client_apply)
qed (auto simp: run_phase2_e2e_cli_def run_phase3_secure_cli_def run_phase5_auth_pq_cli_def Let_def new_client_apply
    run_phase6_c2p_cli_def run_phase6_bidirectional_cli_def run_phase7_hybrid_e2e_cli_def run_resumption_cli_def
    intro!: ends_connected ends_seq ends_finally ends_disconnect)

subsection \<open>What a success verdict stands for\<close>

text \<open>
  \<open>claims p A I m\<close>: from states with \<open>I\<close>, the computation prints a line of the kind \<open>p\<close> only if \<open>A\<close> holds.
\<close>

definition claims :: "(string \<Rightarrow> bool) \<Rightarrow> bool \<Rightarrow> (cli \<Rightarrow> bool) \<Rightarrow> (cli, 'a) meth \<Rightarrow> bool" where
  "claims p A I m \<longleftrightarrow> (\<forall>s. I s \<longrightarrow> same_lines p s (snd (m s)) \<or> A)"

lemma claims_quiet: "(\<And>s. same_lines p s (snd (m s))) \<Longrightarrow> claims p A I m"
  by (simp add: claims_def)

text \<open>A step that only returns if \<open>A\<close> holds, and one that is silent and leads to states with \<open>J\<close>.\<close>

lemma claims_returned:
  assumes "\<And>s. same_lines p s (snd (m s))" and "\<And>s x t. I s \<Longrightarrow> m s = (Inr x, t) \<Longrightarrow> A"
  shows "claims p A I (bindM m f)"
  unfolding claims_def
proof (intro allI impI)
  fix s assume s: "I s"
  obtain r t where m: "m s = (r, t)" by fastforce
  show "same_lines p s (snd (bindM m f s)) \<or> A"
    using m assms(1) [of s] assms(2) [OF s] by (cases r) (auto simp: bindM_def)
qed

lemma claims_bind:
  assumes "\<And>s. same_lines p s (snd (m s))" and "\<And>s x t. I s \<Longrightarrow> m s = (Inr x, t) \<Longrightarrow> J t" and "\<And>x. claims p A J (f x)"
  shows "claims p A I (bindM m f)"
  unfolding claims_def
proof (intro allI impI)
  fix s assume s: "I s"
  obtain r t where m: "m s = (r, t)" by fastforce
  have "same_lines p s t" using assms(1) [of s] m by simp
  then show "same_lines p s (snd (bindM m f s)) \<or> A"
    using m assms(2) [OF s] assms(3) [unfolded claims_def] by (cases r) (auto simp: bindM_def intro: lines.kept_trans)
qed

lemma claims_seq:
  "(\<And>s. same_lines p s (snd (m s))) \<Longrightarrow> (\<And>s t. I s \<Longrightarrow> m s = (Inr (), t) \<Longrightarrow> J t) \<Longrightarrow> claims p A J k \<Longrightarrow> claims p A I (seqM m k)"
  unfolding seqM_def by (rule claims_bind [where J = J]) simp_all

lemma claims_catch:
  assumes "claims p A I m" and "\<And>e s. same_lines p s (snd (h e s))"
  shows "claims p A I (catchM P h m)"
  unfolding claims_def
proof (intro allI impI)
  fix s assume s: "I s"
  obtain r t where m: "m s = (r, t)" by fastforce
  then have "same_lines p s t \<or> A" using assms(1) s by (auto simp: claims_def)
  then show "same_lines p s (snd (catchM P h m s)) \<or> A"
    using m assms(2) by (cases r) (auto simp: catchM_def intro: lines.kept_trans)
qed

lemma claims_finally: "claims p A I m \<Longrightarrow> (\<And>s. same_lines p s (snd (f s))) \<Longrightarrow> claims p A I (finallyM m f)"
  unfolding claims_def by (simp add: finallyM_def Let_def case_prod_unfold) (metis lines.kept_trans)

lemma claims_if: "claims p A I m \<Longrightarrow> claims p A I k \<Longrightarrow> claims p A I (if b then m else k)"
  by simp

lemma claims_connected:
  assumes "claims p A (\<lambda>_. True) body" and "\<And>e s. same_lines p s (snd (handler e s))"
  shows "claims p A (\<lambda>_. True) (connected_mode B a handler body)"
  unfolding connected_mode_def
proof (rule claims_seq [where J = "\<lambda>_. True"])
  let ?k = "finallyM (catchM (\<lambda>_. True) handler body) (quiet_disconnect B)"
  have "claims p A (\<lambda>_. True) ?k" by (intro claims_finally claims_catch assms same_lines_calls)
  then have k: "same_lines p t (snd (?k t)) \<or> A" for t unfolding claims_def by blast
  have d: "same_lines p t (snd (seqM (quiet_disconnect B) (retM 1) t))" for t
    by (intro lines.kept_seq same_lines_calls lines.kept_pure)
  show "claims p A (\<lambda>_. True) (\<lambda>s. case onC (client_scan_and_connect B) s of
       (Inl _, t) \<Rightarrow> seqM (quiet_disconnect B) (retM 1) t | (Inr False, t) \<Rightarrow> (Inr 1, t) | (Inr True, t) \<Rightarrow> ?k t)"
    unfolding claims_def
  proof (intro allI impI)
    fix s
    obtain r t where rt: "onC (client_scan_and_connect B) s = (r, t)" by fastforce
    then have "same_lines p s t" using same_lines_calls(1) [of p s "client_scan_and_connect B"] by simp
    then show "same_lines p s (snd (case onC (client_scan_and_connect B) s of
       (Inl _, t) \<Rightarrow> seqM (quiet_disconnect B) (retM 1) t | (Inr False, t) \<Rightarrow> (Inr 1, t) | (Inr True, t) \<Rightarrow> ?k t)) \<or> A"
      using rt k [of t] d [of t] by (cases r) (auto split: bool.split intro: lines.kept_trans)
  qed
qed (rule same_lines_calls, simp)

subsubsection \<open>Authenticated sessions\<close>

text \<open>
  The user at the console confirmed the SAS of a session whose FINISHED\_P came in (v0.5). The later versions have such a
  definition in their own theories.
\<close>

definition authenticated5 :: "bleak \<Rightarrow> third_party \<Rightarrow> nat \<Rightarrow> bytes \<Rightarrow> sas5_prompt \<Rightarrow> bool" where
  "authenticated5 B C r urandom ui \<longleftrightarrow> (\<exists>sas pk ct ss th keys fp ops. confirm_sas ui sas = Inr True \<and> encapsulate C r pk = (ct, ss)
     \<and> compute_phase5_transcript_hash (generate_session_id urandom) pk ct = Inr th \<and> derive_phase5_keys C ss th = Inr keys
     \<and> bindR (compute_phase5_sas (k5_sas keys) th) format_phase5_sas = Inr sas
     \<and> compute_finished_p (k5_finished_p keys) th = Inr fp
     \<and> bl_queue B ops ! 1 = frame_wire PHASE5_FRAME_MAGIC PHASE5_FRAME_VERSION PHASE5_FINISHED_P fp)"

text \<open>An attested link, and what the selected checkpoint of v1.0 adds to it.\<close>

definition authenticated_v1 :: "cli_world \<Rightarrow> cli_args \<Rightarrow> bool" where
  "authenticated_v1 W a \<longleftrightarrow>
     (let B = w_bleak W; C = w_third W; sid = w_urandom W;
          handshake = (\<lambda>h. \<exists>k pk ct ss. attested B k \<and> attested B (Suc k) \<and> encapsulate C (w_encapsulate W) pk = (ct, ss)
            \<and> cp3_completed ss level4_wire pk ct sid h)
      in if a_v1_cp4 a
         then \<exists>h. handshake h \<and> authentic_pong B C h 0 (fst (w_challenges W)) \<and> authentic_pong B C h 1 (snd (w_challenges W))
         else if a_v1_cp3 a then \<exists>h. handshake h
         else if a_v1_cp2 a then cp2_ready_ok B C (w_encapsulate W) sid
         else \<exists>k raw info. received B k raw \<and> cp1_attestation raw = Inr info \<and> is_authenticated_level4 info)"

text \<open>A stored ticket of the device that was found, or a full handshake with it.\<close>

definition authenticated_profile :: "cli_world \<Rightarrow> cli_args \<Rightarrow> bool" where
  "authenticated_profile W a \<longleftrightarrow>
     (let B = w_bleak W; profile = (if a_v08_resume_hybrid a then V08 else V11)
      in \<exists>address. bl_scan B [ScanName (a_device a)] = Some address
           \<and> (\<not> a_resume_full a \<and> resumed_with B profile (map ascii_upper address) (w_tickets W)
              \<or> handshake_verified B (w_third W) profile (map ascii_upper address) (Sas5Console (w_console W))))"

fun session_authenticated :: "cli_mode \<Rightarrow> cli_world \<Rightarrow> cli_args \<Rightarrow> bool" where
  "session_authenticated Phase5_Auth W a \<longleftrightarrow> a_phase5_negative a = None
     \<and> authenticated5 (w_bleak W) (w_third W) (w_encapsulate W) (w_urandom W) (Sas5Console (w_console W))"
| "session_authenticated Phase6_C2P W a \<longleftrightarrow>
     (\<exists>x. authenticated6 (w_bleak W) (w_third W) (w_encapsulate W) (w_urandom W) (Sas5Console (w_console W)) x)"
| "session_authenticated Phase6_Bidirectional W a \<longleftrightarrow> a_phase6_negative a = None
     \<and> (\<exists>x. authenticated6 (w_bleak W) (w_third W) (w_encapsulate W) (w_urandom W) (Sas5Console (w_console W)) x)"
| "session_authenticated Phase7_Auth W a \<longleftrightarrow> a_phase7_negative_test_only a = None
     \<and> (\<exists>x. authenticated7 (w_bleak W) (w_third W) (w_encapsulate W) (w_private W) (w_urandom W) (Sas5Console (w_console W)) x)"
| "session_authenticated V1_Smp W a \<longleftrightarrow> a_v1_negative a = None \<and> authenticated_v1 W a"
| "session_authenticated New_Profile W a \<longleftrightarrow> (a_resume_negative_test_only a = None \<longrightarrow> authenticated_profile W a)"
| "session_authenticated _ W a \<longleftrightarrow> True"

text \<open>The start of the line that claims it.\<close>

fun success_line :: "cli_mode \<Rightarrow> cli_args \<Rightarrow> string" where
  "success_line Phase5_Auth a = ''PQ-BLE AUTHENTICATED HANDSHAKE E2E: PASS''"
| "success_line Phase6_C2P a = ''PQ-BLE PHASE6 SINGLE ROUND-TRIP: PASS''"
| "success_line Phase6_Bidirectional a = ''PQ-BLE BIDIRECTIONAL SECURE CHANNEL E2E: PASS''"
| "success_line Phase7_Auth a = ''PQ-BLE PHASE7 AUTHENTICATED HYBRID SECURE CHANNEL E2E: PASS''"
| "success_line V1_Smp a = positive_marker a @ '': PASS''"
| "success_line New_Profile a = (if a_v08_resume_hybrid a then ''v0.8 '' else ''v1.1 '')"
| "success_line _ a = []"

lemma with_runner_Inr: "with_runner m s = (Inr x, t) \<Longrightarrow> \<exists>u. m (new_runner (cl_client s)) = (Inr x, u)"
  by (auto simp: with_runner_def Let_def split: prod.splits)

lemma with_v1_Inr: "with_v1 p res m s = (Inr x, t) \<Longrightarrow> \<exists>u. m (new_v1_run (cl_client s) p res) = (Inr x, u)"
  by (auto simp: with_v1_def Let_def split: prod.splits)

lemma phase5_returns:
  assumes "run_phase5_auth_pq B C r urandom ui neg (new_runner c) = (Inr res, t)"
  shows "neg = None \<and> authenticated5 B C r urandom ui"
  using phase5_runner_sound [OF assms] unfolding authenticated5_def by blast

lemma phase6_returns:
  assumes "run_phase6_bidirectional B C r urandom tiv ivs rounds ui neg (new_runner c) = (Inr res, t)"
  shows "neg = None \<and> (\<exists>x. authenticated6 B C r urandom ui x)"
proof -
  obtain s0 s1 s2 s3 s4 ct sid sas where st: "runC (start_notify B) (new_runner c) = (Inr (), s0)"
    "phase6_prepare B C r urandom s0 = (Inr (ct, sid, sas), s1)" "phase6_start B ct sid s1 = (Inr (), s2)"
    "phase6_confirm B ui sas s2 = (Inr (), s3)" "phase6_finished B s3 = (Inr (), s4)" and "neg = None"
    using run_phase6_Inr [OF assms] by blast
  moreover have "rn_taken s0 = 0" using st(1) by (auto simp: runC_Inr new_runner_def)
  ultimately show ?thesis using phase6_stages_authenticated [OF _ st(2-5)] by blast
qed

lemma phase7_returns:
  assumes "run_phase7_authenticated_hybrid B C r priv urandom piv ivs ui tmo neg (new_runner c) = (Inr res, t)"
  shows "neg = None \<and> (\<exists>x. authenticated7 B C r priv urandom ui x)"
  using phase7_runner_sound [OF assms] by blast

lemma selected_returns:
  assumes "run_v1_selected W a s = (Inr x, t)" and "fresh_client (cl_client s)"
  shows "a_v1_negative a = None \<and> authenticated_v1 W a"
proof -
  have fresh: "retired_closed (rn_client (vr_runner (new_v1_run (cl_client s) p res)))" for p and res :: 'r
    using assms(2) by (simp add: fresh_client_def retired_closed_def new_v1_run_def new_runner_def)
  let ?P = "w_backend W (a_v1_pairing_timeout a)" and ?chs = "w_challenges W"
  consider "a_v1_cp4 a" | "a_v1_cp3 a" "\<not> a_v1_cp4 a" | "a_v1_cp2 a" "\<not> a_v1_cp3 a" "\<not> a_v1_cp4 a"
    | "\<not> a_v1_cp2 a" "\<not> a_v1_cp3 a" "\<not> a_v1_cp4 a" by blast
  then show ?thesis
  proof cases
    case 1
    then obtain r u where "run_v1_cp4 (w_bleak W) (w_cp3 W) ?P (w_third W) (w_encapsulate W) (w_urandom W) (fst ?chs, snd ?chs) (a_v1_negative a)
        (a_v1_unpair_first a) (new_v1_run (cl_client s) (w_pairing W) (V1CP4Result [] no_security_info)) = (Inr r, u)"
      using assms(1) by (auto simp: run_v1_selected_def dest!: with_v1_Inr)
    from run_v1_cp4_Inr [OF this fresh] 1 show ?thesis unfolding authenticated_v1_def Let_def by (simp; blast)
  next
    case 2
    then obtain r u where "run_v1_cp3 (w_bleak W) (w_cp3 W) ?P (w_third W) (w_encapsulate W) (w_urandom W) (a_v1_negative a)
        (a_v1_unpair_first a) (new_v1_run (cl_client s) (w_pairing W) (V1CP3Result [] no_security_info)) = (Inr r, u)"
      using assms(1) by (auto simp: run_v1_selected_def dest!: with_v1_Inr)
    from run_v1_cp3_Inr [OF this fresh] 2 show ?thesis unfolding authenticated_v1_def Let_def by (simp; blast)
  next
    case 3
    then obtain r u where "run_v1_cp2 (w_bleak W) ?P (w_third W) (w_encapsulate W) (w_urandom W) (a_v1_negative a)
        (a_v1_unpair_first a) (new_v1_run (cl_client s) (w_pairing W) (V1CP2Result [] no_security_info)) = (Inr r, u)"
      using assms(1) by (auto simp: run_v1_selected_def dest!: with_v1_Inr)
    from run_v1_cp2_Inr [OF this] 3 show ?thesis unfolding authenticated_v1_def Let_def by simp
  next
    case 4
    then obtain r u where "run_v1_cp1 (w_bleak W) ?P (w_third W) (w_encapsulate W) (a_v1_negative a)
        (a_v1_unpair_first a) (new_v1_run (cl_client s) (w_pairing W) (V1CP1Result [] no_security_info)) = (Inr r, u)"
      using assms(1) by (auto simp: run_v1_selected_def dest!: with_v1_Inr)
    from run_v1_cp1_Inr [OF this] 4 show ?thesis unfolding authenticated_v1_def Let_def by auto
  qed
qed

text \<open>The modes: the runner returned, or no such line is printed.\<close>

abbreviation claims_mode :: "cli_mode \<Rightarrow> cli_world \<Rightarrow> cli_args \<Rightarrow> (cli, 'a) meth \<Rightarrow> bool" where
  "claims_mode m W a \<equiv> claims (prefix (success_line m a)) (session_authenticated m W a) (\<lambda>_. True)"

lemma claims_phase5: "claims_mode Phase5_Auth W a (run_phase5_auth_pq_cli W a)"
proof -
  have "same_lines (prefix (success_line Phase5_Auth a)) s (snd (phase5_handler a e s))" for e s
    unfolding phase5_handler_def by (cases e) (auto intro!: same_lines_prints)
  then show ?thesis
    unfolding run_phase5_auth_pq_cli_def
    by (intro claims_connected claims_returned same_lines_calls) (auto dest!: with_runner_Inr phase5_returns)
qed

lemma claims_phase6: "claims_mode Phase6_C2P W a (run_phase6_c2p_cli W a)"
    "claims_mode Phase6_Bidirectional W a (run_phase6_bidirectional_cli W a)"
proof -
  show "claims_mode Phase6_C2P W a (run_phase6_c2p_cli W a)"
    unfolding run_phase6_c2p_cli_def run_phase6_c2p_def
    by (intro claims_connected claims_returned same_lines_calls same_lines_prints) (auto dest!: with_runner_Inr phase6_returns)
  have "same_lines (prefix (success_line Phase6_Bidirectional a)) s (snd (phase6_handler a e s))" for e s
    unfolding phase6_handler_def by (cases e) (auto intro!: same_lines_prints)
  then show "claims_mode Phase6_Bidirectional W a (run_phase6_bidirectional_cli W a)"
    unfolding run_phase6_bidirectional_cli_def
    by (intro claims_connected claims_returned same_lines_calls) (auto dest!: with_runner_Inr phase6_returns)
qed

lemma claims_then:
  assumes "claims p A I m" and "\<And>x s. same_lines p s (snd (f x s))"
  shows "claims p A I (bindM m f)"
  unfolding claims_def
proof (intro allI impI)
  fix s assume s: "I s"
  obtain r t where m: "m s = (r, t)" by fastforce
  then have "same_lines p s t \<or> A" using assms(1) s by (auto simp: claims_def)
  then show "same_lines p s (snd (bindM m f s)) \<or> A"
    using m assms(2) by (cases r) (auto simp: bindM_def intro: lines.kept_trans)
qed

lemma resume_quiet:
  "list_all (\<lambda>l. \<not> p l) ls \<Longrightarrow> same_lines p s (snd ((case x of Some n \<Rightarrow> retM n | None \<Rightarrow> reportM ls 0) s))"
  by (cases x) (simp_all add: same_lines_prints lines.kept_refl)

lemma claims_phase7: "claims_mode Phase7_Auth W a (run_phase7_auth_hybrid_cli W a)"
proof -
  let ?p = "prefix (success_line Phase7_Auth a)" and ?A = "session_authenticated Phase7_Auth W a"
  have body: "claims ?p ?A (\<lambda>_. True) (phase7_body W a)"
    unfolding phase7_body_def
    by (intro claims_bind [where J = "\<lambda>_. True"] claims_if claims_quiet [OF lines.kept_pure(1)] claims_returned same_lines_calls)
      (auto dest!: with_runner_Inr phase7_returns)
  have handler: "same_lines ?p s (snd (phase7_handler a e s))" for e s
    by (auto simp: phase7_handler_def Let_def same_lines_def prints_apply seqM_def bindM_def)
  have f: "claims ?p ?A (\<lambda>_. True) (phase7_finally (w_bleak W) a m)" if m: "claims ?p ?A (\<lambda>_. True) m" for m
    unfolding claims_def
  proof (intro allI impI)
    fix s
    obtain r t where rt: "m s = (r, t)" by fastforce
    have "same_lines ?p s (snd (m s)) \<or> ?A" using m unfolding claims_def by blast
    then have "same_lines ?p s t \<or> ?A" using rt by simp
    moreover obtain q u where qu: "onC (client_disconnect (w_bleak W)) t = (q, u)" by fastforce
    moreover from qu have "cl_out u = cl_out t" using out_kept(1) [of "client_disconnect (w_bleak W)" t] by simp
    ultimately show "same_lines ?p s (snd (phase7_finally (w_bleak W) a m s)) \<or> ?A"
      using rt by (cases q) (auto simp: phase7_finally_def Let_def seqM_def bindM_def prints_apply same_lines_def)
  qed
  show ?thesis
    unfolding run_phase7_auth_hybrid_cli_def
    by (intro claims_seq [where J = "\<lambda>_. True"] claims_then resume_quiet f claims_catch body handler same_lines_calls) simp_all
qed

lemma claims_v1: "claims_mode V1_Smp W a (run_v1_smp_l4_mlkem_cli W a)"
proof -
  let ?p = "prefix (success_line V1_Smp a)" and ?A = "session_authenticated V1_Smp W a"
  let ?I = "\<lambda>s. fresh_client (cl_client s)"
  have scan: "fresh_client (cl_client t)" if "fresh_client (cl_client s)" "onC (client_scan_and_connect (w_bleak W)) s = (Inr x, t)" for s t x
    using that scan_fresh(1) [OF that(1)] by (auto simp: onC_def Let_def split: prod.splits)
  have missing: "same_lines ?p s (snd (seqM (if a_v1_cp2 a \<or> a_v1_cp3 a \<or> a_v1_cp4 a then printM (positive_marker a @ '': FAIL'') else retM ()) (retM (Some 1)) s))" for s
    by (intro lines.kept_seq lines.kept_if same_lines_prints lines.kept_pure) (simp add: positive_marker_def)
  have call: "same_lines ?p s (snd (run_v1_selected W a s))" for s
    unfolding run_v1_selected_def Let_def by (intro lines.kept_if lines.kept_bind same_lines_calls lines.kept_pure)
  have body: "claims ?p ?A ?I (v1_body W a)"
    unfolding v1_body_def
    by (rule claims_bind [where J = ?I, OF same_lines_calls(1) scan], assumption+)
      (intro claims_if claims_quiet [OF missing] claims_returned [OF call], simp add: selected_returns)
  have handler: "same_lines ?p s (snd (v1_handler a e s))" for e s
    by (auto simp: v1_handler_def Let_def same_lines_def prints_apply seqM_def bindM_def positive_marker_def)
  have quiet: "same_lines ?p s (snd (v1_finally (w_bleak W) a s))" for s
    unfolding v1_finally_def by (intro lines.kept_seq lines.kept_if same_lines_calls lines.kept_pure)
  show ?thesis
    unfolding run_v1_smp_l4_mlkem_cli_def
    by (intro claims_seq [where J = ?I] claims_then resume_quiet claims_finally claims_catch body handler quiet same_lines_calls)
      (auto simp: new_client_apply init_fresh positive_marker_def)
qed

lemma claims_profile: "claims_mode New_Profile W a (run_resumption_cli W a)"
proof -
  let ?p = "prefix (success_line New_Profile a)" and ?A = "session_authenticated New_Profile W a"
  let ?profile = "if a_v08_resume_hybrid a then V08 else V11"
  define I J :: "cli \<Rightarrow> bool" where "I s \<longleftrightarrow> cl_client s = BLECentralClient_init (a_device a)"
    and "J s \<longleftrightarrow> bc_device (cl_client s) = bl_scan (w_bleak W) [ScanName (a_device a)]" for s
  have scan: "J t" if "I s" "onC (client_scan_and_connect (w_bleak W)) s = (Inr x, t)" for s t x
    using that scan_fresh(2) [OF init_fresh(1)] by (auto simp: I_def J_def onC_def init_fresh Let_def split: prod.splits)
  have run: ?A if "J s" "with_v1 (w_pairing W) (session_result (Result_init ?profile) (w_tickets W) [] no_security_info)
      (run_session (w_bleak W) (w_resume W) P (w_third W) ?profile (Sas5Console (w_console W)) (a_resume_full a)
         (a_resume_negative_test_only a) None) s = (Inr r, t)" for P s r t
  proof (cases "a_resume_negative_test_only a")
    case None
    note loc = that
    let ?res = "session_result (Result_init ?profile) (w_tickets W) [] no_security_info"
    obtain u where "run_session (w_bleak W) (w_resume W) P (w_third W) ?profile (Sas5Console (w_console W)) (a_resume_full a) None None
        (new_v1_run (cl_client s) (w_pairing W) ?res) = (Inr r, u)"
      using with_v1_Inr [OF loc(2)] None by auto
    note sound = session_sound [OF this]
    have "rx_store ?res = w_tickets W" by (simp add: session_result_def v1_cp1_result.defs)
    then have start: "client_address (rn_client (vr_runner (new_v1_run (cl_client s) (w_pairing W) ?res))) = bl_scan (w_bleak W) [ScanName (a_device a)]"
      "rx_store (vr_result (new_v1_run (cl_client s) (w_pairing W) ?res)) = w_tickets W"
      using loc(1) by (simp_all add: J_def client_address_def new_v1_run_def new_runner_def)
    then show ?thesis
      using sound unfolding start session_authenticated.simps authenticated_profile_def Let_def by blast
  qed simp
  have body: "claims ?p ?A I (bindM (onC (client_scan_and_connect (w_bleak W))) (\<lambda>connected. if \<not> connected then retM 1
      else bindM (with_v1 (w_pairing W) (session_result (Result_init ?profile) (w_tickets W) [] no_security_info)
      (run_session (w_bleak W) (w_resume W) P (w_third W) ?profile (Sas5Console (w_console W)) (a_resume_full a)
         (a_resume_negative_test_only a) None)) f))" for P and f :: "resume_result \<Rightarrow> (cli, int) meth"
    by (rule claims_bind [where J = J, OF same_lines_calls(1) scan], assumption+)
      (intro claims_if claims_quiet [OF lines.kept_pure(1)] claims_returned [OF same_lines_calls(3)], erule run, assumption)
  show ?thesis
    unfolding run_resumption_cli_def Let_def
    by (intro claims_seq [where J = I] claims_finally claims_catch body lines.kept_pure same_lines_calls)
      (simp_all add: I_def new_client_apply)
qed

lemma run_mode_claims: "claims_mode m W a (run_mode m W a)"
  by (cases m; simp only: run_mode.simps claims_phase5 claims_phase6 claims_phase7 claims_v1 claims_profile; simp add: claims_def)

section \<open>Properties\<close>

text \<open>
  C13. Accepted arguments select one mode, and every option given is one this mode uses: the mode is the one whose option was
  given, the human comparison of the SAS is left out in no authenticated mode, each negative test runs in its own mode only,
  at most one checkpoint or negative test of v1.0 is selected, and a forced full handshake is not combined with a negative
  test. Otherwise the program refuses with exit code 2.
\<close>

theorem dispatch_permitted:
  "case parse_args args of
     None \<Rightarrow> main W args = (Inr 2, new_process)
   | Some a \<Rightarrow> a = args \<and> (main W args = (Inr 2, new_process) \<or> mode_permitted a (dispatch a) \<and> dispatch a \<noteq> Refused)"
proof (cases "parse_args args")
  case None
  then show ?thesis by (simp add: main_def)
next
  case (Some a)
  have d: "declared_ok args" using Some by (simp add: parse_args_def split: if_splits)
  note a = parsed_args [OF Some]
  have "mode_permitted args (dispatch args)" if "dispatch args \<noteq> Refused"
    using one_mode [OF d] that Some declared_truthy [OF d]
    by (simp add: upt_rec numeral_eq_Suc execution_modes_def)
      (elim disjE; simp add: mode_permitted_def only_for_def dispatch_def parse_args_def new_profile_def execution_modes_def split: if_splits; auto)
  then show ?thesis using Some a by (cases "dispatch args = Refused") (simp_all add: main_def retM_def)
qed

text \<open>
  C15. The exit code is the verdict. In every mode but the historical flow and resumption the program ends with exit code 0, 1 or 2
  and never with an exception, whatever the device, the packages and the user do; it prints exactly one success verdict if
  the exit code is 0, and none otherwise: not when a payload cannot be decoded after some lines were printed, not when a
  negative test could not be carried out, and not when the disconnect after a v0.7 negative test fails.
\<close>

theorem exit_code_is_verdict:
  "case main W args of (r, s) \<Rightarrow>
     if reports_verdict (dispatch args)
     then (\<exists>n. r = Inr n \<and> n \<in> {0, 1, 2} \<and> length (filter passes (cl_out s)) = (if n = 0 then 1 else 0)) else True"
proof (cases "main W args = (Inr 2, new_process)")
  case True
  then show ?thesis by (simp add: new_process_def)
next
  case False
  then have m: "main W args = run_mode (dispatch args) W args new_process" "dispatch args \<noteq> Refused"
    using False by (auto simp: main_def dest: parsed_args split: option.splits)
  obtain r s where rs: "main W args = (r, s)" by fastforce
  have "\<exists>n. r = Inr n \<and> n \<in> {0, 1, 2} \<and> length (filter passes (cl_out s)) = code n" if v: "reports_verdict (dispatch args)"
  proof -
    have run: "run_mode (dispatch args) W args new_process = (r, s)" using m(1) rs by simp
    then have "r \<in> {Inr 0, Inr 1}" using exits_mode [OF v m(2)] unfolding exits_def by (metis fst_conv)
    then obtain n where "r = Inr n" "n \<in> {0, 1}" by auto
    then show ?thesis using scoredD [OF scored_mode [OF v m(2)] run] by (auto simp: new_process_def)
  qed
  then show ?thesis using rs by auto
qed

text \<open>
  C5. A success verdict means an authenticated session. If the program, started with any arguments, prints the success line of
  the authenticated mode that ran, then no negative test of the mode was selected and: the user at the console confirmed the SAS of
  the key schedule and the FINISHED\_P of that schedule came in (v0.5, v0.6, v0.7); or the link was attested at Level 4 and the
  selected checkpoint of v1.0 was completed with the peer, up to the two authenticated PONGs; or, in an ordinary session of v0.8 or
  v1.1, the device found by the scan proved to know the root of a stored ticket, which with \<open>--resume-full\<close> is not enough,
  or completed the full handshake.
\<close>

theorem success_is_authenticated:
  "case main W args of (r, s) \<Rightarrow>
     if list_ex (prefix (success_line (dispatch args) args)) (cl_out s)
     then session_authenticated (dispatch args) W args else True"
proof -
  obtain r s where rs: "main W args = (r, s)" by fastforce
  have "session_authenticated (dispatch args) W args" if "list_ex (prefix (success_line (dispatch args) args)) (cl_out s)"
  proof (cases "parse_args args")
    case None
    then show ?thesis using rs that by (auto simp: main_def new_process_def)
  next
    case (Some a)
    then have "run_mode (dispatch args) W args new_process = (r, s)" using rs parsed_args [OF Some] by (simp add: main_def)
    then have "same_lines (prefix (success_line (dispatch args) args)) new_process s \<or> session_authenticated (dispatch args) W args"
      using run_mode_claims [of "dispatch args" args W] unfolding claims_def by (metis snd_conv)
    then show ?thesis using that by (auto simp: same_lines_def new_process_def list_ex_iff filter_empty_conv)
  qed
  then show ?thesis using rs by simp
qed

text \<open>
  C14. Every mode gives the connection back. However a mode ends, with a verdict, an exception or a device that was not found,
  the client owns no session or application object and no subscription afterwards, and its link is down or its disconnect was the last
  request made. The historical flow is the exception: its disconnect is skipped when ending the subscription fails.
\<close>

theorem main_ends_connection:
  "case main W args of (r, s) \<Rightarrow> if dispatch args = Legacy then True else client_ended (w_bleak W) (cl_client s)"
proof (cases "main W args = (Inr 2, new_process)")
  case True
  then show ?thesis using init_fresh by (simp add: new_process_def client_ended_def fresh_client_def)
next
  case False
  then have m: "main W args = run_mode (dispatch args) W args new_process" "dispatch args \<noteq> Refused"
    by (auto simp: main_def dest: parsed_args split: option.splits)
  then show ?thesis using ends_mode [of "dispatch args" W args] by (auto simp: leaves_ended_def split: prod.split) (metis snd_conv)
qed

end
