(* ===== verification/Spec2Isabelle.thy ===== *)
theory Spec2Isabelle
  imports Resume_Store Phase6_Runner Phase7_Runner V1_Cp4_Runner Resume_Runner Command_Line
begin

text \<open>
  A verification development for pq-ble-handshake, a Python implementation of post-quantum and hybrid
  key establishment over Bluetooth Low Energy between a Central (\<open>src/central\<close>) and a Peripheral
  (firmware, with an experimental Python counterpart under \<open>experimental/peripheral\<close>). The protocol
  code proper is \<open>src/common\<close>; \<open>src/central\<close> holds the GATT client and one runner per protocol version.

  \<^bold>\<open>Theories and the code they model\<close>

  \<^item> Prelude: exceptions as values (\<open>exn\<close>, \<open>'a result\<close>), byte-level helpers, frame layout, length-prefixed
    fields and their injectivity. Hashing: SHA-256, HMAC and CRC-32 written out, as the standard library
    computes them. Constants: \<open>constants.py\<close>, the record \<open>third_party\<close> of library functions, their laws and a
    concrete instance that satisfies all of them, on which the witnesses run.
  \<^item> Interfaces: stateful methods (\<open>('s, 'a) meth\<close>, the outcome of a method call on an object), runs of
    method calls, and the locales shared by components: strict frame codecs (interpreted for PQS5, PQS6,
    PQS7, PQV1 and PQRS frames), canonical transcripts (v0.5, v0.7, v1.0), fail-closed objects.
  \<^item> Fragmentation: \<open>fragmentation.py\<close>. Session: \<open>sas.py\<close>, \<open>phase2_diagnostic.py\<close>, \<open>session.py\<close> (the AES-GCM
    channel). Session\_Store: \<open>session_store.py\<close>, with its JSON file and the clock in the state.
  \<^item> Phase5: \<open>phase5.py\<close>, \<open>phase6.py\<close>. Phase7: \<open>phase7.py\<close>.
  \<^item> V1\_Frames, V1\_Handshake, V1\_Application: \<open>v1_smp_mlkem.py\<close>, \<open>v1_cp2.py\<close>, \<open>v1_cp3.py\<close>, \<open>v1_cp4.py\<close>.
  \<^item> Resumption, Resume\_Full, Resume\_Store: \<open>resumption.py\<close>, \<open>resume_full.py\<close>, \<open>resume_hybrid.py\<close>,
    \<open>resume_store.py\<close>.
  \<^item> Gatt\_Transport: \<open>ble_client.py\<close> and \<open>ble_server.py\<close>. Legacy\_Handshake: \<open>ml_kem.py\<close>, both \<open>handshake.py\<close>
    and both \<open>secure_channel.py\<close>.
  \<^item> Runner, Phase5\_Runner, Phase6\_Runner, Phase7\_Runner: the coroutines of \<open>mlkem_e2e.py\<close>,
    \<open>phase3_secure.py\<close>, \<open>phase5_auth.py\<close>, \<open>phase6_c2p.py\<close>, \<open>phase7_hybrid.py\<close> and \<open>phase7_auth.py\<close>, stage by stage.
  \<^item> Pairing: \<open>winrt_pairing.py\<close> and the console confirmation of \<open>main.py\<close>; the threads of WinRT, the event
    loop and the human interleave as steps of a relation that refines a small consent protocol.
  \<^item> V1\_Runner: \<open>v1_smp_mlkem.py\<close> (the run of v1.0: probes, pairing, negative tests, CP1) and \<open>v1_cp2.py\<close> of
    \<open>src/central\<close>. V1\_Cp3\_Runner: \<open>src/central/v1_cp3.py\<close>, with the client's session object and the
    callbacks, guard task and timeout that may intervene at every wait. V1\_Cp4\_Runner:
    \<open>src/central/v1_cp4.py\<close>, the application rounds on the session CP3 completed.
    Resume\_Runner: \<open>src/central/resumption.py\<close>, sessions of v0.8 and v1.1 that resume a stored ticket or fall back to the
    full handshake; the readings of the clock, random values and I/O errors of the store are its environment.
  \<^item> Command\_Line: \<open>main.py\<close>, the argument checks, the choice of a mode and one function per mode that runs the
    runner above on a new client, catches what it raises, disconnects and reports a verdict and an exit code.

  \<^bold>\<open>State and operations\<close>

  A Python object is a record, a method a function from the object to its outcome and the object after
  it; the object is returned also when the method raises, so that fail-closed behaviour can be stated.
  Module constants keep their names. Errors keep the class and the fixed part of the message.
  A coroutine that interacts with the Peripheral is a function of the \<open>bleak\<close> record: for every
  history of GATT operations it gives the result of the last one, whether the link is up, the MTU, and
  the notifications queued so far. The Peripheral is thus arbitrary (and may depend on everything sent),
  except where a theorem names a live link or an honest peer. Waiting is a read of the
  queue after a recorded \<open>AwaitNotify\<close>; polling loops of the historical handshake run over the list of turns the
  event loop gives them. The clock is a function or an argument, random values are arguments.
  Sensitive \<open>bytearray\<close> locals of a coroutine are entries of \<open>rn_buf\<close>, so that wiping them can be stated.

  An honest peer, where a theorem needs one (\<open>peer5_step\<close>, \<open>answer6\<close>, \<open>peer7_step\<close>, \<open>dk_step\<close>), is a specification
  of the other end of the link: a state machine folded over the Central's GATT operations, whose outputs
  are the notifications. It reassembles and decapsulates what it was sent, opens its session only on the right
  FINISHED\_C and answers only a PING it can decrypt; the end-to-end theorems also say in which state a run
  leaves it. A notification of \<open>dk_step\<close> comes in at the next wait, one of the others with the write it
  answers. Only the CP1 and CP2 runs of v1.0 have a peer with given replies.

  A save of the ticket store is the sequence of its system calls on a directory that records which files are
  not yet on the medium; every call may fail, and the list of the states passed through is what a reader or
  a power failure may find. The JSON file of the session store is read and written as a whole, restarts included.

  \<^bold>\<open>Parameters and their laws\<close>

  AES-GCM, HKDF, P-256 and ML-KEM-768 are packages outside this repository: fields of \<open>third_party\<close>.
  Hypotheses on them are \<open>aead_laws\<close>, \<open>hkdf_laws\<close>, \<open>p256_laws\<close> and \<open>kem_laws\<close> (output sizes, decryption inverts
  encryption and accepts only its output, ECDH commutes, decapsulation recovers the encapsulated secret).
  None states a secrecy or a collision property, so the theorems are about the protocol logic:
  which values are accepted, in which order and state, and what has been erased.

  \<^bold>\<open>What the lemmas show\<close>

  Codecs: exact round trips and strict parsers. Channels and application frames: delivery, no replay,
  acceptance of nothing but the peer's wires, distinct nonces. Handshake objects: acceptance conditions as
  equivalences, keys only in the secure state, fail-closed behaviour over every sequence of calls.
  Stores: budgets of uses over any calls and restarts, expiry, saves that are atomic whichever system call
  fails. Transport: fragments fit the MTU, permuted
  fragments reassemble, buffers are released once. Runners: nothing that depends on the user's
  consent precedes it, application data needs a verified FINISHED\_P, a run that returns is
  authenticated, a run against an honest peer returns, and every buffer is wiped whatever ends the run. Pairing: no
  acceptance without the human's consent for the PIN shown, in every interleaving; a stopped ceremony is
  final. v1.0 runners: nothing secret moves before a strict Level-4 attestation, a run that raises leaves no
  open session object. Resumption: a session that returns was proved by the peer, no ticket is touched before the attestation
  of v1.1, nothing usable is left behind. Command line: no authenticated mode runs without its human comparison, and the exit
  code agrees with the verdict printed.

  \<^bold>\<open>Bounds and fuel\<close>

  Every loop of the model is structurally recursive or over a given list (fragments, files, turns,
  rounds), so all functions are total and no fuel is needed. Sequence numbers keep their 64-bit bound,
  fragment indices their 8-bit bound, fragment and frame lengths their 16-bit bound.

  \<^bold>\<open>Not modelled\<close>

  WinRT itself, bleak, liboqs and cryptography are parameters, and so is the parser of \<open>argparse\<close>: an argument record is what
  it returns. \<open>measurement.py\<close>, \<open>logging_config.py\<close>, the start-up of the experimental Peripheral, \<open>scripts\<close>, benchmarks and
  tests are instrumentation or glue. Log output, and printed lines with durations or exception texts, are left out. Cancellation of a run from outside (Ctrl-C) is left out, except during the console confirmation.
  I/O errors of the session store and of the deletion of a ticket file are left out, and so are a
  session file whose JSON is not an object, and buffers that are replaced without being wiped: a record shows
  what an object holds, not the memory it held before.
  The firmware is C and not part of this development; the Peripheral's behaviour is arbitrary, except for the
  honest peers above.
\<close>

end
